(* ===== verification/Clay_Prelude.thy ===== *)
theory Clay_Prelude imports Main begin

text \<open>
  The shared vocabulary of the development: the machine integers of the Rust code, its
  \<open>Result\<close> type, and generic facts on lists that several components need.

  \<^bold>\<open>Integers.\<close> \<open>u64\<close> and \<open>usize\<close> values are natural numbers with the bound of a 64-bit
  target written out: \<open>sat_add\<close> and \<open>checked_add\<close> are the standard library's
  \<open>saturating_add\<close> and \<open>checked_add\<close>; \<open>saturating_sub\<close> is subtraction on \<open>nat\<close>, which
  stops at 0. A plain \<open>+ 1\<close> of the source is written \<open>wrap_add\<close> where it can reach the bound.

  \<^bold>\<open>Results.\<close> \<open>Result<T, E>\<close> is the sum \<open>'e + 't\<close>, with \<open>Inl\<close> for \<open>Err\<close> and \<open>Inr\<close> for \<open>Ok\<close>.
\<close>

named_theorems clay_defs \<open>definitions unfolded by the proofs of a component\<close>

section \<open>Machine integers\<close>

definition u64_max :: nat where
  "u64_max = 2 ^ 64 - 1"

definition sat_add :: "nat \<Rightarrow> nat \<Rightarrow> nat" where
  "sat_add a b = min (a + b) u64_max"

definition checked_add :: "nat \<Rightarrow> nat \<Rightarrow> nat option" where
  "checked_add a b = (if a + b \<le> u64_max then Some (a + b) else None)"

definition checked_sub :: "nat \<Rightarrow> nat \<Rightarrow> nat option" where
  "checked_sub a b = (if b \<le> a then Some (a - b) else None)"

definition wrap_add :: "nat \<Rightarrow> nat \<Rightarrow> nat" where
  "wrap_add a b = (a + b) mod (u64_max + 1)"

text \<open>\<open>usize::try_from(u64)\<close>: it fails only above the bound of \<open>usize\<close>.\<close>

definition try_usize :: "nat \<Rightarrow> nat option" where
  "try_usize n = (if n \<le> u64_max then Some n else None)"

lemma sat_add_le: "sat_add a b \<le> a + b"
  by (simp add: sat_add_def)

lemma sat_add_bound [simp]: "sat_add a b \<le> u64_max"
  by (simp add: sat_add_def)

lemma sat_add_exact: "a + b \<le> u64_max \<Longrightarrow> sat_add a b = a + b"
  by (simp add: sat_add_def)

lemma sat_add_ge: "a \<le> u64_max \<Longrightarrow> a \<le> sat_add a b"
  by (simp add: sat_add_def)

lemma checked_add_SomeD: "checked_add a b = Some c \<Longrightarrow> c = a + b \<and> c \<le> u64_max"
  by (simp add: checked_add_def split: if_splits)

lemma checked_sub_SomeD: "checked_sub a b = Some c \<Longrightarrow> c = a - b \<and> b \<le> a"
  by (simp add: checked_sub_def split: if_splits)

lemma wrap_add_exact: "a + b \<le> u64_max \<Longrightarrow> wrap_add a b = a + b"
  by (simp add: wrap_add_def)

lemma try_usize_SomeD: "try_usize n = Some m \<Longrightarrow> m = n \<and> n \<le> u64_max"
  by (simp add: try_usize_def split: if_splits)

section \<open>Results\<close>

definition bind_result :: "'e + 'a \<Rightarrow> ('a \<Rightarrow> 'e + 'b) \<Rightarrow> 'e + 'b" where
  "bind_result r f = (case r of Inl e \<Rightarrow> Inl e | Inr x \<Rightarrow> f x)"

definition ok_or :: "'a option \<Rightarrow> 'e \<Rightarrow> 'e + 'a" where
  "ok_or x e = (case x of None \<Rightarrow> Inl e | Some y \<Rightarrow> Inr y)"

lemma bind_result_simps [simp]:
  "bind_result (Inl e) f = Inl e"
  "bind_result (Inr x) f = f x"
  by (simp_all add: bind_result_def)

lemma bind_result_Inr:
  "bind_result r f = Inr y \<longleftrightarrow> (\<exists>x. r = Inr x \<and> f x = Inr y)"
  by (cases r) simp_all

lemma bind_result_Inl:
  "bind_result r f = Inl e \<longleftrightarrow> r = Inl e \<or> (\<exists>x. r = Inr x \<and> f x = Inl e)"
  by (cases r) simp_all

lemma ok_or_simps [simp]:
  "ok_or None e = Inl e"
  "ok_or (Some x) e = Inr x"
  by (simp_all add: ok_or_def)

lemma ok_or_Inr: "ok_or x e = Inr y \<longleftrightarrow> x = Some y"
  by (cases x) simp_all

section \<open>Lists\<close>

text \<open>\<open>Iterator::position\<close>: the index of the first element that satisfies a predicate.\<close>

fun position :: "('a \<Rightarrow> bool) \<Rightarrow> 'a list \<Rightarrow> nat option" where
  "position p [] = None"
| "position p (x # xs) = (if p x then Some 0 else map_option Suc (position p xs))"

lemma position_SomeD:
  "position p xs = Some i \<Longrightarrow> i < length xs \<and> p (xs ! i) \<and> (\<forall>j<i. \<not> p (xs ! j))"
proof (induction xs arbitrary: i)
  case (Cons x xs)
  then show ?case
    by (cases i) (auto simp: less_Suc_eq_0_disj split: if_splits)
qed simp

lemma position_None: "position p xs = None \<longleftrightarrow> (\<forall>x\<in>set xs. \<not> p x)"
  by (induction xs) auto

lemma position_find:
  "position p xs = Some i \<Longrightarrow> find p xs = Some (xs ! i)"
  by (induction xs arbitrary: i) (auto split: if_splits)

lemma position_unique:
  "i < length xs \<Longrightarrow> p (xs ! i) \<Longrightarrow> (\<And>j. j < length xs \<Longrightarrow> p (xs ! j) \<Longrightarrow> j = i) \<Longrightarrow> position p xs = Some i"
proof (cases "position p xs")
  case None
  then show "i < length xs \<Longrightarrow> p (xs ! i) \<Longrightarrow> position p xs = Some i" by (simp add: position_None)
next
  case (Some k)
  then show "(\<And>j. j < length xs \<Longrightarrow> p (xs ! j) \<Longrightarrow> j = i) \<Longrightarrow> position p xs = Some i"
    using position_SomeD[OF Some] by simp
qed

text \<open>\<open>Vec::swap\<close>, \<open>Vec::remove\<close> and \<open>Vec::insert\<close>, for indices the source has checked.\<close>

definition swap_at :: "nat \<Rightarrow> nat \<Rightarrow> 'a list \<Rightarrow> 'a list" where
  "swap_at i j xs = xs[i := xs ! j, j := xs ! i]"

definition remove_at :: "nat \<Rightarrow> 'a list \<Rightarrow> 'a list" where
  "remove_at i xs = take i xs @ drop (Suc i) xs"

definition insert_at_index :: "nat \<Rightarrow> 'a \<Rightarrow> 'a list \<Rightarrow> 'a list" where
  "insert_at_index i x xs = take i xs @ x # drop i xs"

lemma length_swap_at [simp]: "length (swap_at i j xs) = length xs"
  by (simp add: swap_at_def)

lemma set_swap_at [simp]:
  "i < length xs \<Longrightarrow> j < length xs \<Longrightarrow> set (swap_at i j xs) = set xs"
  by (simp add: swap_at_def)

lemma distinct_swap_at [simp]:
  "i < length xs \<Longrightarrow> j < length xs \<Longrightarrow> distinct (swap_at i j xs) = distinct xs"
  by (simp add: swap_at_def)

lemma map_swap_at:
  "i < length xs \<Longrightarrow> j < length xs \<Longrightarrow> map f (swap_at i j xs) = swap_at i j (map f xs)"
  by (simp add: swap_at_def map_update)

lemma length_remove_at [simp]: "i < length xs \<Longrightarrow> length (remove_at i xs) = length xs - 1"
  by (simp add: remove_at_def)

lemma map_remove_at: "map f (remove_at i xs) = remove_at i (map f xs)"
  by (simp add: remove_at_def take_map drop_map)

lemma map_insert_at_index:
  "map f (insert_at_index i x xs) = insert_at_index i (f x) (map f xs)"
  by (simp add: insert_at_index_def take_map drop_map)

lemma set_remove_at_subset: "set (remove_at i xs) \<subseteq> set xs"
  by (auto simp: remove_at_def dest: in_set_takeD in_set_dropD)

lemma min_last_index [simp]: "xs \<noteq> [] \<Longrightarrow> min k (length xs - Suc 0) < length xs"
  by (cases xs) auto

lemma split_at_index:
  "i < length xs \<Longrightarrow> xs = take i xs @ xs ! i # drop (Suc i) xs"
  by (simp add: id_take_nth_drop)

lemma distinct_remove_at:
  assumes "distinct xs"
  shows "distinct (remove_at i xs)"
proof -
  have "distinct (take i xs @ drop i xs)"
    using assms by simp
  then have "set (take i xs) \<inter> set (drop i xs) = {}"
    by (simp only: distinct_append)
  moreover have "set (drop (Suc i) xs) \<subseteq> set (drop i xs)"
    by (simp add: set_drop_subset_set_drop)
  ultimately show ?thesis
    using assms by (auto simp: remove_at_def)
qed

lemma set_remove_at:
  assumes "i < length xs" and "distinct xs"
  shows "set (remove_at i xs) = set xs - {xs ! i}"
proof -
  have "distinct (take i xs @ xs ! i # drop (Suc i) xs)"
    using assms(2) split_at_index[OF assms(1)] by simp
  moreover have "set xs = set (take i xs @ xs ! i # drop (Suc i) xs)"
    using split_at_index[OF assms(1)] by simp
  ultimately show ?thesis by (auto simp: remove_at_def)
qed

lemma set_insert_at_index: "set (insert_at_index i x xs) = insert x (set xs)"
  by (metis Un_insert_right append_take_drop_id insert_at_index_def list.simps(15) set_append)

lemma distinct_insert_at_index:
  "distinct (insert_at_index i x xs) \<longleftrightarrow> x \<notin> set xs \<and> distinct xs"
proof -
  have "distinct (take i xs @ drop i xs) \<longleftrightarrow> distinct xs" by simp
  moreover have "set (take i xs) \<union> set (drop i xs) = set xs"
    by (metis append_take_drop_id set_append)
  ultimately show ?thesis
    by (auto simp: insert_at_index_def simp del: append_take_drop_id)
qed

lemma find_SomeD: "find p xs = Some x \<Longrightarrow> x \<in> set xs \<and> p x"
  by (auto simp: find_Some_iff)

end
