(* ===== verification/Clay_Text.thy ===== *)
theory Clay_Text imports Clay_Prelude begin

text \<open>
  Rust text. A \<open>char\<close> is a Unicode scalar value (its number), a \<open>String\<close> or \<open>&str\<close> the list
  of its scalars; the code addresses text by UTF-8 byte offsets, so the theory relates byte
  offsets to positions in the list.

  \<^item> \<open>char_index t n\<close> is the number of scalars that end at or before byte \<open>n\<close>: taking that
    many scalars rounds \<open>n\<close> down to a scalar boundary.
  \<^item> \<open>is_boundary t n\<close> is \<open>str::is_char_boundary\<close>.
  \<^item> \<open>text_slice\<close> and \<open>text_splice\<close> read and replace a byte range.
  \<^item> \<open>text_line_len\<close>, \<open>text_line_of_byte\<close>, \<open>text_byte_of_line\<close> count lines that end in LF.

  The lemmas show that boundaries are exactly the byte lengths of prefixes, that rounding is
  monotone, and how slices, splices and line offsets compose.
\<close>

section \<open>Scalars and byte lengths\<close>

type_synonym uchar = nat
type_synonym ustr = "uchar list"

text \<open>\<open>char::len_utf8\<close>.\<close>

definition len_utf8 :: "uchar \<Rightarrow> nat" where
  "len_utf8 c = (if c < 128 then 1 else if c < 2048 then 2 else if c < 65536 then 3 else 4)"

abbreviation newline :: uchar where "newline \<equiv> 10"
abbreviation carriage_return :: uchar where "carriage_return \<equiv> 13"

text \<open>\<open>char::is_whitespace\<close>: the 25 scalars of the Unicode property White_Space.\<close>

definition is_whitespace :: "uchar \<Rightarrow> bool" where
  "is_whitespace c \<longleftrightarrow>
     (9 \<le> c \<and> c \<le> 13) \<or> c = 32 \<or> c = 133 \<or> c = 160 \<or> c = 5760 \<or> (8192 \<le> c \<and> c \<le> 8202) \<or>
     c = 8232 \<or> c = 8233 \<or> c = 8239 \<or> c = 8287 \<or> c = 12288"

text \<open>\<open>char::is_control\<close>: the general category Cc.\<close>

definition is_control :: "uchar \<Rightarrow> bool" where
  "is_control c \<longleftrightarrow> c < 32 \<or> (127 \<le> c \<and> c < 160)"

text \<open>A string literal of the source.\<close>

definition lit :: "string \<Rightarrow> ustr" where
  "lit s = map of_char s"

lemma lit_eq_iff: "lit a = lit b \<longleftrightarrow> a = b"
  by (auto simp: lit_def inj_map_eq_map[OF inj_of_char])

fun byte_len :: "ustr \<Rightarrow> nat" where
  "byte_len [] = 0"
| "byte_len (c # cs) = len_utf8 c + byte_len cs"

lemma len_utf8_pos [simp]: "0 < len_utf8 c"
  by (simp add: len_utf8_def)

lemma len_utf8_neq_0 [simp]: "len_utf8 c \<noteq> 0"
  by (simp add: len_utf8_def)

lemma len_utf8_le_4: "len_utf8 c \<le> 4"
  by (simp add: len_utf8_def)

lemma len_utf8_newline [simp]: "len_utf8 newline = 1"
  by (simp add: len_utf8_def)

lemma len_utf8_carriage_return [simp]: "len_utf8 carriage_return = 1"
  by (simp add: len_utf8_def)

lemma byte_len_append [simp]: "byte_len (s @ t) = byte_len s + byte_len t"
  by (induction s) simp_all

lemma byte_len_eq_0 [simp]: "byte_len t = 0 \<longleftrightarrow> t = []"
  by (cases t) simp_all

lemma byte_len_pos [simp]: "0 < byte_len t \<longleftrightarrow> t \<noteq> []"
  by (cases t) simp_all

lemma byte_len_rev [simp]: "byte_len (rev t) = byte_len t"
  by (induction t) simp_all

lemma length_le_byte_len: "length t \<le> byte_len t"
  by (induction t) (auto simp: Suc_le_eq intro: le_less_trans)

lemma byte_len_take_drop: "byte_len (take k t) + byte_len (drop k t) = byte_len t"
  by (metis append_take_drop_id byte_len_append)

lemma byte_len_take_le: "byte_len (take k t) \<le> byte_len t"
  using byte_len_take_drop[of k t] by linarith

lemma byte_len_take_mono: "j \<le> k \<Longrightarrow> byte_len (take j t) \<le> byte_len (take k t)"
  by (metis byte_len_take_le min.absorb1 take_take)

lemma byte_len_take_strict:
  assumes "j < k" and "j < length t"
  shows "byte_len (take j t) < byte_len (take k t)"
proof -
  have "byte_len (take j t) < byte_len (take (Suc j) t)"
    using assms(2) by (simp add: take_Suc_conv_app_nth)
  also have "\<dots> \<le> byte_len (take k t)"
    using assms(1) by (intro byte_len_take_mono) simp
  finally show ?thesis .
qed

lemma byte_len_take_inj:
  assumes "byte_len (take j t) = byte_len (take k t)" "j \<le> length t" "k \<le> length t"
  shows "j = k"
proof (rule ccontr)
  assume "j \<noteq> k"
  then consider "j < k" | "k < j" by linarith
  then show False
    using assms byte_len_take_strict[of j k t] byte_len_take_strict[of k j t] by cases auto
qed

section \<open>Byte offsets and scalar positions\<close>

fun char_index :: "ustr \<Rightarrow> nat \<Rightarrow> nat" where
  "char_index [] n = 0"
| "char_index (c # cs) n = (if len_utf8 c \<le> n then Suc (char_index cs (n - len_utf8 c)) else 0)"

fun is_boundary :: "ustr \<Rightarrow> nat \<Rightarrow> bool" where
  "is_boundary [] n = (n = 0)"
| "is_boundary (c # cs) n = (n = 0 \<or> (len_utf8 c \<le> n \<and> is_boundary cs (n - len_utf8 c)))"

text \<open>The greatest boundary at or below a byte offset.\<close>

definition floor_boundary :: "ustr \<Rightarrow> nat \<Rightarrow> nat" where
  "floor_boundary t n = byte_len (take (char_index t n) t)"

lemma char_index_le_length [simp]: "char_index t n \<le> length t"
  by (induction t n rule: char_index.induct) auto

lemma floor_boundary_le: "floor_boundary t n \<le> n"
  unfolding floor_boundary_def
  by (induction t n rule: char_index.induct) auto

lemma floor_boundary_le_len: "floor_boundary t n \<le> byte_len t"
  by (simp add: floor_boundary_def byte_len_take_le)

lemma char_index_0 [simp]: "char_index t 0 = 0"
  by (cases t) simp_all

lemma char_index_take [simp]: "char_index t (byte_len (take k t)) = min k (length t)"
proof (induction t arbitrary: k)
  case (Cons c t)
  then show ?case by (cases k) auto
qed simp

lemma char_index_all [simp]: "char_index t (byte_len t) = length t"
  using char_index_take[of t "length t"] by simp

lemma char_index_beyond: "byte_len t \<le> n \<Longrightarrow> char_index t n = length t"
  by (induction t n rule: char_index.induct) auto

lemma char_index_mono: "a \<le> b \<Longrightarrow> char_index t a \<le> char_index t b"
proof (induction t a arbitrary: b rule: char_index.induct)
  case (2 c cs n)
  then show ?case by (auto simp: diff_le_mono)
qed simp

lemma char_index_min [simp]: "char_index t (min n (byte_len t)) = char_index t n"
  by (cases "n \<le> byte_len t") (auto simp: min_def char_index_beyond)

lemma is_boundary_iff_floor: "is_boundary t n \<longleftrightarrow> floor_boundary t n = n"
  unfolding floor_boundary_def
proof (induction t n rule: char_index.induct)
  case (2 c cs n)
  then show ?case by (cases "n = 0") auto
qed auto

lemma is_boundary_iff: "is_boundary t n \<longleftrightarrow> (\<exists>k\<le>length t. n = byte_len (take k t))"
proof
  assume "is_boundary t n"
  then have "byte_len (take (char_index t n) t) = n"
    by (simp add: is_boundary_iff_floor floor_boundary_def)
  then show "\<exists>k\<le>length t. n = byte_len (take k t)"
    by (metis char_index_le_length)
qed (auto simp: is_boundary_iff_floor floor_boundary_def)

lemma is_boundary_take [simp]: "is_boundary t (byte_len (take k t))"
  by (simp add: is_boundary_iff_floor floor_boundary_def min_def)

lemma is_boundary_0 [simp]: "is_boundary t 0"
  by (cases t) simp_all

lemma is_boundary_len [simp]: "is_boundary t (byte_len t)"
  using is_boundary_take[of t "length t"] by simp

lemma is_boundary_le: "is_boundary t n \<Longrightarrow> n \<le> byte_len t"
  by (auto simp: is_boundary_iff byte_len_take_le)

lemma is_boundary_floor [simp]: "is_boundary t (floor_boundary t n)"
  by (simp add: floor_boundary_def)

lemma floor_boundary_id [simp]: "is_boundary t n \<Longrightarrow> floor_boundary t n = n"
  by (simp add: is_boundary_iff_floor)

lemma floor_boundary_mono: "a \<le> b \<Longrightarrow> floor_boundary t a \<le> floor_boundary t b"
  by (simp add: floor_boundary_def byte_len_take_mono char_index_mono)

lemma floor_boundary_greatest:
  "is_boundary t b \<Longrightarrow> b \<le> n \<Longrightarrow> b \<le> floor_boundary t n"
  using floor_boundary_mono[of b n t] by simp

lemma floor_boundary_beyond: "byte_len t \<le> n \<Longrightarrow> floor_boundary t n = byte_len t"
  by (simp add: floor_boundary_def char_index_beyond)

lemma char_index_floor [simp]: "char_index t (floor_boundary t n) = char_index t n"
  by (simp add: floor_boundary_def min_def)

lemma floor_boundary_Suc:
  assumes "\<not> is_boundary t (Suc n)" shows "floor_boundary t (Suc n) = floor_boundary t n"
proof -
  have "floor_boundary t (Suc n) \<le> n"
    using assms floor_boundary_le[of t "Suc n"] by (simp add: is_boundary_iff_floor le_Suc_eq)
  then have "floor_boundary t (Suc n) \<le> floor_boundary t n"
    by (rule floor_boundary_greatest[OF is_boundary_floor])
  then show ?thesis by (simp add: floor_boundary_mono le_antisym)
qed

lemma char_index_eq_0: "is_boundary t n \<Longrightarrow> char_index t n = 0 \<longleftrightarrow> n = 0"
  by (metis byte_len.simps(1) char_index_0 floor_boundary_def is_boundary_iff_floor take0)

lemma char_index_lt_length:
  "is_boundary t n \<Longrightarrow> char_index t n < length t \<longleftrightarrow> n < byte_len t"
proof
  assume b: "is_boundary t n" and "char_index t n < length t"
  then have "byte_len (take (char_index t n) t) < byte_len (take (length t) t)"
    by (intro byte_len_take_strict) auto
  then show "n < byte_len t"
    using b by (simp add: is_boundary_iff_floor floor_boundary_def)
next
  assume b: "is_boundary t n" and "n < byte_len t"
  then show "char_index t n < length t"
    using is_boundary_iff_floor[of t n] le_neq_implies_less[OF char_index_le_length[of t n]]
    by (fastforce simp: floor_boundary_def)
qed

lemma char_index_strict_mono:
  assumes "is_boundary t a" "is_boundary t b" "a < b"
  shows "char_index t a < char_index t b"
  using assms
  by (metis char_index_mono floor_boundary_def is_boundary_iff_floor less_imp_le nat_less_le)

lemma boundary_take_eq: "is_boundary t n \<Longrightarrow> byte_len (take (char_index t n) t) = n"
  by (simp add: is_boundary_iff_floor floor_boundary_def)

lemma boundary_drop_eq: "is_boundary t n \<Longrightarrow> byte_len (drop (char_index t n) t) = byte_len t - n"
  using byte_len_take_drop[of "char_index t n" t] by (simp add: boundary_take_eq)

lemma char_index_append:
  "char_index (s @ t) n =
     (if n < byte_len s then char_index s n else length s + char_index t (n - byte_len s))"
proof (induction s arbitrary: n)
  case (Cons c s)
  then show ?case by (auto simp: less_diff_conv2 add.commute)
qed simp

lemma is_boundary_append:
  "is_boundary (s @ t) (byte_len s + n) = is_boundary t n"
  by (auto simp: is_boundary_iff_floor floor_boundary_def char_index_append)

lemma is_boundary_append_left:
  "n \<le> byte_len s \<Longrightarrow> is_boundary (s @ t) n = is_boundary s n"
  by (cases "n = byte_len s")
    (auto simp: is_boundary_iff_floor floor_boundary_def char_index_append)
lemma boundary_prefix: "is_boundary (p @ q) (byte_len p)"
  by (simp add: is_boundary_append_left)

lemma boundary_prefix2: "is_boundary (p @ m @ q) (byte_len p + byte_len m)"
  by (simp add: is_boundary_append boundary_prefix)

section \<open>Slices and splices\<close>

text \<open>The text between two byte offsets, and the text with that range replaced.\<close>

definition text_slice :: "ustr \<Rightarrow> nat \<Rightarrow> nat \<Rightarrow> ustr" where
  "text_slice t a b = take (char_index t b - char_index t a) (drop (char_index t a) t)"

definition text_splice :: "ustr \<Rightarrow> nat \<Rightarrow> nat \<Rightarrow> ustr \<Rightarrow> ustr" where
  "text_splice t a b s = take (char_index t a) t @ s @ drop (char_index t b) t"

lemma boundary_split:
  assumes "is_boundary t n"
  obtains p q where "t = p @ q" and "n = byte_len p"
  using assms by (metis append_take_drop_id boundary_take_eq)

lemma boundary_split_range:
  assumes "is_boundary t a" and "is_boundary t b" and "a \<le> b"
  obtains p m q where "t = p @ m @ q" and "a = byte_len p" and "b = byte_len p + byte_len m"
proof -
  obtain r q where t: "t = r @ q" and b: "b = byte_len r"
    using boundary_split[OF assms(2)] .
  have "is_boundary r a"
    using assms(1,3) by (simp add: t b is_boundary_append_left)
  then obtain p m where "r = p @ m" "a = byte_len p"
    using boundary_split by blast
  then show thesis by (intro that[of p m q]) (simp_all add: t b)
qed

lemma char_index_prefix [simp]: "char_index (p @ q) (byte_len p) = length p"
  by (simp add: char_index_append)

lemma char_index_prefix2 [simp]:
  "char_index (p @ m @ q) (byte_len p + byte_len m) = length p + length m"
  by (simp add: char_index_append)

lemma text_slice_parts [simp]:
  "text_slice (p @ m @ q) (byte_len p) (byte_len p + byte_len m) = m"
  by (simp add: text_slice_def)

lemma text_splice_parts [simp]:
  "text_splice (p @ m @ q) (byte_len p) (byte_len p + byte_len m) s = p @ s @ q"
  by (simp add: text_splice_def)

lemma text_slice_parts0 [simp]: "text_slice (p @ q) (byte_len p) (byte_len p) = []"
  by (simp add: text_slice_def)

lemma text_slice_prefix [simp]: "text_slice (p @ q) 0 (byte_len p) = p"
  by (simp add: text_slice_def)

lemma text_slice_suffix [simp]: "text_slice (p @ q) (byte_len p) (byte_len p + byte_len q) = q"
  by (simp add: text_slice_def char_index_append)

lemma text_splice_parts0 [simp]: "text_splice (p @ q) (byte_len p) (byte_len p) s = p @ s @ q"
  by (simp add: text_splice_def)

lemma text_slice_self [simp]: "text_slice t a a = []"
  by (simp add: text_slice_def)

lemma text_slice_all [simp]: "text_slice t 0 (byte_len t) = t"
  by (simp add: text_slice_def)

lemma text_slice_from_0: "text_slice t 0 b = take (char_index t b) t"
  by (simp add: text_slice_def)

lemma text_slice_to_end: "text_slice t a (byte_len t) = drop (char_index t a) t"
  by (simp add: text_slice_def)

lemma byte_len_text_slice:
  assumes "is_boundary t a" and "is_boundary t b" and "a \<le> b"
  shows "byte_len (text_slice t a b) = b - a"
proof -
  obtain p m q where "t = p @ m @ q" "a = byte_len p" "b = byte_len p + byte_len m"
    using boundary_split_range[OF assms] .
  then show ?thesis by simp
qed

lemma byte_len_text_splice:
  assumes "is_boundary t a" and "is_boundary t b" and "a \<le> b"
  shows "byte_len (text_splice t a b s) = byte_len t - (b - a) + byte_len s"
proof -
  obtain p m q where "t = p @ m @ q" "a = byte_len p" "b = byte_len p + byte_len m"
    using boundary_split_range[OF assms] .
  then show ?thesis by simp
qed

lemma text_splice_boundaries:
  assumes "is_boundary t a" and "is_boundary t b" and "a \<le> b"
  shows "is_boundary (text_splice t a b s) a"
    and "is_boundary (text_splice t a b s) (a + byte_len s)"
proof -
  obtain p m q where "t = p @ m @ q" "a = byte_len p" "b = byte_len p + byte_len m"
    using boundary_split_range[OF assms] .
  then show "is_boundary (text_splice t a b s) a"
    and "is_boundary (text_splice t a b s) (a + byte_len s)"
    using is_boundary_append_left[of "byte_len p" p "s @ q"]
      is_boundary_append_left[of "byte_len p + byte_len s" "p @ s" q]
      is_boundary_len[of "p @ s"]
    by simp_all
qed

lemma text_splice_boundary_before:
  assumes "is_boundary t a" "is_boundary t b" "a \<le> b" "is_boundary t x" "x \<le> a"
  shows "is_boundary (text_splice t a b s) x"
proof -
  obtain p m q where "t = p @ m @ q" "a = byte_len p" "b = byte_len p + byte_len m"
    using boundary_split_range[OF assms(1-3)] .
  then show ?thesis using assms(4,5) by (simp add: is_boundary_append_left)
qed

lemma text_splice_boundary_after:
  assumes "is_boundary t a" "is_boundary t b" "a \<le> b" "is_boundary t x" "b \<le> x"
  shows "is_boundary (text_splice t a b s) (a + byte_len s + (x - b))"
proof -
  obtain p m q where t: "t = p @ m @ q" and ab: "a = byte_len p" "b = byte_len p + byte_len m"
    using boundary_split_range[OF assms(1-3)] .
  obtain y where "x = byte_len p + byte_len m + y"
    using assms(5) ab le_Suc_ex by blast
  then show ?thesis
    using assms(4) is_boundary_append[of "p @ m" q y] is_boundary_append[of "p @ s" q y]
    by (simp add: t ab)
qed

text \<open>Splicing the removed text back over the inserted one restores the text.\<close>

lemma text_splice_inverse:
  assumes "is_boundary t a" and "is_boundary t b" and "a \<le> b"
  shows "text_splice (text_splice t a b s) a (a + byte_len s) (text_slice t a b) = t"
proof -
  obtain p m q where "t = p @ m @ q" "a = byte_len p" "b = byte_len p + byte_len m"
    using boundary_split_range[OF assms] .
  then show ?thesis by simp
qed

text \<open>Outside the replaced range the text is kept.\<close>

lemma text_splice_before:
  assumes "is_boundary t a" "is_boundary t b" "a \<le> b" "is_boundary t x" "is_boundary t y" "y \<le> a"
  shows "text_slice (text_splice t a b s) x y = text_slice t x y"
proof -
  obtain p m q where t: "t = p @ m @ q" and ab: "a = byte_len p" "b = byte_len p + byte_len m"
    using boundary_split_range[OF assms(1-3)] .
  have "char_index (p @ r) y = char_index p y" "x \<le> y \<Longrightarrow> char_index (p @ r) x = char_index p x"
    for r using assms(6) ab by (auto simp: char_index_append char_index_beyond)
  then show ?thesis
    using char_index_mono[of y x t] char_index_mono[of y x "p @ s @ q"]
    by (cases "x \<le> y") (auto simp: t ab text_slice_def)
qed

lemma text_splice_after:
  assumes "is_boundary t a" "is_boundary t b" "a \<le> b" "b \<le> x" "b \<le> y"
  shows "text_slice (text_splice t a b s) (a + byte_len s + (x - b)) (a + byte_len s + (y - b))
       = text_slice t x y"
proof -
  obtain p m q where t: "t = p @ m @ q" and ab: "a = byte_len p" "b = byte_len p + byte_len m"
    using boundary_split_range[OF assms(1-3)] .
  obtain x' y' where "x = b + x'" "y = b + y'"
    using assms(4,5) le_Suc_ex by blast
  then show ?thesis
    by (simp add: t ab text_slice_def char_index_append[of "p @ s" q, simplified]
        char_index_append[of "p @ m" q, simplified])
qed

section \<open>Lines\<close>

text \<open>
  A line ends after its LF; the last line break does not open another line. Line \<open>l\<close> starts
  just after the \<open>l\<close>-th LF, or at the end of the text when there are fewer.
\<close>

fun text_byte_of_line :: "ustr \<Rightarrow> nat \<Rightarrow> nat" where
  "text_byte_of_line [] l = 0"
| "text_byte_of_line (c # cs) l =
     (if l = 0 then 0
      else len_utf8 c + text_byte_of_line cs (if c = newline then l - 1 else l))"

definition text_line_of_byte :: "ustr \<Rightarrow> nat \<Rightarrow> nat" where
  "text_line_of_byte t n = count_list (take (char_index t n) t) newline"

definition text_line_len :: "ustr \<Rightarrow> nat" where
  "text_line_len t =
     count_list t newline + (if t = [] \<or> last t = newline then 0 else 1)"

lemma text_byte_of_line_0 [simp]: "text_byte_of_line t 0 = 0"
  by (cases t) simp_all

lemma text_byte_of_line_le: "text_byte_of_line t l \<le> byte_len t"
  by (induction t l rule: text_byte_of_line.induct) simp_all

lemma text_byte_of_line_boundary [simp]: "is_boundary t (text_byte_of_line t l)"
  by (induction t l rule: text_byte_of_line.induct) simp_all

lemma text_byte_of_line_beyond:
  "count_list t newline < l \<Longrightarrow> text_byte_of_line t l = byte_len t"
  by (induction t l rule: text_byte_of_line.induct) (auto split: if_splits)

lemma text_byte_of_line_mono: "l \<le> l' \<Longrightarrow> text_byte_of_line t l \<le> text_byte_of_line t l'"
  by (induction t l arbitrary: l' rule: text_byte_of_line.induct) (auto simp: diff_le_mono)

lemma text_byte_of_line_append:
  "count_list p newline < l \<Longrightarrow>
   text_byte_of_line (p @ q) l = byte_len p + text_byte_of_line q (l - count_list p newline)"
  by (induction p arbitrary: l) auto

text \<open>The start of the line of a prefix: just after the prefix's last LF.\<close>

lemma line_prefix_split:
  obtains u v where "p = u @ v" and "newline \<notin> set v" and "u = [] \<or> last u = newline"
proof (induction p arbitrary: thesis rule: rev_induct)
  case Nil
  show ?case by (rule Nil[of "[]" "[]"]) simp_all
next
  case (snoc c p)
  show ?case
  proof (cases "c = newline")
    case True
    then show ?thesis by (intro snoc.prems[of "p @ [c]" "[]"]) simp_all
  next
    case False
    obtain u v where "p = u @ v" "newline \<notin> set v" "u = [] \<or> last u = newline"
      using snoc.IH .
    then show ?thesis using False by (intro snoc.prems[of u "v @ [c]"]) simp_all
  qed
qed

lemma text_byte_of_line_start:
  assumes "u = [] \<or> last u = newline"
  shows "text_byte_of_line (u @ q) (count_list u newline) = byte_len u"
proof (cases u rule: rev_cases)
  case (snoc u' c)
  then show ?thesis
    using assms by (simp add: text_byte_of_line_append)
qed simp

lemma text_byte_of_line_next:
  assumes "u = [] \<or> last u = newline" and "newline \<notin> set v"
  shows "text_byte_of_line (u @ v @ newline # q) (Suc (count_list u newline))
           = byte_len u + byte_len v + 1"
    and "text_byte_of_line (u @ v) (Suc (count_list u newline)) = byte_len u + byte_len v"
  using assms
  by (simp_all add: text_byte_of_line_append[of u] text_byte_of_line_append[of v]
      text_byte_of_line_beyond)

lemma count_list_take_le: "count_list (take k t) c \<le> count_list t c"
  by (metis append_take_drop_id count_list_append le_add1)

lemma text_line_of_byte_le_len: "text_line_of_byte t n \<le> text_line_len t"
  by (simp add: text_line_of_byte_def text_line_len_def count_list_take_le trans_le_add1)

lemma text_line_of_byte_mono: "a \<le> b \<Longrightarrow> text_line_of_byte t a \<le> text_line_of_byte t b"
proof -
  assume "a \<le> b"
  then have "take (char_index t a) t = take (char_index t a) (take (char_index t b) t)"
    using char_index_mono[of a b t] by (simp add: min_def)
  then have "count_list (take (char_index t b) t) newline =
      count_list (take (char_index t a) t) newline
      + count_list (drop (char_index t a) (take (char_index t b) t)) newline"
    by (metis append_take_drop_id count_list_append)
  then show ?thesis by (simp add: text_line_of_byte_def)
qed

lemma text_line_start_le: "text_byte_of_line t (text_line_of_byte t n) \<le> floor_boundary t n"
proof -
  obtain u v where p: "take (char_index t n) t = u @ v" "newline \<notin> set v"
      and u: "u = [] \<or> last u = newline"
    using line_prefix_split[of "take (char_index t n) t"] .
  then have t: "t = u @ v @ drop (char_index t n) t"
    by (metis append.assoc append_take_drop_id)
  have "text_line_of_byte t n = count_list u newline"
    using p by (simp add: text_line_of_byte_def)
  then have "text_byte_of_line t (text_line_of_byte t n) = byte_len u"
    using text_byte_of_line_start[OF u] t by metis
  then show ?thesis by (simp add: floor_boundary_def p)
qed

lemma text_byte_of_line_len: "text_line_len t \<le> l \<Longrightarrow> text_byte_of_line t l = byte_len t"
proof -
  assume l: "text_line_len t \<le> l"
  show ?thesis
  proof (cases "count_list t newline < l")
    case True
    then show ?thesis by (rule text_byte_of_line_beyond)
  next
    case False
    then have "t = [] \<or> last t = newline" "l = count_list t newline"
      using l by (auto simp: text_line_len_def split: if_splits)
    then show ?thesis using text_byte_of_line_start[of t "[]"] by simp
  qed
qed

lemma text_byte_of_line_min [simp]:
  "text_byte_of_line t (min l (text_line_len t)) = text_byte_of_line t l"
  by (simp add: min_def text_byte_of_line_len)

lemma text_line_of_byte_floor [simp]:
  "text_line_of_byte t (floor_boundary t n) = text_line_of_byte t n"
  by (simp add: text_line_of_byte_def)

lemma text_line_len_le: "text_line_len t \<le> byte_len t"
proof (cases t rule: rev_cases)
  case (snoc u c)
  have "count_list u newline \<le> byte_len u"
    using count_le_length[of u newline] length_le_byte_len[of u] by linarith
  then show ?thesis using snoc by (simp add: text_line_len_def) (use len_utf8_pos[of c] in linarith)
qed (simp add: text_line_len_def)

text \<open>The line around a boundary: what precedes it, its content, its LF if it has one.\<close>

lemma text_line_parts:
  assumes "is_boundary t n"
  obtains u v w br q where "t = u @ v @ w @ br @ q" "n = byte_len u + byte_len v"
    "newline \<notin> set v" "newline \<notin> set w" "br = [newline] \<or> br = [] \<and> q = []"
    "text_byte_of_line t (text_line_of_byte t n) = byte_len u"
    "text_byte_of_line t (Suc (text_line_of_byte t n))
       = byte_len u + byte_len v + byte_len w + byte_len br"
proof -
  obtain p r where p: "t = p @ r" "n = byte_len p" using boundary_split[OF assms] .
  obtain u v where u: "p = u @ v" "newline \<notin> set v" "u = [] \<or> last u = newline"
    using line_prefix_split[of p] .
  have line: "text_line_of_byte t n = count_list u newline"
    using p u by (simp add: text_line_of_byte_def)
  have start: "text_byte_of_line t (text_line_of_byte t n) = byte_len u"
    unfolding line using text_byte_of_line_start[OF u(3), of "v @ r"] by (simp add: p u(1))
  define w where "w = takeWhile (\<lambda>c. c \<noteq> newline) r"
  have w: "newline \<notin> set (v @ w)" using u(2) by (auto simp: w_def dest: set_takeWhileD)
  show thesis
  proof (cases "dropWhile (\<lambda>c. c \<noteq> newline) r")
    case Nil
    then have r: "r = w" by (metis w_def append_Nil2 takeWhile_dropWhile_id)
    have "text_byte_of_line t (Suc (text_line_of_byte t n)) = byte_len u + byte_len v + byte_len w"
      unfolding line using text_byte_of_line_next(2)[OF u(3) w] by (simp add: p u(1) r)
    then show thesis
      using start w p u(1) r by (intro that[of u v w "[]" "[]"]) auto
  next
    case (Cons c q)
    then have c: "c = newline" using hd_dropWhile[of "\<lambda>c. c \<noteq> newline" r] by simp
    have r: "r = w @ newline # q" using Cons c by (metis w_def takeWhile_dropWhile_id)
    have "text_byte_of_line t (Suc (text_line_of_byte t n)) = byte_len u + byte_len v + byte_len w + 1"
      unfolding line using text_byte_of_line_next(1)[OF u(3) w, of q] by (simp add: p u(1) r)
    then show thesis
      using start w p u(1) r by (intro that[of u v w "[newline]" q]) auto
  qed
qed

end
