(* ===== verification/Package_Records.thy ===== *)
theory Package_Records imports Clay_Text "HOL-Library.List_Lexorder" "HOL-Library.Product_Lexorder" "HOL-Library.AList" begin

text \<open>
  The data packages are described by: capabilities (\<open>packages/permissions.rs\<close>), sources and provenance
  (\<open>packages/manager.rs\<close>), relations between packages (\<open>packages/extension_points.rs\<close>,
  \<open>packages/graph.rs\<close>), manifests (\<open>packages/manifest.rs\<close>) and the records the package service
  keeps (\<open>packages/record.rs\<close>). Of the contribution descriptors the fields that the service and the
  conflict check read are kept; a descriptor of which only the identifier is read is that identifier.

  The strings compared as bytes in Rust are lists of scalars here; both orders are lexicographic and agree.
\<close>

section \<open>Capabilities\<close>

datatype package_permission =
    ModeRegistration | ModeActivation | CommandRegistration | PackageConfiguration | ParseDocument
  | RenderDecorations | RenderFolding | CompletionProvider | LanguageServer | PackageControl | PackageImport
  | EditorControl | Filesystem | Network | Shell | Wasm | AiTools | WorkspaceMutation | NativeUi
  | ClientRuntime | RawOps

fun permission_as_str :: "package_permission \<Rightarrow> ustr" where
  "permission_as_str ModeRegistration = lit ''mode-registration''"
| "permission_as_str ModeActivation = lit ''mode-activation''"
| "permission_as_str CommandRegistration = lit ''command-registration''"
| "permission_as_str PackageConfiguration = lit ''package-configuration''"
| "permission_as_str ParseDocument = lit ''parse-document''"
| "permission_as_str RenderDecorations = lit ''render-decorations''"
| "permission_as_str RenderFolding = lit ''render-folding''"
| "permission_as_str CompletionProvider = lit ''completion-provider''"
| "permission_as_str LanguageServer = lit ''language-server''"
| "permission_as_str PackageControl = lit ''package-control''"
| "permission_as_str PackageImport = lit ''package-import''"
| "permission_as_str EditorControl = lit ''editor-control''"
| "permission_as_str Filesystem = lit ''filesystem''"
| "permission_as_str Network = lit ''network''"
| "permission_as_str Shell = lit ''shell''"
| "permission_as_str Wasm = lit ''wasm''"
| "permission_as_str AiTools = lit ''ai-tools''"
| "permission_as_str WorkspaceMutation = lit ''workspace-mutation''"
| "permission_as_str NativeUi = lit ''native-ui''"
| "permission_as_str ClientRuntime = lit ''client-runtime''"
| "permission_as_str RawOps = lit ''raw-ops''"

text \<open>\<open>parse_permission\<close>; \<open>None\<close> is the error for an unknown name.\<close>

definition parse_permission :: "ustr \<Rightarrow> package_permission option" where
  "parse_permission name = map_of (map (\<lambda>p. (permission_as_str p, p))
     [ModeRegistration, ModeActivation, CommandRegistration, PackageConfiguration, ParseDocument, RenderDecorations,
      RenderFolding, CompletionProvider, LanguageServer, PackageControl, PackageImport, EditorControl, Filesystem,
      Network, Shell, Wasm, AiTools, WorkspaceMutation, NativeUi, ClientRuntime, RawOps]) name"

definition is_prohibited_authority :: "ustr \<Rightarrow> bool" where
  "is_prohibited_authority name \<longleftrightarrow> name \<in> lit ` {''filesystem'', ''network'', ''shell'', ''wasm'', ''ai-tools'',
     ''workspace-mutation'', ''native-ui'', ''client-runtime'', ''raw-ops'', ''language-server'', ''package-control'',
     ''package-import''}"

lemma parse_permission_as_str [simp]: "parse_permission (permission_as_str p) = Some p"
  by (cases p; simp add: parse_permission_def lit_eq_iff)

lemma permission_as_str_inj: "permission_as_str p = permission_as_str q \<Longrightarrow> p = q"
  by (metis option.inject parse_permission_as_str)

section \<open>Provenance\<close>

datatype package_source_kind = ClayShipped | NpmRegistry | GitHub | GitUrl | Tarball | LocalPath

definition ascii_lowercase :: "ustr \<Rightarrow> ustr" where
  "ascii_lowercase s = map (\<lambda>c. if 65 \<le> c \<and> c \<le> 90 then c + 32 else c) s"

definition str_starts_with :: "ustr \<Rightarrow> ustr \<Rightarrow> bool" where
  "str_starts_with s p \<longleftrightarrow> take (length p) s = p"

definition str_ends_with :: "ustr \<Rightarrow> ustr \<Rightarrow> bool" where
  "str_ends_with s p \<longleftrightarrow> str_starts_with (rev s) (rev p)"

definition str_contains :: "ustr \<Rightarrow> ustr \<Rightarrow> bool" where
  "str_contains s p \<longleftrightarrow> list_ex (\<lambda>n. str_starts_with (drop n s) p) [0..<Suc (length s)]"

definition source_kind_from_spec :: "ustr \<Rightarrow> package_source_kind" where
  "source_kind_from_spec spec =
     (let lower = ascii_lowercase spec in
      if str_starts_with spec (lit ''@clay/'') then ClayShipped
      else if str_starts_with lower (lit ''github:'') then GitHub
      else if str_ends_with lower (lit ''.tgz'') \<or> str_ends_with lower (lit ''.tar.gz'') then Tarball
      else if str_starts_with lower (lit ''git+'') \<or> str_ends_with lower (lit ''.git'')
              \<or> str_contains lower (lit ''github.com/'') then GitUrl
      else if str_starts_with lower (lit ''file:'') \<or> str_starts_with spec (lit ''./'')
              \<or> str_starts_with spec (lit ''../'') \<or> str_starts_with spec (lit ''/'')
              \<or> str_starts_with spec (lit ''~'') then LocalPath
      else NpmRegistry)"

record package_provenance =
  pp_requested_spec :: ustr
  pp_source_kind :: package_source_kind
  pp_resolved_name :: ustr
  pp_resolved_version :: ustr
  pp_package_root :: ustr
  pp_integrity :: "ustr option"

text \<open>\<open>from_package_json\<close>: \<open>name\<close> and \<open>version\<close> are the string fields of the metadata, if present.\<close>

definition provenance_from_package_json :: "ustr \<Rightarrow> ustr option \<Rightarrow> ustr option \<Rightarrow> ustr \<Rightarrow> package_provenance" where
  "provenance_from_package_json requested_spec name version package_root =
     \<lparr>pp_requested_spec = requested_spec, pp_source_kind = source_kind_from_spec requested_spec,
      pp_resolved_name = (case name of Some n \<Rightarrow> n | None \<Rightarrow> requested_spec),
      pp_resolved_version = (case version of Some v \<Rightarrow> v | None \<Rightarrow> []),
      pp_package_root = package_root, pp_integrity = None\<rparr>"

section \<open>Relations\<close>

datatype relation_operation = Append_Op | Replace_Op

fun operation_as_str :: "relation_operation \<Rightarrow> ustr" where
  "operation_as_str Append_Op = lit ''append''"
| "operation_as_str Replace_Op = lit ''replace''"

lemma operation_as_str_inj [simp]: "operation_as_str a = operation_as_str b \<longleftrightarrow> a = b"
  by (cases a; cases b) (simp_all add: lit_def)

text \<open>Of an extension point, the contribution kinds and the summary are not read here.\<close>

record extension_point_declaration =
  ep_id :: ustr
  ep_version :: nat
  ep_operations :: "relation_operation list"
  ep_scopes :: "ustr list"

record structured_relation_request =
  sr_package :: ustr
  sr_extension_point :: ustr
  sr_version :: nat
  sr_operation :: relation_operation
  sr_scopes :: "ustr list"

datatype relation_verification_error =
    Unknown_Extension_Point ustr
  | Version_Mismatch ustr nat nat
  | Operation_Not_Offered ustr ustr

definition verify_relation_request ::
  "extension_point_declaration list \<Rightarrow> structured_relation_request \<Rightarrow>
   relation_verification_error + extension_point_declaration" where
  "verify_relation_request target_points request =
     (case find (\<lambda>point. ep_id point = sr_extension_point request) target_points of
        None \<Rightarrow> Inl (Unknown_Extension_Point (sr_extension_point request))
      | Some declaration \<Rightarrow>
          if ep_version declaration \<noteq> sr_version request
          then Inl (Version_Mismatch (sr_extension_point request) (ep_version declaration) (sr_version request))
          else if sr_operation request \<notin> set (ep_operations declaration)
          then Inl (Operation_Not_Offered (sr_extension_point request) (operation_as_str (sr_operation request)))
          else Inr declaration)"

record package_graph_relations =
  pg_depends_on :: "ustr list"
  pg_extends :: "ustr list"
  pg_disables :: "ustr list"
  pg_replaces :: "ustr list"
  pg_relation_requests :: "structured_relation_request list"

record package_graph_plan =
  gp_depends_on :: "ustr list"
  gp_extends :: "ustr list"
  gp_disables :: "ustr list"
  gp_replaces :: "ustr list"

definition plan_from_relations :: "package_graph_relations \<Rightarrow> package_graph_plan" where
  "plan_from_relations relations =
     \<lparr>gp_depends_on = pg_depends_on relations, gp_extends = pg_extends relations,
      gp_disables = pg_disables relations, gp_replaces = pg_replaces relations\<rparr>"

definition requires_package_control :: "package_graph_plan \<Rightarrow> bool" where
  "requires_package_control plan \<longleftrightarrow> gp_disables plan \<noteq> [] \<or> gp_replaces plan \<noteq> []"

definition activation_targets :: "package_graph_plan \<Rightarrow> ustr list" where
  "activation_targets plan = gp_depends_on plan @ gp_extends plan"

definition cycle_from_stack :: "ustr list \<Rightarrow> ustr \<Rightarrow> ustr list" where
  "cycle_from_stack stack package_name =
     drop (if package_name \<in> set stack then length (takeWhile (\<lambda>name. name \<noteq> package_name) stack) else 0) stack
       @ [package_name]"

section \<open>Records\<close>

record clay_package_metadata =
  cm_api_prefix :: ustr
  cm_permissions :: "package_permission list"
  cm_modes :: "ustr list"
  cm_graph :: package_graph_relations
  cm_extension_points :: "extension_point_declaration list"

record clay_package_manifest =
  mf_name :: ustr
  mf_version :: ustr
  mf_clay :: clay_package_metadata

record key_routing_descriptor =
  kr_key_binding :: "ustr option"
  kr_routing_policy :: "ustr option"
  kr_priority :: "int option"

record language_server_descriptor =
  ls_id :: ustr
  ls_executable :: ustr
  ls_args :: "ustr list"
  ls_inherit_environment :: "ustr list"

record package_contributions =
  pc_commands :: "ustr list"
  pc_configuration :: "ustr list"
  pc_key_routing :: "key_routing_descriptor list"
  pc_text_transforms :: "ustr list"
  pc_sdui :: "ustr list"
  pc_decorations :: "ustr list"
  pc_syntax_grammars :: "ustr list"
  pc_completion_providers :: "ustr list"
  pc_language_servers :: "language_server_descriptor list"
  pc_language_intelligence_providers :: "ustr list"
  pc_ui_panels :: "(ustr \<times> ustr) list"
  pc_ui_components :: "ustr list"
  pc_ui_overlays :: "ustr list"
  pc_theme_tokens :: "ustr list"
  pc_input_contributions :: "ustr list"
  pc_ui_state_scopes :: "ustr list"
  pc_layout_overrides :: "(ustr \<times> ustr) list"
  pc_package_options :: "ustr list"

datatype runtime_domain = Trusted_Domain | ThirdParty_Domain

record package_record =
  pr_manifest :: clay_package_manifest
  pr_contributions :: package_contributions
  pr_runtime_domain :: runtime_domain

abbreviation record_name :: "package_record \<Rightarrow> ustr" where
  "record_name r \<equiv> mf_name (pr_manifest r)"

abbreviation record_clay :: "package_record \<Rightarrow> clay_package_metadata" where
  "record_clay r \<equiv> mf_clay (pr_manifest r)"

end
