(* ===== verification/Package_Conflicts.thy ===== *)
theory Package_Conflicts imports Package_Records "HOL-Library.Multiset" begin

text \<open>
  The check for conflicts between enabled packages (\<open>packages/conflict.rs\<close>): each contribution of
  each package is entered into the index of its kind; the first identifier entered twice is
  the conflict. With a policy of user overrides, the loser of a conflict is dropped and the check
  repeated. The message of a diagnostic is left out.

  The lemmas show what the check decides, that its result does not depend on the order in which the hash map
  yields the packages, that the loop of the policy ends, and that what it leaves has no conflict.
\<close>

section \<open>Diagnostics\<close>

datatype package_conflict_kind =
    DuplicatePrefix | DuplicateMode | DuplicateCommand | AmbiguousKeyBinding | ConfigurationKeyCollision
  | SduiRegionCollision | DecorationPrimitiveCollision | UiPanelCollision | UiFixedSlotCollision | UiComponentCollision
  | UiOverlayCollision | ThemeTokenCollision | InputContributionCollision | UiStateScopeCollision
  | LayoutOverrideCollision | PackageOptionCollision | BehaviorManifestEntryCollision

record conflict_provenance =
  cv_package_name :: ustr
  cv_package_version :: ustr
  cv_api_prefix :: ustr

record conflict_diagnostic =
  cf_kind :: package_conflict_kind
  cf_contribution_id :: ustr
  cf_first :: conflict_provenance
  cf_second :: conflict_provenance

datatype resolution_reason = UserOverride | PackageReplaces | PackageDisables

record resolution_diagnostic =
  rd_contribution_id :: ustr
  rd_winner :: conflict_provenance
  rd_loser :: conflict_provenance
  rd_reason :: resolution_reason

type_synonym conflict_policy = "ustr \<Rightarrow> ustr option"

definition provenance_from_record :: "package_record \<Rightarrow> conflict_provenance" where
  "provenance_from_record r =
     \<lparr>cv_package_name = record_name r, cv_package_version = mf_version (pr_manifest r),
      cv_api_prefix = cm_api_prefix (record_clay r)\<rparr>"

definition set_user_override :: "conflict_policy \<Rightarrow> ustr \<Rightarrow> ustr \<Rightarrow> conflict_policy" where
  "set_user_override policy contribution_id winner = policy(contribution_id \<mapsto> winner)"

section \<open>The check\<close>

text \<open>Decimal display of a number.\<close>

fun nat_digits :: "nat \<Rightarrow> ustr" where
  "nat_digits n = (if n < 10 then [48 + n] else nat_digits (n div 10) @ [48 + n mod 10])"

definition int_display :: "int \<Rightarrow> ustr" where
  "int_display i = (if i < 0 then 45 # nat_digits (nat (- i)) else nat_digits (nat i))"

text \<open>
  The entries one package makes, in the order of the code. An index is named by the kind of its collisions;
  entries of the behavior manifest carry their prefix.
\<close>

type_synonym claim = "package_conflict_kind \<times> ustr"

definition key_id :: "key_routing_descriptor \<Rightarrow> ustr \<Rightarrow> ustr" where
  "key_id key binding =
     binding @ lit '':'' @ (case kr_routing_policy key of None \<Rightarrow> [] | Some p \<Rightarrow> p) @ lit '':''
       @ int_display (case kr_priority key of None \<Rightarrow> 0 | Some i \<Rightarrow> i)"

definition key_claims :: "key_routing_descriptor \<Rightarrow> claim list" where
  "key_claims key =
     (case kr_key_binding key of
        None \<Rightarrow> []
      | Some binding \<Rightarrow>
          [(AmbiguousKeyBinding, key_id key binding),
           (BehaviorManifestEntryCollision, lit ''key:'' @ key_id key binding)])"

definition record_claims :: "package_record \<Rightarrow> claim list" where
  "record_claims r =
     (let c = pr_contributions r in
      map (\<lambda>mode. (DuplicateMode, mode)) (cm_modes (record_clay r))
      @ concat (map (\<lambda>command. [(DuplicateCommand, command),
          (BehaviorManifestEntryCollision, lit ''command:'' @ command)]) (pc_commands c))
      @ concat (map key_claims (pc_key_routing c))
      @ map (\<lambda>key. (ConfigurationKeyCollision, key)) (pc_configuration c)
      @ map (\<lambda>region. (SduiRegionCollision, region)) (pc_sdui c)
      @ map (\<lambda>primitive. (DecorationPrimitiveCollision, primitive)) (pc_decorations c)
      @ concat (map (\<lambda>(panel, slot). [(UiPanelCollision, panel), (UiFixedSlotCollision, slot)]) (pc_ui_panels c))
      @ map (\<lambda>component. (UiComponentCollision, component)) (pc_ui_components c)
      @ map (\<lambda>overlay. (UiOverlayCollision, overlay)) (pc_ui_overlays c)
      @ map (\<lambda>token. (ThemeTokenCollision, token)) (pc_theme_tokens c)
      @ map (\<lambda>i. (InputContributionCollision, i)) (pc_input_contributions c)
      @ map (\<lambda>scope. (UiStateScopeCollision, scope)) (pc_ui_state_scopes c)
      @ map (\<lambda>(target, property). (LayoutOverrideCollision, target @ lit '':'' @ property)) (pc_layout_overrides c)
      @ map (\<lambda>option. (PackageOptionCollision, option)) (pc_package_options c)
      @ map (\<lambda>transform. (BehaviorManifestEntryCollision, lit ''transform:'' @ transform)) (pc_text_transforms c)
      @ [(DuplicatePrefix, cm_api_prefix (record_clay r))])"

type_synonym conflict_index = "claim \<Rightarrow> conflict_provenance option"

definition insert_unique :: "conflict_index \<Rightarrow> claim \<Rightarrow> conflict_provenance \<Rightarrow> conflict_diagnostic + conflict_index" where
  "insert_unique index claim prov =
     (case index claim of
        Some first \<Rightarrow> Inl \<lparr>cf_kind = fst claim, cf_contribution_id = snd claim, cf_first = first, cf_second = prov\<rparr>
      | None \<Rightarrow> Inr (index(claim \<mapsto> prov)))"

fun insert_claims :: "conflict_index \<Rightarrow> claim list \<Rightarrow> conflict_provenance \<Rightarrow> conflict_diagnostic + conflict_index" where
  "insert_claims index [] prov = Inr index"
| "insert_claims index (claim # claims) prov =
     bind_result (insert_unique index claim prov) (\<lambda>index. insert_claims index claims prov)"

fun check_records :: "conflict_index \<Rightarrow> package_record list \<Rightarrow> conflict_diagnostic + unit" where
  "check_records index [] = Inr ()"
| "check_records index (r # rs) =
     bind_result (insert_claims index (record_claims r) (provenance_from_record r)) (\<lambda>index. check_records index rs)"

definition sort_key_of :: "package_record \<Rightarrow> ustr \<times> ustr \<times> ustr" where
  "sort_key_of r = (cm_api_prefix (record_clay r), record_name r, mf_version (pr_manifest r))"

definition check_enabled_packages :: "package_record list \<Rightarrow> conflict_diagnostic + unit" where
  "check_enabled_packages enabled = check_records Map.empty (sort_key sort_key_of enabled)"

text \<open>Keep the winner the user chose; \<open>None\<close> when the override names neither side.\<close>

definition override_loser :: "conflict_policy \<Rightarrow> conflict_diagnostic \<Rightarrow> (ustr \<times> ustr) option" where
  "override_loser policy conflict =
     (case policy (cf_contribution_id conflict) of
        None \<Rightarrow> None
      | Some winner \<Rightarrow>
          if cv_package_name (cf_first conflict) = winner then Some (winner, cv_package_name (cf_second conflict))
          else if cv_package_name (cf_second conflict) = winner then Some (winner, cv_package_name (cf_first conflict))
          else None)"

definition override_resolution :: "conflict_diagnostic \<Rightarrow> ustr \<Rightarrow> ustr \<Rightarrow> resolution_diagnostic" where
  "override_resolution conflict winner loser =
     \<lparr>rd_contribution_id = cf_contribution_id conflict,
      rd_winner = (if cv_package_name (cf_first conflict) = winner then cf_first conflict else cf_second conflict),
      rd_loser = (if cv_package_name (cf_first conflict) = loser then cf_first conflict else cf_second conflict),
      rd_reason = UserOverride\<rparr>"

section \<open>What the check decides\<close>

lemma insert_unique_cases:
  obtains (fresh) "insert_unique index claim prov = Inr (index(claim \<mapsto> prov))" "index claim = None"
  | (taken) first where "index claim = Some first"
      "insert_unique index claim prov =
         Inl \<lparr>cf_kind = fst claim, cf_contribution_id = snd claim, cf_first = first, cf_second = prov\<rparr>"
  by (cases "index claim") (auto simp: insert_unique_def)

lemma insert_claims_Inr:
  "(\<exists>index'. insert_claims index claims prov = Inr index') \<longleftrightarrow> distinct claims \<and> set claims \<inter> dom index = {}"
proof (induction claims arbitrary: index)
  case (Cons claim claims)
  show ?case
    by (cases rule: insert_unique_cases[of index claim prov]) (auto simp: Cons.IH split: if_splits)
qed simp

lemma insert_claims_dom:
  "insert_claims index claims prov = Inr index' \<Longrightarrow> dom index' = dom index \<union> set claims"
proof (induction claims arbitrary: index)
  case (Cons claim claims)
  then show ?case
    by (cases rule: insert_unique_cases[of index claim prov]) (auto simp: Cons.IH)
qed simp

lemma insert_claims_ran:
  assumes "ran index \<subseteq> P" and "prov \<in> P"
  shows "(\<forall>index'. insert_claims index claims prov = Inr index' \<longrightarrow> ran index' \<subseteq> P)
    \<and> (\<forall>d. insert_claims index claims prov = Inl d \<longrightarrow> cf_first d \<in> P \<and> cf_second d = prov)"
  using assms
proof (induction claims arbitrary: index)
  case (Cons claim claims)
  show ?case
  proof (cases rule: insert_unique_cases[of index claim prov])
    case fresh
    have "ran (index(claim \<mapsto> prov)) \<subseteq> P" using Cons.prems fresh(2) by (auto simp: ran_def split: if_splits)
    from Cons.IH[OF this Cons.prems(2)] show ?thesis unfolding insert_claims.simps fresh(1) bind_result_simps .
  next
    case (taken first)
    then have "first \<in> P" using Cons.prems(1) ranI[of index claim first] by blast
    then show ?thesis using taken by simp
  qed
qed simp

definition all_claims :: "package_record list \<Rightarrow> claim list" where
  "all_claims rs = concat (map record_claims rs)"

lemma check_records_iff:
  "check_records index rs = Inr () \<longleftrightarrow> distinct (all_claims rs) \<and> set (all_claims rs) \<inter> dom index = {}"
proof (induction rs arbitrary: index)
  case (Cons r rs)
  show ?case
  proof (cases "insert_claims index (record_claims r) (provenance_from_record r)")
    case (Inl d)
    then have "\<not> (distinct (record_claims r) \<and> set (record_claims r) \<inter> dom index = {})"
      using insert_claims_Inr[of index "record_claims r" "provenance_from_record r"] by simp
    then show ?thesis using Inl by (auto simp: all_claims_def)
  next
    case (Inr index')
    have "distinct (record_claims r) \<and> set (record_claims r) \<inter> dom index = {}"
      using insert_claims_Inr[of index "record_claims r" "provenance_from_record r"] Inr by blast
    then show ?thesis using Inr insert_claims_dom[OF Inr] Cons.IH[of index'] by (auto simp: all_claims_def)
  qed
qed (simp add: all_claims_def)

lemma mset_all_claims: "mset (all_claims rs) = (\<Sum>r\<in>#mset rs. mset (record_claims r))"
  by (induction rs) (simp_all add: all_claims_def)

text \<open>The packages have no conflict exactly when no entry is made twice.\<close>

lemma check_enabled_packages_iff: "check_enabled_packages rs = Inr () \<longleftrightarrow> distinct (all_claims rs)"
proof -
  have "mset (all_claims (sort_key sort_key_of rs)) = mset (all_claims rs)" by (simp add: mset_all_claims)
  from mset_eq_imp_distinct_iff[OF this] show ?thesis
    unfolding check_enabled_packages_def check_records_iff by simp
qed

lemma check_enabled_packages_subset:
  assumes "check_enabled_packages rs = Inr ()" and "mset rs' \<subseteq># mset rs"
  shows "check_enabled_packages rs' = Inr ()"
proof -
  obtain es where es: "mset rs = mset rs' + mset es" using assms(2) by (metis ex_mset mset_subset_eq_exists_conv)
  have "mset (all_claims rs) = mset (all_claims (rs' @ es))" by (simp add: mset_all_claims es)
  moreover have "distinct (all_claims rs)" using assms(1) by (simp add: check_enabled_packages_iff)
  ultimately have "distinct (all_claims (rs' @ es))" by (metis mset_eq_imp_distinct_iff)
  then show ?thesis by (simp add: check_enabled_packages_iff all_claims_def)
qed

text \<open>Whatever order the hash map yields, the same conflict is found.\<close>

lemma check_enabled_packages_perm:
  assumes "mset rs = mset rs'" and "distinct (map record_name rs)"
  shows "check_enabled_packages rs = check_enabled_packages rs'"
proof -
  have "inj_on record_name (set rs)" using assms(2) by (simp add: distinct_map)
  then have "inj_on sort_key_of (set rs)" by (auto simp: inj_on_def sort_key_of_def)
  then have "sort_key sort_key_of rs = sort_key sort_key_of rs'"
    using assms(1) by (intro sort_key_inj_key_eq) simp_all
  then show ?thesis by (simp add: check_enabled_packages_def)
qed

text \<open>Both sides of a conflict are packages that were checked.\<close>

lemma check_records_conflict:
  assumes "check_records index rs = Inl d" and "ran index \<subseteq> P" and "provenance_from_record ` set rs \<subseteq> P"
  shows "cf_first d \<in> P \<and> cf_second d \<in> P"
  using assms
proof (induction rs arbitrary: index)
  case (Cons r rs)
  have p: "provenance_from_record r \<in> P" using Cons.prems(3) by simp
  note eff = insert_claims_ran[OF Cons.prems(2) p, of "record_claims r"]
  show ?case
  proof (cases "insert_claims index (record_claims r) (provenance_from_record r)")
    case (Inl e)
    then show ?thesis using Cons.prems(1) eff p by simp
  next
    case (Inr index')
    then show ?thesis using Cons.IH[of index'] Cons.prems eff by simp
  qed
qed simp

lemma check_enabled_packages_conflict:
  assumes "check_enabled_packages rs = Inl d"
  shows "cf_first d \<in> provenance_from_record ` set rs" and "cf_second d \<in> provenance_from_record ` set rs"
  using check_records_conflict[of Map.empty "sort_key sort_key_of rs" d "provenance_from_record ` set rs"] assms
  by (simp_all add: check_enabled_packages_def)

lemma override_loser_present:
  assumes "check_enabled_packages rs = Inl d" and "override_loser policy d = Some (winner, loser)"
  shows "loser \<in> record_name ` set rs" and "winner \<in> record_name ` set rs"
  using check_enabled_packages_conflict[OF assms(1)] assms(2)
  by (auto simp: override_loser_def provenance_from_record_def split: option.splits if_splits)

section \<open>Overrides\<close>

text \<open>\<open>check_enabled_packages_with_policy\<close>: the loop over the records that are left.\<close>

function check_with_policy ::
  "package_record list \<Rightarrow> conflict_policy \<Rightarrow> conflict_diagnostic + resolution_diagnostic list" where
  "check_with_policy records policy =
     (case check_enabled_packages records of
        Inr _ \<Rightarrow> Inr []
      | Inl conflict \<Rightarrow>
          (case override_loser policy conflict of
             None \<Rightarrow> Inl conflict
           | Some (winner, loser) \<Rightarrow>
               map_sum id ((#) (override_resolution conflict winner loser))
                 (check_with_policy (filter (\<lambda>r. record_name r \<noteq> loser) records) policy)))"
  by pat_completeness auto
termination
proof (relation "measure (\<lambda>(records, policy). length records)", goal_cases)
  case (2 records policy conflict pair winner loser)
  then have "loser \<in> record_name ` set records" using override_loser_present(1) by blast
  then show ?case by (auto intro: length_filter_less)
qed simp

declare check_with_policy.simps [simp del]

definition removed_by :: "resolution_diagnostic list \<Rightarrow> ustr set" where
  "removed_by resolutions = (\<lambda>r. cv_package_name (rd_loser r)) ` set resolutions"

lemma override_resolution_loser:
  assumes "override_loser policy conflict = Some (winner, loser)"
  shows "cv_package_name (rd_loser (override_resolution conflict winner loser)) = loser"
    and "cv_package_name (rd_winner (override_resolution conflict winner loser)) = winner"
    and "policy (rd_contribution_id (override_resolution conflict winner loser)) = Some winner"
  using assms by (auto simp: override_loser_def override_resolution_def split: option.splits if_splits)

text \<open>When the loop succeeds, what is left has no conflict, and only what the user chose against is gone.\<close>

lemma check_with_policy_ok:
  assumes "check_with_policy records policy = Inr resolutions"
  shows "check_enabled_packages (filter (\<lambda>r. record_name r \<notin> removed_by resolutions) records) = Inr ()
    \<and> (\<forall>r\<in>set resolutions. rd_reason r = UserOverride
         \<and> policy (rd_contribution_id r) = Some (cv_package_name (rd_winner r))
         \<and> cv_package_name (rd_loser r) \<in> record_name ` set records)"
  using assms
proof (induction records policy arbitrary: resolutions rule: check_with_policy.induct)
  case (1 records policy)
  show ?case
  proof (cases "check_enabled_packages records")
    case (Inr u)
    then show ?thesis using "1.prems" by (simp add: check_with_policy.simps removed_by_def)
  next
    case conflict: (Inl conflict)
    obtain winner loser rest where o: "override_loser policy conflict = Some (winner, loser)"
      "check_with_policy (filter (\<lambda>r. record_name r \<noteq> loser) records) policy = Inr rest"
      "resolutions = override_resolution conflict winner loser # rest"
      using "1.prems" conflict
      by (subst (asm) check_with_policy.simps) (auto split: option.splits sum.splits simp: map_sum_def)
    have IH: "check_enabled_packages (filter (\<lambda>r. record_name r \<notin> removed_by rest)
        (filter (\<lambda>r. record_name r \<noteq> loser) records)) = Inr ()
      \<and> (\<forall>r\<in>set rest. rd_reason r = UserOverride \<and> policy (rd_contribution_id r) = Some (cv_package_name (rd_winner r))
           \<and> cv_package_name (rd_loser r) \<in> record_name ` set (filter (\<lambda>r. record_name r \<noteq> loser) records))"
      using "1.IH"[OF conflict o(1) refl o(2)] .
    moreover have "filter (\<lambda>r. record_name r \<notin> removed_by rest) (filter (\<lambda>r. record_name r \<noteq> loser) records)
        = filter (\<lambda>r. record_name r \<notin> removed_by resolutions) records"
      unfolding filter_filter o(3)
      by (rule filter_cong) (auto simp: removed_by_def override_resolution_loser[OF o(1)])
    ultimately show ?thesis
      using override_resolution_loser[OF o(1)] override_loser_present(1)[OF conflict o(1)] o(3)
      by (auto simp: override_resolution_def)
  qed
qed

end
