(* ===== verification/Package_Approvals.thy ===== *)
theory Package_Approvals imports Package_Records "HOL-Library.Monad_Syntax" begin

text \<open>
  The user's approvals of packages and their JSON form (\<open>packages/approvals.rs\<close>). A JSON value is what
  \<open>serde_json\<close> parses; an object lists its fields in order. Unsigned numbers are unbounded here, the
  code's are 64-bit. The lemmas show that a record survives its JSON form.
\<close>

section \<open>JSON\<close>

datatype json =
    JNull
  | JBool bool
  | JNumber nat
  | JOther_Number ustr
  | JString ustr
  | JArray "json list"
  | JObject "(ustr \<times> json) list"

fun as_str :: "json \<Rightarrow> ustr option" where
  "as_str (JString s) = Some s"
| "as_str _ = None"

fun as_bool :: "json \<Rightarrow> bool option" where
  "as_bool (JBool b) = Some b"
| "as_bool _ = None"

fun as_u64 :: "json \<Rightarrow> nat option" where
  "as_u64 (JNumber n) = Some n"
| "as_u64 _ = None"

fun as_array :: "json \<Rightarrow> json list option" where
  "as_array (JArray xs) = Some xs"
| "as_array _ = None"

fun as_object :: "json \<Rightarrow> (ustr \<times> json) list option" where
  "as_object (JObject entries) = Some entries"
| "as_object _ = None"

definition json_field :: "(ustr \<times> json) list \<Rightarrow> string \<Rightarrow> json option" where
  "json_field object name = map_of object (lit name)"

text \<open>\<open>collect\<close> of a fallible map over a list.\<close>

fun collect_options :: "('a \<Rightarrow> 'b option) \<Rightarrow> 'a list \<Rightarrow> 'b list option" where
  "collect_options f [] = Some []"
| "collect_options f (x # xs) = do { y \<leftarrow> f x; ys \<leftarrow> collect_options f xs; Some (y # ys) }"

lemma collect_options_map: "(\<And>x. x \<in> set xs \<Longrightarrow> f (g x) = Some x) \<Longrightarrow> collect_options f (map g xs) = Some xs"
  by (induction xs) simp_all

section \<open>Approval records\<close>

record approved_relation =
  ar_package :: ustr
  ar_extension_point :: ustr
  ar_version :: nat
  ar_operation :: ustr
  ar_scopes :: "ustr list"

record approved_replacement =
  ap_target :: ustr
  ap_replacement_package :: ustr
  ap_replacement_version :: ustr
  ap_replacement_source :: ustr
  ap_replacement_integrity :: "ustr option"
  ap_withdrawn_contributions :: "ustr list"
  ap_compatibility_claims :: "ustr list"
  ap_rollback_restore_target :: bool

record package_approval_record =
  pa_package :: ustr
  pa_resolved_version :: ustr
  pa_source :: ustr
  pa_integrity :: "ustr option"
  pa_package_root :: ustr
  pa_api_prefix :: ustr
  pa_capabilities :: "ustr list"
  pa_processes :: "ustr list"
  pa_relations :: "approved_relation list"
  pa_replacements :: "approved_replacement list"
  pa_approved_by :: ustr
  pa_approved_at :: ustr
  pa_revoked :: bool

text \<open>The conversions; \<open>None\<close> is an error, whose message is left out.\<close>

definition json_strings :: "json option \<Rightarrow> ustr list option" where
  "json_strings value = do { v \<leftarrow> value; array \<leftarrow> as_array v; collect_options as_str array }"

definition json_required_string :: "(ustr \<times> json) list \<Rightarrow> string \<Rightarrow> ustr option" where
  "json_required_string object field = do { v \<leftarrow> json_field object field; as_str v }"

definition json_optional_string :: "(ustr \<times> json) list \<Rightarrow> string \<Rightarrow> ustr option option" where
  "json_optional_string object field =
     (case json_field object field of
        None \<Rightarrow> Some None
      | Some JNull \<Rightarrow> Some None
      | Some v \<Rightarrow> map_option Some (as_str v))"

definition relation_from_json :: "json \<Rightarrow> approved_relation option" where
  "relation_from_json value = do {
     object \<leftarrow> as_object value;
     package \<leftarrow> json_required_string object ''package'';
     extension_point \<leftarrow> json_required_string object ''extension_point'';
     version \<leftarrow> Option.bind (json_field object ''version'') as_u64;
     operation \<leftarrow> json_required_string object ''operation'';
     scopes \<leftarrow> json_strings (json_field object ''scopes'');
     Some \<lparr>ar_package = package, ar_extension_point = extension_point, ar_version = version,
           ar_operation = operation, ar_scopes = scopes\<rparr> }"

definition relation_to_json :: "approved_relation \<Rightarrow> json" where
  "relation_to_json r = JObject
     [(lit ''package'', JString (ar_package r)),
      (lit ''extension_point'', JString (ar_extension_point r)),
      (lit ''version'', JNumber (ar_version r)),
      (lit ''operation'', JString (ar_operation r)),
      (lit ''scopes'', JArray (map JString (ar_scopes r)))]"

definition optional_to_json :: "ustr option \<Rightarrow> json" where
  "optional_to_json s = (case s of None \<Rightarrow> JNull | Some s \<Rightarrow> JString s)"

definition replacement_from_json :: "json \<Rightarrow> approved_replacement option" where
  "replacement_from_json value = do {
     object \<leftarrow> as_object value;
     target \<leftarrow> json_required_string object ''target'';
     replacement_package \<leftarrow> json_required_string object ''replacement_package'';
     replacement_version \<leftarrow> json_required_string object ''replacement_version'';
     replacement_source \<leftarrow> json_required_string object ''replacement_source'';
     replacement_integrity \<leftarrow> json_optional_string object ''replacement_integrity'';
     withdrawn_contributions \<leftarrow> json_strings (json_field object ''withdrawn_contributions'');
     compatibility_claims \<leftarrow> json_strings (json_field object ''compatibility_claims'');
     rollback_restore_target \<leftarrow> Option.bind (json_field object ''rollback_restore_target'') as_bool;
     Some \<lparr>ap_target = target, ap_replacement_package = replacement_package,
           ap_replacement_version = replacement_version, ap_replacement_source = replacement_source,
           ap_replacement_integrity = replacement_integrity, ap_withdrawn_contributions = withdrawn_contributions,
           ap_compatibility_claims = compatibility_claims, ap_rollback_restore_target = rollback_restore_target\<rparr> }"

definition replacement_to_json :: "approved_replacement \<Rightarrow> json" where
  "replacement_to_json r = JObject
     [(lit ''target'', JString (ap_target r)),
      (lit ''replacement_package'', JString (ap_replacement_package r)),
      (lit ''replacement_version'', JString (ap_replacement_version r)),
      (lit ''replacement_source'', JString (ap_replacement_source r)),
      (lit ''replacement_integrity'', optional_to_json (ap_replacement_integrity r)),
      (lit ''withdrawn_contributions'', JArray (map JString (ap_withdrawn_contributions r))),
      (lit ''compatibility_claims'', JArray (map JString (ap_compatibility_claims r))),
      (lit ''rollback_restore_target'', JBool (ap_rollback_restore_target r))]"

definition approval_from_json :: "json \<Rightarrow> package_approval_record option" where
  "approval_from_json value = do {
     object \<leftarrow> as_object value;
     package \<leftarrow> json_required_string object ''package'';
     resolved_version \<leftarrow> json_required_string object ''resolved_version'';
     source \<leftarrow> json_required_string object ''source'';
     integrity \<leftarrow> json_optional_string object ''integrity'';
     package_root \<leftarrow> json_required_string object ''package_root'';
     api_prefix \<leftarrow> json_required_string object ''api_prefix'';
     capabilities \<leftarrow> json_strings (json_field object ''capabilities'');
     processes \<leftarrow> json_strings (json_field object ''processes'');
     relations \<leftarrow> Option.bind (Option.bind (json_field object ''relations'') as_array) (collect_options relation_from_json);
     replacements \<leftarrow> Option.bind (Option.bind (json_field object ''replacements'') as_array) (collect_options replacement_from_json);
     approved_by \<leftarrow> json_required_string object ''approved_by'';
     approved_at \<leftarrow> json_required_string object ''approved_at'';
     revoked \<leftarrow> Option.bind (json_field object ''revoked'') as_bool;
     Some \<lparr>pa_package = package, pa_resolved_version = resolved_version, pa_source = source, pa_integrity = integrity,
           pa_package_root = package_root, pa_api_prefix = api_prefix, pa_capabilities = capabilities,
           pa_processes = processes, pa_relations = relations, pa_replacements = replacements,
           pa_approved_by = approved_by, pa_approved_at = approved_at, pa_revoked = revoked\<rparr> }"

definition approval_to_json :: "package_approval_record \<Rightarrow> json" where
  "approval_to_json r = JObject
     [(lit ''package'', JString (pa_package r)),
      (lit ''resolved_version'', JString (pa_resolved_version r)),
      (lit ''source'', JString (pa_source r)),
      (lit ''integrity'', optional_to_json (pa_integrity r)),
      (lit ''package_root'', JString (pa_package_root r)),
      (lit ''api_prefix'', JString (pa_api_prefix r)),
      (lit ''capabilities'', JArray (map JString (pa_capabilities r))),
      (lit ''processes'', JArray (map JString (pa_processes r))),
      (lit ''relations'', JArray (map relation_to_json (pa_relations r))),
      (lit ''replacements'', JArray (map replacement_to_json (pa_replacements r))),
      (lit ''approved_by'', JString (pa_approved_by r)),
      (lit ''approved_at'', JString (pa_approved_at r)),
      (lit ''revoked'', JBool (pa_revoked r))]"

lemma json_strings_map [simp]: "json_strings (Some (JArray (map JString xs))) = Some xs"
  by (simp add: json_strings_def collect_options_map)

lemma optional_to_json_cases: "(case optional_to_json s of JNull \<Rightarrow> Some None | v \<Rightarrow> map_option Some (as_str v)) = Some s"
  by (cases s) (simp_all add: optional_to_json_def)

declare lit_eq_iff [simp]

lemmas json_simps = json_required_string_def json_optional_string_def json_field_def optional_to_json_cases

lemma relation_round_trip [simp]: "relation_from_json (relation_to_json r) = Some r"
  by (simp add: relation_from_json_def relation_to_json_def json_simps)

lemma replacement_round_trip [simp]: "replacement_from_json (replacement_to_json r) = Some r"
  by (simp add: replacement_from_json_def replacement_to_json_def json_simps)

lemma approval_round_trip [simp]: "approval_from_json (approval_to_json r) = Some r"
  by (simp add: approval_from_json_def approval_to_json_def json_simps collect_options_map)

end
