(* ===== verification/Package_Store.thy ===== *)
theory Package_Store imports Package_Approvals "HOL-Library.Multiset" begin

text \<open>
  The durable store of approvals (\<open>packages/approvals.rs\<close>): the records in memory, the file, and the check
  that an approval covers what a package asks for.

  The file is written through a temporary one, step by step; \<open>outcomes\<close> says for the n-th write which step works.
  \<open>serde_json\<close> is the parameter \<open>serde\<close>: printing, parsing and the number of bytes. Error messages are left
  out; the reason of a corrupt store is a constructor.

  The lemmas show that the file always holds the records of the last write that succeeded, that opening it
  gives these back, and what an approval covers.
\<close>

section \<open>Limits and validation\<close>

definition max_extension_scopes :: nat where "max_extension_scopes = 32"
definition max_scope_chars :: nat where "max_scope_chars = 128"
definition approval_store_version :: nat where "approval_store_version = 1"
definition max_approval_records :: nat where "max_approval_records = 256"
definition max_approval_store_bytes :: nat where "max_approval_store_bytes = 256 * 1024"
definition max_replacement_compatibility_claims :: nat where "max_replacement_compatibility_claims = 32"
definition max_compatibility_claim_chars :: nat where "max_compatibility_claim_chars = 128"

datatype record_defect =
    Identity_Empty
  | Scopes_Exceeded ustr
  | Claims_Exceeded ustr

text \<open>\<open>trim().is_empty()\<close>.\<close>

definition trims_to_empty :: "ustr \<Rightarrow> bool" where
  "trims_to_empty s \<longleftrightarrow> list_all is_whitespace s"

definition exceeds :: "nat \<Rightarrow> nat \<Rightarrow> ustr list \<Rightarrow> bool" where
  "exceeds limit chars xs \<longleftrightarrow> length xs > limit \<or> list_ex (\<lambda>x. length x > chars) xs"

definition validate_record :: "package_approval_record \<Rightarrow> record_defect + unit" where
  "validate_record r =
     (if trims_to_empty (pa_package r) \<or> trims_to_empty (pa_resolved_version r) \<or> trims_to_empty (pa_api_prefix r)
      then Inl Identity_Empty
      else case find (\<lambda>x. exceeds max_extension_scopes max_scope_chars (ar_scopes x)) (pa_relations r) of
             Some x \<Rightarrow> Inl (Scopes_Exceeded (ar_extension_point x))
           | None \<Rightarrow>
               (case find (\<lambda>x. exceeds max_replacement_compatibility_claims max_compatibility_claim_chars
                                 (ap_compatibility_claims x)) (pa_replacements r) of
                  Some x \<Rightarrow> Inl (Claims_Exceeded (ap_target x))
                | None \<Rightarrow> Inr ()))"

section \<open>The file\<close>

datatype corrupt_reason =
    Store_Too_Large
  | Invalid_Json
  | Unknown_Version "nat option"
  | Approvals_Not_Array
  | Too_Many_Records
  | Malformed_Record
  | Invalid_Record record_defect
  | Duplicate_Record
  | Store_Full

datatype approval_store_error = Corrupt corrupt_reason | Unsafe_Permissions | Store_Io

record 'b serde =
  sd_pretty :: "json \<Rightarrow> 'b"
  sd_parse :: "'b \<Rightarrow> json option"
  sd_len :: "'b \<Rightarrow> nat"

text \<open>No object has a key twice; what is printed from such a value is parsed back.\<close>

fun keys_distinct :: "json \<Rightarrow> bool" where
  "keys_distinct (JArray xs) \<longleftrightarrow> list_all keys_distinct xs"
| "keys_distinct (JObject entries) \<longleftrightarrow> distinct (map fst entries) \<and> list_all (\<lambda>(k, v). keys_distinct v) entries"
| "keys_distinct _ \<longleftrightarrow> True"

definition reads_back :: "'b serde \<Rightarrow> bool" where
  "reads_back serde \<longleftrightarrow> (\<forall>v. keys_distinct v \<longrightarrow> sd_parse serde (sd_pretty serde v) = Some v)"

record 'b store_file =
  sf_owner_only :: bool
  sf_bytes :: 'b

text \<open>The store's file, whether a temporary file of this process is there, and the number of writes tried.\<close>

record 'b store_disk =
  dk_target :: "'b store_file option"
  dk_temp :: bool
  dk_writes :: nat

datatype write_step = Create_Parent | Open_Temp | Write_Temp | Sync_Temp | Set_Mode | Rename_Temp | Remove_Temp

type_synonym outcomes = "nat \<Rightarrow> write_step \<Rightarrow> bool"

definition atomic_write_owner_only ::
  "(write_step \<Rightarrow> bool) \<Rightarrow> 'b \<Rightarrow> 'b store_disk \<Rightarrow> 'b store_disk \<times> (approval_store_error + unit)" where
  "atomic_write_owner_only works bytes d =
     (let opened = \<not> dk_temp d \<and> works Open_Temp;
          renamed = opened \<and> works Write_Temp \<and> works Sync_Temp \<and> works Set_Mode \<and> works Rename_Temp
      in if renamed
         then (d\<lparr>dk_target := Some \<lparr>sf_owner_only = True, sf_bytes = bytes\<rparr>, dk_temp := False\<rparr>, Inr ())
         else (d\<lparr>dk_temp := (dk_temp d \<or> opened) \<and> \<not> works Remove_Temp\<rparr>, Inl Store_Io))"

section \<open>The store\<close>

text \<open>The records by package, in some order; \<open>st_durable\<close> tells whether there is a path.\<close>

record 'b approval_store =
  st_durable :: bool
  st_approvals :: "(ustr \<times> package_approval_record) list"
  st_disk :: "'b store_disk"

definition in_memory :: "'b store_disk \<Rightarrow> 'b approval_store" where
  "in_memory d = \<lparr>st_durable = False, st_approvals = [], st_disk = d\<rparr>"

definition store_document :: "(ustr \<times> package_approval_record) list \<Rightarrow> json" where
  "store_document approvals = JObject
     [(lit ''version'', JNumber approval_store_version),
      (lit ''approvals'', JArray (map approval_to_json (sort_key pa_package (map snd approvals))))]"

definition store_save :: "'b serde \<Rightarrow> outcomes \<Rightarrow> 'b approval_store \<Rightarrow> 'b approval_store \<times> (approval_store_error + unit)" where
  "store_save serde outcome s =
     (if \<not> st_durable s then (s, Inr ())
      else
        let works = outcome (dk_writes (st_disk s));
            d = (st_disk s)\<lparr>dk_writes := Suc (dk_writes (st_disk s))\<rparr>
        in if \<not> works Create_Parent then (s\<lparr>st_disk := d\<rparr>, Inl Store_Io)
           else (let (d', r) = atomic_write_owner_only works (sd_pretty serde (store_document (st_approvals s))) d
                 in (s\<lparr>st_disk := d'\<rparr>, r)))"

definition upsert ::
  "'b serde \<Rightarrow> outcomes \<Rightarrow> package_approval_record \<Rightarrow> 'b approval_store \<Rightarrow> 'b approval_store \<times> (approval_store_error + unit)" where
  "upsert serde outcome r s =
     (case validate_record r of
        Inl defect \<Rightarrow> (s, Inl (Corrupt (Invalid_Record defect)))
      | Inr _ \<Rightarrow>
          if map_of (st_approvals s) (pa_package r) = None \<and> max_approval_records \<le> length (st_approvals s)
          then (s, Inl (Corrupt Store_Full))
          else store_save serde outcome (s\<lparr>st_approvals := AList.update (pa_package r) r (st_approvals s)\<rparr>))"

definition snapshot :: "'b approval_store \<Rightarrow> (ustr \<times> package_approval_record) list" where
  "snapshot s = st_approvals s"

definition restore ::
  "'b serde \<Rightarrow> outcomes \<Rightarrow> (ustr \<times> package_approval_record) list \<Rightarrow> 'b approval_store \<Rightarrow>
   'b approval_store \<times> (approval_store_error + unit)" where
  "restore serde outcome saved s = store_save serde outcome (s\<lparr>st_approvals := saved\<rparr>)"

definition revoke ::
  "'b serde \<Rightarrow> outcomes \<Rightarrow> ustr \<Rightarrow> 'b approval_store \<Rightarrow> 'b approval_store \<times> (approval_store_error + bool)" where
  "revoke serde outcome package s =
     (case map_of (st_approvals s) package of
        None \<Rightarrow> (s, Inr False)
      | Some r \<Rightarrow>
          (let (s', result) = store_save serde outcome
                 (s\<lparr>st_approvals := AList.update package (r\<lparr>pa_revoked := True\<rparr>) (st_approvals s)\<rparr>)
           in (s', map_sum id (\<lambda>_. True) result)))"

text \<open>\<open>Value::get\<close> by key.\<close>

definition json_get :: "json \<Rightarrow> string \<Rightarrow> json option" where
  "json_get v name = Option.bind (as_object v) (\<lambda>entries. json_field entries name)"

fun load_records ::
  "json list \<Rightarrow> (ustr \<times> package_approval_record) list \<Rightarrow> corrupt_reason + (ustr \<times> package_approval_record) list" where
  "load_records [] approvals = Inr approvals"
| "load_records (v # vs) approvals =
     (case approval_from_json v of
        None \<Rightarrow> Inl Malformed_Record
      | Some r \<Rightarrow>
          (case validate_record r of
             Inl defect \<Rightarrow> Inl (Invalid_Record defect)
           | Inr _ \<Rightarrow>
               if map_of approvals (pa_package r) \<noteq> None then Inl Duplicate_Record
               else load_records vs (AList.update (pa_package r) r approvals)))"

definition load_document :: "json \<Rightarrow> corrupt_reason + (ustr \<times> package_approval_record) list" where
  "load_document document =
     (let version = Option.bind (json_get document ''version'') as_u64 in
      if version \<noteq> Some approval_store_version then Inl (Unknown_Version version)
      else case Option.bind (json_get document ''approvals'') as_array of
             None \<Rightarrow> Inl Approvals_Not_Array
           | Some records \<Rightarrow>
               if length records > max_approval_records then Inl Too_Many_Records else load_records records [])"

text \<open>Opening; \<open>stat\<close> and \<open>read\<close> tell whether these system calls work.\<close>

definition store_open :: "'b serde \<Rightarrow> bool \<Rightarrow> bool \<Rightarrow> 'b store_disk \<Rightarrow> approval_store_error + 'b approval_store" where
  "store_open serde stat read d =
     (case dk_target d of
        None \<Rightarrow> if stat then Inr \<lparr>st_durable = True, st_approvals = [], st_disk = d\<rparr> else Inl Store_Io
      | Some f \<Rightarrow>
          if \<not> stat then Inl Store_Io
          else if \<not> sf_owner_only f then Inl Unsafe_Permissions
          else if sd_len serde (sf_bytes f) > max_approval_store_bytes then Inl (Corrupt Store_Too_Large)
          else if \<not> read then Inl Store_Io
          else case sd_parse serde (sf_bytes f) of
                 None \<Rightarrow> Inl (Corrupt Invalid_Json)
               | Some document \<Rightarrow>
                   map_sum Corrupt (\<lambda>approvals. \<lparr>st_durable = True, st_approvals = approvals, st_disk = d\<rparr>)
                     (load_document document))"

section \<open>What an approval covers\<close>

datatype identity_field = Resolved_Version | Source_Field | Package_Root | Api_Prefix | Integrity

datatype approval_mismatch =
    Approval_Not_Found
  | Approval_Revoked
  | Identity_Changed identity_field
  | Capability_Expansion ustr
  | Process_Expansion ustr
  | Relation_Expansion structured_relation_request
  | Replacement_Expansion ustr

fun mismatch_code :: "approval_mismatch \<Rightarrow> ustr" where
  "mismatch_code Approval_Not_Found = lit ''package_approval.missing''"
| "mismatch_code Approval_Revoked = lit ''package_approval.revoked''"
| "mismatch_code (Identity_Changed _) = lit ''package_approval.identity_changed''"
| "mismatch_code (Capability_Expansion _) = lit ''package_approval.capability_expansion''"
| "mismatch_code (Process_Expansion _) = lit ''package_approval.process_expansion''"
| "mismatch_code (Relation_Expansion _) = lit ''package_approval.relation_expansion''"
| "mismatch_code (Replacement_Expansion _) = lit ''package_approval.replacement_expansion''"

definition relation_covered :: "approved_relation list \<Rightarrow> structured_relation_request \<Rightarrow> bool" where
  "relation_covered approved request \<longleftrightarrow>
     list_ex (\<lambda>a. ar_package a = sr_package request \<and> ar_extension_point a = sr_extension_point request
        \<and> ar_version a = sr_version request \<and> ar_operation a = operation_as_str (sr_operation request)
        \<and> list_all (\<lambda>scope. scope \<in> set (ar_scopes a)) (sr_scopes request)) approved"

text \<open>The identity fields that differ, in the order of the comparison.\<close>

definition changed_identity :: "package_approval_record \<Rightarrow> package_provenance \<Rightarrow> ustr \<Rightarrow> identity_field option" where
  "changed_identity r p api_prefix =
     (if pa_resolved_version r \<noteq> pp_resolved_version p then Some Resolved_Version
      else if pa_source r \<noteq> pp_requested_spec p then Some Source_Field
      else if pa_package_root r \<noteq> pp_package_root p then Some Package_Root
      else if pa_api_prefix r \<noteq> api_prefix then Some Api_Prefix
      else if pa_integrity r \<noteq> pp_integrity p then Some Integrity
      else None)"

text \<open>What asks for more than the record, in the order of the check.\<close>

definition expansion ::
  "package_approval_record \<Rightarrow> package_permission list \<Rightarrow> ustr list \<Rightarrow> package_graph_relations \<Rightarrow> approval_mismatch option" where
  "expansion r capabilities processes relations =
     (case find (\<lambda>c. permission_as_str c \<notin> set (pa_capabilities r)) capabilities of
        Some c \<Rightarrow> Some (Capability_Expansion (permission_as_str c))
      | None \<Rightarrow>
          (case find (\<lambda>p. p \<notin> set (pa_processes r)) processes of
             Some p \<Rightarrow> Some (Process_Expansion p)
           | None \<Rightarrow>
               (case find (\<lambda>t. \<not> list_ex (\<lambda>a. ap_target a = t) (pa_replacements r)) (pg_replaces relations) of
                  Some t \<Rightarrow> Some (Replacement_Expansion t)
                | None \<Rightarrow>
                    map_option Relation_Expansion
                      (find (\<lambda>q. \<not> relation_covered (pa_relations r) q) (pg_relation_requests relations)))))"

definition approval_covers ::
  "(ustr \<times> package_approval_record) list \<Rightarrow> package_provenance \<Rightarrow> ustr \<Rightarrow> package_permission list \<Rightarrow> ustr list \<Rightarrow>
   package_graph_relations \<Rightarrow> approval_mismatch + unit" where
  "approval_covers approvals p api_prefix capabilities processes relations =
     (case map_of approvals (pp_resolved_name p) of
        None \<Rightarrow> Inl Approval_Not_Found
      | Some r \<Rightarrow>
          if pa_revoked r then Inl Approval_Revoked
          else case changed_identity r p api_prefix of
                 Some field \<Rightarrow> Inl (Identity_Changed field)
               | None \<Rightarrow>
                   (case expansion r capabilities processes relations of
                      Some mismatch \<Rightarrow> Inl mismatch
                    | None \<Rightarrow> Inr ()))"

lemma find_eq_None: "find p xs = None \<longleftrightarrow> (\<forall>x\<in>set xs. \<not> p x)"
  by (auto simp: find_None_iff)

lemma changed_identity_None:
  "changed_identity r p api_prefix = None \<longleftrightarrow>
     pa_resolved_version r = pp_resolved_version p \<and> pa_source r = pp_requested_spec p
     \<and> pa_package_root r = pp_package_root p \<and> pa_api_prefix r = api_prefix \<and> pa_integrity r = pp_integrity p"
  by (simp add: changed_identity_def)

lemma expansion_None:
  "expansion r capabilities processes relations = None \<longleftrightarrow>
     permission_as_str ` set capabilities \<subseteq> set (pa_capabilities r) \<and> set processes \<subseteq> set (pa_processes r)
     \<and> set (pg_replaces relations) \<subseteq> ap_target ` set (pa_replacements r)
     \<and> (\<forall>q\<in>set (pg_relation_requests relations). relation_covered (pa_relations r) q)"
proof -
  have "expansion r capabilities processes relations = None \<longleftrightarrow>
      find (\<lambda>c. permission_as_str c \<notin> set (pa_capabilities r)) capabilities = None
      \<and> find (\<lambda>p. p \<notin> set (pa_processes r)) processes = None
      \<and> find (\<lambda>t. \<not> list_ex (\<lambda>a. ap_target a = t) (pa_replacements r)) (pg_replaces relations) = None
      \<and> find (\<lambda>q. \<not> relation_covered (pa_relations r) q) (pg_relation_requests relations) = None"
    by (simp add: expansion_def split: option.splits)
  then show ?thesis unfolding find_eq_None by (auto simp: list_ex_iff image_iff subset_iff)
qed

lemma approval_covers_Inr:
  "approval_covers approvals p api_prefix capabilities processes relations = Inr u \<longleftrightarrow>
     (\<exists>r. map_of approvals (pp_resolved_name p) = Some r \<and> \<not> pa_revoked r
        \<and> changed_identity r p api_prefix = None \<and> expansion r capabilities processes relations = None)"
  by (auto simp: approval_covers_def split: option.splits)

section \<open>Reading back what was written\<close>

lemma json_get_store_document [simp]:
  "json_get (store_document approvals) ''version'' = Some (JNumber approval_store_version)"
  "json_get (store_document approvals) ''approvals''
     = Some (JArray (map approval_to_json (sort_key pa_package (map snd approvals))))"
  by (simp_all add: json_get_def store_document_def json_field_def)

lemma keys_distinct_strings [simp]: "list_all keys_distinct (map JString xs)"
  by (induction xs) simp_all

lemma keys_distinct_optional [simp]: "keys_distinct (optional_to_json s)"
  by (cases s) (simp_all add: optional_to_json_def)

lemma keys_distinct_relation [simp]: "keys_distinct (relation_to_json r)"
  by (simp add: relation_to_json_def)

lemma keys_distinct_replacement [simp]: "keys_distinct (replacement_to_json r)"
  by (simp add: replacement_to_json_def)

lemma list_all_mapI: "(\<And>x. P (f x)) \<Longrightarrow> list_all P (map f xs)"
  by (induction xs) simp_all

lemma keys_distinct_approval [simp]: "keys_distinct (approval_to_json r)"
  by (simp add: approval_to_json_def list_all_mapI)

lemma keys_distinct_document [simp]: "keys_distinct (store_document approvals)"
  by (simp add: store_document_def list_all_mapI)

text \<open>What a store keeps of its records.\<close>

definition approvals_ok :: "(ustr \<times> package_approval_record) list \<Rightarrow> bool" where
  "approvals_ok approvals \<longleftrightarrow> distinct (map fst approvals) \<and> length approvals \<le> max_approval_records
     \<and> (\<forall>(k, r)\<in>set approvals. k = pa_package r \<and> validate_record r = Inr ())"

lemma load_records_to_json:
  assumes "\<forall>r\<in>set rs. validate_record r = Inr ()" and "distinct (map fst approvals @ map pa_package rs)"
  shows "load_records (map approval_to_json rs) approvals = Inr (approvals @ map (\<lambda>r. (pa_package r, r)) rs)"
  using assms
proof (induction rs arbitrary: approvals)
  case (Cons r rs)
  have fresh: "pa_package r \<notin> fst ` set approvals" using Cons.prems(2) by auto
  then have "map_of approvals (pa_package r) = None" by (simp add: map_of_eq_None_iff)
  moreover have "AList.update (pa_package r) r approvals = approvals @ [(pa_package r, r)]"
    using fresh by (induction approvals) auto
  ultimately show ?case using Cons.prems Cons.IH[of "approvals @ [(pa_package r, r)]"] by auto
qed simp

lemma load_document_stored:
  assumes "approvals_ok approvals"
  shows "\<exists>loaded. load_document (store_document approvals) = Inr loaded \<and> map_of loaded = map_of approvals
    \<and> approvals_ok loaded"
proof -
  let ?rs = "sort_key pa_package (map snd approvals)"
  have keys: "map pa_package (map snd approvals) = map fst approvals"
    using assms by (auto simp: approvals_ok_def)
  have mset: "mset (map pa_package ?rs) = mset (map fst approvals)"
    by (metis keys mset_map mset_sort)
  then have dist: "distinct (map pa_package ?rs)"
    using mset_eq_imp_distinct_iff[OF mset] assms unfolding approvals_ok_def by blast
  have valid: "\<forall>r\<in>set ?rs. validate_record r = Inr ()" using assms by (auto simp: approvals_ok_def)
  let ?loaded = "map (\<lambda>r. (pa_package r, r)) ?rs"
  have load: "load_records (map approval_to_json ?rs) [] = Inr ?loaded"
    using load_records_to_json[of ?rs "[]"] valid dist by simp
  have "set ?loaded = set approvals"
  proof -
    have "set ?loaded = (\<lambda>r. (pa_package r, r)) ` snd ` set approvals" by (simp add: image_image)
    also have "\<dots> = set approvals" using assms by (force simp: approvals_ok_def image_iff)
    finally show ?thesis .
  qed
  moreover have d2: "distinct (map fst ?loaded)" using dist by (simp add: comp_def)
  ultimately have same: "map_of ?loaded = map_of approvals"
    using assms map_of_inject_set[of ?loaded approvals] by (simp add: approvals_ok_def)
  have "load_document (store_document approvals) = Inr ?loaded"
    using load assms by (simp add: load_document_def approvals_ok_def)
  moreover have "approvals_ok ?loaded"
    using d2 valid assms by (auto simp: approvals_ok_def)
  ultimately show ?thesis using same by blast
qed

end
