(* ===== verification/Package_Service.thy ===== *)
theory Package_Service imports Package_Conflicts Package_Store Package_Bundled begin

text \<open>
  The package service (\<open>packages/service.rs\<close>, \<open>packages/authorization.rs\<close>): installed and enabled packages, the
  grants they need, and the graph of their relations. The state has two parts: the catalog, which
  enabling only reads, and the activation, which it changes and on failure puts back.

  Parameters are the validator \<open>assemble\<close> of \<open>packages/record.rs\<close> (\<open>None\<close> for metadata it refuses), the search for
  the executable of a language server, and the hash of its descriptor. The hash maps are association lists in
  the order in which they are iterated. \<open>expect\<close> that fails is \<open>None\<close>. Messages are left out of errors.
\<close>

section \<open>State\<close>

datatype runtime_profile = NativeTrust | Sandboxed | Restricted

record installed_package =
  ip_package_json :: json
  ip_package_root :: ustr
  ip_provenance :: package_provenance

record package_authorization =
  az_package_name :: ustr
  az_requested_spec :: ustr
  az_source_kind :: package_source_kind
  az_resolved_version :: ustr
  az_api_prefix :: ustr
  az_approved_capabilities :: "package_permission list"
  az_runtime_profile :: runtime_profile
  az_approved_by :: ustr

text \<open>The time of a language server grant is not read anywhere and left out.\<close>

record language_server_grant =
  lg_package_name :: ustr
  lg_requested_spec :: ustr
  lg_source_kind :: package_source_kind
  lg_resolved_version :: ustr
  lg_api_prefix :: ustr
  lg_contribution_id :: ustr
  lg_descriptor_fingerprint :: nat
  lg_canonical_executable :: ustr
  lg_workspace_root_ids :: "nat list"
  lg_approved_by :: ustr

record withdrawal_counts =
  wc_commands :: nat
  wc_behavior_manifests :: nat
  wc_sdui :: nat
  wc_parse_handlers :: nat
  wc_decorations :: nat
  wc_syntax_grammars :: nat
  wc_completions :: nat
  wc_layout :: nat
  wc_input :: nat
  wc_state :: nat
  wc_theme :: nat
  wc_diagnostics :: nat

definition counts_from_record :: "package_record \<Rightarrow> withdrawal_counts" where
  "counts_from_record r =
     (let c = pr_contributions r in
      \<lparr>wc_commands = length (pc_commands c),
       wc_behavior_manifests = length (pc_key_routing c) + length (pc_text_transforms c),
       wc_sdui = length (pc_sdui c),
       wc_parse_handlers = (if ParseDocument \<in> set (cm_permissions (record_clay r)) then 1 else 0),
       wc_decorations = length (pc_decorations c),
       wc_syntax_grammars = length (pc_syntax_grammars c),
       wc_completions = length (pc_completion_providers c),
       wc_layout = length (pc_ui_panels c) + length (pc_ui_components c) + length (pc_ui_overlays c)
         + length (pc_layout_overrides c) + length (pc_package_options c),
       wc_input = length (pc_input_contributions c),
       wc_state = length (pc_ui_state_scopes c),
       wc_theme = length (pc_theme_tokens c),
       wc_diagnostics = 0\<rparr>)"

record revocation_record =
  rv_package_name :: ustr
  rv_api_prefix :: ustr
  rv_package_generation :: nat
  rv_withdrawn :: withdrawal_counts
  rv_reason :: ustr

record 'b package_catalog =
  ct_installed :: "(ustr \<times> installed_package) list"
  ct_authorizations :: "ustr \<Rightarrow> package_authorization option"
  ct_grants :: "((ustr \<times> ustr) \<times> language_server_grant) list"
  ct_conflict_policy :: conflict_policy
  ct_approvals :: "'b approval_store"

record activation =
  av_enabled :: "(ustr \<times> package_record) list"
  av_resolutions :: "resolution_diagnostic list"
  av_generation :: nat
  av_revocations :: "ustr \<Rightarrow> revocation_record option"

record 'b package_service =
  ps_catalog :: "'b package_catalog"
  ps_activation :: activation

record 'b package_host =
  ho_assemble :: "json \<Rightarrow> package_record option"
  ho_trust :: trust_host
  ho_resolve_executable :: "ustr \<Rightarrow> ustr option"
  ho_fingerprint :: "language_server_descriptor \<Rightarrow> nat"
  ho_serde :: "'b serde"
  ho_outcome :: outcomes

datatype service_error =
    Backend_Error
  | Invalid_Clay_Metadata
  | Contribution_Conflict conflict_diagnostic
  | Not_Installed ustr
  | Already_Enabled ustr
  | Not_Enabled ustr
  | Missing_Package_Json ustr
  | Missing_Capability_Grant ustr package_permission
  | Missing_Language_Server_Grant ustr
  | Bundled_Trust_Denied ustr
  | Missing_Graph_Target ustr ustr
  | Package_Graph_Cycle "ustr list"
  | Missing_Package_Control_Grant ustr
  | Relation_Denied ustr ustr
  | Adoption_Required ustr ustr
  | Approval_Store approval_store_error
  | No_Active_Replacement ustr

definition service_new :: "'b approval_store \<Rightarrow> 'b package_service" where
  "service_new approvals =
     \<lparr>ps_catalog = \<lparr>ct_installed = [], ct_authorizations = Map.empty, ct_grants = [],
        ct_conflict_policy = Map.empty, ct_approvals = approvals\<rparr>,
      ps_activation = \<lparr>av_enabled = [], av_resolutions = [], av_generation = 0, av_revocations = Map.empty\<rparr>\<rparr>"

definition service_open :: "'b package_host \<Rightarrow> bool \<Rightarrow> bool \<Rightarrow> 'b store_disk \<Rightarrow> service_error + 'b package_service" where
  "service_open host stat read d = map_sum Approval_Store service_new (store_open (ho_serde host) stat read d)"

section \<open>Installing\<close>

definition json_name :: "json \<Rightarrow> ustr option" where
  "json_name v = Option.bind (json_get v ''name'') as_str"

definition json_version :: "json \<Rightarrow> ustr option" where
  "json_version v = Option.bind (json_get v ''version'') as_str"

definition provenance_of_json :: "ustr \<Rightarrow> json \<Rightarrow> ustr \<Rightarrow> package_provenance" where
  "provenance_of_json spec v root_path = provenance_from_package_json spec (json_name v) (json_version v) root_path"

text \<open>\<open>DiscoveredPackage\<close>.\<close>

record discovered_package =
  dp_package_json :: json
  dp_package_root :: ustr
  dp_provenance :: package_provenance

definition put_installed :: "ustr \<Rightarrow> installed_package \<Rightarrow> 'b package_service \<Rightarrow> 'b package_service" where
  "put_installed name installed s =
     s\<lparr>ps_catalog := (ps_catalog s)\<lparr>ct_installed := AList.update name installed (ct_installed (ps_catalog s))\<rparr>\<rparr>"

definition as_installed :: "discovered_package \<Rightarrow> installed_package" where
  "as_installed d = \<lparr>ip_package_json = dp_package_json d, ip_package_root = dp_package_root d,
     ip_provenance = dp_provenance d\<rparr>"

definition insert_discovered :: "discovered_package \<Rightarrow> 'b package_service \<Rightarrow> 'b package_service" where
  "insert_discovered d s =
     (case json_name (dp_package_json d) of
        None \<Rightarrow> s
      | Some name \<Rightarrow> put_installed name (as_installed d) s)"

text \<open>\<open>refresh_installed\<close>; \<open>None\<close> is a backend that fails.\<close>

definition refresh_installed ::
  "discovered_package list option \<Rightarrow> 'b package_service \<Rightarrow> 'b package_service \<times> (service_error + unit)" where
  "refresh_installed discovered s =
     (case discovered of
        None \<Rightarrow> (s, Inl Backend_Error)
      | Some ds \<Rightarrow>
          (fold insert_discovered ds (s\<lparr>ps_catalog := (ps_catalog s)\<lparr>ct_installed := []\<rparr>\<rparr>), Inr ()))"

definition before_at :: "ustr \<Rightarrow> ustr" where
  "before_at spec = takeWhile (\<lambda>c. c \<noteq> 64) spec"

definition is_newly_installed :: "ustr \<Rightarrow> discovered_package \<Rightarrow> bool" where
  "is_newly_installed spec d \<longleftrightarrow>
     pp_requested_spec (dp_provenance d) = spec
     \<or> (case json_name (dp_package_json d) of
          None \<Rightarrow> False
        | Some name \<Rightarrow> name = spec \<or> name = before_at spec \<or> str_starts_with spec name)"

text \<open>
  \<open>install\<close>: \<open>directory\<close> tells whether the store directory can be made, \<open>backend\<close> is the answer of the package
  manager (its success flag), \<open>discovered\<close> what it lists afterwards.
\<close>

definition install ::
  "bool \<Rightarrow> bool option \<Rightarrow> discovered_package list option \<Rightarrow> ustr \<Rightarrow> 'b package_service \<Rightarrow>
   'b package_service \<times> (service_error + unit)" where
  "install folder backend discovered spec s =
     (if \<not> folder then (s, Inl Backend_Error)
      else case backend of
             None \<Rightarrow> (s, Inl Backend_Error)
           | Some success \<Rightarrow>
               (case discovered of
                  None \<Rightarrow> (s, Inl Backend_Error)
                | Some ds \<Rightarrow>
                    (case find (is_newly_installed spec) ds of
                       Some d \<Rightarrow>
                         (put_installed
                            (case json_name (dp_package_json d) of Some name \<Rightarrow> name | None \<Rightarrow> spec)
                            \<lparr>ip_package_json = dp_package_json d, ip_package_root = dp_package_root d,
                             ip_provenance = provenance_of_json spec (dp_package_json d) (dp_package_root d)\<rparr> s,
                          Inr ())
                     | None \<Rightarrow> (s, if success then Inl (Missing_Package_Json spec) else Inr ()))))"

definition install_from_value_at_root_with_spec ::
  "json \<Rightarrow> ustr \<Rightarrow> ustr \<Rightarrow> 'b package_service \<Rightarrow> 'b package_service \<times> (service_error + unit)" where
  "install_from_value_at_root_with_spec v root_path spec s =
     (case json_name v of
        None \<Rightarrow> (s, Inl (Missing_Package_Json (lit ''<unknown>'')))
      | Some name \<Rightarrow>
          (put_installed name \<lparr>ip_package_json = v, ip_package_root = root_path,
             ip_provenance = provenance_of_json spec v root_path\<rparr> s, Inr ()))"

definition install_from_value_at_root :: "json \<Rightarrow> ustr \<Rightarrow> 'b package_service \<Rightarrow> 'b package_service \<times> (service_error + unit)" where
  "install_from_value_at_root v root_path s =
     install_from_value_at_root_with_spec v root_path
       (case json_name v of Some name \<Rightarrow> name | None \<Rightarrow> lit ''<unknown>'') s"

definition installed_package_for_specifier :: "(ustr \<times> installed_package) list \<Rightarrow> ustr \<Rightarrow> (ustr \<times> installed_package) option" where
  "installed_package_for_specifier installed specifier =
     find (\<lambda>(name, i). name = specifier \<or> pp_requested_spec (ip_provenance i) = specifier) installed"

definition set_conflict_override :: "ustr \<Rightarrow> ustr \<Rightarrow> 'b package_service \<Rightarrow> 'b package_service" where
  "set_conflict_override contribution_id winner s =
     s\<lparr>ps_catalog := (ps_catalog s)\<lparr>ct_conflict_policy :=
        set_user_override (ct_conflict_policy (ps_catalog s)) contribution_id winner\<rparr>\<rparr>"

end
