(* ===== verification/Package_Clock.thy ===== *)
theory Package_Clock imports Package_Conflicts "HOL-Library.Signed_Division" begin

text \<open>
  The time stamp of an approval (\<open>rfc3339_now\<close> of \<open>packages/approvals.rs\<close>): seconds since 1970 to a
  calendar date. The lemmas show that the date of the next day is the next date of the Gregorian calendar.
\<close>

section \<open>The code\<close>

text \<open>Days since 1970 to year, month and day, in 64-bit signed arithmetic that stays far below its bounds.\<close>

definition era_of :: "int \<Rightarrow> int" where
  "era_of z = (if 0 \<le> z then z else z - 146096) sdiv 146097"

definition year_of_era :: "nat \<Rightarrow> nat" where
  "year_of_era doe = (doe - doe div 1460 + doe div 36524 - doe div 146096) div 365"

definition day_of_year :: "nat \<Rightarrow> nat" where
  "day_of_year doe = doe - (365 * year_of_era doe + year_of_era doe div 4 - year_of_era doe div 100)"

definition month_index :: "nat \<Rightarrow> nat" where
  "month_index doy = (5 * doy + 2) div 153"

definition civil_from_days :: "int \<Rightarrow> int \<times> nat \<times> nat" where
  "civil_from_days days =
     (let z = days + 719468;
          doe = nat (z - era_of z * 146097);
          y = int (year_of_era doe) + era_of z * 400;
          doy = day_of_year doe;
          mp = month_index doy;
          day = doy - (153 * mp + 2) div 5 + 1;
          month = (if mp < 10 then mp + 3 else mp - 9)
      in (if month \<le> 2 then y + 1 else y, month, day))"

text \<open>The formats \<open>{:04}\<close> and \<open>{:02}\<close>.\<close>

definition pad_zeros :: "nat \<Rightarrow> ustr \<Rightarrow> ustr" where
  "pad_zeros width s = replicate (width - length s) 48 @ s"

definition pad_int :: "nat \<Rightarrow> int \<Rightarrow> ustr" where
  "pad_int width i = (if i < 0 then 45 # pad_zeros (width - 1) (nat_digits (nat (- i))) else pad_zeros width (nat_digits (nat i)))"

definition rfc3339 :: "nat \<Rightarrow> ustr" where
  "rfc3339 secs =
     (let secs_of_day = secs mod 86400; (year, month, day) = civil_from_days (int (secs div 86400))
      in pad_int 4 year @ lit ''-'' @ pad_zeros 2 (nat_digits month) @ lit ''-'' @ pad_zeros 2 (nat_digits day)
         @ lit ''T'' @ pad_zeros 2 (nat_digits (secs_of_day div 3600)) @ lit '':''
         @ pad_zeros 2 (nat_digits ((secs_of_day mod 3600) div 60)) @ lit '':''
         @ pad_zeros 2 (nat_digits (secs_of_day mod 60)) @ lit ''Z'')"

section \<open>The calendar\<close>

definition leap_year :: "int \<Rightarrow> bool" where
  "leap_year y \<longleftrightarrow> y mod 4 = 0 \<and> (y mod 100 \<noteq> 0 \<or> y mod 400 = 0)"

definition days_in_month :: "int \<Rightarrow> nat \<Rightarrow> nat" where
  "days_in_month y m =
     (if m = 2 then if leap_year y then 29 else 28
      else if m \<in> {4, 6, 9, 11} then 30 else 31)"

fun next_date :: "int \<times> nat \<times> nat \<Rightarrow> int \<times> nat \<times> nat" where
  "next_date (y, m, d) =
     (if d < days_in_month y m then (y, m, d + 1)
      else if m < 12 then (y, m + 1, 1)
      else (y + 1, 1, 1))"

section \<open>The years of an era\<close>

text \<open>
  Years run from March, and the 400 years of an era are centuries \<open>a\<close> of groups \<open>b\<close> of four years \<open>c\<close>. A year
  has a 366th day \<open>r = 365\<close> when it is the last of its group, and not the last of a century but the fourth.
\<close>

definition day_in_era :: "nat \<Rightarrow> nat \<Rightarrow> nat \<Rightarrow> nat \<Rightarrow> nat" where
  "day_in_era a b c r = 36524 * a + 1461 * b + 365 * c + r"

definition day_valid :: "nat \<Rightarrow> nat \<Rightarrow> nat \<Rightarrow> nat \<Rightarrow> bool" where
  "day_valid a b c r \<longleftrightarrow> a < 4 \<and> b < 25 \<and> c < 4 \<and> r < (if c = 3 \<and> (b = 24 \<longrightarrow> a = 3) then 366 else 365)"

lemma year_of_era_day:
  assumes "day_valid a b c r"
  shows "year_of_era (day_in_era a b c r) = 100 * a + 4 * b + c"
proof -
  let ?d = "day_in_era a b c r"
  have v: "a \<le> 3" "b \<le> 24" "c \<le> 3" "r \<le> 365" "r = 365 \<Longrightarrow> c = 3 \<and> (b = 24 \<longrightarrow> a = 3)"
    using assms by (auto simp: day_valid_def split: if_splits)
  have "?d div 36524 - ?d div 146096 = a"
  proof (cases "?d = 146096")
    case True
    then have "a = 3" using v by (simp add: day_in_era_def)
    then show ?thesis using True by simp
  next
    case False
    have below: "1461 * b + 365 * c + r < 36524"
    proof (cases "b = 24 \<and> c = 3 \<and> r = 365")
      case True
      then show ?thesis using False v by (simp add: day_in_era_def)
    next
      case False
      then show ?thesis using v(2,3,4) by linarith
    qed
    then have "?d div 36524 = a" by (intro div_nat_eqI) (simp_all add: day_in_era_def)
    moreover have "?d div 146096 = 0" using below v(1) by (simp add: day_in_era_def)
    ultimately show ?thesis by simp
  qed
  moreover have "?d div 146096 \<le> ?d div 36524" by (simp add: div_le_mono2)
  ultimately have quarters: "?d div 36524 = a + ?d div 146096" by simp
  define x where "x = 24 * a + b + 365 * c + r"
  have d: "?d = 1460 * (25 * a + b) + x" by (simp add: day_in_era_def x_def)
  have "?d div 1460 = 25 * a + b + x div 1460" by (simp add: d)
  moreover have "x div 1460 = (if 1460 \<le> x then 1 else 0)"
    using v by (auto simp: x_def intro!: div_nat_eqI)
  ultimately have fours: "?d div 1460 = 25 * a + b + (if 1460 \<le> x then 1 else 0)" by simp
  have extra: "r = 365 \<Longrightarrow> 1460 \<le> x" "1460 \<le> x \<Longrightarrow> 1 \<le> r" using v by (auto simp: x_def)
  have "?d - ?d div 1460 + ?d div 36524 - ?d div 146096
      = 365 * (100 * a + 4 * b + c) + (if 1460 \<le> x then r - 1 else r)"
    unfolding fours quarters using extra by (auto simp: day_in_era_def)
  moreover have "(if 1460 \<le> x then r - 1 else r) < 365" using extra v(4) by (cases "r = 365") auto
  ultimately show ?thesis unfolding year_of_era_def by (intro div_nat_eqI) simp_all
qed

lemma day_of_year_day:
  assumes "day_valid a b c r"
  shows "day_of_year (day_in_era a b c r) = r"
proof -
  let ?k = "100 * a + 4 * b + c"
  have c: "c < 4" "4 * b + c < 100" using assms by (auto simp: day_valid_def)
  then have "?k div 4 = 25 * a + b" "?k div 100 = a" by (auto intro!: div_nat_eqI)
  then show ?thesis unfolding day_of_year_def year_of_era_day[OF assms] by (simp add: day_in_era_def)
qed

lemma min_div:
  "n * min k (d div n) \<le> d" "min k (d div n) < k \<Longrightarrow> 0 < n \<Longrightarrow> d < n * min k (d div n) + (n :: nat)"
proof -
  have "n * min k (d div n) \<le> n * (d div n)" by simp
  also have "\<dots> \<le> d" by simp
  finally show "n * min k (d div n) \<le> d" .
  assume "min k (d div n) < k" and n: "0 < n"
  then have "min k (d div n) = d div n" by simp
  moreover have "d < n * (d div n) + n" using n by (metis add_strict_left_mono mod_less_divisor mult_div_mod_eq)
  ultimately show "d < n * min k (d div n) + n" by simp
qed

text \<open>Every day of an era is of this form.\<close>

lemma day_exists:
  assumes "d < 146097"
  obtains a b c r where "d = day_in_era a b c r" and "day_valid a b c r"
proof -
  define a where "a = min 3 (d div 36524)"
  define x where "x = d - 36524 * a"
  define b where "b = x div 1461"
  define y where "y = x - 1461 * b"
  define c where "c = min 3 (y div 365)"
  define r where "r = y - 365 * c"
  have a: "36524 * a \<le> d" "a \<le> 3" "a < 3 \<Longrightarrow> d < 36524 * a + 36524"
    using min_div[of 36524 3 d] unfolding a_def by simp_all
  have x: "x \<le> 36524" "x = 36524 \<Longrightarrow> a = 3" using a assms by (cases "a = 3"; simp add: x_def; linarith)+
  have b: "1461 * b \<le> x" "x < 1461 * b + 1461" unfolding b_def by linarith+
  have c: "365 * c \<le> y" "c \<le> 3" "c < 3 \<Longrightarrow> y < 365 * c + 365"
    using min_div[of 365 3 y] unfolding c_def by simp_all
  have y: "y < 1461" using b by (simp add: y_def)
  have d: "d = day_in_era a b c r" using a b c by (simp add: day_in_era_def x_def y_def r_def)
  have r: "r \<le> 365" "r = 365 \<Longrightarrow> c = 3" using c y by (cases "c = 3"; simp add: r_def; linarith)+
  have "b < 25" using b x(1) by simp
  moreover have "a = 3" if h: "r = 365" "b = 24"
  proof -
    have "c = 3" using r(2) h(1) .
    then have "y = 1460" using h(1) c(1) y by (simp add: r_def)
    then have "x = 36524" using h(2) b(1) x(1) by (simp add: y_def)
    then show ?thesis using x(2) by simp
  qed
  ultimately have "day_valid a b c r" using a(2) c(2) r by (cases "r = 365") (auto simp: day_valid_def)
  with d show thesis by (rule that)
qed

lemma mod_top: "1 \<le> v \<Longrightarrow> v \<le> m \<Longrightarrow> v mod m = 0 \<longleftrightarrow> v = (m :: int)"
  by (cases "v = m") auto

lemma leap_year_int:
  assumes "0 \<le> a" "a < 4" and "0 \<le> b" "b < 25" and "0 \<le> c" "c < (4 :: int)"
  shows "leap_year (100 * a + 4 * b + c + e * 400 + 1) \<longleftrightarrow> c = 3 \<and> (b = 24 \<longrightarrow> a = 3)"
proof -
  let ?y = "100 * a + 4 * b + c + e * 400 + 1"
  have "?y = (c + 1) + 4 * (25 * a + b + 100 * e)" by simp
  then have "?y mod 4 = (c + 1) mod 4" by (metis mod_mult_self2)
  then have four: "?y mod 4 = 0 \<longleftrightarrow> c = 3" using mod_top[of "c + 1" 4] assms by auto
  have "?y = (4 * b + c + 1) + 100 * (a + 4 * e)" by simp
  then have "?y mod 100 = (4 * b + c + 1) mod 100" by (metis mod_mult_self2)
  then have "?y mod 100 = 0 \<longleftrightarrow> 4 * b + c + 1 = 100" using mod_top[of "4 * b + c + 1" 100] assms by simp
  moreover have "4 * b + c + 1 = 100 \<longleftrightarrow> b = 24 \<and> c = 3" using assms by linarith
  ultimately have hundred: "?y mod 100 = 0 \<longleftrightarrow> b = 24 \<and> c = 3" by simp
  have "?y = (100 * a + 4 * b + c + 1) + 400 * e" by simp
  then have "?y mod 400 = (100 * a + 4 * b + c + 1) mod 400" by (metis mod_mult_self2)
  then have "?y mod 400 = 0 \<longleftrightarrow> 100 * a + 4 * b + c + 1 = 400"
    using mod_top[of "100 * a + 4 * b + c + 1" 400] assms by simp
  moreover have "100 * a + 4 * b + c + 1 = 400 \<longleftrightarrow> a = 3 \<and> b = 24 \<and> c = 3" using assms by linarith
  ultimately have "?y mod 400 = 0 \<longleftrightarrow> a = 3 \<and> b = 24 \<and> c = 3" by simp
  then show ?thesis using four hundred by (auto simp: leap_year_def)
qed

lemma leap_year_day:
  assumes "a < 4" and "b < 25" and "c < 4"
  shows "leap_year (int (100 * a + 4 * b + c) + e * 400 + 1) \<longleftrightarrow> c = 3 \<and> (b = 24 \<longrightarrow> a = 3)"
  using leap_year_int[of "int a" "int b" "int c" e] assms by simp

section \<open>The months of a year\<close>

definition month_day :: "nat \<Rightarrow> nat \<times> nat" where
  "month_day doy = (let mp = month_index doy in (if mp < 10 then mp + 3 else mp - 9, doy - (153 * mp + 2) div 5 + 1))"

lemma month_day_eq:
  assumes "doy < 366"
  shows "month_day doy =
    (if doy < 31 then (3, doy + 1)
     else if doy < 61 then (4, doy - 30)
     else if doy < 92 then (5, doy - 60)
     else if doy < 122 then (6, doy - 91)
     else if doy < 153 then (7, doy - 121)
     else if doy < 184 then (8, doy - 152)
     else if doy < 214 then (9, doy - 183)
     else if doy < 245 then (10, doy - 213)
     else if doy < 275 then (11, doy - 244)
     else if doy < 306 then (12, doy - 274)
     else if doy < 337 then (1, doy - 305)
     else (2, doy - 336))"
proof -
  have mp: "153 * k \<le> 5 * doy + 2 \<Longrightarrow> 5 * doy + 2 < 153 * k + 153 \<Longrightarrow> month_index doy = k" for k
    unfolding month_index_def by (rule div_nat_eqI) simp_all
  have m0: "0 \<le> doy \<Longrightarrow> doy < 31 \<Longrightarrow> month_index doy = 0" using mp[of 0] by simp
  have m1: "31 \<le> doy \<Longrightarrow> doy < 61 \<Longrightarrow> month_index doy = 1" using mp[of 1] by simp
  have m2: "61 \<le> doy \<Longrightarrow> doy < 92 \<Longrightarrow> month_index doy = 2" using mp[of 2] by simp
  have m3: "92 \<le> doy \<Longrightarrow> doy < 122 \<Longrightarrow> month_index doy = 3" using mp[of 3] by simp
  have m4: "122 \<le> doy \<Longrightarrow> doy < 153 \<Longrightarrow> month_index doy = 4" using mp[of 4] by simp
  have m5: "153 \<le> doy \<Longrightarrow> doy < 184 \<Longrightarrow> month_index doy = 5" using mp[of 5] by simp
  have m6: "184 \<le> doy \<Longrightarrow> doy < 214 \<Longrightarrow> month_index doy = 6" using mp[of 6] by simp
  have m7: "214 \<le> doy \<Longrightarrow> doy < 245 \<Longrightarrow> month_index doy = 7" using mp[of 7] by simp
  have m8: "245 \<le> doy \<Longrightarrow> doy < 275 \<Longrightarrow> month_index doy = 8" using mp[of 8] by simp
  have m9: "275 \<le> doy \<Longrightarrow> doy < 306 \<Longrightarrow> month_index doy = 9" using mp[of 9] by simp
  have m10: "306 \<le> doy \<Longrightarrow> doy < 337 \<Longrightarrow> month_index doy = 10" using mp[of 10] by simp
  have m11: "337 \<le> doy \<Longrightarrow> doy < 366 \<Longrightarrow> month_index doy = 11" using mp[of 11] by simp
  show ?thesis using assms m0 m1 m2 m3 m4 m5 m6 m7 m8 m9 m10 m11
    unfolding month_day_def Let_def by auto
qed

lemma month_day_step:
  assumes "Suc doy < 366" and "month_day doy = (m, d)"
  shows "month_day (Suc doy) =
      (if d < (if m = 2 then 29 else if m \<in> {4, 6, 9, 11} then 30 else 31) then (m, d + 1)
       else if m < 12 then (m + 1, 1) else (1, 1))"
    and "(m \<le> 2) = (306 \<le> doy)" and "m = 2 \<and> d = 28 \<longleftrightarrow> doy = 364" and "m = 2 \<Longrightarrow> d \<le> 28" and "m \<le> 12"
    and "m = 12 \<and> d = 31 \<longleftrightarrow> doy = 305"
proof -
  have md: "(m, d) = month_day doy" using assms(2) by simp
  have doy: "doy < 366" using assms(1) by simp
  show "month_day (Suc doy) =
      (if d < (if m = 2 then 29 else if m \<in> {4, 6, 9, 11} then 30 else 31) then (m, d + 1)
       else if m < 12 then (m + 1, 1) else (1, 1))"
    using md assms(1) unfolding month_day_eq[OF doy] month_day_eq[OF assms(1)]
    by (simp split: if_splits; auto)
  show "(m \<le> 2) = (306 \<le> doy)" "m = 2 \<and> d = 28 \<longleftrightarrow> doy = 364" "m = 2 \<Longrightarrow> d \<le> 28" "m \<le> 12"
    "m = 12 \<and> d = 31 \<longleftrightarrow> doy = 305"
    using md assms(1) unfolding month_day_eq[OF doy] by (auto split: if_splits)
qed

lemma month_day_ends: "month_day 0 = (3, 1)" "month_day 364 = (2, 28)" "month_day 365 = (2, 29)"
  by (simp_all add: month_day_eq)

section \<open>The next day\<close>

text \<open>A day by its era, its place in the era and so its year from March and day of that year.\<close>

definition civil_parts :: "int \<Rightarrow> nat \<Rightarrow> int \<times> nat \<times> nat" where
  "civil_parts y doy = (case month_day doy of (m, d) \<Rightarrow> (if m \<le> 2 then y + 1 else y, m, d))"

lemma era_of_nonneg: "0 \<le> z \<Longrightarrow> era_of z = z div 146097"
  by (cases "z = 0") (simp_all add: era_of_def signed_divide_int_def)

lemma civil_from_parts:
  assumes "day_valid a b c r" and "0 \<le> e"
  shows "civil_from_days (146097 * e + int (day_in_era a b c r) - 719468)
    = civil_parts (int (100 * a + 4 * b + c) + e * 400) r"
proof -
  let ?z = "146097 * e + int (day_in_era a b c r)"
  have small: "day_in_era a b c r < 146097" using assms(1) by (auto simp: day_valid_def day_in_era_def split: if_splits)
  then have e: "era_of ?z = e" using assms(2) by (simp add: era_of_nonneg)
  have d: "nat (?z - era_of ?z * 146097) = day_in_era a b c r" by (simp add: e)
  show ?thesis
    unfolding civil_from_days_def Let_def diff_add_cancel d e
    by (simp add: year_of_era_day[OF assms(1)] day_of_year_day[OF assms(1)] civil_parts_def month_day_def Let_def)
qed

lemma civil_exists:
  assumes "0 \<le> z"
  obtains e a b c r where "z = 146097 * e + int (day_in_era a b c r)" and "day_valid a b c r" and "0 \<le> e"
proof -
  have "nat (z mod 146097) < 146097" by (simp add: nat_less_iff)
  then obtain a b c r where r: "nat (z mod 146097) = day_in_era a b c r" "day_valid a b c r"
    by (rule day_exists)
  have "int (nat (z mod 146097)) = z mod 146097" by simp
  then have "int (day_in_era a b c r) = z mod 146097" using r(1) by simp
  then have "z = 146097 * (z div 146097) + int (day_in_era a b c r)" by simp
  then show thesis using that r(2) assms by (simp add: pos_imp_zdiv_nonneg_iff)
qed

lemma next_date_within:
  assumes "day_valid a b c (Suc r)"
  shows "next_date (civil_parts (int (100 * a + 4 * b + c) + e * 400) r)
    = civil_parts (int (100 * a + 4 * b + c) + e * 400) (Suc r)"
proof -
  obtain m d where md: "month_day r = (m, d)" by fastforce
  have r: "Suc r < 366" using assms by (auto simp: day_valid_def split: if_splits)
  note step = month_day_step[OF r md]
  let ?y = "int (100 * a + 4 * b + c) + e * 400"
  have leap: "leap_year (?y + 1)" if "m = 2" "d = 28"
    using that step(3) assms leap_year_day[of a b c e] by (auto simp: day_valid_def split: if_splits)
  show ?thesis
  proof (cases "m = 2")
    case True
    then show ?thesis using step leap by (auto simp: civil_parts_def md days_in_month_def)
  next
    case False
    then show ?thesis using step(1,2) step(5) by (auto simp: civil_parts_def md days_in_month_def)
  qed
qed

text \<open>After the last day of a year comes the first of the next one.\<close>

lemma last_day:
  assumes "day_valid a b c r" and "\<not> day_valid a b c (Suc r)"
  shows "next_date (civil_parts (int (100 * a + 4 * b + c) + e * 400) r)
    = civil_parts (int (100 * a + 4 * b + c) + e * 400 + 1) 0"
proof -
  let ?y = "int (100 * a + 4 * b + c) + e * 400"
  have abc: "a < 4" "b < 25" "c < 4" using assms(1) by (simp_all add: day_valid_def)
  have r: "r = (if leap_year (?y + 1) then 365 else 364)"
    using assms unfolding leap_year_day[OF abc] by (auto simp: day_valid_def split: if_splits)
  then show ?thesis by (auto simp: civil_parts_def month_day_ends days_in_month_def)
qed

lemma first_day_next_year:
  assumes "day_valid a b c r" and "\<not> day_valid a b c (Suc r)" and "0 \<le> e"
  shows "\<exists>e' a' b' c'. 146097 * e + int (day_in_era a b c r) + 1 = 146097 * e' + int (day_in_era a' b' c' 0)
    \<and> int (100 * a' + 4 * b' + c') + e' * 400 = int (100 * a + 4 * b + c) + e * 400 + 1 \<and> day_valid a' b' c' 0 \<and> 0 \<le> e'"
proof -
  have abc: "a < 4" "b < 25" "c < 4" using assms(1) by (simp_all add: day_valid_def)
  have r: "r = (if c = 3 \<and> (b = 24 \<longrightarrow> a = 3) then 365 else 364)"
    using assms(1,2) by (auto simp: day_valid_def split: if_splits)
  consider "c < 3" | "c = 3" "b < 24" | "c = 3" "b = 24" "a < 3" | "c = 3" "b = 24" "a = 3" using abc by linarith
  then show ?thesis
  proof cases
    case 1
    then show ?thesis using r abc assms(3)
      by (intro exI[of _ e] exI[of _ a] exI[of _ b] exI[of _ "Suc c"]) (simp add: day_in_era_def day_valid_def)
  next
    case 2
    then show ?thesis using r abc assms(3)
      by (intro exI[of _ e] exI[of _ a] exI[of _ "Suc b"] exI[of _ 0]) (simp add: day_in_era_def day_valid_def)
  next
    case 3
    then show ?thesis using r abc assms(3)
      by (intro exI[of _ e] exI[of _ "Suc a"] exI[of _ 0] exI[of _ 0]) (simp add: day_in_era_def day_valid_def)
  next
    case 4
    then show ?thesis using r abc assms(3)
      by (intro exI[of _ "e + 1"] exI[of _ 0] exI[of _ 0] exI[of _ 0]) (simp add: day_in_era_def day_valid_def)
  qed
qed

lemma civil_from_days_Suc:
  assumes "- 719468 \<le> days"
  shows "civil_from_days (days + 1) = next_date (civil_from_days days)"
proof -
  have "0 \<le> days + 719468" using assms by simp
  then obtain e a b c r where z: "days + 719468 = 146097 * e + int (day_in_era a b c r)" "day_valid a b c r" "0 \<le> e"
    by (rule civil_exists)
  have days: "days = 146097 * e + int (day_in_era a b c r) - 719468" using z(1) by simp
  show ?thesis
  proof (cases "day_valid a b c (Suc r)")
    case True
    have following: "days + 1 = 146097 * e + int (day_in_era a b c (Suc r)) - 719468"
      using days by (simp add: day_in_era_def)
    show ?thesis
      using civil_from_parts[OF True z(3)] civil_from_parts[OF z(2,3)] next_date_within[OF True]
      unfolding following days[symmetric] by metis
  next
    case False
    from first_day_next_year[OF z(2) False z(3)] obtain e' a' b' c' where n:
      "146097 * e + int (day_in_era a b c r) + 1 = 146097 * e' + int (day_in_era a' b' c' 0)"
      "int (100 * a' + 4 * b' + c') + e' * 400 = int (100 * a + 4 * b + c) + e * 400 + 1"
      "day_valid a' b' c' 0" "0 \<le> e'" by blast
    have following: "days + 1 = 146097 * e' + int (day_in_era a' b' c' 0) - 719468" using days n(1) by simp
    have "civil_from_days (days + 1) = civil_parts (int (100 * a + 4 * b + c) + e * 400 + 1) 0"
      unfolding following civil_from_parts[OF n(3,4)] n(2) ..
    also have "\<dots> = next_date (civil_from_days days)"
      unfolding days civil_from_parts[OF z(2,3)] last_day[OF z(2) False] ..
    finally show ?thesis .
  qed
qed

lemma civil_epoch: "civil_from_days 0 = (1970, 1, 1)"
proof -
  have "day_valid 3 17 1 306" by (simp add: day_valid_def)
  from civil_from_parts[OF this, of 4] show ?thesis
    by (simp add: day_in_era_def civil_parts_def month_day_eq)
qed

end
