(* ===== verification/Package_Grants.thy ===== *)
theory Package_Grants imports Package_Service Package_Clock begin

text \<open>
  Grants and approvals of the package service (\<open>packages/service.rs\<close>): capabilities the user authorises,
  language servers, the defaults of shipped packages, and the durable approval of a package with its state.
\<close>

section \<open>Authorisations\<close>

definition authorization_new ::
  "package_provenance \<Rightarrow> ustr \<Rightarrow> package_permission list \<Rightarrow> runtime_profile \<Rightarrow> ustr \<Rightarrow> package_authorization" where
  "authorization_new p api_prefix approved profile approved_by =
     \<lparr>az_package_name = pp_resolved_name p, az_requested_spec = pp_requested_spec p, az_source_kind = pp_source_kind p,
      az_resolved_version = pp_resolved_version p, az_api_prefix = api_prefix, az_approved_capabilities = approved,
      az_runtime_profile = profile, az_approved_by = approved_by\<rparr>"

definition authorization_grants :: "package_authorization \<Rightarrow> package_permission \<Rightarrow> bool" where
  "authorization_grants a permission \<longleftrightarrow> permission \<in> set (az_approved_capabilities a)"

definition authorization_matches :: "package_provenance \<Rightarrow> package_authorization \<Rightarrow> bool" where
  "authorization_matches p a \<longleftrightarrow> az_package_name a = pp_resolved_name p \<and> az_requested_spec a = pp_requested_spec p
     \<and> az_source_kind a = pp_source_kind p \<and> az_resolved_version a = pp_resolved_version p"

definition put_authorization :: "ustr \<Rightarrow> package_authorization \<Rightarrow> 'b package_catalog \<Rightarrow> 'b package_catalog" where
  "put_authorization name a c = c\<lparr>ct_authorizations := (ct_authorizations c)(name \<mapsto> a)\<rparr>"

definition authorize_package ::
  "'b package_host \<Rightarrow> ustr \<Rightarrow> package_permission list \<Rightarrow> runtime_profile \<Rightarrow> ustr \<Rightarrow> 'b package_service \<Rightarrow>
   'b package_service \<times> (service_error + unit)" where
  "authorize_package host name approved profile approved_by s =
     (case map_of (ct_installed (ps_catalog s)) name of
        None \<Rightarrow> (s, Inl (Not_Installed name))
      | Some i \<Rightarrow>
          (case ho_assemble host (ip_package_json i) of
             None \<Rightarrow> (s, Inl Invalid_Clay_Metadata)
           | Some r \<Rightarrow>
               (s\<lparr>ps_catalog := put_authorization name
                    (authorization_new (ip_provenance i) (cm_api_prefix (record_clay r)) approved profile approved_by)
                    (ps_catalog s)\<rparr>, Inr ())))"

text \<open>\<open>LanguageServerGrant::new\<close>; the root ids are sorted, each once.\<close>

definition grant_new ::
  "'b package_host \<Rightarrow> package_provenance \<Rightarrow> ustr \<Rightarrow> language_server_descriptor \<Rightarrow> ustr \<Rightarrow> nat list \<Rightarrow> ustr \<Rightarrow> language_server_grant" where
  "grant_new host p api_prefix descriptor executable roots approved_by =
     \<lparr>lg_package_name = pp_resolved_name p, lg_requested_spec = pp_requested_spec p, lg_source_kind = pp_source_kind p,
      lg_resolved_version = pp_resolved_version p, lg_api_prefix = api_prefix, lg_contribution_id = ls_id descriptor,
      lg_descriptor_fingerprint = ho_fingerprint host descriptor, lg_canonical_executable = executable,
      lg_workspace_root_ids = remdups_adj (sort roots), lg_approved_by = approved_by\<rparr>"

definition grant_matches ::
  "'b package_host \<Rightarrow> language_server_grant \<Rightarrow> package_provenance \<Rightarrow> ustr \<Rightarrow> language_server_descriptor \<Rightarrow> bool" where
  "grant_matches host g p api_prefix descriptor \<longleftrightarrow>
     lg_package_name g = pp_resolved_name p \<and> lg_requested_spec g = pp_requested_spec p
     \<and> lg_source_kind g = pp_source_kind p \<and> lg_resolved_version g = pp_resolved_version p
     \<and> lg_api_prefix g = api_prefix \<and> lg_contribution_id g = ls_id descriptor
     \<and> lg_descriptor_fingerprint g = ho_fingerprint host descriptor \<and> lg_workspace_root_ids g \<noteq> []"

definition current_authorization :: "'b package_catalog \<Rightarrow> ustr \<Rightarrow> package_provenance \<Rightarrow> package_authorization option" where
  "current_authorization c name p =
     (case ct_authorizations c name of
        None \<Rightarrow> None
      | Some a \<Rightarrow> if authorization_matches p a then Some a else None)"

definition with_language_server :: "package_permission list \<Rightarrow> package_permission list" where
  "with_language_server capabilities =
     (if LanguageServer \<in> set capabilities then capabilities else capabilities @ [LanguageServer])"

definition authorize_language_server ::
  "'b package_host \<Rightarrow> ustr \<Rightarrow> ustr \<Rightarrow> ustr \<Rightarrow> nat list \<Rightarrow> ustr \<Rightarrow> 'b package_service \<Rightarrow>
   'b package_service \<times> (service_error + language_server_grant)" where
  "authorize_language_server host name contribution_id executable roots approved_by s =
     (case map_of (ct_installed (ps_catalog s)) name of
        None \<Rightarrow> (s, Inl (Not_Installed name))
      | Some i \<Rightarrow>
          (case ho_assemble host (ip_package_json i) of
             None \<Rightarrow> (s, Inl Invalid_Clay_Metadata)
           | Some r \<Rightarrow>
               (case find (\<lambda>d. ls_id d = contribution_id) (pc_language_servers (pr_contributions r)) of
                  None \<Rightarrow> (s, Inl (Missing_Language_Server_Grant name))
                | Some descriptor \<Rightarrow>
                    if ho_resolve_executable host (ls_executable descriptor) \<noteq> Some executable
                    then (s, Inl (Missing_Language_Server_Grant name))
                    else
                      let g = grant_new host (ip_provenance i) (cm_api_prefix (record_clay r)) descriptor executable roots approved_by
                      in if lg_workspace_root_ids g = [] then (s, Inl (Missing_Language_Server_Grant name))
                         else
                           let c = (ps_catalog s)\<lparr>ct_grants := AList.update (name, contribution_id) g (ct_grants (ps_catalog s))\<rparr>;
                               current = current_authorization c name (ip_provenance i);
                               capabilities = with_language_server
                                 (case current of None \<Rightarrow> [] | Some a \<Rightarrow> az_approved_capabilities a);
                               profile = (case current of None \<Rightarrow> Restricted | Some a \<Rightarrow> az_runtime_profile a)
                           in (s\<lparr>ps_catalog := put_authorization name
                                  (authorization_new (ip_provenance i) (cm_api_prefix (record_clay r)) capabilities profile approved_by) c\<rparr>,
                               Inr g))))"

definition has_current_language_server_grant ::
  "'b package_host \<Rightarrow> 'b package_catalog \<Rightarrow> ustr \<Rightarrow> package_provenance \<Rightarrow> package_record \<Rightarrow> bool" where
  "has_current_language_server_grant host c name p r \<longleftrightarrow>
     list_ex (\<lambda>descriptor.
        case map_of (ct_grants c) (name, ls_id descriptor) of
          None \<Rightarrow> False
        | Some g \<Rightarrow> grant_matches host g p (cm_api_prefix (record_clay r)) descriptor
            \<and> ho_resolve_executable host (ls_executable descriptor) = Some (lg_canonical_executable g))
       (pc_language_servers (pr_contributions r))"

definition authorize_bundled_defaults ::
  "'b package_host \<Rightarrow> ustr \<Rightarrow> ustr \<Rightarrow> 'b package_service \<Rightarrow> 'b package_service \<times> (service_error + unit)" where
  "authorize_bundled_defaults host name approved_by s =
     (case map_of (ct_installed (ps_catalog s)) name of
        None \<Rightarrow> (s, Inl (Not_Installed name))
      | Some i \<Rightarrow>
          (case verify_bundled_trust (ho_trust host) (ip_provenance i) of
             Inl _ \<Rightarrow> (s, Inl (Bundled_Trust_Denied name))
           | Inr _ \<Rightarrow>
               (case ho_assemble host (ip_package_json i) of
                  None \<Rightarrow> (s, Inl Invalid_Clay_Metadata)
                | Some r \<Rightarrow>
                    let capabilities = filter (\<lambda>p. p \<noteq> LanguageServer) (cm_permissions (record_clay r))
                    in authorize_package host name
                         (if has_current_language_server_grant host (ps_catalog s) name (ip_provenance i) r
                          then capabilities @ [LanguageServer] else capabilities)
                         NativeTrust approved_by s)))"

definition revoke_language_server_grants :: "ustr \<Rightarrow> 'b package_service \<Rightarrow> 'b package_service \<times> nat" where
  "revoke_language_server_grants name s =
     (let c = ps_catalog s; kept = filter (\<lambda>((n, _), _). n \<noteq> name) (ct_grants c);
          authorizations =
            (case ct_authorizations c name of
               None \<Rightarrow> ct_authorizations c
             | Some a \<Rightarrow> (ct_authorizations c)(name \<mapsto> a\<lparr>az_approved_capabilities :=
                           filter (\<lambda>p. p \<noteq> LanguageServer) (az_approved_capabilities a)\<rparr>))
      in (s\<lparr>ps_catalog := c\<lparr>ct_grants := kept, ct_authorizations := authorizations\<rparr>\<rparr>,
          length (ct_grants c) - length kept))"

definition has_approved_capability :: "'b package_service \<Rightarrow> ustr \<Rightarrow> package_permission \<Rightarrow> bool" where
  "has_approved_capability s name permission =
     (case ct_authorizations (ps_catalog s) name of
        None \<Rightarrow> False
      | Some a \<Rightarrow> permission \<in> set (az_approved_capabilities a))"

section \<open>Approvals\<close>

definition put_approvals :: "'b approval_store \<Rightarrow> 'b package_service \<Rightarrow> 'b package_service" where
  "put_approvals store s = s\<lparr>ps_catalog := (ps_catalog s)\<lparr>ct_approvals := store\<rparr>\<rparr>"

definition record_package_approval ::
  "'b package_host \<Rightarrow> package_approval_record \<Rightarrow> 'b package_service \<Rightarrow> 'b package_service \<times> (service_error + unit)" where
  "record_package_approval host r s =
     (let (store, result) = upsert (ho_serde host) (ho_outcome host) r (ct_approvals (ps_catalog s))
      in (put_approvals store s, map_sum Approval_Store id result))"

definition contribution_ids_of :: "package_record \<Rightarrow> ustr list" where
  "contribution_ids_of r =
     (let c = pr_contributions r in
      pc_commands c @ pc_completion_providers c @ map ls_id (pc_language_servers c)
        @ pc_language_intelligence_providers c @ pc_sdui c @ pc_ui_components c @ map fst (pc_ui_panels c)
        @ pc_syntax_grammars c)"

text \<open>The processes a package asks for.\<close>

definition processes_of :: "package_record \<Rightarrow> ustr list" where
  "processes_of r = map ls_id (pc_language_servers (pr_contributions r))"

definition approved_relation_of :: "structured_relation_request \<Rightarrow> approved_relation" where
  "approved_relation_of q =
     \<lparr>ar_package = sr_package q, ar_extension_point = sr_extension_point q, ar_version = sr_version q,
      ar_operation = operation_as_str (sr_operation q), ar_scopes = sr_scopes q\<rparr>"

definition approved_replacement_of ::
  "'b package_host \<Rightarrow> (ustr \<times> installed_package) list \<Rightarrow> installed_package \<Rightarrow> package_record \<Rightarrow> ustr \<Rightarrow> approved_replacement" where
  "approved_replacement_of host installed i r target =
     \<lparr>ap_target = target, ap_replacement_package = record_name r,
      ap_replacement_version = mf_version (pr_manifest r), ap_replacement_source = pp_requested_spec (ip_provenance i),
      ap_replacement_integrity = pp_integrity (ip_provenance i),
      ap_withdrawn_contributions =
        (case Option.bind (map_of installed target) (\<lambda>t. ho_assemble host (ip_package_json t)) of
           None \<Rightarrow> [] | Some t \<Rightarrow> contribution_ids_of t),
      ap_compatibility_claims = [], ap_rollback_restore_target = True\<rparr>"

definition approval_of ::
  "'b package_host \<Rightarrow> (ustr \<times> installed_package) list \<Rightarrow> installed_package \<Rightarrow> package_record \<Rightarrow> ustr \<Rightarrow> ustr \<Rightarrow> package_approval_record" where
  "approval_of host installed i r approved_by now =
     (let p = ip_provenance i; graph = cm_graph (record_clay r) in
      \<lparr>pa_package = pp_resolved_name p, pa_resolved_version = pp_resolved_version p, pa_source = pp_requested_spec p,
       pa_integrity = pp_integrity p, pa_package_root = pp_package_root p, pa_api_prefix = cm_api_prefix (record_clay r),
       pa_capabilities = map permission_as_str (cm_permissions (record_clay r)), pa_processes = processes_of r,
       pa_relations = map approved_relation_of (pg_relation_requests graph),
       pa_replacements = map (approved_replacement_of host installed i r) (pg_replaces graph),
       pa_approved_by = approved_by, pa_approved_at = now, pa_revoked = False\<rparr>)"

definition approve_package ::
  "'b package_host \<Rightarrow> ustr \<Rightarrow> ustr \<Rightarrow> nat \<Rightarrow> 'b package_service \<Rightarrow> 'b package_service \<times> (service_error + package_approval_record)" where
  "approve_package host name approved_by clock s =
     (case map_of (ct_installed (ps_catalog s)) name of
        None \<Rightarrow> (s, Inl (Not_Installed name))
      | Some i \<Rightarrow>
          (case ho_assemble host (ip_package_json i) of
             None \<Rightarrow> (s, Inl Invalid_Clay_Metadata)
           | Some r \<Rightarrow>
               let approval = approval_of host (ct_installed (ps_catalog s)) i r approved_by (rfc3339 clock);
                   (s', result) = record_package_approval host approval s
               in (s', map_sum id (\<lambda>_. approval) result)))"

datatype adoption = Adoption_Pending | Adoption_Approved | Adoption_Stale | Adoption_Revoked

definition covers_record ::
  "(ustr \<times> package_approval_record) list \<Rightarrow> package_provenance \<Rightarrow> package_record \<Rightarrow> approval_mismatch + unit" where
  "covers_record approvals p r =
     approval_covers approvals p (cm_api_prefix (record_clay r)) (cm_permissions (record_clay r)) (processes_of r)
       (cm_graph (record_clay r))"

definition adoption_state :: "'b package_host \<Rightarrow> 'b package_service \<Rightarrow> ustr \<Rightarrow> adoption option" where
  "adoption_state host s name =
     (case map_of (ct_installed (ps_catalog s)) name of
        None \<Rightarrow> None
      | Some i \<Rightarrow>
          (case ho_assemble host (ip_package_json i) of
             None \<Rightarrow> None
           | Some r \<Rightarrow>
               (case covers_record (st_approvals (ct_approvals (ps_catalog s))) (ip_provenance i) r of
                  Inr _ \<Rightarrow> Some Adoption_Approved
                | Inl Approval_Not_Found \<Rightarrow> Some Adoption_Pending
                | Inl Approval_Revoked \<Rightarrow> Some Adoption_Revoked
                | Inl _ \<Rightarrow> Some Adoption_Stale)))"

definition revoke_package_approval ::
  "'b package_host \<Rightarrow> ustr \<Rightarrow> 'b package_service \<Rightarrow> 'b package_service \<times> (service_error + bool)" where
  "revoke_package_approval host name s =
     (let (store, result) = revoke (ho_serde host) (ho_outcome host) name (ct_approvals (ps_catalog s))
      in (put_approvals store s, map_sum Approval_Store id result))"

end
