(* ===== verification/Package_Activation.thy ===== *)
theory Package_Activation imports Package_Grants begin

text \<open>
  Enabling, disabling and removing packages (\<open>packages/service.rs\<close>). Enabling a package first enables what it depends
  on or extends, then takes away what it disables or replaces, then enters it and resolves conflicts.
  \<open>enable\<close> puts everything back when any of this fails.

  A function that can fail returns the state it leaves and its result, as the code does: what was
  changed before the failure stays until \<open>enable\<close> undoes it. The recursion over the graph ends because the stack
  of packages being enabled has no package twice and all of them are installed.
\<close>

section \<open>Checks\<close>

definition resolve_graph_target :: "'b package_catalog \<Rightarrow> ustr \<Rightarrow> ustr \<Rightarrow> service_error + ustr" where
  "resolve_graph_target c name target =
     (if target = name then Inl (Package_Graph_Cycle [name, target])
      else case installed_package_for_specifier (ct_installed c) target of
             Some (n, _) \<Rightarrow> Inr n
           | None \<Rightarrow> Inl (Missing_Graph_Target name target))"

fun resolve_all :: "'b package_catalog \<Rightarrow> ustr \<Rightarrow> ustr list \<Rightarrow> service_error + ustr list" where
  "resolve_all c name [] = Inr []"
| "resolve_all c name (t # ts) =
     bind_result (resolve_graph_target c name t) (\<lambda>n. bind_result (resolve_all c name ts) (\<lambda>ns. Inr (n # ns)))"

definition resolve_graph_targets :: "'b package_catalog \<Rightarrow> ustr \<Rightarrow> package_graph_plan \<Rightarrow> service_error + package_graph_plan" where
  "resolve_graph_targets c name plan =
     bind_result (resolve_all c name (gp_depends_on plan)) (\<lambda>depends_on.
     bind_result (resolve_all c name (gp_extends plan)) (\<lambda>extends.
     bind_result (resolve_all c name (gp_disables plan)) (\<lambda>disables.
     bind_result (resolve_all c name (gp_replaces plan)) (\<lambda>replaces.
       Inr \<lparr>gp_depends_on = depends_on, gp_extends = extends, gp_disables = disables, gp_replaces = replaces\<rparr>))))"

definition ensure_package_control_grant :: "'b package_catalog \<Rightarrow> ustr \<Rightarrow> service_error + unit" where
  "ensure_package_control_grant c name =
     (case ct_authorizations c name of
        Some a \<Rightarrow> if authorization_grants a PackageControl then Inr () else Inl (Missing_Package_Control_Grant name)
      | None \<Rightarrow> Inl (Missing_Package_Control_Grant name))"

definition required_capabilities :: "package_record \<Rightarrow> package_permission list" where
  "required_capabilities r = filter (\<lambda>p. p \<noteq> LanguageServer) (cm_permissions (record_clay r))"

definition ensure_capability_grants :: "'b package_catalog \<Rightarrow> ustr \<Rightarrow> package_record \<Rightarrow> service_error + unit" where
  "ensure_capability_grants c name r =
     (case ct_authorizations c name of
        None \<Rightarrow>
          (case required_capabilities r of
             [] \<Rightarrow> Inr ()
           | capability # _ \<Rightarrow> Inl (Missing_Capability_Grant name capability))
      | Some a \<Rightarrow>
          (case find (\<lambda>p. \<not> authorization_grants a p) (required_capabilities r) of
             None \<Rightarrow> Inr ()
           | Some capability \<Rightarrow> Inl (Missing_Capability_Grant name capability)))"

fun relation_code :: "relation_verification_error \<Rightarrow> ustr" where
  "relation_code (Unknown_Extension_Point _) = lit ''package_relation.unknown_extension_point''"
| "relation_code (Version_Mismatch _ _ _) = lit ''package_relation.version_mismatch''"
| "relation_code (Operation_Not_Offered _ _) = lit ''package_relation.operation_not_offered''"

fun verify_requests :: "activation \<Rightarrow> ustr \<Rightarrow> structured_relation_request list \<Rightarrow> service_error + unit" where
  "verify_requests a name [] = Inr ()"
| "verify_requests a name (q # qs) =
     (case map_of (av_enabled a) (sr_package q) of
        None \<Rightarrow> Inl (Relation_Denied name (lit ''package_relation.target_not_enabled''))
      | Some target \<Rightarrow>
          (case verify_relation_request (cm_extension_points (record_clay target)) q of
             Inl e \<Rightarrow> Inl (Relation_Denied name (relation_code e))
           | Inr _ \<Rightarrow> verify_requests a name qs))"

definition verify_relation_authority :: "'b package_catalog \<Rightarrow> package_record \<Rightarrow> activation \<Rightarrow> service_error + unit" where
  "verify_relation_authority c r a =
     (case verify_requests a (record_name r) (pg_relation_requests (cm_graph (record_clay r))) of
        Inl e \<Rightarrow> Inl e
      | Inr _ \<Rightarrow>
          if pr_runtime_domain r = ThirdParty_Domain
          then (case map_of (ct_installed c) (record_name r) of
                  None \<Rightarrow> Inl (Not_Installed (record_name r))
                | Some i \<Rightarrow>
                    (case covers_record (st_approvals (ct_approvals c)) (ip_provenance i) r of
                       Inl mismatch \<Rightarrow> Inl (Adoption_Required (record_name r) (mismatch_code mismatch))
                     | Inr _ \<Rightarrow> Inr ()))
          else Inr ())"

section \<open>Changing the enabled set\<close>

definition record_revocation :: "package_record \<Rightarrow> ustr \<Rightarrow> activation \<Rightarrow> activation" where
  "record_revocation r reason a =
     (let generation = sat_add (av_generation a) 1 in
      a\<lparr>av_generation := generation, av_revocations := (av_revocations a)(record_name r \<mapsto>
          \<lparr>rv_package_name = record_name r, rv_api_prefix = cm_api_prefix (record_clay r), rv_package_generation = generation,
           rv_withdrawn = counts_from_record r, rv_reason = reason\<rparr>)\<rparr>)"

fun reason_as_str :: "resolution_reason \<Rightarrow> ustr" where
  "reason_as_str UserOverride = lit ''user-override''"
| "reason_as_str PackageReplaces = lit ''package-replaces''"
| "reason_as_str PackageDisables = lit ''package-disables''"

definition remove_enabled :: "ustr \<Rightarrow> activation \<Rightarrow> activation" where
  "remove_enabled name a = a\<lparr>av_enabled := AList.delete name (av_enabled a)\<rparr>"

definition push_resolution :: "resolution_diagnostic \<Rightarrow> activation \<Rightarrow> activation" where
  "push_resolution d a = a\<lparr>av_resolutions := av_resolutions a @ [d]\<rparr>"

definition apply_resolution :: "resolution_diagnostic \<Rightarrow> activation \<Rightarrow> activation" where
  "apply_resolution d a =
     push_resolution d
       (case map_of (av_enabled a) (cv_package_name (rd_loser d)) of
          None \<Rightarrow> remove_enabled (cv_package_name (rd_loser d)) a
        | Some loser \<Rightarrow>
            record_revocation loser (lit ''conflict-resolution:'' @ reason_as_str (rd_reason d))
              (remove_enabled (cv_package_name (rd_loser d)) a))"

definition reconcile_enabled_conflicts :: "conflict_policy \<Rightarrow> ustr \<Rightarrow> activation \<Rightarrow> activation \<times> (service_error + unit)" where
  "reconcile_enabled_conflicts policy name a =
     (case check_with_policy (map snd (av_enabled a)) policy of
        Inr resolutions \<Rightarrow> (fold apply_resolution resolutions a, Inr ())
      | Inl conflict \<Rightarrow> (remove_enabled name a, Inl (Contribution_Conflict conflict)))"

definition record_package_control_resolution ::
  "'b package_host \<Rightarrow> 'b package_catalog \<Rightarrow> ustr \<Rightarrow> ustr \<Rightarrow> resolution_reason \<Rightarrow> activation \<Rightarrow> activation" where
  "record_package_control_resolution host c controller target reason a =
     (case (map_of (ct_installed c) controller, map_of (av_enabled a) target) of
        (Some winner, Some loser) \<Rightarrow>
          (case ho_assemble host (ip_package_json winner) of
             None \<Rightarrow> a
           | Some w \<Rightarrow>
               push_resolution \<lparr>rd_contribution_id = target, rd_winner = provenance_from_record w,
                 rd_loser = provenance_from_record loser, rd_reason = reason\<rparr> a)
      | _ \<Rightarrow> a)"

definition take_away ::
  "'b package_host \<Rightarrow> 'b package_catalog \<Rightarrow> ustr \<Rightarrow> resolution_reason \<Rightarrow> ustr \<Rightarrow> activation \<Rightarrow> activation" where
  "take_away host c name reason target a =
     remove_enabled target (record_package_control_resolution host c name target reason a)"

text \<open>The part of \<open>enable_graph\<close> before the targets are enabled.\<close>

definition prepare_enable ::
  "'b package_host \<Rightarrow> 'b package_catalog \<Rightarrow> ustr \<Rightarrow> installed_package \<Rightarrow> service_error + package_record \<times> package_graph_plan" where
  "prepare_enable host c name i =
     (case ho_assemble host (ip_package_json i) of
        None \<Rightarrow> Inl Invalid_Clay_Metadata
      | Some assembled \<Rightarrow>
          let r = assembled\<lparr>pr_runtime_domain := runtime_domain_of (ho_trust host) (ip_provenance i)\<rparr>;
              plan = plan_from_relations (cm_graph (record_clay r))
          in bind_result (ensure_capability_grants c name r) (\<lambda>_.
             bind_result (if requires_package_control plan then ensure_package_control_grant c name else Inr ()) (\<lambda>_.
             bind_result (resolve_graph_targets c name plan) (\<lambda>resolved. Inr (r, resolved)))))"

text \<open>The part after the targets are enabled.\<close>

definition finish_enable ::
  "'b package_host \<Rightarrow> 'b package_catalog \<Rightarrow> ustr \<Rightarrow> package_record \<Rightarrow> package_graph_plan \<Rightarrow> activation \<Rightarrow>
   activation \<times> (service_error + unit)" where
  "finish_enable host c name r resolved a =
     (case verify_relation_authority c r a of
        Inl e \<Rightarrow> (a, Inl e)
      | Inr _ \<Rightarrow>
          let a1 = fold (take_away host c name PackageDisables) (gp_disables resolved) a;
              a2 = fold (take_away host c name PackageReplaces) (gp_replaces resolved) a1;
              a3 = a2\<lparr>av_enabled := AList.update name r (av_enabled a2), av_generation := sat_add (av_generation a2) 1,
                      av_revocations := (av_revocations a2)(name := None)\<rparr>
          in reconcile_enabled_conflicts (ct_conflict_policy c) name a3)"

text \<open>Whether an enabled package has replaced this one.\<close>

definition replaced_by_enabled :: "activation \<Rightarrow> ustr \<Rightarrow> bool" where
  "replaced_by_enabled a name \<longleftrightarrow>
     list_ex (\<lambda>d. rd_reason d = PackageReplaces \<and> cv_package_name (rd_loser d) = name
        \<and> map_of (av_enabled a) (cv_package_name (rd_winner d)) \<noteq> None) (av_resolutions a)"

section \<open>Enabling the graph\<close>

text \<open>The packages that are installed and not yet on the stack.\<close>

definition off_stack :: "'b package_catalog \<Rightarrow> ustr list \<Rightarrow> ustr set" where
  "off_stack c stack = fst ` set (ct_installed c) - set stack"

lemma off_stack_push:
  assumes "map_of (ct_installed c) name = Some i" and "name \<notin> set stack"
  shows "card (off_stack c (stack @ [name])) < card (off_stack c stack)"
proof (rule psubset_card_mono)
  have "name \<in> off_stack c stack" using assms map_of_SomeD by (force simp: off_stack_def)
  then show "off_stack c (stack @ [name]) \<subset> off_stack c stack" by (auto simp: off_stack_def)
qed (simp add: off_stack_def)

function (sequential)
  enable_graph :: "'b package_host \<Rightarrow> 'b package_catalog \<Rightarrow> ustr \<Rightarrow> ustr list \<Rightarrow> activation \<Rightarrow>
    activation \<times> (service_error + unit)" and
  enable_targets :: "'b package_host \<Rightarrow> 'b package_catalog \<Rightarrow> ustr list \<Rightarrow> ustr list \<Rightarrow> activation \<Rightarrow>
    activation \<times> (service_error + unit)" where
  "enable_graph host c name stack a =
     (if map_of (av_enabled a) name \<noteq> None then (a, Inr ())
      else if name \<in> set stack then (a, Inl (Package_Graph_Cycle (cycle_from_stack stack name)))
      else if stack \<noteq> [] \<and> replaced_by_enabled a name
      then (a, Inl (Relation_Denied name (lit ''package_replacement.target_replaced'')))
      else case map_of (ct_installed c) name of
             None \<Rightarrow> (a, Inl (Not_Installed name))
           | Some i \<Rightarrow>
               (case prepare_enable host c name i of
                  Inl e \<Rightarrow> (a, Inl e)
                | Inr (r, resolved) \<Rightarrow>
                    (case enable_targets host c (activation_targets resolved) (stack @ [name]) a of
                       (a', Inl e) \<Rightarrow> (a', Inl e)
                     | (a', Inr _) \<Rightarrow> finish_enable host c name r resolved a')))"
| "enable_targets host c [] stack a = (a, Inr ())"
| "enable_targets host c (t # ts) stack a =
     (case enable_graph host c t stack a of
        (a', Inl e) \<Rightarrow> (a', Inl e)
      | (a', Inr _) \<Rightarrow> enable_targets host c ts stack a')"
  by pat_completeness auto

termination
proof (relation "measures [case_sum (\<lambda>(host, c, name, stack, a). card (off_stack c stack))
      (\<lambda>(host, c, ts, stack, a). card (off_stack c stack)),
    case_sum (\<lambda>_. 0) (\<lambda>(host, c, ts, stack, a). Suc (length ts))]", goal_cases)
qed (simp_all add: off_stack_push)

declare enable_graph.simps [simp del]

section \<open>Enabling\<close>

text \<open>The targets that the root package has replaced since \<open>offset\<close>.\<close>

definition replaced_targets :: "ustr \<Rightarrow> nat \<Rightarrow> activation \<Rightarrow> ustr list" where
  "replaced_targets name offset a =
     map (\<lambda>d. cv_package_name (rd_loser d))
       (filter (\<lambda>d. rd_reason d = PackageReplaces \<and> cv_package_name (rd_winner d) = name) (drop offset (av_resolutions a)))"

fun revoke_targets ::
  "'b package_host \<Rightarrow> ustr list \<Rightarrow> 'b approval_store \<Rightarrow> 'b approval_store \<times> (service_error + unit)" where
  "revoke_targets host [] store = (store, Inr ())"
| "revoke_targets host (t # ts) store =
     (case revoke (ho_serde host) (ho_outcome host) t store of
        (store', Inl e) \<Rightarrow> (store', Inl (Approval_Store e))
      | (store', Inr _) \<Rightarrow> revoke_targets host ts store')"

text \<open>\<open>None\<close> is the failing \<open>expect\<close>: the package is not enabled although everything succeeded.\<close>

definition enable ::
  "'b package_host \<Rightarrow> ustr \<Rightarrow> 'b package_service \<Rightarrow> ('b package_service \<times> (service_error + package_record)) option" where
  "enable host name s =
     (let c = ps_catalog s; a = ps_activation s in
      if map_of (av_enabled a) name \<noteq> None then Some (s, Inl (Already_Enabled name))
      else
        let previous_approvals = snapshot (ct_approvals c);
            (a1, graph_result) = enable_graph host c name [] a;
            (store, result) =
              (case graph_result of
                 Inl e \<Rightarrow> (ct_approvals c, Inl e)
               | Inr _ \<Rightarrow> revoke_targets host (replaced_targets name (length (av_resolutions a)) a1) (ct_approvals c))
        in case result of
             Inl e \<Rightarrow>
               (let (store', restored) = restore (ho_serde host) (ho_outcome host) previous_approvals store;
                    s' = s\<lparr>ps_catalog := c\<lparr>ct_approvals := store'\<rparr>,
                           ps_activation := a1\<lparr>av_enabled := av_enabled a, av_resolutions := av_resolutions a,
                             av_revocations := av_revocations a, av_generation := av_generation a\<rparr>\<rparr>
                in case restored of
                     Inl restore_error \<Rightarrow> Some (s', Inl (Approval_Store restore_error))
                   | Inr _ \<Rightarrow> Some (s', Inl e))
           | Inr _ \<Rightarrow>
               (case map_of (av_enabled a1) name of
                  None \<Rightarrow> None
                | Some r \<Rightarrow> Some (s\<lparr>ps_catalog := c\<lparr>ct_approvals := store\<rparr>, ps_activation := a1\<rparr>, Inr r)))"

section \<open>Disabling and removing\<close>

definition revoke_enabled_package :: "ustr \<Rightarrow> ustr \<Rightarrow> 'b package_service \<Rightarrow> 'b package_service \<times> (service_error + package_record)" where
  "revoke_enabled_package name reason s =
     (let a = ps_activation s in
      case map_of (av_enabled a) name of
        None \<Rightarrow> (s, Inl (Not_Enabled name))
      | Some r \<Rightarrow>
          (s\<lparr>ps_activation := record_revocation r reason
               ((remove_enabled name a)\<lparr>av_resolutions :=
                  filter (\<lambda>d. cv_package_name (rd_winner d) \<noteq> name \<and> cv_package_name (rd_loser d) \<noteq> name) (av_resolutions a)\<rparr>)\<rparr>,
           Inr r))"

definition disable :: "ustr \<Rightarrow> 'b package_service \<Rightarrow> 'b package_service \<times> (service_error + package_record)" where
  "disable name s = revoke_enabled_package name (lit ''disable'') s"

text \<open>\<open>remove\<close>; \<open>backend\<close> tells whether the package manager succeeds.\<close>

definition remove_package :: "bool \<Rightarrow> ustr \<Rightarrow> 'b package_service \<Rightarrow> 'b package_service \<times> (service_error + unit)" where
  "remove_package backend name s =
     (let s1 = fst (disable name s) in
      if \<not> backend then (s1, Inl Backend_Error)
      else
        let c = ps_catalog s1;
            s2 = s1\<lparr>ps_catalog := c\<lparr>ct_installed := AList.delete name (ct_installed c),
                      ct_authorizations := (ct_authorizations c)(name := None)\<rparr>\<rparr>
        in (fst (revoke_language_server_grants name s2), Inr ()))"

definition active_replacement :: "'b package_service \<Rightarrow> ustr \<Rightarrow> ustr option" where
  "active_replacement s target =
     map_option (\<lambda>(_, r). record_name r)
       (find (\<lambda>(_, r). list_ex (\<lambda>spec.
            case installed_package_for_specifier (ct_installed (ps_catalog s)) spec of
              None \<Rightarrow> False | Some (name, _) \<Rightarrow> name = target)
          (pg_replaces (cm_graph (record_clay r)))) (av_enabled (ps_activation s)))"

definition rollback_replacement ::
  "'b package_host \<Rightarrow> ustr \<Rightarrow> nat \<Rightarrow> 'b package_service \<Rightarrow> ('b package_service \<times> (service_error + ustr)) option" where
  "rollback_replacement host target clock s =
     (case active_replacement s target of
        None \<Rightarrow> Some (s, Inl (No_Active_Replacement target))
      | Some replacement \<Rightarrow>
          (case disable replacement s of
             (s1, Inl e) \<Rightarrow> Some (s1, Inl e)
           | (s1, Inr _) \<Rightarrow>
               (case map_of (ct_installed (ps_catalog s1)) target of
                  None \<Rightarrow> Some (s1, Inl (Not_Installed target))
                | Some i \<Rightarrow>
                    let (s2, approved) =
                      (if isl (verify_bundled_trust (ho_trust host) (ip_provenance i))
                          \<and> adoption_state host s1 target \<noteq> Some Adoption_Approved
                       then (case approve_package host target (lit ''rollback'') clock s1 of
                               (s2, Inl e) \<Rightarrow> (s2, Inl e) | (s2, Inr _) \<Rightarrow> (s2, Inr ()))
                       else (s1, Inr ()))
                    in (case approved of
                          Inl e \<Rightarrow> Some (s2, Inl e)
                        | Inr _ \<Rightarrow>
                            map_option (\<lambda>(s3, result). (s3, map_sum id (\<lambda>_. replacement) result)) (enable host target s2)))))"

end
