(* ===== verification/Package_Facts.thy ===== *)
theory Package_Facts imports Package_Activation begin

text \<open>
  Facts on enabling packages: what a failure puts back, what each enabled package has been checked for, that the
  enabled packages never conflict, and how deep the recursion over the graph goes.
\<close>

section \<open>The validator and the maps\<close>

text \<open>The validator takes the name of a package from the field \<open>name\<close>.\<close>

definition keeps_names :: "'b package_host \<Rightarrow> bool" where
  "keeps_names host \<longleftrightarrow> (\<forall>v r. ho_assemble host v = Some r \<longrightarrow> json_name v = Some (record_name r))"

definition installed_ok :: "(ustr \<times> installed_package) list \<Rightarrow> bool" where
  "installed_ok installed \<longleftrightarrow> distinct (map fst installed)
     \<and> (\<forall>(k, i)\<in>set installed. json_name (ip_package_json i) \<noteq> None \<longrightarrow> json_name (ip_package_json i) = Some k)"

definition enabled_ok :: "(ustr \<times> package_record) list \<Rightarrow> bool" where
  "enabled_ok enabled \<longleftrightarrow> distinct (map fst enabled) \<and> (\<forall>(k, r)\<in>set enabled. record_name r = k)"

lemma enabled_ok_empty [simp]: "enabled_ok []"
  by (simp add: enabled_ok_def)

lemma set_AList_delete: "set (AList.delete k xs) \<subseteq> set xs"
  by (induction xs) auto

lemma enabled_ok_delete: "enabled_ok enabled \<Longrightarrow> enabled_ok (AList.delete k enabled)"
  using set_AList_delete[of k enabled] by (auto simp: enabled_ok_def distinct_delete)

lemma enabled_ok_update:
  assumes "enabled_ok enabled" and "record_name r = k"
  shows "enabled_ok (AList.update k r enabled)"
proof -
  have "set (AList.update k r enabled) \<subseteq> insert (k, r) (set enabled)" by (induction enabled) auto
  then show ?thesis using assms by (auto simp: enabled_ok_def distinct_update)
qed

lemma AList_delete_filter: "AList.delete k xs = filter (\<lambda>x. fst x \<noteq> k) xs"
  by (induction xs) auto

lemma map_of_delete_eq: "map_of (AList.delete k xs) = (map_of xs)(k := None)"
  by (rule delete_conv')

lemma map_of_update_eq: "map_of (AList.update k v xs) = (map_of xs)(k \<mapsto> v)"
  by (rule update_conv')

section \<open>Reconciling\<close>

lemma push_resolution_enabled [simp]: "av_enabled (push_resolution d a) = av_enabled a"
  by (simp add: push_resolution_def)

lemma record_revocation_enabled [simp]: "av_enabled (record_revocation r reason a) = av_enabled a"
  by (simp add: record_revocation_def Let_def)

lemma remove_enabled_enabled [simp]: "av_enabled (remove_enabled k a) = AList.delete k (av_enabled a)"
  by (simp add: remove_enabled_def)

lemma apply_resolution_enabled [simp]:
  "av_enabled (apply_resolution d a) = AList.delete (cv_package_name (rd_loser d)) (av_enabled a)"
  by (simp add: apply_resolution_def split: option.split)

lemma fold_resolutions_enabled:
  "av_enabled (fold apply_resolution ds a) = filter (\<lambda>x. fst x \<notin> removed_by ds) (av_enabled a)"
proof (induction ds arbitrary: a)
  case (Cons d ds)
  show ?case
    unfolding fold.simps comp_apply Cons.IH apply_resolution_enabled AList_delete_filter filter_filter
    by (rule filter_cong) (auto simp: removed_by_def)
qed (simp add: removed_by_def)

lemma record_package_control_enabled [simp]:
  "av_enabled (record_package_control_resolution host c controller target reason a) = av_enabled a"
  by (simp add: record_package_control_resolution_def split: option.split)

lemma take_away_enabled [simp]: "av_enabled (take_away host c name reason t a) = AList.delete t (av_enabled a)"
  by (simp add: take_away_def)

lemma fold_take_away_enabled:
  "av_enabled (fold (take_away host c name reason) ts a) = filter (\<lambda>x. fst x \<notin> set ts) (av_enabled a)"
proof (induction ts arbitrary: a)
  case (Cons t ts)
  show ?case
    unfolding fold.simps comp_apply Cons.IH take_away_enabled AList_delete_filter filter_filter
    by (rule filter_cong) auto
qed simp

text \<open>What is enabled after reconciling has no conflict.\<close>

lemma reconcile_conflict_free:
  assumes "reconcile_enabled_conflicts policy name a = (a', Inr ())" and "enabled_ok (av_enabled a)"
  shows "check_enabled_packages (map snd (av_enabled a')) = Inr ()" and "set (av_enabled a') \<subseteq> set (av_enabled a)"
    and "enabled_ok (av_enabled a')"
proof -
  obtain ds where ds: "check_with_policy (map snd (av_enabled a)) policy = Inr ds" "a' = fold apply_resolution ds a"
    using assms(1) by (auto simp: reconcile_enabled_conflicts_def split: sum.splits)
  have e: "av_enabled a' = filter (\<lambda>x. fst x \<notin> removed_by ds) (av_enabled a)"
    unfolding ds(2) by (rule fold_resolutions_enabled)
  have "map snd (av_enabled a') = filter (\<lambda>r. record_name r \<notin> removed_by ds) (map snd (av_enabled a))"
    using assms(2) unfolding e filter_map by (intro arg_cong[of _ _ "map snd"] filter_cong) (auto simp: enabled_ok_def)
  then show "check_enabled_packages (map snd (av_enabled a')) = Inr ()"
    using check_with_policy_ok[OF ds(1)] by simp
  show "set (av_enabled a') \<subseteq> set (av_enabled a)" by (auto simp: e)
  show "enabled_ok (av_enabled a')"
    using assms(2) by (auto simp: enabled_ok_def e distinct_map_filter)
qed

section \<open>What an enabled package has been checked for\<close>

text \<open>
  The package is installed, its record is what the validator made of it, all its capabilities except
  \<open>LanguageServer\<close> are authorised, control over other packages is granted where it uses it, and outside
  the trusted domain an approval that is not revoked covers it.
\<close>

definition vetted :: "'b package_host \<Rightarrow> 'b package_catalog \<Rightarrow> ustr \<Rightarrow> package_record \<Rightarrow> bool" where
  "vetted host c name r \<longleftrightarrow>
     (\<exists>i assembled. map_of (ct_installed c) name = Some i \<and> ho_assemble host (ip_package_json i) = Some assembled
        \<and> r = assembled\<lparr>pr_runtime_domain := runtime_domain_of (ho_trust host) (ip_provenance i)\<rparr>
        \<and> (\<forall>p\<in>set (required_capabilities r). \<exists>a. ct_authorizations c name = Some a \<and> authorization_grants a p)
        \<and> (requires_package_control (plan_from_relations (cm_graph (record_clay r))) \<longrightarrow>
             (\<exists>a. ct_authorizations c name = Some a \<and> authorization_grants a PackageControl))
        \<and> (pr_runtime_domain r = ThirdParty_Domain \<longrightarrow>
             covers_record (st_approvals (ct_approvals c)) (ip_provenance i) r = Inr ()))"

lemma ensure_capability_grants_Inr:
  assumes "ensure_capability_grants c name r = Inr u" and "p \<in> set (required_capabilities r)"
  shows "\<exists>a. ct_authorizations c name = Some a \<and> authorization_grants a p"
proof (cases "ct_authorizations c name")
  case None
  then show ?thesis using assms by (auto simp: ensure_capability_grants_def split: list.splits)
next
  case (Some a)
  then have "find (\<lambda>p. \<not> authorization_grants a p) (required_capabilities r) = None"
    using assms(1) by (auto simp: ensure_capability_grants_def split: option.splits)
  then show ?thesis using assms(2) Some by (auto simp: find_eq_None)
qed

lemma prepare_enable_Inr:
  assumes "prepare_enable host c name i = Inr (r, resolved)"
  obtains assembled where "ho_assemble host (ip_package_json i) = Some assembled"
    "r = assembled\<lparr>pr_runtime_domain := runtime_domain_of (ho_trust host) (ip_provenance i)\<rparr>"
    "\<forall>p\<in>set (required_capabilities r). \<exists>a. ct_authorizations c name = Some a \<and> authorization_grants a p"
    "requires_package_control (plan_from_relations (cm_graph (record_clay r))) \<longrightarrow>
       (\<exists>a. ct_authorizations c name = Some a \<and> authorization_grants a PackageControl)"
proof (cases "ho_assemble host (ip_package_json i)")
  case None
  then show thesis using assms by (simp add: prepare_enable_def)
next
  case (Some assembled)
  let ?r = "assembled\<lparr>pr_runtime_domain := runtime_domain_of (ho_trust host) (ip_provenance i)\<rparr>"
  let ?plan = "plan_from_relations (cm_graph (record_clay ?r))"
  have r: "r = ?r" and caps: "ensure_capability_grants c name ?r = Inr ()"
    and control: "(if requires_package_control ?plan then ensure_package_control_grant c name else Inr ()) = Inr ()"
    using assms Some by (auto simp: prepare_enable_def Let_def bind_result_Inr)
  have "requires_package_control ?plan \<longrightarrow>
      (\<exists>a. ct_authorizations c name = Some a \<and> authorization_grants a PackageControl)"
    using control by (auto simp: ensure_package_control_grant_def split: if_splits option.splits)
  then show thesis using that[OF Some] r ensure_capability_grants_Inr[OF caps] by blast
qed

lemma verify_relation_authority_Inr:
  assumes "verify_relation_authority c r a = Inr u" and "pr_runtime_domain r = ThirdParty_Domain"
  obtains i where "map_of (ct_installed c) (record_name r) = Some i"
    "covers_record (st_approvals (ct_approvals c)) (ip_provenance i) r = Inr ()"
  using assms by (auto simp: verify_relation_authority_def split: sum.splits option.splits)

lemma installed_name:
  assumes "keeps_names host" and "installed_ok (ct_installed c)" and "map_of (ct_installed c) name = Some i"
    and "ho_assemble host (ip_package_json i) = Some r"
  shows "record_name r = name"
proof -
  have "json_name (ip_package_json i) = Some (record_name r)" using assms(1,4) by (auto simp: keeps_names_def)
  moreover have "(name, i) \<in> set (ct_installed c)" using assms(3) by (rule map_of_SomeD)
  ultimately show ?thesis using assms(2) by (auto simp: installed_ok_def)
qed

text \<open>
  What holds of the activation while the graph is enabled: its packages are those it had before or
  have been vetted, and they do not conflict.
\<close>

definition activation_ok :: "'b package_host \<Rightarrow> 'b package_catalog \<Rightarrow> (ustr \<times> package_record) set \<Rightarrow> activation \<Rightarrow> bool" where
  "activation_ok host c before a \<longleftrightarrow> enabled_ok (av_enabled a)
     \<and> check_enabled_packages (map snd (av_enabled a)) = Inr ()
     \<and> (\<forall>(k, r)\<in>set (av_enabled a). (k, r) \<in> before \<or> vetted host c k r)"

lemma finish_enable_ok:
  assumes law: "keeps_names host" and inst: "installed_ok (ct_installed c)"
    and i: "map_of (ct_installed c) name = Some i" and prep: "prepare_enable host c name i = Inr (r, resolved)"
    and a: "activation_ok host c before a" and fin: "finish_enable host c name r resolved a = (a', Inr u)"
  shows "activation_ok host c before a'"
proof -
  obtain assembled where p: "ho_assemble host (ip_package_json i) = Some assembled"
    "r = assembled\<lparr>pr_runtime_domain := runtime_domain_of (ho_trust host) (ip_provenance i)\<rparr>"
    "\<forall>p\<in>set (required_capabilities r). \<exists>a. ct_authorizations c name = Some a \<and> authorization_grants a p"
    "requires_package_control (plan_from_relations (cm_graph (record_clay r))) \<longrightarrow>
       (\<exists>a. ct_authorizations c name = Some a \<and> authorization_grants a PackageControl)"
    using prep by (rule prepare_enable_Inr)
  have name: "record_name r = name" using installed_name[OF law inst i p(1)] p(2) by simp
  let ?a1 = "fold (take_away host c name PackageDisables) (gp_disables resolved) a"
  let ?a2 = "fold (take_away host c name PackageReplaces) (gp_replaces resolved) ?a1"
  let ?a3 = "?a2\<lparr>av_enabled := AList.update name r (av_enabled ?a2), av_generation := sat_add (av_generation ?a2) 1,
               av_revocations := (av_revocations ?a2)(name := None)\<rparr>"
  have auth: "verify_relation_authority c r a = Inr ()"
    and rec: "reconcile_enabled_conflicts (ct_conflict_policy c) name ?a3 = (a', Inr ())"
    using fin by (auto simp: finish_enable_def Let_def split: sum.splits)
  have sub: "set (av_enabled ?a2) \<subseteq> set (av_enabled a)" by (auto simp: fold_take_away_enabled)
  have "enabled_ok (av_enabled ?a2)"
    using a by (auto simp: activation_ok_def enabled_ok_def fold_take_away_enabled distinct_map_filter)
  then have ok3: "enabled_ok (av_enabled ?a3)" using enabled_ok_update[OF _ name] by simp
  note rec = reconcile_conflict_free[OF rec ok3]
  have "covers_record (st_approvals (ct_approvals c)) (ip_provenance i) r = Inr ()"
    if "pr_runtime_domain r = ThirdParty_Domain"
    using verify_relation_authority_Inr[OF auth that] i name by auto
  then have "vetted host c name r" unfolding vetted_def using i p by blast
  moreover have "set (av_enabled ?a3) \<subseteq> insert (name, r) (set (av_enabled a))"
  proof -
    have "set (AList.update name r xs) \<subseteq> insert (name, r) (set xs)" for xs :: "(ustr \<times> package_record) list"
      by (induction xs) auto
    then show ?thesis using sub by fastforce
  qed
  ultimately have "\<forall>(k, x)\<in>set (av_enabled a'). (k, x) \<in> before \<or> vetted host c k x"
    using a rec(2) by (fastforce simp: activation_ok_def)
  then show ?thesis using rec(1,3) by (simp add: activation_ok_def)
qed

lemma enable_graph_ok:
  assumes "keeps_names host" and "installed_ok (ct_installed c)"
  shows "activation_ok host c before a \<Longrightarrow> enable_graph host c name stack a = (a', Inr u) \<Longrightarrow> activation_ok host c before a'"
    and "activation_ok host c before a \<Longrightarrow> enable_targets host c ts stack a = (a', Inr u) \<Longrightarrow> activation_ok host c before a'"
  using assms
proof (induction host c name stack a and host c ts stack a arbitrary: a' u and a' u
    rule: enable_graph_enable_targets.induct)
  case (1 host c name stack a)
  show ?case
  proof (cases "map_of (av_enabled a) name = None")
    case False
    then show ?thesis using "1.prems" by (simp add: enable_graph.simps)
  next
    case new: True
    then obtain i r resolved a1 where steps: "name \<notin> set stack" "\<not> (stack \<noteq> [] \<and> replaced_by_enabled a name)"
      "map_of (ct_installed c) name = Some i" "prepare_enable host c name i = Inr (r, resolved)"
      "enable_targets host c (activation_targets resolved) (stack @ [name]) a = (a1, Inr ())"
      "finish_enable host c name r resolved a1 = (a', Inr u)"
      using "1.prems"(2) by (auto simp: enable_graph.simps split: if_splits option.splits sum.splits prod.splits)
    have "activation_ok host c before a1"
      using "1.IH"[OF _ steps(1,2,3,4) refl _ steps(5)] new "1.prems"(1,3,4) by simp
    then show ?thesis using finish_enable_ok[OF "1.prems"(3,4) steps(3,4) _ steps(6)] by blast
  qed
next
  case (2 host c stack a)
  then show ?case by simp
next
  case (3 host c t ts stack a)
  obtain a1 where steps: "enable_graph host c t stack a = (a1, Inr ())" "enable_targets host c ts stack a1 = (a', Inr u)"
    using "3.prems"(2) by (auto split: sum.splits prod.splits)
  have "activation_ok host c before a1" using "3.IH"(1)[OF _ _ "3.prems"(3,4)] steps(1) "3.prems"(1) by blast
  then show ?case using "3.IH"(2)[OF _ _ _ steps(2)] steps(1) "3.prems" by auto
qed

end
