(* ===== verification/Package_Store_Runs.thy ===== *)
theory Package_Store_Runs imports Package_Store begin

text \<open>
  Sequences of operations on the approval store, each write of which may fail at any step. The file holds what the
  last successful write put there, so opening it again gives exactly these records; a failed write changes the
  records in memory but not the file.
\<close>

datatype store_operation = Upsert_Op package_approval_record | Revoke_Op ustr

text \<open>One operation, with the answer whether it wrote the file.\<close>

definition store_operate ::
  "'b serde \<Rightarrow> outcomes \<Rightarrow> store_operation \<Rightarrow> 'b approval_store \<Rightarrow> 'b approval_store \<times> bool" where
  "store_operate serde outcome operation s =
     (case operation of
        Upsert_Op r \<Rightarrow> (let (s', result) = upsert serde outcome r s in (s', result = Inr ()))
      | Revoke_Op p \<Rightarrow> (let (s', result) = revoke serde outcome p s in (s', result = Inr True)))"

text \<open>A sequence of operations; \<open>written\<close> is the content of the last write that succeeded.\<close>

fun store_run ::
  "'b serde \<Rightarrow> outcomes \<Rightarrow> store_operation list \<Rightarrow> 'b approval_store \<Rightarrow> (ustr \<times> package_approval_record) list \<Rightarrow>
   'b approval_store \<times> (ustr \<times> package_approval_record) list" where
  "store_run serde outcome [] s written = (s, written)"
| "store_run serde outcome (operation # operations) s written =
     (let (s', wrote) = store_operate serde outcome operation s
      in store_run serde outcome operations s' (if wrote then st_approvals s' else written))"

section \<open>What a file gives\<close>

text \<open>The file of \<open>d\<close> is trusted and holds \<open>approvals\<close>.\<close>

definition file_holds :: "'b serde \<Rightarrow> 'b store_disk \<Rightarrow> (ustr \<times> package_approval_record) list \<Rightarrow> bool" where
  "file_holds serde d approvals \<longleftrightarrow>
     (case dk_target d of
        None \<Rightarrow> approvals = []
      | Some f \<Rightarrow> sf_owner_only f \<and> (\<exists>document loaded. sd_parse serde (sf_bytes f) = Some document
                     \<and> load_document document = Inr loaded \<and> map_of loaded = map_of approvals))"

definition file_fits :: "'b serde \<Rightarrow> 'b store_disk \<Rightarrow> bool" where
  "file_fits serde d \<longleftrightarrow> (\<forall>f. dk_target d = Some f \<longrightarrow> sd_len serde (sf_bytes f) \<le> max_approval_store_bytes)"

lemma store_open_holds:
  assumes "file_holds serde d approvals" and "file_fits serde d"
  shows "\<exists>t. store_open serde True True d = Inr t \<and> st_durable t \<and> st_disk t = d
    \<and> map_of (st_approvals t) = map_of approvals"
proof (cases "dk_target d")
  case None
  then show ?thesis using assms by (simp add: store_open_def file_holds_def)
next
  case (Some f)
  with assms obtain document loaded where f: "sf_owner_only f" "sd_parse serde (sf_bytes f) = Some document"
    "load_document document = Inr loaded" "map_of loaded = map_of approvals"
    "sd_len serde (sf_bytes f) \<le> max_approval_store_bytes"
    by (auto simp: file_holds_def file_fits_def)
  then show ?thesis using Some by (simp add: store_open_def)
qed

lemma load_records_ok:
  assumes "load_records vs approvals = Inr loaded" and "distinct (map fst approvals)"
    and "\<forall>(k, r)\<in>set approvals. k = pa_package r \<and> validate_record r = Inr ()"
  shows "distinct (map fst loaded) \<and> length loaded = length approvals + length vs
    \<and> (\<forall>(k, r)\<in>set loaded. k = pa_package r \<and> validate_record r = Inr ())"
  using assms
proof (induction vs arbitrary: approvals)
  case (Cons v vs)
  obtain r where r: "validate_record r = Inr ()" "map_of approvals (pa_package r) = None"
    "load_records vs (AList.update (pa_package r) r approvals) = Inr loaded"
    using Cons.prems(1) by (auto split: option.splits sum.splits if_splits)
  then have fresh: "pa_package r \<notin> fst ` set approvals" by (simp add: map_of_eq_None_iff)
  then have "AList.update (pa_package r) r approvals = approvals @ [(pa_package r, r)]"
    by (induction approvals) auto
  then show ?case using Cons.IH[OF r(3)] Cons.prems(2,3) r(1) fresh by auto
qed simp

lemma store_open_ok:
  assumes "store_open serde stat read d = Inr s"
  shows "approvals_ok (st_approvals s)" and "file_holds serde d (st_approvals s)" and "st_durable s" and "st_disk s = d"
proof -
  have "approvals_ok (st_approvals s) \<and> file_holds serde d (st_approvals s) \<and> st_durable s \<and> st_disk s = d"
  proof (cases "dk_target d")
    case None
    then show ?thesis using assms by (auto simp: store_open_def file_holds_def approvals_ok_def split: if_splits)
  next
    case (Some f)
    then obtain document loaded where f: "sf_owner_only f" "sd_parse serde (sf_bytes f) = Some document"
      "load_document document = Inr loaded" "s = \<lparr>st_durable = True, st_approvals = loaded, st_disk = d\<rparr>"
      using assms by (auto simp: store_open_def map_sum_def split: if_splits option.splits sum.splits)
    then obtain vs where "load_records vs [] = Inr loaded" "length vs \<le> max_approval_records"
      by (auto simp: load_document_def Let_def split: if_splits option.splits)
    then have "approvals_ok loaded" using load_records_ok[of vs "[]" loaded] by (simp add: approvals_ok_def)
    then show ?thesis using Some f by (simp add: file_holds_def)
  qed
  then show "approvals_ok (st_approvals s)" "file_holds serde d (st_approvals s)" "st_durable s" "st_disk s = d" by simp_all
qed

section \<open>One write\<close>

text \<open>A write puts the records into the file or leaves the file as it was; it never touches the records.\<close>

lemma store_save_cases:
  assumes "store_save serde outcome s = (s', result)"
  obtains (memory) "\<not> st_durable s" "s' = s" "result = Inr ()"
  | (saved) "st_durable s" "result = Inr ()" "st_approvals s' = st_approvals s" "st_durable s'"
      "dk_target (st_disk s') = Some \<lparr>sf_owner_only = True, sf_bytes = sd_pretty serde (store_document (st_approvals s))\<rparr>"
  | (failed) "st_durable s" "result = Inl Store_Io" "st_approvals s' = st_approvals s" "st_durable s'"
      "dk_target (st_disk s') = dk_target (st_disk s)"
  using assms
  by (auto simp: store_save_def atomic_write_owner_only_def Let_def split: if_splits)

lemma store_save_keeps:
  assumes "store_save serde outcome s = (s', result)"
  shows "st_approvals s' = st_approvals s" and "st_durable s' = st_durable s"
  using assms by (cases rule: store_save_cases; simp)+

lemma store_save_file:
  assumes reads: "reads_back serde" and save: "store_save serde outcome s = (s', result)"
    and ok: "approvals_ok (st_approvals s)" and durable: "st_durable s" and holds: "file_holds serde (st_disk s) written"
  shows "file_holds serde (st_disk s') (if result = Inr () then st_approvals s else written)"
  using save
proof (cases rule: store_save_cases)
  case saved
  have "sd_parse serde (sd_pretty serde (store_document (st_approvals s))) = Some (store_document (st_approvals s))"
    using reads by (simp add: reads_back_def)
  then show ?thesis using saved load_document_stored[OF ok] by (auto simp: file_holds_def)
qed (use durable holds in \<open>simp_all add: file_holds_def\<close>)

lemma approvals_ok_update:
  assumes "approvals_ok approvals" and "validate_record r = Inr ()"
    and "map_of approvals (pa_package r) = None \<Longrightarrow> length approvals < max_approval_records"
  shows "approvals_ok (AList.update (pa_package r) r approvals)"
proof -
  have "length (AList.update (pa_package r) r approvals) \<le> max_approval_records"
  proof (cases "map_of approvals (pa_package r)")
    case None
    have "length (AList.update (pa_package r) r approvals) \<le> Suc (length approvals)"
      by (induction approvals) auto
    then show ?thesis using assms(3)[OF None] by simp
  next
    case (Some r0)
    then have "length (AList.update (pa_package r) r approvals) = length approvals"
      by (induction approvals) (auto split: if_splits)
    then show ?thesis using assms(1) by (simp add: approvals_ok_def)
  qed
  moreover have "\<forall>(k, x)\<in>set (AList.update (pa_package r) r approvals). k = pa_package x \<and> validate_record x = Inr ()"
  proof -
    have "set (AList.update (pa_package r) r approvals) \<subseteq> insert (pa_package r, r) (set approvals)"
      by (induction approvals) auto
    then show ?thesis using assms(1,2) by (auto simp: approvals_ok_def)
  qed
  moreover have "distinct (map fst (AList.update (pa_package r) r approvals))"
    using assms(1) by (simp add: approvals_ok_def distinct_update)
  ultimately show ?thesis by (simp add: approvals_ok_def)
qed

lemma approvals_ok_lookup:
  assumes "approvals_ok approvals" and "map_of approvals k = Some r"
  shows "pa_package r = k \<and> validate_record r = Inr ()"
  using map_of_SomeD[OF assms(2)] assms(1) by (auto simp: approvals_ok_def)

lemma validate_record_revoked [simp]: "validate_record (r\<lparr>pa_revoked := b\<rparr>) = validate_record r"
  by (simp add: validate_record_def cong: if_cong option.case_cong)

text \<open>What an operation does: nothing, or new records that are then written.\<close>

lemma store_operate_cases:
  assumes "store_operate serde outcome operation s = (s', wrote)" and "approvals_ok (st_approvals s)"
  obtains (nothing) "s' = s" "\<not> wrote"
  | (saves) approvals result where "approvals_ok approvals"
      "store_save serde outcome (s\<lparr>st_approvals := approvals\<rparr>) = (s', result)" "wrote = (result = Inr ())"
proof (cases operation)
  case (Upsert_Op r)
  have bad: "validate_record r = Inl defect \<Longrightarrow> s' = s \<and> \<not> wrote" for defect
    using assms(1) Upsert_Op by (simp add: store_operate_def upsert_def)
  show ?thesis
  proof (cases "validate_record r = Inr () \<and> \<not> (map_of (st_approvals s) (pa_package r) = None
      \<and> max_approval_records \<le> length (st_approvals s))")
    case True
    let ?a = "AList.update (pa_package r) r (st_approvals s)"
    obtain result where "store_save serde outcome (s\<lparr>st_approvals := ?a\<rparr>) = (s', result)" "wrote = (result = Inr ())"
      using assms(1) Upsert_Op True by (auto simp: store_operate_def upsert_def Let_def split: prod.splits)
    moreover have "approvals_ok ?a" using True approvals_ok_update[OF assms(2), of r] by auto
    ultimately show ?thesis using saves by blast
  next
    case False
    then have "s' = s \<and> \<not> wrote"
      using bad assms(1) Upsert_Op
      by (cases "validate_record r") (auto simp: store_operate_def upsert_def)
    then show ?thesis using that(1) by simp
  qed
next
  case (Revoke_Op p)
  show ?thesis
  proof (cases "map_of (st_approvals s) p")
    case None
    then have "s' = s \<and> \<not> wrote" using assms(1) Revoke_Op by (auto simp: store_operate_def revoke_def)
    then show ?thesis using that(1) by simp
  next
    case (Some r)
    let ?r = "r\<lparr>pa_revoked := True\<rparr>"
    let ?a = "AList.update p ?r (st_approvals s)"
    have r: "pa_package r = p" "validate_record r = Inr ()" using approvals_ok_lookup[OF assms(2) Some] by simp_all
    then have "approvals_ok ?a" using approvals_ok_update[OF assms(2), of ?r] Some r(1) by simp
    moreover obtain result where "store_save serde outcome (s\<lparr>st_approvals := ?a\<rparr>) = (s', result)"
      and "wrote = (map_sum id (\<lambda>_. True) result = (Inr True :: approval_store_error + bool))"
      using assms(1) Revoke_Op Some by (auto simp: store_operate_def revoke_def Let_def split: prod.splits)
    moreover have "(map_sum id (\<lambda>_. True) result = (Inr True :: approval_store_error + bool)) = (result = Inr ())"
      by (cases result) simp_all
    ultimately show ?thesis using saves by blast
  qed
qed

lemma store_run_holds:
  assumes "reads_back serde" and "store_run serde outcome operations s written = (s', written')"
    and "approvals_ok (st_approvals s)" and "st_durable s" and "file_holds serde (st_disk s) written"
  shows "file_holds serde (st_disk s') written'"
  using assms(2-)
proof (induction operations arbitrary: s written)
  case (Cons operation operations)
  obtain s1 wrote where op: "store_operate serde outcome operation s = (s1, wrote)" by fastforce
  have run: "store_run serde outcome operations s1 (if wrote then st_approvals s1 else written) = (s', written')"
    using Cons.prems(1) op by simp
  have "approvals_ok (st_approvals s1) \<and> st_durable s1
      \<and> file_holds serde (st_disk s1) (if wrote then st_approvals s1 else written)"
    using op Cons.prems(2)
  proof (cases rule: store_operate_cases)
    case nothing
    then show ?thesis using Cons.prems by simp
  next
    case (saves approvals result)
    note kept = store_save_keeps[OF saves(2)]
    have "file_holds serde (st_disk s1) (if result = Inr () then approvals else written)"
      using store_save_file[OF assms(1) saves(2), of written] saves(1) Cons.prems(3,4) by (cases result) simp_all
    then show ?thesis using kept saves(1,3) Cons.prems(3) by (cases result) simp_all
  qed
  then show ?case using Cons.IH[OF run] by blast
qed simp

end
