(* ===== verification/Package_Runs.thy ===== *)
theory Package_Runs imports Package_Facts Package_Store_Runs begin

text \<open>
  The package service as a state machine: every operation is a step, so is a hash map that iterates in another
  order. In every state that is reached the keys of the maps are the names of the packages, the enabled packages do
  not conflict, and the approvals are valid. The depth of the recursion over the graph is
  bounded by the number of installed packages.
\<close>

section \<open>Enabling from outside\<close>

lemma revoke_durable: "revoke serde outcome p s = (s', result) \<Longrightarrow> st_durable s' = st_durable s"
  by (auto simp: revoke_def Let_def split: option.splits prod.splits dest: store_save_keeps(2))

lemma revoke_targets_durable: "revoke_targets host ts s = (s', result) \<Longrightarrow> st_durable s' = st_durable s"
  by (induction ts arbitrary: s) (auto split: prod.splits sum.splits dest: revoke_durable)

lemma restore_result:
  "restore serde outcome saved s = (s', result) \<Longrightarrow> st_approvals s' = saved \<and> st_durable s' = st_durable s"
  using store_save_keeps by (fastforce simp: restore_def)

text \<open>The two ways in which \<open>enable\<close> returns.\<close>

lemma enable_cases:
  assumes "enable host name s = Some (s', result)"
  obtains (already) "result = Inl (Already_Enabled name)" "s' = s"
  | (failed) e where "result = Inl e" "ps_activation s' = ps_activation s"
      "\<exists>store. ps_catalog s' = (ps_catalog s)\<lparr>ct_approvals := store\<rparr>
         \<and> st_approvals store = st_approvals (ct_approvals (ps_catalog s))
         \<and> st_durable store = st_durable (ct_approvals (ps_catalog s))"
  | (enabled) r a1 u store where "result = Inr r" "enable_graph host (ps_catalog s) name [] (ps_activation s) = (a1, Inr u)"
      "revoke_targets host (replaced_targets name (length (av_resolutions (ps_activation s))) a1) (ct_approvals (ps_catalog s)) = (store, Inr ())"
      "map_of (av_enabled a1) name = Some r" "s' = \<lparr>ps_catalog = (ps_catalog s)\<lparr>ct_approvals := store\<rparr>, ps_activation = a1\<rparr>"
proof (cases "map_of (av_enabled (ps_activation s)) name")
  case (Some r)
  then show thesis using assms already by (simp add: enable_def Let_def)
next
  case None
  let ?c = "ps_catalog s" and ?a = "ps_activation s"
  obtain a1 graph_result where g: "enable_graph host ?c name [] ?a = (a1, graph_result)" by fastforce
  obtain store outcome where o: "(case graph_result of Inl e \<Rightarrow> (ct_approvals ?c, Inl e)
      | Inr _ \<Rightarrow> revoke_targets host (replaced_targets name (length (av_resolutions ?a)) a1) (ct_approvals ?c)) = (store, outcome)"
    by fastforce
  have durable: "st_durable store = st_durable (ct_approvals ?c)"
    using o by (auto split: sum.splits dest: revoke_targets_durable)
  show thesis
  proof (cases outcome)
    case (Inl e)
    obtain store' restored where r: "restore (ho_serde host) (ho_outcome host) (st_approvals (ct_approvals ?c)) store = (store', restored)"
      by fastforce
    note kept = restore_result[OF r]
    have "s' = s\<lparr>ps_catalog := ?c\<lparr>ct_approvals := store'\<rparr>,
        ps_activation := a1\<lparr>av_enabled := av_enabled ?a, av_resolutions := av_resolutions ?a,
          av_revocations := av_revocations ?a, av_generation := av_generation ?a\<rparr>\<rparr>"
      and "\<exists>e. result = Inl e"
      using assms None g o Inl r by (auto simp: enable_def Let_def snapshot_def split: sum.splits)
    then show thesis using failed kept durable by auto
  next
    case (Inr u)
    then obtain r where "map_of (av_enabled a1) name = Some r" "result = Inr r"
      "s' = s\<lparr>ps_catalog := ?c\<lparr>ct_approvals := store\<rparr>, ps_activation := a1\<rparr>"
      using assms None g o by (auto simp: enable_def Let_def split: option.splits)
    moreover obtain v where "graph_result = Inr v" using o Inr by (auto split: sum.splits)
    ultimately show thesis using enabled[of r a1 v store] g o Inr by simp
  qed
qed

section \<open>Steps\<close>

inductive service_step :: "'b package_host \<Rightarrow> 'b package_service \<Rightarrow> 'b package_service \<Rightarrow> bool" for host where
  Refreshed: "refresh_installed discovered s = (s', result) \<Longrightarrow> service_step host s s'"
| Installed: "install folder backend discovered spec s = (s', result) \<Longrightarrow> service_step host s s'"
| Installed_Value: "install_from_value_at_root_with_spec v p spec s = (s', result) \<Longrightarrow> service_step host s s'"
| Overridden: "service_step host s (set_conflict_override contribution winner s)"
| Authorized: "authorize_package host name capabilities profile author s = (s', result) \<Longrightarrow> service_step host s s'"
| Server_Authorized: "authorize_language_server host name contribution executable roots author s = (s', answer) \<Longrightarrow> service_step host s s'"
| Defaults: "authorize_bundled_defaults host name author s = (s', result) \<Longrightarrow> service_step host s s'"
| Servers_Revoked: "revoke_language_server_grants name s = (s', n) \<Longrightarrow> service_step host s s'"
| Approved: "approve_package host name author clock s = (s', approval) \<Longrightarrow> service_step host s s'"
| Approval_Written: "record_package_approval host r s = (s', result) \<Longrightarrow> service_step host s s'"
| Approval_Taken: "revoke_package_approval host name s = (s', answered) \<Longrightarrow> service_step host s s'"
| Enabled: "enable host name s = Some (s', enabled) \<Longrightarrow> service_step host s s'"
| Disabled: "disable name s = (s', disabled) \<Longrightarrow> service_step host s s'"
| Removed: "remove_package backend_works name s = (s', result) \<Longrightarrow> service_step host s s'"
| Rolled_Back: "rollback_replacement host name clock s = Some (s', replaced) \<Longrightarrow> service_step host s s'"
| Rehashed: "mset installed = mset (ct_installed (ps_catalog s)) \<Longrightarrow> mset enabled = mset (av_enabled (ps_activation s)) \<Longrightarrow>
    service_step host s (s\<lparr>ps_catalog := (ps_catalog s)\<lparr>ct_installed := installed\<rparr>,
      ps_activation := (ps_activation s)\<lparr>av_enabled := enabled\<rparr>\<rparr>)"

definition service_run :: "'b package_host \<Rightarrow> 'b package_service \<Rightarrow> 'b package_service \<Rightarrow> bool" where
  "service_run host = (service_step host)\<^sup>*\<^sup>*"

lemma service_run_refl: "service_run host s s"
  by (simp add: service_run_def)

lemma service_run_step: "service_run host s t \<Longrightarrow> service_step host t u \<Longrightarrow> service_run host s u"
  unfolding service_run_def by (rule rtranclp.rtrancl_into_rtrancl)

definition service_inv :: "'b package_service \<Rightarrow> bool" where
  "service_inv s \<longleftrightarrow> installed_ok (ct_installed (ps_catalog s)) \<and> enabled_ok (av_enabled (ps_activation s))
     \<and> check_enabled_packages (map snd (av_enabled (ps_activation s))) = Inr ()
     \<and> approvals_ok (st_approvals (ct_approvals (ps_catalog s)))"

section \<open>The invariant\<close>

lemma service_invI:
  assumes "service_inv s" and "installed_ok (ct_installed (ps_catalog s'))" and "ps_activation s' = ps_activation s"
    and "approvals_ok (st_approvals (ct_approvals (ps_catalog s')))"
  shows "service_inv s'"
  using assms by (simp add: service_inv_def)

text \<open>Steps that change neither what is installed, nor what is enabled, nor the approvals.\<close>

lemma service_inv_same:
  assumes "service_inv s" and "ct_installed (ps_catalog s') = ct_installed (ps_catalog s)"
    and "ps_activation s' = ps_activation s" and "ct_approvals (ps_catalog s') = ct_approvals (ps_catalog s)"
  shows "service_inv s'"
  using assms by (simp add: service_inv_def)

lemma installed_ok_update:
  assumes "installed_ok installed" and "json_name (ip_package_json i) \<noteq> None \<Longrightarrow> json_name (ip_package_json i) = Some k"
  shows "installed_ok (AList.update k i installed)"
proof -
  have "set (AList.update k i installed) \<subseteq> insert (k, i) (set installed)" by (induction installed) auto
  then show ?thesis using assms unfolding installed_ok_def by (fastforce simp: distinct_update)
qed

lemma insert_discovered_ok:
  "installed_ok (ct_installed (ps_catalog s)) \<Longrightarrow> installed_ok (ct_installed (ps_catalog (insert_discovered d s)))
     \<and> ps_activation (insert_discovered d s) = ps_activation s
     \<and> ct_approvals (ps_catalog (insert_discovered d s)) = ct_approvals (ps_catalog s)"
  by (auto simp: insert_discovered_def put_installed_def as_installed_def installed_ok_update split: option.split)

lemma fold_insert_discovered_ok:
  "installed_ok (ct_installed (ps_catalog s)) \<Longrightarrow> installed_ok (ct_installed (ps_catalog (fold insert_discovered ds s)))
     \<and> ps_activation (fold insert_discovered ds s) = ps_activation s
     \<and> ct_approvals (ps_catalog (fold insert_discovered ds s)) = ct_approvals (ps_catalog s)"
  by (induction ds arbitrary: s) (auto simp: insert_discovered_ok)

lemma refresh_inv:
  assumes "service_inv s" and "refresh_installed discovered s = (s', result)"
  shows "service_inv s'"
proof (cases discovered)
  case None
  then show ?thesis using assms by (simp add: refresh_installed_def)
next
  case (Some ds)
  have s': "s' = fold insert_discovered ds (s\<lparr>ps_catalog := (ps_catalog s)\<lparr>ct_installed := []\<rparr>\<rparr>)"
    using assms(2) Some by (simp add: refresh_installed_def)
  have "installed_ok (ct_installed (ps_catalog (s\<lparr>ps_catalog := (ps_catalog s)\<lparr>ct_installed := []\<rparr>\<rparr>)))"
    by (simp add: installed_ok_def)
  from fold_insert_discovered_ok[OF this, of ds] show ?thesis
    using assms(1) service_invI[OF assms(1), of s'] by (simp add: s' service_inv_def)
qed

lemma put_installed_inv:
  assumes "service_inv s" and "json_name (ip_package_json i) \<noteq> None \<Longrightarrow> json_name (ip_package_json i) = Some k"
  shows "service_inv (put_installed k i s)"
  using assms installed_ok_update[of "ct_installed (ps_catalog s)" i k]
  by (auto simp: service_inv_def put_installed_def)

lemma install_inv:
  assumes "service_inv s" and "install folder backend discovered spec s = (s', result)"
  shows "service_inv s'"
  using assms by (auto simp: install_def intro!: put_installed_inv split: if_splits option.splits)

lemma install_value_inv:
  assumes "service_inv s" and "install_from_value_at_root_with_spec v p spec s = (s', result)"
  shows "service_inv s'"
  using assms by (auto simp: install_from_value_at_root_with_spec_def intro!: put_installed_inv split: option.splits)

lemma authorize_package_same:
  assumes "authorize_package host name capabilities profile author s = (s', result)"
  shows "ct_installed (ps_catalog s') = ct_installed (ps_catalog s) \<and> ps_activation s' = ps_activation s
    \<and> ct_approvals (ps_catalog s') = ct_approvals (ps_catalog s)"
  using assms by (auto simp: authorize_package_def put_authorization_def split: option.splits)

lemma authorize_language_server_same:
  assumes "authorize_language_server host name contribution executable roots author s = (s', result)"
  shows "ct_installed (ps_catalog s') = ct_installed (ps_catalog s) \<and> ps_activation s' = ps_activation s
    \<and> ct_approvals (ps_catalog s') = ct_approvals (ps_catalog s)"
  using assms by (auto simp: authorize_language_server_def put_authorization_def Let_def split: option.splits if_splits)

lemma authorize_bundled_defaults_same:
  assumes "authorize_bundled_defaults host name author s = (s', result)"
  shows "ct_installed (ps_catalog s') = ct_installed (ps_catalog s) \<and> ps_activation s' = ps_activation s
    \<and> ct_approvals (ps_catalog s') = ct_approvals (ps_catalog s)"
  using assms by (auto simp: authorize_bundled_defaults_def Let_def split: option.splits sum.splits dest!: authorize_package_same)

lemma revoke_servers_same:
  assumes "revoke_language_server_grants name s = (s', n)"
  shows "ct_installed (ps_catalog s') = ct_installed (ps_catalog s) \<and> ps_activation s' = ps_activation s
    \<and> ct_approvals (ps_catalog s') = ct_approvals (ps_catalog s)"
  using assms by (auto simp: revoke_language_server_grants_def Let_def)

text \<open>Operations on the store keep its records valid.\<close>

lemma store_operate_ok:
  assumes "store_operate serde outcome operation s = (s', wrote)" and "approvals_ok (st_approvals s)"
  shows "approvals_ok (st_approvals s')"
  using assms
proof (cases rule: store_operate_cases)
  case (saves approvals result)
  then show ?thesis using store_save_keeps(1)[OF saves(2)] by simp
qed (use assms in simp)

lemma upsert_ok: "approvals_ok (st_approvals s) \<Longrightarrow> approvals_ok (st_approvals (fst (upsert serde outcome r s)))"
  using store_operate_ok[of serde outcome "Upsert_Op r" s] by (simp add: store_operate_def case_prod_unfold Let_def)

lemma revoke_ok: "approvals_ok (st_approvals s) \<Longrightarrow> approvals_ok (st_approvals (fst (revoke serde outcome p s)))"
  using store_operate_ok[of serde outcome "Revoke_Op p" s] by (simp add: store_operate_def case_prod_unfold Let_def)

lemma revoke_targets_ok:
  "approvals_ok (st_approvals s) \<Longrightarrow> approvals_ok (st_approvals (fst (revoke_targets host ts s)))"
proof (induction ts arbitrary: s)
  case (Cons t ts)
  obtain s1 result where r: "revoke (ho_serde host) (ho_outcome host) t s = (s1, result)" by fastforce
  have "approvals_ok (st_approvals s1)" using revoke_ok[OF Cons.prems, of "ho_serde host" "ho_outcome host" t] r by simp
  then show ?case using Cons.IH[of s1] r by (cases result) simp_all
qed simp

lemma record_approval_inv:
  assumes "service_inv s"
  shows "service_inv (fst (record_package_approval host r s))"
  using assms upsert_ok[of "ct_approvals (ps_catalog s)" "ho_serde host" "ho_outcome host" r]
  by (simp add: record_package_approval_def put_approvals_def service_inv_def case_prod_unfold Let_def)

lemma revoke_approval_inv:
  assumes "service_inv s"
  shows "service_inv (fst (revoke_package_approval host name s))"
  using assms revoke_ok[of "ct_approvals (ps_catalog s)" "ho_serde host" "ho_outcome host" name]
  by (simp add: revoke_package_approval_def put_approvals_def service_inv_def case_prod_unfold Let_def)

lemma approve_package_inv:
  assumes "service_inv s"
  shows "service_inv (fst (approve_package host name author clock s))"
proof (cases "map_of (ct_installed (ps_catalog s)) name")
  case None
  then show ?thesis using assms by (simp add: approve_package_def)
next
  case i: (Some i)
  show ?thesis
  proof (cases "ho_assemble host (ip_package_json i)")
    case (Some r)
    then show ?thesis
      using i record_approval_inv[OF assms, of host "approval_of host (ct_installed (ps_catalog s)) i r author (rfc3339 clock)"]
      by (simp add: approve_package_def Let_def case_prod_unfold)
  qed (use i assms in \<open>simp add: approve_package_def\<close>)
qed

lemma activation_ok_refl:
  "service_inv s \<Longrightarrow> activation_ok host c (set (av_enabled (ps_activation s))) (ps_activation s)"
  by (auto simp: activation_ok_def service_inv_def)

lemma enable_inv:
  assumes law: "keeps_names host" and inv: "service_inv s" and enable: "enable host name s = Some (s', result)"
  shows "service_inv s'"
  using enable
proof (cases rule: enable_cases)
  case already
  then show ?thesis using inv by simp
next
  case (failed e)
  then show ?thesis using inv by (auto simp: service_inv_def)
next
  case (enabled r a1 u store)
  have "installed_ok (ct_installed (ps_catalog s))" using inv by (simp add: service_inv_def)
  from enable_graph_ok(1)[OF law this activation_ok_refl[OF inv] enabled(2)]
  have "enabled_ok (av_enabled a1)" "check_enabled_packages (map snd (av_enabled a1)) = Inr ()"
    by (simp_all add: activation_ok_def)
  moreover have "approvals_ok (st_approvals store)"
    using revoke_targets_ok[of "ct_approvals (ps_catalog s)" host] inv enabled(3) by (metis fst_conv service_inv_def)
  ultimately show ?thesis using inv enabled(5) by (simp add: service_inv_def)
qed

lemma conflict_free_subset:
  assumes "check_enabled_packages (map snd xs) = Inr ()" and "distinct (map fst xs)"
  shows "check_enabled_packages (map snd (filter P xs)) = Inr ()"
proof (rule check_enabled_packages_subset[OF assms(1)])
  show "mset (map snd (filter P xs)) \<subseteq># mset (map snd xs)"
    by (simp add: image_mset_subseteq_mono multiset_filter_subset)
qed

lemma disable_inv:
  assumes "service_inv s"
  shows "service_inv (fst (disable name s))"
proof (cases "map_of (av_enabled (ps_activation s)) name")
  case None
  then show ?thesis using assms by (simp add: disable_def revoke_enabled_package_def Let_def)
next
  case (Some r)
  have e: "enabled_ok (av_enabled (ps_activation s))" using assms by (simp add: service_inv_def)
  then have "enabled_ok (AList.delete name (av_enabled (ps_activation s)))" by (rule enabled_ok_delete)
  moreover have "check_enabled_packages (map snd (AList.delete name (av_enabled (ps_activation s)))) = Inr ()"
    unfolding AList_delete_filter
    using conflict_free_subset[of "av_enabled (ps_activation s)"] assms e by (simp add: service_inv_def enabled_ok_def)
  ultimately show ?thesis using assms Some
    by (simp add: disable_def revoke_enabled_package_def service_inv_def Let_def)
qed

lemma remove_inv:
  assumes "service_inv s"
  shows "service_inv (fst (remove_package backend name s))"
proof -
  have inv: "service_inv (fst (disable name s))" using disable_inv[OF assms] .
  have "installed_ok (AList.delete name xs)" if "installed_ok xs" for xs
    using that set_AList_delete[of name xs] distinct_delete[of xs name] unfolding installed_ok_def by blast
  then show ?thesis using inv
    by (auto simp: remove_package_def Let_def service_inv_def revoke_language_server_grants_def)
qed

lemma rollback_inv:
  assumes law: "keeps_names host" and inv: "service_inv s" and roll: "rollback_replacement host name clock s = Some (s', result)"
  shows "service_inv s'"
proof (cases "active_replacement s name")
  case None
  then show ?thesis using roll inv by (simp add: rollback_replacement_def)
next
  case replacement: (Some replacement)
  obtain s1 disabled where d: "disable replacement s = (s1, disabled)" by fastforce
  have inv1: "service_inv s1" using disable_inv[OF inv, of replacement] d by simp
  obtain s2 approval where p: "approve_package host name (lit ''rollback'') clock s1 = (s2, approval)" by fastforce
  have inv2: "service_inv s2" using approve_package_inv[OF inv1] p by (metis fst_conv)
  have "s' = s1 \<or> s' = s2 \<or> (\<exists>x. enable host name s1 = Some (s', x)) \<or> (\<exists>x. enable host name s2 = Some (s', x))"
    using roll replacement d p
    by (auto simp: rollback_replacement_def Let_def split: sum.splits option.splits if_splits)
  then show ?thesis using inv1 inv2 enable_inv[OF law] by blast
qed

lemma rehash_inv:
  assumes "service_inv s" and "mset installed = mset (ct_installed (ps_catalog s))"
    and "mset enabled = mset (av_enabled (ps_activation s))"
  shows "service_inv (s\<lparr>ps_catalog := (ps_catalog s)\<lparr>ct_installed := installed\<rparr>,
      ps_activation := (ps_activation s)\<lparr>av_enabled := enabled\<rparr>\<rparr>)"
proof -
  have sets: "set installed = set (ct_installed (ps_catalog s))" "set enabled = set (av_enabled (ps_activation s))"
    using assms(2,3) by (metis set_mset_mset)+
  have "distinct (map fst installed)" "distinct (map fst enabled)"
    using assms by (metis mset_map mset_eq_imp_distinct_iff service_inv_def installed_ok_def enabled_ok_def)+
  moreover have "check_enabled_packages (map snd enabled) = Inr ()"
  proof (rule check_enabled_packages_subset)
    show "check_enabled_packages (map snd (av_enabled (ps_activation s))) = Inr ()"
      using assms(1) by (simp add: service_inv_def)
    show "mset (map snd enabled) \<subseteq># mset (map snd (av_enabled (ps_activation s)))"
      using assms(3) by simp
  qed
  ultimately show ?thesis using assms(1) sets by (simp add: service_inv_def installed_ok_def enabled_ok_def)
qed

lemma service_step_inv:
  assumes "keeps_names host" and "service_step host s s'" and "service_inv s"
  shows "service_inv s'"
  using assms(2,3)
proof (cases rule: service_step.cases)
  case (Refreshed discovered result)
  then show ?thesis using refresh_inv[OF assms(3)] by blast
next
  case (Installed folder backend discovered spec result)
  then show ?thesis using install_inv[OF assms(3)] by blast
next
  case (Installed_Value v p spec result)
  then show ?thesis using install_value_inv[OF assms(3)] by blast
next
  case (Overridden contribution winner)
  then show ?thesis using assms(3) by (simp add: set_conflict_override_def service_inv_def)
next
  case (Authorized name capabilities profile author result)
  then show ?thesis using service_inv_same[OF assms(3)] authorize_package_same by blast
next
  case (Server_Authorized name contribution executable roots author answer)
  then show ?thesis using service_inv_same[OF assms(3)] authorize_language_server_same by blast
next
  case (Defaults name author result)
  then show ?thesis using service_inv_same[OF assms(3)] authorize_bundled_defaults_same by blast
next
  case (Servers_Revoked name n)
  then show ?thesis using service_inv_same[OF assms(3)] revoke_servers_same by blast
next
  case (Approved name author clock approval)
  then show ?thesis using approve_package_inv[OF assms(3), of host name author clock] by simp
next
  case (Approval_Written r result)
  then show ?thesis using record_approval_inv[OF assms(3), of host r] by simp
next
  case (Approval_Taken name answered)
  then show ?thesis using revoke_approval_inv[OF assms(3), of host name] by simp
next
  case (Enabled name enabled)
  then show ?thesis using enable_inv[OF assms(1,3)] by blast
next
  case (Disabled name disabled)
  then show ?thesis using disable_inv[OF assms(3), of name] by simp
next
  case (Removed backend_works name result)
  then show ?thesis using remove_inv[OF assms(3), of backend_works name] by simp
next
  case (Rolled_Back name clock replaced)
  then show ?thesis using rollback_inv[OF assms(1,3)] by blast
next
  case (Rehashed installed enabled)
  then show ?thesis using rehash_inv[OF assms(3)] by simp
qed

lemma service_run_inv:
  assumes "keeps_names host" and "service_run host s s'" and "service_inv s"
  shows "service_inv s'"
  using assms(2,3) unfolding service_run_def
  by (induction rule: rtranclp_induct) (auto intro: service_step_inv[OF assms(1)])

lemma service_new_inv: "approvals_ok (st_approvals approvals) \<Longrightarrow> service_inv (service_new approvals)"
  by (simp add: service_new_def service_inv_def installed_ok_def check_enabled_packages_iff all_claims_def)

lemma service_open_inv: "service_open host stat read d = Inr s \<Longrightarrow> service_inv s"
  by (auto simp: service_open_def map_sum_def split: sum.splits intro!: service_new_inv store_open_ok(1))

section \<open>The depth of the recursion\<close>

text \<open>The loop over the targets with the function that enables one of them, which may give up.\<close>

fun targets_within ::
  "(ustr \<Rightarrow> activation \<Rightarrow> (activation \<times> (service_error + unit)) option) \<Rightarrow> ustr list \<Rightarrow> activation \<Rightarrow>
   (activation \<times> (service_error + unit)) option" where
  "targets_within f [] a = Some (a, Inr ())"
| "targets_within f (t # ts) a =
     (case f t a of
        None \<Rightarrow> None
      | Some (a', Inl e) \<Rightarrow> Some (a', Inl e)
      | Some (a', Inr _) \<Rightarrow> targets_within f ts a')"

text \<open>\<open>enable_graph\<close> with a limit on the nesting of its calls; \<open>None\<close> when it is reached.\<close>

fun enable_graph_within ::
  "nat \<Rightarrow> 'b package_host \<Rightarrow> 'b package_catalog \<Rightarrow> ustr \<Rightarrow> ustr list \<Rightarrow> activation \<Rightarrow>
   (activation \<times> (service_error + unit)) option" where
  "enable_graph_within 0 host c name stack a = None"
| "enable_graph_within (Suc n) host c name stack a =
     (if map_of (av_enabled a) name \<noteq> None then Some (a, Inr ())
      else if name \<in> set stack then Some (a, Inl (Package_Graph_Cycle (cycle_from_stack stack name)))
      else if stack \<noteq> [] \<and> replaced_by_enabled a name
      then Some (a, Inl (Relation_Denied name (lit ''package_replacement.target_replaced'')))
      else case map_of (ct_installed c) name of
             None \<Rightarrow> Some (a, Inl (Not_Installed name))
           | Some i \<Rightarrow>
               (case prepare_enable host c name i of
                  Inl e \<Rightarrow> Some (a, Inl e)
                | Inr (r, resolved) \<Rightarrow>
                    (case targets_within (\<lambda>t. enable_graph_within n host c t (stack @ [name])) (activation_targets resolved) a of
                       None \<Rightarrow> None
                     | Some (a', Inl e) \<Rightarrow> Some (a', Inl e)
                     | Some (a', Inr _) \<Rightarrow> Some (finish_enable host c name r resolved a'))))"

lemma targets_within_eq:
  assumes "\<And>t a. f t a = Some (enable_graph host c t stack a)"
  shows "targets_within f ts a = Some (enable_targets host c ts stack a)"
  by (induction ts arbitrary: a) (auto simp: assms split: prod.split sum.split)

lemma enable_graph_within_eq:
  "card (off_stack c stack) < n \<Longrightarrow> enable_graph_within n host c name stack a = Some (enable_graph host c name stack a)"
proof (induction n arbitrary: name stack a)
  case (Suc n)
  show ?case
  proof (cases "map_of (ct_installed c) name")
    case None
    then show ?thesis by (simp add: enable_graph.simps)
  next
    case i: (Some i)
    show ?thesis
    proof (cases "name \<in> set stack")
      case True
      then show ?thesis by (simp add: enable_graph.simps)
    next
      case False
      have "card (off_stack c (stack @ [name])) < n" using off_stack_push[OF i False] Suc.prems by simp
      then have "targets_within (\<lambda>t. enable_graph_within n host c t (stack @ [name])) ts x
          = Some (enable_targets host c ts (stack @ [name]) x)" for ts x
        by (intro targets_within_eq Suc.IH)
      then show ?thesis using i False
        by (auto simp: enable_graph.simps split: prod.split sum.split)
    qed
  qed
qed simp

end
