(* ===== verification/Package_Properties.thy ===== *)
theory Package_Properties imports Package_Runs begin

text \<open>
  The properties of the package service: what enabling checks, keeps and puts back, what an approval covers, what
  the file of approvals holds after failures, which packages are trusted, and the dates of approvals.
\<close>

section \<open>A concrete service\<close>

text \<open>
  A validator that accepts every package with a name and gives all of them the prefix \<open>p\<close>; \<open>json\<close> stands
  for the bytes of files.
\<close>

definition sample_contributions :: package_contributions where
  "sample_contributions =
     \<lparr>pc_commands = [], pc_configuration = [], pc_key_routing = [], pc_text_transforms = [], pc_sdui = [],
      pc_decorations = [], pc_syntax_grammars = [], pc_completion_providers = [], pc_language_servers = [],
      pc_language_intelligence_providers = [], pc_ui_panels = [], pc_ui_components = [], pc_ui_overlays = [],
      pc_theme_tokens = [], pc_input_contributions = [], pc_ui_state_scopes = [], pc_layout_overrides = [],
      pc_package_options = []\<rparr>"

definition sample_record :: "ustr \<Rightarrow> package_record" where
  "sample_record name =
     \<lparr>pr_manifest = \<lparr>mf_name = name, mf_version = [49], mf_clay =
        \<lparr>cm_api_prefix = [112], cm_permissions = [], cm_modes = [],
         cm_graph = \<lparr>pg_depends_on = [], pg_extends = [], pg_disables = [], pg_replaces = [], pg_relation_requests = []\<rparr>,
         cm_extension_points = []\<rparr>\<rparr>,
      pr_contributions = sample_contributions, pr_runtime_domain = ThirdParty_Domain\<rparr>"

definition sample_json :: "ustr \<Rightarrow> json" where
  "sample_json name = JObject [(lit ''name'', JString name), (lit ''version'', JString [49])]"

definition sample_host :: "json package_host" where
  "sample_host =
     \<lparr>ho_assemble = (\<lambda>v. map_option sample_record (json_name v)),
      ho_trust = \<lparr>th_manifest_dir = [], th_canonicalize = (\<lambda>p. None), th_read = (\<lambda>p. None)\<rparr>,
      ho_resolve_executable = (\<lambda>e. None), ho_fingerprint = (\<lambda>d. 0),
      ho_serde = \<lparr>sd_pretty = (\<lambda>v. v), sd_parse = Some, sd_len = (\<lambda>v. 0)\<rparr>, ho_outcome = (\<lambda>n step. True)\<rparr>"

definition sample_disk :: "json store_disk" where
  "sample_disk = \<lparr>dk_target = None, dk_temp = False, dk_writes = 0\<rparr>"


definition sample_installed :: "ustr \<Rightarrow> installed_package" where
  "sample_installed name = \<lparr>ip_package_json = sample_json name, ip_package_root = [47],
     ip_provenance = \<lparr>pp_requested_spec = name, pp_source_kind = NpmRegistry, pp_resolved_name = name,
       pp_resolved_version = [49], pp_package_root = [47], pp_integrity = None\<rparr>\<rparr>"

definition sample_approval :: "ustr \<Rightarrow> package_approval_record" where
  "sample_approval name = \<lparr>pa_package = name, pa_resolved_version = [49], pa_source = name, pa_integrity = None,
     pa_package_root = [47], pa_api_prefix = [112], pa_capabilities = [], pa_processes = [], pa_relations = [],
     pa_replacements = [], pa_approved_by = [117], pa_approved_at = rfc3339 0, pa_revoked = False\<rparr>"

lemma sample_keeps_names: "keeps_names sample_host"
  by (auto simp: keeps_names_def sample_host_def sample_record_def)


lemma sample_json_name [simp]: "json_name (sample_json name) = Some name" "json_version (sample_json name) = Some [49]"
  by (simp_all add: json_name_def json_version_def sample_json_def json_get_def json_field_def)

lemma sample_assemble [simp]: "ho_assemble sample_host (sample_json name) = Some (sample_record name)"
  by (simp add: sample_host_def)

definition sample_state :: "ustr list \<Rightarrow> ustr list \<Rightarrow> json package_service" where
  "sample_state installed enabled =
     \<lparr>ps_catalog = \<lparr>ct_installed = map (\<lambda>n. (n, sample_installed n)) installed, ct_authorizations = Map.empty,
        ct_grants = [], ct_conflict_policy = [[112] \<mapsto> [97]],
        ct_approvals = \<lparr>st_durable = False, st_approvals = map (\<lambda>n. (n, sample_approval n)) installed, st_disk = sample_disk\<rparr>\<rparr>,
      ps_activation = \<lparr>av_enabled = map (\<lambda>n. (n, sample_record n)) enabled, av_resolutions = [],
        av_generation = length enabled, av_revocations = Map.empty\<rparr>\<rparr>"

text \<open>The user installs \<open>a\<close> and \<open>b\<close>, approves both and prefers \<open>a\<close> for the prefix.\<close>

lemma sample_state_reached:
  "service_run sample_host (service_new (in_memory sample_disk)) (sample_state [[97], [98]] [])"
proof -
  let ?s0 = "service_new (in_memory sample_disk)"
  let ?s1 = "set_conflict_override [112] [97] ?s0"
  let ?s2 = "put_installed [97] (sample_installed [97]) ?s1"
  let ?s3 = "put_installed [98] (sample_installed [98]) ?s2"
  let ?store = "\<lambda>names. \<lparr>st_durable = False, st_approvals = map (\<lambda>n. (n, sample_approval n)) names, st_disk = sample_disk\<rparr>"
  have kind: "source_kind_from_spec [97] = NpmRegistry" "source_kind_from_spec [98] = NpmRegistry"
    by (simp_all add: source_kind_from_spec_def lit_def str_starts_with_def str_ends_with_def str_contains_def
        ascii_lowercase_def Let_def upt_rec)
  have i: "install_from_value_at_root_with_spec (sample_json name) [47] name s = (put_installed name (sample_installed name) s, Inr ())"
    if "source_kind_from_spec name = NpmRegistry" for name s
    using that by (simp add: install_from_value_at_root_with_spec_def provenance_of_json_def sample_installed_def
        provenance_from_package_json_def)
  have approval: "approval_of sample_host installed (sample_installed name) (sample_record name) [117] (rfc3339 0) = sample_approval name"
    for name installed
    by (simp add: approval_of_def Let_def sample_installed_def sample_record_def sample_approval_def processes_of_def sample_contributions_def)
  have valid: "validate_record (sample_approval [c]) = Inr ()" if "\<not> is_whitespace c" for c
    using that by (simp add: validate_record_def sample_approval_def trims_to_empty_def is_whitespace_def)
  have ab: "\<not> is_whitespace 97" "\<not> is_whitespace 98" by (simp_all add: is_whitespace_def)
  have approve_a: "approve_package sample_host [97] [117] 0 ?s3 = (put_approvals (?store [[97]]) ?s3, Inr (sample_approval [97]))"
    using valid[OF ab(1)]
    by (simp add: approve_package_def put_installed_def set_conflict_override_def service_new_def sample_installed_def
        approval[unfolded sample_installed_def] record_package_approval_def upsert_def in_memory_def store_save_def
        max_approval_records_def Let_def) (simp add: sample_approval_def put_approvals_def)
  have approve_b: "approve_package sample_host [98] [117] 0 (put_approvals (?store [[97]]) ?s3)
      = (put_approvals (?store [[97], [98]]) ?s3, Inr (sample_approval [98]))"
    using valid[OF ab(2)]
    by (simp add: approve_package_def put_installed_def set_conflict_override_def service_new_def sample_installed_def
        approval[unfolded sample_installed_def] record_package_approval_def upsert_def in_memory_def store_save_def
        max_approval_records_def Let_def put_approvals_def) (simp add: sample_approval_def)
  have final: "put_approvals (?store [[97], [98]]) ?s3 = sample_state [[97], [98]] []"
    by (simp add: sample_state_def put_approvals_def put_installed_def set_conflict_override_def service_new_def
        set_user_override_def)
  have s1: "service_step sample_host ?s0 ?s1" by (rule service_step.Overridden)
  have s2: "service_step sample_host ?s1 ?s2" by (rule service_step.Installed_Value, rule i, rule kind(1))
  have s3: "service_step sample_host ?s2 ?s3" by (rule service_step.Installed_Value, rule i, rule kind(2))
  have s4: "service_step sample_host ?s3 (put_approvals (?store [[97]]) ?s3)" by (rule service_step.Approved, rule approve_a)
  have s5: "service_step sample_host (put_approvals (?store [[97]]) ?s3) (put_approvals (?store [[97], [98]]) ?s3)"
    by (rule service_step.Approved, rule approve_b)
  note r3 = service_run_step[OF service_run_step[OF service_run_step[OF service_run_refl s1] s2] s3]
  show ?thesis using service_run_step[OF service_run_step[OF r3 s4] s5] unfolding final .
qed

text \<open>Enabling \<open>a\<close> succeeds.\<close>

lemma sample_prefix_claims: "record_claims (sample_record name) = [(DuplicatePrefix, [112])]"
  by (simp add: record_claims_def sample_record_def sample_contributions_def Let_def)

lemma sample_third_party: "runtime_domain_of (ho_trust sample_host) p = ThirdParty_Domain"
  by (simp add: runtime_domain_of_def verify_bundled_trust_def sample_host_def canonical_bundled_root_def
      split: option.split)

lemma sample_record_fields:
  "record_name (sample_record name) = name" "pr_runtime_domain (sample_record name) = ThirdParty_Domain"
  "required_capabilities (sample_record name) = []" "pg_relation_requests (cm_graph (record_clay (sample_record name))) = []"
  "sample_record name\<lparr>pr_runtime_domain := ThirdParty_Domain\<rparr> = sample_record name"
  "plan_from_relations (cm_graph (record_clay (sample_record name)))
     = \<lparr>gp_depends_on = [], gp_extends = [], gp_disables = [], gp_replaces = []\<rparr>"
  by (simp_all add: sample_record_def required_capabilities_def plan_from_relations_def)

lemma sample_prepare:
  "prepare_enable sample_host (ps_catalog (sample_state names enabled)) name (sample_installed name)
     = Inr (sample_record name, \<lparr>gp_depends_on = [], gp_extends = [], gp_disables = [], gp_replaces = []\<rparr>)"
  by (simp add: prepare_enable_def Let_def sample_third_party sample_record_fields ensure_capability_grants_def
      requires_package_control_def resolve_graph_targets_def sample_state_def)
    (simp add: sample_installed_def sample_third_party sample_record_fields ensure_capability_grants_def
      requires_package_control_def resolve_graph_targets_def)

lemma sample_covered:
  "covers_record (st_approvals (ct_approvals (ps_catalog (sample_state [[97], [98]] enabled)))) (ip_provenance (sample_installed name))
      (sample_record name) = Inr ()" if "name \<in> {[97], [98]}"
  using that
  by (auto simp: covers_record_def approval_covers_Inr sample_state_def sample_installed_def sample_approval_def
      changed_identity_None expansion_None sample_record_def processes_of_def sample_contributions_def)

lemma sample_authority:
  "verify_relation_authority (ps_catalog (sample_state [[97], [98]] enabled)) (sample_record name) a = Inr ()"
  if "name \<in> {[97], [98]}"
proof -
  have "map_of (ct_installed (ps_catalog (sample_state [[97], [98]] enabled))) name = Some (sample_installed name)"
    using that by (auto simp: sample_state_def)
  then show ?thesis using sample_covered[OF that] by (simp add: verify_relation_authority_def sample_record_fields)
qed

lemma sample_enable_a:
  "enable sample_host [97] (sample_state [[97], [98]] []) = Some (sample_state [[97], [98]] [[97]], Inr (sample_record [97]))"
proof -
  let ?c = "ps_catalog (sample_state [[97], [98]] [])" and ?a = "ps_activation (sample_state [[97], [98]] [])"
  have i: "map_of (ct_installed ?c) [97] = Some (sample_installed [97])" by (simp add: sample_state_def)
  have free: "check_with_policy [sample_record [97]] policy = Inr []" for policy
    by (subst check_with_policy.simps) (simp add: check_enabled_packages_iff[THEN iffD2] all_claims_def sample_prefix_claims)
  have "finish_enable sample_host ?c [97] (sample_record [97])
      \<lparr>gp_depends_on = [], gp_extends = [], gp_disables = [], gp_replaces = []\<rparr> ?a
      = (ps_activation (sample_state [[97], [98]] [[97]]), Inr ())"
    by (simp add: finish_enable_def sample_authority reconcile_enabled_conflicts_def Let_def)
      (simp add: sample_state_def free sat_add_def u64_max_def)
  then have "enable_graph sample_host ?c [97] [] ?a = (ps_activation (sample_state [[97], [98]] [[97]]), Inr ())"
    using i by (subst enable_graph.simps) (simp add: sample_prepare activation_targets_def, simp add: sample_state_def)
  then show ?thesis
    by (simp add: enable_def Let_def) (simp add: sample_state_def replaced_targets_def)
qed

lemma sample_enabled_reached:
  "service_run sample_host (service_new (in_memory sample_disk)) (sample_state [[97], [98]] [[97]])"
  by (rule service_run_step[OF sample_state_reached service_step.Enabled[OF sample_enable_a]])

lemma sample_conflict:
  "check_enabled_packages [sample_record [97], sample_record [98]]
     = Inl \<lparr>cf_kind = DuplicatePrefix, cf_contribution_id = [112],
         cf_first = provenance_from_record (sample_record [97]), cf_second = provenance_from_record (sample_record [98])\<rparr>"
proof -
  have "sort_key sort_key_of [sample_record [97], sample_record [98]] = [sample_record [97], sample_record [98]]"
    by (simp add: sort_key_of_def sample_record_def)
  then show ?thesis by (simp add: check_enabled_packages_def sample_prefix_claims insert_unique_def)
qed

lemma sample_policy_check:
  "check_with_policy [sample_record [97], sample_record [98]] [[112] \<mapsto> [97]]
     = Inr [\<lparr>rd_contribution_id = [112], rd_winner = provenance_from_record (sample_record [97]),
             rd_loser = provenance_from_record (sample_record [98]), rd_reason = UserOverride\<rparr>]"
proof -
  have "check_with_policy [sample_record [97]] policy = Inr []" for policy
    by (subst check_with_policy.simps) (simp add: check_enabled_packages_iff[THEN iffD2] all_claims_def sample_prefix_claims)
  then show ?thesis
    by (subst check_with_policy.simps)
      (simp add: sample_conflict override_loser_def override_resolution_def provenance_from_record_def sample_record_fields)
qed

lemma sample_enable_b: "enable sample_host [98] (sample_state [[97], [98]] [[97]]) = None"
proof -
  let ?s = "sample_state [[97], [98]] [[97]]"
  let ?c = "ps_catalog ?s" and ?a = "ps_activation ?s"
  have i: "map_of (ct_installed ?c) [98] = Some (sample_installed [98])" by (simp add: sample_state_def)
  have prep: "prepare_enable sample_host ?c [98] (sample_installed [98])
     = Inr (sample_record [98], \<lparr>gp_depends_on = [], gp_extends = [], gp_disables = [], gp_replaces = []\<rparr>)"
    by (rule sample_prepare)
  have auth: "verify_relation_authority ?c (sample_record [98]) ?a = Inr ()"
    by (rule sample_authority) simp
  obtain a1 where fin: "finish_enable sample_host ?c [98] (sample_record [98])
      \<lparr>gp_depends_on = [], gp_extends = [], gp_disables = [], gp_replaces = []\<rparr> ?a = (a1, Inr ())"
    and e: "map_of (av_enabled a1) [98] = None" and r: "replaced_targets [98] (length (av_resolutions ?a)) a1 = []"
    by (simp add: finish_enable_def auth reconcile_enabled_conflicts_def Let_def)
      (simp add: sample_state_def sample_policy_check map_of_delete_eq provenance_from_record_def sample_record_fields
        replaced_targets_def apply_resolution_def push_resolution_def record_revocation_def Let_def remove_enabled_def)
  have "enable_graph sample_host ?c [98] [] ?a = (a1, Inr ())"
    using i fin by (subst enable_graph.simps) (simp add: prep activation_targets_def, simp add: sample_state_def)
  then show ?thesis using e r by (simp add: enable_def Let_def) (simp add: sample_state_def)
qed

section \<open>Properties\<close>




text \<open>
  An approval covers a package exactly when there is one for its name that is not revoked, whose version, source,
  place, prefix and integrity are the package's, and which grants each capability, each process, each
  replaced package and each relation with its scopes that the package asks for.\<close>

theorem approval_covers_exact:
  "approval_covers approvals p api_prefix capabilities processes relations = Inr () \<longleftrightarrow>
     (\<exists>r. map_of approvals (pp_resolved_name p) = Some r \<and> \<not> pa_revoked r
        \<and> pa_resolved_version r = pp_resolved_version p \<and> pa_source r = pp_requested_spec p
        \<and> pa_package_root r = pp_package_root p \<and> pa_api_prefix r = api_prefix \<and> pa_integrity r = pp_integrity p
        \<and> permission_as_str ` set capabilities \<subseteq> set (pa_capabilities r) \<and> set processes \<subseteq> set (pa_processes r)
        \<and> set (pg_replaces relations) \<subseteq> ap_target ` set (pa_replacements r)
        \<and> set (pg_relation_requests relations) \<subseteq>
            {q. \<exists>a. a \<in> set (pa_relations r) \<and> ar_package a = sr_package q \<and> ar_extension_point a = sr_extension_point q
                 \<and> ar_version a = sr_version q \<and> ar_operation a = operation_as_str (sr_operation q)
                 \<and> set (sr_scopes q) \<subseteq> set (ar_scopes a)})"
proof -
  have "relation_covered approved q \<longleftrightarrow> (\<exists>a. a \<in> set approved \<and> ar_package a = sr_package q
      \<and> ar_extension_point a = sr_extension_point q \<and> ar_version a = sr_version q
      \<and> ar_operation a = operation_as_str (sr_operation q) \<and> set (sr_scopes q) \<subseteq> set (ar_scopes a))" for approved q
    by (auto simp: relation_covered_def list_ex_iff list_all_iff)
  then show ?thesis by (simp add: approval_covers_Inr changed_identity_None expansion_None subset_iff Ball_def conj_ac)
qed

text \<open>C14: When enabling a package fails, whatever it had already changed, the enabled packages, the resolutions, the
  generation and the revocations are those of before, and so are the records of the approvals; nothing
  else of the service has changed either.\<close>

theorem failed_enable_restores:
  assumes "enable host name s = Some (s', Inl e)"
  shows "ps_activation s' = ps_activation s
    \<and> (\<exists>store. ps_catalog s' = (ps_catalog s)\<lparr>ct_approvals := store\<rparr>
         \<and> st_approvals store = st_approvals (ct_approvals (ps_catalog s)))"
  using assms
proof (cases rule: enable_cases)
  case already
  then show ?thesis by (intro conjI exI[of _ "ct_approvals (ps_catalog s)"]) simp_all
qed auto

lemma failed_enable_restores_witness:
  "\<exists>s'. enable sample_host [99] (sample_state [[97], [98]] [[97]]) = Some (s', Inl (Not_Installed [99]))
     \<and> ps_activation s' = ps_activation (sample_state [[97], [98]] [[97]])"
proof -
  let ?s = "sample_state [[97], [98]] [[97]]"
  have "enable_graph sample_host (ps_catalog ?s) [99] [] (ps_activation ?s) = (ps_activation ?s, Inl (Not_Installed [99]))"
    by (subst enable_graph.simps) (simp add: sample_state_def)
  then obtain s' where e: "enable sample_host [99] ?s = Some (s', Inl (Not_Installed [99]))"
    by (simp add: enable_def Let_def) (simp add: sample_state_def restore_def store_save_def)
  with failed_enable_restores[OF e] show ?thesis by blast
qed

text \<open>C12: In every service that is reached, each package that a successful \<open>enable\<close> has added, the package itself or one
  it needs, was installed and valid, had every capability it asks for except \<open>LanguageServer\<close> authorised,
  had control over other packages granted where it disables or replaces one, and was covered by an approval
  that is not revoked unless it belongs to the trusted domain.\<close>

theorem enabled_packages_vetted:
  assumes "keeps_names host" and "approvals_ok (st_approvals approvals)"
    and "service_run host (service_new approvals) s" and "enable host name s = Some (s', Inr r)"
  shows "set (av_enabled (ps_activation s')) \<subseteq>
    set (av_enabled (ps_activation s)) \<union> {(k, x). vetted host (ps_catalog s) k x}"
proof -
  have inv: "service_inv s" using service_run_inv[OF assms(1,3) service_new_inv[OF assms(2)]] .
  then have inst: "installed_ok (ct_installed (ps_catalog s))" by (simp add: service_inv_def)
  from assms(4) show ?thesis
  proof (cases rule: enable_cases)
    case (enabled r a1 u store)
    from enable_graph_ok(1)[OF assms(1) inst activation_ok_refl[OF inv] enabled(2)]
    show ?thesis using enabled(5) by (auto simp: activation_ok_def)
  qed simp_all
qed

lemma enabled_packages_vetted_witness:
  "vetted sample_host (ps_catalog (sample_state [[97], [98]] [])) [97] (sample_record [97])"
proof -
  have "approvals_ok (st_approvals (in_memory sample_disk))" by (simp add: in_memory_def approvals_ok_def)
  from enabled_packages_vetted[OF sample_keeps_names this sample_state_reached sample_enable_a]
  show ?thesis by (simp add: sample_state_def)
qed

text \<open>C13: In every service that is reached, no two enabled packages make the same claim (prefix, mode, command, key, panel
  and so on), nor does one make it twice; each is enabled once and under its name.\<close>

theorem enabled_set_conflict_free:
  assumes "keeps_names host" and "approvals_ok (st_approvals approvals)"
    and "service_run host (service_new approvals) s"
  shows "distinct (all_claims (map snd (av_enabled (ps_activation s))))
    \<and> distinct (map fst (av_enabled (ps_activation s)))
    \<and> map (record_name \<circ> snd) (av_enabled (ps_activation s)) = map fst (av_enabled (ps_activation s))"
proof -
  have "service_inv s" using service_run_inv[OF assms(1,3) service_new_inv[OF assms(2)]] .
  then show ?thesis by (auto simp: service_inv_def enabled_ok_def check_enabled_packages_iff)
qed

lemma enabled_set_conflict_free_witness:
  "distinct (all_claims (map snd (av_enabled (ps_activation (sample_state [[97], [98]] [[97]])))))"
proof -
  have "approvals_ok (st_approvals (in_memory sample_disk))" by (simp add: in_memory_def approvals_ok_def)
  from enabled_set_conflict_free[OF sample_keeps_names this sample_enabled_reached] show ?thesis by blast
qed

text \<open>
  Once the user has approved an installed package, it counts as approved. That is so as well when the
  approval could not be written to the file: the answer is an error, but the approval is in force.\<close>

theorem approve_then_adopted:
  assumes "approve_package host name author clock s = (s', result)"
    and "result \<in> {Inr approval, Inl (Approval_Store Store_Io)}"
  shows "adoption_state host s' name = Some Adoption_Approved"
proof (cases "map_of (ct_installed (ps_catalog s)) name")
  case None
  then show ?thesis using assms by (auto simp: approve_package_def)
next
  case i: (Some i)
  show ?thesis
  proof (cases "ho_assemble host (ip_package_json i)")
    case None
    then show ?thesis using assms i by (auto simp: approve_package_def)
  next
    case r: (Some r)
    let ?store = "ct_approvals (ps_catalog s)"
    let ?approval = "approval_of host (ct_installed (ps_catalog s)) i r author (rfc3339 clock)"
    obtain store written where up: "upsert (ho_serde host) (ho_outcome host) ?approval ?store = (store, written)" by fastforce
    have s': "s' = put_approvals store s" and result: "result = map_sum id (\<lambda>_. ?approval) (map_sum Approval_Store id written)"
      using assms(1) i r up by (auto simp: approve_package_def record_package_approval_def Let_def)
    have "written = Inr () \<or> written = Inl Store_Io"
      using assms(2) result by (cases written) auto
    then have "st_approvals store = AList.update (pa_package ?approval) ?approval (st_approvals ?store)"
      using up store_save_keeps(1) by (fastforce simp: upsert_def split: sum.splits if_splits)
    moreover have "pa_package ?approval = pp_resolved_name (ip_provenance i)" by (simp add: approval_of_def Let_def)
    ultimately have found: "map_of (st_approvals store) (pp_resolved_name (ip_provenance i)) = Some ?approval"
      by (simp add: map_of_update_eq)
    have "relation_covered (map approved_relation_of qs) q" if "q \<in> set qs" for q qs
      using that by (auto simp: relation_covered_def list_ex_iff list_all_iff approved_relation_of_def)
    then have "covers_record (st_approvals store) (ip_provenance i) r = Inr ()"
      unfolding covers_record_def approval_covers_Inr changed_identity_None expansion_None
      by (intro exI[of _ ?approval] conjI found) (auto simp: approval_of_def Let_def approved_replacement_of_def image_image)
    then show ?thesis using i r by (simp add: adoption_state_def s' put_approvals_def)
  qed
qed

lemma approve_then_adopted_witness:
  "adoption_state sample_host (fst (approve_package sample_host [97] [117] 0 (sample_state [[97], [98]] []))) [97]
     = Some Adoption_Approved"
proof -
  obtain s' result where a: "approve_package sample_host [97] [117] 0 (sample_state [[97], [98]] []) = (s', result)" by fastforce
  have valid: "validate_record (approval_of sample_host installed (sample_installed [97]) (sample_record [97]) [117] (rfc3339 0)) = Inr ()"
    for installed
    by (simp add: validate_record_def approval_of_def Let_def sample_installed_def sample_record_def trims_to_empty_def
        is_whitespace_def)
  have i: "map_of (ct_installed (ps_catalog (sample_state [[97], [98]] []))) [97] = Some (sample_installed [97])"
    "ip_package_json (sample_installed [97]) = sample_json [97]" "st_durable (ct_approvals (ps_catalog (sample_state [[97], [98]] []))) = False"
    "length (st_approvals (ct_approvals (ps_catalog (sample_state [[97], [98]] [])))) = 2"
    by (simp_all add: sample_state_def sample_installed_def)
  have "result = Inr (approval_of sample_host (ct_installed (ps_catalog (sample_state [[97], [98]] []))) (sample_installed [97])
      (sample_record [97]) [117] (rfc3339 0))"
    using a i valid
    by (auto simp: approve_package_def record_package_approval_def upsert_def store_save_def max_approval_records_def Let_def)
  then have "result \<in> {Inr (approval_of sample_host (ct_installed (ps_catalog (sample_state [[97], [98]] []))) (sample_installed [97])
      (sample_record [97]) [117] (rfc3339 0)), Inl (Approval_Store Store_Io)}" by simp
  from approve_then_adopted[OF a this] show ?thesis by (simp add: a)
qed

text \<open>C40: The recursion of \<open>enable_graph\<close> over the relations of the packages, cyclic ones included, ends, and its calls are
  never nested deeper than the number of installed packages and one more.\<close>

theorem enable_depth_bounded:
  "enable_graph_within (Suc (length (ct_installed c))) host c name [] a = Some (enable_graph host c name [] a)"
proof (rule enable_graph_within_eq)
  have "card (off_stack c []) \<le> length (ct_installed c)"
    unfolding off_stack_def by (simp add: card_image_le[THEN order_trans] card_length)
  then show "card (off_stack c []) < Suc (length (ct_installed c))" by simp
qed

text \<open>The date written into an approval on the n-th day after 1 January 1970 is the date that n steps of the
  Gregorian calendar give.\<close>

theorem civil_dates_follow_calendar:
  "civil_from_days (int n) = (next_date ^^ n) (1970, 1, 1)"
proof (induction n)
  case 0
  show ?case using civil_epoch by simp
next
  case (Suc n)
  have "civil_from_days (int n + 1) = next_date (civil_from_days (int n))" by (rule civil_from_days_Suc) simp
  then show ?case using Suc by (simp add: add.commute)
qed

text \<open>
  A service can be reached in which enabling an installed and approved package panics: when the user has given
  the prefix it shares to another enabled package, resolving the conflict disables the package that is
  being enabled, and the code expects it to be there.\<close>

theorem override_against_root_panics:
  "\<exists>(host :: json package_host) d s. keeps_names host \<and> service_run host (service_new (in_memory d)) s
     \<and> adoption_state host s [98] = Some Adoption_Approved \<and> enable host [98] s = None"
proof (intro exI conjI)
  show "keeps_names sample_host" by (rule sample_keeps_names)
  show "service_run sample_host (service_new (in_memory sample_disk)) (sample_state [[97], [98]] [[97]])"
    by (rule sample_enabled_reached)
  show "adoption_state sample_host (sample_state [[97], [98]] [[97]]) [98] = Some Adoption_Approved"
  proof -
    have "covers_record (st_approvals (ct_approvals (ps_catalog (sample_state [[97], [98]] [[97]]))))
        (ip_provenance (sample_installed [98])) (sample_record [98]) = Inr ()"
      by (rule sample_covered) simp
    moreover have "map_of (ct_installed (ps_catalog (sample_state [[97], [98]] [[97]]))) [98] = Some (sample_installed [98])"
      "ip_package_json (sample_installed [98]) = sample_json [98]"
      by (simp_all add: sample_state_def sample_installed_def)
    ultimately show ?thesis by (simp add: adoption_state_def)
  qed
  show "enable sample_host [98] (sample_state [[97], [98]] [[97]]) = None" by (rule sample_enable_b)
qed

text \<open>
  The fingerprint of a shipped manifest notices every change of a single byte.\<close>

theorem fingerprint_notices_a_byte:
  "fnv1a64_hex (xs @ b # ys) = fnv1a64_hex (xs @ b' # ys) \<longleftrightarrow> b = b'"
  by (simp add: fnv1a64_hex_inj fnv1a64_def fnv_fold_inj fnv_step_inj_byte)

text \<open>A package runs in the trusted runtime exactly when an entry of the inventory has its name and version, it
  was requested as a shipped package, its directory is the one of the entry, and the manifest
  there has the fingerprint of the entry.\<close>

theorem trusted_domain_exact:
  "runtime_domain_of host p = Trusted_Domain \<longleftrightarrow>
     (\<exists>entry place content. bundled_entry (pp_resolved_name p) = Some entry \<and> pp_source_kind p = ClayShipped
        \<and> pp_resolved_version p = be_version entry \<and> canonical_bundled_root host entry = Some place
        \<and> th_canonicalize host (pp_package_root p) = Some place
        \<and> th_read host (join_path place (lit ''package.json'')) = Some content
        \<and> fnv1a64_hex content = be_manifest_fingerprint entry)"
  by (auto simp: runtime_domain_of_def verify_bundled_trust_def split: option.splits sum.splits if_splits)

end
