(* ===== verification/Clay_Rope.thy ===== *)
theory Clay_Rope imports Clay_Text begin

text \<open>
  The rope of the crate \<open>crop\<close>, which holds the text of \<open>EditorBuffer\<close> (client) and of
  \<open>DocumentState\<close> (server). The crate is not part of the repository, so its operations are a
  parameter of the model, a record \<open>rope_ops\<close>, and its documented behaviour is the locale
  \<open>crop_rope\<close>: each operation is described through \<open>rope_string\<close>, the text the rope holds.
  The laws only speak of arguments inside the documented domain (boundaries inside the rope,
  ordered ranges); outside it \<open>crop\<close> panics, and the laws say nothing. A theorem that
  determines a result therefore also shows that every rope call was in its domain.

  \<open>list_rope\<close> is the plain implementation on a scalar list. Its interpretation shows that the
  laws can hold, and the witnesses of the properties compute with it.
\<close>

record 'r rope_ops =
  rope_from :: "ustr \<Rightarrow> 'r"
  rope_string :: "'r \<Rightarrow> ustr"
  rope_byte_len :: "'r \<Rightarrow> nat"
  rope_is_char_boundary :: "'r \<Rightarrow> nat \<Rightarrow> bool"
  rope_byte_slice :: "'r \<Rightarrow> nat \<Rightarrow> nat \<Rightarrow> ustr"
  rope_insert :: "'r \<Rightarrow> nat \<Rightarrow> ustr \<Rightarrow> 'r"
  rope_delete :: "'r \<Rightarrow> nat \<Rightarrow> nat \<Rightarrow> 'r"
  rope_replace :: "'r \<Rightarrow> nat \<Rightarrow> nat \<Rightarrow> ustr \<Rightarrow> 'r"
  rope_line_len :: "'r \<Rightarrow> nat"
  rope_line_of_byte :: "'r \<Rightarrow> nat \<Rightarrow> nat"
  rope_byte_of_line :: "'r \<Rightarrow> nat \<Rightarrow> nat"

text \<open>A byte range the rope accepts.\<close>

definition valid_range :: "ustr \<Rightarrow> nat \<Rightarrow> nat \<Rightarrow> bool" where
  "valid_range t a b \<longleftrightarrow> is_boundary t a \<and> is_boundary t b \<and> a \<le> b"

lemma valid_rangeI [intro]:
  "is_boundary t a \<Longrightarrow> is_boundary t b \<Longrightarrow> a \<le> b \<Longrightarrow> valid_range t a b"
  by (simp add: valid_range_def)

lemma valid_rangeD:
  "valid_range t a b \<Longrightarrow> is_boundary t a"
  "valid_range t a b \<Longrightarrow> is_boundary t b"
  "valid_range t a b \<Longrightarrow> a \<le> b"
  by (simp_all add: valid_range_def)

lemma valid_range_parts: "valid_range (p @ m @ q) (byte_len p) (byte_len p + byte_len m)"
  by (simp add: valid_range_def boundary_prefix boundary_prefix2)

locale crop_rope =
  fixes R :: "'r rope_ops"
  assumes string_from [simp]: "rope_string R (rope_from R t) = t"
    and byte_len_rope [simp]: "rope_byte_len R r = byte_len (rope_string R r)"
    and boundary_rope [simp]: "n \<le> byte_len (rope_string R r) \<Longrightarrow>
          rope_is_char_boundary R r n = is_boundary (rope_string R r) n"
    and slice_rope [simp]: "valid_range (rope_string R r) a b \<Longrightarrow>
          rope_byte_slice R r a b = text_slice (rope_string R r) a b"
    and insert_rope [simp]: "is_boundary (rope_string R r) n \<Longrightarrow>
          rope_string R (rope_insert R r n s) = text_splice (rope_string R r) n n s"
    and delete_rope [simp]: "valid_range (rope_string R r) a b \<Longrightarrow>
          rope_string R (rope_delete R r a b) = text_splice (rope_string R r) a b []"
    and replace_rope [simp]: "valid_range (rope_string R r) a b \<Longrightarrow>
          rope_string R (rope_replace R r a b s) = text_splice (rope_string R r) a b s"
    and line_len_rope [simp]: "rope_string R r \<noteq> [] \<Longrightarrow>
          rope_line_len R r = text_line_len (rope_string R r)"
    and line_of_byte_rope [simp]: "n \<le> byte_len (rope_string R r) \<Longrightarrow>
          rope_line_of_byte R r n = text_line_of_byte (rope_string R r) n"
    and byte_of_line_rope [simp]: "l \<le> text_line_len (rope_string R r) \<Longrightarrow>
          rope_byte_of_line R r l = text_byte_of_line (rope_string R r) l"
begin

lemma slice_to [simp]:
  "is_boundary (rope_string R r) b \<Longrightarrow>
   rope_byte_slice R r 0 b = take (char_index (rope_string R r) b) (rope_string R r)"
  by (simp add: valid_range_def text_slice_from_0)

lemma slice_from [simp]:
  "is_boundary (rope_string R r) a \<Longrightarrow>
   rope_byte_slice R r a (byte_len (rope_string R r))
     = drop (char_index (rope_string R r) a) (rope_string R r)"
  by (simp add: valid_range_def text_slice_to_end is_boundary_le)

end

text \<open>The rope on a scalar list.\<close>

definition list_rope :: "ustr rope_ops" where
  "list_rope =
    \<lparr>rope_from = (\<lambda>t. t), rope_string = (\<lambda>t. t), rope_byte_len = byte_len,
     rope_is_char_boundary = is_boundary, rope_byte_slice = text_slice,
     rope_insert = (\<lambda>t n s. text_splice t n n s),
     rope_delete = (\<lambda>t a b. text_splice t a b []),
     rope_replace = text_splice, rope_line_len = text_line_len,
     rope_line_of_byte = text_line_of_byte, rope_byte_of_line = text_byte_of_line\<rparr>"

interpretation list_rope: crop_rope list_rope
  by unfold_locales (simp_all add: list_rope_def)

lemma list_rope_laws: "crop_rope list_rope"
  by (rule list_rope.crop_rope_axioms)

lemma list_rope_sel [simp]:
  "rope_from list_rope t = t" "rope_string list_rope t = t"
  "rope_byte_len list_rope t = byte_len t"
  "rope_is_char_boundary list_rope t n = is_boundary t n"
  "rope_byte_slice list_rope t a b = text_slice t a b"
  "rope_insert list_rope t n s = text_splice t n n s"
  "rope_delete list_rope t a b = text_splice t a b []"
  "rope_replace list_rope t a b s = text_splice t a b s"
  "rope_line_len list_rope t = text_line_len t"
  "rope_line_of_byte list_rope t n = text_line_of_byte t n"
  "rope_byte_of_line list_rope t l = text_byte_of_line t l"
  by (simp_all add: list_rope_def)

end
