(* ===== verification/Edit_Protocol.thy ===== *)
theory Edit_Protocol imports Clay_Text "HOL-Library.Monad_Syntax" begin

text \<open>
  The wire types of the edit protocol (\<open>protocol/mod.rs\<close>, \<open>protocol/parse.rs\<close>): edit
  operations and rejections, document access, lock owners, and the byte ranges, points, edits
  and windows handed to parsers, each with its operations. The last section states what an
  edit operation means on a text, the specification that the client buffer and the server
  document are compared with.

  Identifiers and versions are \<open>u64\<close> values (\<open>nat\<close>); the names of lock owners are only
  compared, so they are byte strings (\<open>string\<close>). A \<open>format!\<close> message is a constructor of
  \<open>document_error\<close> with the values it prints.
\<close>

section \<open>Edits, access and rejections\<close>

datatype document_access = ReadOnly | Editable nat

fun access_lease_id :: "document_access \<Rightarrow> nat option" where
  "access_lease_id ReadOnly = None"
| "access_lease_id (Editable lease_id) = Some lease_id"

datatype edit_operation =
    Insert nat ustr
  | Delete nat nat
  | Replace nat nat ustr

datatype lock_owner =
    OwnerServer
  | OwnerClient nat
  | OwnerExtension string
  | OwnerAiAgent string

record region_lock_conflict =
  rc_lock_id :: nat
  rc_start :: nat
  rc_end :: nat
  rc_owner :: lock_owner
  rc_created_at_version :: nat

text \<open>The messages of \<open>server/document.rs\<close>, one constructor per literal or format string.\<close>

datatype document_error =
    EditOffsetTooLarge
  | EditOffsetPastLength nat nat
  | EditOffsetNotBoundary nat
  | EditRangeReversed
  | InsertedTextTooLong
  | InsertedEndTooLarge
  | DocumentVersionTooLarge
  | RegionLockEmpty
  | SnapshotWindowZero
  | SnapshotRangeTooLong nat nat
  | SnapshotStartTooLarge
  | SnapshotEndTooLarge
  | SnapshotOffsetTooLarge
  | SnapshotDoesNotFit
  | ParseEditInvalid
  | ParsePolicyOutOfBounds
  | ParseMemoryBudgetExceeded

datatype edit_rejection =
    StaleVersion nat nat
  | FutureVersion nat nat
  | LeaseRequired
  | LeaseExpired nat
  | ReadOnlyDocument
  | RegionLocked region_lock_conflict
  | InvalidDocument nat
  | InvalidRange document_error
  | InvalidBehaviorVersion nat nat

section \<open>Parser coordinates\<close>

record parse_byte_range =
  pr_start :: nat
  pr_end :: nat

definition range_is_valid :: "parse_byte_range \<Rightarrow> bool" where
  "range_is_valid r \<longleftrightarrow> pr_start r \<le> pr_end r"

definition range_len :: "parse_byte_range \<Rightarrow> nat" where
  "range_len r = pr_end r - pr_start r"

definition range_is_empty :: "parse_byte_range \<Rightarrow> bool" where
  "range_is_empty r \<longleftrightarrow> pr_start r = pr_end r"

definition range_intersects :: "parse_byte_range \<Rightarrow> parse_byte_range \<Rightarrow> bool" where
  "range_intersects r s \<longleftrightarrow> pr_start r < pr_end s \<and> pr_end r > pr_start s"

record parse_point =
  pp_row :: nat
  pp_column :: nat

text \<open>The derived order of \<open>ParsePoint\<close>: rows first, then columns.\<close>

definition point_le :: "parse_point \<Rightarrow> parse_point \<Rightarrow> bool" where
  "point_le p q \<longleftrightarrow> pp_row p < pp_row q \<or> (pp_row p = pp_row q \<and> pp_column p \<le> pp_column q)"

definition point_relative_to :: "parse_point \<Rightarrow> parse_point \<Rightarrow> parse_point option" where
  "point_relative_to p base = do {
     row \<leftarrow> checked_sub (pp_row p) (pp_row base);
     column \<leftarrow> (if row = 0 then checked_sub (pp_column p) (pp_column base)
                else Some (pp_column p));
     Some \<lparr>pp_row = row, pp_column = column\<rparr>
   }"

record parse_input_edit =
  pe_base_document_version :: nat
  pe_document_version :: nat
  pe_start_byte :: nat
  pe_old_end_byte :: nat
  pe_new_end_byte :: nat
  pe_start_position :: parse_point
  pe_old_end_position :: parse_point
  pe_new_end_position :: parse_point

definition edit_is_valid :: "parse_input_edit \<Rightarrow> bool" where
  "edit_is_valid e \<longleftrightarrow>
     checked_add (pe_base_document_version e) 1 = Some (pe_document_version e)
     \<and> pe_start_byte e \<le> pe_old_end_byte e
     \<and> pe_start_byte e \<le> pe_new_end_byte e
     \<and> point_le (pe_start_position e) (pe_old_end_position e)
     \<and> point_le (pe_start_position e) (pe_new_end_position e)"

record parse_window_snapshot =
  pw_document_id :: nat
  pw_document_version :: nat
  pw_package_prefix :: ustr
  pw_mode_id :: ustr
  pw_window_id :: nat
  pw_byte_start :: nat
  pw_byte_end :: nat
  pw_base_line :: nat
  pw_base_column :: nat
  pw_incremental_edit :: bool
  pw_text :: ustr

definition window_base_point :: "parse_window_snapshot \<Rightarrow> parse_point" where
  "window_base_point w = \<lparr>pp_row = pw_base_line w, pp_column = pw_base_column w\<rparr>"

definition window_byte_range :: "parse_window_snapshot \<Rightarrow> parse_byte_range" where
  "window_byte_range w = \<lparr>pr_start = pw_byte_start w, pr_end = pw_byte_end w\<rparr>"

definition edit_relative_to_window ::
  "parse_input_edit \<Rightarrow> parse_window_snapshot \<Rightarrow> parse_input_edit option" where
  "edit_relative_to_window e w = do {
     let base = window_base_point w;
     s \<leftarrow> checked_sub (pe_start_byte e) (pw_byte_start w);
     oe \<leftarrow> checked_sub (pe_old_end_byte e) (pw_byte_start w);
     ne \<leftarrow> checked_sub (pe_new_end_byte e) (pw_byte_start w);
     sp \<leftarrow> point_relative_to (pe_start_position e) base;
     op \<leftarrow> point_relative_to (pe_old_end_position e) base;
     np \<leftarrow> point_relative_to (pe_new_end_position e) base;
     Some (e\<lparr>pe_start_byte := s, pe_old_end_byte := oe, pe_new_end_byte := ne,
             pe_start_position := sp, pe_old_end_position := op, pe_new_end_position := np\<rparr>)
   }"

record parse_policy =
  po_max_window_bytes :: nat
  po_guard_bytes :: nat
  po_memory_budget_bytes :: nat
  po_timeout_ms :: nat

record syntax_memory_budget =
  mb_budget_bytes :: nat
  mb_retained_bytes :: nat

definition budget_remaining_bytes :: "syntax_memory_budget \<Rightarrow> nat" where
  "budget_remaining_bytes b = mb_budget_bytes b - mb_retained_bytes b"

definition budget_is_exceeded :: "syntax_memory_budget \<Rightarrow> bool" where
  "budget_is_exceeded b \<longleftrightarrow> mb_retained_bytes b > mb_budget_bytes b"

section \<open>What an edit means\<close>

fun op_start :: "edit_operation \<Rightarrow> nat" where
  "op_start (Insert o1 s) = o1"
| "op_start (Delete a b) = a"
| "op_start (Replace a b s) = a"

fun op_end :: "edit_operation \<Rightarrow> nat" where
  "op_end (Insert o1 s) = o1"
| "op_end (Delete a b) = b"
| "op_end (Replace a b s) = b"

fun op_text :: "edit_operation \<Rightarrow> ustr" where
  "op_text (Insert o1 s) = s"
| "op_text (Delete a b) = []"
| "op_text (Replace a b s) = s"

definition valid_op :: "ustr \<Rightarrow> edit_operation \<Rightarrow> bool" where
  "valid_op t e \<longleftrightarrow> is_boundary t (op_start e) \<and> is_boundary t (op_end e) \<and> op_start e \<le> op_end e"

definition edited_text :: "ustr \<Rightarrow> edit_operation \<Rightarrow> ustr" where
  "edited_text t e = text_splice t (op_start e) (op_end e) (op_text e)"

text \<open>The text an edit removes.\<close>

definition prior_text :: "ustr \<Rightarrow> edit_operation \<Rightarrow> ustr" where
  "prior_text t e = text_slice t (op_start e) (op_end e)"

lemma valid_opD:
  "valid_op t e \<Longrightarrow> is_boundary t (op_start e)"
  "valid_op t e \<Longrightarrow> is_boundary t (op_end e)"
  "valid_op t e \<Longrightarrow> op_start e \<le> op_end e"
  by (simp_all add: valid_op_def)

lemma valid_op_split:
  assumes "valid_op t e"
  obtains p m q where "t = p @ m @ q" "op_start e = byte_len p"
    "op_end e = byte_len p + byte_len m" "edited_text t e = p @ op_text e @ q"
    "prior_text t e = m"
proof -
  obtain p m q where "t = p @ m @ q" "op_start e = byte_len p" "op_end e = byte_len p + byte_len m"
    using boundary_split_range[OF valid_opD[OF assms]] .
  then show thesis by (intro that) (simp_all add: edited_text_def prior_text_def)
qed

lemma byte_len_edited_text:
  "valid_op t e \<Longrightarrow>
   byte_len (edited_text t e) = byte_len t - (op_end e - op_start e) + byte_len (op_text e)"
  by (simp add: edited_text_def valid_op_def byte_len_text_splice)

text \<open>A window-relative edit is the same edit, seen from the start of the window.\<close>

lemma point_relative_to_SomeD:
  assumes "point_relative_to p b = Some q"
  shows "pp_row p = pp_row b + pp_row q"
    and "pp_row q = 0 \<Longrightarrow> pp_column p = pp_column b + pp_column q"
    and "pp_row q \<noteq> 0 \<Longrightarrow> pp_column p = pp_column q"
  using assms
  by (auto simp: point_relative_to_def checked_sub_def bind_eq_Some_conv split: if_splits)

lemma edit_relative_to_windowE:
  assumes "edit_relative_to_window e w = Some e'"
  obtains s oe ne sp op np where
    "checked_sub (pe_start_byte e) (pw_byte_start w) = Some s"
    "checked_sub (pe_old_end_byte e) (pw_byte_start w) = Some oe"
    "checked_sub (pe_new_end_byte e) (pw_byte_start w) = Some ne"
    "point_relative_to (pe_start_position e) (window_base_point w) = Some sp"
    "point_relative_to (pe_old_end_position e) (window_base_point w) = Some op"
    "point_relative_to (pe_new_end_position e) (window_base_point w) = Some np"
    "e' = e\<lparr>pe_start_byte := s, pe_old_end_byte := oe, pe_new_end_byte := ne,
            pe_start_position := sp, pe_old_end_position := op, pe_new_end_position := np\<rparr>"
proof -
  from assms show thesis
    unfolding edit_relative_to_window_def Let_def bind_eq_Some_conv
    by (elim exE conjE) (rule that, assumption+, drule option.inject[THEN iffD1], erule sym)
qed

lemma edit_relative_to_windowD:
  assumes "edit_relative_to_window e w = Some e'"
  shows "pe_start_byte e = pw_byte_start w + pe_start_byte e'"
    and "pe_old_end_byte e = pw_byte_start w + pe_old_end_byte e'"
    and "pe_new_end_byte e = pw_byte_start w + pe_new_end_byte e'"
    and "pe_base_document_version e' = pe_base_document_version e"
    and "pe_document_version e' = pe_document_version e"
proof -
  obtain s oe ne sp op np where
    s: "checked_sub (pe_start_byte e) (pw_byte_start w) = Some s"
    and oe: "checked_sub (pe_old_end_byte e) (pw_byte_start w) = Some oe"
    and ne: "checked_sub (pe_new_end_byte e) (pw_byte_start w) = Some ne"
    and e': "e' = e\<lparr>pe_start_byte := s, pe_old_end_byte := oe, pe_new_end_byte := ne,
            pe_start_position := sp, pe_old_end_position := op, pe_new_end_position := np\<rparr>"
    by (rule edit_relative_to_windowE[OF assms])
  show "pe_start_byte e = pw_byte_start w + pe_start_byte e'"
    using checked_sub_SomeD[OF s] by (simp add: e')
  show "pe_old_end_byte e = pw_byte_start w + pe_old_end_byte e'"
    using checked_sub_SomeD[OF oe] by (simp add: e')
  show "pe_new_end_byte e = pw_byte_start w + pe_new_end_byte e'"
    using checked_sub_SomeD[OF ne] by (simp add: e')
qed (rule edit_relative_to_windowE[OF assms], simp)+

lemma point_relative_to_mono:
  assumes "point_relative_to p b = Some p'" "point_relative_to q b = Some q'" "point_le p q"
  shows "point_le p' q'"
proof -
  have rows: "pp_row p = pp_row b + pp_row p'" "pp_row q = pp_row b + pp_row q'"
    by (rule point_relative_to_SomeD(1)[OF assms(1)], rule point_relative_to_SomeD(1)[OF assms(2)])
  from assms(3) consider "pp_row p < pp_row q" | "pp_row p = pp_row q" "pp_column p \<le> pp_column q"
    unfolding point_le_def by blast
  then show ?thesis
  proof cases
    case 1
    then show ?thesis by (simp add: point_le_def rows)
  next
    case 2
    then have eq: "pp_row q' = pp_row p'" by (simp add: rows)
    have "pp_column p' \<le> pp_column q'"
    proof (cases "pp_row p' = 0")
      case True
      then show ?thesis
        using 2(2) point_relative_to_SomeD(2)[OF assms(1)] point_relative_to_SomeD(2)[OF assms(2)]
        by (simp add: eq)
    next
      case False
      then show ?thesis
        using 2(2) point_relative_to_SomeD(3)[OF assms(1)] point_relative_to_SomeD(3)[OF assms(2)]
        by (simp add: eq)
    qed
    then show ?thesis by (simp add: point_le_def eq)
  qed
qed

lemma edit_relative_to_window_valid:
  assumes "edit_relative_to_window e w = Some e'" and "edit_is_valid e"
  shows "edit_is_valid e'"
proof -
  have "point_le (pe_start_position e') (pe_old_end_position e')"
    by (rule edit_relative_to_windowE[OF assms(1)])
      (use assms(2) in \<open>auto simp: edit_is_valid_def intro: point_relative_to_mono\<close>)
  moreover have "point_le (pe_start_position e') (pe_new_end_position e')"
    by (rule edit_relative_to_windowE[OF assms(1)])
      (use assms(2) in \<open>auto simp: edit_is_valid_def intro: point_relative_to_mono\<close>)
  ultimately show ?thesis
    using assms(2) edit_relative_to_windowD[OF assms(1)]
    by (simp add: edit_is_valid_def)
qed

end
