(* ===== verification/Scoped_Locks.thy ===== *)
theory Scoped_Locks imports Edit_Protocol begin

text \<open>
  The scoped lock manager (\<open>server/locks.rs\<close>): locks on a byte range, a document, the behavior
  manifest or the workspace. The state behind the mutex is \<open>scoped_lock_state\<close>; a held
  \<open>ScopedLockGuard\<close> is its lock id, and dropping it is \<open>drop_guard\<close>. The mutex makes each
  operation one step of \<open>lock_step\<close>.

  \<open>footprint\<close> says what a target stands for, a set of resources; the lemmas show that two
  targets conflict exactly when their footprints meet, and that in every reachable state the
  active locks are pairwise free of conflicts. The locale \<open>conflict_table\<close> holds the argument
  for any symmetric conflict relation.
\<close>

section \<open>Targets\<close>

datatype scoped_lock_target =
    RangeTarget nat nat nat
  | DocumentTarget nat
  | BehaviorTarget
  | WorkspaceTarget

record scoped_lock_conflict =
  sc_lock_id :: nat
  sc_target :: scoped_lock_target
  sc_owner :: lock_owner

datatype scoped_lock_error =
    InvalidTarget
  | Conflict scoped_lock_conflict

definition ranges_overlap :: "nat \<Rightarrow> nat \<Rightarrow> nat \<Rightarrow> nat \<Rightarrow> bool" where
  "ranges_overlap left_start left_end right_start right_end \<longleftrightarrow>
     left_start < right_end \<and> right_start < left_end"

fun validate_target :: "scoped_lock_target \<Rightarrow> scoped_lock_error + unit" where
  "validate_target (RangeTarget document_id s e) =
     (if document_id = 0 \<or> s \<ge> e then Inl InvalidTarget else Inr ())"
| "validate_target (DocumentTarget document_id) =
     (if document_id = 0 then Inl InvalidTarget else Inr ())"
| "validate_target _ = Inr ()"

fun conflicts_with :: "scoped_lock_target \<Rightarrow> scoped_lock_target \<Rightarrow> bool" where
  "conflicts_with WorkspaceTarget _ = True"
| "conflicts_with _ WorkspaceTarget = True"
| "conflicts_with BehaviorTarget BehaviorTarget = True"
| "conflicts_with (RangeTarget d s e) (RangeTarget d' s' e') =
     (d = d' \<and> ranges_overlap s e s' e')"
| "conflicts_with (RangeTarget d s e) (DocumentTarget d') = (d = d')"
| "conflicts_with (DocumentTarget d') (RangeTarget d s e) = (d = d')"
| "conflicts_with (DocumentTarget d) (DocumentTarget d') = (d = d')"
| "conflicts_with _ _ = False"

section \<open>The manager\<close>

record active_scoped_lock =
  al_lock_id :: nat
  al_target :: scoped_lock_target
  al_owner :: lock_owner

record scoped_lock_state =
  sl_next_lock_id :: nat
  sl_active :: "active_scoped_lock list"

definition lock_manager_default :: scoped_lock_state where
  "lock_manager_default = \<lparr>sl_next_lock_id = 1, sl_active = []\<rparr>"

definition try_acquire ::
  "scoped_lock_state \<Rightarrow> scoped_lock_target \<Rightarrow> lock_owner
     \<Rightarrow> scoped_lock_state \<times> (scoped_lock_error + nat)" where
  "try_acquire st target owner =
     (case validate_target target of
        Inl e \<Rightarrow> (st, Inl e)
      | Inr _ \<Rightarrow>
          (case find (\<lambda>active. conflicts_with target (al_target active)) (sl_active st) of
             Some active \<Rightarrow>
               (st, Inl (Conflict \<lparr>sc_lock_id = al_lock_id active, sc_target = al_target active,
                                   sc_owner = al_owner active\<rparr>))
           | None \<Rightarrow>
               let lock_id = sl_next_lock_id st in
               (st\<lparr>sl_next_lock_id := sat_add (sl_next_lock_id st) 1,
                   sl_active := sl_active st @
                     [\<lparr>al_lock_id = lock_id, al_target = target, al_owner = owner\<rparr>]\<rparr>,
                Inr lock_id)))"

definition drop_guard :: "scoped_lock_state \<Rightarrow> nat \<Rightarrow> scoped_lock_state" where
  "drop_guard st lock_id =
     st\<lparr>sl_active := filter (\<lambda>active. al_lock_id active \<noteq> lock_id) (sl_active st)\<rparr>"

text \<open>One operation under the mutex; a guard is dropped once, by the holder of a granted lock.\<close>

inductive lock_step :: "scoped_lock_state \<Rightarrow> scoped_lock_state \<Rightarrow> bool" where
  acquire: "try_acquire st target owner = (st', result) \<Longrightarrow> lock_step st st'"
| release: "lock_id \<in> al_lock_id ` set (sl_active st) \<Longrightarrow> lock_step st (drop_guard st lock_id)"

inductive lock_reachable :: "scoped_lock_state \<Rightarrow> bool" where
  start: "lock_reachable lock_manager_default"
| step: "lock_reachable st \<Longrightarrow> lock_step st st' \<Longrightarrow> lock_reachable st'"

inductive_cases lock_stepE: "lock_step st st'"

section \<open>What a target covers\<close>

datatype resource = DocumentByte nat nat | DocumentSelf nat | BehaviorSelf

fun footprint :: "scoped_lock_target \<Rightarrow> resource set" where
  "footprint (RangeTarget d s e) = DocumentByte d ` {s..<e}"
| "footprint (DocumentTarget d) = insert (DocumentSelf d) (range (DocumentByte d))"
| "footprint BehaviorTarget = {BehaviorSelf}"
| "footprint WorkspaceTarget = UNIV"

definition target_ok :: "scoped_lock_target \<Rightarrow> bool" where
  "target_ok target \<longleftrightarrow> validate_target target = Inr ()"

lemma target_ok_simps [simp]:
  "target_ok (RangeTarget d s e) \<longleftrightarrow> d \<noteq> 0 \<and> s < e"
  "target_ok (DocumentTarget d) \<longleftrightarrow> d \<noteq> 0"
  "target_ok BehaviorTarget" "target_ok WorkspaceTarget"
  by (auto simp: target_ok_def)

lemma ranges_overlap_iff:
  "s < e \<Longrightarrow> s' < e' \<Longrightarrow> ranges_overlap s e s' e' \<longleftrightarrow> {s..<e} \<inter> {s'..<e'} \<noteq> {}"
proof -
  assume "s < e" "s' < e'"
  then have "ranges_overlap s e s' e' \<Longrightarrow> max s s' \<in> {s..<e} \<inter> {s'..<e'}"
    by (auto simp: ranges_overlap_def)
  then show ?thesis by (auto simp: ranges_overlap_def)
qed

lemma footprint_nonempty: "target_ok target \<Longrightarrow> footprint target \<noteq> {}"
  by (cases target) auto

lemma conflicts_with_footprint:
  assumes "target_ok t" and "target_ok u"
  shows "conflicts_with t u \<longleftrightarrow> footprint t \<inter> footprint u \<noteq> {}"
proof -
  have range: "DocumentByte d ` A \<inter> DocumentByte d ` B \<noteq> {} \<longleftrightarrow> A \<inter> B \<noteq> {}" for d A B
    by blast
  have meet: "DocumentByte d ` {s..<e} \<inter> range (DocumentByte d) \<noteq> {}"
    "range (DocumentByte d) \<inter> DocumentByte d ` {s..<e} \<noteq> {}" if "s < e" for d s e
    using that by force+
  from assms show ?thesis
  proof (cases t; cases u)
    fix d s e d' s' e'
    assume t: "t = RangeTarget d s e" and u: "u = RangeTarget d' s' e'"
    show ?thesis
      using assms ranges_overlap_iff[of s e s' e'] range[of d "{s..<e}" "{s'..<e'}"]
      by (cases "d = d'") (auto simp: t u)
  qed (use footprint_nonempty[OF assms(1)] footprint_nonempty[OF assms(2)] in
      \<open>auto simp: meet\<close>)
qed

lemma conflicts_with_sym: "conflicts_with t u = conflicts_with u t"
  by (cases t; cases u) (auto simp: ranges_overlap_def)

section \<open>Tables of conflict-free entries\<close>

text \<open>Entries of a table, read through the part \<open>key\<close> that the conflict relation looks at.\<close>

definition conflict_free :: "('k \<Rightarrow> 'k \<Rightarrow> bool) \<Rightarrow> ('a \<Rightarrow> 'k) \<Rightarrow> 'a list \<Rightarrow> bool" where
  "conflict_free conflict key xs \<longleftrightarrow> sorted_wrt (\<lambda>a b. \<not> conflict (key a) (key b)) xs"

locale conflict_table =
  fixes conflict :: "'k \<Rightarrow> 'k \<Rightarrow> bool" and key :: "'a \<Rightarrow> 'k"
  assumes conflict_sym: "conflict a b = conflict b a"
begin

lemma conflict_free_Nil [simp]: "conflict_free conflict key []"
  by (simp add: conflict_free_def)

lemma conflict_free_grant:
  assumes "conflict_free conflict key xs"
    and "find (\<lambda>a. conflict (key x) (key a)) xs = None"
  shows "conflict_free conflict key (xs @ [x])"
  using assms by (auto simp: conflict_free_def sorted_wrt_append find_None_iff conflict_sym)

lemma conflict_free_filter:
  "conflict_free conflict key xs \<Longrightarrow> conflict_free conflict key (filter P xs)"
  by (simp add: conflict_free_def sorted_wrt_filter)

lemma conflict_free_nth:
  assumes "conflict_free conflict key xs" "i < length xs" "j < length xs" "i \<noteq> j"
  shows "\<not> conflict (key (xs ! i)) (key (xs ! j))"
proof (cases "i < j")
  case True
  then show ?thesis using assms by (simp add: conflict_free_def sorted_wrt_iff_nth_less)
next
  case False
  then show ?thesis
    using assms conflict_sym[of "key (xs ! i)" "key (xs ! j)"]
    by (simp add: conflict_free_def sorted_wrt_iff_nth_less)
qed

end

interpretation scoped: conflict_table conflicts_with al_target
  by unfold_locales (rule conflicts_with_sym)

section \<open>Invariant of the manager\<close>

text \<open>
  Ids are handed out in order until the counter saturates; up to that point they are distinct.
\<close>

definition lock_manager_inv :: "scoped_lock_state \<Rightarrow> bool" where
  "lock_manager_inv st \<longleftrightarrow>
     conflict_free conflicts_with al_target (sl_active st)
     \<and> (\<forall>l\<in>set (sl_active st). target_ok (al_target l))
     \<and> (sl_next_lock_id st < u64_max \<longrightarrow>
          distinct (map al_lock_id (sl_active st))
          \<and> (\<forall>l\<in>set (sl_active st). al_lock_id l < sl_next_lock_id st))"

lemma lock_manager_inv_default: "lock_manager_inv lock_manager_default"
  by (simp add: lock_manager_inv_def lock_manager_default_def)

lemma try_acquire_granted:
  "try_acquire st target owner = (st', Inr lock_id) \<longleftrightarrow>
     target_ok target
     \<and> (\<forall>l\<in>set (sl_active st). \<not> conflicts_with target (al_target l))
     \<and> lock_id = sl_next_lock_id st
     \<and> st' = st\<lparr>sl_next_lock_id := sat_add (sl_next_lock_id st) 1,
               sl_active := sl_active st @
                 [\<lparr>al_lock_id = lock_id, al_target = target, al_owner = owner\<rparr>]\<rparr>"
  by (auto simp: try_acquire_def target_ok_def find_None_iff Let_def
      split: sum.splits option.splits dest!: find_SomeD)

lemma try_acquire_refused: "try_acquire st target owner = (st', Inl e) \<Longrightarrow> st' = st"
  by (auto simp: try_acquire_def Let_def split: sum.splits option.splits)

lemma try_acquire_inv:
  assumes "lock_manager_inv st" and "try_acquire st target owner = (st', result)"
  shows "lock_manager_inv st'"
proof (cases result)
  case (Inl e)
  then show ?thesis using assms try_acquire_refused by metis
next
  case (Inr lock_id)
  then have grant: "target_ok target"
    "\<forall>l\<in>set (sl_active st). \<not> conflicts_with target (al_target l)"
    and st': "st' = st\<lparr>sl_next_lock_id := sat_add (sl_next_lock_id st) 1,
               sl_active := sl_active st @
                 [\<lparr>al_lock_id = sl_next_lock_id st, al_target = target, al_owner = owner\<rparr>]\<rparr>"
    using assms(2) by (auto simp: try_acquire_granted)
  have "conflict_free conflicts_with al_target (sl_active st')"
    using assms(1) grant
    by (auto simp: st' lock_manager_inv_def find_None_iff intro!: scoped.conflict_free_grant)
  then show ?thesis
    using assms(1) grant by (auto simp: lock_manager_inv_def st' sat_add_def)
qed

lemma drop_guard_inv: "lock_manager_inv st \<Longrightarrow> lock_manager_inv (drop_guard st lock_id)"
  by (auto simp: lock_manager_inv_def drop_guard_def distinct_map_filter
      intro: scoped.conflict_free_filter)

lemma lock_step_inv: "lock_step st st' \<Longrightarrow> lock_manager_inv st \<Longrightarrow> lock_manager_inv st'"
  by (auto elim!: lock_stepE intro: try_acquire_inv drop_guard_inv)

lemma lock_reachable_inv: "lock_reachable st \<Longrightarrow> lock_manager_inv st"
  by (induction rule: lock_reachable.induct)
    (auto intro: lock_manager_inv_default lock_step_inv)

section \<open>Properties\<close>

text \<open>
  C5: conflicting locks are never held together. In every state the manager can reach by
  acquiring and dropping locks, two different active locks never conflict, every active target is
  a valid one, and, while the id counter has not saturated, their ids are distinct, so dropping
  a guard releases exactly its own lock.
\<close>

theorem active_locks_conflict_free:
  assumes "lock_reachable st" and "i < length (sl_active st)" and "j < length (sl_active st)" and "i \<noteq> j"
  shows "footprint (al_target (sl_active st ! i)) \<inter> footprint (al_target (sl_active st ! j)) = {}
         \<and> target_ok (al_target (sl_active st ! i))
         \<and> (sl_next_lock_id st < u64_max \<longrightarrow> al_lock_id (sl_active st ! i) \<noteq> al_lock_id (sl_active st ! j))"
proof -
  have inv: "lock_manager_inv st" by (rule lock_reachable_inv[OF assms(1)])
  then have ok: "target_ok (al_target (sl_active st ! i))" "target_ok (al_target (sl_active st ! j))"
    using assms(2,3) by (simp_all add: lock_manager_inv_def)
  have "conflict_free conflicts_with al_target (sl_active st)"
    using inv by (simp add: lock_manager_inv_def)
  from scoped.conflict_free_nth[OF this assms(2-4)] show ?thesis
    using ok inv assms(2-4)
    by (auto simp: conflicts_with_footprint lock_manager_inv_def distinct_conv_nth)
qed

definition two_locks :: scoped_lock_state where
  "two_locks = fst (try_acquire (fst (try_acquire lock_manager_default (RangeTarget 7 0 4) OwnerServer))
     (RangeTarget 7 4 9) (OwnerClient 1))"

lemma two_locks_reachable: "lock_reachable two_locks"
  unfolding two_locks_def
  by (intro lock_reachable.step[OF lock_reachable.step[OF lock_reachable.start]] lock_step.acquire)
    (rule prod.collapse[symmetric])+

theorem active_locks_conflict_free_witness:
  "footprint (al_target (sl_active two_locks ! 0)) \<inter> footprint (al_target (sl_active two_locks ! 1)) = {}"
proof -
  have "length (sl_active two_locks) = 2"
    by (simp add: two_locks_def try_acquire_def lock_manager_default_def ranges_overlap_def Let_def)
  then show ?thesis using active_locks_conflict_free[OF two_locks_reachable, of 0 1] by simp
qed

text \<open>
  A lock is granted exactly when it should be. A request succeeds if and only if its target
  is valid and covers nothing that an active lock covers; a granted request adds the lock with
  the next id and changes nothing else, and a refused one changes nothing.
\<close>

theorem lock_granted_iff_free:
  assumes "lock_reachable st"
  shows "((\<exists>st' lock_id. try_acquire st target owner = (st', Inr lock_id)) \<longleftrightarrow>
            target_ok target
            \<and> (\<forall>l\<in>set (sl_active st). footprint target \<inter> footprint (al_target l) = {}))
         \<and> (\<forall>st' lock_id. try_acquire st target owner = (st', Inr lock_id) \<longrightarrow>
              sl_active st' = sl_active st @
                [\<lparr>al_lock_id = lock_id, al_target = target, al_owner = owner\<rparr>])
         \<and> (\<forall>st' e. try_acquire st target owner = (st', Inl e) \<longrightarrow> st' = st)"
proof -
  have "\<forall>l\<in>set (sl_active st). target_ok (al_target l)"
    using lock_reachable_inv[OF assms] by (simp add: lock_manager_inv_def)
  then have "target_ok target \<Longrightarrow>
      (\<forall>l\<in>set (sl_active st). \<not> conflicts_with target (al_target l))
        = (\<forall>l\<in>set (sl_active st). footprint target \<inter> footprint (al_target l) = {})"
    by (simp add: conflicts_with_footprint)
  then show ?thesis by (auto simp: try_acquire_granted try_acquire_refused)
qed

theorem lock_granted_iff_free_witness:
  "(\<exists>st' lock_id. try_acquire two_locks (RangeTarget 7 9 12) OwnerServer = (st', Inr lock_id))
   \<longleftrightarrow> (\<forall>l\<in>set (sl_active two_locks). footprint (RangeTarget 7 9 12) \<inter> footprint (al_target l) = {})"
  using lock_granted_iff_free[OF two_locks_reachable, of "RangeTarget 7 9 12" OwnerServer] by simp

end
