(* ===== verification/Document_State.thy ===== *)
theory Document_State imports Clay_Rope Edit_Protocol Scoped_Locks "HOL-Library.Product_Lexorder" begin

text \<open>
  The server's document (\<open>server/document.rs\<close>): the canonical text with its version, the one
  editable lease, the region locks, the windows retained for incremental parsing, and the set
  of connections that opened the document. Every operation takes the state and returns it.

  The text is a \<open>crop\<close> rope: \<open>R\<close> holds the rope's operations (theory \<open>Clay_Rope\<close>).
  \<open>apply_operation\<close> is the only operation that can panic by itself (its two \<open>expect\<close> calls);
  a panic is \<open>None\<close>, and \<open>apply_edit\<close> is shown to always return. Metrics recording
  (\<open>global_recorder\<close>) has no effect on the result and is left out.
\<close>

section \<open>State\<close>

record editable_lease =
  el_client_id :: nat
  el_lease_id :: nat

record region_lock =
  rl_lock_id :: nat
  rl_start :: nat
  rl_end :: nat
  rl_owner :: lock_owner
  rl_created_at_version :: nat

datatype affected_range = AffectedInsert nat | AffectedSpan nat nat

record retained_parse_window =
  rw_version :: nat
  rw_window_id :: nat
  rw_byte_start :: nat
  rw_byte_end :: nat

record 'r document_state =
  ds_document_id :: nat
  ds_version :: nat
  ds_text :: 'r
  ds_active_lease :: "editable_lease option"
  ds_next_lease_id :: nat
  ds_last_transaction_id :: "nat option"
  ds_dirty :: bool
  ds_region_locks :: "region_lock list"
  ds_next_region_lock_id :: nat
  ds_retained_parse_windows :: "ustr \<times> ustr \<rightharpoonup> retained_parse_window"
  ds_access_holders :: "nat set"

text \<open>The server messages this file builds.\<close>

datatype document_message =
    InitialDocument nat nat ustr document_access "nat option" string
  | ResyncSnapshot nat nat ustr document_access "nat option"
  | UnknownDocumentError nat
  | EditRejected nat nat edit_rejection
  | EditAck nat nat nat

definition document_new :: "'r rope_ops \<Rightarrow> nat \<Rightarrow> ustr \<Rightarrow> 'r document_state" where
  "document_new R document_id txt =
     \<lparr>ds_document_id = document_id, ds_version = 1, ds_text = rope_from R txt,
      ds_active_lease = None, ds_next_lease_id = 1, ds_last_transaction_id = None,
      ds_dirty = False, ds_region_locks = [], ds_next_region_lock_id = 1,
      ds_retained_parse_windows = Map.empty, ds_access_holders = {}\<rparr>"

section \<open>Leases and access\<close>

definition acquire_access :: "'r document_state \<Rightarrow> nat \<Rightarrow> 'r document_state \<times> document_access" where
  "acquire_access d client_id =
     (let d = d\<lparr>ds_access_holders := insert client_id (ds_access_holders d)\<rparr> in
      case ds_active_lease d of
        Some lease \<Rightarrow>
          if el_client_id lease = client_id then (d, Editable (el_lease_id lease))
          else (d, ReadOnly)
      | None \<Rightarrow>
          let lease_id = ds_next_lease_id d in
          (d\<lparr>ds_next_lease_id := sat_add (ds_next_lease_id d) 1,
             ds_active_lease := Some \<lparr>el_client_id = client_id, el_lease_id = lease_id\<rparr>\<rparr>,
           Editable lease_id))"

definition release_access :: "'r document_state \<Rightarrow> nat \<Rightarrow> 'r document_state" where
  "release_access d client_id =
     (let d = d\<lparr>ds_access_holders := ds_access_holders d - {client_id}\<rparr> in
      case ds_active_lease d of
        Some lease \<Rightarrow> if el_client_id lease = client_id then d\<lparr>ds_active_lease := None\<rparr> else d
      | None \<Rightarrow> d)"

definition access_holder_count :: "'r document_state \<Rightarrow> nat" where
  "access_holder_count d = card (ds_access_holders d)"

definition has_access :: "'r document_state \<Rightarrow> nat \<Rightarrow> bool" where
  "has_access d client_id \<longleftrightarrow> client_id = 0 \<or> client_id \<in> ds_access_holders d"

definition access_for_client :: "'r document_state \<Rightarrow> nat \<Rightarrow> document_access" where
  "access_for_client d client_id =
     (case ds_active_lease d of
        Some lease \<Rightarrow>
          if el_client_id lease = client_id then Editable (el_lease_id lease) else ReadOnly
      | None \<Rightarrow> ReadOnly)"

definition validate_lease :: "'r document_state \<Rightarrow> nat \<Rightarrow> nat option \<Rightarrow> edit_rejection + unit" where
  "validate_lease d client_id lease_id =
     (case ds_active_lease d of
        None \<Rightarrow> Inl LeaseRequired
      | Some active \<Rightarrow>
          (case lease_id of
             None \<Rightarrow> Inl LeaseRequired
           | Some lease \<Rightarrow>
               if el_client_id active \<noteq> client_id \<or> el_lease_id active \<noteq> lease
               then Inl (LeaseExpired lease)
               else Inr ()))"

section \<open>Snapshots sent to clients\<close>

definition snapshot_parts ::
  "'r rope_ops \<Rightarrow> 'r document_state \<Rightarrow> document_access \<Rightarrow> nat \<times> nat \<times> ustr \<times> nat option" where
  "snapshot_parts R d access =
     (ds_document_id d, ds_version d, rope_string R (ds_text d), access_lease_id access)"

definition initial_document_message ::
  "'r rope_ops \<Rightarrow> 'r document_state \<Rightarrow> document_access \<Rightarrow> string \<Rightarrow> document_message" where
  "initial_document_message R d access workspace_root =
     (case snapshot_parts R d access of
        (document_id, version, txt, lease_id) \<Rightarrow>
          InitialDocument document_id version txt access lease_id workspace_root)"

definition resync_snapshot_message_for_client ::
  "'r rope_ops \<Rightarrow> 'r document_state \<Rightarrow> nat \<Rightarrow> nat \<Rightarrow> document_message" where
  "resync_snapshot_message_for_client R d document_id client_id =
     (if document_id \<noteq> ds_document_id d then UnknownDocumentError document_id
      else
        let access = access_for_client d client_id in
        case snapshot_parts R d access of
          (document_id, version, txt, lease_id) \<Rightarrow>
            ResyncSnapshot document_id version txt access lease_id)"

section \<open>Boundary checks\<close>

definition validate_boundary ::
  "'r rope_ops \<Rightarrow> 'r document_state \<Rightarrow> nat \<Rightarrow> document_error + nat" where
  "validate_boundary R d offset =
     (case try_usize offset of
        None \<Rightarrow> Inl EditOffsetTooLarge
      | Some offset \<Rightarrow>
          let text_len = rope_byte_len R (ds_text d) in
          if offset > text_len then Inl (EditOffsetPastLength offset text_len)
          else if \<not> rope_is_char_boundary R (ds_text d) offset
          then Inl (EditOffsetNotBoundary offset)
          else Inr offset)"

definition validate_range ::
  "'r rope_ops \<Rightarrow> 'r document_state \<Rightarrow> nat \<Rightarrow> nat \<Rightarrow> document_error + nat \<times> nat" where
  "validate_range R d s e =
     bind_result (validate_boundary R d s) (\<lambda>s.
     bind_result (validate_boundary R d e) (\<lambda>e.
       if s > e then Inl EditRangeReversed else Inr (s, e)))"

definition validate_lock_range ::
  "'r rope_ops \<Rightarrow> 'r document_state \<Rightarrow> nat \<Rightarrow> nat \<Rightarrow> document_error + unit" where
  "validate_lock_range R d s e =
     bind_result (validate_range R d s e) (\<lambda>_.
       if s = e then Inl RegionLockEmpty else Inr ())"

section \<open>Region locks\<close>

definition register_region_lock ::
  "'r rope_ops \<Rightarrow> 'r document_state \<Rightarrow> nat \<Rightarrow> nat \<Rightarrow> lock_owner
     \<Rightarrow> 'r document_state \<times> (document_error + nat)" where
  "register_region_lock R d s e owner =
     (case validate_lock_range R d s e of
        Inl err \<Rightarrow> (d, Inl err)
      | Inr _ \<Rightarrow>
          let lock_id = ds_next_region_lock_id d in
          (d\<lparr>ds_next_region_lock_id := sat_add (ds_next_region_lock_id d) 1,
             ds_region_locks := ds_region_locks d @
               [\<lparr>rl_lock_id = lock_id, rl_start = s, rl_end = e, rl_owner = owner,
                 rl_created_at_version = ds_version d\<rparr>]\<rparr>,
           Inr lock_id))"

fun lock_overlaps :: "region_lock \<Rightarrow> affected_range \<Rightarrow> bool" where
  "lock_overlaps l (AffectedInsert offset) \<longleftrightarrow> offset \<ge> rl_start l \<and> offset < rl_end l"
| "lock_overlaps l (AffectedSpan s e) \<longleftrightarrow> ranges_overlap s e (rl_start l) (rl_end l)"

definition lock_conflict :: "region_lock \<Rightarrow> region_lock_conflict" where
  "lock_conflict l =
     \<lparr>rc_lock_id = rl_lock_id l, rc_start = rl_start l, rc_end = rl_end l,
      rc_owner = rl_owner l, rc_created_at_version = rl_created_at_version l\<rparr>"

definition find_region_lock_conflict ::
  "'r document_state \<Rightarrow> affected_range \<Rightarrow> region_lock_conflict option" where
  "find_region_lock_conflict d affected =
     map_option lock_conflict (find (\<lambda>l. lock_overlaps l affected) (ds_region_locks d))"

fun operation_affected_range ::
  "'r rope_ops \<Rightarrow> 'r document_state \<Rightarrow> edit_operation \<Rightarrow> document_error + affected_range" where
  "operation_affected_range R d (Insert byte_offset txt) =
     bind_result (validate_boundary R d byte_offset) (\<lambda>_. Inr (AffectedInsert byte_offset))"
| "operation_affected_range R d (Delete s e) =
     bind_result (validate_range R d s e) (\<lambda>_. Inr (AffectedSpan s e))"
| "operation_affected_range R d (Replace s e txt) =
     (if s = e
      then bind_result (validate_boundary R d s) (\<lambda>_. Inr (AffectedInsert s))
      else bind_result (validate_range R d s e) (\<lambda>_. Inr (AffectedSpan s e)))"

section \<open>Edits\<close>

text \<open>\<open>rsplit_once('\n')\<close>: the text before and after the last LF.\<close>

fun rsplit_newline :: "ustr \<Rightarrow> (ustr \<times> ustr) option" where
  "rsplit_newline [] = None"
| "rsplit_newline (c # cs) =
     (case rsplit_newline cs of
        Some (before, trailing) \<Rightarrow> Some (c # before, trailing)
      | None \<Rightarrow> if c = newline then Some ([], cs) else None)"

text \<open>Rust lengths are below \<open>2 ^ 63\<close>, so the sums of \<open>point_after_text\<close> cannot overflow.\<close>

definition point_after_text :: "parse_point \<Rightarrow> ustr \<Rightarrow> parse_point" where
  "point_after_text p txt =
     (case rsplit_newline txt of
        Some (before, trailing) \<Rightarrow>
          \<lparr>pp_row = pp_row p + count_list before newline + 1, pp_column = byte_len trailing\<rparr>
      | None \<Rightarrow> \<lparr>pp_row = pp_row p, pp_column = pp_column p + byte_len txt\<rparr>)"

definition document_parse_point :: "'r rope_ops \<Rightarrow> 'r document_state \<Rightarrow> nat \<Rightarrow> parse_point" where
  "document_parse_point R d byte_offset =
     (let row = rope_line_of_byte R (ds_text d) byte_offset in
      \<lparr>pp_row = row, pp_column = byte_offset - rope_byte_of_line R (ds_text d) row\<rparr>)"

definition operation_parse_input_edit ::
  "'r rope_ops \<Rightarrow> 'r document_state \<Rightarrow> nat \<Rightarrow> edit_operation \<Rightarrow> document_error + parse_input_edit" where
  "operation_parse_input_edit R d base_version operation =
     (let (start_byte, old_end_byte, inserted_text) =
        (case operation of
           Insert byte_offset txt \<Rightarrow> (byte_offset, byte_offset, txt)
         | Delete s e \<Rightarrow> (s, e, [])
         | Replace s e txt \<Rightarrow> (s, e, txt)) in
      bind_result (validate_boundary R d start_byte) (\<lambda>s.
      bind_result (validate_boundary R d old_end_byte) (\<lambda>old_end.
      bind_result (ok_or (try_usize (byte_len inserted_text)) InsertedTextTooLong) (\<lambda>inserted_bytes.
      bind_result (ok_or (checked_add start_byte inserted_bytes) InsertedEndTooLarge) (\<lambda>new_end_byte.
      let start_position = document_parse_point R d s in
      bind_result (ok_or (checked_add base_version 1) DocumentVersionTooLarge) (\<lambda>document_version.
        Inr \<lparr>pe_base_document_version = base_version,
             pe_document_version = document_version,
             pe_start_byte = start_byte,
             pe_old_end_byte = old_end_byte,
             pe_new_end_byte = new_end_byte,
             pe_start_position = start_position,
             pe_old_end_position = document_parse_point R d old_end,
             pe_new_end_position = point_after_text start_position inserted_text\<rparr>))))))"

text \<open>\<open>None\<close> is the panic of an \<open>expect\<close> whose check failed.\<close>

fun apply_operation ::
  "'r rope_ops \<Rightarrow> 'r document_state \<Rightarrow> edit_operation \<Rightarrow> 'r document_state option" where
  "apply_operation R d (Insert byte_offset txt) =
     (case validate_boundary R d byte_offset of
        Inl _ \<Rightarrow> None
      | Inr offset \<Rightarrow> Some (d\<lparr>ds_text := rope_insert R (ds_text d) offset txt\<rparr>))"
| "apply_operation R d (Delete s e) =
     (case validate_range R d s e of
        Inl _ \<Rightarrow> None
      | Inr (s, e) \<Rightarrow> Some (d\<lparr>ds_text := rope_delete R (ds_text d) s e\<rparr>))"
| "apply_operation R d (Replace s e txt) =
     (case validate_range R d s e of
        Inl _ \<Rightarrow> None
      | Inr (s, e) \<Rightarrow> Some (d\<lparr>ds_text := rope_replace R (ds_text d) s e txt\<rparr>))"

definition reject :: "'r document_state \<Rightarrow> nat \<Rightarrow> nat \<Rightarrow> edit_rejection
    \<Rightarrow> ('r document_state \<times> document_message \<times> parse_input_edit option) option" where
  "reject d document_id transaction_id reason =
     Some (d, EditRejected document_id transaction_id reason, None)"

definition apply_edit_with_parse_input ::
  "'r rope_ops \<Rightarrow> 'r document_state \<Rightarrow> nat \<Rightarrow> nat \<Rightarrow> nat option \<Rightarrow> nat \<Rightarrow> nat \<Rightarrow> edit_operation
     \<Rightarrow> ('r document_state \<times> document_message \<times> parse_input_edit option) option" where
  "apply_edit_with_parse_input R d document_id client_id lease_id base_version transaction_id operation =
     (if document_id \<noteq> ds_document_id d
      then reject d document_id transaction_id (InvalidDocument document_id)
      else if base_version < ds_version d
      then reject d (ds_document_id d) transaction_id (StaleVersion base_version (ds_version d))
      else if base_version > ds_version d
      then reject d (ds_document_id d) transaction_id (FutureVersion base_version (ds_version d))
      else case validate_lease d client_id lease_id of
        Inl reason \<Rightarrow> reject d (ds_document_id d) transaction_id reason
      | Inr _ \<Rightarrow>
      (case operation_affected_range R d operation of
        Inl message \<Rightarrow> reject d (ds_document_id d) transaction_id (InvalidRange message)
      | Inr affected \<Rightarrow>
      (case find_region_lock_conflict d affected of
        Some conflict \<Rightarrow> reject d (ds_document_id d) transaction_id (RegionLocked conflict)
      | None \<Rightarrow>
      (case operation_parse_input_edit R d base_version operation of
        Inl message \<Rightarrow> reject d (ds_document_id d) transaction_id (InvalidRange message)
      | Inr parse_input \<Rightarrow>
      (case apply_operation R d operation of
        None \<Rightarrow> None
      | Some d \<Rightarrow>
          let d = d\<lparr>ds_version := wrap_add (ds_version d) 1,
                    ds_last_transaction_id := Some transaction_id,
                    ds_dirty := True\<rparr> in
          Some (d, EditAck (ds_document_id d) (ds_version d) transaction_id,
                Some parse_input))))))"

definition apply_edit ::
  "'r rope_ops \<Rightarrow> 'r document_state \<Rightarrow> nat \<Rightarrow> nat \<Rightarrow> nat option \<Rightarrow> nat \<Rightarrow> nat \<Rightarrow> edit_operation
     \<Rightarrow> ('r document_state \<times> document_message) option" where
  "apply_edit R d document_id client_id lease_id base_version transaction_id operation =
     map_option (\<lambda>(d, message, _). (d, message))
       (apply_edit_with_parse_input R d document_id client_id lease_id base_version
          transaction_id operation)"

definition mark_clean :: "'r document_state \<Rightarrow> 'r document_state" where
  "mark_clean d = d\<lparr>ds_dirty := False\<rparr>"

definition mark_clean_if_version :: "'r document_state \<Rightarrow> nat \<Rightarrow> 'r document_state \<times> bool" where
  "mark_clean_if_version d version =
     (if ds_version d = version then (d\<lparr>ds_dirty := False\<rparr>, True) else (d, False))"

definition replace_text_from_storage ::
  "'r rope_ops \<Rightarrow> 'r document_state \<Rightarrow> ustr \<Rightarrow> 'r document_state" where
  "replace_text_from_storage R d txt =
     (let d = (if rope_string R (ds_text d) \<noteq> txt
               then d\<lparr>ds_text := rope_from R txt, ds_version := sat_add (ds_version d) 1,
                      ds_retained_parse_windows := Map.empty\<rparr>
               else d) in
      d\<lparr>ds_dirty := False\<rparr>)"

section \<open>Points of a text\<close>

definition text_point :: "ustr \<Rightarrow> nat \<Rightarrow> parse_point" where
  "text_point t n =
     (let row = text_line_of_byte t n in
      \<lparr>pp_row = row, pp_column = n - text_byte_of_line t row\<rparr>)"

lemma text_point_prefix:
  assumes "u = [] \<or> last u = newline" and "newline \<notin> set v"
  shows "text_point (u @ v @ q) (byte_len u + byte_len v)
           = \<lparr>pp_row = count_list u newline, pp_column = byte_len v\<rparr>"
proof -
  have "text_line_of_byte (u @ v @ q) (byte_len u + byte_len v) = count_list u newline"
    using assms(2) by (simp add: text_line_of_byte_def)
  then show ?thesis
    using text_byte_of_line_start[OF assms(1)] by (simp add: text_point_def Let_def)
qed

lemma text_point_mono:
  assumes "a \<le> b"
  shows "point_le (text_point t a) (text_point t b)"
  using text_line_of_byte_mono[OF assms, of t] assms
  by (auto simp: point_le_def text_point_def Let_def)

lemma rsplit_newline_None: "rsplit_newline s = None \<longleftrightarrow> newline \<notin> set s"
  by (induction s) (auto split: option.splits)

lemma rsplit_newline_Some:
  "rsplit_newline s = Some (b, tr) \<Longrightarrow> s = b @ newline # tr \<and> newline \<notin> set tr"
  by (induction s arbitrary: b)
    (auto simp: rsplit_newline_None split: option.splits prod.splits if_splits)

text \<open>Advancing a point over inserted text is the point of the end of that text.\<close>

lemma point_after_text_prefix:
  "point_after_text (text_point (p @ q) (byte_len p)) s
     = text_point (p @ s @ r) (byte_len p + byte_len s)"
proof -
  obtain u v where p: "p = u @ v" and v: "newline \<notin> set v" and u: "u = [] \<or> last u = newline"
    using line_prefix_split[of p] .
  note start = text_point_prefix[OF u v]
  show ?thesis
  proof (cases "rsplit_newline s")
    case None
    then have "newline \<notin> set (v @ s)" using v by (simp add: rsplit_newline_None)
    from text_point_prefix[OF u this, of r] show ?thesis
      by (simp add: start point_after_text_def None p add.assoc)
  next
    case (Some bt)
    obtain b tr where bt: "bt = (b, tr)" by force
    have s: "s = b @ newline # tr" and tr: "newline \<notin> set tr"
      using rsplit_newline_Some[of s b tr] Some bt by auto
    have "p @ b @ [newline] = [] \<or> last (p @ b @ [newline]) = newline" by simp
    from text_point_prefix[OF this tr, of r] show ?thesis
      using v Some by (simp add: start point_after_text_def bt s p add.assoc)
  qed
qed

lemma point_after_text_Nil [simp]: "point_after_text p [] = p"
  by (cases p) (simp add: point_after_text_def)

lemma point_after_text_splice:
  assumes "is_boundary t a" "is_boundary t b" "a \<le> b"
  shows "point_after_text (text_point t a) s = text_point (text_splice t a b s) (a + byte_len s)"
proof -
  obtain p m q where "t = p @ m @ q" "a = byte_len p" "b = byte_len p + byte_len m"
    using boundary_split_range[OF assms] .
  then show ?thesis using point_after_text_prefix[of p "m @ q" s q] by simp
qed

section \<open>What the operations should do\<close>

text \<open>The text of a document, and the bound that Rust's allocation limit puts on it.\<close>

definition document_string :: "'r rope_ops \<Rightarrow> 'r document_state \<Rightarrow> ustr" where
  "document_string R d = rope_string R (ds_text d)"

definition document_fits :: "'r rope_ops \<Rightarrow> 'r document_state \<Rightarrow> bool" where
  "document_fits R d \<longleftrightarrow> byte_len (document_string R d) \<le> u64_max"

fun op_affected :: "edit_operation \<Rightarrow> affected_range" where
  "op_affected (Insert n s) = AffectedInsert n"
| "op_affected (Delete a b) = AffectedSpan a b"
| "op_affected (Replace a b s) = (if a = b then AffectedInsert a else AffectedSpan a b)"

text \<open>The edit reported to parsers: its points are the points of the two texts.\<close>

definition parse_edit_of :: "ustr \<Rightarrow> nat \<Rightarrow> edit_operation \<Rightarrow> parse_input_edit" where
  "parse_edit_of t version e =
     \<lparr>pe_base_document_version = version, pe_document_version = version + 1,
      pe_start_byte = op_start e, pe_old_end_byte = op_end e,
      pe_new_end_byte = op_start e + byte_len (op_text e),
      pe_start_position = text_point t (op_start e),
      pe_old_end_position = text_point t (op_end e),
      pe_new_end_position = text_point (edited_text t e) (op_start e + byte_len (op_text e))\<rparr>"

lemma parse_edit_of_valid:
  assumes "valid_op t e" and "version < u64_max"
  shows "edit_is_valid (parse_edit_of t version e)"
proof -
  note b = valid_opD[OF assms(1)]
  obtain p m q where t: "t = p @ m @ q" "op_start e = byte_len p" "edited_text t e = p @ op_text e @ q"
    using valid_op_split[OF assms(1)] .
  have "text_point (p @ m @ q) (byte_len p) = text_point (p @ op_text e @ q) (byte_len p)"
    using point_after_text_prefix[of p "m @ q" "[]" "op_text e @ q"] by simp
  then have "text_point t (op_start e) = text_point (edited_text t e) (op_start e)"
    using t by simp
  then have "point_le (text_point t (op_start e))
      (text_point (edited_text t e) (op_start e + byte_len (op_text e)))"
    by (simp add: text_point_mono)
  then show ?thesis
    using b assms(2) by (simp add: edit_is_valid_def parse_edit_of_def checked_add_def
        text_point_mono)
qed

text \<open>When the server accepts an edit.\<close>

definition edit_accepted ::
  "'r rope_ops \<Rightarrow> 'r document_state \<Rightarrow> nat \<Rightarrow> nat \<Rightarrow> nat option \<Rightarrow> nat \<Rightarrow> edit_operation \<Rightarrow> bool" where
  "edit_accepted R d document_id client_id lease_id base_version e \<longleftrightarrow>
     document_id = ds_document_id d \<and> base_version = ds_version d
     \<and> (\<exists>l. ds_active_lease d = Some l \<and> el_client_id l = client_id
            \<and> lease_id = Some (el_lease_id l))
     \<and> valid_op (document_string R d) e
     \<and> (\<forall>l\<in>set (ds_region_locks d). \<not> lock_overlaps l (op_affected e))
     \<and> op_start e + byte_len (op_text e) \<le> u64_max \<and> base_version < u64_max"

context crop_rope begin

lemma validate_boundary_iff:
  assumes "document_fits R d"
  shows "validate_boundary R d n = Inr m \<longleftrightarrow> m = n \<and> is_boundary (document_string R d) n"
proof -
  have "is_boundary (document_string R d) n \<Longrightarrow> n \<le> u64_max"
    using assms is_boundary_le[of "document_string R d" n]
    by (simp add: document_fits_def)
  then show ?thesis
    by (auto simp: validate_boundary_def try_usize_def document_string_def Let_def
        dest: is_boundary_le split: option.splits if_splits)
qed

lemma validate_boundary_ok:
  "document_fits R d \<Longrightarrow> is_boundary (document_string R d) n \<Longrightarrow> validate_boundary R d n = Inr n"
  by (simp add: validate_boundary_iff)

lemma validate_range_iff:
  assumes "document_fits R d"
  shows "validate_range R d a b = Inr (a', b')
           \<longleftrightarrow> a' = a \<and> b' = b \<and> valid_range (document_string R d) a b"
  by (auto simp: validate_range_def bind_result_Inr validate_boundary_iff[OF assms] valid_range_def
      split: if_splits)

lemma operation_affected_range_iff:
  assumes "document_fits R d"
  shows "operation_affected_range R d e = Inr r
           \<longleftrightarrow> valid_op (document_string R d) e \<and> r = op_affected e"
  by (cases e) (auto simp: bind_result_Inr validate_boundary_iff[OF assms]
      validate_range_iff[OF assms] valid_op_def valid_range_def)

lemma document_parse_point_eq:
  assumes "n \<le> byte_len (document_string R d)"
  shows "document_parse_point R d n = text_point (document_string R d) n"
  using assms text_line_of_byte_le_len[of "document_string R d" n]
  by (simp add: document_parse_point_def text_point_def document_string_def Let_def)

lemma operation_parse_input_edit_iff:
  assumes "document_fits R d" and "valid_op (document_string R d) e"
  shows "operation_parse_input_edit R d version e = Inr pe
           \<longleftrightarrow> byte_len (op_text e) \<le> u64_max \<and> op_start e + byte_len (op_text e) \<le> u64_max
             \<and> version < u64_max \<and> pe = parse_edit_of (document_string R d) version e"
proof -
  have split: "(case e of Insert byte_offset txt \<Rightarrow> (byte_offset, byte_offset, txt)
      | Delete s e \<Rightarrow> (s, e, []) | Replace s e txt \<Rightarrow> (s, e, txt)) = (op_start e, op_end e, op_text e)"
    by (cases e) simp_all
  have s: "is_boundary (document_string R d) (op_start e)"
    and n: "is_boundary (document_string R d) (op_end e)" and le: "op_start e \<le> op_end e"
    using valid_opD[OF assms(2)] by simp_all
  have pts: "document_parse_point R d (op_start e) = text_point (document_string R d) (op_start e)"
    "document_parse_point R d (op_end e) = text_point (document_string R d) (op_end e)"
    using s n by (simp_all add: document_parse_point_eq is_boundary_le)
  show ?thesis
    unfolding operation_parse_input_edit_def split Let_def prod.case
      validate_boundary_ok[OF assms(1) s] validate_boundary_ok[OF assms(1) n] bind_result_simps pts
    by (auto simp: bind_result_Inr ok_or_Inr try_usize_def checked_add_def parse_edit_of_def
        edited_text_def point_after_text_splice[OF s n le] split: if_splits)
qed

lemma apply_operation_valid:
  assumes "document_fits R d" and "valid_op (document_string R d) e"
  shows "\<exists>r. apply_operation R d e = Some (d\<lparr>ds_text := r\<rparr>)
           \<and> rope_string R r = edited_text (document_string R d) e"
proof (cases e)
  case (Insert n s)
  then show ?thesis
    using assms(2) by (auto simp: validate_boundary_ok[OF assms(1)] valid_op_def edited_text_def
        document_string_def)
next
  case (Delete a b)
  then have "validate_range R d a b = Inr (a, b)" "valid_range (document_string R d) a b"
    using assms(2) by (auto simp: validate_range_iff[OF assms(1)] valid_op_def valid_range_def)
  then show ?thesis using Delete by (auto simp: edited_text_def document_string_def)
next
  case (Replace a b s)
  then have "validate_range R d a b = Inr (a, b)" "valid_range (document_string R d) a b"
    using assms(2) by (auto simp: validate_range_iff[OF assms(1)] valid_op_def valid_range_def)
  then show ?thesis using Replace by (auto simp: edited_text_def document_string_def)
qed

lemma apply_edit_accepted:
  assumes "document_fits R d"
    and acc: "edit_accepted R d document_id client_id lease_id base_version e"
  obtains d' where
    "apply_edit_with_parse_input R d document_id client_id lease_id base_version transaction_id e
       = Some (d', EditAck (ds_document_id d) (ds_version d + 1) transaction_id,
               Some (parse_edit_of (document_string R d) (ds_version d) e))"
    "document_string R d' = edited_text (document_string R d) e"
    "d' = d\<lparr>ds_text := ds_text d', ds_version := ds_version d + 1,
            ds_last_transaction_id := Some transaction_id, ds_dirty := True\<rparr>"
proof -
  have valid: "valid_op (document_string R d) e"
    using acc by (simp add: edit_accepted_def)
  obtain r where r: "apply_operation R d e = Some (d\<lparr>ds_text := r\<rparr>)"
    "rope_string R r = edited_text (document_string R d) e"
    using apply_operation_valid[OF assms(1) valid] by blast
  have aff: "operation_affected_range R d e = Inr (op_affected e)"
    using valid by (simp add: operation_affected_range_iff[OF assms(1)])
  have free: "find_region_lock_conflict d (op_affected e) = None"
    using acc by (auto simp: edit_accepted_def find_region_lock_conflict_def find_None_iff)
  have pe: "operation_parse_input_edit R d (ds_version d) e
      = Inr (parse_edit_of (document_string R d) (ds_version d) e)"
    using acc by (auto simp: operation_parse_input_edit_iff[OF assms(1) valid] edit_accepted_def)
  have lease: "validate_lease d client_id lease_id = Inr ()"
    using acc by (auto simp: edit_accepted_def validate_lease_def)
  have "apply_edit_with_parse_input R d document_id client_id lease_id base_version transaction_id e
     = Some (d\<lparr>ds_text := r, ds_version := ds_version d + 1,
               ds_last_transaction_id := Some transaction_id, ds_dirty := True\<rparr>,
             EditAck (ds_document_id d) (ds_version d + 1) transaction_id,
             Some (parse_edit_of (document_string R d) (ds_version d) e))"
    using acc by (simp add: apply_edit_with_parse_input_def edit_accepted_def lease aff free pe r(1)
        wrap_add_exact)
  from that[OF this] show thesis using r(2) by (simp add: document_string_def)
qed

lemma apply_edit_rejected:
  assumes "document_fits R d"
    and "\<not> edit_accepted R d document_id client_id lease_id base_version e"
  obtains reported reason where
    "apply_edit_with_parse_input R d document_id client_id lease_id base_version transaction_id e
       = Some (d, EditRejected reported transaction_id reason, None)"
proof (cases "document_id = ds_document_id d \<and> base_version = ds_version d
    \<and> validate_lease d client_id lease_id = Inr ()")
  case False
  then have "\<exists>reported reason.
      apply_edit_with_parse_input R d document_id client_id lease_id base_version transaction_id e
        = Some (d, EditRejected reported transaction_id reason, None)"
    by (cases "validate_lease d client_id lease_id")
      (auto simp: apply_edit_with_parse_input_def reject_def)
  then show thesis using that by blast
next
  case True
  then have lease: "\<exists>l. ds_active_lease d = Some l \<and> el_client_id l = client_id
      \<and> lease_id = Some (el_lease_id l)"
    by (auto simp: validate_lease_def split: option.splits if_splits)
  show thesis
  proof (cases "operation_affected_range R d e")
    case (Inl message)
    then show thesis using True
      by (intro that) (simp add: apply_edit_with_parse_input_def reject_def)
  next
    case (Inr affected)
    then have valid: "valid_op (document_string R d) e" and aff: "affected = op_affected e"
      by (simp_all add: operation_affected_range_iff[OF assms(1)])
    show thesis
    proof (cases "find_region_lock_conflict d affected")
      case (Some c)
      then show thesis using True Inr
        by (intro that) (simp add: apply_edit_with_parse_input_def reject_def)
    next
      case None
      then have "\<forall>l\<in>set (ds_region_locks d). \<not> lock_overlaps l (op_affected e)"
        by (auto simp: find_region_lock_conflict_def find_None_iff aff)
      then have "\<not> (op_start e + byte_len (op_text e) \<le> u64_max \<and> base_version < u64_max)"
        using assms(2) True lease valid by (auto simp: edit_accepted_def)
      then obtain message where "operation_parse_input_edit R d base_version e = Inl message"
        using operation_parse_input_edit_iff[OF assms(1) valid, of base_version]
        by (cases "operation_parse_input_edit R d base_version e") auto
      then show thesis using True Inr None
        by (intro that) (simp add: apply_edit_with_parse_input_def reject_def)
    qed
  qed
qed

end

end
