(* ===== verification/Document_Windows.thy ===== *)
theory Document_Windows imports Document_State begin

text \<open>
  The parse windows of \<open>server/document.rs\<close>: the bounded pieces of the document that are
  handed to incremental parsers. \<open>parse_window_snapshot\<close> cuts one range out of the document,
  \<open>expand_parse_window\<close> widens a range by guard bytes up to the policy's limit,
  \<open>parse_window_snapshots\<close> does so for the viewport and every invalidated range within a memory
  budget, and \<open>parse_window_after_edit\<close> follows a retained window through an accepted edit.

  The boundary loops are recursions on the offset. The lemmas show that they stop at the
  nearest boundary, and that every window handed out lies on boundaries, holds exactly the
  document's text between its ends, and is no longer than the policy allows.
\<close>

definition syntax_cache_budget_bytes :: nat where
  "syntax_cache_budget_bytes = 30 * 1024 * 1024"

section \<open>Rounding to boundaries\<close>

fun floor_char_boundary_loop ::
  "'r rope_ops \<Rightarrow> 'r document_state \<Rightarrow> nat \<Rightarrow> document_error + nat" where
  "floor_char_boundary_loop R d 0 = Inr 0"
| "floor_char_boundary_loop R d (Suc offset) =
     (case try_usize (Suc offset) of
        None \<Rightarrow> Inl SnapshotOffsetTooLarge
      | Some candidate \<Rightarrow>
          if rope_is_char_boundary R (ds_text d) candidate then Inr (Suc offset)
          else floor_char_boundary_loop R d offset)"

definition floor_char_boundary ::
  "'r rope_ops \<Rightarrow> 'r document_state \<Rightarrow> nat \<Rightarrow> document_error + nat" where
  "floor_char_boundary R d offset =
     floor_char_boundary_loop R d (min offset (rope_byte_len R (ds_text d)))"

function ceil_char_boundary_loop ::
  "'r rope_ops \<Rightarrow> 'r document_state \<Rightarrow> nat \<Rightarrow> nat \<Rightarrow> document_error + nat" where
  "ceil_char_boundary_loop R d text_len offset =
     (if offset < text_len
      then (case try_usize offset of
              None \<Rightarrow> Inl SnapshotOffsetTooLarge
            | Some candidate \<Rightarrow>
                if rope_is_char_boundary R (ds_text d) candidate then Inr offset
                else ceil_char_boundary_loop R d text_len (offset + 1))
      else Inr text_len)"
  by pat_completeness auto
termination
  by (relation "measure (\<lambda>(R, d, text_len, offset). text_len - offset)") auto

declare ceil_char_boundary_loop.simps [simp del]

definition ceil_char_boundary ::
  "'r rope_ops \<Rightarrow> 'r document_state \<Rightarrow> nat \<Rightarrow> document_error + nat" where
  "ceil_char_boundary R d offset =
     (let text_len = rope_byte_len R (ds_text d) in
      ceil_char_boundary_loop R d text_len (min offset text_len))"

section \<open>Cutting windows\<close>

definition validate_parse_snapshot_range ::
  "'r rope_ops \<Rightarrow> 'r document_state \<Rightarrow> parse_byte_range \<Rightarrow> nat \<Rightarrow> document_error + unit" where
  "validate_parse_snapshot_range R d r max_window_bytes =
     (if max_window_bytes = 0 then Inl SnapshotWindowZero
      else bind_result (validate_range R d (pr_start r) (pr_end r)) (\<lambda>_.
        if range_len r > max_window_bytes
        then Inl (SnapshotRangeTooLong (range_len r) max_window_bytes)
        else Inr ()))"

definition document_parse_window_snapshot ::
  "'r rope_ops \<Rightarrow> 'r document_state \<Rightarrow> ustr \<Rightarrow> ustr \<Rightarrow> parse_byte_range \<Rightarrow> nat
     \<Rightarrow> document_error + parse_window_snapshot" where
  "document_parse_window_snapshot R d package_prefix mode_id r max_window_bytes =
     bind_result (validate_parse_snapshot_range R d r max_window_bytes) (\<lambda>_.
     bind_result (ok_or (try_usize (pr_start r)) SnapshotStartTooLarge) (\<lambda>s.
     bind_result (ok_or (try_usize (pr_end r)) SnapshotEndTooLarge) (\<lambda>e.
     let base = document_parse_point R d s in
     Inr \<lparr>pw_document_id = ds_document_id d, pw_document_version = ds_version d,
          pw_package_prefix = package_prefix, pw_mode_id = mode_id,
          pw_window_id = pr_start r, pw_byte_start = pr_start r, pw_byte_end = pr_end r,
          pw_base_line = pp_row base, pw_base_column = pp_column base,
          pw_incremental_edit = False,
          pw_text = rope_byte_slice R (ds_text d) s e\<rparr>)))"

definition expand_parse_window ::
  "'r rope_ops \<Rightarrow> 'r document_state \<Rightarrow> parse_byte_range \<Rightarrow> parse_policy
     \<Rightarrow> document_error + parse_byte_range" where
  "expand_parse_window R d r policy =
     bind_result (validate_parse_snapshot_range R d r (po_max_window_bytes policy)) (\<lambda>_.
     let original_len = range_len r;
         guard_budget = po_max_window_bytes policy - original_len;
         before = min (po_guard_bytes policy) (guard_budget div 2);
         after = min (po_guard_bytes policy) (guard_budget - before) in
     bind_result (floor_char_boundary R d (pr_start r - before)) (\<lambda>s.
     bind_result (ceil_char_boundary R d (sat_add (pr_end r) after)) (\<lambda>e.
     if e - s \<le> po_max_window_bytes policy then Inr \<lparr>pr_start = s, pr_end = e\<rparr>
     else
       bind_result (floor_char_boundary R d (sat_add s (po_max_window_bytes policy))) (\<lambda>capped_end.
       if capped_end < pr_end r then Inl SnapshotDoesNotFit
       else Inr \<lparr>pr_start = s, pr_end = capped_end\<rparr>))))"

text \<open>
  The order of \<open>sort_by\<close>: ranges that meet the viewport first, then by start and end. The sort
  is stable.
\<close>

definition sort_parse_ranges :: "parse_byte_range \<Rightarrow> parse_byte_range list \<Rightarrow> parse_byte_range list" where
  "sort_parse_ranges viewport ranges =
     sort_key (\<lambda>r. (\<not> range_intersects r viewport, pr_start r, pr_end r)) ranges"

fun parse_window_snapshots_loop ::
  "'r rope_ops \<Rightarrow> 'r document_state \<Rightarrow> ustr \<Rightarrow> ustr \<Rightarrow> parse_policy \<Rightarrow> nat
     \<Rightarrow> parse_byte_range list \<Rightarrow> document_error + parse_window_snapshot list" where
  "parse_window_snapshots_loop R d package_prefix mode_id policy retained_bytes [] = Inr []"
| "parse_window_snapshots_loop R d package_prefix mode_id policy retained_bytes (r # rs) =
     bind_result (expand_parse_window R d r policy) (\<lambda>window.
     let retained_bytes = sat_add retained_bytes (range_len window) in
     if retained_bytes > po_memory_budget_bytes policy then Inl ParseMemoryBudgetExceeded
     else
       bind_result (document_parse_window_snapshot R d package_prefix mode_id window
                      (po_max_window_bytes policy)) (\<lambda>snapshot.
       bind_result (parse_window_snapshots_loop R d package_prefix mode_id policy retained_bytes rs)
         (\<lambda>snapshots. Inr (snapshot # snapshots))))"

definition parse_window_snapshots ::
  "'r rope_ops \<Rightarrow> 'r document_state \<Rightarrow> ustr \<Rightarrow> ustr \<Rightarrow> parse_byte_range
     \<Rightarrow> parse_byte_range list \<Rightarrow> parse_policy \<Rightarrow> document_error + parse_window_snapshot list" where
  "parse_window_snapshots R d package_prefix mode_id viewport invalidated_ranges policy =
     (if po_max_window_bytes policy = 0 \<or> po_memory_budget_bytes policy = 0
         \<or> po_memory_budget_bytes policy > syntax_cache_budget_bytes
      then Inl ParsePolicyOutOfBounds
      else parse_window_snapshots_loop R d package_prefix mode_id policy 0
             (sort_parse_ranges viewport (viewport # invalidated_ranges)))"

section \<open>Windows retained across edits\<close>

definition shift_offset :: "nat \<Rightarrow> int \<Rightarrow> nat option" where
  "shift_offset offset delta =
     (let v = int offset + delta in
      if 0 \<le> v \<and> v \<le> int u64_max then Some (nat v) else None)"

definition transformed_window_end ::
  "'r rope_ops \<Rightarrow> 'r document_state \<Rightarrow> parse_policy \<Rightarrow> parse_input_edit
     \<Rightarrow> retained_parse_window \<Rightarrow> (retained_parse_window \<times> nat) option" where
  "transformed_window_end R d policy edit window =
     (if rw_version window \<noteq> pe_base_document_version edit
         \<or> pe_start_byte edit < rw_byte_start window
         \<or> pe_old_end_byte edit > rw_byte_end window
      then None
      else
        (case shift_offset (rw_byte_end window)
                (int (pe_new_end_byte edit) - int (pe_old_end_byte edit)) of
           None \<Rightarrow> None
         | Some e \<Rightarrow>
             if e \<le> rope_byte_len R (ds_text d)
                \<and> e - rw_byte_start window \<le> po_max_window_bytes policy
             then Some (window, e) else None))"

definition retain_window ::
  "'r document_state \<Rightarrow> ustr \<Rightarrow> ustr \<Rightarrow> nat \<Rightarrow> nat \<Rightarrow> nat \<Rightarrow> 'r document_state" where
  "retain_window d package_prefix mode_id window_id s e =
     d\<lparr>ds_retained_parse_windows := (ds_retained_parse_windows d)((package_prefix, mode_id) \<mapsto>
         \<lparr>rw_version = ds_version d, rw_window_id = window_id, rw_byte_start = s, rw_byte_end = e\<rparr>)\<rparr>"

text \<open>The window to cut after an edit: window id, start, end, and whether it continues an older one.\<close>

definition window_bounds_after_edit ::
  "'r rope_ops \<Rightarrow> 'r document_state \<Rightarrow> parse_policy \<Rightarrow> parse_input_edit
     \<Rightarrow> retained_parse_window option \<Rightarrow> document_error + nat \<times> nat \<times> nat \<times> bool" where
  "window_bounds_after_edit R d policy edit retained =
     (case Option.bind retained (transformed_window_end R d policy edit) of
        Some (window, e) \<Rightarrow> Inr (rw_window_id window, rw_byte_start window, e, True)
      | None \<Rightarrow>
          let nominal_bytes = max (po_max_window_bytes policy div 2) 1;
              identity_offset = min (pe_start_byte edit) (rope_byte_len R (ds_text d) - 1);
              anchor = identity_offset div nominal_bytes * nominal_bytes in
          bind_result (floor_char_boundary R d anchor) (\<lambda>s.
          bind_result (floor_char_boundary R d
                         (min (sat_add s nominal_bytes) (rope_byte_len R (ds_text d)))) (\<lambda>e.
          Inr (s, s, e, False))))"

definition parse_window_after_edit ::
  "'r rope_ops \<Rightarrow> 'r document_state \<Rightarrow> ustr \<Rightarrow> ustr \<Rightarrow> parse_policy \<Rightarrow> parse_input_edit
     \<Rightarrow> 'r document_state \<times> (document_error + parse_window_snapshot option)" where
  "parse_window_after_edit R d package_prefix mode_id policy edit =
     (let text_len = rope_byte_len R (ds_text d); key = (package_prefix, mode_id) in
      if text_len = 0
      then (d\<lparr>ds_retained_parse_windows := (ds_retained_parse_windows d)(key := None)\<rparr>, Inr None)
      else if \<not> edit_is_valid edit \<or> pe_document_version edit \<noteq> ds_version d
      then (d, Inl ParseEditInvalid)
      else if text_len \<le> po_max_window_bytes policy
      then
        (case document_parse_window_snapshot R d package_prefix mode_id
                \<lparr>pr_start = 0, pr_end = text_len\<rparr> (po_max_window_bytes policy) of
           Inl err \<Rightarrow> (d, Inl err)
         | Inr snapshot \<Rightarrow>
             (retain_window d package_prefix mode_id 0 0 text_len,
              Inr (Some (snapshot\<lparr>pw_incremental_edit := True\<rparr>))))
      else
        (case window_bounds_after_edit R d policy edit (ds_retained_parse_windows d key) of
           Inl err \<Rightarrow> (d, Inl err)
         | Inr (window_id, s, e, incremental_edit) \<Rightarrow>
             (case document_parse_window_snapshot R d package_prefix mode_id
                     \<lparr>pr_start = s, pr_end = e\<rparr> (po_max_window_bytes policy) of
                Inl err \<Rightarrow> (d, Inl err)
              | Inr snapshot \<Rightarrow>
                  (retain_window d package_prefix mode_id window_id s e,
                   Inr (Some (snapshot\<lparr>pw_window_id := window_id,
                                       pw_incremental_edit := incremental_edit\<rparr>))))))"

section \<open>Guarantees\<close>

text \<open>What a window handed to a parser guarantees.\<close>

definition window_ok ::
  "'r rope_ops \<Rightarrow> 'r document_state \<Rightarrow> nat \<Rightarrow> parse_window_snapshot \<Rightarrow> bool" where
  "window_ok R d max_window w \<longleftrightarrow>
     pw_document_id w = ds_document_id d \<and> pw_document_version w = ds_version d
     \<and> valid_range (document_string R d) (pw_byte_start w) (pw_byte_end w)
     \<and> pw_text w = text_slice (document_string R d) (pw_byte_start w) (pw_byte_end w)
     \<and> byte_len (pw_text w) = pw_byte_end w - pw_byte_start w
     \<and> byte_len (pw_text w) \<le> max_window
     \<and> window_base_point w = text_point (document_string R d) (pw_byte_start w)"

text \<open>
  The windows retained at the current version lie on boundaries; older ones are never newer
  than the document.
\<close>

definition retained_ok :: "'r rope_ops \<Rightarrow> 'r document_state \<Rightarrow> bool" where
  "retained_ok R d \<longleftrightarrow>
     (\<forall>k w. ds_retained_parse_windows d k = Some w \<longrightarrow>
        rw_version w \<le> ds_version d
        \<and> (rw_version w = ds_version d \<longrightarrow>
             valid_range (document_string R d) (rw_byte_start w) (rw_byte_end w)))"

section \<open>Rounding stops at the nearest boundary\<close>

context crop_rope begin

lemma floor_char_boundary_loop_eq:
  "n \<le> byte_len (document_string R d) \<Longrightarrow> n \<le> u64_max \<Longrightarrow>
   floor_char_boundary_loop R d n = Inr (floor_boundary (document_string R d) n)"
proof (induction n)
  case 0
  then show ?case by (simp add: floor_boundary_def)
next
  case (Suc n)
  show ?case
  proof (cases "is_boundary (document_string R d) (Suc n)")
    case True
    then show ?thesis using Suc.prems
      by (simp add: try_usize_def document_string_def)
  next
    case False
    then show ?thesis using Suc False floor_boundary_Suc
      by (simp add: try_usize_def document_string_def)
  qed
qed

lemma floor_char_boundary_eq:
  assumes "document_fits R d"
  shows "floor_char_boundary R d n = Inr (floor_boundary (document_string R d) n)"
  using assms floor_char_boundary_loop_eq[of "min n (byte_len (document_string R d))" d]
  by (auto simp: floor_char_boundary_def document_fits_def floor_boundary_def document_string_def)

lemma ceil_char_boundary_loop_spec:
  assumes "document_fits R d" and "n \<le> byte_len (document_string R d)"
  shows "\<exists>m. ceil_char_boundary_loop R d (byte_len (document_string R d)) n = Inr m
           \<and> is_boundary (document_string R d) m \<and> n \<le> m
           \<and> (\<forall>b. is_boundary (document_string R d) b \<longrightarrow> n \<le> b \<longrightarrow> m \<le> b)"
  using assms(2)
proof (induction "byte_len (document_string R d) - n" arbitrary: n)
  case 0
  then have n: "n = byte_len (document_string R d)" by simp
  show ?case by (simp add: n ceil_char_boundary_loop.simps)
next
  case (Suc k)
  then have n: "n < byte_len (document_string R d)" by simp
  show ?case
  proof (cases "is_boundary (document_string R d) n")
    case True
    then show ?thesis using n assms(1)
      by (subst ceil_char_boundary_loop.simps)
        (simp add: try_usize_def document_fits_def document_string_def)
  next
    case False
    have "k = byte_len (document_string R d) - (n + 1)" "n + 1 \<le> byte_len (document_string R d)"
      using Suc.hyps(2) n by simp_all
    then obtain m where m: "ceil_char_boundary_loop R d (byte_len (document_string R d)) (n + 1) = Inr m"
      "is_boundary (document_string R d) m" "n + 1 \<le> m"
      "\<forall>b. is_boundary (document_string R d) b \<longrightarrow> n + 1 \<le> b \<longrightarrow> m \<le> b"
      using Suc.hyps(1) by blast
    have "m \<le> b" if "is_boundary (document_string R d) b" "n \<le> b" for b
      using m(4) that False by (metis Suc_eq_plus1 Suc_leI le_neq_implies_less)
    then show ?thesis
      using m n False assms(1)
      by (subst ceil_char_boundary_loop.simps)
        (auto simp: try_usize_def document_fits_def document_string_def)
  qed
qed

lemma ceil_char_boundary_spec:
  assumes "document_fits R d"
  obtains m where "ceil_char_boundary R d n = Inr m" "is_boundary (document_string R d) m"
    "min n (byte_len (document_string R d)) \<le> m"
    "\<And>b. is_boundary (document_string R d) b \<Longrightarrow> min n (byte_len (document_string R d)) \<le> b \<Longrightarrow> m \<le> b"
  using ceil_char_boundary_loop_spec[OF assms, of "min n (byte_len (document_string R d))"]
  by (auto simp: ceil_char_boundary_def document_string_def Let_def)

lemma validate_parse_snapshot_range_iff:
  assumes "document_fits R d"
  shows "validate_parse_snapshot_range R d r max_window = Inr u
           \<longleftrightarrow> max_window \<noteq> 0 \<and> valid_range (document_string R d) (pr_start r) (pr_end r)
             \<and> range_len r \<le> max_window"
  using validate_range_iff[OF assms, of "pr_start r" "pr_end r"]
  by (auto simp: validate_parse_snapshot_range_def bind_result_Inr split: if_splits)

lemma document_parse_window_snapshot_ok:
  assumes "document_fits R d"
    and "document_parse_window_snapshot R d pp m r max_window = Inr w"
  shows "window_ok R d max_window w" "pw_byte_start w = pr_start r" "pw_byte_end w = pr_end r"
    "pw_window_id w = pr_start r"
proof -
  have v: "valid_range (document_string R d) (pr_start r) (pr_end r)" "range_len r \<le> max_window"
    and w: "w = \<lparr>pw_document_id = ds_document_id d, pw_document_version = ds_version d,
          pw_package_prefix = pp, pw_mode_id = m,
          pw_window_id = pr_start r, pw_byte_start = pr_start r, pw_byte_end = pr_end r,
          pw_base_line = pp_row (document_parse_point R d (pr_start r)),
          pw_base_column = pp_column (document_parse_point R d (pr_start r)),
          pw_incremental_edit = False,
          pw_text = rope_byte_slice R (ds_text d) (pr_start r) (pr_end r)\<rparr>"
    using assms(2) validate_parse_snapshot_range_iff[OF assms(1), of r max_window]
    by (auto simp: document_parse_window_snapshot_def bind_result_Inr ok_or_Inr try_usize_def Let_def
        split: if_splits)
  have "pr_start r \<le> byte_len (document_string R d)"
    using valid_rangeD(1)[OF v(1)] by (rule is_boundary_le)
  then show "window_ok R d max_window w" "pw_byte_start w = pr_start r" "pw_byte_end w = pr_end r"
    "pw_window_id w = pr_start r"
    using v by (simp_all add: w window_ok_def window_base_point_def document_parse_point_eq
        byte_len_text_slice valid_rangeD range_len_def document_string_def)
qed

lemma document_parse_window_snapshot_succeeds:
  assumes "document_fits R d" and "max_window \<noteq> 0"
    and v: "valid_range (document_string R d) (pr_start r) (pr_end r)" and "range_len r \<le> max_window"
  obtains w where "document_parse_window_snapshot R d pp m r max_window = Inr w"
proof -
  have "pr_end r \<le> u64_max" "pr_start r \<le> u64_max"
    using is_boundary_le[OF valid_rangeD(2)[OF v]] valid_rangeD(3)[OF v] assms(1)
    by (simp_all add: document_fits_def)
  moreover have "validate_parse_snapshot_range R d r max_window = Inr ()"
    using assms by (simp add: validate_parse_snapshot_range_iff)
  ultimately show thesis
    by (intro that) (simp add: document_parse_window_snapshot_def try_usize_def Let_def)
qed

lemma expand_parse_window_ok:
  assumes fits: "document_fits R d" and e: "expand_parse_window R d r policy = Inr w"
  shows "valid_range (document_string R d) (pr_start w) (pr_end w)"
    and "pr_start w \<le> pr_start r" and "pr_end r \<le> pr_end w"
    and "range_len w \<le> po_max_window_bytes policy"
proof -
  let ?t = "document_string R d" and ?max = "po_max_window_bytes policy"
  define before where "before = min (po_guard_bytes policy) ((?max - range_len r) div 2)"
  define after where "after = min (po_guard_bytes policy) (?max - range_len r - before)"
  define s where "s = floor_boundary ?t (pr_start r - before)"
  obtain m where m: "ceil_char_boundary R d (sat_add (pr_end r) after) = Inr m" "is_boundary ?t m"
    "min (sat_add (pr_end r) after) (byte_len ?t) \<le> m"
    using ceil_char_boundary_spec[OF fits] by blast
  have r: "valid_range ?t (pr_start r) (pr_end r)"
    using e validate_parse_snapshot_range_iff[OF fits]
    unfolding expand_parse_window_def bind_result_Inr by blast
  have "validate_parse_snapshot_range R d r ?max = Inr ()"
    using e by (auto simp: expand_parse_window_def bind_result_Inr)
  then have e': "(if m - s \<le> ?max then Inr \<lparr>pr_start = s, pr_end = m\<rparr>
      else if floor_boundary ?t (sat_add s ?max) < pr_end r then Inl SnapshotDoesNotFit
      else Inr \<lparr>pr_start = s, pr_end = floor_boundary ?t (sat_add s ?max)\<rparr>) = Inr w"
    using e m(1) unfolding expand_parse_window_def Let_def floor_char_boundary_eq[OF fits]
    by (simp only: bind_result_simps before_def[symmetric] after_def[symmetric] s_def[symmetric])
  have w: "w = (if m - s \<le> ?max then \<lparr>pr_start = s, pr_end = m\<rparr>
                 else \<lparr>pr_start = s, pr_end = floor_boundary ?t (sat_add s ?max)\<rparr>)"
    and cap: "\<not> m - s \<le> ?max \<Longrightarrow> pr_end r \<le> floor_boundary ?t (sat_add s ?max)"
    using e' by (simp_all split: if_splits)
  have "pr_end r \<le> byte_len ?t" "pr_start r \<le> pr_end r"
    using is_boundary_le[OF valid_rangeD(2)[OF r]] valid_rangeD(3)[OF r] by simp_all
  moreover have "pr_end r \<le> u64_max"
    using fits \<open>pr_end r \<le> byte_len ?t\<close> by (simp add: document_fits_def)
  ultimately have end_le: "pr_end r \<le> m" "pr_start r \<le> pr_end r"
    using m(3) sat_add_ge[of "pr_end r" after] by simp_all
  have s: "is_boundary ?t s" "s \<le> pr_start r"
    using floor_boundary_le[of ?t "pr_start r - before"] by (simp_all add: s_def)
  have "floor_boundary ?t (sat_add s ?max) \<le> s + ?max"
    using floor_boundary_le[of ?t "sat_add s ?max"] sat_add_le[of s ?max] by linarith
  then show "valid_range ?t (pr_start w) (pr_end w)" "pr_start w \<le> pr_start r"
    "pr_end r \<le> pr_end w" "range_len w \<le> ?max"
    using s m(2) end_le cap by (auto simp: w range_len_def valid_range_def)
qed

lemma transformed_window_end_ok:
  assumes valid: "valid_op t e" and d': "document_string R d' = edited_text t e"
    and w: "valid_range t (rw_byte_start w) (rw_byte_end w)"
    and r: "transformed_window_end R d' policy (parse_edit_of t v e) w = Some (w', x)"
  shows "w' = w" "valid_range (document_string R d') (rw_byte_start w) x"
    "x - rw_byte_start w \<le> po_max_window_bytes policy"
proof -
  note b = valid_opD[OF valid]
  let ?x = "op_start e + byte_len (op_text e) + (rw_byte_end w - op_end e)"
  have le: "rw_byte_start w \<le> op_start e" "op_end e \<le> rw_byte_end w" and w': "w' = w"
    and x: "shift_offset (rw_byte_end w) (int (op_start e + byte_len (op_text e)) - int (op_end e))
              = Some x"
    and max: "x - rw_byte_start w \<le> po_max_window_bytes policy"
    using r by (auto simp: transformed_window_end_def parse_edit_of_def split: if_splits option.splits)
  have "x = ?x" using x le by (auto simp: shift_offset_def Let_def split: if_splits)
  moreover have "is_boundary (document_string R d') (rw_byte_start w)"
    using text_splice_boundary_before[OF b valid_rangeD(1)[OF w] le(1)]
    by (simp add: d' edited_text_def)
  moreover have "is_boundary (document_string R d') ?x"
    using text_splice_boundary_after[OF b valid_rangeD(2)[OF w] le(2)]
    by (simp add: d' edited_text_def)
  ultimately show "w' = w" "valid_range (document_string R d') (rw_byte_start w) x"
    "x - rw_byte_start w \<le> po_max_window_bytes policy"
    using w' max le by (auto simp: valid_range_def)
qed

lemma window_bounds_fresh:
  assumes "document_fits R d" and "1 \<le> po_max_window_bytes policy"
    and "Option.bind retained (transformed_window_end R d policy edit) = None"
  obtains s e where "window_bounds_after_edit R d policy edit retained = Inr (s, s, e, False)"
    "valid_range (document_string R d) s e" "e - s \<le> po_max_window_bytes policy"
proof -
  let ?t = "document_string R d"
  define nominal where "nominal = max (po_max_window_bytes policy div 2) 1"
  define anchor where
    "anchor = min (pe_start_byte edit) (byte_len ?t - 1) div nominal * nominal"
  define s where "s = floor_boundary ?t anchor"
  define e where "e = floor_boundary ?t (min (sat_add s nominal) (byte_len ?t))"
  have s: "is_boundary ?t s" "s \<le> byte_len ?t" by (simp_all add: s_def floor_boundary_le_len)
  then have "s \<le> min (sat_add s nominal) (byte_len ?t)"
    using assms(1) sat_add_ge[of s nominal] by (simp add: document_fits_def)
  then have "s \<le> e" unfolding e_def by (rule floor_boundary_greatest[OF s(1)])
  moreover have "e \<le> s + nominal"
    using floor_boundary_le[of ?t "min (sat_add s nominal) (byte_len ?t)"] sat_add_le[of s nominal]
    by (simp add: e_def)
  moreover have "nominal \<le> po_max_window_bytes policy"
    using assms(2) by (auto simp: nominal_def)
  moreover have "window_bounds_after_edit R d policy edit retained = Inr (s, s, e, False)"
    using assms(3)
    by (simp add: window_bounds_after_edit_def Let_def floor_char_boundary_eq[OF assms(1)]
        nominal_def anchor_def s_def e_def document_string_def)
  ultimately show thesis using s(1) by (intro that[of s e]) (auto simp: valid_range_def e_def)
qed

lemma window_bounds_after_edit_ok:
  assumes fits: "document_fits R d'" and "1 \<le> po_max_window_bytes policy"
    and valid: "valid_op t e" and d': "document_string R d' = edited_text t e"
    and w: "\<And>w. retained = Some w \<Longrightarrow> rw_version w = v
              \<Longrightarrow> valid_range t (rw_byte_start w) (rw_byte_end w)"
  obtains i s x inc where
    "window_bounds_after_edit R d' policy (parse_edit_of t v e) retained = Inr (i, s, x, inc)"
    "valid_range (document_string R d') s x" "x - s \<le> po_max_window_bytes policy"
proof (cases "Option.bind retained (transformed_window_end R d' policy (parse_edit_of t v e))")
  case None
  then show thesis
    using window_bounds_fresh[OF fits assms(2)] that by metis
next
  case (Some wx)
  obtain w' x where wx: "wx = (w', x)" by force
  obtain w0 where w0: "retained = Some w0"
    "transformed_window_end R d' policy (parse_edit_of t v e) w0 = Some (w', x)"
    using Some wx by (auto simp: bind_eq_Some_conv)
  have "rw_version w0 = v"
    using w0(2) by (auto simp: transformed_window_end_def parse_edit_of_def split: if_splits)
  note ok = transformed_window_end_ok[OF valid d' w[OF w0(1) this] w0(2)]
  have "window_bounds_after_edit R d' policy (parse_edit_of t v e) retained
      = Inr (rw_window_id w0, rw_byte_start w0, x, True)"
    using Some by (simp add: window_bounds_after_edit_def wx ok(1))
  then show thesis using ok by (intro that)
qed

lemma retain_window_ok:
  assumes "retained_ok R d" and "valid_range (document_string R d) s x"
  shows "retained_ok R (retain_window d pp m i s x)"
  using assms by (auto simp: retained_ok_def retain_window_def document_string_def)

lemma document_string_retain [simp]:
  "document_string R (retain_window d pp m i s x) = document_string R d"
  by (simp add: document_string_def retain_window_def)

lemma window_ok_retain [simp]:
  "window_ok R (retain_window d pp m i s x) n w = window_ok R d n w"
  by (simp add: window_ok_def) (simp add: retain_window_def)

lemma window_ok_updates [simp]:
  "window_ok R d n (w\<lparr>pw_incremental_edit := b\<rparr>) = window_ok R d n w"
  "window_ok R d n (w\<lparr>pw_window_id := i\<rparr>) = window_ok R d n w"
  by (simp_all add: window_ok_def window_base_point_def)

text \<open>After an accepted edit, a window always exists unless the document became empty.\<close>

lemma parse_window_after_edit_ok:
  assumes fits: "document_fits R d'" and max: "1 \<le> po_max_window_bytes policy"
    and valid: "valid_op t e" and d': "document_string R d' = edited_text t e"
    and v: "v < u64_max" "ds_version d' = v + 1"
    and old: "\<And>w. ds_retained_parse_windows d' (pp, m) = Some w \<Longrightarrow> rw_version w = v
                \<Longrightarrow> valid_range t (rw_byte_start w) (rw_byte_end w)"
    and ret: "retained_ok R d'"
  obtains d'' r where
    "parse_window_after_edit R d' pp m policy (parse_edit_of t v e) = (d'', Inr r)"
    "retained_ok R d''" "r = None \<longleftrightarrow> document_string R d' = []"
    "\<And>w. r = Some w \<Longrightarrow> window_ok R d'' (po_max_window_bytes policy) w"
proof (cases "document_string R d' = []")
  case True
  have "retained_ok R (d'\<lparr>ds_retained_parse_windows := (ds_retained_parse_windows d')((pp, m) := None)\<rparr>)"
    using ret by (auto simp: retained_ok_def document_string_def)
  then show thesis
    using True by (intro that[of _ None]) (auto simp: parse_window_after_edit_def document_string_def)
next
  case False
  let ?t = "document_string R d'" and ?edit = "parse_edit_of t v e"
  have pre: "edit_is_valid ?edit" "pe_document_version ?edit = ds_version d'"
    using parse_edit_of_valid[OF valid v(1)] v(2) by (simp_all add: parse_edit_of_def)
  have ne: "byte_len ?t \<noteq> 0" using False by simp
  show thesis
  proof (cases "byte_len ?t \<le> po_max_window_bytes policy")
    case True
    have full: "valid_range ?t 0 (byte_len ?t)" by (simp add: valid_range_def)
    then obtain w where w: "document_parse_window_snapshot R d' pp m
        \<lparr>pr_start = 0, pr_end = byte_len ?t\<rparr> (po_max_window_bytes policy) = Inr w"
      using document_parse_window_snapshot_succeeds[OF fits, of "po_max_window_bytes policy"
          "\<lparr>pr_start = 0, pr_end = byte_len ?t\<rparr>" pp m] max True
      by (auto simp: range_len_def)
    have "parse_window_after_edit R d' pp m policy ?edit
        = (retain_window d' pp m 0 0 (byte_len ?t), Inr (Some (w\<lparr>pw_incremental_edit := True\<rparr>)))"
      using pre ne w True
      by (simp add: parse_window_after_edit_def document_string_def Let_def)
    then show thesis
      using document_parse_window_snapshot_ok(1)[OF fits w] retain_window_ok[OF ret full] False
      by (intro that) auto
  next
    case big: False
    obtain i s x inc where b: "window_bounds_after_edit R d' policy ?edit
          (ds_retained_parse_windows d' (pp, m)) = Inr (i, s, x, inc)"
      "valid_range ?t s x" "x - s \<le> po_max_window_bytes policy"
      using window_bounds_after_edit_ok[OF fits max valid d' old] .
    then obtain w where w: "document_parse_window_snapshot R d' pp m
        \<lparr>pr_start = s, pr_end = x\<rparr> (po_max_window_bytes policy) = Inr w"
      using document_parse_window_snapshot_succeeds[OF fits, of "po_max_window_bytes policy"
          "\<lparr>pr_start = s, pr_end = x\<rparr>" pp m] max
      by (auto simp: range_len_def)
    have "parse_window_after_edit R d' pp m policy ?edit
        = (retain_window d' pp m i s x,
           Inr (Some (w\<lparr>pw_window_id := i, pw_incremental_edit := inc\<rparr>)))"
      using pre ne w big b(1)
      by (simp add: parse_window_after_edit_def document_string_def Let_def)
    then show thesis
      using document_parse_window_snapshot_ok(1)[OF fits w] retain_window_ok[OF ret b(2)] False
      by (intro that) auto
  qed
qed

lemma parse_window_snapshots_loop_ok:
  assumes fits: "document_fits R d" and budget: "po_memory_budget_bytes policy < u64_max"
    and run: "parse_window_snapshots_loop R d pp m policy retained rs = Inr ws"
    and start: "retained \<le> po_memory_budget_bytes policy"
  shows "list_all2 (\<lambda>r w. window_ok R d (po_max_window_bytes policy) w
            \<and> pw_byte_start w \<le> pr_start r \<and> pr_end r \<le> pw_byte_end w) rs ws
         \<and> retained + sum_list (map (\<lambda>w. byte_len (pw_text w)) ws) \<le> po_memory_budget_bytes policy"
  using run start
proof (induction rs arbitrary: retained ws)
  case (Cons r rs)
  obtain win w ws' where win: "expand_parse_window R d r policy = Inr win"
    and le: "sat_add retained (range_len win) \<le> po_memory_budget_bytes policy"
    and w: "document_parse_window_snapshot R d pp m win (po_max_window_bytes policy) = Inr w"
    and rest: "parse_window_snapshots_loop R d pp m policy (sat_add retained (range_len win)) rs = Inr ws'"
    and ws: "ws = w # ws'"
    using Cons.prems(1) by (auto simp: bind_result_Inr Let_def split: if_splits)
  note ok = document_parse_window_snapshot_ok[OF fits w] and ex = expand_parse_window_ok[OF fits win]
  have "sat_add retained (range_len win) = retained + range_len win"
    using le budget by (auto simp: sat_add_def)
  moreover have "byte_len (pw_text w) = range_len win"
  proof -
    have "byte_len (pw_text w) = pw_byte_end w - pw_byte_start w"
      using ok(1) unfolding window_ok_def by blast
    then show ?thesis using ok(2,3) by (simp add: range_len_def)
  qed
  ultimately show ?case
    using Cons.IH[OF rest le] ok ex by (auto simp: ws)
qed simp

end

end
