(* ===== verification/Document_Runs.thy ===== *)
theory Document_Runs imports Document_Windows begin

text \<open>
  The life of a server document: the requests that change it, handled one after another, as the
  server's lock around \<open>DocumentState\<close> makes them. \<open>document_step\<close> is one request,
  \<open>document_run\<close> a sequence of them that records the edits the server acknowledged. The lemmas
  show that the text is exactly the acknowledged edits replayed on the opened text, that the
  version counts them, and that the lease, the region locks and the retained windows keep the
  invariant \<open>document_inv\<close>.
\<close>

section \<open>Requests\<close>

datatype document_request =
    AcquireAccess nat
  | ReleaseAccess nat
  | ApplyEdit nat nat "nat option" nat nat edit_operation
  | RegisterRegionLock nat nat lock_owner
  | MarkClean
  | MarkCleanIfVersion nat
  | WindowAfterEdit ustr ustr parse_policy parse_input_edit
  | ReplaceTextFromStorage ustr

text \<open>
  One request: the new document and the edit it applied, if any; \<open>None\<close> is a panic. A reload
  from storage that changes the text counts as the edit that replaces all of it.
\<close>

fun document_step ::
  "'r rope_ops \<Rightarrow> 'r document_state \<Rightarrow> document_request
     \<Rightarrow> ('r document_state \<times> edit_operation option) option" where
  "document_step R d (AcquireAccess client) = Some (fst (acquire_access d client), None)"
| "document_step R d (ReleaseAccess client) = Some (release_access d client, None)"
| "document_step R d (ApplyEdit document_id client lease_id base transaction_id e) =
     (case apply_edit R d document_id client lease_id base transaction_id e of
        None \<Rightarrow> None
      | Some (d', EditAck _ _ _) \<Rightarrow> Some (d', Some e)
      | Some (d', _) \<Rightarrow> Some (d', None))"
| "document_step R d (RegisterRegionLock s e owner) =
     Some (fst (register_region_lock R d s e owner), None)"
| "document_step R d MarkClean = Some (mark_clean d, None)"
| "document_step R d (MarkCleanIfVersion version) =
     Some (fst (mark_clean_if_version d version), None)"
| "document_step R d (WindowAfterEdit package_prefix mode_id policy edit) =
     Some (fst (parse_window_after_edit R d package_prefix mode_id policy edit), None)"
| "document_step R d (ReplaceTextFromStorage txt) =
     Some (replace_text_from_storage R d txt,
           if document_string R d = txt then None
           else Some (Replace 0 (byte_len (document_string R d)) txt))"

fun document_run ::
  "'r rope_ops \<Rightarrow> 'r document_state \<Rightarrow> document_request list
     \<Rightarrow> ('r document_state \<times> edit_operation list) option" where
  "document_run R d [] = Some (d, [])"
| "document_run R d (q # qs) =
     (case document_step R d q of
        None \<Rightarrow> None
      | Some (d', e) \<Rightarrow>
          (case document_run R d' qs of
             None \<Rightarrow> None
           | Some (d'', es) \<Rightarrow> Some (d'', (case e of None \<Rightarrow> es | Some e \<Rightarrow> e # es))))"

text \<open>The bytes a request may insert, to bound the text of a whole run.\<close>

fun request_bytes :: "document_request \<Rightarrow> nat" where
  "request_bytes (ApplyEdit _ _ _ _ _ e) = byte_len (op_text e)"
| "request_bytes (ReplaceTextFromStorage txt) = byte_len txt"
| "request_bytes _ = 0"

section \<open>Invariant\<close>

text \<open>
  The lease belongs to a connection that opened the document and carries an id already handed
  out; region locks are not empty and not from a future version; retained windows lie on
  boundaries.
\<close>

definition document_inv :: "'r rope_ops \<Rightarrow> 'r document_state \<Rightarrow> bool" where
  "document_inv R d \<longleftrightarrow>
     (\<forall>l. ds_active_lease d = Some l \<longrightarrow>
        el_client_id l \<in> ds_access_holders d
        \<and> (ds_next_lease_id d < u64_max \<longrightarrow> el_lease_id l < ds_next_lease_id d))
     \<and> ds_next_lease_id d \<le> u64_max
     \<and> (\<forall>l\<in>set (ds_region_locks d). rl_start l < rl_end l \<and> rl_created_at_version l \<le> ds_version d)
     \<and> retained_ok R d"

lemma document_inv_new: "document_inv R (document_new R document_id txt)"
  by (simp add: document_inv_def document_new_def retained_ok_def u64_max_def)

lemma retained_ok_cong:
  assumes "ds_retained_parse_windows d' = ds_retained_parse_windows d"
    and "ds_version d' = ds_version d" and "ds_text d' = ds_text d"
  shows "retained_ok R d' = retained_ok R d"
  using assms by (simp add: retained_ok_def document_string_def)

lemma acquire_access_frame:
  "document_string R (fst (acquire_access d c)) = document_string R d"
  "ds_version (fst (acquire_access d c)) = ds_version d"
  "ds_document_id (fst (acquire_access d c)) = ds_document_id d"
  by (auto simp: acquire_access_def document_string_def Let_def split: option.splits)

lemma release_access_frame:
  "document_string R (release_access d c) = document_string R d"
  "ds_version (release_access d c) = ds_version d"
  "ds_document_id (release_access d c) = ds_document_id d"
  by (auto simp: release_access_def document_string_def Let_def split: option.splits)

lemma parse_window_after_edit_frame:
  assumes "parse_window_after_edit R d pp m policy edit = (d', r)"
  shows "d' = d\<lparr>ds_retained_parse_windows := ds_retained_parse_windows d'\<rparr>"
  using assms
  by (auto simp: parse_window_after_edit_def retain_window_def Let_def
      split: if_splits sum.splits prod.splits)

lemma acquire_access_inv:
  assumes "document_inv R d" shows "document_inv R (fst (acquire_access d c))"
proof -
  have "retained_ok R (fst (acquire_access d c)) = retained_ok R d"
    by (rule retained_ok_cong) (auto simp: acquire_access_def Let_def split: option.splits)
  then show ?thesis
    using assms
    by (auto simp: document_inv_def acquire_access_def Let_def sat_add_def split: option.splits)
qed

lemma release_access_inv:
  assumes "document_inv R d" shows "document_inv R (release_access d c)"
proof -
  have "retained_ok R (release_access d c) = retained_ok R d"
    by (rule retained_ok_cong) (auto simp: release_access_def Let_def split: option.splits)
  then show ?thesis
    using assms by (auto simp: document_inv_def release_access_def Let_def split: option.splits)
qed

context crop_rope begin

lemma register_region_lock_inv:
  assumes "document_fits R d" "document_inv R d"
  shows "document_inv R (fst (register_region_lock R d s e owner))"
proof (cases "validate_lock_range R d s e")
  case (Inl err)
  then show ?thesis using assms(2) by (simp add: register_region_lock_def)
next
  case (Inr u)
  then have "s < e"
    by (auto simp: validate_lock_range_def bind_result_Inr validate_range_iff[OF assms(1)]
        valid_range_def split: if_splits)
  moreover have "retained_ok R (fst (register_region_lock R d s e owner)) = retained_ok R d"
    by (rule retained_ok_cong) (simp_all add: register_region_lock_def Inr Let_def)
  ultimately show ?thesis
    using assms(2) by (auto simp: document_inv_def register_region_lock_def Inr Let_def)
qed

lemma document_parse_window_snapshot_range:
  assumes "document_fits R d" "document_parse_window_snapshot R d pp m r n = Inr w"
  shows "valid_range (rope_string R (ds_text d)) (pr_start r) (pr_end r)"
  using document_parse_window_snapshot_ok[OF assms] by (simp add: window_ok_def document_string_def)

lemma document_inv_retained:
  assumes "document_inv R d" "d' = d\<lparr>ds_retained_parse_windows := w\<rparr>" "retained_ok R d'"
  shows "document_inv R d'"
  using assms by (simp add: document_inv_def)

lemma parse_window_after_edit_inv:
  assumes fits: "document_fits R d" and inv: "document_inv R d"
    and run: "parse_window_after_edit R d pp m policy edit = (d', r)"
  shows "document_inv R d'"
proof -
  note ret = document_parse_window_snapshot_range[OF fits]
  have "retained_ok R d"  using inv by (simp add: document_inv_def)
  then have "retained_ok R d'"
    using run
    by (auto simp: parse_window_after_edit_def Let_def retained_ok_def document_string_def
        retain_window_def dest!: ret split: if_splits sum.splits prod.splits)
  then show ?thesis
    using document_inv_retained[OF inv parse_window_after_edit_frame[OF run]] by blast
qed

lemma apply_edit_cases:
  assumes "document_fits R d"
  obtains (accepted) d' where
    "apply_edit R d document_id client_id lease_id base_version transaction_id e
       = Some (d', EditAck (ds_document_id d) (ds_version d + 1) transaction_id)"
    "edit_accepted R d document_id client_id lease_id base_version e"
    "document_string R d' = edited_text (document_string R d) e"
    "d' = d\<lparr>ds_text := ds_text d', ds_version := ds_version d + 1,
            ds_last_transaction_id := Some transaction_id, ds_dirty := True\<rparr>"
  | (rejected) reported reason where
    "apply_edit R d document_id client_id lease_id base_version transaction_id e
       = Some (d, EditRejected reported transaction_id reason)"
    "\<not> edit_accepted R d document_id client_id lease_id base_version e"
proof (cases "edit_accepted R d document_id client_id lease_id base_version e")
  case True
  obtain d' where d': "apply_edit_with_parse_input R d document_id client_id lease_id base_version
        transaction_id e
       = Some (d', EditAck (ds_document_id d) (ds_version d + 1) transaction_id,
               Some (parse_edit_of (document_string R d) (ds_version d) e))"
    "document_string R d' = edited_text (document_string R d) e"
    "d' = d\<lparr>ds_text := ds_text d', ds_version := ds_version d + 1,
            ds_last_transaction_id := Some transaction_id, ds_dirty := True\<rparr>"
    using apply_edit_accepted[OF assms True] .
  show thesis
    by (rule accepted[OF _ True d'(2,3)]) (simp add: apply_edit_def d'(1))
next
  case False
  obtain reported reason where r: "apply_edit_with_parse_input R d document_id client_id lease_id
      base_version transaction_id e = Some (d, EditRejected reported transaction_id reason, None)"
    using apply_edit_rejected[OF assms False] .
  show thesis
    by (rule rejected[OF _ False]) (simp add: apply_edit_def r)
qed

lemma edited_inv:
  assumes "document_inv R d"
    and "d' = d\<lparr>ds_text := x, ds_version := ds_version d + 1,
            ds_last_transaction_id := t, ds_dirty := b\<rparr>"
  shows "document_inv R d'"
  using assms by (fastforce simp: document_inv_def retained_ok_def document_string_def)

lemma replace_text_inv:
  assumes "document_inv R d" "ds_version d < u64_max"
  shows "document_inv R (replace_text_from_storage R d txt)"
  using assms
  by (fastforce simp: document_inv_def retained_ok_def replace_text_from_storage_def Let_def
      document_string_def sat_add_def)

text \<open>What one request does: the effect on the text, the version and the invariant.\<close>

lemma document_step_effect:
  assumes fits: "document_fits R d" and inv: "document_inv R d" and v: "ds_version d < u64_max"
  obtains d' where "document_step R d q = Some (d', None)"
      "document_string R d' = document_string R d" "ds_version d' = ds_version d"
      "document_inv R d'" "ds_document_id d' = ds_document_id d"
  | d' e where "document_step R d q = Some (d', Some e)" "valid_op (document_string R d) e"
      "document_string R d' = edited_text (document_string R d) e"
      "byte_len (op_text e) = request_bytes q"
      "ds_version d' = ds_version d + 1" "document_inv R d'" "ds_document_id d' = ds_document_id d"
proof (cases q)
  case (ApplyEdit document_id client_id lease_id base_version transaction_id e)
  from fits show thesis
  proof (cases rule: apply_edit_cases[of d document_id client_id lease_id base_version transaction_id e])
    case (accepted d')
    have "document_inv R d'" by (rule edited_inv[OF inv accepted(4)])
    moreover have "ds_version d' = ds_version d + 1" "ds_document_id d' = ds_document_id d"
      using arg_cong[OF accepted(4), of ds_version] arg_cong[OF accepted(4), of ds_document_id]
      by simp_all
    ultimately show thesis
      using accepted by (intro that(2)[of d' e]) (simp_all add: ApplyEdit edit_accepted_def)
  next
    case rejected
    then show thesis using inv by (intro that(1)[of d]) (simp_all add: ApplyEdit)
  qed
next
  case (ReplaceTextFromStorage body)
  let ?d = "replace_text_from_storage R d body" and ?t = "document_string R d"
  have inv': "document_inv R ?d" by (rule replace_text_inv[OF inv v])
  have str: "document_string R ?d = body"
    by (auto simp: replace_text_from_storage_def document_string_def Let_def)
  show thesis
  proof (cases "?t = body")
    case True
    then show thesis using inv' str
      by (intro that(1)[of ?d])
        (simp_all add: ReplaceTextFromStorage replace_text_from_storage_def document_string_def Let_def)
  next
    case False
    have "edited_text ?t (Replace 0 (byte_len ?t) body) = body"
      using text_splice_parts[of "[]" ?t "[]" body] by (simp add: edited_text_def)
    then show thesis using False inv' str v
      by (intro that(2)[of ?d "Replace 0 (byte_len ?t) body"])
        (auto simp: ReplaceTextFromStorage valid_op_def, auto simp: replace_text_from_storage_def
          document_string_def Let_def sat_add_def)
  qed
next
  case (AcquireAccess c)
  then show thesis using acquire_access_frame acquire_access_inv[OF inv]
    by (intro that(1)[of "fst (acquire_access d c)"]) simp_all
next
  case (ReleaseAccess c)
  then show thesis using release_access_frame release_access_inv[OF inv]
    by (intro that(1)[of "release_access d c"]) simp_all
next
  case (RegisterRegionLock s e owner)
  then show thesis using register_region_lock_inv[OF fits inv]
    by (intro that(1)[of "fst (register_region_lock R d s e owner)"])
      (auto simp: register_region_lock_def document_string_def Let_def split: sum.splits)
next
  case MarkClean
  then show thesis using inv
    by (intro that(1)[of "mark_clean d"])
      (auto simp: mark_clean_def document_string_def document_inv_def retained_ok_def)
next
  case (MarkCleanIfVersion v)
  then show thesis using inv
    by (intro that(1)[of "fst (mark_clean_if_version d v)"])
      (auto simp: mark_clean_if_version_def document_string_def document_inv_def retained_ok_def)
next
  case (WindowAfterEdit pp m policy edit)
  obtain d' r where run: "parse_window_after_edit R d pp m policy edit = (d', r)" by force
  have "document_string R d' = document_string R d" "ds_version d' = ds_version d"
    "ds_document_id d' = ds_document_id d"
    by ((subst parse_window_after_edit_frame[OF run]), simp add: document_string_def)+
  then show thesis using parse_window_after_edit_inv[OF fits inv run]
    by (intro that(1)[of d']) (simp_all add: WindowAfterEdit run)
qed

text \<open>A whole run, while its texts and versions stay in range.\<close>

lemma document_run_replays:
  assumes "document_inv R d"
    and "byte_len (document_string R d) + sum_list (map request_bytes qs) \<le> u64_max"
    and "ds_version d + length qs \<le> u64_max"
  shows "\<exists>d' es. document_run R d qs = Some (d', es)
     \<and> document_string R d' = foldl edited_text (document_string R d) es
     \<and> ds_version d' = ds_version d + length es
     \<and> ds_document_id d' = ds_document_id d \<and> document_inv R d'"
  using assms
proof (induction qs arbitrary: d)
  case (Cons q qs)
  have fits: "document_fits R d" and v: "ds_version d < u64_max"
    using Cons.prems by (simp_all add: document_fits_def)
  from fits Cons.prems(1) v show ?case
  proof (cases rule: document_step_effect[of d q])
    case (1 d')
    then show ?thesis using Cons.IH[of d'] Cons.prems by fastforce
  next
    case (2 d' e)
    have "byte_len (document_string R d') \<le> byte_len (document_string R d) + request_bytes q"
      using byte_len_edited_text[OF 2(2)] 2(3,4) valid_opD[OF 2(2)] by simp
    then have "byte_len (document_string R d') + sum_list (map request_bytes qs) \<le> u64_max"
      "ds_version d' + length qs \<le> u64_max"
      using Cons.prems 2(5) by simp_all
    then show ?thesis using Cons.IH[of d'] 2 by auto
  qed
qed simp

end

end
