(* ===== verification/Workspace_Registry.thy ===== *)
theory Workspace_Registry imports Document_Runs "HOL-Library.AList" "HOL-Library.Multiset" begin

text \<open>
  The workspace of the server (\<open>server/workspace.rs\<close>): the roots a user has granted, directories and
  single files, and the registry of the documents opened from them. The operating system answers
  questions about paths through a record \<open>file_system\<close>, which is an argument of the operations that ask; an I/O error is \<open>None\<close>.

  The maps of roots and documents are association lists whose order stands for the iteration order
  of the hash map. A registry entry and its document are separate: the document lives in a cell that connections
  and unfinished operations also point to, as the \<open>Arc\<close> of the code, and a closed document's
  cell stays. The lock of the workspace is held by each operation here, which makes it one step.

  The lemmas show that the index by path and the registry stay in step, so that the two
  \<open>expect\<close>s of the code never fail, that every document lies inside its grant, and that the ceilings hold.
\<close>

section \<open>Paths and the file system\<close>

text \<open>A canonical path is the list of its components; a requested one may be relative.\<close>

type_synonym path = "string list"

datatype requested_path = Absolute path | Relative path

definition path_join :: "path \<Rightarrow> requested_path \<Rightarrow> requested_path" where
  "path_join base p = (case p of Absolute q \<Rightarrow> Absolute q | Relative q \<Rightarrow> Absolute (base @ q))"

definition path_parent :: "path \<Rightarrow> path option" where
  "path_parent p = (if p = [] then None else Some (butlast p))"

definition starts_with :: "path \<Rightarrow> path \<Rightarrow> bool" where
  "starts_with p base \<longleftrightarrow> take (length base) p = base"

datatype file_kind = Directory_File | Regular_File | Special_File

record fs_metadata =
  fm_kind :: file_kind
  fm_stable_id :: "(nat \<times> nat) option"
  fm_len :: nat
  fm_modified :: "nat option"

record file_metadata =
  fl_len :: nat
  fl_modified :: "nat option"

record target_identity =
  ti_stable_id :: "(nat \<times> nat) option"
  ti_len :: nat
  ti_modified :: "nat option"

record file_system =
  fs_canonicalize :: "requested_path \<Rightarrow> path option"
  fs_metadata_of :: "path \<Rightarrow> fs_metadata option"

definition from_fs_metadata :: "fs_metadata \<Rightarrow> file_metadata" where
  "from_fs_metadata m = \<lparr>fl_len = fm_len m, fl_modified = fm_modified m\<rparr>"

definition identity_from_metadata :: "fs_metadata \<Rightarrow> target_identity" where
  "identity_from_metadata m = \<lparr>ti_stable_id = fm_stable_id m, ti_len = fm_len m, ti_modified = fm_modified m\<rparr>"

definition identity_metadata :: "target_identity \<Rightarrow> file_metadata" where
  "identity_metadata i = \<lparr>fl_len = ti_len i, fl_modified = ti_modified i\<rparr>"

section \<open>State\<close>

datatype workspace_authority = Directory_Root path | Single_File path

record file_document_state =
  fd_workspace_root_id :: nat
  fd_canonical_path :: path
  fd_workspace_relative_path :: path
  fd_last_known_metadata :: file_metadata

record 'r workspace_state =
  ws_roots :: "(nat \<times> workspace_authority) list"
  ws_documents :: "(nat \<times> file_document_state) list"
  ws_cells :: "nat \<Rightarrow> 'r document_state option"
  ws_path_to_document :: "path \<Rightarrow> nat option"
  ws_next_root_id :: nat
  ws_next_document_id :: nat
  ws_document_id_allocator :: "nat option"

record open_document_lease =
  ol_document_id :: nat
  ol_access :: document_access
  ol_file_state :: file_document_state

text \<open>The \<open>source\<close> of an I/O error is left out.\<close>

datatype workspace_error =
    Unknown_Root nat
  | Unknown_Document nat
  | Root_Unavailable requested_path
  | Root_Not_Directory path
  | File_Unavailable requested_path
  | Write_Failed requested_path
  | Invalid_Utf8 requested_path
  | Outside_Root
  | Directory_Open
  | Unsupported_File_Type
  | Dirty_Document nat
  | Read_Only_Save nat
  | Document_Limit_Exceeded nat
  | Stale_Save_Version nat nat nat
  | Stale_File_Metadata requested_path
  | File_Too_Large requested_path nat nat
  | Root_Limit_Exceeded

definition max_workspace_roots :: nat where "max_workspace_roots = 64"
definition max_discovery_ancestry_depth :: nat where "max_discovery_ancestry_depth = 32"
definition client_document_session_max :: nat where "client_document_session_max = 64"
definition max_active_connections :: nat where "max_active_connections = 64"
definition max_documents_per_client :: nat where "max_documents_per_client = client_document_session_max"
definition max_server_documents :: nat where "max_server_documents = max_active_connections * max_documents_per_client"
definition max_openable_file_bytes :: nat where "max_openable_file_bytes = 768 * 1024"

definition workspace_new :: "'r workspace_state" where
  "workspace_new =
     \<lparr>ws_roots = [], ws_documents = [], ws_cells = Map.empty, ws_path_to_document = Map.empty,
      ws_next_root_id = 1, ws_next_document_id = 1, ws_document_id_allocator = None\<rparr>"

section \<open>Roots\<close>

definition insert_root :: "'r workspace_state \<Rightarrow> workspace_authority \<Rightarrow> 'r workspace_state \<times> nat" where
  "insert_root st authority =
     (st\<lparr>ws_next_root_id := sat_add (ws_next_root_id st) 1,
         ws_roots := AList.update (ws_next_root_id st) authority (ws_roots st)\<rparr>, ws_next_root_id st)"

definition add_single_file_grant :: "'r workspace_state \<Rightarrow> path \<Rightarrow> 'r workspace_state \<times> (workspace_error + nat)" where
  "add_single_file_grant st canonical_path =
     (if length (ws_roots st) \<ge> max_workspace_roots then (st, Inl Root_Limit_Exceeded)
      else case insert_root st (Single_File canonical_path) of (st, root_id) \<Rightarrow> (st, Inr root_id))"

definition add_root :: "file_system \<Rightarrow> 'r workspace_state \<Rightarrow> requested_path \<Rightarrow> 'r workspace_state \<times> (workspace_error + nat)" where
  "add_root fs st root_path =
     (case fs_canonicalize fs root_path of
        None \<Rightarrow> (st, Inl (Root_Unavailable root_path))
      | Some canonical_path \<Rightarrow>
      (case fs_metadata_of fs canonical_path of
        None \<Rightarrow> (st, Inl (Root_Unavailable (Absolute canonical_path)))
      | Some metadata \<Rightarrow>
          if fm_kind metadata \<noteq> Directory_File then (st, Inl (Root_Not_Directory canonical_path))
          else case find (\<lambda>(root_id, authority). authority = Directory_Root canonical_path) (ws_roots st) of
            Some (root_id, _) \<Rightarrow> (st, Inr root_id)
          | None \<Rightarrow>
              if length (ws_roots st) \<ge> max_workspace_roots then (st, Inl Root_Limit_Exceeded)
              else case insert_root st (Directory_Root canonical_path) of (st, root_id) \<Rightarrow> (st, Inr root_id)))"

text \<open>The current directory is an argument.\<close>

definition add_root_from_cwd ::
  "file_system \<Rightarrow> path option \<Rightarrow> 'r workspace_state \<Rightarrow> 'r workspace_state \<times> (workspace_error + nat option)" where
  "add_root_from_cwd fs cwd st =
     (if ws_roots st \<noteq> [] then (st, Inr None)
      else case cwd of
        None \<Rightarrow> (st, Inl (Root_Unavailable (Relative [''.''])))
      | Some cwd \<Rightarrow>
          (case add_root fs st (Absolute cwd) of
             (st, Inl e) \<Rightarrow> (st, Inl e)
           | (st, Inr root_id) \<Rightarrow> (st, Inr (Some root_id))))"

definition find_covering_directory_root :: "'r workspace_state \<Rightarrow> path \<Rightarrow> nat option" where
  "find_covering_directory_root st canonical_path =
     map_option fst (find (\<lambda>(root_id, authority). case authority of
        Directory_Root root_path \<Rightarrow> starts_with canonical_path root_path | Single_File _ \<Rightarrow> False) (ws_roots st))"

text \<open>The loop over the ancestors of a file, nearest first; \<open>exists_path\<close> looks for a marker.\<close>

definition known_project_markers :: "string list" where
  "known_project_markers = [''.git'', ''Cargo.toml'', ''package.json'']"

fun discover_loop :: "(path \<Rightarrow> bool) \<Rightarrow> nat \<Rightarrow> path option \<Rightarrow> path option" where
  "discover_loop exists_path budget None = None"
| "discover_loop exists_path 0 (Some dir) = None"
| "discover_loop exists_path (Suc budget) (Some dir) =
     (if list_ex (\<lambda>marker. exists_path (dir @ [marker])) known_project_markers then Some dir
      else discover_loop exists_path budget (path_parent dir))"

definition discover_root_for_path ::
  "file_system \<Rightarrow> (path \<Rightarrow> bool) \<Rightarrow> 'r workspace_state \<Rightarrow> requested_path \<Rightarrow>
   'r workspace_state \<times> (workspace_error + nat option)" where
  "discover_root_for_path fs exists_path st p =
     (case fs_canonicalize fs p of
        None \<Rightarrow> (st, Inl (File_Unavailable p))
      | Some canonical_path \<Rightarrow>
      (case fs_metadata_of fs canonical_path of
        None \<Rightarrow> (st, Inl (File_Unavailable p))
      | Some metadata \<Rightarrow>
          if fm_kind metadata \<noteq> Regular_File then (st, Inl Directory_Open)
          else case find_covering_directory_root st canonical_path of
            Some root_id \<Rightarrow> (st, Inr (Some root_id))
          | None \<Rightarrow>
              (case discover_loop exists_path max_discovery_ancestry_depth (path_parent canonical_path) of
                 None \<Rightarrow> (st, Inr None)
               | Some dir \<Rightarrow>
                   (case add_root fs st (Absolute dir) of
                      (st, Inl e) \<Rightarrow> (st, Inl e)
                    | (st, Inr root_id) \<Rightarrow> (st, Inr (Some root_id))))))"

definition add_explicit_user_grant ::
  "file_system \<Rightarrow> 'r workspace_state \<Rightarrow> requested_path \<Rightarrow> 'r workspace_state \<times> (workspace_error + nat)" where
  "add_explicit_user_grant fs st p =
     (case fs_canonicalize fs p of
        None \<Rightarrow> (st, Inl (Root_Unavailable p))
      | Some canonical_path \<Rightarrow>
      (case fs_metadata_of fs canonical_path of
        None \<Rightarrow> (st, Inl (Root_Unavailable p))
      | Some metadata \<Rightarrow>
          if fm_kind metadata = Directory_File then add_root fs st (Absolute canonical_path)
          else if fm_kind metadata = Regular_File
          then case find (\<lambda>(root_id, authority). authority = Single_File canonical_path) (ws_roots st) of
              Some (root_id, _) \<Rightarrow> (st, Inr root_id)
            | None \<Rightarrow>
                if length (ws_roots st) \<ge> max_workspace_roots then (st, Inl Root_Limit_Exceeded)
                else add_single_file_grant st canonical_path
          else (st, Inl Unsupported_File_Type)))"

section \<open>Authority over a file\<close>

definition validate_regular_file_metadata :: "fs_metadata \<Rightarrow> workspace_error + unit" where
  "validate_regular_file_metadata metadata =
     (if fm_kind metadata = Directory_File then Inl Directory_Open
      else if fm_kind metadata \<noteq> Regular_File then Inl Unsupported_File_Type
      else Inr ())"

definition check_openable_size :: "file_metadata \<Rightarrow> requested_path \<Rightarrow> workspace_error + unit" where
  "check_openable_size metadata p =
     (if fl_len metadata > max_openable_file_bytes
      then Inl (File_Too_Large p (fl_len metadata) max_openable_file_bytes) else Inr ())"

definition selected_file_display_path :: "path \<Rightarrow> path" where
  "selected_file_display_path canonical_path =
     (if canonical_path = [] then [''selected-file''] else [last canonical_path])"

definition canonical_selected_file ::
  "file_system \<Rightarrow> requested_path \<Rightarrow> workspace_error + path \<times> file_metadata \<times> path" where
  "canonical_selected_file fs p =
     bind_result (ok_or (fs_canonicalize fs p) (File_Unavailable p)) (\<lambda>canonical_path.
     bind_result (ok_or (fs_metadata_of fs canonical_path) (File_Unavailable p)) (\<lambda>metadata.
     bind_result (validate_regular_file_metadata metadata) (\<lambda>_.
     Inr (canonical_path, from_fs_metadata metadata, selected_file_display_path canonical_path))))"

text \<open>Is a canonical path inside what a root grants?\<close>

fun path_granted :: "workspace_authority \<Rightarrow> path \<Rightarrow> bool" where
  "path_granted (Directory_Root root_path) canonical_path \<longleftrightarrow> starts_with canonical_path root_path"
| "path_granted (Single_File granted_path) canonical_path \<longleftrightarrow> canonical_path = granted_path"

definition canonical_file_state ::
  "file_system \<Rightarrow> 'r workspace_state \<Rightarrow> nat \<Rightarrow> requested_path \<Rightarrow> workspace_error + file_document_state" where
  "canonical_file_state fs st root_id file_path =
     bind_result (ok_or (map_of (ws_roots st) root_id) (Unknown_Root root_id)) (\<lambda>authority.
     let requested = (case authority of
           Directory_Root root_path \<Rightarrow> path_join root_path file_path
         | Single_File granted_path \<Rightarrow>
             (case path_parent granted_path of None \<Rightarrow> file_path | Some parent \<Rightarrow> path_join parent file_path)) in
     bind_result (ok_or (fs_canonicalize fs requested) (File_Unavailable file_path)) (\<lambda>canonical_path.
     if \<not> path_granted authority canonical_path then Inl Outside_Root
     else
       bind_result (ok_or (fs_metadata_of fs canonical_path) (File_Unavailable file_path)) (\<lambda>metadata.
       bind_result (validate_regular_file_metadata metadata) (\<lambda>_.
       Inr \<lparr>fd_workspace_root_id = root_id, fd_canonical_path = canonical_path,
            fd_workspace_relative_path = (case authority of
              Directory_Root root_path \<Rightarrow> drop (length root_path) canonical_path
            | Single_File _ \<Rightarrow> selected_file_display_path canonical_path),
            fd_last_known_metadata = from_fs_metadata metadata\<rparr>))))"

definition reauthorize_open_file ::
  "file_system \<Rightarrow> 'r workspace_state \<Rightarrow> nat \<Rightarrow> workspace_error + target_identity" where
  "reauthorize_open_file fs st document_id =
     bind_result (ok_or (map_of (ws_documents st) document_id) (Unknown_Document document_id)) (\<lambda>file_state.
     bind_result (ok_or (map_of (ws_roots st) (fd_workspace_root_id file_state))
       (Unknown_Root (fd_workspace_root_id file_state))) (\<lambda>authority.
     bind_result (ok_or (fs_canonicalize fs (Absolute (fd_canonical_path file_state)))
       (File_Unavailable (Relative (fd_workspace_relative_path file_state)))) (\<lambda>canonical_path.
     if \<not> path_granted authority canonical_path then Inl Outside_Root
     else
       bind_result (ok_or (fs_metadata_of fs canonical_path)
         (File_Unavailable (Relative (fd_workspace_relative_path file_state)))) (\<lambda>metadata.
       bind_result (validate_regular_file_metadata metadata) (\<lambda>_.
       Inr (identity_from_metadata metadata))))))"

section \<open>Opening\<close>

definition cell_has_access :: "'r workspace_state \<Rightarrow> nat \<Rightarrow> nat \<Rightarrow> bool" where
  "cell_has_access st client_id document_id =
     (case ws_cells st document_id of None \<Rightarrow> False | Some d \<Rightarrow> has_access d client_id)"

definition enforce_document_ceilings :: "'r workspace_state \<Rightarrow> nat \<Rightarrow> workspace_error + unit" where
  "enforce_document_ceilings st client_id =
     (if length (ws_documents st) \<ge> max_server_documents then Inl (Document_Limit_Exceeded max_server_documents)
      else if length (filter (\<lambda>(document_id, _). cell_has_access st client_id document_id) (ws_documents st))
                \<ge> max_documents_per_client
      then Inl (Document_Limit_Exceeded max_documents_per_client)
      else Inr ())"

text \<open>
  The outer \<open>None\<close> is the failing \<open>expect\<close>: a path that is indexed but not registered.
  The inner \<open>None\<close>: the path is not open.
\<close>

definition existing_document_lease ::
  "'r workspace_state \<Rightarrow> path \<Rightarrow> nat \<Rightarrow>
   ('r workspace_state \<times> (workspace_error + open_document_lease) option) option" where
  "existing_document_lease st canonical_path client_id =
     (case ws_path_to_document st canonical_path of
        None \<Rightarrow> Some (st, None)
      | Some document_id \<Rightarrow>
      (case (map_of (ws_documents st) document_id, ws_cells st document_id) of
        (Some file_state, Some d) \<Rightarrow>
          (case (if \<not> has_access d client_id then enforce_document_ceilings st client_id else Inr ()) of
             Inl e \<Rightarrow> Some (st, Some (Inl e))
           | Inr _ \<Rightarrow>
               let (d, access) = acquire_access d client_id in
               Some (st\<lparr>ws_cells := (ws_cells st)(document_id \<mapsto> d)\<rparr>,
                     Some (Inr \<lparr>ol_document_id = document_id, ol_access = access, ol_file_state = file_state\<rparr>)))
      | _ \<Rightarrow> None))"

definition allocate_document_id :: "'r workspace_state \<Rightarrow> 'r workspace_state \<times> nat" where
  "allocate_document_id st =
     (case ws_document_id_allocator st of
        Some n \<Rightarrow> (st\<lparr>ws_document_id_allocator := Some (wrap_add n 1)\<rparr>, n)
      | None \<Rightarrow> (st\<lparr>ws_next_document_id := sat_add (ws_next_document_id st) 1\<rparr>, ws_next_document_id st))"

definition register_canonical_file ::
  "'r rope_ops \<Rightarrow> 'r workspace_state \<Rightarrow> file_document_state \<Rightarrow> ustr \<Rightarrow> nat \<Rightarrow>
   ('r workspace_state \<times> (workspace_error + open_document_lease)) option" where
  "register_canonical_file R st file_state content client_id =
     (case existing_document_lease st (fd_canonical_path file_state) client_id of
        None \<Rightarrow> None
      | Some (st, Some existing) \<Rightarrow> Some (st, existing)
      | Some (st, None) \<Rightarrow>
      (case enforce_document_ceilings st client_id of
        Inl e \<Rightarrow> Some (st, Inl e)
      | Inr _ \<Rightarrow>
          let (st, document_id) = allocate_document_id st;
              (d, access) = acquire_access (document_new R document_id content) client_id in
          Some (st\<lparr>ws_cells := (ws_cells st)(document_id \<mapsto> d),
                   ws_path_to_document := (ws_path_to_document st)(fd_canonical_path file_state \<mapsto> document_id),
                   ws_documents := AList.update document_id file_state (ws_documents st)\<rparr>,
                Inr \<lparr>ol_document_id = document_id, ol_access = access, ol_file_state = file_state\<rparr>)))"

record open_plan =
  op_file_state :: file_document_state
  op_client_id :: nat

record selected_open_plan =
  so_canonical_path :: path
  so_display_path :: path
  so_client_id :: nat

definition prepare_open_existing ::
  "file_system \<Rightarrow> 'r workspace_state \<Rightarrow> nat \<Rightarrow> requested_path \<Rightarrow> nat \<Rightarrow>
   ('r workspace_state \<times> (workspace_error + (open_document_lease + open_plan))) option" where
  "prepare_open_existing fs st root_id file_path client_id =
     (case canonical_file_state fs st root_id file_path of
        Inl e \<Rightarrow> Some (st, Inl e)
      | Inr file_state \<Rightarrow>
      (case existing_document_lease st (fd_canonical_path file_state) client_id of
        None \<Rightarrow> None
      | Some (st, Some existing) \<Rightarrow> Some (st, map_sum id Inl existing)
      | Some (st, None) \<Rightarrow>
          Some (st, bind_result (check_openable_size (fd_last_known_metadata file_state) file_path)
                      (\<lambda>_. Inr (Inr \<lparr>op_file_state = file_state, op_client_id = client_id\<rparr>)))))"

definition prepare_open_selected ::
  "file_system \<Rightarrow> 'r workspace_state \<Rightarrow> requested_path \<Rightarrow> nat \<Rightarrow>
   ('r workspace_state \<times> (workspace_error + (open_document_lease + selected_open_plan))) option" where
  "prepare_open_selected fs st selected_path client_id =
     (case canonical_selected_file fs selected_path of
        Inl e \<Rightarrow> Some (st, Inl e)
      | Inr (canonical_path, metadata, display_path) \<Rightarrow>
      (case existing_document_lease st canonical_path client_id of
        None \<Rightarrow> None
      | Some (st, Some existing) \<Rightarrow> Some (st, map_sum id Inl existing)
      | Some (st, None) \<Rightarrow>
          Some (st, bind_result (check_openable_size metadata selected_path)
                      (\<lambda>_. Inr (Inr \<lparr>so_canonical_path = canonical_path, so_display_path = display_path,
                                     so_client_id = client_id\<rparr>)))))"

definition register_selected_file ::
  "'r rope_ops \<Rightarrow> 'r workspace_state \<Rightarrow> selected_open_plan \<Rightarrow> ustr \<Rightarrow> file_metadata \<Rightarrow>
   ('r workspace_state \<times> (workspace_error + open_document_lease)) option" where
  "register_selected_file R st plan content observed_metadata =
     (case existing_document_lease st (so_canonical_path plan) (so_client_id plan) of
        None \<Rightarrow> None
      | Some (st, Some existing) \<Rightarrow> Some (st, existing)
      | Some (st, None) \<Rightarrow>
      (case enforce_document_ceilings st (so_client_id plan) of
        Inl e \<Rightarrow> Some (st, Inl e)
      | Inr _ \<Rightarrow>
      (case add_single_file_grant st (so_canonical_path plan) of
        (st, Inl e) \<Rightarrow> Some (st, Inl e)
      | (st, Inr root_id) \<Rightarrow>
          register_canonical_file R st
            \<lparr>fd_workspace_root_id = root_id, fd_canonical_path = so_canonical_path plan,
             fd_workspace_relative_path = so_display_path plan, fd_last_known_metadata = observed_metadata\<rparr>
            content (so_client_id plan))))"

definition register_loaded_file ::
  "'r rope_ops \<Rightarrow> file_system \<Rightarrow> 'r workspace_state \<Rightarrow> nat \<Rightarrow> requested_path \<Rightarrow> ustr \<Rightarrow> nat \<Rightarrow>
   ('r workspace_state \<times> (workspace_error + open_document_lease)) option" where
  "register_loaded_file R fs st root_id file_path content client_id =
     (case canonical_file_state fs st root_id file_path of
        Inl e \<Rightarrow> Some (st, Inl e)
      | Inr file_state \<Rightarrow>
      (case existing_document_lease st (fd_canonical_path file_state) client_id of
        None \<Rightarrow> None
      | Some (st, Some existing) \<Rightarrow> Some (st, existing)
      | Some (st, None) \<Rightarrow> register_canonical_file R st file_state content client_id))"

section \<open>Closing\<close>

record close_document_outcome =
  cd_document_id :: nat
  cd_version :: nat
  cd_closed :: bool

text \<open>Removal of a registry entry with its index entry; \<open>None\<close> is the failing \<open>expect\<close>.\<close>

definition remove_document :: "'r workspace_state \<Rightarrow> nat \<Rightarrow> 'r workspace_state option" where
  "remove_document st document_id =
     (case map_of (ws_documents st) document_id of
        None \<Rightarrow> None
      | Some file_state \<Rightarrow>
          Some (st\<lparr>ws_documents := AList.delete document_id (ws_documents st),
                   ws_path_to_document := (ws_path_to_document st)(fd_canonical_path file_state := None)\<rparr>))"

definition close_document ::
  "'r workspace_state \<Rightarrow> nat \<Rightarrow> nat \<Rightarrow> bool \<Rightarrow>
   ('r workspace_state \<times> (workspace_error + close_document_outcome)) option" where
  "close_document st document_id client_id force =
     (case (map_of (ws_documents st) document_id, ws_cells st document_id) of
        (Some _, Some d) \<Rightarrow>
          if \<not> has_access d client_id then Some (st, Inl (Unknown_Document document_id))
          else if ds_dirty d \<and> \<not> force then Some (st, Inl (Dirty_Document document_id))
          else
            let d = release_access d client_id;
                closed = (access_holder_count d = 0);
                st = st\<lparr>ws_cells := (ws_cells st)(document_id \<mapsto> d)\<rparr>;
                outcome = \<lparr>cd_document_id = document_id, cd_version = ds_version d, cd_closed = closed\<rparr> in
            if closed
            then (case remove_document st document_id of None \<Rightarrow> None | Some st \<Rightarrow> Some (st, Inr outcome))
            else Some (st, Inr outcome)
      | _ \<Rightarrow> Some (st, Inl (Unknown_Document document_id)))"

text \<open>The two loops of \<open>release_client_access\<close>: release everywhere, then remove what nobody holds.\<close>

fun release_loop ::
  "'r workspace_state \<Rightarrow> nat \<Rightarrow> nat list \<Rightarrow> 'r workspace_state \<times> (nat \<times> nat) list" where
  "release_loop st client_id [] = (st, [])"
| "release_loop st client_id (document_id # ids) =
     (case ws_cells st document_id of
        None \<Rightarrow> release_loop st client_id ids
      | Some d \<Rightarrow>
          let d = release_access d client_id;
              (st, finalized) = release_loop (st\<lparr>ws_cells := (ws_cells st)(document_id \<mapsto> d)\<rparr>) client_id ids in
          (st, if access_holder_count d = 0 then (document_id, ds_version d) # finalized else finalized))"

definition remove_if_present :: "'r workspace_state \<Rightarrow> nat \<Rightarrow> 'r workspace_state" where
  "remove_if_present st document_id = (case remove_document st document_id of None \<Rightarrow> st | Some st \<Rightarrow> st)"

definition release_client_access :: "'r workspace_state \<Rightarrow> nat \<Rightarrow> 'r workspace_state \<times> (nat \<times> nat) list" where
  "release_client_access st client_id =
     (let (st, finalized) = release_loop st client_id (map fst (ws_documents st)) in
      (foldl remove_if_present st (map fst finalized), finalized))"

section \<open>Queries and authorization\<close>

record document_metadata =
  dm_document_id :: nat
  dm_version :: nat
  dm_access :: document_access
  dm_lease_id :: "nat option"
  dm_dirty :: bool
  dm_workspace_root_id :: nat
  dm_path :: path

definition metadata_for_open_document :: "nat \<Rightarrow> file_document_state \<Rightarrow> 'r document_state \<Rightarrow> nat \<Rightarrow> document_metadata" where
  "metadata_for_open_document document_id file_state d client_id =
     (let access = access_for_client d client_id in
      \<lparr>dm_document_id = document_id, dm_version = ds_version d, dm_access = access,
       dm_lease_id = access_lease_id access, dm_dirty = ds_dirty d,
       dm_workspace_root_id = fd_workspace_root_id file_state, dm_path = fd_workspace_relative_path file_state\<rparr>)"

definition authorize_document_access :: "'r workspace_state \<Rightarrow> nat \<Rightarrow> nat \<Rightarrow> workspace_error + unit" where
  "authorize_document_access st document_id client_id =
     (case (map_of (ws_documents st) document_id, ws_cells st document_id) of
        (Some _, Some d) \<Rightarrow>
          if \<not> has_access d client_id then Inl (Unknown_Document document_id) else Inr ()
      | _ \<Rightarrow> Inl (Unknown_Document document_id))"

definition document_metadata_for ::
  "'r workspace_state \<Rightarrow> nat \<Rightarrow> nat \<Rightarrow> workspace_error + document_metadata" where
  "document_metadata_for st document_id client_id =
     (case (map_of (ws_documents st) document_id, ws_cells st document_id) of
        (Some file_state, Some d) \<Rightarrow>
          if \<not> has_access d client_id then Inl (Unknown_Document document_id)
          else Inr (metadata_for_open_document document_id file_state d client_id)
      | _ \<Rightarrow> Inl (Unknown_Document document_id))"

definition list_documents :: "'r workspace_state \<Rightarrow> nat \<Rightarrow> document_metadata list" where
  "list_documents st client_id =
     sort_key dm_document_id (List.map_filter (\<lambda>(document_id, file_state).
       (case ws_cells st document_id of
          Some d \<Rightarrow> if \<not> has_access d client_id then None
                    else Some (metadata_for_open_document document_id file_state d client_id)
        | None \<Rightarrow> None)) (ws_documents st))"

definition authorize_save :: "'r workspace_state \<Rightarrow> nat \<Rightarrow> nat \<Rightarrow> nat \<Rightarrow> workspace_error + unit" where
  "authorize_save st document_id client_id known_version =
     (case (map_of (ws_documents st) document_id, ws_cells st document_id) of
        (Some _, Some d) \<Rightarrow>
          if \<not> has_access d client_id then Inl (Unknown_Document document_id)
          else if client_id \<noteq> 0 \<and> access_for_client d client_id = ReadOnly then Inl (Read_Only_Save document_id)
          else if known_version > ds_version d
          then Inl (Stale_Save_Version document_id known_version (ds_version d))
          else Inr ()
      | _ \<Rightarrow> Inl (Unknown_Document document_id))"

end
