(* ===== verification/Workspace_Saving.thy ===== *)
theory Workspace_Saving imports Workspace_Registry begin

text \<open>
  Saving and reloading (\<open>server/workspace.rs\<close>). Each is split in the code: a plan is made under the
  workspace lock, the disk is read or written without it, and the result is committed under the
  lock again. The disk maps canonical paths to files; a file has the metadata the operating
  system reports and its content. What the operating system decides (whether a call fails, which metadata a
  new file gets) is an argument.
\<close>

section \<open>The disk\<close>

text \<open>The bytes of a file either decode as UTF-8 or, given by their number, do not.\<close>

datatype file_content = Utf8_Content ustr | Other_Content nat

fun content_len :: "file_content \<Rightarrow> nat" where
  "content_len (Utf8_Content t) = byte_len t"
| "content_len (Other_Content n) = n"

record disk_file =
  df_metadata :: fs_metadata
  df_content :: file_content

type_synonym disk = "path \<Rightarrow> disk_file option"

definition disk_view :: "(requested_path \<Rightarrow> path option) \<Rightarrow> disk \<Rightarrow> file_system" where
  "disk_view canon disk =
     \<lparr>fs_canonicalize = canon, fs_metadata_of = (\<lambda>p. map_option df_metadata (disk p))\<rparr>"

text \<open>
  One read through one handle: \<open>opened\<close> is what \<open>open\<close> and the handle's metadata gave, \<open>content\<close> what was
  read afterwards; the file may have changed in between. At most one byte more than allowed is read.
\<close>

definition read_file_bounded ::
  "fs_metadata option \<Rightarrow> file_content option \<Rightarrow> requested_path \<Rightarrow> nat \<Rightarrow> workspace_error + ustr \<times> file_metadata" where
  "read_file_bounded opened content error_path max_bytes =
     bind_result (ok_or opened (File_Unavailable error_path)) (\<lambda>metadata.
     bind_result (validate_regular_file_metadata metadata) (\<lambda>_.
     let observed = from_fs_metadata metadata in
     bind_result (check_openable_size observed error_path) (\<lambda>_.
     bind_result (ok_or content (File_Unavailable error_path)) (\<lambda>bytes.
     let bytes_len = min (content_len bytes) (max_bytes + 1) in
     if bytes_len > max_bytes then Inl (File_Too_Large error_path bytes_len max_bytes)
     else case bytes of
       Utf8_Content t \<Rightarrow> Inr (t, observed)
     | Other_Content _ \<Rightarrow> Inl (Invalid_Utf8 error_path)))))"

definition open_io ::
  "fs_metadata option \<Rightarrow> file_content option \<Rightarrow> requested_path \<Rightarrow> workspace_error + ustr \<times> file_metadata" where
  "open_io opened content error_path = read_file_bounded opened content error_path max_openable_file_bytes"

section \<open>Saving\<close>

record save_plan =
  sv_document_id :: nat
  sv_canonical_path :: path
  sv_relative_path :: path
  sv_expected_identity :: target_identity

record save_io_outcome =
  si_prepared_version :: nat
  si_saved_metadata :: file_metadata

record save_document_outcome =
  so_document_id :: nat
  so_version :: nat
  so_dirty :: bool

definition prepare_save :: "file_system \<Rightarrow> 'r workspace_state \<Rightarrow> nat \<Rightarrow> workspace_error + save_plan" where
  "prepare_save fs st document_id =
     bind_result (ok_or (map_of (ws_documents st) document_id) (Unknown_Document document_id)) (\<lambda>file_state.
     bind_result (reauthorize_open_file fs st document_id) (\<lambda>current_identity.
     if identity_metadata current_identity \<noteq> fd_last_known_metadata file_state
     then Inl (Stale_File_Metadata (Relative (fd_workspace_relative_path file_state)))
     else Inr \<lparr>sv_document_id = document_id, sv_canonical_path = fd_canonical_path file_state,
               sv_relative_path = fd_workspace_relative_path file_state,
               sv_expected_identity = current_identity\<rparr>))"

definition matches_current :: "target_identity \<Rightarrow> fs_metadata \<Rightarrow> bool" where
  "matches_current expected metadata \<longleftrightarrow> identity_from_metadata metadata = expected"

datatype atomic_save_error = Save_Io | Target_Changed

text \<open>
  \<open>written\<close>: the temporary file was created, written, synced and given the permissions. \<open>renamed\<close>:
  the metadata of the new file once the rename succeeded, and whether reading it back did.
\<close>

definition atomic_write_file ::
  "disk \<Rightarrow> path \<Rightarrow> ustr \<Rightarrow> target_identity option \<Rightarrow> bool \<Rightarrow> (fs_metadata \<times> bool) option \<Rightarrow>
   disk \<times> (atomic_save_error + file_metadata)" where
  "atomic_write_file disk target content expected written renamed =
     (if \<not> written then (disk, Inl Save_Io)
      else
        let matching = (case expected of
              None \<Rightarrow> Inr ()
            | Some expected \<Rightarrow>
                (case disk target of
                   None \<Rightarrow> Inl Save_Io
                 | Some file \<Rightarrow>
                     if matches_current expected (df_metadata file) then Inr () else Inl Target_Changed)) in
        case matching of
          Inl e \<Rightarrow> (disk, Inl e)
        | Inr _ \<Rightarrow>
            (case renamed of
               None \<Rightarrow> (disk, Inl Save_Io)
             | Some (metadata, read_back) \<Rightarrow>
                 (disk(target \<mapsto> \<lparr>df_metadata = metadata, df_content = Utf8_Content content\<rparr>),
                  if read_back then Inr (from_fs_metadata metadata) else Inl Save_Io)))"

text \<open>\<open>save_io\<close>: first version and text are taken from the document, then the file is written.\<close>

definition save_capture :: "'r rope_ops \<Rightarrow> 'r workspace_state \<Rightarrow> save_plan \<Rightarrow> (nat \<times> ustr) option" where
  "save_capture R st plan =
     map_option (\<lambda>d. (ds_version d, document_string R d)) (ws_cells st (sv_document_id plan))"

definition save_write ::
  "disk \<Rightarrow> save_plan \<Rightarrow> nat \<times> ustr \<Rightarrow> bool \<Rightarrow> (fs_metadata \<times> bool) option \<Rightarrow>
   disk \<times> (workspace_error + save_io_outcome)" where
  "save_write disk plan captured written renamed =
     (case atomic_write_file disk (sv_canonical_path plan) (snd captured) (Some (sv_expected_identity plan))
            written renamed of
        (disk, Inl Target_Changed) \<Rightarrow> (disk, Inl (Stale_File_Metadata (Relative (sv_relative_path plan))))
      | (disk, Inl Save_Io) \<Rightarrow> (disk, Inl (Write_Failed (Relative (sv_relative_path plan))))
      | (disk, Inr metadata) \<Rightarrow>
          (disk, Inr \<lparr>si_prepared_version = fst captured, si_saved_metadata = metadata\<rparr>))"

text \<open>Set the recorded metadata of a document, when it is still registered.\<close>

definition set_last_known_metadata :: "'r workspace_state \<Rightarrow> nat \<Rightarrow> file_metadata \<Rightarrow> 'r workspace_state" where
  "set_last_known_metadata st document_id metadata =
     (case map_of (ws_documents st) document_id of
        None \<Rightarrow> st
      | Some file_state \<Rightarrow>
          st\<lparr>ws_documents := AList.update document_id (file_state\<lparr>fd_last_known_metadata := metadata\<rparr>) (ws_documents st)\<rparr>)"

definition commit_save ::
  "'r workspace_state \<Rightarrow> save_plan \<Rightarrow> save_io_outcome \<Rightarrow> ('r workspace_state \<times> save_document_outcome) option" where
  "commit_save st plan io =
     (let st = set_last_known_metadata st (sv_document_id plan) (si_saved_metadata io) in
      case ws_cells st (sv_document_id plan) of
        None \<Rightarrow> None
      | Some d \<Rightarrow>
          let (d, clean) = mark_clean_if_version d (si_prepared_version io) in
          Some (st\<lparr>ws_cells := (ws_cells st)(sv_document_id plan \<mapsto> d)\<rparr>,
                \<lparr>so_document_id = sv_document_id plan, so_version = si_prepared_version io, so_dirty = \<not> clean\<rparr>))"

section \<open>Reloading\<close>

record reload_plan =
  rp_document_id :: nat
  rp_canonical_path :: path
  rp_relative_path :: path
  rp_force :: bool

record reload_io_outcome =
  ri_text :: ustr
  ri_reloaded_metadata :: file_metadata

record reload_document_outcome =
  ro_document_id :: nat
  ro_version :: nat
  ro_text :: ustr
  ro_dirty :: bool

definition prepare_reload ::
  "file_system \<Rightarrow> 'r workspace_state \<Rightarrow> nat \<Rightarrow> bool \<Rightarrow> workspace_error + reload_plan" where
  "prepare_reload fs st document_id force =
     (case (map_of (ws_documents st) document_id, ws_cells st document_id) of
        (Some file_state, Some d) \<Rightarrow>
          if ds_dirty d \<and> \<not> force then Inl (Dirty_Document document_id)
          else
            bind_result (reauthorize_open_file fs st document_id) (\<lambda>identity.
            bind_result (check_openable_size (identity_metadata identity)
              (Relative (fd_workspace_relative_path file_state))) (\<lambda>_.
            Inr \<lparr>rp_document_id = document_id, rp_canonical_path = fd_canonical_path file_state,
                 rp_relative_path = fd_workspace_relative_path file_state, rp_force = force\<rparr>))
      | _ \<Rightarrow> Inl (Unknown_Document document_id))"

definition reload_io ::
  "reload_plan \<Rightarrow> fs_metadata option \<Rightarrow> file_content option \<Rightarrow> workspace_error + reload_io_outcome" where
  "reload_io plan opened content =
     bind_result (read_file_bounded opened content (Relative (rp_relative_path plan)) max_openable_file_bytes)
       (\<lambda>(t, metadata). Inr \<lparr>ri_text = t, ri_reloaded_metadata = metadata\<rparr>)"

definition commit_reload ::
  "'r rope_ops \<Rightarrow> 'r workspace_state \<Rightarrow> reload_plan \<Rightarrow> reload_io_outcome \<Rightarrow>
   ('r workspace_state \<times> (workspace_error + reload_document_outcome)) option" where
  "commit_reload R st plan io =
     (case ws_cells st (rp_document_id plan) of
        None \<Rightarrow> None
      | Some d \<Rightarrow>
          if ds_dirty d \<and> \<not> rp_force plan then Some (st, Inl (Dirty_Document (rp_document_id plan)))
          else
            let d = replace_text_from_storage R d (ri_text io);
                st = st\<lparr>ws_cells := (ws_cells st)(rp_document_id plan \<mapsto> d)\<rparr>;
                st = set_last_known_metadata st (rp_document_id plan) (ri_reloaded_metadata io) in
            Some (st, Inr \<lparr>ro_document_id = rp_document_id plan, ro_version = ds_version d,
                           ro_text = ri_text io, ro_dirty = False\<rparr>))"

end
