(* ===== verification/Workspace_Facts.thy ===== *)
theory Workspace_Facts imports Workspace_Registry begin

text \<open>
  The invariant of the workspace registry and its preservation by the operations of
  \<open>Workspace_Registry\<close>. \<open>registry_core\<close> is what holds at every moment, \<open>registry_ok\<close> what holds between
  operations: inside a close, an unheld document is still registered for a moment.
\<close>

section \<open>Invariant\<close>

definition next_id :: "'r workspace_state \<Rightarrow> nat" where
  "next_id st = (case ws_document_id_allocator st of Some n \<Rightarrow> n | None \<Rightarrow> ws_next_document_id st)"

definition held_by :: "'r workspace_state \<Rightarrow> nat \<Rightarrow> nat set" where
  "held_by st client_id =
     {document_id. map_of (ws_documents st) document_id \<noteq> None \<and> cell_has_access st client_id document_id}"

definition roots_ok :: "'r workspace_state \<Rightarrow> bool" where
  "roots_ok st \<longleftrightarrow> distinct (map fst (ws_roots st))
     \<and> ws_next_root_id st = Suc (length (ws_roots st))
     \<and> (\<forall>root_id\<in>fst ` set (ws_roots st). root_id \<le> length (ws_roots st))
     \<and> length (ws_roots st) \<le> max_workspace_roots"

definition index_ok :: "'r workspace_state \<Rightarrow> bool" where
  "index_ok st \<longleftrightarrow> distinct (map fst (ws_documents st))
     \<and> (\<forall>p document_id. ws_path_to_document st p = Some document_id \<longleftrightarrow>
          (\<exists>f. map_of (ws_documents st) document_id = Some f \<and> fd_canonical_path f = p))"

definition root_grants :: "'r workspace_state \<Rightarrow> nat \<Rightarrow> path \<Rightarrow> bool" where
  "root_grants st root_id p \<longleftrightarrow> (\<exists>a. map_of (ws_roots st) root_id = Some a \<and> path_granted a p)"

definition grants_ok :: "'r workspace_state \<Rightarrow> bool" where
  "grants_ok st \<longleftrightarrow> (\<forall>document_id f. map_of (ws_documents st) document_id = Some f \<longrightarrow>
     root_grants st (fd_workspace_root_id f) (fd_canonical_path f))"

definition cells_ok :: "'r workspace_state \<Rightarrow> bool" where
  "cells_ok st \<longleftrightarrow>
     (\<forall>document_id d. ws_cells st document_id = Some d \<longrightarrow>
        ds_document_id d = document_id \<and> finite (ds_access_holders d) \<and> document_id < next_id st)
     \<and> (\<forall>document_id. map_of (ws_documents st) document_id \<noteq> None \<longrightarrow> ws_cells st document_id \<noteq> None)
     \<and> next_id st \<le> u64_max"

definition ceilings_ok :: "'r workspace_state \<Rightarrow> bool" where
  "ceilings_ok st \<longleftrightarrow> length (ws_documents st) \<le> max_server_documents
     \<and> (\<forall>client_id. client_id \<noteq> 0 \<longrightarrow> card (held_by st client_id) \<le> max_documents_per_client)"

definition registry_core :: "'r workspace_state \<Rightarrow> bool" where
  "registry_core st \<longleftrightarrow> roots_ok st \<and> index_ok st \<and> grants_ok st \<and> cells_ok st \<and> ceilings_ok st"

text \<open>Every registered document is open in some connection.\<close>

definition all_held :: "'r workspace_state \<Rightarrow> bool" where
  "all_held st \<longleftrightarrow> (\<forall>document_id d. map_of (ws_documents st) document_id \<noteq> None \<and>
     ws_cells st document_id = Some d \<longrightarrow> ds_access_holders d \<noteq> {})"

definition registry_ok :: "'r workspace_state \<Rightarrow> bool" where
  "registry_ok st \<longleftrightarrow> registry_core st \<and> all_held st"

lemmas registry_parts = registry_ok_def registry_core_def

lemma registry_start: "n \<le> u64_max \<Longrightarrow> registry_ok (workspace_new\<lparr>ws_document_id_allocator := Some n\<rparr>)"
  "registry_ok workspace_new"
  by (simp_all add: registry_parts workspace_new_def roots_ok_def index_ok_def grants_ok_def cells_ok_def
      ceilings_ok_def all_held_def held_by_def next_id_def max_workspace_roots_def u64_max_def)

lemma finite_held_by [simp]: "finite (held_by st client_id)"
proof (rule finite_subset)
  show "held_by st client_id \<subseteq> fst ` set (ws_documents st)"
    by (auto simp: held_by_def dest: map_of_SomeD) (metis fst_conv image_eqI map_of_SomeD)
qed simp

text \<open>Which fields the parts read.\<close>

lemma next_id_updates [simp]:
  "next_id (st\<lparr>ws_roots := r\<rparr>) = next_id st" "next_id (st\<lparr>ws_next_root_id := n\<rparr>) = next_id st"
  "next_id (st\<lparr>ws_documents := ds\<rparr>) = next_id st" "next_id (st\<lparr>ws_cells := cs\<rparr>) = next_id st"
  "next_id (st\<lparr>ws_path_to_document := ix\<rparr>) = next_id st"
  by (simp_all add: next_id_def split: option.split)

lemma held_by_updates [simp]:
  "held_by (st\<lparr>ws_roots := r\<rparr>) = held_by st" "held_by (st\<lparr>ws_next_root_id := n\<rparr>) = held_by st"
  "held_by (st\<lparr>ws_path_to_document := ix\<rparr>) = held_by st"
  by (simp_all add: held_by_def cell_has_access_def fun_eq_iff)

lemma root_grants_updates [simp]:
  "root_grants (st\<lparr>ws_cells := cs\<rparr>) = root_grants st" "root_grants (st\<lparr>ws_documents := ds\<rparr>) = root_grants st"
  "root_grants (st\<lparr>ws_path_to_document := ix\<rparr>) = root_grants st"
  by (simp_all add: root_grants_def fun_eq_iff)

lemma parts_updates [simp]:
  "roots_ok (st\<lparr>ws_cells := cs\<rparr>) = roots_ok st" "roots_ok (st\<lparr>ws_documents := ds\<rparr>) = roots_ok st"
  "roots_ok (st\<lparr>ws_path_to_document := ix\<rparr>) = roots_ok st"
  "index_ok (st\<lparr>ws_cells := cs\<rparr>) = index_ok st" "grants_ok (st\<lparr>ws_cells := cs\<rparr>) = grants_ok st"
  "grants_ok (st\<lparr>ws_path_to_document := ix\<rparr>) = grants_ok st"
  by (simp_all add: roots_ok_def index_ok_def grants_ok_def)

text \<open>The number the code counts.\<close>

lemma held_count:
  assumes "distinct (map fst (ws_documents st))"
  shows "length (filter (\<lambda>(document_id, _). cell_has_access st client_id document_id) (ws_documents st))
         = card (held_by st client_id)" (is "length (filter ?p ?docs) = _")
proof -
  have "distinct (map fst (filter ?p ?docs))" using assms by (rule distinct_map_filter)
  then have "length (filter ?p ?docs) = card (fst ` set (filter ?p ?docs))"
    by (metis distinct_card length_map set_map)
  also have "fst ` set (filter ?p ?docs) = held_by st client_id"
    using assms by (force simp: held_by_def map_of_eq_None_iff dest: map_of_SomeD)
  finally show ?thesis .
qed

lemma enforce_document_ceilings_ok:
  assumes "enforce_document_ceilings st client_id = Inr u" and "index_ok st"
  shows "length (ws_documents st) < max_server_documents" and "card (held_by st client_id) < max_documents_per_client"
  using assms held_count[of st client_id]
  by (simp_all add: enforce_document_ceilings_def index_ok_def split: if_splits)

section \<open>Roots\<close>

lemma insert_root_core:
  assumes "registry_ok st" and "length (ws_roots st) < max_workspace_roots" and "insert_root st a = (st', root_id)"
  shows "registry_ok st'" and "map_of (ws_roots st') root_id = Some a"
    and "st' = st\<lparr>ws_roots := ws_roots st', ws_next_root_id := ws_next_root_id st'\<rparr>"
    and "root_grants st i p \<Longrightarrow> root_grants st' i p"
proof -
  have ok: "roots_ok st" using assms(1) by (simp add: registry_parts)
  have fresh: "map_of (ws_roots st) (Suc (length (ws_roots st))) = None"
    using ok by (auto simp: roots_ok_def map_of_eq_None_iff)
  have st': "st' = st\<lparr>ws_next_root_id := Suc (Suc (length (ws_roots st))),
      ws_roots := AList.update (Suc (length (ws_roots st))) a (ws_roots st)\<rparr>"
    and id: "root_id = Suc (length (ws_roots st))"
    using assms(2,3) ok by (auto simp: insert_root_def roots_ok_def sat_add_def u64_max_def max_workspace_roots_def)
  have upd: "length (AList.update k v xs) = Suc (length xs)"
    "fst ` set (AList.update k v xs) = insert k (fst ` set xs)" if "map_of xs k = None"
    for k :: nat and v :: workspace_authority and xs
    using that by (induction xs) (auto split: if_splits)
  show grow: "root_grants st' i p" if "root_grants st i p" for i p
    using that fresh by (auto simp: root_grants_def st' update_conv' id)
  have "roots_ok st'"
    using ok assms(2) upd[OF fresh] by (auto simp: roots_ok_def st' distinct_update le_SucI)
  moreover have "grants_ok st'" using assms(1) grow by (auto simp: registry_parts grants_ok_def st')
  ultimately show "registry_ok st'"
    using assms(1) by (simp add: registry_parts index_ok_def cells_ok_def ceilings_ok_def all_held_def st')
  show "map_of (ws_roots st') root_id = Some a" by (simp add: st' id update_conv')
  show "st' = st\<lparr>ws_roots := ws_roots st', ws_next_root_id := ws_next_root_id st'\<rparr>" by (simp add: st')
qed

text \<open>An operation that may only add a root.\<close>

definition roots_grow :: "'r workspace_state \<Rightarrow> 'r workspace_state \<Rightarrow> bool" where
  "roots_grow st st' \<longleftrightarrow> st' = st\<lparr>ws_roots := ws_roots st', ws_next_root_id := ws_next_root_id st'\<rparr>
     \<and> (\<forall>i p. root_grants st i p \<longrightarrow> root_grants st' i p) \<and> (registry_ok st \<longrightarrow> registry_ok st')"

lemma roots_grow_refl [simp]: "roots_grow st st"
  by (simp add: roots_grow_def)

lemma roots_grow_insert:
  "registry_ok st \<Longrightarrow> \<not> max_workspace_roots \<le> length (ws_roots st) \<Longrightarrow> insert_root st a = (st', i) \<Longrightarrow> roots_grow st st'"
  using insert_root_core by (auto simp: roots_grow_def not_le)

lemma roots_grow_ops:
  assumes "registry_ok st"
  shows "add_single_file_grant st p = (st', r) \<Longrightarrow> roots_grow st st'"
    and add_root_grows: "add_root fs st q = (st', r) \<Longrightarrow> roots_grow st st'"
    and "add_root_from_cwd fs cwd st = (st', r') \<Longrightarrow> roots_grow st st'"
    and "discover_root_for_path fs ex st q = (st', r') \<Longrightarrow> roots_grow st st'"
    and "add_explicit_user_grant fs st q = (st', r) \<Longrightarrow> roots_grow st st'"
proof -
  show single: "roots_grow st st'" if "add_single_file_grant st p = (st', r)" for p st' r
    using that roots_grow_insert[OF assms] by (auto simp: add_single_file_grant_def split: if_splits prod.splits)
  show add: "roots_grow st st'" if "add_root fs st q = (st', r)" for q st' r
    using that roots_grow_insert[OF assms]
    by (auto simp: add_root_def split: if_splits prod.splits option.splits)
  show "add_root_from_cwd fs cwd st = (st', r') \<Longrightarrow> roots_grow st st'"
    using add by (auto simp: add_root_from_cwd_def split: if_splits prod.splits option.splits sum.splits)
  show "discover_root_for_path fs ex st q = (st', r') \<Longrightarrow> roots_grow st st'"
    using add by (auto simp: discover_root_for_path_def split: if_splits prod.splits option.splits sum.splits)
  show "add_explicit_user_grant fs st q = (st', r) \<Longrightarrow> roots_grow st st'"
    using add single by (auto simp: add_explicit_user_grant_def split: if_splits prod.splits option.splits)
qed

section \<open>Cells\<close>

lemma has_access_iff: "client_id \<noteq> 0 \<Longrightarrow> has_access d client_id \<longleftrightarrow> client_id \<in> ds_access_holders d"
  by (simp add: has_access_def)

lemma acquire_access_holders [simp]:
  "ds_access_holders (fst (acquire_access d c)) = insert c (ds_access_holders d)"
  "ds_dirty (fst (acquire_access d c)) = ds_dirty d" "ds_text (fst (acquire_access d c)) = ds_text d"
  by (auto simp: acquire_access_def Let_def split: option.splits)

lemma release_access_holders [simp]:
  "ds_access_holders (release_access d c) = ds_access_holders d - {c}"
  "ds_dirty (release_access d c) = ds_dirty d" "ds_text (release_access d c) = ds_text d"
  by (auto simp: release_access_def Let_def split: option.splits)

lemmas access_frame [simp] = acquire_access_frame release_access_frame

text \<open>A registered document has its cell and its index entry.\<close>

lemma registered:
  assumes "registry_core st" and "map_of (ws_documents st) document_id = Some f"
  obtains d where "ws_cells st document_id = Some d" "ds_document_id d = document_id" "finite (ds_access_holders d)"
    "ws_path_to_document st (fd_canonical_path f) = Some document_id"
    "root_grants st (fd_workspace_root_id f) (fd_canonical_path f)"
  using assms by (force simp: registry_core_def cells_ok_def index_ok_def grants_ok_def)

lemma indexed:
  assumes "registry_core st" and "ws_path_to_document st p = Some document_id"
  obtains f d where "map_of (ws_documents st) document_id = Some f" "fd_canonical_path f = p"
    "ws_cells st document_id = Some d" "ds_document_id d = document_id" "finite (ds_access_holders d)"
  using assms by (force simp: registry_core_def cells_ok_def index_ok_def)

lemma held_ceiling: "registry_core st \<Longrightarrow> c \<noteq> 0 \<Longrightarrow> card (held_by st c) \<le> max_documents_per_client"
  by (simp add: registry_core_def ceilings_ok_def)

text \<open>Replacing the content of a cell; new holders must be below their ceiling.\<close>

lemma core_cell:
  assumes core: "registry_core st" and cell: "ws_cells st document_id = Some d"
    and d': "ds_document_id d' = document_id" "finite (ds_access_holders d')"
    and holders: "\<And>c. c \<noteq> 0 \<Longrightarrow> c \<in> ds_access_holders d' \<Longrightarrow>
      c \<in> ds_access_holders d \<or> card (held_by st c) < max_documents_per_client"
  shows "registry_core (st\<lparr>ws_cells := (ws_cells st)(document_id \<mapsto> d')\<rparr>)" (is "registry_core ?st")
proof -
  have "card (held_by ?st c) \<le> max_documents_per_client" if c: "c \<noteq> 0" for c
  proof (cases "c \<in> ds_access_holders d' \<and> c \<notin> ds_access_holders d")
    case True
    have "held_by ?st c \<subseteq> insert document_id (held_by st c)"
      by (auto simp: held_by_def cell_has_access_def split: if_splits)
    then have "card (held_by ?st c) \<le> card (insert document_id (held_by st c))" by (intro card_mono) simp_all
    also have "\<dots> \<le> Suc (card (held_by st c))" by (simp add: card_insert_if)
    finally show ?thesis using holders[OF c] True by simp
  next
    case False
    then have "held_by ?st c \<subseteq> held_by st c"
      using cell c by (auto simp: held_by_def cell_has_access_def has_access_iff split: if_splits)
    then have "card (held_by ?st c) \<le> card (held_by st c)" by (intro card_mono) simp_all
    then show ?thesis using held_ceiling[OF core c] by simp
  qed
  moreover have "roots_ok ?st" "index_ok ?st" "grants_ok ?st" "cells_ok ?st"
    using core cell d' by (simp_all add: registry_core_def cells_ok_def)
  ultimately show ?thesis using core by (simp add: registry_core_def ceilings_ok_def)
qed

lemma all_held_cell:
  assumes "all_held st" and "ds_access_holders d' \<noteq> {}"
  shows "all_held (st\<lparr>ws_cells := (ws_cells st)(document_id \<mapsto> d')\<rparr>)"
  using assms by (auto simp: all_held_def)

section \<open>Opening\<close>

text \<open>Looking for an open document never fails, and changes at most the holders and lease of its cell.\<close>

lemma existing_document_lease_effect:
  assumes ok: "registry_ok st"
  obtains (absent) "existing_document_lease st p client_id = Some (st, None)" "ws_path_to_document st p = None"
  | (refused) e where "existing_document_lease st p client_id = Some (st, Some (Inl e))"
  | (granted) document_id f d access where
      "existing_document_lease st p client_id =
         Some (st\<lparr>ws_cells := (ws_cells st)(document_id \<mapsto> fst (acquire_access d client_id))\<rparr>,
               Some (Inr \<lparr>ol_document_id = document_id, ol_access = access, ol_file_state = f\<rparr>))"
      "map_of (ws_documents st) document_id = Some f" "fd_canonical_path f = p" "ws_cells st document_id = Some d"
      "registry_ok (st\<lparr>ws_cells := (ws_cells st)(document_id \<mapsto> fst (acquire_access d client_id))\<rparr>)"
proof (cases "ws_path_to_document st p")
  case None
  then show thesis by (intro absent) (simp_all add: existing_document_lease_def)
next
  case (Some document_id)
  have core: "registry_core st" using ok by (simp add: registry_ok_def)
  from indexed[OF core Some] obtain f d where f: "map_of (ws_documents st) document_id = Some f" "fd_canonical_path f = p"
    and d: "ws_cells st document_id = Some d" "ds_document_id d = document_id" "finite (ds_access_holders d)" .
  show thesis
  proof (cases "if \<not> has_access d client_id then enforce_document_ceilings st client_id else Inr ()")
    case (Inl e)
    then show thesis using Some f d by (intro refused[of e]) (simp add: existing_document_lease_def)
  next
    case (Inr u)
    have "client_id \<in> ds_access_holders d \<or> card (held_by st client_id) < max_documents_per_client"
      if "client_id \<noteq> 0"
      using Inr enforce_document_ceilings_ok(2)[of st client_id] core that
      by (auto simp: has_access_iff registry_core_def split: if_splits)
    then have "registry_core (st\<lparr>ws_cells := (ws_cells st)(document_id \<mapsto> fst (acquire_access d client_id))\<rparr>)"
      using d by (intro core_cell[OF core d(1)]) auto
    moreover have "all_held (st\<lparr>ws_cells := (ws_cells st)(document_id \<mapsto> fst (acquire_access d client_id))\<rparr>)"
      using ok by (intro all_held_cell) (auto simp: registry_ok_def)
    ultimately show thesis
      using Some f d Inr
      by (intro granted[of document_id d "snd (acquire_access d client_id)" f])
        (simp_all add: existing_document_lease_def registry_ok_def split_beta Let_def)
  qed
qed

lemma allocate_document_id_effect:
  assumes "allocate_document_id st = (st', document_id)" and "next_id st < u64_max"
  shows "document_id = next_id st" and "next_id st' = Suc (next_id st)"
    and "st' = st\<lparr>ws_next_document_id := ws_next_document_id st', ws_document_id_allocator := ws_document_id_allocator st'\<rparr>"
  using assms by (auto simp: allocate_document_id_def next_id_def wrap_add_def sat_add_def split: option.splits)

lemma length_update_new:
  "map_of xs k = None \<Longrightarrow> length (AList.update k v xs) = Suc (length xs)"
  by (induction xs) (auto split: if_splits)

lemma register_new:
  assumes ok: "registry_ok st" and absent: "ws_path_to_document st (fd_canonical_path f) = None"
    and ceiling: "enforce_document_ceilings st client_id = Inr u" and fits: "next_id st < u64_max"
    and granted: "root_grants st (fd_workspace_root_id f) (fd_canonical_path f)"
    and alloc: "allocate_document_id st = (st', document_id)"
    and d: "ds_document_id d = document_id" "ds_access_holders d = {client_id}"
  shows "registry_ok (st'\<lparr>ws_cells := (ws_cells st')(document_id \<mapsto> d),
           ws_path_to_document := (ws_path_to_document st')(fd_canonical_path f \<mapsto> document_id),
           ws_documents := AList.update document_id f (ws_documents st')\<rparr>)" (is "registry_ok ?st")
proof -
  have core: "registry_core st" using ok by (simp add: registry_ok_def)
  note a = allocate_document_id_effect[OF alloc fits]
  have same: "ws_roots st' = ws_roots st" "ws_documents st' = ws_documents st" "ws_cells st' = ws_cells st"
    "ws_path_to_document st' = ws_path_to_document st" "ws_next_root_id st' = ws_next_root_id st"
    by (subst a(3), simp)+
  have fresh: "ws_cells st document_id = None" using core by (cases "ws_cells st document_id") (auto simp: registry_core_def cells_ok_def a(1))
  then have new: "map_of (ws_documents st) document_id = None" using core by (auto simp: registry_core_def cells_ok_def)
  have low: "length (ws_documents st) < max_server_documents" "card (held_by st client_id) < max_documents_per_client"
    using enforce_document_ceilings_ok[OF ceiling] core by (simp_all add: registry_core_def)
  have "card (held_by ?st c) \<le> max_documents_per_client" if c: "c \<noteq> 0" for c
  proof -
    have "held_by ?st c \<subseteq> (if c = client_id then insert document_id (held_by st c) else held_by st c)"
      using c d by (auto simp: held_by_def cell_has_access_def same update_conv' has_access_iff)
    then have "card (held_by ?st c) \<le> card (if c = client_id then insert document_id (held_by st c) else held_by st c)"
      by (intro card_mono) simp_all
    also have "\<dots> \<le> max_documents_per_client"
      using low held_ceiling[OF core c] by (simp add: card_insert_if)
    finally show ?thesis .
  qed
  then have "ceilings_ok ?st" using low by (simp add: ceilings_ok_def same length_update_new[OF new])
  moreover have "roots_ok ?st" using core by (simp add: registry_core_def roots_ok_def same)
  moreover have "index_ok ?st"
    unfolding index_ok_def
  proof (intro conjI allI)
    show "distinct (map fst (ws_documents ?st))" using core by (simp add: registry_core_def index_ok_def same distinct_update)
    fix p i
    have "ws_path_to_document st p = Some i \<longleftrightarrow> (\<exists>g. map_of (ws_documents st) i = Some g \<and> fd_canonical_path g = p)" for p i
      using core unfolding registry_core_def index_ok_def by blast
    then show "ws_path_to_document ?st p = Some i \<longleftrightarrow>
        (\<exists>g. map_of (ws_documents ?st) i = Some g \<and> fd_canonical_path g = p)"
      using absent new by (auto simp: same update_conv') (metis option.distinct(1))+
  qed
  moreover have "grants_ok ?st"
    using core granted by (auto simp: registry_core_def grants_ok_def same update_conv' root_grants_def)
  moreover have "cells_ok ?st"
    using core d a fits by (auto simp: registry_core_def cells_ok_def same update_conv' less_Suc_eq)
  moreover have "all_held ?st" using ok d by (auto simp: registry_ok_def all_held_def same update_conv')
  ultimately show ?thesis by (simp add: registry_parts)
qed

section \<open>What an operation may change\<close>

text \<open>Version, text and dirty mark of a cell: all that saving depends on.\<close>

definition cell_view :: "'r workspace_state \<Rightarrow> nat \<Rightarrow> (nat \<times> 'r \<times> bool) option" where
  "cell_view st document_id = map_option (\<lambda>d. (ds_version d, ds_text d, ds_dirty d)) (ws_cells st document_id)"

text \<open>Documents may disappear from the registry and roots may be added; texts stay.\<close>

definition quiet :: "'r workspace_state \<Rightarrow> 'r workspace_state \<Rightarrow> bool" where
  "quiet st st' \<longleftrightarrow>
     (\<forall>i f. map_of (ws_documents st') i = Some f \<longrightarrow> map_of (ws_documents st) i = Some f)
     \<and> (\<forall>i. cell_view st' i = cell_view st i) \<and> (\<forall>i p. root_grants st i p \<longrightarrow> root_grants st' i p)"

text \<open>One document is new, with the text read.\<close>

definition opened_new :: "'r rope_ops \<Rightarrow> 'r workspace_state \<Rightarrow> file_document_state \<Rightarrow> ustr \<Rightarrow> 'r workspace_state \<Rightarrow> bool" where
  "opened_new R st f content st' \<longleftrightarrow> (\<exists>document_id. ws_cells st document_id = None
     \<and> (\<forall>i. map_of (ws_documents st') i = (if i = document_id then Some f else map_of (ws_documents st) i))
     \<and> (\<forall>i. cell_view st' i = (if i = document_id then Some (1, rope_from R content, False) else cell_view st i))
     \<and> (\<forall>i p. root_grants st i p \<longrightarrow> root_grants st' i p))"

lemma quiet_refl [simp]: "quiet st st"
  by (simp add: quiet_def)

lemma quiet_trans: "quiet st st' \<Longrightarrow> quiet st' st'' \<Longrightarrow> quiet st st''"
  by (simp add: quiet_def)

lemma roots_grow_quiet: "roots_grow st st' \<Longrightarrow> quiet st st'"
  unfolding roots_grow_def quiet_def cell_view_def
  by (metis (no_types, lifting) workspace_state.select_convs(2,3) workspace_state.surjective
      workspace_state.update_convs(1,5))

lemma quiet_cell:
  assumes "ws_cells st document_id = Some d"
    and "ds_version d' = ds_version d" "ds_text d' = ds_text d" "ds_dirty d' = ds_dirty d"
  shows "quiet st (st\<lparr>ws_cells := (ws_cells st)(document_id \<mapsto> d')\<rparr>)"
  using assms by (simp add: quiet_def cell_view_def)

lemma existing_lease_kept:
  assumes "registry_ok st" and "existing_document_lease st p client_id = Some (st', r)"
  shows "registry_ok st'" and "quiet st st'" and "r = None \<longleftrightarrow> ws_path_to_document st p = None" and "r = None \<Longrightarrow> st' = st"
proof -
  have "registry_ok st' \<and> quiet st st' \<and> (r = None \<longrightarrow> st' = st \<and> ws_path_to_document st p = None)"
  proof (cases rule: existing_document_lease_effect[OF assms(1), of p client_id])
    case (3 document_id f d access)
    then show ?thesis using assms(2) quiet_cell[OF 3(4), of "fst (acquire_access d client_id)"] by auto
  qed (use assms in auto)
  moreover have "ws_path_to_document st p = None \<Longrightarrow> r = None"
    using assms(2) by (simp add: existing_document_lease_def)
  ultimately show "registry_ok st'" and "quiet st st'" and "r = None \<longleftrightarrow> ws_path_to_document st p = None"
    and "r = None \<Longrightarrow> st' = st"
    by auto
qed

lemma register_canonical_file_effect:
  assumes ok: "registry_ok st" and fits: "next_id st < u64_max"
    and granted: "root_grants st (fd_workspace_root_id f) (fd_canonical_path f)"
  obtains st' r where "register_canonical_file R st f content client_id = Some (st', r)" "registry_ok st'"
    "quiet st st' \<or> opened_new R st f content st'"
proof (cases rule: existing_document_lease_effect[OF ok, of "fd_canonical_path f" client_id])
  case 1
  show thesis
  proof (cases "enforce_document_ceilings st client_id")
    case (Inl e)
    then show thesis using 1 ok by (intro that[of st "Inl e"]) (simp_all add: register_canonical_file_def)
  next
    case (Inr u)
    obtain st1 document_id where alloc: "allocate_document_id st = (st1, document_id)" by force
    define d where "d = fst (acquire_access (document_new R document_id content) client_id)"
    define st2 where "st2 = st1\<lparr>ws_cells := (ws_cells st1)(document_id \<mapsto> d),
      ws_path_to_document := (ws_path_to_document st1)(fd_canonical_path f \<mapsto> document_id),
      ws_documents := AList.update document_id f (ws_documents st1)\<rparr>"
    have d: "ds_document_id d = document_id" "ds_access_holders d = {client_id}" "ds_version d = 1"
      "ds_text d = rope_from R content" "\<not> ds_dirty d"
      by (simp_all add: d_def document_new_def)
    have "registry_ok st2"
      unfolding st2_def by (rule register_new[OF ok 1(2) Inr fits granted alloc d(1,2)])
    moreover have "opened_new R st f content st2"
    proof -
      note a = allocate_document_id_effect[OF alloc fits]
      have same: "ws_documents st1 = ws_documents st" "ws_cells st1 = ws_cells st" "ws_roots st1 = ws_roots st"
        by (subst a(3), simp)+
      have "ws_cells st document_id = None"
        using ok by (cases "ws_cells st document_id") (auto simp: registry_parts cells_ok_def a(1))
      then show ?thesis
        using d by (auto simp: opened_new_def st2_def same update_conv' cell_view_def root_grants_def)
    qed
    moreover have "\<exists>r. register_canonical_file R st f content client_id = Some (st2, r)"
      using 1 Inr alloc by (simp add: register_canonical_file_def split_beta Let_def st2_def d_def)
    ultimately show thesis using that by blast
  qed
next
  case (2 e)
  then show thesis using ok by (intro that[of st "Inl e"]) (simp_all add: register_canonical_file_def)
next
  case (3 document_id g d access)
  then show thesis using quiet_cell[OF 3(4), of "fst (acquire_access d client_id)"]
    by (intro that[OF _ 3(5)]) (simp_all add: register_canonical_file_def)
qed

lemma root_grants_cong: "ws_roots st' = ws_roots st \<Longrightarrow> root_grants st' = root_grants st"
  by (simp add: root_grants_def fun_eq_iff)

lemma add_single_file_grant_granted:
  assumes "registry_ok st" and "add_single_file_grant st p = (st', Inr root_id)"
  shows "root_grants st' root_id p"
  using assms insert_root_core(2)[OF assms(1), of "Single_File p" st' root_id]
  by (auto simp: add_single_file_grant_def root_grants_def split: if_splits prod.splits)

lemma register_selected_file_effect:
  assumes ok: "registry_ok st" and fits: "next_id st < u64_max"
  obtains st' r f where "register_selected_file R st plan content metadata = Some (st', r)" "registry_ok st'"
    "quiet st st' \<or> opened_new R st f content st'" "fd_canonical_path f = so_canonical_path plan"
    "fd_last_known_metadata f = metadata"
proof -
  define f where "f root_id = \<lparr>fd_workspace_root_id = root_id, fd_canonical_path = so_canonical_path plan,
    fd_workspace_relative_path = so_display_path plan, fd_last_known_metadata = metadata\<rparr>" for root_id
  have f: "fd_canonical_path (f i) = so_canonical_path plan" "fd_last_known_metadata (f i) = metadata"
    "fd_workspace_root_id (f i) = i" for i
    by (simp_all add: f_def)
  show thesis
  proof (cases rule: existing_document_lease_effect[OF ok, of "so_canonical_path plan" "so_client_id plan"])
    case 1
    show thesis
    proof (cases "enforce_document_ceilings st (so_client_id plan)")
      case (Inl e)
      then show thesis using 1 ok
        by (intro that[OF _ ok _ f(1,2)[of 0]]) (simp_all add: register_selected_file_def)
    next
      case (Inr u)
      obtain st1 g where grant: "add_single_file_grant st (so_canonical_path plan) = (st1, g)" by force
      have grow: "roots_grow st st1" by (rule roots_grow_ops(1)[OF ok grant])
      then have ok1: "registry_ok st1" using ok by (simp add: roots_grow_def)
      show thesis
      proof (cases g)
        case (Inl e)
        then show thesis using 1 Inr grant roots_grow_quiet[OF grow]
          by (intro that[OF _ ok1 _ f(1,2)[of 0]]) (simp_all add: register_selected_file_def)
      next
        case g: (Inr root_id)
        have "st1 = st\<lparr>ws_roots := ws_roots st1, ws_next_root_id := ws_next_root_id st1\<rparr>"
          using grow by (simp add: roots_grow_def)
        then have same: "next_id st1 = next_id st" "ws_cells st1 = ws_cells st" "ws_documents st1 = ws_documents st"
          by (metis next_id_updates(1,2), (metis workspace_state.select_convs(2,3) workspace_state.surjective
              workspace_state.update_convs(1,5))+)
        have "root_grants st1 (fd_workspace_root_id (f root_id)) (fd_canonical_path (f root_id))"
          using add_single_file_grant_granted[OF ok] grant g by (simp add: f)
        from register_canonical_file_effect[OF ok1 _ this, of R content "so_client_id plan"] fits same
        obtain st' r where reg: "register_canonical_file R st1 (f root_id) content (so_client_id plan) = Some (st', r)"
          "registry_ok st'" "quiet st1 st' \<or> opened_new R st1 (f root_id) content st'" by auto
        have "quiet st st' \<or> opened_new R st (f root_id) content st'"
          using reg(3) roots_grow_quiet[OF grow] same
          by (auto intro: quiet_trans simp: opened_new_def quiet_def)
        then show thesis
          using 1 Inr grant g reg by (intro that[OF _ reg(2) _ f(1,2)]) (simp_all add: register_selected_file_def f_def)
      qed
    qed
  next
    case (2 e)
    then show thesis using ok by (intro that[OF _ ok _ f(1,2)[of 0]]) (simp_all add: register_selected_file_def)
  next
    case (3 document_id g d access)
    then show thesis using quiet_cell[OF 3(4), of "fst (acquire_access d (so_client_id plan))"]
      by (intro that[OF _ 3(5) _ f(1,2)[of 0]]) (simp_all add: register_selected_file_def)
  qed
qed

lemma canonical_file_state_granted:
  assumes "canonical_file_state fs st root_id q = Inr f"
  shows "root_grants st (fd_workspace_root_id f) (fd_canonical_path f)"
  using assms by (auto simp: canonical_file_state_def bind_result_Inr ok_or_Inr root_grants_def Let_def split: if_splits)

lemma prepare_open_existing_effect:
  assumes ok: "registry_ok st"
  obtains st' r where "prepare_open_existing fs st root_id q client_id = Some (st', r)" "registry_ok st'" "quiet st st'"
    "\<And>plan. r = Inr (Inr plan) \<Longrightarrow>
       root_grants st' (fd_workspace_root_id (op_file_state plan)) (fd_canonical_path (op_file_state plan))"
proof (cases "canonical_file_state fs st root_id q")
  case (Inl e)
  then show thesis using ok by (intro that[of st "Inl e"]) (simp_all add: prepare_open_existing_def)
next
  case (Inr f)
  show thesis
  proof (cases rule: existing_document_lease_effect[OF ok, of "fd_canonical_path f" client_id])
    case 1
    then show thesis using Inr ok canonical_file_state_granted[OF Inr]
      by (intro that[of st]) (auto simp: prepare_open_existing_def bind_result_Inr)
  next
    case (2 e)
    then show thesis using Inr ok by (intro that[of st "Inl e"]) (simp_all add: prepare_open_existing_def)
  next
    case (3 document_id g d access)
    then show thesis using Inr quiet_cell[OF 3(4), of "fst (acquire_access d client_id)"]
      by (intro that[OF _ 3(5)]) (simp add: prepare_open_existing_def, simp, auto)
  qed
qed

lemma prepare_open_selected_effect:
  assumes ok: "registry_ok st"
  obtains st' r where "prepare_open_selected fs st q client_id = Some (st', r)" "registry_ok st'" "quiet st st'"
proof (cases "canonical_selected_file fs q")
  case (Inl e)
  then show thesis using ok by (intro that[of st "Inl e"]) (simp_all add: prepare_open_selected_def)
next
  case (Inr c)
  obtain p m disp where c: "c = (p, m, disp)" by (cases c)
  show thesis
  proof (cases rule: existing_document_lease_effect[OF ok, of p client_id])
    case (2 e)
    then show thesis using Inr c ok by (intro that[of st "Inl e"]) (simp_all add: prepare_open_selected_def)
  next
    case (3 document_id g d access)
    then show thesis using Inr c quiet_cell[OF 3(4), of "fst (acquire_access d client_id)"]
      by (intro that[OF _ 3(5)]) (simp_all add: prepare_open_selected_def)
  qed (use Inr c ok that in \<open>auto simp: prepare_open_selected_def\<close>)
qed

section \<open>Closing\<close>

lemma length_delete_le: "length (AList.delete k xs) \<le> length xs"
  by (simp add: AList.delete_eq)

lemma remove_document_effect:
  assumes core: "registry_core st" and f: "map_of (ws_documents st) document_id = Some f"
  obtains st' where "remove_document st document_id = Some st'" "registry_core st'" "ws_cells st' = ws_cells st"
    "map_of (ws_documents st') = (map_of (ws_documents st))(document_id := None)" "ws_roots st' = ws_roots st"
proof -
  let ?st = "st\<lparr>ws_documents := AList.delete document_id (ws_documents st),
    ws_path_to_document := (ws_path_to_document st)(fd_canonical_path f := None)\<rparr>"
  have docs: "map_of (ws_documents ?st) = (map_of (ws_documents st))(document_id := None)"
    by (simp add: delete_conv')
  have ix: "ws_path_to_document st p = Some i \<longleftrightarrow> (\<exists>g. map_of (ws_documents st) i = Some g \<and> fd_canonical_path g = p)" for p i
    using core unfolding registry_core_def index_ok_def by blast
  have "index_ok ?st"
    unfolding index_ok_def
  proof (intro conjI allI)
    show "distinct (map fst (ws_documents ?st))" using core by (simp add: registry_core_def index_ok_def distinct_delete)
    fix p i
    show "ws_path_to_document ?st p = Some i \<longleftrightarrow> (\<exists>g. map_of (ws_documents ?st) i = Some g \<and> fd_canonical_path g = p)"
      unfolding docs using ix f by (auto simp del: map_of_eq_Some_iff) (metis option.inject)+
  qed
  moreover have "ceilings_ok ?st"
  proof -
    have "card (held_by ?st c) \<le> card (held_by st c)" for c
      by (rule card_mono, rule finite_held_by) (auto simp: held_by_def cell_has_access_def delete_conv' split: if_splits)
    then show ?thesis using core length_delete_le[of document_id "ws_documents st"]
      by (auto simp: registry_core_def ceilings_ok_def intro: order_trans)
  qed
  moreover have "roots_ok ?st" "grants_ok ?st" "cells_ok ?st"
    using core by (auto simp: registry_core_def cells_ok_def grants_ok_def delete_conv' split: if_splits)
  ultimately show thesis using f docs
    by (intro that[of ?st]) (simp_all add: registry_core_def remove_document_def)
qed

lemma cell_view_release:
  assumes "ws_cells st i = Some d"
  shows "cell_view (st\<lparr>ws_cells := (ws_cells st)(i \<mapsto> release_access d c)\<rparr>) = cell_view st"
  using assms by (auto simp: cell_view_def fun_eq_iff)

lemma core_release:
  assumes "registry_core st" and "ws_cells st i = Some d"
  shows "registry_core (st\<lparr>ws_cells := (ws_cells st)(i \<mapsto> release_access d c)\<rparr>)"
proof (rule core_cell[OF assms])
  have "ds_document_id d = i" "finite (ds_access_holders d)"
    using assms by (auto simp: registry_core_def cells_ok_def)
  then show "ds_document_id (release_access d c) = i" "finite (ds_access_holders (release_access d c))" by simp_all
qed auto

lemma close_document_effect:
  assumes ok: "registry_ok st"
  obtains st' r where "close_document st document_id client_id force = Some (st', r)" "registry_ok st'" "quiet st st'"
proof (cases "map_of (ws_documents st) document_id")
  case None
  then show thesis using ok by (intro that[of st "Inl (Unknown_Document document_id)"]) (simp_all add: close_document_def)
next
  case (Some f)
  have core: "registry_core st" using ok by (simp add: registry_ok_def)
  obtain d where d: "ws_cells st document_id = Some d" "finite (ds_access_holders d)"
    using registered[OF core Some] by metis
  let ?d = "release_access d client_id"
  let ?st = "st\<lparr>ws_cells := (ws_cells st)(document_id \<mapsto> ?d)\<rparr>"
  have core': "registry_core ?st" by (rule core_release[OF core d(1)])
  have q: "quiet st ?st" using d(1) by (intro quiet_cell) simp_all
  consider "\<not> has_access d client_id" | "ds_dirty d \<and> \<not> force" "has_access d client_id"
    | (kept) "has_access d client_id" "\<not> (ds_dirty d \<and> \<not> force)" "ds_access_holders ?d \<noteq> {}"
    | (last) "has_access d client_id" "\<not> (ds_dirty d \<and> \<not> force)" "ds_access_holders ?d = {}"
    by blast
  then show thesis
  proof cases
    case kept
    then have "access_holder_count ?d \<noteq> 0" using d by (simp add: access_holder_count_def)
    moreover have "registry_ok ?st"
      using core' ok kept all_held_cell[of st ?d document_id] by (simp add: registry_ok_def)
    ultimately show thesis using kept Some d q
      by (intro that[of ?st "Inr \<lparr>cd_document_id = document_id, cd_version = ds_version d, cd_closed = False\<rparr>"])
        (auto simp: close_document_def Let_def)
  next
    case last
    then have "access_holder_count ?d = 0" unfolding access_holder_count_def by (metis card.empty)
    moreover obtain st' where st': "remove_document ?st document_id = Some st'" "registry_core st'"
      "ws_cells st' = ws_cells ?st" "map_of (ws_documents st') = (map_of (ws_documents ?st))(document_id := None)"
      "ws_roots st' = ws_roots ?st"
      using remove_document_effect[OF core', of document_id f] Some by auto
    moreover have "registry_ok st'"
      using ok st' by (auto simp: registry_ok_def all_held_def split: if_splits)
    moreover have "quiet st st'"
      using q st' by (auto simp: quiet_def cell_view_def root_grants_def)
    ultimately show thesis using last Some d
      by (intro that[of st' "Inr \<lparr>cd_document_id = document_id, cd_version = ds_version d, cd_closed = True\<rparr>"])
        (auto simp: close_document_def Let_def)
  qed (use Some d ok that in \<open>auto simp: close_document_def\<close>)
qed

text \<open>When a connection ends, exactly the documents nobody else holds go.\<close>

lemma release_loop_effect:
  assumes "registry_core st" and "distinct ids" and "set ids \<subseteq> dom (map_of (ws_documents st))"
    and "release_loop st c ids = (st', finalized)"
  shows "registry_core st' \<and> ws_documents st' = ws_documents st \<and> ws_roots st' = ws_roots st
    \<and> (\<forall>i. ws_cells st' i = (if i \<in> set ids then map_option (\<lambda>d. release_access d c) (ws_cells st i) else ws_cells st i))
    \<and> fst ` set finalized = {i \<in> set ids. \<exists>d. ws_cells st i = Some d \<and> ds_access_holders d \<subseteq> {c}}"
  using assms
proof (induction ids arbitrary: st st' finalized)
  case Nil
  then show ?case by simp
next
  case (Cons i ids)
  from Cons.prems(3) obtain f where f: "map_of (ws_documents st) i = Some f" by auto
  obtain d where d: "ws_cells st i = Some d" "finite (ds_access_holders d)"
    using registered[OF Cons.prems(1) f] by metis
  let ?st = "st\<lparr>ws_cells := (ws_cells st)(i \<mapsto> release_access d c)\<rparr>"
  obtain fin where rec: "release_loop ?st c ids = (st', fin)"
    and fin: "finalized = (if access_holder_count (release_access d c) = 0 then (i, ds_version d) # fin else fin)"
    using Cons.prems(4) d by (auto simp: Let_def split: prod.splits)
  have "access_holder_count (release_access d c) = 0 \<longleftrightarrow> ds_access_holders d \<subseteq> {c}"
    using d by (auto simp: access_holder_count_def)
  moreover have "registry_core st' \<and> ws_documents st' = ws_documents ?st \<and> ws_roots st' = ws_roots ?st
    \<and> (\<forall>j. ws_cells st' j = (if j \<in> set ids then map_option (\<lambda>d. release_access d c) (ws_cells ?st j) else ws_cells ?st j))
    \<and> fst ` set fin = {j \<in> set ids. \<exists>d. ws_cells ?st j = Some d \<and> ds_access_holders d \<subseteq> {c}}"
    using Cons.prems(2,3) by (intro Cons.IH[OF core_release[OF Cons.prems(1) d(1)] _ _ rec]) auto
  ultimately show ?case using Cons.prems(2) d fin by auto
qed

lemma remove_all_effect:
  assumes "registry_core st" and "distinct ids" and "set ids \<subseteq> dom (map_of (ws_documents st))"
  shows "registry_core (foldl remove_if_present st ids)
    \<and> ws_cells (foldl remove_if_present st ids) = ws_cells st
    \<and> map_of (ws_documents (foldl remove_if_present st ids)) = map_of (ws_documents st) |` (- set ids)
    \<and> ws_roots (foldl remove_if_present st ids) = ws_roots st"
  using assms
proof (induction ids arbitrary: st)
  case (Cons i ids)
  from Cons.prems(3) obtain f where f: "map_of (ws_documents st) i = Some f" by auto
  obtain st1 where st1: "remove_document st i = Some st1" "registry_core st1" "ws_cells st1 = ws_cells st"
    "map_of (ws_documents st1) = (map_of (ws_documents st))(i := None)" "ws_roots st1 = ws_roots st"
    using remove_document_effect[OF Cons.prems(1) f] by metis
  have ids: "distinct ids" "set ids \<subseteq> dom (map_of (ws_documents st1))" using Cons.prems(2,3) st1(4) by auto
  show ?case
    using Cons.IH[OF st1(2) ids] st1 by (auto simp: remove_if_present_def restrict_map_def fun_eq_iff)
qed (simp add: restrict_map_def fun_eq_iff)

lemma release_loop_distinct:
  fixes st :: "'r workspace_state"
  shows "distinct ids \<Longrightarrow> distinct (map fst (snd (release_loop st c ids))) \<and> fst ` set (snd (release_loop st c ids)) \<subseteq> set ids"
proof (induction ids arbitrary: st)
  case (Cons i ids)
  have "distinct (map fst (snd (release_loop st' c ids)))" "fst ` set (snd (release_loop st' c ids)) \<subseteq> set ids" for st' :: "'r workspace_state"
    using Cons.IH[of st'] Cons.prems by auto
  then show ?case using Cons.prems
    by (cases "ws_cells st i") (simp_all add: Let_def split_beta, blast+)
qed simp

lemma release_client_access_effect:
  assumes ok: "registry_ok st" and release: "release_client_access st c = (st', finalized)"
  shows "registry_ok st'" and "quiet st st'"
    and "\<And>i. map_of (ws_documents st') i = (if \<exists>d. ws_cells st i = Some d \<and> ds_access_holders d \<subseteq> {c} then None
           else map_of (ws_documents st) i)"
    and "fst ` set finalized = {i. map_of (ws_documents st) i \<noteq> None \<and> (\<exists>d. ws_cells st i = Some d \<and> ds_access_holders d \<subseteq> {c})}"
    and "ws_roots st' = ws_roots st"
proof -
  have core: "registry_core st" using ok by (simp add: registry_ok_def)
  obtain st1 where loop: "release_loop st c (map fst (ws_documents st)) = (st1, finalized)"
    and st': "st' = foldl remove_if_present st1 (map fst finalized)"
    using release by (auto simp: release_client_access_def split: prod.splits)
  have ids: "distinct (map fst (ws_documents st))" using core by (simp add: registry_core_def index_ok_def)
  have dom: "set (map fst (ws_documents st)) = dom (map_of (ws_documents st))" by (simp add: dom_map_of_conv_image_fst)
  have cell: "ws_cells st i \<noteq> None" if "i \<in> dom (map_of (ws_documents st))" for i
    using core that by (auto simp: registry_core_def cells_ok_def)
  have step: "registry_core st1" and same: "ws_documents st1 = ws_documents st" "ws_roots st1 = ws_roots st"
    and cells: "\<And>i. ws_cells st1 i = (if i \<in> dom (map_of (ws_documents st))
      then map_option (\<lambda>d. release_access d c) (ws_cells st i) else ws_cells st i)"
    and fin: "fst ` set finalized = {i \<in> dom (map_of (ws_documents st)). \<exists>d. ws_cells st i = Some d \<and> ds_access_holders d \<subseteq> {c}}"
    using release_loop_effect[OF core ids _ loop] unfolding dom by auto
  have "distinct (map fst finalized)" "set (map fst finalized) \<subseteq> dom (map_of (ws_documents st1))"
    using release_loop_distinct[OF ids, of st c] loop fin by (auto simp: same)
  from remove_all_effect[OF step this, folded st']
  have rem: "registry_core st'" "ws_cells st' = ws_cells st1" "ws_roots st' = ws_roots st1"
    "map_of (ws_documents st') = map_of (ws_documents st1) |` (- set (map fst finalized))" by auto
  show docs: "map_of (ws_documents st') i = (if \<exists>d. ws_cells st i = Some d \<and> ds_access_holders d \<subseteq> {c} then None
      else map_of (ws_documents st) i)" for i
    unfolding rem(4) using fin by (auto simp: restrict_map_def same)
  show "fst ` set finalized = {i. map_of (ws_documents st) i \<noteq> None \<and> (\<exists>d. ws_cells st i = Some d \<and> ds_access_holders d \<subseteq> {c})}"
    using fin by auto
  show "ws_roots st' = ws_roots st" using rem(3) same by simp
  have "all_held st'"
    unfolding all_held_def docs rem(2) cells by (auto split: if_splits)
  then show "registry_ok st'" using rem(1) by (simp add: registry_ok_def)
  show "quiet st st'"
    using docs rem(2,3) cells same
    by (auto simp: quiet_def cell_view_def root_grants_def option.map_comp comp_def split: if_splits)
qed

end
