(* ===== verification/Workspace_Runs.thy ===== *)
theory Workspace_Runs imports Workspace_Saving Workspace_Facts begin

text \<open>
  A workspace at work: every operation of \<open>server/workspace.rs\<close> as a step, the phases of opening, saving and
  reloading apart, so that the operations of different connections interleave as they may in
  the server, together with the requests that documents receive through their cells and with
  other programs that write to the disk.

  Two assumptions on the environment are built into the steps. A write gives a file metadata
  (length and modification time) that was not seen before: this is what the code relies on to notice
  foreign changes. And the check of the identity and the rename that follows it are one step, since the
  operating system offers no rename that compares. A reload is committed only while no save of the same
  document is between reading the text and its commit; what happens otherwise is stated in
  \<open>Workspace_Properties\<close>.
\<close>

section \<open>The system\<close>

record 'r workspace_system =
  wy_state :: "'r workspace_state"
  wy_disk :: disk
  wy_seen :: "file_metadata set"
  wy_opening :: "open_plan list"
  wy_selecting :: "selected_open_plan list"
  wy_saving :: "save_plan list"
  wy_captured :: "(save_plan \<times> nat \<times> ustr) list"
  wy_written :: "(save_plan \<times> save_io_outcome \<times> ustr) list"
  wy_reloading :: "reload_plan list"

definition disk_metadata :: "disk \<Rightarrow> path \<Rightarrow> file_metadata option" where
  "disk_metadata disk p = map_option (\<lambda>file. from_fs_metadata (df_metadata file)) (disk p)"

text \<open>Text and metadata as some earlier read of the path may have given them.\<close>

definition was_read :: "'r workspace_system \<Rightarrow> path \<Rightarrow> ustr \<Rightarrow> file_metadata \<Rightarrow> bool" where
  "was_read y p content metadata \<longleftrightarrow>
     metadata \<in> wy_seen y
     \<and> (\<forall>file. wy_disk y p = Some file \<and> from_fs_metadata (df_metadata file) = metadata \<longrightarrow>
            df_content file = Utf8_Content content)"

text \<open>Requests that reach a document other than through the workspace.\<close>

fun cell_request :: "document_request \<Rightarrow> bool" where
  "cell_request (ApplyEdit _ _ _ _ _ _) = True"
| "cell_request (RegisterRegionLock _ _ _) = True"
| "cell_request (WindowAfterEdit _ _ _ _) = True"
| "cell_request _ = False"

text \<open>No save of the document is between reading its text and committing.\<close>

definition no_save_under_way :: "'r workspace_system \<Rightarrow> nat \<Rightarrow> bool" where
  "no_save_under_way y document_id \<longleftrightarrow>
     (\<forall>(plan, _)\<in>set (wy_captured y). sv_document_id plan \<noteq> document_id)
     \<and> (\<forall>(plan, _)\<in>set (wy_written y). sv_document_id plan \<noteq> document_id)"

inductive workspace_step :: "'r rope_ops \<Rightarrow> 'r workspace_system \<Rightarrow> 'r workspace_system \<Rightarrow> bool" for R where
  Root_Added:
  "add_root (disk_view canon (wy_disk y)) (wy_state y) p = (st, r) \<Longrightarrow> workspace_step R y (y\<lparr>wy_state := st\<rparr>)"
| Cwd_Added:
  "add_root_from_cwd (disk_view canon (wy_disk y)) cwd (wy_state y) = (st, r) \<Longrightarrow>
   workspace_step R y (y\<lparr>wy_state := st\<rparr>)"
| Root_Discovered:
  "discover_root_for_path (disk_view canon (wy_disk y)) exists_path (wy_state y) p = (st, r) \<Longrightarrow>
   workspace_step R y (y\<lparr>wy_state := st\<rparr>)"
| Root_Granted:
  "add_explicit_user_grant (disk_view canon (wy_disk y)) (wy_state y) p = (st, r) \<Longrightarrow>
   workspace_step R y (y\<lparr>wy_state := st\<rparr>)"
| Opening:
  "prepare_open_existing (disk_view canon (wy_disk y)) (wy_state y) root_id p client_id = Some (st, r) \<Longrightarrow>
   workspace_step R y (y\<lparr>wy_state := st,
     wy_opening := (case r of Inr (Inr plan) \<Rightarrow> plan # wy_opening y | _ \<Rightarrow> wy_opening y)\<rparr>)"
| Selecting:
  "prepare_open_selected (disk_view canon (wy_disk y)) (wy_state y) p client_id = Some (st, r) \<Longrightarrow>
   workspace_step R y (y\<lparr>wy_state := st,
     wy_selecting := (case r of Inr (Inr plan) \<Rightarrow> plan # wy_selecting y | _ \<Rightarrow> wy_selecting y)\<rparr>)"
| Opened:
  "plan \<in> set (wy_opening y) \<Longrightarrow> was_read y (fd_canonical_path (op_file_state plan)) content metadata \<Longrightarrow>
   next_id (wy_state y) < u64_max \<Longrightarrow>
   register_canonical_file R (wy_state y) ((op_file_state plan)\<lparr>fd_last_known_metadata := metadata\<rparr>) content
     (op_client_id plan) = Some (st, r) \<Longrightarrow>
   workspace_step R y (y\<lparr>wy_state := st, wy_opening := remove1 plan (wy_opening y)\<rparr>)"
| Selected:
  "plan \<in> set (wy_selecting y) \<Longrightarrow> was_read y (so_canonical_path plan) content metadata \<Longrightarrow>
   next_id (wy_state y) < u64_max \<Longrightarrow>
   register_selected_file R (wy_state y) plan content metadata = Some (st, r) \<Longrightarrow>
   workspace_step R y (y\<lparr>wy_state := st, wy_selecting := remove1 plan (wy_selecting y)\<rparr>)"
| Closed:
  "close_document (wy_state y) document_id client_id force = Some (st, r) \<Longrightarrow>
   workspace_step R y (y\<lparr>wy_state := st\<rparr>)"
| Client_Left:
  "release_client_access (wy_state y) client_id = (st, finalized) \<Longrightarrow> workspace_step R y (y\<lparr>wy_state := st\<rparr>)"
| Requested:
  "ws_cells (wy_state y) document_id = Some d \<Longrightarrow> cell_request request \<Longrightarrow> document_fits R d \<Longrightarrow>
   document_step R d request = Some (d', e) \<Longrightarrow>
   workspace_step R y (y\<lparr>wy_state := (wy_state y)\<lparr>ws_cells := (ws_cells (wy_state y))(document_id \<mapsto> d')\<rparr>\<rparr>)"
| Save_Prepared:
  "prepare_save (disk_view canon (wy_disk y)) (wy_state y) document_id = Inr plan \<Longrightarrow>
   workspace_step R y (y\<lparr>wy_saving := plan # wy_saving y\<rparr>)"
| Save_Captured:
  "plan \<in> set (wy_saving y) \<Longrightarrow> save_capture R (wy_state y) plan = Some captured \<Longrightarrow>
   workspace_step R y (y\<lparr>wy_saving := remove1 plan (wy_saving y), wy_captured := (plan, captured) # wy_captured y\<rparr>)"
| Save_Written:
  "(plan, captured) \<in> set (wy_captured y) \<Longrightarrow> from_fs_metadata metadata \<notin> wy_seen y \<Longrightarrow>
   renamed = None \<or> renamed = Some (metadata, read_back) \<Longrightarrow>
   save_write (wy_disk y) plan captured written renamed = (disk, r) \<Longrightarrow>
   workspace_step R y (y\<lparr>wy_disk := disk, wy_seen := insert (from_fs_metadata metadata) (wy_seen y),
     wy_captured := remove1 (plan, captured) (wy_captured y),
     wy_written := (case r of Inr io \<Rightarrow> (plan, io, snd captured) # wy_written y | _ \<Rightarrow> wy_written y)\<rparr>)"
| Save_Committed:
  "(plan, io, content) \<in> set (wy_written y) \<Longrightarrow> commit_save (wy_state y) plan io = Some (st, outcome) \<Longrightarrow>
   workspace_step R y (y\<lparr>wy_state := st, wy_written := remove1 (plan, io, content) (wy_written y)\<rparr>)"
| Reload_Prepared:
  "prepare_reload (disk_view canon (wy_disk y)) (wy_state y) document_id force = Inr plan \<Longrightarrow>
   workspace_step R y (y\<lparr>wy_reloading := plan # wy_reloading y\<rparr>)"
| Reloaded:
  "plan \<in> set (wy_reloading y) \<Longrightarrow> no_save_under_way y (rp_document_id plan) \<Longrightarrow>
   was_read y (rp_canonical_path plan) (ri_text io) (ri_reloaded_metadata io) \<Longrightarrow>
   commit_reload R (wy_state y) plan io = Some (st, r) \<Longrightarrow>
   workspace_step R y (y\<lparr>wy_state := st, wy_reloading := remove1 plan (wy_reloading y)\<rparr>)"
| Foreign_Write:
  "from_fs_metadata (df_metadata file) \<notin> wy_seen y \<Longrightarrow>
   workspace_step R y (y\<lparr>wy_disk := (wy_disk y)(p \<mapsto> file),
     wy_seen := insert (from_fs_metadata (df_metadata file)) (wy_seen y)\<rparr>)"
| Foreign_Removal: "workspace_step R y (y\<lparr>wy_disk := (wy_disk y)(p := None)\<rparr>)"
| Ids_Taken:
  "ws_document_id_allocator (wy_state y) = Some n \<Longrightarrow> n \<le> m \<Longrightarrow> m \<le> u64_max \<Longrightarrow>
   workspace_step R y (y\<lparr>wy_state := (wy_state y)\<lparr>ws_document_id_allocator := Some m\<rparr>\<rparr>)"
| Reordered:
  "mset roots = mset (ws_roots (wy_state y)) \<Longrightarrow> mset documents = mset (ws_documents (wy_state y)) \<Longrightarrow>
   workspace_step R y (y\<lparr>wy_state := (wy_state y)\<lparr>ws_roots := roots, ws_documents := documents\<rparr>\<rparr>)"

definition workspace_start :: "nat option \<Rightarrow> disk \<Rightarrow> 'r workspace_system" where
  "workspace_start allocator disk =
     \<lparr>wy_state = workspace_new\<lparr>ws_document_id_allocator := allocator\<rparr>, wy_disk = disk,
      wy_seen = {metadata. \<exists>p. disk_metadata disk p = Some metadata}, wy_opening = [], wy_selecting = [],
      wy_saving = [], wy_captured = [], wy_written = [], wy_reloading = []\<rparr>"

inductive workspace_run :: "'r rope_ops \<Rightarrow> 'r workspace_system \<Rightarrow> 'r workspace_system \<Rightarrow> bool" for R where
  "workspace_run R y y"
| "workspace_run R y y' \<Longrightarrow> workspace_step R y' y'' \<Longrightarrow> workspace_run R y y''"

end
