(* ===== verification/Workspace_Invariant.thy ===== *)
theory Workspace_Invariant imports Workspace_Runs begin

text \<open>
  The invariant of a workspace at work and its preservation by every step of \<open>Workspace_Runs\<close>. Besides the
  registry invariant it says how the disk, the recorded metadata and the saves under way belong
  together; its last part, \<open>clean_ok\<close>, is what a user relies on: a document shown as unmodified is
  what is on disk, as long as nobody else has written the file.
\<close>

section \<open>Invariant\<close>

text \<open>Version, text and dirty mark of a document.\<close>

definition doc_view :: "'r rope_ops \<Rightarrow> 'r workspace_system \<Rightarrow> nat \<Rightarrow> (nat \<times> ustr \<times> bool) option" where
  "doc_view R y i = map_option (\<lambda>(v, r, dirty). (v, rope_string R r, dirty)) (cell_view (wy_state y) i)"

definition registered_as :: "'r workspace_system \<Rightarrow> nat \<Rightarrow> file_document_state option" where
  "registered_as y = map_of (ws_documents (wy_state y))"

definition save_plans :: "'r workspace_system \<Rightarrow> save_plan set" where
  "save_plans y = set (wy_saving y) \<union> fst ` set (wy_captured y)"

abbreviation expected_metadata :: "save_plan \<Rightarrow> file_metadata" where
  "expected_metadata plan \<equiv> identity_metadata (sv_expected_identity plan)"

text \<open>Every pair of a document and the path it stands for.\<close>

definition refs :: "'r workspace_system \<Rightarrow> (nat \<times> path) set" where
  "refs y = {(i, fd_canonical_path f) |i f. registered_as y i = Some f}
     \<union> (\<lambda>plan. (sv_document_id plan, sv_canonical_path plan)) ` (save_plans y \<union> fst ` set (wy_written y))
     \<union> (\<lambda>plan. (rp_document_id plan, rp_canonical_path plan)) ` set (wy_reloading y)"

definition refs_ok :: "'r workspace_system \<Rightarrow> bool" where
  "refs_ok y \<longleftrightarrow> single_valued (refs y) \<and> (\<forall>i p. (i, p) \<in> refs y \<longrightarrow> ws_cells (wy_state y) i \<noteq> None)"

definition seen_ok :: "'r workspace_system \<Rightarrow> bool" where
  "seen_ok y \<longleftrightarrow> (\<forall>p m. disk_metadata (wy_disk y) p = Some m \<longrightarrow> m \<in> wy_seen y)
     \<and> (\<forall>i f. registered_as y i = Some f \<longrightarrow> fd_last_known_metadata f \<in> wy_seen y)
     \<and> (\<forall>plan\<in>save_plans y. expected_metadata plan \<in> wy_seen y)
     \<and> (\<forall>(plan, io, t)\<in>set (wy_written y). si_saved_metadata io \<in> wy_seen y)"

text \<open>A save whose file is written: the disk is newer than what anyone else remembers of it.\<close>

definition written_ok :: "'r rope_ops \<Rightarrow> 'r workspace_system \<Rightarrow> save_plan \<times> save_io_outcome \<times> ustr \<Rightarrow> bool" where
  "written_ok R y = (\<lambda>(plan, io, t).
     (\<forall>f. registered_as y (sv_document_id plan) = Some f \<longrightarrow>
        disk_metadata (wy_disk y) (sv_canonical_path plan) \<noteq> Some (fd_last_known_metadata f))
     \<and> (\<forall>other\<in>save_plans y. sv_document_id other = sv_document_id plan \<longrightarrow>
          disk_metadata (wy_disk y) (sv_canonical_path plan) \<noteq> Some (expected_metadata other))
     \<and> (\<forall>file. wy_disk y (sv_canonical_path plan) = Some file \<and>
          from_fs_metadata (df_metadata file) = si_saved_metadata io \<longrightarrow> df_content file = Utf8_Content t)
     \<and> (\<forall>v s dirty. doc_view R y (sv_document_id plan) = Some (v, s, dirty) \<longrightarrow>
          si_prepared_version io \<le> v \<and> (si_prepared_version io = v \<longrightarrow> s = t) \<and> (si_prepared_version io \<noteq> v \<longrightarrow> dirty)))"

text \<open>A save that has taken its text: the text is that of its version, and a later one is unsaved.\<close>

definition captured_ok :: "'r rope_ops \<Rightarrow> 'r workspace_system \<Rightarrow> save_plan \<times> nat \<times> ustr \<Rightarrow> bool" where
  "captured_ok R y = (\<lambda>(plan, v0, t). \<forall>v s dirty. doc_view R y (sv_document_id plan) = Some (v, s, dirty) \<longrightarrow>
     v0 \<le> v \<and> (v0 = v \<longrightarrow> s = t)
     \<and> (disk_metadata (wy_disk y) (sv_canonical_path plan) = Some (expected_metadata plan) \<and> v0 \<noteq> v \<longrightarrow> dirty))"

definition clean_ok :: "'r rope_ops \<Rightarrow> 'r workspace_system \<Rightarrow> bool" where
  "clean_ok R y \<longleftrightarrow> (\<forall>i f v s file. registered_as y i = Some f \<and> doc_view R y i = Some (v, s, False)
     \<and> wy_disk y (fd_canonical_path f) = Some file
     \<and> from_fs_metadata (df_metadata file) = fd_last_known_metadata f \<longrightarrow> df_content file = Utf8_Content s)"

definition saving_ok :: "'r rope_ops \<Rightarrow> 'r workspace_system \<Rightarrow> bool" where
  "saving_ok R y \<longleftrightarrow> refs_ok y \<and> seen_ok y
     \<and> distinct (map (\<lambda>(plan, io, t). sv_document_id plan) (wy_written y))
     \<and> (\<forall>w\<in>set (wy_written y). written_ok R y w) \<and> (\<forall>c\<in>set (wy_captured y). captured_ok R y c)
     \<and> clean_ok R y"

definition workspace_inv :: "'r rope_ops \<Rightarrow> 'r workspace_system \<Rightarrow> bool" where
  "workspace_inv R y \<longleftrightarrow> registry_ok (wy_state y)
     \<and> (\<forall>plan\<in>set (wy_opening y). root_grants (wy_state y) (fd_workspace_root_id (op_file_state plan))
          (fd_canonical_path (op_file_state plan)))
     \<and> saving_ok R y"

lemmas view_simps = doc_view_def registered_as_def save_plans_def

section \<open>Steps of the registry\<close>

text \<open>The parts read the system only through these four.\<close>

lemma saving_cong:
  assumes "doc_view R y' = doc_view R y" and "registered_as y' \<subseteq>\<^sub>m registered_as y"
    and "\<And>i. ws_cells (wy_state y) i \<noteq> None \<Longrightarrow> ws_cells (wy_state y') i \<noteq> None"
    and "wy_disk y' = wy_disk y" "wy_seen y' = wy_seen y" "wy_saving y' = wy_saving y"
    and "wy_captured y' = wy_captured y" "wy_written y' = wy_written y" "wy_reloading y' = wy_reloading y"
    and ok: "saving_ok R y"
  shows "saving_ok R y'"
proof -
  have plans: "save_plans y' = save_plans y" using assms(6,7) by (simp add: save_plans_def)
  have sub: "registered_as y i = Some f" if "registered_as y' i = Some f" for i f
    using assms(2) that by (auto simp: map_le_def dom_def)
  then have "refs y' \<subseteq> refs y" using plans assms(8,9) by (auto simp: refs_def)
  then have "refs_ok y'" using ok assms(3) unfolding saving_ok_def refs_ok_def by (meson single_valued_subset subsetD)
  moreover have "seen_ok y'" using ok unfolding saving_ok_def seen_ok_def plans assms(4,5,8) by (blast dest: sub)
  moreover have "written_ok R y' w" if "written_ok R y w" for w
    using that sub plans assms(1,4) by (auto simp: written_ok_def)
  moreover have "captured_ok R y' c" if "captured_ok R y c" for c
    using that assms(1,4) by (auto simp: captured_ok_def)
  moreover have "clean_ok R y'" using ok sub assms(1,4) unfolding saving_ok_def clean_ok_def by metis
  ultimately show ?thesis using ok assms(7,8) by (auto simp: saving_ok_def)
qed

lemma cells_of_view: "cell_view st' i = cell_view st i \<Longrightarrow> ws_cells st' i = None \<longleftrightarrow> ws_cells st i = None"
  by (metis cell_view_def map_option_is_None)

lemma saving_quiet:
  assumes "quiet (wy_state y) st'" and "saving_ok R y"
  shows "saving_ok R (y\<lparr>wy_state := st'\<rparr>)"
proof (rule saving_cong[OF _ _ _ _ _ _ _ _ _ assms(2)])
  show "doc_view R (y\<lparr>wy_state := st'\<rparr>) = doc_view R y" using assms(1) by (simp add: view_simps quiet_def fun_eq_iff)
  show "registered_as (y\<lparr>wy_state := st'\<rparr>) \<subseteq>\<^sub>m registered_as y"
    using assms(1) by (auto simp: view_simps quiet_def map_le_def)
  show "ws_cells (wy_state (y\<lparr>wy_state := st'\<rparr>)) i \<noteq> None" if "ws_cells (wy_state y) i \<noteq> None" for i
    using that assms(1) cells_of_view[of st' i "wy_state y"] by (simp add: quiet_def)
qed simp_all

lemma saving_lists [simp]:
  "saving_ok R (y\<lparr>wy_opening := xs\<rparr>) = saving_ok R y" "saving_ok R (y\<lparr>wy_selecting := ys\<rparr>) = saving_ok R y"
  by (simp_all add: saving_ok_def refs_ok_def seen_ok_def written_ok_def captured_ok_def clean_ok_def refs_def
      view_simps fun_eq_iff)

lemma clean_cong:
  "registered_as y' = registered_as y \<Longrightarrow> doc_view R y' = doc_view R y \<Longrightarrow> wy_disk y' = wy_disk y \<Longrightarrow>
   clean_ok R y' = clean_ok R y"
  by (simp add: clean_ok_def)

text \<open>A new document: its id is not in use anywhere.\<close>

lemma refs_cell:
  assumes "saving_ok R y" and "(i, p) \<in> refs y"
  shows "ws_cells (wy_state y) i \<noteq> None"
  using assms unfolding saving_ok_def refs_ok_def by blast

lemma plan_refs:
  "plan \<in> save_plans y \<Longrightarrow> (sv_document_id plan, sv_canonical_path plan) \<in> refs y"
  "w \<in> set (wy_written y) \<Longrightarrow> (sv_document_id (fst w), sv_canonical_path (fst w)) \<in> refs y"
  "reload \<in> set (wy_reloading y) \<Longrightarrow> (rp_document_id reload, rp_canonical_path reload) \<in> refs y"
  "registered_as y i = Some f \<Longrightarrow> (i, fd_canonical_path f) \<in> refs y"
  by (auto simp: refs_def)

lemma same_path:
  assumes "saving_ok R y" and "(i, p) \<in> refs y" and "(i, q) \<in> refs y"
  shows "p = q"
  using assms unfolding saving_ok_def refs_ok_def by (blast dest: single_valuedD)

text \<open>A write gives metadata nobody remembers; a removal leaves none.\<close>

definition disk_change :: "file_metadata set \<Rightarrow> disk \<Rightarrow> disk \<Rightarrow> bool" where
  "disk_change seen disk disk' \<longleftrightarrow>
     (\<forall>p m. disk_metadata disk' p = Some m \<and> m \<in> seen \<longrightarrow> disk' p = disk p)"

lemma disk_change_write:
  "from_fs_metadata (df_metadata file) \<notin> seen \<Longrightarrow> disk_change seen disk (disk(p \<mapsto> file))"
  "disk_change seen disk (disk(p := None))" "disk_change seen disk disk"
  by (auto simp: disk_change_def disk_metadata_def split: if_splits)

lemma save_write_cases:
  assumes "save_write disk plan captured written renamed = (disk', r)"
  obtains (failed) e where "disk' = disk" "r = Inl e"
  | (written) dfile metadata read_back where "renamed = Some (metadata, read_back)"
      "disk (sv_canonical_path plan) = Some dfile" "from_fs_metadata (df_metadata dfile) = expected_metadata plan"
      "disk' = disk(sv_canonical_path plan \<mapsto> \<lparr>df_metadata = metadata, df_content = Utf8_Content (snd captured)\<rparr>)"
      "r = (if read_back then Inr \<lparr>si_prepared_version = fst captured, si_saved_metadata = from_fs_metadata metadata\<rparr>
            else Inl (Write_Failed (Relative (sv_relative_path plan))))"
proof (cases "written \<and> (\<exists>dfile. disk (sv_canonical_path plan) = Some dfile
    \<and> matches_current (sv_expected_identity plan) (df_metadata dfile)) \<and> renamed \<noteq> None")
  case True
  then obtain dfile metadata read_back where c: "written" "disk (sv_canonical_path plan) = Some dfile"
    "matches_current (sv_expected_identity plan) (df_metadata dfile)" "renamed = Some (metadata, read_back)" by auto
  have "from_fs_metadata (df_metadata dfile) = expected_metadata plan"
    using c(3)[unfolded matches_current_def, symmetric]
    by (simp add: identity_from_metadata_def identity_metadata_def from_fs_metadata_def)
  moreover have "disk' = disk(sv_canonical_path plan \<mapsto> \<lparr>df_metadata = metadata, df_content = Utf8_Content (snd captured)\<rparr>)
    \<and> r = (if read_back then Inr \<lparr>si_prepared_version = fst captured, si_saved_metadata = from_fs_metadata metadata\<rparr>
            else Inl (Write_Failed (Relative (sv_relative_path plan))))"
    using assms c by (cases read_back) (auto simp: save_write_def atomic_write_file_def)
  ultimately show thesis using written[OF c(4,2)] by simp
next
  case False
  then have "\<exists>e. disk' = disk \<and> r = Inl e"
    using assms by (auto simp: save_write_def atomic_write_file_def Let_def split: if_splits option.splits)
  then show thesis using failed by blast
qed

text \<open>Recording metadata changes one field of one registry entry.\<close>

lemma set_last_known_metadata_docs:
  "map_of (ws_documents (set_last_known_metadata st i m)) =
     (\<lambda>j. if j = i then map_option (\<lambda>f. f\<lparr>fd_last_known_metadata := m\<rparr>) (map_of (ws_documents st) i)
          else map_of (ws_documents st) j)"
  "ws_cells (set_last_known_metadata st i m) = ws_cells st"
  by (auto simp: set_last_known_metadata_def fun_eq_iff update_conv' split: option.splits)

text \<open>
  What a commit does to the system: it records metadata \<open>m\<close> and gives the document a new version, text and mark.
\<close>

lemma saving_recorded:
  assumes ok: "saving_ok R y" and seen: "m \<in> wy_seen y"
    and reg: "\<And>j. registered_as y' j = (if j = i then map_option (\<lambda>f. f\<lparr>fd_last_known_metadata := m\<rparr>) (registered_as y i)
        else registered_as y j)"
    and view: "\<And>j. doc_view R y' j = (if j = i then Some new else doc_view R y j)"
    and cells: "\<And>j. ws_cells (wy_state y) j \<noteq> None \<Longrightarrow> ws_cells (wy_state y') j \<noteq> None"
    and same: "wy_disk y' = wy_disk y" "wy_seen y' = wy_seen y" "wy_saving y' = wy_saving y" "wy_captured y' = wy_captured y"
    and fewer: "set (wy_written y') \<subseteq> set (wy_written y)" "set (wy_reloading y') \<subseteq> set (wy_reloading y)"
    and dist: "distinct (map (\<lambda>(plan, io, t). sv_document_id plan) (wy_written y'))"
    and none: "\<And>plan io t. (plan, io, t) \<in> set (wy_written y') \<Longrightarrow> sv_document_id plan \<noteq> i"
    and captured: "\<And>plan v t. (plan, v, t) \<in> set (wy_captured y) \<Longrightarrow> sv_document_id plan = i \<Longrightarrow> captured_ok R y' (plan, v, t)"
    and clean: "\<And>f v s dfile. registered_as y i = Some f \<Longrightarrow> new = (v, s, False) \<Longrightarrow>
      wy_disk y (fd_canonical_path f) = Some dfile \<Longrightarrow> from_fs_metadata (df_metadata dfile) = m \<Longrightarrow>
      df_content dfile = Utf8_Content s"
  shows "saving_ok R y'"
proof -
  have plans: "save_plans y' = save_plans y" by (simp add: save_plans_def same)
  have "refs y' \<subseteq> refs y"
  proof -
    have docs: "{(j, fd_canonical_path f) |j f. registered_as y' j = Some f}
        \<subseteq> {(j, fd_canonical_path f) |j f. registered_as y j = Some f}"
      by (auto simp: reg split: if_splits)
    show ?thesis unfolding refs_def plans by (intro Un_mono image_mono docs fewer order_refl)
  qed
  then have "refs_ok y'" using ok cells unfolding saving_ok_def refs_ok_def by (meson single_valued_subset subsetD)
  moreover have "seen_ok y'"
    unfolding seen_ok_def plans same
  proof (intro conjI)
    show "\<forall>j f. registered_as y' j = Some f \<longrightarrow> fd_last_known_metadata f \<in> wy_seen y"
      using ok seen by (auto simp: saving_ok_def seen_ok_def reg)
  qed (use ok fewer in \<open>auto simp: saving_ok_def seen_ok_def\<close>)
  moreover have "written_ok R y' (plan, io, t)" if w: "(plan, io, t) \<in> set (wy_written y')" for plan io t
  proof -
    have "written_ok R y' (plan, io, t) = written_ok R y (plan, io, t)"
      using none[OF w] by (simp add: written_ok_def reg view plans same)
    then show ?thesis using ok w fewer by (auto simp: saving_ok_def)
  qed
  moreover have "captured_ok R y' (plan, v, t)" if c: "(plan, v, t) \<in> set (wy_captured y)" for plan v t
  proof (cases "sv_document_id plan = i")
    case True
    then show ?thesis by (rule captured[OF c])
  next
    case False
    then have "captured_ok R y' (plan, v, t) = captured_ok R y (plan, v, t)" by (simp add: captured_ok_def view same)
    then show ?thesis using ok c by (auto simp: saving_ok_def)
  qed
  moreover have "clean_ok R y'"
    unfolding clean_ok_def
  proof (intro allI impI, elim conjE)
    fix j f v s dfile
    assume a: "registered_as y' j = Some f" "doc_view R y' j = Some (v, s, False)"
      "wy_disk y' (fd_canonical_path f) = Some dfile" "from_fs_metadata (df_metadata dfile) = fd_last_known_metadata f"
    show "df_content dfile = Utf8_Content s"
    proof (cases "j = i")
      case True
      then obtain g where "registered_as y i = Some g" "f = g\<lparr>fd_last_known_metadata := m\<rparr>" using a(1) by (auto simp: reg)
      then show ?thesis using a True clean by (simp add: view same)
    next
      case False
      then show ?thesis using a ok by (auto simp: saving_ok_def clean_ok_def reg view same)
    qed
  qed
  ultimately show ?thesis using dist by (auto simp: saving_ok_def same)
qed

lemma distinct_remove1_key:
  "distinct (map g xs) \<Longrightarrow> x \<in> set xs \<Longrightarrow> distinct (map g (remove1 x xs)) \<and> g x \<notin> g ` set (remove1 x xs)"
  by (induction xs) (auto dest: set_remove1_subset[THEN subsetD] intro: rev_image_eqI)

context crop_rope begin

lemma saving_opened:
  assumes new: "opened_new R (wy_state y) f content st'" and ok: "saving_ok R y"
    and read: "was_read y (fd_canonical_path f) content (fd_last_known_metadata f)"
  shows "saving_ok R (y\<lparr>wy_state := st'\<rparr>)" (is "saving_ok R ?y")
proof -
  obtain n where n: "ws_cells (wy_state y) n = None"
    and docs: "\<And>i. map_of (ws_documents st') i = (if i = n then Some f else map_of (ws_documents (wy_state y)) i)"
    and view: "\<And>i. cell_view st' i = (if i = n then Some (1, rope_from R content, False) else cell_view (wy_state y) i)"
    using new unfolding opened_new_def by blast
  have reg: "registered_as ?y i = (if i = n then Some f else registered_as y i)" for i by (simp add: view_simps docs)
  have vw: "doc_view R ?y i = (if i = n then Some (1, content, False) else doc_view R y i)" for i
    by (simp add: doc_view_def view)
  have plans: "save_plans ?y = save_plans y" by (simp add: save_plans_def)
  have fresh: "(n, p) \<notin> refs y" for p using refs_cell[OF ok] n by blast
  have sub: "refs ?y \<subseteq> insert (n, fd_canonical_path f) (refs y)"
    by (auto simp: refs_def reg plans split: if_splits)
  have "refs_ok ?y"
    unfolding refs_ok_def
  proof (intro conjI allI impI)
    show "single_valued (refs ?y)"
      by (rule single_valued_subset[OF sub]) (use ok fresh in \<open>auto simp: saving_ok_def refs_ok_def single_valued_def\<close>)
    fix i p
    assume "(i, p) \<in> refs ?y"
    then have "i = n \<or> (i, p) \<in> refs y" using sub by blast
    then show "ws_cells (wy_state ?y) i \<noteq> None"
      using refs_cell[OF ok, of i p] view[of i] by (auto simp: cell_view_def split: if_splits)
  qed
  moreover have "seen_ok ?y"
    using ok read by (auto simp: saving_ok_def seen_ok_def plans reg was_read_def split: if_splits)
  moreover have "written_ok R ?y w" if w: "w \<in> set (wy_written y)" for w
  proof -
    have "sv_document_id (fst w) \<noteq> n" using plan_refs(2)[OF w] fresh by auto
    then show ?thesis using ok w by (auto simp: saving_ok_def written_ok_def reg vw plans split: prod.splits)
  qed
  moreover have "captured_ok R ?y c" if c: "c \<in> set (wy_captured y)" for c
  proof -
    have "fst c \<in> save_plans y" using c by (simp add: save_plans_def)
    then have "sv_document_id (fst c) \<noteq> n" using plan_refs(1) fresh by metis
    then show ?thesis using ok c by (auto simp: saving_ok_def captured_ok_def vw split: prod.splits)
  qed
  moreover have "clean_ok R ?y"
    unfolding clean_ok_def
  proof (intro allI impI, elim conjE)
    fix i g v s dfile
    assume a: "registered_as ?y i = Some g" "doc_view R ?y i = Some (v, s, False)"
      "wy_disk ?y (fd_canonical_path g) = Some dfile" "from_fs_metadata (df_metadata dfile) = fd_last_known_metadata g"
    show "df_content dfile = Utf8_Content s"
    proof (cases "i = n")
      case True
      then show ?thesis using a read by (auto simp: reg vw was_read_def)
    next
      case False
      then show ?thesis using a ok by (auto simp: saving_ok_def clean_ok_def reg vw)
    qed
  qed
  ultimately show ?thesis using ok by (simp add: saving_ok_def)
qed

text \<open>What a request through the cell does.\<close>

lemma cell_request_effect:
  assumes "document_fits R d" and "cell_request q" and "document_step R d q = Some (d', e)"
  shows "ds_document_id d' = ds_document_id d" and "ds_access_holders d' = ds_access_holders d"
    and "(ds_version d' = ds_version d \<and> document_string R d' = document_string R d \<and> ds_dirty d' = ds_dirty d)
      \<or> (ds_version d' = Suc (ds_version d) \<and> ds_dirty d')"
proof -
  have "ds_document_id d' = ds_document_id d \<and> ds_access_holders d' = ds_access_holders d
    \<and> ((ds_version d' = ds_version d \<and> document_string R d' = document_string R d \<and> ds_dirty d' = ds_dirty d)
      \<or> (ds_version d' = Suc (ds_version d) \<and> ds_dirty d'))"
  proof (cases q)
    case (ApplyEdit document_id client_id lease_id base transaction_id op)
    show ?thesis
    proof (cases rule: apply_edit_cases[OF assms(1), of document_id client_id lease_id base transaction_id op])
      case (1 d1)
      have "d' = d1" using 1(1) assms(3) ApplyEdit by simp
      then show ?thesis
        using arg_cong[OF 1(4), of ds_version] arg_cong[OF 1(4), of ds_dirty] arg_cong[OF 1(4), of ds_document_id]
          arg_cong[OF 1(4), of ds_access_holders] by simp
    next
      case (2 reported reason)
      then show ?thesis using assms(3) ApplyEdit by simp
    qed
  next
    case (RegisterRegionLock s e owner)
    then show ?thesis using assms(3)
      by (auto simp: register_region_lock_def document_string_def Let_def split: sum.splits)
  next
    case (WindowAfterEdit pp m policy edit)
    obtain d1 r where run: "parse_window_after_edit R d pp m policy edit = (d1, r)" by force
    then have "d' = d\<lparr>ds_retained_parse_windows := ds_retained_parse_windows d1\<rparr>"
      using assms(3) WindowAfterEdit parse_window_after_edit_frame[OF run] by simp
    then show ?thesis by (simp add: document_string_def)
  qed (use assms(2) in simp_all)
  then show "ds_document_id d' = ds_document_id d" and "ds_access_holders d' = ds_access_holders d"
    and "(ds_version d' = ds_version d \<and> document_string R d' = document_string R d \<and> ds_dirty d' = ds_dirty d)
      \<or> (ds_version d' = Suc (ds_version d) \<and> ds_dirty d')" by auto
qed

lemma saving_request:
  assumes ok: "saving_ok R y" and cell: "ws_cells (wy_state y) i = Some d"
    and q: "document_fits R d" "cell_request q" "document_step R d q = Some (d', e)"
  shows "saving_ok R (y\<lparr>wy_state := (wy_state y)\<lparr>ws_cells := (ws_cells (wy_state y))(i \<mapsto> d')\<rparr>\<rparr>)" (is "saving_ok R ?y")
proof -
  let ?v = "(ds_version d, document_string R d, ds_dirty d)" and ?v' = "(ds_version d', document_string R d', ds_dirty d')"
  note eff = cell_request_effect(3)[OF q]
  have vw: "doc_view R ?y j = (if j = i then Some ?v' else doc_view R y j)" for j
    by (simp add: doc_view_def cell_view_def document_string_def)
  have old: "doc_view R y i = Some ?v" using cell by (simp add: doc_view_def cell_view_def document_string_def)
  have same: "registered_as ?y = registered_as y" "save_plans ?y = save_plans y" "refs ?y = refs y"
    by (simp_all add: registered_as_def save_plans_def refs_def)
  have "refs_ok ?y" using ok by (auto simp: saving_ok_def refs_ok_def same)
  moreover have "seen_ok ?y" using ok by (simp add: saving_ok_def seen_ok_def same)
  moreover have "written_ok R ?y w" if "written_ok R y w" for w
    using that eff old unfolding written_ok_def same vw by (auto split: if_splits)
  moreover have "captured_ok R ?y c" if "captured_ok R y c" for c
    using that eff old unfolding captured_ok_def vw by (auto split: if_splits)
  moreover have "clean_ok R ?y"
    unfolding clean_ok_def
  proof (intro allI impI, elim conjE)
    fix j f v t dfile
    assume a: "registered_as ?y j = Some f" "doc_view R ?y j = Some (v, t, False)"
      "wy_disk ?y (fd_canonical_path f) = Some dfile" "from_fs_metadata (df_metadata dfile) = fd_last_known_metadata f"
    have "\<exists>v. doc_view R y j = Some (v, t, False)" using a(2) eff old by (auto simp: vw split: if_splits)
    then show "df_content dfile = Utf8_Content t" using a ok by (auto simp: saving_ok_def clean_ok_def same)
  qed
  ultimately show ?thesis using ok by (simp add: saving_ok_def)
qed

section \<open>Steps of a save\<close>

lemma prepare_save_expects:
  assumes "prepare_save fs st i = Inr plan"
  obtains f where "map_of (ws_documents st) i = Some f" "sv_document_id plan = i"
    "sv_canonical_path plan = fd_canonical_path f" "expected_metadata plan = fd_last_known_metadata f"
  using assms by (auto simp: prepare_save_def bind_result_Inr ok_or_Inr split: if_splits)

lemma saving_prepared:
  assumes ok: "saving_ok R y" and plan: "prepare_save fs (wy_state y) i = Inr plan"
  shows "saving_ok R (y\<lparr>wy_saving := plan # wy_saving y\<rparr>)" (is "saving_ok R ?y")
proof -
  from prepare_save_expects[OF plan] obtain f where f: "registered_as y i = Some f" "sv_document_id plan = i"
    "sv_canonical_path plan = fd_canonical_path f" "expected_metadata plan = fd_last_known_metadata f"
    by (auto simp: registered_as_def)
  have same: "registered_as ?y = registered_as y" "save_plans ?y = insert plan (save_plans y)" "doc_view R ?y = doc_view R y"
    by (simp_all add: registered_as_def save_plans_def doc_view_def fun_eq_iff)
  have "refs ?y = refs y" unfolding refs_def same using f by auto
  then have "refs_ok ?y" using ok by (simp add: saving_ok_def refs_ok_def)
  moreover have "seen_ok ?y" using ok f unfolding saving_ok_def seen_ok_def same by auto
  moreover have "written_ok R ?y w" if "w \<in> set (wy_written y)" for w
    using ok that f unfolding saving_ok_def written_ok_def same by fastforce
  moreover have "captured_ok R ?y c" if "captured_ok R y c" for c using that by (simp add: captured_ok_def same)
  moreover have "clean_ok R ?y" using ok clean_cong[of ?y y R] same by (simp add: saving_ok_def)
  ultimately show ?thesis using ok by (simp add: saving_ok_def)
qed

lemma saving_captured:
  assumes ok: "saving_ok R y" and plan: "plan \<in> set (wy_saving y)"
    and captured: "save_capture R (wy_state y) plan = Some captured"
  shows "saving_ok R (y\<lparr>wy_saving := remove1 plan (wy_saving y), wy_captured := (plan, captured) # wy_captured y\<rparr>)"
    (is "saving_ok R ?y")
proof -
  obtain d where d: "ws_cells (wy_state y) (sv_document_id plan) = Some d" "captured = (ds_version d, document_string R d)"
    using captured by (auto simp: save_capture_def)
  have same: "registered_as ?y = registered_as y" "doc_view R ?y = doc_view R y"
    by (simp_all add: registered_as_def doc_view_def fun_eq_iff)
  have plans: "save_plans ?y \<subseteq> save_plans y" using plan set_remove1_subset[of plan "wy_saving y"]
    by (auto simp: save_plans_def)
  have "refs ?y \<subseteq> refs y" unfolding refs_def same using plans by auto
  then have "refs_ok ?y" using ok by (auto simp: saving_ok_def refs_ok_def intro: single_valued_subset)
  moreover have "seen_ok ?y" using ok plans unfolding saving_ok_def seen_ok_def same by auto
  moreover have "written_ok R ?y w" if "w \<in> set (wy_written y)" for w
    using ok that plans unfolding saving_ok_def written_ok_def same by fastforce
  moreover have "captured_ok R ?y c" if "captured_ok R y c" for c using that by (simp add: captured_ok_def same)
  moreover have "captured_ok R ?y (plan, captured)"
    using d by (simp add: captured_ok_def doc_view_def cell_view_def document_string_def)
  moreover have "clean_ok R ?y" using ok clean_cong[of ?y y R] same by (simp add: saving_ok_def)
  ultimately show ?thesis using ok by (simp add: saving_ok_def)
qed

lemma saving_disk:
  assumes ok: "saving_ok R y" and change: "disk_change (wy_seen y) (wy_disk y) disk"
    and seen: "wy_seen y \<subseteq> seen" "\<And>p m. disk_metadata disk p = Some m \<Longrightarrow> m \<in> seen"
  shows "saving_ok R (y\<lparr>wy_disk := disk, wy_seen := seen\<rparr>)" (is "saving_ok R ?y")
proof -
  have same: "registered_as ?y = registered_as y" "save_plans ?y = save_plans y" "doc_view R ?y = doc_view R y"
    "refs ?y = refs y"
    by (simp_all add: registered_as_def save_plans_def doc_view_def refs_def fun_eq_iff)
  have kept: "disk p = wy_disk y p" "disk_metadata (wy_disk y) p = Some m"
    if "disk_metadata disk p = Some m" "m \<in> wy_seen y" for p m
    using that change by (auto simp: disk_change_def disk_metadata_def)
  have known: "fd_last_known_metadata f \<in> wy_seen y" if "registered_as y i = Some f" for i f
    using ok that unfolding saving_ok_def seen_ok_def by blast
  have expected: "expected_metadata plan \<in> wy_seen y" if "plan \<in> save_plans y" for plan
    using ok that unfolding saving_ok_def seen_ok_def by blast
  have "refs_ok ?y" using ok by (simp add: saving_ok_def refs_ok_def same)
  moreover have "seen_ok ?y" using ok seen unfolding saving_ok_def seen_ok_def same by fastforce
  moreover have "written_ok R ?y (plan, io, t)" if w: "(plan, io, t) \<in> set (wy_written y)" for plan io t
  proof -
    have old: "written_ok R y (plan, io, t)" using ok w by (simp add: saving_ok_def)
    have saved: "si_saved_metadata io \<in> wy_seen y" using ok w unfolding saving_ok_def seen_ok_def by fastforce
    have "df_content dfile = Utf8_Content t"
      if "disk (sv_canonical_path plan) = Some dfile" "from_fs_metadata (df_metadata dfile) = si_saved_metadata io" for dfile
      using old kept(1)[of "sv_canonical_path plan", OF _ saved] that unfolding written_ok_def
      by (simp add: disk_metadata_def)
    then show ?thesis
      using old kept(2)[of "sv_canonical_path plan"] known expected unfolding written_ok_def same by auto
  qed
  moreover have "captured_ok R ?y (plan, v, t)" if c: "(plan, v, t) \<in> set (wy_captured y)" for plan v t
  proof -
    have old: "captured_ok R y (plan, v, t)" using ok c by (simp add: saving_ok_def)
    have "plan \<in> save_plans y" using c by (force simp: save_plans_def)
    then show ?thesis
      using old kept(2)[of "sv_canonical_path plan"] expected unfolding captured_ok_def same by auto
  qed
  moreover have "clean_ok R ?y"
    unfolding clean_ok_def
  proof (intro allI impI, elim conjE)
    fix i f v s dfile
    assume a: "registered_as ?y i = Some f" "doc_view R ?y i = Some (v, s, False)"
      "wy_disk ?y (fd_canonical_path f) = Some dfile" "from_fs_metadata (df_metadata dfile) = fd_last_known_metadata f"
    have "disk (fd_canonical_path f) = wy_disk y (fd_canonical_path f)"
      using a known[of i f] by (intro kept(1)[of _ "fd_last_known_metadata f"]) (simp_all add: same disk_metadata_def)
    then show "df_content dfile = Utf8_Content s" using a ok by (auto simp: saving_ok_def clean_ok_def same)
  qed
  ultimately show ?thesis using ok by (auto simp: saving_ok_def)
qed

text \<open>The lists of saves under way may shrink.\<close>

lemma saving_fewer:
  assumes ok: "saving_ok R y" and "set captured \<subseteq> set (wy_captured y)"
  shows "saving_ok R (y\<lparr>wy_captured := captured\<rparr>)" (is "saving_ok R ?y")
proof -
  have same: "registered_as ?y = registered_as y" "doc_view R ?y = doc_view R y"
    by (simp_all add: registered_as_def doc_view_def fun_eq_iff)
  have plans: "save_plans ?y \<subseteq> save_plans y" using assms(2) by (auto simp: save_plans_def)
  have "refs ?y \<subseteq> refs y" unfolding refs_def same using plans by auto
  then have "refs_ok ?y" using ok by (auto simp: saving_ok_def refs_ok_def intro: single_valued_subset)
  moreover have "seen_ok ?y" using ok plans unfolding saving_ok_def seen_ok_def same by auto
  moreover have "written_ok R ?y w" if "w \<in> set (wy_written y)" for w
    using ok that plans unfolding saving_ok_def written_ok_def same by fastforce
  moreover have "captured_ok R ?y c" if "captured_ok R y c" for c using that by (simp add: captured_ok_def same)
  moreover have "clean_ok R ?y" using ok clean_cong[of ?y y R] same by (simp add: saving_ok_def)
  ultimately show ?thesis using ok assms(2) by (auto simp: saving_ok_def)
qed

lemma saving_written:
  assumes ok: "saving_ok R y" and c: "(plan, captured) \<in> set (wy_captured y)"
    and fresh: "from_fs_metadata metadata \<notin> wy_seen y" and renamed: "renamed = None \<or> renamed = Some (metadata, read_back)"
    and wrote: "save_write (wy_disk y) plan captured written renamed = (disk, r)"
  shows "saving_ok R (y\<lparr>wy_disk := disk, wy_seen := insert (from_fs_metadata metadata) (wy_seen y),
     wy_captured := remove1 (plan, captured) (wy_captured y),
     wy_written := (case r of Inr io \<Rightarrow> (plan, io, snd captured) # wy_written y | _ \<Rightarrow> wy_written y)\<rparr>)"
proof -
  let ?m = "from_fs_metadata metadata" and ?p = "sv_canonical_path plan" and ?i = "sv_document_id plan"
  let ?y1 = "y\<lparr>wy_disk := disk, wy_seen := insert ?m (wy_seen y)\<rparr>"
  let ?y2 = "?y1\<lparr>wy_captured := remove1 (plan, captured) (wy_captured y)\<rparr>"
  have known: "\<And>p m. disk_metadata (wy_disk y) p = Some m \<Longrightarrow> m \<in> wy_seen y"
    and expected: "\<And>plan. plan \<in> save_plans y \<Longrightarrow> expected_metadata plan \<in> wy_seen y"
    and recorded: "\<And>i f. registered_as y i = Some f \<Longrightarrow> fd_last_known_metadata f \<in> wy_seen y"
    using ok by (auto simp: saving_ok_def seen_ok_def)
  have plan: "plan \<in> save_plans y" using c by (force simp: save_plans_def)
  have fewer: "set (remove1 (plan, captured) (wy_captured y)) \<subseteq> set (wy_captured ?y1)" by (simp add: set_remove1_subset)
  from wrote show ?thesis
  proof (cases rule: save_write_cases)
    case (failed e)
    then have "saving_ok R ?y1" using ok known by (intro saving_disk) (auto simp: disk_change_write(3))
    from saving_fewer[OF this fewer] show ?thesis using failed by simp
  next
    case (written dfile md rb)
    have md: "md = metadata" using written(1) renamed by auto
    have "saving_ok R ?y1"
      using ok known fresh written(4) by (intro saving_disk)
        (auto simp: md disk_metadata_def disk_change_def split: if_splits)
    from saving_fewer[OF this fewer] have ok2: "saving_ok R ?y2" .
    show ?thesis
    proof (cases r)
      case (Inl e)
      then show ?thesis using ok2 by simp
    next
      case (Inr io)
      let ?w = "(plan, io, snd captured)"
      let ?y3 = "?y2\<lparr>wy_written := ?w # wy_written y\<rparr>"
      have io: "io = \<lparr>si_prepared_version = fst captured, si_saved_metadata = ?m\<rparr>"
        using written(5) Inr by (simp add: md split: if_splits)
      have same: "registered_as ?y3 = registered_as y" "save_plans ?y3 = save_plans ?y2" "doc_view R ?y3 = doc_view R y"
        by (simp_all add: registered_as_def save_plans_def doc_view_def fun_eq_iff)
      have at: "disk_metadata (wy_disk y) ?p = Some (expected_metadata plan)"
        using written by (simp add: disk_metadata_def)
      have now: "disk_metadata disk ?p = Some ?m" using written(4) by (simp add: disk_metadata_def md)
      have plans2: "save_plans ?y2 \<subseteq> save_plans y" using fewer by (auto simp: save_plans_def)
      have "sv_document_id (fst w) \<noteq> ?i" if w: "w \<in> set (wy_written y)" for w
      proof
        assume eq: "sv_document_id (fst w) = ?i"
        have "sv_canonical_path (fst w) = ?p"
          using same_path[OF ok plan_refs(2)[OF w]] plan_refs(1)[OF plan] eq by simp
        moreover have "written_ok R y w" using ok w by (simp add: saving_ok_def)
        ultimately show False using plan eq at by (auto simp: written_ok_def split: prod.splits)
      qed
      then have new_id: "?i \<notin> set (map (\<lambda>(plan, io, t). sv_document_id plan) (wy_written y))" by force
      have "refs ?y3 \<subseteq> refs y" unfolding refs_def same using plans2 plan by auto
      then have "refs_ok ?y3" using ok by (auto simp: saving_ok_def refs_ok_def intro: single_valued_subset)
      moreover have "seen_ok ?y3" using ok2 unfolding saving_ok_def seen_ok_def same
        by (auto simp: io registered_as_def)
      moreover have "written_ok R ?y3 w" if "written_ok R ?y2 w" for w
        using that by (simp add: written_ok_def view_simps)
      moreover have "written_ok R ?y3 ?w"
      proof -
        have "captured_ok R y (plan, captured)" using ok c by (simp add: saving_ok_def)
        then have "\<forall>v s dirty. doc_view R y ?i = Some (v, s, dirty) \<longrightarrow>
            fst captured \<le> v \<and> (fst captured = v \<longrightarrow> s = snd captured) \<and> (fst captured \<noteq> v \<longrightarrow> dirty)"
          using at by (auto simp: captured_ok_def split: prod.splits)
        moreover have "?m \<noteq> fd_last_known_metadata f" if "registered_as y i = Some f" for i f
          using recorded[OF that] fresh by auto
        moreover have "?m \<noteq> expected_metadata other" if "other \<in> save_plans ?y2" for other
          using expected[of other] plans2 that fresh by auto
        ultimately show ?thesis using now written(4)
          unfolding written_ok_def same by (fastforce simp: io md)
      qed
      moreover have "captured_ok R ?y3 c" if "captured_ok R ?y2 c" for c
        using that by (simp add: captured_ok_def view_simps)
      moreover have "clean_ok R ?y3"
        using ok2 clean_cong[of ?y3 ?y2 R] by (simp add: saving_ok_def view_simps fun_eq_iff)
      ultimately have "saving_ok R ?y3" using ok2 new_id by (simp add: saving_ok_def)
      then show ?thesis using Inr by simp
    qed
  qed
qed

lemma saving_committed:
  assumes ok: "saving_ok R y" and w: "(plan, io, t) \<in> set (wy_written y)"
    and commit: "commit_save (wy_state y) plan io = Some (st, outcome)"
  shows "saving_ok R (y\<lparr>wy_state := st, wy_written := remove1 (plan, io, t) (wy_written y)\<rparr>)" (is "saving_ok R ?y")
proof -
  let ?i = "sv_document_id plan" and ?m = "si_saved_metadata io"
  obtain d where d: "ws_cells (wy_state y) ?i = Some d"
    and st: "st = (set_last_known_metadata (wy_state y) ?i ?m)
      \<lparr>ws_cells := (ws_cells (wy_state y))(?i \<mapsto> fst (mark_clean_if_version d (si_prepared_version io)))\<rparr>"
    using commit by (auto simp: commit_save_def Let_def set_last_known_metadata_docs(2) split: option.splits prod.splits)
  have old: "written_ok R y (plan, io, t)" using ok w by (simp add: saving_ok_def)
  have vold: "doc_view R y ?i = Some (ds_version d, document_string R d, ds_dirty d)"
    using d by (simp add: doc_view_def cell_view_def document_string_def)
  let ?dirty = "ds_dirty d \<and> si_prepared_version io \<noteq> ds_version d"
  have view: "doc_view R ?y j = (if j = ?i then Some (ds_version d, document_string R d, ?dirty) else doc_view R y j)" for j
    by (auto simp: doc_view_def cell_view_def document_string_def st mark_clean_if_version_def)
  have dist: "distinct (map (\<lambda>(plan, io, t). sv_document_id plan) (wy_written y))" using ok by (simp add: saving_ok_def)
  note rest = distinct_remove1_key[OF dist w]
  show ?thesis
  proof (rule saving_recorded[OF ok, of ?m ?y ?i "(ds_version d, document_string R d, ?dirty)"])
    show "?m \<in> wy_seen y" using ok w unfolding saving_ok_def seen_ok_def by fastforce
    show "doc_view R ?y j = (if j = ?i then Some (ds_version d, document_string R d, ?dirty) else doc_view R y j)" for j
      by (rule view)
    show "sv_document_id other \<noteq> ?i" if "(other, io', t') \<in> set (wy_written ?y)" for other io' t'
    proof
      assume eq: "sv_document_id other = ?i"
      have "(\<lambda>(plan, io, t). sv_document_id plan) (other, io', t')
          \<in> (\<lambda>(plan, io, t). sv_document_id plan) ` set (remove1 (plan, io, t) (wy_written y))"
        using that by (intro imageI) simp
      then show False using rest eq by simp
    qed
    show "distinct (map (\<lambda>(plan, io, t). sv_document_id plan) (wy_written ?y))" using rest by simp
    show "captured_ok R ?y (other, v, s)"
      if "(other, v, s) \<in> set (wy_captured y)" "sv_document_id other = ?i" for other v s
    proof -
      have other: "other \<in> save_plans y" using that by (force simp: save_plans_def)
      have "sv_canonical_path other = sv_canonical_path plan"
        using same_path[OF ok plan_refs(1)[OF other]] plan_refs(2)[OF w] that by simp
      then have "disk_metadata (wy_disk y) (sv_canonical_path other) \<noteq> Some (expected_metadata other)"
        using old other that by (auto simp: written_ok_def)
      moreover have "captured_ok R y (other, v, s)" using ok that by (simp add: saving_ok_def)
      ultimately show ?thesis using that vold unfolding captured_ok_def view by auto
    qed
    show "df_content dfile = Utf8_Content s"
      if "registered_as y ?i = Some f" "(ds_version d, document_string R d, ?dirty) = (v, s, False)"
        "wy_disk y (fd_canonical_path f) = Some dfile" "from_fs_metadata (df_metadata dfile) = ?m" for f v s dfile
    proof -
      have "fd_canonical_path f = sv_canonical_path plan"
        using same_path[OF ok plan_refs(4)[OF that(1)]] plan_refs(2)[OF w] by simp
      then show ?thesis using that old vold by (auto simp: written_ok_def)
    qed
  qed (use set_remove1_subset[of "(plan, io, t)" "wy_written y"] d in
      \<open>auto simp: registered_as_def st set_last_known_metadata_docs\<close>)
qed

lemma saving_reloaded:
  assumes ok: "saving_ok R y" and plan: "plan \<in> set (wy_reloading y)" and alone: "no_save_under_way y (rp_document_id plan)"
    and read: "was_read y (rp_canonical_path plan) (ri_text io) (ri_reloaded_metadata io)"
    and commit: "commit_reload R (wy_state y) plan io = Some (st, r)"
  shows "saving_ok R (y\<lparr>wy_state := st, wy_reloading := remove1 plan (wy_reloading y)\<rparr>)" (is "saving_ok R ?y")
proof -
  let ?i = "rp_document_id plan" and ?m = "ri_reloaded_metadata io"
  have fewer: "set (remove1 plan (wy_reloading y)) \<subseteq> set (wy_reloading y)" by (rule set_remove1_subset)
  obtain d where d: "ws_cells (wy_state y) ?i = Some d" using commit by (auto simp: commit_reload_def split: option.splits)
  show ?thesis
  proof (cases "ds_dirty d \<and> \<not> rp_force plan")
    case True
    then have "st = wy_state y" using commit d by (simp add: commit_reload_def)
    moreover have "refs (y\<lparr>wy_reloading := remove1 plan (wy_reloading y)\<rparr>) \<subseteq> refs y"
      using fewer by (auto simp: refs_def view_simps)
    ultimately show ?thesis using ok
      by (auto simp: saving_ok_def refs_ok_def seen_ok_def written_ok_def captured_ok_def clean_ok_def view_simps
          intro: single_valued_subset)
  next
    case False
    let ?d = "replace_text_from_storage R d (ri_text io)"
    have st: "st = set_last_known_metadata ((wy_state y)\<lparr>ws_cells := (ws_cells (wy_state y))(?i \<mapsto> ?d)\<rparr>) ?i ?m"
      using commit d False by (auto simp: commit_reload_def Let_def)
    have new: "document_string R ?d = ri_text io" "\<not> ds_dirty ?d"
      by (auto simp: replace_text_from_storage_def document_string_def Let_def)
    show ?thesis
    proof (rule saving_recorded[OF ok, of ?m ?y ?i "(ds_version ?d, ri_text io, False)"])
      show "?m \<in> wy_seen y" using read by (simp add: was_read_def)
      show "doc_view R ?y j = (if j = ?i then Some (ds_version ?d, ri_text io, False) else doc_view R y j)" for j
        using new by (simp add: doc_view_def cell_view_def st set_last_known_metadata_docs document_string_def)
      show "df_content dfile = Utf8_Content s"
        if "registered_as y ?i = Some f" "(ds_version ?d, ri_text io, False) = (v, s, False)"
          "wy_disk y (fd_canonical_path f) = Some dfile" "from_fs_metadata (df_metadata dfile) = ?m" for f v s dfile
      proof -
        have "fd_canonical_path f = rp_canonical_path plan"
          using same_path[OF ok plan_refs(4)[OF that(1)] plan_refs(3)[OF plan]] .
        then show ?thesis using that read by (auto simp: was_read_def)
      qed
      show "distinct (map (\<lambda>(plan, io, t). sv_document_id plan) (wy_written ?y))" using ok by (simp add: saving_ok_def)
      show "captured_ok R ?y (other, v, s)"
        if "(other, v, s) \<in> set (wy_captured y)" "sv_document_id other = ?i" for other v s
        using alone that by (auto simp: no_save_under_way_def)
    qed (use fewer alone in \<open>auto simp: registered_as_def st set_last_known_metadata_docs no_save_under_way_def\<close>)
  qed
qed

end

section \<open>All steps\<close>

lemma map_of_mset:
  assumes "distinct (map fst xs)" and "mset ys = mset xs"
  shows "distinct (map fst ys)" and "map_of ys = map_of xs"
proof -
  have "mset (map fst ys) = mset (map fst xs)" using assms(2) by simp
  then show d: "distinct (map fst ys)" using assms(1) by (metis mset_eq_imp_distinct_iff)
  have "set ys = set xs" using assms(2) by (rule mset_eq_setD)
  then have "map_of ys k = Some v \<longleftrightarrow> map_of xs k = Some v" for k v using assms(1) d by simp
  then show "map_of ys = map_of xs" by (metis ext not_Some_eq)
qed

lemma registry_reordered:
  assumes ok: "registry_ok st" and r: "mset rs = mset (ws_roots st)" and d: "mset ds = mset (ws_documents st)"
  shows "registry_ok (st\<lparr>ws_roots := rs, ws_documents := ds\<rparr>)" and "quiet st (st\<lparr>ws_roots := rs, ws_documents := ds\<rparr>)"
proof -
  have dr: "distinct (map fst (ws_roots st))" and dd: "distinct (map fst (ws_documents st))"
    using ok by (simp_all add: registry_parts roots_ok_def index_ok_def)
  note mr = map_of_mset[OF dr r] and md = map_of_mset[OF dd d]
  have len: "length rs = length (ws_roots st)" "length ds = length (ws_documents st)" "set rs = set (ws_roots st)"
    using r d by (metis mset_eq_length, metis mset_eq_length, metis mset_eq_setD)
  have grants: "root_grants (st\<lparr>ws_roots := rs\<rparr>) = root_grants st"
    by (simp add: root_grants_def mr fun_eq_iff)
  have held: "held_by (st\<lparr>ws_roots := rs, ws_documents := ds\<rparr>) = held_by st"
    by (simp add: held_by_def cell_has_access_def md fun_eq_iff)
  show "registry_ok (st\<lparr>ws_roots := rs, ws_documents := ds\<rparr>)"
    using ok mr(1) md(1)
    by (simp add: registry_parts roots_ok_def index_ok_def grants_ok_def cells_ok_def ceilings_ok_def all_held_def
        grants held len del: map_of_eq_Some_iff) (simp add: md(2))
  show "quiet st (st\<lparr>ws_roots := rs, ws_documents := ds\<rparr>)"
    by (simp add: quiet_def grants cell_view_def md(2))
qed

lemma registry_ids_taken:
  assumes ok: "registry_ok st" and "ws_document_id_allocator st = Some n" "n \<le> m" "m \<le> u64_max"
  shows "registry_ok (st\<lparr>ws_document_id_allocator := Some m\<rparr>)" and "quiet st (st\<lparr>ws_document_id_allocator := Some m\<rparr>)"
proof -
  let ?st = "st\<lparr>ws_document_id_allocator := Some m\<rparr>"
  have same: "held_by ?st = held_by st" "root_grants ?st = root_grants st" "next_id ?st = m" "next_id st = n"
    using assms(2) by (simp_all add: held_by_def cell_has_access_def root_grants_def next_id_def fun_eq_iff)
  have cells: "\<And>i d. ws_cells st i = Some d \<Longrightarrow> ds_document_id d = i \<and> finite (ds_access_holders d) \<and> i < n"
    and docs: "\<And>i. map_of (ws_documents st) i \<noteq> None \<Longrightarrow> ws_cells st i \<noteq> None"
    using ok by (simp_all add: registry_parts cells_ok_def same)
  have "cells_ok ?st" using cells docs assms(3,4) by (fastforce simp: cells_ok_def same)
  then show "registry_ok ?st"
    using ok by (simp add: registry_parts roots_ok_def index_ok_def grants_ok_def ceilings_ok_def all_held_def same)
  show "quiet st ?st" by (simp add: quiet_def cell_view_def same)
qed

context crop_rope begin

lemma saving_reload_prepared:
  assumes ok: "saving_ok R y" and plan: "prepare_reload fs (wy_state y) i force = Inr plan"
  shows "saving_ok R (y\<lparr>wy_reloading := plan # wy_reloading y\<rparr>)" (is "saving_ok R ?y")
proof -
  obtain f where f: "registered_as y i = Some f" "rp_document_id plan = i" "rp_canonical_path plan = fd_canonical_path f"
    using plan by (auto simp: prepare_reload_def registered_as_def bind_result_Inr split: option.splits if_splits)
  have same: "registered_as ?y = registered_as y" "save_plans ?y = save_plans y" "doc_view R ?y = doc_view R y"
    by (simp_all add: registered_as_def save_plans_def doc_view_def fun_eq_iff)
  have "refs ?y = refs y" unfolding refs_def same using f by auto
  then have "saving_ok R ?y = saving_ok R y"
    by (simp add: saving_ok_def refs_ok_def seen_ok_def written_ok_def captured_ok_def clean_ok_def same)
  then show ?thesis using ok by simp
qed

lemma inv_quiet:
  assumes "workspace_inv R y" and "registry_ok st" and "quiet (wy_state y) st"
  shows "workspace_inv R (y\<lparr>wy_state := st\<rparr>)"
  using assms saving_quiet[OF assms(3)] by (auto simp: workspace_inv_def quiet_def)

lemma registry_cell:
  assumes ok: "registry_ok st" and "ws_cells st i = Some d" "ds_document_id d' = ds_document_id d"
    "ds_access_holders d' = ds_access_holders d"
  shows "registry_ok (st\<lparr>ws_cells := (ws_cells st)(i \<mapsto> d')\<rparr>)"
proof -
  have "ds_document_id d' = i" "finite (ds_access_holders d')"
    using assms by (auto simp: registry_parts cells_ok_def)
  then have "registry_core (st\<lparr>ws_cells := (ws_cells st)(i \<mapsto> d')\<rparr>)"
    using assms by (intro core_cell[of st i d]) (auto simp: registry_ok_def)
  then show ?thesis using assms by (auto simp: registry_ok_def all_held_def)
qed

lemma registry_recorded:
  assumes ok: "registry_ok st"
  shows "registry_ok (set_last_known_metadata st i m)"
proof (cases "map_of (ws_documents st) i")
  case None
  then show ?thesis using ok by (simp add: set_last_known_metadata_def)
next
  case (Some f)
  let ?docs = "AList.update i (f\<lparr>fd_last_known_metadata := m\<rparr>) (ws_documents st)"
  let ?st = "st\<lparr>ws_documents := ?docs\<rparr>"
  have st: "set_last_known_metadata st i m = ?st" using Some by (simp add: set_last_known_metadata_def)
  have upd: "length (AList.update k v xs) = length xs" if "map_of xs k \<noteq> None" for k v and xs :: "(nat \<times> file_document_state) list"
    using that by (induction xs) (auto split: if_splits)
  have docs: "map_of ?docs j = (if j = i then Some (f\<lparr>fd_last_known_metadata := m\<rparr>) else map_of (ws_documents st) j)" for j
    by (simp add: update_conv')
  have held: "held_by ?st = held_by st" by (auto simp: held_by_def cell_has_access_def docs Some fun_eq_iff)
  have ix: "ws_path_to_document st p = Some j \<longleftrightarrow> (\<exists>g. map_of (ws_documents st) j = Some g \<and> fd_canonical_path g = p)" for p j
    using ok unfolding registry_parts index_ok_def by blast
  have "index_ok ?st"
    unfolding index_ok_def
  proof (intro conjI allI)
    show "distinct (map fst (ws_documents ?st))" using ok by (simp add: registry_parts index_ok_def distinct_update)
    fix p j
    show "ws_path_to_document ?st p = Some j \<longleftrightarrow> (\<exists>g. map_of (ws_documents ?st) j = Some g \<and> fd_canonical_path g = p)"
      using ix[of p j] Some by (simp add: docs)
  qed
  moreover have "grants_ok ?st" using ok Some by (auto simp: registry_parts grants_ok_def docs simp del: map_of_eq_Some_iff)
  moreover have dom: "map_of ?docs j \<noteq> None \<longleftrightarrow> map_of (ws_documents st) j \<noteq> None" for j
    using Some by (simp add: docs)
  moreover have "cells_ok ?st" "all_held ?st"
    using ok dom by (simp_all add: registry_parts cells_ok_def all_held_def)
  moreover have "ceilings_ok ?st" using ok upd[of "ws_documents st" i] Some by (simp add: registry_parts ceilings_ok_def held)
  ultimately show ?thesis using ok by (simp add: registry_parts st)
qed

lemma inv_opened:
  assumes inv: "workspace_inv R y" and ok: "registry_ok st"
    and new: "quiet (wy_state y) st \<or> opened_new R (wy_state y) f content st"
    and read: "was_read y (fd_canonical_path f) content (fd_last_known_metadata f)"
  shows "workspace_inv R (y\<lparr>wy_state := st\<rparr>)"
  using new
proof
  assume "quiet (wy_state y) st"
  then show ?thesis by (rule inv_quiet[OF inv ok])
next
  assume o: "opened_new R (wy_state y) f content st"
  then have "saving_ok R (y\<lparr>wy_state := st\<rparr>)" using inv read by (intro saving_opened) (simp_all add: workspace_inv_def)
  then show ?thesis using inv ok o by (auto simp: workspace_inv_def opened_new_def)
qed

lemma inv_fewer:
  assumes "workspace_inv R y"
  shows "workspace_inv R (y\<lparr>wy_opening := remove1 p (wy_opening y)\<rparr>)"
    and "workspace_inv R (y\<lparr>wy_selecting := xs\<rparr>)"
  using assms set_remove1_subset[of p "wy_opening y"] by (auto simp: workspace_inv_def)

lemma inv_saving:
  assumes "workspace_inv R y" and "saving_ok R y'" and "registry_ok (wy_state y')"
    and "root_grants (wy_state y') = root_grants (wy_state y)" and "wy_opening y' = wy_opening y"
  shows "workspace_inv R y'"
  using assms by (simp add: workspace_inv_def)

lemma set_last_known_grants [simp]: "root_grants (set_last_known_metadata st i m) = root_grants st"
  by (simp add: set_last_known_metadata_def root_grants_def fun_eq_iff split: option.split)

lemma committed_registry:
  assumes ok: "registry_ok st"
  shows "commit_save st plan io = Some (st', outcome) \<Longrightarrow> registry_ok st' \<and> root_grants st' = root_grants st"
    and "commit_reload R st reload rio = Some (st', r) \<Longrightarrow> registry_ok st' \<and> root_grants st' = root_grants st"
proof -
  assume commit: "commit_save st plan io = Some (st', outcome)"
  let ?st = "set_last_known_metadata st (sv_document_id plan) (si_saved_metadata io)"
  obtain d where d: "ws_cells ?st (sv_document_id plan) = Some d"
    "st' = ?st\<lparr>ws_cells := (ws_cells ?st)(sv_document_id plan \<mapsto> fst (mark_clean_if_version d (si_prepared_version io)))\<rparr>"
    using commit by (auto simp: commit_save_def Let_def set_last_known_metadata_docs(2) split: option.splits prod.splits)
  then show "registry_ok st' \<and> root_grants st' = root_grants st"
    using registry_cell[OF registry_recorded[OF ok] d(1)] by (simp add: mark_clean_if_version_def)
next
  assume commit: "commit_reload R st reload rio = Some (st', r)"
  obtain d where d: "ws_cells st (rp_document_id reload) = Some d" using commit by (auto simp: commit_reload_def split: option.splits)
  have "registry_ok (st\<lparr>ws_cells := (ws_cells st)(rp_document_id reload \<mapsto> replace_text_from_storage R d t)\<rparr>)" for t
    by (rule registry_cell[OF ok d]) (simp_all add: replace_text_from_storage_def Let_def)
  then show "registry_ok st' \<and> root_grants st' = root_grants st"
    using commit d ok by (auto simp: commit_reload_def Let_def registry_recorded split: if_splits)
qed

lemma seen_disk: "workspace_inv R y \<Longrightarrow> disk_metadata (wy_disk y) p = Some m \<Longrightarrow> m \<in> wy_seen y"
  by (auto simp: workspace_inv_def saving_ok_def seen_ok_def)

theorem workspace_step_inv:
  assumes "workspace_step R y y'" and inv: "workspace_inv R y"
  shows "workspace_inv R y'"
  using assms(1)
proof cases
  have ok: "registry_ok (wy_state y)" and sav: "saving_ok R y" using inv by (simp_all add: workspace_inv_def)
  have grow: "workspace_inv R (y\<lparr>wy_state := st\<rparr>)" if "roots_grow (wy_state y) st" for st
    using that ok by (intro inv_quiet[OF inv _ roots_grow_quiet]) (simp_all add: roots_grow_def)
  {
    case (Root_Added canon p st r)
    then show ?thesis using grow roots_grow_ops(2)[OF ok] by blast
  next
    case (Cwd_Added canon cwd st r)
    then show ?thesis using grow roots_grow_ops(3)[OF ok] by blast
  next
    case (Root_Discovered canon exists_path p st r)
    then show ?thesis using grow roots_grow_ops(4)[OF ok] by blast
  next
    case (Root_Granted canon p st r)
    then show ?thesis using grow roots_grow_ops(5)[OF ok] by blast
  next
    case (Opening canon root_id p client_id st r)
    obtain st1 r1 where e: "prepare_open_existing (disk_view canon (wy_disk y)) (wy_state y) root_id p client_id = Some (st1, r1)"
      "registry_ok st1" "quiet (wy_state y) st1" "\<And>plan. r1 = Inr (Inr plan) \<Longrightarrow>
       root_grants st1 (fd_workspace_root_id (op_file_state plan)) (fd_canonical_path (op_file_state plan))"
      by (rule prepare_open_existing_effect[OF ok, where fs = "disk_view canon (wy_disk y)" and root_id = root_id
            and q = p and client_id = client_id]) blast
    then have "st1 = st" "r1 = r" using Opening(2) by simp_all
    then show ?thesis using inv_quiet[OF inv e(2,3)] e(4) unfolding Opening(1)
      by (auto simp: workspace_inv_def split: sum.splits)
  next
    case (Selecting canon p client_id st r)
    obtain st1 r1 where e: "prepare_open_selected (disk_view canon (wy_disk y)) (wy_state y) p client_id = Some (st1, r1)"
      "registry_ok st1" "quiet (wy_state y) st1"
      by (rule prepare_open_selected_effect[OF ok])
    then have "st1 = st" using Selecting(2) by simp
    then show ?thesis using inv_fewer(2)[OF inv_quiet[OF inv e(2,3)]] unfolding Selecting(1) by simp
  next
    case (Opened plan content metadata st r)
    let ?f = "(op_file_state plan)\<lparr>fd_last_known_metadata := metadata\<rparr>"
    have "root_grants (wy_state y) (fd_workspace_root_id ?f) (fd_canonical_path ?f)"
      using inv Opened(2) by (simp add: workspace_inv_def)
    then obtain st1 r1 where e: "register_canonical_file R (wy_state y) ?f content (op_client_id plan) = Some (st1, r1)"
      "registry_ok st1" "quiet (wy_state y) st1 \<or> opened_new R (wy_state y) ?f content st1"
      by (rule register_canonical_file_effect[OF ok Opened(4)])
    then have "st1 = st" using Opened(5) by simp
    then show ?thesis using inv_fewer(1)[OF inv_opened[OF inv e(2,3)], of plan] Opened(3) unfolding Opened(1) by simp
  next
    case (Selected plan content metadata st r)
    obtain st1 r1 f where e: "register_selected_file R (wy_state y) plan content metadata = Some (st1, r1)" "registry_ok st1"
      "quiet (wy_state y) st1 \<or> opened_new R (wy_state y) f content st1" "fd_canonical_path f = so_canonical_path plan"
      "fd_last_known_metadata f = metadata"
      by (rule register_selected_file_effect[OF ok Selected(4)])
    then have "st1 = st" using Selected(5) by simp
    then show ?thesis using inv_fewer(2)[OF inv_opened[OF inv e(2,3)]] Selected(3) e(4,5) unfolding Selected(1) by simp
  next
    case (Closed document_id client_id force st r)
    obtain st1 r1 where e: "close_document (wy_state y) document_id client_id force = Some (st1, r1)"
      "registry_ok st1" "quiet (wy_state y) st1"
      by (rule close_document_effect[OF ok])
    then have "st1 = st" using Closed(2) by simp
    then show ?thesis using inv_quiet[OF inv e(2,3)] unfolding Closed(1) by simp
  next
    case (Client_Left client_id st finalized)
    show ?thesis using inv_quiet[OF inv release_client_access_effect(1,2)[OF ok Client_Left(2)]]
      unfolding Client_Left(1) .
  next
    case (Requested document_id d request d' e)
    note eff = cell_request_effect[OF Requested(4,3,5)]
    show ?thesis unfolding Requested(1)
      by (rule inv_saving[OF inv saving_request[OF sav Requested(2,4,3,5)]])
        (simp_all add: registry_cell[OF ok Requested(2) eff(1,2)])
  next
    case (Save_Prepared canon document_id plan)
    show ?thesis unfolding Save_Prepared(1)
      by (rule inv_saving[OF inv saving_prepared[OF sav Save_Prepared(2)]]) (simp_all add: ok)
  next
    case (Save_Captured plan captured)
    show ?thesis unfolding Save_Captured(1)
      by (rule inv_saving[OF inv saving_captured[OF sav Save_Captured(2,3)]]) (simp_all add: ok)
  next
    case (Save_Written plan captured metadata renamed read_back written disk r)
    show ?thesis unfolding Save_Written(1)
      by (rule inv_saving[OF inv saving_written[OF sav Save_Written(2,3,4,5)]]) (simp_all add: ok)
  next
    case (Save_Committed plan io content st outcome)
    show ?thesis unfolding Save_Committed(1)
      by (rule inv_saving[OF inv saving_committed[OF sav Save_Committed(2,3)]])
        (simp_all add: committed_registry(1)[OF ok Save_Committed(3)])
  next
    case (Reload_Prepared canon document_id force plan)
    show ?thesis unfolding Reload_Prepared(1)
      by (rule inv_saving[OF inv saving_reload_prepared[OF sav Reload_Prepared(2)]]) (simp_all add: ok)
  next
    case (Reloaded plan io st r)
    show ?thesis unfolding Reloaded(1)
      by (rule inv_saving[OF inv saving_reloaded[OF sav Reloaded(2,3,4,5)]])
        (simp_all add: committed_registry(2)[OF ok Reloaded(5)])
  next
    case (Foreign_Write dfile p)
    have "saving_ok R y'" unfolding Foreign_Write(1)
      by (rule saving_disk[OF sav disk_change_write(1)[OF Foreign_Write(2)]])
        (use seen_disk[OF inv] in \<open>auto simp: disk_metadata_def split: if_splits\<close>)
    then show ?thesis by (rule inv_saving[OF inv]) (simp_all add: ok Foreign_Write(1))
  next
    case (Foreign_Removal p)
    have "saving_ok R (y\<lparr>wy_disk := (wy_disk y)(p := None), wy_seen := wy_seen y\<rparr>)"
      by (rule saving_disk[OF sav disk_change_write(2)])
        (use seen_disk[OF inv] in \<open>auto simp: disk_metadata_def split: if_splits\<close>)
    then have "saving_ok R y'" unfolding Foreign_Removal(1) by simp
    then show ?thesis by (rule inv_saving[OF inv]) (simp_all add: ok Foreign_Removal(1))
  next
    case (Ids_Taken n m)
    show ?thesis using inv_quiet[OF inv registry_ids_taken[OF ok Ids_Taken(2,3,4)]] unfolding Ids_Taken(1) .
  next
    case (Reordered rs ds)
    show ?thesis using inv_quiet[OF inv registry_reordered[OF ok Reordered(2,3)]] unfolding Reordered(1) .
  }
qed

lemma workspace_start_inv:
  assumes "\<And>n. allocator = Some n \<Longrightarrow> n \<le> u64_max"
  shows "workspace_inv R (workspace_start allocator disk)"
proof -
  have "registry_ok (workspace_new\<lparr>ws_document_id_allocator := allocator\<rparr>)"
    using assms registry_start by (cases allocator) (auto simp: workspace_new_def)
  moreover have "saving_ok R (workspace_start allocator disk)"
    by (auto simp: saving_ok_def refs_ok_def refs_def seen_ok_def clean_ok_def view_simps workspace_start_def
        workspace_new_def)
  ultimately show ?thesis by (simp add: workspace_inv_def workspace_start_def)
qed

lemma workspace_run_inv:
  assumes "workspace_run R y y'" and "workspace_inv R y"
  shows "workspace_inv R y'"
  using assms by (induction rule: workspace_run.induct) (auto intro: workspace_step_inv)

end

end
