(* ===== verification/Workspace_Properties.thy ===== *)
theory Workspace_Properties imports Workspace_Invariant begin

text \<open>
  The properties of the workspace, over every state its steps reach: what the registry guarantees, what a
  document shown as unmodified guarantees about the disk, what a connection without access
  learns, and what is left when a connection ends. Two theorems state what goes wrong: a forced reload during a
  save, and the grants of selected files.
\<close>

section \<open>A concrete run\<close>

text \<open>One root with one file; a connection opens the file, edits it and saves it.\<close>

definition sample_canon :: "requested_path \<Rightarrow> path option" where
  "sample_canon q = (case q of Absolute p \<Rightarrow> Some p | Relative p \<Rightarrow> None)"

definition sample_metadata :: "nat \<Rightarrow> fs_metadata" where
  "sample_metadata t = \<lparr>fm_kind = Regular_File, fm_stable_id = Some (1, t), fm_len = 1, fm_modified = Some t\<rparr>"

definition sample_disk :: disk where
  "sample_disk = [[''p''] \<mapsto> \<lparr>df_metadata = \<lparr>fm_kind = Directory_File, fm_stable_id = None, fm_len = 0, fm_modified = None\<rparr>,
                            df_content = Other_Content 0\<rparr>,
                 [''p'', ''f''] \<mapsto> \<lparr>df_metadata = sample_metadata 3, df_content = Utf8_Content [97]\<rparr>]"

definition sample_file :: "nat \<Rightarrow> file_document_state" where
  "sample_file t = \<lparr>fd_workspace_root_id = 1, fd_canonical_path = [''p'', ''f''],
     fd_workspace_relative_path = [''f''], fd_last_known_metadata = from_fs_metadata (sample_metadata t)\<rparr>"

definition sample_cell :: "nat \<Rightarrow> ustr \<Rightarrow> nat option \<Rightarrow> bool \<Rightarrow> ustr document_state" where
  "sample_cell v t transaction dirty =
     \<lparr>ds_document_id = 1, ds_version = v, ds_text = t,
      ds_active_lease = Some \<lparr>el_client_id = 5, el_lease_id = 1\<rparr>, ds_next_lease_id = 2,
      ds_last_transaction_id = transaction, ds_dirty = dirty, ds_region_locks = [],
      ds_next_region_lock_id = 1, ds_retained_parse_windows = Map.empty, ds_access_holders = {5}\<rparr>"

definition sample_rooted :: "ustr workspace_state" where
  "sample_rooted = workspace_new\<lparr>ws_roots := [(1, Directory_Root [''p''])], ws_next_root_id := 2\<rparr>"

definition sample_open :: "ustr document_state \<Rightarrow> nat \<Rightarrow> ustr workspace_state" where
  "sample_open d t = sample_rooted\<lparr>ws_next_document_id := 2, ws_cells := [1 \<mapsto> d],
     ws_path_to_document := [[''p'', ''f''] \<mapsto> 1], ws_documents := [(1, sample_file t)]\<rparr>"

definition sample_plan :: open_plan where
  "sample_plan = \<lparr>op_file_state = sample_file 3, op_client_id = 5\<rparr>"

definition sample_save :: save_plan where
  "sample_save = \<lparr>sv_document_id = 1, sv_canonical_path = [''p'', ''f''], sv_relative_path = [''f''],
     sv_expected_identity = identity_from_metadata (sample_metadata 3)\<rparr>"

definition sample_start :: "ustr workspace_system" where
  "sample_start = workspace_start None sample_disk"

definition sample_opened :: "ustr workspace_system" where
  "sample_opened = sample_start\<lparr>wy_state := sample_open (sample_cell 1 [97] None False) 3\<rparr>"

lemmas sample_defs = sample_canon_def sample_metadata_def sample_disk_def sample_file_def sample_cell_def
  sample_rooted_def sample_open_def sample_plan_def sample_save_def sample_start_def workspace_start_def
  workspace_new_def disk_view_def from_fs_metadata_def identity_from_metadata_def identity_metadata_def

lemma sample_add_root:
  "add_root (disk_view sample_canon sample_disk) workspace_new (Absolute [''p'']) = (sample_rooted, Inr 1)"
  by (simp add: add_root_def sample_defs insert_root_def max_workspace_roots_def sat_add_def u64_max_def)

lemma sample_opening:
  "prepare_open_existing (disk_view sample_canon sample_disk) sample_rooted 1 (Relative [''f'']) 5
     = Some (sample_rooted, Inr (Inr sample_plan))"
  by (simp add: prepare_open_existing_def canonical_file_state_def sample_defs path_join_def starts_with_def
      validate_regular_file_metadata_def existing_document_lease_def check_openable_size_def
      max_openable_file_bytes_def)

lemma sample_two: "sat_add (Suc 0) (Suc 0) = 2"
  by (simp add: sat_add_def u64_max_def)

lemma sample_register:
  "\<exists>lease. register_canonical_file list_rope sample_rooted
       ((op_file_state sample_plan)\<lparr>fd_last_known_metadata := from_fs_metadata (sample_metadata 3)\<rparr>) [97] (op_client_id sample_plan)
     = Some (sample_open (sample_cell 1 [97] None False) 3, Inr lease)"
  by (simp add: register_canonical_file_def sample_defs existing_document_lease_def enforce_document_ceilings_def
      max_server_documents_def max_active_connections_def max_documents_per_client_def client_document_session_max_def
      allocate_document_id_def acquire_access_def document_new_def sample_two)

lemma sample_seen: "from_fs_metadata (sample_metadata 3) \<in> wy_seen sample_start"
  by (auto simp: sample_start_def workspace_start_def disk_metadata_def sample_disk_def
      intro!: exI[of _ "[''p'', ''f'']"])

lemma sample_opened_run: "workspace_run list_rope sample_start sample_opened"
proof -
  let ?y1 = "sample_start\<lparr>wy_state := sample_rooted\<rparr>"
  let ?y2 = "?y1\<lparr>wy_opening := [sample_plan]\<rparr>"
  have y0: "wy_disk sample_start = sample_disk" "wy_state sample_start = workspace_new" "wy_opening sample_start = []"
    by (simp_all add: sample_start_def workspace_start_def workspace_new_def)
  have s1: "workspace_step list_rope sample_start ?y1"
    by (rule workspace_step.Root_Added[where canon = sample_canon and p = "Absolute [''p'']" and r = "Inr 1"])
      (simp add: y0 sample_add_root)
  have s2: "workspace_step list_rope ?y1 ?y2"
    using workspace_step.Opening[of sample_canon ?y1 1 "Relative [''f'']" 5 sample_rooted "Inr (Inr sample_plan)" list_rope]
    by (simp add: y0 sample_opening[simplified])
  obtain lease where l: "register_canonical_file list_rope sample_rooted
       ((op_file_state sample_plan)\<lparr>fd_last_known_metadata := from_fs_metadata (sample_metadata 3)\<rparr>) [97] (op_client_id sample_plan)
     = Some (sample_open (sample_cell 1 [97] None False) 3, Inr lease)"
    using sample_register by blast
  have read: "was_read ?y2 (fd_canonical_path (op_file_state sample_plan)) [97] (from_fs_metadata (sample_metadata 3))"
    using sample_seen by (simp add: was_read_def y0) (simp add: sample_disk_def sample_plan_def sample_file_def)
  have "workspace_step list_rope ?y2 (?y2\<lparr>wy_state := sample_open (sample_cell 1 [97] None False) 3,
      wy_opening := remove1 sample_plan (wy_opening ?y2)\<rparr>)"
    by (rule workspace_step.Opened[OF _ read])
      (simp_all add: l, simp add: next_id_def sample_rooted_def workspace_new_def u64_max_def)
  then have "workspace_step list_rope ?y2 sample_opened"
    by (simp add: sample_opened_def y0 sample_start_def workspace_start_def)
  then show ?thesis using s1 s2 by (meson workspace_run.intros)
qed

definition sample_edited :: "ustr workspace_system" where
  "sample_edited = sample_start\<lparr>wy_state := sample_open (sample_cell 2 [97, 98] (Some 9) True) 3\<rparr>"

definition sample_written :: "ustr workspace_system" where
  "sample_written = sample_edited\<lparr>wy_disk := sample_disk([''p'', ''f''] \<mapsto>
       \<lparr>df_metadata = sample_metadata 4, df_content = Utf8_Content [97, 98]\<rparr>),
     wy_seen := insert (from_fs_metadata (sample_metadata 4)) (wy_seen sample_start), wy_captured := [],
     wy_written := [(sample_save, \<lparr>si_prepared_version = 2, si_saved_metadata = from_fs_metadata (sample_metadata 4)\<rparr>, [97, 98])]\<rparr>"

definition sample_saved :: "ustr workspace_system" where
  "sample_saved = sample_written\<lparr>wy_state := sample_open (sample_cell 2 [97, 98] (Some 9) False) 4, wy_written := []\<rparr>"

lemma sample_edit:
  "\<exists>e. document_step list_rope (sample_cell 1 [97] None False) (ApplyEdit 1 5 (Some 1) 1 9 (Insert 1 [98]))
     = Some (sample_cell 2 [97, 98] (Some 9) True, e)"
proof -
  have fits: "document_fits list_rope (sample_cell 1 [97] None False)"
    by (simp add: sample_cell_def document_fits_def document_string_def len_utf8_def u64_max_def)
  have acc: "edit_accepted list_rope (sample_cell 1 [97] None False) 1 5 (Some 1) 1 (Insert 1 [98])"
    by (simp add: sample_cell_def edit_accepted_def document_string_def valid_op_def len_utf8_def u64_max_def)
  from fits show ?thesis
  proof (cases rule: list_rope.apply_edit_cases[of _ 1 5 "Some 1" 1 9 "Insert 1 [98]"])
    case (accepted d')
    have "ds_text d' = [97, 98]"
      using accepted(3) by (simp add: document_string_def sample_cell_def edited_text_def text_splice_def len_utf8_def)
    then have "d' = sample_cell 2 [97, 98] (Some 9) True"
      using accepted(4) by (simp add: sample_cell_def numeral_2_eq_2)
    then show ?thesis using accepted(1) by (simp add: sample_cell_def)
  qed (use acc in simp)
qed

lemma sample_edited_run: "workspace_run list_rope sample_start sample_edited"
proof -
  obtain e where e: "document_step list_rope (sample_cell 1 [97] None False) (ApplyEdit 1 5 (Some 1) 1 9 (Insert 1 [98]))
     = Some (sample_cell 2 [97, 98] (Some 9) True, e)" using sample_edit by blast
  have "workspace_step list_rope sample_opened (sample_opened\<lparr>wy_state := (wy_state sample_opened)
      \<lparr>ws_cells := (ws_cells (wy_state sample_opened))(1 \<mapsto> sample_cell 2 [97, 98] (Some 9) True)\<rparr>\<rparr>)"
    by (rule workspace_step.Requested[OF _ _ _ e])
      (simp_all add: sample_opened_def sample_open_def sample_cell_def document_fits_def document_string_def
        len_utf8_def u64_max_def)
  also have "sample_opened\<lparr>wy_state := (wy_state sample_opened)
      \<lparr>ws_cells := (ws_cells (wy_state sample_opened))(1 \<mapsto> sample_cell 2 [97, 98] (Some 9) True)\<rparr>\<rparr> = sample_edited"
    by (simp add: sample_opened_def sample_edited_def sample_open_def)
  finally show ?thesis using sample_opened_run by (meson workspace_run.intros)
qed

lemma sample_save_prepared:
  "prepare_save (disk_view sample_canon sample_disk) (sample_open d 3) 1 = Inr sample_save"
  by (simp add: prepare_save_def reauthorize_open_file_def sample_defs starts_with_def validate_regular_file_metadata_def)

lemma sample_fresh: "from_fs_metadata (sample_metadata 4) \<notin> wy_seen sample_start"
  by (auto simp: sample_start_def workspace_start_def disk_metadata_def sample_disk_def from_fs_metadata_def
      sample_metadata_def split: if_splits)

lemma sample_saved_run: "workspace_run list_rope sample_start sample_saved"
proof -
  let ?c = "(sample_save, 2 :: nat, [97, 98])"
  let ?y1 = "sample_edited\<lparr>wy_saving := [sample_save]\<rparr>"
  let ?y2 = "sample_edited\<lparr>wy_captured := [?c]\<rparr>"
  have y0: "wy_disk sample_edited = sample_disk" "wy_state sample_edited = sample_open (sample_cell 2 [97, 98] (Some 9) True) 3"
    "wy_saving sample_edited = []" "wy_captured sample_edited = []" "wy_written sample_edited = []"
    "wy_seen sample_edited = wy_seen sample_start"
    by (simp_all add: sample_edited_def sample_start_def workspace_start_def)
  have s1: "workspace_step list_rope sample_edited ?y1"
    using workspace_step.Save_Prepared[of sample_canon sample_edited 1 sample_save list_rope]
    by (simp add: y0 sample_save_prepared[simplified])
  have cap: "save_capture list_rope (sample_open (sample_cell 2 [97, 98] (Some 9) True) 3) sample_save = Some (2, [97, 98])"
    by (simp add: save_capture_def sample_save_def sample_open_def sample_cell_def document_string_def)
  have s2: "workspace_step list_rope ?y1 ?y2"
    using workspace_step.Save_Captured[of sample_save ?y1 list_rope "(2, [97, 98])"]
    by (simp add: y0 cap) (simp add: sample_edited_def sample_start_def workspace_start_def)
  have "save_write sample_disk sample_save (2, [97, 98]) True (Some (sample_metadata 4, True))
      = (sample_disk([''p'', ''f''] \<mapsto> \<lparr>df_metadata = sample_metadata 4, df_content = Utf8_Content [97, 98]\<rparr>),
         Inr \<lparr>si_prepared_version = 2, si_saved_metadata = from_fs_metadata (sample_metadata 4)\<rparr>)"
    by (simp add: save_write_def atomic_write_file_def sample_save_def sample_disk_def) (simp add: matches_current_def)
  then have s3: "workspace_step list_rope ?y2 sample_written"
    using workspace_step.Save_Written[of sample_save "(2, [97, 98])" ?y2 "sample_metadata 4" "Some (sample_metadata 4, True)" True True _ _ list_rope]
      sample_fresh by (simp add: y0 sample_written_def)
  have "commit_save (wy_state sample_written) sample_save \<lparr>si_prepared_version = 2, si_saved_metadata = from_fs_metadata (sample_metadata 4)\<rparr>
      = Some (sample_open (sample_cell 2 [97, 98] (Some 9) False) 4, \<lparr>so_document_id = 1, so_version = 2, so_dirty = False\<rparr>)"
    by (simp add: commit_save_def sample_written_def y0 set_last_known_metadata_def sample_open_def sample_save_def
        mark_clean_if_version_def sample_cell_def sample_file_def)
  then have "workspace_step list_rope sample_written (sample_written\<lparr>wy_state := sample_open (sample_cell 2 [97, 98] (Some 9) False) 4,
      wy_written := remove1 (sample_save, \<lparr>si_prepared_version = 2, si_saved_metadata = from_fs_metadata (sample_metadata 4)\<rparr>, [97, 98])
        (wy_written sample_written)\<rparr>)"
    by (intro workspace_step.Save_Committed) (simp_all add: sample_written_def)
  then have "workspace_step list_rope sample_written sample_saved" by (simp add: sample_saved_def sample_written_def)
  then show ?thesis using sample_edited_run s1 s2 s3 by (meson workspace_run.intros)
qed

text \<open>Reachable workspaces.\<close>

definition workspace_reachable :: "'r rope_ops \<Rightarrow> 'r workspace_system \<Rightarrow> bool" where
  "workspace_reachable R y \<longleftrightarrow>
     (\<exists>allocator disk. (\<forall>n. allocator = Some n \<longrightarrow> n \<le> u64_max) \<and> workspace_run R (workspace_start allocator disk) y)"

lemma reachable_inv: "crop_rope R \<Longrightarrow> workspace_reachable R y \<Longrightarrow> workspace_inv R y"
  unfolding workspace_reachable_def
  by (blast intro: crop_rope.workspace_run_inv crop_rope.workspace_start_inv)

lemma reachable_registry: "crop_rope R \<Longrightarrow> workspace_reachable R y \<Longrightarrow> registry_ok (wy_state y)"
  using reachable_inv by (auto simp: workspace_inv_def)

lemma sample_reachable:
  "workspace_reachable list_rope sample_opened" "workspace_reachable list_rope sample_saved"
  using sample_opened_run sample_saved_run unfolding workspace_reachable_def sample_start_def by blast+

section \<open>Properties\<close>



text \<open>
  C22: the registry is consistent at every moment. Looking up, opening and closing never reach the two
  \<open>expect\<close>s of the code (the calls return); two documents never share a path; every open
  document lies inside what one of the granted roots allows; and the ceilings on roots, on all
  documents and on the documents of one connection hold.
\<close>

theorem workspace_registry_consistent:
  assumes "crop_rope R" and "workspace_reachable R y" and "st = wy_state y"
  shows "(\<forall>p client. existing_document_lease st p client \<noteq> None)
    \<and> (\<forall>i client force. close_document st i client force \<noteq> None)
    \<and> (\<forall>i j f g. map_of (ws_documents st) i = Some f \<and> map_of (ws_documents st) j = Some g
         \<and> fd_canonical_path f = fd_canonical_path g \<longrightarrow> i = j)
    \<and> (\<forall>i f. map_of (ws_documents st) i = Some f \<longrightarrow>
         (\<exists>a. map_of (ws_roots st) (fd_workspace_root_id f) = Some a \<and> path_granted a (fd_canonical_path f))
         \<and> (\<exists>d. ws_cells st i = Some d \<and> ds_document_id d = i \<and> ds_access_holders d \<noteq> {}))
    \<and> length (ws_roots st) \<le> 64 \<and> length (ws_documents st) \<le> 4096
    \<and> (\<forall>client. client \<noteq> 0 \<longrightarrow>
         card {i. map_of (ws_documents st) i \<noteq> None \<and> cell_has_access st client i} \<le> 64)"
proof (intro conjI allI impI)
  have ok: "registry_ok st" using reachable_registry[OF assms(1,2)] assms(3) by simp
  then have core: "registry_core st" by (simp add: registry_ok_def)
  show "existing_document_lease st p client \<noteq> None" for p client
    using existing_document_lease_effect[OF ok, of p client] by (metis option.distinct(1))
  show "close_document st i client force \<noteq> None" for i client force
    using close_document_effect[OF ok, of i client force] by (metis option.distinct(1))
  show "i = j" if "map_of (ws_documents st) i = Some f \<and> map_of (ws_documents st) j = Some g
    \<and> fd_canonical_path f = fd_canonical_path g" for i j f g
    using registered[OF core, of i f] registered[OF core, of j g] that by (metis option.inject)
  show "\<exists>a. map_of (ws_roots st) (fd_workspace_root_id f) = Some a \<and> path_granted a (fd_canonical_path f)"
    if "map_of (ws_documents st) i = Some f" for i f
    using registered[OF core that] unfolding root_grants_def by metis
  show "\<exists>d. ws_cells st i = Some d \<and> ds_document_id d = i \<and> ds_access_holders d \<noteq> {}"
    if reg: "map_of (ws_documents st) i = Some f" for i f
  proof -
    obtain d where "ws_cells st i = Some d" "ds_document_id d = i" using registered[OF core reg] by metis
    moreover have "all_held st" using ok by (simp add: registry_ok_def)
    ultimately show ?thesis using reg by (auto simp: all_held_def)
  qed
  show "length (ws_roots st) \<le> 64" "length (ws_documents st) \<le> 4096"
    using core by (simp_all add: registry_core_def roots_ok_def ceilings_ok_def max_workspace_roots_def
        max_server_documents_def max_active_connections_def max_documents_per_client_def client_document_session_max_def)
  show "card {i. map_of (ws_documents st) i \<noteq> None \<and> cell_has_access st client i} \<le> 64" if "client \<noteq> 0" for client
    using held_ceiling[OF core that]
    by (simp add: held_by_def max_documents_per_client_def client_document_session_max_def)
qed

theorem workspace_registry_consistent_witness:
  "existing_document_lease (wy_state sample_opened) [''p'', ''f''] 8 \<noteq> None
   \<and> close_document (wy_state sample_opened) 1 5 False \<noteq> None
   \<and> (\<exists>a. map_of (ws_roots (wy_state sample_opened)) (fd_workspace_root_id (sample_file 3)) = Some a
          \<and> path_granted a (fd_canonical_path (sample_file 3)))
   \<and> card {i. map_of (ws_documents (wy_state sample_opened)) i \<noteq> None \<and> cell_has_access (wy_state sample_opened) 5 i} \<le> 64"
proof -
  note c = workspace_registry_consistent[OF list_rope_laws sample_reachable(1) refl]
  have "map_of (ws_documents (wy_state sample_opened)) 1 = Some (sample_file 3)"
    by (simp add: sample_opened_def sample_open_def)
  then show ?thesis using c by simp
qed

text \<open>
  A connection without access to a document cannot tell it from one that does not exist: closing, asking for
  its metadata, authorising an edit or a save all give the error of an unknown document and change
  nothing, and the document is not in the list of the connection.
\<close>

theorem no_access_means_unknown:
  assumes "map_of (ws_documents st) i = None \<or> (\<exists>d. ws_cells st i = Some d \<and> client \<noteq> 0 \<and> client \<notin> ds_access_holders d)"
  shows "close_document st i client force = Some (st, Inl (Unknown_Document i))
    \<and> authorize_document_access st i client = Inl (Unknown_Document i)
    \<and> document_metadata_for st i client = Inl (Unknown_Document i)
    \<and> authorize_save st i client version = Inl (Unknown_Document i)
    \<and> i \<notin> dm_document_id ` set (list_documents st client)"
proof -
  have listed: "map_of (ws_documents st) i \<noteq> None \<and> (\<exists>d. ws_cells st i = Some d \<and> has_access d client)"
    if shown: "i \<in> dm_document_id ` set (list_documents st client)"
  proof -
    obtain f d where "(i, f) \<in> set (ws_documents st)" "ws_cells st i = Some d" "has_access d client"
      using shown by (auto simp: list_documents_def List.map_filter_def metadata_for_open_document_def Let_def
          split: option.splits if_splits)
    then show ?thesis by (force simp: map_of_eq_None_iff)
  qed
  show ?thesis
  proof (intro conjI)
    show "i \<notin> dm_document_id ` set (list_documents st client)" using listed assms by (auto simp: has_access_def)
  qed (use assms in \<open>auto simp: close_document_def authorize_document_access_def document_metadata_for_def
        authorize_save_def has_access_def split: option.splits\<close>)
qed

theorem no_access_means_unknown_witness:
  "close_document (wy_state sample_opened) 1 8 True = Some (wy_state sample_opened, Inl (Unknown_Document 1))
   \<and> authorize_save (wy_state sample_opened) 1 8 1 = Inl (Unknown_Document 1)
   \<and> authorize_save (wy_state sample_opened) 1 5 1 = Inr ()"
proof -
  have "map_of (ws_documents (wy_state sample_opened)) 1 = None
    \<or> (\<exists>d. ws_cells (wy_state sample_opened) 1 = Some d \<and> (8::nat) \<noteq> 0 \<and> 8 \<notin> ds_access_holders d)"
    by (simp add: sample_opened_def sample_open_def sample_cell_def)
  note no_access_means_unknown[OF this, of True 1]
  moreover have "authorize_save (wy_state sample_opened) 1 5 1 = Inr ()"
    by (simp add: authorize_save_def sample_opened_def sample_open_def sample_cell_def has_access_def
        access_for_client_def)
  ultimately show ?thesis by blast
qed

text \<open>
  when a connection ends, exactly the documents that no other connection holds leave the registry, and exactly those
  are reported, whether they have unsaved changes or not; every other document stays as it was.
\<close>

theorem client_release_exact:
  assumes "crop_rope R" and "workspace_reachable R y" and "release_client_access (wy_state y) client = (st, finalized)"
  shows "(\<forall>i f. map_of (ws_documents st) i = Some f \<longleftrightarrow> map_of (ws_documents (wy_state y)) i = Some f
           \<and> (\<exists>d other. ws_cells (wy_state y) i = Some d \<and> other \<in> ds_access_holders d \<and> other \<noteq> client))
    \<and> fst ` set finalized = {i. map_of (ws_documents (wy_state y)) i \<noteq> None \<and> map_of (ws_documents st) i = None}"
proof (intro conjI allI)
  have ok: "registry_ok (wy_state y)" by (rule reachable_registry[OF assms(1,2)])
  note eff = release_client_access_effect[OF ok assms(3)]
  have cell: "ws_cells (wy_state y) i \<noteq> None" if "map_of (ws_documents (wy_state y)) i \<noteq> None" for i
    using ok that by (simp add: registry_parts cells_ok_def)
  show "map_of (ws_documents st) i = Some f \<longleftrightarrow> map_of (ws_documents (wy_state y)) i = Some f
      \<and> (\<exists>d other. ws_cells (wy_state y) i = Some d \<and> other \<in> ds_access_holders d \<and> other \<noteq> client)" for i f
    unfolding eff(3) using cell[of i] by auto
  show "fst ` set finalized = {i. map_of (ws_documents (wy_state y)) i \<noteq> None \<and> map_of (ws_documents st) i = None}"
    unfolding eff(3,4) by auto
qed

theorem client_release_exact_witness:
  "map_of (ws_documents (fst (release_client_access (wy_state sample_opened) 5))) 1 = None
   \<and> map_of (ws_documents (fst (release_client_access (wy_state sample_opened) 8))) 1 = Some (sample_file 3)"
proof -
  have r: "release_client_access (wy_state sample_opened) c
      = (fst (release_client_access (wy_state sample_opened) c), snd (release_client_access (wy_state sample_opened) c))" for c
    by simp
  have s: "ws_cells (wy_state sample_opened) 1 = Some (sample_cell 1 [97] None False)"
    "map_of (ws_documents (wy_state sample_opened)) 1 = Some (sample_file 3)"
    "ds_access_holders (sample_cell 1 [97] None False) = {5}"
    by (simp_all add: sample_opened_def sample_open_def sample_cell_def)
  note c = client_release_exact[OF list_rope_laws sample_reachable(1) r, THEN conjunct1, THEN spec, THEN spec, of _ 1]
  have "map_of (ws_documents (fst (release_client_access (wy_state sample_opened) 5))) 1 \<noteq> Some f" for f
    unfolding c using s by simp
  moreover have "map_of (ws_documents (fst (release_client_access (wy_state sample_opened) 8))) 1 = Some (sample_file 3)"
    unfolding c using s by simp
  ultimately show ?thesis by (metis not_Some_eq)
qed

text \<open>
  C34: a forced reload that is committed while a save of the document is being written breaks the promise of a
  saved document. The reload has read the old file; the save, committed afterwards, records the
  metadata of the new file although the version has moved on, and reports the document as dirty. The
  document ends up not dirty and recorded as the file on disk, with a text that is not in the file.
\<close>

theorem forced_reload_during_save_diverges:
  assumes "crop_rope R"
    and "map_of (ws_documents st) i = Some f" and "ws_cells st i = Some d" and "ds_version d < u64_max"
    and "sv_document_id plan = i" and "save_capture R st plan = Some (v, t)"
    and "save_write disk plan (v, t) True (Some (metadata, True)) = (disk', Inr io)"
    and "rp_document_id reload = i" and "rp_force reload" and "ri_text rio \<noteq> t"
    and "commit_reload R st reload rio = Some (st1, r)" and "commit_save st1 plan io = Some (st2, outcome)"
  shows "so_dirty outcome
    \<and> (\<exists>d2 f2. ws_cells st2 i = Some d2 \<and> \<not> ds_dirty d2 \<and> document_string R d2 = ri_text rio
         \<and> map_of (ws_documents st2) i = Some f2
         \<and> disk' (sv_canonical_path plan) = Some \<lparr>df_metadata = metadata, df_content = Utf8_Content t\<rparr>
         \<and> fd_last_known_metadata f2 = from_fs_metadata metadata
         \<and> Utf8_Content t \<noteq> Utf8_Content (document_string R d2))"
proof -
  let ?d = "replace_text_from_storage R d (ri_text rio)"
  have t: "t = document_string R d" "v = ds_version d" using assms(3,5,6) by (auto simp: save_capture_def)
  have wr: "disk' (sv_canonical_path plan) = Some \<lparr>df_metadata = metadata, df_content = Utf8_Content t\<rparr>"
    "io = \<lparr>si_prepared_version = v, si_saved_metadata = from_fs_metadata metadata\<rparr>"
    using assms(7) by (cases rule: save_write_cases, auto)+
  have new: "ds_version ?d = Suc v" "\<not> ds_dirty ?d" "document_string R ?d = ri_text rio"
    using assms(4,10) t crop_rope.string_from[OF assms(1)]
    by (auto simp: replace_text_from_storage_def document_string_def Let_def sat_add_exact)
  have st1: "ws_cells st1 i = Some ?d" "map_of (ws_documents st1) i = Some (f\<lparr>fd_last_known_metadata := ri_reloaded_metadata rio\<rparr>)"
    using assms(2,3,8,9,11) by (auto simp: commit_reload_def Let_def set_last_known_metadata_docs)
  have "so_dirty outcome" "ws_cells st2 i = Some ?d"
    "map_of (ws_documents st2) i = Some (f\<lparr>fd_last_known_metadata := from_fs_metadata metadata\<rparr>)"
    using assms(5,12) st1 new(1) wr(2)
    by (auto simp: commit_save_def Let_def set_last_known_metadata_docs mark_clean_if_version_def)
  then show ?thesis using new(2,3) wr(1) assms(10) by auto
qed

definition sample_reload :: reload_plan where
  "sample_reload = \<lparr>rp_document_id = 1, rp_canonical_path = [''p'', ''f''], rp_relative_path = [''f''], rp_force = True\<rparr>"

definition sample_read :: reload_io_outcome where
  "sample_read = \<lparr>ri_text = [97], ri_reloaded_metadata = from_fs_metadata (sample_metadata 3)\<rparr>"

text \<open>The reload and the save are those of the run above: prepared, read and written as the code does.\<close>

theorem forced_reload_during_save_diverges_witness:
  "\<exists>st1 r st2 outcome d2. prepare_reload (disk_view sample_canon sample_disk) (wy_state sample_edited) 1 True = Inr sample_reload
     \<and> reload_io sample_reload (Some (sample_metadata 3)) (Some (Utf8_Content [97])) = Inr sample_read
     \<and> commit_reload list_rope (wy_state sample_edited) sample_reload sample_read = Some (st1, r)
     \<and> commit_save st1 sample_save \<lparr>si_prepared_version = 2, si_saved_metadata = from_fs_metadata (sample_metadata 4)\<rparr>
         = Some (st2, outcome)
     \<and> ws_cells st2 1 = Some d2 \<and> \<not> ds_dirty d2 \<and> document_string list_rope d2 = [97]"
proof -
  let ?st = "sample_open (sample_cell 2 [97, 98] (Some 9) True) 3"
  let ?io = "\<lparr>si_prepared_version = 2, si_saved_metadata = from_fs_metadata (sample_metadata 4)\<rparr>"
  have e: "wy_state sample_edited = ?st" by (simp add: sample_edited_def)
  have st: "map_of (ws_documents ?st) 1 = Some (sample_file 3)" "ws_cells ?st 1 = Some (sample_cell 2 [97, 98] (Some 9) True)"
    "ds_version (sample_cell 2 [97, 98] (Some 9) True) < u64_max" "sv_document_id sample_save = 1"
    "save_capture list_rope ?st sample_save = Some (2, [97, 98])"
    "rp_document_id sample_reload = 1" "rp_force sample_reload" "ri_text sample_read \<noteq> [97, 98]"
    by (simp_all add: sample_open_def sample_cell_def u64_max_def sample_save_def save_capture_def document_string_def
        sample_reload_def sample_read_def)
  have prep: "prepare_reload (disk_view sample_canon sample_disk) ?st 1 True = Inr sample_reload"
    by (simp add: prepare_reload_def reauthorize_open_file_def sample_defs starts_with_def sample_reload_def
        validate_regular_file_metadata_def check_openable_size_def max_openable_file_bytes_def)
  have io: "reload_io sample_reload (Some (sample_metadata 3)) (Some (Utf8_Content [97])) = Inr sample_read"
    by (simp add: reload_io_def read_file_bounded_def sample_metadata_def from_fs_metadata_def sample_read_def
        validate_regular_file_metadata_def check_openable_size_def max_openable_file_bytes_def len_utf8_def Let_def)
  have wr: "\<exists>disk'. save_write sample_disk sample_save (2, [97, 98]) True (Some (sample_metadata 4, True)) = (disk', Inr ?io)"
    by (simp add: save_write_def atomic_write_file_def sample_save_def sample_disk_def) (simp add: matches_current_def)
  obtain disk' where wr': "save_write sample_disk sample_save (2, [97, 98]) True (Some (sample_metadata 4, True)) = (disk', Inr ?io)"
    using wr by blast
  obtain st1 r where c1: "commit_reload list_rope ?st sample_reload sample_read = Some (st1, r)"
    using st(2,6,7) by (fastforce simp: commit_reload_def Let_def)
  have "ws_cells st1 1 \<noteq> None"
    using c1 st(2,6,7) by (auto simp: commit_reload_def Let_def set_last_known_metadata_docs)
  then have "commit_save st1 sample_save ?io \<noteq> None"
    using st(4) by (auto simp: commit_save_def Let_def split_beta set_last_known_metadata_docs)
  then obtain st2 outcome where c2: "commit_save st1 sample_save ?io = Some (st2, outcome)" by force
  obtain d2 where "ws_cells st2 1 = Some d2" "\<not> ds_dirty d2" "document_string list_rope d2 = [97]"
    using forced_reload_during_save_diverges[OF list_rope_laws st(1-5) wr' st(6-8) c1 c2] by (auto simp: sample_read_def)
  then show ?thesis using prep io c1 c2 e by auto
qed

lemma closing_keeps_roots:
  assumes "close_document st i client force = Some (st', r)"
  shows "ws_roots st' = ws_roots st"
  using assms
  by (auto simp: close_document_def remove_document_def Let_def split: option.splits if_splits)

text \<open>
  The grants of selected files are never given back. Opening a selected file that is not open takes a new root
  even when its path was granted before; neither closing the document nor the end of the connection
  removes one; and once 64 roots exist every further selected file is refused, however few documents are open.
\<close>

theorem selected_file_grants_accumulate:
  assumes "crop_rope R" and "workspace_reachable R y" and "ws_path_to_document (wy_state y) (so_canonical_path plan) = None"
    and "next_id (wy_state y) < u64_max" and "enforce_document_ceilings (wy_state y) (so_client_id plan) = Inr u"
  shows "if length (ws_roots (wy_state y)) = 64
    then register_selected_file R (wy_state y) plan content metadata = Some (wy_state y, Inl Root_Limit_Exceeded)
    else \<exists>st lease. register_selected_file R (wy_state y) plan content metadata = Some (st, Inr lease)
       \<and> length (ws_roots st) = Suc (length (ws_roots (wy_state y)))
       \<and> (\<forall>i client force. \<exists>st' r. close_document st i client force = Some (st', r) \<and> ws_roots st' = ws_roots st)
       \<and> (\<forall>client. ws_roots (fst (release_client_access st client)) = ws_roots st)"
proof (rule if_split[THEN iffD2], intro conjI impI)
  have ok: "registry_ok (wy_state y)" by (rule reachable_registry[OF assms(1,2)])
  have absent: "existing_document_lease (wy_state y) (so_canonical_path plan) (so_client_id plan) = Some (wy_state y, None)"
    using assms(3) by (simp add: existing_document_lease_def)
  show "register_selected_file R (wy_state y) plan content metadata = Some (wy_state y, Inl Root_Limit_Exceeded)"
    if "length (ws_roots (wy_state y)) = 64"
    using that absent assms(5)
    by (simp add: register_selected_file_def add_single_file_grant_def max_workspace_roots_def)
  assume "length (ws_roots (wy_state y)) \<noteq> 64"
  then have few: "length (ws_roots (wy_state y)) < 64"
    using ok by (simp add: registry_parts roots_ok_def max_workspace_roots_def)
  obtain st1 root_id where ins: "insert_root (wy_state y) (Single_File (so_canonical_path plan)) = (st1, root_id)" by force
  then have grant: "add_single_file_grant (wy_state y) (so_canonical_path plan) = (st1, Inr root_id)"
    using few by (simp add: add_single_file_grant_def max_workspace_roots_def)
  have same: "ws_path_to_document st1 = ws_path_to_document (wy_state y)" "ws_documents st1 = ws_documents (wy_state y)"
    "ws_cells st1 = ws_cells (wy_state y)" using ins by (auto simp: insert_root_def)
  have len: "length (ws_roots st1) = Suc (length (ws_roots (wy_state y)))"
  proof -
    have "ws_next_root_id (wy_state y) \<notin> fst ` set (ws_roots (wy_state y))"
      using ok by (fastforce simp: registry_parts roots_ok_def)
    then show ?thesis using ins length_update_new[of "ws_roots (wy_state y)"]
      by (auto simp: insert_root_def map_of_eq_None_iff)
  qed
  have "cell_has_access st1 = cell_has_access (wy_state y)" by (simp add: cell_has_access_def same fun_eq_iff)
  then have "enforce_document_ceilings st1 (so_client_id plan) = Inr u"
    using assms(5) by (simp add: enforce_document_ceilings_def same split: if_splits)
  then obtain st lease where reg: "register_selected_file R (wy_state y) plan content metadata = Some (st, Inr lease)"
    "ws_roots st = ws_roots st1"
    using absent assms(3,5) grant
    by (auto simp: register_selected_file_def register_canonical_file_def existing_document_lease_def same Let_def
        split_beta allocate_document_id_def split: option.splits)
  obtain st' r where "register_selected_file R (wy_state y) plan content metadata = Some (st', r)" "registry_ok st'"
    using register_selected_file_effect[OF ok assms(4), of R plan content metadata] by metis
  then have ok': "registry_ok st" using reg by simp
  have closed: "\<exists>st' r. close_document st i client force = Some (st', r) \<and> ws_roots st' = ws_roots st" for i client force
    using close_document_effect[OF ok', of i client force] closing_keeps_roots by metis
  have left: "ws_roots (fst (release_client_access st client)) = ws_roots st" for client
    using release_client_access_effect(5)[OF ok'] by (metis prod.collapse)
  show "\<exists>st lease. register_selected_file R (wy_state y) plan content metadata = Some (st, Inr lease)
       \<and> length (ws_roots st) = Suc (length (ws_roots (wy_state y)))
       \<and> (\<forall>i client force. \<exists>st' r. close_document st i client force = Some (st', r) \<and> ws_roots st' = ws_roots st)
       \<and> (\<forall>client. ws_roots (fst (release_client_access st client)) = ws_roots st)"
    using reg len closed left by auto
qed

definition sample_selected :: selected_open_plan where
  "sample_selected = \<lparr>so_canonical_path = [''q''], so_display_path = [''q''], so_client_id = 5\<rparr>"

theorem selected_file_grants_accumulate_witness:
  "\<exists>st lease. register_selected_file list_rope (wy_state sample_opened) sample_selected [97] (from_fs_metadata (sample_metadata 3))
       = Some (st, Inr lease) \<and> length (ws_roots st) = 2
       \<and> (\<exists>st' r. close_document st 2 5 True = Some (st', r) \<and> length (ws_roots st') = 2)"
proof -
  have a: "ws_path_to_document (wy_state sample_opened) (so_canonical_path sample_selected) = None"
    "next_id (wy_state sample_opened) < u64_max" "length (ws_roots (wy_state sample_opened)) < 64"
    "length (ws_roots (wy_state sample_opened)) = 1"
    by (simp_all add: sample_opened_def sample_open_def sample_selected_def next_id_def sample_rooted_def workspace_new_def
        u64_max_def)
  have c: "enforce_document_ceilings (wy_state sample_opened) (so_client_id sample_selected) = Inr ()"
    by (simp add: enforce_document_ceilings_def sample_opened_def sample_open_def sample_cell_def cell_has_access_def
        max_server_documents_def max_active_connections_def max_documents_per_client_def client_document_session_max_def)
  from selected_file_grants_accumulate[OF list_rope_laws sample_reachable(1) a(1,2) c,
      of "[97]" "from_fs_metadata (sample_metadata 3)"] a(4)
  show ?thesis by simp (metis numeral_2_eq_2)
qed

end
