(* ===== verification/Document_Properties.thy ===== *)
theory Document_Properties imports Document_Runs begin

text \<open>
  The properties of the server document: what an edit request does, accepted or refused, what a
  whole sequence of requests does, what a region lock protects, and what the windows handed to
  incremental parsers guarantee. Each one rests on the laws of the rope (\<open>crop_rope R\<close>) and has a
  witness on the list rope.
\<close>

section \<open>Why an edit was refused\<close>

text \<open>What each reason reported to the client says about the request.\<close>

fun rejection_explains ::
  "'r rope_ops \<Rightarrow> 'r document_state \<Rightarrow> nat \<Rightarrow> nat \<Rightarrow> nat option \<Rightarrow> nat \<Rightarrow> edit_operation
     \<Rightarrow> edit_rejection \<Rightarrow> bool" where
  "rejection_explains R d document_id client_id lease_id base_version e (InvalidDocument i) \<longleftrightarrow>
     i = document_id \<and> document_id \<noteq> ds_document_id d"
| "rejection_explains R d document_id client_id lease_id base_version e (StaleVersion b v) \<longleftrightarrow>
     b = base_version \<and> v = ds_version d \<and> b < v"
| "rejection_explains R d document_id client_id lease_id base_version e (FutureVersion b v) \<longleftrightarrow>
     b = base_version \<and> v = ds_version d \<and> v < b"
| "rejection_explains R d document_id client_id lease_id base_version e LeaseRequired \<longleftrightarrow>
     ds_active_lease d = None \<or> lease_id = None"
| "rejection_explains R d document_id client_id lease_id base_version e (LeaseExpired l) \<longleftrightarrow>
     lease_id = Some l
     \<and> ds_active_lease d \<noteq> Some \<lparr>el_client_id = client_id, el_lease_id = l\<rparr>"
| "rejection_explains R d document_id client_id lease_id base_version e (RegionLocked c) \<longleftrightarrow>
     (\<exists>l\<in>set (ds_region_locks d). c = lock_conflict l \<and> lock_overlaps l (op_affected e))"
| "rejection_explains R d document_id client_id lease_id base_version e (InvalidRange message) \<longleftrightarrow>
     \<not> valid_op (document_string R d) e
     \<or> u64_max < op_start e + byte_len (op_text e) \<or> u64_max \<le> base_version"

context crop_rope begin

lemma refusal_explained:
  assumes fits: "document_fits R d"
    and run: "apply_edit_with_parse_input R d document_id client_id lease_id base_version
                transaction_id e = Some (d', EditRejected reported t reason, p)"
  shows "rejection_explains R d document_id client_id lease_id base_version e reason"
proof -
  have lock: "c \<in> lock_conflict ` {l \<in> set (ds_region_locks d). lock_overlaps l a}"
    if "find_region_lock_conflict d a = Some c" for a c
    using that by (auto simp: find_region_lock_conflict_def dest!: find_SomeD)
  have range: "\<not> valid_op (document_string R d) e" if "operation_affected_range R d e = Inl m" for m
    using that operation_affected_range_iff[OF fits, of e "op_affected e"] by auto
  have input: "u64_max < op_start e + byte_len (op_text e) \<or> u64_max \<le> v"
    if "operation_affected_range R d e = Inr a" "operation_parse_input_edit R d v e = Inl m" for a v m
  proof -
    have "valid_op (document_string R d) e"
      using that(1) by (simp add: operation_affected_range_iff[OF fits])
    then show ?thesis
      using operation_parse_input_edit_iff[OF fits, of e v] that(2) by fastforce
  qed
  show ?thesis
    using run lock range input
    by (fastforce simp: apply_edit_with_parse_input_def reject_def validate_lease_def Let_def
        operation_affected_range_iff[OF fits]
        split: if_splits sum.splits option.splits)
qed

end

section \<open>Edits\<close>

text \<open>
  C2: an edit request that names the document, its current version, the active lease and a
  range of the text outside every region lock is applied: the call returns, acknowledges the
  next version, the new text is the old text with exactly the requested bytes replaced, the
  lease, the locks and the retained windows stay as they were, and the edit reported to parsers
  carries the byte offsets and the row/column points of the old and of the new text.
\<close>

theorem accepted_edit_exact:
  assumes "crop_rope R" and "document_fits R d"
    and "edit_accepted R d document_id client_id lease_id base_version e"
  shows "\<exists>d'. apply_edit_with_parse_input R d document_id client_id lease_id base_version
              transaction_id e
            = Some (d', EditAck document_id (base_version + 1) transaction_id,
                    Some (parse_edit_of (document_string R d) base_version e))
          \<and> document_string R d' = edited_text (document_string R d) e
          \<and> edit_is_valid (parse_edit_of (document_string R d) base_version e)
          \<and> d' = d\<lparr>ds_text := ds_text d', ds_version := base_version + 1,
                  ds_last_transaction_id := Some transaction_id, ds_dirty := True\<rparr>"
proof -
  have e: "document_id = ds_document_id d" "base_version = ds_version d"
    "valid_op (document_string R d) e" "base_version < u64_max"
    using assms(3) by (simp_all add: edit_accepted_def)
  show ?thesis
    by (rule crop_rope.apply_edit_accepted[OF assms, of transaction_id])
      (use parse_edit_of_valid[OF e(3,4)] e(1,2) in auto)
qed

definition sample_document :: "ustr document_state" where
  "sample_document =
     fst (acquire_access (document_new list_rope 7 [97, 233, 10, 98]) 42)"

lemma sample_document_eq:
  "sample_document =
    \<lparr>ds_document_id = 7, ds_version = 1, ds_text = [97, 233, 10, 98],
     ds_active_lease = Some \<lparr>el_client_id = 42, el_lease_id = 1\<rparr>, ds_next_lease_id = 2,
     ds_last_transaction_id = None, ds_dirty = False, ds_region_locks = [],
     ds_next_region_lock_id = 1, ds_retained_parse_windows = Map.empty, ds_access_holders = {42}\<rparr>"
  by (simp add: sample_document_def acquire_access_def document_new_def sat_add_def u64_max_def)

lemma sample_document_fits: "document_fits list_rope sample_document"
  by (simp add: sample_document_eq document_fits_def document_string_def len_utf8_def u64_max_def)

lemma sample_document_accepts:
  "edit_accepted list_rope sample_document 7 42 (Some 1) 1 (Replace 1 3 [10])"
  by (simp add: sample_document_eq edit_accepted_def document_string_def valid_op_def len_utf8_def
      u64_max_def)

theorem accepted_edit_exact_witness:
  "\<exists>d'. apply_edit_with_parse_input list_rope sample_document 7 42 (Some 1) 1 9 (Replace 1 3 [10])
          = Some (d', EditAck 7 2 9,
              Some (parse_edit_of (document_string list_rope sample_document) 1 (Replace 1 3 [10])))
        \<and> document_string list_rope d'
            = edited_text (document_string list_rope sample_document) (Replace 1 3 [10])"
  using accepted_edit_exact[OF list_rope_laws sample_document_fits sample_document_accepts, of 9]
  by auto

text \<open>
  C3: every other edit request is refused, whatever its offsets: the call returns (no rope call
  panics), the document is unchanged, nothing is reported to parsers, and the reason given to
  the client is a true statement about the request.
\<close>

theorem refused_edit_unchanged:
  assumes "crop_rope R" and "document_fits R d"
    and "\<not> edit_accepted R d document_id client_id lease_id base_version e"
  shows "\<exists>reported reason. apply_edit_with_parse_input R d document_id client_id lease_id
              base_version transaction_id e = Some (d, EditRejected reported transaction_id reason, None)
          \<and> rejection_explains R d document_id client_id lease_id base_version e reason"
  by (rule crop_rope.apply_edit_rejected[OF assms, of transaction_id])
    (use crop_rope.refusal_explained[OF assms(1,2)] in blast)

theorem refused_edit_unchanged_witness:
  "\<exists>reported reason. apply_edit_with_parse_input list_rope sample_document 7 42 (Some 1) 1 9
       (Delete 2 3) = Some (sample_document, EditRejected reported 9 reason, None)"
proof -
  have "\<not> edit_accepted list_rope sample_document 7 42 (Some 1) 1 (Delete 2 3)"
    by (simp add: sample_document_eq edit_accepted_def document_string_def valid_op_def len_utf8_def)
  from refused_edit_unchanged[OF list_rope_laws sample_document_fits this, of 9]
  show ?thesis by blast
qed

text \<open>
  C1: the life of a document. From the text the document was opened with, any sequence of
  requests (opening and closing clients, edits of any kind, locks, saves, parse windows,
  reloads from storage) runs without a panic; the text is at every moment the acknowledged
  edits replayed in order on the opened text, the version is one more than their number, and
  the invariant of leases, locks and retained windows holds. The bounds keep the text and the
  version inside 64 bits.
\<close>

theorem document_run_is_replay:
  assumes "crop_rope R"
    and "byte_len opened + sum_list (map request_bytes qs) \<le> u64_max" and "length qs < u64_max"
  shows "\<exists>d es. document_run R (document_new R document_id opened) qs = Some (d, es)
          \<and> document_string R d = foldl edited_text opened es
          \<and> ds_version d = 1 + length es \<and> ds_document_id d = document_id
          \<and> document_inv R d"
proof -
  have new: "document_string R (document_new R document_id opened) = opened"
    by (simp add: document_string_def document_new_def crop_rope.string_from[OF assms(1)])
  show ?thesis
    using crop_rope.document_run_replays[OF assms(1) document_inv_new, of document_id opened qs] assms
    by (auto simp: new) (simp_all add: document_new_def)
qed

theorem document_run_is_replay_witness:
  "\<exists>d es. document_run list_rope (document_new list_rope 7 [97, 233])
        [AcquireAccess 42, ApplyEdit 7 42 (Some 1) 1 9 (Insert 3 [98])] = Some (d, es)
      \<and> document_string list_rope d = foldl edited_text [97, 233] es
      \<and> ds_version d = 1 + length es \<and> ds_document_id d = 7 \<and> document_inv list_rope d"
  by (rule document_run_is_replay[OF list_rope_laws]) (simp_all add: len_utf8_def u64_max_def)

section \<open>Locks and leases\<close>

text \<open>
  C32: a region lock protects its bytes. An accepted edit lies entirely before or entirely after
  every region lock of the document, and the bytes of the lock are found unchanged in the new
  text: at the same offsets when the edit is behind them, shifted by the change of length when
  it is in front.
\<close>

theorem region_lock_protects:
  assumes "crop_rope R" and "document_fits R d"
    and "apply_edit_with_parse_input R d document_id client_id lease_id base_version
              transaction_id e = Some (d', EditAck i v t, p)"
    and "l \<in> set (ds_region_locks d)" and "rl_start l < rl_end l"
    and "valid_range (document_string R d) (rl_start l) (rl_end l)"
  shows "(op_end e \<le> rl_start l
            \<and> text_slice (document_string R d')
                (rl_start l - (op_end e - op_start e) + byte_len (op_text e))
                (rl_end l - (op_end e - op_start e) + byte_len (op_text e))
              = text_slice (document_string R d) (rl_start l) (rl_end l))
         \<or> (rl_end l \<le> op_start e
            \<and> text_slice (document_string R d') (rl_start l) (rl_end l)
              = text_slice (document_string R d) (rl_start l) (rl_end l))"
proof -
  let ?t = "document_string R d"
  have acc: "edit_accepted R d document_id client_id lease_id base_version e"
    using crop_rope.apply_edit_rejected[OF assms(1,2), of document_id client_id lease_id
        base_version e transaction_id] assms(3) by fastforce
  then have d': "document_string R d' = edited_text ?t e"
    using crop_rope.apply_edit_accepted[OF assms(1,2) acc, of transaction_id] assms(3) by auto
  have valid: "valid_op ?t e" and free: "\<not> lock_overlaps l (op_affected e)"
    using acc assms(4) by (auto simp: edit_accepted_def)
  note v = valid_opD[OF valid] and r = valid_rangeD[OF assms(6)]
  have "op_end e \<le> rl_start l \<or> rl_end l \<le> op_start e"
    using free assms(5) v by (cases e) (auto simp: ranges_overlap_def split: if_splits)
  then show ?thesis
  proof
    assume le: "op_end e \<le> rl_start l"
    have "op_start e + byte_len (op_text e) + (x - op_end e)
        = x - (op_end e - op_start e) + byte_len (op_text e)" if "op_end e \<le> x" for x
      using that v by simp
    then show ?thesis
      using text_splice_after[OF v(1,2,3) le, of "rl_end l" "op_text e"] le r(3)
      by (simp add: d' edited_text_def)
  next
    assume "rl_end l \<le> op_start e"
    then show ?thesis
      using text_splice_before[OF v(1,2,3) r(1,2)] by (simp add: d' edited_text_def)
  qed
qed

definition locked_document :: "ustr document_state" where
  "locked_document = fst (register_region_lock list_rope sample_document 3 5 OwnerServer)"

lemma locked_document_eq:
  "locked_document = sample_document\<lparr>ds_next_region_lock_id := 2, ds_region_locks :=
     [\<lparr>rl_lock_id = 1, rl_start = 3, rl_end = 5, rl_owner = OwnerServer, rl_created_at_version = 1\<rparr>]\<rparr>"
  by (simp add: locked_document_def sample_document_eq register_region_lock_def
      validate_lock_range_def validate_range_def validate_boundary_def
      try_usize_def u64_max_def len_utf8_def sat_add_def)

lemma locked_document_fits: "document_fits list_rope locked_document"
  using sample_document_fits by (simp add: locked_document_eq document_fits_def document_string_def)

lemma locked_document_accepts:
  "edit_accepted list_rope locked_document 7 42 (Some 1) 1 (Replace 1 3 [10])"
  by (simp add: locked_document_eq sample_document_eq edit_accepted_def document_string_def
      valid_op_def ranges_overlap_def len_utf8_def u64_max_def)

theorem region_lock_protects_witness:
  "\<exists>d'. map_option fst (apply_edit_with_parse_input list_rope locked_document 7 42 (Some 1) 1 9
          (Replace 1 3 [10])) = Some d'
     \<and> text_slice (document_string list_rope d') 2 4
         = text_slice (document_string list_rope locked_document) 3 5"
proof -
  let ?l = "\<lparr>rl_lock_id = 1, rl_start = 3, rl_end = 5, rl_owner = OwnerServer,
      rl_created_at_version = 1\<rparr>"
  obtain d' p where run: "apply_edit_with_parse_input list_rope locked_document 7 42 (Some 1) 1 9
      (Replace 1 3 [10]) = Some (d', EditAck (ds_document_id locked_document)
        (ds_version locked_document + 1) 9, p)"
    using list_rope.apply_edit_accepted[OF locked_document_fits locked_document_accepts, of 9]
    by metis
  have "?l \<in> set (ds_region_locks locked_document)" by (simp add: locked_document_eq)
  moreover have "valid_range (document_string list_rope locked_document) (rl_start ?l) (rl_end ?l)"
    by (simp add: locked_document_eq sample_document_eq document_string_def valid_range_def
        len_utf8_def)
  ultimately show ?thesis
    using region_lock_protects[OF list_rope_laws locked_document_fits run, of ?l] run
    by (simp add: numeral_2_eq_2)
qed

text \<open>
  One editor at a time. While a client holds the lease every other client that opens the
  document gets read-only access and the holder keeps the lease; and once the holder has closed
  the document, the next client gets a new lease id that its edits are validated against, while
  the old id is refused for every client, its former holder included. The bound excludes the
  saturated id counter.
\<close>

theorem lease_exclusive_and_fresh:
  assumes "document_inv R d" and "ds_active_lease d = Some l" and "ds_next_lease_id d < u64_max"
  shows "(c \<noteq> el_client_id l \<longrightarrow>
            snd (acquire_access d c) = ReadOnly
            \<and> ds_active_lease (fst (acquire_access d c)) = Some l)
         \<and> (\<exists>n. snd (acquire_access (release_access d (el_client_id l)) c) = Editable n
              \<and> validate_lease (fst (acquire_access (release_access d (el_client_id l)) c)) c (Some n)
                  = Inr ()
              \<and> (\<forall>k. validate_lease (fst (acquire_access (release_access d (el_client_id l)) c)) k
                       (Some (el_lease_id l)) = Inl (LeaseExpired (el_lease_id l))))"
proof -
  have "el_lease_id l < ds_next_lease_id d" using assms by (auto simp: document_inv_def)
  then show ?thesis
    using assms(2) by (auto simp: acquire_access_def release_access_def validate_lease_def Let_def)
qed

lemma sample_document_inv: "document_inv list_rope sample_document"
  unfolding sample_document_def by (rule acquire_access_inv[OF document_inv_new])

theorem lease_exclusive_and_fresh_witness:
  "snd (acquire_access sample_document 43) = ReadOnly
   \<and> (\<exists>n. snd (acquire_access (release_access sample_document 42) 43) = Editable n
        \<and> validate_lease (fst (acquire_access (release_access sample_document 42) 43)) 42 (Some 1)
            = Inl (LeaseExpired 1))"
proof -
  have l: "ds_active_lease sample_document = Some \<lparr>el_client_id = 42, el_lease_id = 1\<rparr>"
    "ds_next_lease_id sample_document < u64_max"
    by (simp_all add: sample_document_eq u64_max_def)
  show ?thesis
    using lease_exclusive_and_fresh[OF sample_document_inv l, of 43] by auto
qed

section \<open>Parse windows\<close>

text \<open>
  C33: the windows cut for a parser. When the server answers a request for the viewport and the
  invalidated ranges, there is one window per range, in the sorted order; each lies on scalar
  boundaries, contains its range, holds exactly the document's text and the row/column point of
  its start, is no longer than the policy allows, and all together stay within the policy's
  memory budget.
\<close>

theorem parse_windows_exact_and_bounded:
  assumes "crop_rope R" and "document_fits R d"
    and "parse_window_snapshots R d pp m viewport ranges policy = Inr ws"
  shows "list_all2 (\<lambda>r w. window_ok R d (po_max_window_bytes policy) w
             \<and> pw_byte_start w \<le> pr_start r \<and> pr_end r \<le> pw_byte_end w)
           (sort_parse_ranges viewport (viewport # ranges)) ws
         \<and> sum_list (map (\<lambda>w. byte_len (pw_text w)) ws) \<le> po_memory_budget_bytes policy"
proof -
  have budget: "po_memory_budget_bytes policy < u64_max"
    and run: "parse_window_snapshots_loop R d pp m policy 0
                (sort_parse_ranges viewport (viewport # ranges)) = Inr ws"
    using assms(3)
    by (auto simp: parse_window_snapshots_def syntax_cache_budget_bytes_def u64_max_def split: if_splits)
  show ?thesis
    using crop_rope.parse_window_snapshots_loop_ok[OF assms(1,2) budget run] by simp
qed

definition sample_policy :: parse_policy where
  "sample_policy = \<lparr>po_max_window_bytes = 4, po_guard_bytes = 1, po_memory_budget_bytes = 20,
     po_timeout_ms = 100\<rparr>"

definition sample_ranges :: "parse_byte_range list" where
  "sample_ranges = [\<lparr>pr_start = 0, pr_end = 1\<rparr>]"

lemma floor_loop_numeral:
  "floor_char_boundary_loop R d (numeral k) =
     (case try_usize (numeral k) of
        None \<Rightarrow> Inl SnapshotOffsetTooLarge
      | Some candidate \<Rightarrow>
          if rope_is_char_boundary R (ds_text d) candidate then Inr (numeral k)
          else floor_char_boundary_loop R d (pred_numeral k))"
  by (simp only: numeral_eq_Suc floor_char_boundary_loop.simps(2))

theorem parse_windows_exact_and_bounded_witness:
  "\<exists>ws. parse_window_snapshots list_rope sample_document (lit ''rust'') (lit ''rust'') \<lparr>pr_start = 3, pr_end = 5\<rparr>
          sample_ranges sample_policy = Inr ws
      \<and> sum_list (map (\<lambda>w. byte_len (pw_text w)) ws) \<le> po_memory_budget_bytes sample_policy"
proof -
  have "\<not> isl (parse_window_snapshots list_rope sample_document (lit ''rust'') (lit ''rust'')
      \<lparr>pr_start = 3, pr_end = 5\<rparr> sample_ranges sample_policy)"
    by (simp add: parse_window_snapshots_def sample_policy_def syntax_cache_budget_bytes_def
        sort_parse_ranges_def sample_ranges_def range_intersects_def less_prod_def
        expand_parse_window_def validate_parse_snapshot_range_def validate_range_def
        validate_boundary_def try_usize_def u64_max_def sample_document_eq len_utf8_def
        range_len_def floor_char_boundary_def ceil_char_boundary_def
        ceil_char_boundary_loop.simps sat_add_def document_parse_window_snapshot_def
        floor_loop_numeral Let_def)
  then obtain ws where ws: "parse_window_snapshots list_rope sample_document (lit ''rust'') (lit ''rust'')
      \<lparr>pr_start = 3, pr_end = 5\<rparr> sample_ranges sample_policy = Inr ws"
    by (cases "parse_window_snapshots list_rope sample_document (lit ''rust'') (lit ''rust'')
      \<lparr>pr_start = 3, pr_end = 5\<rparr> sample_ranges sample_policy") auto
  then show ?thesis
    using parse_windows_exact_and_bounded[OF list_rope_laws sample_document_fits ws] by blast
qed

text \<open>
  a document that fits one window is always announced as an incremental edit. When the text
  fits the policy's window, the window handed out is the whole text with window id 0 and the
  incremental flag set, whatever window the parser had before: also when that was another part
  of a document that was too large until this edit.
\<close>

theorem whole_window_always_incremental:
  assumes "crop_rope R" and "document_fits R d" and "document_string R d \<noteq> []"
    and "byte_len (document_string R d) \<le> po_max_window_bytes policy"
    and "edit_is_valid edit" and "pe_document_version edit = ds_version d"
  shows "\<exists>d' w. parse_window_after_edit R d pp m policy edit = (d', Inr (Some w))
           \<and> pw_incremental_edit w \<and> pw_window_id w = 0 \<and> pw_text w = document_string R d"
proof -
  let ?t = "document_string R d" and ?r = "\<lparr>pr_start = 0, pr_end = byte_len (document_string R d)\<rparr>"
  have max: "po_max_window_bytes policy \<noteq> 0" using assms(3,4) by (metis byte_len_eq_0 le_zero_eq)
  have v: "valid_range ?t (pr_start ?r) (pr_end ?r)" "range_len ?r \<le> po_max_window_bytes policy"
    using assms(4) by (simp_all add: valid_range_def range_len_def)
  obtain w where w: "document_parse_window_snapshot R d pp m ?r (po_max_window_bytes policy) = Inr w"
    by (rule crop_rope.document_parse_window_snapshot_succeeds[OF assms(1,2) max v])
  note ok = crop_rope.document_parse_window_snapshot_ok[OF assms(1,2) w]
  have len: "rope_byte_len R (ds_text d) = byte_len ?t"
    using crop_rope.byte_len_rope[OF assms(1)] by (simp add: document_string_def)
  have "pw_text w = ?t" "pw_window_id w = 0"
    using ok by (simp_all add: window_ok_def)
  then show ?thesis
    using assms(3-6) w by (simp add: parse_window_after_edit_def len retain_window_def Let_def)
qed

definition shrunk_document :: "ustr document_state" where
  "shrunk_document = document_new list_rope 7 [97, 98]\<lparr>ds_version := 2, ds_retained_parse_windows :=
     [((lit ''p''), (lit ''m'')) \<mapsto> \<lparr>rw_version = 1, rw_window_id = 8, rw_byte_start = 8, rw_byte_end = 12\<rparr>]\<rparr>"

theorem whole_window_always_incremental_witness:
  "\<exists>d' w. parse_window_after_edit list_rope shrunk_document (lit ''p'') (lit ''m'') sample_policy
      (parse_edit_of [97, 98, 99] 1 (Delete 2 3)) = (d', Inr (Some w)) \<and> pw_incremental_edit w"
proof -
  let ?edit = "parse_edit_of [97, 98, 99] 1 (Delete 2 3)"
  have str: "document_string list_rope shrunk_document = [97, 98]"
    by (simp add: shrunk_document_def document_string_def document_new_def)
  have edit: "edit_is_valid ?edit" "pe_document_version ?edit = ds_version shrunk_document"
    by (rule parse_edit_of_valid)
      (simp_all add: valid_op_def len_utf8_def u64_max_def parse_edit_of_def shrunk_document_def)
  have small: "document_fits list_rope shrunk_document"
    "byte_len (document_string list_rope shrunk_document) \<le> po_max_window_bytes sample_policy"
    by (simp_all add: document_fits_def str sample_policy_def len_utf8_def u64_max_def)
  have "document_string list_rope shrunk_document \<noteq> []" by (simp add: str)
  from whole_window_always_incremental[OF list_rope_laws small(1) this small(2) edit, of "lit ''p''" "lit ''m''"]
  show ?thesis by blast
qed

text \<open>
  after an accepted edit the parser always gets a window, unless the document is now empty:
  for every policy with a non-zero window the request cannot fail, whatever window was retained
  before; the window lies on boundaries of the new text, holds exactly that text, fits the
  policy, and the windows retained for the next edit are again on boundaries.
\<close>

theorem window_follows_accepted_edit:
  assumes "crop_rope R" and "document_fits R d" and "document_inv R d"
    and "document_string R d' = edited_text (document_string R d) e" and "document_fits R d'"
    and "apply_edit_with_parse_input R d document_id client_id lease_id base_version
              transaction_id e = Some (d', EditAck i v t, Some edit)"
    and "1 \<le> po_max_window_bytes policy"
  shows "\<exists>d'' r. parse_window_after_edit R d' pp m policy edit = (d'', Inr r)
           \<and> retained_ok R d'' \<and> (r = None \<longleftrightarrow> document_string R d' = [])
           \<and> (\<forall>w. r = Some w \<longrightarrow> window_ok R d'' (po_max_window_bytes policy) w)"
proof -
  have acc: "edit_accepted R d document_id client_id lease_id base_version e"
    using crop_rope.apply_edit_rejected[OF assms(1,2), of document_id client_id lease_id
        base_version e transaction_id] assms(6) by fastforce
  obtain x where x: "d' = d\<lparr>ds_text := x, ds_version := ds_version d + 1,
      ds_last_transaction_id := Some transaction_id, ds_dirty := True\<rparr>"
    and edit: "edit = parse_edit_of (document_string R d) (ds_version d) e"
    using crop_rope.apply_edit_accepted[OF assms(1,2) acc, of transaction_id] assms(6)
    by (metis Pair_inject option.inject)
  have ver: "ds_version d < u64_max" "valid_op (document_string R d) e" and
    v': "ds_version d' = ds_version d + 1"
    using acc by (auto simp: edit_accepted_def x)
  have ret: "retained_ok R d'"
    using crop_rope.edited_inv[OF assms(1,3) x] by (simp add: document_inv_def)
  have old: "valid_range (document_string R d) (rw_byte_start w) (rw_byte_end w)"
    if "ds_retained_parse_windows d' (pp, m) = Some w" "rw_version w = ds_version d" for w
    using assms(3) that by (auto simp: x document_inv_def retained_ok_def)
  show ?thesis
    by (rule crop_rope.parse_window_after_edit_ok[OF assms(1,5,7) ver(2) assms(4) ver(1) v' old ret])
      (auto simp: edit)
qed

theorem window_follows_accepted_edit_witness:
  "\<exists>d' edit d'' r. apply_edit_with_parse_input list_rope sample_document 7 42 (Some 1) 1 9
        (Replace 1 3 [10]) = Some (d', EditAck 7 2 9, Some edit)
      \<and> parse_window_after_edit list_rope d' (lit ''rust'') (lit ''rust'') sample_policy edit = (d'', Inr r)
      \<and> retained_ok list_rope d''"
proof -
  let ?e = "Replace 1 3 [10]"
  obtain d' where run: "apply_edit_with_parse_input list_rope sample_document 7 42 (Some 1) 1 9 ?e
      = Some (d', EditAck (ds_document_id sample_document) (ds_version sample_document + 1) 9,
          Some (parse_edit_of (document_string list_rope sample_document)
                 (ds_version sample_document) ?e))"
    and str: "document_string list_rope d' = edited_text (document_string list_rope sample_document) ?e"
    by (rule list_rope.apply_edit_accepted[OF sample_document_fits sample_document_accepts, of 9])
  have fits: "document_fits list_rope d'"
    unfolding document_fits_def str
    by (simp add: edited_text_def text_splice_def sample_document_eq document_string_def
        len_utf8_def u64_max_def)
  have "ds_document_id sample_document = 7" "ds_version sample_document = 1"
    by (simp_all add: sample_document_eq)
  moreover have "1 \<le> po_max_window_bytes sample_policy" by (simp add: sample_policy_def)
  ultimately show ?thesis
    using window_follows_accepted_edit[OF list_rope_laws sample_document_fits sample_document_inv
        str fits run, of sample_policy "lit ''rust''" "lit ''rust''"] run by auto
qed

text \<open>
  an edit handed to the parser of one window is the same edit seen from the window. When
  the translation succeeds on a valid edit, the translated edit is valid, its byte offsets are
  the original ones less the start of the window, and its versions are unchanged.
\<close>

theorem window_edit_translation_valid:
  assumes "edit_relative_to_window e w = Some e'" and "edit_is_valid e"
  shows "edit_is_valid e'
         \<and> pe_start_byte e = pw_byte_start w + pe_start_byte e'
         \<and> pe_old_end_byte e = pw_byte_start w + pe_old_end_byte e'
         \<and> pe_new_end_byte e = pw_byte_start w + pe_new_end_byte e'
         \<and> pe_base_document_version e' = pe_base_document_version e
         \<and> pe_document_version e' = pe_document_version e"
  using edit_relative_to_window_valid[OF assms] edit_relative_to_windowD[OF assms(1)] by blast

definition sample_edit :: parse_input_edit where
  "sample_edit = parse_edit_of [97, 10, 98, 98] 1 (Insert 3 [99])"

definition sample_window :: parse_window_snapshot where
  "sample_window = \<lparr>pw_document_id = 7, pw_document_version = 2, pw_package_prefix = (lit ''rust''),
     pw_mode_id = (lit ''rust''), pw_window_id = 2, pw_byte_start = 2, pw_byte_end = 4, pw_base_line = 1,
     pw_base_column = 0, pw_incremental_edit = False, pw_text = [98, 98]\<rparr>"

theorem window_edit_translation_valid_witness:
  "\<exists>e'. edit_relative_to_window sample_edit sample_window = Some e' \<and> edit_is_valid e'"
proof -
  have "edit_is_valid sample_edit"
    unfolding sample_edit_def by (rule parse_edit_of_valid) (simp_all add: valid_op_def len_utf8_def u64_max_def)
  moreover have "edit_relative_to_window sample_edit sample_window \<noteq> None" by code_simp
  ultimately show ?thesis using window_edit_translation_valid by blast
qed

end
