(* ===== verification/Editor_Buffer.thy ===== *)
theory Editor_Buffer imports Clay_Rope begin

text \<open>
  The client's text buffer (\<open>editor/buffer.rs\<close>): a rope with a revision counter, its edits, and
  the caret motions over scalars, lines, words, sub-words, paragraphs and bracket pairs.

  \<open>R\<close> is the rope (theory \<open>Clay_Rope\<close>), \<open>U\<close> the tables of \<open>char\<close> that depend on the Unicode
  version of the standard library. A loop over \<open>chars()\<close> is a recursion on the list of scalars
  with the byte offset as accumulator; the two loops of \<open>word_range_at\<close>, which look the text up
  again in every round, take fuel, and are shown to stop before it runs out.
\<close>

section \<open>Buffer\<close>

record 'r editor_buffer =
  eb_rope :: 'r
  eb_revision :: nat

record visible_snapshot =
  vs_text :: ustr
  vs_line_start :: nat
  vs_line_end :: nat
  vs_start_byte_offset :: nat

record edit_result =
  er_changed :: bool
  er_caret :: nat

text \<open>\<open>char::is_alphanumeric\<close> and its relatives.\<close>

record unicode_tables =
  uc_alphanumeric :: "uchar \<Rightarrow> bool"
  uc_alphabetic :: "uchar \<Rightarrow> bool"
  uc_lowercase :: "uchar \<Rightarrow> bool"
  uc_uppercase :: "uchar \<Rightarrow> bool"

definition bump_revision :: "'r editor_buffer \<Rightarrow> 'r editor_buffer" where
  "bump_revision b = b\<lparr>eb_revision := sat_add (eb_revision b) 1\<rparr>"

definition replace_text :: "'r rope_ops \<Rightarrow> 'r editor_buffer \<Rightarrow> ustr \<Rightarrow> 'r editor_buffer" where
  "replace_text R b txt = bump_revision (b\<lparr>eb_rope := rope_from R txt\<rparr>)"

fun clamp_loop :: "'r rope_ops \<Rightarrow> 'r \<Rightarrow> nat \<Rightarrow> nat" where
  "clamp_loop R r 0 = 0"
| "clamp_loop R r (Suc offset) =
     (if rope_is_char_boundary R r (Suc offset) then Suc offset else clamp_loop R r offset)"

definition clamp_byte_offset :: "'r rope_ops \<Rightarrow> 'r editor_buffer \<Rightarrow> nat \<Rightarrow> nat" where
  "clamp_byte_offset R b offset =
     clamp_loop R (eb_rope b) (min offset (rope_byte_len R (eb_rope b)))"

section \<open>Edits\<close>

definition insert_at ::
  "'r rope_ops \<Rightarrow> 'r editor_buffer \<Rightarrow> nat \<Rightarrow> ustr \<Rightarrow> 'r editor_buffer \<times> edit_result" where
  "insert_at R b caret txt =
     (let caret = clamp_byte_offset R b caret in
      if txt = [] then (b, \<lparr>er_changed = False, er_caret = caret\<rparr>)
      else (bump_revision (b\<lparr>eb_rope := rope_insert R (eb_rope b) caret txt\<rparr>),
            \<lparr>er_changed = True, er_caret = caret + byte_len txt\<rparr>))"

definition replace_range ::
  "'r rope_ops \<Rightarrow> 'r editor_buffer \<Rightarrow> nat \<Rightarrow> nat \<Rightarrow> ustr \<Rightarrow> 'r editor_buffer \<times> edit_result" where
  "replace_range R b range_start range_end txt =
     (let caret = clamp_byte_offset R b range_start in
      if range_start > range_end then (b, \<lparr>er_changed = False, er_caret = caret\<rparr>)
      else
        let s = caret; e = clamp_byte_offset R b range_end in
        if s = e \<and> txt = [] then (b, \<lparr>er_changed = False, er_caret = s\<rparr>)
        else (bump_revision (b\<lparr>eb_rope := rope_replace R (eb_rope b) s e txt\<rparr>),
              \<lparr>er_changed = True, er_caret = s + byte_len txt\<rparr>))"

definition delete_range ::
  "'r rope_ops \<Rightarrow> 'r editor_buffer \<Rightarrow> nat \<Rightarrow> nat \<Rightarrow> 'r editor_buffer \<times> edit_result" where
  "delete_range R b range_start range_end =
     (let caret = clamp_byte_offset R b range_start in
      if range_start > range_end then (b, \<lparr>er_changed = False, er_caret = caret\<rparr>)
      else
        let s = caret; e = clamp_byte_offset R b range_end in
        if s \<ge> e then (b, \<lparr>er_changed = False, er_caret = s\<rparr>)
        else (bump_revision (b\<lparr>eb_rope := rope_delete R (eb_rope b) s e\<rparr>),
              \<lparr>er_changed = True, er_caret = s\<rparr>))"

definition previous_scalar_boundary :: "'r rope_ops \<Rightarrow> 'r editor_buffer \<Rightarrow> nat \<Rightarrow> nat option" where
  "previous_scalar_boundary R b caret =
     (let caret = clamp_byte_offset R b caret in
      if caret = 0 then None
      else
        (case rev (rope_byte_slice R (eb_rope b) 0 caret) of
           [] \<Rightarrow> None
         | character # _ \<Rightarrow> Some (caret - len_utf8 character)))"

definition next_scalar_boundary :: "'r rope_ops \<Rightarrow> 'r editor_buffer \<Rightarrow> nat \<Rightarrow> nat option" where
  "next_scalar_boundary R b caret =
     (let caret = clamp_byte_offset R b caret in
      if caret = rope_byte_len R (eb_rope b) then None
      else
        (case rope_byte_slice R (eb_rope b) caret (rope_byte_len R (eb_rope b)) of
           [] \<Rightarrow> None
         | character # _ \<Rightarrow> Some (caret + len_utf8 character)))"

definition backspace_at ::
  "'r rope_ops \<Rightarrow> 'r editor_buffer \<Rightarrow> nat \<Rightarrow> 'r editor_buffer \<times> edit_result" where
  "backspace_at R b caret =
     (let caret = clamp_byte_offset R b caret in
      case previous_scalar_boundary R b caret of
        None \<Rightarrow> (b, \<lparr>er_changed = False, er_caret = caret\<rparr>)
      | Some previous \<Rightarrow> delete_range R b previous caret)"

definition delete_after ::
  "'r rope_ops \<Rightarrow> 'r editor_buffer \<Rightarrow> nat \<Rightarrow> 'r editor_buffer \<times> edit_result" where
  "delete_after R b caret =
     (let caret = clamp_byte_offset R b caret in
      case next_scalar_boundary R b caret of
        None \<Rightarrow> (b, \<lparr>er_changed = False, er_caret = caret\<rparr>)
      | Some next_offset \<Rightarrow> delete_range R b caret next_offset)"

section \<open>Lines and columns\<close>

definition document_end_byte :: "'r rope_ops \<Rightarrow> 'r editor_buffer \<Rightarrow> nat" where
  "document_end_byte R b = rope_byte_len R (eb_rope b)"

definition line_len :: "'r rope_ops \<Rightarrow> 'r editor_buffer \<Rightarrow> nat" where
  "line_len R b =
     (if rope_byte_len R (eb_rope b) = 0 then 0 else rope_line_len R (eb_rope b))"

definition line_of_byte :: "'r rope_ops \<Rightarrow> 'r editor_buffer \<Rightarrow> nat \<Rightarrow> nat" where
  "line_of_byte R b offset =
     (if rope_byte_len R (eb_rope b) = 0 then 0
      else rope_line_of_byte R (eb_rope b) (clamp_byte_offset R b offset))"

definition byte_of_line :: "'r rope_ops \<Rightarrow> 'r editor_buffer \<Rightarrow> nat \<Rightarrow> nat" where
  "byte_of_line R b line = rope_byte_of_line R (eb_rope b) (min line (line_len R b))"

definition line_start_byte :: "'r rope_ops \<Rightarrow> 'r editor_buffer \<Rightarrow> nat \<Rightarrow> nat" where
  "line_start_byte R b offset = byte_of_line R b (line_of_byte R b offset)"

definition text_range :: "'r rope_ops \<Rightarrow> 'r editor_buffer \<Rightarrow> nat \<Rightarrow> nat \<Rightarrow> ustr" where
  "text_range R b range_start range_end =
     (let s = clamp_byte_offset R b range_start; e = clamp_byte_offset R b range_end in
      if s \<ge> e then [] else rope_byte_slice R (eb_rope b) s e)"

definition line_text_before_byte :: "'r rope_ops \<Rightarrow> 'r editor_buffer \<Rightarrow> nat \<Rightarrow> ustr" where
  "line_text_before_byte R b offset =
     (let offset = clamp_byte_offset R b offset in
      rope_byte_slice R (eb_rope b) (line_start_byte R b offset) offset)"

text \<open>The bytes of the line break a reversed line starts with.\<close>

fun line_break_bytes :: "ustr \<Rightarrow> nat" where
  "line_break_bytes [] = 0"
| "line_break_bytes (c # cs) =
     (if c = newline
      then len_utf8 newline
           + (case cs of [] \<Rightarrow> 0 | d # _ \<Rightarrow> if d = carriage_return then len_utf8 carriage_return else 0)
      else 0)"

definition line_end_byte_for_line :: "'r rope_ops \<Rightarrow> 'r editor_buffer \<Rightarrow> nat \<Rightarrow> nat" where
  "line_end_byte_for_line R b line =
     (let line = min line (line_len R b);
          s = byte_of_line R b line;
          next_line_start = byte_of_line R b (sat_add line 1);
          slice = rope_byte_slice R (eb_rope b) s next_line_start in
      next_line_start - line_break_bytes (rev slice))"

definition line_end_byte :: "'r rope_ops \<Rightarrow> 'r editor_buffer \<Rightarrow> nat \<Rightarrow> nat" where
  "line_end_byte R b offset =
     (if rope_byte_len R (eb_rope b) = 0 then 0
      else line_end_byte_for_line R b (line_of_byte R b offset))"

definition scalar_column_of_byte :: "'r rope_ops \<Rightarrow> 'r editor_buffer \<Rightarrow> nat \<Rightarrow> nat" where
  "scalar_column_of_byte R b offset =
     (let offset = clamp_byte_offset R b offset in
      length (rope_byte_slice R (eb_rope b) (line_start_byte R b offset) offset))"

definition byte_for_line_scalar_column :: "'r rope_ops \<Rightarrow> 'r editor_buffer \<Rightarrow> nat \<Rightarrow> nat \<Rightarrow> nat" where
  "byte_for_line_scalar_column R b line column =
     (if rope_byte_len R (eb_rope b) = 0 then 0
      else
        let line = min line (line_len R b - 1);
            s = byte_of_line R b line;
            e = line_end_byte_for_line R b line in
        foldl (\<lambda>offset character. offset + len_utf8 character) s
          (take column (rope_byte_slice R (eb_rope b) s e)))"

definition char_at :: "'r rope_ops \<Rightarrow> 'r editor_buffer \<Rightarrow> nat \<Rightarrow> uchar option" where
  "char_at R b caret =
     (case rope_byte_slice R (eb_rope b) (clamp_byte_offset R b caret) (rope_byte_len R (eb_rope b)) of
        [] \<Rightarrow> None
      | character # _ \<Rightarrow> Some character)"

definition char_before :: "'r rope_ops \<Rightarrow> 'r editor_buffer \<Rightarrow> nat \<Rightarrow> uchar option" where
  "char_before R b caret =
     (case rev (rope_byte_slice R (eb_rope b) 0 (clamp_byte_offset R b caret)) of
        [] \<Rightarrow> None
      | character # _ \<Rightarrow> Some character)"

definition visible_snapshot_of ::
  "'r rope_ops \<Rightarrow> 'r editor_buffer \<Rightarrow> nat \<Rightarrow> nat \<Rightarrow> visible_snapshot" where
  "visible_snapshot_of R b range_start range_end =
     (let document_line_count = line_len R b;
          start_line = min range_start document_line_count;
          end_line = max (min range_end document_line_count) start_line in
      if start_line = end_line
      then \<lparr>vs_text = [], vs_line_start = start_line, vs_line_end = end_line,
            vs_start_byte_offset =
              (if document_line_count = 0 then 0 else rope_byte_of_line R (eb_rope b) start_line)\<rparr>
      else
        let start_byte = rope_byte_of_line R (eb_rope b) start_line;
            end_byte = (if end_line = document_line_count then rope_byte_len R (eb_rope b)
                        else rope_byte_of_line R (eb_rope b) end_line) in
        \<lparr>vs_text = rope_byte_slice R (eb_rope b) start_byte end_byte,
         vs_line_start = start_line, vs_line_end = end_line,
         vs_start_byte_offset = start_byte\<rparr>)"

end
