(* ===== verification/Buffer_Motions.thy ===== *)
theory Buffer_Motions imports Editor_Buffer begin

text \<open>
  The caret motions of \<open>editor/buffer.rs\<close> over words, sub-words, paragraphs and bracket pairs.
  A phase of the source's loops is one recursive function over the scalars that are left; the
  iterator handed from one phase to the next is the list it returns.
\<close>

section \<open>Word classes\<close>

datatype word_separator_policy = CodeWords | ProseWords | CustomWords "uchar list"

datatype paragraph_style = BlankLine | BlankLineOrWhitespace

definition is_word_char ::
  "unicode_tables \<Rightarrow> word_separator_policy \<Rightarrow> uchar \<Rightarrow> bool \<Rightarrow> bool" where
  "is_word_char U policy character treat_underscore_as_word =
     (case policy of
        CodeWords \<Rightarrow> uc_alphanumeric U character \<or> (treat_underscore_as_word \<and> character = 95)
      | ProseWords \<Rightarrow> uc_alphanumeric U character
      | CustomWords separators \<Rightarrow> \<not> is_whitespace character \<and> character \<notin> set separators)"

definition classify_word ::
  "unicode_tables \<Rightarrow> word_separator_policy \<Rightarrow> bool \<Rightarrow> bool \<Rightarrow> uchar \<Rightarrow> bool" where
  "classify_word U policy underscore long character =
     (if long then \<not> is_whitespace character
      else if is_word_char U policy character underscore then True
      else 768 \<le> character \<and> character \<le> 879)"

section \<open>Words\<close>

text \<open>Phase 1 of \<open>next_word_start\<close>: the run of word characters and the separator behind it.\<close>

fun skip_word_run :: "(uchar \<Rightarrow> bool) \<Rightarrow> nat \<Rightarrow> ustr \<Rightarrow> nat \<times> ustr" where
  "skip_word_run word offset [] = (offset, [])"
| "skip_word_run word offset (c # cs) =
     (if \<not> word c then (offset + len_utf8 c, cs) else skip_word_run word (offset + len_utf8 c) cs)"

fun find_word_start :: "(uchar \<Rightarrow> bool) \<Rightarrow> nat \<Rightarrow> ustr \<Rightarrow> nat option" where
  "find_word_start word offset [] = None"
| "find_word_start word offset (c # cs) =
     (if word c then Some offset else find_word_start word (offset + len_utf8 c) cs)"

definition next_word_start ::
  "'r rope_ops \<Rightarrow> 'r editor_buffer \<Rightarrow> nat \<Rightarrow> (uchar \<Rightarrow> bool) \<Rightarrow> nat option" where
  "next_word_start R b caret word =
     (let caret = clamp_byte_offset R b caret; e = rope_byte_len R (eb_rope b) in
      if caret \<ge> e then None
      else
        (case rope_byte_slice R (eb_rope b) caret e of
           [] \<Rightarrow> find_word_start word caret []
         | c # cs \<Rightarrow>
             let offset = caret + len_utf8 c;
                 (offset, cs) = (if word c then skip_word_run word offset cs else (offset, cs)) in
             find_word_start word offset cs))"

text \<open>\<open>next_word_end\<close>: to the end of the run the caret is in, or of the next one.\<close>

fun word_run_end :: "(uchar \<Rightarrow> bool) \<Rightarrow> nat \<Rightarrow> ustr \<Rightarrow> nat" where
  "word_run_end word offset [] = offset"
| "word_run_end word offset (c # cs) =
     (if \<not> word c then offset else word_run_end word (offset + len_utf8 c) cs)"

fun find_word_end :: "(uchar \<Rightarrow> bool) \<Rightarrow> nat \<Rightarrow> ustr \<Rightarrow> nat option" where
  "find_word_end word offset [] = None"
| "find_word_end word offset (c # cs) =
     (if \<not> word c then find_word_end word (offset + len_utf8 c) cs
      else Some (word_run_end word (offset + len_utf8 c) cs))"

definition next_word_end ::
  "'r rope_ops \<Rightarrow> 'r editor_buffer \<Rightarrow> nat \<Rightarrow> (uchar \<Rightarrow> bool) \<Rightarrow> bool \<Rightarrow> nat option" where
  "next_word_end R b caret word stop_at_eol =
     (let caret = clamp_byte_offset R b caret;
          e = (if stop_at_eol then line_end_byte R b caret else rope_byte_len R (eb_rope b)) in
      if caret \<ge> e then None
      else
        (case rope_byte_slice R (eb_rope b) caret e of
           [] \<Rightarrow> None
         | c # cs \<Rightarrow>
             if word c then Some (word_run_end word (caret + len_utf8 c) cs)
             else find_word_end word (caret + len_utf8 c) cs))"

text \<open>\<open>prev_word_start\<close>: the list holds the scalars before the caret, nearest first.\<close>

fun skip_back_separators :: "(uchar \<Rightarrow> bool) \<Rightarrow> nat \<Rightarrow> ustr \<Rightarrow> (nat \<times> ustr) option" where
  "skip_back_separators word pos [] = None"
| "skip_back_separators word pos (c # cs) =
     (if word c then Some (pos - len_utf8 c, cs) else skip_back_separators word (pos - len_utf8 c) cs)"

fun word_run_start :: "(uchar \<Rightarrow> bool) \<Rightarrow> nat \<Rightarrow> ustr \<Rightarrow> nat" where
  "word_run_start word pos [] = pos"
| "word_run_start word pos (c # cs) =
     (if \<not> word c then pos else word_run_start word (pos - len_utf8 c) cs)"

definition prev_word_start ::
  "'r rope_ops \<Rightarrow> 'r editor_buffer \<Rightarrow> nat \<Rightarrow> (uchar \<Rightarrow> bool) \<Rightarrow> nat option" where
  "prev_word_start R b caret word =
     (let caret = clamp_byte_offset R b caret in
      if caret = 0 then None
      else
        (case skip_back_separators word caret (rev (rope_byte_slice R (eb_rope b) 0 caret)) of
           None \<Rightarrow> None
         | Some (pos, cs) \<Rightarrow> Some (word_run_start word pos cs)))"

text \<open>
  \<open>prev_word_end\<close>: the first loop takes the separator that stops it from the iterator without
  subtracting its length.
\<close>

fun skip_word_tail :: "(uchar \<Rightarrow> bool) \<Rightarrow> nat \<Rightarrow> ustr \<Rightarrow> nat \<times> ustr" where
  "skip_word_tail word pos [] = (pos, [])"
| "skip_word_tail word pos (c # cs) =
     (if \<not> word c then (pos, cs) else skip_word_tail word (pos - len_utf8 c) cs)"

fun find_word_end_back :: "(uchar \<Rightarrow> bool) \<Rightarrow> nat \<Rightarrow> ustr \<Rightarrow> nat option" where
  "find_word_end_back word pos [] = None"
| "find_word_end_back word pos (c # cs) =
     (if word c then Some (pos - len_utf8 c + len_utf8 c)
      else find_word_end_back word (pos - len_utf8 c) cs)"

definition prev_word_end ::
  "'r rope_ops \<Rightarrow> 'r editor_buffer \<Rightarrow> nat \<Rightarrow> (uchar \<Rightarrow> bool) \<Rightarrow> nat option" where
  "prev_word_end R b caret word =
     (let caret = clamp_byte_offset R b caret in
      if caret = 0 then None
      else
        case skip_word_tail word caret (rev (rope_byte_slice R (eb_rope b) 0 caret)) of
          (pos, cs) \<Rightarrow> find_word_end_back word pos cs)"

text \<open>The loops of \<open>word_range_at\<close>, with fuel.\<close>

fun word_range_start ::
  "'r rope_ops \<Rightarrow> 'r editor_buffer \<Rightarrow> (uchar \<Rightarrow> bool) \<Rightarrow> nat \<Rightarrow> nat \<Rightarrow> nat option" where
  "word_range_start R b word 0 s = None"
| "word_range_start R b word (Suc fuel) s =
     (case char_before R b s of
        Some c \<Rightarrow> if word c then word_range_start R b word fuel (s - len_utf8 c) else Some s
      | None \<Rightarrow> Some s)"

fun word_range_end ::
  "'r rope_ops \<Rightarrow> 'r editor_buffer \<Rightarrow> (uchar \<Rightarrow> bool) \<Rightarrow> nat \<Rightarrow> nat \<Rightarrow> nat option" where
  "word_range_end R b word 0 e = None"
| "word_range_end R b word (Suc fuel) e =
     (case char_at R b e of
        Some c \<Rightarrow> if word c then word_range_end R b word fuel (e + len_utf8 c) else Some e
      | None \<Rightarrow> Some e)"

text \<open>The outer option is the fuel, which one unit per byte and one more are enough for.\<close>

definition word_range_at ::
  "'r rope_ops \<Rightarrow> 'r editor_buffer \<Rightarrow> nat \<Rightarrow> (uchar \<Rightarrow> bool) \<Rightarrow> (nat \<times> nat) option option" where
  "word_range_at R b caret word =
     (let caret = clamp_byte_offset R b caret; fuel = rope_byte_len R (eb_rope b) + 1 in
      case char_at R b caret of
        None \<Rightarrow> Some None
      | Some current \<Rightarrow>
          if \<not> word current then Some None
          else
            (case (word_range_start R b word fuel caret, word_range_end R b word fuel caret) of
               (Some s, Some e) \<Rightarrow> Some (Some (s, e))
             | _ \<Rightarrow> None))"

section \<open>Sub-words\<close>

definition is_ascii_digit :: "uchar \<Rightarrow> bool" where
  "is_ascii_digit c \<longleftrightarrow> 48 \<le> c \<and> c \<le> 57"

definition is_sub_word_start ::
  "unicode_tables \<Rightarrow> uchar option \<Rightarrow> uchar \<Rightarrow> bool \<Rightarrow> bool" where
  "is_sub_word_start U prev current camel =
     (if \<not> uc_alphanumeric U current then False
      else
        (case prev of
           None \<Rightarrow> True
         | Some p \<Rightarrow>
             if \<not> uc_alphanumeric U p then True
             else if camel
             then (uc_lowercase U p \<and> uc_uppercase U current)
                  \<or> (is_ascii_digit p \<and> uc_alphabetic U current)
                  \<or> (uc_alphabetic U p \<and> is_ascii_digit current)
             else False))"

fun find_sub_word_start ::
  "unicode_tables \<Rightarrow> bool \<Rightarrow> bool \<Rightarrow> uchar option \<Rightarrow> nat \<Rightarrow> ustr \<Rightarrow> nat option" where
  "find_sub_word_start U camel first prev offset [] = None"
| "find_sub_word_start U camel first prev offset (c # cs) =
     (if \<not> first \<and> is_sub_word_start U prev c camel then Some offset
      else find_sub_word_start U camel False (Some c) (offset + len_utf8 c) cs)"

definition next_sub_word_start ::
  "'r rope_ops \<Rightarrow> unicode_tables \<Rightarrow> 'r editor_buffer \<Rightarrow> nat \<Rightarrow> bool \<Rightarrow> nat option" where
  "next_sub_word_start R U b caret camel =
     (let caret = clamp_byte_offset R b caret; e = rope_byte_len R (eb_rope b) in
      if caret \<ge> e then None
      else
        let prev = (case rev (rope_byte_slice R (eb_rope b) 0 caret) of [] \<Rightarrow> None | c # _ \<Rightarrow> Some c) in
        find_sub_word_start U camel True prev caret (rope_byte_slice R (eb_rope b) caret e))"

fun find_sub_word_start_back ::
  "unicode_tables \<Rightarrow> bool \<Rightarrow> (nat \<times> uchar) option \<Rightarrow> nat \<Rightarrow> ustr \<Rightarrow> nat option" where
  "find_sub_word_start_back U camel pending pos [] =
     (case pending of
        Some (pending_pos, pending_char) \<Rightarrow>
          if is_sub_word_start U None pending_char camel then Some pending_pos else None
      | None \<Rightarrow> None)"
| "find_sub_word_start_back U camel pending pos (c # cs) =
     (let pos = pos - len_utf8 c in
      case pending of
        Some (pending_pos, pending_char) \<Rightarrow>
          if is_sub_word_start U (Some c) pending_char camel then Some pending_pos
          else find_sub_word_start_back U camel (Some (pos, c)) pos cs
      | None \<Rightarrow> find_sub_word_start_back U camel (Some (pos, c)) pos cs)"

definition prev_sub_word_start ::
  "'r rope_ops \<Rightarrow> unicode_tables \<Rightarrow> 'r editor_buffer \<Rightarrow> nat \<Rightarrow> bool \<Rightarrow> nat option" where
  "prev_sub_word_start R U b caret camel =
     (let caret = clamp_byte_offset R b caret in
      if caret = 0 then None
      else find_sub_word_start_back U camel None caret (rev (rope_byte_slice R (eb_rope b) 0 caret)))"

section \<open>Paragraphs and blanks\<close>

definition trim_line_break :: "ustr \<Rightarrow> ustr" where
  "trim_line_break content =
     rev (dropWhile (\<lambda>c. c = newline \<or> c = carriage_return) (rev content))"

definition line_content :: "'r rope_ops \<Rightarrow> 'r editor_buffer \<Rightarrow> nat \<Rightarrow> ustr" where
  "line_content R b line =
     rope_byte_slice R (eb_rope b) (byte_of_line R b line)
       (byte_of_line R b (min (line + 1) (line_len R b)))"

definition is_blank_line :: "'r rope_ops \<Rightarrow> 'r editor_buffer \<Rightarrow> paragraph_style \<Rightarrow> nat \<Rightarrow> bool" where
  "is_blank_line R b style line =
     (let trimmed = trim_line_break (line_content R b line) in
      case style of
        BlankLine \<Rightarrow> trimmed = []
      | BlankLineOrWhitespace \<Rightarrow> list_all is_whitespace trimmed)"

text \<open>The loops \<open>while line < count && !p(line) { line += 1 }\<close> and the two that count down.\<close>

function scan_lines :: "(nat \<Rightarrow> bool) \<Rightarrow> nat \<Rightarrow> nat \<Rightarrow> nat" where
  "scan_lines p count line =
     (if line < count \<and> \<not> p line then scan_lines p count (line + 1) else line)"
  by pat_completeness auto
termination by (relation "measure (\<lambda>(p, count, line). count - line)") auto

declare scan_lines.simps [simp del]

fun scan_lines_down :: "(nat \<Rightarrow> bool) \<Rightarrow> nat \<Rightarrow> nat option" where
  "scan_lines_down p 0 = None"
| "scan_lines_down p (Suc line) = (if p line then Some line else scan_lines_down p line)"

fun extend_lines_up :: "(nat \<Rightarrow> bool) \<Rightarrow> nat \<Rightarrow> nat" where
  "extend_lines_up p 0 = 0"
| "extend_lines_up p (Suc line) = (if p line then extend_lines_up p line else Suc line)"

function extend_lines_down :: "(nat \<Rightarrow> bool) \<Rightarrow> nat \<Rightarrow> nat \<Rightarrow> nat" where
  "extend_lines_down p count line =
     (if line + 1 < count \<and> p (line + 1) then extend_lines_down p count (line + 1) else line)"
  by pat_completeness auto
termination by (relation "measure (\<lambda>(p, count, line). count - line)") auto

declare extend_lines_down.simps [simp del]

definition next_paragraph ::
  "'r rope_ops \<Rightarrow> 'r editor_buffer \<Rightarrow> nat \<Rightarrow> paragraph_style \<Rightarrow> nat option" where
  "next_paragraph R b caret style =
     (let caret = clamp_byte_offset R b caret;
          current_line = line_of_byte R b caret;
          line_count = line_len R b;
          line = scan_lines (is_blank_line R b style) line_count (current_line + 1) in
      if line < line_count then Some (byte_of_line R b line) else None)"

definition prev_paragraph ::
  "'r rope_ops \<Rightarrow> 'r editor_buffer \<Rightarrow> nat \<Rightarrow> paragraph_style \<Rightarrow> nat option" where
  "prev_paragraph R b caret style =
     (let caret = clamp_byte_offset R b caret in
      map_option (byte_of_line R b)
        (scan_lines_down (is_blank_line R b style) (line_of_byte R b caret)))"

definition paragraph_end_byte ::
  "'r rope_ops \<Rightarrow> 'r editor_buffer \<Rightarrow> nat \<Rightarrow> paragraph_style \<Rightarrow> nat" where
  "paragraph_end_byte R b caret style =
     (let line_count = line_len R b;
          line = scan_lines (\<lambda>l. \<not> is_blank_line R b style l) line_count (line_of_byte R b caret);
          line = scan_lines (is_blank_line R b style) line_count line in
      if line \<ge> line_count then document_end_byte R b else byte_of_line R b line)"

definition paragraph_range ::
  "'r rope_ops \<Rightarrow> 'r editor_buffer \<Rightarrow> nat \<Rightarrow> paragraph_style \<Rightarrow> nat \<times> nat" where
  "paragraph_range R b caret style =
     (let line = line_of_byte R b caret;
          start_line = extend_lines_up (\<lambda>l. \<not> is_blank_line R b style l) line;
          end_line = extend_lines_down (\<lambda>l. \<not> is_blank_line R b style l) (line_len R b) line in
      (byte_of_line R b start_line, line_end_byte_for_line R b end_line))"

definition line_range :: "'r rope_ops \<Rightarrow> 'r editor_buffer \<Rightarrow> nat \<Rightarrow> nat \<times> nat" where
  "line_range R b caret = (line_start_byte R b caret, line_end_byte R b caret)"

fun find_non_blank :: "nat \<Rightarrow> ustr \<Rightarrow> nat option" where
  "find_non_blank offset [] = None"
| "find_non_blank offset (c # cs) =
     (if c = newline \<or> c = carriage_return then None
      else if \<not> is_whitespace c then Some offset
      else find_non_blank (offset + len_utf8 c) cs)"

definition first_non_blank_byte :: "'r rope_ops \<Rightarrow> 'r editor_buffer \<Rightarrow> nat \<Rightarrow> nat" where
  "first_non_blank_byte R b caret =
     (let line = line_of_byte R b caret; s = byte_of_line R b line in
      case find_non_blank s (line_content R b line) of Some offset \<Rightarrow> offset | None \<Rightarrow> s)"

fun find_last_non_blank :: "nat \<Rightarrow> nat option \<Rightarrow> ustr \<Rightarrow> nat option" where
  "find_last_non_blank offset last_end [] = last_end"
| "find_last_non_blank offset last_end (c # cs) =
     (if c = newline \<or> c = carriage_return then last_end
      else find_last_non_blank (offset + len_utf8 c)
             (if \<not> is_whitespace c then Some (offset + len_utf8 c) else last_end) cs)"

definition last_non_blank_byte :: "'r rope_ops \<Rightarrow> 'r editor_buffer \<Rightarrow> nat \<Rightarrow> nat" where
  "last_non_blank_byte R b caret =
     (let line = line_of_byte R b caret; s = byte_of_line R b line in
      case find_last_non_blank s None (line_content R b line) of
        Some last_end \<Rightarrow> last_end
      | None \<Rightarrow> line_end_byte R b caret)"

section \<open>Bracket pairs\<close>

text \<open>\<open>depth\<close> is at least 1 in every round.\<close>

fun scan_pair_forward :: "uchar \<Rightarrow> uchar \<Rightarrow> nat \<Rightarrow> nat \<Rightarrow> ustr \<Rightarrow> nat option" where
  "scan_pair_forward opener closer depth offset [] = None"
| "scan_pair_forward opener closer depth offset (c # cs) =
     (if c = closer
      then (if depth - 1 = 0 then Some offset
            else scan_pair_forward opener closer (depth - 1) (offset + len_utf8 c) cs)
      else scan_pair_forward opener closer (if c = opener then depth + 1 else depth)
             (offset + len_utf8 c) cs)"

fun scan_pair_backward :: "uchar \<Rightarrow> uchar \<Rightarrow> nat \<Rightarrow> nat \<Rightarrow> ustr \<Rightarrow> nat option" where
  "scan_pair_backward opener closer depth offset [] = None"
| "scan_pair_backward opener closer depth offset (c # cs) =
     (let offset = offset - len_utf8 c in
      if c = opener
      then (if depth - 1 = 0 then Some offset
            else scan_pair_backward opener closer (depth - 1) offset cs)
      else scan_pair_backward opener closer (if c = closer then depth + 1 else depth) offset cs)"

text \<open>The bracket at or before the caret, and whether to search forward.\<close>

definition pair_anchor ::
  "'r rope_ops \<Rightarrow> 'r editor_buffer \<Rightarrow> nat \<Rightarrow> uchar \<Rightarrow> uchar \<Rightarrow> (nat \<times> bool) option" where
  "pair_anchor R b caret opener closer =
     (let current = char_at R b caret in
      if current = Some opener then Some (caret, True)
      else if current = Some closer then Some (caret, False)
      else
        (case char_before R b caret of
           None \<Rightarrow> None
         | Some prev \<Rightarrow>
             if prev = opener then Some (caret - len_utf8 prev, True)
             else if prev = closer then Some (caret - len_utf8 prev, False)
             else None))"

definition matching_pair_byte ::
  "'r rope_ops \<Rightarrow> 'r editor_buffer \<Rightarrow> nat \<Rightarrow> uchar \<Rightarrow> uchar \<Rightarrow> nat option" where
  "matching_pair_byte R b caret opener closer =
     (let caret = clamp_byte_offset R b caret; e = rope_byte_len R (eb_rope b) in
      case pair_anchor R b caret opener closer of
        None \<Rightarrow> None
      | Some (anchor, forward) \<Rightarrow>
          if forward
          then scan_pair_forward opener closer 1 (anchor + len_utf8 opener)
                 (rope_byte_slice R (eb_rope b) (anchor + len_utf8 opener) e)
          else scan_pair_backward opener closer 1 anchor
                 (rev (rope_byte_slice R (eb_rope b) 0 anchor)))"

end
