(* ===== verification/Buffer_Facts.thy ===== *)
theory Buffer_Facts imports Editor_Buffer Edit_Protocol begin

text \<open>
  What the operations of \<open>Editor_Buffer\<close> compute, stated on the text of the buffer: rounding is
  \<open>floor_boundary\<close>, an edit is a splice at rounded offsets, scalar steps are steps of the scalar
  index, and lines and columns are those of \<open>Clay_Text\<close>.
\<close>

definition buffer_string :: "'r rope_ops \<Rightarrow> 'r editor_buffer \<Rightarrow> ustr" where
  "buffer_string R b = rope_string R (eb_rope b)"

text \<open>Rust allocations are smaller than \<open>2 ^ 64\<close> bytes.\<close>

definition buffer_fits :: "'r rope_ops \<Rightarrow> 'r editor_buffer \<Rightarrow> bool" where
  "buffer_fits R b \<longleftrightarrow> byte_len (buffer_string R b) \<le> u64_max"

lemma line_break_bytes_rev:
  assumes "newline \<notin> set v" and "br = [newline] \<or> br = []"
  obtains x y where "v @ br = x @ y" "line_break_bytes (rev (v @ br)) = byte_len y"
    "y \<in> {[], [newline], [carriage_return, newline]}"
    "y = [newline] \<longrightarrow> x = [] \<or> last x \<noteq> carriage_return"
    "br = [newline] \<longrightarrow> y \<noteq> []" "newline \<notin> set x"
proof (cases "br = [newline]")
  case False
  then have br: "br = []" using assms(2) by simp
  have "line_break_bytes (rev v) = 0"
    using assms(1) by (cases v rule: rev_cases) auto
  then show thesis using assms(1) br by (intro that[of v "[]"]) auto
next
  case True
  show thesis
  proof (cases "v \<noteq> [] \<and> last v = carriage_return")
    case cr: True
    then obtain w where v: "v = w @ [carriage_return]" by (cases v rule: rev_cases) auto
    then show thesis using True assms(1) by (intro that[of w "[carriage_return, newline]"]) auto
  next
    case no: False
    have "line_break_bytes (newline # rev v) = 1"
      using no by (cases v rule: rev_cases) auto
    then show thesis using True no assms(1) by (intro that[of v "[newline]"]) auto
  qed
qed

context crop_rope begin

lemma clamp_loop_eq:
  "n \<le> byte_len (rope_string R r) \<Longrightarrow> clamp_loop R r n = floor_boundary (rope_string R r) n"
proof (induction n)
  case 0
  then show ?case by (simp add: floor_boundary_def)
next
  case (Suc n)
  then show ?case
    by (cases "is_boundary (rope_string R r) (Suc n)") (simp_all add: floor_boundary_Suc)
qed

lemma clamp_byte_offset_eq: "clamp_byte_offset R b n = floor_boundary (buffer_string R b) n"
  by (simp add: clamp_byte_offset_def clamp_loop_eq buffer_string_def) (simp add: floor_boundary_def)

lemma insert_at_effect:
  assumes "insert_at R b n s = (b', r)"
  shows "buffer_string R b' = text_splice (buffer_string R b) (floor_boundary (buffer_string R b) n)
            (floor_boundary (buffer_string R b) n) s
         \<and> er_caret r = floor_boundary (buffer_string R b) n + byte_len s
         \<and> er_changed r = (s \<noteq> [])"
proof -
  let ?t = "buffer_string R b" and ?n = "floor_boundary (buffer_string R b) n"
  have "text_splice ?t ?n ?n [] = ?t"
    by (simp add: text_splice_def)
  then show ?thesis using assms
    by (auto simp: insert_at_def clamp_byte_offset_eq bump_revision_def buffer_string_def Let_def
        split: if_splits)
qed

lemma replace_range_effect:
  assumes "replace_range R b a c s = (b', r)" and "a \<le> c"
  shows "buffer_string R b' = text_splice (buffer_string R b) (floor_boundary (buffer_string R b) a)
            (floor_boundary (buffer_string R b) c) s
         \<and> er_caret r = floor_boundary (buffer_string R b) a + byte_len s"
proof -
  let ?t = "buffer_string R b"
  have "valid_range ?t (floor_boundary ?t a) (floor_boundary ?t c)"
    using assms(2) by (auto simp: floor_boundary_mono)
  moreover have "text_splice ?t (floor_boundary ?t a) (floor_boundary ?t a) [] = ?t"
    by (simp add: text_splice_def)
  ultimately show ?thesis using assms
    by (auto simp: replace_range_def clamp_byte_offset_eq bump_revision_def buffer_string_def Let_def
        split: if_splits)
qed

lemma delete_range_effect:
  assumes "delete_range R b a c = (b', r)" and "a \<le> c"
  shows "buffer_string R b' = text_splice (buffer_string R b) (floor_boundary (buffer_string R b) a)
            (floor_boundary (buffer_string R b) c) []
         \<and> er_caret r = floor_boundary (buffer_string R b) a"
proof -
  let ?t = "buffer_string R b"
  have "valid_range ?t (floor_boundary ?t a) (floor_boundary ?t c)" "floor_boundary ?t a \<le> floor_boundary ?t c"
    using assms(2) by (auto simp: floor_boundary_mono)
  moreover have "text_splice ?t (floor_boundary ?t a) (floor_boundary ?t a) [] = ?t"
    by (simp add: text_splice_def)
  ultimately show ?thesis using assms
    by (auto simp: delete_range_def clamp_byte_offset_eq bump_revision_def buffer_string_def Let_def
        split: if_splits)
qed

text \<open>Scalar steps.\<close>

lemma slice_to_floor:
  "rope_byte_slice R (eb_rope b) 0 (floor_boundary (buffer_string R b) n)
     = take (char_index (buffer_string R b) n) (buffer_string R b)"
  by (simp add: buffer_string_def)

lemma slice_from_floor:
  "rope_byte_slice R (eb_rope b) (floor_boundary (buffer_string R b) n) (rope_byte_len R (eb_rope b))
     = drop (char_index (buffer_string R b) n) (buffer_string R b)"
  by (simp add: buffer_string_def)

lemma previous_scalar_boundary_eq:
  "previous_scalar_boundary R b n =
     (let t = buffer_string R b; i = char_index t n in
      if i = 0 then None else Some (byte_len (take (i - 1) t)))"
proof -
  let ?t = "buffer_string R b"
  have i: "floor_boundary ?t n = 0 \<longleftrightarrow> char_index ?t n = 0"
    using char_index_eq_0[of ?t "floor_boundary ?t n"] by simp
  show ?thesis
  proof (cases "char_index ?t n")
    case 0
    then show ?thesis using i by (simp add: previous_scalar_boundary_def clamp_byte_offset_eq)
  next
    case (Suc k)
    then have k: "k < length ?t" using char_index_le_length[of ?t n] by simp
    have "take (Suc k) ?t = take k ?t @ [?t ! k]" using k by (simp add: take_Suc_conv_app_nth)
    then have "floor_boundary ?t n = byte_len (take k ?t) + len_utf8 (?t ! k)"
      using Suc by (simp add: floor_boundary_def)
    then show ?thesis using i Suc \<open>take (Suc k) ?t = take k ?t @ [?t ! k]\<close>
      unfolding previous_scalar_boundary_def clamp_byte_offset_eq Let_def slice_to_floor by simp
  qed
qed

lemma next_scalar_boundary_eq:
  "next_scalar_boundary R b n =
     (let t = buffer_string R b; i = char_index t n in
      if i = length t then None else Some (byte_len (take (i + 1) t)))"
proof -
  let ?t = "buffer_string R b"
  have i: "floor_boundary ?t n = byte_len ?t \<longleftrightarrow> char_index ?t n = length ?t"
    using boundary_take_eq[of ?t "floor_boundary ?t n"] char_index_le_length[of ?t n]
    by (metis char_index_all char_index_floor floor_boundary_def take_all_iff le_refl)
  show ?thesis
  proof (cases "char_index ?t n = length ?t")
    case True
    then show ?thesis using i
      by (simp add: next_scalar_boundary_def clamp_byte_offset_eq buffer_string_def)
  next
    case False
    then have k: "char_index ?t n < length ?t" by (rule le_neq_implies_less[OF char_index_le_length])
    have "drop (char_index ?t n) ?t = ?t ! char_index ?t n # drop (Suc (char_index ?t n)) ?t"
      using k by (simp add: Cons_nth_drop_Suc)
    moreover have "rope_byte_len R (eb_rope b) = byte_len ?t" by (simp add: buffer_string_def)
    ultimately show ?thesis using i False k slice_from_floor[of b n]
      unfolding next_scalar_boundary_def clamp_byte_offset_eq Let_def
      by (simp add: take_Suc_conv_app_nth) (simp add: floor_boundary_def)
  qed
qed

text \<open>Lines.\<close>

lemma line_len_eq: "line_len R b = text_line_len (buffer_string R b)"
  by (simp add: line_len_def buffer_string_def) (simp add: text_line_len_def)

lemma line_of_byte_eq: "line_of_byte R b n = text_line_of_byte (buffer_string R b) n"
proof -
  have "clamp_byte_offset R b n \<le> byte_len (rope_string R (eb_rope b))"
    using floor_boundary_le_len by (simp add: clamp_byte_offset_eq buffer_string_def)
  then show ?thesis
    by (simp add: line_of_byte_def buffer_string_def)
      (simp add: clamp_byte_offset_eq buffer_string_def text_line_of_byte_def)
qed

lemma byte_of_line_eq: "byte_of_line R b l = text_byte_of_line (buffer_string R b) l"
  by (simp add: byte_of_line_def line_len_eq buffer_string_def)

lemma line_start_byte_eq:
  "line_start_byte R b n = text_byte_of_line (buffer_string R b) (text_line_of_byte (buffer_string R b) n)"
  by (simp add: line_start_byte_def byte_of_line_eq line_of_byte_eq)

lemma line_start_byte_le: "line_start_byte R b n \<le> floor_boundary (buffer_string R b) n"
  by (simp add: line_start_byte_eq text_line_start_le)

lemma next_line_start_eq:
  assumes "buffer_fits R b"
  shows "byte_of_line R b (sat_add (min l (line_len R b)) 1) = text_byte_of_line (buffer_string R b) (Suc l)"
proof -
  have "text_line_len (buffer_string R b) \<le> u64_max"
    using assms text_line_len_le[of "buffer_string R b"] by (simp add: buffer_fits_def)
  then show ?thesis
    by (cases "l \<le> text_line_len (buffer_string R b)")
      (auto simp: byte_of_line_eq line_len_eq sat_add_def text_byte_of_line_len min_def)
qed

text \<open>
  The end of a line: the text from the start of the line to the start of the next one is the
  content followed by nothing, LF or CRLF, and \<open>line_end_byte\<close> is the end of the content.
\<close>

lemma line_end_parts:
  assumes fits: "buffer_fits R b" and n: "is_boundary (buffer_string R b) n"
  obtains u x y q where "buffer_string R b = u @ x @ y @ q"
    "line_start_byte R b n = byte_len u" "line_end_byte R b n = byte_len u + byte_len x"
    "byte_of_line R b (Suc (line_of_byte R b n)) = byte_len u + byte_len x + byte_len y"
    "y \<in> {[], [newline], [carriage_return, newline]}" "newline \<notin> set x"
    "y = [newline] \<longrightarrow> x = [] \<or> last x \<noteq> carriage_return" "y = [] \<longrightarrow> q = []"
    "byte_len u \<le> n" "n \<le> byte_len u + byte_len x + byte_len y"
proof -
  let ?t = "buffer_string R b" and ?l = "text_line_of_byte (buffer_string R b) n"
  obtain u v w br q where t: "?t = u @ v @ w @ br @ q" "n = byte_len u + byte_len v"
    and nl: "newline \<notin> set v" "newline \<notin> set w" "br = [newline] \<or> br = [] \<and> q = []"
    and s: "text_byte_of_line ?t ?l = byte_len u"
      "text_byte_of_line ?t (Suc ?l) = byte_len u + byte_len v + byte_len w + byte_len br"
    by (rule text_line_parts[OF n])
  have vw: "newline \<notin> set (v @ w)" "br = [newline] \<or> br = []" using nl by auto
  obtain x y where xy: "(v @ w) @ br = x @ y" "line_break_bytes (rev ((v @ w) @ br)) = byte_len y"
    "y \<in> {[], [newline], [carriage_return, newline]}"
    "y = [newline] \<longrightarrow> x = [] \<or> last x \<noteq> carriage_return"
    "br = [newline] \<longrightarrow> y \<noteq> []" "newline \<notin> set x"
    by (rule line_break_bytes_rev[OF vw])
  have len: "byte_len v + byte_len w + byte_len br = byte_len x + byte_len y"
    using arg_cong[OF xy(1), of byte_len] by simp
  have t': "?t = u @ ((v @ w) @ br) @ q" by (simp add: t)
  have "valid_range ?t (byte_len u) (byte_len u + byte_len ((v @ w) @ br))"
    unfolding t' by (rule valid_range_parts)
  then have slice: "rope_byte_slice R (eb_rope b) (byte_len u) (byte_len u + byte_len v + byte_len w + byte_len br)
      = (v @ w) @ br"
    using text_slice_parts[of u "(v @ w) @ br" q] t' by (simp add: buffer_string_def add.assoc)
  have lb: "line_end_byte_for_line R b ?l = byte_len u + byte_len x"
  proof -
    have "byte_of_line R b (min ?l (line_len R b)) = byte_len u"
      using s(1) by (simp add: byte_of_line_eq line_len_eq)
    then show ?thesis
      using slice xy(2) len
      by (simp add: line_end_byte_for_line_def next_line_start_eq[OF fits, simplified] s(2) Let_def)
  qed
  have "line_end_byte R b n = byte_len u + byte_len x"
  proof (cases "?t = []")
    case True
    then show ?thesis using t xy(1) by (simp add: line_end_byte_def buffer_string_def)
  next
    case False
    then show ?thesis using lb by (simp add: line_end_byte_def line_of_byte_eq buffer_string_def)
  qed
  moreover have "byte_of_line R b (Suc (line_of_byte R b n)) = byte_len u + byte_len x + byte_len y"
    using s(2) len by (simp add: byte_of_line_eq line_of_byte_eq)
  moreover have "?t = u @ x @ y @ q" using t xy(1) by (metis append.assoc)
  moreover have "line_start_byte R b n = byte_len u" by (simp add: line_start_byte_eq s(1))
  moreover have "y = [] \<longrightarrow> q = []" using xy(5) nl(3) by auto
  ultimately show thesis using xy(3,4,6) t(2) len by (intro that[of u x y q]) auto
qed

lemma foldl_byte_len: "foldl (\<lambda>offset c. offset + len_utf8 c) s cs = s + byte_len cs"
  by (induction cs arbitrary: s) simp_all

lemma scalar_column_roundtrip:
  assumes fits: "buffer_fits R b" and n: "is_boundary (buffer_string R b) n"
    and le: "n \<le> line_end_byte R b n" and line: "line_of_byte R b n < line_len R b"
  shows "byte_for_line_scalar_column R b (line_of_byte R b n) (scalar_column_of_byte R b n) = n"
proof -
  let ?t = "buffer_string R b"
  obtain u x y q where t: "?t = u @ x @ y @ q" and s: "line_start_byte R b n = byte_len u"
    and e: "line_end_byte R b n = byte_len u + byte_len x" and un: "byte_len u \<le> n"
    by (rule line_end_parts[OF fits n])
  have "?t \<noteq> []" using line by (auto simp: line_len_eq text_line_len_def)
  then have ne: "byte_len (rope_string R (eb_rope b)) \<noteq> 0" by (simp add: buffer_string_def)
  then have e': "line_end_byte_for_line R b (line_of_byte R b n) = byte_len u + byte_len x"
    using e by (simp add: line_end_byte_def)
  have b: "is_boundary ?t (byte_len u)" "is_boundary ?t (byte_len u + byte_len x)"
    using is_boundary_append[of u "x @ y @ q" 0] is_boundary_append[of u "x @ y @ q" "byte_len x"]
      is_boundary_append_left[of "byte_len x" x "y @ q"] by (simp_all add: t)
  have "is_boundary x (n - byte_len u)"
  proof -
    obtain k where k: "n = byte_len u + k" using un le_Suc_ex by blast
    then have "is_boundary (x @ y @ q) k" using n is_boundary_append[of u "x @ y @ q" k] by (simp add: t)
    moreover have "k \<le> byte_len x" using le e k by simp
    ultimately show ?thesis using k is_boundary_append_left[of k x "y @ q"] by simp
  qed
  then obtain x1 x2 where x: "x = x1 @ x2" "n = byte_len u + byte_len x1"
    using boundary_split[of x "n - byte_len u"] un by (metis le_add_diff_inverse)
  have "rope_byte_slice R (eb_rope b) (byte_len u) n = x1"
    using b n un text_slice_parts[of u x1 "x2 @ y @ q"]
    by (simp add: buffer_string_def[symmetric] t x(1) valid_range_def) (simp add: buffer_string_def t x)
  then have col: "scalar_column_of_byte R b n = length x1"
    using n s by (simp add: scalar_column_of_byte_def clamp_byte_offset_eq Let_def)
  have "rope_byte_slice R (eb_rope b) (byte_len u) (byte_len u + byte_len x) = x"
    using b text_slice_parts[of u x "y @ q"] t by (simp add: buffer_string_def valid_range_def)
  moreover have "byte_of_line R b (line_of_byte R b n) = byte_len u"
    using s by (simp add: line_start_byte_def)
  moreover have "byte_len (take (length x1) x) = byte_len x1" by (simp add: x(1))
  ultimately show ?thesis
    using ne line e' x(2)
    unfolding byte_for_line_scalar_column_def col foldl_byte_len Let_def
    by (simp add: min_absorb1 del: foldl_byte_len)
qed

lemma scalar_step:
  assumes n: "is_boundary (buffer_string R b) n" and lt: "n < byte_len (buffer_string R b)"
  obtains m where "next_scalar_boundary R b n = Some m" "n < m"
    "previous_scalar_boundary R b m = Some n"
    "buffer_string R (fst (delete_range R b n m)) = text_splice (buffer_string R b) n m []"
    "delete_after R b n = delete_range R b n m" "backspace_at R b m = delete_range R b n m"
    "length (text_slice (buffer_string R b) n m) = 1" "er_caret (snd (delete_range R b n m)) = n"
proof -
  let ?t = "buffer_string R b"
  obtain p q where t: "?t = p @ q" and n: "n = byte_len p" using boundary_split[OF assms(1)] .
  obtain c r where q: "q = c # r" using lt t n by (cases q) auto
  define m where "m = byte_len (p @ [c])"
  have t': "?t = (p @ [c]) @ r" by (simp add: t q)
  have i: "char_index ?t n = length p" by (simp add: t n)
  have j: "char_index ?t m = Suc (length p)"
    unfolding t' m_def char_index_prefix by simp
  have b: "is_boundary ?t n" "is_boundary ?t m"
    unfolding t' m_def n using boundary_prefix[of p "[c] @ r"] boundary_prefix[of "p @ [c]" r] by auto
  have nx: "next_scalar_boundary R b n = Some m"
    unfolding next_scalar_boundary_eq i Let_def using lt by (auto simp: t q m_def)
  have pv: "previous_scalar_boundary R b m = Some n"
    unfolding previous_scalar_boundary_eq j Let_def by (simp add: t n)
  have nm: "n < m" by (simp add: m_def n)
  obtain b' r' where d: "delete_range R b n m = (b', r')" by force
  have e: "buffer_string R b' = text_splice ?t n m [] \<and> er_caret r' = n"
    using delete_range_effect[OF d] nm b by simp
  have da: "delete_after R b n = delete_range R b n m"
    using b by (simp add: delete_after_def clamp_byte_offset_eq nx)
  have ba: "backspace_at R b m = delete_range R b n m"
    using b by (simp add: backspace_at_def clamp_byte_offset_eq pv)
  have sl: "text_slice ?t n m = [c]"
    using text_slice_parts[of p "[c]" r] by (simp add: t' n m_def)
  show thesis
    by (rule that[OF nx nm pv _ da ba]) (simp_all add: sl d e)
qed

end

end
