(* ===== verification/Buffer_Motion_Facts.thy ===== *)
theory Buffer_Motion_Facts imports Buffer_Motions Buffer_Facts begin

text \<open>
  What the motions of \<open>Buffer_Motions\<close> compute. The word motions are given as drops of the text
  before or after the caret: skip a run of word characters, skip a run of separators, and
  return where the rest begins. Every motion returns a scalar boundary of the text.
\<close>

section \<open>The loops\<close>

declare dropWhile_eq_Nil_conv [simp del]

abbreviation skip_separators :: "(uchar \<Rightarrow> bool) \<Rightarrow> ustr \<Rightarrow> ustr" where
  "skip_separators word \<equiv> dropWhile (\<lambda>c. \<not> word c)"

definition offset_of :: "nat \<Rightarrow> ustr \<Rightarrow> nat option" where
  "offset_of n cs = (if cs = [] then None else Some (n - byte_len cs))"

lemma byte_len_dropWhile_le: "byte_len (dropWhile p cs) \<le> byte_len cs"
  by (induction cs) auto

lemma skip_word_run_eq:
  "skip_word_run word off cs = (off + byte_len cs - byte_len (tl (dropWhile word cs)), tl (dropWhile word cs))"
  by (induction word off cs rule: skip_word_run.induct) (simp_all add: add.assoc)

lemma find_word_start_eq:
  "find_word_start word off cs = offset_of (off + byte_len cs) (skip_separators word cs)"
  by (induction word off cs rule: find_word_start.induct) (simp_all add: offset_of_def add.assoc)

lemma word_run_end_eq: "word_run_end word off cs = off + byte_len cs - byte_len (dropWhile word cs)"
  by (induction word off cs rule: word_run_end.induct) (simp_all add: add.assoc)

lemma find_word_end_eq:
  "find_word_end word off cs =
     (let s = skip_separators word cs in
      if s = [] then None else Some (off + byte_len cs - byte_len (dropWhile word s)))"
  by (induction word off cs rule: find_word_end.induct) (auto simp: word_run_end_eq Let_def add.assoc)

lemma skip_back_separators_eq:
  "pos = byte_len cs \<Longrightarrow>
   skip_back_separators word pos cs =
     (case skip_separators word cs of [] \<Rightarrow> None | c # cs' \<Rightarrow> Some (byte_len cs', cs'))"
  by (induction word pos cs rule: skip_back_separators.induct) simp_all

lemma word_run_start_eq:
  "pos = byte_len cs \<Longrightarrow> word_run_start word pos cs = byte_len (dropWhile word cs)"
  by (induction word pos cs rule: word_run_start.induct) simp_all

lemma skip_word_tail_eq:
  "pos = byte_len cs \<Longrightarrow>
   skip_word_tail word pos cs = (byte_len (dropWhile word cs), tl (dropWhile word cs))"
  by (induction word pos cs rule: skip_word_tail.induct) simp_all

lemma find_word_end_back_eq:
  "pos = byte_len cs + k \<Longrightarrow>
   find_word_end_back word pos cs =
     (if skip_separators word cs = [] then None else Some (byte_len (skip_separators word cs) + k))"
  by (induction word pos cs rule: find_word_end_back.induct) auto

lemma dropWhile_tl:
  "s \<noteq> [] \<Longrightarrow> p (hd s) \<Longrightarrow> dropWhile p (tl s) = dropWhile p s"
  by (cases s) simp_all

lemma suffix_boundary: "t = p @ q \<Longrightarrow> is_boundary t (byte_len t - byte_len q)"
  by (simp add: boundary_prefix)

lemma dropWhile_suffix_boundary: "is_boundary t (byte_len t - byte_len (dropWhile p (drop i t)))"
  by (rule suffix_boundary[of t "take i t @ takeWhile p (drop i t)"])
    (metis append.assoc append_take_drop_id takeWhile_dropWhile_id)

section \<open>Words\<close>

context crop_rope begin

lemma caret_at_end:
  "byte_len (rope_string R (eb_rope b)) \<le> floor_boundary (buffer_string R b) n
     \<longleftrightarrow> drop (char_index (buffer_string R b) n) (buffer_string R b) = []"
proof -
  have "byte_len (drop (char_index (buffer_string R b) n) (buffer_string R b))
      = byte_len (buffer_string R b) - floor_boundary (buffer_string R b) n"
    using boundary_drop_eq[OF is_boundary_floor, of "buffer_string R b" n] by simp
  then show ?thesis
    by (metis buffer_string_def byte_len_eq_0 diff_is_0_eq)
qed

lemma floor_plus_rest:
  "floor_boundary (buffer_string R b) n
     + byte_len (drop (char_index (buffer_string R b) n) (buffer_string R b)) = byte_len (buffer_string R b)"
  by (simp add: floor_boundary_def byte_len_take_drop)

lemma caret_at_start:
  "floor_boundary (buffer_string R b) n = 0 \<longleftrightarrow> take (char_index (buffer_string R b) n) (buffer_string R b) = []"
  by (simp add: floor_boundary_def)

lemma next_word_start_eq:
  "next_word_start R b n word =
     (let t = buffer_string R b in
      offset_of (byte_len t) (skip_separators word (dropWhile word (drop (char_index t n) t))))"
proof (cases "drop (char_index (buffer_string R b) n) (buffer_string R b)")
  case Nil
  then show ?thesis
    by (simp add: next_word_start_def clamp_byte_offset_eq caret_at_end Let_def offset_of_def)
next
  case (Cons c cs)
  let ?t = "buffer_string R b"
  have len: "byte_len ?t = floor_boundary ?t n + len_utf8 c + byte_len cs"
    using floor_plus_rest[of b n] by (simp add: Cons)
  have slice: "rope_byte_slice R (eb_rope b) (floor_boundary ?t n) (byte_len (rope_string R (eb_rope b))) = c # cs"
    using slice_from_floor[of b n] by (simp add: Cons)
  show ?thesis
  proof (cases "word c")
    case True
    have drop: "skip_separators word (tl (dropWhile word cs)) = skip_separators word (dropWhile word cs)"
      using hd_dropWhile[of word cs] by (cases "dropWhile word cs") simp_all
    have "byte_len (tl (dropWhile word cs)) \<le> byte_len cs"
      using byte_len_dropWhile_le[of word cs] by (cases "dropWhile word cs") auto
    then show ?thesis using True Cons
      by (simp add: next_word_start_def clamp_byte_offset_eq caret_at_end slice Let_def
          skip_word_run_eq find_word_start_eq drop len)
  next
    case False
    then show ?thesis using Cons
      by (simp add: next_word_start_def clamp_byte_offset_eq caret_at_end slice Let_def
          find_word_start_eq len)
  qed
qed

lemma next_word_end_eq:
  "next_word_end R b n word False =
     (let t = buffer_string R b; s = drop (char_index t n) t;
          s = (if s \<noteq> [] \<and> word (hd s) then s else skip_separators word s) in
      if s = [] then None else Some (byte_len t - byte_len (dropWhile word s)))"
proof (cases "drop (char_index (buffer_string R b) n) (buffer_string R b)")
  case Nil
  then show ?thesis
    by (simp add: next_word_end_def clamp_byte_offset_eq caret_at_end Let_def)
next
  case (Cons c cs)
  let ?t = "buffer_string R b"
  have len: "byte_len ?t = floor_boundary ?t n + len_utf8 c + byte_len cs"
    using floor_plus_rest[of b n] by (simp add: Cons)
  have slice: "rope_byte_slice R (eb_rope b) (floor_boundary ?t n) (byte_len (rope_string R (eb_rope b))) = c # cs"
    using slice_from_floor[of b n] by (simp add: Cons)
  show ?thesis using Cons
    by (simp add: next_word_end_def clamp_byte_offset_eq caret_at_end slice Let_def
        word_run_end_eq find_word_end_eq len)
qed

lemma prev_word_start_eq:
  "prev_word_start R b n word =
     (let t = buffer_string R b;
          s = skip_separators word (rev (take (char_index t n) t)) in
      if s = [] then None else Some (byte_len (dropWhile word s)))"
proof -
  let ?t = "buffer_string R b"
  let ?pre = "rev (take (char_index ?t n) ?t)"
  have sep: "skip_back_separators word (floor_boundary ?t n) ?pre
      = (case skip_separators word ?pre of [] \<Rightarrow> None | c # cs' \<Rightarrow> Some (byte_len cs', cs'))"
    by (rule skip_back_separators_eq) (simp add: floor_boundary_def)
  show ?thesis
  proof (cases "skip_separators word ?pre")
    case Nil
    then show ?thesis using sep
      by (simp add: prev_word_start_def clamp_byte_offset_eq slice_to_floor Let_def)
  next
    case (Cons c cs)
    then have "word c" using hd_dropWhile[of "\<lambda>c. \<not> word c" ?pre] by simp
    moreover have "floor_boundary ?t n \<noteq> 0"
      using Cons caret_at_start[of b n] by (metis dropWhile.simps(1) list.discI rev.simps(1))
    ultimately show ?thesis using sep Cons
      by (simp add: prev_word_start_def clamp_byte_offset_eq slice_to_floor Let_def word_run_start_eq)
  qed
qed

lemma prev_word_end_eq:
  "prev_word_end R b n word =
     (let t = buffer_string R b; s = dropWhile word (rev (take (char_index t n) t));
          v = skip_separators word s in
      if v = [] then None else Some (byte_len v + len_utf8 (hd s)))"
proof -
  let ?t = "buffer_string R b"
  let ?s = "dropWhile word (rev (take (char_index ?t n) ?t))"
  have tail: "skip_word_tail word (floor_boundary ?t n) (rev (take (char_index ?t n) ?t)) = (byte_len ?s, tl ?s)"
    by (rule skip_word_tail_eq) (simp add: floor_boundary_def)
  show ?thesis
  proof (cases "?s")
    case Nil
    then show ?thesis using tail
      by (simp add: prev_word_end_def clamp_byte_offset_eq slice_to_floor Let_def)
  next
    case (Cons c s')
    then have "\<not> word c" using hd_dropWhile[of word "rev (take (char_index ?t n) ?t)"] by simp
    moreover have "floor_boundary ?t n \<noteq> 0"
      using Cons caret_at_start[of b n] by (metis dropWhile.simps(1) list.discI rev.simps(1))
    ultimately show ?thesis using tail Cons
      by (simp add: prev_word_end_def clamp_byte_offset_eq slice_to_floor Let_def
          find_word_end_back_eq[of _ s' "len_utf8 c"] add.commute)
  qed
qed

text \<open>The fuel of \<open>word_range_at\<close> is enough.\<close>

lemma char_at_eq:
  "char_at R b n = (case drop (char_index (buffer_string R b) n) (buffer_string R b) of
      [] \<Rightarrow> None | c # _ \<Rightarrow> Some c)"
  using slice_from_floor[of b n] by (simp add: char_at_def clamp_byte_offset_eq)

lemma char_before_eq:
  "char_before R b n = (case rev (take (char_index (buffer_string R b) n) (buffer_string R b)) of
      [] \<Rightarrow> None | c # _ \<Rightarrow> Some c)"
  using slice_to_floor[of b n] by (simp add: char_before_def clamp_byte_offset_eq)

lemma word_range_start_eq:
  "buffer_string R b = rev cs @ q \<Longrightarrow> length cs < fuel \<Longrightarrow>
   word_range_start R b word fuel (byte_len cs) = Some (byte_len (dropWhile word cs))"
proof (induction fuel arbitrary: cs q)
  case (Suc fuel)
  have "rev (take (char_index (buffer_string R b) (byte_len cs)) (buffer_string R b)) = cs"
    using char_index_prefix[of "rev cs" q] by (simp add: Suc.prems(1))
  then show ?case
  proof (cases cs)
    case (Cons c cs')
    then show ?thesis
      using Suc.IH[of cs' "c # q"] Suc.prems \<open>rev _ = cs\<close> by (simp add: char_before_eq)
  qed (simp add: char_before_eq)
qed simp

lemma word_range_end_eq:
  "buffer_string R b = p @ cs \<Longrightarrow> length cs < fuel \<Longrightarrow>
   word_range_end R b word fuel (byte_len p)
     = Some (byte_len (buffer_string R b) - byte_len (dropWhile word cs))"
proof (induction fuel arbitrary: p cs)
  case (Suc fuel)
  have rest: "drop (char_index (buffer_string R b) (byte_len p)) (buffer_string R b) = cs"
    using char_index_prefix[of p cs] by (simp add: Suc.prems(1))
  then show ?case
  proof (cases cs)
    case (Cons c cs')
    then show ?thesis
      using Suc.IH[of "p @ [c]" cs'] Suc.prems rest by (simp add: char_at_eq)
  qed (use Suc.prems in \<open>simp add: char_at_eq\<close>)
qed simp

lemma word_range_at_eq:
  "word_range_at R b n word =
     (let t = buffer_string R b; before = rev (take (char_index t n) t); rest = drop (char_index t n) t in
      Some (if rest = [] \<or> \<not> word (hd rest) then None
            else Some (byte_len (dropWhile word before), byte_len t - byte_len (dropWhile word rest))))"
proof -
  let ?t = "buffer_string R b"
  let ?i = "char_index ?t n"
  have len: "length ?t < byte_len ?t + 1" using length_le_byte_len[of ?t] by linarith
  have lt: "length (rev (take ?i ?t)) < byte_len ?t + 1" "length (drop ?i ?t) < byte_len ?t + 1"
    using le_less_trans[OF char_index_le_length len] len by simp_all
  have s: "word_range_start R b word (byte_len ?t + 1) (floor_boundary ?t n)
      = Some (byte_len (dropWhile word (rev (take ?i ?t))))"
    using word_range_start_eq[of b "rev (take ?i ?t)" "drop ?i ?t" "byte_len ?t + 1" word] lt(1)
    by (simp only: floor_boundary_def byte_len_rev rev_rev_ident append_take_drop_id)
  have e: "word_range_end R b word (byte_len ?t + 1) (floor_boundary ?t n)
      = Some (byte_len ?t - byte_len (dropWhile word (drop ?i ?t)))"
    using word_range_end_eq[of b "take ?i ?t" "drop ?i ?t" "byte_len ?t + 1" word] lt(2)
    by (simp only: floor_boundary_def append_take_drop_id)
  show ?thesis
    using s e by (auto simp: word_range_at_def clamp_byte_offset_eq char_at_eq Let_def
        buffer_string_def[symmetric] split: list.splits)
qed

end

section \<open>Bracket pairs\<close>

definition pair_net :: "uchar \<Rightarrow> uchar \<Rightarrow> ustr \<Rightarrow> int" where
  "pair_net opener closer u = int (count_list u opener) - int (count_list u closer)"

lemma pair_net_simps [simp]:
  "pair_net a c [] = 0"
  "a \<noteq> c \<Longrightarrow> pair_net a c (x # u) = (if x = a then 1 else if x = c then -1 else 0) + pair_net a c u"
  "pair_net a c (u @ v) = pair_net a c u + pair_net a c v"
  "pair_net a c (rev u) = pair_net a c u"
  by (auto simp: pair_net_def)

lemma pair_net_swap: "pair_net c a u = - pair_net a c u"
  by (simp add: pair_net_def)

text \<open>\<open>u\<close> is what lies between a bracket and its partner, seen from the opener's side.\<close>

definition pair_inside :: "uchar \<Rightarrow> uchar \<Rightarrow> nat \<Rightarrow> ustr \<Rightarrow> bool" where
  "pair_inside a c d u \<longleftrightarrow>
     pair_net a c u = 1 - int d \<and> (\<forall>k. 1 - int d \<le> pair_net a c (take k u))"

lemma pair_inside_Nil: "pair_inside a c d [] \<longleftrightarrow> d = 1"
  by (auto simp: pair_inside_def)

lemma pair_inside_Cons:
  assumes "a \<noteq> c" "1 \<le> d"
  shows "pair_inside a c d (x # u) \<longleftrightarrow>
    (if x = c then 1 < d \<and> pair_inside a c (d - 1) u
     else pair_inside a c (if x = a then d + 1 else d) u)"
proof -
  have "(\<forall>k. P (take k (x # u))) \<longleftrightarrow> P [] \<and> (\<forall>k. P (x # take k u))" for P :: "ustr \<Rightarrow> bool"
    by (metis take0 take_Suc_Cons not0_implies_Suc)
  note all = this[of "\<lambda>w. 1 - int d \<le> pair_net a c w"]
  have first: "(\<forall>k. l \<le> pair_net a c (take k u)) \<Longrightarrow> l \<le> 0" for l
    by (drule spec[of _ 0]) simp
  show ?thesis
    unfolding pair_inside_def all
    using assms first[of "2 - int d"] by (auto simp: of_nat_diff algebra_simps)
qed

lemma split_at_first:
  "(\<exists>u v. x # cs = u @ a # v \<and> P u v) \<longleftrightarrow>
     (x = a \<and> P [] cs) \<or> (\<exists>u v. cs = u @ a # v \<and> P (x # u) v)"
  by (auto simp: Cons_eq_append_conv)

lemma scan_pair_forward_iff:
  assumes "a \<noteq> c" "1 \<le> d"
  shows "scan_pair_forward a c d off cs = Some m \<longleftrightarrow>
    (\<exists>u v. cs = u @ c # v \<and> pair_inside a c d u \<and> m = off + byte_len u)"
  using assms(2)
proof (induction cs arbitrary: d off)
  case (Cons x cs)
  have split: "(\<exists>u v. x # cs = u @ c # v \<and> pair_inside a c d u \<and> m = off + byte_len u) \<longleftrightarrow>
      (x = c \<and> d = 1 \<and> m = off)
      \<or> (\<exists>u v. cs = u @ c # v \<and> pair_inside a c d (x # u) \<and> m = off + len_utf8 x + byte_len u)"
    by (subst split_at_first) (simp add: pair_inside_Nil add.assoc)
  show ?case
  proof (cases "x = c")
    case True
    then show ?thesis
      using Cons.IH[of "d - 1" "off + len_utf8 x"] Cons.prems assms(1)
      unfolding split by (cases "d = 1") (auto simp: pair_inside_Cons)
  next
    case False
    then show ?thesis
      using Cons.IH[of "if x = a then d + 1 else d" "off + len_utf8 x"] Cons.prems assms(1)
      unfolding split by (auto simp: pair_inside_Cons)
  qed
qed simp

lemma scan_pair_backward_iff:
  assumes "a \<noteq> c" "1 \<le> d"
  shows "scan_pair_backward a c d (byte_len cs) cs = Some m \<longleftrightarrow>
    (\<exists>u v. cs = u @ a # v \<and> pair_inside c a d u \<and> m = byte_len v)"
  using assms(2)
proof (induction cs arbitrary: d)
  case (Cons x cs)
  have split: "(\<exists>u v. x # cs = u @ a # v \<and> pair_inside c a d u \<and> m = byte_len v) \<longleftrightarrow>
      (x = a \<and> d = 1 \<and> m = byte_len cs)
      \<or> (\<exists>u v. cs = u @ a # v \<and> pair_inside c a d (x # u) \<and> m = byte_len v)"
    by (subst split_at_first) (simp add: pair_inside_Nil)
  show ?case
  proof (cases "x = a")
    case True
    then show ?thesis
      using Cons.IH[of "d - 1"] Cons.prems assms(1)
      unfolding split by (cases "d = 1") (auto simp: pair_inside_Cons)
  next
    case False
    then show ?thesis
      using Cons.IH[of "if x = c then d + 1 else d"] Cons.prems assms(1)
      unfolding split by (auto simp: pair_inside_Cons)
  qed
qed simp

lemma pair_inside_rev:
  assumes "pair_inside a c 1 u" shows "pair_inside c a 1 (rev u)"
proof -
  have "0 \<le> pair_net c a (take k (rev u))" for k
  proof -
    let ?j = "length u - k"
    have "pair_net a c u = pair_net a c (take ?j u) + pair_net a c (drop ?j u)"
      by (metis append_take_drop_id pair_net_simps(3))
    moreover have "0 \<le> pair_net a c (take ?j u)" "pair_net a c u = 0"
      using assms by (simp_all add: pair_inside_def)
    ultimately show ?thesis by (simp add: take_rev pair_net_swap[of c a])
  qed
  then show ?thesis using assms by (simp add: pair_inside_def pair_net_swap[of c a])
qed

context crop_rope begin

lemma matching_pair_forward:
  assumes "buffer_string R b = p @ a # r" "a \<noteq> c"
  shows "matching_pair_byte R b (byte_len p) a c = Some m \<longleftrightarrow>
    (\<exists>u v. r = u @ c # v \<and> pair_inside a c 1 u \<and> m = byte_len p + len_utf8 a + byte_len u)"
proof -
  have i: "char_index (buffer_string R b) (byte_len p) = length p"
    "floor_boundary (buffer_string R b) (byte_len p) = byte_len p"
    by (simp_all add: assms(1) floor_boundary_def)
  have at: "char_at R b (byte_len p) = Some a" by (simp add: char_at_eq i assms(1))
  have "valid_range (buffer_string R b) (byte_len (p @ [a])) (byte_len (p @ [a]) + byte_len r)"
    using valid_range_parts[of "p @ [a]" r "[]"] by (simp add: assms(1))
  then have "rope_byte_slice R (eb_rope b) (byte_len p + len_utf8 a) (rope_byte_len R (eb_rope b)) = r"
    using text_slice_parts[of "p @ [a]" r "[]"] assms(1) by (simp add: buffer_string_def add.assoc)
  then show ?thesis
    using scan_pair_forward_iff[OF assms(2), of 1]
    by (simp add: matching_pair_byte_def clamp_byte_offset_eq i pair_anchor_def at Let_def)
qed

lemma matching_pair_backward:
  assumes "buffer_string R b = p @ c # r" "a \<noteq> c"
  shows "matching_pair_byte R b (byte_len p) a c = Some m \<longleftrightarrow>
    (\<exists>u v. rev p = u @ a # v \<and> pair_inside c a 1 u \<and> m = byte_len v)"
proof -
  have i: "char_index (buffer_string R b) (byte_len p) = length p"
    "floor_boundary (buffer_string R b) (byte_len p) = byte_len p"
    by (simp_all add: assms(1) floor_boundary_def)
  have at: "char_at R b (byte_len p) = Some c" by (simp add: char_at_eq i assms(1))
  have "rope_byte_slice R (eb_rope b) 0 (byte_len p) = p"
    using slice_to_floor[of b "byte_len p"] unfolding i by (simp add: assms(1))
  then show ?thesis
    using scan_pair_backward_iff[OF assms(2), of 1 "rev p"] assms(2)
    by (simp add: matching_pair_byte_def clamp_byte_offset_eq i pair_anchor_def at Let_def)
qed

lemma matching_pair_partner:
  assumes "a \<noteq> c" "is_boundary (buffer_string R b) n" "char_at R b n = Some a"
    and "matching_pair_byte R b n a c = Some m"
  shows "n < m \<and> char_at R b m = Some c \<and> matching_pair_byte R b m a c = Some n"
proof -
  obtain p q where t: "buffer_string R b = p @ q" and n: "n = byte_len p"
    using boundary_split[OF assms(2)] .
  obtain r where q: "q = a # r"
    using assms(3) by (auto simp: char_at_eq t n split: list.splits)
  obtain u v where r: "r = u @ c # v" and u: "pair_inside a c 1 u"
    and m: "m = byte_len p + len_utf8 a + byte_len u"
    using assms(4) matching_pair_forward[of b p a r c m] t q assms(1) by (auto simp: n)
  have t': "buffer_string R b = (p @ a # u) @ c # v" by (simp add: t q r)
  have m': "m = byte_len (p @ a # u)" by (simp add: m)
  have "matching_pair_byte R b m a c = Some n"
    unfolding m' matching_pair_backward[OF t' assms(1)]
    using pair_inside_rev[OF u] by (intro exI[of _ "rev u"] exI[of _ "rev p"]) (simp add: n)
  moreover have "char_at R b m = Some c"
    using char_index_prefix[of "p @ a # u" "c # v"] by (simp add: char_at_eq t' m')
  ultimately show ?thesis by (simp add: m n trans_less_add1)
qed

lemma matching_pair_partner_back:
  assumes "a \<noteq> c" "is_boundary (buffer_string R b) n" "char_at R b n = Some c"
    and "matching_pair_byte R b n a c = Some m"
  shows "m < n \<and> char_at R b m = Some a \<and> matching_pair_byte R b m a c = Some n"
proof -
  obtain p q where t: "buffer_string R b = p @ q" and n: "n = byte_len p"
    using boundary_split[OF assms(2)] .
  obtain r where q: "q = c # r"
    using assms(3) by (auto simp: char_at_eq t n split: list.splits)
  obtain u v where p: "rev p = u @ a # v" and u: "pair_inside c a 1 u" and m: "m = byte_len v"
    using assms(4) matching_pair_backward[of b p c r a m] t q assms(1) by (auto simp: n)
  have p': "p = rev v @ a # rev u" using arg_cong[OF p, of rev] by simp
  have t': "buffer_string R b = rev v @ a # (rev u @ c # r)" by (simp add: t q p')
  have "matching_pair_byte R b (byte_len (rev v)) a c = Some n"
    unfolding matching_pair_forward[OF t' assms(1)]
    using pair_inside_rev[OF u] by (intro exI[of _ "rev u"] exI[of _ r]) (simp add: n p')
  moreover have "char_at R b m = Some a"
    using char_index_prefix[of "rev v" "a # (rev u @ c # r)"] by (simp add: char_at_eq t' m)
  ultimately show ?thesis by (simp add: m n p')
qed

end

section \<open>Lines and paragraphs\<close>

lemma scan_lines_spec:
  "line \<le> scan_lines p count line
   \<and> (\<forall>l. line \<le> l \<longrightarrow> l < scan_lines p count line \<longrightarrow> \<not> p l)
   \<and> (scan_lines p count line < count \<longrightarrow> p (scan_lines p count line))"
proof (induction p count line rule: scan_lines.induct)
  case (1 p count line)
  show ?case
  proof (cases "line < count \<and> \<not> p line")
    case True
    note ih = 1[OF True]
    have eq: "scan_lines p count line = scan_lines p count (line + 1)"
      using True by (subst scan_lines.simps) simp
    have "\<not> p l" if "line \<le> l" "l < scan_lines p count line" for l
      using that ih True by (cases "l = line") (auto simp: eq)
    then show ?thesis using ih by (auto simp: eq)
  next
    case False
    then have "scan_lines p count line = line" by (subst scan_lines.simps) auto
    then show ?thesis using False by auto
  qed
qed

lemma scan_lines_down_spec:
  "(case scan_lines_down p n of
      None \<Rightarrow> \<forall>l<n. \<not> p l
    | Some l \<Rightarrow> l < n \<and> p l \<and> (\<forall>k. l < k \<longrightarrow> k < n \<longrightarrow> \<not> p k))"
  by (induction n) (auto split: option.splits simp: less_Suc_eq)

lemma extend_lines_up_spec:
  "extend_lines_up p n \<le> n \<and> (\<forall>l. extend_lines_up p n \<le> l \<longrightarrow> l < n \<longrightarrow> p l)
   \<and> (extend_lines_up p n = 0 \<or> \<not> p (extend_lines_up p n - 1))"
  by (induction n) (auto simp: less_Suc_eq)

lemma extend_lines_down_spec:
  "line \<le> extend_lines_down p count line
   \<and> (\<forall>l. line < l \<longrightarrow> l \<le> extend_lines_down p count line \<longrightarrow> p l)
   \<and> (count \<le> extend_lines_down p count line + 1 \<or> \<not> p (extend_lines_down p count line + 1))"
proof (induction p count line rule: extend_lines_down.induct)
  case (1 p count line)
  show ?case
  proof (cases "line + 1 < count \<and> p (line + 1)")
    case True
    note ih = 1[OF True]
    have eq: "extend_lines_down p count line = extend_lines_down p count (line + 1)"
      using True by (subst extend_lines_down.simps) simp
    have "p l" if "line < l" "l \<le> extend_lines_down p count line" for l
      using that ih True by (cases "l = line + 1") (auto simp: eq)
    then show ?thesis using ih by (auto simp: eq)
  next
    case False
    then have "extend_lines_down p count line = line" by (subst extend_lines_down.simps) auto
    then show ?thesis using False by auto
  qed
qed

context crop_rope begin

lemma visible_snapshot_eq:
  "visible_snapshot_of R b first limit =
     (let t = buffer_string R b; s = min first (text_line_len t); e = max (min limit (text_line_len t)) s in
      \<lparr>vs_text = text_slice t (text_byte_of_line t s) (text_byte_of_line t e),
       vs_line_start = s, vs_line_end = e, vs_start_byte_offset = text_byte_of_line t s\<rparr>)"
proof -
  let ?t = "buffer_string R b"
  define s where "s = min first (text_line_len ?t)"
  define e where "e = max (min limit (text_line_len ?t)) s"
  have se: "s \<le> e" "s \<le> text_line_len ?t" "e \<le> text_line_len ?t" by (simp_all add: s_def e_def)
  have line: "rope_byte_of_line R (eb_rope b) l = text_byte_of_line ?t l" if "l \<le> text_line_len ?t" for l
    using that by (simp add: buffer_string_def)
  have last: "(if e = text_line_len ?t then rope_byte_len R (eb_rope b)
      else rope_byte_of_line R (eb_rope b) e) = text_byte_of_line ?t e"
    using line[OF se(3)] by (simp add: text_byte_of_line_len) (simp add: buffer_string_def)
  have "valid_range ?t (text_byte_of_line ?t s) (text_byte_of_line ?t e)"
    using text_byte_of_line_mono[OF se(1)] by (simp add: valid_range_def)
  then have slice: "rope_byte_slice R (eb_rope b) (text_byte_of_line ?t s) (text_byte_of_line ?t e)
      = text_slice ?t (text_byte_of_line ?t s) (text_byte_of_line ?t e)"
    by (simp add: buffer_string_def)
  show ?thesis
    unfolding visible_snapshot_of_def line_len_eq Let_def s_def[symmetric] e_def[symmetric]
      last line[OF se(2)] slice using se(1,2) by auto
qed

end

end
