(* ===== verification/Cursor_Selection.thy ===== *)
theory Cursor_Selection imports Buffer_Motion_Facts begin

text \<open>
  The caret (\<open>editor/cursor.rs\<close>) and the selection set (\<open>editor/selection.rs\<close>). Every cursor
  method returns the new cursor and whether the caret changed. \<open>preferred_x\<close> is an \<open>f32\<close> that
  the production code only ever clears; it is kept as its bit pattern.

  \<open>cursor_step\<close> is the relation of all cursor methods on one buffer, \<open>selection_step\<close> the one of
  all methods of the selection set; the lemmas show that every method leaves the caret on a
  scalar boundary of the text and that the set never becomes empty nor its primary index
  invalid.
\<close>

section \<open>Cursor\<close>

record cursor_state =
  cs_caret :: nat
  cs_preferred_x :: "nat option"

definition cursor_new :: "nat \<Rightarrow> cursor_state" where
  "cursor_new caret = \<lparr>cs_caret = caret, cs_preferred_x = None\<rparr>"

definition clear_preferred_x :: "cursor_state \<Rightarrow> cursor_state" where
  "clear_preferred_x c = c\<lparr>cs_preferred_x := None\<rparr>"

definition set_caret :: "cursor_state \<Rightarrow> nat \<Rightarrow> cursor_state" where
  "set_caret c caret = clear_preferred_x (c\<lparr>cs_caret := caret\<rparr>)"

definition cursor_move_to ::
  "'r rope_ops \<Rightarrow> 'r editor_buffer \<Rightarrow> cursor_state \<Rightarrow> nat \<Rightarrow> cursor_state \<times> bool" where
  "cursor_move_to R b c caret =
     (let previous = cs_caret c; c = set_caret c (clamp_byte_offset R b caret) in
      (c, cs_caret c \<noteq> previous))"

definition move_to_previous_scalar ::
  "'r rope_ops \<Rightarrow> 'r editor_buffer \<Rightarrow> cursor_state \<Rightarrow> cursor_state \<times> bool" where
  "move_to_previous_scalar R b c =
     (case previous_scalar_boundary R b (cs_caret c) of
        None \<Rightarrow> (set_caret c 0, False)
      | Some caret \<Rightarrow> cursor_move_to R b c caret)"

definition move_to_next_scalar ::
  "'r rope_ops \<Rightarrow> 'r editor_buffer \<Rightarrow> cursor_state \<Rightarrow> cursor_state \<times> bool" where
  "move_to_next_scalar R b c =
     (case next_scalar_boundary R b (cs_caret c) of
        None \<Rightarrow> (set_caret c (document_end_byte R b), False)
      | Some caret \<Rightarrow> cursor_move_to R b c caret)"

definition move_to_document_start ::
  "'r rope_ops \<Rightarrow> 'r editor_buffer \<Rightarrow> cursor_state \<Rightarrow> cursor_state \<times> bool" where
  "move_to_document_start R b c = cursor_move_to R b c 0"

definition move_to_document_end ::
  "'r rope_ops \<Rightarrow> 'r editor_buffer \<Rightarrow> cursor_state \<Rightarrow> cursor_state \<times> bool" where
  "move_to_document_end R b c = cursor_move_to R b c (document_end_byte R b)"

definition move_to_line_start ::
  "'r rope_ops \<Rightarrow> 'r editor_buffer \<Rightarrow> cursor_state \<Rightarrow> cursor_state \<times> bool" where
  "move_to_line_start R b c = cursor_move_to R b c (line_start_byte R b (cs_caret c))"

definition move_to_line_end ::
  "'r rope_ops \<Rightarrow> 'r editor_buffer \<Rightarrow> cursor_state \<Rightarrow> cursor_state \<times> bool" where
  "move_to_line_end R b c = cursor_move_to R b c (line_end_byte R b (cs_caret c))"

definition move_to_line_preserving_scalar_column ::
  "'r rope_ops \<Rightarrow> 'r editor_buffer \<Rightarrow> cursor_state \<Rightarrow> nat \<Rightarrow> cursor_state \<times> bool" where
  "move_to_line_preserving_scalar_column R b c target_line =
     (let column = scalar_column_of_byte R b (cs_caret c) in
      cursor_move_to R b c (byte_for_line_scalar_column R b target_line column))"

definition move_to_previous_line ::
  "'r rope_ops \<Rightarrow> 'r editor_buffer \<Rightarrow> cursor_state \<Rightarrow> cursor_state \<times> bool" where
  "move_to_previous_line R b c =
     (case checked_sub (line_of_byte R b (cs_caret c)) 1 of
        None \<Rightarrow> (c, False)
      | Some target_line \<Rightarrow> move_to_line_preserving_scalar_column R b c target_line)"

definition move_to_next_line ::
  "'r rope_ops \<Rightarrow> 'r editor_buffer \<Rightarrow> cursor_state \<Rightarrow> cursor_state \<times> bool" where
  "move_to_next_line R b c =
     (let target_line = sat_add (line_of_byte R b (cs_caret c)) 1 in
      if target_line \<ge> line_len R b then (c, False)
      else move_to_line_preserving_scalar_column R b c target_line)"

definition move_to_next_word_start ::
  "'r rope_ops \<Rightarrow> unicode_tables \<Rightarrow> 'r editor_buffer \<Rightarrow> cursor_state \<Rightarrow> word_separator_policy \<Rightarrow> bool \<Rightarrow> bool \<Rightarrow>
     cursor_state \<times> bool" where
  "move_to_next_word_start R U b c policy underscore long =
     (case next_word_start R b (cs_caret c) (classify_word U policy underscore long) of
        Some caret \<Rightarrow> cursor_move_to R b c caret
      | None \<Rightarrow> move_to_document_end R b c)"

definition move_to_prev_word_start ::
  "'r rope_ops \<Rightarrow> unicode_tables \<Rightarrow> 'r editor_buffer \<Rightarrow> cursor_state \<Rightarrow> word_separator_policy \<Rightarrow> bool \<Rightarrow> bool \<Rightarrow>
     cursor_state \<times> bool" where
  "move_to_prev_word_start R U b c policy underscore long =
     (case prev_word_start R b (cs_caret c) (classify_word U policy underscore long) of
        Some caret \<Rightarrow> cursor_move_to R b c caret
      | None \<Rightarrow> move_to_document_start R b c)"

definition move_to_next_word_end ::
  "'r rope_ops \<Rightarrow> unicode_tables \<Rightarrow> 'r editor_buffer \<Rightarrow> cursor_state \<Rightarrow> word_separator_policy \<Rightarrow> bool \<Rightarrow> bool \<Rightarrow> bool \<Rightarrow>
     cursor_state \<times> bool" where
  "move_to_next_word_end R U b c policy underscore long stop_at_eol =
     (case next_word_end R b (cs_caret c) (classify_word U policy underscore long) stop_at_eol of
        Some caret \<Rightarrow> cursor_move_to R b c caret
      | None \<Rightarrow> move_to_document_end R b c)"

definition move_to_prev_word_end ::
  "'r rope_ops \<Rightarrow> unicode_tables \<Rightarrow> 'r editor_buffer \<Rightarrow> cursor_state \<Rightarrow> word_separator_policy \<Rightarrow> bool \<Rightarrow> bool \<Rightarrow>
     cursor_state \<times> bool" where
  "move_to_prev_word_end R U b c policy underscore long =
     (case prev_word_end R b (cs_caret c) (classify_word U policy underscore long) of
        Some caret \<Rightarrow> cursor_move_to R b c caret
      | None \<Rightarrow> move_to_document_start R b c)"

definition move_to_next_sub_word_start ::
  "'r rope_ops \<Rightarrow> unicode_tables \<Rightarrow> 'r editor_buffer \<Rightarrow> cursor_state \<Rightarrow> bool \<Rightarrow> cursor_state \<times> bool" where
  "move_to_next_sub_word_start R U b c camel =
     (case next_sub_word_start R U b (cs_caret c) camel of
        Some caret \<Rightarrow> cursor_move_to R b c caret
      | None \<Rightarrow> move_to_document_end R b c)"

definition move_to_prev_sub_word_start ::
  "'r rope_ops \<Rightarrow> unicode_tables \<Rightarrow> 'r editor_buffer \<Rightarrow> cursor_state \<Rightarrow> bool \<Rightarrow> cursor_state \<times> bool" where
  "move_to_prev_sub_word_start R U b c camel =
     (case prev_sub_word_start R U b (cs_caret c) camel of
        Some caret \<Rightarrow> cursor_move_to R b c caret
      | None \<Rightarrow> move_to_document_start R b c)"

definition move_to_next_paragraph ::
  "'r rope_ops \<Rightarrow> 'r editor_buffer \<Rightarrow> cursor_state \<Rightarrow> paragraph_style \<Rightarrow> cursor_state \<times> bool" where
  "move_to_next_paragraph R b c style =
     (case next_paragraph R b (cs_caret c) style of
        Some caret \<Rightarrow> cursor_move_to R b c caret
      | None \<Rightarrow> move_to_document_end R b c)"

definition move_to_prev_paragraph ::
  "'r rope_ops \<Rightarrow> 'r editor_buffer \<Rightarrow> cursor_state \<Rightarrow> paragraph_style \<Rightarrow> cursor_state \<times> bool" where
  "move_to_prev_paragraph R b c style =
     (case prev_paragraph R b (cs_caret c) style of
        Some caret \<Rightarrow> cursor_move_to R b c caret
      | None \<Rightarrow> move_to_document_start R b c)"

definition move_to_matching_pair ::
  "'r rope_ops \<Rightarrow> 'r editor_buffer \<Rightarrow> cursor_state \<Rightarrow> uchar \<Rightarrow> uchar \<Rightarrow> cursor_state \<times> bool" where
  "move_to_matching_pair R b c opener closer =
     (case matching_pair_byte R b (cs_caret c) opener closer of
        Some caret \<Rightarrow> cursor_move_to R b c caret
      | None \<Rightarrow> (c, False))"

definition move_to_paragraph_end ::
  "'r rope_ops \<Rightarrow> 'r editor_buffer \<Rightarrow> cursor_state \<Rightarrow> paragraph_style \<Rightarrow> cursor_state \<times> bool" where
  "move_to_paragraph_end R b c style =
     cursor_move_to R b c (paragraph_end_byte R b (cs_caret c) style)"

definition move_to_first_non_blank ::
  "'r rope_ops \<Rightarrow> 'r editor_buffer \<Rightarrow> cursor_state \<Rightarrow> cursor_state \<times> bool" where
  "move_to_first_non_blank R b c = cursor_move_to R b c (first_non_blank_byte R b (cs_caret c))"

definition move_to_last_non_blank ::
  "'r rope_ops \<Rightarrow> 'r editor_buffer \<Rightarrow> cursor_state \<Rightarrow> cursor_state \<times> bool" where
  "move_to_last_non_blank R b c = cursor_move_to R b c (last_non_blank_byte R b (cs_caret c))"

text \<open>Any method of the cursor on one buffer.\<close>

inductive cursor_step ::
  "'r rope_ops \<Rightarrow> unicode_tables \<Rightarrow> 'r editor_buffer \<Rightarrow> cursor_state \<Rightarrow> cursor_state \<Rightarrow> bool"
  for R U b c where
  "cursor_step R U b c (fst (move_to_previous_scalar R b c))"
| "cursor_step R U b c (fst (move_to_next_scalar R b c))"
| "cursor_step R U b c (fst (move_to_document_start R b c))"
| "cursor_step R U b c (fst (move_to_document_end R b c))"
| "cursor_step R U b c (fst (move_to_line_start R b c))"
| "cursor_step R U b c (fst (move_to_line_end R b c))"
| "cursor_step R U b c (fst (move_to_previous_line R b c))"
| "cursor_step R U b c (fst (move_to_next_line R b c))"
| "cursor_step R U b c (fst (move_to_next_word_start R U b c policy underscore long))"
| "cursor_step R U b c (fst (move_to_prev_word_start R U b c policy underscore long))"
| "cursor_step R U b c (fst (move_to_next_word_end R U b c policy underscore long stop_at_eol))"
| "cursor_step R U b c (fst (move_to_prev_word_end R U b c policy underscore long))"
| "cursor_step R U b c (fst (move_to_next_sub_word_start R U b c camel))"
| "cursor_step R U b c (fst (move_to_prev_sub_word_start R U b c camel))"
| "cursor_step R U b c (fst (move_to_next_paragraph R b c style))"
| "cursor_step R U b c (fst (move_to_prev_paragraph R b c style))"
| "cursor_step R U b c (fst (move_to_paragraph_end R b c style))"
| "cursor_step R U b c (fst (move_to_first_non_blank R b c))"
| "cursor_step R U b c (fst (move_to_last_non_blank R b c))"
| "cursor_step R U b c (fst (move_to_matching_pair R b c opener closer))"

lemmas cursor_motion_defs =
  move_to_previous_scalar_def move_to_next_scalar_def move_to_document_start_def
  move_to_document_end_def move_to_line_start_def move_to_line_end_def
  move_to_line_preserving_scalar_column_def move_to_previous_line_def move_to_next_line_def
  move_to_next_word_start_def move_to_prev_word_start_def move_to_next_word_end_def
  move_to_prev_word_end_def move_to_next_sub_word_start_def move_to_prev_sub_word_start_def
  move_to_next_paragraph_def move_to_prev_paragraph_def move_to_paragraph_end_def
  move_to_first_non_blank_def move_to_last_non_blank_def move_to_matching_pair_def

section \<open>Selections\<close>

record selection =
  sel_anchor :: nat
  sel_cursor :: cursor_state

definition selection_new :: "nat \<Rightarrow> nat \<Rightarrow> selection" where
  "selection_new anchor focus = \<lparr>sel_anchor = anchor, sel_cursor = cursor_new focus\<rparr>"

definition selection_collapsed :: "nat \<Rightarrow> selection" where
  "selection_collapsed focus = selection_new focus focus"

definition sel_focus :: "selection \<Rightarrow> nat" where
  "sel_focus s = cs_caret (sel_cursor s)"

definition sel_is_collapsed :: "selection \<Rightarrow> bool" where
  "sel_is_collapsed s \<longleftrightarrow> sel_anchor s = cs_caret (sel_cursor s)"

definition sel_set_focus :: "selection \<Rightarrow> nat \<Rightarrow> selection" where
  "sel_set_focus s focus = s\<lparr>sel_cursor := set_caret (sel_cursor s) focus\<rparr>"

definition sel_set_anchor :: "selection \<Rightarrow> nat \<Rightarrow> selection" where
  "sel_set_anchor s anchor = s\<lparr>sel_anchor := anchor\<rparr>"

definition normalized_range :: "selection \<Rightarrow> nat \<times> nat" where
  "normalized_range s = (min (sel_anchor s) (sel_focus s), max (sel_anchor s) (sel_focus s))"

record selection_state =
  ss_selections :: "selection list"
  ss_primary :: nat

definition selection_default :: selection_state where
  "selection_default = \<lparr>ss_selections = [selection_new 0 0], ss_primary = 0\<rparr>"

text \<open>An index out of range panics; the invariant below excludes it.\<close>

definition primary :: "selection_state \<Rightarrow> selection" where
  "primary st = ss_selections st ! ss_primary st"

definition update_selection :: "selection_state \<Rightarrow> nat \<Rightarrow> (selection \<Rightarrow> selection) \<Rightarrow> selection_state" where
  "update_selection st i f = st\<lparr>ss_selections := (ss_selections st)[i := f (ss_selections st ! i)]\<rparr>"

definition has_selection :: "selection_state \<Rightarrow> bool" where
  "has_selection st \<longleftrightarrow> \<not> sel_is_collapsed (primary st)"

definition primary_range :: "selection_state \<Rightarrow> (nat \<times> nat) option" where
  "primary_range st =
     (case normalized_range (primary st) of (s, e) \<Rightarrow> if s < e then Some (s, e) else None)"

definition set_primary_focus :: "selection_state \<Rightarrow> nat \<Rightarrow> selection_state" where
  "set_primary_focus st focus = update_selection st (ss_primary st) (\<lambda>s. sel_set_focus s focus)"

definition collapse_primary :: "selection_state \<Rightarrow> selection_state" where
  "collapse_primary st =
     (let focus = sel_focus (primary st) in
      update_selection st (ss_primary st) (\<lambda>s. sel_set_anchor s focus))"

definition clamp_primary_anchor ::
  "'r rope_ops \<Rightarrow> 'r editor_buffer \<Rightarrow> selection_state \<Rightarrow> selection_state" where
  "clamp_primary_anchor R b st =
     (let anchor = clamp_byte_offset R b (sel_anchor (primary st)) in
      update_selection st (ss_primary st) (\<lambda>s. sel_set_anchor s anchor))"

definition push_and_make_primary :: "selection_state \<Rightarrow> selection \<Rightarrow> selection_state" where
  "push_and_make_primary st s =
     (let st = st\<lparr>ss_selections := ss_selections st @ [s]\<rparr> in
      st\<lparr>ss_primary := length (ss_selections st) - 1\<rparr>)"

definition push_selection :: "selection_state \<Rightarrow> selection \<Rightarrow> selection_state" where
  "push_selection st s = st\<lparr>ss_selections := ss_selections st @ [s]\<rparr>"

definition set_selections ::
  "selection_state \<Rightarrow> selection list \<Rightarrow> nat \<Rightarrow> selection_state \<times> bool" where
  "set_selections st selections new_primary =
     (if selections = [] then (st, False)
      else (st\<lparr>ss_selections := selections, ss_primary := min new_primary (length selections - 1)\<rparr>,
            True))"

definition keep_only_primary :: "selection_state \<Rightarrow> selection_state" where
  "keep_only_primary st =
     (let kept = primary st in st\<lparr>ss_selections := [kept], ss_primary := 0\<rparr>)"

definition remove_primary :: "selection_state \<Rightarrow> selection_state" where
  "remove_primary st =
     (if length (ss_selections st) \<le> 1 then st
      else
        let st = st\<lparr>ss_selections := remove_at (ss_primary st) (ss_selections st)\<rparr> in
        st\<lparr>ss_primary := min (ss_primary st) (length (ss_selections st) - 1)\<rparr>)"

definition clamp_to :: "'r rope_ops \<Rightarrow> 'r editor_buffer \<Rightarrow> selection_state \<Rightarrow> selection_state" where
  "clamp_to R b st =
     st\<lparr>ss_selections := map (\<lambda>s.
       let focus = clamp_byte_offset R b (sel_focus s);
           anchor = clamp_byte_offset R b (sel_anchor s) in
       sel_set_anchor (sel_set_focus s focus) anchor) (ss_selections st)\<rparr>"

text \<open>Any method of the selection set.\<close>

inductive selection_step ::
  "'r rope_ops \<Rightarrow> unicode_tables \<Rightarrow> 'r editor_buffer \<Rightarrow> selection_state \<Rightarrow> selection_state \<Rightarrow> bool"
  for R U b st where
  "selection_step R U b st (set_primary_focus st focus)"
| "selection_step R U b st (collapse_primary st)"
| "selection_step R U b st (clamp_primary_anchor R b st)"
| "selection_step R U b st (push_and_make_primary st s)"
| "selection_step R U b st (push_selection st s)"
| "selection_step R U b st (fst (set_selections st selections new_primary))"
| "selection_step R U b st (keep_only_primary st)"
| "selection_step R U b st (remove_primary st)"
| "selection_step R U b st (clamp_to R b st)"
| "i < length (ss_selections st) \<Longrightarrow> cursor_step R U b (sel_cursor (ss_selections st ! i)) c \<Longrightarrow>
   selection_step R U b st (update_selection st i (\<lambda>s. s\<lparr>sel_cursor := c\<rparr>))"

section \<open>The set is never empty\<close>

definition selection_inv :: "selection_state \<Rightarrow> bool" where
  "selection_inv st \<longleftrightarrow> ss_selections st \<noteq> [] \<and> ss_primary st < length (ss_selections st)"

lemma selection_inv_default: "selection_inv selection_default"
  by (simp add: selection_inv_def selection_default_def)

lemma selection_step_inv: "selection_step R U b st st' \<Longrightarrow> selection_inv st \<Longrightarrow> selection_inv st'"
  by (induction rule: selection_step.induct)
    (auto simp: selection_inv_def set_primary_focus_def collapse_primary_def clamp_primary_anchor_def
      push_and_make_primary_def push_selection_def set_selections_def keep_only_primary_def
      remove_primary_def clamp_to_def update_selection_def Let_def remove_at_def)

definition selection_reachable ::
  "'r rope_ops \<Rightarrow> unicode_tables \<Rightarrow> 'r editor_buffer \<Rightarrow> selection_state \<Rightarrow> bool" where
  "selection_reachable R U b st \<longleftrightarrow> (selection_step R U b)\<^sup>*\<^sup>* selection_default st"

lemma selection_reachable_inv: "selection_reachable R U b st \<Longrightarrow> selection_inv st"
  unfolding selection_reachable_def
  by (induction rule: rtranclp_induct) (auto intro: selection_inv_default selection_step_inv)

section \<open>The caret stays on a boundary\<close>

definition caret_ok :: "'r rope_ops \<Rightarrow> 'r editor_buffer \<Rightarrow> cursor_state \<Rightarrow> bool" where
  "caret_ok R b c \<longleftrightarrow> is_boundary (buffer_string R b) (cs_caret c)"

context crop_rope begin

lemma cursor_move_to_ok: "caret_ok R b (fst (cursor_move_to R b c n))"
  by (simp add: caret_ok_def cursor_move_to_def set_caret_def clear_preferred_x_def
      clamp_byte_offset_eq Let_def)

lemma cursor_step_ok: "cursor_step R U b c c' \<Longrightarrow> caret_ok R b c \<Longrightarrow> caret_ok R b c'"
proof (induction rule: cursor_step.induct)
  case 1
  then show ?case
    by (auto simp: move_to_previous_scalar_def cursor_move_to_ok split: option.splits)
      (simp add: caret_ok_def set_caret_def clear_preferred_x_def)
next
  case 2
  then show ?case
    by (auto simp: move_to_next_scalar_def cursor_move_to_ok split: option.splits)
      (simp add: caret_ok_def set_caret_def clear_preferred_x_def document_end_byte_def
        buffer_string_def)
qed (auto simp: cursor_motion_defs cursor_move_to_ok Let_def split: option.splits)

text \<open>A motion returns whether the caret changed, except a scalar step at an end of the text.\<close>

lemma cursor_move_to_changed: "snd (cursor_move_to R b c n) = (cs_caret (fst (cursor_move_to R b c n)) \<noteq> cs_caret c)"
  by (simp add: cursor_move_to_def Let_def)

lemma clamp_to_ok:
  "s \<in> set (ss_selections (clamp_to R b st)) \<Longrightarrow>
   is_boundary (buffer_string R b) (sel_anchor s) \<and> is_boundary (buffer_string R b) (sel_focus s)"
  by (auto simp: clamp_to_def sel_set_anchor_def sel_set_focus_def sel_focus_def set_caret_def
      clear_preferred_x_def clamp_byte_offset_eq Let_def)

end

end
