(* ===== verification/Editor_Properties.thy ===== *)
theory Editor_Properties imports Cursor_Selection begin

text \<open>
  The properties of the client's buffer, its caret motions, the cursor and the selection set.
  They rest on the laws of the rope and have witnesses on the list rope; \<open>sample_buffer\<close> is a
  text with a two-byte scalar, two line breaks and a bracket pair.
\<close>

definition sample_buffer :: "ustr editor_buffer" where
  "sample_buffer = \<lparr>eb_rope = [40, 233, 41, 32, 10, 97, 98, 13, 10], eb_revision = 0\<rparr>"

lemma sample_buffer_string [simp]:
  "buffer_string list_rope sample_buffer = [40, 233, 41, 32, 10, 97, 98, 13, 10]"
  by (simp add: sample_buffer_def buffer_string_def)

lemma sample_buffer_fits: "buffer_fits list_rope sample_buffer"
  by (simp add: buffer_fits_def len_utf8_def u64_max_def)

section \<open>Edits\<close>

text \<open>
  the buffer's edits are total. At any offsets at all, inside a scalar or past the end,
  inserting, replacing and deleting an ordered range change the text by exactly one splice at
  the offsets rounded down to scalar boundaries, and the caret they return is a boundary of the
  new text, just behind the inserted text.
\<close>

theorem buffer_edits_are_splices:
  assumes "crop_rope R" and "a \<le> c"
    and "insert_at R b a s = (b1, r1)" and "replace_range R b a c s = (b2, r2)"
    and "delete_range R b a c = (b3, r3)"
  shows "let t = buffer_string R b; x = floor_boundary t a; y = floor_boundary t c in
         buffer_string R b1 = text_splice t x x s \<and> er_caret r1 = x + byte_len s
         \<and> buffer_string R b2 = text_splice t x y s \<and> er_caret r2 = x + byte_len s
         \<and> buffer_string R b3 = text_splice t x y [] \<and> er_caret r3 = x
         \<and> is_boundary (buffer_string R b1) (er_caret r1)
         \<and> is_boundary (buffer_string R b2) (er_caret r2)
         \<and> is_boundary (buffer_string R b3) (er_caret r3)"
proof -
  let ?t = "buffer_string R b"
  let ?x = "floor_boundary ?t a" and ?y = "floor_boundary ?t c"
  have "is_boundary (text_splice ?t ?x e u) (?x + byte_len u)" if "e \<in> {?x, ?y}" for e u
    using text_splice_boundaries(2)[of ?t ?x e u] that assms(2) by (auto simp: floor_boundary_mono)
  from this[of ?x s] this[of ?y s] this[of ?y "[]"] show ?thesis
    using crop_rope.insert_at_effect[OF assms(1,3)] crop_rope.replace_range_effect[OF assms(1,4,2)]
      crop_rope.delete_range_effect[OF assms(1,5,2)]
    by (simp add: Let_def)
qed

theorem buffer_edits_are_splices_witness:
  "buffer_string list_rope (fst (replace_range list_rope sample_buffer 2 4 [120]))
     = text_splice [40, 233, 41, 32, 10, 97, 98, 13, 10] 1 4 [120]"
proof -
  obtain b1 r1 b2 r2 b3 r3 where
    "insert_at list_rope sample_buffer 2 [120] = (b1, r1)"
    "replace_range list_rope sample_buffer 2 4 [120] = (b2, r2)"
    "delete_range list_rope sample_buffer 2 4 = (b3, r3)"
    by (metis surj_pair)
  moreover have "floor_boundary [40, 233, 41, 32, 10, 97, 98, 13, 10] 2 = 1"
    "floor_boundary [40, 233, 41, 32, 10, 97, 98, 13, 10] 4 = 4"
    by (simp_all add: floor_boundary_def len_utf8_def)
  ultimately show ?thesis
    using buffer_edits_are_splices[OF list_rope_laws, of 2 4 sample_buffer "[120]" b1 r1 b2 r2 b3 r3]
    by (simp add: Let_def)
qed

text \<open>
  Scalar steps are inverse. From a boundary that is not the end, the next boundary lies
  behind it and stepping back from there returns to it; deleting forward from the one and
  backspacing at the other remove the same single scalar and leave the caret at the first.
\<close>

theorem scalar_steps_inverse:
  assumes "crop_rope R" and "is_boundary (buffer_string R b) n" and "n < byte_len (buffer_string R b)"
  shows "\<exists>m. next_scalar_boundary R b n = Some m \<and> n < m
           \<and> previous_scalar_boundary R b m = Some n
           \<and> length (text_slice (buffer_string R b) n m) = 1
           \<and> buffer_string R (fst (delete_after R b n)) = text_splice (buffer_string R b) n m []
           \<and> backspace_at R b m = delete_after R b n
           \<and> er_caret (snd (backspace_at R b m)) = n"
  by (rule crop_rope.scalar_step[OF assms]) simp

theorem scalar_steps_inverse_witness:
  "\<exists>m. next_scalar_boundary list_rope sample_buffer 1 = Some m
     \<and> previous_scalar_boundary list_rope sample_buffer m = Some 1"
proof -
  have "is_boundary (buffer_string list_rope sample_buffer) 1"
    "1 < byte_len (buffer_string list_rope sample_buffer)"
    by (simp_all add: len_utf8_def)
  from scalar_steps_inverse[OF list_rope_laws this] show ?thesis by blast
qed

section \<open>Lines\<close>

text \<open>
  the line around a boundary. The text from the start of the line to the start of the next
  line is the line's content followed by nothing, LF or CRLF; \<open>line_end_byte\<close> is the end of the
  content, which has no LF, and whose last scalar is no CR when the line break is a plain LF.
\<close>

theorem line_end_excludes_break:
  assumes "crop_rope R" and "buffer_fits R b" and "is_boundary (buffer_string R b) n"
  shows "\<exists>u x y q. buffer_string R b = u @ x @ y @ q
           \<and> line_start_byte R b n = byte_len u
           \<and> line_end_byte R b n = byte_len u + byte_len x
           \<and> byte_of_line R b (Suc (line_of_byte R b n)) = byte_len u + byte_len x + byte_len y
           \<and> y \<in> {[], [newline], [carriage_return, newline]} \<and> newline \<notin> set x
           \<and> (y = [newline] \<longrightarrow> x = [] \<or> last x \<noteq> carriage_return) \<and> (y = [] \<longrightarrow> q = [])
           \<and> byte_len u \<le> n \<and> n \<le> byte_len u + byte_len x + byte_len y"
  by (rule crop_rope.line_end_parts[OF assms]) blast

theorem line_end_excludes_break_witness:
  "\<exists>u x y. line_start_byte list_rope sample_buffer 7 = byte_len u
     \<and> line_end_byte list_rope sample_buffer 7 = byte_len u + byte_len x
     \<and> y \<in> {[], [newline], [carriage_return, newline]}"
proof -
  have "is_boundary (buffer_string list_rope sample_buffer) 7" by (simp add: len_utf8_def)
  from line_end_excludes_break[OF list_rope_laws sample_buffer_fits this] show ?thesis by blast
qed

text \<open>
  A scalar column names one place of its line. From a boundary that is not behind the
  content of its line, taking the line and the scalar column and asking for the byte at that
  line and column gives the boundary back.
\<close>

theorem scalar_column_restores_offset:
  assumes "crop_rope R" and "buffer_fits R b" and "is_boundary (buffer_string R b) n"
    and "n \<le> line_end_byte R b n" and "line_of_byte R b n < line_len R b"
  shows "byte_for_line_scalar_column R b (line_of_byte R b n) (scalar_column_of_byte R b n) = n"
  by (rule crop_rope.scalar_column_roundtrip[OF assms])

lemma sample_line_facts:
  "7 \<le> line_end_byte list_rope sample_buffer 7"
  "line_of_byte list_rope sample_buffer 7 < line_len list_rope sample_buffer"
  by (simp_all add: line_end_byte_def line_end_byte_for_line_def list_rope.line_of_byte_eq
      list_rope.line_len_eq list_rope.byte_of_line_eq text_line_len_def text_line_of_byte_def
      sat_add_def u64_max_def len_utf8_def Let_def)
    (simp add: sample_buffer_def text_slice_def len_utf8_def)

theorem scalar_column_restores_offset_witness:
  "byte_for_line_scalar_column list_rope sample_buffer (line_of_byte list_rope sample_buffer 7)
     (scalar_column_of_byte list_rope sample_buffer 7) = 7"
proof -
  have "is_boundary (buffer_string list_rope sample_buffer) 7" by (simp add: len_utf8_def)
  from scalar_column_restores_offset[OF list_rope_laws sample_buffer_fits this sample_line_facts]
  show ?thesis .
qed

text \<open>
  What the editor paints is what the buffer holds. For every requested line range the
  snapshot is the range clipped to the document, with exactly the text from the start of its
  first line to the start of the line after its last, and the byte offset where that text
  begins.
\<close>

theorem visible_snapshot_exact:
  assumes "crop_rope R"
  shows "visible_snapshot_of R b first limit =
     (let t = buffer_string R b; s = min first (text_line_len t); e = max (min limit (text_line_len t)) s in
      \<lparr>vs_text = text_slice t (text_byte_of_line t s) (text_byte_of_line t e),
       vs_line_start = s, vs_line_end = e, vs_start_byte_offset = text_byte_of_line t s\<rparr>)"
  by (rule crop_rope.visible_snapshot_eq[OF assms])

theorem visible_snapshot_exact_witness:
  "vs_text (visible_snapshot_of list_rope sample_buffer 1 9) = [97, 98, 13, 10]"
  unfolding visible_snapshot_exact[OF list_rope_laws]
  by (simp add: Let_def text_line_len_def text_slice_def len_utf8_def)

section \<open>Words and brackets\<close>

text \<open>
  the word motions are the obvious ones. Forward to the next word start skips the rest of
  the word and then the separators; forward to the word end skips separators, if the caret is on
  one, and then the word; backward to the word start skips separators and then the word; the
  word around the caret is the run of word characters on both sides. They return nothing exactly
  when no word is left, and the loops of the last one stop before their fuel is used up.
\<close>

theorem word_motions_equal_drops:
  assumes "crop_rope R"
  shows "let t = buffer_string R b; before = rev (take (char_index t n) t); rest = drop (char_index t n) t;
             seps = dropWhile (\<lambda>c. \<not> word c) in
     next_word_start R b n word = offset_of (byte_len t) (seps (dropWhile word rest))
     \<and> next_word_end R b n word False =
         (let s = (if rest \<noteq> [] \<and> word (hd rest) then rest else seps rest) in
          if s = [] then None else Some (byte_len t - byte_len (dropWhile word s)))
     \<and> prev_word_start R b n word =
         (if seps before = [] then None else Some (byte_len (dropWhile word (seps before))))
     \<and> word_range_at R b n word =
         Some (if rest = [] \<or> \<not> word (hd rest) then None
               else Some (byte_len (dropWhile word before),
                          byte_len t - byte_len (dropWhile word rest)))"
  using crop_rope.next_word_start_eq[OF assms] crop_rope.next_word_end_eq[OF assms]
    crop_rope.prev_word_start_eq[OF assms] crop_rope.word_range_at_eq[OF assms]
  by (simp add: Let_def)

definition sample_word :: "uchar \<Rightarrow> bool" where
  "sample_word c \<longleftrightarrow> 97 \<le> c"

theorem word_motions_equal_drops_witness:
  "next_word_start list_rope sample_buffer 1 sample_word = Some 6"
proof -
  let ?t = "buffer_string list_rope sample_buffer"
  have "next_word_start list_rope sample_buffer 1 sample_word
      = offset_of (byte_len ?t) (dropWhile (\<lambda>c. \<not> sample_word c)
          (dropWhile sample_word (drop (char_index ?t 1) ?t)))"
    using word_motions_equal_drops[OF list_rope_laws, of sample_buffer 1 sample_word]
    unfolding Let_def by (rule conjunct1)
  also have "\<dots> = Some 6"
    by (simp add: offset_of_def sample_word_def len_utf8_def)
  finally show ?thesis .
qed

text \<open>
  Backward to the previous word end. The motion skips the word before the caret, if any, and
  the separators before it, and returns nothing when no word is left; otherwise it returns the
  end of that word plus the length of the separator nearest to the caret, because the first loop
  consumes that separator without subtracting its length.
\<close>

theorem prev_word_end_overshoots:
  assumes "crop_rope R"
  shows "let t = buffer_string R b; seps = dropWhile word (rev (take (char_index t n) t));
             before = dropWhile (\<lambda>c. \<not> word c) seps in
     prev_word_end R b n word =
       (if before = [] then None else Some (byte_len before + len_utf8 (hd seps)))"
  using crop_rope.prev_word_end_eq[OF assms] by (simp add: Let_def)

theorem prev_word_end_overshoots_witness:
  "prev_word_end list_rope \<lparr>eb_rope = [97, 98, 32, 99, 100], eb_revision = 0\<rparr> 5 sample_word = Some 3"
  using prev_word_end_overshoots[OF list_rope_laws,
      of "\<lparr>eb_rope = [97, 98, 32, 99, 100], eb_revision = 0\<rparr>" sample_word 5]
  by (simp add: buffer_string_def sample_word_def len_utf8_def)

text \<open>
  matching brackets are partners. With the caret on an opening bracket of two distinct
  characters, the match lies behind it, is a closing bracket, and the match of that one is the
  opening bracket again; and the same from a closing bracket backward.
\<close>

theorem matching_pairs_are_partners:
  assumes "crop_rope R" and "opener \<noteq> closer" and "is_boundary (buffer_string R b) n"
    and "matching_pair_byte R b n opener closer = Some m"
  shows "(char_at R b n = Some opener \<longrightarrow>
            n < m \<and> char_at R b m = Some closer \<and> matching_pair_byte R b m opener closer = Some n)
       \<and> (char_at R b n = Some closer \<longrightarrow>
            m < n \<and> char_at R b m = Some opener \<and> matching_pair_byte R b m opener closer = Some n)"
  using crop_rope.matching_pair_partner[OF assms(1,2,3) _ assms(4)]
    crop_rope.matching_pair_partner_back[OF assms(1,2,3) _ assms(4)] by blast

lemma sample_pair: "matching_pair_byte list_rope sample_buffer 0 40 41 = Some 3"
proof -
  have "char_at list_rope sample_buffer 0 = Some 40" by (simp add: list_rope.char_at_eq)
  then show ?thesis
    by (simp add: matching_pair_byte_def pair_anchor_def list_rope.clamp_byte_offset_eq Let_def)
      (simp add: sample_buffer_def text_slice_def len_utf8_def)
qed

theorem matching_pairs_are_partners_witness:
  "matching_pair_byte list_rope sample_buffer 3 40 41 = Some 0"
proof -
  have "is_boundary (buffer_string list_rope sample_buffer) 0" "char_at list_rope sample_buffer 0 = Some 40"
    by (simp_all add: list_rope.char_at_eq)
  then show ?thesis
    using matching_pairs_are_partners[OF list_rope_laws _ _ sample_pair] by simp
qed

section \<open>Paragraphs\<close>

text \<open>
  The paragraph motions. The next paragraph is the start of the first blank line below the
  caret's line and the previous one the start of the nearest blank line above it, and they are
  missing only when there is no such line; the paragraph range goes from the caret's line, which
  may itself be blank, over all the non-blank lines directly above and below it and stops at a
  blank line or at an end of the document.
\<close>

theorem paragraph_motions_exact:
  shows "(case next_paragraph R b n style of
            None \<Rightarrow> \<forall>l. line_of_byte R b (clamp_byte_offset R b n) < l \<longrightarrow> l < line_len R b
                      \<longrightarrow> \<not> is_blank_line R b style l
          | Some m \<Rightarrow> \<exists>l. line_of_byte R b (clamp_byte_offset R b n) < l \<and> l < line_len R b
                      \<and> m = byte_of_line R b l \<and> is_blank_line R b style l
                      \<and> (\<forall>k. line_of_byte R b (clamp_byte_offset R b n) < k \<longrightarrow> k < l
                            \<longrightarrow> \<not> is_blank_line R b style k))
       \<and> (case prev_paragraph R b n style of
            None \<Rightarrow> \<forall>l < line_of_byte R b (clamp_byte_offset R b n). \<not> is_blank_line R b style l
          | Some m \<Rightarrow> \<exists>l < line_of_byte R b (clamp_byte_offset R b n).
                      m = byte_of_line R b l \<and> is_blank_line R b style l
                      \<and> (\<forall>k. l < k \<longrightarrow> k < line_of_byte R b (clamp_byte_offset R b n)
                            \<longrightarrow> \<not> is_blank_line R b style k))
       \<and> (\<exists>s e. paragraph_range R b n style = (byte_of_line R b s, line_end_byte_for_line R b e)
            \<and> s \<le> line_of_byte R b n \<and> line_of_byte R b n \<le> e
            \<and> (\<forall>l. s \<le> l \<longrightarrow> l \<le> e \<longrightarrow> l \<noteq> line_of_byte R b n \<longrightarrow> \<not> is_blank_line R b style l)
            \<and> (s = 0 \<or> is_blank_line R b style (s - 1))
            \<and> (line_len R b \<le> e + 1 \<or> is_blank_line R b style (e + 1)))"
proof (intro conjI, goal_cases)
  case 1
  let ?l = "line_of_byte R b (clamp_byte_offset R b n)"
  have "?l + 1 \<le> scan_lines (is_blank_line R b style) (line_len R b) (?l + 1)"
    using scan_lines_spec[of "?l + 1"] by blast
  then show ?case
    using scan_lines_spec[of "?l + 1" "is_blank_line R b style" "line_len R b"]
    by (auto simp: next_paragraph_def Let_def Suc_le_eq)
next
  case 2
  show ?case
    using scan_lines_down_spec[where p = "is_blank_line R b style"
        and n = "line_of_byte R b (clamp_byte_offset R b n)"]
    by (auto simp: prev_paragraph_def Let_def split: option.splits)
next
  case 3
  let ?p = "\<lambda>l. \<not> is_blank_line R b style l" and ?l = "line_of_byte R b n"
  define s e where "s = extend_lines_up ?p ?l" and "e = extend_lines_down ?p (line_len R b) ?l"
  have s: "s \<le> ?l" "\<forall>l. s \<le> l \<longrightarrow> l < ?l \<longrightarrow> ?p l" "s = 0 \<or> is_blank_line R b style (s - 1)"
    using extend_lines_up_spec[where p = ?p and n = ?l] by (simp_all add: s_def)
  have e: "?l \<le> e" "\<forall>l. ?l < l \<longrightarrow> l \<le> e \<longrightarrow> ?p l"
    "line_len R b \<le> e + 1 \<or> is_blank_line R b style (e + 1)"
    using extend_lines_down_spec[where p = ?p and line = ?l and count = "line_len R b"]
    by (simp_all add: e_def)
  have "paragraph_range R b n style = (byte_of_line R b s, line_end_byte_for_line R b e)"
    by (simp add: paragraph_range_def Let_def s_def e_def)
  moreover have "\<forall>l. s \<le> l \<longrightarrow> l \<le> e \<longrightarrow> l \<noteq> ?l \<longrightarrow> ?p l"
    using s(2) e(2) by (metis linorder_neqE_nat)
  ultimately show ?case using s(1,3) e(1,3) by blast
qed

definition three_lines :: "ustr editor_buffer" where
  "three_lines = \<lparr>eb_rope = [97, 10, 10, 98], eb_revision = 0\<rparr>"

lemma three_lines_string [simp]: "buffer_string list_rope three_lines = [97, 10, 10, 98]"
  by (simp add: three_lines_def buffer_string_def)

lemma three_lines_facts:
  "line_of_byte list_rope three_lines 2 = 1" "line_len list_rope three_lines = 3"
  "is_blank_line list_rope three_lines BlankLine 1" "\<not> is_blank_line list_rope three_lines BlankLine 0"
  by (simp_all add: list_rope.line_of_byte_eq list_rope.line_len_eq text_line_of_byte_def
      text_line_len_def is_blank_line_def line_content_def list_rope.byte_of_line_eq
      trim_line_break_def len_utf8_def)
    (simp_all add: three_lines_def text_slice_def len_utf8_def)

theorem paragraph_motions_exact_witness:
  "is_blank_line list_rope three_lines BlankLine (line_of_byte list_rope three_lines 2)
   \<and> fst (paragraph_range list_rope three_lines 2 BlankLine) = 0"
proof -
  obtain s e where "paragraph_range list_rope three_lines 2 BlankLine
      = (byte_of_line list_rope three_lines s, line_end_byte_for_line list_rope three_lines e)"
    "s \<le> 1" "s = 0 \<or> is_blank_line list_rope three_lines BlankLine (s - 1)"
    using paragraph_motions_exact[of list_rope three_lines 2 BlankLine]
    unfolding three_lines_facts(1) by blast
  then show ?thesis
    using three_lines_facts by (cases s) (auto simp: list_rope.byte_of_line_eq)
qed

section \<open>Cursor and selections\<close>

text \<open>
  The caret never leaves the scalar boundaries. Every method of the cursor, from a caret on
  a boundary of the buffer's text, leaves the caret on a boundary, and so does any sequence of
  them.
\<close>

theorem cursor_stays_on_boundary:
  assumes "crop_rope R" and "(cursor_step R U b)\<^sup>*\<^sup>* c c'"
    and "is_boundary (buffer_string R b) (cs_caret c)"
  shows "is_boundary (buffer_string R b) (cs_caret c')"
  using assms(2,3)
  by (induction rule: rtranclp_induct)
    (use crop_rope.cursor_step_ok[OF assms(1)] in \<open>auto simp: caret_ok_def\<close>)

theorem cursor_stays_on_boundary_witness:
  "is_boundary (buffer_string list_rope sample_buffer)
     (cs_caret (fst (move_to_next_scalar list_rope sample_buffer (cursor_new 1))))"
proof -
  have "(cursor_step list_rope undefined sample_buffer)\<^sup>*\<^sup>* (cursor_new 1)
      (fst (move_to_next_scalar list_rope sample_buffer (cursor_new 1)))"
    by (intro r_into_rtranclp cursor_step.intros)
  from cursor_stays_on_boundary[OF list_rope_laws this] show ?thesis
    by (simp add: cursor_new_def len_utf8_def)
qed

text \<open>
  There is always a primary selection. Whatever methods are called on the selection set,
  including removing selections, restoring sets with any primary index and moving the carets,
  the set is never empty and the primary index stays inside it, so no indexing panics.
\<close>

theorem selection_set_never_empty:
  assumes "selection_reachable R U b st"
  shows "ss_selections st \<noteq> [] \<and> ss_primary st < length (ss_selections st)"
  using selection_reachable_inv[OF assms] by (simp add: selection_inv_def)

theorem selection_set_never_empty_witness:
  "ss_selections (remove_primary (push_and_make_primary selection_default (selection_collapsed 3))) \<noteq> []"
proof -
  have "selection_reachable list_rope undefined sample_buffer
      (remove_primary (push_and_make_primary selection_default (selection_collapsed 3)))"
    unfolding selection_reachable_def
    by (rule rtranclp_trans[OF r_into_rtranclp r_into_rtranclp]) (rule selection_step.intros)+
  from selection_set_never_empty[OF this] show ?thesis by blast
qed

text \<open>
  What becomes primary when the primary selection is removed. The other selections stay in
  order, and the new primary is the one that followed the removed selection, or the last one
  when the removed selection was the last; it is the first remaining one only when the removed
  selection was the first, or when only one remains.
\<close>

theorem removed_primary_successor:
  assumes "selection_inv st" and "1 < length (ss_selections st)"
  shows "ss_selections (remove_primary st)
           = take (ss_primary st) (ss_selections st) @ drop (Suc (ss_primary st)) (ss_selections st)
         \<and> primary (remove_primary st)
           = (if Suc (ss_primary st) < length (ss_selections st)
              then ss_selections st ! Suc (ss_primary st)
              else ss_selections st ! (ss_primary st - 1))"
proof (cases "Suc (ss_primary st) < length (ss_selections st)")
  case True
  then show ?thesis using assms(2)
    by (auto simp: remove_primary_def primary_def remove_at_def nth_append Let_def)
next
  case False
  then have "length (ss_selections st) = Suc (ss_primary st)"
    using assms(1) by (simp add: selection_inv_def)
  then show ?thesis using assms(2)
    by (auto simp: remove_primary_def primary_def remove_at_def nth_append Let_def)
qed

theorem removed_primary_successor_witness:
  "primary (remove_primary \<lparr>ss_selections = [selection_collapsed 0, selection_collapsed 1,
       selection_collapsed 2], ss_primary = 1\<rparr>) = selection_collapsed 2"
proof -
  have "selection_inv \<lparr>ss_selections = [selection_collapsed 0, selection_collapsed 1,
       selection_collapsed 2], ss_primary = 1\<rparr>"
    by (simp add: selection_inv_def)
  from removed_primary_successor[OF this] show ?thesis by simp
qed

end
