(* ===== verification/Edit_History.thy ===== *)
theory Edit_History imports Edit_Protocol begin

text \<open>
  The client's undo and redo stacks (\<open>editor/history.rs\<close>). The two \<open>VecDeque\<close>s are lists with
  the back of the deque as the last element: \<open>push_back\<close> appends, \<open>pop_front\<close> drops the first
  entry. The lemmas show that inverting an operation undoes it on the text, that undo and redo
  are inverse to each other, and that the stacks and the payloads they keep stay bounded.
\<close>

section \<open>Entries\<close>

record history_selection =
  hs_caret :: nat
  hs_anchor :: "nat option"

record history_entry =
  he_forward :: edit_operation
  he_inverse :: edit_operation
  he_selection_before :: history_selection
  he_selection_after :: history_selection
  he_forward_ops :: "edit_operation list"
  he_inverse_ops :: "edit_operation list"
  he_selection_set_before :: "history_selection list"
  he_selection_set_after :: "history_selection list"
  he_primary_index :: nat

definition edit_history_max_depth :: nat where
  "edit_history_max_depth = 256"

definition edit_history_max_entry_bytes :: nat where
  "edit_history_max_entry_bytes = 64 * 1024"

definition history_collapsed :: "nat \<Rightarrow> history_selection" where
  "history_collapsed caret = \<lparr>hs_caret = caret, hs_anchor = None\<rparr>"

fun operation_text_bytes :: "edit_operation \<Rightarrow> nat" where
  "operation_text_bytes (Insert _ txt) = byte_len txt"
| "operation_text_bytes (Replace _ _ txt) = byte_len txt"
| "operation_text_bytes (Delete _ _) = 0"

definition entry_payload_bytes :: "history_entry \<Rightarrow> nat" where
  "entry_payload_bytes entry =
     sat_add (sat_add (sat_add (operation_text_bytes (he_forward entry))
                               (operation_text_bytes (he_inverse entry)))
                      (sum_list (map operation_text_bytes (he_forward_ops entry))))
             (sum_list (map operation_text_bytes (he_inverse_ops entry)))"

definition entry_is_multi :: "history_entry \<Rightarrow> bool" where
  "entry_is_multi entry \<longleftrightarrow> he_forward_ops entry \<noteq> []"

text \<open>\<open>prior\<close> is the text the forward operation removes.\<close>

fun invert_edit_operation :: "edit_operation \<Rightarrow> ustr \<Rightarrow> edit_operation" where
  "invert_edit_operation (Insert byte_offset txt) prior =
     Delete byte_offset (sat_add byte_offset (byte_len txt))"
| "invert_edit_operation (Delete s e) prior = Insert s prior"
| "invert_edit_operation (Replace s e txt) prior = Replace s (sat_add s (byte_len txt)) prior"

section \<open>Stacks\<close>

record edit_history =
  eh_undo :: "history_entry list"
  eh_redo :: "history_entry list"

definition history_new :: edit_history where
  "history_new = \<lparr>eh_undo = [], eh_redo = []\<rparr>"

definition history_clear :: "edit_history \<Rightarrow> edit_history" where
  "history_clear h = h\<lparr>eh_undo := [], eh_redo := []\<rparr>"

definition can_undo :: "edit_history \<Rightarrow> bool" where
  "can_undo h \<longleftrightarrow> eh_undo h \<noteq> []"

definition can_redo :: "edit_history \<Rightarrow> bool" where
  "can_redo h \<longleftrightarrow> eh_redo h \<noteq> []"

text \<open>The loop \<open>while len > MAX { pop_front() }\<close>.\<close>

function trim_front :: "'a list \<Rightarrow> 'a list" where
  "trim_front xs = (if length xs > edit_history_max_depth then trim_front (tl xs) else xs)"
  by pat_completeness auto
termination by (relation "measure length") (auto simp: edit_history_max_depth_def)

declare trim_front.simps [simp del]

definition history_record :: "edit_history \<Rightarrow> history_entry \<Rightarrow> edit_history" where
  "history_record h entry =
     (let h = h\<lparr>eh_redo := []\<rparr> in
      if entry_payload_bytes entry > edit_history_max_entry_bytes then history_clear h
      else h\<lparr>eh_undo := trim_front (eh_undo h @ [entry])\<rparr>)"

definition history_undo :: "edit_history \<Rightarrow> edit_history \<times> history_entry option" where
  "history_undo h =
     (if eh_undo h = [] then (h, None)
      else
        let entry = last (eh_undo h); h = h\<lparr>eh_undo := butlast (eh_undo h)\<rparr> in
        (h\<lparr>eh_redo := trim_front (eh_redo h @ [entry])\<rparr>, Some entry))"

definition history_redo :: "edit_history \<Rightarrow> edit_history \<times> history_entry option" where
  "history_redo h =
     (if eh_redo h = [] then (h, None)
      else
        let entry = last (eh_redo h); h = h\<lparr>eh_redo := butlast (eh_redo h)\<rparr> in
        (h\<lparr>eh_undo := trim_front (eh_undo h @ [entry])\<rparr>, Some entry))"

section \<open>Bounds\<close>

lemma trim_front_drop: "trim_front xs = drop (length xs - edit_history_max_depth) xs"
proof (induction xs)
  case Nil
  then show ?case by (subst trim_front.simps) simp
next
  case (Cons x xs)
  then show ?case
    by (subst trim_front.simps) (auto simp: Suc_diff_le drop_Cons' not_less)
qed

lemma trim_front_short: "length xs \<le> edit_history_max_depth \<Longrightarrow> trim_front xs = xs"
  by (simp add: trim_front_drop)

lemma length_trim_front [simp]: "length (trim_front xs) = min (length xs) edit_history_max_depth"
  by (simp add: trim_front_drop)

lemma set_trim_front: "set (trim_front xs) \<subseteq> set xs"
  by (simp add: trim_front_drop set_drop_subset)

text \<open>
  The two stacks together hold at most the maximal depth, since only \<open>record\<close> adds an entry and
  it clears the redo stack; every entry kept fits the payload limit.
\<close>

definition history_inv :: "edit_history \<Rightarrow> bool" where
  "history_inv h \<longleftrightarrow>
     length (eh_undo h) + length (eh_redo h) \<le> edit_history_max_depth
     \<and> (\<forall>e\<in>set (eh_undo h) \<union> set (eh_redo h). entry_payload_bytes e \<le> edit_history_max_entry_bytes)"

inductive history_reachable :: "edit_history \<Rightarrow> bool" where
  fresh: "history_reachable history_new"
| cleared: "history_reachable h \<Longrightarrow> history_reachable (history_clear h)"
| recorded: "history_reachable h \<Longrightarrow> history_reachable (history_record h entry)"
| undone: "history_reachable h \<Longrightarrow> history_reachable (fst (history_undo h))"
| redone: "history_reachable h \<Longrightarrow> history_reachable (fst (history_redo h))"

lemma history_record_inv: "history_inv h \<Longrightarrow> history_inv (history_record h entry)"
  using set_trim_front[of "eh_undo h @ [entry]"]
  by (auto simp: history_inv_def history_record_def history_clear_def Let_def)

lemma history_undo_exact:
  assumes "history_inv h" "eh_undo h = us @ [entry]"
  shows "history_undo h = (\<lparr>eh_undo = us, eh_redo = eh_redo h @ [entry]\<rparr>, Some entry)"
  using assms by (simp add: history_undo_def history_inv_def trim_front_short)

lemma history_redo_exact:
  assumes "history_inv h" "eh_redo h = rs @ [entry]"
  shows "history_redo h = (\<lparr>eh_undo = eh_undo h @ [entry], eh_redo = rs\<rparr>, Some entry)"
  using assms by (simp add: history_redo_def history_inv_def trim_front_short)

lemma history_undo_inv: "history_inv h \<Longrightarrow> history_inv (fst (history_undo h))"
  by (cases "eh_undo h" rule: rev_cases)
    (auto simp: history_undo_exact, auto simp: history_undo_def history_inv_def)

lemma history_redo_inv: "history_inv h \<Longrightarrow> history_inv (fst (history_redo h))"
  by (cases "eh_redo h" rule: rev_cases)
    (auto simp: history_redo_exact, auto simp: history_redo_def history_inv_def)

lemma history_reachable_inv: "history_reachable h \<Longrightarrow> history_inv h"
proof (induction rule: history_reachable.induct)
  case fresh
  show ?case by (simp add: history_inv_def history_new_def)
next
  case (cleared h)
  then show ?case by (simp add: history_inv_def history_clear_def)
qed (rule history_record_inv history_undo_inv history_redo_inv, assumption)+

lemma trim_front_snoc: "\<exists>ys. trim_front (xs @ [x]) = ys @ [x]"
  by (auto simp: trim_front_drop edit_history_max_depth_def)

lemma undo_after_record:
  assumes "entry_payload_bytes entry \<le> edit_history_max_entry_bytes"
  shows "\<exists>h'. history_undo (history_record h entry) = (h', Some entry)"
  using trim_front_snoc[of "eh_undo h" entry] assms
  by (auto simp: history_record_def history_undo_def Let_def)

section \<open>Undo gives the text back\<close>

lemma invert_valid_op:
  assumes "valid_op t e" and "op_start e + byte_len (op_text e) \<le> u64_max"
  shows "valid_op (edited_text t e) (invert_edit_operation e (prior_text t e))
         \<and> edited_text (edited_text t e) (invert_edit_operation e (prior_text t e)) = t"
proof -
  note v = valid_opD[OF assms(1)]
  have b: "is_boundary (edited_text t e) (op_start e)"
    "is_boundary (edited_text t e) (op_start e + byte_len (op_text e))"
    using text_splice_boundaries[OF v(1,2,3)] by (simp_all add: edited_text_def)
  have i: "text_splice (edited_text t e) (op_start e) (op_start e + byte_len (op_text e))
      (prior_text t e) = t"
    using text_splice_inverse[OF v(1,2,3)] by (simp add: edited_text_def prior_text_def)
  show ?thesis
    using v b i assms(2)
    by (cases e) (auto simp: valid_op_def sat_add_exact edited_text_def prior_text_def)
qed

text \<open>
  A history fits a text when the undo stack leads back from it, edit by edit, and the redo stack
  leads forward. Both stacks are given newest first.
\<close>

definition entry_edits :: "ustr \<Rightarrow> history_entry \<Rightarrow> bool" where
  "entry_edits t entry \<longleftrightarrow>
     valid_op t (he_forward entry)
     \<and> op_start (he_forward entry) + byte_len (op_text (he_forward entry)) \<le> u64_max
     \<and> he_inverse entry = invert_edit_operation (he_forward entry) (prior_text t (he_forward entry))"

fun undo_chain :: "ustr \<Rightarrow> history_entry list \<Rightarrow> bool" where
  "undo_chain t [] = True"
| "undo_chain t (e # es) \<longleftrightarrow>
     (\<exists>t'. entry_edits t' e \<and> edited_text t' (he_forward e) = t \<and> undo_chain t' es)"

fun redo_chain :: "ustr \<Rightarrow> history_entry list \<Rightarrow> bool" where
  "redo_chain t [] = True"
| "redo_chain t (e # es) \<longleftrightarrow> entry_edits t e \<and> redo_chain (edited_text t (he_forward e)) es"

definition history_fits :: "ustr \<Rightarrow> edit_history \<Rightarrow> bool" where
  "history_fits t h \<longleftrightarrow> undo_chain t (rev (eh_undo h)) \<and> redo_chain t (rev (eh_redo h))"

lemma entry_edits_undone:
  "entry_edits t e \<Longrightarrow> edited_text (edited_text t (he_forward e)) (he_inverse e) = t"
  using invert_valid_op[of t "he_forward e"] by (simp add: entry_edits_def)

lemma undo_chain_take: "undo_chain t es \<Longrightarrow> undo_chain t (take n es)"
  by (induction t es arbitrary: n rule: undo_chain.induct) (auto simp: take_Cons')

lemma history_fits_record:
  assumes "history_fits t h" "entry_edits t e"
  shows "history_fits (edited_text t (he_forward e)) (history_record h e)"
proof (cases "entry_payload_bytes e > edit_history_max_entry_bytes")
  case True
  then show ?thesis by (simp add: history_fits_def history_record_def history_clear_def)
next
  case False
  have "undo_chain (edited_text t (he_forward e)) (rev (eh_undo h @ [e]))"
    using assms by (auto simp: history_fits_def)
  then have "undo_chain (edited_text t (he_forward e)) (rev (trim_front (eh_undo h @ [e])))"
    unfolding trim_front_drop rev_drop by (rule undo_chain_take)
  then show ?thesis using False by (simp add: history_fits_def history_record_def)
qed

lemma history_fits_undo:
  assumes "history_fits t h" "history_inv h" "history_undo h = (h', Some e)"
  shows "history_fits (edited_text t (he_inverse e)) h'
         \<and> edited_text (edited_text t (he_inverse e)) (he_forward e) = t"
proof -
  obtain us where us: "eh_undo h = us @ [e]" and h': "h' = \<lparr>eh_undo = us, eh_redo = eh_redo h @ [e]\<rparr>"
    using assms(2,3) by (cases "eh_undo h" rule: rev_cases)
      (auto simp: history_undo_exact, simp add: history_undo_def)
  obtain t' where t': "entry_edits t' e" "edited_text t' (he_forward e) = t" "undo_chain t' (rev us)"
    using assms(1) by (auto simp: history_fits_def us)
  have "edited_text t (he_inverse e) = t'" using entry_edits_undone[OF t'(1)] t'(2) by simp
  then show ?thesis using t' assms(1) by (simp add: history_fits_def h')
qed

lemma history_fits_redo:
  assumes "history_fits t h" "history_inv h" "history_redo h = (h', Some e)"
  shows "history_fits (edited_text t (he_forward e)) h'
         \<and> edited_text (edited_text t (he_forward e)) (he_inverse e) = t"
proof -
  obtain rs where rs: "eh_redo h = rs @ [e]" and h': "h' = \<lparr>eh_undo = eh_undo h @ [e], eh_redo = rs\<rparr>"
    using assms(2,3) by (cases "eh_redo h" rule: rev_cases)
      (auto simp: history_redo_exact, simp add: history_redo_def)
  then have "entry_edits t e" using assms(1) by (simp add: history_fits_def)
  then show ?thesis
    using assms(1) entry_edits_undone by (auto simp: history_fits_def h' rs)
qed

section \<open>Properties\<close>

text \<open>
  The inverse built for a local edit undoes it. For every valid operation on a text, the
  inverse operation built from the removed text is valid on the edited text and restores the
  original text exactly.
\<close>

theorem inverse_restores_text:
  assumes "valid_op t e" and "op_start e + byte_len (op_text e) \<le> u64_max"
  shows "valid_op (edited_text t e) (invert_edit_operation e (prior_text t e))
         \<and> edited_text (edited_text t e) (invert_edit_operation e (prior_text t e)) = t"
  by (rule invert_valid_op[OF assms])

theorem inverse_restores_text_witness:
  "edited_text (edited_text [97, 233, 98] (Replace 1 3 [120]))
     (invert_edit_operation (Replace 1 3 [120]) (prior_text [97, 233, 98] (Replace 1 3 [120])))
   = [97, 233, 98]"
  using inverse_restores_text[of "[97, 233, 98]" "Replace 1 3 [120]"]
  by (simp add: valid_op_def len_utf8_def u64_max_def)

text \<open>
  Undo and redo lose nothing. In every history reachable from the empty one, the two stacks
  together never exceed the depth limit and no entry exceeds the payload limit; undoing and
  redoing at once gives the same entry and exactly the history one started from.
\<close>

theorem undo_redo_identity:
  assumes "history_reachable h" and "history_undo h = (h', Some entry)"
  shows "history_redo h' = (h, Some entry)
         \<and> length (eh_undo h) + length (eh_redo h) \<le> edit_history_max_depth
         \<and> entry_payload_bytes entry \<le> edit_history_max_entry_bytes"
proof -
  note inv = history_reachable_inv[OF assms(1)]
  obtain us where us: "eh_undo h = us @ [entry]" and h': "h' = \<lparr>eh_undo = us, eh_redo = eh_redo h @ [entry]\<rparr>"
    using assms(2) inv by (cases "eh_undo h" rule: rev_cases)
      (auto simp: history_undo_exact, simp add: history_undo_def)
  have "history_inv h'" using history_undo_inv[OF inv] assms(2) by simp
  then have "history_redo h' = (\<lparr>eh_undo = eh_undo h' @ [entry], eh_redo = eh_redo h\<rparr>, Some entry)"
    by (rule history_redo_exact) (simp add: h')
  then show ?thesis using inv us by (simp add: h' history_inv_def)
qed

definition sample_entry :: history_entry where
  "sample_entry =
     \<lparr>he_forward = Replace 1 3 [120], he_inverse = Replace 1 2 [233],
      he_selection_before = history_collapsed 1, he_selection_after = history_collapsed 2,
      he_forward_ops = [], he_inverse_ops = [], he_selection_set_before = [],
      he_selection_set_after = [], he_primary_index = 0\<rparr>"

lemma sample_history: "history_undo (history_record history_new sample_entry)
    = (\<lparr>eh_undo = [], eh_redo = [sample_entry]\<rparr>, Some sample_entry)"
  by (simp add: history_record_def history_new_def history_undo_def entry_payload_bytes_def
      sample_entry_def len_utf8_def sat_add_def edit_history_max_entry_bytes_def trim_front_drop
      edit_history_max_depth_def u64_max_def Let_def)

theorem undo_redo_identity_witness:
  "history_redo \<lparr>eh_undo = [], eh_redo = [sample_entry]\<rparr>
     = (history_record history_new sample_entry, Some sample_entry)"
  using undo_redo_identity[OF history_reachable.recorded[OF history_reachable.fresh] sample_history]
  by blast

text \<open>
  C29: the stacks walk along the texts the document has had. When the history fits the text,
  undoing gives an entry whose inverse turns the text into an earlier one that the remaining
  history fits again, and from which the entry's forward operation leads back; redoing is the
  same walk in the other direction. Recording an edit keeps the history fitting the new text.
\<close>

theorem history_walks_texts:
  assumes "history_reachable h" and "history_fits t h"
  shows "(\<forall>h' e. history_undo h = (h', Some e) \<longrightarrow>
            history_fits (edited_text t (he_inverse e)) h'
            \<and> edited_text (edited_text t (he_inverse e)) (he_forward e) = t)
       \<and> (\<forall>h' e. history_redo h = (h', Some e) \<longrightarrow>
            history_fits (edited_text t (he_forward e)) h'
            \<and> edited_text (edited_text t (he_forward e)) (he_inverse e) = t)
       \<and> (\<forall>e. entry_edits t e \<longrightarrow>
            history_fits (edited_text t (he_forward e)) (history_record h e))"
  using history_fits_undo[OF assms(2) history_reachable_inv[OF assms(1)]]
    history_fits_redo[OF assms(2) history_reachable_inv[OF assms(1)]]
    history_fits_record[OF assms(2)]
  by blast

theorem history_walks_texts_witness:
  "history_fits [97, 120, 98] (history_record history_new sample_entry)"
proof -
  have fits: "history_fits [97, 233, 98] history_new" by (simp add: history_fits_def history_new_def)
  have "entry_edits [97, 233, 98] sample_entry"
    by (simp add: entry_edits_def sample_entry_def valid_op_def prior_text_def text_slice_def
        sat_add_def len_utf8_def u64_max_def)
  then have "history_fits (edited_text [97, 233, 98] (he_forward sample_entry))
      (history_record history_new sample_entry)"
    using history_walks_texts[OF history_reachable.fresh fits] by blast
  then show ?thesis
    by (simp add: sample_entry_def edited_text_def text_splice_def len_utf8_def)
qed

end
