(* ===== verification/Editor_Session.thy ===== *)
theory Editor_Session imports Cursor_Selection Edit_History begin

text \<open>
  The local editing loop of \<open>editor/surface.rs\<close>: an edit at the selection is applied to the
  buffer at once, recorded with its inverse, and emitted as an event for the server; undo and
  redo apply recorded operations as ordinary edits. With several selections one operation per
  caret is applied from right to left and recorded as one step.

  The session holds the parts these functions read and write. Left out are the parts they only
  notify: the viewport, the decorations and the layout, the snippet session, the preedit
  overlay and the counters. \<open>se_allows\<close> is the behavior manifest's answer for an operation.
\<close>

section \<open>Session\<close>

record edit_event =
  ev_document_id :: nat
  ev_base_version :: nat
  ev_behavior_version :: nat
  ev_operation :: edit_operation

record 'r editor_session =
  se_document_id :: nat
  se_document_version :: nat
  se_behavior_version :: nat
  se_access :: document_access
  se_allows :: "edit_operation \<Rightarrow> bool"
  se_buffer :: "'r editor_buffer"
  se_selections :: selection_state
  se_history :: edit_history

record command_outcome =
  co_changed :: bool
  co_events :: "edit_event list"

definition unchanged :: command_outcome where
  "unchanged = \<lparr>co_changed = False, co_events = []\<rparr>"

definition se_is_editable :: "'r editor_session \<Rightarrow> bool" where
  "se_is_editable s \<longleftrightarrow> (case se_access s of Editable _ \<Rightarrow> True | ReadOnly \<Rightarrow> False)"

definition client_first_event :: "'r editor_session \<Rightarrow> edit_operation \<Rightarrow> edit_event option" where
  "client_first_event s operation =
     (if \<not> se_is_editable s \<or> \<not> se_allows s operation then None
      else Some \<lparr>ev_document_id = se_document_id s, ev_base_version = se_document_version s,
                 ev_behavior_version = se_behavior_version s, ev_operation = operation\<rparr>)"

definition load_snapshot ::
  "'r rope_ops \<Rightarrow> 'r editor_session \<Rightarrow> nat \<Rightarrow> nat \<Rightarrow> ustr \<Rightarrow> document_access \<Rightarrow> 'r editor_session" where
  "load_snapshot R s document_id version txt access =
     s\<lparr>se_buffer := replace_text R (se_buffer s) txt, se_document_id := document_id,
       se_document_version := version, se_access := access,
       se_selections := selection_default, se_history := history_clear (se_history s)\<rparr>"

section \<open>Applying operations\<close>

fun apply_buffer_operation ::
  "'r rope_ops \<Rightarrow> 'r editor_buffer \<Rightarrow> edit_operation \<Rightarrow> 'r editor_buffer \<times> edit_result" where
  "apply_buffer_operation R b (Insert byte_offset txt) = insert_at R b byte_offset txt"
| "apply_buffer_operation R b (Delete s e) = delete_range R b s e"
| "apply_buffer_operation R b (Replace s e txt) = replace_range R b s e txt"

fun prior_text_for_operation ::
  "'r rope_ops \<Rightarrow> 'r editor_buffer \<Rightarrow> edit_operation \<Rightarrow> ustr" where
  "prior_text_for_operation R b (Insert _ _) = []"
| "prior_text_for_operation R b (Delete s e) = text_range R b s e"
| "prior_text_for_operation R b (Replace s e _) = text_range R b s e"

definition capture_history_selection :: "'r editor_session \<Rightarrow> history_selection" where
  "capture_history_selection s =
     \<lparr>hs_caret = sel_focus (primary (se_selections s)),
      hs_anchor = (if has_selection (se_selections s)
                   then Some (sel_anchor (primary (se_selections s))) else None)\<rparr>"

definition restore_history_selection ::
  "'r rope_ops \<Rightarrow> 'r editor_session \<Rightarrow> history_selection \<Rightarrow> 'r editor_session" where
  "restore_history_selection R s selection =
     (let caret = clamp_byte_offset R (se_buffer s) (hs_caret selection);
          selections = set_primary_focus (se_selections s) caret;
          clamped_anchor = (case hs_anchor selection of
             Some anchor \<Rightarrow> clamp_byte_offset R (se_buffer s) anchor | None \<Rightarrow> caret) in
      s\<lparr>se_selections :=
          update_selection selections (ss_primary selections) (\<lambda>x. sel_set_anchor x clamped_anchor)\<rparr>)"

definition finish_edit ::
  "'r editor_session \<Rightarrow> edit_result \<Rightarrow> 'r editor_session \<times> command_outcome" where
  "finish_edit s result =
     (let s = s\<lparr>se_selections := collapse_primary (set_primary_focus (se_selections s) (er_caret result))\<rparr> in
      (s, if \<not> er_changed result then unchanged else \<lparr>co_changed = True, co_events = []\<rparr>))"

definition finish_edit_with_operation_and_caret ::
  "'r rope_ops \<Rightarrow> 'r editor_session \<Rightarrow> edit_result \<Rightarrow> edit_operation \<Rightarrow> nat \<Rightarrow> history_selection
     \<Rightarrow> ustr \<Rightarrow> 'r editor_session \<times> command_outcome" where
  "finish_edit_with_operation_and_caret R s result operation caret selection_before prior =
     (let s = s\<lparr>se_selections := collapse_primary (set_primary_focus (se_selections s)
                  (clamp_byte_offset R (se_buffer s) caret))\<rparr> in
      if \<not> er_changed result then (s, unchanged)
      else
        let selection_after = capture_history_selection s;
            inverse = invert_edit_operation operation prior;
            entry = \<lparr>he_forward = operation, he_inverse = inverse,
                     he_selection_before = selection_before, he_selection_after = selection_after,
                     he_forward_ops = [], he_inverse_ops = [], he_selection_set_before = [],
                     he_selection_set_after = [], he_primary_index = 0\<rparr>;
            s = s\<lparr>se_history := history_record (se_history s) entry\<rparr> in
        (s, \<lparr>co_changed = True,
             co_events = (case client_first_event s operation of None \<Rightarrow> [] | Some e \<Rightarrow> [e])\<rparr>))"

definition apply_and_record_local_edit ::
  "'r rope_ops \<Rightarrow> 'r editor_session \<Rightarrow> edit_operation \<Rightarrow> nat option
     \<Rightarrow> 'r editor_session \<times> command_outcome" where
  "apply_and_record_local_edit R s operation final_caret =
     (let selection_before = capture_history_selection s;
          prior = prior_text_for_operation R (se_buffer s) operation;
          (b, result) = apply_buffer_operation R (se_buffer s) operation;
          caret = (case final_caret of None \<Rightarrow> er_caret result | Some caret \<Rightarrow> caret) in
      finish_edit_with_operation_and_caret R (s\<lparr>se_buffer := b\<rparr>) result operation caret
        selection_before prior)"

section \<open>Undo and redo\<close>

definition apply_history_restore ::
  "'r rope_ops \<Rightarrow> 'r editor_session \<Rightarrow> edit_operation \<Rightarrow> history_selection
     \<Rightarrow> 'r editor_session \<times> command_outcome" where
  "apply_history_restore R s operation selection =
     (let (b, result) = apply_buffer_operation R (se_buffer s) operation;
          s = s\<lparr>se_buffer := b\<rparr> in
      if \<not> er_changed result then (s, unchanged)
      else
        let s = restore_history_selection R s selection in
        (s, \<lparr>co_changed = True,
             co_events = (case client_first_event s operation of None \<Rightarrow> [] | Some e \<Rightarrow> [e])\<rparr>))"

definition apply_operations ::
  "'r rope_ops \<Rightarrow> 'r editor_buffer \<Rightarrow> edit_operation list \<Rightarrow> 'r editor_buffer" where
  "apply_operations R b operations = foldl (\<lambda>b operation. fst (apply_buffer_operation R b operation)) b operations"

definition apply_multi_history_restore ::
  "'r rope_ops \<Rightarrow> 'r editor_session \<Rightarrow> edit_operation list \<Rightarrow> history_selection list \<Rightarrow> nat
     \<Rightarrow> 'r editor_session \<times> command_outcome" where
  "apply_multi_history_restore R s operations set_snapshot primary_index =
     (let s = s\<lparr>se_buffer := apply_operations R (se_buffer s) operations\<rparr>;
          selections = map (\<lambda>snapshot. selection_new
            (case hs_anchor snapshot of Some anchor \<Rightarrow> anchor | None \<Rightarrow> hs_caret snapshot)
            (hs_caret snapshot)) set_snapshot;
          restored = fst (set_selections selection_default selections primary_index);
          restored = clamp_to R (se_buffer s) restored;
          s = s\<lparr>se_selections := restored\<rparr> in
      (s, \<lparr>co_changed = True, co_events = List.map_filter (client_first_event s) operations\<rparr>))"

definition undo_with_event ::
  "'r rope_ops \<Rightarrow> 'r editor_session \<Rightarrow> 'r editor_session \<times> command_outcome" where
  "undo_with_event R s =
     (if \<not> se_is_editable s then (s, unchanged)
      else
        case history_undo (se_history s) of
          (h, None) \<Rightarrow> (s\<lparr>se_history := h\<rparr>, unchanged)
        | (h, Some entry) \<Rightarrow>
            let s = s\<lparr>se_history := h\<rparr> in
            if entry_is_multi entry
            then apply_multi_history_restore R s (rev (he_inverse_ops entry))
                   (he_selection_set_before entry) (he_primary_index entry)
            else apply_history_restore R s (he_inverse entry) (he_selection_before entry))"

definition redo_with_event ::
  "'r rope_ops \<Rightarrow> 'r editor_session \<Rightarrow> 'r editor_session \<times> command_outcome" where
  "redo_with_event R s =
     (if \<not> se_is_editable s then (s, unchanged)
      else
        case history_redo (se_history s) of
          (h, None) \<Rightarrow> (s\<lparr>se_history := h\<rparr>, unchanged)
        | (h, Some entry) \<Rightarrow>
            let s = s\<lparr>se_history := h\<rparr> in
            if entry_is_multi entry
            then apply_multi_history_restore R s (he_forward_ops entry)
                   (he_selection_set_after entry) (he_primary_index entry)
            else apply_history_restore R s (he_forward entry) (he_selection_after entry))"

section \<open>Several carets\<close>

text \<open>The loop that applies the operations in the given order of their indices.\<close>

fun multi_apply ::
  "'r rope_ops \<Rightarrow> (edit_operation \<times> nat) list \<Rightarrow> nat list \<Rightarrow> 'r editor_buffer \<Rightarrow>
     edit_operation list \<Rightarrow> edit_operation list \<Rightarrow> nat list \<Rightarrow>
     'r editor_buffer \<times> edit_operation list \<times> edit_operation list \<times> nat list" where
  "multi_apply R ops [] b forward_ops inverse_ops final_carets = (b, forward_ops, inverse_ops, final_carets)"
| "multi_apply R ops (index # order) b forward_ops inverse_ops final_carets =
     (let (operation, final_caret) = ops ! index;
          prior = prior_text_for_operation R b operation in
      multi_apply R ops order (fst (apply_buffer_operation R b operation))
        (forward_ops @ [operation]) (inverse_ops @ [invert_edit_operation operation prior])
        (final_carets[index := final_caret]))"

definition multi_caret_edit ::
  "'r rope_ops \<Rightarrow> 'r editor_session \<Rightarrow> (nat \<Rightarrow> nat \<times> nat \<Rightarrow> (edit_operation \<times> nat) option)
     \<Rightarrow> 'r editor_session \<times> command_outcome" where
  "multi_caret_edit R s per_caret =
     (let plans = map (\<lambda>x. (sel_focus x, normalized_range x)) (ss_selections (se_selections s));
          ops = List.map_filter (\<lambda>(focus, r). per_caret focus r) plans in
      if ops = [] then (s, unchanged)
      else
        let primary_index = ss_primary (se_selections s);
            set_before = map (\<lambda>x. \<lparr>hs_caret = sel_focus x,
              hs_anchor = (if \<not> sel_is_collapsed x then Some (sel_anchor x) else None)\<rparr>)
              (ss_selections (se_selections s));
            order = sort_key (\<lambda>i. - int (op_start (fst (ops ! i)))) [0..<length ops];
            (b, forward_ops, inverse_ops, final_carets) =
              multi_apply R ops order (se_buffer s) [] [] (replicate (length ops) 0);
            s = s\<lparr>se_buffer := b\<rparr>;
            new_selections = map (\<lambda>caret. selection_collapsed (clamp_byte_offset R b caret)) final_carets;
            set_after = map (\<lambda>x. \<lparr>hs_caret = sel_focus x, hs_anchor = None\<rparr>) new_selections;
            s = s\<lparr>se_selections := fst (set_selections (se_selections s) new_selections primary_index)\<rparr>;
            entry = \<lparr>he_forward = hd forward_ops, he_inverse = hd inverse_ops,
                     he_selection_before = set_before ! min primary_index (length set_before - 1),
                     he_selection_after =
                       history_collapsed (final_carets ! min primary_index (length final_carets - 1)),
                     he_forward_ops = forward_ops, he_inverse_ops = inverse_ops,
                     he_selection_set_before = set_before, he_selection_set_after = set_after,
                     he_primary_index = primary_index\<rparr>;
            s = s\<lparr>se_history := history_record (se_history s) entry\<rparr> in
        (s, \<lparr>co_changed = True, co_events = List.map_filter (client_first_event s) forward_ops\<rparr>))"

section \<open>Commands\<close>

definition insert_per_caret ::
  "'r rope_ops \<Rightarrow> 'r editor_session \<Rightarrow> ustr \<Rightarrow> nat \<Rightarrow> nat \<times> nat \<Rightarrow> (edit_operation \<times> nat) option" where
  "insert_per_caret R s inserted focus r =
     (case r of (range_start, range_end) \<Rightarrow>
        if range_start < range_end
        then Some (Replace range_start range_end inserted, range_start + byte_len inserted)
        else
          let offset = clamp_byte_offset R (se_buffer s) focus in
          Some (Insert offset inserted, offset + byte_len inserted))"

definition replace_selection_or_insert_with_event ::
  "'r rope_ops \<Rightarrow> 'r editor_session \<Rightarrow> ustr \<Rightarrow> 'r editor_session \<times> command_outcome" where
  "replace_selection_or_insert_with_event R s txt =
     (if length (ss_selections (se_selections s)) > 1
      then multi_caret_edit R s (insert_per_caret R s txt)
      else
        let operation =
          (case primary_range (se_selections s) of
             Some (range_start, range_end) \<Rightarrow> Replace range_start range_end txt
           | None \<Rightarrow>
               Insert (clamp_byte_offset R (se_buffer s) (sel_focus (primary (se_selections s)))) txt) in
        apply_and_record_local_edit R s operation None)"

definition backspace_per_caret ::
  "'r rope_ops \<Rightarrow> 'r editor_session \<Rightarrow> nat \<Rightarrow> nat \<times> nat \<Rightarrow> (edit_operation \<times> nat) option" where
  "backspace_per_caret R s focus r =
     (case r of (range_start, range_end) \<Rightarrow>
        if range_start < range_end then Some (Delete range_start range_end, range_start)
        else
          let caret = clamp_byte_offset R (se_buffer s) focus in
          map_option (\<lambda>previous. (Delete previous caret, previous))
            (previous_scalar_boundary R (se_buffer s) caret))"

definition backspace_with_event ::
  "'r rope_ops \<Rightarrow> 'r editor_session \<Rightarrow> 'r editor_session \<times> command_outcome" where
  "backspace_with_event R s =
     (if \<not> se_is_editable s then (s, unchanged)
      else if length (ss_selections (se_selections s)) > 1
      then multi_caret_edit R s (backspace_per_caret R s)
      else
        (case primary_range (se_selections s) of
           Some (range_start, range_end) \<Rightarrow>
             apply_and_record_local_edit R s (Delete range_start range_end) None
         | None \<Rightarrow>
             let caret = clamp_byte_offset R (se_buffer s) (sel_focus (primary (se_selections s))) in
             case previous_scalar_boundary R (se_buffer s) caret of
               None \<Rightarrow>
                 (case backspace_at R (se_buffer s) caret of
                    (b, result) \<Rightarrow> finish_edit (s\<lparr>se_buffer := b\<rparr>) result)
             | Some previous \<Rightarrow> apply_and_record_local_edit R s (Delete previous caret) None))"

definition delete_forward_per_caret ::
  "'r rope_ops \<Rightarrow> 'r editor_session \<Rightarrow> nat \<Rightarrow> nat \<times> nat \<Rightarrow> (edit_operation \<times> nat) option" where
  "delete_forward_per_caret R s focus r =
     (case r of (range_start, range_end) \<Rightarrow>
        if range_start < range_end then Some (Delete range_start range_end, range_start)
        else
          let caret = clamp_byte_offset R (se_buffer s) focus in
          map_option (\<lambda>following. (Delete caret following, caret))
            (next_scalar_boundary R (se_buffer s) caret))"

definition delete_forward_with_event ::
  "'r rope_ops \<Rightarrow> 'r editor_session \<Rightarrow> 'r editor_session \<times> command_outcome" where
  "delete_forward_with_event R s =
     (if \<not> se_is_editable s then (s, unchanged)
      else if length (ss_selections (se_selections s)) > 1
      then multi_caret_edit R s (delete_forward_per_caret R s)
      else
        (case primary_range (se_selections s) of
           Some (range_start, range_end) \<Rightarrow>
             apply_and_record_local_edit R s (Delete range_start range_end) None
         | None \<Rightarrow>
             let caret = clamp_byte_offset R (se_buffer s) (sel_focus (primary (se_selections s))) in
             case next_scalar_boundary R (se_buffer s) caret of
               None \<Rightarrow>
                 (case delete_after R (se_buffer s) caret of
                    (b, result) \<Rightarrow> finish_edit (s\<lparr>se_buffer := b\<rparr>) result)
             | Some following \<Rightarrow> apply_and_record_local_edit R s (Delete caret following) None))"

end
