(* ===== verification/Session_Facts.thy ===== *)
theory Session_Facts imports Editor_Session "HOL-Library.Multiset" begin

text \<open>
  What the local editing loop of \<open>Editor_Session\<close> does to the text: a valid operation is applied
  exactly, the recorded inverse operations, applied in reverse, lead back to the text before,
  and the selection saved in the entry is restored.
\<close>

section \<open>Sequences of operations\<close>

fun ops_valid :: "ustr \<Rightarrow> edit_operation list \<Rightarrow> bool" where
  "ops_valid t [] = True"
| "ops_valid t (e # es) \<longleftrightarrow>
     valid_op t e \<and> op_start e + byte_len (op_text e) \<le> u64_max \<and> ops_valid (edited_text t e) es"

fun ops_inverses :: "ustr \<Rightarrow> edit_operation list \<Rightarrow> edit_operation list" where
  "ops_inverses t [] = []"
| "ops_inverses t (e # es) =
     invert_edit_operation e (prior_text t e) # ops_inverses (edited_text t e) es"

lemma length_ops_inverses [simp]: "length (ops_inverses t es) = length es"
  by (induction t es rule: ops_inverses.induct) simp_all

text \<open>The reversed inverses are valid one after the other and end at the text before.\<close>

fun steps_valid :: "ustr \<Rightarrow> edit_operation list \<Rightarrow> bool" where
  "steps_valid t [] = True"
| "steps_valid t (e # es) \<longleftrightarrow> valid_op t e \<and> steps_valid (edited_text t e) es"

lemma steps_valid_append:
  "steps_valid t (es @ fs) \<longleftrightarrow> steps_valid t es \<and> steps_valid (foldl edited_text t es) fs"
  by (induction t es rule: steps_valid.induct) auto

lemma ops_valid_steps: "ops_valid t es \<Longrightarrow> steps_valid t es"
  by (induction t es rule: ops_valid.induct) auto

lemma reversed_inverses:
  "ops_valid t es \<Longrightarrow>
     steps_valid (foldl edited_text t es) (rev (ops_inverses t es))
     \<and> foldl edited_text (foldl edited_text t es) (rev (ops_inverses t es)) = t"
proof (induction t es rule: ops_valid.induct)
  case (2 t e es)
  then show ?case using invert_valid_op[of t e] by (simp add: steps_valid_append)
qed simp

context crop_rope begin

lemma apply_buffer_operation_valid:
  assumes "valid_op (buffer_string R b) e" and "apply_buffer_operation R b e = (b', r)"
  shows "buffer_string R b' = edited_text (buffer_string R b) e"
    and "er_caret r = op_start e + byte_len (op_text e)"
    and "er_changed r \<longleftrightarrow> op_start e \<noteq> op_end e \<or> op_text e \<noteq> []"
proof -
  note v = valid_opD[OF assms(1)]
  have "buffer_string R b' = edited_text (buffer_string R b) e
      \<and> er_caret r = op_start e + byte_len (op_text e)
      \<and> (er_changed r \<longleftrightarrow> op_start e \<noteq> op_end e \<or> op_text e \<noteq> [])"
  proof (cases e)
    case (Insert n s)
    then show ?thesis using insert_at_effect[of b n s b' r] assms(2) v
      by (simp add: edited_text_def)
  next
    case (Delete x y)
    then show ?thesis using delete_range_effect[of b x y b' r] assms(2) v
      by (cases r) (auto simp: edited_text_def delete_range_def clamp_byte_offset_eq Let_def split: if_splits)
  next
    case (Replace x y s)
    then show ?thesis using replace_range_effect[of b x y s b' r] assms(2) v
      by (cases r) (auto simp: edited_text_def replace_range_def clamp_byte_offset_eq Let_def split: if_splits)
  qed
  then show "buffer_string R b' = edited_text (buffer_string R b) e"
    and "er_caret r = op_start e + byte_len (op_text e)"
    and "er_changed r \<longleftrightarrow> op_start e \<noteq> op_end e \<or> op_text e \<noteq> []" by simp_all
qed

lemma buffer_operation_text:
  "valid_op (buffer_string R b) e \<Longrightarrow>
   buffer_string R (fst (apply_buffer_operation R b e)) = edited_text (buffer_string R b) e"
  using apply_buffer_operation_valid(1) by (metis prod.collapse)

lemma prior_text_for_operation_eq:
  "valid_op (buffer_string R b) e \<Longrightarrow>
   prior_text_for_operation R b e = prior_text (buffer_string R b) e"
  by (cases e)
    (auto simp: valid_op_def prior_text_def text_range_def clamp_byte_offset_eq buffer_string_def
      valid_range_def Let_def)

lemma apply_operations_text:
  "steps_valid (buffer_string R b) es \<Longrightarrow>
   buffer_string R (apply_operations R b es) = foldl edited_text (buffer_string R b) es"
proof (induction es arbitrary: b)
  case (Cons e es)
  have "apply_operations R b (e # es) = apply_operations R (fst (apply_buffer_operation R b e)) es"
    by (simp add: apply_operations_def)
  then show ?case using Cons buffer_operation_text[of b e] by simp
qed (simp add: apply_operations_def)

lemma multi_apply_spec:
  assumes "ops_valid (buffer_string R b) (map (\<lambda>k. fst (ops ! k)) order)"
    and "multi_apply R ops order b fs invs carets = (b', fs', invs', carets')"
  shows "buffer_string R b' = foldl edited_text (buffer_string R b) (map (\<lambda>k. fst (ops ! k)) order)
    \<and> fs' = fs @ map (\<lambda>k. fst (ops ! k)) order
    \<and> invs' = invs @ ops_inverses (buffer_string R b) (map (\<lambda>k. fst (ops ! k)) order)
    \<and> carets' = foldl (\<lambda>c k. c[k := snd (ops ! k)]) carets order"
  using assms
proof (induction order arbitrary: b fs invs carets)
  case (Cons k order)
  obtain e n where k: "ops ! k = (e, n)" by force
  then show ?case
    using Cons.IH[of "fst (apply_buffer_operation R b e)" "fs @ [e]"
        "invs @ [invert_edit_operation e (prior_text (buffer_string R b) e)]" "carets[k := n]"]
      Cons.prems buffer_operation_text[of b e] prior_text_for_operation_eq[of b e] by simp
qed simp

end

lemma foldl_update_length: "length (foldl (\<lambda>c k. c[k := f k]) c order) = length c"
  by (induction order arbitrary: c) simp_all

lemma foldl_update_nth:
  "i < length c \<Longrightarrow> foldl (\<lambda>c k. c[k := f k]) c order ! i = (if i \<in> set order then f i else c ! i)"
  by (induction order arbitrary: c) (auto simp: nth_list_update foldl_update_length)

lemma foldl_update_all:
  assumes "set order = {0..<n}" "length c = n"
  shows "foldl (\<lambda>c k. c[k := f k]) c order = map f [0..<n]"
  by (rule nth_equalityI) (use assms in \<open>auto simp: foldl_update_length foldl_update_nth\<close>)

section \<open>One caret\<close>

lemma primary_update [simp]:
  "selection_inv st \<Longrightarrow> i = ss_primary st \<Longrightarrow> primary (update_selection st i f) = f (primary st)"
  by (simp add: primary_def update_selection_def selection_inv_def)

lemma ss_primary_update [simp]: "ss_primary (update_selection st i f) = ss_primary st"
  by (simp add: update_selection_def)

lemma selection_inv_update [simp]: "selection_inv (update_selection st i f) = selection_inv st"
  by (simp add: selection_inv_def update_selection_def)

lemma set_primary_focus_simps [simp]:
  "selection_inv (set_primary_focus st n) = selection_inv st"
  "ss_primary (set_primary_focus st n) = ss_primary st"
  "ss_primary (collapse_primary st) = ss_primary st"
  "selection_inv (collapse_primary st) = selection_inv st"
  by (simp_all add: set_primary_focus_def collapse_primary_def)

lemma sel_set_simps [simp]:
  "sel_focus (sel_set_focus x n) = n" "sel_anchor (sel_set_focus x n) = sel_anchor x"
  "sel_focus (sel_set_anchor x n) = sel_focus x" "sel_anchor (sel_set_anchor x n) = n"
  by (simp_all add: sel_focus_def sel_set_focus_def sel_set_anchor_def set_caret_def
      clear_preferred_x_def)

lemma restore_primary:
  assumes "selection_inv (se_selections s)"
  shows "primary (se_selections (restore_history_selection R s x)) =
    sel_set_anchor (sel_set_focus (primary (se_selections s))
        (clamp_byte_offset R (se_buffer s) (hs_caret x)))
      (case hs_anchor x of Some anchor \<Rightarrow> clamp_byte_offset R (se_buffer s) anchor
       | None \<Rightarrow> clamp_byte_offset R (se_buffer s) (hs_caret x))"
  using assms by (simp add: restore_history_selection_def Let_def) (simp add: set_primary_focus_def)

lemma payload_single:
  "entry_payload_bytes \<lparr>he_forward = e, he_inverse = invert_edit_operation e p,
     he_selection_before = x, he_selection_after = y, he_forward_ops = [], he_inverse_ops = [],
     he_selection_set_before = [], he_selection_set_after = [], he_primary_index = 0\<rparr>
   \<le> byte_len (op_text e) + byte_len p"
proof -
  have "operation_text_bytes e \<le> byte_len (op_text e)" by (cases e) simp_all
  moreover have "operation_text_bytes (invert_edit_operation e p) \<le> byte_len p" by (cases e) simp_all
  ultimately show ?thesis by (simp add: entry_payload_bytes_def sat_add_def)
qed

context crop_rope begin

lemma local_edit_undone:
  assumes sel: "selection_inv (se_selections s)" and ed: "se_is_editable s"
    and valid: "valid_op (buffer_string R (se_buffer s)) e"
    and real: "op_start e \<noteq> op_end e \<or> op_text e \<noteq> []"
    and fits: "byte_len (buffer_string R (se_buffer s)) + byte_len (op_text e) \<le> u64_max"
    and small: "byte_len (op_text e) + byte_len (prior_text (buffer_string R (se_buffer s)) e)
                 \<le> edit_history_max_entry_bytes"
    and focus: "is_boundary (buffer_string R (se_buffer s)) (sel_focus (primary (se_selections s)))"
    and anchor: "is_boundary (buffer_string R (se_buffer s)) (sel_anchor (primary (se_selections s)))"
    and edit: "apply_and_record_local_edit R s e None = (s1, o1)"
    and undo: "undo_with_event R s1 = (s2, o2)"
  shows "buffer_string R (se_buffer s1) = edited_text (buffer_string R (se_buffer s)) e"
    and "co_changed o1"
    and "buffer_string R (se_buffer s2) = buffer_string R (se_buffer s)"
    and "co_changed o2"
    and "sel_focus (primary (se_selections s2)) = sel_focus (primary (se_selections s))"
    and "sel_anchor (primary (se_selections s2)) = sel_anchor (primary (se_selections s))"
proof -
  let ?t = "buffer_string R (se_buffer s)"
  let ?inv = "invert_edit_operation e (prior_text ?t e)"
  obtain b r where op: "apply_buffer_operation R (se_buffer s) e = (b, r)" by force
  note eff = apply_buffer_operation_valid[OF valid op]
  define after where "after = capture_history_selection
    (s\<lparr>se_buffer := b, se_selections := collapse_primary (set_primary_focus (se_selections s)
        (clamp_byte_offset R b (er_caret r)))\<rparr>)"
  define entry where "entry = \<lparr>he_forward = e, he_inverse = ?inv,
     he_selection_before = capture_history_selection s, he_selection_after = after,
     he_forward_ops = [], he_inverse_ops = [], he_selection_set_before = [],
     he_selection_set_after = [], he_primary_index = 0\<rparr>"
  have s1: "s1 = s\<lparr>se_buffer := b, se_selections := collapse_primary (set_primary_focus (se_selections s)
        (clamp_byte_offset R b (er_caret r))), se_history := history_record (se_history s) entry\<rparr>"
    and o1: "co_changed o1"
    using edit eff(3) real
    by (auto simp: apply_and_record_local_edit_def finish_edit_with_operation_and_caret_def op
        prior_text_for_operation_eq[OF valid] Let_def entry_def after_def)
  show "buffer_string R (se_buffer s1) = edited_text ?t e" "co_changed o1"
    using eff(1) o1 by (simp_all add: s1)
  have "entry_payload_bytes entry \<le> edit_history_max_entry_bytes"
    unfolding entry_def using payload_single small le_trans by blast
  then obtain h where h: "history_undo (history_record (se_history s) entry) = (h, Some entry)"
    using undo_after_record by blast
  have bound: "op_start e + byte_len (op_text e) \<le> u64_max"
    using fits is_boundary_le[OF valid_opD(1)[OF valid]] by linarith
  note i = invert_valid_op[OF valid bound]
  obtain b2 r2 where op2: "apply_buffer_operation R b ?inv = (b2, r2)" by force
  have valid2: "valid_op (buffer_string R b) ?inv" using i eff(1) by simp
  note eff2 = apply_buffer_operation_valid[OF valid2 op2]
  have real2: "er_changed r2"
  proof -
    have "byte_len (prior_text ?t e) = op_end e - op_start e"
      using valid by (simp add: prior_text_def byte_len_text_slice valid_op_def)
    then show ?thesis
      using real eff2(3) bound valid_opD(3)[OF valid]
      by (cases e) (auto simp: sat_add_exact)
  qed
  have t2: "buffer_string R b2 = ?t" using eff2(1) eff(1) i by simp
  have ed1: "se_is_editable s1" using ed by (simp add: s1 se_is_editable_def)
  have multi: "\<not> entry_is_multi entry" by (simp add: entry_def entry_is_multi_def)
  have inv_e: "he_inverse entry = ?inv" "he_selection_before entry = capture_history_selection s"
    by (simp_all add: entry_def)
  have "undo_with_event R s1 = apply_history_restore R (s1\<lparr>se_history := h\<rparr>) ?inv (capture_history_selection s)"
    using ed1 h multi inv_e by (simp add: undo_with_event_def s1)
  then have s2: "s2 = restore_history_selection R (s1\<lparr>se_history := h, se_buffer := b2\<rparr>)
      (capture_history_selection s)" "co_changed o2"
    using undo op2 real2 by (auto simp: apply_history_restore_def s1 Let_def)
  have buf: "se_buffer s2 = b2" by (simp add: s2 restore_history_selection_def Let_def)
  show "buffer_string R (se_buffer s2) = ?t" "co_changed o2" using t2 s2(2) by (simp_all add: buf)
  have sel1: "selection_inv (se_selections s1)" using sel by (simp add: s1)
  let ?c = "capture_history_selection s"
  have cl: "clamp_byte_offset R b2 (hs_caret ?c) = sel_focus (primary (se_selections s))"
    using focus t2 by (simp add: clamp_byte_offset_eq capture_history_selection_def)
  have an: "(case hs_anchor ?c of Some anchor \<Rightarrow> clamp_byte_offset R b2 anchor
      | None \<Rightarrow> sel_focus (primary (se_selections s))) = sel_anchor (primary (se_selections s))"
    using anchor t2
    by (auto simp: clamp_byte_offset_eq capture_history_selection_def has_selection_def
        sel_is_collapsed_def sel_focus_def)
  have "primary (se_selections s2) = sel_set_anchor (sel_set_focus (primary (se_selections s1))
      (sel_focus (primary (se_selections s)))) (sel_anchor (primary (se_selections s)))"
    using restore_primary[of "s1\<lparr>se_history := h, se_buffer := b2\<rparr>" R ?c] sel1 an cl
    by (cases "hs_anchor ?c") (simp_all add: s2(1))
  then show "sel_focus (primary (se_selections s2)) = sel_focus (primary (se_selections s))"
    "sel_anchor (primary (se_selections s2)) = sel_anchor (primary (se_selections s))" by simp_all
qed

end

section \<open>Several carets\<close>

text \<open>Collapsed selections on boundaries of the text.\<close>

definition bare_carets :: "ustr \<Rightarrow> selection_state \<Rightarrow> bool" where
  "bare_carets t st \<longleftrightarrow>
     (\<forall>x\<in>set (ss_selections st). sel_is_collapsed x \<and> is_boundary t (sel_focus x))"

lemma descending_inserts_valid:
  assumes "sorted_wrt (\<ge>) offs" "\<forall>n\<in>set offs. is_boundary t n \<and> n + byte_len u \<le> u64_max"
  shows "ops_valid t (map (\<lambda>n. Insert n u) offs)"
  using assms
proof (induction offs arbitrary: t)
  case (Cons n offs)
  have "is_boundary (edited_text t (Insert n u)) m" if "m \<in> set offs" for m
    using Cons.prems that text_splice_boundary_before[of t n n m u] by (simp add: edited_text_def)
  then show ?case using Cons by (simp add: valid_op_def)
qed simp

lemma sort_descending:
  fixes f :: "nat \<Rightarrow> nat"
  shows "sorted_wrt (\<ge>) (map f (sort_key (\<lambda>i. - int (f i)) xs))"
proof -
  have "sorted (map (\<lambda>i. - int (f i)) (sort_key (\<lambda>i. - int (f i)) xs))" by (rule sorted_sort_key)
  then show ?thesis by (simp add: sorted_wrt_map)
qed

lemma map_filter_map:
  assumes "\<And>x. x \<in> set xs \<Longrightarrow> f (g x) = Some (h x)"
  shows "List.map_filter f (map g xs) = map h xs"
  using assms by (induction xs) (simp_all add: List.map_filter_simps)

context crop_rope begin

text \<open>Typing with several bare carets: text, recorded operations and new carets.\<close>

lemma multi_insert_result:
  assumes sel: "bare_carets (buffer_string R (se_buffer s)) (se_selections s)" "1 < length (ss_selections (se_selections s))"
    and fits: "byte_len (buffer_string R (se_buffer s)) + byte_len u \<le> u64_max"
    and edit: "replace_selection_or_insert_with_event R s u = (s1, o1)"
  obtains es offs where "es = map (\<lambda>n. Insert n u) offs" "sorted_wrt (\<ge>) offs"
    "mset offs = mset (map sel_focus (ss_selections (se_selections s)))"
    "ops_valid (buffer_string R (se_buffer s)) es"
    "buffer_string R (se_buffer s1) = foldl edited_text (buffer_string R (se_buffer s)) es"
    "ss_selections (se_selections s1) = map (\<lambda>x. selection_collapsed
        (floor_boundary (buffer_string R (se_buffer s1)) (sel_focus x + byte_len u)))
        (ss_selections (se_selections s))"
    "se_access s1 = se_access s"
    "s1 = s\<lparr>se_buffer := se_buffer s1, se_selections := se_selections s1, se_history := se_history s1\<rparr>"
    "selection_inv (se_selections s1)"
    "co_events o1 = List.map_filter (client_first_event s1) es"
    "\<exists>entry. se_history s1 = history_record (se_history s) entry
       \<and> he_forward_ops entry = es \<and> he_inverse_ops entry = ops_inverses (buffer_string R (se_buffer s)) es
       \<and> he_forward entry = hd es \<and> he_inverse entry = hd (ops_inverses (buffer_string R (se_buffer s)) es)
       \<and> he_selection_set_before entry = map (\<lambda>x. \<lparr>hs_caret = sel_focus x, hs_anchor = None\<rparr>)
            (ss_selections (se_selections s))
       \<and> he_primary_index entry = ss_primary (se_selections s)"
proof -
  let ?t = "buffer_string R (se_buffer s)" and ?ss = "ss_selections (se_selections s)"
  define ops where "ops = map (\<lambda>x. (Insert (sel_focus x) u, sel_focus x + byte_len u)) ?ss"
  define order where "order = sort_key (\<lambda>i. - int (op_start (fst (ops ! i)))) [0..<length ops]"
  define es where "es = map (\<lambda>k. fst (ops ! k)) order"
  have sel_x: "sel_is_collapsed x" "is_boundary ?t (sel_focus x)" if "x \<in> set ?ss" for x
    using sel(1) that by (auto simp: bare_carets_def)
  have plans: "List.map_filter (\<lambda>(focus, r). insert_per_caret R s u focus r)
      (map (\<lambda>x. (sel_focus x, normalized_range x)) ?ss) = ops"
    unfolding ops_def
    by (rule map_filter_map)
      (use sel_x in \<open>auto simp: insert_per_caret_def normalized_range_def clamp_byte_offset_eq
        sel_is_collapsed_def sel_focus_def Let_def\<close>)
  have ne: "ops \<noteq> []" using sel(2) by (auto simp: ops_def)
  have order: "set order = {0..<length ops}" by (simp add: order_def)
  have es_sort: "es = map (\<lambda>n. Insert n u) (map (\<lambda>i. op_start (fst (ops ! i))) order)"
    unfolding es_def using order by (auto simp: ops_def)
  have "ops_valid ?t es"
    unfolding es_sort
  proof (rule descending_inserts_valid)
    show "sorted_wrt (\<ge>) (map (\<lambda>i. op_start (fst (ops ! i))) order)"
      unfolding order_def by (rule sort_descending)
    show "\<forall>n\<in>set (map (\<lambda>i. op_start (fst (ops ! i))) order). is_boundary ?t n \<and> n + byte_len u \<le> u64_max"
    proof
      fix n assume "n \<in> set (map (\<lambda>i. op_start (fst (ops ! i))) order)"
      then obtain i where "i < length ?ss" "n = sel_focus (?ss ! i)" using order by (auto simp: ops_def)
      then have "is_boundary ?t n" using sel_x(2)[of "?ss ! i"] by simp
      then show "is_boundary ?t n \<and> n + byte_len u \<le> u64_max"
        using is_boundary_le[of ?t n] fits by linarith
    qed
  qed
  obtain b fs invs carets where run: "multi_apply R ops order (se_buffer s) [] [] (replicate (length ops) 0)
      = (b, fs, invs, carets)" by (metis prod_cases4)
  note spec = multi_apply_spec[OF \<open>ops_valid ?t es\<close>[unfolded es_def] run, folded es_def]
  have carets: "carets = map (\<lambda>x. sel_focus x + byte_len u) ?ss"
  proof -
    have "carets = map (\<lambda>k. snd (ops ! k)) [0..<length ops]"
      using spec foldl_update_all[OF order, of "replicate (length ops) 0"] by simp
    also have "\<dots> = map snd ops" by (rule nth_equalityI) simp_all
    finally show ?thesis by (simp add: ops_def o_def)
  qed
  define offs where "offs = map (\<lambda>i. op_start (fst (ops ! i))) order"
  have "mset offs = mset (map (\<lambda>i. op_start (fst (ops ! i))) [0..<length ops])"
    by (simp add: offs_def order_def)
  also have "map (\<lambda>i. op_start (fst (ops ! i))) [0..<length ops] = map sel_focus ?ss"
    by (rule nth_equalityI) (simp_all add: ops_def)
  finally have ms: "mset offs = mset (map sel_focus ?ss)" .
  have sorted: "sorted_wrt (\<ge>) offs" unfolding offs_def order_def by (rule sort_descending)
  define entry where "entry = \<lparr>he_forward = hd fs, he_inverse = hd invs,
     he_selection_before = map (\<lambda>x. \<lparr>hs_caret = sel_focus x,
        hs_anchor = (if \<not> sel_is_collapsed x then Some (sel_anchor x) else None)\<rparr>) ?ss
          ! min (ss_primary (se_selections s)) (length ?ss - 1),
     he_selection_after = history_collapsed (carets ! min (ss_primary (se_selections s)) (length carets - 1)),
     he_forward_ops = fs, he_inverse_ops = invs,
     he_selection_set_before = map (\<lambda>x. \<lparr>hs_caret = sel_focus x,
        hs_anchor = (if \<not> sel_is_collapsed x then Some (sel_anchor x) else None)\<rparr>) ?ss,
     he_selection_set_after = map (\<lambda>x. \<lparr>hs_caret = sel_focus x, hs_anchor = None\<rparr>)
        (map (\<lambda>caret. selection_collapsed (clamp_byte_offset R b caret)) carets),
     he_primary_index = ss_primary (se_selections s)\<rparr>"
  have s1: "s1 = s\<lparr>se_buffer := b, se_selections := fst (set_selections (se_selections s)
        (map (\<lambda>caret. selection_collapsed (clamp_byte_offset R b caret)) carets) (ss_primary (se_selections s))),
      se_history := history_record (se_history s) entry\<rparr>"
    and o1: "co_events o1 = List.map_filter (client_first_event s1) fs"
    using edit sel(2) ne run
    by (auto simp: replace_selection_or_insert_with_event_def multi_caret_edit_def plans Let_def
        order_def[symmetric] entry_def)
  have before: "he_selection_set_before entry = map (\<lambda>x. \<lparr>hs_caret = sel_focus x, hs_anchor = None\<rparr>) ?ss"
    using sel_x(1) by (simp add: entry_def)
  have "carets \<noteq> []" using sel(2) by (auto simp: carets)
  then have sels: "ss_selections (se_selections s1) = map (\<lambda>x. selection_collapsed
      (floor_boundary (buffer_string R (se_buffer s1)) (sel_focus x + byte_len u))) ?ss"
    by (simp add: s1 set_selections_def clamp_byte_offset_eq carets)
  show thesis
  proof (rule that[of es offs])
    show "es = map (\<lambda>n. Insert n u) offs" by (simp only: es_sort offs_def)
    show "\<exists>entry. se_history s1 = history_record (se_history s) entry
       \<and> he_forward_ops entry = es \<and> he_inverse_ops entry = ops_inverses ?t es
       \<and> he_forward entry = hd es \<and> he_inverse entry = hd (ops_inverses ?t es)
       \<and> he_selection_set_before entry = map (\<lambda>x. \<lparr>hs_caret = sel_focus x, hs_anchor = None\<rparr>) ?ss
       \<and> he_primary_index entry = ss_primary (se_selections s)"
      using before spec by (intro exI[of _ entry]) (simp add: s1, simp add: entry_def)
    show "selection_inv (se_selections s1)"
      using \<open>carets \<noteq> []\<close> by (cases carets) (auto simp: s1 set_selections_def selection_inv_def)
    show "co_events o1 = List.map_filter (client_first_event s1) es" using o1 spec by simp
  qed (use sorted ms spec \<open>ops_valid ?t es\<close> sels in \<open>simp_all add: s1\<close>)
qed

lemma multi_insert_undone:
  assumes sel: "bare_carets (buffer_string R (se_buffer s)) (se_selections s)" "1 < length (ss_selections (se_selections s))"
    and inv: "selection_inv (se_selections s)" and ed: "se_is_editable s"
    and fits: "byte_len (buffer_string R (se_buffer s)) + byte_len u \<le> u64_max"
    and small: "byte_len u * (length (ss_selections (se_selections s)) + 1) \<le> edit_history_max_entry_bytes"
    and edit: "replace_selection_or_insert_with_event R s u = (s1, o1)"
    and undo: "undo_with_event R s1 = (s2, o2)"
  shows "buffer_string R (se_buffer s2) = buffer_string R (se_buffer s)"
    and "map sel_focus (ss_selections (se_selections s2)) = map sel_focus (ss_selections (se_selections s))"
    and "map sel_anchor (ss_selections (se_selections s2)) = map sel_anchor (ss_selections (se_selections s))"
    and "ss_primary (se_selections s2) = ss_primary (se_selections s)"
proof -
  let ?t = "buffer_string R (se_buffer s)" and ?ss = "ss_selections (se_selections s)"
  obtain es offs where es: "es = map (\<lambda>n. Insert n u) offs" "mset offs = mset (map sel_focus ?ss)"
      "ops_valid ?t es" and str: "buffer_string R (se_buffer s1) = foldl edited_text ?t es"
    and acc: "se_access s1 = se_access s"
    and ex: "\<exists>entry. se_history s1 = history_record (se_history s) entry
       \<and> he_forward_ops entry = es \<and> he_inverse_ops entry = ops_inverses ?t es
       \<and> he_forward entry = hd es \<and> he_inverse entry = hd (ops_inverses ?t es)
       \<and> he_selection_set_before entry = map (\<lambda>x. \<lparr>hs_caret = sel_focus x, hs_anchor = None\<rparr>) ?ss
       \<and> he_primary_index entry = ss_primary (se_selections s)"
    by (rule multi_insert_result[OF sel fits edit])
  obtain entry where hist: "se_history s1 = history_record (se_history s) entry"
    and e: "he_forward_ops entry = es" "he_inverse_ops entry = ops_inverses ?t es"
      "he_forward entry = hd es" "he_inverse entry = hd (ops_inverses ?t es)"
      "he_selection_set_before entry = map (\<lambda>x. \<lparr>hs_caret = sel_focus x, hs_anchor = None\<rparr>) ?ss"
      "he_primary_index entry = ss_primary (se_selections s)"
    using ex by blast
  have len: "length es = length ?ss" using arg_cong[OF es(2), of size] by (simp add: es(1))
  have ins: "ops_inverses t (map (\<lambda>n. Insert n u) ns) = map (\<lambda>n. Delete n (sat_add n (byte_len u))) ns" for t ns
    by (induction ns arbitrary: t) simp_all
  have "entry_payload_bytes entry \<le> byte_len u * (length ?ss + 1)"
  proof -
    obtain n ns where offs: "offs = n # ns" using len sel(2) es(1) by (cases offs) auto
    have "sum_list (map operation_text_bytes es) = byte_len u * length ?ss"
      using len by (simp add: es(1) o_def sum_list_triv)
    moreover have "sum_list (map operation_text_bytes (ops_inverses ?t es)) = 0"
      by (simp add: es(1) ins o_def)
    moreover have "operation_text_bytes (hd es) = byte_len u"
      "operation_text_bytes (hd (ops_inverses ?t es)) = 0"
      by (simp_all add: es(1) offs ins)
    ultimately show ?thesis
      unfolding entry_payload_bytes_def e by (simp only: sat_add_def) simp
  qed
  then obtain h where h: "history_undo (history_record (se_history s) entry) = (h, Some entry)"
    using undo_after_record small le_trans by blast
  have "es \<noteq> []" using len sel(2) by auto
  then have "entry_is_multi entry" by (simp add: entry_is_multi_def e)
  moreover have "se_is_editable s1" using ed by (simp add: se_is_editable_def acc)
  ultimately have "undo_with_event R s1 = apply_multi_history_restore R (s1\<lparr>se_history := h\<rparr>)
      (rev (ops_inverses ?t es)) (map (\<lambda>x. \<lparr>hs_caret = sel_focus x, hs_anchor = None\<rparr>) ?ss)
      (ss_primary (se_selections s))"
    using h hist by (simp add: undo_with_event_def e)
  moreover have undone: "buffer_string R (apply_operations R (se_buffer s1) (rev (ops_inverses ?t es))) = ?t"
    using apply_operations_text[of "se_buffer s1"] reversed_inverses[OF es(3)] by (simp add: str)
  moreover have ne: "?ss \<noteq> []" "ss_primary (se_selections s) < length ?ss"
    using inv by (simp_all add: selection_inv_def)
  ultimately have s2: "buffer_string R (se_buffer s2) = ?t"
    "se_selections s2 = clamp_to R (se_buffer s2) \<lparr>ss_selections =
        map (\<lambda>x. selection_new (sel_focus x) (sel_focus x)) ?ss, ss_primary = ss_primary (se_selections s)\<rparr>"
    using undo by (auto simp: apply_multi_history_restore_def set_selections_def selection_default_def
        min_absorb1 o_def Let_def)
  show "buffer_string R (se_buffer s2) = ?t" by (rule s2(1))
  have sel_x: "sel_anchor x = sel_focus x" "is_boundary ?t (sel_focus x)" if "x \<in> set ?ss" for x
    using sel(1) that by (auto simp: bare_carets_def sel_is_collapsed_def sel_focus_def)
  show "map sel_focus (ss_selections (se_selections s2)) = map sel_focus ?ss"
    "map sel_anchor (ss_selections (se_selections s2)) = map sel_anchor ?ss"
    "ss_primary (se_selections s2) = ss_primary (se_selections s)"
    using sel_x s2(1)
    by (simp_all add: s2(2) clamp_to_def clamp_byte_offset_eq selection_new_def Let_def)
      (simp_all add: sel_focus_def cursor_new_def)
qed

end

end
