(* ===== verification/Session_Properties.thy ===== *)
theory Session_Properties imports Session_Facts begin

text \<open>
  The properties of the local editing loop: an edit and its undo with one caret and with
  several, and where the carets go when text is typed at several carets at once.
\<close>

definition one_caret_session :: "ustr editor_session" where
  "one_caret_session =
     \<lparr>se_document_id = 7, se_document_version = 1, se_behavior_version = 1, se_access = Editable 1,
      se_allows = (\<lambda>_. True), se_buffer = \<lparr>eb_rope = [97, 233, 98], eb_revision = 0\<rparr>,
      se_selections = \<lparr>ss_selections = [selection_new 1 3], ss_primary = 0\<rparr>,
      se_history = history_new\<rparr>"

text \<open>
  C4: a local edit can be undone. Applying a valid operation that changes something to an
  editable session edits the text exactly; undoing right after restores the text from before
  and puts the caret and the selection anchor back where they were. The bounds are the limits of
  64-bit offsets and of the payload a history entry may have.
\<close>

theorem local_edit_then_undo:
  assumes "crop_rope R" and "selection_inv (se_selections s)" and "se_is_editable s"
    and "valid_op (buffer_string R (se_buffer s)) e"
    and "op_start e \<noteq> op_end e \<or> op_text e \<noteq> []"
    and "byte_len (buffer_string R (se_buffer s)) + byte_len (op_text e) \<le> u64_max"
    and "byte_len (op_text e) + byte_len (prior_text (buffer_string R (se_buffer s)) e)
           \<le> edit_history_max_entry_bytes"
    and "is_boundary (buffer_string R (se_buffer s)) (sel_focus (primary (se_selections s)))"
    and "is_boundary (buffer_string R (se_buffer s)) (sel_anchor (primary (se_selections s)))"
    and "apply_and_record_local_edit R s e None = (s1, o1)" and "undo_with_event R s1 = (s2, o2)"
  shows "buffer_string R (se_buffer s1) = edited_text (buffer_string R (se_buffer s)) e
         \<and> co_changed o1 \<and> co_changed o2
         \<and> buffer_string R (se_buffer s2) = buffer_string R (se_buffer s)
         \<and> sel_focus (primary (se_selections s2)) = sel_focus (primary (se_selections s))
         \<and> sel_anchor (primary (se_selections s2)) = sel_anchor (primary (se_selections s))"
  using crop_rope.local_edit_undone[OF assms] by blast

theorem local_edit_then_undo_witness:
  "buffer_string list_rope (se_buffer (fst (undo_with_event list_rope
     (fst (apply_and_record_local_edit list_rope one_caret_session (Replace 1 3 [120]) None)))))
   = [97, 233, 98]"
proof -
  obtain s1 o1 where a: "apply_and_record_local_edit list_rope one_caret_session (Replace 1 3 [120]) None
      = (s1, o1)" by force
  obtain s2 o2 where u: "undo_with_event list_rope s1 = (s2, o2)" by force
  have t: "buffer_string list_rope (se_buffer one_caret_session) = [97, 233, 98]"
    by (simp add: one_caret_session_def buffer_string_def)
  have "buffer_string list_rope (se_buffer s2) = buffer_string list_rope (se_buffer one_caret_session)"
    by (rule local_edit_then_undo[OF list_rope_laws _ _ _ _ _ _ _ _ a u, THEN conjunct2, THEN conjunct2,
          THEN conjunct2, THEN conjunct1], unfold t)
      (simp_all add: one_caret_session_def selection_inv_def se_is_editable_def valid_op_def
        prior_text_def text_slice_def len_utf8_def u64_max_def edit_history_max_entry_bytes_def
        primary_def selection_new_def cursor_new_def sel_focus_def)
  then show ?thesis by (simp add: a[simplified] u t)
qed

text \<open>
  one undo takes back what was typed at several carets. With more than one bare caret, all
  on scalar boundaries, typing a text inserts it at every caret, from right to left; one undo
  restores the text from before, every caret and anchor, and which one is primary.
\<close>

theorem multi_caret_typing_undone:
  assumes "crop_rope R" and "bare_carets (buffer_string R (se_buffer s)) (se_selections s)"
    and "1 < length (ss_selections (se_selections s))"
    and "selection_inv (se_selections s)" and "se_is_editable s"
    and "byte_len (buffer_string R (se_buffer s)) + byte_len u \<le> u64_max"
    and "byte_len u * (length (ss_selections (se_selections s)) + 1) \<le> edit_history_max_entry_bytes"
    and "replace_selection_or_insert_with_event R s u = (s1, o1)"
    and "undo_with_event R s1 = (s2, o2)"
  shows "(\<exists>offs. sorted_wrt (\<ge>) offs
            \<and> mset offs = mset (map sel_focus (ss_selections (se_selections s)))
            \<and> buffer_string R (se_buffer s1)
                = foldl (\<lambda>t n. edited_text t (Insert n u)) (buffer_string R (se_buffer s)) offs)
         \<and> buffer_string R (se_buffer s2) = buffer_string R (se_buffer s)
         \<and> map sel_focus (ss_selections (se_selections s2)) = map sel_focus (ss_selections (se_selections s))
         \<and> map sel_anchor (ss_selections (se_selections s2)) = map sel_anchor (ss_selections (se_selections s))
         \<and> ss_primary (se_selections s2) = ss_primary (se_selections s)"
proof -
  obtain es offs where "es = map (\<lambda>n. Insert n u) offs" "sorted_wrt (\<ge>) offs"
    "mset offs = mset (map sel_focus (ss_selections (se_selections s)))"
    "buffer_string R (se_buffer s1) = foldl edited_text (buffer_string R (se_buffer s)) es"
    by (rule crop_rope.multi_insert_result[OF assms(1,2,3,6,8)])
  then show ?thesis
    using crop_rope.multi_insert_undone[OF assms] by (auto simp: foldl_map)
qed

definition two_caret_session :: "ustr editor_session" where
  "two_caret_session = one_caret_session
     \<lparr>se_buffer := \<lparr>eb_rope = [97, 97, 10, 98, 98, 10], eb_revision = 0\<rparr>,
      se_selections := \<lparr>ss_selections = [selection_collapsed 0, selection_collapsed 3], ss_primary = 1\<rparr>\<rparr>"

lemma two_caret_facts:
  "buffer_string list_rope (se_buffer two_caret_session) = [97, 97, 10, 98, 98, 10]"
  "ss_selections (se_selections two_caret_session) = [selection_collapsed 0, selection_collapsed 3]"
  "bare_carets [97, 97, 10, 98, 98, 10] (se_selections two_caret_session)"
  "selection_inv (se_selections two_caret_session)" "se_is_editable two_caret_session"
  by (simp_all add: two_caret_session_def one_caret_session_def buffer_string_def bare_carets_def
      selection_inv_def se_is_editable_def selection_collapsed_def selection_new_def cursor_new_def
      sel_is_collapsed_def sel_focus_def len_utf8_def)

theorem multi_caret_typing_undone_witness:
  "buffer_string list_rope (se_buffer (fst (undo_with_event list_rope
     (fst (replace_selection_or_insert_with_event list_rope two_caret_session [120])))))
   = [97, 97, 10, 98, 98, 10]"
proof -
  obtain s1 o1 where a: "replace_selection_or_insert_with_event list_rope two_caret_session [120] = (s1, o1)"
    by force
  obtain s2 o2 where u: "undo_with_event list_rope s1 = (s2, o2)" by force
  have "buffer_string list_rope (se_buffer s2) = buffer_string list_rope (se_buffer two_caret_session)"
    by (rule multi_caret_typing_undone[OF list_rope_laws _ _ _ _ _ _ a u, THEN conjunct2, THEN conjunct1])
      (simp_all add: two_caret_facts len_utf8_def u64_max_def edit_history_max_entry_bytes_def)
  then show ?thesis by (simp add: a u two_caret_facts)
qed

text \<open>
  where the carets go when text is typed at several of them. Each caret moves by the length
  of the text inserted at it, and no further: the insertions at the carets to its left, which
  moved its own insertion to the right, are not counted, so only the leftmost caret ends up
  behind the text typed at it.
\<close>

theorem multi_caret_carets_not_shifted:
  assumes "crop_rope R" and "bare_carets (buffer_string R (se_buffer s)) (se_selections s)"
    and "1 < length (ss_selections (se_selections s))"
    and "byte_len (buffer_string R (se_buffer s)) + byte_len u \<le> u64_max"
    and "replace_selection_or_insert_with_event R s u = (s1, o1)"
  shows "map sel_focus (ss_selections (se_selections s1))
         = map (\<lambda>x. floor_boundary (buffer_string R (se_buffer s1)) (sel_focus x + byte_len u))
             (ss_selections (se_selections s))"
  by (rule crop_rope.multi_insert_result[OF assms])
    (simp add: selection_collapsed_def selection_new_def cursor_new_def sel_focus_def)

theorem multi_caret_carets_not_shifted_witness:
  "\<exists>s1 o1. replace_selection_or_insert_with_event list_rope two_caret_session [120] = (s1, o1)
     \<and> buffer_string list_rope (se_buffer s1) = [120, 97, 97, 10, 120, 98, 98, 10]
     \<and> map sel_focus (ss_selections (se_selections s1)) = [1, 4]"
proof -
  obtain s1 o1 where a: "replace_selection_or_insert_with_event list_rope two_caret_session [120] = (s1, o1)"
    by force
  have fits: "byte_len (buffer_string list_rope (se_buffer two_caret_session)) + byte_len [120] \<le> u64_max"
    by (simp add: two_caret_facts len_utf8_def u64_max_def)
  have bare: "bare_carets (buffer_string list_rope (se_buffer two_caret_session)) (se_selections two_caret_session)"
    "1 < length (ss_selections (se_selections two_caret_session))"
    by (simp_all add: two_caret_facts)
  obtain es offs where es: "es = map (\<lambda>n. Insert n [120]) offs" "sorted_wrt (\<ge>) offs"
    "mset offs = mset (map sel_focus (ss_selections (se_selections two_caret_session)))"
    "buffer_string list_rope (se_buffer s1)
       = foldl edited_text (buffer_string list_rope (se_buffer two_caret_session)) es"
    by (rule list_rope.multi_insert_result[OF bare fits a])
  have "mset offs = {#0, 3#}"
    using es(3) by (simp add: two_caret_facts selection_collapsed_def selection_new_def
        cursor_new_def sel_focus_def)
  then have "sort [0, 3] = rev offs"
    using es(2) by (intro properties_for_sort) (simp_all add: sorted_wrt_rev)
  then have "rev offs = rev [3, 0]" by simp
  then have "offs = [3, 0]" by (simp only: rev_is_rev_conv)
  then have str: "buffer_string list_rope (se_buffer s1) = [120, 97, 97, 10, 120, 98, 98, 10]"
    by (simp add: es(1,4) two_caret_facts edited_text_def text_splice_def len_utf8_def)
  have "map sel_focus (ss_selections (se_selections s1)) = [1, 4]"
    unfolding multi_caret_carets_not_shifted[OF list_rope_laws bare fits a] str
    by (simp add: two_caret_facts selection_collapsed_def selection_new_def cursor_new_def
        sel_focus_def floor_boundary_def len_utf8_def)
  then show ?thesis using a str by (intro exI[of _ s1] exI[of _ o1] conjI) simp_all
qed

end
