(* ===== verification/Tab_Registry.thy ===== *)
theory Tab_Registry imports Clay_Prelude begin

text \<open>
  The server's tab registry (\<open>server/tab_registry.rs\<close>): the ordered tabs, each bound to a client
  connection and a workspace root, the active tab, and the revision that lets a client discard
  stale snapshots. \<open>Instant\<close> is a number of milliseconds; an operation that reads the clock takes
  the time as its argument \<open>now\<close>. \<open>registry_step\<close> is any operation of the registry.

  The lemmas show that ids stay distinct and the active tab present, that a tab is changed only
  for the connection it is bound to, and that the revision advances with every change.
\<close>

section \<open>State\<close>

record tab_entry =
  te_tab_id :: nat
  te_workspace_root_id :: nat
  te_client_id :: nat
  te_workspace_root :: string

record registry_entry =
  re_entry :: tab_entry
  re_last_activity :: nat

record tab_registry =
  tr_tabs :: "registry_entry list"
  tr_active :: "nat option"
  tr_next_tab_id :: nat
  tr_revision :: nat

record tab_registry_snapshot =
  ts_tabs :: "tab_entry list"
  ts_active :: "nat option"
  ts_revision :: nat

abbreviation tab_of :: "registry_entry \<Rightarrow> nat" where
  "tab_of row \<equiv> te_tab_id (re_entry row)"

abbreviation client_of :: "registry_entry \<Rightarrow> nat" where
  "client_of row \<equiv> te_client_id (re_entry row)"

definition registry_new :: tab_registry where
  "registry_new = \<lparr>tr_tabs = [], tr_active = None, tr_next_tab_id = 1, tr_revision = 0\<rparr>"

definition registry_snapshot :: "tab_registry \<Rightarrow> tab_registry_snapshot" where
  "registry_snapshot r =
     \<lparr>ts_tabs = map re_entry (tr_tabs r), ts_active = tr_active r, ts_revision = tr_revision r\<rparr>"

definition registry_lookup :: "tab_registry \<Rightarrow> nat \<Rightarrow> tab_entry option" where
  "registry_lookup r tab_id = map_option re_entry (find (\<lambda>row. tab_of row = tab_id) (tr_tabs r))"

definition tab_for_client :: "tab_registry \<Rightarrow> nat \<Rightarrow> nat option" where
  "tab_for_client r client_id = map_option tab_of (find (\<lambda>row. client_of row = client_id) (tr_tabs r))"

text \<open>\<open>self.revision += 1\<close>.\<close>

definition bump :: "tab_registry \<Rightarrow> tab_registry" where
  "bump r = r\<lparr>tr_revision := wrap_add (tr_revision r) 1\<rparr>"

definition set_row :: "tab_registry \<Rightarrow> nat \<Rightarrow> (registry_entry \<Rightarrow> registry_entry) \<Rightarrow> tab_registry" where
  "set_row r index f = r\<lparr>tr_tabs := (tr_tabs r)[index := f (tr_tabs r ! index)]\<rparr>"

section \<open>Operations\<close>

definition create_tab ::
  "tab_registry \<Rightarrow> nat \<Rightarrow> nat \<Rightarrow> nat \<Rightarrow> string \<Rightarrow> tab_registry \<times> nat" where
  "create_tab r now client_id workspace_root_id workspace_root =
     (let tab_id = tr_next_tab_id r in
      (bump (r\<lparr>tr_next_tab_id := sat_add (tr_next_tab_id r) 1,
               tr_tabs := tr_tabs r @
                 [\<lparr>re_entry = \<lparr>te_tab_id = tab_id, te_workspace_root_id = workspace_root_id,
                               te_client_id = client_id, te_workspace_root = workspace_root\<rparr>,
                   re_last_activity = now\<rparr>],
               tr_active := Some tab_id\<rparr>),
       tab_id))"

definition open_workspace ::
  "tab_registry \<Rightarrow> nat \<Rightarrow> nat \<Rightarrow> nat \<Rightarrow> nat \<Rightarrow> string \<Rightarrow> tab_registry \<times> bool" where
  "open_workspace r now tab_id client_id workspace_root_id workspace_root =
     (case position (\<lambda>row. tab_of row = tab_id) (tr_tabs r) of
        None \<Rightarrow> (r, False)
      | Some index \<Rightarrow>
          if client_of (tr_tabs r ! index) \<noteq> client_id then (r, False)
          else
            (bump (set_row r index (\<lambda>row.
               \<lparr>re_entry = (re_entry row)\<lparr>te_workspace_root_id := workspace_root_id,
                                           te_workspace_root := workspace_root\<rparr>,
                re_last_activity = now\<rparr>)), True))"

definition close_tab :: "tab_registry \<Rightarrow> nat \<Rightarrow> nat \<Rightarrow> tab_registry \<times> bool" where
  "close_tab r tab_id client_id =
     (case position (\<lambda>row. tab_of row = tab_id \<and> client_of row = client_id) (tr_tabs r) of
        None \<Rightarrow> (r, False)
      | Some index \<Rightarrow>
          let r = r\<lparr>tr_tabs := remove_at index (tr_tabs r)\<rparr>;
              r = (if tr_active r = Some tab_id
                   then r\<lparr>tr_active := (if tr_tabs r = [] then None else Some (tab_of (last (tr_tabs r))))\<rparr>
                   else r) in
          (bump r, True))"

definition row_alive :: "nat \<Rightarrow> nat \<Rightarrow> nat set \<Rightarrow> registry_entry \<Rightarrow> bool" where
  "row_alive now ttl live row \<longleftrightarrow> client_of row \<in> live \<or> now - re_last_activity row < ttl"

definition sweep_expired ::
  "tab_registry \<Rightarrow> nat \<Rightarrow> nat \<Rightarrow> nat set \<Rightarrow> tab_registry \<times> nat list" where
  "sweep_expired r now ttl live =
     (let kept = filter (row_alive now ttl live) (tr_tabs r);
          removed = map tab_of (filter (\<lambda>row. \<not> row_alive now ttl live row) (tr_tabs r));
          last_kept = (if kept = [] then None else Some (tab_of (last kept)));
          r = r\<lparr>tr_tabs := kept\<rparr> in
      if removed = [] then (r, removed)
      else
        let r = (case tr_active r of
                   Some active \<Rightarrow> if active \<in> set removed then r\<lparr>tr_active := last_kept\<rparr> else r
                 | None \<Rightarrow> r) in
        (bump r, removed))"

definition activate :: "tab_registry \<Rightarrow> nat \<Rightarrow> nat \<Rightarrow> nat \<Rightarrow> tab_registry \<times> bool" where
  "activate r now tab_id client_id =
     (case position (\<lambda>row. tab_of row = tab_id) (tr_tabs r) of
        None \<Rightarrow> (r, False)
      | Some index \<Rightarrow>
          if client_of (tr_tabs r ! index) \<noteq> client_id then (r, False)
          else
            let r = set_row r index (\<lambda>row. row\<lparr>re_last_activity := now\<rparr>) in
            (if tr_active r \<noteq> Some tab_id then bump (r\<lparr>tr_active := Some tab_id\<rparr>) else r, True))"

definition reclaim :: "tab_registry \<Rightarrow> nat \<Rightarrow> nat \<Rightarrow> nat \<Rightarrow> tab_registry \<times> bool" where
  "reclaim r now tab_id client_id =
     (case position (\<lambda>row. tab_of row = tab_id) (tr_tabs r) of
        None \<Rightarrow> (r, False)
      | Some index \<Rightarrow>
          let r = (if client_of (tr_tabs r ! index) \<noteq> client_id
                   then bump (set_row r index
                          (\<lambda>row. row\<lparr>re_entry := (re_entry row)\<lparr>te_client_id := client_id\<rparr>\<rparr>))
                   else r) in
          (set_row r index (\<lambda>row. row\<lparr>re_last_activity := now\<rparr>), True))"

definition move_left :: "tab_registry \<Rightarrow> nat \<Rightarrow> nat \<Rightarrow> nat \<Rightarrow> tab_registry \<times> bool" where
  "move_left r now tab_id client_id =
     (case position (\<lambda>row. tab_of row = tab_id) (tr_tabs r) of
        None \<Rightarrow> (r, False)
      | Some index \<Rightarrow>
          if client_of (tr_tabs r ! index) \<noteq> client_id then (r, False)
          else
            let r = set_row r index (\<lambda>row. row\<lparr>re_last_activity := now\<rparr>) in
            if index = 0 then (r, False)
            else (bump (r\<lparr>tr_tabs := swap_at index (index - 1) (tr_tabs r)\<rparr>), True))"

definition move_right :: "tab_registry \<Rightarrow> nat \<Rightarrow> nat \<Rightarrow> nat \<Rightarrow> tab_registry \<times> bool" where
  "move_right r now tab_id client_id =
     (case position (\<lambda>row. tab_of row = tab_id) (tr_tabs r) of
        None \<Rightarrow> (r, False)
      | Some index \<Rightarrow>
          if client_of (tr_tabs r ! index) \<noteq> client_id then (r, False)
          else
            let r = set_row r index (\<lambda>row. row\<lparr>re_last_activity := now\<rparr>) in
            if index + 1 \<ge> length (tr_tabs r) then (r, False)
            else (bump (r\<lparr>tr_tabs := swap_at index (index + 1) (tr_tabs r)\<rparr>), True))"

definition move_to :: "tab_registry \<Rightarrow> nat \<Rightarrow> nat \<Rightarrow> nat \<Rightarrow> nat \<Rightarrow> tab_registry \<times> bool" where
  "move_to r now tab_id client_id pos =
     (case position (\<lambda>row. tab_of row = tab_id) (tr_tabs r) of
        None \<Rightarrow> (r, False)
      | Some index \<Rightarrow>
          if client_of (tr_tabs r ! index) \<noteq> client_id then (r, False)
          else
            let r = set_row r index (\<lambda>row. row\<lparr>re_last_activity := now\<rparr>) in
            if pos = 0 \<or> pos > length (tr_tabs r) then (r, False)
            else
              let target = pos - 1 in
              if target = index then (r, False)
              else
                let entry = tr_tabs r ! index in
                (bump (r\<lparr>tr_tabs := insert_at_index target entry (remove_at index (tr_tabs r))\<rparr>), True))"

text \<open>Any operation, by the connection \<open>client\<close>; a sweep and a new tab belong to none.\<close>

inductive registry_step :: "nat option \<Rightarrow> tab_registry \<Rightarrow> tab_registry \<Rightarrow> bool" where
  "registry_step None r (fst (create_tab r now client root_id root))"
| "registry_step None r (fst (sweep_expired r now ttl live))"
| "registry_step None r (fst (reclaim r now tab client))"
| "registry_step (Some client) r (fst (open_workspace r now tab client root_id root))"
| "registry_step (Some client) r (fst (close_tab r tab client))"
| "registry_step (Some client) r (fst (activate r now tab client))"
| "registry_step (Some client) r (fst (move_left r now tab client))"
| "registry_step (Some client) r (fst (move_right r now tab client))"
| "registry_step (Some client) r (fst (move_to r now tab client pos))"

inductive registry_reachable :: "tab_registry \<Rightarrow> bool" where
  "registry_reachable registry_new"
| "registry_reachable r \<Longrightarrow> registry_step by_client r r' \<Longrightarrow> registry_reachable r'"


inductive registry_run :: "nat \<Rightarrow> tab_registry \<Rightarrow> tab_registry \<Rightarrow> bool" where
  "registry_run 0 r r"
| "registry_run n r r' \<Longrightarrow> registry_step by_client r' r'' \<Longrightarrow> registry_run (Suc n) r r''"


lemmas registry_ops = create_tab_def sweep_expired_def reclaim_def open_workspace_def close_tab_def
  activate_def move_left_def move_right_def move_to_def

section \<open>Facts on the rows\<close>

abbreviation tab_ids :: "tab_registry \<Rightarrow> nat list" where
  "tab_ids r \<equiv> map tab_of (tr_tabs r)"

lemma bump_fields [simp]:
  "tr_tabs (bump r) = tr_tabs r" "tr_active (bump r) = tr_active r"
  "tr_next_tab_id (bump r) = tr_next_tab_id r"
  "tr_revision (bump r) = wrap_add (tr_revision r) 1"
  by (simp_all add: bump_def)

lemma set_row_fields [simp]:
  "tr_active (set_row r i f) = tr_active r" "tr_next_tab_id (set_row r i f) = tr_next_tab_id r"
  "tr_revision (set_row r i f) = tr_revision r" "length (tr_tabs (set_row r i f)) = length (tr_tabs r)"
  by (simp_all add: set_row_def)

lemma map_update_same: "i < length xs \<Longrightarrow> g y = g (xs ! i) \<Longrightarrow> map g (xs[i := y]) = map g xs"
  by (metis length_map list_update_id map_update nth_map)

lemma set_row_map:
  assumes "i < length (tr_tabs r)" and "\<And>row. g (f row) = g row"
  shows "map g (tr_tabs (set_row r i f)) = map g (tr_tabs r)"
  using assms by (simp add: set_row_def map_update_same)

lemma set_row_nth: "i < length (tr_tabs r) \<Longrightarrow> tr_tabs (set_row r i f) ! i = f (tr_tabs r ! i)"
  by (simp add: set_row_def)







section \<open>What an operation does to the rows\<close>

definition active_ok :: "tab_registry \<Rightarrow> bool" where
  "active_ok r \<longleftrightarrow> (case tr_active r of None \<Rightarrow> tr_tabs r = [] | Some tab \<Rightarrow> tab \<in> set (tab_ids r))"

definition ids_ok :: "tab_registry \<Rightarrow> bool" where
  "ids_ok r \<longleftrightarrow> distinct (tab_ids r) \<and> (\<forall>tab\<in>set (tab_ids r). tab < tr_next_tab_id r)"

text \<open>A permutation of the rows and an update that keeps the ids keep both.\<close>

definition same_ids :: "tab_registry \<Rightarrow> tab_registry \<Rightarrow> bool" where
  "same_ids r r' \<longleftrightarrow> set (tab_ids r') = set (tab_ids r) \<and> (distinct (tab_ids r) \<longrightarrow> distinct (tab_ids r')) \<and>
     tr_next_tab_id r' = tr_next_tab_id r \<and>
     (tr_active r' = tr_active r \<or> (\<exists>tab\<in>set (tab_ids r). tr_active r' = Some tab))"

lemma same_ids_ok:
  assumes "same_ids r r'"
  shows "ids_ok r \<Longrightarrow> ids_ok r'" and "active_ok r \<Longrightarrow> active_ok r'"
proof -
  show "ids_ok r \<Longrightarrow> ids_ok r'" using assms by (simp add: same_ids_def ids_ok_def del: set_map)
  have ids: "set (tab_ids r') = set (tab_ids r)" using assms unfolding same_ids_def by blast
  then have empty: "tr_tabs r = [] \<longleftrightarrow> tr_tabs r' = []"
    by (metis list.map_disc_iff set_empty)
  assume ok: "active_ok r"
  show "active_ok r'"
  proof (cases "tr_active r' = tr_active r")
    case True
    then show ?thesis using ok ids empty by (simp add: active_ok_def split: option.splits del: set_map)
  next
    case False
    then obtain tab where "tab \<in> set (tab_ids r)" "tr_active r' = Some tab"
      using assms unfolding same_ids_def by blast
    then show ?thesis using ids by (simp add: active_ok_def del: set_map)
  qed
qed

lemma same_ids_refl [simp]: "same_ids r r"
  by (simp add: same_ids_def)

lemma same_ids_bump [simp]: "same_ids r (bump r') = same_ids r r'"
  by (simp add: same_ids_def)

lemma same_ids_set_row:
  assumes "same_ids r r'" and "i < length (tr_tabs r')" and "\<And>row. tab_of (f row) = tab_of row"
  shows "same_ids r (set_row r' i f)"
  using assms(1) set_row_map[of i r' tab_of f, OF assms(2,3)] by (simp add: same_ids_def del: set_map)

lemma same_ids_swap:
  assumes "same_ids r r'" and "i < length (tr_tabs r')" and "j < length (tr_tabs r')"
  shows "same_ids r (r'\<lparr>tr_tabs := swap_at i j (tr_tabs r')\<rparr>)"
  using assms by (simp add: same_ids_def map_swap_at del: set_map)

lemma same_ids_move:
  assumes "same_ids r r'" and "i < length (tr_tabs r')"
  shows "same_ids r (r'\<lparr>tr_tabs := insert_at_index k (tr_tabs r' ! i) (remove_at i (tr_tabs r'))\<rparr>)"
proof -
  let ?xs = "tab_ids r'"
  let ?ys = "insert_at_index k (?xs ! i) (remove_at i ?xs)"
  have i: "i < length ?xs" using assms(2) by simp
  have "set ?xs = set (take i ?xs @ ?xs ! i # drop (Suc i) ?xs)"
    using split_at_index[OF i] by simp
  then have set: "set ?ys = set ?xs"
    by (auto simp: set_insert_at_index remove_at_def)
  have distinct: "distinct ?ys" if "distinct ?xs"
    using that i by (simp add: distinct_insert_at_index set_remove_at distinct_remove_at del: set_map)
  have "map tab_of (insert_at_index k (tr_tabs r' ! i) (remove_at i (tr_tabs r'))) = ?ys"
    using assms(2) by (simp add: map_insert_at_index map_remove_at)
  then show ?thesis
    using assms(1) set distinct by (simp add: same_ids_def del: set_map)
qed

lemma same_ids_activated:
  assumes "same_ids r r'" and "i < length (tr_tabs r')"
  shows "same_ids r (r'\<lparr>tr_active := Some (tab_of (tr_tabs r' ! i))\<rparr>)"
proof -
  have "tab_of (tr_tabs r' ! i) \<in> set (tab_ids r)"
    using assms by (metis length_map nth_map nth_mem same_ids_def)
  then show ?thesis using assms(1) by (simp add: same_ids_def del: set_map)
qed

lemma owner_operation_same_ids:
  shows "same_ids r (fst (open_workspace r now tab client root_id root))"
    and "same_ids r (fst (reclaim r now tab client))"
    and "same_ids r (fst (activate r now tab client))"
    and "same_ids r (fst (move_left r now tab client))"
    and "same_ids r (fst (move_right r now tab client))"
    and "same_ids r (fst (move_to r now tab client pos))"
proof -
  show "same_ids r (fst (open_workspace r now tab client root_id root))"
    by (auto simp: open_workspace_def Let_def intro!: same_ids_set_row dest: position_SomeD split: option.split)
  show "same_ids r (fst (reclaim r now tab client))"
    by (auto simp: reclaim_def Let_def intro!: same_ids_set_row dest: position_SomeD split: option.split)
  show "same_ids r (fst (move_left r now tab client))"
    by (auto simp: move_left_def Let_def intro!: same_ids_set_row same_ids_swap
        dest: position_SomeD split: option.split)
  show "same_ids r (fst (move_right r now tab client))"
    by (auto simp: move_right_def Let_def intro!: same_ids_set_row same_ids_swap
        dest: position_SomeD split: option.split)
  show "same_ids r (fst (move_to r now tab client pos))"
    by (auto simp: move_to_def Let_def intro!: same_ids_set_row same_ids_move
        dest: position_SomeD split: option.split)
  show "same_ids r (fst (activate r now tab client))"
  proof (cases "position (\<lambda>row. tab_of row = tab) (tr_tabs r)")
    case (Some i)
    let ?r = "set_row r i (\<lambda>row. row\<lparr>re_last_activity := now\<rparr>)"
    have i: "i < length (tr_tabs r)" "tab_of (tr_tabs r ! i) = tab"
      using position_SomeD[OF Some] by auto
    have "same_ids r ?r" using i by (auto intro: same_ids_set_row)
    moreover from this have "same_ids r (?r\<lparr>tr_active := Some tab\<rparr>)"
      using same_ids_activated[of r ?r i] i by (simp add: set_row_nth)
    ultimately show ?thesis by (simp add: activate_def Some Let_def)
  qed (simp add: activate_def)
qed

lemma create_tab_ok:
  assumes "tr_next_tab_id r < u64_max"
  shows "ids_ok r \<Longrightarrow> ids_ok (fst (create_tab r now client root_id root))"
  using assms by (fastforce simp: ids_ok_def create_tab_def Let_def sat_add_def)

lemma create_tab_active: "active_ok (fst (create_tab r now client root_id root))"
  by (simp add: active_ok_def create_tab_def Let_def)

lemma tabs_subset_ok:
  assumes "set (tab_ids r') \<subseteq> set (tab_ids r)" and "distinct (tab_ids r) \<longrightarrow> distinct (tab_ids r')"
    and "tr_next_tab_id r' = tr_next_tab_id r"
  shows "ids_ok r \<Longrightarrow> ids_ok r'"
  using assms by (auto simp: ids_ok_def)

lemma close_tab_ok:
  shows "ids_ok r \<Longrightarrow> ids_ok (fst (close_tab r tab client))"
    and "active_ok r \<Longrightarrow> active_ok (fst (close_tab r tab client))"
proof -
  show "ids_ok r \<Longrightarrow> ids_ok (fst (close_tab r tab client))"
    by (erule tabs_subset_ok[rotated -1])
      (auto simp: close_tab_def Let_def map_remove_at distinct_remove_at simp del: set_map
        dest: subsetD[OF set_remove_at_subset] split: option.split)
  assume ok: "active_ok r"
  show "active_ok (fst (close_tab r tab client))"
  proof (cases "position (\<lambda>row. tab_of row = tab \<and> client_of row = client) (tr_tabs r)")
    case (Some i)
    have i: "i < length (tr_tabs r)" "tab_of (tr_tabs r ! i) = tab"
      using position_SomeD[OF Some] by auto
    have kept: "a \<in> tab_of ` set (remove_at i (tr_tabs r))" if "a \<in> set (tab_ids r)" "a \<noteq> tab" for a
    proof -
      have "set (tr_tabs r) = set (take i (tr_tabs r) @ tr_tabs r ! i # drop (Suc i) (tr_tabs r))"
        using split_at_index[OF i(1)] by simp
      then show ?thesis using that i(2) by (auto simp: remove_at_def)
    qed
    show ?thesis
      using ok kept i by (auto simp: active_ok_def close_tab_def Some Let_def split: option.splits)
  qed (use ok in \<open>simp add: close_tab_def\<close>)
qed

lemma sweep_ok:
  shows "ids_ok r \<Longrightarrow> ids_ok (fst (sweep_expired r now ttl live))"
    and "active_ok r \<Longrightarrow> active_ok (fst (sweep_expired r now ttl live))"
proof -
  show "ids_ok r \<Longrightarrow> ids_ok (fst (sweep_expired r now ttl live))"
    by (erule tabs_subset_ok[rotated -1])
      (auto simp: sweep_expired_def Let_def distinct_map_filter split: option.split)
  assume ok: "active_ok r"
  show "active_ok (fst (sweep_expired r now ttl live))"
  proof (cases "filter (\<lambda>row. \<not> row_alive now ttl live row) (tr_tabs r) = []")
    case True
    then have "filter (row_alive now ttl live) (tr_tabs r) = tr_tabs r"
      by (auto simp: filter_empty_conv intro: filter_True)
    then show ?thesis using ok True by (simp add: sweep_expired_def Let_def active_ok_def)
  next
    case False
    have "filter (row_alive now ttl live) (tr_tabs r) \<noteq> [] \<Longrightarrow>
        last (filter (row_alive now ttl live) (tr_tabs r)) \<in> set (tr_tabs r) \<and>
        row_alive now ttl live (last (filter (row_alive now ttl live) (tr_tabs r)))"
      using last_in_set[of "filter (row_alive now ttl live) (tr_tabs r)"] by (simp del: last_in_set)
    then show ?thesis using ok False
      by (auto simp: sweep_expired_def Let_def active_ok_def image_iff filter_empty_conv split: option.splits)
  qed
qed

section \<open>Steps\<close>

lemma step_next_mono:
  "registry_step c r r' \<Longrightarrow> tr_next_tab_id r \<le> u64_max \<Longrightarrow> tr_next_tab_id r \<le> tr_next_tab_id r' \<and> tr_next_tab_id r' \<le> u64_max"
  by (erule registry_step.cases)
    (auto simp: registry_ops Let_def sat_add_ge split: option.split)

lemma step_active_ok: "registry_step c r r' \<Longrightarrow> active_ok r \<Longrightarrow> active_ok r'"
  by (erule registry_step.cases)
    (auto intro: create_tab_active sweep_ok(2) close_tab_ok(2) same_ids_ok(2)[rotated] owner_operation_same_ids)

lemma step_ids_ok:
  "registry_step c r r' \<Longrightarrow> tr_next_tab_id r < u64_max \<Longrightarrow> ids_ok r \<Longrightarrow> ids_ok r'"
  by (erule registry_step.cases)
    (auto intro: create_tab_ok sweep_ok(1) close_tab_ok(1) same_ids_ok(1)[rotated] owner_operation_same_ids)

lemma reachable_ok:
  "registry_reachable r \<Longrightarrow>
     tr_next_tab_id r \<le> u64_max \<and> active_ok r \<and> (tr_next_tab_id r < u64_max \<longrightarrow> ids_ok r)"
proof (induction rule: registry_reachable.induct)
  case 1
  show ?case by (simp add: registry_new_def active_ok_def ids_ok_def u64_max_def)
next
  case (2 r c r')
  then show ?case
    using step_next_mono[OF 2(2)] step_active_ok[OF 2(2)] step_ids_ok[OF 2(2)] by fastforce
qed







text \<open>An operation that does not advance the revision leaves the snapshot as it is.\<close>

definition revised :: "tab_registry \<Rightarrow> tab_registry \<Rightarrow> bool" where
  "revised r r' \<longleftrightarrow> registry_snapshot r' = registry_snapshot r \<or> tr_revision r' = wrap_add (tr_revision r) 1"

lemma revised_refl [simp]: "revised r r"
  by (simp add: revised_def)

lemma revised_bump: "tr_revision r' = tr_revision r \<Longrightarrow> revised r (bump r')"
  by (simp add: revised_def)

lemma snapshot_touch:
  "i < length (tr_tabs r) \<Longrightarrow>
     registry_snapshot (set_row r i (\<lambda>row. row\<lparr>re_last_activity := now\<rparr>)) = registry_snapshot r"
  by (simp add: registry_snapshot_def set_row_map)

lemma revised_touch:
  "i < length (tr_tabs r') \<Longrightarrow> revised r (set_row r' i (\<lambda>row. row\<lparr>re_last_activity := now\<rparr>)) = revised r r'"
  by (simp add: revised_def snapshot_touch)

lemma sweep_revised: "revised r (fst (sweep_expired r now ttl live))"
proof (cases "filter (\<lambda>row. \<not> row_alive now ttl live row) (tr_tabs r) = []")
  case True
  then have "filter (row_alive now ttl live) (tr_tabs r) = tr_tabs r"
    by (auto simp: filter_empty_conv intro: filter_True)
  then show ?thesis using True by (simp add: sweep_expired_def Let_def)
next
  case False
  then show ?thesis by (auto simp: sweep_expired_def Let_def intro!: revised_bump split: option.split)
qed

lemma step_revised: "registry_step c r r' \<Longrightarrow> revised r r'"
proof (induction rule: registry_step.induct)
  case (2 r now ttl live)
  show ?case by (rule sweep_revised)
next
  case (3 r now tab client)
  show ?case
  proof (cases "position (\<lambda>row. tab_of row = tab) (tr_tabs r)")
    case (Some i)
    then have "i < length (tr_tabs r)" by (simp add: position_SomeD)
    then show ?thesis by (simp add: reclaim_def Some Let_def revised_touch revised_bump)
  qed (simp add: reclaim_def)
qed (auto simp: registry_ops Let_def revised_touch intro!: revised_bump dest: position_SomeD
       split: option.split simp del: split_paired_All)

lemma run_revision:
  "registry_run n r r' \<Longrightarrow> tr_revision r \<le> u64_max \<Longrightarrow>
     \<exists>k\<le>n. tr_revision r' = wrap_add (tr_revision r) k \<and> (k = 0 \<longrightarrow> registry_snapshot r' = registry_snapshot r)"
proof (induction rule: registry_run.induct)
  case (1 r)
  then show ?case by (auto simp: wrap_add_exact)
next
  case (2 n r r' c r'')
  then obtain k where k: "k \<le> n" "tr_revision r' = wrap_add (tr_revision r) k"
    "k = 0 \<longrightarrow> registry_snapshot r' = registry_snapshot r" by blast
  consider "registry_snapshot r'' = registry_snapshot r'" | "tr_revision r'' = wrap_add (tr_revision r') 1"
    using step_revised[OF 2(2)] unfolding revised_def by blast
  then show ?case
  proof cases
    case 1
    then have "tr_revision r'' = tr_revision r'" by (simp add: registry_snapshot_def)
    then show ?thesis using 1 k by (auto intro!: exI[of _ k])
  next
    case 2
    then have "tr_revision r'' = wrap_add (tr_revision r) (Suc k)"
      using k(2) by (simp add: wrap_add_def mod_Suc_eq)
    then show ?thesis using k(1) by (intro exI[of _ "Suc k"]) auto
  qed
qed

section \<open>Properties\<close>

text \<open>
  C25: in every registry the server can reach, as long as its id counter has not saturated, tab ids
  are distinct and below the counter, so a new tab never reuses an id; and always there is an
  active tab exactly when there is a tab, and it is one of the tabs, whichever tabs were
  closed, swept, moved or taken over in between.
\<close>

theorem tab_ids_distinct_active_present:
  assumes "registry_reachable r"
  shows "(tr_next_tab_id r < u64_max \<longrightarrow>
            distinct (tab_ids r) \<and> (\<forall>tab\<in>set (tab_ids r). tab < tr_next_tab_id r)) \<and>
         (tr_active r = None \<longleftrightarrow> tr_tabs r = []) \<and>
         (\<forall>tab. tr_active r = Some tab \<longrightarrow> registry_lookup r tab \<noteq> None)"
proof -
  have "active_ok r" and "tr_next_tab_id r < u64_max \<longrightarrow> ids_ok r"
    using reachable_ok[OF assms] by blast+
  moreover have "registry_lookup r tab \<noteq> None" if "tab \<in> set (tab_ids r)" for tab
    using that by (auto simp: registry_lookup_def find_None_iff)
  ultimately show ?thesis
    unfolding ids_ok_def active_ok_def by (auto split: option.splits)
qed

definition two_tabs :: tab_registry where
  "two_tabs = fst (create_tab (fst (create_tab registry_new 0 7 1 ''/a'')) 5 8 2 ''/b'')"

lemma two_tabs_eq:
  "two_tabs = \<lparr>tr_tabs = [\<lparr>re_entry = \<lparr>te_tab_id = 1, te_workspace_root_id = 1, te_client_id = 7,
                                      te_workspace_root = ''/a''\<rparr>, re_last_activity = 0\<rparr>,
                         \<lparr>re_entry = \<lparr>te_tab_id = 2, te_workspace_root_id = 2, te_client_id = 8,
                                      te_workspace_root = ''/b''\<rparr>, re_last_activity = 5\<rparr>],
              tr_active = Some 2, tr_next_tab_id = 3, tr_revision = 2\<rparr>"
  by (simp add: two_tabs_def create_tab_def registry_new_def Let_def sat_add_def wrap_add_def u64_max_def bump_def)

lemma two_tabs_reachable: "registry_reachable two_tabs"
  unfolding two_tabs_def
  by (rule registry_reachable.intros(2)[OF registry_reachable.intros(2)[OF
        registry_reachable.intros(1) registry_step.intros(1)] registry_step.intros(1)])

theorem tab_ids_distinct_active_present_witness:
  "distinct (tab_ids two_tabs) \<and> registry_lookup two_tabs 2 \<noteq> None"
  using tab_ids_distinct_active_present[OF two_tabs_reachable]
  by (simp add: two_tabs_eq u64_max_def)




text \<open>
  The revision lets a client drop a snapshot it has seen: after any number of operations up to
  the wrap-around of the counter, a registry with the same revision has the same tabs,
  bindings, roots, order and active tab.
\<close>

theorem equal_revision_equal_snapshot:
  assumes "registry_run n r r'" and "n \<le> u64_max" and "tr_revision r \<le> u64_max"
    and "tr_revision r' = tr_revision r"
  shows "registry_snapshot r' = registry_snapshot r"
proof -
  obtain k where k: "k \<le> n" "tr_revision r' = wrap_add (tr_revision r) k"
    "k = 0 \<longrightarrow> registry_snapshot r' = registry_snapshot r"
    using run_revision[OF assms(1,3)] by blast
  have "(tr_revision r + k) mod (u64_max + 1) = tr_revision r mod (u64_max + 1)"
    using k(2) assms(3,4) by (simp add: wrap_add_def)
  then have "(u64_max + 1) dvd k"
    by (metis add_diff_cancel_left' le_add1 mod_eq_dvd_iff_nat)
  then have "k = 0"
    using k(1) assms(2) by (auto dest: dvd_imp_le)
  then show ?thesis using k(3) by simp
qed

theorem equal_revision_equal_snapshot_witness:
  "registry_snapshot (fst (activate two_tabs 9 2 8)) = registry_snapshot two_tabs \<and>
   fst (activate two_tabs 9 2 8) \<noteq> two_tabs"
proof -
  have "registry_run 1 two_tabs (fst (activate two_tabs 9 2 8))"
    using registry_run.intros(2)[OF registry_run.intros(1) registry_step.intros(6)[of 8 two_tabs 9 2]] by simp
  from equal_revision_equal_snapshot[OF this] show ?thesis
    by (simp add: two_tabs_eq activate_def set_row_def u64_max_def)
qed

end
