(* ===== verification/Bounded_Channel.thy ===== *)
theory Bounded_Channel imports Clay_Prelude begin

text \<open>
  The bounded channels of the package \<open>tokio\<close> (\<open>mpsc::channel\<close>, \<open>try_send\<close>, \<open>recv\<close>), which
  the connections and the server's output use. The package is not part of the repository, so a channel is a
  parameter: the locale \<open>bounded_channel\<close> states what the code relies on when it sends, and
  \<open>fifo_channel\<close> adds the receiving end. A channel is one value that both ends share: \<open>send\<close> gives the
  channel after an accepted message and \<open>None\<close> for a refused one.

  A record with a list is a channel with these laws: its interpretation shows that they can hold, and the witnesses
  of the properties compute with it.
\<close>

section \<open>The channels\<close>

text \<open>A channel after a payload is offered to it, accepted or not.\<close>

definition offer :: "('ch \<Rightarrow> 'a \<Rightarrow> 'ch option) \<Rightarrow> 'a \<Rightarrow> 'ch \<Rightarrow> 'ch" where
  "offer send p ch = (case send ch p of None \<Rightarrow> ch | Some ch' \<Rightarrow> ch')"

locale bounded_channel =
  fixes mk :: "nat \<Rightarrow> 'ch"
    and send :: "'ch \<Rightarrow> 'a \<Rightarrow> 'ch option"
    and queued :: "'ch \<Rightarrow> 'a list"
    and capacity :: "'ch \<Rightarrow> nat"
    and open_receiver :: "'ch \<Rightarrow> bool"
  assumes queued_mk: "queued (mk n) = []"
    and capacity_mk: "capacity (mk n) = n"
    and open_mk: "open_receiver (mk n)"
    and send_accepts: "send ch p \<noteq> None \<longleftrightarrow> open_receiver ch \<and> length (queued ch) < capacity ch"
    and queued_send: "send ch p = Some ch' \<Longrightarrow> queued ch' = queued ch @ [p]"
    and capacity_send: "send ch p = Some ch' \<Longrightarrow> capacity ch' = capacity ch"
    and open_send: "send ch p = Some ch' \<Longrightarrow> open_receiver ch' = open_receiver ch"
begin

text \<open>Without a receiver that drains it, a channel holds the first payloads up to its capacity.\<close>

lemma queued_send_all:
  "open_receiver ch \<Longrightarrow> length (queued ch) \<le> capacity ch \<Longrightarrow>
     queued (fold (offer send) ps ch) = queued ch @ take (capacity ch - length (queued ch)) ps"
proof (induction ps arbitrary: ch)
  case (Cons p ps)
  show ?case
  proof (cases "send ch p")
    case None
    then have "length (queued ch) = capacity ch" using Cons.prems send_accepts[of ch p] by simp
    then show ?thesis using None Cons by (simp add: offer_def)
  next
    case (Some ch')
    then have "length (queued ch) < capacity ch" using send_accepts[of ch p] by simp
    moreover have "capacity ch' = capacity ch" "queued ch' = queued ch @ [p]" "open_receiver ch'"
      using Some Cons.prems by (simp_all add: capacity_send queued_send open_send)
    ultimately show ?thesis
      using Some Cons.IH[of ch'] by (cases "capacity ch - length (queued ch)") (auto simp: offer_def diff_Suc)
  qed
qed simp

lemma queued_offer:
  "queued (offer send p ch) =
     queued ch @ (if open_receiver ch \<and> length (queued ch) < capacity ch then [p] else [])"
  using send_accepts[of ch p] by (auto simp: offer_def queued_send split: option.split)

end

text \<open>The receiving end takes the oldest message.\<close>

locale fifo_channel = bounded_channel mk send queued capacity open_receiver
  for mk :: "nat \<Rightarrow> 'ch" and send :: "'ch \<Rightarrow> 'a \<Rightarrow> 'ch option" and queued :: "'ch \<Rightarrow> 'a list"
    and capacity :: "'ch \<Rightarrow> nat" and open_receiver :: "'ch \<Rightarrow> bool" +
  fixes recv :: "'ch \<Rightarrow> ('a \<times> 'ch) option"
  assumes recv_None: "recv ch = None \<longleftrightarrow> queued ch = []"
    and recv_Some: "recv ch = Some (m, ch') \<Longrightarrow>
          queued ch = m # queued ch' \<and> capacity ch' = capacity ch \<and> open_receiver ch' = open_receiver ch"
begin

lemma recv_Cons:
  assumes "queued ch = m # ms"
  obtains ch' where "recv ch = Some (m, ch')" and "queued ch' = ms"
    and "capacity ch' = capacity ch" and "open_receiver ch' = open_receiver ch"
proof -
  obtain m' ch' where r: "recv ch = Some (m', ch')"
    using assms recv_None[of ch] by fastforce
  then show thesis using recv_Some[OF r] assms that by simp
qed

end

section \<open>A list as a channel\<close>

record 'a list_channel =
  lc_queue :: "'a list"
  lc_capacity :: nat
  lc_open :: bool

definition list_mk :: "nat \<Rightarrow> 'a list_channel" where
  "list_mk n = \<lparr>lc_queue = [], lc_capacity = n, lc_open = True\<rparr>"

definition list_send :: "'a list_channel \<Rightarrow> 'a \<Rightarrow> 'a list_channel option" where
  "list_send ch p =
     (if lc_open ch \<and> length (lc_queue ch) < lc_capacity ch
      then Some (ch\<lparr>lc_queue := lc_queue ch @ [p]\<rparr>) else None)"

definition list_recv :: "'a list_channel \<Rightarrow> ('a \<times> 'a list_channel) option" where
  "list_recv ch =
     (case lc_queue ch of [] \<Rightarrow> None | m # ms \<Rightarrow> Some (m, ch\<lparr>lc_queue := ms\<rparr>))"

interpretation list_channel: fifo_channel list_mk list_send lc_queue lc_capacity lc_open list_recv
  by unfold_locales
    (auto simp: list_mk_def list_send_def list_recv_def split: if_splits list.splits)

end
