(* ===== verification/Output_Router.thy ===== *)
theory Output_Router imports Bounded_Channel begin

text \<open>
  Routing of server output to connections (\<open>server/output_router.rs\<close>): one bounded channel per
  connection, and for each document the set of connections that opened it. The channels are
  those of the theory \<open>Bounded_Channel\<close>. The two maps are maps of the model; \<open>HashSet\<close> and \<open>HashMap\<close> iterate in an unspecified order, so the loops
  take an enumeration \<open>order\<close> of the keys as an argument, and the facts hold for every one.

  The lemmas show that the loops deliver to exactly the subscribed connections, at most one
  payload each, whatever the order, and that the index is what the calls so far authorised.
\<close>

section \<open>State and operations\<close>

record 'ch output_router =
  or_client_senders :: "nat \<Rightarrow> 'ch option"
  or_document_index :: "nat \<Rightarrow> nat set option"

definition output_subscription_capacity :: nat where
  "output_subscription_capacity = 64"

definition router_default :: "'ch output_router" where
  "router_default = \<lparr>or_client_senders = Map.empty, or_document_index = Map.empty\<rparr>"

definition subscribe_client :: "(nat \<Rightarrow> 'ch) \<Rightarrow> 'ch output_router \<Rightarrow> nat \<Rightarrow> 'ch output_router" where
  "subscribe_client mk r client_id =
     r\<lparr>or_client_senders := (or_client_senders r)(client_id \<mapsto> mk output_subscription_capacity)\<rparr>"

definition subscribers_of :: "'ch output_router \<Rightarrow> nat \<Rightarrow> nat set" where
  "subscribers_of r document_id = (case or_document_index r document_id of None \<Rightarrow> {} | Some s \<Rightarrow> s)"

definition subscribe_document :: "'ch output_router \<Rightarrow> nat \<Rightarrow> nat \<Rightarrow> 'ch output_router" where
  "subscribe_document r document_id client_id =
     (if or_client_senders r client_id \<noteq> None
      then r\<lparr>or_document_index :=
               (or_document_index r)(document_id \<mapsto> insert client_id (subscribers_of r document_id))\<rparr>
      else r)"

definition unsubscribe_document :: "'ch output_router \<Rightarrow> nat \<Rightarrow> nat \<Rightarrow> 'ch output_router" where
  "unsubscribe_document r document_id client_id =
     (case or_document_index r document_id of
        None \<Rightarrow> r
      | Some subscribers \<Rightarrow>
          let subscribers = subscribers - {client_id} in
          r\<lparr>or_document_index := (or_document_index r)
              (document_id := (if subscribers = {} then None else Some subscribers))\<rparr>)"

definition unsubscribe_client :: "'ch output_router \<Rightarrow> nat \<Rightarrow> 'ch output_router" where
  "unsubscribe_client r client_id =
     r\<lparr>or_client_senders := (or_client_senders r)(client_id := None),
       or_document_index := (\<lambda>document_id.
         case or_document_index r document_id of
           None \<Rightarrow> None
         | Some subscribers \<Rightarrow>
             if subscribers - {client_id} = {} then None else Some (subscribers - {client_id}))\<rparr>"

text \<open>One turn of the loops: \<open>try_send\<close> to a connection, and \<open>delivered += 1\<close> when it accepts.\<close>

definition deliver ::
  "('ch \<Rightarrow> 'a \<Rightarrow> 'ch option) \<Rightarrow> 'a \<Rightarrow> nat \<Rightarrow> 'ch output_router \<times> nat \<Rightarrow> 'ch output_router \<times> nat" where
  "deliver send payload client_id = (\<lambda>(r, delivered).
     case or_client_senders r client_id of
       None \<Rightarrow> (r, delivered)
     | Some sender \<Rightarrow>
         case send sender payload of
           None \<Rightarrow> (r, delivered)
         | Some sender' \<Rightarrow>
             (r\<lparr>or_client_senders := (or_client_senders r)(client_id \<mapsto> sender')\<rparr>, delivered + 1))"

definition route_document ::
  "('ch \<Rightarrow> 'a \<Rightarrow> 'ch option) \<Rightarrow> (nat set \<Rightarrow> nat list) \<Rightarrow> 'ch output_router \<Rightarrow> nat \<Rightarrow> 'a \<Rightarrow>
   'ch output_router \<times> nat" where
  "route_document send order r document_id payload =
     (case or_document_index r document_id of
        None \<Rightarrow> (r, 0)
      | Some subscribers \<Rightarrow> fold (deliver send payload) (order subscribers) (r, 0))"

definition broadcast ::
  "('ch \<Rightarrow> 'a \<Rightarrow> 'ch option) \<Rightarrow> (nat set \<Rightarrow> nat list) \<Rightarrow> 'ch output_router \<Rightarrow> 'a \<Rightarrow>
   'ch output_router \<times> nat" where
  "broadcast send order r payload =
     fold (deliver send payload) (order (dom (or_client_senders r))) (r, 0)"

section \<open>What the loops deliver\<close>

lemma deliver_index [simp]:
  "or_document_index (fst (deliver send p c rn)) = or_document_index (fst rn)"
  by (auto simp: deliver_def split: prod.split option.split)

lemma deliver_senders:
  "or_client_senders (fst (deliver send p c rn)) =
     (or_client_senders (fst rn))(c := map_option (offer send p) (or_client_senders (fst rn) c))"
  by (auto simp: deliver_def offer_def fun_eq_iff split: prod.split option.split)

lemma deliver_count:
  "snd (deliver send p c rn) = snd rn +
     (if \<exists>ch. or_client_senders (fst rn) c = Some ch \<and> send ch p \<noteq> None then 1 else 0)"
  by (auto simp: deliver_def split: prod.split option.split)

lemma fold_deliver_index [simp]:
  "or_document_index (fst (fold (deliver send p) cs rn)) = or_document_index (fst rn)"
  by (induction cs arbitrary: rn) simp_all

lemma fold_deliver_senders:
  "distinct cs \<Longrightarrow> or_client_senders (fst (fold (deliver send p) cs rn)) =
     (\<lambda>c. if c \<in> set cs then map_option (offer send p) (or_client_senders (fst rn) c)
          else or_client_senders (fst rn) c)"
  by (induction cs arbitrary: rn) (auto simp: deliver_senders fun_eq_iff)

lemma fold_deliver_count:
  "distinct cs \<Longrightarrow> snd (fold (deliver send p) cs rn) = snd rn +
     card {c \<in> set cs. \<exists>ch. or_client_senders (fst rn) c = Some ch \<and> send ch p \<noteq> None}"
proof (induction cs arbitrary: rn)
  case (Cons c cs)
  let ?ok = "\<lambda>c. \<exists>ch. or_client_senders (fst rn) c = Some ch \<and> send ch p \<noteq> None"
  have "{x \<in> set cs. \<exists>ch. or_client_senders (fst (deliver send p c rn)) x = Some ch \<and> send ch p \<noteq> None}
      = {x \<in> set cs. ?ok x}"
    using Cons.prems by (auto simp: deliver_senders)
  moreover have "{x \<in> set (c # cs). ?ok x} =
      (if ?ok c then insert c {x \<in> set cs. ?ok x} else {x \<in> set cs. ?ok x})"
    by auto
  ultimately show ?case
    using Cons by (simp add: deliver_count)
qed simp

lemma fold_deliver_dom [simp]:
  "(or_client_senders (fst (fold (deliver send p) cs rn)) c = None) = (or_client_senders (fst rn) c = None)"
  by (induction cs arbitrary: rn) (auto simp: deliver_senders)

section \<open>Any sequence of calls\<close>

text \<open>
  The calls, and what a connection does with its end of the channel (it takes payloads, closes it):
  any change \<open>f\<close> of that channel.
\<close>

datatype ('a, 'ch) router_op =
    Subscribe_Client nat
  | Subscribe_Document nat nat
  | Unsubscribe_Document nat nat
  | Unsubscribe_Client nat
  | Route_Document nat 'a
  | Broadcast 'a
  | Receiver_Acts nat "'ch \<Rightarrow> 'ch"

definition router_step ::
  "(nat \<Rightarrow> 'ch) \<Rightarrow> ('ch \<Rightarrow> 'a \<Rightarrow> 'ch option) \<Rightarrow> (nat set \<Rightarrow> nat list) \<Rightarrow> ('a, 'ch) router_op \<Rightarrow>
   'ch output_router \<Rightarrow> 'ch output_router" where
  "router_step mk send order op r =
     (case op of
        Subscribe_Client c \<Rightarrow> subscribe_client mk r c
      | Subscribe_Document d c \<Rightarrow> subscribe_document r d c
      | Unsubscribe_Document d c \<Rightarrow> unsubscribe_document r d c
      | Unsubscribe_Client c \<Rightarrow> unsubscribe_client r c
      | Route_Document d p \<Rightarrow> fst (route_document send order r d p)
      | Broadcast p \<Rightarrow> fst (broadcast send order r p)
      | Receiver_Acts c f \<Rightarrow>
          r\<lparr>or_client_senders := (or_client_senders r)(c := map_option f (or_client_senders r c))\<rparr>)"

abbreviation router_run ::
  "(nat \<Rightarrow> 'ch) \<Rightarrow> ('ch \<Rightarrow> 'a \<Rightarrow> 'ch option) \<Rightarrow> (nat set \<Rightarrow> nat list) \<Rightarrow> ('a, 'ch) router_op list \<Rightarrow> 'ch output_router" where
  "router_run mk send order ops \<equiv> fold (router_step mk send order) ops router_default"

lemma step_connected:
  "(or_client_senders (router_step mk send order op r) c \<noteq> None) =
     (op = Subscribe_Client c \<or> op \<noteq> Unsubscribe_Client c \<and> or_client_senders r c \<noteq> None)"
  by (auto simp: router_step_def subscribe_client_def subscribe_document_def unsubscribe_document_def
      unsubscribe_client_def route_document_def broadcast_def Let_def
      split: router_op.split option.split simp del: not_None_eq)

lemma step_subscribers:
  "(c \<in> subscribers_of (router_step mk send order op r) d) =
     (op = Subscribe_Document d c \<and> or_client_senders r c \<noteq> None \<or>
      op \<noteq> Unsubscribe_Document d c \<and> op \<noteq> Unsubscribe_Client c \<and> c \<in> subscribers_of r d)"
proof (cases op)
  case (Unsubscribe_Client c')
  then show ?thesis
    by (cases "or_document_index r d")
      (auto simp: router_step_def subscribers_of_def unsubscribe_client_def)
next
  case (Unsubscribe_Document d' c')
  then show ?thesis
    by (cases "or_document_index r d'")
      (auto simp: router_step_def subscribers_of_def unsubscribe_document_def Let_def)
next
  case (Route_Document d' p)
  then show ?thesis
    by (cases "or_document_index r d'") (simp_all add: router_step_def subscribers_of_def route_document_def)
qed (auto simp: router_step_def subscribers_of_def subscribe_client_def subscribe_document_def broadcast_def)

definition connected_by :: "('a, 'ch) router_op list \<Rightarrow> nat \<Rightarrow> bool" where
  "connected_by ops c \<longleftrightarrow> (\<exists>a b. ops = a @ Subscribe_Client c # b \<and> Unsubscribe_Client c \<notin> set b)"

definition authorised_by :: "('a, 'ch) router_op list \<Rightarrow> nat \<Rightarrow> nat \<Rightarrow> bool" where
  "authorised_by ops d c \<longleftrightarrow>
     (\<exists>a b e. ops = a @ Subscribe_Client c # b @ Subscribe_Document d c # e \<and>
        Unsubscribe_Client c \<notin> set b \<union> set e \<and> Unsubscribe_Document d c \<notin> set e)"

lemma last_split: "xs @ [x] = a @ y # b \<longleftrightarrow> (b = [] \<and> x = y \<and> xs = a) \<or> (\<exists>b'. b = b' @ [x] \<and> xs = a @ y # b')"
  by (cases b rule: rev_cases) auto

lemma connected_snoc:
  "connected_by (ops @ [op]) c = (op = Subscribe_Client c \<or> op \<noteq> Unsubscribe_Client c \<and> connected_by ops c)"
  (is "?l = ?r")
proof
  assume ?l
  then obtain a b where b: "ops @ [op] = a @ Subscribe_Client c # b" "Unsubscribe_Client c \<notin> set b"
    unfolding connected_by_def by blast
  then consider "op = Subscribe_Client c" | b' where "b = b' @ [op]" "ops = a @ Subscribe_Client c # b'"
    unfolding last_split by blast
  then show ?r
  proof cases
    case (2 b')
    then have "op \<noteq> Unsubscribe_Client c" "Unsubscribe_Client c \<notin> set b'" using b(2) by auto
    then show ?r unfolding connected_by_def using 2(2) by blast
  qed simp
next
  assume ?r
  then show ?l
  proof (elim disjE conjE)
    assume "op = Subscribe_Client c"
    then show ?l unfolding connected_by_def by (intro exI[of _ ops] exI[of _ "[]"]) simp
  next
    assume op: "op \<noteq> Unsubscribe_Client c" and "connected_by ops c"
    then obtain a b where "ops = a @ Subscribe_Client c # b" "Unsubscribe_Client c \<notin> set b"
      unfolding connected_by_def by blast
    then show ?l
      unfolding connected_by_def using op by (intro exI[of _ a] exI[of _ "b @ [op]"]) auto
  qed
qed

lemma authorised_snoc:
  "authorised_by (ops @ [op]) d c =
     (op = Subscribe_Document d c \<and> connected_by ops c \<or>
      op \<noteq> Unsubscribe_Document d c \<and> op \<noteq> Unsubscribe_Client c \<and> authorised_by ops d c)"
  (is "?l = ?r")
proof
  assume ?l
  then obtain a b e where *: "ops @ [op] = (a @ Subscribe_Client c # b) @ Subscribe_Document d c # e"
    "Unsubscribe_Client c \<notin> set b \<union> set e" "Unsubscribe_Document d c \<notin> set e"
    unfolding authorised_by_def by auto
  from *(1) consider "op = Subscribe_Document d c" "ops = a @ Subscribe_Client c # b"
    | e' where "e = e' @ [op]" "ops = a @ Subscribe_Client c # b @ Subscribe_Document d c # e'"
    unfolding last_split by auto
  then show ?r
  proof cases
    case 1
    then show ?r unfolding connected_by_def using *(2) by blast
  next
    case (2 e')
    then have "op \<noteq> Unsubscribe_Client c" "op \<noteq> Unsubscribe_Document d c"
      "Unsubscribe_Client c \<notin> set b \<union> set e'" "Unsubscribe_Document d c \<notin> set e'" using *(2,3) by auto
    then show ?r unfolding authorised_by_def using 2(2) by blast
  qed
next
  assume ?r
  then show ?l
  proof (elim disjE conjE)
    assume "op = Subscribe_Document d c" "connected_by ops c"
    then show ?l unfolding authorised_by_def connected_by_def by fastforce
  next
    assume op: "op \<noteq> Unsubscribe_Document d c" "op \<noteq> Unsubscribe_Client c" and "authorised_by ops d c"
    then obtain a b e where "ops = a @ Subscribe_Client c # b @ Subscribe_Document d c # e"
      "Unsubscribe_Client c \<notin> set b \<union> set e" "Unsubscribe_Document d c \<notin> set e"
      unfolding authorised_by_def by blast
    then show ?l
      unfolding authorised_by_def using op
      by (intro exI[of _ a] exI[of _ b] exI[of _ "e @ [op]"]) auto
  qed
qed

lemma run_subscribers:
  "(or_client_senders (router_run mk send order ops) c \<noteq> None) = connected_by ops c \<and>
   (c \<in> subscribers_of (router_run mk send order ops) d) = authorised_by ops d c"
proof (induction ops rule: rev_induct)
  case Nil
  then show ?case
    by (simp add: router_default_def subscribers_of_def connected_by_def authorised_by_def)
next
  case (snoc op ops)
  then show ?case
    by (simp only: fold_append o_apply fold_simps step_connected step_subscribers connected_snoc authorised_snoc)
qed

lemma finite_clients: "finite {c. connected_by ops c}"
proof (rule finite_subset)
  show "{c. connected_by ops c} \<subseteq> (\<lambda>op. case op of Subscribe_Client c \<Rightarrow> c | _ \<Rightarrow> 0) ` set ops"
    by (force simp: connected_by_def)
qed simp

lemma authorised_connected: "authorised_by ops d c \<Longrightarrow> connected_by ops c"
  unfolding authorised_by_def connected_by_def
  by (elim exE conjE, rule exI, rule exI, rule conjI, assumption) auto

lemma finite_subscribers: "finite (subscribers_of (router_run mk send order ops) d)"
proof (rule finite_subset[OF _ finite_clients])
  show "subscribers_of (router_run mk send order ops) d \<subseteq> {c. connected_by ops c}"
    using run_subscribers[of mk send order ops, THEN conjunct2] authorised_connected[of ops d] by auto
qed

text \<open>An enumeration of the keys of a hash set or map.\<close>

definition enumerates :: "(nat set \<Rightarrow> nat list) \<Rightarrow> bool" where
  "enumerates order \<longleftrightarrow> (\<forall>s. finite s \<longrightarrow> distinct (order s) \<and> set (order s) = s)"

lemma enumerates_sorted: "enumerates sorted_list_of_set"
  by (simp add: enumerates_def)

lemma route_document_exact:
  assumes "enumerates order" and "finite (subscribers_of r d)"
  shows "or_document_index (fst (route_document send order r d p)) = or_document_index r"
    and "or_client_senders (fst (route_document send order r d p)) =
      (\<lambda>c. if c \<in> subscribers_of r d then map_option (offer send p) (or_client_senders r c)
           else or_client_senders r c)"
    and "snd (route_document send order r d p) =
      card {c \<in> subscribers_of r d. \<exists>ch. or_client_senders r c = Some ch \<and> send ch p \<noteq> None}"
proof -
  have "or_document_index (fst (route_document send order r d p)) = or_document_index r \<and>
    or_client_senders (fst (route_document send order r d p)) =
      (\<lambda>c. if c \<in> subscribers_of r d then map_option (offer send p) (or_client_senders r c)
           else or_client_senders r c) \<and>
    snd (route_document send order r d p) =
      card {c \<in> subscribers_of r d. \<exists>ch. or_client_senders r c = Some ch \<and> send ch p \<noteq> None}"
  proof (cases "or_document_index r d")
    case (Some s)
    then have "distinct (order s)" "set (order s) = s"
      using assms by (simp_all add: enumerates_def subscribers_of_def)
    then show ?thesis
      using Some by (auto simp: route_document_def subscribers_of_def fold_deliver_senders fold_deliver_count fun_eq_iff)
  qed (simp add: route_document_def subscribers_of_def)
  then show "or_document_index (fst (route_document send order r d p)) = or_document_index r"
    and "or_client_senders (fst (route_document send order r d p)) =
      (\<lambda>c. if c \<in> subscribers_of r d then map_option (offer send p) (or_client_senders r c)
           else or_client_senders r c)"
    and "snd (route_document send order r d p) =
      card {c \<in> subscribers_of r d. \<exists>ch. or_client_senders r c = Some ch \<and> send ch p \<noteq> None}"
    by blast+
qed

section \<open>Properties\<close>

text \<open>
  C26: after any sequence of calls on the router, whatever the connections do with their channels in
  between, a payload routed to a document is appended, once, to the queue of every connection that subscribed to
  the document after it connected and has neither left nor unsubscribed since and whose
  channel is open and below its capacity; every other connection's queue is as it was, and the count returned is
  the number of queues that grew. This holds for every order in which the subscribers are visited.
\<close>

theorem document_payload_reaches_exactly_authorised:
  assumes "bounded_channel mk send queued capacity open_receiver" and "enumerates order"
    and "or_client_senders (router_run mk send order ops) c = Some ch"
  shows "(\<exists>ch'. or_client_senders (fst (route_document send order (router_run mk send order ops) d p)) c = Some ch' \<and>
             queued ch' = queued ch @
               (if authorised_by ops d c \<and> open_receiver ch \<and> length (queued ch) < capacity ch then [p] else [])) \<and>
         snd (route_document send order (router_run mk send order ops) d p) =
           card {c. authorised_by ops d c \<and> (\<exists>ch. or_client_senders (router_run mk send order ops) c = Some ch \<and>
                  open_receiver ch \<and> length (queued ch) < capacity ch)}"
proof -
  note exact = route_document_exact[OF assms(2) finite_subscribers]
  note subs = run_subscribers[of mk send order ops, THEN conjunct2]
  show ?thesis
    using assms(3) bounded_channel.queued_offer[OF assms(1), of p ch]
    by (simp add: exact subs bounded_channel.send_accepts[OF assms(1)] del: not_None_eq)
qed

abbreviation two_connections :: "(nat, nat list_channel) router_op list" where
  "two_connections \<equiv> [Subscribe_Client 1, Subscribe_Client 2, Subscribe_Document 7 1]"

theorem document_payload_reaches_exactly_authorised_witness:
  "\<exists>ch'. or_client_senders (fst (route_document list_send sorted_list_of_set
       (router_run list_mk list_send sorted_list_of_set two_connections) 7 42)) 1 = Some ch' \<and> lc_queue ch' = [42]"
proof -
  have senders: "or_client_senders (router_run list_mk list_send sorted_list_of_set two_connections) 1 =
      Some (list_mk 64)"
    by (simp add: router_step_def subscribe_client_def subscribe_document_def router_default_def
        output_subscription_capacity_def)
  have "authorised_by two_connections 7 1"
    unfolding authorised_by_def
    by (rule exI[of _ "[]"], rule exI[of _ "[Subscribe_Client 2]"], rule exI[of _ "[]"]) simp
  then show ?thesis
    using document_payload_reaches_exactly_authorised[OF list_channel.bounded_channel_axioms
        enumerates_sorted senders, of 7 42]
    by (simp add: list_mk_def)
qed

text \<open>
  After any sequence of calls the document index holds exactly the authorised connections: those
  with a subscription to the document made while connected, and no later unsubscription or
  disconnect. In particular a connection that leaves is in no document's set, and a subscription
  before connecting has no effect.
\<close>

theorem index_is_authorisation:
  "(c \<in> subscribers_of (router_run mk send order ops) d) =
     (\<exists>a b e. ops = a @ Subscribe_Client c # b @ Subscribe_Document d c # e \<and>
        Unsubscribe_Client c \<notin> set b \<union> set e \<and> Unsubscribe_Document d c \<notin> set e)"
  using run_subscribers[of mk send order ops c d] unfolding authorised_by_def by blast

end
