(* ===== verification/Snippet_Expansion.thy ===== *)
theory Snippet_Expansion imports Edit_Protocol "HOL-Library.Product_Lexorder" begin

text \<open>
  Completion snippets: \<open>parse_snippet\<close> of \<open>editor/snippet.rs\<close>, and the session of
  \<open>editor/surface.rs\<close> that walks the placeholders while the user types. The parser's byte index
  only moves forward over whole scalars, so the model consumes the rest of the input; a byte
  test of the source is a test of the next scalar, as the tested bytes are ASCII.

  The lemmas show that the parser stops on every input, that what it returns is bounded and its
  placeholders lie in order inside the text, that it inverts the rendering of every well-formed
  snippet, and that a session's ranges follow the text through edits.
\<close>

section \<open>Data\<close>

record snippet_placeholder =
  sp_byte_start :: nat
  sp_byte_end :: nat
  sp_index :: nat
  sp_final_tabstop :: bool

record snippet_expansion =
  sx_text :: ustr
  sx_placeholders :: "snippet_placeholder list"

datatype snippet_parse_error =
    Unterminated
  | Unsupported_Variable
  | Malformed
  | Expanded_Text_Too_Long nat nat
  | Too_Many_Tabstops nat nat

definition snippet_max_tabstops :: nat where
  "snippet_max_tabstops = 32"

definition completion_max_insert_text_chars :: nat where
  "completion_max_insert_text_chars = 256"

definition u32_max :: nat where
  "u32_max = 2 ^ 32 - 1"

text \<open>The characters of the syntax.\<close>

abbreviation dollar :: uchar where "dollar \<equiv> 36"
abbreviation comma :: uchar where "comma \<equiv> 44"
abbreviation colon :: uchar where "colon \<equiv> 58"
abbreviation open_brace :: uchar where "open_brace \<equiv> 123"
abbreviation bar :: uchar where "bar \<equiv> 124"
abbreviation close_brace :: uchar where "close_brace \<equiv> 125"

definition is_ascii_digit :: "uchar \<Rightarrow> bool" where
  "is_ascii_digit c \<longleftrightarrow> 48 \<le> c \<and> c \<le> 57"

section \<open>Parsing\<close>

definition push_text_char :: "ustr \<times> nat \<Rightarrow> uchar \<Rightarrow> snippet_parse_error + ustr \<times> nat" where
  "push_text_char = (\<lambda>(txt, n) ch.
     if n \<ge> completion_max_insert_text_chars
     then Inl (Expanded_Text_Too_Long (n + 1) completion_max_insert_text_chars)
     else Inr (txt @ [ch], n + 1))"

definition decimal_value :: "ustr \<Rightarrow> nat" where
  "decimal_value digits = foldl (\<lambda>v c. 10 * v + (c - 48)) 0 digits"

text \<open>\<open>digits.parse::<u32>().unwrap_or(0)\<close>, and the digits consumed.\<close>

definition parse_index :: "ustr \<Rightarrow> nat \<times> nat" where
  "parse_index str =
     (let digits = takeWhile is_ascii_digit str;
          v = decimal_value digits in
      (if v \<le> u32_max then v else 0, length digits))"

definition push_placeholder ::
  "snippet_placeholder list \<Rightarrow> nat \<Rightarrow> nat \<Rightarrow> nat \<Rightarrow> snippet_parse_error + snippet_placeholder list" where
  "push_placeholder placeholders byte_start byte_end index =
     (if length placeholders \<ge> snippet_max_tabstops
      then Inl (Too_Many_Tabstops (length placeholders + 1) snippet_max_tabstops)
      else Inr (placeholders @ [\<lparr>sp_byte_start = byte_start, sp_byte_end = byte_end,
                                 sp_index = index, sp_final_tabstop = (index = 0)\<rparr>]))"

text \<open>The inner loops: copy the text up to a stop character.\<close>

fun push_until :: "(uchar \<Rightarrow> bool) \<Rightarrow> ustr \<Rightarrow> ustr \<times> nat \<Rightarrow> snippet_parse_error + ustr \<times> (ustr \<times> nat)" where
  "push_until stop [] out = Inr ([], out)"
| "push_until stop (c # cs) out =
     (if stop c then Inr (c # cs, out)
      else bind_result (push_text_char out c) (push_until stop cs))"

text \<open>The braced constructs: the text after \<open>${\<close>.\<close>

definition parse_braced ::
  "ustr \<Rightarrow> ustr \<times> nat \<Rightarrow> snippet_placeholder list \<Rightarrow>
   snippet_parse_error + ustr \<times> (ustr \<times> nat) \<times> snippet_placeholder list" where
  "parse_braced body out placeholders =
     (if body = [] \<or> \<not> is_ascii_digit (hd body) then Inl Unsupported_Variable
      else
        let (index, num_len) = parse_index body;
            start = byte_len (fst out) in
        case drop num_len body of
          [] \<Rightarrow> Inl Malformed
        | c # after \<Rightarrow>
            if c = close_brace then
              bind_result (push_placeholder placeholders start start index)
                (\<lambda>placeholders. Inr (after, out, placeholders))
            else if c = colon then
              bind_result (push_until (\<lambda>c. c = close_brace) after out) (\<lambda>(tail, out).
                if tail = [] then Inl Unterminated
                else bind_result (push_placeholder placeholders start (byte_len (fst out)) index)
                  (\<lambda>placeholders. Inr (tl tail, out, placeholders)))
            else if c = bar then
              bind_result (push_until (\<lambda>c. c = comma \<or> c = bar) after out) (\<lambda>(tail, out).
                if tail = [] then Inl Unterminated
                else
                  let closing = dropWhile (\<lambda>c. c \<noteq> bar) tail in
                  if closing = [] \<or> take 1 (tl closing) \<noteq> [close_brace] then Inl Unterminated
                  else bind_result (push_placeholder placeholders start (byte_len (fst out)) index)
                    (\<lambda>placeholders. Inr (drop 2 closing, out, placeholders)))
            else Inl Malformed)"

text \<open>One turn of the main loop, on the rest of the input \<open>c # cs\<close>.\<close>

definition snippet_turn ::
  "uchar \<Rightarrow> ustr \<Rightarrow> ustr \<times> nat \<Rightarrow> snippet_placeholder list \<Rightarrow>
   snippet_parse_error + ustr \<times> (ustr \<times> nat) \<times> snippet_placeholder list" where
  "snippet_turn c cs out placeholders =
     (if c \<noteq> dollar then bind_result (push_text_char out c) (\<lambda>out. Inr (cs, out, placeholders))
      else if cs \<noteq> [] \<and> is_ascii_digit (hd cs) then
        let (index, consumed) = parse_index cs;
            pos = byte_len (fst out) in
        bind_result (push_placeholder placeholders pos pos index)
          (\<lambda>placeholders. Inr (drop consumed cs, out, placeholders))
      else if cs \<noteq> [] \<and> hd cs = open_brace then parse_braced (tl cs) out placeholders
      else bind_result (push_text_char out dollar) (\<lambda>out. Inr (cs, out, placeholders)))"

text \<open>What is copied, and what a successful turn does.\<close>

definition copied :: "ustr \<Rightarrow> ustr \<times> nat \<Rightarrow> ustr \<times> nat \<Rightarrow> bool" where
  "copied s out out' \<longleftrightarrow> out' = (fst out @ s, snd out + length s) \<and>
     (snd out \<le> completion_max_insert_text_chars \<longrightarrow> snd out' \<le> completion_max_insert_text_chars)"

lemma copied_refl [simp]: "copied [] out out"
  by (simp add: copied_def)

lemma push_text_char_Inr: "push_text_char out c = Inr out' \<Longrightarrow> copied [c] out out'"
  by (auto simp: push_text_char_def copied_def split: if_splits prod.splits)

lemma copied_Cons: "copied [c] out out' \<Longrightarrow> copied s out' out'' \<Longrightarrow> copied (c # s) out out''"
  by (auto simp: copied_def)

lemma push_until_Inr:
  "push_until stop cs out = Inr (tail, out') \<Longrightarrow>
     \<exists>s. cs = s @ tail \<and> copied s out out' \<and> (\<forall>c\<in>set s. \<not> stop c) \<and> (tail = [] \<or> stop (hd tail))"
proof (induction cs arbitrary: out)
  case (Cons c cs)
  show ?case
  proof (cases "stop c")
    case False
    then obtain mid where mid: "push_text_char out c = Inr mid" "push_until stop cs mid = Inr (tail, out')"
      using Cons.prems by (auto simp: bind_result_Inr)
    obtain s where s: "cs = s @ tail" "copied s mid out'" "\<forall>c\<in>set s. \<not> stop c" "tail = [] \<or> stop (hd tail)"
      using Cons.IH[OF mid(2)] by blast
    then show ?thesis
      using False copied_Cons[OF push_text_char_Inr[OF mid(1)] s(2)] by (intro exI[of _ "c # s"]) simp
  qed (use Cons.prems in \<open>auto intro: exI[of _ "[]"]\<close>)
qed (auto intro: exI[of _ "[]"])

lemma length_drop_le: "drop k xs = y # ys \<Longrightarrow> length ys < length xs"
  by (metis Suc_le_lessD diff_le_self length_Cons length_drop)

lemma parse_braced_Inr:
  assumes "parse_braced body out phs = Inr (tail, out', phs')"
  shows "length tail \<le> length body \<and> (\<exists>s index. copied s out out' \<and>
           push_placeholder phs (byte_len (fst out)) (byte_len (fst out')) index = Inr phs')"
proof -
  obtain index num_len where index: "parse_index body = (index, num_len)" by fastforce
  then obtain c after where body: "drop num_len body = c # after"
    using assms by (cases "drop num_len body") (auto simp: parse_braced_def split: if_splits)
  have len: "length after < length body" using length_drop_le[OF body] .
  note unfold = parse_braced_def index body Let_def bind_result_Inr
  consider (empty) "c = close_brace" | (placeholder) "c = colon" | (choice) "c = bar"
    using assms by (auto simp: unfold split: if_splits)
  then show ?thesis
  proof cases
    case empty
    then show ?thesis using assms len by (auto simp: unfold split: if_splits intro: exI[of _ "[]"])
  next
    case placeholder
    then obtain tl' where tl': "push_until (\<lambda>c. c = close_brace) after out = Inr (tl', out')" "tl' \<noteq> []"
      "push_placeholder phs (byte_len (fst out)) (byte_len (fst out')) index = Inr phs'" "tail = tl tl'"
      using assms by (auto simp: unfold split: if_splits)
    obtain s where "after = s @ tl'" "copied s out out'"
      using push_until_Inr[OF tl'(1)] by blast
    then show ?thesis using tl'(3,4) len by (intro conjI exI[of _ s] exI[of _ index]) simp_all
  next
    case choice
    then obtain tl' where tl': "push_until (\<lambda>c. c = comma \<or> c = bar) after out = Inr (tl', out')"
      "push_placeholder phs (byte_len (fst out)) (byte_len (fst out')) index = Inr phs'"
      "tail = drop 2 (dropWhile (\<lambda>c. c \<noteq> bar) tl')"
      using assms by (auto simp: unfold split: if_splits)
    have "length tail \<le> length tl'"
      using tl'(3) length_dropWhile_le[of "\<lambda>c. c \<noteq> bar" tl'] by simp
    moreover obtain s where "after = s @ tl'" "copied s out out'"
      using push_until_Inr[OF tl'(1)] by blast
    ultimately show ?thesis using tl'(2) len by (intro conjI exI[of _ s] exI[of _ index]) simp_all
  qed
qed

lemma snippet_turn_Inr:
  assumes "snippet_turn c cs out phs = Inr (tail, out', phs')"
  shows "length tail \<le> length cs \<and> (\<exists>s. copied s out out') \<and>
         (phs' = phs \<or> (\<exists>index. push_placeholder phs (byte_len (fst out)) (byte_len (fst out')) index = Inr phs'))"
proof -
  consider (char) ch where "push_text_char out ch = Inr out'" "tail = cs" "phs' = phs"
    | (tab) index consumed where "out' = out" "tail = drop consumed cs"
        "push_placeholder phs (byte_len (fst out)) (byte_len (fst out)) index = Inr phs'"
    | (braced) "parse_braced (tl cs) out phs = Inr (tail, out', phs')"
    using assms by (auto simp: snippet_turn_def Let_def bind_result_Inr split: if_splits prod.splits)
  then show ?thesis
  proof cases
    case char
    then show ?thesis using push_text_char_Inr[OF char(1)] by (simp; blast)
  next
    case tab
    then show ?thesis by (auto intro: exI[of _ "[]"])
  next
    case braced
    then show ?thesis using parse_braced_Inr[OF braced] by auto
  qed
qed

function parse_loop ::
  "ustr \<Rightarrow> ustr \<times> nat \<Rightarrow> snippet_placeholder list \<Rightarrow> snippet_parse_error + snippet_expansion" where
  "parse_loop str out placeholders =
     (case str of
        [] \<Rightarrow> Inr \<lparr>sx_text = fst out, sx_placeholders = placeholders\<rparr>
      | c # cs \<Rightarrow>
          case snippet_turn c cs out placeholders of
            Inl e \<Rightarrow> Inl e
          | Inr (tail, out, placeholders) \<Rightarrow> parse_loop tail out placeholders)"
  by pat_completeness auto
termination
  by (relation "measure (\<lambda>(str, _, _). length str)") (auto dest: snippet_turn_Inr simp: less_Suc_eq_le)

declare parse_loop.simps [simp del]

lemma parse_loop_eqs:
  "parse_loop [] out phs = Inr \<lparr>sx_text = fst out, sx_placeholders = phs\<rparr>"
  "snippet_turn c cs out phs = Inr (tail, out', phs') \<Longrightarrow> parse_loop (c # cs) out phs = parse_loop tail out' phs'"
  "snippet_turn c cs out phs = Inl e \<Longrightarrow> parse_loop (c # cs) out phs = Inl e"
  by (simp_all add: parse_loop.simps[of "[]"] parse_loop.simps[of "c # cs"])

definition parse_snippet :: "ustr \<Rightarrow> snippet_parse_error + snippet_expansion" where
  "parse_snippet input = parse_loop input ([], 0) []"

section \<open>The result is bounded and in order\<close>

definition placeholders_ok :: "ustr \<Rightarrow> snippet_placeholder list \<Rightarrow> bool" where
  "placeholders_ok txt phs \<longleftrightarrow> length phs \<le> snippet_max_tabstops \<and>
     (\<forall>p\<in>set phs. is_boundary txt (sp_byte_start p) \<and> is_boundary txt (sp_byte_end p) \<and>
        sp_byte_start p \<le> sp_byte_end p \<and> sp_final_tabstop p = (sp_index p = 0)) \<and>
     sorted_wrt (\<lambda>p q. sp_byte_end p \<le> sp_byte_start q) phs"

definition out_ok :: "ustr \<times> nat \<Rightarrow> bool" where
  "out_ok out \<longleftrightarrow> snd out = length (fst out) \<and> length (fst out) \<le> completion_max_insert_text_chars"

lemma out_ok_copied: "copied s out out' \<Longrightarrow> out_ok out \<Longrightarrow> out_ok out'"
  by (auto simp: copied_def out_ok_def)

lemma is_boundary_prefix: "is_boundary s n \<Longrightarrow> is_boundary (s @ t) n"
  by (simp add: is_boundary_append_left is_boundary_le)

lemma placeholders_ok_copied:
  "copied s out out' \<Longrightarrow> placeholders_ok (fst out) phs \<Longrightarrow> placeholders_ok (fst out') phs"
  by (auto simp: copied_def placeholders_ok_def is_boundary_prefix)

lemma placeholders_ok_push:
  assumes "push_placeholder phs (byte_len (fst out)) (byte_len (fst out')) index = Inr phs'"
    and "copied s out out'" and "placeholders_ok (fst out) phs"
  shows "placeholders_ok (fst out') phs'"
proof -
  let ?new = "\<lparr>sp_byte_start = byte_len (fst out), sp_byte_end = byte_len (fst out'), sp_index = index,
               sp_final_tabstop = (index = 0)\<rparr>"
  have phs': "phs' = phs @ [?new]" "length phs < snippet_max_tabstops"
    using assms(1) by (auto simp: push_placeholder_def split: if_splits)
  have "is_boundary (fst out') (byte_len (fst out))" "byte_len (fst out) \<le> byte_len (fst out')"
    using assms(2) by (auto simp: copied_def boundary_prefix)
  moreover have "sp_byte_end p \<le> byte_len (fst out)" if "p \<in> set phs" for p
    using assms(3) that by (auto simp: placeholders_ok_def dest: is_boundary_le)
  ultimately show ?thesis
    using placeholders_ok_copied[OF assms(2,3)] phs'
    by (auto simp: placeholders_ok_def sorted_wrt_append)
qed

lemma parse_loop_ok:
  "parse_loop str out phs = Inr x \<Longrightarrow> out_ok out \<Longrightarrow> placeholders_ok (fst out) phs \<Longrightarrow>
     length (sx_text x) \<le> completion_max_insert_text_chars \<and> placeholders_ok (sx_text x) (sx_placeholders x)"
proof (induction str out phs rule: parse_loop.induct)
  case (1 str out phs)
  show ?case
  proof (cases str)
    case Nil
    then show ?thesis using 1(2-4) by (auto simp: parse_loop_eqs(1) out_ok_def)
  next
    case (Cons c cs)
    then obtain tail out' phs' where turn: "snippet_turn c cs out phs = Inr (tail, out', phs')"
      and rest: "parse_loop tail out' phs' = Inr x"
      using 1(2) Cons
      by (cases "snippet_turn c cs out phs") (auto simp: parse_loop_eqs(2,3))
    from snippet_turn_Inr[OF turn] obtain s where "copied s out out'"
      "phs' = phs \<or> (\<exists>index. push_placeholder phs (byte_len (fst out)) (byte_len (fst out')) index = Inr phs')"
      by blast
    then have "out_ok out'" "placeholders_ok (fst out') phs'"
      using 1(3,4) out_ok_copied placeholders_ok_copied placeholders_ok_push by blast+
    then show ?thesis using 1(1)[OF Cons turn refl refl] rest by simp
  qed
qed

section \<open>Rendering\<close>

text \<open>
  A snippet as a list of pieces. A tabstop number is a non-empty string of digits, as a decimal
  above \<open>u32::MAX\<close> counts as 0.
\<close>

datatype snippet_piece =
    Literal ustr
  | Tabstop ustr
  | Placeholder ustr ustr
  | Choice ustr ustr "ustr list"

fun render_piece :: "snippet_piece \<Rightarrow> ustr" where
  "render_piece (Literal str) = str"
| "render_piece (Tabstop n) = [dollar, open_brace] @ n @ [close_brace]"
| "render_piece (Placeholder n str) = [dollar, open_brace] @ n @ [colon] @ str @ [close_brace]"
| "render_piece (Choice n str options) =
     [dollar, open_brace] @ n @ [bar] @ str @ concat (map ((#) comma) options) @ [bar, close_brace]"

fun piece_ok :: "snippet_piece \<Rightarrow> bool" where
  "piece_ok (Literal str) = (dollar \<notin> set str)"
| "piece_ok (Tabstop n) = (n \<noteq> [] \<and> list_all is_ascii_digit n)"
| "piece_ok (Placeholder n str) = (n \<noteq> [] \<and> list_all is_ascii_digit n \<and> close_brace \<notin> set str)"
| "piece_ok (Choice n str options) =
     (n \<noteq> [] \<and> list_all is_ascii_digit n \<and> comma \<notin> set str \<and> bar \<notin> set (str @ concat options))"

fun piece_text :: "snippet_piece \<Rightarrow> ustr" where
  "piece_text (Literal str) = str"
| "piece_text (Tabstop n) = []"
| "piece_text (Placeholder n str) = str"
| "piece_text (Choice n str options) = str"

fun piece_number :: "snippet_piece \<Rightarrow> ustr option" where
  "piece_number (Literal str) = None"
| "piece_number (Tabstop n) = Some n"
| "piece_number (Placeholder n str) = Some n"
| "piece_number (Choice n str options) = Some n"

definition number_index :: "ustr \<Rightarrow> nat" where
  "number_index n = (if decimal_value n \<le> u32_max then decimal_value n else 0)"

fun piece_placeholders :: "nat \<Rightarrow> snippet_piece list \<Rightarrow> snippet_placeholder list" where
  "piece_placeholders pos [] = []"
| "piece_placeholders pos (x # xs) =
     (case piece_number x of
        None \<Rightarrow> []
      | Some n \<Rightarrow> [\<lparr>sp_byte_start = pos, sp_byte_end = pos + byte_len (piece_text x),
                    sp_index = number_index n, sp_final_tabstop = (number_index n = 0)\<rparr>]) @
     piece_placeholders (pos + byte_len (piece_text x)) xs"

lemma push_until_stops:
  "list_all (\<lambda>c. \<not> stop c) str \<Longrightarrow> stop c \<Longrightarrow> snd out + length str \<le> completion_max_insert_text_chars \<Longrightarrow>
     push_until stop (str @ c # r) out = Inr (c # r, (fst out @ str, snd out + length str))"
  by (induction str arbitrary: out) (auto simp: push_text_char_def split: prod.split)

lemma parse_index_number:
  "list_all is_ascii_digit n \<Longrightarrow> \<not> is_ascii_digit c \<Longrightarrow> parse_index (n @ c # r) = (number_index n, length n)"
  by (simp add: parse_index_def number_index_def takeWhile_append2 list_all_iff takeWhile_tail)

lemma push_placeholder_room:
  "length phs < snippet_max_tabstops \<Longrightarrow> push_placeholder phs a b index =
     Inr (phs @ [\<lparr>sp_byte_start = a, sp_byte_end = b, sp_index = index, sp_final_tabstop = (index = 0)\<rparr>])"
  by (simp add: push_placeholder_def)

lemma parse_literal:
  "dollar \<notin> set str \<Longrightarrow> snd out + length str \<le> completion_max_insert_text_chars \<Longrightarrow>
     parse_loop (str @ r) out phs = parse_loop r (fst out @ str, snd out + length str) phs"
proof (induction str arbitrary: out)
  case (Cons c cs)
  then have "snippet_turn c (cs @ r) out phs = Inr (cs @ r, (fst out @ [c], snd out + 1), phs)"
    by (auto simp: snippet_turn_def push_text_char_def split: prod.split)
  then show ?case using Cons by (simp add: parse_loop_eqs(2))
qed simp

lemma syntax_not_digit [simp]:
  "\<not> is_ascii_digit open_brace" "\<not> is_ascii_digit close_brace" "\<not> is_ascii_digit colon" "\<not> is_ascii_digit bar"
  by (simp_all add: is_ascii_digit_def)

lemma parse_braced_turn:
  assumes "parse_braced body out phs = Inr (r, out', phs')"
  shows "parse_loop (dollar # open_brace # body) out phs = parse_loop r out' phs'"
  using assms by (intro parse_loop_eqs(2)) (simp add: snippet_turn_def)

lemma number_head: "n \<noteq> [] \<Longrightarrow> list_all is_ascii_digit n \<Longrightarrow> is_ascii_digit (hd n)"
  by (cases n) simp_all

lemma dropWhile_bar: "bar \<notin> set str \<Longrightarrow> dropWhile (\<lambda>c. c \<noteq> bar) (str @ bar # r) = bar # r"
  by (subst dropWhile_append2) auto

lemma parse_piece:
  assumes "piece_ok x" and "snd out + length (piece_text x) \<le> completion_max_insert_text_chars"
    and "piece_number x \<noteq> None \<longrightarrow> length phs < snippet_max_tabstops"
  shows "parse_loop (render_piece x @ r) out phs =
    parse_loop r (fst out @ piece_text x, snd out + length (piece_text x))
      (phs @ piece_placeholders (byte_len (fst out)) [x])"
proof (cases x)
  case (Literal str)
  then show ?thesis using assms by (simp add: parse_literal)
next
  case (Tabstop n)
  have "parse_braced (n @ close_brace # r) out phs =
      Inr (r, out, phs @ piece_placeholders (byte_len (fst out)) [x])"
    using assms Tabstop
    by (simp add: parse_braced_def parse_index_number[of n] number_head push_placeholder_room Let_def)
  then show ?thesis using Tabstop parse_braced_turn by simp
next
  case (Placeholder n str)
  have "push_until (\<lambda>c. c = close_brace) (str @ close_brace # r) out =
      Inr (close_brace # r, (fst out @ str, snd out + length str))"
    using assms(1,2) Placeholder by (intro push_until_stops) (auto simp: list_all_iff)
  then have "parse_braced (n @ colon # str @ close_brace # r) out phs =
      Inr (r, (fst out @ str, snd out + length str), phs @ piece_placeholders (byte_len (fst out)) [x])"
    using assms Placeholder
    by (simp add: parse_braced_def parse_index_number[of n] number_head push_placeholder_room Let_def)
  then show ?thesis using Placeholder parse_braced_turn by simp
next
  case (Choice n str options)
  let ?rest = "concat (map ((#) comma) options) @ bar # close_brace # r"
  obtain c cs where rest: "?rest = c # cs" "c = comma \<or> c = bar"
    by (cases options) auto
  have "push_until (\<lambda>c. c = comma \<or> c = bar) (str @ c # cs) out =
      Inr (c # cs, (fst out @ str, snd out + length str))"
    using assms(1,2) Choice rest(2) by (intro push_until_stops) (auto simp: list_all_iff)
  moreover have "dropWhile (\<lambda>c. c \<noteq> bar) (c # cs) = bar # close_brace # r"
    using assms(1) Choice by (subst rest(1)[symmetric], intro dropWhile_bar) auto
  ultimately have "parse_braced (n @ bar # str @ c # cs) out phs =
      Inr (r, (fst out @ str, snd out + length str), phs @ piece_placeholders (byte_len (fst out)) [x])"
    using assms Choice
    by (simp add: parse_braced_def parse_index_number[of n] number_head push_placeholder_room Let_def
        del: dropWhile.simps)
  then show ?thesis using Choice rest(1) parse_braced_turn by simp
qed

abbreviation pieces_text :: "snippet_piece list \<Rightarrow> ustr" where
  "pieces_text xs \<equiv> concat (map piece_text xs)"

lemma piece_placeholders_Cons:
  "piece_placeholders pos (x # xs) =
     piece_placeholders pos [x] @ piece_placeholders (pos + byte_len (piece_text x)) xs"
  by simp

lemma parse_pieces:
  "list_all piece_ok xs \<Longrightarrow> snd out + length (pieces_text xs) \<le> completion_max_insert_text_chars \<Longrightarrow>
     length phs + length (piece_placeholders (byte_len (fst out)) xs) \<le> snippet_max_tabstops \<Longrightarrow>
     parse_loop (concat (map render_piece xs)) out phs =
       Inr \<lparr>sx_text = fst out @ pieces_text xs,
            sx_placeholders = phs @ piece_placeholders (byte_len (fst out)) xs\<rparr>"
proof (induction xs arbitrary: out phs)
  case Nil
  then show ?case by (simp add: parse_loop_eqs(1))
next
  case (Cons x xs)
  let ?out = "(fst out @ piece_text x, snd out + length (piece_text x))"
  let ?phs = "phs @ piece_placeholders (byte_len (fst out)) [x]"
  have "parse_loop (render_piece x @ concat (map render_piece xs)) out phs =
      parse_loop (concat (map render_piece xs)) ?out ?phs"
    using Cons.prems by (intro parse_piece) (auto split: option.splits)
  also have "\<dots> = Inr \<lparr>sx_text = fst ?out @ pieces_text xs,
      sx_placeholders = ?phs @ piece_placeholders (byte_len (fst ?out)) xs\<rparr>"
    using Cons.prems by (intro Cons.IH) (auto split: option.splits)
  finally show ?case by (simp split: option.split)
qed

section \<open>The session\<close>

text \<open>
  \<open>SnippetSession\<close> and its updates. \<open>install_snippet_session\<close> and the two moves give, with the
  session, the placeholder to select or the caret to collapse to.
\<close>

record snippet_session =
  sn_placeholders :: "snippet_placeholder list"
  sn_active_index :: nat

datatype snippet_focus = Keep_Focus | Collapse_To nat | Select_Range nat nat

definition placeholder_key :: "snippet_placeholder \<Rightarrow> nat \<times> nat \<times> nat" where
  "placeholder_key p = (if sp_final_tabstop p then 1 else 0, sp_index p, sp_byte_start p)"

text \<open>\<open>sort_by_key\<close>, a stable sort by the lexicographic order on the key.\<close>

definition sort_placeholders :: "snippet_placeholder list \<Rightarrow> snippet_placeholder list" where
  "sort_placeholders phs = sort_key placeholder_key phs"

definition install_snippet_session ::
  "snippet_placeholder list \<Rightarrow> snippet_session option \<times> snippet_focus" where
  "install_snippet_session placeholders =
     (case sort_placeholders placeholders of
        [] \<Rightarrow> (None, Keep_Focus)
      | first # rest \<Rightarrow>
          if sp_final_tabstop first then (None, Collapse_To (sp_byte_end first))
          else (Some \<lparr>sn_placeholders = first # rest, sn_active_index = 0\<rparr>,
                Select_Range (sp_byte_start first) (sp_byte_end first)))"

definition select_next_snippet_placeholder ::
  "snippet_session option \<Rightarrow> snippet_session option \<times> snippet_focus \<times> bool" where
  "select_next_snippet_placeholder snippet =
     (case snippet of
        None \<Rightarrow> (None, Keep_Focus, False)
      | Some session \<Rightarrow>
          case checked_add (sn_active_index session) 1 of
            None \<Rightarrow> (snippet, Keep_Focus, False)
          | Some next_index \<Rightarrow>
              if next_index < length (sn_placeholders session) then
                let placeholder = sn_placeholders session ! next_index in
                if sp_final_tabstop placeholder
                then (None, Collapse_To (sp_byte_end placeholder), True)
                else (Some (session\<lparr>sn_active_index := next_index\<rparr>),
                      Select_Range (sp_byte_start placeholder) (sp_byte_end placeholder), True)
              else (None, Collapse_To (sp_byte_end (sn_placeholders session ! sn_active_index session)), True))"

definition select_previous_snippet_placeholder ::
  "snippet_session option \<Rightarrow> snippet_session option \<times> snippet_focus \<times> bool" where
  "select_previous_snippet_placeholder snippet =
     (case snippet of
        None \<Rightarrow> (None, Keep_Focus, False)
      | Some session \<Rightarrow>
          if sn_active_index session = 0 then (snippet, Keep_Focus, True)
          else
            let session = session\<lparr>sn_active_index := sn_active_index session - 1\<rparr>;
                placeholder = sn_placeholders session ! sn_active_index session in
            (Some session, Select_Range (sp_byte_start placeholder) (sp_byte_end placeholder), True))"

definition shift_snippet_offset :: "nat \<Rightarrow> nat \<Rightarrow> nat \<Rightarrow> nat option" where
  "shift_snippet_offset offset removed_len inserted_len =
     (if inserted_len \<ge> removed_len then checked_add offset (inserted_len - removed_len)
      else checked_sub offset (removed_len - inserted_len))"

text \<open>One turn of the loop over the placeholders; \<open>None\<close> where the source ends the session.\<close>

definition shift_placeholder ::
  "bool \<Rightarrow> nat \<Rightarrow> nat \<Rightarrow> nat \<Rightarrow> snippet_placeholder \<Rightarrow> snippet_placeholder option" where
  "shift_placeholder active edit_start edit_end inserted_len p =
     (let removed_len = edit_end - edit_start in
      if active then
        map_option (\<lambda>e. p\<lparr>sp_byte_end := e\<rparr>) (shift_snippet_offset (sp_byte_end p) removed_len inserted_len)
      else if sp_byte_start p \<ge> edit_end then
        (case shift_snippet_offset (sp_byte_start p) removed_len inserted_len of
           None \<Rightarrow> None
         | Some s \<Rightarrow> map_option (\<lambda>e. p\<lparr>sp_byte_start := s, sp_byte_end := e\<rparr>)
                      (shift_snippet_offset (sp_byte_end p) removed_len inserted_len))
      else if sp_byte_end p > edit_start then None
      else Some p)"

fun shift_placeholders ::
  "nat \<Rightarrow> nat \<Rightarrow> nat \<Rightarrow> nat \<Rightarrow> nat \<Rightarrow> snippet_placeholder list \<Rightarrow> snippet_placeholder list option" where
  "shift_placeholders index active edit_start edit_end inserted_len [] = Some []"
| "shift_placeholders index active edit_start edit_end inserted_len (p # ps) =
     (case shift_placeholder (index = active) edit_start edit_end inserted_len p of
        None \<Rightarrow> None
      | Some p' \<Rightarrow> map_option ((#) p') (shift_placeholders (Suc index) active edit_start edit_end inserted_len ps))"

definition update_snippet_session_after_edit ::
  "snippet_session option \<Rightarrow> edit_operation \<Rightarrow> snippet_session option" where
  "update_snippet_session_after_edit snippet operation =
     (case try_usize (op_start operation) of
        None \<Rightarrow> None
      | Some edit_start \<Rightarrow>
          case try_usize (op_end operation) of
            None \<Rightarrow> None
          | Some edit_end \<Rightarrow>
              case snippet of
                None \<Rightarrow> None
              | Some session \<Rightarrow>
                  let active = sn_placeholders session ! sn_active_index session in
                  if edit_start < sp_byte_start active \<or> edit_end > sp_byte_end active then None
                  else map_option (\<lambda>phs. session\<lparr>sn_placeholders := phs\<rparr>)
                    (shift_placeholders 0 (sn_active_index session) edit_start edit_end
                       (byte_len (op_text operation)) (sn_placeholders session)))"

section \<open>Ranges follow the text\<close>

definition placeholder_in :: "ustr \<Rightarrow> snippet_placeholder \<Rightarrow> bool" where
  "placeholder_in t p \<longleftrightarrow>
     is_boundary t (sp_byte_start p) \<and> is_boundary t (sp_byte_end p) \<and> sp_byte_start p \<le> sp_byte_end p"

definition placeholder_text :: "ustr \<Rightarrow> snippet_placeholder \<Rightarrow> ustr" where
  "placeholder_text t p = text_slice t (sp_byte_start p) (sp_byte_end p)"

definition session_ok :: "ustr \<Rightarrow> snippet_session \<Rightarrow> bool" where
  "session_ok t s \<longleftrightarrow> sn_active_index s < length (sn_placeholders s) \<and> list_all (placeholder_in t) (sn_placeholders s)"

lemma shift_offset_after:
  assumes "valid_op t e" and "op_end e \<le> x" and "x \<le> byte_len t" and "byte_len (edited_text t e) \<le> u64_max"
  shows "shift_snippet_offset x (op_end e - op_start e) (byte_len (op_text e)) =
    Some (op_start e + byte_len (op_text e) + (x - op_end e))"
proof -
  have "op_start e \<le> op_end e" "op_end e \<le> byte_len t"
    using assms(1) by (auto simp: valid_op_def dest: is_boundary_le)
  then show ?thesis
    using assms(2-4) byte_len_edited_text[OF assms(1)]
    by (auto simp: shift_snippet_offset_def checked_add_def checked_sub_def)
qed

lemma shift_active:
  assumes "valid_op t e" and "placeholder_in t p" and "sp_byte_start p \<le> op_start e" and "op_end e \<le> sp_byte_end p"
    and "byte_len (edited_text t e) \<le> u64_max"
  shows "\<exists>p'. shift_placeholder True (op_start e) (op_end e) (byte_len (op_text e)) p = Some p' \<and>
    placeholder_in (edited_text t e) p' \<and>
    (\<exists>u v. placeholder_text t p = u @ prior_text t e @ v \<and>
           placeholder_text (edited_text t e) p' = u @ op_text e @ v)"
proof -
  let ?p' = "p\<lparr>sp_byte_end := op_start e + byte_len (op_text e) + (sp_byte_end p - op_end e)\<rparr>"
  obtain a m b where t: "t = a @ m @ b" "sp_byte_start p = byte_len a" "sp_byte_end p = byte_len a + byte_len m"
    using assms(2) boundary_split_range[of t "sp_byte_start p" "sp_byte_end p"] by (auto simp: placeholder_in_def)
  obtain i j where ij: "op_start e = byte_len a + i" "op_end e = byte_len a + j" "i \<le> j" "j \<le> byte_len m"
  proof
    show "op_start e = byte_len a + (op_start e - byte_len a)" "op_end e = byte_len a + (op_end e - byte_len a)"
      "op_start e - byte_len a \<le> op_end e - byte_len a" "op_end e - byte_len a \<le> byte_len m"
      using assms(3,4) t(2,3) valid_opD(3)[OF assms(1)] by simp_all
  qed
  have "is_boundary m i" "is_boundary m j"
    using valid_opD(1,2)[OF assms(1)] ij t(1) is_boundary_append[of a "m @ b"]
      is_boundary_append_left[of i m b] is_boundary_append_left[of j m b]
    by simp_all
  then obtain u x v where m: "m = u @ x @ v" "i = byte_len u" "j = byte_len u + byte_len x"
    using ij(3) boundary_split_range by metis
  have t': "edited_text t e = a @ (u @ op_text e @ v) @ b" and prior: "prior_text t e = x"
    using text_splice_parts[of "a @ u" x "v @ b" "op_text e"] text_slice_parts[of "a @ u" x "v @ b"]
    by (simp_all add: edited_text_def prior_text_def t(1) ij(1,2) m add.assoc)
  have starts: "sp_byte_start ?p' = byte_len a" using t(2) by simp
  have ends: "sp_byte_end ?p' = byte_len a + byte_len (u @ op_text e @ v)"
    using t(3) ij m by simp
  have "placeholder_text t p = m"
    by (simp add: placeholder_text_def t)
  then have "placeholder_text t p = u @ prior_text t e @ v"
    using m(1) prior by simp
  moreover have "placeholder_text (edited_text t e) ?p' = u @ op_text e @ v"
    by (simp only: placeholder_text_def starts ends t' text_slice_parts)
  moreover have "placeholder_in (edited_text t e) ?p'"
    by (simp only: placeholder_in_def starts ends t' boundary_prefix boundary_prefix2 le_add1 simp_thms)
  moreover have "shift_placeholder True (op_start e) (op_end e) (byte_len (op_text e)) p = Some ?p'"
    using shift_offset_after[OF assms(1,4) _ assms(5)] assms(2)
    by (simp add: shift_placeholder_def placeholder_in_def is_boundary_le)
  ultimately show ?thesis by blast
qed

lemma shift_other:
  assumes "valid_op t e" and "placeholder_in t p" and "op_end e \<le> sp_byte_start p \<or> sp_byte_end p \<le> op_start e"
    and "byte_len (edited_text t e) \<le> u64_max"
  shows "\<exists>p'. shift_placeholder False (op_start e) (op_end e) (byte_len (op_text e)) p = Some p' \<and>
    placeholder_in (edited_text t e) p' \<and> placeholder_text (edited_text t e) p' = placeholder_text t p"
proof (cases "op_end e \<le> sp_byte_start p")
  case True
  let ?f = "\<lambda>x. op_start e + byte_len (op_text e) + (x - op_end e)"
  let ?p' = "p\<lparr>sp_byte_start := ?f (sp_byte_start p), sp_byte_end := ?f (sp_byte_end p)\<rparr>"
  have p: "op_end e \<le> sp_byte_end p" "sp_byte_start p \<le> byte_len t" "sp_byte_end p \<le> byte_len t"
    using assms(2) True by (auto simp: placeholder_in_def dest: is_boundary_le)
  have "shift_placeholder False (op_start e) (op_end e) (byte_len (op_text e)) p = Some ?p'"
    using shift_offset_after[OF assms(1) True p(2) assms(4)] shift_offset_after[OF assms(1) p(1,3) assms(4)] True
    by (simp add: shift_placeholder_def)
  moreover have "placeholder_in (edited_text t e) ?p'"
    using text_splice_boundary_after[OF valid_opD[OF assms(1)]] assms(2) True p(1)
    by (simp add: placeholder_in_def edited_text_def diff_le_mono)
  moreover have "placeholder_text (edited_text t e) ?p' = placeholder_text t p"
    using text_splice_after[OF valid_opD[OF assms(1)] True p(1)]
    by (simp add: placeholder_text_def edited_text_def)
  ultimately show ?thesis by blast
next
  case False
  then have before: "sp_byte_end p \<le> op_start e" using assms(3) by blast
  then have "sp_byte_start p \<le> op_start e" using assms(2) by (simp add: placeholder_in_def)
  then have "placeholder_in (edited_text t e) p"
    using text_splice_boundary_before[OF valid_opD[OF assms(1)]] assms(2) before
    by (simp add: placeholder_in_def edited_text_def)
  moreover have "placeholder_text (edited_text t e) p = placeholder_text t p"
    using text_splice_before[OF valid_opD[OF assms(1)]] assms(2) before
    by (simp add: placeholder_in_def placeholder_text_def edited_text_def)
  ultimately show ?thesis using False before by (simp add: shift_placeholder_def Let_def)
qed

lemma shift_placeholders_all:
  assumes "\<And>k. k < length phs \<Longrightarrow>
      \<exists>p'. shift_placeholder (index + k = active) a b n (phs ! k) = Some p' \<and> Q k p'"
  shows "\<exists>phs'. shift_placeholders index active a b n phs = Some phs' \<and> length phs' = length phs \<and>
      (\<forall>k<length phs. Q k (phs' ! k))"
  using assms
proof (induction phs arbitrary: index Q)
  case (Cons p phs)
  obtain p' where p': "shift_placeholder (index = active) a b n p = Some p'" "Q 0 p'"
    using Cons.prems[of 0] by auto
  have "\<exists>p'. shift_placeholder (Suc index + k = active) a b n (phs ! k) = Some p' \<and> Q (Suc k) p'"
    if "k < length phs" for k using Cons.prems[of "Suc k"] that by simp
  then obtain phs' where "shift_placeholders (Suc index) active a b n phs = Some phs'" "length phs' = length phs"
    "\<forall>k<length phs. Q (Suc k) (phs' ! k)"
    using Cons.IH[where index = "Suc index" and Q = "\<lambda>k. Q (Suc k)"] by blast
  then show ?case
    using p' by (auto simp: less_Suc_eq_0_disj)
qed simp

section \<open>Properties\<close>

text \<open>
  C27: the snippet parser accepts every rendering of plain text, tabstops, placeholders and
  choices within its limits, and returns exactly their meaning: the literals, defaults and first
  choices in order, and one placeholder per numbered piece whose byte range is where its text
  landed. A number above the 32-bit range counts as 0, the final tabstop.
\<close>

theorem snippet_parse_render:
  assumes "list_all piece_ok xs"
    and "length (pieces_text xs) \<le> completion_max_insert_text_chars"
    and "length (piece_placeholders 0 xs) \<le> snippet_max_tabstops"
  shows "parse_snippet (concat (map render_piece xs)) =
    Inr \<lparr>sx_text = pieces_text xs, sx_placeholders = piece_placeholders 0 xs\<rparr>"
  using assms parse_pieces[of xs "([], 0)" "[]"] by (simp add: parse_snippet_def)

text \<open>\<open>fn ${1:ab}(${2|x,y|})$0\<close> with the last tabstop braced.\<close>

definition sample_pieces :: "snippet_piece list" where
  "sample_pieces = [Literal [102, 110, 32], Placeholder [49] [97, 98], Literal [40], Choice [50] [120] [[121]],
                    Literal [41], Tabstop [48]]"

theorem snippet_parse_render_witness:
  "parse_snippet (concat (map render_piece sample_pieces)) =
     Inr \<lparr>sx_text = [102, 110, 32, 97, 98, 40, 120, 41],
          sx_placeholders =
            [\<lparr>sp_byte_start = 3, sp_byte_end = 5, sp_index = 1, sp_final_tabstop = False\<rparr>,
             \<lparr>sp_byte_start = 6, sp_byte_end = 7, sp_index = 2, sp_final_tabstop = False\<rparr>,
             \<lparr>sp_byte_start = 8, sp_byte_end = 8, sp_index = 0, sp_final_tabstop = True\<rparr>]\<rparr>"
proof -
  have "list_all piece_ok sample_pieces" "length (pieces_text sample_pieces) \<le> completion_max_insert_text_chars"
    "length (piece_placeholders 0 sample_pieces) \<le> snippet_max_tabstops"
    by (simp_all add: sample_pieces_def is_ascii_digit_def completion_max_insert_text_chars_def
        snippet_max_tabstops_def)
  from snippet_parse_render[OF this] show ?thesis
    by (simp add: sample_pieces_def number_index_def decimal_value_def u32_max_def len_utf8_def)
qed

text \<open>
  Whatever the input, an accepted snippet's text has at most 256 characters and at most 32
  placeholders; each placeholder's range lies on character boundaries inside the text, the ranges
  do not overlap and come in the order of the text, and exactly index 0 is the final tabstop.
\<close>

theorem snippet_result_bounded:
  assumes "parse_snippet input = Inr x"
  shows "length (sx_text x) \<le> 256 \<and> length (sx_placeholders x) \<le> 32 \<and>
    (\<forall>p\<in>set (sx_placeholders x). is_boundary (sx_text x) (sp_byte_start p) \<and>
       is_boundary (sx_text x) (sp_byte_end p) \<and> sp_byte_start p \<le> sp_byte_end p \<and>
       sp_final_tabstop p = (sp_index p = 0)) \<and>
    sorted_wrt (\<lambda>p q. sp_byte_end p \<le> sp_byte_start q) (sx_placeholders x)"
proof -
  have "out_ok ([], 0)" "placeholders_ok [] []"
    by (simp_all add: out_ok_def placeholders_ok_def)
  then show ?thesis
    using parse_loop_ok[of input "([], 0)" "[]" x] assms
    by (simp add: parse_snippet_def placeholders_ok_def completion_max_insert_text_chars_def
        snippet_max_tabstops_def)
qed

lemma two_fields_parsed:
  "parse_snippet (concat (map render_piece [Tabstop [49], Placeholder [50] [120]])) =
     Inr \<lparr>sx_text = [120],
          sx_placeholders =
            [\<lparr>sp_byte_start = 0, sp_byte_end = 0, sp_index = 1, sp_final_tabstop = False\<rparr>,
             \<lparr>sp_byte_start = 0, sp_byte_end = 1, sp_index = 2, sp_final_tabstop = False\<rparr>]\<rparr>"
  using parse_pieces[of "[Tabstop [49], Placeholder [50] [120]]" "([], 0)" "[]"]
  by (simp add: parse_snippet_def is_ascii_digit_def completion_max_insert_text_chars_def
      snippet_max_tabstops_def number_index_def decimal_value_def u32_max_def len_utf8_def)

theorem snippet_result_bounded_witness:
  "\<exists>x. parse_snippet (concat (map render_piece [Tabstop [49], Placeholder [50] [120]])) = Inr x \<and>
     length (sx_placeholders x) = 2 \<and> length (sx_text x) \<le> 256 \<and>
     sorted_wrt (\<lambda>p q. sp_byte_end p \<le> sp_byte_start q) (sx_placeholders x)"
  using snippet_result_bounded[OF two_fields_parsed] two_fields_parsed by simp

text \<open>
  C30: while a snippet session is active and the user edits inside the active placeholder (other
  placeholders lying before or after it), the session goes on: the active range covers the
  edited text, every other range still covers exactly the text it covered, and every range lies on
  character boundaries of the new text.
\<close>

theorem session_ranges_follow_text:
  assumes "session_ok t s" and "valid_op t e"
    and "sp_byte_start (sn_placeholders s ! sn_active_index s) \<le> op_start e"
    and "op_end e \<le> sp_byte_end (sn_placeholders s ! sn_active_index s)"
    and "\<And>k. k < length (sn_placeholders s) \<Longrightarrow> k \<noteq> sn_active_index s \<Longrightarrow>
          op_end e \<le> sp_byte_start (sn_placeholders s ! k) \<or> sp_byte_end (sn_placeholders s ! k) \<le> op_start e"
    and "byte_len t \<le> u64_max" and "byte_len (edited_text t e) \<le> u64_max"
  shows "\<exists>s'. update_snippet_session_after_edit (Some s) e = Some s' \<and> session_ok (edited_text t e) s' \<and>
    sn_active_index s' = sn_active_index s \<and> length (sn_placeholders s') = length (sn_placeholders s) \<and>
    (\<forall>k<length (sn_placeholders s). k \<noteq> sn_active_index s \<longrightarrow>
       placeholder_text (edited_text t e) (sn_placeholders s' ! k) = placeholder_text t (sn_placeholders s ! k)) \<and>
    (\<exists>u v. placeholder_text t (sn_placeholders s ! sn_active_index s) = u @ prior_text t e @ v \<and>
       placeholder_text (edited_text t e) (sn_placeholders s' ! sn_active_index s) = u @ op_text e @ v)"
proof -
  let ?phs = "sn_placeholders s" and ?i = "sn_active_index s" and ?t' = "edited_text t e"
  define Q where "Q k p' \<longleftrightarrow> placeholder_in ?t' p' \<and>
      (if k = ?i then \<exists>u v. placeholder_text t (?phs ! ?i) = u @ prior_text t e @ v \<and>
                            placeholder_text ?t' p' = u @ op_text e @ v
       else placeholder_text ?t' p' = placeholder_text t (?phs ! k))" for k p'
  have len: "?i < length ?phs" and inside: "placeholder_in t (?phs ! k)" if "k < length ?phs" for k
    using assms(1) that by (auto simp: session_ok_def list_all_length)
  have i: "?i < length ?phs" using assms(1) by (simp add: session_ok_def)
  have "\<exists>p'. shift_placeholder (0 + k = ?i) (op_start e) (op_end e) (byte_len (op_text e)) (?phs ! k) = Some p' \<and> Q k p'"
    if k: "k < length ?phs" for k
  proof (cases "k = ?i")
    case True
    then show ?thesis
      using shift_active[OF assms(2) inside[OF k]] assms(3,4,7) by (simp add: Q_def)
  next
    case False
    then show ?thesis
      using shift_other[OF assms(2) inside[OF k] assms(5)[OF k False] assms(7)] by (simp add: Q_def)
  qed
  then obtain phs' where phs': "shift_placeholders 0 ?i (op_start e) (op_end e) (byte_len (op_text e)) ?phs = Some phs'"
    "length phs' = length ?phs" and Q: "\<And>k. k < length ?phs \<Longrightarrow> Q k (phs' ! k)"
    using shift_placeholders_all[where index = 0 and Q = Q] by blast
  have "op_end e \<le> u64_max" "op_start e \<le> u64_max"
    using assms(2,6) by (auto simp: valid_op_def dest: is_boundary_le)
  then have "update_snippet_session_after_edit (Some s) e = Some (s\<lparr>sn_placeholders := phs'\<rparr>)"
    using assms(3,4) phs'(1) by (simp add: update_snippet_session_after_edit_def try_usize_def not_less)
  moreover have "session_ok ?t' (s\<lparr>sn_placeholders := phs'\<rparr>)"
    using i Q phs'(2) by (simp add: session_ok_def list_all_length Q_def)
  ultimately show ?thesis
    using i Q phs'(2) by (intro exI[of _ "s\<lparr>sn_placeholders := phs'\<rparr>"]) (simp add: Q_def)
qed

definition sample_snippet_session :: snippet_session where
  "sample_snippet_session = \<lparr>sn_placeholders =
     [\<lparr>sp_byte_start = 1, sp_byte_end = 2, sp_index = 1, sp_final_tabstop = False\<rparr>,
      \<lparr>sp_byte_start = 3, sp_byte_end = 4, sp_index = 2, sp_final_tabstop = False\<rparr>], sn_active_index = 0\<rparr>"

theorem session_ranges_follow_text_witness:
  "\<exists>s'. update_snippet_session_after_edit (Some sample_snippet_session) (Replace 1 2 [120, 121]) = Some s' \<and>
     placeholder_text [40, 120, 121, 44, 98, 41] (sn_placeholders s' ! 1) = [98]"
proof -
  let ?t = "[40, 97, 44, 98, 41] :: ustr" and ?e = "Replace 1 2 [120, 121]"
  have "session_ok ?t sample_snippet_session" "valid_op ?t ?e" "byte_len ?t \<le> u64_max"
    "edited_text ?t ?e = [40, 120, 121, 44, 98, 41]" "byte_len [40, 120, 121, 44, 98, 41] \<le> u64_max"
    by (simp_all add: session_ok_def sample_snippet_session_def placeholder_in_def valid_op_def len_utf8_def
        u64_max_def edited_text_def text_splice_def)
  moreover have "op_end ?e \<le> sp_byte_start (sn_placeholders sample_snippet_session ! k)"
    if "k < length (sn_placeholders sample_snippet_session)" "k \<noteq> sn_active_index sample_snippet_session" for k
    using that by (auto simp: sample_snippet_session_def less_Suc_eq)
  moreover have "placeholder_text ?t (sn_placeholders sample_snippet_session ! 1) = [98]"
    by (simp add: placeholder_text_def sample_snippet_session_def text_slice_def len_utf8_def)
  ultimately show ?thesis
    using session_ranges_follow_text[of ?t sample_snippet_session ?e]
    by (fastforce simp: sample_snippet_session_def)
qed

end
