(* ===== verification/Pane_Tree.thy ===== *)
theory Pane_Tree imports Complex_Main Clay_Prelude begin

text \<open>
  The split tree of a tab's panes (\<open>shell/layout.rs\<close>): the nodes, the validated tree with its
  focus, and the operations that split, close, move, focus and resize panes.

  A finite \<open>f64\<close> is the rational it denotes, and every arithmetic result goes through
  \<open>fl\<close>, the rounding to the nearest double, an argument of the definitions: the facts hold for every
  rounding, those on ratios for every monotone one. Infinities and NaN are not modelled; the tree's
  ratios are checked to be finite. \<open>Rect\<close> is the rectangle of the \<open>kurbo\<close> package, used through
  its four fields and its width and height.

  The lemmas show that every tree the operations build is valid, what each does to the panes
  in reading order, and that closing a pane undoes the split that made it.
\<close>

section \<open>Nodes and trees\<close>

datatype split_orientation = Horizontal | Vertical

datatype split_child = First | Second

datatype pane_split_node =
    Pane_Leaf nat
  | Pane_Split split_orientation rat pane_split_node pane_split_node

datatype pane_split_tree_error =
    Invalid_Pane_Id nat
  | Duplicate_Pane_Id nat
  | Active_Pane_Missing nat
  | Invalid_Split_Ratio rat
  | Too_Many_Nodes nat nat

record pane_split_tree =
  pt_root :: pane_split_node
  pt_active_pane_id :: nat
  pt_pane_count :: nat
  pt_split_count :: nat

definition max_pane_split_tree_nodes :: nat where
  "max_pane_split_tree_nodes = 64"

definition max_panes_per_tab :: nat where
  "max_panes_per_tab = 4"

definition default_pane_id :: nat where
  "default_pane_id = 1"

definition min_split_ratio :: "(rat \<Rightarrow> rat) \<Rightarrow> rat" where
  "min_split_ratio fl = fl (1 / 20)"

definition max_split_ratio :: "(rat \<Rightarrow> rat) \<Rightarrow> rat" where
  "max_split_ratio fl = fl (19 / 20)"

definition split_ratio_new :: "(rat \<Rightarrow> rat) \<Rightarrow> rat \<Rightarrow> pane_split_tree_error + rat" where
  "split_ratio_new fl v =
     (if min_split_ratio fl \<le> v \<and> v \<le> max_split_ratio fl then Inr v else Inl (Invalid_Split_Ratio v))"

text \<open>\<open>PaneSplitTreeValidator\<close>.\<close>

record tree_validator =
  tv_node_count :: nat
  tv_pane_count :: nat
  tv_split_count :: nat
  tv_pane_ids :: "nat set"

definition validator_default :: tree_validator where
  "validator_default = \<lparr>tv_node_count = 0, tv_pane_count = 0, tv_split_count = 0, tv_pane_ids = {}\<rparr>"

fun visit ::
  "(rat \<Rightarrow> rat) \<Rightarrow> tree_validator \<Rightarrow> pane_split_node \<Rightarrow> pane_split_tree_error + tree_validator" where
  "visit fl v (Pane_Leaf pane_id) =
     (let v = v\<lparr>tv_node_count := tv_node_count v + 1\<rparr> in
      if tv_node_count v > max_pane_split_tree_nodes
      then Inl (Too_Many_Nodes (tv_node_count v) max_pane_split_tree_nodes)
      else if pane_id = 0 then Inl (Invalid_Pane_Id pane_id)
      else if pane_id \<in> tv_pane_ids v then Inl (Duplicate_Pane_Id pane_id)
      else Inr (v\<lparr>tv_pane_ids := insert pane_id (tv_pane_ids v), tv_pane_count := tv_pane_count v + 1\<rparr>))"
| "visit fl v (Pane_Split orientation ratio first second) =
     (let v = v\<lparr>tv_node_count := tv_node_count v + 1\<rparr> in
      if tv_node_count v > max_pane_split_tree_nodes
      then Inl (Too_Many_Nodes (tv_node_count v) max_pane_split_tree_nodes)
      else if \<not> (min_split_ratio fl \<le> ratio \<and> ratio \<le> max_split_ratio fl)
      then Inl (Invalid_Split_Ratio ratio)
      else
        bind_result (visit fl (v\<lparr>tv_split_count := tv_split_count v + 1\<rparr>) first)
          (\<lambda>v. visit fl v second))"

definition tree_new ::
  "(rat \<Rightarrow> rat) \<Rightarrow> pane_split_node \<Rightarrow> nat \<Rightarrow> pane_split_tree_error + pane_split_tree" where
  "tree_new fl node active_pane_id =
     bind_result (visit fl validator_default node) (\<lambda>v.
       if active_pane_id \<notin> tv_pane_ids v then Inl (Active_Pane_Missing active_pane_id)
       else Inr \<lparr>pt_root = node, pt_active_pane_id = active_pane_id,
                 pt_pane_count = tv_pane_count v, pt_split_count = tv_split_count v\<rparr>)"

text \<open>\<open>Result::ok\<close>.\<close>

definition result_ok :: "'e + 'a \<Rightarrow> 'a option" where
  "result_ok r = (case r of Inl _ \<Rightarrow> None | Inr x \<Rightarrow> Some x)"

definition single_leaf :: "(rat \<Rightarrow> rat) \<Rightarrow> nat \<Rightarrow> pane_split_tree option" where
  "single_leaf fl pane_id = result_ok (tree_new fl (Pane_Leaf pane_id) pane_id)"

fun collect_pane_ids :: "pane_split_node \<Rightarrow> nat list" where
  "collect_pane_ids (Pane_Leaf pane_id) = [pane_id]"
| "collect_pane_ids (Pane_Split _ _ first second) = collect_pane_ids first @ collect_pane_ids second"

definition pane_ids :: "pane_split_tree \<Rightarrow> nat list" where
  "pane_ids t = collect_pane_ids (pt_root t)"

section \<open>Geometry\<close>

record rect =
  rc_x0 :: rat
  rc_y0 :: rat
  rc_x1 :: rat
  rc_y1 :: rat

definition normalized_rect :: "rect \<Rightarrow> rect" where
  "normalized_rect area =
     \<lparr>rc_x0 = min (rc_x0 area) (rc_x1 area), rc_y0 = min (rc_y0 area) (rc_y1 area),
      rc_x1 = max (rc_x0 area) (rc_x1 area), rc_y1 = max (rc_y0 area) (rc_y1 area)\<rparr>"

definition split_rect :: "(rat \<Rightarrow> rat) \<Rightarrow> rect \<Rightarrow> split_orientation \<Rightarrow> rat \<Rightarrow> rect \<times> rect" where
  "split_rect fl area orientation ratio =
     (let area = normalized_rect area in
      case orientation of
        Horizontal \<Rightarrow>
          let split_x = fl (rc_x0 area + fl (fl (rc_x1 area - rc_x0 area) * ratio)) in
          (area\<lparr>rc_x1 := split_x\<rparr>, area\<lparr>rc_x0 := split_x\<rparr>)
      | Vertical \<Rightarrow>
          let split_y = fl (rc_y0 area + fl (fl (rc_y1 area - rc_y0 area) * ratio)) in
          (area\<lparr>rc_y1 := split_y\<rparr>, area\<lparr>rc_y0 := split_y\<rparr>))"

fun collect_geometry :: "(rat \<Rightarrow> rat) \<Rightarrow> pane_split_node \<Rightarrow> rect \<Rightarrow> (nat \<times> rect) list" where
  "collect_geometry fl (Pane_Leaf pane_id) area = [(pane_id, normalized_rect area)]"
| "collect_geometry fl (Pane_Split orientation ratio first second) area =
     (let (first_rect, second_rect) = split_rect fl area orientation ratio in
      collect_geometry fl first first_rect @ collect_geometry fl second second_rect)"

fun find_rect_in_node :: "(rat \<Rightarrow> rat) \<Rightarrow> pane_split_node \<Rightarrow> nat \<Rightarrow> rect \<Rightarrow> rect option" where
  "find_rect_in_node fl (Pane_Leaf current) pane_id area =
     (if current = pane_id then Some (normalized_rect area) else None)"
| "find_rect_in_node fl (Pane_Split orientation ratio first second) pane_id area =
     (let (first_rect, second_rect) = split_rect fl area orientation ratio in
      case find_rect_in_node fl first pane_id first_rect of
        Some r \<Rightarrow> Some r
      | None \<Rightarrow> find_rect_in_node fl second pane_id second_rect)"

definition compute_geometry :: "(rat \<Rightarrow> rat) \<Rightarrow> pane_split_tree \<Rightarrow> rect \<Rightarrow> (nat \<times> rect) list" where
  "compute_geometry fl t area = collect_geometry fl (pt_root t) area"

definition pane_rect :: "(rat \<Rightarrow> rat) \<Rightarrow> pane_split_tree \<Rightarrow> nat \<Rightarrow> rect \<Rightarrow> rect option" where
  "pane_rect fl t pane_id area = find_rect_in_node fl (pt_root t) pane_id area"

definition contains_pane :: "(rat \<Rightarrow> rat) \<Rightarrow> pane_split_tree \<Rightarrow> nat \<Rightarrow> bool" where
  "contains_pane fl t pane_id \<longleftrightarrow>
     pane_rect fl t pane_id \<lparr>rc_x0 = 0, rc_y0 = 0, rc_x1 = 1, rc_y1 = 1\<rparr> \<noteq> None"

section \<open>Focus\<close>

definition next_pane :: "pane_split_tree \<Rightarrow> nat" where
  "next_pane t =
     (let ids = pane_ids t;
          idx = (case position (\<lambda>p. p = pt_active_pane_id t) ids of Some i \<Rightarrow> i | None \<Rightarrow> 0) in
      ids ! ((idx + 1) mod length ids))"

definition prev_pane :: "pane_split_tree \<Rightarrow> nat" where
  "prev_pane t =
     (let ids = pane_ids t;
          idx = (case position (\<lambda>p. p = pt_active_pane_id t) ids of Some i \<Rightarrow> i | None \<Rightarrow> 0) in
      ids ! ((idx + length ids - 1) mod length ids))"

definition set_active_pane ::
  "(rat \<Rightarrow> rat) \<Rightarrow> pane_split_tree \<Rightarrow> nat \<Rightarrow> pane_split_tree_error + pane_split_tree" where
  "set_active_pane fl t pane_id =
     (if \<not> contains_pane fl t pane_id then Inl (Active_Pane_Missing pane_id)
      else Inr (t\<lparr>pt_active_pane_id := pane_id\<rparr>))"

section \<open>Split, close, add, move\<close>

fun split_node_pane ::
  "pane_split_node \<Rightarrow> nat \<Rightarrow> nat \<Rightarrow> split_orientation \<Rightarrow> rat \<Rightarrow> split_child \<Rightarrow> pane_split_node option" where
  "split_node_pane (Pane_Leaf pane_id) target_pane new_pane_id orientation ratio pos =
     (if pane_id \<noteq> target_pane then None
      else
        let original = Pane_Leaf target_pane;
            new_leaf = Pane_Leaf new_pane_id;
            (first, second) = (case pos of First \<Rightarrow> (new_leaf, original) | Second \<Rightarrow> (original, new_leaf)) in
        Some (Pane_Split orientation ratio first second))"
| "split_node_pane (Pane_Split o' r' first second) target_pane new_pane_id orientation ratio pos =
     (case (split_node_pane first target_pane new_pane_id orientation ratio pos,
            split_node_pane second target_pane new_pane_id orientation ratio pos) of
        (Some f, None) \<Rightarrow> Some (Pane_Split o' r' f second)
      | (None, Some s) \<Rightarrow> Some (Pane_Split o' r' first s)
      | _ \<Rightarrow> None)"

definition split_pane ::
  "(rat \<Rightarrow> rat) \<Rightarrow> pane_split_tree \<Rightarrow> nat \<Rightarrow> nat \<Rightarrow> split_orientation \<Rightarrow> rat \<Rightarrow> split_child \<Rightarrow>
   pane_split_tree option" where
  "split_pane fl t target_pane new_pane_id orientation ratio pos =
     (if pt_pane_count t \<ge> max_panes_per_tab \<or> contains_pane fl t new_pane_id \<or>
         \<not> contains_pane fl t target_pane then None
      else
        case split_node_pane (pt_root t) target_pane new_pane_id orientation ratio pos of
          None \<Rightarrow> None
        | Some new_root \<Rightarrow> result_ok (tree_new fl new_root (pt_active_pane_id t)))"

definition next_pane_id :: "pane_split_tree \<Rightarrow> nat" where
  "next_pane_id t = wrap_add (foldr max (pane_ids t) 0) 1"

fun first_leaf_pane_id :: "pane_split_node \<Rightarrow> nat" where
  "first_leaf_pane_id (Pane_Leaf pane_id) = pane_id"
| "first_leaf_pane_id (Pane_Split _ _ first second) = first_leaf_pane_id first"

fun close_node_pane :: "pane_split_node \<Rightarrow> nat \<Rightarrow> (pane_split_node \<times> nat) option" where
  "close_node_pane (Pane_Leaf _) pane_id = None"
| "close_node_pane (Pane_Split orientation ratio first second) pane_id =
     (if first = Pane_Leaf pane_id then Some (second, first_leaf_pane_id second)
      else if second = Pane_Leaf pane_id then Some (first, first_leaf_pane_id first)
      else
        case close_node_pane first pane_id of
          Some (rebuilt, handoff) \<Rightarrow> Some (Pane_Split orientation ratio rebuilt second, handoff)
        | None \<Rightarrow>
            case close_node_pane second pane_id of
              None \<Rightarrow> None
            | Some (rebuilt, handoff) \<Rightarrow> Some (Pane_Split orientation ratio first rebuilt, handoff))"

definition close_pane :: "(rat \<Rightarrow> rat) \<Rightarrow> pane_split_tree \<Rightarrow> nat \<Rightarrow> pane_split_tree option" where
  "close_pane fl t pane_id =
     (if pt_pane_count t \<le> 1 \<or> \<not> contains_pane fl t pane_id then None
      else
        case close_node_pane (pt_root t) pane_id of
          None \<Rightarrow> None
        | Some (new_root, sibling_first_leaf) \<Rightarrow>
            let active = (if pt_active_pane_id t = pane_id then sibling_first_leaf else pt_active_pane_id t) in
            result_ok (tree_new fl new_root active))"

text \<open>\<open>None\<close> where the source panics: no leaf to index, or a ratio out of bounds.\<close>

fun equal_comb_tree :: "(rat \<Rightarrow> rat) \<Rightarrow> split_orientation \<Rightarrow> nat list \<Rightarrow> pane_split_node option" where
  "equal_comb_tree fl orientation (a # b # rest) =
     (case split_ratio_new fl (fl (1 / rat_of_nat (length (a # b # rest)))) of
        Inl _ \<Rightarrow> None
      | Inr ratio \<Rightarrow>
          if rest = [] then Some (Pane_Split orientation ratio (Pane_Leaf a) (Pane_Leaf b))
          else map_option (Pane_Split orientation ratio (Pane_Leaf a))
                 (equal_comb_tree fl orientation (b # rest)))"
| "equal_comb_tree fl orientation _ = None"

definition add_equal_pane :: "(rat \<Rightarrow> rat) \<Rightarrow> pane_split_tree \<Rightarrow> pane_split_tree option" where
  "add_equal_pane fl t =
     (if pt_pane_count t \<ge> max_panes_per_tab then None
      else
        let orientation = (case pt_root t of
              Pane_Split orientation _ _ _ \<Rightarrow> orientation | Pane_Leaf _ \<Rightarrow> Horizontal);
            leaves = pane_ids t @ [next_pane_id t] in
        case equal_comb_tree fl orientation leaves of
          None \<Rightarrow> None
        | Some node \<Rightarrow> result_ok (tree_new fl node (pt_active_pane_id t)))"

fun swap_leaf_pane_ids :: "pane_split_node \<Rightarrow> nat \<Rightarrow> nat \<Rightarrow> pane_split_node" where
  "swap_leaf_pane_ids (Pane_Leaf pane_id) a b =
     Pane_Leaf (if pane_id = a then b else if pane_id = b then a else pane_id)"
| "swap_leaf_pane_ids (Pane_Split orientation ratio first second) a b =
     Pane_Split orientation ratio (swap_leaf_pane_ids first a b) (swap_leaf_pane_ids second a b)"

definition move_pane ::
  "(rat \<Rightarrow> rat) \<Rightarrow> pane_split_tree \<Rightarrow> nat \<Rightarrow> split_child \<Rightarrow> pane_split_tree option" where
  "move_pane fl t pane_id direction =
     (let ids = pane_ids t in
      case position (\<lambda>p. p = pane_id) ids of
        None \<Rightarrow> None
      | Some idx \<Rightarrow>
          case (case direction of
                  First \<Rightarrow> checked_sub idx 1
                | Second \<Rightarrow> (case checked_add idx 1 of
                              Some i \<Rightarrow> if i < length ids then Some i else None
                            | None \<Rightarrow> None)) of
            None \<Rightarrow> None
          | Some neighbor_idx \<Rightarrow>
              result_ok (tree_new fl (swap_leaf_pane_ids (pt_root t) pane_id (ids ! neighbor_idx))
                (pt_active_pane_id t)))"

section \<open>Ratios\<close>

text \<open>A path descends from the root; it must end at a split.\<close>

fun split_node_at_path :: "pane_split_node \<Rightarrow> split_child list \<Rightarrow> pane_split_node option" where
  "split_node_at_path (Pane_Split o' r' f s) [] = Some (Pane_Split o' r' f s)"
| "split_node_at_path (Pane_Split _ _ f s) (child # path) =
     split_node_at_path (case child of First \<Rightarrow> f | Second \<Rightarrow> s) path"
| "split_node_at_path (Pane_Leaf _) _ = None"

definition split_ratio_at_path :: "pane_split_tree \<Rightarrow> split_child list \<Rightarrow> rat option" where
  "split_ratio_at_path t path =
     (case split_node_at_path (pt_root t) path of Some (Pane_Split _ r _ _) \<Rightarrow> Some r | _ \<Rightarrow> None)"

text \<open>\<open>split_node_at_path_mut\<close> followed by \<open>*current = ratio\<close>.\<close>

fun set_ratio_at_path :: "pane_split_node \<Rightarrow> split_child list \<Rightarrow> rat \<Rightarrow> pane_split_node option" where
  "set_ratio_at_path (Pane_Leaf _) _ ratio = None"
| "set_ratio_at_path (Pane_Split o' r' f s) [] ratio = Some (Pane_Split o' ratio f s)"
| "set_ratio_at_path (Pane_Split o' r' f s) (child # path) ratio =
     (case child of
        First \<Rightarrow> map_option (\<lambda>f. Pane_Split o' r' f s) (set_ratio_at_path f path ratio)
      | Second \<Rightarrow> map_option (\<lambda>s. Pane_Split o' r' f s) (set_ratio_at_path s path ratio))"

definition update_split_ratio ::
  "pane_split_tree \<Rightarrow> split_child list \<Rightarrow> rat \<Rightarrow> pane_split_tree \<times> bool" where
  "update_split_ratio t path ratio =
     (case set_ratio_at_path (pt_root t) path ratio of
        Some node \<Rightarrow> (t\<lparr>pt_root := node\<rparr>, True)
      | None \<Rightarrow> (t, False))"

fun leaf_path_in_node :: "pane_split_node \<Rightarrow> nat \<Rightarrow> split_child list option" where
  "leaf_path_in_node (Pane_Leaf current) pane_id = (if current = pane_id then Some [] else None)"
| "leaf_path_in_node (Pane_Split _ _ first second) pane_id =
     (case leaf_path_in_node first pane_id of
        Some path \<Rightarrow> Some (First # path)
      | None \<Rightarrow> map_option ((#) Second) (leaf_path_in_node second pane_id))"

datatype pane_resize_direction = Resize_Left | Resize_Right | Resize_Up | Resize_Down

definition f64_epsilon :: rat where
  "f64_epsilon = 1 / 2 ^ 52"

definition clamp_ratio :: "(rat \<Rightarrow> rat) \<Rightarrow> rat \<Rightarrow> rat" where
  "clamp_ratio fl v = max (min_split_ratio fl) (min v (max_split_ratio fl))"

text \<open>The loop over the depths of the leaf's path, the deepest first.\<close>

fun resize_scan ::
  "(rat \<Rightarrow> rat) \<Rightarrow> pane_split_node \<Rightarrow> split_child list \<Rightarrow> split_orientation \<Rightarrow> split_child \<Rightarrow> rat \<Rightarrow>
   nat list \<Rightarrow> (split_child list \<times> rat) option" where
  "resize_scan fl node leaf_path axis required_side step [] = None"
| "resize_scan fl node leaf_path axis required_side step (depth # depths) =
     (if leaf_path ! depth \<noteq> required_side
      then resize_scan fl node leaf_path axis required_side step depths
      else
        case split_node_at_path node (take depth leaf_path) of
          Some (Pane_Split orientation ratio _ _) \<Rightarrow>
            if orientation \<noteq> axis then resize_scan fl node leaf_path axis required_side step depths
            else
              let delta = (case leaf_path ! depth of First \<Rightarrow> step | Second \<Rightarrow> - step);
                  new_value = clamp_ratio fl (fl (ratio + delta)) in
              if \<bar>fl (new_value - ratio)\<bar> < f64_epsilon then None
              else map_option (Pair (take depth leaf_path)) (result_ok (split_ratio_new fl new_value))
        | Some (Pane_Leaf _) \<Rightarrow> resize_scan fl node leaf_path axis required_side step depths
        | None \<Rightarrow> None)"

definition keyboard_resize ::
  "(rat \<Rightarrow> rat) \<Rightarrow> pane_split_tree \<Rightarrow> nat \<Rightarrow> pane_resize_direction \<Rightarrow> rat \<Rightarrow>
   (split_child list \<times> rat) option" where
  "keyboard_resize fl t pane_id direction step =
     (if \<not> contains_pane fl t pane_id \<or> step \<le> 0 then None
      else
        case leaf_path_in_node (pt_root t) pane_id of
          None \<Rightarrow> None
        | Some leaf_path \<Rightarrow>
            let (axis, required_side) = (case direction of
                  Resize_Left \<Rightarrow> (Horizontal, Second)
                | Resize_Right \<Rightarrow> (Horizontal, First)
                | Resize_Up \<Rightarrow> (Vertical, Second)
                | Resize_Down \<Rightarrow> (Vertical, First)) in
            resize_scan fl (pt_root t) leaf_path axis required_side step (rev [0..<length leaf_path]))"

definition compute_drag_ratio ::
  "(rat \<Rightarrow> rat) \<Rightarrow> split_orientation \<Rightarrow> rect \<Rightarrow> rat \<times> rat \<Rightarrow> rat" where
  "compute_drag_ratio fl orientation parent_rect point =
     (let raw = (case orientation of
            Horizontal \<Rightarrow>
              let w = fl (rc_x1 parent_rect - rc_x0 parent_rect) in
              if w \<le> 0 then fl (1 / 2) else fl (fl (fst point - rc_x0 parent_rect) / w)
          | Vertical \<Rightarrow>
              let h = fl (rc_y1 parent_rect - rc_y0 parent_rect) in
              if h \<le> 0 then fl (1 / 2) else fl (fl (snd point - rc_y0 parent_rect) / h)) in
      clamp_ratio fl raw)"

section \<open>Valid trees\<close>

fun ratios_ok :: "(rat \<Rightarrow> rat) \<Rightarrow> pane_split_node \<Rightarrow> bool" where
  "ratios_ok fl (Pane_Leaf _) = True"
| "ratios_ok fl (Pane_Split _ r f s) =
     (min_split_ratio fl \<le> r \<and> r \<le> max_split_ratio fl \<and> ratios_ok fl f \<and> ratios_ok fl s)"

lemma collect_pane_ids_nonempty [simp]: "collect_pane_ids n \<noteq> []"
  by (induction n) simp_all

lemma length_ids_pos: "0 < length (collect_pane_ids n)"
  by simp

lemma visit_Inr:
  "visit fl v n = Inr v' \<longleftrightarrow>
     tv_node_count v + (2 * length (collect_pane_ids n) - 1) \<le> max_pane_split_tree_nodes \<and> ratios_ok fl n \<and>
     distinct (collect_pane_ids n) \<and> 0 \<notin> set (collect_pane_ids n) \<and>
     set (collect_pane_ids n) \<inter> tv_pane_ids v = {} \<and>
     v' = \<lparr>tv_node_count = tv_node_count v + (2 * length (collect_pane_ids n) - 1),
           tv_pane_count = tv_pane_count v + length (collect_pane_ids n),
           tv_split_count = tv_split_count v + (length (collect_pane_ids n) - 1),
           tv_pane_ids = tv_pane_ids v \<union> set (collect_pane_ids n)\<rparr>"
proof (induction n arbitrary: v v')
  case (Pane_Leaf p)
  show ?case by (cases v) (auto simp: Let_def)
next
  case (Pane_Split o' r f s)
  obtain a where a: "length (collect_pane_ids f) = Suc a" using length_ids_pos[of f] gr0_conv_Suc by blast
  obtain b where b: "length (collect_pane_ids s) = Suc b" using length_ids_pos[of s] gr0_conv_Suc by blast
  show ?case
    by (auto simp: Let_def bind_result_Inr Pane_Split.IH a b)
qed

lemma tree_new_Inr:
  "tree_new fl n active = Inr t \<longleftrightarrow>
     2 * length (collect_pane_ids n) - 1 \<le> max_pane_split_tree_nodes \<and> ratios_ok fl n \<and>
     distinct (collect_pane_ids n) \<and> 0 \<notin> set (collect_pane_ids n) \<and> active \<in> set (collect_pane_ids n) \<and>
     t = \<lparr>pt_root = n, pt_active_pane_id = active, pt_pane_count = length (collect_pane_ids n),
          pt_split_count = length (collect_pane_ids n) - 1\<rparr>"
  by (auto simp: tree_new_def bind_result_Inr visit_Inr validator_default_def)

text \<open>A tree is valid when it is what \<open>new\<close> builds from its own root and focus.\<close>

definition tree_ok :: "(rat \<Rightarrow> rat) \<Rightarrow> pane_split_tree \<Rightarrow> bool" where
  "tree_ok fl t \<longleftrightarrow> tree_new fl (pt_root t) (pt_active_pane_id t) = Inr t"

lemma result_ok_Some [simp]: "result_ok r = Some x \<longleftrightarrow> r = Inr x"
  by (cases r) (simp_all add: result_ok_def)

lemma tree_new_ok: "tree_new fl n active = Inr t \<Longrightarrow> tree_ok fl t"
  unfolding tree_ok_def by (auto simp: tree_new_Inr)

lemma tree_okD:
  assumes "tree_ok fl t"
  shows "distinct (pane_ids t)" "0 \<notin> set (pane_ids t)" "pt_active_pane_id t \<in> set (pane_ids t)"
    "pt_pane_count t = length (pane_ids t)" "pt_split_count t = length (pane_ids t) - 1"
    "ratios_ok fl (pt_root t)" "2 * length (pane_ids t) - 1 \<le> max_pane_split_tree_nodes"
  using assms unfolding tree_ok_def tree_new_Inr pane_ids_def by (metis pane_split_tree.select_convs)+

lemma find_rect_iff: "find_rect_in_node fl n p area = None \<longleftrightarrow> p \<notin> set (collect_pane_ids n)"
proof (induction n arbitrary: area)
  case (Pane_Split o' r f s)
  obtain a b where "split_rect fl area o' r = (a, b)" by fastforce
  then show ?case using Pane_Split.IH(1)[of a] Pane_Split.IH(2)[of b]
    by (cases "find_rect_in_node fl f p a") auto
qed simp

lemma contains_pane_iff [simp]: "contains_pane fl t p \<longleftrightarrow> p \<in> set (pane_ids t)"
  by (simp add: contains_pane_def pane_rect_def pane_ids_def find_rect_iff del: not_None_eq)

section \<open>What the operations do to the nodes\<close>

lemma split_node_None:
  "distinct (collect_pane_ids n) \<Longrightarrow>
     split_node_pane n target new orientation r pos = None \<longleftrightarrow> target \<notin> set (collect_pane_ids n)"
  by (induction n) (auto simp: Let_def split: split_child.split option.split simp del: not_None_eq)

lemma split_node_Some:
  "split_node_pane n target new orientation r pos = Some n' \<Longrightarrow>
     (\<exists>xs ys. collect_pane_ids n = xs @ [target] @ ys \<and>
        collect_pane_ids n' = xs @ (case pos of First \<Rightarrow> [new, target] | Second \<Rightarrow> [target, new]) @ ys) \<and>
     ratios_ok fl n' = (ratios_ok fl n \<and> min_split_ratio fl \<le> r \<and> r \<le> max_split_ratio fl) \<and>
     (\<forall>p. n' \<noteq> Pane_Leaf p)"
proof (induction n arbitrary: n')
  case (Pane_Leaf p)
  then show ?case
    by (intro conjI exI[of _ "[]"]) (auto simp: Let_def split: split_child.splits if_splits)
next
  case (Pane_Split o' r' f s)
  let ?ins = "case pos of First \<Rightarrow> [new, target] | Second \<Rightarrow> [target, new]"
  from Pane_Split.prems consider
      f' where "split_node_pane f target new orientation r pos = Some f'" "n' = Pane_Split o' r' f' s"
    | s' where "split_node_pane s target new orientation r pos = Some s'" "n' = Pane_Split o' r' f s'"
    by (auto split: option.splits)
  then show ?case
  proof cases
    case (1 f')
    then obtain xs ys where "collect_pane_ids f = xs @ [target] @ ys" "collect_pane_ids f' = xs @ ?ins @ ys"
      using Pane_Split.IH(1)[OF 1(1)] by blast
    then show ?thesis
      using 1 Pane_Split.IH(1)[OF 1(1)]
      by (intro conjI exI[of _ xs] exI[of _ "ys @ collect_pane_ids s"]) auto
  next
    case (2 s')
    then obtain xs ys where "collect_pane_ids s = xs @ [target] @ ys" "collect_pane_ids s' = xs @ ?ins @ ys"
      using Pane_Split.IH(2)[OF 2(1)] by blast
    then show ?thesis
      using 2 Pane_Split.IH(2)[OF 2(1)]
      by (intro conjI exI[of _ "collect_pane_ids f @ xs"] exI[of _ ys]) auto
  qed
qed

lemma first_leaf_in [simp]: "first_leaf_pane_id n \<in> set (collect_pane_ids n)"
  by (induction n) simp_all

lemma close_node_None:
  "close_node_pane n p = None \<longleftrightarrow> p \<notin> set (collect_pane_ids n) \<or> n = Pane_Leaf p"
  by (induction n) (auto split: option.split simp del: not_None_eq)

lemma close_node_Some:
  "close_node_pane n p = Some (n', handoff) \<Longrightarrow> distinct (collect_pane_ids n) \<Longrightarrow>
     collect_pane_ids n' = filter (\<lambda>q. q \<noteq> p) (collect_pane_ids n) \<and> p \<in> set (collect_pane_ids n) \<and>
     handoff \<in> set (collect_pane_ids n') \<and> (ratios_ok fl n \<longrightarrow> ratios_ok fl n')"
proof (induction n arbitrary: n' handoff)
  case (Pane_Split o' r' f s)
  have others: "filter (\<lambda>q. q \<noteq> p) (collect_pane_ids m) = collect_pane_ids m"
    if "p \<notin> set (collect_pane_ids m)" for m
    using that by (auto intro: filter_True)
  consider (first) "f = Pane_Leaf p" | (second) "f \<noteq> Pane_Leaf p" "s = Pane_Leaf p"
    | (left) f' h where "close_node_pane f p = Some (f', h)" "f \<noteq> Pane_Leaf p" "s \<noteq> Pane_Leaf p"
    | (right) s' h where "close_node_pane f p = None" "close_node_pane s p = Some (s', h)"
        "f \<noteq> Pane_Leaf p" "s \<noteq> Pane_Leaf p"
    using Pane_Split.prems(1) by (auto split: if_splits option.splits)
  then show ?case
  proof cases
    case first
    then show ?thesis using Pane_Split.prems others[of s] by auto
  next
    case second
    then show ?thesis using Pane_Split.prems others[of f] by auto
  next
    case left
    then have "p \<in> set (collect_pane_ids f)" "p \<notin> set (collect_pane_ids s)"
      using Pane_Split.prems(2) Pane_Split.IH(1)[OF left(1)] by auto
    then show ?thesis using left Pane_Split.prems Pane_Split.IH(1)[OF left(1)] others[of s] by auto
  next
    case right
    then have "p \<notin> set (collect_pane_ids f)"
      using close_node_None[of f p] by auto
    then show ?thesis using right Pane_Split.prems Pane_Split.IH(2)[OF right(2)] others[of f] by auto
  qed
qed simp

lemma close_undoes_split:
  "split_node_pane n target new orientation r pos = Some n' \<Longrightarrow> new \<notin> set (collect_pane_ids n) \<Longrightarrow>
     close_node_pane n' new = Some (n, target)"
proof (induction n arbitrary: n')
  case (Pane_Leaf p)
  then show ?case by (auto simp: Let_def split: split_child.splits if_splits)
next
  case (Pane_Split o' r' f s)
  have new: "f \<noteq> Pane_Leaf new" "s \<noteq> Pane_Leaf new" "close_node_pane f new = None"
    using Pane_Split.prems(2) by (auto simp: close_node_None)
  from Pane_Split.prems consider
      f' where "split_node_pane f target new orientation r pos = Some f'" "n' = Pane_Split o' r' f' s"
    | s' where "split_node_pane s target new orientation r pos = Some s'" "n' = Pane_Split o' r' f s'"
    by (auto split: option.splits)
  then show ?case
  proof cases
    case 1
    then show ?thesis using new Pane_Split.IH(1)[OF 1(1)] Pane_Split.prems(2) split_node_Some[OF 1(1)] by simp
  next
    case 2
    then show ?thesis using new Pane_Split.IH(2)[OF 2(1)] Pane_Split.prems(2) split_node_Some[OF 2(1)] by simp
  qed
qed

definition exchange :: "nat \<Rightarrow> nat \<Rightarrow> nat \<Rightarrow> nat" where
  "exchange a b p = (if p = a then b else if p = b then a else p)"

lemma swap_leaf_ids: "collect_pane_ids (swap_leaf_pane_ids n a b) = map (exchange a b) (collect_pane_ids n)"
  by (induction n) (simp_all add: exchange_def)

lemma swap_leaf_ratios [simp]: "ratios_ok fl (swap_leaf_pane_ids n a b) = ratios_ok fl n"
  by (induction n) simp_all

lemma swap_leaf_geometry:
  "collect_geometry fl (swap_leaf_pane_ids n a b) area =
     map (apfst (exchange a b)) (collect_geometry fl n area)"
  by (induction n arbitrary: area) (simp_all add: exchange_def split: prod.split)

lemma swap_leaf_twice: "swap_leaf_pane_ids (swap_leaf_pane_ids n a b) a b = n"
  by (induction n) auto

lemma exchange_inj: "inj (exchange a b)"
  by (auto simp: inj_def exchange_def split: if_splits)

lemma comb_Some:
  "equal_comb_tree fl orientation leaves = Some n \<Longrightarrow> collect_pane_ids n = leaves \<and> ratios_ok fl n"
  by (induction fl orientation leaves arbitrary: n rule: equal_comb_tree.induct)
    (auto simp: split_ratio_new_def split: sum.splits if_splits)

lemma comb_ratio:
  assumes "mono fl" and "2 \<le> k" and "k \<le> 20"
  shows "split_ratio_new fl (fl (1 / rat_of_nat k)) = Inr (fl (1 / rat_of_nat k))"
proof -
  have "1 / 20 \<le> 1 / rat_of_nat k" "1 / rat_of_nat k \<le> 19 / 20"
    using assms(2,3) by (simp_all add: field_simps)
  then show ?thesis
    using assms(1) by (simp add: split_ratio_new_def min_split_ratio_def max_split_ratio_def monoD)
qed

lemma comb_exists:
  assumes "mono fl"
  shows "2 \<le> length leaves \<Longrightarrow> length leaves \<le> 20 \<Longrightarrow> equal_comb_tree fl orientation leaves \<noteq> None"
proof (induction leaves)
  case (Cons a bs)
  then obtain b rest where bs: "bs = b # rest" by (cases bs) auto
  show ?case
  proof (cases rest)
    case Nil
    then show ?thesis using bs comb_ratio[OF assms, of 2] by simp
  next
    case (Cons c cs)
    have "equal_comb_tree fl orientation bs \<noteq> None"
      using Cons.IH Cons.prems bs Cons by simp
    then show ?thesis
      using bs Cons comb_ratio[OF assms, of "length (a # bs)"] Cons.prems by auto
  qed
qed simp

section \<open>What the operations do to the tree\<close>

lemma split_pane_Some:
  assumes "tree_ok fl t" and "split_pane fl t target new orientation r pos = Some t'"
  shows "\<exists>n'. split_node_pane (pt_root t) target new orientation r pos = Some n' \<and>
      tree_new fl n' (pt_active_pane_id t) = Inr t' \<and> new \<notin> set (pane_ids t) \<and> pt_pane_count t < max_panes_per_tab"
  using assms(2) by (auto simp: split_pane_def split: if_splits option.splits)

lemma close_pane_Some:
  assumes "close_pane fl t p = Some t'"
  shows "\<exists>n' h. close_node_pane (pt_root t) p = Some (n', h) \<and>
      tree_new fl n' (if pt_active_pane_id t = p then h else pt_active_pane_id t) = Inr t'"
  using assms by (auto simp: close_pane_def Let_def split: if_splits option.splits)

lemma tree_root_active:
  assumes "tree_new fl n a = Inr t"
  shows "pt_root t = n" "pt_active_pane_id t = a"
  using assms by (auto simp: tree_new_Inr)

lemma tree_ok_fields:
  "tree_ok fl t \<Longrightarrow> t = \<lparr>pt_root = pt_root t, pt_active_pane_id = pt_active_pane_id t,
     pt_pane_count = length (pane_ids t), pt_split_count = length (pane_ids t) - 1\<rparr>"
  unfolding tree_ok_def tree_new_Inr pane_ids_def by blast

lemma length_split_ids:
  assumes "split_node_pane n target new orientation r pos = Some n'"
  shows "length (collect_pane_ids n') = Suc (length (collect_pane_ids n))"
proof -
  obtain xs ys where "collect_pane_ids n = xs @ [target] @ ys"
    "collect_pane_ids n' = xs @ (case pos of First \<Rightarrow> [new, target] | Second \<Rightarrow> [target, new]) @ ys"
    using split_node_Some[OF assms] by blast
  then show ?thesis by (cases pos) simp_all
qed

lemma set_ratio_Some:
  "set_ratio_at_path n path r = Some n' \<Longrightarrow> collect_pane_ids n' = collect_pane_ids n \<and>
     (min_split_ratio fl \<le> r \<and> r \<le> max_split_ratio fl \<longrightarrow> ratios_ok fl n \<longrightarrow> ratios_ok fl n')"
  by (induction n path r arbitrary: n' rule: set_ratio_at_path.induct) (auto split: split_child.splits)

lemma update_ratio_ok:
  assumes "tree_ok fl t" and "min_split_ratio fl \<le> r" and "r \<le> max_split_ratio fl"
  shows "tree_ok fl (fst (update_split_ratio t path r)) \<and>
         pane_ids (fst (update_split_ratio t path r)) = pane_ids t"
proof (cases "set_ratio_at_path (pt_root t) path r")
  case (Some n')
  then show ?thesis
    using assms set_ratio_Some[OF Some, of fl]
    by (cases t) (auto simp: tree_ok_def tree_new_Inr update_split_ratio_def pane_ids_def)
qed (simp add: update_split_ratio_def assms)

lemma set_active_ok:
  assumes "tree_ok fl t" and "set_active_pane fl t p = Inr t'"
  shows "tree_ok fl t' \<and> pane_ids t' = pane_ids t"
  using assms by (cases t) (auto simp: tree_ok_def tree_new_Inr set_active_pane_def pane_ids_def split: if_splits)

lemma clamp_ratio_bounds:
  assumes "mono fl"
  shows "min_split_ratio fl \<le> clamp_ratio fl v" and "clamp_ratio fl v \<le> max_split_ratio fl"
proof -
  have "fl (1 / 20) \<le> fl (19 / 20)" using assms by (simp add: monoD)
  then show "min_split_ratio fl \<le> clamp_ratio fl v" and "clamp_ratio fl v \<le> max_split_ratio fl"
    by (auto simp: clamp_ratio_def min_split_ratio_def max_split_ratio_def)
qed

lemma resize_scan_bounds:
  "resize_scan fl n leaf_path axis side step depths = Some (path, r) \<Longrightarrow>
     min_split_ratio fl \<le> r \<and> r \<le> max_split_ratio fl"
proof (induction depths)
  case (Cons d ds)
  then show ?case
    by (auto simp: Let_def split_ratio_new_def split: if_splits option.splits pane_split_node.splits)
qed simp

lemma keyboard_resize_bounds:
  "keyboard_resize fl t p direction step = Some (path, r) \<Longrightarrow>
     min_split_ratio fl \<le> r \<and> r \<le> max_split_ratio fl"
  by (auto simp: keyboard_resize_def split: if_splits option.splits prod.splits dest: resize_scan_bounds)

lemma move_pane_Some:
  assumes "move_pane fl t p direction = Some t'"
  obtains i j where "position (\<lambda>q. q = p) (pane_ids t) = Some i" and "j < length (pane_ids t)"
    and "case direction of First \<Rightarrow> i = Suc j | Second \<Rightarrow> j = Suc i"
    and "tree_new fl (swap_leaf_pane_ids (pt_root t) p (pane_ids t ! j)) (pt_active_pane_id t) = Inr t'"
proof -
  obtain i where i: "position (\<lambda>q. q = p) (pane_ids t) = Some i"
    using assms by (auto simp: move_pane_def Let_def split: option.splits)
  then have len: "i < length (pane_ids t)" by (simp add: position_SomeD)
  show thesis
  proof (cases direction)
    case First
    then have "0 < i" "tree_new fl (swap_leaf_pane_ids (pt_root t) p (pane_ids t ! (i - 1))) (pt_active_pane_id t) = Inr t'"
      using assms i by (auto simp: move_pane_def checked_sub_def Let_def split: if_splits)
    then show thesis using that[OF i, of "i - 1"] len First by simp
  next
    case Second
    then have "Suc i < length (pane_ids t)"
      "tree_new fl (swap_leaf_pane_ids (pt_root t) p (pane_ids t ! Suc i)) (pt_active_pane_id t) = Inr t'"
      using assms i by (auto simp: move_pane_def checked_add_def Let_def split: if_splits)
    then show thesis using that[OF i, of "Suc i"] Second by simp
  qed
qed

section \<open>Sequences of operations\<close>

inductive pane_step :: "(rat \<Rightarrow> rat) \<Rightarrow> pane_split_tree \<Rightarrow> pane_split_tree \<Rightarrow> bool" for fl where
  "split_pane fl t target new orientation ratio pos = Some t' \<Longrightarrow> pane_step fl t t'"
| "close_pane fl t pane_id = Some t' \<Longrightarrow> pane_step fl t t'"
| "add_equal_pane fl t = Some t' \<Longrightarrow> pane_step fl t t'"
| "move_pane fl t pane_id direction = Some t' \<Longrightarrow> pane_step fl t t'"
| "set_active_pane fl t pane_id = Inr t' \<Longrightarrow> pane_step fl t t'"
| "keyboard_resize fl t pane_id resize step = Some (path, ratio) \<Longrightarrow>
     pane_step fl t (fst (update_split_ratio t path ratio))"
| "pane_step fl t (fst (update_split_ratio t path (compute_drag_ratio fl orientation area point)))"

inductive pane_reachable :: "(rat \<Rightarrow> rat) \<Rightarrow> pane_split_tree \<Rightarrow> bool" for fl where
  "single_leaf fl default_pane_id = Some t \<Longrightarrow> pane_reachable fl t"
| "pane_reachable fl t \<Longrightarrow> pane_step fl t t' \<Longrightarrow> pane_reachable fl t'"

lemma drag_ratio_bounds:
  "mono fl \<Longrightarrow> min_split_ratio fl \<le> compute_drag_ratio fl orientation area point \<and>
     compute_drag_ratio fl orientation area point \<le> max_split_ratio fl"
  by (simp add: compute_drag_ratio_def Let_def clamp_ratio_bounds)

lemma pane_step_ok:
  assumes "mono fl" and "pane_step fl t t'" and "tree_ok fl t" and "length (pane_ids t) \<le> max_panes_per_tab"
  shows "tree_ok fl t' \<and> length (pane_ids t') \<le> max_panes_per_tab"
  using assms(2,3,4)
proof (induction rule: pane_step.induct)
  case (1 t target new orientation ratio pos t')
  obtain n' where n': "split_node_pane (pt_root t) target new orientation ratio pos = Some n'"
    "tree_new fl n' (pt_active_pane_id t) = Inr t'" "pt_pane_count t < max_panes_per_tab"
    using split_pane_Some[OF 1(2,1)] by blast
  then show ?case
    using length_split_ids[OF n'(1)] tree_okD(4)[OF 1(2)] tree_new_ok[OF n'(2)] tree_root_active(1)[OF n'(2)]
    by (simp add: pane_ids_def)
next
  case (2 t p t')
  obtain n' h where n': "close_node_pane (pt_root t) p = Some (n', h)"
    "tree_new fl n' (if pt_active_pane_id t = p then h else pt_active_pane_id t) = Inr t'"
    using close_pane_Some[OF 2(1)] by blast
  have "collect_pane_ids n' = filter (\<lambda>q. q \<noteq> p) (pane_ids t)"
    using close_node_Some[OF n'(1)] tree_okD(1)[OF 2(2)] by (simp add: pane_ids_def)
  then show ?case
    using order_trans[OF length_filter_le 2(3)] tree_new_ok[OF n'(2)] tree_root_active(1)[OF n'(2)]
    by (simp add: pane_ids_def)
next
  case (3 t t')
  then obtain n where n: "tree_new fl n (pt_active_pane_id t) = Inr t'" "pt_pane_count t < max_panes_per_tab"
    "collect_pane_ids n = pane_ids t @ [next_pane_id t]"
    by (auto simp: add_equal_pane_def Let_def dest!: comb_Some[where fl = fl] split: if_splits option.splits)
  then show ?case
    using tree_okD(4)[OF 3(2)] tree_new_ok[OF n(1)] tree_root_active(1)[OF n(1)] by (simp add: pane_ids_def)
next
  case (4 t p direction t')
  obtain q where n: "tree_new fl (swap_leaf_pane_ids (pt_root t) p q) (pt_active_pane_id t) = Inr t'"
    using move_pane_Some[OF 4(1)] by metis
  then show ?case
    using 4(3) tree_new_ok[OF n] tree_root_active(1)[OF n] by (simp add: pane_ids_def swap_leaf_ids)
next
  case (5 t p t')
  then show ?case using set_active_ok by simp
next
  case (6 t p resize step path ratio)
  then show ?case using keyboard_resize_bounds[OF 6(1)] update_ratio_ok by simp
next
  case (7 t path orientation area point)
  then show ?case using drag_ratio_bounds[OF assms(1)] update_ratio_ok by simp
qed

section \<open>Properties\<close>

text \<open>
  C28: every tree reached from a new tab's single pane by splitting, closing, adding, moving,
  focusing, keyboard resizing and dragging dividers, in any order, has pane ids that are distinct
  and non-zero, a focused pane among them, between one and four panes, counters that
  match the tree, and every divider's ratio inside the permitted range.
\<close>

theorem pane_trees_stay_valid:
  assumes "mono fl" and "pane_reachable fl t"
  shows "distinct (pane_ids t) \<and> 0 \<notin> set (pane_ids t) \<and> pt_active_pane_id t \<in> set (pane_ids t) \<and>
    1 \<le> length (pane_ids t) \<and> length (pane_ids t) \<le> 4 \<and> pt_pane_count t = length (pane_ids t) \<and>
    pt_split_count t = length (pane_ids t) - 1 \<and> ratios_ok fl (pt_root t)"
proof -
  have "tree_ok fl t \<and> length (pane_ids t) \<le> max_panes_per_tab"
    using assms(2)
  proof (induction rule: pane_reachable.induct)
    case (1 t)
    then have new: "tree_new fl (Pane_Leaf default_pane_id) default_pane_id = Inr t"
      by (simp add: single_leaf_def)
    then show ?case
      using tree_new_ok[OF new] tree_root_active(1)[OF new] by (simp add: pane_ids_def max_panes_per_tab_def)
  next
    case (2 t t')
    then show ?case using pane_step_ok[OF assms(1)] by blast
  qed
  moreover have "1 \<le> length (pane_ids t)"
    by (simp add: pane_ids_def Suc_le_eq)
  ultimately show ?thesis
    using tree_okD[of fl t] by (simp add: max_panes_per_tab_def)
qed

definition two_panes :: pane_split_tree where
  "two_panes = \<lparr>pt_root = Pane_Split Horizontal (1 / 2) (Pane_Leaf 1) (Pane_Leaf 2), pt_active_pane_id = 1,
                pt_pane_count = 2, pt_split_count = 1\<rparr>"

definition one_pane :: pane_split_tree where
  "one_pane = \<lparr>pt_root = Pane_Leaf 1, pt_active_pane_id = 1, pt_pane_count = 1, pt_split_count = 0\<rparr>"

lemma one_pane_ok: "tree_new (\<lambda>x. x) (Pane_Leaf 1) 1 = Inr one_pane" "tree_ok (\<lambda>x. x) one_pane"
  by (simp_all add: tree_ok_def tree_new_Inr one_pane_def max_pane_split_tree_nodes_def)

lemma two_panes_split:
  "split_pane (\<lambda>x. x) one_pane 1 2 Horizontal (1 / 2) Second = Some two_panes"
  by (simp add: split_pane_def one_pane_def two_panes_def pane_ids_def max_panes_per_tab_def tree_new_Inr
      max_pane_split_tree_nodes_def min_split_ratio_def max_split_ratio_def)

theorem pane_trees_stay_valid_witness:
  "distinct (pane_ids two_panes) \<and> length (pane_ids two_panes) \<le> 4 \<and> ratios_ok (\<lambda>x. x) (pt_root two_panes)"
proof -
  have "pane_reachable (\<lambda>x. x) one_pane"
    by (rule pane_reachable.intros(1)) (simp add: single_leaf_def default_pane_id_def one_pane_ok(1)[simplified])
  then have "pane_reachable (\<lambda>x. x) two_panes"
    by (rule pane_reachable.intros(2)) (rule pane_step.intros(1)[OF two_panes_split])
  moreover have "mono (\<lambda>x :: rat. x)" by (simp add: mono_def)
  ultimately show ?thesis using pane_trees_stay_valid by blast
qed

text \<open>
  splitting a pane of a valid tree puts the new pane directly before or after it in reading
  order and keeps the focus, and closing the new pane gives back exactly the tree there was.
\<close>

theorem split_then_close_restores:
  assumes "tree_ok fl t" and "split_pane fl t target new orientation ratio pos = Some t'"
  shows "(\<exists>xs ys. pane_ids t = xs @ [target] @ ys \<and>
            pane_ids t' = xs @ (case pos of First \<Rightarrow> [new, target] | Second \<Rightarrow> [target, new]) @ ys) \<and>
         pt_active_pane_id t' = pt_active_pane_id t \<and> close_pane fl t' new = Some t"
proof -
  obtain n' where n': "split_node_pane (pt_root t) target new orientation ratio pos = Some n'"
    "tree_new fl n' (pt_active_pane_id t) = Inr t'" "new \<notin> set (pane_ids t)"
    using split_pane_Some[OF assms] by blast
  have t': "pt_root t' = n'" "pt_active_pane_id t' = pt_active_pane_id t" "tree_ok fl t'"
    using tree_root_active[OF n'(2)] tree_new_ok[OF n'(2)] by simp_all
  have order: "\<exists>xs ys. pane_ids t = xs @ [target] @ ys \<and>
      pane_ids t' = xs @ (case pos of First \<Rightarrow> [new, target] | Second \<Rightarrow> [target, new]) @ ys"
    using split_node_Some[OF n'(1)] by (simp add: pane_ids_def t'(1))
  then have "new \<in> set (pane_ids t')" "1 < length (pane_ids t')"
    by (auto split: split_child.splits)
  moreover have "close_node_pane (pt_root t') new = Some (pt_root t, target)"
    using close_undoes_split[OF n'(1)] n'(3) by (simp add: pane_ids_def t'(1))
  moreover have "pt_active_pane_id t \<noteq> new"
    using tree_okD(3)[OF assms(1)] n'(3) by auto
  ultimately have "close_pane fl t' new = Some t"
    using assms(1) t'(2) tree_okD(4)[OF t'(3)] by (simp add: close_pane_def tree_ok_def)
  then show ?thesis using order t'(2) by blast
qed

theorem split_then_close_restores_witness:
  "close_pane (\<lambda>x. x) two_panes 2 = Some one_pane \<and> pane_ids two_panes = [1, 2]"
proof -
  have "pane_ids two_panes = [1, 2]" by (simp add: two_panes_def pane_ids_def)
  then show ?thesis using split_then_close_restores[OF one_pane_ok(2) two_panes_split] by blast
qed

text \<open>
  a pane of a valid tree can be closed exactly when it is there and not the last one; what
  remains is a valid tree with the other panes in their order, focused where it was or, when the focused
  pane was closed, on a pane that remains.
\<close>

theorem close_pane_exact:
  assumes "tree_ok fl t"
  shows "(close_pane fl t p \<noteq> None \<longleftrightarrow> p \<in> set (pane_ids t) \<and> 1 < length (pane_ids t)) \<and>
    (\<forall>t'. close_pane fl t p = Some t' \<longrightarrow> tree_ok fl t' \<and> pane_ids t' = filter (\<lambda>q. q \<noteq> p) (pane_ids t) \<and>
       pt_active_pane_id t' \<in> set (pane_ids t') \<and>
       (pt_active_pane_id t \<noteq> p \<longrightarrow> pt_active_pane_id t' = pt_active_pane_id t))"
proof -
  have ok: "distinct (pane_ids t)" "pt_pane_count t = length (pane_ids t)"
    using tree_okD[OF assms] by simp_all
  have result: "tree_ok fl t' \<and> pane_ids t' = filter (\<lambda>q. q \<noteq> p) (pane_ids t) \<and>
       pt_active_pane_id t' \<in> set (pane_ids t') \<and>
       (pt_active_pane_id t \<noteq> p \<longrightarrow> pt_active_pane_id t' = pt_active_pane_id t)"
    if closed: "close_pane fl t p = Some t'" for t'
  proof -
    obtain n' h where n': "close_node_pane (pt_root t) p = Some (n', h)"
      "tree_new fl n' (if pt_active_pane_id t = p then h else pt_active_pane_id t) = Inr t'"
      using close_pane_Some[OF closed] by blast
    have "tree_ok fl t'" using tree_new_ok[OF n'(2)] .
    then show ?thesis
      using close_node_Some[OF n'(1), of fl] ok(1) tree_root_active[OF n'(2)] tree_okD(3)[OF assms]
      by (auto simp: pane_ids_def)
  qed
  have "close_pane fl t p \<noteq> None" if p: "p \<in> set (pane_ids t)" "1 < length (pane_ids t)"
  proof -
    have "pt_root t \<noteq> Pane_Leaf p" using p(2) by (auto simp: pane_ids_def)
    then obtain n' h where n': "close_node_pane (pt_root t) p = Some (n', h)"
      using p(1) close_node_None[of "pt_root t" p] by (auto simp: pane_ids_def)
    have ids: "collect_pane_ids n' = filter (\<lambda>q. q \<noteq> p) (pane_ids t)" "h \<in> set (collect_pane_ids n')"
      "ratios_ok fl n'"
      using close_node_Some[OF n', of fl] ok(1) tree_okD(6)[OF assms] by (auto simp: pane_ids_def)
    have "length (collect_pane_ids n') \<le> length (pane_ids t)"
      by (simp add: ids(1))
    then have "2 * length (collect_pane_ids n') - 1 \<le> max_pane_split_tree_nodes"
      using tree_okD(7)[OF assms] by linarith
    then have "\<exists>t'. tree_new fl n' (if pt_active_pane_id t = p then h else pt_active_pane_id t) = Inr t'"
      using ids ok(1) tree_okD(2,3)[OF assms] by (simp add: tree_new_Inr)
    then show ?thesis
      using p n' ok(2) by (auto simp: close_pane_def)
  qed
  moreover have "close_pane fl t p = None" if "\<not> (p \<in> set (pane_ids t) \<and> 1 < length (pane_ids t))"
    using that ok(2) by (auto simp: close_pane_def)
  ultimately have "close_pane fl t p \<noteq> None \<longleftrightarrow> p \<in> set (pane_ids t) \<and> 1 < length (pane_ids t)"
    by metis
  moreover have "\<forall>t'. close_pane fl t p = Some t' \<longrightarrow> tree_ok fl t' \<and>
      pane_ids t' = filter (\<lambda>q. q \<noteq> p) (pane_ids t) \<and> pt_active_pane_id t' \<in> set (pane_ids t') \<and>
      (pt_active_pane_id t \<noteq> p \<longrightarrow> pt_active_pane_id t' = pt_active_pane_id t)"
    by (intro allI impI) (rule result)
  ultimately show ?thesis by (rule conjI)
qed

theorem close_pane_exact_witness:
  "close_pane (\<lambda>x. x) one_pane 1 = None"
  using close_pane_exact[OF one_pane_ok(2), of 1] by (simp add: one_pane_def pane_ids_def del: not_None_eq)

text \<open>
  Moving a pane towards the start or the end exchanges it with its neighbour in reading order and changes
  neither the focus nor any rectangle of the layout, only which of the two panes is shown in
  which; moving it back restores the tree.
\<close>

theorem move_pane_exact:
  assumes "tree_ok fl t" and "move_pane fl t p direction = Some t'"
  shows "\<exists>i j. i < length (pane_ids t) \<and> pane_ids t ! i = p \<and> j < length (pane_ids t) \<and>
      (case direction of First \<Rightarrow> i = Suc j | Second \<Rightarrow> j = Suc i) \<and>
      pane_ids t' = swap_at i j (pane_ids t) \<and> pt_active_pane_id t' = pt_active_pane_id t \<and>
      (\<forall>area. compute_geometry fl t' area =
         map (apfst (exchange p (pane_ids t ! j))) (compute_geometry fl t area)) \<and>
      move_pane fl t' p (case direction of First \<Rightarrow> Second | Second \<Rightarrow> First) = Some t"
proof -
  let ?ids = "pane_ids t"
  obtain i j where ij: "position (\<lambda>q. q = p) ?ids = Some i" "j < length ?ids"
    "case direction of First \<Rightarrow> i = Suc j | Second \<Rightarrow> j = Suc i"
    and new: "tree_new fl (swap_leaf_pane_ids (pt_root t) p (?ids ! j)) (pt_active_pane_id t) = Inr t'"
    using move_pane_Some[OF assms(2)] .
  have i: "i < length ?ids" "?ids ! i = p" using position_SomeD[OF ij(1)] by simp_all
  have ok: "distinct ?ids" "2 * length ?ids - 1 \<le> max_pane_split_tree_nodes"
    using tree_okD[OF assms(1)] by simp_all
  have ids': "pane_ids t' = swap_at i j ?ids"
  proof -
    have "pane_ids t' = map (exchange p (?ids ! j)) ?ids"
      using tree_root_active(1)[OF new] by (simp add: pane_ids_def swap_leaf_ids)
    also have "\<dots> = swap_at i j ?ids"
      using i ij(2) ok(1)
      by (intro nth_equalityI) (auto simp: swap_at_def exchange_def nth_list_update nth_eq_iff_index_eq)
    finally show ?thesis .
  qed
  have geometry: "compute_geometry fl t' area = map (apfst (exchange p (?ids ! j))) (compute_geometry fl t area)" for area
    using tree_root_active(1)[OF new] by (simp add: compute_geometry_def swap_leaf_geometry)
  have ids'_nth: "length (pane_ids t') = length ?ids" "pane_ids t' ! j = p" "pane_ids t' ! i = ?ids ! j" "distinct (pane_ids t')"
    using i ij(2) ok(1) by (auto simp: ids' swap_at_def nth_list_update)
  have back_pos: "position (\<lambda>q. q = p) (pane_ids t') = Some j"
    using ids'_nth ij(2) by (intro position_unique) (auto simp: nth_eq_iff_index_eq)
  have "tree_new fl (swap_leaf_pane_ids (pt_root t') p (?ids ! j)) (pt_active_pane_id t') = Inr t"
    using assms(1) tree_root_active[OF new] by (simp add: swap_leaf_twice tree_ok_def)
  then have "move_pane fl t' p (case direction of First \<Rightarrow> Second | Second \<Rightarrow> First) = Some t"
    using back_pos ij(2,3) i(1) ids'_nth ok(2)
    by (auto simp: move_pane_def checked_add_def checked_sub_def max_pane_split_tree_nodes_def u64_max_def
        split: split_child.splits)
  then show ?thesis
    using i ij(2,3) ids' geometry tree_root_active(2)[OF new] by blast
qed

lemma two_panes_ok: "tree_ok (\<lambda>x. x) two_panes"
  by (simp add: tree_ok_def tree_new_Inr two_panes_def max_pane_split_tree_nodes_def min_split_ratio_def
      max_split_ratio_def)

theorem move_pane_exact_witness:
  "\<exists>t'. move_pane (\<lambda>x. x) two_panes 2 First = Some t' \<and> pane_ids t' = [2, 1] \<and>
     move_pane (\<lambda>x. x) t' 2 Second = Some two_panes"
proof -
  have ids: "pane_ids two_panes = [1, 2]" by (simp add: two_panes_def pane_ids_def)
  obtain t' where t': "move_pane (\<lambda>x. x) two_panes 2 First = Some t'"
    by (simp add: move_pane_def ids checked_sub_def)
      (simp add: two_panes_def tree_new_Inr max_pane_split_tree_nodes_def min_split_ratio_def max_split_ratio_def)
  obtain i j where "i < 2" "[1, 2] ! i = (2 :: nat)" "i = Suc j" "pane_ids t' = swap_at i j [1, 2]"
    "move_pane (\<lambda>x. x) t' 2 Second = Some two_panes"
    using move_pane_exact[OF two_panes_ok t'] by (auto simp: ids)
  moreover from this have "j = 0" by simp
  ultimately show ?thesis using t' by (auto simp: swap_at_def)
qed

text \<open>Focus goes round the panes, and back is the inverse of forward.\<close>

lemma focus_cycle:
  assumes "tree_ok fl t"
  shows "next_pane t \<in> set (pane_ids t)" and "prev_pane (t\<lparr>pt_active_pane_id := next_pane t\<rparr>) = pt_active_pane_id t"
proof -
  let ?ids = "pane_ids t" and ?n = "length (pane_ids t)"
  have ok: "distinct ?ids" "pt_active_pane_id t \<in> set ?ids" using tree_okD[OF assms] by simp_all
  then obtain i where i: "i < ?n" "?ids ! i = pt_active_pane_id t" by (metis in_set_conv_nth)
  define j where "j = (i + 1) mod ?n"
  have j: "j < ?n" unfolding j_def using i(1) by (intro mod_less_divisor) linarith
  have "position (\<lambda>p. p = pt_active_pane_id t) ?ids = Some i"
    using i ok(1) by (intro position_unique) (auto simp flip: i(2) simp: nth_eq_iff_index_eq)
  then have forward: "next_pane t = ?ids ! j" by (simp add: next_pane_def j_def Let_def)
  then show "next_pane t \<in> set ?ids" using j by simp
  have ids: "pane_ids (t\<lparr>pt_active_pane_id := x\<rparr>) = ?ids" for x by (simp add: pane_ids_def)
  have "position (\<lambda>p. p = ?ids ! j) ?ids = Some j"
    using j ok(1) by (intro position_unique) (auto simp: nth_eq_iff_index_eq)
  moreover have "(j + ?n - 1) mod ?n = i"
    using i(1) by (cases "i + 1 = ?n") (auto simp: j_def mod_if)
  ultimately show "prev_pane (t\<lparr>pt_active_pane_id := next_pane t\<rparr>) = pt_active_pane_id t"
    by (simp add: prev_pane_def ids forward i(2) Let_def del: One_nat_def)
qed

end
