(* ===== verification/Client_Sync.thy ===== *)
theory Client_Sync imports Edit_Protocol Bounded_Channel begin

text \<open>
  The client's optimistic versions and its queue of unconfirmed edits (\<open>client/mod.rs\<close>): for each
  open document the version the server confirmed, the version the client counts on once its
  pending edits are applied, and those edits in order. The channel to the connection's task is
  one of the theory \<open>Bounded_Channel\<close>. A lock on the shared state is held for each operation, so every operation is one step.

  The lemmas describe each operation on one document, and show that a document in step with the
  server keeps its pending edits numbered without a gap from the confirmed version on.
\<close>

section \<open>State\<close>

record pending_edit =
  pn_document_id :: nat
  pn_base_version :: nat
  pn_transaction_id :: nat
  pn_operation :: edit_operation

record resync_snapshot =
  rs_document_id :: nat
  rs_version :: nat
  rs_text :: ustr
  rs_access :: document_access
  rs_lease_id :: "nat option"

record document_sync =
  dy_confirmed_version :: nat
  dy_optimistic_version :: nat
  dy_pending :: "pending_edit list"
  dy_last_resync :: "resync_snapshot option"
  dy_lease_id :: "nat option"

record client_sync =
  cy_documents :: "nat \<Rightarrow> document_sync option"
  cy_default_confirmed_version :: nat
  cy_last_touched :: "nat option"

record sync_snapshot =
  sy_confirmed_version :: nat
  sy_optimistic_version :: nat
  sy_pending :: "pending_edit list"
  sy_last_resync :: "resync_snapshot option"

definition document_sync_new :: "nat \<Rightarrow> nat option \<Rightarrow> document_sync" where
  "document_sync_new confirmed_version lease_id =
     \<lparr>dy_confirmed_version = confirmed_version, dy_optimistic_version = confirmed_version,
      dy_pending = [], dy_last_resync = None, dy_lease_id = lease_id\<rparr>"

definition client_sync_new :: "nat \<Rightarrow> client_sync" where
  "client_sync_new confirmed_version =
     \<lparr>cy_documents = Map.empty, cy_default_confirmed_version = confirmed_version, cy_last_touched = None\<rparr>"

text \<open>\<open>entry\<close>: the state of a document, created when missing.\<close>

definition sync_entry :: "client_sync \<Rightarrow> nat \<Rightarrow> document_sync" where
  "sync_entry c document_id =
     (case cy_documents c document_id of
        Some state \<Rightarrow> state
      | None \<Rightarrow> document_sync_new (cy_default_confirmed_version c) None)"

definition set_document :: "client_sync \<Rightarrow> nat \<Rightarrow> document_sync \<Rightarrow> client_sync" where
  "set_document c document_id state = c\<lparr>cy_documents := (cy_documents c)(document_id \<mapsto> state)\<rparr>"

definition touch :: "client_sync \<Rightarrow> nat \<Rightarrow> client_sync" where
  "touch c document_id = c\<lparr>cy_last_touched := Some document_id\<rparr>"

section \<open>Operations\<close>

text \<open>The optimistic version recomputed from the pending edits.\<close>

definition version_after_pending :: "document_sync \<Rightarrow> nat" where
  "version_after_pending state =
     (if dy_pending state = [] then dy_confirmed_version state
      else wrap_add (pn_base_version (last (dy_pending state))) 1)"

text \<open>Removal of the first pending edit with a transaction id.\<close>

definition remove_pending :: "document_sync \<Rightarrow> nat \<Rightarrow> document_sync" where
  "remove_pending state transaction_id =
     (case position (\<lambda>pending. pn_transaction_id pending = transaction_id) (dy_pending state) of
        Some pos \<Rightarrow> state\<lparr>dy_pending := remove_at pos (dy_pending state)\<rparr>
      | None \<Rightarrow> state)"

definition reserve_pending ::
  "client_sync \<Rightarrow> nat \<Rightarrow> nat \<Rightarrow> edit_operation \<Rightarrow> client_sync \<times> nat" where
  "reserve_pending c document_id transaction_id operation =
     (let state = sync_entry c document_id;
          base_version = dy_optimistic_version state;
          state = state\<lparr>dy_optimistic_version := sat_add (dy_optimistic_version state) 1,
                        dy_pending := dy_pending state @
                          [\<lparr>pn_document_id = document_id, pn_base_version = base_version,
                            pn_transaction_id = transaction_id, pn_operation = operation\<rparr>]\<rparr> in
      (set_document (touch c document_id) document_id state, base_version))"

definition rollback_pending_reservation :: "client_sync \<Rightarrow> nat \<Rightarrow> nat \<Rightarrow> client_sync" where
  "rollback_pending_reservation c document_id transaction_id =
     (case cy_documents c document_id of
        None \<Rightarrow> c
      | Some state \<Rightarrow>
          case position (\<lambda>pending. pn_transaction_id pending = transaction_id) (dy_pending state) of
            None \<Rightarrow> c
          | Some pos \<Rightarrow>
              let state = state\<lparr>dy_pending := remove_at pos (dy_pending state)\<rparr> in
              set_document c document_id (state\<lparr>dy_optimistic_version := version_after_pending state\<rparr>))"

definition acknowledge :: "client_sync \<Rightarrow> nat \<Rightarrow> nat \<Rightarrow> nat \<Rightarrow> client_sync" where
  "acknowledge c document_id confirmed_version transaction_id =
     (case cy_documents c document_id of
        None \<Rightarrow> c
      | Some state \<Rightarrow>
          let state = remove_pending (state\<lparr>dy_confirmed_version := confirmed_version\<rparr>) transaction_id;
              state = (if dy_optimistic_version state < confirmed_version
                       then state\<lparr>dy_optimistic_version := confirmed_version\<rparr> else state) in
          set_document (touch c document_id) document_id state)"

definition reject_pending :: "client_sync \<Rightarrow> nat \<Rightarrow> nat \<Rightarrow> client_sync" where
  "reject_pending c document_id transaction_id =
     (case cy_documents c document_id of
        None \<Rightarrow> c
      | Some state \<Rightarrow>
          let state = remove_pending state transaction_id in
          set_document (touch c document_id) document_id
            (state\<lparr>dy_optimistic_version := version_after_pending state\<rparr>))"

definition apply_resync_snapshot :: "client_sync \<Rightarrow> resync_snapshot \<Rightarrow> client_sync" where
  "apply_resync_snapshot c snapshot =
     (let c = touch c (rs_document_id snapshot);
          state = (case cy_documents c (rs_document_id snapshot) of
                     Some state \<Rightarrow> state
                   | None \<Rightarrow> document_sync_new (rs_version snapshot) (rs_lease_id snapshot)) in
      set_document c (rs_document_id snapshot)
        (state\<lparr>dy_confirmed_version := rs_version snapshot, dy_optimistic_version := rs_version snapshot,
               dy_pending := [], dy_last_resync := Some snapshot, dy_lease_id := rs_lease_id snapshot\<rparr>))"

definition install_document_state ::
  "client_sync \<Rightarrow> nat \<Rightarrow> nat \<Rightarrow> pending_edit list \<Rightarrow> nat option \<Rightarrow> client_sync" where
  "install_document_state c document_id confirmed_version pending lease_id =
     (let state = (document_sync_new confirmed_version lease_id)\<lparr>dy_pending := pending\<rparr>;
          state = (if pending = [] then state
                   else state\<lparr>dy_optimistic_version := sat_add (pn_base_version (last pending)) 1\<rparr>) in
      set_document (touch c document_id) document_id state)"

definition confirmed_version_for :: "client_sync \<Rightarrow> nat \<Rightarrow> nat" where
  "confirmed_version_for c document_id =
     (case cy_documents c document_id of
        Some state \<Rightarrow> dy_confirmed_version state | None \<Rightarrow> cy_default_confirmed_version c)"

definition lease_for :: "client_sync \<Rightarrow> nat \<Rightarrow> nat option" where
  "lease_for c document_id =
     (case cy_documents c document_id of Some state \<Rightarrow> dy_lease_id state | None \<Rightarrow> None)"

definition snapshot_for :: "client_sync \<Rightarrow> nat \<Rightarrow> sync_snapshot" where
  "snapshot_for c document_id =
     (case cy_documents c document_id of
        Some state \<Rightarrow> \<lparr>sy_confirmed_version = dy_confirmed_version state,
                       sy_optimistic_version = dy_optimistic_version state,
                       sy_pending = dy_pending state, sy_last_resync = dy_last_resync state\<rparr>
      | None \<Rightarrow> \<lparr>sy_confirmed_version = cy_default_confirmed_version c,
                 sy_optimistic_version = cy_default_confirmed_version c,
                 sy_pending = [], sy_last_resync = None\<rparr>)"

definition last_snapshot :: "client_sync \<Rightarrow> sync_snapshot" where
  "last_snapshot c =
     (case cy_last_touched c of
        Some document_id \<Rightarrow> snapshot_for c document_id
      | None \<Rightarrow> \<lparr>sy_confirmed_version = cy_default_confirmed_version c,
                 sy_optimistic_version = cy_default_confirmed_version c,
                 sy_pending = [], sy_last_resync = None\<rparr>)"

section \<open>The edit queue\<close>

text \<open>\<open>ClientMessage::Edit\<close>.\<close>

record edit_message =
  em_document_id :: nat
  em_client_id :: nat
  em_lease_id :: "nat option"
  em_base_version :: nat
  em_behavior_version :: nat
  em_transaction_id :: nat
  em_operation :: edit_operation

record 'ch edit_queue =
  eq_sender :: 'ch
  eq_client_id :: nat
  eq_lease_id :: "nat option"
  eq_sync :: client_sync

text \<open>\<open>TrySendError\<close>: the channel refused the message, or the document has no lease.\<close>

datatype enqueue_result = Enqueued | No_Lease edit_message | Send_Failed edit_message

definition enqueue_edit_event ::
  "('ch \<Rightarrow> edit_message \<Rightarrow> 'ch option) \<Rightarrow> 'ch edit_queue \<Rightarrow> nat \<Rightarrow> nat \<Rightarrow> edit_operation \<Rightarrow> nat \<Rightarrow>
   'ch edit_queue \<times> enqueue_result" where
  "enqueue_edit_event send q document_id behavior_version operation transaction_id =
     (let (sync, base_version) = reserve_pending (eq_sync q) document_id transaction_id operation;
          lease_id = (case lease_for sync document_id of Some l \<Rightarrow> Some l | None \<Rightarrow> eq_lease_id q);
          message = \<lparr>em_document_id = document_id, em_client_id = eq_client_id q, em_lease_id = lease_id,
                     em_base_version = base_version, em_behavior_version = behavior_version,
                     em_transaction_id = transaction_id, em_operation = operation\<rparr> in
      if lease_id = None
      then (q\<lparr>eq_sync := rollback_pending_reservation sync document_id transaction_id\<rparr>, No_Lease message)
      else case send (eq_sender q) message of
        None \<Rightarrow> (q\<lparr>eq_sync := rollback_pending_reservation sync document_id transaction_id\<rparr>, Send_Failed message)
      | Some sender \<Rightarrow> (q\<lparr>eq_sender := sender, eq_sync := sync\<rparr>, Enqueued))"

definition with_authority :: "'ch edit_queue \<Rightarrow> nat \<Rightarrow> document_access \<Rightarrow> 'ch edit_queue" where
  "with_authority q client_id access =
     q\<lparr>eq_client_id := client_id, eq_lease_id := access_lease_id access\<rparr>"

definition update_opened_document_authority ::
  "'ch edit_queue \<Rightarrow> nat \<Rightarrow> document_access \<Rightarrow> nat \<Rightarrow> 'ch edit_queue" where
  "update_opened_document_authority q document_id access confirmed_version =
     q\<lparr>eq_lease_id := access_lease_id access,
       eq_sync := install_document_state (eq_sync q) document_id confirmed_version []
                    (access_lease_id access)\<rparr>"

definition install_document_sync_state ::
  "'ch edit_queue \<Rightarrow> nat \<Rightarrow> document_access \<Rightarrow> nat \<Rightarrow> pending_edit list \<Rightarrow> 'ch edit_queue" where
  "install_document_sync_state q document_id access confirmed_version pending =
     q\<lparr>eq_lease_id := access_lease_id access,
       eq_sync := install_document_state (eq_sync q) document_id confirmed_version pending
                    (access_lease_id access)\<rparr>"

text \<open>\<open>rejection_requests_resync\<close>.\<close>

fun rejection_requests_resync :: "edit_rejection \<Rightarrow> bool" where
  "rejection_requests_resync (StaleVersion _ _) = True"
| "rejection_requests_resync (FutureVersion _ _) = True"
| "rejection_requests_resync LeaseRequired = True"
| "rejection_requests_resync (LeaseExpired _) = True"
| "rejection_requests_resync ReadOnlyDocument = True"
| "rejection_requests_resync (RegionLocked _) = True"
| "rejection_requests_resync (InvalidBehaviorVersion _ _) = True"
| "rejection_requests_resync _ = False"

section \<open>A document in step with the server\<close>

text \<open>
  The pending edits are numbered without a gap from the confirmed version on, and the optimistic
  version is the one after the last of them.
\<close>

definition in_step :: "document_sync \<Rightarrow> bool" where
  "in_step state \<longleftrightarrow>
     map pn_base_version (dy_pending state) =
       [dy_confirmed_version state..<dy_confirmed_version state + length (dy_pending state)] \<and>
     dy_optimistic_version state = dy_confirmed_version state + length (dy_pending state)"

lemma in_step_new [simp]: "in_step (document_sync_new v l)"
  by (simp add: in_step_def document_sync_new_def)

lemma reserve_pending_Some:
  assumes "cy_documents c d = Some state" and "dy_optimistic_version state < u64_max"
  obtains state' where "cy_documents (fst (reserve_pending c d tx e)) d = Some state'"
    and "snd (reserve_pending c d tx e) = dy_optimistic_version state"
    and "state' = state\<lparr>dy_optimistic_version := Suc (dy_optimistic_version state),
           dy_pending := dy_pending state @
             [\<lparr>pn_document_id = d, pn_base_version = dy_optimistic_version state,
               pn_transaction_id = tx, pn_operation = e\<rparr>]\<rparr>"
  using that assms
  by (simp add: reserve_pending_def sync_entry_def set_document_def touch_def Let_def sat_add_def)

lemma in_step_reserve:
  assumes "in_step state"
  shows "in_step (state\<lparr>dy_optimistic_version := Suc (dy_optimistic_version state),
           dy_pending := dy_pending state @
             [\<lparr>pn_document_id = d, pn_base_version = dy_optimistic_version state,
               pn_transaction_id = tx, pn_operation = e\<rparr>]\<rparr>)"
  using assms by (simp add: in_step_def)

text \<open>An acknowledgement of the oldest pending edit.\<close>

lemma acknowledge_oldest:
  assumes "cy_documents c d = Some state" and "in_step state"
    and "dy_pending state = p # ps" and "pn_transaction_id p = tx"
  obtains state' where "cy_documents (acknowledge c d (Suc (dy_confirmed_version state)) tx) d = Some state'"
    and "state' = state\<lparr>dy_confirmed_version := Suc (dy_confirmed_version state), dy_pending := ps\<rparr>"
    and "in_step state'"
proof -
  have "in_step (state\<lparr>dy_confirmed_version := Suc (dy_confirmed_version state), dy_pending := ps\<rparr>)"
  proof -
    have "[v..<v + length (p # ps)] = v # [Suc v..<Suc v + length ps]" for v
      by (simp add: upt_conv_Cons del: upt_Suc)
    then show ?thesis using assms(2,3) by (simp add: in_step_def del: upt_Suc)
  qed
  moreover have "dy_optimistic_version state \<ge> Suc (dy_confirmed_version state)"
    using assms(2,3) by (simp add: in_step_def)
  ultimately show thesis
    using that assms(1,3,4)
    by (simp add: acknowledge_def remove_pending_def remove_at_def set_document_def touch_def Let_def)
qed

text \<open>A failed enqueue takes its reservation back.\<close>

lemma rollback_undoes_reserve:
  assumes "cy_documents c d = Some state" and "in_step state" and "dy_optimistic_version state < u64_max"
    and "tx \<notin> pn_transaction_id ` set (dy_pending state)"
  shows "cy_documents (rollback_pending_reservation (fst (reserve_pending c d tx e)) d tx) d = Some state"
proof -
  let ?new = "\<lparr>pn_document_id = d, pn_base_version = dy_optimistic_version state, pn_transaction_id = tx, pn_operation = e\<rparr>"
  let ?pos = "position (\<lambda>p. pn_transaction_id p = tx)"
  have pos: "?pos (dy_pending state @ [?new]) = Some (length (dy_pending state))"
    using assms(4) by (intro position_unique) (auto simp: nth_append image_iff dest: nth_mem split: if_splits)
  have "version_after_pending (state\<lparr>dy_optimistic_version := x\<rparr>) = dy_optimistic_version state" for x
  proof (cases "dy_pending state" rule: rev_cases)
    case Nil
    then show ?thesis using assms(2) by (simp add: version_after_pending_def in_step_def)
  next
    case (snoc ps p)
    then have "pn_base_version p = dy_confirmed_version state + length ps"
      using assms(2) by (auto simp: in_step_def)
    then show ?thesis
      using assms(2,3) snoc by (simp add: version_after_pending_def in_step_def wrap_add_exact)
  qed
  then show ?thesis
    using assms(1,3) pos
    by (cases state)
      (simp add: reserve_pending_def sync_entry_def rollback_pending_reservation_def set_document_def touch_def
        Let_def remove_at_def)
qed

end
