(* ===== verification/Session_Runs.thy ===== *)
theory Session_Runs imports Session_Facts begin

text \<open>
  A whole editing session: single edits, typing at several carets, undo and redo in any order.
  \<open>session_step\<close> is one command with the events it emits. The history is described by the texts its entries
  lead between, for entries of one and of several operations alike: each undo step leads back to
  the text before, each redo step forward again. The lemmas show that every command keeps this and that the
  events it emits are, in order, valid operations that turn the old text into the new one: what
  the server needs to follow.
\<close>

section \<open>Commands\<close>

inductive session_step ::
  "'r rope_ops \<Rightarrow> 'r editor_session \<Rightarrow> 'r editor_session \<Rightarrow> command_outcome \<Rightarrow> bool" for R where
  Edited:
  "valid_op (buffer_string R (se_buffer s)) e \<Longrightarrow>
   byte_len (buffer_string R (se_buffer s)) + byte_len (op_text e) \<le> u64_max \<Longrightarrow>
   apply_and_record_local_edit R s e caret = (s', outcome) \<Longrightarrow> session_step R s s' outcome"
| Typed_At_Carets:
  "bare_carets (buffer_string R (se_buffer s)) (se_selections s) \<Longrightarrow>
   1 < length (ss_selections (se_selections s)) \<Longrightarrow>
   byte_len (buffer_string R (se_buffer s)) + byte_len u \<le> u64_max \<Longrightarrow>
   replace_selection_or_insert_with_event R s u = (s', outcome) \<Longrightarrow> session_step R s s' outcome"
| Undone: "undo_with_event R s = (s', outcome) \<Longrightarrow> session_step R s s' outcome"
| Redone: "redo_with_event R s = (s', outcome) \<Longrightarrow> session_step R s s' outcome"

text \<open>The operations an outcome asks the server to apply.\<close>

definition outcome_ops :: "command_outcome \<Rightarrow> edit_operation list" where
  "outcome_ops outcome = map ev_operation (co_events outcome)"

text \<open>Any number of commands, with the operations emitted on the way.\<close>

inductive session_run ::
  "'r rope_ops \<Rightarrow> 'r editor_session \<Rightarrow> 'r editor_session \<Rightarrow> edit_operation list \<Rightarrow> bool" for R where
  "session_run R s s []"
| "session_run R s s' es \<Longrightarrow> session_step R s' s'' outcome \<Longrightarrow> session_run R s s'' (es @ outcome_ops outcome)"

section \<open>Histories as walks between texts\<close>

definition forward_steps :: "history_entry \<Rightarrow> edit_operation list" where
  "forward_steps entry = (if entry_is_multi entry then he_forward_ops entry else [he_forward entry])"

definition inverse_steps :: "history_entry \<Rightarrow> edit_operation list" where
  "inverse_steps entry = (if entry_is_multi entry then rev (he_inverse_ops entry) else [he_inverse entry])"

definition entry_joins :: "ustr \<Rightarrow> history_entry \<Rightarrow> ustr \<Rightarrow> bool" where
  "entry_joins t entry t' \<longleftrightarrow>
     steps_valid t (forward_steps entry) \<and> foldl edited_text t (forward_steps entry) = t'
     \<and> steps_valid t' (inverse_steps entry) \<and> foldl edited_text t' (inverse_steps entry) = t"

text \<open>Both stacks newest first.\<close>

fun undo_walk :: "ustr \<Rightarrow> history_entry list \<Rightarrow> bool" where
  "undo_walk t [] = True"
| "undo_walk t (e # es) \<longleftrightarrow> (\<exists>t'. entry_joins t' e t \<and> undo_walk t' es)"

fun redo_walk :: "ustr \<Rightarrow> history_entry list \<Rightarrow> bool" where
  "redo_walk t [] = True"
| "redo_walk t (e # es) \<longleftrightarrow> (\<exists>t'. entry_joins t e t' \<and> redo_walk t' es)"

definition history_joins :: "ustr \<Rightarrow> edit_history \<Rightarrow> bool" where
  "history_joins t h \<longleftrightarrow> undo_walk t (rev (eh_undo h)) \<and> redo_walk t (rev (eh_redo h))"

lemma undo_walk_take: "undo_walk t es \<Longrightarrow> undo_walk t (take n es)"
  by (induction t es arbitrary: n rule: undo_walk.induct) (auto simp: take_Cons')

lemma history_joins_record:
  assumes "history_joins t h" "entry_joins t e t'"
  shows "history_joins t' (history_record h e)"
proof (cases "entry_payload_bytes e > edit_history_max_entry_bytes")
  case True
  then show ?thesis by (simp add: history_joins_def history_record_def history_clear_def)
next
  case False
  have "undo_walk t' (rev (eh_undo h @ [e]))" using assms by (auto simp: history_joins_def)
  then have "undo_walk t' (rev (trim_front (eh_undo h @ [e])))"
    unfolding trim_front_drop rev_drop by (rule undo_walk_take)
  then show ?thesis using False by (simp add: history_joins_def history_record_def)
qed

lemma history_joins_undo:
  assumes "history_joins t h" "history_inv h" "history_undo h = (h', Some e)"
  obtains t' where "entry_joins t' e t" "history_joins t' h'"
proof -
  obtain us where us: "eh_undo h = us @ [e]" and h': "h' = \<lparr>eh_undo = us, eh_redo = eh_redo h @ [e]\<rparr>"
    using assms(2,3) by (cases "eh_undo h" rule: rev_cases)
      (auto simp: history_undo_exact, simp add: history_undo_def)
  obtain t' where "entry_joins t' e t" "undo_walk t' (rev us)" using assms(1) by (auto simp: history_joins_def us)
  then show thesis using assms(1) by (intro that[of t']) (auto simp: history_joins_def h')
qed

lemma history_joins_redo:
  assumes "history_joins t h" "history_inv h" "history_redo h = (h', Some e)"
  obtains t' where "entry_joins t e t'" "history_joins t' h'"
proof -
  obtain rs where rs: "eh_redo h = rs @ [e]" and h': "h' = \<lparr>eh_undo = eh_undo h @ [e], eh_redo = rs\<rparr>"
    using assms(2,3) by (cases "eh_redo h" rule: rev_cases)
      (auto simp: history_redo_exact, simp add: history_redo_def)
  obtain t' where "entry_joins t e t'" "redo_walk t' (rev rs)" using assms(1) by (auto simp: history_joins_def rs)
  then show thesis using assms(1) by (intro that[of t']) (auto simp: history_joins_def h')
qed

text \<open>Without an entry, the stacks stay as they are.\<close>

lemma history_none:
  "history_undo h = (h', None) \<Longrightarrow> h' = h" "history_redo h = (h', None) \<Longrightarrow> h' = h"
  by (auto simp: history_undo_def history_redo_def Let_def split: if_splits)

section \<open>The invariant of a session\<close>

text \<open>The session edits document \<open>D\<close>, may edit it, and its history fits its text.\<close>

definition session_open :: "'r rope_ops \<Rightarrow> nat \<Rightarrow> 'r editor_session \<Rightarrow> bool" where
  "session_open R D s \<longleftrightarrow>
     se_document_id s = D \<and> se_is_editable s \<and> (\<forall>e. se_allows s e) \<and> history_inv (se_history s)
     \<and> history_joins (buffer_string R (se_buffer s)) (se_history s)"

text \<open>What the events of a command tell the server.\<close>

definition follows :: "'r rope_ops \<Rightarrow> nat \<Rightarrow> 'r editor_session \<Rightarrow> 'r editor_session \<Rightarrow> command_outcome \<Rightarrow> bool" where
  "follows R D s s' outcome \<longleftrightarrow>
     (\<forall>event\<in>set (co_events outcome). ev_document_id event = D)
     \<and> steps_valid (buffer_string R (se_buffer s)) (outcome_ops outcome)
     \<and> buffer_string R (se_buffer s') = foldl edited_text (buffer_string R (se_buffer s)) (outcome_ops outcome)"

lemma client_first_event_open:
  assumes "se_is_editable s" and "\<forall>e. se_allows s e"
  shows "client_first_event s e = Some \<lparr>ev_document_id = se_document_id s, ev_base_version = se_document_version s,
           ev_behavior_version = se_behavior_version s, ev_operation = e\<rparr>"
  using assms by (simp add: client_first_event_def)

lemma events_of_open:
  assumes "se_is_editable s" and "\<forall>e. se_allows s e" and "evs = List.map_filter (client_first_event s) es"
  shows "map ev_operation evs = es" and "\<forall>event\<in>set evs. ev_document_id event = se_document_id s"
  using assms by (simp_all add: client_first_event_open List.map_filter_def o_def)

lemma empty_edit:
  assumes "valid_op t e" and "op_start e = op_end e" and "op_text e = []"
  shows "edited_text t e = t"
proof (rule valid_op_split[OF assms(1)])
  fix p m q assume a: "t = p @ m @ q" "op_start e = byte_len p" "op_end e = byte_len p + byte_len m"
    "edited_text t e = p @ op_text e @ q"
  then show ?thesis using assms(2,3) by simp
qed

context crop_rope begin

lemma local_edit_follows:
  assumes "session_open R D s" and v: "valid_op (buffer_string R (se_buffer s)) e"
    and fits: "byte_len (buffer_string R (se_buffer s)) + byte_len (op_text e) \<le> u64_max"
    and edit: "apply_and_record_local_edit R s e caret = (s', outcome)"
  shows "session_open R D s' \<and> follows R D s s' outcome"
proof -
  let ?t = "buffer_string R (se_buffer s)"
  let ?inv = "invert_edit_operation e (prior_text ?t e)"
  note o = assms(1)[unfolded session_open_def]
  obtain b r where op: "apply_buffer_operation R (se_buffer s) e = (b, r)" by force
  note eff = apply_buffer_operation_valid[OF v op]
  have "op_start e + byte_len (op_text e) \<le> u64_max"
    using fits is_boundary_le[OF valid_opD(1)[OF v]] by linarith
  note undoing = invert_valid_op[OF v this]
  show ?thesis
  proof (cases "er_changed r")
    case False
    then have "edited_text ?t e = ?t" using eff(3) by (intro empty_edit[OF v]) auto
    then show ?thesis
      using edit False eff(1) o
      by (auto simp: apply_and_record_local_edit_def finish_edit_with_operation_and_caret_def op Let_def
          unchanged_def session_open_def follows_def outcome_ops_def se_is_editable_def)
  next
    case True
    obtain st x y where s': "s' = s\<lparr>se_buffer := b, se_selections := st,
        se_history := history_record (se_history s) \<lparr>he_forward = e, he_inverse = ?inv,
          he_selection_before = x, he_selection_after = y, he_forward_ops = [], he_inverse_ops = [],
          he_selection_set_before = [], he_selection_set_after = [], he_primary_index = 0\<rparr>\<rparr>"
      and ev: "co_events outcome = (case client_first_event s' e of None \<Rightarrow> [] | Some e \<Rightarrow> [e])"
      using edit True
      by (auto simp: apply_and_record_local_edit_def finish_edit_with_operation_and_caret_def op Let_def
          prior_text_for_operation_eq[OF v])
    have "history_joins (edited_text ?t e) (se_history s')"
      unfolding s' using o v undoing
      by (simp, intro history_joins_record[of ?t])
        (simp_all add: entry_joins_def forward_steps_def inverse_steps_def entry_is_multi_def)
    moreover have "history_inv (se_history s')" using o by (simp add: s' history_record_inv)
    moreover have "se_is_editable s'" "\<forall>e. se_allows s' e" using o by (simp_all add: s' se_is_editable_def)
    ultimately show ?thesis
      using o v eff(1) ev
      by (auto simp: session_open_def follows_def outcome_ops_def client_first_event_open) (simp_all add: s')
  qed
qed

lemma restore_frame:
  "restore_history_selection R s x = s\<lparr>se_selections := se_selections (restore_history_selection R s x)\<rparr>"
  by (simp add: restore_history_selection_def Let_def)

text \<open>Applying the operations of a history entry, of either kind.\<close>

lemma single_restore_follows:
  assumes "se_is_editable s" "\<forall>e. se_allows s e" and v: "valid_op (buffer_string R (se_buffer s)) e"
    and run: "apply_history_restore R s e x = (s', outcome)"
  shows "follows R (se_document_id s) s s' outcome
         \<and> s' = s\<lparr>se_buffer := se_buffer s', se_selections := se_selections s'\<rparr>
         \<and> buffer_string R (se_buffer s') = edited_text (buffer_string R (se_buffer s)) e"
proof -
  obtain b r where op: "apply_buffer_operation R (se_buffer s) e = (b, r)" by force
  note eff = apply_buffer_operation_valid[OF v op]
  show ?thesis
  proof (cases "er_changed r")
    case False
    then have "edited_text (buffer_string R (se_buffer s)) e = buffer_string R (se_buffer s)"
      using eff(3) by (intro empty_edit[OF v]) auto
    then show ?thesis
      using run False eff(1)
      by (auto simp: apply_history_restore_def op Let_def unchanged_def follows_def outcome_ops_def)
  next
    case True
    let ?s = "restore_history_selection R (s\<lparr>se_buffer := b\<rparr>) x"
    have "s' = ?s" and ev: "co_events outcome = (case client_first_event s' e of None \<Rightarrow> [] | Some e \<Rightarrow> [e])"
      using run True by (auto simp: apply_history_restore_def op Let_def)
    then have s': "s' = s\<lparr>se_buffer := b, se_selections := se_selections ?s\<rparr>"
      using restore_frame[of "s\<lparr>se_buffer := b\<rparr>" x] by simp
    then have "se_is_editable s'" "\<forall>e. se_allows s' e" "se_document_id s' = se_document_id s" "se_buffer s' = b"
      "s' = s\<lparr>se_buffer := se_buffer s', se_selections := se_selections s'\<rparr>"
      using assms(1,2) by (auto simp: se_is_editable_def)
    then show ?thesis
      using ev v eff(1) by (simp add: follows_def outcome_ops_def client_first_event_open)
  qed
qed

lemma multi_restore_follows:
  assumes "se_is_editable s" "\<forall>e. se_allows s e" and v: "steps_valid (buffer_string R (se_buffer s)) es"
    and run: "apply_multi_history_restore R s es xs i = (s', outcome)"
  shows "follows R (se_document_id s) s s' outcome
         \<and> s' = s\<lparr>se_buffer := se_buffer s', se_selections := se_selections s'\<rparr>
         \<and> buffer_string R (se_buffer s') = foldl edited_text (buffer_string R (se_buffer s)) es"
proof -
  obtain st where s': "s' = s\<lparr>se_buffer := apply_operations R (se_buffer s) es, se_selections := st\<rparr>"
    and ev: "co_events outcome = List.map_filter (client_first_event s') es"
    using run by (auto simp: apply_multi_history_restore_def Let_def)
  have "se_is_editable s'" "\<forall>e. se_allows s' e" "se_document_id s' = se_document_id s"
    using assms(1,2) by (simp_all add: s' se_is_editable_def)
  then have "outcome_ops outcome = es" "\<forall>event\<in>set (co_events outcome). ev_document_id event = se_document_id s"
    using events_of_open[OF _ _ ev] by (simp_all add: outcome_ops_def)
  then show ?thesis using v apply_operations_text[OF v] by (simp add: follows_def s')
qed

lemma replay_follows:
  assumes "session_open R D s" and h: "history_inv h" "history_joins t' h"
    and v: "steps_valid (buffer_string R (se_buffer s)) es"
      "foldl edited_text (buffer_string R (se_buffer s)) es = t'"
    and single: "\<not> multi \<Longrightarrow> es = [e]"
    and run: "(if multi then apply_multi_history_restore R (s\<lparr>se_history := h\<rparr>) es xs i
               else apply_history_restore R (s\<lparr>se_history := h\<rparr>) e x) = (s', outcome)"
  shows "session_open R D s' \<and> follows R D s s' outcome"
proof -
  note o = assms(1)[unfolded session_open_def]
  let ?s = "s\<lparr>se_history := h\<rparr>"
  have s: "se_is_editable ?s" "\<forall>e. se_allows ?s e" using o by (simp_all add: se_is_editable_def)
  have v': "steps_valid (buffer_string R (se_buffer ?s)) es" using v(1) by simp
  have "follows R (se_document_id ?s) ?s s' outcome
    \<and> s' = ?s\<lparr>se_buffer := se_buffer s', se_selections := se_selections s'\<rparr>
    \<and> buffer_string R (se_buffer s') = t'"
  proof (cases multi)
    case True
    then show ?thesis using multi_restore_follows[OF s v', of xs i s' outcome] run v(2) by simp
  next
    case False
    then have e: "valid_op (buffer_string R (se_buffer ?s)) e" using v(1) single by simp
    show ?thesis using single_restore_follows[OF s e, of x s' outcome] run v(2) single False by simp
  qed
  then obtain f: "follows R D ?s s' outcome" and t': "buffer_string R (se_buffer s') = t'"
    and frame: "s' = ?s\<lparr>se_buffer := se_buffer s', se_selections := se_selections s'\<rparr>"
    using o by auto
  from frame have "se_history s' = h" "se_document_id s' = D" "se_is_editable s'" "\<forall>e. se_allows s' e"
    using o by (metis (no_types, lifting) editor_session.select_convs editor_session.update_convs
      editor_session.surjective se_is_editable_def)+
  then show ?thesis using f t' h by (simp add: session_open_def follows_def)
qed

lemma undo_follows:
  assumes "session_open R D s" and run: "undo_with_event R s = (s', outcome)"
  shows "session_open R D s' \<and> follows R D s s' outcome"
proof -
  note o = assms(1)[unfolded session_open_def]
  obtain h e where h: "history_undo (se_history s) = (h, e)" by force
  show ?thesis
  proof (cases e)
    case None
    then have "s' = s" "outcome = unchanged"
      using run o h history_none(1)[of "se_history s" h] by (auto simp: undo_with_event_def)
    then show ?thesis using assms(1) by (simp add: follows_def outcome_ops_def unchanged_def)
  next
    case (Some entry)
    obtain t' where j: "entry_joins t' entry (buffer_string R (se_buffer s))" "history_joins t' h"
      using history_joins_undo[of "buffer_string R (se_buffer s)" "se_history s" h entry] o h Some by blast
    have "history_inv h" using history_undo_inv[of "se_history s"] o h by simp
    then show ?thesis
      using j(1) run o h Some
      by (intro replay_follows[OF assms(1) _ j(2), where es = "inverse_steps entry"
            and multi = "entry_is_multi entry" and e = "he_inverse entry" and x = "he_selection_before entry"
            and xs = "he_selection_set_before entry" and i = "he_primary_index entry"])
        (auto simp: undo_with_event_def inverse_steps_def entry_joins_def)
  qed
qed

lemma redo_follows:
  assumes "session_open R D s" and run: "redo_with_event R s = (s', outcome)"
  shows "session_open R D s' \<and> follows R D s s' outcome"
proof -
  note o = assms(1)[unfolded session_open_def]
  obtain h e where h: "history_redo (se_history s) = (h, e)" by force
  show ?thesis
  proof (cases e)
    case None
    then have "s' = s" "outcome = unchanged"
      using run o h history_none(2)[of "se_history s" h] by (auto simp: redo_with_event_def)
    then show ?thesis using assms(1) by (simp add: follows_def outcome_ops_def unchanged_def)
  next
    case (Some entry)
    obtain t' where j: "entry_joins (buffer_string R (se_buffer s)) entry t'" "history_joins t' h"
      using history_joins_redo[of "buffer_string R (se_buffer s)" "se_history s" h entry] o h Some by blast
    have "history_inv h" using history_redo_inv[of "se_history s"] o h by simp
    then show ?thesis
      using j(1) run o h Some
      by (intro replay_follows[OF assms(1) _ j(2), where es = "forward_steps entry"
            and multi = "entry_is_multi entry" and e = "he_forward entry" and x = "he_selection_after entry"
            and xs = "he_selection_set_after entry" and i = "he_primary_index entry"])
        (auto simp: redo_with_event_def forward_steps_def entry_joins_def)
  qed
qed

lemma typed_at_carets_follows:
  assumes "session_open R D s" and sel: "bare_carets (buffer_string R (se_buffer s)) (se_selections s)"
      "1 < length (ss_selections (se_selections s))"
    and fits: "byte_len (buffer_string R (se_buffer s)) + byte_len u \<le> u64_max"
    and edit: "replace_selection_or_insert_with_event R s u = (s', outcome)"
  shows "session_open R D s' \<and> follows R D s s' outcome"
proof -
  let ?t = "buffer_string R (se_buffer s)"
  note o = assms(1)[unfolded session_open_def]
  obtain es offs entry where es: "es = map (\<lambda>n. Insert n u) offs" "mset offs = mset (map sel_focus (ss_selections (se_selections s)))"
      "ops_valid ?t es" and str: "buffer_string R (se_buffer s') = foldl edited_text ?t es"
    and frame: "s' = s\<lparr>se_buffer := se_buffer s', se_selections := se_selections s', se_history := se_history s'\<rparr>"
    and ev: "co_events outcome = List.map_filter (client_first_event s') es"
    and hist: "se_history s' = history_record (se_history s) entry"
      "he_forward_ops entry = es" "he_inverse_ops entry = ops_inverses ?t es"
    by (rule multi_insert_result[OF sel fits edit]) blast
  have "es \<noteq> []" using arg_cong[OF es(2), of size] sel(2) by (auto simp: es(1))
  then have "entry_joins ?t entry (foldl edited_text ?t es)"
    using reversed_inverses[OF es(3)] ops_valid_steps[OF es(3)]
    by (simp add: entry_joins_def forward_steps_def inverse_steps_def entry_is_multi_def hist)
  then have "history_joins (foldl edited_text ?t es) (se_history s')"
    unfolding hist(1) using o by (intro history_joins_record) auto
  moreover have "history_inv (se_history s')" using o by (simp add: hist(1) history_record_inv)
  moreover have "se_is_editable s'" "\<forall>e. se_allows s' e" "se_document_id s' = D"
    using o arg_cong[OF frame, of se_access] arg_cong[OF frame, of se_allows]
      arg_cong[OF frame, of se_document_id]
    by (simp_all add: se_is_editable_def)
  ultimately show ?thesis
    using events_of_open[OF _ _ ev] ops_valid_steps[OF es(3)] str
    by (simp add: session_open_def follows_def outcome_ops_def)
qed

text \<open>One command of any kind.\<close>

lemma session_step_follows:
  assumes "session_step R s s' outcome" and "session_open R D s"
  shows "session_open R D s' \<and> follows R D s s' outcome"
  using assms(1)
proof cases
  case (Edited e caret)
  then show ?thesis by (intro local_edit_follows[OF assms(2)])
next
  case (Typed_At_Carets u)
  then show ?thesis by (intro typed_at_carets_follows[OF assms(2)])
next
  case Undone
  then show ?thesis by (rule undo_follows[OF assms(2)])
next
  case Redone
  then show ?thesis by (rule redo_follows[OF assms(2)])
qed

lemma session_open_loaded:
  "\<forall>e. se_allows s e \<Longrightarrow> session_open R D (load_snapshot R s D v content (Editable lease))"
  by (simp add: session_open_def load_snapshot_def se_is_editable_def history_inv_def history_clear_def
      history_joins_def)

lemma loaded_text:
  "buffer_string R (se_buffer (load_snapshot R s D v content access)) = content"
  by (simp add: load_snapshot_def replace_text_def bump_revision_def buffer_string_def)

lemma session_run_follows:
  "session_run R s s' es \<Longrightarrow> session_open R D s \<Longrightarrow>
     session_open R D s' \<and> steps_valid (buffer_string R (se_buffer s)) es
     \<and> buffer_string R (se_buffer s') = foldl edited_text (buffer_string R (se_buffer s)) es"
proof (induction rule: session_run.induct)
  case (2 s s' es s'' outcome)
  then show ?case
    using session_step_follows[of s' s'' outcome D] by (simp add: follows_def steps_valid_append)
qed simp

end

end
