(* ===== verification/Edit_Pipeline.thy ===== *)
theory Edit_Pipeline imports Client_Sync Session_Runs Document_Runs begin

text \<open>
  The way of an edit between a client and the server, put together from the components: the
  editor applies an edit at once and emits an event; the edit queue reserves a version for it and
  puts a message into the connection's channel; the connection's task writes the messages to the stream
  in order; the server applies each to the document and answers; the connection's task applies
  the answers in order. Streams keep the order, so what is on the wire is a list in each direction. Meanwhile
  other connections open and release the document and send requests of their own, and the server
  updates its parse windows.

  The lemmas carry one invariant through every step. From it follow that no edit of the client is
  rejected, that its text is at every moment the server's text with the edits still under way
  applied, and that both agree once nothing is under way.
\<close>

section \<open>The system\<close>

record ('r, 'ch) pipeline =
  pl_session :: "'r editor_session"
  pl_queue :: "'ch edit_queue"
  pl_wire :: "edit_message list"
  pl_document :: "'r document_state"
  pl_replies :: "document_message list"

text \<open>\<open>EditorSurface::note_confirmed_version\<close>.\<close>

definition note_confirmed_version :: "'r editor_session \<Rightarrow> nat \<Rightarrow> nat \<Rightarrow> 'r editor_session \<times> bool" where
  "note_confirmed_version s document_id version =
     (if se_document_id s \<noteq> document_id \<or> se_document_version s = version then (s, False)
      else (s\<lparr>se_document_version := version\<rparr>, True))"

text \<open>\<open>apply_local_edit_outcome\<close>: every event of a command goes to the queue.\<close>

fun enqueue_events ::
  "('ch \<Rightarrow> edit_message \<Rightarrow> 'ch option) \<Rightarrow> 'ch edit_queue \<Rightarrow> (edit_event \<times> nat) list \<Rightarrow>
   'ch edit_queue \<times> enqueue_result list" where
  "enqueue_events send q [] = (q, [])"
| "enqueue_events send q ((event, transaction_id) # events) =
     (let (q, result) = enqueue_edit_event send q (ev_document_id event) (ev_behavior_version event)
            (ev_operation event) transaction_id;
          (q, results) = enqueue_events send q events in
      (q, result # results))"

text \<open>Requests of other connections, and the server's own that leave the text alone.\<close>

fun foreign_request :: "nat \<Rightarrow> document_request \<Rightarrow> bool" where
  "foreign_request client (AcquireAccess c) = (c \<noteq> client)"
| "foreign_request client (ReleaseAccess c) = (c \<noteq> client)"
| "foreign_request client (ApplyEdit _ c _ _ _ _) = (c \<noteq> client)"
| "foreign_request client MarkClean = True"
| "foreign_request client (MarkCleanIfVersion _) = True"
| "foreign_request client (WindowAfterEdit _ _ _ _) = True"
| "foreign_request client (RegisterRegionLock _ _ _) = False"
| "foreign_request client (ReplaceTextFromStorage _) = False"

text \<open>Every text that operations lead through stays below \<open>2 ^ 64\<close> bytes.\<close>

fun texts_fit :: "ustr \<Rightarrow> edit_operation list \<Rightarrow> bool" where
  "texts_fit t [] \<longleftrightarrow> byte_len t \<le> u64_max"
| "texts_fit t (e # es) \<longleftrightarrow> byte_len t + byte_len (op_text e) \<le> u64_max \<and> texts_fit (edited_text t e) es"

lemma texts_fit_le: "texts_fit t es \<Longrightarrow> byte_len t \<le> u64_max"
  by (cases es) auto

lemma texts_fit_append:
  "texts_fit t (es @ fs) \<longleftrightarrow> texts_fit t es \<and> texts_fit (foldl edited_text t es) fs"
  by (induction t es rule: texts_fit.induct) (auto dest: texts_fit_le)

text \<open>
  One step. \<open>Commanded\<close>: an editing command whose events are all accepted by the queue.
  \<open>Sent\<close>: the connection's task takes a message from the channel. \<open>Served\<close>: the server
  handles the oldest message on the wire. \<open>Acknowledged\<close> and \<open>Rejected\<close>: the client handles the oldest
  answer. \<open>Foreign\<close>: the server handles a request of another connection.
\<close>

inductive pipeline_step ::
  "'r rope_ops \<Rightarrow> ('ch \<Rightarrow> edit_message \<Rightarrow> 'ch option) \<Rightarrow> ('ch \<Rightarrow> (edit_message \<times> 'ch) option) \<Rightarrow>
   ('r, 'ch) pipeline \<Rightarrow> ('r, 'ch) pipeline \<Rightarrow> bool"
  for R send recv where
  Commanded:
  "session_step R (pl_session p) s outcome \<Longrightarrow>
   texts_fit (buffer_string R (se_buffer (pl_session p))) (outcome_ops outcome) \<Longrightarrow>
   dy_optimistic_version (sync_entry (eq_sync (pl_queue p)) (se_document_id (pl_session p)))
     + length (co_events outcome) \<le> u64_max \<Longrightarrow>
   length ids = length (co_events outcome) \<Longrightarrow>
   enqueue_events send (pl_queue p) (zip (co_events outcome) ids) = (q, results) \<Longrightarrow>
   list_all (\<lambda>r. r = Enqueued) results \<Longrightarrow>
   pipeline_step R send recv p (p\<lparr>pl_session := s, pl_queue := q\<rparr>)"
| Sent:
  "recv (eq_sender (pl_queue p)) = Some (m, ch) \<Longrightarrow>
   pipeline_step R send recv p
     (p\<lparr>pl_queue := (pl_queue p)\<lparr>eq_sender := ch\<rparr>, pl_wire := pl_wire p @ [m]\<rparr>)"
| Served:
  "pl_wire p = m # ms \<Longrightarrow>
   apply_edit R (pl_document p) (em_document_id m) (em_client_id m) (em_lease_id m) (em_base_version m)
     (em_transaction_id m) (em_operation m) = Some (d, reply) \<Longrightarrow>
   pipeline_step R send recv p (p\<lparr>pl_wire := ms, pl_document := d, pl_replies := pl_replies p @ [reply]\<rparr>)"
| Acknowledged:
  "pl_replies p = EditAck document_id version tx # replies \<Longrightarrow>
   pipeline_step R send recv p
     (p\<lparr>pl_replies := replies,
        pl_queue := (pl_queue p)\<lparr>eq_sync := acknowledge (eq_sync (pl_queue p)) document_id version tx\<rparr>,
        pl_session := fst (note_confirmed_version (pl_session p) document_id version)\<rparr>)"
| Rejected:
  "pl_replies p = EditRejected document_id tx reason # replies \<Longrightarrow>
   pipeline_step R send recv p
     (p\<lparr>pl_replies := replies,
        pl_queue := (pl_queue p)\<lparr>eq_sync := reject_pending (eq_sync (pl_queue p)) document_id tx\<rparr>\<rparr>)"
| Foreign:
  "foreign_request (eq_client_id (pl_queue p)) request \<Longrightarrow>
   document_step R (pl_document p) request = Some (d, change) \<Longrightarrow>
   pipeline_step R send recv p (p\<lparr>pl_document := d\<rparr>)"

text \<open>
  A client that just opened the document: the server gave it the lease, and its editor and queue are
  installed from the server's answer.
\<close>

definition opened_document :: "'r rope_ops \<Rightarrow> nat \<Rightarrow> ustr \<Rightarrow> nat \<Rightarrow> 'r document_state" where
  "opened_document R document_id txt client_id =
     fst (acquire_access (document_new R document_id txt) client_id)"

definition pipeline_start ::
  "'r rope_ops \<Rightarrow> 'ch \<Rightarrow> 'r editor_session \<Rightarrow> nat \<Rightarrow> ustr \<Rightarrow> nat \<Rightarrow> ('r, 'ch) pipeline" where
  "pipeline_start R ch s document_id txt client_id =
     (let (d, access) = acquire_access (document_new R document_id txt) client_id;
          q = \<lparr>eq_sender = ch, eq_client_id = 0, eq_lease_id = None, eq_sync = client_sync_new 0\<rparr> in
      \<lparr>pl_session = load_snapshot R s document_id (ds_version d) (rope_string R (ds_text d)) access,
       pl_queue = update_opened_document_authority (with_authority q client_id access) document_id access
                    (ds_version d),
       pl_wire = [], pl_document = d, pl_replies = []\<rparr>)"

inductive pipeline_run ::
  "'r rope_ops \<Rightarrow> ('ch \<Rightarrow> edit_message \<Rightarrow> 'ch option) \<Rightarrow> ('ch \<Rightarrow> (edit_message \<times> 'ch) option) \<Rightarrow>
   ('r, 'ch) pipeline \<Rightarrow> ('r, 'ch) pipeline \<Rightarrow> bool"
  for R send recv where
  "pipeline_run R send recv p p"
| "pipeline_run R send recv p p' \<Longrightarrow> pipeline_step R send recv p' p'' \<Longrightarrow> pipeline_run R send recv p p''"

section \<open>The invariant\<close>

text \<open>A message on its way and the pending edit it was made for.\<close>

definition carries :: "nat \<Rightarrow> nat \<Rightarrow> edit_message \<Rightarrow> pending_edit \<Rightarrow> bool" where
  "carries client lease m pending \<longleftrightarrow>
     em_document_id m = pn_document_id pending \<and> em_client_id m = client \<and> em_lease_id m = Some lease
     \<and> em_base_version m = pn_base_version pending \<and> em_transaction_id m = pn_transaction_id pending
     \<and> em_operation m = pn_operation pending"

text \<open>The answer that acknowledges a pending edit.\<close>

definition ack_of :: "pending_edit \<Rightarrow> document_message" where
  "ack_of pending = EditAck (pn_document_id pending) (Suc (pn_base_version pending)) (pn_transaction_id pending)"

text \<open>Messages on the wire come before those still in the channel.\<close>

definition under_way :: "('ch \<Rightarrow> edit_message list) \<Rightarrow> ('r, 'ch) pipeline \<Rightarrow> edit_message list" where
  "under_way queued p = pl_wire p @ queued (eq_sender (pl_queue p))"

text \<open>
  The server's lease is the client's and the document has no region locks.
\<close>

definition document_held :: "'r rope_ops \<Rightarrow> nat \<Rightarrow> nat \<Rightarrow> nat \<Rightarrow> 'r document_state \<Rightarrow> bool" where
  "document_held R client lease D d \<longleftrightarrow>
     ds_document_id d = D \<and> ds_active_lease d = Some \<lparr>el_client_id = client, el_lease_id = lease\<rparr>
     \<and> ds_region_locks d = [] \<and> document_inv R d"

text \<open>
  The pending edits are those the server has acknowledged, whose answers are on their way back,
  followed by those the server has not seen. Replaying the latter on the server's text gives the
  client's text.
\<close>

definition edits_flow ::
  "nat \<Rightarrow> nat \<Rightarrow> nat \<Rightarrow> document_sync \<Rightarrow> document_message list \<Rightarrow> edit_message list \<Rightarrow> nat \<Rightarrow> ustr \<Rightarrow> ustr \<Rightarrow>
   pending_edit list \<Rightarrow> pending_edit list \<Rightarrow> bool" where
  "edits_flow client lease D state replies messages version server_text client_text acked flying \<longleftrightarrow>
     dy_lease_id state = Some lease \<and> in_step state \<and> dy_optimistic_version state \<le> u64_max
     \<and> dy_pending state = acked @ flying \<and> (\<forall>pending\<in>set (dy_pending state). pn_document_id pending = D)
     \<and> replies = map ack_of acked \<and> list_all2 (carries client lease) messages flying
     \<and> version = dy_confirmed_version state + length acked
     \<and> steps_valid server_text (map pn_operation flying) \<and> texts_fit server_text (map pn_operation flying)
     \<and> client_text = foldl edited_text server_text (map pn_operation flying)"

definition pipeline_inv ::
  "'r rope_ops \<Rightarrow> ('ch \<Rightarrow> edit_message list) \<Rightarrow> nat \<Rightarrow> nat \<Rightarrow> nat \<Rightarrow> ('r, 'ch) pipeline \<Rightarrow> bool" where
  "pipeline_inv R queued client lease D p \<longleftrightarrow>
     session_open R D (pl_session p) \<and> document_held R client lease D (pl_document p)
     \<and> eq_client_id (pl_queue p) = client
     \<and> (\<exists>state acked flying. cy_documents (eq_sync (pl_queue p)) D = Some state
          \<and> edits_flow client lease D state (pl_replies p) (under_way queued p)
              (ds_version (pl_document p)) (document_string R (pl_document p))
              (buffer_string R (se_buffer (pl_session p))) acked flying)"

lemma in_step_pending:
  assumes "in_step state" and "dy_pending state = acked @ flying"
  shows "\<forall>i<length flying. pn_base_version (flying ! i) = dy_confirmed_version state + length acked + i"
proof (intro allI impI)
  fix i assume "i < length flying"
  moreover have "map pn_base_version (acked @ flying) ! (length acked + i) = dy_confirmed_version state + (length acked + i)"
    using assms calculation by (simp add: in_step_def nth_append del: map_append)
  ultimately show "pn_base_version (flying ! i) = dy_confirmed_version state + length acked + i"
    by (simp add: nth_append)
qed

text \<open>An edit of the client joins the end of the flow.\<close>

lemma edits_flow_extend:
  assumes "edits_flow client lease D state replies ms v t u acked flying"
    and "state' = state\<lparr>dy_optimistic_version := dy_optimistic_version state + length pns,
                        dy_pending := dy_pending state @ pns\<rparr>"
    and "in_step state'" and "dy_optimistic_version state + length pns \<le> u64_max"
    and "list_all2 (carries client lease) ns pns" and "\<forall>pending\<in>set pns. pn_document_id pending = D"
    and "steps_valid u (map pn_operation pns)" and "texts_fit u (map pn_operation pns)"
    and "u' = foldl edited_text u (map pn_operation pns)"
  shows "edits_flow client lease D state' replies (ms @ ns) v t u' acked (flying @ pns)"
  using assms unfolding edits_flow_def
  by (auto simp: steps_valid_append texts_fit_append intro: list_all2_appendI)

text \<open>The server has handled the oldest edit that is under way.\<close>

lemma edits_flow_served:
  assumes "edits_flow client lease D state replies (m # ms) v t u acked flying"
  obtains pn rest where "flying = pn # rest" and "carries client lease m pn" and "pn_base_version pn = v"
    and "pn_document_id pn = D" and "valid_op t (pn_operation pn)"
    and "byte_len t + byte_len (op_text (pn_operation pn)) \<le> u64_max" and "v < u64_max"
    and "edits_flow client lease D state (replies @ [ack_of pn]) ms (Suc v)
           (edited_text t (pn_operation pn)) u (acked @ [pn]) rest"
proof -
  obtain pn rest where f: "flying = pn # rest" using assms by (auto simp: edits_flow_def list_all2_Cons1)
  have st: "in_step state" "dy_pending state = acked @ flying" using assms by (simp_all add: edits_flow_def)
  have b: "pn_base_version pn = v"
    using in_step_pending[OF st] assms by (auto simp: f edits_flow_def)
  have "v < dy_optimistic_version state" using st assms by (auto simp: f edits_flow_def in_step_def)
  then have "v < u64_max" using assms by (simp add: edits_flow_def)
  then show thesis
    using that[OF f _ b] assms b by (auto simp: f edits_flow_def)
qed

text \<open>The client has handled the oldest acknowledgement.\<close>

lemma edits_flow_acknowledged:
  assumes "edits_flow client lease D state (EditAck d v' tx # replies) ms v t u acked flying"
    and "cy_documents c D = Some state"
  obtains state' acked' where "cy_documents (acknowledge c d v' tx) D = Some state'"
    and "edits_flow client lease D state' replies ms v t u acked' flying"
    and "acked = hd acked # acked'"
proof -
  obtain pn acked' where a: "acked = pn # acked'" and r: "ack_of pn = EditAck d v' tx" "replies = map ack_of acked'"
    using assms by (auto simp: edits_flow_def)
  have st: "in_step state" "dy_pending state = pn # acked' @ flying" using assms by (simp_all add: edits_flow_def a)
  have "pn_base_version pn = dy_confirmed_version state"
    using in_step_pending[OF st(1), of "[]" "pn # acked' @ flying"] st(2) by fastforce
  moreover have "pn_document_id pn = D" using assms by (simp add: edits_flow_def a)
  ultimately have "d = D" "v' = Suc (dy_confirmed_version state)" "tx = pn_transaction_id pn"
    using r by (auto simp: ack_of_def)
  then obtain state' where "cy_documents (acknowledge c d v' tx) D = Some state'"
    "state' = state\<lparr>dy_confirmed_version := Suc (dy_confirmed_version state), dy_pending := acked' @ flying\<rparr>"
    "in_step state'"
    using acknowledge_oldest[OF assms(2) st refl] by metis
  then show thesis using assms a r by (intro that[of state' acked']) (auto simp: edits_flow_def)
qed

section \<open>The link between the queue and the server\<close>

locale edit_link = crop_rope R + fifo_channel mk send queued capacity open_receiver recv
  for R :: "'r rope_ops" and mk :: "nat \<Rightarrow> 'ch" and send :: "'ch \<Rightarrow> edit_message \<Rightarrow> 'ch option"
    and queued :: "'ch \<Rightarrow> edit_message list" and capacity :: "'ch \<Rightarrow> nat" and open_receiver :: "'ch \<Rightarrow> bool"
    and recv :: "'ch \<Rightarrow> (edit_message \<times> 'ch) option"
begin

lemma send_accepts_iff: "send ch m \<noteq> None \<longleftrightarrow> open_receiver ch \<and> length (queued ch) < capacity ch"
  by (rule send_accepts)

text \<open>One event accepted by the queue.\<close>

lemma enqueue_accepted:
  assumes "cy_documents (eq_sync q) D = Some state" and "dy_lease_id state = Some lease"
    and "dy_optimistic_version state < u64_max"
    and "enqueue_edit_event send q D bv e tx = (q', Enqueued)"
  obtains pn m where
    "pn = \<lparr>pn_document_id = D, pn_base_version = dy_optimistic_version state, pn_transaction_id = tx, pn_operation = e\<rparr>"
    "cy_documents (eq_sync q') D = Some (state\<lparr>dy_optimistic_version := Suc (dy_optimistic_version state),
       dy_pending := dy_pending state @ [pn]\<rparr>)"
    "queued (eq_sender q') = queued (eq_sender q) @ [m]" "carries (eq_client_id q) lease m pn"
    "eq_client_id q' = eq_client_id q"
proof -
  obtain sync base where r: "reserve_pending (eq_sync q) D tx e = (sync, base)" by force
  obtain state' where s: "cy_documents sync D = Some state'" "base = dy_optimistic_version state"
    "state' = state\<lparr>dy_optimistic_version := Suc (dy_optimistic_version state), dy_pending := dy_pending state @
       [\<lparr>pn_document_id = D, pn_base_version = dy_optimistic_version state, pn_transaction_id = tx, pn_operation = e\<rparr>]\<rparr>"
    using reserve_pending_Some[OF assms(1,3), of tx e] r by auto
  have l: "lease_for sync D = Some lease" using s assms(2) by (simp add: lease_for_def)
  show thesis
    using assms(4) s l
    by (intro that[OF refl])
      (auto simp: enqueue_edit_event_def r Let_def carries_def dest: queued_send split: option.splits)
qed

text \<open>All the events of a command accepted by the queue.\<close>

lemma enqueue_events_accepted:
  assumes "cy_documents (eq_sync q) D = Some state" and "dy_lease_id state = Some lease" and "in_step state"
    and "dy_optimistic_version state + length events \<le> u64_max"
    and "\<forall>event\<in>set events. ev_document_id (fst event) = D"
    and "enqueue_events send q events = (q', results)" and "list_all (\<lambda>r. r = Enqueued) results"
  obtains pns ms state' where
    "state' = state\<lparr>dy_optimistic_version := dy_optimistic_version state + length pns,
                    dy_pending := dy_pending state @ pns\<rparr>"
    "cy_documents (eq_sync q') D = Some state'" "in_step state'"
    "queued (eq_sender q') = queued (eq_sender q) @ ms" "list_all2 (carries (eq_client_id q) lease) ms pns"
    "\<forall>pending\<in>set pns. pn_document_id pending = D"
    "map pn_operation pns = map (\<lambda>event. ev_operation (fst event)) events"
    "eq_client_id q' = eq_client_id q"
  using assms
proof (induction events arbitrary: q state results thesis)
  case Nil
  then show ?case by (intro Nil(1)[of state "[]"]) auto
next
  case (Cons event events)
  obtain ev tx where e: "event = (ev, tx)" by force
  obtain q1 r where one: "enqueue_edit_event send q D (ev_behavior_version ev) (ev_operation ev) tx = (q1, r)" by force
  obtain results' where more: "enqueue_events send q1 events = (q', results')" "results = r # results'"
    using Cons.prems(6,7) one by (auto simp: e Let_def split: prod.splits)
  then have ok: "r = Enqueued" "list_all (\<lambda>r. r = Enqueued) results'" using Cons.prems(8) by simp_all
  obtain pn m where acc:
    "pn = \<lparr>pn_document_id = D, pn_base_version = dy_optimistic_version state, pn_transaction_id = tx,
           pn_operation = ev_operation ev\<rparr>"
    "cy_documents (eq_sync q1) D = Some (state\<lparr>dy_optimistic_version := Suc (dy_optimistic_version state),
       dy_pending := dy_pending state @ [pn]\<rparr>)"
    "queued (eq_sender q1) = queued (eq_sender q) @ [m]" "carries (eq_client_id q) lease m pn"
    "eq_client_id q1 = eq_client_id q"
    using enqueue_accepted[OF Cons.prems(2,3) _ one[unfolded ok(1)]] Cons.prems(5) by auto
  let ?state = "state\<lparr>dy_optimistic_version := Suc (dy_optimistic_version state), dy_pending := dy_pending state @ [pn]\<rparr>"
  have "in_step ?state" using in_step_reserve[OF Cons.prems(4)] by (simp add: acc(1))
  moreover have "dy_lease_id ?state = Some lease" using Cons.prems(3) by simp
  moreover have "dy_optimistic_version ?state + length events \<le> u64_max" using Cons.prems(5) by simp
  moreover have "\<forall>event\<in>set events. ev_document_id (fst event) = D" using Cons.prems(6) by simp
  ultimately obtain pns ms state' where
    "state' = ?state\<lparr>dy_optimistic_version := dy_optimistic_version ?state + length pns,
                    dy_pending := dy_pending ?state @ pns\<rparr>"
    "cy_documents (eq_sync q') D = Some state'" "in_step state'"
    "queued (eq_sender q') = queued (eq_sender q1) @ ms" "list_all2 (carries (eq_client_id q1) lease) ms pns"
    "\<forall>pending\<in>set pns. pn_document_id pending = D"
    "map pn_operation pns = map (\<lambda>event. ev_operation (fst event)) events" "eq_client_id q' = eq_client_id q1"
    using Cons.IH[OF _ acc(2)] more(1) ok(2) by blast
  then show ?case
    using acc by (intro Cons.prems(1)[of state' "pn # pns" "m # ms"]) (simp_all add: e)
qed

text \<open>A channel that refuses the events: the queue is as before, and nothing was sent.\<close>

lemma enqueue_refused:
  assumes "cy_documents (eq_sync q) D = Some state" and "in_step state" and "dy_optimistic_version state < u64_max"
    and "tx \<notin> pn_transaction_id ` set (dy_pending state)" and "\<And>m. send (eq_sender q) m = None"
    and "enqueue_edit_event send q D bv e tx = (q', result)"
  shows "eq_sender q' = eq_sender q \<and> cy_documents (eq_sync q') D = Some state \<and> result \<noteq> Enqueued"
  using rollback_undoes_reserve[OF assms(1-4), of e] assms(5,6)
  by (auto simp: enqueue_edit_event_def Let_def split: prod.splits if_splits option.splits)

lemma enqueue_events_refused:
  assumes "cy_documents (eq_sync q) D = Some state" and "in_step state" and "dy_optimistic_version state < u64_max"
    and "\<forall>event\<in>set events. ev_document_id (fst event) = D \<and> snd event \<notin> pn_transaction_id ` set (dy_pending state)"
    and "\<And>m. send (eq_sender q) m = None" and "enqueue_events send q events = (q', results)"
  shows "eq_sender q' = eq_sender q \<and> cy_documents (eq_sync q') D = Some state \<and> Enqueued \<notin> set results"
  using assms
proof (induction events arbitrary: q results)
  case (Cons event events)
  obtain ev tx where e: "event = (ev, tx)" by force
  obtain q1 r where one: "enqueue_edit_event send q D (ev_behavior_version ev) (ev_operation ev) tx = (q1, r)" by force
  obtain results' where more: "enqueue_events send q1 events = (q', results')" "results = r # results'"
    using Cons.prems(4,6) one by (auto simp: e Let_def split: prod.splits)
  have r: "eq_sender q1 = eq_sender q \<and> cy_documents (eq_sync q1) D = Some state \<and> r \<noteq> Enqueued"
    using enqueue_refused[OF Cons.prems(1-3) _ Cons.prems(5) one] Cons.prems(4) by (simp add: e)
  then show ?case using Cons.IH[of q1 results'] Cons.prems more by auto
qed simp

text \<open>What the invariant says, with its parts named.\<close>

lemma pipeline_invE:
  assumes "pipeline_inv R queued client lease D p"
  obtains state acked flying where
    "session_open R D (pl_session p)" "document_held R client lease D (pl_document p)"
    "eq_client_id (pl_queue p) = client" "cy_documents (eq_sync (pl_queue p)) D = Some state"
    "edits_flow client lease D state (pl_replies p) (under_way queued p) (ds_version (pl_document p))
       (document_string R (pl_document p)) (buffer_string R (se_buffer (pl_session p))) acked flying"
  using assms unfolding pipeline_inv_def by blast

lemma document_held_fits:
  "edits_flow client lease D state replies ms v (document_string R d) u acked flying \<Longrightarrow> document_fits R d"
  unfolding edits_flow_def document_fits_def by (blast dest: texts_fit_le)

lemma commanded_inv:
  assumes "pipeline_inv R queued client lease D p"
    and step: "session_step R (pl_session p) s outcome"
    and fits: "texts_fit (buffer_string R (se_buffer (pl_session p))) (outcome_ops outcome)"
    and room: "dy_optimistic_version (sync_entry (eq_sync (pl_queue p)) (se_document_id (pl_session p)))
      + length (co_events outcome) \<le> u64_max"
    and ids: "length ids = length (co_events outcome)"
    and run: "enqueue_events send (pl_queue p) (zip (co_events outcome) ids) = (q, results)"
      "list_all (\<lambda>r. r = Enqueued) results"
  shows "pipeline_inv R queued client lease D (p\<lparr>pl_session := s, pl_queue := q\<rparr>)"
proof -
  obtain state acked flying where o: "session_open R D (pl_session p)"
    "document_held R client lease D (pl_document p)" "eq_client_id (pl_queue p) = client"
    and state: "cy_documents (eq_sync (pl_queue p)) D = Some state"
    and flow: "edits_flow client lease D state (pl_replies p) (under_way queued p) (ds_version (pl_document p))
       (document_string R (pl_document p)) (buffer_string R (se_buffer (pl_session p))) acked flying"
    using assms(1) by (rule pipeline_invE)
  note f = session_step_follows[OF step o(1)]
  let ?events = "zip (co_events outcome) ids"
  have entry: "sync_entry (eq_sync (pl_queue p)) (se_document_id (pl_session p)) = state"
    using o(1) state by (simp add: sync_entry_def session_open_def)
  have room': "dy_optimistic_version state + length ?events \<le> u64_max" using room ids by (simp add: entry)
  have ev: "\<forall>event\<in>set ?events. ev_document_id (fst event) = D"
    using f by (auto simp: follows_def dest: set_zip_leftD)
  have same: "map (\<lambda>event. ev_operation (fst event)) ?events = outcome_ops outcome"
    using ids by (simp add: outcome_ops_def map_fst_zip flip: map_map[unfolded o_def])
  have ok: "dy_lease_id state = Some lease" "in_step state" using flow by (simp_all add: edits_flow_def)
  obtain pns ms state' where new:
    "state' = state\<lparr>dy_optimistic_version := dy_optimistic_version state + length pns,
                    dy_pending := dy_pending state @ pns\<rparr>"
    "cy_documents (eq_sync q) D = Some state'" "in_step state'"
    "queued (eq_sender q) = queued (eq_sender (pl_queue p)) @ ms"
    "list_all2 (carries (eq_client_id (pl_queue p)) lease) ms pns"
    "\<forall>pending\<in>set pns. pn_document_id pending = D"
    "map pn_operation pns = map (\<lambda>event. ev_operation (fst event)) ?events"
    "eq_client_id q = eq_client_id (pl_queue p)"
    by (rule enqueue_events_accepted[OF state ok room' ev run])
  have ops: "map pn_operation pns = outcome_ops outcome" using new(7) same by simp
  have "dy_optimistic_version state + length pns \<le> u64_max"
    using room' arg_cong[OF new(7), of length] by simp
  then have "edits_flow client lease D state' (pl_replies p) (under_way queued p @ ms) (ds_version (pl_document p))
      (document_string R (pl_document p)) (buffer_string R (se_buffer s)) acked (flying @ pns)"
    using f fits new o(3) ops
    by (intro edits_flow_extend[OF flow new(1,3)]) (auto simp: follows_def)
  then show ?thesis
    using f o new unfolding pipeline_inv_def by (auto simp: under_way_def)
qed

lemma served_inv:
  assumes "pipeline_inv R queued client lease D p" and w: "pl_wire p = m # ms"
    and run: "apply_edit R (pl_document p) (em_document_id m) (em_client_id m) (em_lease_id m) (em_base_version m)
       (em_transaction_id m) (em_operation m) = Some (d, reply)"
  shows "pipeline_inv R queued client lease D
           (p\<lparr>pl_wire := ms, pl_document := d, pl_replies := pl_replies p @ [reply]\<rparr>)"
proof -
  obtain state acked flying where o: "session_open R D (pl_session p)"
    "document_held R client lease D (pl_document p)" "eq_client_id (pl_queue p) = client"
    "cy_documents (eq_sync (pl_queue p)) D = Some state"
    and flow: "edits_flow client lease D state (pl_replies p) (under_way queued p) (ds_version (pl_document p))
       (document_string R (pl_document p)) (buffer_string R (se_buffer (pl_session p))) acked flying"
    using assms(1) by (rule pipeline_invE)
  have way: "under_way queued p = m # ms @ queued (eq_sender (pl_queue p))" by (simp add: under_way_def w)
  obtain pn rest where pn: "carries client lease m pn" "pn_base_version pn = ds_version (pl_document p)"
    "pn_document_id pn = D" "valid_op (document_string R (pl_document p)) (pn_operation pn)"
    "byte_len (document_string R (pl_document p)) + byte_len (op_text (pn_operation pn)) \<le> u64_max"
    "ds_version (pl_document p) < u64_max"
    and flow': "edits_flow client lease D state (pl_replies p @ [ack_of pn]) (ms @ queued (eq_sender (pl_queue p)))
      (Suc (ds_version (pl_document p))) (edited_text (document_string R (pl_document p)) (pn_operation pn))
      (buffer_string R (se_buffer (pl_session p))) (acked @ [pn]) rest"
    using edits_flow_served[OF flow[unfolded way]] by metis
  have m: "em_document_id m = D" "em_client_id m = client" "em_lease_id m = Some lease"
    "em_base_version m = ds_version (pl_document p)" "em_operation m = pn_operation pn"
    "em_transaction_id m = pn_transaction_id pn"
    using pn(1-3) by (simp_all add: carries_def)
  have held: "ds_document_id (pl_document p) = D" "ds_region_locks (pl_document p) = []"
    "ds_active_lease (pl_document p) = Some \<lparr>el_client_id = client, el_lease_id = lease\<rparr>"
    "document_inv R (pl_document p)"
    using o(2) by (simp_all add: document_held_def)
  have "op_start (pn_operation pn) + byte_len (op_text (pn_operation pn)) \<le> u64_max"
    using pn(4,5) is_boundary_le[OF valid_opD(1)[OF pn(4)]] by linarith
  then have acc: "edit_accepted R (pl_document p) (em_document_id m) (em_client_id m) (em_lease_id m)
      (em_base_version m) (em_operation m)"
    using pn(4,6) by (simp add: edit_accepted_def m held)
  from document_held_fits[OF flow] show ?thesis
  proof (cases rule: apply_edit_cases[of "pl_document p" "em_document_id m" "em_client_id m" "em_lease_id m"
        "em_base_version m" "em_transaction_id m" "em_operation m"])
    case (accepted d')
    have d: "d = d'" "reply = ack_of pn"
      using accepted(1) run pn(2,3) by (simp_all add: m held ack_of_def)
    have "document_held R client lease D d'"
      using edited_inv[OF held(4) accepted(4)] held
        arg_cong[OF accepted(4), of ds_document_id] arg_cong[OF accepted(4), of ds_active_lease]
        arg_cong[OF accepted(4), of ds_region_locks]
      by (simp add: document_held_def)
    moreover have "ds_version d' = Suc (ds_version (pl_document p))"
      using arg_cong[OF accepted(4), of ds_version] by simp
    ultimately show ?thesis
      using o flow' accepted(3) d unfolding pipeline_inv_def m(5)
      by (auto simp: under_way_def)
  next
    case rejected
    then show ?thesis using acc by simp
  qed
qed

lemma sent_inv:
  assumes "pipeline_inv R queued client lease D p" and "recv (eq_sender (pl_queue p)) = Some (m, ch)"
  shows "pipeline_inv R queued client lease D
           (p\<lparr>pl_queue := (pl_queue p)\<lparr>eq_sender := ch\<rparr>, pl_wire := pl_wire p @ [m]\<rparr>)"
proof -
  have "under_way queued (p\<lparr>pl_queue := (pl_queue p)\<lparr>eq_sender := ch\<rparr>, pl_wire := pl_wire p @ [m]\<rparr>)
      = under_way queued p"
    using recv_Some[OF assms(2)] by (simp add: under_way_def)
  then show ?thesis using assms(1) by (simp add: pipeline_inv_def)
qed

lemma note_confirmed_frame:
  "fst (note_confirmed_version s d v) = s\<lparr>se_document_version := se_document_version (fst (note_confirmed_version s d v))\<rparr>"
  by (simp add: note_confirmed_version_def)

lemma session_open_version: "session_open R D (s\<lparr>se_document_version := v\<rparr>) = session_open R D s"
  by (simp add: session_open_def se_is_editable_def)

lemma acknowledged_inv:
  assumes "pipeline_inv R queued client lease D p" and r: "pl_replies p = EditAck document_id version tx # replies"
  shows "pipeline_inv R queued client lease D
     (p\<lparr>pl_replies := replies,
        pl_queue := (pl_queue p)\<lparr>eq_sync := acknowledge (eq_sync (pl_queue p)) document_id version tx\<rparr>,
        pl_session := fst (note_confirmed_version (pl_session p) document_id version)\<rparr>)"
proof -
  obtain state acked flying where o: "session_open R D (pl_session p)"
    "document_held R client lease D (pl_document p)" "eq_client_id (pl_queue p) = client"
    and state: "cy_documents (eq_sync (pl_queue p)) D = Some state"
    and flow: "edits_flow client lease D state (pl_replies p) (under_way queued p) (ds_version (pl_document p))
       (document_string R (pl_document p)) (buffer_string R (se_buffer (pl_session p))) acked flying"
    using assms(1) by (rule pipeline_invE)
  let ?s = "fst (note_confirmed_version (pl_session p) document_id version)"
  obtain state' acked' where
    "cy_documents (acknowledge (eq_sync (pl_queue p)) document_id version tx) D = Some state'"
    "edits_flow client lease D state' replies (under_way queued p) (ds_version (pl_document p))
       (document_string R (pl_document p)) (buffer_string R (se_buffer (pl_session p))) acked' flying"
    using edits_flow_acknowledged[OF flow[unfolded r] state] by metis
  moreover have "session_open R D ?s" "se_buffer ?s = se_buffer (pl_session p)"
    using o(1) by (subst note_confirmed_frame, simp add: session_open_version)+
  ultimately show ?thesis
    using o unfolding pipeline_inv_def by (auto simp: under_way_def)
qed

text \<open>No answer on its way back is a rejection.\<close>

lemma replies_are_acks:
  assumes "pipeline_inv R queued client lease D p" and "reply \<in> set (pl_replies p)"
  obtains v tx where "reply = EditAck D v tx"
proof (rule pipeline_invE[OF assms(1)])
  fix state acked flying
  assume "edits_flow client lease D state (pl_replies p) (under_way queued p) (ds_version (pl_document p))
      (document_string R (pl_document p)) (buffer_string R (se_buffer (pl_session p))) acked flying"
  then have "pl_replies p = map ack_of acked" "\<forall>pn\<in>set acked. pn_document_id pn = D"
    by (simp_all add: edits_flow_def)
  then show thesis using assms(2) that by (auto simp: ack_of_def)
qed

text \<open>Other connections can neither change the text nor take the lease.\<close>

lemma foreign_request_effect:
  assumes held: "document_held R client lease D d" and fits: "document_fits R d"
    and f: "foreign_request client request" and run: "document_step R d request = Some (d', change)"
  shows "document_held R client lease D d' \<and> document_string R d' = document_string R d \<and> ds_version d' = ds_version d"
proof -
  note h = held[unfolded document_held_def]
  have inv: "document_inv R d" using h by simp
  show ?thesis
  proof (cases request)
    case (AcquireAccess c)
    then have "d' = fst (acquire_access d c)" "ds_active_lease d' = ds_active_lease d"
      "ds_region_locks d' = ds_region_locks d"
      using run f h by (auto simp: acquire_access_def Let_def)
    then show ?thesis
      using h acquire_access_inv[OF inv, of c] by (simp add: document_held_def acquire_access_frame)
  next
    case (ReleaseAccess c)
    then have "d' = release_access d c" "ds_active_lease d' = ds_active_lease d"
      "ds_region_locks d' = ds_region_locks d"
      using run f h by (auto simp: release_access_def Let_def)
    then show ?thesis
      using h release_access_inv[OF inv, of c] by (simp add: document_held_def release_access_frame)
  next
    case (ApplyEdit document_id c lease_id base tx e)
    from fits show ?thesis
    proof (cases rule: apply_edit_cases[of d document_id c lease_id base tx e])
      case accepted
      then show ?thesis using f h by (auto simp: ApplyEdit edit_accepted_def)
    next
      case rejected
      then show ?thesis using run held by (simp add: ApplyEdit)
    qed
  next
    case (WindowAfterEdit pp m policy edit)
    obtain d1 r where w: "parse_window_after_edit R d pp m policy edit = (d1, r)" by force
    then have d1: "d' = d1" using run by (simp add: WindowAfterEdit)
    note fr = parse_window_after_edit_frame[OF w]
    show ?thesis
      using parse_window_after_edit_inv[OF fits inv w] h arg_cong[OF fr, of ds_document_id]
        arg_cong[OF fr, of ds_active_lease] arg_cong[OF fr, of ds_region_locks]
        arg_cong[OF fr, of ds_version] arg_cong[OF fr, of ds_text]
      by (simp add: d1 document_held_def document_string_def)
  qed (use run f h in \<open>auto simp: document_held_def mark_clean_def mark_clean_if_version_def document_string_def
      document_inv_def retained_ok_def split: if_splits\<close>)
qed

lemma foreign_inv:
  assumes "pipeline_inv R queued client lease D p"
    and "foreign_request (eq_client_id (pl_queue p)) request"
    and "document_step R (pl_document p) request = Some (d, change)"
  shows "pipeline_inv R queued client lease D (p\<lparr>pl_document := d\<rparr>)"
proof -
  obtain state acked flying where o: "session_open R D (pl_session p)"
    "document_held R client lease D (pl_document p)" "eq_client_id (pl_queue p) = client"
    "cy_documents (eq_sync (pl_queue p)) D = Some state"
    and flow: "edits_flow client lease D state (pl_replies p) (under_way queued p) (ds_version (pl_document p))
       (document_string R (pl_document p)) (buffer_string R (se_buffer (pl_session p))) acked flying"
    using assms(1) by (rule pipeline_invE)
  note eff = foreign_request_effect[OF o(2) document_held_fits[OF flow] assms(2)[unfolded o(3)] assms(3)]
  show ?thesis using o eff flow unfolding pipeline_inv_def by (auto simp: under_way_def)
qed

text \<open>One step of any kind.\<close>

lemma pipeline_step_inv:
  assumes "pipeline_step R send recv p p'" and inv: "pipeline_inv R queued client lease D p"
  shows "pipeline_inv R queued client lease D p'"
  using assms(1)
proof cases
  case (Commanded s outcome ids q results)
  then show ?thesis using commanded_inv[OF inv] by blast
next
  case (Sent m ch)
  then show ?thesis using sent_inv[OF inv] by blast
next
  case (Served m ms d reply)
  then show ?thesis using served_inv[OF inv] by blast
next
  case (Acknowledged document_id version tx replies)
  then show ?thesis using acknowledged_inv[OF inv] by blast
next
  case (Rejected document_id tx reason replies)
  then show ?thesis using replies_are_acks[OF inv, of "EditRejected document_id tx reason"] by auto
next
  case (Foreign request d change)
  then show ?thesis using foreign_inv[OF inv] by blast
qed

lemma pipeline_run_inv:
  "pipeline_run R send recv p p' \<Longrightarrow> pipeline_inv R queued client lease D p \<Longrightarrow> pipeline_inv R queued client lease D p'"
  by (induction rule: pipeline_run.induct) (blast intro: pipeline_step_inv)+

text \<open>The opened document starts in the invariant.\<close>

lemma pipeline_start_inv:
  assumes "queued ch = []" and "\<forall>e. se_allows s e" and "byte_len content \<le> u64_max"
  shows "pipeline_inv R queued client 1 D (pipeline_start R ch s D content client)"
proof -
  obtain d access where a: "acquire_access (document_new R D content) client = (d, access)" by force
  have inv: "document_inv R d" using acquire_access_inv[OF document_inv_new, of R D content client] by (simp add: a)
  have d: "access = Editable 1" "ds_document_id d = D" "ds_region_locks d = []" "document_string R d = content"
    "ds_active_lease d = Some \<lparr>el_client_id = client, el_lease_id = 1\<rparr>" "rope_string R (ds_text d) = content"
    "ds_version d = 1"
    using a by (auto simp: acquire_access_def document_new_def document_string_def Let_def)
  have "session_open R D (load_snapshot R s D (ds_version d) content access)"
    using session_open_loaded[OF assms(2)] by (simp add: d)
  then show ?thesis
    using assms inv d
    by (auto simp: pipeline_inv_def pipeline_start_def a Let_def document_held_def under_way_def edits_flow_def
        update_opened_document_authority_def with_authority_def install_document_state_def set_document_def
        touch_def document_sync_new_def in_step_def load_snapshot_def replace_text_def bump_revision_def buffer_string_def u64_max_def)
qed

section \<open>Delivery\<close>

text \<open>What the server still has to do to reach the client's text.\<close>

lemma under_way_replays:
  assumes "pipeline_inv R queued client lease D p"
  shows "steps_valid (document_string R (pl_document p)) (map em_operation (under_way queued p))
    \<and> buffer_string R (se_buffer (pl_session p))
        = foldl edited_text (document_string R (pl_document p)) (map em_operation (under_way queued p))"
proof -
  obtain state acked flying where flow: "edits_flow client lease D state (pl_replies p) (under_way queued p)
      (ds_version (pl_document p)) (document_string R (pl_document p))
      (buffer_string R (se_buffer (pl_session p))) acked flying"
    using assms by (rule pipeline_invE)
  then have "list_all2 (carries client lease) (under_way queued p) flying" by (simp add: edits_flow_def)
  then have "map em_operation (under_way queued p) = map pn_operation flying"
    by (induction rule: list_all2_induct) (simp_all add: carries_def)
  then show ?thesis using flow by (simp add: edits_flow_def)
qed

text \<open>Versions: one answer for each version the server is ahead.\<close>

lemma versions_agree:
  assumes "pipeline_inv R queued client lease D p"
  obtains state where "cy_documents (eq_sync (pl_queue p)) D = Some state"
    "ds_version (pl_document p) = dy_confirmed_version state + length (pl_replies p)"
    "dy_optimistic_version state = ds_version (pl_document p) + length (under_way queued p)"
    "length (dy_pending state) = length (pl_replies p) + length (under_way queued p)"
proof (rule pipeline_invE[OF assms])
  fix state acked flying
  assume "cy_documents (eq_sync (pl_queue p)) D = Some state"
    "edits_flow client lease D state (pl_replies p) (under_way queued p) (ds_version (pl_document p))
      (document_string R (pl_document p)) (buffer_string R (se_buffer (pl_session p))) acked flying"
  then show thesis
    by (intro that[of state]) (auto simp: edits_flow_def in_step_def dest: list_all2_lengthD)
qed

lemma pipeline_run_trans:
  "pipeline_run R send recv b c \<Longrightarrow> pipeline_run R send recv a b \<Longrightarrow> pipeline_run R send recv a c"
  by (induction rule: pipeline_run.induct) (auto intro: pipeline_run.intros)

text \<open>While anything is under way, a step brings it closer to its end and leaves the client's text alone.\<close>

definition distance :: "('r, 'ch) pipeline \<Rightarrow> nat" where
  "distance p = 3 * length (queued (eq_sender (pl_queue p))) + 2 * length (pl_wire p) + length (pl_replies p)"

lemma delivery_step:
  assumes inv: "pipeline_inv R queued client lease D p" and "distance p \<noteq> 0"
  obtains p' where "pipeline_step R send recv p p'" "distance p' < distance p"
    "se_buffer (pl_session p') = se_buffer (pl_session p)"
proof -
  consider (reply) r rs where "pl_replies p = r # rs" | (wire) m ms where "pl_wire p = m # ms"
    | (channel) m ms where "queued (eq_sender (pl_queue p)) = m # ms"
    using assms(2) by (auto simp: distance_def neq_Nil_conv)
  then show thesis
  proof cases
    case reply
    then obtain v tx where "r = EditAck D v tx" using replies_are_acks[OF inv, of r] by auto
    with reply show thesis
      by (intro that[OF Acknowledged]) (auto simp: distance_def note_confirmed_version_def)
  next
    case wire
    obtain state acked flying where "edits_flow client lease D state (pl_replies p) (under_way queued p)
        (ds_version (pl_document p)) (document_string R (pl_document p))
        (buffer_string R (se_buffer (pl_session p))) acked flying"
      using inv by (rule pipeline_invE)
    from document_held_fits[OF this] obtain d reply where
      "apply_edit R (pl_document p) (em_document_id m) (em_client_id m) (em_lease_id m) (em_base_version m)
         (em_transaction_id m) (em_operation m) = Some (d, reply)"
      by (cases rule: apply_edit_cases) blast+
    with wire show thesis by (intro that[OF Served]) (auto simp: distance_def)
  next
    case channel
    then obtain ch where "recv (eq_sender (pl_queue p)) = Some (m, ch)" "queued ch = ms"
      by (rule recv_Cons)
    with channel show thesis by (intro that[OF Sent]) (auto simp: distance_def)
  qed
qed

lemma delivery:
  assumes "pipeline_inv R queued client lease D p"
  obtains p' where "pipeline_run R send recv p p'" "pipeline_inv R queued client lease D p'"
    "under_way queued p' = []" "pl_replies p' = []"
    "se_buffer (pl_session p') = se_buffer (pl_session p)"
  using assms
proof (induction "distance p" arbitrary: p thesis rule: less_induct)
  case less
  show thesis
  proof (cases "distance p = 0")
    case True
    then show thesis
      using less.prems by (intro less.prems(1)[of p]) (auto simp: distance_def under_way_def intro: pipeline_run.intros)
  next
    case False
    obtain p1 where p1: "pipeline_step R send recv p p1" "distance p1 < distance p"
      "se_buffer (pl_session p1) = se_buffer (pl_session p)"
      using delivery_step[OF less.prems(2) False] .
    obtain p' where p': "pipeline_run R send recv p1 p'" "pipeline_inv R queued client lease D p'"
      "under_way queued p' = []" "pl_replies p' = []" "se_buffer (pl_session p') = se_buffer (pl_session p1)"
      using less.hyps[OF p1(2) _ pipeline_step_inv[OF p1(1) less.prems(2)]] by blast
    have "pipeline_run R send recv p p1" using p1(1) by (auto intro: pipeline_run.intros)
    then show thesis using p' p1(3) by (intro less.prems(1)[of p']) (auto intro: pipeline_run_trans)
  qed
qed

end

interpretation list_link: edit_link list_rope list_mk list_send lc_queue lc_capacity lc_open list_recv
  by unfold_locales

lemma edit_linkI:
  "crop_rope R \<Longrightarrow> fifo_channel mk send queued capacity open_receiver recv \<Longrightarrow>
     edit_link R mk send queued capacity open_receiver recv"
  by (rule edit_link.intro)

end
