(* ===== verification/Pipeline_Properties.thy ===== *)
theory Pipeline_Properties imports Edit_Pipeline begin

text \<open>
  The properties of a whole editing session and of the way its edits take to the server: the
  events of any sequence of commands describe the text exactly, no edit is refused, client and
  server differ by exactly the edits under way, and they agree once those are delivered. The witnesses compute with
  the list rope and the list channel.
\<close>

definition blank_session :: "ustr editor_session" where
  "blank_session =
     \<lparr>se_document_id = 0, se_document_version = 0, se_behavior_version = 1, se_access = ReadOnly,
      se_allows = (\<lambda>_. True), se_buffer = \<lparr>eb_rope = [], eb_revision = 0\<rparr>,
      se_selections = selection_default, se_history = history_new\<rparr>"

definition loaded_session :: "ustr editor_session" where
  "loaded_session = load_snapshot list_rope blank_session 7 1 [97, 98] (Editable 1)"

lemma loaded_session_eq:
  "loaded_session = blank_session\<lparr>se_document_id := 7, se_document_version := 1, se_access := Editable 1,
     se_buffer := \<lparr>eb_rope = [97, 98], eb_revision = 1\<rparr>\<rparr>"
  by (simp add: loaded_session_def load_snapshot_def blank_session_def replace_text_def bump_revision_def
      history_clear_def history_new_def sat_add_def u64_max_def)




definition linked_start :: "(ustr, edit_message list_channel) pipeline" where
  "linked_start = pipeline_start list_rope (list_mk 8) blank_session 7 [97, 98] 42"

definition typed_outcome :: "ustr editor_session \<times> command_outcome" where
  "typed_outcome = apply_and_record_local_edit list_rope (pl_session linked_start) (Insert 1 [120]) None"


lemma linked_start_session: "pl_session linked_start = loaded_session"
  by (simp add: linked_start_def pipeline_start_def acquire_access_def document_new_def Let_def
      loaded_session_def)









text \<open>
  C35: an edit the channel refuses is lost. When the connection's channel is full, a command that changes the text
  takes every version reservation back and sends nothing, but the editor keeps the new text:
  its text is then not the server's text with the edits under way applied.
\<close>

theorem refused_edit_is_lost:
  assumes "crop_rope R" and "fifo_channel mk send queued capacity open_receiver recv"
    and "queued ch = []" and "\<forall>e. se_allows s e" and "byte_len content \<le> u64_max"
    and "pipeline_run R send recv (pipeline_start R ch s D content client) p"
    and "capacity (eq_sender (pl_queue p)) \<le> length (queued (eq_sender (pl_queue p)))"
    and "session_step R (pl_session p) s' outcome"
    and "buffer_string R (se_buffer s') \<noteq> buffer_string R (se_buffer (pl_session p))"
    and "sy_optimistic_version (snapshot_for (eq_sync (pl_queue p)) D) < u64_max"
    and "set ids \<inter> pn_transaction_id ` set (sy_pending (snapshot_for (eq_sync (pl_queue p)) D)) = {}"
    and "enqueue_events send (pl_queue p) (zip (co_events outcome) ids) = (q, results)"
  shows "Enqueued \<notin> set results
       \<and> snapshot_for (eq_sync q) D = snapshot_for (eq_sync (pl_queue p)) D
       \<and> buffer_string R (se_buffer s')
           \<noteq> foldl edited_text (document_string R (pl_document p))
               (map em_operation (under_way queued (p\<lparr>pl_session := s', pl_queue := q\<rparr>)))"
proof -
  note link = edit_linkI[OF assms(1,2)]
  have inv: "pipeline_inv R queued client 1 D p"
    by (rule edit_link.pipeline_run_inv[OF link assms(6)
          edit_link.pipeline_start_inv[OF link assms(3,4,5)]])
  obtain state acked flying where op: "session_open R D (pl_session p)"
    and state: "cy_documents (eq_sync (pl_queue p)) D = Some state" and st: "in_step state"
    using edit_link.pipeline_invE[OF link inv] unfolding edits_flow_def by metis
  have "\<forall>event\<in>set (co_events outcome). ev_document_id event = D"
    using crop_rope.session_step_follows[OF assms(1,8) op] by (simp add: follows_def)
  then have ev: "\<forall>event\<in>set (zip (co_events outcome) ids).
      ev_document_id (fst event) = D \<and> snd event \<notin> pn_transaction_id ` set (dy_pending state)"
    using assms(11) state by (fastforce simp: snapshot_for_def dest: set_zip_leftD set_zip_rightD)
  have full: "send (eq_sender (pl_queue p)) m = None" for m
    using edit_link.send_accepts_iff[OF link, of "eq_sender (pl_queue p)" m] assms(7) by auto
  have "dy_optimistic_version state < u64_max" using assms(10) state by (simp add: snapshot_for_def)
  from edit_link.enqueue_events_refused[OF link state st this ev full assms(12)]
  have q: "eq_sender q = eq_sender (pl_queue p)" "cy_documents (eq_sync q) D = Some state" "Enqueued \<notin> set results"
    by auto
  have "under_way queued (p\<lparr>pl_session := s', pl_queue := q\<rparr>) = under_way queued p"
    by (simp add: under_way_def q(1))
  then show ?thesis
    using edit_link.under_way_replays[OF link inv] assms(9) q state by (simp add: snapshot_for_def)
qed

definition full_start :: "(ustr, edit_message list_channel) pipeline" where
  "full_start = pipeline_start list_rope (list_mk 0) blank_session 7 [97, 98] 42"

lemma full_start_parts:
  "pl_session full_start = loaded_session" "cy_documents (eq_sync (pl_queue full_start)) 7 = Some (document_sync_new 1 (Some 1))"
  "eq_sender (pl_queue full_start) = list_mk 0"
  by (simp_all add: full_start_def pipeline_start_def acquire_access_def document_new_def Let_def
      loaded_session_def update_opened_document_authority_def with_authority_def install_document_state_def
      set_document_def touch_def document_sync_new_def)

theorem refused_edit_is_lost_witness:
  "\<exists>q results. enqueue_events list_send (pl_queue full_start) (zip (co_events (snd typed_outcome)) [5]) = (q, results)
      \<and> buffer_string list_rope (se_buffer (fst typed_outcome))
          \<noteq> foldl edited_text (document_string list_rope (pl_document full_start))
              (map em_operation (under_way lc_queue (full_start\<lparr>pl_session := fst typed_outcome, pl_queue := q\<rparr>)))"
proof -
  have t: "buffer_string list_rope (se_buffer (pl_session full_start)) = [97, 98]"
    by (simp add: full_start_parts loaded_session_eq buffer_string_def)
  have step: "session_step list_rope (pl_session full_start) (fst typed_outcome) (snd typed_outcome)"
    by (rule Edited[where e = "Insert 1 [120]" and caret = None])
      (simp_all add: t[unfolded full_start_parts] valid_op_def len_utf8_def u64_max_def typed_outcome_def
        full_start_parts linked_start_session)
  have "buffer_string list_rope (se_buffer (fst typed_outcome)) = [97, 120, 98]"
    by (simp add: typed_outcome_def linked_start_session loaded_session_eq blank_session_def buffer_string_def
        apply_and_record_local_edit_def finish_edit_with_operation_and_caret_def insert_at_def
        clamp_byte_offset_def Let_def len_utf8_def text_splice_def bump_revision_def)
  then have diff: "buffer_string list_rope (se_buffer (fst typed_outcome))
      \<noteq> buffer_string list_rope (se_buffer (pl_session full_start))" by (simp add: t)
  have run: "pipeline_run list_rope list_send list_recv
      (pipeline_start list_rope (list_mk 0) blank_session 7 [97, 98] 42) full_start"
    unfolding full_start_def by (rule pipeline_run.intros)
  obtain q results where q: "enqueue_events list_send (pl_queue full_start) (zip (co_events (snd typed_outcome)) [5])
      = (q, results)" by force
  show ?thesis
    using refused_edit_is_lost[OF list_rope_laws list_channel.fifo_channel_axioms _ _ _ run _ step diff _ _ q] q
    by (fastforce simp: list_mk_def blank_session_def len_utf8_def u64_max_def full_start_parts snapshot_for_def
        document_sync_new_def)
qed

end
