(* ===== verification/Decoration_Sets.thy ===== *)
theory Decoration_Sets imports Package_Records "HOL-Library.Word" "HOL-Library.Multiset" begin

text \<open>
  Decorations: the inert style spans packages publish for a range of a document
  (\<open>protocol/decorations.rs\<close>), and the checks a set passes before it leaves the server
  (\<open>validate_decoration_set\<close> and \<open>validate_decoration_publication\<close> of \<open>server/decorations.rs\<close>).

  The length of the \<open>rkyv\<close> encoding of a set is a parameter \<open>wire\<close>; \<open>None\<close> is a failed encoding.
\<close>

unbundle bit_operations_syntax

section \<open>The style vocabulary\<close>

record decoration_provenance =
  dp_package_name :: ustr
  dp_package_version :: ustr
  dp_package_prefix :: ustr

datatype decoration_kind = Syntax_Kind | Semantic_Kind | Diagnostic_Kind | SearchMatch_Kind

datatype token_type =
    Tok_Namespace | Tok_Type | Tok_Class | Tok_Enum | Tok_Interface | Tok_Struct | Tok_TypeParameter
  | Tok_Parameter | Tok_Variable | Tok_Property | Tok_EnumMember | Tok_Event | Tok_Function | Tok_Method
  | Tok_Macro | Tok_Keyword | Tok_Modifier | Tok_Comment | Tok_String | Tok_Number | Tok_Regexp
  | Tok_Operator | Tok_Decorator
  | Tok_Heading1 | Tok_Heading2 | Tok_Heading3 | Tok_Heading4 | Tok_Heading5 | Tok_Heading6
  | Tok_ListItem | Tok_Quote | Tok_CodeBlock | Tok_CodeSpan | Tok_Link | Tok_Paragraph

text \<open>The arms of \<open>from_name\<close>.\<close>

definition token_names :: "(ustr \<times> token_type) list" where
  "token_names =
    [(lit ''Namespace'', Tok_Namespace), (lit ''Type'', Tok_Type), (lit ''Class'', Tok_Class),
     (lit ''Enum'', Tok_Enum), (lit ''Interface'', Tok_Interface), (lit ''Struct'', Tok_Struct),
     (lit ''TypeParameter'', Tok_TypeParameter), (lit ''Parameter'', Tok_Parameter),
     (lit ''Variable'', Tok_Variable), (lit ''Property'', Tok_Property),
     (lit ''EnumMember'', Tok_EnumMember), (lit ''Event'', Tok_Event), (lit ''Function'', Tok_Function),
     (lit ''Method'', Tok_Method), (lit ''Macro'', Tok_Macro), (lit ''Keyword'', Tok_Keyword),
     (lit ''Modifier'', Tok_Modifier), (lit ''Comment'', Tok_Comment), (lit ''String'', Tok_String),
     (lit ''Number'', Tok_Number), (lit ''Regexp'', Tok_Regexp), (lit ''Operator'', Tok_Operator),
     (lit ''Decorator'', Tok_Decorator), (lit ''Heading1'', Tok_Heading1), (lit ''Heading2'', Tok_Heading2),
     (lit ''Heading3'', Tok_Heading3), (lit ''Heading4'', Tok_Heading4), (lit ''Heading5'', Tok_Heading5),
     (lit ''Heading6'', Tok_Heading6), (lit ''ListItem'', Tok_ListItem), (lit ''Quote'', Tok_Quote),
     (lit ''CodeBlock'', Tok_CodeBlock), (lit ''CodeSpan'', Tok_CodeSpan), (lit ''Link'', Tok_Link),
     (lit ''Paragraph'', Tok_Paragraph)]"

definition token_from_name :: "ustr \<Rightarrow> token_type option" where
  "token_from_name name = map_of token_names name"

primrec token_index :: "token_type \<Rightarrow> nat" where
  "token_index Tok_Namespace = 0"
| "token_index Tok_Type = 1"
| "token_index Tok_Class = 2"
| "token_index Tok_Enum = 3"
| "token_index Tok_Interface = 4"
| "token_index Tok_Struct = 5"
| "token_index Tok_TypeParameter = 6"
| "token_index Tok_Parameter = 7"
| "token_index Tok_Variable = 8"
| "token_index Tok_Property = 9"
| "token_index Tok_EnumMember = 10"
| "token_index Tok_Event = 11"
| "token_index Tok_Function = 12"
| "token_index Tok_Method = 13"
| "token_index Tok_Macro = 14"
| "token_index Tok_Keyword = 15"
| "token_index Tok_Modifier = 16"
| "token_index Tok_Comment = 17"
| "token_index Tok_String = 18"
| "token_index Tok_Number = 19"
| "token_index Tok_Regexp = 20"
| "token_index Tok_Operator = 21"
| "token_index Tok_Decorator = 22"
| "token_index Tok_Heading1 = 23"
| "token_index Tok_Heading2 = 24"
| "token_index Tok_Heading3 = 25"
| "token_index Tok_Heading4 = 26"
| "token_index Tok_Heading5 = 27"
| "token_index Tok_Heading6 = 28"
| "token_index Tok_ListItem = 29"
| "token_index Tok_Quote = 30"
| "token_index Tok_CodeBlock = 31"
| "token_index Tok_CodeSpan = 32"
| "token_index Tok_Link = 33"
| "token_index Tok_Paragraph = 34"

text \<open>\<open>Modifiers\<close>: a bit set in a \<open>u16\<close>.\<close>

type_synonym modifiers = "16 word"

definition modifiers_contains :: "modifiers \<Rightarrow> modifiers \<Rightarrow> bool" where
  "modifiers_contains m other \<longleftrightarrow> (m AND other) = other"

definition modifiers_insert :: "modifiers \<Rightarrow> modifiers \<Rightarrow> modifiers" where
  "modifiers_insert m other = m OR other"

definition modifier_names :: "(ustr \<times> modifiers) list" where
  "modifier_names =
    [(lit ''Declaration'', push_bit 0 1), (lit ''Definition'', push_bit 1 1), (lit ''Readonly'', push_bit 2 1),
     (lit ''Static'', push_bit 3 1), (lit ''Deprecated'', push_bit 4 1), (lit ''Abstract'', push_bit 5 1),
     (lit ''Async'', push_bit 6 1), (lit ''Modification'', push_bit 7 1),
     (lit ''Documentation'', push_bit 8 1), (lit ''DefaultLibrary'', push_bit 9 1),
     (lit ''Bold'', push_bit 10 1), (lit ''Italic'', push_bit 11 1), (lit ''Underline'', push_bit 12 1),
     (lit ''Strikethrough'', push_bit 13 1)]"

fun modifiers_from_names_loop :: "modifiers \<Rightarrow> ustr list \<Rightarrow> modifiers option" where
  "modifiers_from_names_loop mods [] = Some mods"
| "modifiers_from_names_loop mods (name # names) =
     (case map_of modifier_names name of
        None \<Rightarrow> None
      | Some flag \<Rightarrow> modifiers_from_names_loop (modifiers_insert mods flag) names)"

definition modifiers_from_names :: "ustr list \<Rightarrow> modifiers option" where
  "modifiers_from_names names = modifiers_from_names_loop 0 names"

definition classify_style_token :: "ustr \<Rightarrow> token_type \<times> modifiers" where
  "classify_style_token style_token =
    (case map_of
      [(lit ''markup.heading.1'', (Tok_Heading1, 0)), (lit ''markup.heading.2'', (Tok_Heading2, 0)),
       (lit ''markup.heading.3'', (Tok_Heading3, 0)), (lit ''markup.heading.4'', (Tok_Heading4, 0)),
       (lit ''markup.heading.5'', (Tok_Heading5, 0)), (lit ''markup.heading.6'', (Tok_Heading6, 0)),
       (lit ''markup.strong'', (Tok_Paragraph, push_bit 10 1)),
       (lit ''markup.emphasis'', (Tok_Paragraph, push_bit 11 1)),
       (lit ''markup.inline-code'', (Tok_CodeSpan, 0)), (lit ''markup.code-block'', (Tok_CodeBlock, 0)),
       (lit ''markup.list-marker'', (Tok_ListItem, 0)), (lit ''keyword.control'', (Tok_Keyword, 0)),
       (lit ''string.quoted'', (Tok_String, 0)), (lit ''comment.line'', (Tok_Comment, 0)),
       (lit ''punctuation.definition'', (Tok_Operator, 0)), (lit ''text'', (Tok_Paragraph, 0))]
      style_token of
       Some r \<Rightarrow> r
     | None \<Rightarrow> (Tok_Variable, 0))"

datatype document_font_role = Inherit_Role | Monospace_Role | Proportional_Role

section \<open>Spans and sets\<close>

record decoration_span =
  sp_byte_start :: nat
  sp_byte_end :: nat
  sp_kind :: decoration_kind
  sp_token_type :: token_type
  sp_modifiers :: modifiers
  sp_scope :: "ustr option"
  sp_font_role :: "document_font_role option"
  sp_priority :: nat
  sp_provenance :: decoration_provenance

definition span_from_vocabulary ::
  "nat \<Rightarrow> nat \<Rightarrow> decoration_kind \<Rightarrow> token_type \<Rightarrow> modifiers \<Rightarrow> nat \<Rightarrow> decoration_provenance \<Rightarrow> decoration_span" where
  "span_from_vocabulary byte_start byte_end kind token_type modifiers priority provenance =
     \<lparr>sp_byte_start = byte_start, sp_byte_end = byte_end, sp_kind = kind, sp_token_type = token_type,
      sp_modifiers = modifiers, sp_scope = None, sp_font_role = None, sp_priority = priority,
      sp_provenance = provenance\<rparr>"

definition span_from_style_token ::
  "nat \<Rightarrow> nat \<Rightarrow> decoration_kind \<Rightarrow> ustr \<Rightarrow> nat \<Rightarrow> decoration_provenance \<Rightarrow> decoration_span" where
  "span_from_style_token byte_start byte_end kind style_token priority provenance =
     (let (token_type, modifiers) = classify_style_token style_token in
      \<lparr>sp_byte_start = byte_start, sp_byte_end = byte_end, sp_kind = kind, sp_token_type = token_type,
       sp_modifiers = modifiers, sp_scope = Some style_token, sp_font_role = None, sp_priority = priority,
       sp_provenance = provenance\<rparr>)"

record decoration_chunk_key =
  dk_document_id :: nat
  dk_document_version :: nat
  dk_package_prefix :: ustr
  dk_kind :: decoration_kind
  dk_byte_start :: nat
  dk_byte_end :: nat

record decoration_set =
  de_document_id :: nat
  de_document_version :: nat
  de_package_prefix :: ustr
  de_kind :: decoration_kind
  de_viewport_byte_start :: nat
  de_viewport_byte_end :: nat
  de_spans :: "decoration_span list"

definition decoration_chunk_key_of :: "decoration_set \<Rightarrow> ustr \<Rightarrow> decoration_chunk_key" where
  "decoration_chunk_key_of s package_prefix =
     \<lparr>dk_document_id = de_document_id s, dk_document_version = de_document_version s,
      dk_package_prefix = package_prefix, dk_kind = de_kind s,
      dk_byte_start = de_viewport_byte_start s, dk_byte_end = de_viewport_byte_end s\<rparr>"

definition set_package_prefix :: "decoration_set \<Rightarrow> ustr option" where
  "set_package_prefix s = (if de_package_prefix s \<noteq> [] then Some (de_package_prefix s) else None)"

definition span_intersects_viewport :: "decoration_span \<Rightarrow> nat \<Rightarrow> nat \<Rightarrow> bool" where
  "span_intersects_viewport span viewport_start viewport_end \<longleftrightarrow>
     sp_byte_start span < viewport_end \<and> sp_byte_end span > viewport_start"

text \<open>
  The order of \<open>sorted_viewport_first\<close> (a stable sort): spans that meet the viewport first, then
  by falling priority, then by start and end.
\<close>

definition viewport_first_key :: "decoration_set \<Rightarrow> decoration_span \<Rightarrow> bool \<times> int \<times> nat \<times> nat" where
  "viewport_first_key s span =
     (\<not> span_intersects_viewport span (de_viewport_byte_start s) (de_viewport_byte_end s),
      - int (sp_priority span), sp_byte_start span, sp_byte_end span)"

definition sorted_viewport_first :: "decoration_set \<Rightarrow> decoration_set" where
  "sorted_viewport_first s = s\<lparr>de_spans := sort_key (viewport_first_key s) (de_spans s)\<rparr>"

section \<open>Validation\<close>

definition decoration_payload_budget_bytes :: nat where
  "decoration_payload_budget_bytes = 8192"

datatype decoration_error =
    Decoration_MissingPermission ustr
  | Decoration_StaleDocumentVersion nat nat
  | Decoration_InvalidViewportRange
  | Decoration_InvalidSpanRange nat
  | Decoration_FontRoleOnNonLayoutSpan nat decoration_kind
  | Decoration_SpanOutsideViewport nat
  | Decoration_EmptyStyleToken nat
  | Decoration_UnknownStyleToken nat ustr
  | Decoration_PackageProvenanceMismatch nat
  | Decoration_SetPackageProvenanceMismatch
  | Decoration_PayloadBudgetExceeded nat nat
  | Decoration_CacheBudgetExceeded nat nat
  | Decoration_SerializationFailed

definition is_known_style_token :: "ustr \<Rightarrow> bool" where
  "is_known_style_token style_token \<longleftrightarrow> style_token \<in> lit `
     {''markup.heading.1'', ''markup.heading.2'', ''markup.heading.3'', ''markup.heading.4'',
      ''markup.heading.5'', ''markup.heading.6'', ''markup.strong'', ''markup.emphasis'',
      ''markup.inline-code'', ''markup.code-block'', ''markup.list-marker'', ''keyword.control'',
      ''string.quoted'', ''comment.line'', ''punctuation.definition'', ''diagnostic.error'',
      ''diagnostic.warning'', ''diagnostic.info'', ''search.match'', ''text''}"

text \<open>\<open>trim().is_empty()\<close>.\<close>

definition blank :: "ustr \<Rightarrow> bool" where
  "blank s \<longleftrightarrow> list_all is_whitespace s"

text \<open>The comparison of a provenance with a package record; both validators make it.\<close>

definition provenance_of_record :: "decoration_provenance \<Rightarrow> package_record \<Rightarrow> bool" where
  "provenance_of_record provenance p \<longleftrightarrow>
     dp_package_name provenance = record_name p \<and> dp_package_version provenance = mf_version (pr_manifest p)
     \<and> dp_package_prefix provenance = cm_api_prefix (record_clay p)"

text \<open>One turn of the loop over the spans; \<open>None\<close> when no check fails.\<close>

definition decoration_span_error ::
  "package_record option \<Rightarrow> decoration_set \<Rightarrow> nat \<Rightarrow> decoration_span \<Rightarrow> decoration_error option" where
  "decoration_span_error package s index span =
    (if sp_byte_start span \<ge> sp_byte_end span then Some (Decoration_InvalidSpanRange index)
     else if sp_byte_start span < de_viewport_byte_start s \<or> sp_byte_end span > de_viewport_byte_end s
     then Some (Decoration_SpanOutsideViewport index)
     else if sp_font_role span \<noteq> None \<and> sp_kind span \<noteq> Syntax_Kind \<and> sp_kind span \<noteq> Semantic_Kind
     then Some (Decoration_FontRoleOnNonLayoutSpan index (sp_kind span))
     else case
       (case sp_scope span of
          None \<Rightarrow> None
        | Some scope \<Rightarrow>
            if blank scope \<or> 123 \<in> set scope \<or> 125 \<in> set scope
            then Some (Decoration_EmptyStyleToken index)
            else if \<not> is_known_style_token scope then Some (Decoration_UnknownStyleToken index scope)
            else None) of
       Some e \<Rightarrow> Some e
     | None \<Rightarrow>
         if dp_package_prefix (sp_provenance span) \<noteq> de_package_prefix s
            \<or> (case package of None \<Rightarrow> False | Some p \<Rightarrow> \<not> provenance_of_record (sp_provenance span) p)
         then Some (Decoration_PackageProvenanceMismatch index)
         else None)"

text \<open>
  The loop: the first failing span decides. The braces the source looks for are the scalars 123 and
  125.
\<close>

fun decoration_spans_error ::
  "package_record option \<Rightarrow> decoration_set \<Rightarrow> nat \<Rightarrow> decoration_span list \<Rightarrow> decoration_error option" where
  "decoration_spans_error package s index [] = None"
| "decoration_spans_error package s index (span # spans) =
     (case decoration_span_error package s index span of
        Some e \<Rightarrow> Some e
      | None \<Rightarrow> decoration_spans_error package s (index + 1) spans)"

definition validate_decoration_set ::
  "(decoration_set \<Rightarrow> nat option) \<Rightarrow> nat \<Rightarrow> decoration_set \<Rightarrow> package_record option
    \<Rightarrow> decoration_error + decoration_set" where
  "validate_decoration_set wire current_document_version s package =
    (if de_document_version s \<noteq> current_document_version
     then Inl (Decoration_StaleDocumentVersion (de_document_version s) current_document_version)
     else if de_viewport_byte_start s > de_viewport_byte_end s then Inl Decoration_InvalidViewportRange
     else if de_package_prefix s = []
        \<or> (case package of None \<Rightarrow> False | Some p \<Rightarrow> de_package_prefix s \<noteq> cm_api_prefix (record_clay p))
     then Inl Decoration_SetPackageProvenanceMismatch
     else case decoration_spans_error package s 0 (de_spans s) of
       Some e \<Rightarrow> Inl e
     | None \<Rightarrow>
         let ordered = sorted_viewport_first s in
         case wire ordered of
           None \<Rightarrow> Inl Decoration_SerializationFailed
         | Some bytes \<Rightarrow>
             if bytes > decoration_payload_budget_bytes
             then Inl (Decoration_PayloadBudgetExceeded bytes decoration_payload_budget_bytes)
             else Inr ordered)"

definition validate_decoration_publication ::
  "(decoration_set \<Rightarrow> nat option) \<Rightarrow> package_record \<Rightarrow> nat \<Rightarrow> decoration_set
    \<Rightarrow> decoration_error + decoration_set" where
  "validate_decoration_publication wire package current_document_version s =
    (if RenderDecorations \<notin> set (cm_permissions (record_clay package))
     then Inl (Decoration_MissingPermission (cm_api_prefix (record_clay package)))
     else if de_document_version s \<noteq> current_document_version
     then Inl (Decoration_StaleDocumentVersion (de_document_version s) current_document_version)
     else validate_decoration_set wire current_document_version s (Some package))"

section \<open>What the checks guarantee\<close>

text \<open>A span that may leave the server in the set \<open>s\<close>.\<close>

definition decoration_span_ok :: "package_record option \<Rightarrow> decoration_set \<Rightarrow> decoration_span \<Rightarrow> bool" where
  "decoration_span_ok package s span \<longleftrightarrow>
     de_viewport_byte_start s \<le> sp_byte_start span \<and> sp_byte_start span < sp_byte_end span
     \<and> sp_byte_end span \<le> de_viewport_byte_end s
     \<and> (sp_font_role span = None \<or> sp_kind span \<in> {Syntax_Kind, Semantic_Kind})
     \<and> (case sp_scope span of None \<Rightarrow> True | Some scope \<Rightarrow> is_known_style_token scope)
     \<and> dp_package_prefix (sp_provenance span) = de_package_prefix s
     \<and> (case package of None \<Rightarrow> True | Some p \<Rightarrow> provenance_of_record (sp_provenance span) p)"

lemma known_style_token_clean:
  "is_known_style_token scope \<Longrightarrow> \<not> blank scope \<and> 123 \<notin> set scope \<and> 125 \<notin> set scope"
  by (auto simp: is_known_style_token_def blank_def lit_def is_whitespace_def)

lemma decoration_span_error_None:
  "decoration_span_error package s index span = None \<longleftrightarrow> decoration_span_ok package s span"
  using known_style_token_clean
  by (auto simp: decoration_span_error_def decoration_span_ok_def split: option.splits if_splits)

lemma decoration_spans_error_None:
  "decoration_spans_error package s index spans = None \<longleftrightarrow> (\<forall>span\<in>set spans. decoration_span_ok package s span)"
proof (induction spans arbitrary: index)
  case (Cons span spans)
  then show ?case
    using decoration_span_error_None[of package s index span]
    by (cases "decoration_span_error package s index span") simp_all
qed simp

lemma sorted_viewport_first_fields [simp]:
  "de_document_id (sorted_viewport_first s) = de_document_id s"
  "de_document_version (sorted_viewport_first s) = de_document_version s"
  "de_package_prefix (sorted_viewport_first s) = de_package_prefix s"
  "de_kind (sorted_viewport_first s) = de_kind s"
  "de_viewport_byte_start (sorted_viewport_first s) = de_viewport_byte_start s"
  "de_viewport_byte_end (sorted_viewport_first s) = de_viewport_byte_end s"
  "set (de_spans (sorted_viewport_first s)) = set (de_spans s)"
  by (simp_all add: sorted_viewport_first_def)

lemma sorted_viewport_first_mset: "mset (de_spans (sorted_viewport_first s)) = mset (de_spans s)"
  by (simp add: sorted_viewport_first_def)

lemma decoration_span_ok_sorted [simp]:
  "decoration_span_ok package (sorted_viewport_first s) = decoration_span_ok package s"
  by (simp add: decoration_span_ok_def fun_eq_iff)

text \<open>\<open>validate_decoration_set\<close>, as one condition on the set.\<close>

lemma validate_decoration_set_Inr:
  "validate_decoration_set wire current s package = Inr s' \<longleftrightarrow>
     de_document_version s = current \<and> de_viewport_byte_start s \<le> de_viewport_byte_end s
     \<and> de_package_prefix s \<noteq> []
     \<and> (case package of None \<Rightarrow> True | Some p \<Rightarrow> de_package_prefix s = cm_api_prefix (record_clay p))
     \<and> (\<forall>span\<in>set (de_spans s). decoration_span_ok package s span)
     \<and> s' = sorted_viewport_first s
     \<and> (\<exists>bytes. wire s' = Some bytes \<and> bytes \<le> decoration_payload_budget_bytes)"
proof -
  have "(\<forall>span\<in>set (de_spans s). decoration_span_ok package s span)
      \<longleftrightarrow> decoration_spans_error package s 0 (de_spans s) = None"
    by (simp only: decoration_spans_error_None)
  then show ?thesis
    by (cases package) (auto simp: validate_decoration_set_def Let_def split: option.splits if_splits)
qed

text \<open>The published order.\<close>

lemma sorted_viewport_first_ordered:
  "sorted (map (viewport_first_key s) (de_spans (sorted_viewport_first s)))"
  by (simp add: sorted_viewport_first_def)

lemma token_index_bound: "token_index t < 35"
  by (cases t) simp_all

lemma token_index_declared: "map snd token_names ! token_index t = t"
  by (cases t) (simp_all add: token_names_def)

lemma token_index_inj: "token_index t = token_index u \<longleftrightarrow> t = u"
  by (metis token_index_declared)

lemma token_names_distinct: "distinct (map fst token_names)"
  by (simp add: token_names_def lit_def)

lemma token_from_name_unique:
  "(n, t) \<in> set token_names \<Longrightarrow> token_from_name n = Some t"
  by (simp add: token_from_name_def token_names_distinct)

end
