(* ===== verification/Diagnostic_Sets.thy ===== *)
theory Diagnostic_Sets imports Decoration_Sets begin

text \<open>
  Diagnostics: source-associated byte ranges with a severity (\<open>protocol/diagnostics.rs\<close>), the
  composition of several sources for display (\<open>compose_diagnostic_spans\<close>), and the checks a set
  passes (\<open>validate_diagnostic_set\<close> of \<open>server/diagnostics.rs\<close>). \<open>wire\<close> is the length of the \<open>rkyv\<close>
  encoding, as in \<open>Decoration_Sets\<close>.

  The composition merges the intervals of the suppressing spans and looks each recovery span up by
  bisection; the last section proves it equal to the plain rule of its documentation.
\<close>

section \<open>Spans and sets\<close>

datatype diagnostic_severity = Info_Severity | Warning_Severity | Error_Severity

record runtime_diagnostic =
  rd_severity :: diagnostic_severity
  rd_code :: ustr
  rd_message :: ustr

definition runtime_diagnostic_error :: "ustr \<Rightarrow> ustr \<Rightarrow> runtime_diagnostic" where
  "runtime_diagnostic_error code message = \<lparr>rd_severity = Error_Severity, rd_code = code, rd_message = message\<rparr>"

record diagnostic_span =
  dx_byte_start :: nat
  dx_byte_end :: nat
  dx_severity :: diagnostic_severity
  dx_code :: ustr
  dx_message :: ustr
  dx_source :: ustr
  dx_provenance :: decoration_provenance

record diagnostic_chunk_key =
  gk_document_id :: nat
  gk_document_version :: nat
  gk_source :: ustr
  gk_package_prefix :: ustr
  gk_byte_start :: nat
  gk_byte_end :: nat

record diagnostic_set =
  dg_document_id :: nat
  dg_document_version :: nat
  dg_viewport_byte_start :: nat
  dg_viewport_byte_end :: nat
  dg_source :: ustr
  dg_provenance :: decoration_provenance
  dg_spans :: "diagnostic_span list"

definition diagnostic_chunk_key_of :: "diagnostic_set \<Rightarrow> diagnostic_chunk_key" where
  "diagnostic_chunk_key_of s =
     \<lparr>gk_document_id = dg_document_id s, gk_document_version = dg_document_version s,
      gk_source = dg_source s, gk_package_prefix = dp_package_prefix (dg_provenance s),
      gk_byte_start = dg_viewport_byte_start s, gk_byte_end = dg_viewport_byte_end s\<rparr>"

fun severity_rank :: "diagnostic_severity \<Rightarrow> nat" where
  "severity_rank Error_Severity = 0"
| "severity_rank Warning_Severity = 1"
| "severity_rank Info_Severity = 2"

definition diagnostic_sort_key :: "diagnostic_span \<Rightarrow> nat \<times> nat \<times> nat \<times> ustr \<times> ustr" where
  "diagnostic_sort_key span =
     (dx_byte_start span, dx_byte_end span, severity_rank (dx_severity span), dx_code span, dx_message span)"

definition diagnostic_sorted :: "diagnostic_set \<Rightarrow> diagnostic_set" where
  "diagnostic_sorted s = s\<lparr>dg_spans := sort_key diagnostic_sort_key (dg_spans s)\<rparr>"

section \<open>Composition of several sources\<close>

definition tree_sitter_diagnostic_source :: ustr where
  "tree_sitter_diagnostic_source = lit ''tree-sitter''"

definition is_analyzer_error_or_warning :: "diagnostic_span \<Rightarrow> bool" where
  "is_analyzer_error_or_warning span \<longleftrightarrow>
     dx_source span \<noteq> tree_sitter_diagnostic_source \<and> dx_severity span \<in> {Error_Severity, Warning_Severity}"

fun merge_intervals_loop :: "nat \<times> nat \<Rightarrow> (nat \<times> nat) list \<Rightarrow> (nat \<times> nat) list" where
  "merge_intervals_loop current [] = [current]"
| "merge_intervals_loop current (nxt # intervals) =
     (if fst nxt < snd current
      then merge_intervals_loop (fst current, max (snd current) (snd nxt)) intervals
      else current # merge_intervals_loop nxt intervals)"

definition merge_half_open_intervals :: "(nat \<times> nat) list \<Rightarrow> (nat \<times> nat) list" where
  "merge_half_open_intervals intervals =
     (case sort intervals of [] \<Rightarrow> [] | current # rest \<Rightarrow> merge_intervals_loop current rest)"

function overlap_search :: "nat \<Rightarrow> (nat \<times> nat) list \<Rightarrow> nat \<Rightarrow> nat \<Rightarrow> nat" where
  "overlap_search start merged left right =
     (if left < right then
        let mid = left + (right - left) div 2 in
        if snd (merged ! mid) \<le> start then overlap_search start merged (mid + 1) right
        else overlap_search start merged left mid
      else left)"
  by pat_completeness auto
termination
  by (relation "measure (\<lambda>(start, merged, left, right). right - left)") (auto simp: Let_def)

declare overlap_search.simps [simp del]

definition interval_overlaps_merged :: "nat \<Rightarrow> nat \<Rightarrow> (nat \<times> nat) list \<Rightarrow> bool" where
  "interval_overlaps_merged start stop merged =
     (let left = overlap_search start merged 0 (length merged) in
      left < length merged \<and> fst (merged ! left) < stop)"

definition compose_sort_key ::
  "diagnostic_span \<Rightarrow> nat \<times> nat \<times> nat \<times> ustr \<times> ustr \<times> ustr \<times> ustr" where
  "compose_sort_key span =
     (dx_byte_start span, dx_byte_end span, severity_rank (dx_severity span), dx_source span, dx_code span,
      dx_message span, dp_package_prefix (dx_provenance span))"

definition compose_diagnostic_spans :: "diagnostic_span list \<Rightarrow> diagnostic_span list" where
  "compose_diagnostic_spans spans =
     (let ordered = sort_key compose_sort_key spans;
          suppressors = merge_half_open_intervals
            (map (\<lambda>span. (dx_byte_start span, dx_byte_end span)) (filter is_analyzer_error_or_warning ordered))
      in filter (\<lambda>span.
           if dx_source span \<noteq> tree_sitter_diagnostic_source then True
           else \<not> interval_overlaps_merged (dx_byte_start span) (dx_byte_end span) suppressors) ordered)"

section \<open>Validation\<close>

definition diagnostic_max_spans_per_set :: nat where "diagnostic_max_spans_per_set = 128"
definition diagnostic_max_code_bytes :: nat where "diagnostic_max_code_bytes = 128"
definition diagnostic_max_message_bytes :: nat where "diagnostic_max_message_bytes = 1024"
definition diagnostic_max_source_bytes :: nat where "diagnostic_max_source_bytes = 128"
definition diagnostic_max_provenance_field_bytes :: nat where "diagnostic_max_provenance_field_bytes = 256"
definition diagnostic_payload_budget_bytes :: nat where "diagnostic_payload_budget_bytes = 8192"

datatype diagnostic_error =
    Diagnostic_MissingPermission ustr
  | Diagnostic_StaleDocumentVersion nat nat
  | Diagnostic_InvalidViewportRange
  | Diagnostic_TooManySpans nat nat
  | Diagnostic_InvalidSpanRange nat
  | Diagnostic_SpanOutsideViewport nat
  | Diagnostic_EmptyField "nat option" string
  | Diagnostic_FieldTooLong "nat option" string nat nat
  | Diagnostic_ControlCharacter "nat option" string
  | Diagnostic_SourceMismatch nat
  | Diagnostic_PackageProvenanceMismatch "nat option"
  | Diagnostic_PayloadBudgetExceeded nat nat
  | Diagnostic_CacheBudgetExceeded nat nat
  | Diagnostic_SerializationFailed

definition validate_field :: "nat option \<Rightarrow> string \<Rightarrow> ustr \<Rightarrow> nat \<Rightarrow> diagnostic_error + unit" where
  "validate_field index field value limit =
    (if blank value then Inl (Diagnostic_EmptyField index field)
     else if byte_len value > limit then Inl (Diagnostic_FieldTooLong index field (byte_len value) limit)
     else if list_ex is_control value then Inl (Diagnostic_ControlCharacter index field)
     else Inr ())"

definition validate_provenance :: "nat option \<Rightarrow> decoration_provenance \<Rightarrow> diagnostic_error + unit" where
  "validate_provenance index provenance =
     bind_result (validate_field index ''package_name'' (dp_package_name provenance)
                    diagnostic_max_provenance_field_bytes) (\<lambda>_.
     bind_result (validate_field index ''package_version'' (dp_package_version provenance)
                    diagnostic_max_provenance_field_bytes) (\<lambda>_.
     validate_field index ''package_prefix'' (dp_package_prefix provenance)
       diagnostic_max_provenance_field_bytes))"

definition validate_package_provenance ::
  "nat option \<Rightarrow> decoration_provenance \<Rightarrow> package_record \<Rightarrow> diagnostic_error + unit" where
  "validate_package_provenance index provenance package =
     (if \<not> provenance_of_record provenance package then Inl (Diagnostic_PackageProvenanceMismatch index)
      else Inr ())"

definition validate_optional_package ::
  "nat option \<Rightarrow> decoration_provenance \<Rightarrow> package_record option \<Rightarrow> diagnostic_error + unit" where
  "validate_optional_package index provenance package =
     (case package of None \<Rightarrow> Inr () | Some p \<Rightarrow> validate_package_provenance index provenance p)"

text \<open>One turn of the loop over the spans.\<close>

definition validate_diagnostic_span ::
  "package_record option \<Rightarrow> diagnostic_set \<Rightarrow> nat \<Rightarrow> diagnostic_span \<Rightarrow> diagnostic_error + unit" where
  "validate_diagnostic_span package s index span =
    (if dx_byte_start span \<ge> dx_byte_end span then Inl (Diagnostic_InvalidSpanRange index)
     else if dx_byte_start span < dg_viewport_byte_start s \<or> dx_byte_end span > dg_viewport_byte_end s
     then Inl (Diagnostic_SpanOutsideViewport index)
     else
       bind_result (validate_field (Some index) ''code'' (dx_code span) diagnostic_max_code_bytes) (\<lambda>_.
       bind_result (validate_field (Some index) ''message'' (dx_message span) diagnostic_max_message_bytes) (\<lambda>_.
       bind_result (validate_field (Some index) ''source'' (dx_source span) diagnostic_max_source_bytes) (\<lambda>_.
       if dx_source span \<noteq> dg_source s then Inl (Diagnostic_SourceMismatch index)
       else
         bind_result (validate_provenance (Some index) (dx_provenance span)) (\<lambda>_.
         if dx_provenance span \<noteq> dg_provenance s then Inl (Diagnostic_PackageProvenanceMismatch (Some index))
         else validate_optional_package (Some index) (dx_provenance span) package)))))"

fun validate_diagnostic_spans ::
  "package_record option \<Rightarrow> diagnostic_set \<Rightarrow> nat \<Rightarrow> diagnostic_span list \<Rightarrow> diagnostic_error + unit" where
  "validate_diagnostic_spans package s index [] = Inr ()"
| "validate_diagnostic_spans package s index (span # spans) =
     bind_result (validate_diagnostic_span package s index span) (\<lambda>_.
     validate_diagnostic_spans package s (index + 1) spans)"

definition validate_diagnostic_set ::
  "(diagnostic_set \<Rightarrow> nat option) \<Rightarrow> nat \<Rightarrow> diagnostic_set \<Rightarrow> package_record option
    \<Rightarrow> diagnostic_error + diagnostic_set" where
  "validate_diagnostic_set wire current_document_version s package =
    (if dg_document_version s \<noteq> current_document_version
     then Inl (Diagnostic_StaleDocumentVersion (dg_document_version s) current_document_version)
     else if dg_viewport_byte_start s > dg_viewport_byte_end s then Inl Diagnostic_InvalidViewportRange
     else if length (dg_spans s) > diagnostic_max_spans_per_set
     then Inl (Diagnostic_TooManySpans (length (dg_spans s)) diagnostic_max_spans_per_set)
     else
       bind_result (validate_field None ''source'' (dg_source s) diagnostic_max_source_bytes) (\<lambda>_.
       bind_result (validate_provenance None (dg_provenance s)) (\<lambda>_.
       bind_result (validate_optional_package None (dg_provenance s) package) (\<lambda>_.
       bind_result (validate_diagnostic_spans package s 0 (dg_spans s)) (\<lambda>_.
       let ordered = diagnostic_sorted s in
       case wire ordered of
         None \<Rightarrow> Inl Diagnostic_SerializationFailed
       | Some bytes \<Rightarrow>
           if bytes > diagnostic_payload_budget_bytes
           then Inl (Diagnostic_PayloadBudgetExceeded bytes diagnostic_payload_budget_bytes)
           else Inr ordered)))))"

definition validate_diagnostic_publication ::
  "(diagnostic_set \<Rightarrow> nat option) \<Rightarrow> package_record \<Rightarrow> nat \<Rightarrow> diagnostic_set
    \<Rightarrow> diagnostic_error + diagnostic_set" where
  "validate_diagnostic_publication wire package current_document_version s =
    (if RenderDecorations \<notin> set (cm_permissions (record_clay package))
     then Inl (Diagnostic_MissingPermission (cm_api_prefix (record_clay package)))
     else validate_diagnostic_set wire current_document_version s (Some package))"

section \<open>What the checks guarantee\<close>

definition field_ok :: "ustr \<Rightarrow> nat \<Rightarrow> bool" where
  "field_ok value limit \<longleftrightarrow> \<not> blank value \<and> byte_len value \<le> limit \<and> \<not> list_ex is_control value"

definition provenance_ok :: "decoration_provenance \<Rightarrow> bool" where
  "provenance_ok p \<longleftrightarrow> field_ok (dp_package_name p) diagnostic_max_provenance_field_bytes
     \<and> field_ok (dp_package_version p) diagnostic_max_provenance_field_bytes
     \<and> field_ok (dp_package_prefix p) diagnostic_max_provenance_field_bytes"

definition diagnostic_span_ok :: "diagnostic_set \<Rightarrow> diagnostic_span \<Rightarrow> bool" where
  "diagnostic_span_ok s span \<longleftrightarrow>
     dg_viewport_byte_start s \<le> dx_byte_start span \<and> dx_byte_start span < dx_byte_end span
     \<and> dx_byte_end span \<le> dg_viewport_byte_end s
     \<and> field_ok (dx_code span) diagnostic_max_code_bytes
     \<and> field_ok (dx_message span) diagnostic_max_message_bytes
     \<and> dx_source span = dg_source s \<and> dx_provenance span = dg_provenance s"

text \<open>The conditions that do not concern one span.\<close>

definition diagnostic_header_ok :: "nat \<Rightarrow> package_record option \<Rightarrow> diagnostic_set \<Rightarrow> bool" where
  "diagnostic_header_ok current package s \<longleftrightarrow>
     dg_document_version s = current \<and> dg_viewport_byte_start s \<le> dg_viewport_byte_end s
     \<and> length (dg_spans s) \<le> diagnostic_max_spans_per_set
     \<and> field_ok (dg_source s) diagnostic_max_source_bytes \<and> provenance_ok (dg_provenance s)
     \<and> (case package of None \<Rightarrow> True | Some p \<Rightarrow> provenance_of_record (dg_provenance s) p)"

lemma validate_field_Inr: "validate_field index field value limit = Inr u \<longleftrightarrow> field_ok value limit"
  by (auto simp: validate_field_def field_ok_def)

lemma validate_provenance_Inr: "validate_provenance index p = Inr u \<longleftrightarrow> provenance_ok p"
  by (auto simp: validate_provenance_def provenance_ok_def bind_result_Inr validate_field_Inr)

lemma validate_optional_package_Inr:
  "validate_optional_package index p package = Inr u \<longleftrightarrow>
     (case package of None \<Rightarrow> True | Some r \<Rightarrow> provenance_of_record p r)"
  by (auto simp: validate_optional_package_def validate_package_provenance_def split: option.splits)

lemma validate_diagnostic_span_Inr:
  assumes "diagnostic_header_ok current package s"
  shows "validate_diagnostic_span package s index span = Inr u \<longleftrightarrow> diagnostic_span_ok s span"
  using assms
  by (auto simp: validate_diagnostic_span_def diagnostic_header_ok_def diagnostic_span_ok_def bind_result_Inr
      validate_field_Inr validate_provenance_Inr validate_optional_package_Inr)

lemma validate_diagnostic_spans_Inr:
  assumes "diagnostic_header_ok current package s"
  shows "validate_diagnostic_spans package s index spans = Inr u \<longleftrightarrow>
     (\<forall>span\<in>set spans. diagnostic_span_ok s span)"
  by (induction spans arbitrary: index)
    (auto simp: bind_result_Inr validate_diagnostic_span_Inr[OF assms])

lemma validate_diagnostic_set_Inr:
  "validate_diagnostic_set wire current s package = Inr s' \<longleftrightarrow>
     diagnostic_header_ok current package s \<and> (\<forall>span\<in>set (dg_spans s). diagnostic_span_ok s span)
     \<and> s' = diagnostic_sorted s
     \<and> (\<exists>bytes. wire s' = Some bytes \<and> bytes \<le> diagnostic_payload_budget_bytes)"
proof (cases "diagnostic_header_ok current package s")
  case True
  then show ?thesis
    using validate_diagnostic_spans_Inr[OF True]
    by (auto simp: validate_diagnostic_set_def diagnostic_header_ok_def bind_result_Inr validate_field_Inr
        validate_provenance_Inr validate_optional_package_Inr Let_def split: option.splits if_splits)
next
  case False
  then show ?thesis
    by (auto simp: validate_diagnostic_set_def diagnostic_header_ok_def bind_result_Inr validate_field_Inr
        validate_provenance_Inr validate_optional_package_Inr Let_def split: if_splits)
qed

lemma diagnostic_sorted_fields [simp]:
  "dg_document_id (diagnostic_sorted s) = dg_document_id s"
  "dg_document_version (diagnostic_sorted s) = dg_document_version s"
  "dg_viewport_byte_start (diagnostic_sorted s) = dg_viewport_byte_start s"
  "dg_viewport_byte_end (diagnostic_sorted s) = dg_viewport_byte_end s"
  "dg_source (diagnostic_sorted s) = dg_source s"
  "dg_provenance (diagnostic_sorted s) = dg_provenance s"
  "set (dg_spans (diagnostic_sorted s)) = set (dg_spans s)"
  by (simp_all add: diagnostic_sorted_def)

section \<open>The composition is its documented rule\<close>

definition covers :: "(nat \<times> nat) list \<Rightarrow> nat \<Rightarrow> bool" where
  "covers intervals p \<longleftrightarrow> (\<exists>i\<in>set intervals. fst i \<le> p \<and> p < snd i)"

abbreviation proper :: "nat \<times> nat \<Rightarrow> bool" where
  "proper i \<equiv> fst i < snd i"

definition separated :: "(nat \<times> nat) list \<Rightarrow> bool" where
  "separated intervals \<longleftrightarrow> (\<forall>i\<in>set intervals. proper i) \<and> sorted_wrt (\<lambda>i j. snd i \<le> fst j) intervals"

lemma merge_intervals_loop_facts:
  assumes "proper current" "\<forall>i\<in>set intervals. proper i" "sorted (map fst (current # intervals))"
  shows "separated (merge_intervals_loop current intervals)
    \<and> covers (merge_intervals_loop current intervals) = covers (current # intervals)
    \<and> (\<forall>i\<in>set (merge_intervals_loop current intervals). fst current \<le> fst i)"
  using assms
proof (induction current intervals rule: merge_intervals_loop.induct)
  case (1 current)
  then show ?case by (simp add: separated_def)
next
  case (2 current nxt intervals)
  show ?case
  proof (cases "fst nxt < snd current")
    case True
    let ?c = "(fst current, max (snd current) (snd nxt))"
    have IH: "separated (merge_intervals_loop ?c intervals)"
      "covers (merge_intervals_loop ?c intervals) = covers (?c # intervals)"
      "\<forall>i\<in>set (merge_intervals_loop ?c intervals). fst current \<le> fst i"
      using 2(1)[OF True] "2.prems" by auto
    have "covers (?c # intervals) = covers (current # nxt # intervals)"
      using True "2.prems" by (auto simp: covers_def fun_eq_iff)
    then show ?thesis using True IH by simp
  next
    case False
    have IH: "separated (merge_intervals_loop nxt intervals)"
      "covers (merge_intervals_loop nxt intervals) = covers (nxt # intervals)"
      "\<forall>i\<in>set (merge_intervals_loop nxt intervals). fst nxt \<le> fst i"
      using 2(2)[OF False] "2.prems" by auto
    have "separated (current # merge_intervals_loop nxt intervals)"
      using False IH(1,3) "2.prems"(1) by (fastforce simp: separated_def)
    then show ?thesis
      using False IH(2,3) "2.prems" by (fastforce simp: covers_def fun_eq_iff)
  qed
qed

lemma sorted_firsts: "sorted xs \<Longrightarrow> sorted (map fst xs)" for xs :: "(nat \<times> nat) list"
  by (induction xs) (auto simp: less_eq_prod_def)

lemma merge_half_open_intervals_facts:
  assumes "\<forall>i\<in>set intervals. proper i"
  shows "separated (merge_half_open_intervals intervals)
    \<and> covers (merge_half_open_intervals intervals) = covers intervals"
proof (cases "sort intervals")
  case Nil
  then have "intervals = []" by (metis length_0_conv length_sort)
  then show ?thesis by (simp add: merge_half_open_intervals_def separated_def)
next
  case (Cons current rest)
  have same: "set (current # rest) = set intervals" by (metis Cons set_sort)
  moreover have "sorted (map fst (current # rest))"
    using sorted_firsts[of "sort intervals"] sorted_sort[of intervals] unfolding Cons by blast
  ultimately have "separated (merge_intervals_loop current rest)
      \<and> covers (merge_intervals_loop current rest) = covers (current # rest)"
    using assms merge_intervals_loop_facts[of current rest] by auto
  moreover have "covers (current # rest) = covers intervals"
    using same by (simp add: covers_def fun_eq_iff del: set_simps)
  ultimately show ?thesis using Cons by (simp add: merge_half_open_intervals_def)
qed

text \<open>The bisection finds the first interval that ends after \<open>start\<close>.\<close>

lemma separated_ends_mono:
  assumes "separated xs" "i \<le> j" "j < length xs"
  shows "snd (xs ! i) \<le> snd (xs ! j) \<and> fst (xs ! i) \<le> fst (xs ! j)"
proof (cases "i = j")
  case False
  then have "snd (xs ! i) \<le> fst (xs ! j)"
    using assms by (auto simp: separated_def sorted_wrt_iff_nth_less)
  moreover have "proper (xs ! i)" "proper (xs ! j)"
    using assms by (auto simp: separated_def)
  ultimately show ?thesis by linarith
qed simp

lemma overlap_search_first:
  assumes "separated merged" "left \<le> right" "right \<le> length merged"
    and "\<forall>i<left. snd (merged ! i) \<le> start"
    and "\<forall>i. right \<le> i \<and> i < length merged \<longrightarrow> start < snd (merged ! i)"
  shows "(\<forall>i<overlap_search start merged left right. snd (merged ! i) \<le> start)
    \<and> (\<forall>i. overlap_search start merged left right \<le> i \<and> i < length merged \<longrightarrow> start < snd (merged ! i))"
  using assms
proof (induction start merged left right rule: overlap_search.induct)
  case (1 start merged left right)
  show ?case
  proof (cases "left < right")
    case False
    then have "overlap_search start merged left right = left"
      by (simp add: overlap_search.simps[of start merged left right])
    then show ?thesis using "1.prems" False by simp
  next
    case True
    define mid where "mid = left + (right - left) div 2"
    have mid: "left \<le> mid" "mid < right" using True by (auto simp: mid_def)
    show ?thesis
    proof (cases "snd (merged ! mid) \<le> start")
      case high: True
      have "\<forall>i<mid + 1. snd (merged ! i) \<le> start"
      proof (intro allI impI)
        fix i assume "i < mid + 1"
        then have "snd (merged ! i) \<le> snd (merged ! mid)"
          using separated_ends_mono[OF "1.prems"(1), of i mid] mid "1.prems"(3) by auto
        then show "snd (merged ! i) \<le> start" using high by simp
      qed
      moreover have "overlap_search start merged left right = overlap_search start merged (mid + 1) right"
        using True high by (subst overlap_search.simps) (simp add: mid_def)
      ultimately show ?thesis
        using 1(1)[OF True mid_def high "1.prems"(1) _ "1.prems"(3) _ "1.prems"(5)] mid(2) by simp
    next
      case low: False
      have "\<forall>i. mid \<le> i \<and> i < length merged \<longrightarrow> start < snd (merged ! i)"
      proof (intro allI impI)
        fix i assume "mid \<le> i \<and> i < length merged"
        then have "snd (merged ! mid) \<le> snd (merged ! i)"
          using separated_ends_mono[OF "1.prems"(1), of mid i] by auto
        then show "start < snd (merged ! i)" using low by simp
      qed
      moreover have "overlap_search start merged left right = overlap_search start merged left mid"
        using True low by (subst overlap_search.simps) (simp add: mid_def)
      ultimately show ?thesis
        using 1(2)[OF True mid_def low "1.prems"(1) mid(1) _ "1.prems"(4)] "1.prems"(3) mid(2) by simp
    qed
  qed
qed

lemma interval_overlaps_merged_iff:
  assumes "separated merged"
  shows "interval_overlaps_merged start stop merged \<longleftrightarrow> (\<exists>i\<in>set merged. fst i < stop \<and> start < snd i)"
proof -
  define k where "k = overlap_search start merged 0 (length merged)"
  have first: "\<forall>i<k. snd (merged ! i) \<le> start"
    "\<forall>i. k \<le> i \<and> i < length merged \<longrightarrow> start < snd (merged ! i)"
    using overlap_search_first[OF assms, of 0 "length merged" start] by (simp_all add: k_def)
  have "(\<exists>i<length merged. fst (merged ! i) < stop \<and> start < snd (merged ! i))
      \<longleftrightarrow> k < length merged \<and> fst (merged ! k) < stop"
  proof
    assume "\<exists>i<length merged. fst (merged ! i) < stop \<and> start < snd (merged ! i)"
    then obtain i where i: "i < length merged" "fst (merged ! i) < stop" "start < snd (merged ! i)" by blast
    then have "k \<le> i" using first(1) by (meson not_le)
    then show "k < length merged \<and> fst (merged ! k) < stop"
      using i separated_ends_mono[OF assms \<open>k \<le> i\<close>] by auto
  next
    assume "k < length merged \<and> fst (merged ! k) < stop"
    then show "\<exists>i<length merged. fst (merged ! i) < stop \<and> start < snd (merged ! i)"
      using first(2) by blast
  qed
  moreover have "(\<exists>i\<in>set merged. fst i < stop \<and> start < snd i)
      \<longleftrightarrow> (\<exists>i<length merged. fst (merged ! i) < stop \<and> start < snd (merged ! i))"
    by (metis in_set_conv_nth)
  ultimately show ?thesis by (simp add: interval_overlaps_merged_def Let_def k_def)
qed

lemma overlap_as_covers:
  assumes "\<forall>i\<in>set xs. proper i" "start < stop"
  shows "(\<exists>i\<in>set xs. fst i < stop \<and> start < snd i) \<longleftrightarrow> (\<exists>p. start \<le> p \<and> p < stop \<and> covers xs p)"
proof
  assume "\<exists>i\<in>set xs. fst i < stop \<and> start < snd i"
  then obtain i where i: "i \<in> set xs" "fst i < stop" "start < snd i" by blast
  then have "start \<le> max start (fst i) \<and> max start (fst i) < stop \<and> covers xs (max start (fst i))"
    using assms by (auto simp: covers_def intro!: bexI[of _ i])
  then show "\<exists>p. start \<le> p \<and> p < stop \<and> covers xs p" by blast
next
  assume "\<exists>p. start \<le> p \<and> p < stop \<and> covers xs p"
  then show "\<exists>i\<in>set xs. fst i < stop \<and> start < snd i" by (force simp: covers_def)
qed

text \<open>The rule: an analyzer's error or warning hides the recovery spans it overlaps.\<close>

definition hides :: "diagnostic_span \<Rightarrow> diagnostic_span \<Rightarrow> bool" where
  "hides t span \<longleftrightarrow> is_analyzer_error_or_warning t \<and> dx_source span = tree_sitter_diagnostic_source
     \<and> dx_byte_start t < dx_byte_end span \<and> dx_byte_start span < dx_byte_end t"

lemma suppressors_overlap:
  assumes "\<forall>span\<in>set spans. dx_byte_start span < dx_byte_end span" "start < stop"
  shows "interval_overlaps_merged start stop (merge_half_open_intervals
       (map (\<lambda>span. (dx_byte_start span, dx_byte_end span)) (filter is_analyzer_error_or_warning spans)))
     \<longleftrightarrow> (\<exists>t\<in>set spans. is_analyzer_error_or_warning t \<and> dx_byte_start t < stop \<and> start < dx_byte_end t)"
proof -
  let ?xs = "map (\<lambda>span. (dx_byte_start span, dx_byte_end span)) (filter is_analyzer_error_or_warning spans)"
  have proper: "\<forall>i\<in>set ?xs. proper i" using assms(1) by auto
  note merged = merge_half_open_intervals_facts[OF proper]
  then have "\<forall>i\<in>set (merge_half_open_intervals ?xs). proper i" by (simp add: separated_def)
  from overlap_as_covers[OF this assms(2)] overlap_as_covers[OF proper assms(2)] merged
  show ?thesis by (simp add: interval_overlaps_merged_iff) (auto)
qed

lemma compose_diagnostic_spans_rule:
  assumes "\<forall>span\<in>set spans. dx_byte_start span < dx_byte_end span"
  shows "compose_diagnostic_spans spans =
     sort_key compose_sort_key (filter (\<lambda>span. \<not> (\<exists>t\<in>set spans. hides t span)) spans)"
proof -
  have keep: "(if dx_source span \<noteq> tree_sitter_diagnostic_source then True
      else \<not> interval_overlaps_merged (dx_byte_start span) (dx_byte_end span) (merge_half_open_intervals
       (map (\<lambda>span. (dx_byte_start span, dx_byte_end span))
         (filter is_analyzer_error_or_warning (sort_key compose_sort_key spans)))))
    \<longleftrightarrow> \<not> (\<exists>t\<in>set spans. hides t span)" if "span \<in> set spans" for span
    using that assms suppressors_overlap[of "sort_key compose_sort_key spans" "dx_byte_start span" "dx_byte_end span"]
    by (auto simp: hides_def)
  have "compose_diagnostic_spans spans =
      filter (\<lambda>span. \<not> (\<exists>t\<in>set spans. hides t span)) (sort_key compose_sort_key spans)"
    unfolding compose_diagnostic_spans_def Let_def by (rule filter_cong) (use keep in auto)
  then show ?thesis by (simp add: filter_sort)
qed

end
