(* ===== verification/Parse_Requests.thy ===== *)
theory Parse_Requests imports Document_Windows Diagnostic_Sets begin

text \<open>
  Requests for parse work: the messages of \<open>protocol/parse.rs\<close> and \<open>server/parse_coordinator.rs\<close>, the
  checks a request passes before a package handler sees any text (\<open>validate_request_ranges\<close>,
  \<open>validate_parse_policy\<close>, \<open>validate_window_snapshots\<close>), and the code of \<open>server/connection.rs\<close> that builds
  requests from documents (\<open>schedule_parse_window\<close>, \<open>schedule_parse_snapshot\<close>).

  The lemmas characterise the checks, and relate the windows of \<open>Document_Windows\<close> to them.
\<close>

section \<open>Messages\<close>

datatype parse_unit = File_Unit | Region_Unit | LineGroup_Unit

record parse_notification =
  pn_document_id :: nat
  pn_document_version :: nat
  pn_behavior_version :: nat
  pn_package_prefix :: ustr
  pn_mode_id :: ustr
  pn_viewport :: parse_byte_range
  pn_invalidated_ranges :: "parse_byte_range list"
  pn_accepted_edit :: "parse_input_edit option"
  pn_parse_windows :: "parse_window_snapshot list"
  pn_memory_budget :: "syntax_memory_budget option"

record parse_update =
  pu_document_id :: nat
  pu_document_version :: nat
  pu_behavior_version :: nat
  pu_package_prefix :: ustr
  pu_mode_id :: ustr
  pu_parse_unit :: parse_unit
  pu_viewport :: parse_byte_range
  pu_invalidated_ranges :: "parse_byte_range list"
  pu_syntax_tree_delta :: "ustr option"
  pu_decoration_updates :: "decoration_set list"
  pu_diagnostic_update :: "diagnostic_set option"

record schedule_request =
  sr_document_id :: nat
  sr_document_version :: nat
  sr_behavior_version :: nat
  sr_package_prefix :: ustr
  sr_mode_id :: ustr
  sr_viewport :: parse_byte_range
  sr_invalidated_ranges :: "parse_byte_range list"
  sr_accepted_edit :: "parse_input_edit option"

text \<open>
  A \<open>HandlerFailed\<close> carries a message; the two that \<open>validate_update\<close> formats carry the error they print.
\<close>

datatype handler_failure =
    Handler_Message ustr
  | Decoration_Invalid decoration_error
  | Diagnostic_Invalid diagnostic_error

datatype parse_error =
    Parse_MissingPermission ustr
  | Parse_HandlerAlreadyRegistered ustr ustr
  | Parse_HandlerNotRegistered ustr ustr
  | Parse_InvalidViewportRange
  | Parse_InvalidatedRangeInvalid nat
  | Parse_InvalidAcceptedEdit
  | Parse_InvalidParsePolicy
  | Parse_InvalidWindowRange nat
  | Parse_WindowMetadataMismatch nat
  | Parse_WindowTextLengthMismatch nat nat nat
  | Parse_WindowTooLarge nat nat nat
  | Parse_WindowBudgetExceeded nat nat
  | Parse_StaleDocumentVersion nat nat
  | Parse_ProvenanceMismatch
  | Parse_DecorationVersionMismatch nat nat
  | Parse_DiagnosticMetadataMismatch
  | Parse_PayloadBudgetExceeded nat nat
  | Parse_SerializationFailed
  | Parse_ResultChannelClosed
  | Parse_HandlerFailed handler_failure
  | Parse_StaleRuntimeGeneration nat nat

definition into_notification :: "schedule_request \<Rightarrow> parse_notification" where
  "into_notification request =
     \<lparr>pn_document_id = sr_document_id request, pn_document_version = sr_document_version request,
      pn_behavior_version = sr_behavior_version request, pn_package_prefix = sr_package_prefix request,
      pn_mode_id = sr_mode_id request, pn_viewport = sr_viewport request,
      pn_invalidated_ranges = sort_key
        (\<lambda>r. (\<not> range_intersects r (sr_viewport request), pr_start r, pr_end r)) (sr_invalidated_ranges request),
      pn_accepted_edit = sr_accepted_edit request, pn_parse_windows = [], pn_memory_budget = None\<rparr>"

section \<open>The checks of a request\<close>

fun invalid_range_index :: "nat \<Rightarrow> parse_byte_range list \<Rightarrow> nat option" where
  "invalid_range_index index [] = None"
| "invalid_range_index index (r # rs) =
     (if \<not> range_is_valid r then Some index else invalid_range_index (index + 1) rs)"

definition validate_request_ranges :: "schedule_request \<Rightarrow> parse_error + unit" where
  "validate_request_ranges request =
     (if \<not> range_is_valid (sr_viewport request) then Inl Parse_InvalidViewportRange
      else case invalid_range_index 0 (sr_invalidated_ranges request) of
        Some index \<Rightarrow> Inl (Parse_InvalidatedRangeInvalid index)
      | None \<Rightarrow>
          if (case sr_accepted_edit request of
                None \<Rightarrow> False
              | Some edit \<Rightarrow> \<not> edit_is_valid edit \<or> pe_document_version edit \<noteq> sr_document_version request)
          then Inl Parse_InvalidAcceptedEdit
          else Inr ())"

definition validate_parse_policy :: "parse_policy option \<Rightarrow> parse_error + unit" where
  "validate_parse_policy policy =
     (case policy of
        None \<Rightarrow> Inr ()
      | Some policy \<Rightarrow>
          if po_max_window_bytes policy = 0 \<or> po_memory_budget_bytes policy = 0
             \<or> po_memory_budget_bytes policy > syntax_cache_budget_bytes
             \<or> po_max_window_bytes policy > po_memory_budget_bytes policy
             \<or> po_timeout_ms policy = 0 \<or> po_timeout_ms policy > 5000
          then Inl Parse_InvalidParsePolicy
          else Inr ())"

text \<open>\<open>str::get(..offset)\<close>: \<open>None\<close> unless the offset is a boundary of the text.\<close>

definition text_get_prefix :: "ustr \<Rightarrow> nat \<Rightarrow> ustr option" where
  "text_get_prefix t offset = (if is_boundary t offset then Some (text_slice t 0 offset) else None)"

definition point_at_window_offset :: "parse_window_snapshot \<Rightarrow> nat \<Rightarrow> parse_point option" where
  "point_at_window_offset window offset = do {
     offset \<leftarrow> try_usize offset;
     prefix \<leftarrow> text_get_prefix (pw_text window) offset;
     let newline_count = count_list prefix newline;
     if newline_count = 0
     then Some \<lparr>pp_row = pw_base_line window, pp_column = wrap_add (pw_base_column window) offset\<rparr>
     else do {
       (_, trailing) \<leftarrow> rsplit_newline prefix;
       Some \<lparr>pp_row = wrap_add (pw_base_line window) newline_count, pp_column = byte_len trailing\<rparr>
     }
   }"

text \<open>The casts to \<open>i128\<close> are exact; \<open>old_window_bytes as u64\<close> is guarded by the range check before it.\<close>

definition edit_fits_window :: "parse_input_edit \<Rightarrow> parse_window_snapshot \<Rightarrow> nat \<Rightarrow> nat \<Rightarrow> bool" where
  "edit_fits_window edit window current_window_bytes max_window_bytes =
     (case edit_relative_to_window edit window of
        None \<Rightarrow> False
      | Some relative \<Rightarrow>
          let delta = int (pe_new_end_byte relative) - int (pe_old_end_byte relative);
              old_window_bytes = int current_window_bytes - delta in
          if \<not> (0 \<le> old_window_bytes \<and> old_window_bytes \<le> int max_window_bytes)
             \<or> int (pe_old_end_byte relative) > old_window_bytes
             \<or> pe_new_end_byte relative > current_window_bytes
          then False
          else point_at_window_offset window (pe_start_byte relative) = Some (pe_start_position edit)
             \<and> point_at_window_offset window (pe_new_end_byte relative) = Some (pe_new_end_position edit))"

text \<open>One turn of the loop over the windows: the bytes of the window, or the error.\<close>

definition validate_window_snapshot ::
  "schedule_request \<Rightarrow> nat \<Rightarrow> nat \<Rightarrow> parse_window_snapshot \<Rightarrow> parse_error + nat" where
  "validate_window_snapshot request max_window_bytes index snapshot =
    (if pw_document_id snapshot \<noteq> sr_document_id request
        \<or> pw_document_version snapshot \<noteq> sr_document_version request
        \<or> pw_package_prefix snapshot \<noteq> sr_package_prefix request
        \<or> pw_mode_id snapshot \<noteq> sr_mode_id request
        \<or> pw_window_id snapshot \<noteq> pw_byte_start snapshot
     then Inl (Parse_WindowMetadataMismatch index)
     else if \<not> range_is_valid (window_byte_range snapshot) then Inl (Parse_InvalidWindowRange index)
     else
       let actual = byte_len (pw_text snapshot) in
       bind_result (ok_or (try_usize (range_len (window_byte_range snapshot)))
                      (Parse_WindowTextLengthMismatch index u64_max actual)) (\<lambda>expected.
       if actual \<noteq> expected then Inl (Parse_WindowTextLengthMismatch index expected actual)
       else if actual > max_window_bytes then Inl (Parse_WindowTooLarge index actual max_window_bytes)
       else if pw_incremental_edit snapshot
          \<and> \<not> (case sr_accepted_edit request of
                  None \<Rightarrow> False
                | Some edit \<Rightarrow> edit_fits_window edit snapshot actual max_window_bytes)
       then Inl Parse_InvalidAcceptedEdit
       else Inr actual))"

fun validate_window_snapshots_loop ::
  "schedule_request \<Rightarrow> nat \<Rightarrow> nat \<Rightarrow> nat \<Rightarrow> parse_window_snapshot list \<Rightarrow> parse_error + nat" where
  "validate_window_snapshots_loop request max_window_bytes index total_bytes [] = Inr total_bytes"
| "validate_window_snapshots_loop request max_window_bytes index total_bytes (snapshot # snapshots) =
     bind_result (validate_window_snapshot request max_window_bytes index snapshot) (\<lambda>actual.
     validate_window_snapshots_loop request max_window_bytes (index + 1) (sat_add total_bytes actual) snapshots)"

definition policy_max_window_bytes :: "parse_policy option \<Rightarrow> nat" where
  "policy_max_window_bytes policy =
     (case policy of None \<Rightarrow> syntax_cache_budget_bytes | Some p \<Rightarrow> po_max_window_bytes p)"

definition policy_memory_budget_bytes :: "parse_policy option \<Rightarrow> nat" where
  "policy_memory_budget_bytes policy =
     (case policy of None \<Rightarrow> syntax_cache_budget_bytes | Some p \<Rightarrow> po_memory_budget_bytes p)"

definition validate_window_snapshots ::
  "schedule_request \<Rightarrow> parse_window_snapshot list \<Rightarrow> parse_policy option \<Rightarrow> parse_error + unit" where
  "validate_window_snapshots request parse_windows policy =
     bind_result (validate_window_snapshots_loop request (policy_max_window_bytes policy) 0 0 parse_windows)
       (\<lambda>total_bytes.
     if total_bytes > policy_memory_budget_bytes policy
     then Inl (Parse_WindowBudgetExceeded total_bytes (policy_memory_budget_bytes policy))
     else Inr ())"

text \<open>The three checks at the head of \<open>schedule_parse_with_windows\<close>.\<close>

definition validate_schedule ::
  "schedule_request \<Rightarrow> parse_window_snapshot list \<Rightarrow> parse_policy option \<Rightarrow> parse_error + unit" where
  "validate_schedule request parse_windows policy =
     bind_result (validate_request_ranges request) (\<lambda>_.
     bind_result (validate_parse_policy policy) (\<lambda>_.
     validate_window_snapshots request parse_windows policy))"

section \<open>Requests the server makes\<close>

definition clamp :: "nat \<Rightarrow> nat \<Rightarrow> nat \<Rightarrow> nat" where
  "clamp x low high = (if x < low then low else if x > high then high else x)"

definition edited_range :: "parse_input_edit \<Rightarrow> parse_byte_range \<Rightarrow> parse_byte_range" where
  "edited_range edit window =
     (let s = clamp (pe_start_byte edit) (pr_start window) (pr_end window);
          e = clamp (pe_new_end_byte edit) s (pr_end window) in
      if s = e then
        if e < pr_end window then \<lparr>pr_start = s, pr_end = e + 1\<rparr>
        else if s > pr_start window then \<lparr>pr_start = s - 1, pr_end = s\<rparr>
        else \<lparr>pr_start = s, pr_end = e\<rparr>
      else \<lparr>pr_start = s, pr_end = e\<rparr>)"

text \<open>The request of \<open>schedule_parse_snapshot\<close>, for a document's identifier and version.\<close>

definition snapshot_request ::
  "nat \<Rightarrow> nat \<Rightarrow> nat \<Rightarrow> parse_window_snapshot \<Rightarrow> parse_byte_range \<Rightarrow> parse_input_edit option
    \<Rightarrow> schedule_request" where
  "snapshot_request document_id version behavior_version window viewport accepted_edit =
     \<lparr>sr_document_id = document_id, sr_document_version = version, sr_behavior_version = behavior_version,
      sr_package_prefix = pw_package_prefix window, sr_mode_id = pw_mode_id window, sr_viewport = viewport,
      sr_invalidated_ranges = (case accepted_edit of
          None \<Rightarrow> [viewport]
        | Some edit \<Rightarrow> [edited_range edit viewport]),
      sr_accepted_edit = accepted_edit\<rparr>"

text \<open>\<open>floor_char_boundary\<close> and \<open>ceil_char_boundary\<close> of \<open>server/connection.rs\<close>, on a string.\<close>

fun str_floor_char_boundary :: "ustr \<Rightarrow> nat \<Rightarrow> nat" where
  "str_floor_char_boundary txt 0 = 0"
| "str_floor_char_boundary txt (Suc offset) =
     (if is_boundary txt (Suc offset) then Suc offset else str_floor_char_boundary txt offset)"

function str_ceil_char_boundary :: "ustr \<Rightarrow> nat \<Rightarrow> nat" where
  "str_ceil_char_boundary txt offset =
     (if offset < byte_len txt \<and> \<not> is_boundary txt offset then str_ceil_char_boundary txt (offset + 1)
      else offset)"
  by pat_completeness auto
termination
  by (relation "measure (\<lambda>(txt, offset). byte_len txt - offset)") auto

declare str_ceil_char_boundary.simps [simp del]

definition incremental_parse_update_budget_bytes :: nat where
  "incremental_parse_update_budget_bytes = 4096"

text \<open>
  \<open>schedule_parse_window\<close>: the window and the viewport for a requested range of the text, or \<open>None\<close> when
  the range is empty.
\<close>

definition viewport_parse_window ::
  "nat \<Rightarrow> nat \<Rightarrow> ustr \<Rightarrow> ustr \<Rightarrow> ustr \<Rightarrow> parse_policy \<Rightarrow> parse_byte_range
    \<Rightarrow> (parse_window_snapshot \<times> parse_byte_range) option" where
  "viewport_parse_window document_id version txt package_prefix mode_id policy requested =
    (let text_len = byte_len txt;
         viewport_start = str_floor_char_boundary txt (min (pr_start requested) text_len);
         output_budget = min (po_max_window_bytes policy) incremental_parse_update_budget_bytes;
         viewport_end = str_floor_char_boundary txt
           (min (min (max (pr_end requested) viewport_start) text_len) (sat_add viewport_start output_budget)) in
     if viewport_start \<ge> viewport_end then None
     else
       let viewport = \<lparr>pr_start = viewport_start, pr_end = viewport_end\<rparr>;
           (window_start, window_end) =
             (if text_len \<le> po_max_window_bytes policy then (0, text_len)
              else
                let guard_budget = po_max_window_bytes policy - range_len viewport;
                    before = min (po_guard_bytes policy) (guard_budget div 2);
                    after = min (po_guard_bytes policy) (guard_budget - before);
                    s = str_floor_char_boundary txt (viewport_start - before);
                    e = str_ceil_char_boundary txt (min (sat_add viewport_end after) text_len) in
                if e - s > po_max_window_bytes policy
                then (s, str_floor_char_boundary txt (sat_add s (po_max_window_bytes policy)))
                else (s, e));
           prefix = text_slice txt 0 window_start in
       Some (\<lparr>pw_document_id = document_id, pw_document_version = version, pw_package_prefix = package_prefix,
              pw_mode_id = mode_id, pw_window_id = window_start, pw_byte_start = window_start,
              pw_byte_end = window_end, pw_base_line = count_list prefix newline,
              pw_base_column = (case rsplit_newline prefix of
                  None \<Rightarrow> byte_len prefix
                | Some (_, trailing) \<Rightarrow> byte_len trailing),
              pw_incremental_edit = False, pw_text = text_slice txt window_start window_end\<rparr>, viewport))"

section \<open>What the checks accept\<close>

lemma invalid_range_index_None: "invalid_range_index index rs = None \<longleftrightarrow> (\<forall>r\<in>set rs. range_is_valid r)"
  by (induction rs arbitrary: index) auto

lemma validate_request_ranges_Inr:
  "validate_request_ranges request = Inr u \<longleftrightarrow>
     range_is_valid (sr_viewport request) \<and> (\<forall>r\<in>set (sr_invalidated_ranges request). range_is_valid r)
     \<and> (\<forall>edit. sr_accepted_edit request = Some edit \<longrightarrow>
          edit_is_valid edit \<and> pe_document_version edit = sr_document_version request)"
  using invalid_range_index_None[of 0 "sr_invalidated_ranges request"]
  by (cases "invalid_range_index 0 (sr_invalidated_ranges request)")
    (auto simp: validate_request_ranges_def split: option.splits)

definition policy_ok :: "parse_policy \<Rightarrow> bool" where
  "policy_ok p \<longleftrightarrow> 0 < po_max_window_bytes p \<and> po_max_window_bytes p \<le> po_memory_budget_bytes p
     \<and> po_memory_budget_bytes p \<le> syntax_cache_budget_bytes \<and> 0 < po_timeout_ms p \<and> po_timeout_ms p \<le> 5000"

lemma validate_parse_policy_Inr:
  "validate_parse_policy policy = Inr u \<longleftrightarrow> (\<forall>p. policy = Some p \<longrightarrow> policy_ok p)"
  by (cases policy) (auto simp: validate_parse_policy_def policy_ok_def)

definition snapshot_ok :: "schedule_request \<Rightarrow> nat \<Rightarrow> parse_window_snapshot \<Rightarrow> bool" where
  "snapshot_ok request max_window_bytes w \<longleftrightarrow>
     pw_document_id w = sr_document_id request \<and> pw_document_version w = sr_document_version request
     \<and> pw_package_prefix w = sr_package_prefix request \<and> pw_mode_id w = sr_mode_id request
     \<and> pw_window_id w = pw_byte_start w \<and> pw_byte_start w \<le> pw_byte_end w
     \<and> byte_len (pw_text w) = pw_byte_end w - pw_byte_start w \<and> byte_len (pw_text w) \<le> u64_max
     \<and> byte_len (pw_text w) \<le> max_window_bytes
     \<and> (pw_incremental_edit w \<longrightarrow> (\<exists>edit. sr_accepted_edit request = Some edit
          \<and> edit_fits_window edit w (byte_len (pw_text w)) max_window_bytes))"

lemma validate_window_snapshot_Inr:
  "validate_window_snapshot request max_window_bytes index w = Inr n \<longleftrightarrow>
     snapshot_ok request max_window_bytes w \<and> n = byte_len (pw_text w)"
  by (auto simp: validate_window_snapshot_def snapshot_ok_def Let_def range_is_valid_def window_byte_range_def
      range_len_def try_usize_def split: option.splits)

lemma validate_window_snapshots_loop_Inr:
  "validate_window_snapshots_loop request max_window_bytes index total_bytes ws = Inr n \<longleftrightarrow>
     (\<forall>w\<in>set ws. snapshot_ok request max_window_bytes w)
     \<and> n = fold (\<lambda>w total. sat_add total (byte_len (pw_text w))) ws total_bytes"
  by (induction ws arbitrary: index total_bytes) (auto simp: bind_result_Inr validate_window_snapshot_Inr)

lemma fold_sat_add:
  "k \<le> u64_max \<Longrightarrow> fold (\<lambda>w total. sat_add total (f w)) ws k = min (k + sum_list (map f ws)) u64_max"
  by (induction ws arbitrary: k) (auto simp: sat_add_def)

lemma validate_schedule_Inr:
  "validate_schedule request ws policy = Inr u \<longleftrightarrow>
     validate_request_ranges request = Inr () \<and> (\<forall>p. policy = Some p \<longrightarrow> policy_ok p)
     \<and> (\<forall>w\<in>set ws. snapshot_ok request (policy_max_window_bytes policy) w)
     \<and> sum_list (map (\<lambda>w. byte_len (pw_text w)) ws) \<le> policy_memory_budget_bytes policy"
proof -
  have budget: "policy_memory_budget_bytes policy < u64_max" if "\<forall>p. policy = Some p \<longrightarrow> policy_ok p"
    using that
    by (auto simp: policy_memory_budget_bytes_def policy_ok_def syntax_cache_budget_bytes_def u64_max_def
        split: option.splits)
  have windows: "validate_window_snapshots request ws policy = Inr () \<longleftrightarrow>
      (\<forall>w\<in>set ws. snapshot_ok request (policy_max_window_bytes policy) w)
      \<and> min (sum_list (map (\<lambda>w. byte_len (pw_text w)) ws)) u64_max \<le> policy_memory_budget_bytes policy"
    by (auto simp: validate_window_snapshots_def bind_result_Inr validate_window_snapshots_loop_Inr fold_sat_add)
  have "validate_schedule request ws policy = Inr u \<longleftrightarrow>
      validate_request_ranges request = Inr () \<and> (\<forall>p. policy = Some p \<longrightarrow> policy_ok p)
      \<and> validate_window_snapshots request ws policy = Inr ()"
    by (auto simp: validate_schedule_def bind_result_Inr validate_parse_policy_Inr)
  then show ?thesis using budget windows by auto
qed

end
