(* ===== verification/Parse_Coordinator.thy ===== *)
theory Parse_Coordinator imports Parse_Requests Output_Router Package_Conflicts begin

text \<open>
  The parse coordinator (\<open>server/parse_coordinator.rs\<close>): handlers registered by package and mode, the
  parse tasks in flight, the version each document was last scheduled at, and the routing of results.

  The state is behind one mutex. A definition below is what one holder of that lock does; \<open>schedule_parse\<close>
  and \<open>finish_task\<close> take the lock several times, so they are given section by section, and the theory
  \<open>Parse_Runs\<close> says how the sections of several calls interleave. The code a handler runs is the
  environment's: its result is any value.

  Hash maps are association lists; the order of their entries is unspecified in the code and only the
  order of recorded metrics depends on it. \<open>abort\<close> asks the runtime to stop a task at its next await;
  nothing is assumed to follow from it. The metrics recorded are kept without their times.
\<close>

section \<open>State\<close>

record task_key =
  tk_generation_id :: nat
  tk_document_id :: nat
  tk_package_prefix :: ustr
  tk_mode_id :: ustr
  tk_window_id :: "nat option"

record active_task =
  at_document_version :: nat
  at_native_edit :: bool

record 'h registered_handler =
  rh_generation_id :: nat
  rh_handler :: 'h

record parse_stats =
  ps_scheduled_tasks :: nat
  ps_cancelled_superseded_tasks :: nat
  ps_published_updates :: nat
  ps_stale_results_rejected :: nat
  ps_failed_tasks :: nat

datatype parse_metric =
    Logical_Work_Item nat nat
  | Cancelled_Superseded nat nat
  | Decoration_Chunks nat nat nat
  | Edit_To_Publish nat nat

text \<open>\<open>accepted_native_edits\<close> holds the version and whether its publication was recorded.\<close>

record 'h coordinator =
  co_handlers :: "((ustr \<times> ustr) \<times> 'h registered_handler) list"
  co_active_tasks :: "(task_key \<times> active_task) list"
  co_current_versions :: "nat \<rightharpoonup> nat"
  co_accepted_native_edits :: "nat \<rightharpoonup> nat \<times> bool"
  co_stats :: parse_stats
  co_updates_router :: "parse_update list_channel output_router"
  co_diagnostics_router :: "runtime_diagnostic list_channel output_router"
  co_perf_enabled :: bool
  co_metrics :: "parse_metric list"
  co_updates :: "parse_update list_channel"
  co_diagnostics :: "runtime_diagnostic list_channel"

definition coordinator_new :: "bool \<Rightarrow> 'h coordinator" where
  "coordinator_new perf_enabled =
     \<lparr>co_handlers = [], co_active_tasks = [], co_current_versions = Map.empty,
      co_accepted_native_edits = Map.empty,
      co_stats = \<lparr>ps_scheduled_tasks = 0, ps_cancelled_superseded_tasks = 0, ps_published_updates = 0,
                  ps_stale_results_rejected = 0, ps_failed_tasks = 0\<rparr>,
      co_updates_router = router_default, co_diagnostics_router = router_default,
      co_perf_enabled = perf_enabled, co_metrics = [],
      co_updates = list_mk 4096, co_diagnostics = list_mk 4096\<rparr>"

definition record_metric :: "parse_metric \<Rightarrow> 'h coordinator \<Rightarrow> 'h coordinator" where
  "record_metric m c = (if co_perf_enabled c then c\<lparr>co_metrics := co_metrics c @ [m]\<rparr> else c)"

section \<open>Subscriptions\<close>

definition parse_subscribe_client :: "'h coordinator \<Rightarrow> nat \<Rightarrow> 'h coordinator" where
  "parse_subscribe_client c client_id =
     c\<lparr>co_updates_router := subscribe_client list_mk (co_updates_router c) client_id,
       co_diagnostics_router := subscribe_client list_mk (co_diagnostics_router c) client_id\<rparr>"

definition parse_subscribe_document :: "'h coordinator \<Rightarrow> nat \<Rightarrow> nat \<Rightarrow> 'h coordinator" where
  "parse_subscribe_document c document_id client_id =
     c\<lparr>co_updates_router := subscribe_document (co_updates_router c) document_id client_id\<rparr>"

definition parse_unsubscribe_document :: "'h coordinator \<Rightarrow> nat \<Rightarrow> nat \<Rightarrow> 'h coordinator" where
  "parse_unsubscribe_document c document_id client_id =
     c\<lparr>co_updates_router := unsubscribe_document (co_updates_router c) document_id client_id\<rparr>"

definition parse_unsubscribe_client :: "'h coordinator \<Rightarrow> nat \<Rightarrow> 'h coordinator" where
  "parse_unsubscribe_client c client_id =
     c\<lparr>co_updates_router := unsubscribe_client (co_updates_router c) client_id,
       co_diagnostics_router := unsubscribe_client (co_diagnostics_router c) client_id\<rparr>"

section \<open>Aborting tasks\<close>

definition abort_task :: "task_key \<Rightarrow> 'h coordinator \<Rightarrow> 'h coordinator" where
  "abort_task key c =
     (case map_of (co_active_tasks c) key of
        None \<Rightarrow> c
      | Some task \<Rightarrow>
          let c = c\<lparr>co_active_tasks := AList.delete key (co_active_tasks c)\<rparr>;
              c = (if at_native_edit task
                   then record_metric (Cancelled_Superseded (tk_document_id key) (at_document_version task)) c else c)
          in c\<lparr>co_stats := co_stats c\<lparr>ps_cancelled_superseded_tasks := ps_cancelled_superseded_tasks (co_stats c) + 1\<rparr>\<rparr>)"

definition abort_tasks :: "task_key list \<Rightarrow> 'h coordinator \<Rightarrow> 'h coordinator" where
  "abort_tasks keys c = fold abort_task keys c"

definition task_keys :: "(task_key \<times> active_task \<Rightarrow> bool) \<Rightarrow> 'h coordinator \<Rightarrow> task_key list" where
  "task_keys P c = map fst (filter P (co_active_tasks c))"

section \<open>Handlers\<close>

text \<open>\<open>register_handler_meta\<close>, behind \<open>register_\<close> and \<open>replace_handler_meta_for_generation\<close>.\<close>

definition register_handler_meta ::
  "nat \<Rightarrow> ustr \<Rightarrow> ustr \<Rightarrow> 'h \<Rightarrow> bool \<Rightarrow> 'h coordinator \<Rightarrow> 'h coordinator \<times> (parse_error + ustr \<times> ustr)" where
  "register_handler_meta generation_id package_prefix mode_id handler replace_same_generation c =
     (let key = (package_prefix, mode_id);
          same = (case map_of (co_handlers c) key of
                    None \<Rightarrow> False | Some registered \<Rightarrow> rh_generation_id registered = generation_id) in
      if same \<and> \<not> replace_same_generation then (c, Inl (Parse_HandlerAlreadyRegistered package_prefix mode_id))
      else
        let c = (if same then c\<lparr>co_handlers := AList.delete key (co_handlers c)\<rparr> else c);
            stale_task_keys = task_keys (\<lambda>(k, task). tk_package_prefix k = package_prefix \<and> tk_mode_id k = mode_id
                                \<and> tk_generation_id k \<noteq> generation_id) c;
            c = abort_tasks stale_task_keys c
        in (c\<lparr>co_handlers := AList.update key
                \<lparr>rh_generation_id = generation_id, rh_handler = handler\<rparr> (co_handlers c)\<rparr>,
            Inr (package_prefix, mode_id)))"

definition register_handler_for_generation ::
  "package_record \<Rightarrow> nat \<Rightarrow> ustr \<Rightarrow> 'h \<Rightarrow> 'h coordinator \<Rightarrow> 'h coordinator \<times> (parse_error + ustr \<times> ustr)" where
  "register_handler_for_generation package generation_id mode_id handler c =
     (if ParseDocument \<notin> set (cm_permissions (record_clay package))
      then (c, Inl (Parse_MissingPermission (cm_api_prefix (record_clay package))))
      else register_handler_meta generation_id (cm_api_prefix (record_clay package)) mode_id handler False c)"

definition handler_for :: "'h coordinator \<Rightarrow> ustr \<Rightarrow> ustr \<Rightarrow> 'h option" where
  "handler_for c package_prefix mode_id = map_option rh_handler (map_of (co_handlers c) (package_prefix, mode_id))"

definition registered_generations :: "'h coordinator \<Rightarrow> nat list" where
  "registered_generations c = remdups_adj (sort (map (rh_generation_id \<circ> snd) (co_handlers c)))"

definition cancel_generation :: "nat \<Rightarrow> 'h coordinator \<Rightarrow> 'h coordinator" where
  "cancel_generation generation_id c =
     (let c = c\<lparr>co_handlers := filter (\<lambda>(k, registered). rh_generation_id registered \<noteq> generation_id) (co_handlers c)\<rparr>
      in abort_tasks (task_keys (\<lambda>(k, task). tk_generation_id k = generation_id) c) c)"

text \<open>
  \<open>drain_pending_outputs\<close> empties a legacy channel whose receiver is not locked by a waiting
  \<open>next_update\<close> or \<open>next_diagnostic\<close>.
\<close>

definition drain_pending_outputs :: "bool \<Rightarrow> bool \<Rightarrow> 'h coordinator \<Rightarrow> 'h coordinator" where
  "drain_pending_outputs updates_free diagnostics_free c =
     (let c = (if updates_free then c\<lparr>co_updates := (co_updates c)\<lparr>lc_queue := []\<rparr>\<rparr> else c) in
      if diagnostics_free then c\<lparr>co_diagnostics := (co_diagnostics c)\<lparr>lc_queue := []\<rparr>\<rparr> else c)"

text \<open>The locked part of \<open>cancel_older_generations\<close>; \<open>drain_pending_outputs\<close> follows it.\<close>

definition cancel_older_generations :: "nat \<Rightarrow> 'h coordinator \<Rightarrow> 'h coordinator" where
  "cancel_older_generations active_generation c =
     (let c = c\<lparr>co_handlers := filter (\<lambda>(k, registered). rh_generation_id registered \<ge> active_generation) (co_handlers c)\<rparr>
      in abort_tasks (task_keys (\<lambda>(k, task). tk_generation_id k < active_generation) c) c)"

definition coordinator_remove_document :: "nat \<Rightarrow> 'h coordinator \<Rightarrow> 'h coordinator" where
  "coordinator_remove_document document_id c =
     (let c = c\<lparr>co_current_versions := (co_current_versions c)(document_id := None),
                co_accepted_native_edits := (co_accepted_native_edits c)(document_id := None)\<rparr>
      in abort_tasks (task_keys (\<lambda>(k, task). tk_document_id k = document_id) c) c)"

definition cancel_package :: "ustr \<Rightarrow> 'h coordinator \<Rightarrow> 'h coordinator" where
  "cancel_package package_prefix c =
     (let c = c\<lparr>co_handlers := filter (\<lambda>(k, registered). fst k \<noteq> package_prefix) (co_handlers c)\<rparr>
      in abort_tasks (task_keys (\<lambda>(k, task). tk_package_prefix k = package_prefix) c) c)"

definition record_native_edit_accepted :: "nat \<Rightarrow> nat \<Rightarrow> 'h coordinator \<Rightarrow> 'h coordinator" where
  "record_native_edit_accepted document_id document_version c =
     (if \<not> co_perf_enabled c then c
      else record_metric (Logical_Work_Item document_id document_version)
        (c\<lparr>co_accepted_native_edits := (co_accepted_native_edits c)(document_id \<mapsto> (document_version, False))\<rparr>))"

section \<open>Scheduling\<close>

text \<open>
  The first lock of \<open>schedule_parse_with_windows\<close>. \<open>Inr None\<close> is the early \<open>Ok(())\<close> when the same version is
  already active; \<open>Inr (Some ...)\<close> goes on to spawn the task and take the second lock.
\<close>

definition begin_schedule ::
  "nat \<Rightarrow> nat \<Rightarrow> ustr \<Rightarrow> ustr \<Rightarrow> nat option \<Rightarrow> 'h coordinator
    \<Rightarrow> 'h coordinator \<times> (parse_error + (task_key \<times> bool \<times> 'h) option)" where
  "begin_schedule document_id document_version package_prefix mode_id window_id c =
    (case map_of (co_handlers c) (package_prefix, mode_id) of
       None \<Rightarrow> (c, Inl (Parse_HandlerNotRegistered package_prefix mode_id))
     | Some registered \<Rightarrow>
         let task_key = \<lparr>tk_generation_id = rh_generation_id registered, tk_document_id = document_id,
               tk_package_prefix = package_prefix, tk_mode_id = mode_id, tk_window_id = window_id\<rparr> in
         if (case map_of (co_active_tasks c) task_key of
               None \<Rightarrow> False | Some task \<Rightarrow> at_document_version task = document_version)
         then (c, Inr None)
         else if (case co_current_versions c document_id of
               None \<Rightarrow> False | Some current_version \<Rightarrow> current_version > document_version)
         then (c, Inl (Parse_StaleDocumentVersion document_version (the (co_current_versions c document_id))))
         else
           let c = c\<lparr>co_current_versions := (co_current_versions c)(document_id \<mapsto> document_version)\<rparr>;
               superseded = task_keys (\<lambda>(key, task). tk_generation_id key = tk_generation_id task_key
                   \<and> tk_document_id key = document_id \<and> tk_package_prefix key = package_prefix
                   \<and> tk_mode_id key = mode_id
                   \<and> (key = task_key \<or> at_document_version task < document_version)) c;
               c = abort_tasks superseded c;
               native_edit = (case co_accepted_native_edits c document_id of
                   None \<Rightarrow> False | Some (version, _) \<Rightarrow> version = document_version)
           in (c\<lparr>co_stats := co_stats c\<lparr>ps_scheduled_tasks := ps_scheduled_tasks (co_stats c) + 1\<rparr>\<rparr>,
               Inr (Some (task_key, native_edit, rh_handler registered))))"

text \<open>The second lock: the spawned task is inserted, and only then told to start.\<close>

definition insert_task :: "task_key \<Rightarrow> nat \<Rightarrow> bool \<Rightarrow> 'h coordinator \<Rightarrow> 'h coordinator" where
  "insert_task key document_version native_edit c =
     c\<lparr>co_active_tasks := AList.update key
         \<lparr>at_document_version = document_version, at_native_edit = native_edit\<rparr> (co_active_tasks c)\<rparr>"

text \<open>
  \<open>schedule_parse_with_windows\<close> when no other call takes the lock in between; a task that has to run is
  returned with its notification.
\<close>

definition schedule_window_id :: "schedule_request \<Rightarrow> parse_window_snapshot list \<Rightarrow> nat option" where
  "schedule_window_id request parse_windows =
     (case parse_windows of [] \<Rightarrow> Some (pr_start (sr_viewport request)) | w # _ \<Rightarrow> Some (pw_window_id w))"

definition schedule_notification ::
  "schedule_request \<Rightarrow> parse_window_snapshot list \<Rightarrow> parse_policy option \<Rightarrow> parse_notification" where
  "schedule_notification request parse_windows policy =
     (into_notification request)
       \<lparr>pn_memory_budget := map_option
          (\<lambda>p. \<lparr>mb_budget_bytes = po_memory_budget_bytes p, mb_retained_bytes = 0\<rparr>) policy,
        pn_parse_windows := parse_windows\<rparr>"

definition schedule_parse_with_windows ::
  "schedule_request \<Rightarrow> parse_window_snapshot list \<Rightarrow> parse_policy option \<Rightarrow> 'h coordinator
    \<Rightarrow> 'h coordinator \<times> (parse_error + (task_key \<times> nat \<times> 'h \<times> parse_notification) option)" where
  "schedule_parse_with_windows request parse_windows policy c =
     (case validate_schedule request parse_windows policy of
        Inl e \<Rightarrow> (c, Inl e)
      | Inr _ \<Rightarrow>
          let version = sr_document_version request;
              (c, r) = begin_schedule (sr_document_id request) version (sr_package_prefix request)
                         (sr_mode_id request) (schedule_window_id request parse_windows) c in
          case r of
            Inl e \<Rightarrow> (c, Inl e)
          | Inr None \<Rightarrow> (c, Inr None)
          | Inr (Some (key, native_edit, handler)) \<Rightarrow>
              (insert_task key version native_edit c,
               Inr (Some (key, version, handler, schedule_notification request parse_windows policy))))"

section \<open>Checking a result\<close>

text \<open>The lengths of the \<open>rkyv\<close> encodings the checks ask for.\<close>

record parse_wire =
  wz_update :: "parse_update \<Rightarrow> nat option"
  wz_decorations :: "decoration_set \<Rightarrow> nat option"
  wz_diagnostics :: "diagnostic_set \<Rightarrow> nat option"

definition validate_update_payload :: "parse_wire \<Rightarrow> parse_update \<Rightarrow> parse_error + unit" where
  "validate_update_payload wire update =
     (case wz_update wire update of
        None \<Rightarrow> Inl Parse_SerializationFailed
      | Some bytes \<Rightarrow>
          if bytes > incremental_parse_update_budget_bytes
          then Inl (Parse_PayloadBudgetExceeded bytes incremental_parse_update_budget_bytes)
          else Inr ())"

definition validate_update_decorations ::
  "parse_wire \<Rightarrow> nat \<Rightarrow> parse_update \<Rightarrow> decoration_set \<Rightarrow> parse_error + unit" where
  "validate_update_decorations wire current_version update decorations =
    (if de_document_id decorations \<noteq> pu_document_id update
        \<or> de_document_version decorations \<noteq> pu_document_version update
     then Inl (Parse_DecorationVersionMismatch (de_document_version decorations) (pu_document_version update))
     else if de_viewport_byte_start decorations < pr_start (pu_viewport update)
        \<or> de_viewport_byte_end decorations > pr_end (pu_viewport update)
        \<or> (\<exists>span\<in>set (de_spans decorations).
             dp_package_prefix (sp_provenance span) \<noteq> pu_package_prefix update)
     then Inl Parse_ProvenanceMismatch
     else case validate_decoration_set (wz_decorations wire) current_version decorations None of
       Inl e \<Rightarrow> Inl (Parse_HandlerFailed (Decoration_Invalid e))
     | Inr _ \<Rightarrow> Inr ())"

fun validate_all :: "('a \<Rightarrow> 'e + unit) \<Rightarrow> 'a list \<Rightarrow> 'e + unit" where
  "validate_all f [] = Inr ()"
| "validate_all f (x # xs) = bind_result (f x) (\<lambda>_. validate_all f xs)"

definition validate_update_diagnostics ::
  "parse_wire \<Rightarrow> nat \<Rightarrow> parse_update \<Rightarrow> diagnostic_set \<Rightarrow> parse_error + unit" where
  "validate_update_diagnostics wire current_version update diagnostics =
    (if dg_document_id diagnostics \<noteq> pu_document_id update
        \<or> dg_document_version diagnostics \<noteq> pu_document_version update
        \<or> dg_viewport_byte_start diagnostics \<noteq> pr_start (pu_viewport update)
        \<or> dg_viewport_byte_end diagnostics \<noteq> pr_end (pu_viewport update)
        \<or> dp_package_prefix (dg_provenance diagnostics) \<noteq> pu_package_prefix update
     then Inl Parse_DiagnosticMetadataMismatch
     else case validate_diagnostic_set (wz_diagnostics wire) current_version diagnostics None of
       Inl e \<Rightarrow> Inl (Parse_HandlerFailed (Diagnostic_Invalid e))
     | Inr _ \<Rightarrow> Inr ())"

definition validate_update :: "parse_wire \<Rightarrow> 'h coordinator \<Rightarrow> parse_update \<Rightarrow> parse_error + unit" where
  "validate_update wire c update =
    (if \<not> range_is_valid (pu_viewport update) then Inl Parse_InvalidViewportRange
     else case invalid_range_index 0 (pu_invalidated_ranges update) of
       Some index \<Rightarrow> Inl (Parse_InvalidatedRangeInvalid index)
     | None \<Rightarrow>
         let current_version = (case co_current_versions c (pu_document_id update) of
               None \<Rightarrow> pu_document_version update | Some version \<Rightarrow> version) in
         if pu_document_version update \<noteq> current_version
         then Inl (Parse_StaleDocumentVersion (pu_document_version update) current_version)
         else
           bind_result (validate_all (validate_update_decorations wire current_version update)
                          (pu_decoration_updates update)) (\<lambda>_.
           bind_result (case pu_diagnostic_update update of
                          None \<Rightarrow> Inr ()
                        | Some diagnostics \<Rightarrow>
                            validate_update_diagnostics wire current_version update diagnostics) (\<lambda>_.
           let bounded_update = update\<lparr>pu_decoration_updates := []\<rparr> in
           bind_result (validate_update_payload wire bounded_update) (\<lambda>_.
           validate_all (\<lambda>decoration.
               validate_update_payload wire (bounded_update\<lparr>pu_decoration_updates := [decoration]\<rparr>))
             (pu_decoration_updates update)))))"

definition validate_task_generation :: "'h coordinator \<Rightarrow> task_key \<Rightarrow> parse_error + unit" where
  "validate_task_generation c key =
     (let active_generation =
            map_option rh_generation_id (map_of (co_handlers c) (tk_package_prefix key, tk_mode_id key)) in
      if active_generation = Some (tk_generation_id key) then Inr ()
      else Inl (Parse_StaleRuntimeGeneration (tk_generation_id key)
                  (case active_generation of None \<Rightarrow> 0 | Some g \<Rightarrow> g)))"

definition parse_failure_reason :: "parse_error \<Rightarrow> ustr" where
  "parse_failure_reason error =
     (case error of
        Parse_HandlerFailed _ \<Rightarrow> lit ''handler failed''
      | Parse_PayloadBudgetExceeded _ _ \<Rightarrow> lit ''payload budget exceeded''
      | Parse_WindowTooLarge _ _ _ \<Rightarrow> lit ''parse window budget exceeded''
      | Parse_WindowBudgetExceeded _ _ \<Rightarrow> lit ''parse window budget exceeded''
      | Parse_StaleDocumentVersion _ _ \<Rightarrow> lit ''stale parse result rejected''
      | Parse_StaleRuntimeGeneration _ _ \<Rightarrow> lit ''stale parse result rejected''
      | _ \<Rightarrow> lit ''parse result rejected'')"

definition parse_failure_diagnostic :: "task_key \<Rightarrow> parse_error \<Rightarrow> runtime_diagnostic" where
  "parse_failure_diagnostic key error =
     runtime_diagnostic_error (lit ''parse.open_failed'')
       (lit ''Background parse for package '' @ [39] @ tk_package_prefix key @ [39] @ lit '' mode '' @ [39]
        @ tk_mode_id key @ [39] @ lit '' on document '' @ nat_digits (tk_document_id key)
        @ lit '' failed: '' @ parse_failure_reason error @ lit ''.'')"

section \<open>Finishing a task\<close>

text \<open>The first lock of \<open>finish_task\<close>: is the task still the active one of its key and version?\<close>

definition task_is_active :: "'h coordinator \<Rightarrow> task_key \<Rightarrow> nat \<Rightarrow> bool" where
  "task_is_active c key task_version \<longleftrightarrow>
     (case map_of (co_active_tasks c) key of
        None \<Rightarrow> False | Some task \<Rightarrow> at_document_version task = task_version)"

definition drop_task :: "task_key \<Rightarrow> (parse_stats \<Rightarrow> parse_stats) \<Rightarrow> 'h coordinator \<Rightarrow> 'h coordinator" where
  "drop_task key upd c =
     c\<lparr>co_active_tasks := AList.delete key (co_active_tasks c), co_stats := upd (co_stats c)\<rparr>"

abbreviation count_failed :: "parse_stats \<Rightarrow> parse_stats" where
  "count_failed s \<equiv> s\<lparr>ps_failed_tasks := ps_failed_tasks s + 1\<rparr>"
abbreviation count_stale :: "parse_stats \<Rightarrow> parse_stats" where
  "count_stale s \<equiv> s\<lparr>ps_stale_results_rejected := ps_stale_results_rejected s + 1\<rparr>"
abbreviation count_published :: "parse_stats \<Rightarrow> parse_stats" where
  "count_published s \<equiv> s\<lparr>ps_published_updates := ps_published_updates s + 1\<rparr>"

text \<open>\<open>try_send\<close> on a legacy channel: a full channel drops the message.\<close>

definition try_send_or_drop :: "'a list_channel \<Rightarrow> 'a \<Rightarrow> 'a list_channel" where
  "try_send_or_drop ch x = (case list_send ch x of None \<Rightarrow> ch | Some ch' \<Rightarrow> ch')"

definition fail_locked :: "(nat set \<Rightarrow> nat list) \<Rightarrow> task_key \<Rightarrow> parse_error \<Rightarrow> 'h coordinator \<Rightarrow> 'h coordinator" where
  "fail_locked order key error c =
     (let c = drop_task key count_failed c in
      c\<lparr>co_diagnostics_router :=
          fst (broadcast list_send order (co_diagnostics_router c) (parse_failure_diagnostic key error))\<rparr>)"

definition send_diagnostic :: "runtime_diagnostic \<Rightarrow> 'h coordinator \<Rightarrow> 'h coordinator" where
  "send_diagnostic diagnostic c = c\<lparr>co_diagnostics := try_send_or_drop (co_diagnostics c) diagnostic\<rparr>"

definition fail_task :: "(nat set \<Rightarrow> nat list) \<Rightarrow> task_key \<Rightarrow> parse_error \<Rightarrow> 'h coordinator \<Rightarrow> 'h coordinator" where
  "fail_task order key error c = send_diagnostic (parse_failure_diagnostic key error) (fail_locked order key error c)"

definition reject_task :: "task_key \<Rightarrow> 'h coordinator \<Rightarrow> 'h coordinator" where
  "reject_task key c = drop_task key count_stale c"

definition publish_update ::
  "(nat set \<Rightarrow> nat list) \<Rightarrow> task_key \<Rightarrow> parse_update \<Rightarrow> 'h coordinator \<Rightarrow> 'h coordinator" where
  "publish_update order key update c =
     (let c = drop_task key count_published c in
      c\<lparr>co_updates_router := fst (route_document list_send order (co_updates_router c) (pu_document_id update) update)\<rparr>)"

definition record_native_publication :: "parse_update \<Rightarrow> 'h coordinator \<Rightarrow> 'h coordinator" where
  "record_native_publication update c =
    (if \<not> (case pu_syntax_tree_delta update of
             None \<Rightarrow> False | Some delta \<Rightarrow> str_starts_with delta (lit ''tree-sitter:'')) then c
     else
       let c = (if pu_decoration_updates update \<noteq> []
                then record_metric (Decoration_Chunks (pu_document_id update) (pu_document_version update)
                       (length (pu_decoration_updates update))) c
                else c) in
       case co_accepted_native_edits c (pu_document_id update) of
         None \<Rightarrow> c
       | Some (version, published) \<Rightarrow>
           if version = pu_document_version update \<and> \<not> published
           then record_metric (Edit_To_Publish (pu_document_id update) (pu_document_version update))
             (c\<lparr>co_accepted_native_edits := (co_accepted_native_edits c)(pu_document_id update \<mapsto> (version, True))\<rparr>)
           else c)"

definition send_update :: "parse_update \<Rightarrow> 'h coordinator \<Rightarrow> 'h coordinator" where
  "send_update update c = c\<lparr>co_updates := try_send_or_drop (co_updates c) update\<rparr>"

text \<open>\<open>finish_task\<close> when no other call takes the lock in between.\<close>

definition finish_task ::
  "parse_wire \<Rightarrow> (nat set \<Rightarrow> nat list) \<Rightarrow> task_key \<Rightarrow> nat \<Rightarrow> parse_error + parse_update \<Rightarrow> 'h coordinator
    \<Rightarrow> 'h coordinator" where
  "finish_task wire order key task_version result c =
    (if \<not> task_is_active c key task_version then c
     else case result of
       Inl error \<Rightarrow> fail_task order key error c
     | Inr update \<Rightarrow>
         (case validate_task_generation c key of
            Inl _ \<Rightarrow> reject_task key c
          | Inr _ \<Rightarrow>
              (case validate_update wire c update of
                 Inr _ \<Rightarrow> send_update update (record_native_publication update (publish_update order key update c))
               | Inl (Parse_StaleDocumentVersion _ _) \<Rightarrow> reject_task key c
               | Inl error \<Rightarrow> fail_task order key error c)))"

definition next_update :: "'h coordinator \<Rightarrow> (parse_update \<times> 'h coordinator) option" where
  "next_update c = map_option (\<lambda>(u, ch). (u, c\<lparr>co_updates := ch\<rparr>)) (list_recv (co_updates c))"

definition next_diagnostic :: "'h coordinator \<Rightarrow> (runtime_diagnostic \<times> 'h coordinator) option" where
  "next_diagnostic c = map_option (\<lambda>(d, ch). (d, c\<lparr>co_diagnostics := ch\<rparr>)) (list_recv (co_diagnostics c))"

end
