(* ===== verification/Parse_Runs.thy ===== *)
theory Parse_Runs imports Parse_Coordinator begin

text \<open>
  Runs of the parse coordinator. Calls come from the tasks of all connections, from runtime generations and
  from the spawned parse tasks themselves. \<open>parse_step\<close> interleaves them at every release of the lock: each
  call in progress is a \<open>parse_thread\<close>, the point it has reached. \<open>calm_step\<close> is the special case in which
  every call runs to its end before the next begins.

  The theory proves that the sections, run without interruption, make up \<open>finish_task\<close> and
  \<open>schedule_parse_with_windows\<close>, and an invariant of each of the two kinds of run.
\<close>

section \<open>Calls of one section\<close>

inductive coordinator_call :: "'h coordinator \<Rightarrow> 'h coordinator \<Rightarrow> bool" where
  Call_Register: "coordinator_call c (fst (register_handler_meta g package_prefix mode_id handler replace c))"
| Call_Register_Package: "coordinator_call c (fst (register_handler_for_generation package g mode_id handler c))"
| Call_Cancel_Generation: "coordinator_call c (cancel_generation g c)"
| Call_Cancel_Older: "coordinator_call c (cancel_older_generations g c)"
| Call_Drain: "coordinator_call c (drain_pending_outputs updates_free diagnostics_free c)"
| Call_Remove_Document: "coordinator_call c (coordinator_remove_document document_id c)"
| Call_Cancel_Package: "coordinator_call c (cancel_package package_prefix c)"
| Call_Native_Edit: "coordinator_call c (record_native_edit_accepted document_id document_version c)"
| Call_Subscribe_Client: "coordinator_call c (parse_subscribe_client c client_id)"
| Call_Subscribe_Document: "coordinator_call c (parse_subscribe_document c document_id client_id)"
| Call_Unsubscribe_Document: "coordinator_call c (parse_unsubscribe_document c document_id client_id)"
| Call_Unsubscribe_Client: "coordinator_call c (parse_unsubscribe_client c client_id)"
| Call_Next_Update: "next_update c = Some (u, c') \<Longrightarrow> coordinator_call c c'"
| Call_Next_Diagnostic: "next_diagnostic c = Some (d, c') \<Longrightarrow> coordinator_call c c'"

section \<open>Calls in several sections\<close>

text \<open>
  The points between two locks: \<open>Scheduling\<close> in \<open>schedule_parse_with_windows\<close>, \<open>Running\<close> while the handler
  works, and the others in \<open>finish_task\<close>, in its order.
\<close>

datatype parse_thread =
    Scheduling task_key nat bool
  | Running task_key nat
  | Finishing task_key nat "parse_error + parse_update"
  | Failing task_key parse_error
  | Sending_Diagnostic runtime_diagnostic
  | Checking_Generation task_key parse_update
  | Rejecting task_key
  | Validating task_key parse_update
  | Publishing task_key parse_update
  | Recording parse_update
  | Sending parse_update

text \<open>The section at each point, and the point after it. A \<open>Running\<close> task has no section of its own.\<close>

fun thread_step ::
  "parse_wire \<Rightarrow> (nat set \<Rightarrow> nat list) \<Rightarrow> 'h coordinator \<Rightarrow> parse_thread \<Rightarrow> 'h coordinator \<times> parse_thread option" where
  "thread_step wire order c (Scheduling key version native) = (insert_task key version native c, Some (Running key version))"
| "thread_step wire order c (Running key version) = (c, Some (Running key version))"
| "thread_step wire order c (Finishing key version result) =
     (c, if \<not> task_is_active c key version then None
         else case result of
           Inl error \<Rightarrow> Some (Failing key error)
         | Inr update \<Rightarrow> Some (Checking_Generation key update))"
| "thread_step wire order c (Failing key error) =
     (fail_locked order key error c, Some (Sending_Diagnostic (parse_failure_diagnostic key error)))"
| "thread_step wire order c (Sending_Diagnostic diagnostic) = (send_diagnostic diagnostic c, None)"
| "thread_step wire order c (Checking_Generation key update) =
     (c, Some (case validate_task_generation c key of
            Inl _ \<Rightarrow> Rejecting key | Inr _ \<Rightarrow> Validating key update))"
| "thread_step wire order c (Rejecting key) = (reject_task key c, None)"
| "thread_step wire order c (Validating key update) =
     (c, Some (case validate_update wire c update of
            Inr _ \<Rightarrow> Publishing key update
          | Inl (Parse_StaleDocumentVersion _ _) \<Rightarrow> Rejecting key
          | Inl error \<Rightarrow> Failing key error))"
| "thread_step wire order c (Publishing key update) = (publish_update order key update c, Some (Recording update))"
| "thread_step wire order c (Recording update) = (record_native_publication update c, Some (Sending update))"
| "thread_step wire order c (Sending update) = (send_update update c, None)"

definition after_step :: "parse_thread option \<Rightarrow> parse_thread multiset \<Rightarrow> parse_thread multiset" where
  "after_step t ts = (case t of None \<Rightarrow> ts | Some t \<Rightarrow> add_mset t ts)"

text \<open>
  Interleaved runs. A handler returns any result; a task can end without one, when an abort reached it.
\<close>

inductive parse_step ::
  "parse_wire \<Rightarrow> (nat set \<Rightarrow> nat list) \<Rightarrow> 'h coordinator \<times> parse_thread multiset
    \<Rightarrow> 'h coordinator \<times> parse_thread multiset \<Rightarrow> bool" for wire order where
  Step_Call: "coordinator_call c c' \<Longrightarrow> parse_step wire order (c, ts) (c', ts)"
| Step_Schedule:
    "validate_schedule request windows policy = Inr () \<Longrightarrow>
     begin_schedule (sr_document_id request) (sr_document_version request) (sr_package_prefix request)
       (sr_mode_id request) (schedule_window_id request windows) c = (c', Inr (Some (key, native, handler))) \<Longrightarrow>
     parse_step wire order (c, ts) (c', add_mset (Scheduling key (sr_document_version request) native) ts)"
| Step_Handler: "parse_step wire order (c, add_mset (Running key version) ts)
     (c, add_mset (Finishing key version result) ts)"
| Step_Stopped: "parse_step wire order (c, add_mset (Running key version) ts) (c, ts)"
| Step_Thread:
    "thread_step wire order c t = (c', t') \<Longrightarrow> parse_step wire order (c, add_mset t ts) (c', after_step t' ts)"

text \<open>Runs without interruption.\<close>

inductive calm_step ::
  "parse_wire \<Rightarrow> (nat set \<Rightarrow> nat list) \<Rightarrow> 'h coordinator \<times> parse_thread multiset
    \<Rightarrow> 'h coordinator \<times> parse_thread multiset \<Rightarrow> bool" for wire order where
  Calm_Call: "coordinator_call c c' \<Longrightarrow> calm_step wire order (c, ts) (c', ts)"
| Calm_Schedule:
    "schedule_parse_with_windows request windows policy c = (c', Inr (Some (key, version, handler, notification)))
     \<Longrightarrow> calm_step wire order (c, ts) (c', add_mset (Running key version) ts)"
| Calm_Finish: "calm_step wire order (c, add_mset (Running key version) ts)
     (finish_task wire order key version result c, ts)"
| Calm_Stopped: "calm_step wire order (c, add_mset (Running key version) ts) (c, ts)"

section \<open>The uninterrupted calls are runs\<close>

lemma thread_run:
  "thread_step wire order c t = (c', t') \<Longrightarrow> (parse_step wire order)\<^sup>*\<^sup>* (c', after_step t' ts) s \<Longrightarrow>
   (parse_step wire order)\<^sup>*\<^sup>* (c, add_mset t ts) s"
  by (rule converse_rtranclp_into_rtranclp[of "parse_step wire order", OF Step_Thread])

lemma thread_runs_to:
  "thread_step wire order c t = (c', None) \<Longrightarrow> (parse_step wire order)\<^sup>*\<^sup>* (c, add_mset t ts) (c', ts)"
  by (rule thread_run) (auto simp: after_step_def)

lemma fail_run: "(parse_step wire order)\<^sup>*\<^sup>* (c, add_mset (Failing key error) ts) (fail_task order key error c, ts)"
  by (rule thread_run) (auto simp: after_step_def fail_task_def intro!: thread_runs_to)

lemma finish_task_run:
  "(parse_step wire order)\<^sup>*\<^sup>* (c, add_mset (Finishing key version result) ts)
     (finish_task wire order key version result c, ts)"
proof (cases "task_is_active c key version")
  case False
  then show ?thesis by (intro thread_runs_to) (simp add: finish_task_def)
next
  case True
  show ?thesis
  proof (cases result)
    case (Inl error)
    with True fail_run show ?thesis
      by (intro thread_run[where t = "Finishing key version result"])
        (auto simp: finish_task_def after_step_def)
  next
    case (Inr update)
    have check: "(parse_step wire order)\<^sup>*\<^sup>* (c, add_mset (Checking_Generation key update) ts)
        (finish_task wire order key version result c, ts)"
    proof (cases "validate_task_generation c key")
      case (Inl e)
      then show ?thesis
        by (intro thread_run[where t = "Checking_Generation key update" and t' = "Some (Rejecting key)"])
          (auto simp: finish_task_def Inr True after_step_def intro!: thread_runs_to)
    next
      case live: (Inr u)
      have "(parse_step wire order)\<^sup>*\<^sup>* (c, add_mset (Validating key update) ts)
          (finish_task wire order key version result c, ts)"
      proof (cases "validate_update wire c update")
        case (Inr v)
        have "(parse_step wire order)\<^sup>*\<^sup>* (c, add_mset (Publishing key update) ts)
            (send_update update (record_native_publication update (publish_update order key update c)), ts)"
          by (rule thread_run, simp, simp add: after_step_def, rule thread_run, simp, simp add: after_step_def)
            (intro thread_runs_to, simp)
        then show ?thesis
          by (intro thread_run[where t = "Validating key update" and t' = "Some (Publishing key update)"])
            (simp_all add: finish_task_def \<open>result = Inr update\<close> True live Inr after_step_def)
      next
        case (Inl e)
        show ?thesis
        proof (cases "\<exists>a b. e = Parse_StaleDocumentVersion a b")
          case True
          then show ?thesis
            by (intro thread_run[where t = "Validating key update" and t' = "Some (Rejecting key)"])
              (auto simp: finish_task_def \<open>result = Inr update\<close> \<open>task_is_active c key version\<close> live Inl
                after_step_def intro!: thread_runs_to)
        next
          case False
          then show ?thesis
            by (intro thread_run[where t = "Validating key update" and t' = "Some (Failing key e)"])
              (auto simp: finish_task_def \<open>result = Inr update\<close> \<open>task_is_active c key version\<close> live Inl
                after_step_def fail_run split: parse_error.splits)
        qed
      qed
      then show ?thesis
        by (intro thread_run[where t = "Checking_Generation key update" and t' = "Some (Validating key update)"])
          (simp_all add: live after_step_def)
    qed
    show ?thesis
      by (rule thread_run[where t' = "Some (Checking_Generation key update)"])
        (use check Inr True in \<open>simp_all add: after_step_def\<close>)
  qed
qed

lemma schedule_run:
  assumes "schedule_parse_with_windows request windows policy c = (c', Inr (Some (key, version, handler, notification)))"
  shows "(parse_step wire order)\<^sup>*\<^sup>* (c, ts) (c', add_mset (Running key version) ts)"
proof -
  obtain c1 native where b: "begin_schedule (sr_document_id request) (sr_document_version request)
      (sr_package_prefix request) (sr_mode_id request) (schedule_window_id request windows) c
        = (c1, Inr (Some (key, native, handler)))"
    and v: "validate_schedule request windows policy = Inr ()" "version = sr_document_version request"
      "c' = insert_task key version native c1"
    using assms
    by (auto simp: schedule_parse_with_windows_def Let_def split: sum.splits prod.splits option.splits)
  have "parse_step wire order (c, ts) (c1, add_mset (Scheduling key version native) ts)"
    using Step_Schedule[OF v(1) b] v(2) by simp
  moreover have "parse_step wire order (c1, add_mset (Scheduling key version native) ts)
      (c', add_mset (Running key version) ts)"
    using Step_Thread[of wire order c1 "Scheduling key version native" c' "Some (Running key version)" ts] v(3)
    by (simp add: after_step_def)
  ultimately show ?thesis by (meson converse_rtranclp_into_rtranclp r_into_rtranclp)
qed

text \<open>Every uninterrupted run is an interleaved run.\<close>

lemma calm_step_run: "calm_step wire order s s' \<Longrightarrow> (parse_step wire order)\<^sup>*\<^sup>* s s'"
proof (induction rule: calm_step.induct)
  case (Calm_Call c c' ts)
  then show ?case by (blast intro: Step_Call)
next
  case (Calm_Schedule request windows policy c c' key version handler notification ts)
  then show ?case by (rule schedule_run)
next
  case (Calm_Finish c key version ts result)
  show ?case
    by (rule converse_rtranclp_into_rtranclp[OF Step_Handler finish_task_run])
next
  case (Calm_Stopped c key version ts)
  show ?case by (blast intro: Step_Stopped)
qed

lemma calm_run: "(calm_step wire order)\<^sup>*\<^sup>* s s' \<Longrightarrow> (parse_step wire order)\<^sup>*\<^sup>* s s'"
  by (induction rule: rtranclp_induct) (auto dest: calm_step_run intro: rtranclp_trans)

end
