(* ===== verification/Parse_Facts.thy ===== *)
theory Parse_Facts imports Parse_Runs begin

text \<open>
  Invariants of the parse coordinator's runs. Of every interleaved run: at most one outcome is counted for
  each task scheduled. Of every run without interruption: \<open>coordinator_inv\<close>, which ties the active tasks to
  the registered handlers, to the versions of their documents and to the counters.
\<close>

section \<open>What aborting leaves alone\<close>

abbreviation outcomes :: "parse_stats \<Rightarrow> nat" where
  "outcomes s \<equiv> ps_published_updates s + ps_stale_results_rejected s + ps_failed_tasks s"

lemma record_metric_fields [simp]:
  "co_handlers (record_metric m c) = co_handlers c"
  "co_active_tasks (record_metric m c) = co_active_tasks c"
  "co_current_versions (record_metric m c) = co_current_versions c"
  "co_accepted_native_edits (record_metric m c) = co_accepted_native_edits c"
  "co_stats (record_metric m c) = co_stats c"
  "co_updates_router (record_metric m c) = co_updates_router c"
  "co_diagnostics_router (record_metric m c) = co_diagnostics_router c"
  by (simp_all add: record_metric_def)

lemma abort_task_fields [simp]:
  "co_handlers (abort_task k c) = co_handlers c"
  "co_current_versions (abort_task k c) = co_current_versions c"
  "co_accepted_native_edits (abort_task k c) = co_accepted_native_edits c"
  "co_updates_router (abort_task k c) = co_updates_router c"
  "ps_scheduled_tasks (co_stats (abort_task k c)) = ps_scheduled_tasks (co_stats c)"
  "ps_published_updates (co_stats (abort_task k c)) = ps_published_updates (co_stats c)"
  "ps_stale_results_rejected (co_stats (abort_task k c)) = ps_stale_results_rejected (co_stats c)"
  "ps_failed_tasks (co_stats (abort_task k c)) = ps_failed_tasks (co_stats c)"
  by (auto simp: abort_task_def Let_def split: option.splits)

lemma abort_tasks_fields [simp]:
  "co_handlers (abort_tasks ks c) = co_handlers c"
  "co_current_versions (abort_tasks ks c) = co_current_versions c"
  "co_accepted_native_edits (abort_tasks ks c) = co_accepted_native_edits c"
  "co_updates_router (abort_tasks ks c) = co_updates_router c"
  "ps_scheduled_tasks (co_stats (abort_tasks ks c)) = ps_scheduled_tasks (co_stats c)"
  "ps_published_updates (co_stats (abort_tasks ks c)) = ps_published_updates (co_stats c)"
  "ps_stale_results_rejected (co_stats (abort_tasks ks c)) = ps_stale_results_rejected (co_stats c)"
  "ps_failed_tasks (co_stats (abort_tasks ks c)) = ps_failed_tasks (co_stats c)"
  unfolding abort_tasks_def by (induction ks arbitrary: c) simp_all

lemma abort_task_active:
  "co_active_tasks (abort_task k c) = filter (\<lambda>(k', t). k' \<noteq> k) (co_active_tasks c)"
proof (cases "map_of (co_active_tasks c) k")
  case None
  then have "k \<notin> fst ` set (co_active_tasks c)" by (simp add: map_of_eq_None_iff)
  then have "filter (\<lambda>(k', t). k' \<noteq> k) (co_active_tasks c) = co_active_tasks c"
    by (intro filter_True) (auto simp: image_iff)
  then show ?thesis using None by (simp add: abort_task_def)
next
  case (Some t)
  then show ?thesis
    by (auto simp: abort_task_def Let_def AList.delete_eq intro!: filter_cong)
qed

lemma abort_task_cancelled:
  "map_of (co_active_tasks c) k = Some t \<Longrightarrow>
   ps_cancelled_superseded_tasks (co_stats (abort_task k c)) = ps_cancelled_superseded_tasks (co_stats c) + 1"
  by (simp add: abort_task_def Let_def)

lemma abort_tasks_active:
  assumes "distinct ks" "set ks \<subseteq> fst ` set (co_active_tasks c)"
  shows "co_active_tasks (abort_tasks ks c) = filter (\<lambda>(k, t). k \<notin> set ks) (co_active_tasks c)
    \<and> ps_cancelled_superseded_tasks (co_stats (abort_tasks ks c))
      = ps_cancelled_superseded_tasks (co_stats c) + length ks"
  using assms
proof (induction ks arbitrary: c)
  case Nil
  then show ?case by (simp add: abort_tasks_def split_def)
next
  case (Cons k ks)
  have "set ks \<subseteq> fst ` set (co_active_tasks (abort_task k c))"
    using Cons.prems by (force simp: abort_task_active)
  note IH = Cons.IH[OF _ this]
  obtain t where "map_of (co_active_tasks c) k = Some t"
    using Cons.prems(2) by (metis insert_subset list.simps(15) map_of_eq_None_iff not_None_eq)
  then have "ps_cancelled_superseded_tasks (co_stats (abort_task k c)) = ps_cancelled_superseded_tasks (co_stats c) + 1"
    by (rule abort_task_cancelled)
  moreover have "filter (\<lambda>(k', t). k' \<notin> set ks) (filter (\<lambda>(k', t). k' \<noteq> k) (co_active_tasks c))
      = filter (\<lambda>(k', t). k' \<notin> set (k # ks)) (co_active_tasks c)"
    by (auto simp: intro!: filter_cong)
  ultimately show ?case
    using IH Cons.prems(1) by (simp add: abort_tasks_def abort_task_active)
qed

text \<open>Aborting the tasks that satisfy \<open>P\<close> removes exactly those, and counts them.\<close>

lemma abort_task_keys:
  assumes "distinct (map fst (co_active_tasks c))"
  shows "co_active_tasks (abort_tasks (task_keys P c) c) = filter (\<lambda>x. \<not> P x) (co_active_tasks c)
    \<and> ps_cancelled_superseded_tasks (co_stats (abort_tasks (task_keys P c) c)) + length (filter (\<lambda>x. \<not> P x) (co_active_tasks c))
      = ps_cancelled_superseded_tasks (co_stats c) + length (co_active_tasks c)"
proof -
  have "distinct (task_keys P c)" "set (task_keys P c) \<subseteq> fst ` set (co_active_tasks c)"
    using assms by (auto simp: task_keys_def distinct_map_filter)
  note a = abort_tasks_active[OF this]
  have "P x \<longleftrightarrow> fst x \<in> set (task_keys P c)" if "x \<in> set (co_active_tasks c)" for x
    using that assms by (force simp: task_keys_def distinct_map inj_on_def)
  then have "filter (\<lambda>(k, t). k \<notin> set (task_keys P c)) (co_active_tasks c) = filter (\<lambda>x. \<not> P x) (co_active_tasks c)"
    by (auto intro!: filter_cong simp: split_def)
  moreover have "length (task_keys P c) + length (filter (\<lambda>x. \<not> P x) (co_active_tasks c)) = length (co_active_tasks c)"
    using sum_length_filter_compl[of P "co_active_tasks c"] by (simp add: task_keys_def)
  ultimately show ?thesis using a by simp
qed

section \<open>Every interleaved run: one outcome per task\<close>

fun uncounted :: "parse_thread \<Rightarrow> bool" where
  "uncounted (Sending_Diagnostic d) = False"
| "uncounted (Recording u) = False"
| "uncounted (Sending u) = False"
| "uncounted t = True"

definition outcomes_bounded :: "'h coordinator \<times> parse_thread multiset \<Rightarrow> bool" where
  "outcomes_bounded s \<longleftrightarrow>
     outcomes (co_stats (fst s)) + size (filter_mset uncounted (snd s)) \<le> ps_scheduled_tasks (co_stats (fst s))"

lemma register_handler_meta_stats:
  "outcomes (co_stats (fst (register_handler_meta g p m h r c))) = outcomes (co_stats c)"
  "ps_scheduled_tasks (co_stats (fst (register_handler_meta g p m h r c))) = ps_scheduled_tasks (co_stats c)"
  by (simp_all add: register_handler_meta_def Let_def)

lemma coordinator_call_stats:
  assumes "coordinator_call c c'"
  shows "outcomes (co_stats c') = outcomes (co_stats c)
    \<and> ps_scheduled_tasks (co_stats c') = ps_scheduled_tasks (co_stats c)"
  using assms
proof cases
  case (Call_Register g p m h r)
  then show ?thesis using register_handler_meta_stats[of g p m h r c] by simp
next
  case (Call_Register_Package p g m h)
  then show ?thesis
    using register_handler_meta_stats[of g "cm_api_prefix (record_clay p)" m h False c]
    by (simp add: register_handler_for_generation_def)
qed (auto simp: cancel_generation_def cancel_older_generations_def drain_pending_outputs_def
    coordinator_remove_document_def cancel_package_def record_native_edit_accepted_def parse_subscribe_client_def
    parse_subscribe_document_def parse_unsubscribe_document_def parse_unsubscribe_client_def next_update_def
    next_diagnostic_def Let_def)

lemma record_native_publication_stats [simp]:
  "co_stats (record_native_publication u c) = co_stats c"
  by (auto simp: record_native_publication_def Let_def split: option.splits)

lemma thread_step_outcomes:
  assumes "thread_step wire order c t = (c', t')"
  shows "outcomes (co_stats c') + size (filter_mset uncounted (after_step t' {#}))
      = outcomes (co_stats c) + size (filter_mset uncounted {#t#})
     \<or> (outcomes (co_stats c') = outcomes (co_stats c) \<and> t' = None)"
  and "ps_scheduled_tasks (co_stats c') = ps_scheduled_tasks (co_stats c)"
  using assms
  by (cases t; auto simp: after_step_def insert_task_def fail_locked_def send_diagnostic_def reject_task_def
      publish_update_def send_update_def drop_task_def Let_def split: if_splits sum.splits parse_error.splits)+

lemma after_step_simps [simp]:
  "after_step None ts = ts"
  "after_step (Some t) ts = add_mset t ts"
  by (simp_all add: after_step_def)

lemma after_step_filter:
  "size (filter_mset P (after_step t ts)) = size (filter_mset P (after_step t {#})) + size (filter_mset P ts)"
  by (simp add: after_step_def split: option.splits)

lemma begin_schedule_counts:
  assumes "begin_schedule d v p m w c = (c', Inr (Some x))"
  shows "ps_scheduled_tasks (co_stats c') = ps_scheduled_tasks (co_stats c) + 1
    \<and> outcomes (co_stats c') = outcomes (co_stats c)"
  using assms by (auto simp: begin_schedule_def Let_def split: option.splits if_splits)

lemma parse_step_outcomes_bounded:
  "parse_step wire order s s' \<Longrightarrow> outcomes_bounded s \<Longrightarrow> outcomes_bounded s'"
proof (induction rule: parse_step.induct)
  case (Step_Call c c' ts)
  then show ?case using coordinator_call_stats[of c c'] by (simp add: outcomes_bounded_def)
next
  case (Step_Schedule request windows policy c c' key native handler ts)
  then show ?case using begin_schedule_counts[OF Step_Schedule(2)] by (simp add: outcomes_bounded_def)
next
  case (Step_Thread c t c' t' ts)
  then show ?case
    using thread_step_outcomes[OF Step_Thread(1)] after_step_filter[of uncounted t' ts]
    by (auto simp: outcomes_bounded_def split: if_splits)
qed (simp_all add: outcomes_bounded_def)

lemma parse_run_outcomes_bounded:
  assumes "(parse_step wire order)\<^sup>*\<^sup>* (coordinator_new enabled, {#}) s"
  shows "outcomes_bounded s"
  using assms
  by (induction rule: rtranclp_induct)
    (simp add: outcomes_bounded_def coordinator_new_def, rule parse_step_outcomes_bounded)

section \<open>Runs without interruption\<close>

abbreviation same_parser :: "task_key \<Rightarrow> task_key \<Rightarrow> bool" where
  "same_parser k k' \<equiv> tk_generation_id k = tk_generation_id k' \<and> tk_document_id k = tk_document_id k'
     \<and> tk_package_prefix k = tk_package_prefix k' \<and> tk_mode_id k = tk_mode_id k'"

definition task_supported :: "'h coordinator \<Rightarrow> task_key \<Rightarrow> active_task \<Rightarrow> bool" where
  "task_supported c k t \<longleftrightarrow>
     (\<exists>v. co_current_versions c (tk_document_id k) = Some v \<and> at_document_version t \<le> v)
     \<and> (\<exists>r. ((tk_package_prefix k, tk_mode_id k), r) \<in> set (co_handlers c) \<and> rh_generation_id r = tk_generation_id k)"

lemma task_supported_abort: "task_supported (abort_tasks ks c) k t = task_supported c k t"
  by (simp add: task_supported_def)

text \<open>
  Every active task belongs to the handler now registered for its package and mode and is no newer than its
  document; the tasks of one parser on one document are at one version; and every scheduled task is active,
  cancelled or has an outcome, exactly one of the three.
\<close>

definition coordinator_inv :: "'h coordinator \<Rightarrow> bool" where
  "coordinator_inv c \<longleftrightarrow>
     distinct (map fst (co_handlers c)) \<and> distinct (map fst (co_active_tasks c))
     \<and> (\<forall>(k, t)\<in>set (co_active_tasks c). task_supported c k t)
     \<and> (\<forall>(k, t)\<in>set (co_active_tasks c). \<forall>(k', t')\<in>set (co_active_tasks c).
          same_parser k k' \<longrightarrow> at_document_version t = at_document_version t')
     \<and> ps_scheduled_tasks (co_stats c)
         = ps_cancelled_superseded_tasks (co_stats c) + outcomes (co_stats c) + length (co_active_tasks c)"

lemma coordinator_new_inv: "coordinator_inv (coordinator_new enabled)"
  by (simp add: coordinator_inv_def coordinator_new_def)

text \<open>An operation that only changes what the invariant does not read.\<close>

lemma coordinator_inv_cong:
  assumes "co_handlers c' = co_handlers c" "co_active_tasks c' = co_active_tasks c"
    "co_current_versions c' = co_current_versions c" "co_stats c' = co_stats c"
  shows "coordinator_inv c' = coordinator_inv c"
  using assms by (simp add: coordinator_inv_def task_supported_def)

text \<open>Aborting the tasks that lose their support, after handlers or versions have gone.\<close>

lemma abort_unsupported_inv:
  assumes inv: "coordinator_inv c"
    and c1: "co_active_tasks c1 = co_active_tasks c" "co_stats c1 = co_stats c" "distinct (map fst (co_handlers c1))"
    and rest: "\<And>k t. (k, t) \<in> set (co_active_tasks c) \<Longrightarrow> task_supported c k t \<Longrightarrow> \<not> P (k, t) \<Longrightarrow> task_supported c1 k t"
  shows "coordinator_inv (abort_tasks (task_keys P c1) c1)"
proof -
  have d: "distinct (map fst (co_active_tasks c1))" using inv c1 by (simp add: coordinator_inv_def)
  note a = abort_task_keys[OF d, of P]
  let ?c = "abort_tasks (task_keys P c1) c1"
  have active: "co_active_tasks ?c = filter (\<lambda>x. \<not> P x) (co_active_tasks c)" using a c1 by simp
  have "\<forall>(k, t)\<in>set (co_active_tasks ?c). task_supported ?c k t"
    using inv rest by (auto simp: active coordinator_inv_def task_supported_abort)
  moreover have "\<forall>(k, t)\<in>set (co_active_tasks ?c). \<forall>(k', t')\<in>set (co_active_tasks ?c).
      same_parser k k' \<longrightarrow> at_document_version t = at_document_version t'"
    using inv by (auto simp: active coordinator_inv_def)
  moreover have "distinct (map fst (co_active_tasks ?c))"
    using inv by (simp add: active coordinator_inv_def distinct_map_filter)
  moreover have "ps_scheduled_tasks (co_stats ?c)
      = ps_cancelled_superseded_tasks (co_stats ?c) + outcomes (co_stats ?c) + length (co_active_tasks ?c)"
    using inv a c1 by (simp add: coordinator_inv_def)
  ultimately show ?thesis using c1(3) unfolding coordinator_inv_def by simp
qed

lemma cancel_generation_inv: "coordinator_inv c \<Longrightarrow> coordinator_inv (cancel_generation g c)"
  unfolding cancel_generation_def Let_def
  by (rule abort_unsupported_inv, assumption)
    (auto simp: coordinator_inv_def task_supported_def distinct_map_filter)

lemma cancel_older_generations_inv: "coordinator_inv c \<Longrightarrow> coordinator_inv (cancel_older_generations g c)"
  unfolding cancel_older_generations_def Let_def
  by (rule abort_unsupported_inv, assumption)
    (auto simp: coordinator_inv_def task_supported_def distinct_map_filter)

lemma cancel_package_inv: "coordinator_inv c \<Longrightarrow> coordinator_inv (cancel_package p c)"
  unfolding cancel_package_def Let_def
  by (rule abort_unsupported_inv, assumption)
    (auto simp: coordinator_inv_def task_supported_def distinct_map_filter)

lemma coordinator_remove_document_inv: "coordinator_inv c \<Longrightarrow> coordinator_inv (coordinator_remove_document d c)"
  unfolding coordinator_remove_document_def Let_def
  by (rule abort_unsupported_inv, assumption)
    (auto simp: coordinator_inv_def task_supported_def distinct_map_filter)


text \<open>Registering a handler.\<close>

lemma abort_task_handlers: "abort_task k (c\<lparr>co_handlers := H\<rparr>) = (abort_task k c)\<lparr>co_handlers := H\<rparr>"
  by (simp add: abort_task_def record_metric_def Let_def split: option.split)

lemma abort_tasks_handlers: "abort_tasks ks (c\<lparr>co_handlers := H\<rparr>) = (abort_tasks ks c)\<lparr>co_handlers := H\<rparr>"
  unfolding abort_tasks_def by (induction ks arbitrary: c) (simp_all add: abort_task_handlers)

lemma alist_update_entry:
  assumes "distinct (map fst xs)"
  shows "(k', r) \<in> set (AList.update k v xs) \<longleftrightarrow> (if k' = k then r = v else (k', r) \<in> set xs)"
proof -
  have "(k', r) \<in> set (AList.update k v xs) \<longleftrightarrow> map_of (AList.update k v xs) k' = Some r"
    by (simp add: map_of_eq_Some_iff[OF distinct_update[OF assms]])
  also have "\<dots> \<longleftrightarrow> (if k' = k then r = v else map_of xs k' = Some r)"
    by (auto simp: update_conv')
  finally show ?thesis by (simp add: map_of_eq_Some_iff[OF assms])
qed

lemma alist_delete_distinct: "distinct (map fst xs) \<Longrightarrow> distinct (map fst (AList.delete k xs))"
  by (simp add: AList.delete_eq distinct_map_filter split_def)

lemma register_handler_meta_inv:
  assumes inv: "coordinator_inv c"
  shows "coordinator_inv (fst (register_handler_meta g p m h replace c))"
proof -
  define H where "H = (if (case map_of (co_handlers c) (p, m) of None \<Rightarrow> False | Some r \<Rightarrow> rh_generation_id r = g)
    then AList.delete (p, m) (co_handlers c) else co_handlers c)"
  define P where "P = (\<lambda>(k :: task_key, t :: active_task). tk_package_prefix k = p \<and> tk_mode_id k = m \<and> tk_generation_id k \<noteq> g)"
  let ?r = "\<lparr>rh_generation_id = g, rh_handler = h\<rparr>"
  let ?c1 = "c\<lparr>co_handlers := AList.update (p, m) ?r H\<rparr>"
  have "fst (register_handler_meta g p m h replace c) = c
      \<or> fst (register_handler_meta g p m h replace c) = abort_tasks (task_keys P ?c1) ?c1"
    by (auto simp: register_handler_meta_def Let_def P_def H_def abort_tasks_handlers task_keys_def)
  moreover have "coordinator_inv (abort_tasks (task_keys P ?c1) ?c1)"
  proof (rule abort_unsupported_inv[OF inv])
    have d: "distinct (map fst H)"
      using inv by (auto simp: H_def coordinator_inv_def alist_delete_distinct)
    then show "distinct (map fst (co_handlers ?c1))" by (simp add: distinct_update)
    have keep: "(k, r) \<in> set H" if "(k, r) \<in> set (co_handlers c)" "k \<noteq> (p, m)" for k r
      using that by (auto simp: H_def AList.delete_eq)
    show "task_supported ?c1 k t" if s: "task_supported c k t" and "\<not> P (k, t)" for k t
    proof -
      obtain v r where vr: "co_current_versions c (tk_document_id k) = Some v" "at_document_version t \<le> v"
        "((tk_package_prefix k, tk_mode_id k), r) \<in> set (co_handlers c)" "rh_generation_id r = tk_generation_id k"
        using s by (auto simp: task_supported_def)
      have "\<exists>r. ((tk_package_prefix k, tk_mode_id k), r) \<in> set (AList.update (p, m) ?r H)
          \<and> rh_generation_id r = tk_generation_id k"
      proof (cases "(tk_package_prefix k, tk_mode_id k) = (p, m)")
        case True
        then have "((tk_package_prefix k, tk_mode_id k), ?r) \<in> set (AList.update (p, m) ?r H)
            \<and> rh_generation_id ?r = tk_generation_id k"
          using \<open>\<not> P (k, t)\<close> by (simp add: alist_update_entry[OF d] P_def)
        then show ?thesis by (rule exI)
      next
        case False
        then have "((tk_package_prefix k, tk_mode_id k), r) \<in> set (AList.update (p, m) ?r H)"
          using keep[OF vr(3)] by (simp only: alist_update_entry[OF d]) simp
        then show ?thesis using vr(4) by (intro exI[of _ r] conjI)
      qed
      then show ?thesis using vr(1,2) by (simp add: task_supported_def)
    qed
  qed simp_all
  ultimately show ?thesis using inv by metis
qed

lemma coordinator_call_inv:
  assumes "coordinator_call c c'" and inv: "coordinator_inv c"
  shows "coordinator_inv c'"
  using assms(1)
proof cases
  case (Call_Register_Package p g m h)
  then show ?thesis
    using inv register_handler_meta_inv[OF inv] by (simp add: register_handler_for_generation_def)
qed (use inv in \<open>auto simp: register_handler_meta_inv cancel_generation_inv cancel_older_generations_inv
      cancel_package_inv coordinator_remove_document_inv drain_pending_outputs_def record_native_edit_accepted_def
      parse_subscribe_client_def parse_subscribe_document_def parse_unsubscribe_document_def
      parse_unsubscribe_client_def next_update_def next_diagnostic_def Let_def
      elim!: coordinator_inv_cong[THEN iffD2, rotated 4]\<close>)

text \<open>Scheduling.\<close>

lemma alist_update_new: "k \<notin> fst ` set xs \<Longrightarrow> AList.update k v xs = xs @ [(k, v)]"
  by (induction xs) auto

lemma schedule_inv:
  assumes inv: "coordinator_inv c"
    and b: "begin_schedule d v p m w c = (c', Inr (Some (key, native, h)))"
  shows "coordinator_inv (insert_task key v native c')"
proof -
  obtain r where r: "map_of (co_handlers c) (p, m) = Some r"
    and key: "key = \<lparr>tk_generation_id = rh_generation_id r, tk_document_id = d, tk_package_prefix = p,
      tk_mode_id = m, tk_window_id = w\<rparr>"
    and old: "\<And>cv. co_current_versions c d = Some cv \<Longrightarrow> cv \<le> v"
    using b by (auto simp: begin_schedule_def Let_def split: option.splits if_splits)
  define c1 where "c1 = c\<lparr>co_current_versions := (co_current_versions c)(d \<mapsto> v)\<rparr>"
  define P where "P = (\<lambda>(k :: task_key, t :: active_task). tk_generation_id k = tk_generation_id key \<and> tk_document_id k = d
    \<and> tk_package_prefix k = p \<and> tk_mode_id k = m \<and> (k = key \<or> at_document_version t < v))"
  define c2 where "c2 = abort_tasks (task_keys P c1) c1"
  have c': "c' = c2\<lparr>co_stats := co_stats c2\<lparr>ps_scheduled_tasks := ps_scheduled_tasks (co_stats c2) + 1\<rparr>\<rparr>"
    using b unfolding begin_schedule_def r option.case Let_def key[symmetric]
    by (auto simp: c2_def c1_def P_def[symmetric] split: option.splits if_splits)
  have inv1: "distinct (map fst (co_active_tasks c1))" "distinct (map fst (co_handlers c))"
    using inv by (simp_all add: c1_def coordinator_inv_def)
  note a = abort_task_keys[OF inv1(1), of P, folded c2_def]
  let ?rest = "filter (\<lambda>x. \<not> P x) (co_active_tasks c)"
  let ?t = "\<lparr>at_document_version = v, at_native_edit = native\<rparr>"
  have active: "co_active_tasks c2 = ?rest" using a by (simp add: c1_def)
  have "key \<notin> fst ` set ?rest" by (auto simp: P_def key)
  then have new: "co_active_tasks (insert_task key v native c') = ?rest @ [(key, ?t)]"
    by (simp add: insert_task_def c' active alist_update_new)
  have stats: "ps_scheduled_tasks (co_stats (insert_task key v native c')) = ps_scheduled_tasks (co_stats c) + 1"
    "outcomes (co_stats (insert_task key v native c')) = outcomes (co_stats c)"
    "ps_cancelled_superseded_tasks (co_stats (insert_task key v native c')) + length ?rest
      = ps_cancelled_superseded_tasks (co_stats c) + length (co_active_tasks c)"
    using a by (simp_all add: insert_task_def c' c2_def c1_def)
  have fields: "co_handlers (insert_task key v native c') = co_handlers c"
    "co_current_versions (insert_task key v native c') = (co_current_versions c)(d \<mapsto> v)"
    by (simp_all add: insert_task_def c' c2_def c1_def)
  have bound: "tk_document_id k = d \<Longrightarrow> at_document_version t \<le> v" if "(k, t) \<in> set (co_active_tasks c)" for k t
    using that inv old by (fastforce simp: coordinator_inv_def task_supported_def)
  have "task_supported (insert_task key v native c') k t" if "(k, t) \<in> set ?rest" for k t
    using that inv bound by (fastforce simp: coordinator_inv_def task_supported_def fields)
  moreover have "((p, m), r) \<in> set (co_handlers c)" using r inv1(2) by (simp add: map_of_eq_Some_iff)
  then have "task_supported (insert_task key v native c') key ?t"
    unfolding task_supported_def fields by (auto simp: key)
  moreover have "at_document_version t = v" if "(k, t) \<in> set ?rest" "same_parser k key" for k t
    using that bound by (fastforce simp: P_def key)
  moreover have "distinct (map fst (?rest @ [(key, ?t)]))"
    using inv1(1) \<open>key \<notin> fst ` set ?rest\<close> by (auto simp: c1_def distinct_map_filter)
  ultimately show ?thesis
    using inv inv1 stats by (auto simp: coordinator_inv_def new fields)
qed

text \<open>Finishing.\<close>

lemma length_alist_delete:
  "distinct (map fst xs) \<Longrightarrow> map_of xs k = Some v \<Longrightarrow> length (AList.delete k xs) + 1 = length xs"
proof (induction xs)
  case (Cons x xs)
  then show ?case
    by (cases x) (auto simp: delete_id map_of_eq_None_iff[symmetric] split: if_splits)
qed simp

lemma drop_task_inv:
  assumes inv: "coordinator_inv c" and active: "task_is_active c key v"
    and upd: "\<And>s. outcomes (upd s) = outcomes s + 1" "\<And>s. ps_scheduled_tasks (upd s) = ps_scheduled_tasks s"
      "\<And>s. ps_cancelled_superseded_tasks (upd s) = ps_cancelled_superseded_tasks s"
  shows "coordinator_inv (drop_task key upd c)"
proof -
  obtain t where "map_of (co_active_tasks c) key = Some t"
    using active by (auto simp: task_is_active_def split: option.splits)
  then have "length (AList.delete key (co_active_tasks c)) + 1 = length (co_active_tasks c)"
    using inv by (intro length_alist_delete) (auto simp: coordinator_inv_def)
  moreover have "set (AList.delete key (co_active_tasks c)) \<subseteq> set (co_active_tasks c)"
    by (auto simp: AList.delete_eq)
  moreover have "task_supported (drop_task key upd c) k t = task_supported c k t" for k t
    by (simp add: task_supported_def drop_task_def)
  ultimately show ?thesis
    using inv upd
    by (auto simp: coordinator_inv_def drop_task_def alist_delete_distinct subset_iff) blast+
qed

lemma record_native_publication_fields [simp]:
  "co_handlers (record_native_publication u c) = co_handlers c"
  "co_active_tasks (record_native_publication u c) = co_active_tasks c"
  "co_current_versions (record_native_publication u c) = co_current_versions c"
  by (auto simp: record_native_publication_def Let_def split: option.splits)

lemma finish_task_inv:
  assumes inv: "coordinator_inv c"
  shows "coordinator_inv (finish_task wire order key v result c)"
proof (cases "task_is_active c key v")
  case False
  then show ?thesis using inv by (simp add: finish_task_def)
next
  case True
  have fail: "coordinator_inv (fail_task order key e c)" for e
    using drop_task_inv[OF inv True, of count_failed]
    by (subst coordinator_inv_cong) (simp_all add: fail_task_def fail_locked_def send_diagnostic_def Let_def)
  have reject: "coordinator_inv (reject_task key c)"
    using drop_task_inv[OF inv True, of count_stale] by (simp add: reject_task_def)
  have publish: "coordinator_inv (send_update u (record_native_publication u (publish_update order key u c)))" for u
    using drop_task_inv[OF inv True, of count_published]
    by (subst coordinator_inv_cong[of _ "drop_task key count_published c"])
      (simp_all add: send_update_def publish_update_def Let_def)
  show ?thesis
    using True fail reject publish by (simp add: finish_task_def split: sum.split parse_error.split)
qed

lemma calm_step_inv:
  "calm_step wire order s s' \<Longrightarrow> coordinator_inv (fst s) \<Longrightarrow> coordinator_inv (fst s')"
proof (induction rule: calm_step.induct)
  case (Calm_Call c c' ts)
  then show ?case using coordinator_call_inv by simp
next
  case (Calm_Schedule request windows policy c c' key version handler notification ts)
  then obtain c1 native where "begin_schedule (sr_document_id request) (sr_document_version request)
      (sr_package_prefix request) (sr_mode_id request) (schedule_window_id request windows) c
        = (c1, Inr (Some (key, native, handler)))" "version = sr_document_version request"
      "c' = insert_task key version native c1"
    by (auto simp: schedule_parse_with_windows_def Let_def split: sum.splits prod.splits option.splits)
  then show ?case using schedule_inv Calm_Schedule.prems by simp
qed (simp_all add: finish_task_inv)

lemma calm_run_inv:
  assumes "(calm_step wire order)\<^sup>*\<^sup>* (coordinator_new enabled, {#}) s"
  shows "coordinator_inv (fst s)"
  using assms
  by (induction rule: rtranclp_induct) (simp add: coordinator_new_inv, rule calm_step_inv)

end
