(* ===== verification/Parse_Windows.thy ===== *)
theory Parse_Windows imports Parse_Requests begin

text \<open>
  The document and the parse coordinator together: which of the windows that \<open>Document_Windows\<close> and
  \<open>viewport_parse_window\<close> cut pass the checks of \<open>Parse_Requests\<close>. The central fact is
  \<open>window_edit_fits\<close>: the coordinates of an edit the document accepted agree with the text of a window
  around it.
\<close>

section \<open>Points seen from a window\<close>

lemma text_point_common:
  assumes "is_boundary (p @ q) n" "n \<le> byte_len p"
  shows "text_point (p @ q) n = text_point (p @ r) n"
proof -
  have "is_boundary p n"
    using assms by (metis is_boundary_append_left)
  then obtain p1 p2 where "p = p1 @ p2" "n = byte_len p1" by (rule boundary_split)
  then show ?thesis
    using point_after_text_prefix[of p1 "p2 @ q" "[]" "p2 @ r"] by simp
qed

lemma point_le_relative:
  "point_le base p \<Longrightarrow> \<exists>r. point_relative_to p base = Some r"
  by (auto simp: point_le_def point_relative_to_def checked_sub_def)

lemma text_point_bounds:
  "pp_row (text_point t (byte_len p)) + 0 \<le> byte_len p \<and> pp_column (text_point t (byte_len p)) \<le> byte_len p"
  if "t = p @ q"
proof -
  have "count_list p newline \<le> byte_len p"
    by (rule order_trans[OF count_le_length length_le_byte_len])
  then show ?thesis using that by (simp add: text_point_def Let_def text_line_of_byte_def)
qed

lemma point_at_window_offset_eq:
  assumes w: "window_base_point w = text_point (p @ m1 @ m2 @ q) (byte_len p)" "pw_text w = m1 @ m2"
    and "byte_len p + byte_len m1 \<le> u64_max"
  shows "point_at_window_offset w (byte_len m1)
    = Some (text_point (p @ m1 @ m2 @ q) (byte_len p + byte_len m1))"
proof -
  let ?base = "window_base_point w"
  have base: "pp_row ?base \<le> byte_len p" "pp_column ?base \<le> byte_len p"
    using text_point_bounds[of "p @ m1 @ m2 @ q" p "m1 @ m2 @ q"] w(1) by simp_all
  have fields: "pw_base_line w = pp_row ?base" "pw_base_column w = pp_column ?base"
    by (simp_all add: window_base_point_def)
  have get: "text_get_prefix (pw_text w) (byte_len m1) = Some m1"
    by (simp add: text_get_prefix_def w(2) boundary_prefix)
  have count: "count_list m1 newline \<le> byte_len m1"
    by (rule order_trans[OF count_le_length length_le_byte_len])
  have "point_at_window_offset w (byte_len m1) = Some (point_after_text ?base m1)"
  proof (cases "rsplit_newline m1")
    case None
    then have "newline \<notin> set m1" by (simp add: rsplit_newline_None)
    then show ?thesis
      using base assms(3) None
      by (simp add: point_at_window_offset_def try_usize_def get point_after_text_def fields wrap_add_exact)
  next
    case (Some bt)
    obtain b tr where bt: "bt = (b, tr)" by force
    have s: "m1 = b @ newline # tr" "newline \<notin> set tr" using rsplit_newline_Some[of m1 b tr] Some bt by auto
    then have "count_list m1 newline = count_list b newline + 1" by simp
    then show ?thesis
      using base assms(3) Some bt count
      by (simp add: point_at_window_offset_def try_usize_def get point_after_text_def fields wrap_add_exact)
  qed
  then show ?thesis
    using point_after_text_prefix[of p "m1 @ m2 @ q" m1 "m2 @ q"] w(1) by simp
qed

text \<open>
  A window of the edited text around the edit, whose counterpart in the old text also fits the policy:
  the coordinator's check of the edit against the window succeeds.
\<close>

lemma window_edit_fits:
  assumes valid: "valid_op t e" and fits: "byte_len (edited_text t e) \<le> u64_max"
    and range: "valid_range (edited_text t e) (pw_byte_start w) (pw_byte_end w)"
    and cut: "pw_text w = text_slice (edited_text t e) (pw_byte_start w) (pw_byte_end w)"
    and base: "window_base_point w = text_point (edited_text t e) (pw_byte_start w)"
    and inside: "pw_byte_start w \<le> op_start e" "op_start e + byte_len (op_text e) \<le> pw_byte_end w"
    and old: "pw_byte_end w - pw_byte_start w + (op_end e - op_start e) \<le> max_window + byte_len (op_text e)"
  shows "edit_fits_window (parse_edit_of t v e) w (byte_len (pw_text w)) max_window"
proof -
  let ?t = "edited_text t e" and ?s = "pw_byte_start w" and ?x = "op_text e"
  note b = valid_opD[OF valid]
  obtain p m q where t: "t = p @ m @ q" and pm: "op_start e = byte_len p" "op_end e = byte_len p + byte_len m"
    and new: "?t = p @ ?x @ q"
    using valid_op_split[OF valid] .
  have bnd: "is_boundary ?t ?s" using valid_rangeD(1)[OF range] .
  obtain p1 p2 where p: "p = p1 @ p2" "?s = byte_len p1"
  proof -
    have "is_boundary p ?s" using bnd inside(1) by (simp add: new pm is_boundary_append_left)
    then show thesis using that by (metis boundary_split)
  qed
  have endb: "is_boundary ?t (pw_byte_end w)" using valid_rangeD(2)[OF range] .
  obtain q1 q2 where q: "q = q1 @ q2" "pw_byte_end w = byte_len p + byte_len ?x + byte_len q1"
  proof -
    have "is_boundary q (pw_byte_end w - (byte_len p + byte_len ?x))"
      using endb inside(2) is_boundary_append[of "p @ ?x" q "pw_byte_end w - (byte_len p + byte_len ?x)"]
      by (simp add: new pm)
    then obtain q1 q2 where "q = q1 @ q2" "pw_byte_end w - (byte_len p + byte_len ?x) = byte_len q1"
      by (rule boundary_split)
    then show thesis using inside(2) pm by (intro that) auto
  qed
  have wtext: "pw_text w = p2 @ ?x @ q1"
    using text_slice_parts[of p1 "p2 @ ?x @ q1" q2] by (simp add: cut new p q add.assoc)
  have base': "window_base_point w = text_point t ?s"
    using text_point_common[of p "?x @ q" ?s "m @ q"] bnd inside(1) base
    unfolding new pm(1) by (simp add: t)
  have le: "point_le (window_base_point w) (text_point t (op_start e))"
    "point_le (window_base_point w) (text_point t (op_end e))"
    using inside(1) b pm by (simp_all add: base' text_point_mono)
  have "point_le (window_base_point w) (text_point ?t (op_start e + byte_len ?x))"
    using inside(1) by (simp add: base text_point_mono)
  with le obtain rs ro rn where
    "point_relative_to (text_point t (op_start e)) (window_base_point w) = Some rs"
    "point_relative_to (text_point t (op_end e)) (window_base_point w) = Some ro"
    "point_relative_to (text_point ?t (op_start e + byte_len ?x)) (window_base_point w) = Some rn"
    using point_le_relative by metis
  then obtain r where r: "edit_relative_to_window (parse_edit_of t v e) w = Some r"
    using inside b pm by (simp add: edit_relative_to_window_def parse_edit_of_def checked_sub_def Let_def)
  have offs: "pe_start_byte r = byte_len p2" "pe_old_end_byte r = byte_len p2 + byte_len m"
    "pe_new_end_byte r = byte_len p2 + byte_len ?x"
    using edit_relative_to_windowD[OF r] p pm by (simp_all add: parse_edit_of_def)
  have len: "byte_len p1 + byte_len p2 + byte_len ?x \<le> u64_max"
    using fits by (simp add: new p)
  have "point_at_window_offset w (byte_len p2) = Some (text_point (p1 @ p2 @ (?x @ q1) @ q2) (byte_len p1 + byte_len p2))"
    by (rule point_at_window_offset_eq) (use base len in \<open>simp_all add: new p q wtext\<close>)
  moreover have "text_point (p1 @ p2 @ (?x @ q1) @ q2) (byte_len p1 + byte_len p2) = text_point t (op_start e)"
    using text_point_common[of p "?x @ q" "byte_len p" "m @ q"] boundary_prefix[of p "?x @ q"]
    by (simp add: t pm p q)
  moreover have "point_at_window_offset w (byte_len (p2 @ ?x))
      = Some (text_point (p1 @ (p2 @ ?x) @ q1 @ q2) (byte_len p1 + byte_len (p2 @ ?x)))"
    by (rule point_at_window_offset_eq) (use base len in \<open>simp_all add: new p q wtext\<close>)
  moreover have "int (byte_len (pw_text w)) - (int (pe_new_end_byte r) - int (pe_old_end_byte r))
      = int (byte_len p2 + byte_len m + byte_len q1)"
    by (simp add: wtext offs)
  moreover have "byte_len p2 + byte_len m + byte_len q1 \<le> max_window"
    using old by (simp add: p q pm)
  ultimately show ?thesis
    by (simp add: edit_fits_window_def r Let_def offs wtext)
      (simp add: parse_edit_of_def new pm p q add.assoc)
qed


section \<open>The window the document cuts after an edit\<close>

text \<open>What is retained for one parser: a window the policy allows, named by where it starts.\<close>

definition retained_window_ok :: "parse_policy \<Rightarrow> ustr \<Rightarrow> ustr \<Rightarrow> 'r document_state \<Rightarrow> bool" where
  "retained_window_ok policy pp m d \<longleftrightarrow>
     (\<forall>w. ds_retained_parse_windows d (pp, m) = Some w \<and> rw_version w = ds_version d \<longrightarrow>
        rw_window_id w = rw_byte_start w \<and> rw_byte_start w \<le> rw_byte_end w
        \<and> rw_byte_end w - rw_byte_start w \<le> po_max_window_bytes policy)"

context crop_rope begin

lemma parse_window_after_edit_cases:
  assumes fits: "document_fits R d"
    and run: "parse_window_after_edit R d pp m policy edit = (d', Inr (Some w))"
  obtains (whole) "byte_len (document_string R d) \<le> po_max_window_bytes policy"
      "window_ok R d (po_max_window_bytes policy) w" "pw_window_id w = 0" "pw_byte_start w = 0"
      "pw_byte_end w = byte_len (document_string R d)" "pw_incremental_edit w"
      "d' = retain_window d pp m 0 0 (byte_len (document_string R d))"
  | (continued) w0 where "po_max_window_bytes policy < byte_len (document_string R d)"
      "window_ok R d (po_max_window_bytes policy) w" "ds_retained_parse_windows d (pp, m) = Some w0"
      "transformed_window_end R d policy edit w0 = Some (w0, pw_byte_end w)"
      "pw_window_id w = rw_window_id w0" "pw_byte_start w = rw_byte_start w0" "pw_incremental_edit w"
      "d' = retain_window d pp m (rw_window_id w0) (pw_byte_start w) (pw_byte_end w)"
  | (fresh) "po_max_window_bytes policy < byte_len (document_string R d)"
      "window_ok R d (po_max_window_bytes policy) w" "pw_window_id w = pw_byte_start w"
      "\<not> pw_incremental_edit w"
      "d' = retain_window d pp m (pw_byte_start w) (pw_byte_start w) (pw_byte_end w)"
proof (cases "byte_len (document_string R d) \<le> po_max_window_bytes policy")
  case True
  let ?r = "\<lparr>pr_start = 0, pr_end = byte_len (document_string R d)\<rparr>"
  obtain w1 where w1: "document_parse_window_snapshot R d pp m ?r (po_max_window_bytes policy) = Inr w1"
    "w = w1\<lparr>pw_incremental_edit := True\<rparr>"
    "d' = retain_window d pp m 0 0 (byte_len (document_string R d))"
    using run True
    by (auto simp: parse_window_after_edit_def Let_def document_string_def split: if_splits sum.splits)
  show thesis
    using document_parse_window_snapshot_ok[OF fits w1(1)] True w1(2,3) by (intro whole) simp_all
next
  case False
  obtain i s x inc w1 where b: "window_bounds_after_edit R d policy edit
      (ds_retained_parse_windows d (pp, m)) = Inr (i, s, x, inc)"
    and w1: "document_parse_window_snapshot R d pp m \<lparr>pr_start = s, pr_end = x\<rparr> (po_max_window_bytes policy) = Inr w1"
      "w = w1\<lparr>pw_window_id := i, pw_incremental_edit := inc\<rparr>" "d' = retain_window d pp m i s x"
    using run False
    by (auto simp: parse_window_after_edit_def Let_def document_string_def split: if_splits sum.splits prod.splits)
  note ok = document_parse_window_snapshot_ok[OF fits w1(1)]
  show thesis
  proof (cases "Option.bind (ds_retained_parse_windows d (pp, m)) (transformed_window_end R d policy edit)")
    case None
    then have "i = s \<and> \<not> inc"
      using b by (auto simp: window_bounds_after_edit_def bind_result_Inr Let_def)
    then show thesis using False ok w1(2,3) by (intro fresh) simp_all
  next
    case (Some wx)
    then obtain w0 where w0: "ds_retained_parse_windows d (pp, m) = Some w0"
      "transformed_window_end R d policy edit w0 = Some wx"
      by (auto simp: bind_eq_Some_conv)
    then have wx: "wx = (w0, snd wx)"
      by (auto simp: transformed_window_end_def split: if_splits option.splits)
    moreover have "i = rw_window_id w0 \<and> s = rw_byte_start w0 \<and> x = snd wx \<and> inc"
      using b Some by (subst (asm) wx) (auto simp: window_bounds_after_edit_def)
    ultimately show thesis using False ok w0 w1(2,3) by (intro continued[of w0]) simp_all
  qed
qed

text \<open>What the coordinator's window check says to such a window, apart from the edit.\<close>

lemma snapshot_request_verdict:
  assumes w: "window_ok R d (po_max_window_bytes policy) w" and fits: "document_fits R d"
    and policy: "policy_ok policy" and edit: "edit_is_valid edit" "pe_document_version edit = ds_version d"
    and id: "pw_window_id w = pw_byte_start w"
  shows "validate_schedule (snapshot_request (ds_document_id d) (ds_version d) bv w (window_byte_range w) (Some edit))
       [w] (Some policy)
    = (if pw_incremental_edit w
          \<and> \<not> edit_fits_window edit w (byte_len (pw_text w)) (po_max_window_bytes policy)
       then Inl Parse_InvalidAcceptedEdit else Inr ())"
proof -
  let ?req = "snapshot_request (ds_document_id d) (ds_version d) bv w (window_byte_range w) (Some edit)"
  have le: "pw_byte_start w \<le> pw_byte_end w" and len: "byte_len (pw_text w) = pw_byte_end w - pw_byte_start w"
    and max: "byte_len (pw_text w) \<le> po_max_window_bytes policy" and "pw_byte_end w \<le> byte_len (document_string R d)"
    using w is_boundary_le[of "document_string R d"] by (auto simp: window_ok_def valid_range_def)
  then have u64: "byte_len (pw_text w) \<le> u64_max" using fits by (simp add: document_fits_def)
  have "range_is_valid (edited_range edit (window_byte_range w))"
    using le by (auto simp: edited_range_def range_is_valid_def window_byte_range_def clamp_def Let_def)
  then have ranges: "validate_request_ranges ?req = Inr ()"
    using le edit by (auto simp: validate_request_ranges_Inr snapshot_request_def range_is_valid_def window_byte_range_def)
  have pol: "validate_parse_policy (Some policy) = Inr ()" using policy by (simp add: validate_parse_policy_Inr)
  have "byte_len (pw_text w) \<le> po_memory_budget_bytes policy" using max policy by (simp add: policy_ok_def)
  moreover have "validate_window_snapshot ?req (po_max_window_bytes policy) 0 w =
      (if pw_incremental_edit w \<and> \<not> edit_fits_window edit w (byte_len (pw_text w)) (po_max_window_bytes policy)
       then Inl Parse_InvalidAcceptedEdit else Inr (byte_len (pw_text w)))"
    using w id le len max u64
    by (simp add: validate_window_snapshot_def snapshot_request_def window_ok_def range_is_valid_def
        window_byte_range_def range_len_def try_usize_def Let_def)
  ultimately show ?thesis
    using u64 ranges pol
    by (simp add: validate_schedule_def validate_window_snapshots_def policy_max_window_bytes_def
        policy_memory_budget_bytes_def sat_add_def)
qed

text \<open>
  The verdict on the window cut after an accepted edit: it is refused exactly when the edit shrank a
  document that needed several windows to one that fits a single window.
\<close>

lemma window_after_edit_verdict:
  assumes fits: "document_fits R d'" and policy: "policy_ok policy"
    and valid: "valid_op t e" and d': "document_string R d' = edited_text t e"
    and v: "v < u64_max" "ds_version d' = v + 1"
    and old: "\<And>w. ds_retained_parse_windows d' (pp, m) = Some w \<Longrightarrow> rw_version w = v \<Longrightarrow>
        rw_window_id w = rw_byte_start w \<and> rw_byte_start w \<le> rw_byte_end w
        \<and> rw_byte_end w - rw_byte_start w \<le> po_max_window_bytes policy"
    and run: "parse_window_after_edit R d' pp m policy (parse_edit_of t v e) = (d'', Inr (Some w))"
  shows "validate_schedule (snapshot_request (ds_document_id d') (ds_version d') bv w (window_byte_range w)
            (Some (parse_edit_of t v e))) [w] (Some policy)
       = (if po_max_window_bytes policy < byte_len t \<and> byte_len (document_string R d') \<le> po_max_window_bytes policy
          then Inl Parse_InvalidAcceptedEdit else Inr ())
     \<and> retained_window_ok policy pp m d''"
proof -
  let ?max = "po_max_window_bytes policy" and ?edit = "parse_edit_of t v e"
  have edit: "edit_is_valid ?edit" "pe_document_version ?edit = ds_version d'"
    using parse_edit_of_valid[OF valid v(1)] v(2) by (simp_all add: parse_edit_of_def)
  note b = valid_opD[OF valid]
  have op: "op_start e \<le> op_end e" "op_end e \<le> byte_len t" using b is_boundary_le by auto
  have len: "byte_len (edited_text t e) = byte_len t - (op_end e - op_start e) + byte_len (op_text e)"
    by (rule valid_op_split[OF valid]) simp
  have small: "byte_len (edited_text t e) \<le> u64_max" using fits d' by (simp add: document_fits_def)
  from fits run show ?thesis
  proof (cases rule: parse_window_after_edit_cases)
    case whole
    have fit: "edit_fits_window ?edit w (byte_len (pw_text w)) ?max \<longleftrightarrow> byte_len t \<le> ?max"
    proof
      assume "edit_fits_window ?edit w (byte_len (pw_text w)) ?max"
      then obtain r where r: "edit_relative_to_window ?edit w = Some r"
        "int (byte_len (pw_text w)) - (int (pe_new_end_byte r) - int (pe_old_end_byte r)) \<le> int ?max"
        by (auto simp: edit_fits_window_def Let_def split: option.splits if_splits)
      moreover have "byte_len (pw_text w) = byte_len (edited_text t e)"
        using whole(2,4,5) d' by (simp add: window_ok_def)
      ultimately show "byte_len t \<le> ?max"
        using edit_relative_to_windowD[OF r(1)] len op by (simp add: parse_edit_of_def)
    next
      assume "byte_len t \<le> ?max"
      then show "edit_fits_window ?edit w (byte_len (pw_text w)) ?max"
        by (intro window_edit_fits[OF valid small])
          (use whole op len d' in \<open>auto simp: window_ok_def\<close>)
    qed
    show ?thesis
      using snapshot_request_verdict[OF whole(2) fits policy edit, of bv] whole fit
      by (simp add: retained_window_ok_def retain_window_def)
  next
    case (continued w0)
    note ok = old[OF continued(3)]
    have te: "rw_version w0 = v" "rw_byte_start w0 \<le> op_start e" "op_end e \<le> rw_byte_end w0"
      "pw_byte_end w = op_start e + byte_len (op_text e) + (rw_byte_end w0 - op_end e)"
      "pw_byte_end w - rw_byte_start w0 \<le> ?max"
      using continued(4)
      by (auto simp: transformed_window_end_def parse_edit_of_def shift_offset_def Let_def split: if_splits option.splits)
    have "edit_fits_window ?edit w (byte_len (pw_text w)) ?max"
      by (rule window_edit_fits[OF valid small])
        (use continued te ok[OF te(1)] op d' in \<open>auto simp: window_ok_def\<close>)
    then show ?thesis
      using snapshot_request_verdict[OF continued(2) fits policy edit, of bv] continued ok[OF te(1)] te
      by (auto simp: retained_window_ok_def retain_window_def)
  next
    case fresh
    then show ?thesis
      using snapshot_request_verdict[OF fresh(2) fits policy edit, of bv]
      by (auto simp: retained_window_ok_def retain_window_def window_ok_def valid_range_def)
  qed
qed

end


section \<open>The window of a viewport\<close>

lemma str_floor_char_boundary_eq: "str_floor_char_boundary t n = floor_boundary t n" if "n \<le> byte_len t"
  using that
proof (induction n)
  case 0
  then show ?case by (simp add: floor_boundary_def)
next
  case (Suc n)
  then show ?case using floor_boundary_Suc[of t n] by (cases "is_boundary t (Suc n)") auto
qed

lemma str_ceil_char_boundary_spec:
  "n \<le> byte_len t \<Longrightarrow> n \<le> str_ceil_char_boundary t n \<and> str_ceil_char_boundary t n \<le> byte_len t
     \<and> is_boundary t (str_ceil_char_boundary t n)"
proof (induction t n rule: str_ceil_char_boundary.induct)
  case (1 t n)
  show ?case
  proof (cases "n < byte_len t \<and> \<not> is_boundary t n")
    case True
    then show ?thesis
      using 1(1)[OF True] by (subst (1 2 3) str_ceil_char_boundary.simps) auto
  next
    case False
    then have "n = byte_len t \<or> is_boundary t n" using "1.prems" by auto
    then show ?thesis using False "1.prems" by (subst (1 2 3) str_ceil_char_boundary.simps) auto
  qed
qed

text \<open>The window always lies on boundaries of the text and within the policy.\<close>

lemma viewport_parse_window_ok:
  assumes fits: "byte_len t \<le> u64_max"
    and run: "viewport_parse_window document_id version t pp m policy requested = Some (w, viewport)"
  shows "valid_range t (pw_byte_start w) (pw_byte_end w)"
    and "pw_byte_end w - pw_byte_start w \<le> po_max_window_bytes policy"
    and "pw_text w = text_slice t (pw_byte_start w) (pw_byte_end w)"
    and "pw_window_id w = pw_byte_start w" "\<not> pw_incremental_edit w"
    and "pw_document_id w = document_id" "pw_document_version w = version"
    and "pr_start viewport < pr_end viewport" "pr_end viewport \<le> byte_len t"
proof -
  let ?max = "po_max_window_bytes policy"
  define vs where "vs = str_floor_char_boundary t (min (pr_start requested) (byte_len t))"
  define ve where "ve = str_floor_char_boundary t
    (min (min (max (pr_end requested) vs) (byte_len t)) (sat_add vs (min ?max incremental_parse_update_budget_bytes)))"
  define before where "before = min (po_guard_bytes policy) ((?max - (ve - vs)) div 2)"
  define after where "after = min (po_guard_bytes policy) (?max - (ve - vs) - before)"
  define s where "s = str_floor_char_boundary t (vs - before)"
  define e where "e = str_ceil_char_boundary t (min (sat_add ve after) (byte_len t))"
  define a where "a = (if byte_len t \<le> ?max then 0 else s)"
  define z where "z = (if byte_len t \<le> ?max then byte_len t
    else if e - s > ?max then str_floor_char_boundary t (sat_add s ?max) else e)"
  have vs: "vs \<le> byte_len t" by (simp add: vs_def str_floor_char_boundary_eq floor_boundary_le_len)
  have ve: "ve \<le> byte_len t" by (simp add: ve_def str_floor_char_boundary_eq floor_boundary_le_len)
  have fields: "pw_byte_start w = a" "pw_byte_end w = z" "pw_text w = text_slice t a z" "pw_window_id w = a"
      "\<not> pw_incremental_edit w" "pw_document_id w = document_id" "pw_document_version w = version"
      "viewport = \<lparr>pr_start = vs, pr_end = ve\<rparr>" "vs < ve"
  proof -
    have bounds: "(if byte_len t \<le> ?max then (0, byte_len t)
        else if ?max < e - s then (s, str_floor_char_boundary t (sat_add s ?max)) else (s, e)) = (a, z)"
      by (simp add: a_def z_def)
    have "viewport_parse_window document_id version t pp m policy requested =
      (if vs \<ge> ve then None
       else let prefix = text_slice t 0 a in
         Some (\<lparr>pw_document_id = document_id, pw_document_version = version, pw_package_prefix = pp,
            pw_mode_id = m, pw_window_id = a, pw_byte_start = a, pw_byte_end = z,
            pw_base_line = count_list prefix newline,
            pw_base_column = (case rsplit_newline prefix of
                None \<Rightarrow> byte_len prefix | Some (_, trailing) \<Rightarrow> byte_len trailing),
            pw_incremental_edit = False, pw_text = text_slice t a z\<rparr>, \<lparr>pr_start = vs, pr_end = ve\<rparr>))"
      unfolding viewport_parse_window_def Let_def range_len_def parse_byte_range.simps vs_def[symmetric]
        ve_def[symmetric] before_def[symmetric] after_def[symmetric] s_def[symmetric] e_def[symmetric] bounds
      by (simp only: prod.case)
    then show "pw_byte_start w = a" "pw_byte_end w = z" "pw_text w = text_slice t a z" "pw_window_id w = a"
      "\<not> pw_incremental_edit w" "pw_document_id w = document_id" "pw_document_version w = version"
      "viewport = \<lparr>pr_start = vs, pr_end = ve\<rparr>" "vs < ve"
      using run by (auto simp: Let_def split: if_splits)
  qed
  have s: "is_boundary t s" "s \<le> vs"
    using vs floor_boundary_le[of t "vs - before"] by (simp_all add: s_def str_floor_char_boundary_eq)
  have e: "is_boundary t e" "min (sat_add ve after) (byte_len t) \<le> e" "e \<le> byte_len t"
    using str_ceil_char_boundary_spec[of "min (sat_add ve after) (byte_len t)" t] by (simp_all add: e_def)
  have "ve \<le> e" using e(2) ve fits sat_add_ge[of ve after] by linarith
  have "valid_range t a z \<and> z - a \<le> ?max"
  proof (cases "byte_len t \<le> ?max \<or> e - s \<le> ?max")
    case True
    then show ?thesis
      using s e \<open>ve \<le> e\<close> fields(9) by (auto simp: a_def z_def valid_range_def)
  next
    case False
    then have "sat_add s ?max \<le> byte_len t" using e(3) sat_add_le[of s ?max] by linarith
    then have z: "z = floor_boundary t (sat_add s ?max)" "a = s"
      using False by (simp_all add: a_def z_def str_floor_char_boundary_eq)
    have "s \<le> sat_add s ?max" using s vs fits by (intro sat_add_ge) simp
    then have "s \<le> z" unfolding z by (rule floor_boundary_greatest[OF s(1)])
    moreover have "z \<le> s + ?max"
      using floor_boundary_le[of t "sat_add s ?max"] sat_add_le[of s ?max] by (simp add: z)
    ultimately show ?thesis using s(1) by (simp add: z valid_range_def)
  qed
  then show "valid_range t (pw_byte_start w) (pw_byte_end w)"
    "pw_byte_end w - pw_byte_start w \<le> ?max"
    "pw_text w = text_slice t (pw_byte_start w) (pw_byte_end w)"
    "pw_window_id w = pw_byte_start w" "\<not> pw_incremental_edit w"
    "pw_document_id w = document_id" "pw_document_version w = version"
    "pr_start viewport < pr_end viewport" "pr_end viewport \<le> byte_len t"
    using ve fields by simp_all
qed

lemma viewport_window_accepted:
  assumes fits: "byte_len t \<le> u64_max" and policy: "policy_ok policy"
    and run: "viewport_parse_window document_id version t pp m policy requested = Some (w, viewport)"
  shows "validate_schedule (snapshot_request document_id version bv w viewport None) [w] (Some policy) = Inr ()"
proof -
  note ok = viewport_parse_window_ok[OF fits run]
  have "byte_len (pw_text w) = pw_byte_end w - pw_byte_start w"
    using byte_len_text_slice[of t "pw_byte_start w" "pw_byte_end w"] ok(1,3) by (simp add: valid_range_def)
  then show ?thesis
    using ok policy is_boundary_le[of t "pw_byte_end w"] fits
    by (auto simp: validate_schedule_Inr validate_request_ranges_Inr snapshot_request_def range_is_valid_def
        snapshot_ok_def valid_range_def policy_max_window_bytes_def policy_memory_budget_bytes_def policy_ok_def)
qed

end
