(* ===== verification/Chunk_Caches.thy ===== *)
theory Chunk_Caches imports Diagnostic_Sets Document_Windows "HOL-Library.Sublist" begin

text \<open>
  The two bounded caches of published chunks: \<open>SyntaxChunkCache\<close> of \<open>server/decorations.rs\<close> and
  \<open>DiagnosticChunkCache\<close> of \<open>server/diagnostics.rs\<close>. They keep the same state and the same
  eviction code over their own kind of key, so one record and one set of operations, polymorphic in the
  key, model both; \<open>insert_validated_set\<close>, where they differ, is defined for each.

  What both promise is proved once, in the locale \<open>chunk_insertion\<close>, and interpreted for each.
\<close>

section \<open>State and eviction\<close>

record 'k chunk =
  ck_key :: 'k
  ck_byte_size :: nat
  ck_span_count :: nat
  ck_last_access :: nat

record 'k chunk_cache =
  cc_budget_bytes :: nat
  cc_retained_bytes :: nat
  cc_evicted_chunks :: nat
  cc_access_counter :: nat
  cc_chunks :: "'k chunk list"

record cache_snapshot =
  cs_budget_bytes :: nat
  cs_retained_bytes :: nat
  cs_chunk_count :: nat
  cs_evicted_chunks :: nat

definition with_budget :: "nat \<Rightarrow> 'k chunk_cache" where
  "with_budget budget_bytes =
     \<lparr>cc_budget_bytes = budget_bytes, cc_retained_bytes = 0, cc_evicted_chunks = 0, cc_access_counter = 0,
      cc_chunks = []\<rparr>"

definition cache_snapshot_of :: "'k chunk_cache \<Rightarrow> cache_snapshot" where
  "cache_snapshot_of c =
     \<lparr>cs_budget_bytes = cc_budget_bytes c, cs_retained_bytes = cc_retained_bytes c,
      cs_chunk_count = length (cc_chunks c), cs_evicted_chunks = cc_evicted_chunks c\<rparr>"

text \<open>\<open>iter().map(byte_size).sum()\<close>, a sum of \<open>usize\<close>.\<close>

definition sum_sizes :: "'k chunk list \<Rightarrow> nat" where
  "sum_sizes chunks = fold (\<lambda>chunk total. wrap_add total (ck_byte_size chunk)) chunks 0"

definition retain_chunks :: "('k chunk \<Rightarrow> bool) \<Rightarrow> 'k chunk_cache \<Rightarrow> 'k chunk_cache" where
  "retain_chunks keep c =
     (let before = length (cc_chunks c);
          chunks = filter keep (cc_chunks c)
      in c\<lparr>cc_chunks := chunks,
           cc_evicted_chunks := sat_add (cc_evicted_chunks c) (before - length chunks),
           cc_retained_bytes := sum_sizes chunks\<rparr>)"

definition next_access :: "'k chunk_cache \<Rightarrow> nat \<times> 'k chunk_cache" where
  "next_access c = (let n = sat_add (cc_access_counter c) 1 in (n, c\<lparr>cc_access_counter := n\<rparr>))"

definition remove_key :: "'k \<Rightarrow> 'k chunk_cache \<Rightarrow> 'k chunk_cache" where
  "remove_key key c = retain_chunks (\<lambda>chunk. ck_key chunk \<noteq> key) c"

text \<open>\<open>min_by_key\<close> over the enumerated chunks: the first of the least recently used.\<close>

fun oldest_index :: "'k chunk list \<Rightarrow> nat option" where
  "oldest_index [] = None"
| "oldest_index (chunk # chunks) =
     (case oldest_index chunks of
        None \<Rightarrow> Some 0
      | Some i \<Rightarrow> if ck_last_access chunk \<le> ck_last_access (chunks ! i) then Some 0 else Some (Suc i))"

lemma oldest_index_Some:
  "oldest_index chunks = Some i \<Longrightarrow>
     i < length chunks \<and> (\<forall>chunk\<in>set chunks. ck_last_access (chunks ! i) \<le> ck_last_access chunk)
     \<and> (\<forall>j<i. ck_last_access (chunks ! i) < ck_last_access (chunks ! j))"
proof (induction chunks arbitrary: i)
  case (Cons chunk chunks)
  show ?case
  proof (cases "oldest_index chunks")
    case None
    then show ?thesis using Cons.prems by (cases chunks) (auto split: option.splits if_splits)
  next
    case (Some k)
    note IH = Cons.IH[OF Some]
    show ?thesis
    proof (cases "ck_last_access chunk \<le> ck_last_access (chunks ! k)")
      case True
      then show ?thesis using Cons.prems Some IH by (auto intro: order_trans)
    next
      case False
      then have "i = Suc k" using Cons.prems Some by simp
      then show ?thesis using False IH by (auto simp: less_Suc_eq_0_disj)
    qed
  qed
qed simp

lemma oldest_index_None: "oldest_index chunks = None \<longleftrightarrow> chunks = []"
  by (cases chunks) (auto split: option.splits)

function evict_lru_until_budget :: "'k chunk_cache \<Rightarrow> 'k chunk_cache" where
  "evict_lru_until_budget c =
     (if cc_retained_bytes c > cc_budget_bytes c then
        case oldest_index (cc_chunks c) of
          None \<Rightarrow> c
        | Some i \<Rightarrow>
            let removed = cc_chunks c ! i in
            evict_lru_until_budget
              (c\<lparr>cc_chunks := remove_at i (cc_chunks c),
                 cc_retained_bytes := cc_retained_bytes c - ck_byte_size removed,
                 cc_evicted_chunks := sat_add (cc_evicted_chunks c) 1\<rparr>)
      else c)"
  by pat_completeness auto
termination
  by (relation "measure (length \<circ> cc_chunks)") (auto simp: remove_at_def dest!: oldest_index_Some)

declare evict_lru_until_budget.simps [simp del]

definition near_viewport_guard_bytes :: nat where
  "near_viewport_guard_bytes = 256 * 1024"

definition ranges_intersect :: "nat \<Rightarrow> nat \<Rightarrow> nat \<Rightarrow> nat \<Rightarrow> bool" where
  "ranges_intersect left_start left_end right_start right_end \<longleftrightarrow>
     left_start < right_end \<and> left_end > right_start"

section \<open>The decoration cache\<close>

definition syntax_chunk_cache_default :: "decoration_chunk_key chunk_cache" where
  "syntax_chunk_cache_default = with_budget syntax_cache_budget_bytes"

definition evict_decorations_outside_near_viewport ::
  "nat \<Rightarrow> nat \<Rightarrow> nat \<Rightarrow> nat \<Rightarrow> nat \<Rightarrow> decoration_chunk_key chunk_cache \<Rightarrow> decoration_chunk_key chunk_cache" where
  "evict_decorations_outside_near_viewport document_id document_version viewport_start viewport_end guard_bytes c =
     (let near_start = viewport_start - guard_bytes; near_end = sat_add viewport_end guard_bytes in
      retain_chunks (\<lambda>chunk. dk_document_id (ck_key chunk) \<noteq> document_id
        \<or> dk_document_version (ck_key chunk) \<noteq> document_version
        \<or> ranges_intersect (dk_byte_start (ck_key chunk)) (dk_byte_end (ck_key chunk)) near_start near_end) c)"

definition insert_decoration_set ::
  "(decoration_set \<Rightarrow> nat option) \<Rightarrow> ustr \<Rightarrow> decoration_chunk_key chunk_cache \<Rightarrow> decoration_set
    \<Rightarrow> decoration_chunk_key chunk_cache \<times> (decoration_error + cache_snapshot)" where
  "insert_decoration_set wire package_prefix c s =
     (case wire s of
        None \<Rightarrow> (c, Inl Decoration_SerializationFailed)
      | Some bytes \<Rightarrow>
          if bytes > cc_budget_bytes c then (c, Inl (Decoration_CacheBudgetExceeded bytes (cc_budget_bytes c)))
          else
            let key = decoration_chunk_key_of s package_prefix;
                (last_access, c) = next_access c;
                chunk = \<lparr>ck_key = key, ck_byte_size = bytes, ck_span_count = length (de_spans s),
                         ck_last_access = last_access\<rparr>;
                c = remove_key key c;
                c = (if ck_span_count chunk > 0
                     then c\<lparr>cc_retained_bytes := wrap_add (cc_retained_bytes c) (ck_byte_size chunk),
                            cc_chunks := cc_chunks c @ [chunk]\<rparr>
                     else c);
                c = evict_decorations_outside_near_viewport (de_document_id s) (de_document_version s)
                      (de_viewport_byte_start s) (de_viewport_byte_end s) near_viewport_guard_bytes c;
                c = evict_lru_until_budget c
            in (c, Inr (cache_snapshot_of c)))"

section \<open>The diagnostic cache\<close>

definition diagnostic_cache_budget_bytes :: nat where
  "diagnostic_cache_budget_bytes = 8 * 1024 * 1024"

definition diagnostic_chunk_cache_default :: "diagnostic_chunk_key chunk_cache" where
  "diagnostic_chunk_cache_default = with_budget diagnostic_cache_budget_bytes"

definition evict_diagnostics_outside_near_viewport ::
  "nat \<Rightarrow> nat \<Rightarrow> nat \<Rightarrow> nat \<Rightarrow> diagnostic_chunk_key chunk_cache \<Rightarrow> diagnostic_chunk_key chunk_cache" where
  "evict_diagnostics_outside_near_viewport document_id document_version viewport_start viewport_end c =
     (let near_start = viewport_start - near_viewport_guard_bytes;
          near_end = sat_add viewport_end near_viewport_guard_bytes in
      retain_chunks (\<lambda>chunk. gk_document_id (ck_key chunk) \<noteq> document_id
        \<or> gk_document_version (ck_key chunk) \<noteq> document_version
        \<or> (gk_byte_start (ck_key chunk) < near_end \<and> gk_byte_end (ck_key chunk) > near_start)) c)"

definition insert_diagnostic_set ::
  "(diagnostic_set \<Rightarrow> nat option) \<Rightarrow> diagnostic_chunk_key chunk_cache \<Rightarrow> diagnostic_set
    \<Rightarrow> diagnostic_chunk_key chunk_cache \<times> (diagnostic_error + cache_snapshot)" where
  "insert_diagnostic_set wire c s =
     (case wire s of
        None \<Rightarrow> (c, Inl Diagnostic_SerializationFailed)
      | Some bytes \<Rightarrow>
          if bytes > cc_budget_bytes c then (c, Inl (Diagnostic_CacheBudgetExceeded bytes (cc_budget_bytes c)))
          else
            let key = diagnostic_chunk_key_of s;
                c = remove_key key c;
                c = (if dg_spans s \<noteq> [] then
                       let (last_access, c) = next_access c in
                       c\<lparr>cc_retained_bytes := sat_add (cc_retained_bytes c) bytes,
                         cc_chunks := cc_chunks c @ [\<lparr>ck_key = key, ck_byte_size = bytes,
                           ck_span_count = length (dg_spans s), ck_last_access = last_access\<rparr>]\<rparr>
                     else c);
                c = evict_diagnostics_outside_near_viewport (dg_document_id s) (dg_document_version s)
                      (dg_viewport_byte_start s) (dg_viewport_byte_end s) c;
                c = evict_lru_until_budget c
            in (c, Inr (cache_snapshot_of c)))"

section \<open>What a cache keeps\<close>

text \<open>
  The invariant: the retained bytes are the sum of the chunks and within the budget, no key occurs
  twice, no chunk is empty, and no chunk was used after the counter. The budget is half of \<open>usize\<close> at most
  (the code uses 30 and 8 MiB), so that no sum wraps.
\<close>

definition cache_inv :: "'k chunk_cache \<Rightarrow> bool" where
  "cache_inv c \<longleftrightarrow>
     cc_retained_bytes c = (\<Sum>chunk\<leftarrow>cc_chunks c. ck_byte_size chunk)
     \<and> cc_retained_bytes c \<le> cc_budget_bytes c \<and> 2 * cc_budget_bytes c \<le> u64_max
     \<and> distinct (map ck_key (cc_chunks c)) \<and> (\<forall>chunk\<in>set (cc_chunks c). 0 < ck_span_count chunk)
     \<and> (\<forall>chunk\<in>set (cc_chunks c). ck_last_access chunk \<le> cc_access_counter c)
     \<and> cc_access_counter c \<le> u64_max"

lemma sum_sizes_exact:
  assumes "(\<Sum>chunk\<leftarrow>chunks. ck_byte_size chunk) \<le> u64_max"
  shows "sum_sizes chunks = (\<Sum>chunk\<leftarrow>chunks. ck_byte_size chunk)"
proof -
  have "fold (\<lambda>chunk total. wrap_add total (ck_byte_size chunk)) chunks n =
      n + (\<Sum>chunk\<leftarrow>chunks. ck_byte_size chunk)" if "n + (\<Sum>chunk\<leftarrow>chunks. ck_byte_size chunk) \<le> u64_max" for n
    using that by (induction chunks arbitrary: n) (auto simp: wrap_add_exact)
  from this[of 0] show ?thesis using assms by (simp add: sum_sizes_def)
qed

lemma sum_filter_le: "(\<Sum>x\<leftarrow>filter P xs. f x) \<le> (\<Sum>x\<leftarrow>xs. f x :: nat)"
  by (induction xs) auto

lemma cache_inv_with_budget: "2 * budget \<le> u64_max \<Longrightarrow> cache_inv (with_budget budget)"
  by (simp add: cache_inv_def with_budget_def)

lemma distinct_map_filter': "distinct (map f xs) \<Longrightarrow> distinct (map f (filter P xs))"
  by (induction xs) auto

text \<open>The eviction loop, from a cache whose budget may be exceeded.\<close>

definition counted :: "'k chunk_cache \<Rightarrow> bool" where
  "counted c \<longleftrightarrow> cc_retained_bytes c = (\<Sum>chunk\<leftarrow>cc_chunks c. ck_byte_size chunk)"

lemma sum_remove_at:
  "i < length xs \<Longrightarrow> (\<Sum>x\<leftarrow>remove_at i xs. f x) + f (xs ! i) = (\<Sum>x\<leftarrow>xs. f x :: nat)"
  by (simp add: remove_at_def) (subst (4) id_take_nth_drop[of i xs], simp_all)

lemma subseq_remove_at: "subseq (remove_at i xs) xs"
proof -
  have "subseq (drop (Suc i) xs) (drop i xs)"
    using suffix_drop[of 1 "drop i xs"] by (intro suffix_imp_subseq) simp
  then have "subseq (take i xs @ drop (Suc i) xs) (take i xs @ drop i xs)"
    by (intro list_emb_append_mono) simp_all
  then show ?thesis by (simp add: remove_at_def)
qed

text \<open>
  What the loop leaves is a sublist within the budget, and whatever it removed was used no later than
  everything it kept.
\<close>

lemma evict_lru_facts:
  assumes "counted c"
  shows "counted (evict_lru_until_budget c)
    \<and> cc_retained_bytes (evict_lru_until_budget c) \<le> cc_budget_bytes c
    \<and> cc_budget_bytes (evict_lru_until_budget c) = cc_budget_bytes c
    \<and> cc_access_counter (evict_lru_until_budget c) = cc_access_counter c
    \<and> subseq (cc_chunks (evict_lru_until_budget c)) (cc_chunks c)
    \<and> (\<forall>gone\<in>set (cc_chunks c) - set (cc_chunks (evict_lru_until_budget c)).
         \<forall>kept\<in>set (cc_chunks (evict_lru_until_budget c)). ck_last_access gone \<le> ck_last_access kept)"
  using assms
proof (induction c rule: evict_lru_until_budget.induct)
  case (1 c)
  show ?case
  proof (cases "cc_retained_bytes c > cc_budget_bytes c")
    case False
    then show ?thesis using "1.prems" by (simp add: evict_lru_until_budget.simps[of c])
  next
    case True
    then have "cc_chunks c \<noteq> []" using "1.prems" by (auto simp: counted_def)
    then obtain i where i: "oldest_index (cc_chunks c) = Some i"
      using oldest_index_None[of "cc_chunks c"] by auto
    note old = oldest_index_Some[OF i]
    define c' where "c' = c\<lparr>cc_chunks := remove_at i (cc_chunks c),
      cc_retained_bytes := cc_retained_bytes c - ck_byte_size (cc_chunks c ! i),
      cc_evicted_chunks := sat_add (cc_evicted_chunks c) 1\<rparr>"
    have step: "evict_lru_until_budget c = evict_lru_until_budget c'"
      using True i by (subst evict_lru_until_budget.simps) (simp add: c'_def Let_def)
    have "counted c'"
      using "1.prems" sum_remove_at[of i "cc_chunks c" ck_byte_size] old by (simp add: counted_def c'_def)
    then have IH: "counted (evict_lru_until_budget c')"
      "cc_retained_bytes (evict_lru_until_budget c') \<le> cc_budget_bytes c'"
      "cc_budget_bytes (evict_lru_until_budget c') = cc_budget_bytes c'"
      "cc_access_counter (evict_lru_until_budget c') = cc_access_counter c'"
      "subseq (cc_chunks (evict_lru_until_budget c')) (cc_chunks c')"
      "\<forall>gone\<in>set (cc_chunks c') - set (cc_chunks (evict_lru_until_budget c')).
         \<forall>kept\<in>set (cc_chunks (evict_lru_until_budget c')). ck_last_access gone \<le> ck_last_access kept"
      using 1(1)[OF True i refl] by (simp_all add: c'_def)
    have "subseq (cc_chunks c') (cc_chunks c)" by (simp add: c'_def subseq_remove_at)
    then have sub: "subseq (cc_chunks (evict_lru_until_budget c')) (cc_chunks c)"
      using IH(5) by (blast intro: subseq_order.order_trans)
    have kept: "set (cc_chunks (evict_lru_until_budget c')) \<subseteq> set (cc_chunks c)"
      using sub by (auto dest: list_emb_set)
    have "\<forall>gone\<in>set (cc_chunks c) - set (cc_chunks (evict_lru_until_budget c')).
         \<forall>kept\<in>set (cc_chunks (evict_lru_until_budget c')). ck_last_access gone \<le> ck_last_access kept"
    proof (intro ballI)
      fix gone kept
      assume g: "gone \<in> set (cc_chunks c) - set (cc_chunks (evict_lru_until_budget c'))"
        and k: "kept \<in> set (cc_chunks (evict_lru_until_budget c'))"
      show "ck_last_access gone \<le> ck_last_access kept"
      proof (cases "gone \<in> set (cc_chunks c')")
        case True
        then show ?thesis using IH(6) g k by blast
      next
        case False
        moreover have "set (cc_chunks c) = insert (cc_chunks c ! i) (set (cc_chunks c'))"
          using old by (subst id_take_nth_drop[of i "cc_chunks c"]) (auto simp: c'_def remove_at_def)
        ultimately have "gone = cc_chunks c ! i" using g by blast
        then show ?thesis using old k kept by blast
      qed
    qed
    then show ?thesis
      using IH(1-4) sub by (simp add: step c'_def)
  qed
qed


text \<open>The most recent chunk, at the end of the list, survives the loop when it fits the budget.\<close>

lemma evict_lru_keeps_last:
  assumes "counted c" "cc_chunks c = xs @ [new]" "ck_byte_size new \<le> cc_budget_bytes c"
    and "\<forall>chunk\<in>set xs. ck_last_access chunk \<le> ck_last_access new"
  shows "new \<in> set (cc_chunks (evict_lru_until_budget c))"
  using assms
proof (induction c arbitrary: xs rule: evict_lru_until_budget.induct)
  case (1 c)
  show ?case
  proof (cases "cc_retained_bytes c > cc_budget_bytes c")
    case False
    then show ?thesis using "1.prems" by (simp add: evict_lru_until_budget.simps[of c])
  next
    case True
    have "xs \<noteq> []"
    proof
      assume "xs = []"
      then show False using "1.prems" True by (simp add: counted_def)
    qed
    obtain i where i: "oldest_index (cc_chunks c) = Some i"
      using oldest_index_None[of "cc_chunks c"] "1.prems"(2) by auto
    note old = oldest_index_Some[OF i]
    have "i < length xs"
    proof (rule ccontr)
      assume "\<not> i < length xs"
      then have "i = length xs" using old "1.prems"(2) by simp
      then have "ck_last_access new < ck_last_access (xs ! 0)"
        using old \<open>xs \<noteq> []\<close> "1.prems"(2) by (auto simp: nth_append dest!: spec[of _ 0])
      then show False using "1.prems"(4) \<open>xs \<noteq> []\<close> by (meson leD length_greater_0_conv nth_mem)
    qed
    then have rest: "remove_at i (cc_chunks c) = remove_at i xs @ [new]"
      using "1.prems"(2) by (simp add: remove_at_def)
    define c' where "c' = c\<lparr>cc_chunks := remove_at i (cc_chunks c),
      cc_retained_bytes := cc_retained_bytes c - ck_byte_size (cc_chunks c ! i),
      cc_evicted_chunks := sat_add (cc_evicted_chunks c) 1\<rparr>"
    have step: "evict_lru_until_budget c = evict_lru_until_budget c'"
      using True i by (subst evict_lru_until_budget.simps) (simp add: c'_def Let_def)
    have "counted c'"
      using "1.prems"(1) sum_remove_at[of i "cc_chunks c" ck_byte_size] old by (simp add: counted_def c'_def)
    moreover have "\<forall>chunk\<in>set (remove_at i xs). ck_last_access chunk \<le> ck_last_access new"
      using "1.prems"(4) set_remove_at_subset[of i xs] by blast
    ultimately show ?thesis
      using 1(1)[OF True i refl, of "remove_at i xs"] "1.prems"(3) rest by (simp add: step c'_def)
  qed
qed


section \<open>The contract of both caches\<close>

text \<open>
  What \<open>insert_validated_set\<close> does for a cache of either kind: a refused set changes nothing; an
  accepted one replaces the chunk of its key (an empty set only removes it), drops the chunks of its
  document version that are far from its viewport, and then evicts.
\<close>

locale chunk_insertion =
  fixes insert_set :: "'k chunk_cache \<Rightarrow> 's \<Rightarrow> 'k chunk_cache \<times> ('e + cache_snapshot)"
    and wire :: "'s \<Rightarrow> nat option"
    and key_of :: "'s \<Rightarrow> 'k"
    and span_count_of :: "'s \<Rightarrow> nat"
    and near :: "'s \<Rightarrow> 'k \<Rightarrow> bool"
  assumes refused: "snd (insert_set c s) = Inl e \<Longrightarrow> fst (insert_set c s) = c"
    and stored: "cache_inv c \<Longrightarrow> snd (insert_set c s) = Inr snapshot \<Longrightarrow>
      \<exists>bytes c0. wire s = Some bytes \<and> bytes \<le> cc_budget_bytes c
        \<and> fst (insert_set c s) = evict_lru_until_budget c0 \<and> counted c0
        \<and> cc_budget_bytes c0 = cc_budget_bytes c
        \<and> cc_access_counter c \<le> cc_access_counter c0 \<and> cc_access_counter c0 \<le> u64_max
        \<and> cc_chunks c0 = filter (\<lambda>chunk. near s (ck_key chunk))
            (filter (\<lambda>chunk. ck_key chunk \<noteq> key_of s) (cc_chunks c)
             @ (if 0 < span_count_of s
                then [\<lparr>ck_key = key_of s, ck_byte_size = bytes, ck_span_count = span_count_of s,
                       ck_last_access = cc_access_counter c0\<rparr>] else []))"
begin

lemma keeps_inv:
  assumes inv: "cache_inv c"
  shows "cache_inv (fst (insert_set c s)) \<and> cc_budget_bytes (fst (insert_set c s)) = cc_budget_bytes c"
proof (cases "snd (insert_set c s)")
  case (Inl e)
  then show ?thesis using inv refused by simp
next
  case (Inr snapshot)
  from stored[OF inv this] obtain bytes c0 where
    c0: "fst (insert_set c s) = evict_lru_until_budget c0" "counted c0" "cc_budget_bytes c0 = cc_budget_bytes c"
      "cc_access_counter c \<le> cc_access_counter c0" "cc_access_counter c0 \<le> u64_max"
    and chunks: "cc_chunks c0 = filter (\<lambda>chunk. near s (ck_key chunk))
            (filter (\<lambda>chunk. ck_key chunk \<noteq> key_of s) (cc_chunks c)
             @ (if 0 < span_count_of s
                then [\<lparr>ck_key = key_of s, ck_byte_size = bytes, ck_span_count = span_count_of s,
                       ck_last_access = cc_access_counter c0\<rparr>] else []))"
    by blast
  let ?c = "evict_lru_until_budget c0"
  note facts = evict_lru_facts[OF c0(2)]
  have sub: "subseq (cc_chunks ?c) (cc_chunks c0)" using facts by blast
  have old: "distinct (map ck_key (filter (\<lambda>chunk. ck_key chunk \<noteq> key_of s) (cc_chunks c)))"
    using inv by (intro distinct_map_filter') (simp add: cache_inv_def)
  have "distinct (map ck_key (cc_chunks c0))"
    unfolding chunks using old by (intro distinct_map_filter') auto
  then have "distinct (map ck_key (cc_chunks ?c))"
    using subseq_map[OF sub, of ck_key] subseqs_distinctD by (metis in_set_subseqs)
  moreover have "\<forall>chunk\<in>set (cc_chunks c0). 0 < ck_span_count chunk \<and> ck_last_access chunk \<le> cc_access_counter c0"
    using inv c0(4) by (auto simp: chunks cache_inv_def split: if_splits)
  then have "\<forall>chunk\<in>set (cc_chunks ?c). 0 < ck_span_count chunk \<and> ck_last_access chunk \<le> cc_access_counter c0"
    using sub by (blast dest: list_emb_set)
  ultimately show ?thesis
    using facts c0(1,3,5) inv by (auto simp: cache_inv_def counted_def)
qed

text \<open>After an accepted insertion the new chunk is the only one of its key, and it is there.\<close>

lemma newest_kept:
  assumes inv: "cache_inv c" and ok: "snd (insert_set c s) = Inr snapshot"
    and "0 < span_count_of s" "near s (key_of s)"
  shows "\<exists>chunk\<in>set (cc_chunks (fst (insert_set c s))). ck_key chunk = key_of s
     \<and> wire s = Some (ck_byte_size chunk) \<and> ck_span_count chunk = span_count_of s"
proof -
  from stored[OF inv ok] assms(3) obtain bytes c0 where
    c0: "wire s = Some bytes" "bytes \<le> cc_budget_bytes c"
      "fst (insert_set c s) = evict_lru_until_budget c0" "counted c0" "cc_budget_bytes c0 = cc_budget_bytes c"
      "cc_access_counter c \<le> cc_access_counter c0"
    and chunks: "cc_chunks c0 = filter (\<lambda>chunk. near s (ck_key chunk))
            (filter (\<lambda>chunk. ck_key chunk \<noteq> key_of s) (cc_chunks c)
             @ [\<lparr>ck_key = key_of s, ck_byte_size = bytes, ck_span_count = span_count_of s,
                       ck_last_access = cc_access_counter c0\<rparr>])"
    by auto
  let ?new = "\<lparr>ck_key = key_of s, ck_byte_size = bytes, ck_span_count = span_count_of s,
    ck_last_access = cc_access_counter c0\<rparr>"
  let ?xs = "filter (\<lambda>chunk. near s (ck_key chunk)) (filter (\<lambda>chunk. ck_key chunk \<noteq> key_of s) (cc_chunks c))"
  have "cc_chunks c0 = ?xs @ [?new]" using assms(4) by (simp add: chunks)
  moreover have "\<forall>chunk\<in>set ?xs. ck_last_access chunk \<le> ck_last_access ?new"
    using inv c0(6) by (auto simp: cache_inv_def)
  ultimately have "?new \<in> set (cc_chunks (evict_lru_until_budget c0))"
    using evict_lru_keeps_last[OF c0(4), of ?xs ?new] c0(2,5) by simp
  then show ?thesis using c0(1,3) by (intro bexI[of _ ?new]) simp_all
qed

lemma empty_set_clears:
  assumes inv: "cache_inv c" and ok: "snd (insert_set c s) = Inr snapshot" and "span_count_of s = 0"
  shows "key_of s \<notin> ck_key ` set (cc_chunks (fst (insert_set c s)))"
proof -
  from stored[OF inv ok] assms(3) obtain c0 where
    c0: "fst (insert_set c s) = evict_lru_until_budget c0" "counted c0"
    and chunks: "cc_chunks c0 = filter (\<lambda>chunk. near s (ck_key chunk))
            (filter (\<lambda>chunk. ck_key chunk \<noteq> key_of s) (cc_chunks c))"
    by auto
  have "set (cc_chunks (evict_lru_until_budget c0)) \<subseteq> set (cc_chunks c0)"
    using evict_lru_facts[OF c0(2)] by (blast dest: list_emb_set)
  then show ?thesis using c0(1) by (auto simp: chunks)
qed

text \<open>A chunk that fell to the budget was used no later than every chunk that stayed.\<close>

lemma evicts_least_recent:
  assumes inv: "cache_inv c" and ok: "snd (insert_set c s) = Inr snapshot"
    and gone: "gone \<in> set (cc_chunks c)" "gone \<notin> set (cc_chunks (fst (insert_set c s)))"
      "ck_key gone \<noteq> key_of s" "near s (ck_key gone)"
    and kept: "kept \<in> set (cc_chunks (fst (insert_set c s)))"
  shows "ck_last_access gone \<le> ck_last_access kept"
proof -
  from stored[OF inv ok] obtain bytes c0 where
    c0: "fst (insert_set c s) = evict_lru_until_budget c0" "counted c0"
    and chunks: "cc_chunks c0 = filter (\<lambda>chunk. near s (ck_key chunk))
            (filter (\<lambda>chunk. ck_key chunk \<noteq> key_of s) (cc_chunks c)
             @ (if 0 < span_count_of s
                then [\<lparr>ck_key = key_of s, ck_byte_size = bytes, ck_span_count = span_count_of s,
                       ck_last_access = cc_access_counter c0\<rparr>] else []))"
    by blast
  have "gone \<in> set (cc_chunks c0)" using gone by (simp add: chunks)
  then show ?thesis using evict_lru_facts[OF c0(2)] gone(2) kept c0(1) by simp
qed

end

section \<open>Both caches meet it\<close>

definition near_decorations :: "decoration_set \<Rightarrow> decoration_chunk_key \<Rightarrow> bool" where
  "near_decorations s k \<longleftrightarrow> dk_document_id k \<noteq> de_document_id s \<or> dk_document_version k \<noteq> de_document_version s
     \<or> ranges_intersect (dk_byte_start k) (dk_byte_end k) (de_viewport_byte_start s - near_viewport_guard_bytes)
         (sat_add (de_viewport_byte_end s) near_viewport_guard_bytes)"

definition near_diagnostics :: "diagnostic_set \<Rightarrow> diagnostic_chunk_key \<Rightarrow> bool" where
  "near_diagnostics s k \<longleftrightarrow> gk_document_id k \<noteq> dg_document_id s \<or> gk_document_version k \<noteq> dg_document_version s
     \<or> (gk_byte_start k < sat_add (dg_viewport_byte_end s) near_viewport_guard_bytes
        \<and> gk_byte_end k > dg_viewport_byte_start s - near_viewport_guard_bytes)"

lemma retain_chunks_fields [simp]:
  "cc_chunks (retain_chunks keep c) = filter keep (cc_chunks c)"
  "cc_budget_bytes (retain_chunks keep c) = cc_budget_bytes c"
  "cc_access_counter (retain_chunks keep c) = cc_access_counter c"
  by (simp_all add: retain_chunks_def Let_def)

lemma retain_chunks_counted:
  assumes "(\<Sum>chunk\<leftarrow>cc_chunks c. ck_byte_size chunk) \<le> u64_max"
  shows "counted (retain_chunks keep c)"
  using assms sum_filter_le[of ck_byte_size keep "cc_chunks c"]
  by (simp add: counted_def retain_chunks_def Let_def sum_sizes_exact)

lemma staged_sum:
  assumes "cache_inv c" "bytes \<le> cc_budget_bytes c" "set new \<subseteq> {chunk. ck_byte_size chunk = bytes}" "length new \<le> 1"
  shows "(\<Sum>chunk\<leftarrow>filter P (cc_chunks c) @ new. ck_byte_size chunk) \<le> u64_max"
proof -
  have "(\<Sum>chunk\<leftarrow>new. ck_byte_size chunk) \<le> bytes" using assms(3,4) by (cases new) auto
  moreover have "(\<Sum>chunk\<leftarrow>filter P (cc_chunks c). ck_byte_size chunk) \<le> cc_budget_bytes c"
    using assms(1) sum_filter_le[of ck_byte_size P "cc_chunks c"] by (simp add: cache_inv_def)
  ultimately show ?thesis using assms(1,2) by (simp add: cache_inv_def)
qed

interpretation decorations: chunk_insertion "insert_decoration_set wire package_prefix" wire
    "\<lambda>s. decoration_chunk_key_of s package_prefix" "\<lambda>s. length (de_spans s)" near_decorations
  for wire package_prefix
proof
  show "fst (insert_decoration_set wire package_prefix c s) = c"
    if "snd (insert_decoration_set wire package_prefix c s) = Inl e" for c s e
    using that by (auto simp: insert_decoration_set_def Let_def split: option.splits if_splits prod.splits)
next
  fix c :: "decoration_chunk_key chunk_cache" and s :: decoration_set and snapshot
  assume inv: "cache_inv c" and ok: "snd (insert_decoration_set wire package_prefix c s) = Inr snapshot"
  obtain bytes where bytes: "wire s = Some bytes" "bytes \<le> cc_budget_bytes c"
    using ok by (auto simp: insert_decoration_set_def split: option.splits if_splits)
  let ?key = "decoration_chunk_key_of s package_prefix" and ?n = "sat_add (cc_access_counter c) 1"
  define new where "new = (if 0 < length (de_spans s)
    then [\<lparr>ck_key = ?key, ck_byte_size = bytes, ck_span_count = length (de_spans s), ck_last_access = ?n\<rparr>] else [])"
  define c2 where "c2 = (remove_key ?key (c\<lparr>cc_access_counter := ?n\<rparr>))"
  define c3 where "c3 = (if 0 < length (de_spans s)
    then c2\<lparr>cc_retained_bytes := wrap_add (cc_retained_bytes c2) bytes, cc_chunks := cc_chunks c2 @ new\<rparr> else c2)"
  define c0 where "c0 = (evict_decorations_outside_near_viewport (de_document_id s) (de_document_version s)
    (de_viewport_byte_start s) (de_viewport_byte_end s) near_viewport_guard_bytes c3)"
  have chunks: "cc_chunks c3 = filter (\<lambda>chunk. ck_key chunk \<noteq> ?key) (cc_chunks c) @ new"
    by (simp add: c3_def c2_def new_def remove_key_def)
  have "(\<Sum>chunk\<leftarrow>cc_chunks c3. ck_byte_size chunk) \<le> u64_max"
    unfolding chunks by (rule staged_sum[OF inv bytes(2)]) (auto simp: new_def)
  then have "counted c0"
    unfolding c0_def evict_decorations_outside_near_viewport_def Let_def by (rule retain_chunks_counted)
  moreover have "cc_chunks c0 = filter (\<lambda>chunk. near_decorations s (ck_key chunk))
      (filter (\<lambda>chunk. ck_key chunk \<noteq> ?key) (cc_chunks c) @ new)"
    unfolding c0_def evict_decorations_outside_near_viewport_def Let_def retain_chunks_fields chunks near_decorations_def
    by (rule refl)
  moreover have "fst (insert_decoration_set wire package_prefix c s) = evict_lru_until_budget c0"
    using bytes by (simp add: insert_decoration_set_def next_access_def Let_def c0_def c3_def c2_def new_def)
  moreover have "cc_budget_bytes c0 = cc_budget_bytes c" "cc_access_counter c0 = ?n"
    by (simp_all add: c0_def c3_def c2_def evict_decorations_outside_near_viewport_def Let_def remove_key_def)
  moreover have "cc_access_counter c \<le> ?n" using inv by (simp add: cache_inv_def sat_add_ge)
  ultimately show "\<exists>bytes c0. wire s = Some bytes \<and> bytes \<le> cc_budget_bytes c
        \<and> fst (insert_decoration_set wire package_prefix c s) = evict_lru_until_budget c0 \<and> counted c0
        \<and> cc_budget_bytes c0 = cc_budget_bytes c
        \<and> cc_access_counter c \<le> cc_access_counter c0 \<and> cc_access_counter c0 \<le> u64_max
        \<and> cc_chunks c0 = filter (\<lambda>chunk. near_decorations s (ck_key chunk))
            (filter (\<lambda>chunk. ck_key chunk \<noteq> ?key) (cc_chunks c)
             @ (if 0 < length (de_spans s)
                then [\<lparr>ck_key = ?key, ck_byte_size = bytes, ck_span_count = length (de_spans s),
                       ck_last_access = cc_access_counter c0\<rparr>] else []))"
    using bytes by (intro exI[of _ bytes] exI[of _ c0]) (simp add: new_def)
qed

interpretation diagnostics: chunk_insertion "insert_diagnostic_set wire" wire
    diagnostic_chunk_key_of "\<lambda>s. length (dg_spans s)" near_diagnostics
  for wire
proof
  show "fst (insert_diagnostic_set wire c s) = c"
    if "snd (insert_diagnostic_set wire c s) = Inl e" for c s e
    using that by (auto simp: insert_diagnostic_set_def Let_def split: option.splits if_splits prod.splits)
next
  fix c :: "diagnostic_chunk_key chunk_cache" and s :: diagnostic_set and snapshot
  assume inv: "cache_inv c" and ok: "snd (insert_diagnostic_set wire c s) = Inr snapshot"
  obtain bytes where bytes: "wire s = Some bytes" "bytes \<le> cc_budget_bytes c"
    using ok by (auto simp: insert_diagnostic_set_def split: option.splits if_splits)
  let ?key = "diagnostic_chunk_key_of s" and ?n = "sat_add (cc_access_counter c) 1"
  define new where "new = (if 0 < length (dg_spans s)
    then [\<lparr>ck_key = ?key, ck_byte_size = bytes, ck_span_count = length (dg_spans s), ck_last_access = ?n\<rparr>] else [])"
  define c2 where "c2 = (remove_key ?key c)"
  define c3 where "c3 = (if 0 < length (dg_spans s)
    then c2\<lparr>cc_access_counter := ?n, cc_retained_bytes := sat_add (cc_retained_bytes c2) bytes,
      cc_chunks := cc_chunks c2 @ new\<rparr> else c2)"
  define c0 where "c0 = (evict_diagnostics_outside_near_viewport (dg_document_id s) (dg_document_version s)
    (dg_viewport_byte_start s) (dg_viewport_byte_end s) c3)"
  have chunks: "cc_chunks c3 = filter (\<lambda>chunk. ck_key chunk \<noteq> ?key) (cc_chunks c) @ new"
    by (simp add: c3_def c2_def new_def remove_key_def)
  have "(\<Sum>chunk\<leftarrow>cc_chunks c3. ck_byte_size chunk) \<le> u64_max"
    unfolding chunks by (rule staged_sum[OF inv bytes(2)]) (auto simp: new_def)
  then have "counted c0"
    unfolding c0_def evict_diagnostics_outside_near_viewport_def Let_def by (rule retain_chunks_counted)
  moreover have "cc_chunks c0 = filter (\<lambda>chunk. near_diagnostics s (ck_key chunk))
      (filter (\<lambda>chunk. ck_key chunk \<noteq> ?key) (cc_chunks c) @ new)"
    unfolding c0_def evict_diagnostics_outside_near_viewport_def Let_def retain_chunks_fields chunks near_diagnostics_def
    by (rule refl)
  moreover have "fst (insert_diagnostic_set wire c s) = evict_lru_until_budget c0"
    using bytes by (simp add: insert_diagnostic_set_def next_access_def Let_def remove_key_def c0_def c3_def c2_def new_def)
  moreover have "cc_budget_bytes c0 = cc_budget_bytes c"
    "cc_access_counter c0 = (if 0 < length (dg_spans s) then ?n else cc_access_counter c)"
    by (simp_all add: c0_def c3_def c2_def evict_diagnostics_outside_near_viewport_def Let_def remove_key_def)
  moreover have "cc_access_counter c \<le> ?n" "cc_access_counter c \<le> u64_max"
    using inv by (simp_all add: cache_inv_def sat_add_ge)
  ultimately show "\<exists>bytes c0. wire s = Some bytes \<and> bytes \<le> cc_budget_bytes c
        \<and> fst (insert_diagnostic_set wire c s) = evict_lru_until_budget c0 \<and> counted c0
        \<and> cc_budget_bytes c0 = cc_budget_bytes c
        \<and> cc_access_counter c \<le> cc_access_counter c0 \<and> cc_access_counter c0 \<le> u64_max
        \<and> cc_chunks c0 = filter (\<lambda>chunk. near_diagnostics s (ck_key chunk))
            (filter (\<lambda>chunk. ck_key chunk \<noteq> ?key) (cc_chunks c)
             @ (if 0 < length (dg_spans s)
                then [\<lparr>ck_key = ?key, ck_byte_size = bytes, ck_span_count = length (dg_spans s),
                       ck_last_access = cc_access_counter c0\<rparr>] else []))"
    using bytes by (intro exI[of _ bytes] exI[of _ c0]) (simp add: new_def)
qed

section \<open>Runs of insertions\<close>

definition insert_decoration_sets ::
  "(decoration_set \<Rightarrow> nat option) \<Rightarrow> (ustr \<times> decoration_set) list
    \<Rightarrow> decoration_chunk_key chunk_cache \<Rightarrow> decoration_chunk_key chunk_cache" where
  "insert_decoration_sets wire sets c =
     fold (\<lambda>(package_prefix, s) c. fst (insert_decoration_set wire package_prefix c s)) sets c"

definition insert_diagnostic_sets ::
  "(diagnostic_set \<Rightarrow> nat option) \<Rightarrow> diagnostic_set list
    \<Rightarrow> diagnostic_chunk_key chunk_cache \<Rightarrow> diagnostic_chunk_key chunk_cache" where
  "insert_diagnostic_sets wire sets c = fold (\<lambda>s c. fst (insert_diagnostic_set wire c s)) sets c"

lemma insert_decoration_sets_inv:
  "cache_inv c \<Longrightarrow> cache_inv (insert_decoration_sets wire sets c)
     \<and> cc_budget_bytes (insert_decoration_sets wire sets c) = cc_budget_bytes c"
proof (induction sets arbitrary: c)
  case (Cons x sets)
  then show ?case
    using decorations.keeps_inv[of c wire "fst x" "snd x"] Cons.IH[of "fst (insert_decoration_set wire (fst x) c (snd x))"]
    by (simp add: insert_decoration_sets_def split_def)
qed (simp add: insert_decoration_sets_def)

lemma insert_diagnostic_sets_inv:
  "cache_inv c \<Longrightarrow> cache_inv (insert_diagnostic_sets wire sets c)
     \<and> cc_budget_bytes (insert_diagnostic_sets wire sets c) = cc_budget_bytes c"
proof (induction sets arbitrary: c)
  case (Cons s sets)
  then show ?case
    using diagnostics.keeps_inv[of c wire s] Cons.IH[of "fst (insert_diagnostic_set wire c s)"]
    by (simp add: insert_diagnostic_sets_def)
qed (simp add: insert_diagnostic_sets_def)

lemma default_caches_inv: "cache_inv syntax_chunk_cache_default" "cache_inv diagnostic_chunk_cache_default"
  by (simp_all add: syntax_chunk_cache_default_def diagnostic_chunk_cache_default_def cache_inv_with_budget
      syntax_cache_budget_bytes_def diagnostic_cache_budget_bytes_def u64_max_def)

end
