(* ===== verification/Parse_Properties.thy ===== *)
theory Parse_Properties imports Parse_Facts Parse_Windows Chunk_Caches Document_Properties begin

text \<open>
  What holds of parsing: the requests the server makes are accepted, results are delivered exactly when they
  may be, the counters account for the tasks, and the sets published stay within their bounds; and the two
  places where it does not hold, a document that shrinks into one window and a result overtaken by a newer
  request.
\<close>

section \<open>Requests for parse work\<close>

text \<open>
  C18: the window cut after an accepted edit is accepted by the coordinator, with one exception. Its
  coordinates agree with its text, its size with the policy and its name with its start; but when a document
  that needed several windows shrinks, by the edit, to one that fits a single window, the request is refused
  as an invalid edit, because the old window is taken to have been the whole old document.
\<close>

theorem window_after_edit_scheduled:
  assumes "crop_rope R" and "document_fits R d" and "document_inv R d"
    and "document_string R d' = edited_text (document_string R d) e" and "document_fits R d'"
    and "apply_edit_with_parse_input R d document_id client_id lease_id base_version
              transaction_id e = Some (d', EditAck i v t, Some edit)"
    and "policy_ok policy" and "retained_window_ok policy pp m d"
    and "parse_window_after_edit R d' pp m policy edit = (d'', Inr (Some w))"
  shows "validate_schedule (snapshot_request (ds_document_id d') (ds_version d') behavior_version w
            (window_byte_range w) (Some edit)) [w] (Some policy)
       = (if po_max_window_bytes policy < byte_len (document_string R d)
             \<and> byte_len (document_string R d') \<le> po_max_window_bytes policy
          then Inl Parse_InvalidAcceptedEdit else Inr ())"
proof -
  have acc: "edit_accepted R d document_id client_id lease_id base_version e"
    using crop_rope.apply_edit_rejected[OF assms(1,2), of document_id client_id lease_id
        base_version e transaction_id] assms(6) by fastforce
  obtain x where x: "d' = d\<lparr>ds_text := x, ds_version := ds_version d + 1,
      ds_last_transaction_id := Some transaction_id, ds_dirty := True\<rparr>"
    and edit: "edit = parse_edit_of (document_string R d) (ds_version d) e"
    using crop_rope.apply_edit_accepted[OF assms(1,2) acc, of transaction_id] assms(6)
    by (metis Pair_inject option.inject)
  have ver: "ds_version d < u64_max" "valid_op (document_string R d) e" and
    v': "ds_version d' = ds_version d + 1"
    using acc by (auto simp: edit_accepted_def x)
  have old: "rw_window_id w = rw_byte_start w \<and> rw_byte_start w \<le> rw_byte_end w
        \<and> rw_byte_end w - rw_byte_start w \<le> po_max_window_bytes policy"
    if "ds_retained_parse_windows d' (pp, m) = Some w" "rw_version w = ds_version d" for w
    using assms(8) that by (auto simp: x retained_window_ok_def)
  show ?thesis
    using crop_rope.window_after_edit_verdict[OF assms(1,5,7) ver(2) assms(4) ver(1) v' old
        assms(9)[unfolded edit]] by (simp add: edit)
qed

theorem window_after_edit_scheduled_witness:
  "\<exists>d' edit d'' w. apply_edit_with_parse_input list_rope sample_document 7 42 (Some 1) 1 9
        (Replace 1 3 [10]) = Some (d', EditAck 7 2 9, Some edit)
      \<and> parse_window_after_edit list_rope d' (lit ''rust'') (lit ''rust'') sample_policy edit = (d'', Inr (Some w))
      \<and> validate_schedule (snapshot_request (ds_document_id d') (ds_version d') 1 w (window_byte_range w) (Some edit))
          [w] (Some sample_policy)
        = (if 4 < byte_len (document_string list_rope sample_document)
              \<and> byte_len (document_string list_rope d') \<le> 4
           then Inl Parse_InvalidAcceptedEdit else Inr ())"
proof -
  let ?e = "Replace 1 3 [10]"
  obtain d' where run: "apply_edit_with_parse_input list_rope sample_document 7 42 (Some 1) 1 9 ?e
      = Some (d', EditAck (ds_document_id sample_document) (ds_version sample_document + 1) 9,
          Some (parse_edit_of (document_string list_rope sample_document)
                 (ds_version sample_document) ?e))"
    and str: "document_string list_rope d' = edited_text (document_string list_rope sample_document) ?e"
    by (rule list_rope.apply_edit_accepted[OF sample_document_fits sample_document_accepts, of 9])
  have fits: "document_fits list_rope d'" and "document_string list_rope d' \<noteq> []"
    unfolding document_fits_def str
    by (simp_all add: edited_text_def text_splice_def sample_document_eq document_string_def
        len_utf8_def u64_max_def)
  moreover have max: "1 \<le> po_max_window_bytes sample_policy" "po_max_window_bytes sample_policy = 4"
    and pol: "policy_ok sample_policy"
    and ret: "retained_window_ok sample_policy (lit ''rust'') (lit ''rust'') sample_document"
    by (simp_all add: sample_policy_def policy_ok_def syntax_cache_budget_bytes_def retained_window_ok_def
        sample_document_eq)
  ultimately obtain d'' w where w: "parse_window_after_edit list_rope d' (lit ''rust'') (lit ''rust'') sample_policy
      (parse_edit_of (document_string list_rope sample_document) (ds_version sample_document) ?e) = (d'', Inr (Some w))"
    using window_follows_accepted_edit[OF list_rope_laws sample_document_fits sample_document_inv
        str fits run, of sample_policy "lit ''rust''" "lit ''rust''"] by auto
  have "ds_document_id sample_document = 7" "ds_version sample_document = 1"
    by (simp_all add: sample_document_eq)
  then show ?thesis
    using window_after_edit_scheduled[OF list_rope_laws sample_document_fits sample_document_inv str fits run
        pol ret w, of 1] run w max(2) by auto
qed

text \<open>
  Every viewport request is accepted. Whatever range a connection asks to be parsed, the window the
  server cuts for it and the viewport it announces pass all checks of the coordinator, for every policy the
  coordinator accepts.
\<close>

theorem viewport_request_accepted:
  assumes "byte_len txt \<le> u64_max" and "policy_ok policy"
    and "viewport_parse_window document_id version txt package_prefix mode_id policy requested = Some (w, viewport)"
  shows "validate_schedule (snapshot_request document_id version behavior_version w viewport None) [w] (Some policy)
     = Inr ()"
  using assms by (rule viewport_window_accepted)

theorem viewport_request_accepted_witness:
  "\<exists>w viewport. viewport_parse_window 7 1 [97, 10, 98] (lit ''p'') (lit ''m'') sample_policy
        \<lparr>pr_start = 1, pr_end = 3\<rparr> = Some (w, viewport)
     \<and> validate_schedule (snapshot_request 7 1 1 w viewport None) [w] (Some sample_policy) = Inr ()"
proof -
  have "viewport_parse_window 7 1 [97, 10, 98] (lit ''p'') (lit ''m'') sample_policy
        \<lparr>pr_start = 1, pr_end = 3\<rparr> \<noteq> None"
    by (simp add: viewport_parse_window_def str_floor_char_boundary_eq floor_boundary_def len_utf8_def sat_add_def
        u64_max_def sample_policy_def incremental_parse_update_budget_bytes_def Let_def)
  then obtain w viewport where w: "viewport_parse_window 7 1 [97, 10, 98] (lit ''p'') (lit ''m'')
      sample_policy \<lparr>pr_start = 1, pr_end = 3\<rparr> = Some (w, viewport)" by fast
  moreover have "byte_len [97, 10, 98] \<le> u64_max" "policy_ok sample_policy"
    by (simp_all add: len_utf8_def u64_max_def policy_ok_def sample_policy_def syntax_cache_budget_bytes_def)
  ultimately show ?thesis using viewport_request_accepted[OF _ _ w] by blast
qed


section \<open>Results\<close>










lemma record_native_publication_router [simp]:
  "co_updates_router (record_native_publication u c) = co_updates_router c"
  by (auto simp: record_native_publication_def Let_def split: option.splits)


section \<open>Runs\<close>

text \<open>One request, on a coordinator with one handler and one subscribed connection.\<close>

definition sample_wire :: parse_wire where
  "sample_wire = \<lparr>wz_update = (\<lambda>_. Some 100), wz_decorations = (\<lambda>_. Some 100), wz_diagnostics = (\<lambda>_. Some 100)\<rparr>"

definition sample_request :: "nat \<Rightarrow> schedule_request" where
  "sample_request version = \<lparr>sr_document_id = 7, sr_document_version = version, sr_behavior_version = 1,
     sr_package_prefix = [112], sr_mode_id = [109], sr_viewport = \<lparr>pr_start = 0, pr_end = 5\<rparr>,
     sr_invalidated_ranges = [], sr_accepted_edit = None\<rparr>"

definition sample_key :: task_key where
  "sample_key = \<lparr>tk_generation_id = 1, tk_document_id = 7, tk_package_prefix = [112], tk_mode_id = [109],
     tk_window_id = Some 0\<rparr>"

definition sample_update :: "nat \<Rightarrow> parse_update" where
  "sample_update version = \<lparr>pu_document_id = 7, pu_document_version = version, pu_behavior_version = 1,
     pu_package_prefix = [112], pu_mode_id = [109], pu_parse_unit = File_Unit,
     pu_viewport = \<lparr>pr_start = 0, pr_end = 5\<rparr>, pu_invalidated_ranges = [], pu_syntax_tree_delta = None,
     pu_decoration_updates = [], pu_diagnostic_update = None\<rparr>"

definition sample_connected :: "unit coordinator" where
  "sample_connected = parse_subscribe_document (parse_subscribe_client (coordinator_new False) 9) 7 9"

definition sample_registered :: "unit coordinator" where
  "sample_registered = fst (register_handler_meta 1 [112] [109] () False sample_connected)"

definition sample_scheduled :: "nat \<Rightarrow> unit coordinator \<Rightarrow> unit coordinator" where
  "sample_scheduled version c = fst (begin_schedule 7 version [112] [109] (Some 0) c)"

definition sample_first :: "unit coordinator" where
  "sample_first = insert_task sample_key 1 False (sample_scheduled 1 sample_registered)"

lemmas sample_defs = sample_wire_def sample_request_def sample_key_def sample_update_def sample_connected_def
  sample_registered_def sample_scheduled_def sample_first_def

lemma sample_begin:
  "begin_schedule 7 1 [112] [109] (Some 0) sample_registered
     = (sample_scheduled 1 sample_registered, Inr (Some (sample_key, False, ())))"
  by (simp add: sample_defs begin_schedule_def register_handler_meta_def parse_subscribe_document_def
      parse_subscribe_client_def coordinator_new_def abort_tasks_def task_keys_def Let_def)

lemma sample_valid: "validate_schedule (sample_request v) [] None = Inr ()"
  by (simp add: validate_schedule_def sample_request_def validate_request_ranges_def validate_window_snapshots_def
      validate_parse_policy_def range_is_valid_def)

lemma sample_schedule:
  "schedule_parse_with_windows (sample_request 1) [] None sample_registered
     = (sample_first, Inr (Some (sample_key, 1, (), schedule_notification (sample_request 1) [] None)))"
  using sample_begin sample_valid[of 1]
  by (simp add: schedule_parse_with_windows_def sample_request_def schedule_window_id_def sample_first_def Let_def)

lemma sample_calm_run:
  "(calm_step wire order)\<^sup>*\<^sup>* (coordinator_new False, {#}) (sample_first, {#Running sample_key 1#})"
proof -
  let ?new = "coordinator_new False :: unit coordinator"
  have "calm_step wire order (?new, {#}) (parse_subscribe_client ?new 9, {#})"
    by (intro Calm_Call Call_Subscribe_Client)
  moreover have "calm_step wire order (parse_subscribe_client ?new 9, {#}) (sample_connected, {#})"
    unfolding sample_connected_def by (intro Calm_Call Call_Subscribe_Document)
  moreover have "calm_step wire order (sample_connected, {#}) (sample_registered, {#})"
    unfolding sample_registered_def by (intro Calm_Call Call_Register)
  moreover have "calm_step wire order (sample_registered, {#}) (sample_first, {#Running sample_key 1#})"
    by (rule Calm_Schedule[OF sample_schedule])
  ultimately show ?thesis by (meson converse_rtranclp_into_rtranclp rtranclp.rtrancl_refl)
qed

text \<open>
  The calls in one piece are what the sections of the code do when nothing comes between them. Every
  run of uninterrupted calls, schedules and completions is also a run of the interleaved system.
\<close>

theorem uninterrupted_runs_are_runs:
  assumes "(calm_step wire order)\<^sup>*\<^sup>* s s'"
  shows "(parse_step wire order)\<^sup>*\<^sup>* s s'"
  using assms by (rule calm_run)

theorem uninterrupted_runs_are_runs_witness:
  "(parse_step sample_wire sorted_list_of_set)\<^sup>*\<^sup>* (coordinator_new False, {#}) (sample_first, {#Running sample_key 1#})"
  by (rule uninterrupted_runs_are_runs[OF sample_calm_run])

text \<open>
  At most one outcome per task, however the calls interleave. In every run from a new coordinator the
  results published, rejected as stale and failed never outnumber the tasks scheduled.
\<close>

theorem parse_outcomes_bounded:
  assumes "(parse_step wire order)\<^sup>*\<^sup>* (coordinator_new enabled, {#}) (c, ts)"
  shows "ps_published_updates (co_stats c) + ps_stale_results_rejected (co_stats c) + ps_failed_tasks (co_stats c)
     \<le> ps_scheduled_tasks (co_stats c)"
  using parse_run_outcomes_bounded[OF assms] by (simp add: outcomes_bounded_def)

theorem parse_outcomes_bounded_witness:
  "outcomes (co_stats sample_first) \<le> ps_scheduled_tasks (co_stats sample_first)"
  by (rule parse_outcomes_bounded[OF calm_run[OF sample_calm_run[of sample_wire sorted_list_of_set]]])

text \<open>
  C16: tasks are accounted for. After any run of uninterrupted calls every active task belongs to the handler
  now registered for its package and mode and is no newer than its document, the tasks of one parser on one
  document are at one version, and every scheduled task is active, cancelled, published, rejected or failed,
  exactly one of them.
\<close>

theorem parse_tasks_accounted:
  assumes "(calm_step wire order)\<^sup>*\<^sup>* (coordinator_new enabled, {#}) (c, ts)"
  shows "coordinator_inv c"
  using calm_run_inv[OF assms] by simp

theorem parse_tasks_accounted_witness: "coordinator_inv sample_first"
  by (rule parse_tasks_accounted[OF sample_calm_run[of sample_wire sorted_list_of_set]])

text \<open>
  C36: a result can overtake its own refusal. The checks of a finished task, its publication and the scheduling
  of newer work hold the lock one after the other, so a newer version of the document can be scheduled between
  the check and the publication; the old result is then routed although its document is already at the newer
  version and its task has been cancelled.
\<close>

definition sample_second :: "unit coordinator" where
  "sample_second = sample_scheduled 2 sample_first"

lemmas sample_states = sample_second_def sample_defs coordinator_new_def parse_subscribe_client_def
  parse_subscribe_document_def register_handler_meta_def begin_schedule_def insert_task_def abort_tasks_def
  abort_task_def task_keys_def Let_def

lemma sample_second_begins:
  "begin_schedule 7 2 [112] [109] (Some 0) sample_first = (sample_second, Inr (Some (sample_key, False, ())))"
  by (simp add: sample_states)

lemma sample_first_publishable:
  "task_is_active sample_first sample_key 1" "validate_task_generation sample_first sample_key = Inr ()"
  "validate_update sample_wire sample_first (sample_update 1) = Inr ()"
  by (simp_all add: sample_states task_is_active_def validate_task_generation_def validate_update_def
      validate_update_payload_def range_is_valid_def incremental_parse_update_budget_bytes_def)

lemma sample_overtaken_run:
  "(parse_step sample_wire order)\<^sup>*\<^sup>* (coordinator_new False, {#})
     (sample_second, {#Publishing sample_key (sample_update 1), Scheduling sample_key 2 False#})"
proof -
  let ?u = "sample_update 1"
  have "parse_step sample_wire order (sample_first, {#Running sample_key 1#})
      (sample_first, {#Finishing sample_key 1 (Inr ?u)#})"
    using Step_Handler[of sample_wire order sample_first sample_key 1 "{#}"] by simp
  moreover have "parse_step sample_wire order (sample_first, {#Finishing sample_key 1 (Inr ?u)#})
      (sample_first, {#Checking_Generation sample_key ?u#})"
    using Step_Thread[of sample_wire order sample_first "Finishing sample_key 1 (Inr ?u)" sample_first
        "Some (Checking_Generation sample_key ?u)" "{#}"] sample_first_publishable by simp
  moreover have "parse_step sample_wire order (sample_first, {#Checking_Generation sample_key ?u#})
      (sample_first, {#Validating sample_key ?u#})"
    using Step_Thread[of sample_wire order sample_first "Checking_Generation sample_key ?u" sample_first
        "Some (Validating sample_key ?u)" "{#}"] sample_first_publishable by simp
  moreover have "parse_step sample_wire order (sample_first, {#Validating sample_key ?u#})
      (sample_first, {#Publishing sample_key ?u#})"
    using Step_Thread[of sample_wire order sample_first "Validating sample_key ?u" sample_first
        "Some (Publishing sample_key ?u)" "{#}"] sample_first_publishable by simp
  moreover have "parse_step sample_wire order (sample_first, {#Publishing sample_key ?u#})
      (sample_second, {#Publishing sample_key ?u, Scheduling sample_key 2 False#})"
    using Step_Schedule[OF sample_valid[of 2], where c = sample_first and c' = sample_second and key = sample_key
        and native = False and handler = "()" and ts = "{#Publishing sample_key ?u#}"]
      sample_second_begins by (simp add: sample_request_def schedule_window_id_def add_mset_commute)
  ultimately show ?thesis
    using calm_run[OF sample_calm_run[of sample_wire order]]
    by (meson rtranclp.rtrancl_into_rtrancl)
qed

theorem stale_update_can_publish:
  "\<exists>c c' ts ts'. (parse_step sample_wire sorted_list_of_set)\<^sup>*\<^sup>* (coordinator_new False, {#}) (c :: unit coordinator, ts)
     \<and> parse_step sample_wire sorted_list_of_set (c, ts) (c', ts')
     \<and> co_current_versions c 7 = Some 2 \<and> \<not> task_is_active c sample_key 1
     \<and> map_option lc_queue (or_client_senders (co_updates_router c) 9) = Some []
     \<and> map_option lc_queue (or_client_senders (co_updates_router c') 9) = Some [sample_update 1]"
proof -
  let ?c' = "publish_update sorted_list_of_set sample_key (sample_update 1) sample_second"
  have "parse_step sample_wire sorted_list_of_set
      (sample_second, {#Publishing sample_key (sample_update 1), Scheduling sample_key 2 False#})
      (?c', {#Recording (sample_update 1), Scheduling sample_key 2 False#})"
    using Step_Thread[of sample_wire sorted_list_of_set sample_second "Publishing sample_key (sample_update 1)"
        ?c' "Some (Recording (sample_update 1))" "{#Scheduling sample_key 2 False#}"] by simp
  moreover have "co_current_versions sample_second 7 = Some 2" "\<not> task_is_active sample_second sample_key 1"
    "map_option lc_queue (or_client_senders (co_updates_router sample_second) 9) = Some []"
    by (simp_all add: sample_states task_is_active_def subscribe_client_def subscribe_document_def list_mk_def)
  moreover have "map_option lc_queue (or_client_senders (co_updates_router ?c') 9) = Some [sample_update 1]"
    by (simp add: sample_states publish_update_def drop_task_def subscribe_client_def subscribe_document_def
        router_default_def route_document_def subscribers_of_def deliver_def list_mk_def list_send_def
        output_subscription_capacity_def)
  ultimately show ?thesis using sample_overtaken_run by blast
qed

section \<open>What is shown\<close>

text \<open>
  C17: every span that a package publishes is well formed. It lies in the viewport of its set and is not empty,
  has a font role only where its kind allows one, names a scope of the vocabulary, and carries the name, the
  version and the prefix of the very package that published it.
\<close>

theorem published_spans_typed:
  assumes "validate_decoration_publication wire package version s = Inr s'" and "span \<in> set (de_spans s')"
  shows "decoration_span_ok (Some package) s' span"
proof -
  have "validate_decoration_set wire version s (Some package) = Inr s'"
    using assms(1) by (simp add: validate_decoration_publication_def split: if_splits)
  then have "\<forall>span\<in>set (de_spans s). decoration_span_ok (Some package) s span" "s' = sorted_viewport_first s"
    by (simp_all add: validate_decoration_set_Inr)
  then show ?thesis using assms(2) by simp
qed

definition sample_renderer :: package_record where
  "sample_renderer =
     \<lparr>pr_manifest = \<lparr>mf_name = [110], mf_version = [49],
        mf_clay = \<lparr>cm_api_prefix = [112], cm_permissions = [RenderDecorations], cm_modes = [],
          cm_graph = \<lparr>pg_depends_on = [], pg_extends = [], pg_disables = [], pg_replaces = [],
                      pg_relation_requests = []\<rparr>, cm_extension_points = []\<rparr>\<rparr>,
      pr_contributions = \<lparr>pc_commands = [], pc_configuration = [], pc_key_routing = [], pc_text_transforms = [],
        pc_sdui = [], pc_decorations = [], pc_syntax_grammars = [], pc_completion_providers = [],
        pc_language_servers = [], pc_language_intelligence_providers = [], pc_ui_panels = [], pc_ui_components = [],
        pc_ui_overlays = [], pc_theme_tokens = [], pc_input_contributions = [], pc_ui_state_scopes = [],
        pc_layout_overrides = [], pc_package_options = []\<rparr>,
      pr_runtime_domain = ThirdParty_Domain\<rparr>"

definition sample_provenance :: decoration_provenance where
  "sample_provenance = \<lparr>dp_package_name = [110], dp_package_version = [49], dp_package_prefix = [112]\<rparr>"

definition sample_decorations :: decoration_set where
  "sample_decorations = \<lparr>de_document_id = 7, de_document_version = 1, de_package_prefix = [112],
     de_kind = Syntax_Kind, de_viewport_byte_start = 0, de_viewport_byte_end = 9,
     de_spans = [span_from_style_token 2 6 Syntax_Kind (lit ''keyword.control'') 5 sample_provenance]\<rparr>"

lemma sample_decorations_published:
  "validate_decoration_publication (\<lambda>_. Some 100) sample_renderer 1 sample_decorations
     = Inr (sorted_viewport_first sample_decorations)"
  by (simp add: validate_decoration_publication_def sample_renderer_def sample_decorations_def
      validate_decoration_set_Inr decoration_span_ok_def span_from_style_token_def is_known_style_token_def
      provenance_of_record_def sample_provenance_def decoration_payload_budget_bytes_def split_def Let_def)

theorem published_spans_typed_witness:
  "\<exists>span\<in>set (de_spans (sorted_viewport_first sample_decorations)).
     decoration_span_ok (Some sample_renderer) (sorted_viewport_first sample_decorations) span"
  using published_spans_typed[OF sample_decorations_published] by (auto simp: sample_decorations_def)

text \<open>
  C37: what is displayed of several diagnostic sources is the documented rule. The composition merges the ranges
  of the suppressing diagnostics and looks each recovery span up by bisection; for non-empty spans it shows
  exactly those that no error or warning of an analyzer overlaps, in the order of the code's comparison.
\<close>

theorem compose_diagnostics_rule:
  assumes "\<forall>span\<in>set spans. dx_byte_start span < dx_byte_end span"
  shows "compose_diagnostic_spans spans = sort_key compose_sort_key
     (filter (\<lambda>span. \<not> (\<exists>t\<in>set spans. dx_source t \<noteq> tree_sitter_diagnostic_source
          \<and> dx_severity t \<in> {Error_Severity, Warning_Severity} \<and> dx_source span = tree_sitter_diagnostic_source
          \<and> dx_byte_start t < dx_byte_end span \<and> dx_byte_start span < dx_byte_end t)) spans)"
  using compose_diagnostic_spans_rule[OF assms] by (simp add: hides_def is_analyzer_error_or_warning_def)

definition sample_diagnostic :: "nat \<Rightarrow> nat \<Rightarrow> ustr \<Rightarrow> diagnostic_span" where
  "sample_diagnostic start stop source = \<lparr>dx_byte_start = start, dx_byte_end = stop,
     dx_severity = Error_Severity, dx_code = [99], dx_message = [109], dx_source = source,
     dx_provenance = sample_provenance\<rparr>"

theorem compose_diagnostics_rule_witness:
  "compose_diagnostic_spans [sample_diagnostic 2 4 tree_sitter_diagnostic_source, sample_diagnostic 3 8 [97],
       sample_diagnostic 8 9 tree_sitter_diagnostic_source]
     = [sample_diagnostic 3 8 [97], sample_diagnostic 8 9 tree_sitter_diagnostic_source]"
  by (subst compose_diagnostics_rule)
    (simp_all add: sample_diagnostic_def tree_sitter_diagnostic_source_def lit_def compose_sort_key_def)

section \<open>What is cached\<close>

text \<open>
  The decoration cache stays within its budget. Whatever sets are inserted, under whatever package prefixes
  and with whatever encoded sizes, the cache counts exactly the bytes it holds, holds no more than 30 MiB, holds
  one chunk for each key and none without spans.
\<close>

theorem decoration_cache_bounded:
  "cache_inv (insert_decoration_sets wire sets syntax_chunk_cache_default)"
  using insert_decoration_sets_inv[OF default_caches_inv(1)] by blast

text \<open>
  The newest diagnostics are kept. After any insertions, a checked set with spans is accepted and its chunk
  is in the cache, under its own key and with its own size, although the insertion may evict.
\<close>

theorem newest_diagnostics_kept:
  assumes "validate_diagnostic_set wire version s0 package = Inr s" and "dg_spans s \<noteq> []"
    and "dg_viewport_byte_end s \<le> u64_max"
  shows "\<exists>chunk\<in>set (cc_chunks (insert_diagnostic_sets wire (sets @ [s]) diagnostic_chunk_cache_default)).
     ck_key chunk = diagnostic_chunk_key_of s \<and> wire s = Some (ck_byte_size chunk)
     \<and> ck_span_count chunk = length (dg_spans s)"
proof -
  let ?c = "insert_diagnostic_sets wire sets diagnostic_chunk_cache_default"
  have inv: "cache_inv ?c" "cc_budget_bytes ?c = diagnostic_cache_budget_bytes"
    using insert_diagnostic_sets_inv[OF default_caches_inv(2)]
    by (simp_all add: diagnostic_chunk_cache_default_def with_budget_def)
  obtain bytes where bytes: "wire s = Some bytes" "bytes \<le> diagnostic_payload_budget_bytes"
    and spans: "\<forall>span\<in>set (dg_spans s). diagnostic_span_ok s0 span" and s: "s = diagnostic_sorted s0"
    using assms(1) by (auto simp: validate_diagnostic_set_Inr)
  obtain span where "span \<in> set (dg_spans s)" using assms(2) by (meson last_in_set)
  then have "dg_viewport_byte_start s < dg_viewport_byte_end s"
    using spans s by (force simp: diagnostic_span_ok_def)
  then have "near_diagnostics s (diagnostic_chunk_key_of s)"
    using assms(3) by (auto simp: near_diagnostics_def diagnostic_chunk_key_of_def sat_add_def)
  moreover have "\<not> cc_budget_bytes ?c < bytes"
    using inv(2) bytes(2) by (simp add: diagnostic_cache_budget_bytes_def diagnostic_payload_budget_bytes_def)
  then obtain snapshot where "snd (insert_diagnostic_set wire ?c s) = Inr snapshot"
    using bytes(1) by (simp add: insert_diagnostic_set_def Let_def)
  ultimately show ?thesis
    using diagnostics.newest_kept[OF inv(1), of wire s snapshot] assms(2) by (simp add: insert_diagnostic_sets_def)
qed

definition sample_diagnostics :: diagnostic_set where
  "sample_diagnostics = \<lparr>dg_document_id = 7, dg_document_version = 1, dg_viewport_byte_start = 0,
     dg_viewport_byte_end = 9, dg_source = [97], dg_provenance = sample_provenance,
     dg_spans = [sample_diagnostic 3 8 [97]]\<rparr>"

theorem newest_diagnostics_kept_witness:
  "\<exists>chunk\<in>set (cc_chunks (insert_diagnostic_sets (\<lambda>_. Some 100) ([] @ [sample_diagnostics])
       diagnostic_chunk_cache_default)).
     ck_key chunk = diagnostic_chunk_key_of sample_diagnostics \<and> Some 100 = Some (ck_byte_size chunk)
     \<and> ck_span_count chunk = length (dg_spans sample_diagnostics)"
proof (rule newest_diagnostics_kept[where wire = "\<lambda>_. Some 100"])
  show "validate_diagnostic_set (\<lambda>_. Some 100) 1 sample_diagnostics None = Inr sample_diagnostics"
    by (simp add: validate_diagnostic_set_Inr sample_diagnostics_def diagnostic_header_ok_def diagnostic_span_ok_def
        sample_diagnostic_def sample_provenance_def provenance_ok_def field_ok_def blank_def is_whitespace_def
        is_control_def len_utf8_def diagnostic_sorted_def diagnostic_max_spans_per_set_def
        diagnostic_max_code_bytes_def diagnostic_max_message_bytes_def diagnostic_max_source_bytes_def
        diagnostic_max_provenance_field_bytes_def diagnostic_payload_budget_bytes_def)
qed (simp_all add: sample_diagnostics_def u64_max_def)

end
