(* ===== verification/Behavior_Manifests.thy ===== *)
theory Behavior_Manifests imports Edit_Protocol Package_Conflicts Decoration_Sets "HOL-Library.Sublist" begin

text \<open>
  Behavior manifests: which commands exist, which keys run them and which edits the client may make by itself.
  The data and the defaults are those of \<open>protocol/mod.rs\<close>, the validator is \<open>behavior/manifest.rs\<close>. A server
  publishes a manifest, a client installs it; both validate it.

  The movement rules and the caret style of the editor rules, which neither the validator nor the router of keys
  reads, are left out. The last section turns the validator's loops into one condition on the manifest.
\<close>

section \<open>Keys\<close>

datatype key_code =
    Character_Key ustr
  | Enter_Key
  | Tab_Key
  | Backspace_Key
  | Delete_Key
  | Escape_Key
  | Arrow_Up_Key
  | Arrow_Down_Key
  | Arrow_Left_Key
  | Arrow_Right_Key

record key_modifiers =
  km_shift :: bool
  km_control :: bool
  km_alt :: bool
  km_super_key :: bool

definition no_modifiers :: key_modifiers where
  "no_modifiers = \<lparr>km_shift = False, km_control = False, km_alt = False, km_super_key = False\<rparr>"

record key_stroke =
  ks_key :: key_code
  ks_modifiers :: key_modifiers

definition key_stroke_new :: "key_code \<Rightarrow> key_stroke" where
  "key_stroke_new k = \<lparr>ks_key = k, ks_modifiers = no_modifiers\<rparr>"

definition ctrl_key :: "key_code \<Rightarrow> key_stroke" where
  "ctrl_key k = \<lparr>ks_key = k, ks_modifiers = no_modifiers\<lparr>km_control := True\<rparr>\<rparr>"

definition ctrl_shift_key :: "key_code \<Rightarrow> key_stroke" where
  "ctrl_shift_key k = \<lparr>ks_key = k, ks_modifiers = no_modifiers\<lparr>km_control := True, km_shift := True\<rparr>\<rparr>"

definition ctrl_alt_key :: "key_code \<Rightarrow> key_stroke" where
  "ctrl_alt_key k = \<lparr>ks_key = k, ks_modifiers = no_modifiers\<lparr>km_control := True, km_alt := True\<rparr>\<rparr>"

definition ctrl_alt_shift_key :: "key_code \<Rightarrow> key_stroke" where
  "ctrl_alt_shift_key k =
     \<lparr>ks_key = k, ks_modifiers = no_modifiers\<lparr>km_control := True, km_alt := True, km_shift := True\<rparr>\<rparr>"

datatype key_binding_context = Editor_Text_Focus | Completion_Menu | Global_Context

section \<open>Commands\<close>

datatype lock_scope = Range_Scope | Document_Scope | Behavior_Scope | Workspace_Scope

datatype routing_policy =
    Client_First_Predictable
  | Client_First_Requires_Ack
  | Server_First
  | Server_First_With_Lock lock_scope
  | Client_Ui_Command
  | Ui_Reactive_Priority
  | Background_Policy

datatype command_authority = Built_In_Client_Edit | Server_Intent | Client_Ui

record command_declaration =
  cd_command_id :: ustr
  cd_display_name :: ustr
  cd_routing_policy :: routing_policy
  cd_authority :: command_authority

definition client_edit_command :: "ustr \<Rightarrow> ustr \<Rightarrow> command_declaration" where
  "client_edit_command command_id display_name =
     \<lparr>cd_command_id = command_id, cd_display_name = display_name,
      cd_routing_policy = Client_First_Predictable, cd_authority = Built_In_Client_Edit\<rparr>"

definition server_intent_command :: "ustr \<Rightarrow> ustr \<Rightarrow> command_declaration" where
  "server_intent_command command_id display_name =
     \<lparr>cd_command_id = command_id, cd_display_name = display_name,
      cd_routing_policy = Server_First, cd_authority = Server_Intent\<rparr>"

definition ui_reactive_command :: "ustr \<Rightarrow> ustr \<Rightarrow> command_declaration" where
  "ui_reactive_command command_id display_name =
     \<lparr>cd_command_id = command_id, cd_display_name = display_name,
      cd_routing_policy = Ui_Reactive_Priority, cd_authority = Server_Intent\<rparr>"

definition client_ui_command :: "ustr \<Rightarrow> ustr \<Rightarrow> command_declaration" where
  "client_ui_command command_id display_name =
     \<lparr>cd_command_id = command_id, cd_display_name = display_name,
      cd_routing_policy = Client_Ui_Command, cd_authority = Client_Ui\<rparr>"

record key_binding_rule =
  kb_command_id :: ustr
  kb_sequence :: "key_stroke list"
  kb_context :: key_binding_context
  kb_routing_policy :: routing_policy

definition single_binding :: "ustr \<Rightarrow> key_code \<Rightarrow> key_binding_rule" where
  "single_binding command_id k =
     \<lparr>kb_command_id = command_id, kb_sequence = [key_stroke_new k], kb_context = Editor_Text_Focus,
      kb_routing_policy = Client_First_Predictable\<rparr>"

definition default_reload_configuration :: key_binding_rule where
  "default_reload_configuration =
     \<lparr>kb_command_id = lit ''runtime.reloadConfiguration'',
      kb_sequence = [\<lparr>ks_key = Character_Key (lit ''r''),
        ks_modifiers = no_modifiers\<lparr>km_control := True, km_shift := True\<rparr>\<rparr>],
      kb_context = Global_Context, kb_routing_policy = Server_First_With_Lock Behavior_Scope\<rparr>"

definition global_client_ui :: "ustr \<Rightarrow> key_stroke \<Rightarrow> key_binding_rule" where
  "global_client_ui command_id stroke =
     \<lparr>kb_command_id = command_id, kb_sequence = [stroke], kb_context = Global_Context,
      kb_routing_policy = Client_Ui_Command\<rparr>"

definition global_server_first :: "ustr \<Rightarrow> key_stroke \<Rightarrow> key_binding_rule" where
  "global_server_first command_id stroke =
     \<lparr>kb_command_id = command_id, kb_sequence = [stroke], kb_context = Global_Context,
      kb_routing_policy = Server_First\<rparr>"

definition global_server_first_sequence :: "ustr \<Rightarrow> key_stroke list \<Rightarrow> key_binding_rule" where
  "global_server_first_sequence command_id strokes =
     \<lparr>kb_command_id = command_id, kb_sequence = strokes, kb_context = Global_Context,
      kb_routing_policy = Server_First\<rparr>"

section \<open>Editor rules\<close>

datatype text_edit_capability = Insert_Capability | Delete_Capability | Replace_Capability

datatype enter_rule =
    Preserve_Leading_Whitespace
  | Insert_Newline_Only
  | Continue_Line_Markers "ustr list" bool
  | Preserve_Fence_Body_Indent "ustr list"

datatype tab_mode = Insert_Spaces | Insert_Tab_Character

record tab_rule =
  tb_mode :: tab_mode
  tb_spaces_per_tab :: nat

datatype pair_rule_context = Caret_Or_Selection

record pair_rule =
  pl_open :: ustr
  pl_close :: ustr
  pl_when :: pair_rule_context

definition pair_rule_new :: "ustr \<Rightarrow> ustr \<Rightarrow> pair_rule" where
  "pair_rule_new open_text close_text = \<lparr>pl_open = open_text, pl_close = close_text, pl_when = Caret_Or_Selection\<rparr>"

record comment_continuation_rule =
  ct_line_prefix :: ustr
  ct_continue_prefix :: ustr

datatype electric_effect = Outdent_One_Level

record electric_character_rule =
  ec_trigger :: ustr
  ec_effect :: electric_effect

definition outdent_rule :: "ustr \<Rightarrow> electric_character_rule" where
  "outdent_rule trigger = \<lparr>ec_trigger = trigger, ec_effect = Outdent_One_Level\<rparr>"

record autocomplete_trigger =
  at_trigger :: ustr
  at_routing_policy :: routing_policy

record editor_behavior_rules =
  eb_text_edits :: "text_edit_capability list"
  eb_enter :: enter_rule
  eb_tab :: tab_rule
  eb_pairs :: "pair_rule list"
  eb_comments :: "comment_continuation_rule list"
  eb_electric_characters :: "electric_character_rule list"
  eb_autocomplete_triggers :: "autocomplete_trigger list"

definition default_text_rules :: editor_behavior_rules where
  "default_text_rules =
     \<lparr>eb_text_edits = [Insert_Capability, Delete_Capability, Replace_Capability],
      eb_enter = Preserve_Leading_Whitespace,
      eb_tab = \<lparr>tb_mode = Insert_Spaces, tb_spaces_per_tab = 4\<rparr>,
      eb_pairs = [pair_rule_new (lit ''('') (lit '')''), pair_rule_new (lit ''['') (lit '']''),
        pair_rule_new [123] [125], pair_rule_new [34] [34], pair_rule_new [39] [39]],
      eb_comments = [\<lparr>ct_line_prefix = lit ''//'', ct_continue_prefix = lit ''// ''\<rparr>],
      eb_electric_characters = [],
      eb_autocomplete_triggers = [\<lparr>at_trigger = lit ''.'', at_routing_policy = Ui_Reactive_Priority\<rparr>]\<rparr>"

definition default_code_rules :: editor_behavior_rules where
  "default_code_rules = default_text_rules
     \<lparr>eb_electric_characters := [outdent_rule [125], outdent_rule (lit '')''), outdent_rule (lit '']'')]\<rparr>"

section \<open>Manifests\<close>

datatype behavior_scope = Global_Default | Document_Layer nat | Language_Layer ustr

record behavior_manifest =
  bm_manifest_id :: ustr
  bm_behavior_version :: nat
  bm_scope :: behavior_scope
  bm_document_font_role :: document_font_role
  bm_keymaps :: "key_binding_rule list"
  bm_commands :: "command_declaration list"
  bm_editor_rules :: editor_behavior_rules

definition allows_client_first_edit :: "behavior_manifest \<Rightarrow> edit_operation \<Rightarrow> bool" where
  "allows_client_first_edit m operation \<longleftrightarrow>
     list_ex (\<lambda>capability. case (operation, capability) of
         (Insert _ _, Insert_Capability) \<Rightarrow> True
       | (Delete _ _, Delete_Capability) \<Rightarrow> True
       | (Replace _ _ _, Replace_Capability) \<Rightarrow> True
       | _ \<Rightarrow> False) (eb_text_edits (bm_editor_rules m))"

text \<open>The backslash is the scalar 92.\<close>

definition default_keymaps :: "key_binding_rule list" where
  "default_keymaps =
     [single_binding (lit ''text.insert_newline'') Enter_Key,
      single_binding (lit ''text.insert_tab'') Tab_Key,
      default_reload_configuration,
      global_server_first_sequence (lit ''controlCenter.open'')
        [ctrl_key (Character_Key (lit ''x'')), ctrl_key (Character_Key (lit ''p''))],
      global_server_first_sequence (lit ''controlCenter.openPath'')
        [ctrl_key (Character_Key (lit ''x'')), ctrl_key (Character_Key (lit ''f''))],
      global_client_ui (lit ''shell.clientSplitPaneVertical'') (ctrl_key (Character_Key [92])),
      global_client_ui (lit ''shell.clientSplitPaneHorizontal'') (ctrl_key (Character_Key (lit ''-''))),
      global_client_ui (lit ''shell.clientAddEqualPane'') (ctrl_shift_key (Character_Key [92])),
      global_client_ui (lit ''shell.clientClosePane'') (ctrl_alt_key (Character_Key (lit ''w''))),
      global_client_ui (lit ''shell.clientFocusPanePrev'') (ctrl_alt_key Arrow_Left_Key),
      global_client_ui (lit ''shell.clientFocusPaneNext'') (ctrl_alt_key Arrow_Right_Key),
      global_client_ui (lit ''shell.clientResizePaneLeft'') (ctrl_alt_shift_key Arrow_Left_Key),
      global_client_ui (lit ''shell.clientResizePaneRight'') (ctrl_alt_shift_key Arrow_Right_Key),
      global_client_ui (lit ''shell.clientResizePaneUp'') (ctrl_alt_shift_key Arrow_Up_Key),
      global_client_ui (lit ''shell.clientResizePaneDown'') (ctrl_alt_shift_key Arrow_Down_Key),
      global_client_ui (lit ''shell.clientMovePanePrev'') (ctrl_alt_key (Character_Key (lit ''[''))),
      global_client_ui (lit ''shell.clientMovePaneNext'') (ctrl_alt_key (Character_Key (lit '']''))),
      global_client_ui (lit ''shell.clientTabNext'') (ctrl_key Tab_Key),
      global_client_ui (lit ''shell.clientTabPrev'') (ctrl_shift_key Tab_Key),
      global_client_ui (lit ''shell.clientTabNew'') (ctrl_key (Character_Key (lit ''t''))),
      global_client_ui (lit ''shell.clientTabClose'') (ctrl_shift_key (Character_Key (lit ''w''))),
      global_client_ui (lit ''shell.clientTabMoveLeft'') (ctrl_shift_key (Character_Key (lit ''[''))),
      global_client_ui (lit ''shell.clientTabMoveRight'') (ctrl_shift_key (Character_Key (lit '']'')))]
     @ concat (map (\<lambda>n.
         [global_client_ui (lit ''shell.clientTabActivate.'' @ nat_digits n) (ctrl_key (Character_Key (nat_digits n))),
          global_client_ui (lit ''shell.clientTabMoveTo.'' @ nat_digits n)
            (ctrl_shift_key (Character_Key (nat_digits n)))]) [1..<10])"

definition default_commands :: "command_declaration list" where
  "default_commands =
     [client_edit_command (lit ''text.insert'') (lit ''Insert Text''),
      client_edit_command (lit ''text.delete'') (lit ''Delete Text''),
      client_edit_command (lit ''text.replace'') (lit ''Replace Text''),
      client_edit_command (lit ''text.insert_newline'') (lit ''Insert Newline''),
      client_edit_command (lit ''text.insert_tab'') (lit ''Insert Tab''),
      \<lparr>cd_command_id = lit ''runtime.reloadConfiguration'',
       cd_display_name = lit ''Reload Configuration and Packages'',
       cd_routing_policy = Server_First_With_Lock Behavior_Scope, cd_authority = Server_Intent\<rparr>,
      server_intent_command (lit ''controlCenter.open'') (lit ''Open Control Center''),
      server_intent_command (lit ''controlCenter.openPath'') (lit ''Browse Filesystem''),
      ui_reactive_command (lit ''completion.trigger'') (lit ''Trigger Completion''),
      ui_reactive_command (lit ''language.hover'') (lit ''Hover''),
      ui_reactive_command (lit ''language.goToDefinition'') (lit ''Go to Definition''),
      ui_reactive_command (lit ''language.codeActions'') (lit ''Code Actions''),
      ui_reactive_command (lit ''language.signatureHelp'') (lit ''Signature Help''),
      client_ui_command (lit ''shell.clientSplitPaneVertical'') (lit ''Split Pane Vertical''),
      client_ui_command (lit ''shell.clientSplitPaneHorizontal'') (lit ''Split Pane Horizontal''),
      client_ui_command (lit ''shell.clientAddEqualPane'') (lit ''Add Equal Pane''),
      client_ui_command (lit ''shell.clientClosePane'') (lit ''Close Pane''),
      client_ui_command (lit ''shell.clientFocusPaneNext'') (lit ''Focus Next Pane''),
      client_ui_command (lit ''shell.clientFocusPanePrev'') (lit ''Focus Previous Pane''),
      client_ui_command (lit ''shell.clientResizePaneLeft'') (lit ''Resize Pane Left''),
      client_ui_command (lit ''shell.clientResizePaneRight'') (lit ''Resize Pane Right''),
      client_ui_command (lit ''shell.clientResizePaneUp'') (lit ''Resize Pane Up''),
      client_ui_command (lit ''shell.clientResizePaneDown'') (lit ''Resize Pane Down''),
      client_ui_command (lit ''shell.clientMovePaneNext'') (lit ''Move Pane Next''),
      client_ui_command (lit ''shell.clientMovePanePrev'') (lit ''Move Pane Previous''),
      client_ui_command (lit ''shell.clientTabNext'') (lit ''Next Tab''),
      client_ui_command (lit ''shell.clientTabPrev'') (lit ''Previous Tab''),
      client_ui_command (lit ''shell.clientTabNew'') (lit ''New Tab''),
      client_ui_command (lit ''shell.clientTabClose'') (lit ''Close Tab''),
      client_ui_command (lit ''shell.clientTabMoveLeft'') (lit ''Move Tab Left''),
      client_ui_command (lit ''shell.clientTabMoveRight'') (lit ''Move Tab Right'')]
     @ concat (map (\<lambda>n.
         [client_ui_command (lit ''shell.clientTabActivate.'' @ nat_digits n) (lit ''Activate Tab '' @ nat_digits n),
          client_ui_command (lit ''shell.clientTabMoveTo.'' @ nat_digits n)
            (lit ''Move Tab to Position '' @ nat_digits n)]) [1..<10])"

definition minimal_text_editing :: "nat \<Rightarrow> behavior_manifest" where
  "minimal_text_editing behavior_version =
     \<lparr>bm_manifest_id = lit ''default.text'', bm_behavior_version = behavior_version, bm_scope = Global_Default,
      bm_document_font_role = Proportional_Role, bm_keymaps = default_keymaps, bm_commands = default_commands,
      bm_editor_rules = default_text_rules\<rparr>"

definition core_code_editing :: "nat \<Rightarrow> behavior_manifest" where
  "core_code_editing behavior_version =
     \<lparr>bm_manifest_id = lit ''default.code'', bm_behavior_version = behavior_version, bm_scope = Global_Default,
      bm_document_font_role = Monospace_Role, bm_keymaps = default_keymaps, bm_commands = default_commands,
      bm_editor_rules = default_code_rules\<rparr>"

section \<open>Validation\<close>

datatype manifest_error =
    Empty_Manifest_Id
  | Empty_Command_Id
  | Duplicate_Command_Id ustr
  | Unknown_Command_Id ustr
  | Empty_Key_Sequence ustr
  | Ambiguous_Key_Binding ustr
  | Invalid_Tab_Width
  | Invalid_Pair_Rule
  | Invalid_Electric_Character_Rule
  | Invalid_Autocomplete_Trigger
  | Invalid_Autocomplete_Routing
  | Executable_Or_Side_Effect_Authority ustr

definition validate_command :: "command_declaration \<Rightarrow> manifest_error + unit" where
  "validate_command command =
    (if blank (cd_command_id command) then Inl Empty_Command_Id
     else case (cd_routing_policy command, cd_authority command) of
       (Client_First_Predictable, Built_In_Client_Edit) \<Rightarrow> Inr ()
     | (Client_First_Requires_Ack, Built_In_Client_Edit) \<Rightarrow> Inr ()
     | (Server_First, Server_Intent) \<Rightarrow> Inr ()
     | (Server_First_With_Lock _, Server_Intent) \<Rightarrow> Inr ()
     | (Ui_Reactive_Priority, Server_Intent) \<Rightarrow> Inr ()
     | (Background_Policy, Server_Intent) \<Rightarrow> Inr ()
     | (Client_Ui_Command, Client_Ui) \<Rightarrow> Inr ()
     | _ \<Rightarrow> Inl (Executable_Or_Side_Effect_Authority (cd_command_id command)))"

text \<open>The loop over the commands: the set of their identifiers.\<close>

fun validate_commands :: "ustr set \<Rightarrow> command_declaration list \<Rightarrow> manifest_error + ustr set" where
  "validate_commands command_ids [] = Inr command_ids"
| "validate_commands command_ids (command # commands) =
     bind_result (validate_command command) (\<lambda>_.
     if cd_command_id command \<in> command_ids then Inl (Duplicate_Command_Id (cd_command_id command))
     else validate_commands (insert (cd_command_id command) command_ids) commands)"

definition validate_key_binding :: "key_binding_rule \<Rightarrow> ustr set \<Rightarrow> manifest_error + unit" where
  "validate_key_binding keymap command_ids =
    (if kb_command_id keymap \<notin> command_ids then Inl (Unknown_Command_Id (kb_command_id keymap))
     else if kb_sequence keymap = [] then Inl (Empty_Key_Sequence (kb_command_id keymap))
     else Inr ())"

text \<open>The loop over the bindings. The keys of its set are \<open>Debug\<close> texts of context and sequence.\<close>

fun validate_keymaps ::
  "ustr set \<Rightarrow> (key_binding_context \<times> key_stroke list) set \<Rightarrow> key_binding_rule list \<Rightarrow> manifest_error + unit" where
  "validate_keymaps command_ids key_rules [] = Inr ()"
| "validate_keymaps command_ids key_rules (keymap # keymaps) =
     bind_result (validate_key_binding keymap command_ids) (\<lambda>_.
     if (kb_context keymap, kb_sequence keymap) \<in> key_rules then Inl (Ambiguous_Key_Binding (kb_command_id keymap))
     else validate_keymaps command_ids (insert (kb_context keymap, kb_sequence keymap) key_rules) keymaps)"

definition is_strict_prefix :: "key_stroke list \<Rightarrow> key_stroke list \<Rightarrow> bool" where
  "is_strict_prefix a b \<longleftrightarrow> length a < length b \<and> take (length a) b = a"

text \<open>The two nested loops over pairs of bindings.\<close>

fun validate_prefixes_of :: "key_binding_rule \<Rightarrow> key_binding_rule list \<Rightarrow> manifest_error + unit" where
  "validate_prefixes_of rl [] = Inr ()"
| "validate_prefixes_of rl (other # others) =
     (if kb_context rl \<noteq> kb_context other then validate_prefixes_of rl others
      else if is_strict_prefix (kb_sequence rl) (kb_sequence other)
      then Inl (Ambiguous_Key_Binding (kb_command_id rl))
      else if is_strict_prefix (kb_sequence other) (kb_sequence rl)
      then Inl (Ambiguous_Key_Binding (kb_command_id other))
      else validate_prefixes_of rl others)"

fun validate_prefixes :: "key_binding_rule list \<Rightarrow> manifest_error + unit" where
  "validate_prefixes [] = Inr ()"
| "validate_prefixes (rl # rules) = bind_result (validate_prefixes_of rl rules) (\<lambda>_. validate_prefixes rules)"

fun validate_autocomplete :: "ustr set \<Rightarrow> autocomplete_trigger list \<Rightarrow> manifest_error + unit" where
  "validate_autocomplete seen [] = Inr ()"
| "validate_autocomplete seen (t # triggers) =
     (if length (at_trigger t) \<noteq> 1 \<or> at_trigger t \<in> seen then Inl Invalid_Autocomplete_Trigger
      else if at_routing_policy t \<noteq> Ui_Reactive_Priority then Inl Invalid_Autocomplete_Routing
      else validate_autocomplete (insert (at_trigger t) seen) triggers)"

definition validate_editor_rules :: "editor_behavior_rules \<Rightarrow> manifest_error + unit" where
  "validate_editor_rules rules =
    (if tb_spaces_per_tab (eb_tab rules) = 0 then Inl Invalid_Tab_Width
     else if list_ex (\<lambda>pair. pl_open pair = [] \<or> pl_close pair = []) (eb_pairs rules) then Inl Invalid_Pair_Rule
     else if list_ex (\<lambda>electric. ec_trigger electric = []) (eb_electric_characters rules)
     then Inl Invalid_Electric_Character_Rule
     else if length (eb_autocomplete_triggers rules) > 32 then Inl Invalid_Autocomplete_Trigger
     else validate_autocomplete {} (eb_autocomplete_triggers rules))"

definition validate_manifest :: "behavior_manifest \<Rightarrow> manifest_error + unit" where
  "validate_manifest m =
    (if blank (bm_manifest_id m) then Inl Empty_Manifest_Id
     else
       bind_result (validate_commands {} (bm_commands m)) (\<lambda>command_ids.
       bind_result (validate_keymaps command_ids {} (bm_keymaps m)) (\<lambda>_.
       bind_result (validate_prefixes (bm_keymaps m)) (\<lambda>_.
       validate_editor_rules (bm_editor_rules m)))))"

section \<open>What the validator accepts\<close>

definition command_ok :: "command_declaration \<Rightarrow> bool" where
  "command_ok command \<longleftrightarrow> \<not> blank (cd_command_id command)
     \<and> (case cd_authority command of
          Built_In_Client_Edit \<Rightarrow> cd_routing_policy command \<in> {Client_First_Predictable, Client_First_Requires_Ack}
        | Client_Ui \<Rightarrow> cd_routing_policy command = Client_Ui_Command
        | Server_Intent \<Rightarrow> cd_routing_policy command
            \<notin> {Client_First_Predictable, Client_First_Requires_Ack, Client_Ui_Command})"

definition editor_rules_ok :: "editor_behavior_rules \<Rightarrow> bool" where
  "editor_rules_ok rules \<longleftrightarrow>
     0 < tb_spaces_per_tab (eb_tab rules)
     \<and> (\<forall>pair\<in>set (eb_pairs rules). pl_open pair \<noteq> [] \<and> pl_close pair \<noteq> [])
     \<and> (\<forall>electric\<in>set (eb_electric_characters rules). ec_trigger electric \<noteq> [])
     \<and> length (eb_autocomplete_triggers rules) \<le> 32
     \<and> distinct (map at_trigger (eb_autocomplete_triggers rules))
     \<and> (\<forall>t\<in>set (eb_autocomplete_triggers rules). length (at_trigger t) = 1
          \<and> at_routing_policy t = Ui_Reactive_Priority)"

text \<open>No sequence of a context begins another one of it.\<close>

definition sequences_ok :: "key_binding_rule list \<Rightarrow> bool" where
  "sequences_ok rules \<longleftrightarrow>
     distinct (map (\<lambda>rl. (kb_context rl, kb_sequence rl)) rules)
     \<and> (\<forall>a\<in>set rules. \<forall>b\<in>set rules. kb_context a = kb_context b \<longrightarrow> \<not> strict_prefix (kb_sequence a) (kb_sequence b))"

definition manifest_ok :: "behavior_manifest \<Rightarrow> bool" where
  "manifest_ok m \<longleftrightarrow> \<not> blank (bm_manifest_id m)
     \<and> (\<forall>command\<in>set (bm_commands m). command_ok command) \<and> distinct (map cd_command_id (bm_commands m))
     \<and> (\<forall>rl\<in>set (bm_keymaps m). kb_command_id rl \<in> cd_command_id ` set (bm_commands m) \<and> kb_sequence rl \<noteq> [])
     \<and> sequences_ok (bm_keymaps m) \<and> editor_rules_ok (bm_editor_rules m)"

lemma is_strict_prefix_eq: "is_strict_prefix a b = strict_prefix a b"
proof
  assume "is_strict_prefix a b"
  then have "b = a @ drop (length a) b" "a \<noteq> b"
    by (auto simp: is_strict_prefix_def) (metis append_take_drop_id)
  then show "strict_prefix a b" by (metis prefix_def strict_prefix_def)
next
  assume "strict_prefix a b"
  then show "is_strict_prefix a b"
    by (auto simp: is_strict_prefix_def strict_prefix_def prefix_def)
qed

lemma validate_command_Inr: "validate_command command = Inr u \<longleftrightarrow> command_ok command"
  by (auto simp: validate_command_def command_ok_def split: routing_policy.splits command_authority.splits)

lemma validate_commands_Inr:
  "validate_commands ids commands = Inr ids' \<longleftrightarrow>
     (\<forall>command\<in>set commands. command_ok command) \<and> distinct (map cd_command_id commands)
     \<and> cd_command_id ` set commands \<inter> ids = {} \<and> ids' = ids \<union> cd_command_id ` set commands"
  by (induction commands arbitrary: ids) (auto simp: bind_result_Inr validate_command_Inr)

lemma validate_keymaps_Inr:
  "validate_keymaps ids seen rules = Inr u \<longleftrightarrow>
     (\<forall>rl\<in>set rules. kb_command_id rl \<in> ids \<and> kb_sequence rl \<noteq> [])
     \<and> distinct (map (\<lambda>rl. (kb_context rl, kb_sequence rl)) rules)
     \<and> (\<lambda>rl. (kb_context rl, kb_sequence rl)) ` set rules \<inter> seen = {}"
  by (induction rules arbitrary: seen) (auto simp: bind_result_Inr validate_key_binding_def)

lemma validate_prefixes_of_Inr:
  "validate_prefixes_of rl others = Inr u \<longleftrightarrow>
     (\<forall>other\<in>set others. kb_context rl = kb_context other \<longrightarrow>
        \<not> strict_prefix (kb_sequence rl) (kb_sequence other) \<and> \<not> strict_prefix (kb_sequence other) (kb_sequence rl))"
  by (induction others) (auto simp: is_strict_prefix_eq)

lemma validate_prefixes_Inr:
  "validate_prefixes rules = Inr u \<longleftrightarrow>
     (\<forall>a\<in>set rules. \<forall>b\<in>set rules. kb_context a = kb_context b \<longrightarrow> \<not> strict_prefix (kb_sequence a) (kb_sequence b))"
  by (induction rules) (auto simp: bind_result_Inr validate_prefixes_of_Inr)

lemma validate_autocomplete_Inr:
  "validate_autocomplete seen triggers = Inr u \<longleftrightarrow>
     distinct (map at_trigger triggers) \<and> at_trigger ` set triggers \<inter> seen = {}
     \<and> (\<forall>t\<in>set triggers. length (at_trigger t) = 1 \<and> at_routing_policy t = Ui_Reactive_Priority)"
  by (induction triggers arbitrary: seen) auto

lemma validate_editor_rules_Inr: "validate_editor_rules rules = Inr u \<longleftrightarrow> editor_rules_ok rules"
  by (auto simp: validate_editor_rules_def editor_rules_ok_def validate_autocomplete_Inr list_ex_iff)

lemma validate_manifest_Inr: "validate_manifest m = Inr u \<longleftrightarrow> manifest_ok m"
  by (auto simp: validate_manifest_def manifest_ok_def sequences_ok_def bind_result_Inr validate_commands_Inr
      validate_keymaps_Inr validate_prefixes_Inr validate_editor_rules_Inr)

section \<open>The defaults are accepted\<close>

definition default_command_names :: "string list" where
  "default_command_names =
     [''text.insert'', ''text.delete'', ''text.replace'', ''text.insert_newline'', ''text.insert_tab'',
      ''runtime.reloadConfiguration'', ''controlCenter.open'', ''controlCenter.openPath'',
      ''completion.trigger'', ''language.hover'', ''language.goToDefinition'', ''language.codeActions'',
      ''language.signatureHelp'', ''shell.clientSplitPaneVertical'', ''shell.clientSplitPaneHorizontal'',
      ''shell.clientAddEqualPane'', ''shell.clientClosePane'', ''shell.clientFocusPaneNext'',
      ''shell.clientFocusPanePrev'', ''shell.clientResizePaneLeft'', ''shell.clientResizePaneRight'',
      ''shell.clientResizePaneUp'', ''shell.clientResizePaneDown'', ''shell.clientMovePaneNext'',
      ''shell.clientMovePanePrev'', ''shell.clientTabNext'', ''shell.clientTabPrev'',
      ''shell.clientTabNew'', ''shell.clientTabClose'', ''shell.clientTabMoveLeft'',
      ''shell.clientTabMoveRight'', ''shell.clientTabActivate.1'', ''shell.clientTabMoveTo.1'',
      ''shell.clientTabActivate.2'', ''shell.clientTabMoveTo.2'', ''shell.clientTabActivate.3'',
      ''shell.clientTabMoveTo.3'', ''shell.clientTabActivate.4'', ''shell.clientTabMoveTo.4'',
      ''shell.clientTabActivate.5'', ''shell.clientTabMoveTo.5'', ''shell.clientTabActivate.6'',
      ''shell.clientTabMoveTo.6'', ''shell.clientTabActivate.7'', ''shell.clientTabMoveTo.7'',
      ''shell.clientTabActivate.8'', ''shell.clientTabMoveTo.8'', ''shell.clientTabActivate.9'',
      ''shell.clientTabMoveTo.9'']"

lemma default_command_ids: "map cd_command_id default_commands = map lit default_command_names"
  by (simp add: default_commands_def default_command_names_def client_edit_command_def server_intent_command_def
      ui_reactive_command_def client_ui_command_def upt_rec lit_def)

lemma default_command_names_distinct: "distinct default_command_names"
  unfolding default_command_names_def by code_simp

lemma default_command_ids_distinct: "distinct (map cd_command_id default_commands)"
  unfolding default_command_ids using default_command_names_distinct
  by (simp add: distinct_map inj_on_def lit_eq_iff)

lemma default_commands_ok: "\<forall>command\<in>set default_commands. command_ok command"
proof -
  have "\<not> blank (lit s @ t)" if "s \<noteq> []" "\<not> is_whitespace (of_char (hd s))" for s t
    using that by (cases s) (auto simp: blank_def lit_def)
  note nonblank = this this[where t = "[]", simplified]
  show ?thesis
    by (simp add: default_commands_def command_ok_def client_edit_command_def server_intent_command_def
        ui_reactive_command_def client_ui_command_def nonblank is_whitespace_def)
qed

definition default_keymap_names :: "string list" where
  "default_keymap_names =
     [''text.insert_newline'', ''text.insert_tab'', ''runtime.reloadConfiguration'', ''controlCenter.open'',
      ''controlCenter.openPath'', ''shell.clientSplitPaneVertical'', ''shell.clientSplitPaneHorizontal'',
      ''shell.clientAddEqualPane'', ''shell.clientClosePane'', ''shell.clientFocusPanePrev'',
      ''shell.clientFocusPaneNext'', ''shell.clientResizePaneLeft'', ''shell.clientResizePaneRight'',
      ''shell.clientResizePaneUp'', ''shell.clientResizePaneDown'', ''shell.clientMovePanePrev'',
      ''shell.clientMovePaneNext'', ''shell.clientTabNext'', ''shell.clientTabPrev'', ''shell.clientTabNew'',
      ''shell.clientTabClose'', ''shell.clientTabMoveLeft'', ''shell.clientTabMoveRight'',
      ''shell.clientTabActivate.1'', ''shell.clientTabMoveTo.1'', ''shell.clientTabActivate.2'',
      ''shell.clientTabMoveTo.2'', ''shell.clientTabActivate.3'', ''shell.clientTabMoveTo.3'',
      ''shell.clientTabActivate.4'', ''shell.clientTabMoveTo.4'', ''shell.clientTabActivate.5'',
      ''shell.clientTabMoveTo.5'', ''shell.clientTabActivate.6'', ''shell.clientTabMoveTo.6'',
      ''shell.clientTabActivate.7'', ''shell.clientTabMoveTo.7'', ''shell.clientTabActivate.8'',
      ''shell.clientTabMoveTo.8'', ''shell.clientTabActivate.9'', ''shell.clientTabMoveTo.9'']"

lemma default_keymap_ids: "map kb_command_id default_keymaps = map lit default_keymap_names"
  by (simp add: default_keymaps_def default_keymap_names_def single_binding_def default_reload_configuration_def
      global_server_first_sequence_def global_client_ui_def upt_rec lit_def)

lemma default_keymap_names_declared: "list_all (\<lambda>s. List.member default_command_names s) default_keymap_names"
  unfolding default_keymap_names_def default_command_names_def by code_simp

lemma default_keymaps_declared:
  "\<forall>rl\<in>set default_keymaps. kb_command_id rl \<in> cd_command_id ` set default_commands \<and> kb_sequence rl \<noteq> []"
proof -
  have "cd_command_id ` set default_commands = lit ` set default_command_names"
    using default_command_ids by (metis list.set_map)
  moreover have "kb_command_id ` set default_keymaps = lit ` set default_keymap_names"
    using default_keymap_ids by (metis list.set_map)
  moreover have "set default_keymap_names \<subseteq> set default_command_names"
    using default_keymap_names_declared by (auto simp: list_all_iff)
  moreover have "list_all (\<lambda>rl. kb_sequence rl \<noteq> []) default_keymaps"
    by (simp add: default_keymaps_def single_binding_def default_reload_configuration_def
        global_server_first_sequence_def global_client_ui_def upt_rec)
  ultimately show ?thesis by (fastforce simp: list_all_iff)
qed

text \<open>In the default bindings a sequence is one stroke or one of two chords that start with the same stroke.\<close>

lemma default_sequences_ok: "sequences_ok default_keymaps"
proof -
  let ?x = "ctrl_key (Character_Key [120])"
  note keys = default_keymaps_def single_binding_def default_reload_configuration_def global_server_first_sequence_def
    global_client_ui_def ctrl_key_def ctrl_shift_key_def ctrl_alt_key_def ctrl_alt_shift_key_def key_stroke_new_def
    no_modifiers_def upt_rec lit_def
  have two: "kb_sequence rl \<in> {[?x, ctrl_key (Character_Key [112])], [?x, ctrl_key (Character_Key [102])]}
      \<or> (length (kb_sequence rl) = 1 \<and> kb_sequence rl \<noteq> [?x])" if "rl \<in> set default_keymaps" for rl
    using that by (auto simp: keys)
  have "\<not> strict_prefix (kb_sequence a) (kb_sequence b)" if "a \<in> set default_keymaps" "b \<in> set default_keymaps" for a b
    using two[OF that(1)] two[OF that(2)]
    by (auto simp: strict_prefix_def prefix_Cons length_Suc_conv prefix_def Cons_eq_append_conv)
  moreover have "distinct (map (\<lambda>rl. (kb_context rl, kb_sequence rl)) default_keymaps)"
    by (simp add: keys)
  ultimately show ?thesis by (simp add: sequences_ok_def)
qed

lemma default_rules_ok: "editor_rules_ok default_text_rules" "editor_rules_ok default_code_rules"
  by (simp_all add: editor_rules_ok_def default_text_rules_def default_code_rules_def pair_rule_new_def
      outdent_rule_def lit_def)

lemma default_manifests_ok: "manifest_ok (minimal_text_editing v)" "manifest_ok (core_code_editing v)"
  using default_commands_ok default_command_ids_distinct default_keymaps_declared default_sequences_ok default_rules_ok
  by (simp_all add: manifest_ok_def minimal_text_editing_def core_code_editing_def blank_def lit_def is_whitespace_def)

end
