(* ===== verification/Key_Routing.thy ===== *)
theory Key_Routing imports Behavior_Manifests begin

text \<open>
  How a client routes a key by the manifest installed (\<open>client/behavior.rs\<close>), and the chord of several strokes
  that the editor keeps pending between keys (\<open>route_key_with_event\<close> in \<open>editor/surface.rs\<close>, from the manifest
  on: the two keys that a snippet session or a selection takes first are not part of it).

  The clock is read once for each key, in nanoseconds. The last sections give the matcher a closed form and show
  which bound sequences can be typed.
\<close>

section \<open>What a key is routed to\<close>

datatype completion_trigger = Trigger_Character ustr | Trigger_Manual

record completion_trigger_route =
  cr_trigger :: completion_trigger
  cr_routing_policy :: routing_policy

datatype language_intelligence_feature = Hover_Feature | Go_To_Definition | Code_Action | Signature_Help

definition language_intelligence_feature_for_command :: "ustr \<Rightarrow> language_intelligence_feature option" where
  "language_intelligence_feature_for_command command_id =
    (if command_id = lit ''language.hover'' then Some Hover_Feature
     else if command_id = lit ''language.goToDefinition'' then Some Go_To_Definition
     else if command_id = lit ''language.codeActions'' then Some Code_Action
     else if command_id = lit ''language.signatureHelp'' then Some Signature_Help
     else None)"

datatype client_local_edit = Insert_Text ustr | Insert_Newline

text \<open>The routes of language features, server intents and client commands carry the policy of their rule.\<close>

datatype routed_behavior =
    Client_Edit client_local_edit "completion_trigger_route option"
  | Completion_Route completion_trigger_route
  | Language_Intelligence language_intelligence_feature routing_policy
  | Server_Intent_Route ustr routing_policy
  | Client_Ui_Command_Route ustr routing_policy
  | Unhandled

datatype chord_route_outcome = Matched routed_behavior | Pending | Mismatch

definition key_matches_binding :: "key_stroke \<Rightarrow> key_stroke \<Rightarrow> bool" where
  "key_matches_binding binding event \<longleftrightarrow>
     ks_modifiers binding = ks_modifiers event
     \<and> (case (ks_key binding, ks_key event) of
          (Character_Key b, Character_Key e) \<Rightarrow> b = e \<or> ascii_lowercase b = ascii_lowercase e
        | _ \<Rightarrow> ks_key binding = ks_key event)"

definition manifest_claims_chord :: "behavior_manifest \<Rightarrow> key_stroke \<Rightarrow> bool" where
  "manifest_claims_chord m k \<longleftrightarrow>
     list_ex (\<lambda>rl. kb_sequence rl \<noteq> [] \<and> key_matches_binding (kb_sequence rl ! 0) k) (bm_keymaps m)"

definition tab_text :: "behavior_manifest \<Rightarrow> ustr" where
  "tab_text m =
     (case tb_mode (eb_tab (bm_editor_rules m)) of
        Insert_Spaces \<Rightarrow> replicate (tb_spaces_per_tab (eb_tab (bm_editor_rules m))) 32
      | Insert_Tab_Character \<Rightarrow> [9])"

definition client_behavior_new :: "behavior_manifest \<Rightarrow> manifest_error + behavior_manifest" where
  "client_behavior_new m = bind_result (validate_manifest m) (\<lambda>_. Inr m)"

text \<open>\<open>install_replacement\<close>: the manifest installed afterwards, and the result.\<close>

definition install_replacement ::
  "behavior_manifest \<Rightarrow> behavior_manifest \<Rightarrow> behavior_manifest \<times> (manifest_error + unit)" where
  "install_replacement active m =
     (case validate_manifest m of Inl e \<Rightarrow> (active, Inl e) | Inr _ \<Rightarrow> (m, Inr ()))"

definition autocomplete_trigger_for_key :: "behavior_manifest \<Rightarrow> key_stroke \<Rightarrow> completion_trigger_route option" where
  "autocomplete_trigger_for_key m k =
    (if ks_modifiers k \<noteq> no_modifiers then None
     else case ks_key k of
       Character_Key t \<Rightarrow>
         (case find (\<lambda>trigger. at_trigger trigger = t) (eb_autocomplete_triggers (bm_editor_rules m)) of
            None \<Rightarrow> None
          | Some trigger \<Rightarrow> Some \<lparr>cr_trigger = Trigger_Character (at_trigger trigger),
              cr_routing_policy = at_routing_policy trigger\<rparr>)
     | _ \<Rightarrow> None)"

definition declared_authority :: "behavior_manifest \<Rightarrow> ustr \<Rightarrow> command_authority option" where
  "declared_authority m command_id =
     map_option cd_authority (find (\<lambda>command. cd_command_id command = command_id) (bm_commands m))"

definition dispatch_server_rule :: "behavior_manifest \<Rightarrow> key_binding_rule \<Rightarrow> routed_behavior" where
  "dispatch_server_rule m rl =
    (if declared_authority m (kb_command_id rl) = Some Server_Intent then
       if kb_command_id rl = lit ''completion.trigger'' \<and> kb_routing_policy rl = Ui_Reactive_Priority
       then Completion_Route \<lparr>cr_trigger = Trigger_Manual, cr_routing_policy = kb_routing_policy rl\<rparr>
       else case (language_intelligence_feature_for_command (kb_command_id rl), kb_routing_policy rl) of
              (Some feature, Ui_Reactive_Priority) \<Rightarrow> Language_Intelligence feature (kb_routing_policy rl)
            | _ \<Rightarrow> Server_Intent_Route (kb_command_id rl) (kb_routing_policy rl)
     else Unhandled)"

definition dispatch_client_rule :: "behavior_manifest \<Rightarrow> key_binding_rule \<Rightarrow> routed_behavior" where
  "dispatch_client_rule m rl =
    (if kb_command_id rl = lit ''text.insert_newline'' then Client_Edit Insert_Newline None
     else if kb_command_id rl = lit ''text.insert_tab'' then Client_Edit (Insert_Text (tab_text m)) None
     else Unhandled)"

definition dispatch_rule :: "behavior_manifest \<Rightarrow> key_binding_rule \<Rightarrow> routed_behavior" where
  "dispatch_rule m rl =
    (case kb_routing_policy rl of
       Client_First_Predictable \<Rightarrow> dispatch_client_rule m rl
     | Client_First_Requires_Ack \<Rightarrow> dispatch_client_rule m rl
     | Client_Ui_Command \<Rightarrow>
         (if declared_authority m (kb_command_id rl) = Some Client_Ui
          then Client_Ui_Command_Route (kb_command_id rl) (kb_routing_policy rl) else Unhandled)
     | _ \<Rightarrow> dispatch_server_rule m rl)"

text \<open>The slice comparison of both conditions of the loop, under a length that keeps the index in range.\<close>

definition binds_next :: "key_stroke list \<Rightarrow> key_stroke \<Rightarrow> key_stroke list \<Rightarrow> bool" where
  "binds_next pending k stroke_sequence \<longleftrightarrow>
     take (length pending) stroke_sequence = pending
     \<and> key_matches_binding (stroke_sequence ! length pending) k"

text \<open>The inner loop: the rule that matches, or whether one was seen that goes on.\<close>

fun scan_rules ::
  "key_binding_context \<Rightarrow> key_stroke list \<Rightarrow> key_stroke \<Rightarrow> bool \<Rightarrow> key_binding_rule list
    \<Rightarrow> key_binding_rule option \<times> bool" where
  "scan_rules context pending k saw_prefix [] = (None, saw_prefix)"
| "scan_rules context pending k saw_prefix (rl # rules) =
    (if kb_context rl \<noteq> context then scan_rules context pending k saw_prefix rules
     else if length (kb_sequence rl) = length pending + 1 \<and> binds_next pending k (kb_sequence rl)
     then (Some rl, saw_prefix)
     else scan_rules context pending k
       (if length (kb_sequence rl) > length pending + 1 \<and> binds_next pending k (kb_sequence rl)
        then True else saw_prefix) rules)"

fun route_contexts ::
  "behavior_manifest \<Rightarrow> key_stroke list \<Rightarrow> key_stroke \<Rightarrow> key_binding_context list \<Rightarrow> chord_route_outcome" where
  "route_contexts m pending k [] = Mismatch"
| "route_contexts m pending k (context # contexts) =
    (case scan_rules context pending k False (bm_keymaps m) of
       (Some rl, _) \<Rightarrow> Matched (dispatch_rule m rl)
     | (None, saw_prefix) \<Rightarrow> if saw_prefix then Pending else route_contexts m pending k contexts)"

definition route_key_sequence ::
  "behavior_manifest \<Rightarrow> key_stroke list \<Rightarrow> key_stroke \<Rightarrow> chord_route_outcome" where
  "route_key_sequence m pending k = route_contexts m pending k [Editor_Text_Focus, Global_Context]"

definition route_unbound_key :: "behavior_manifest \<Rightarrow> key_stroke \<Rightarrow> routed_behavior" where
  "route_unbound_key m k =
    (let trigger = autocomplete_trigger_for_key m k in
     if \<not> km_control (ks_modifiers k) \<and> \<not> km_alt (ks_modifiers k) \<and> \<not> km_super_key (ks_modifiers k) then
       case ks_key k of
         Character_Key t \<Rightarrow>
           if allows_client_first_edit m (Insert 0 t) then Client_Edit (Insert_Text t) trigger else Unhandled
       | _ \<Rightarrow> Unhandled
     else Unhandled)"

definition route_key :: "behavior_manifest \<Rightarrow> key_stroke \<Rightarrow> routed_behavior" where
  "route_key m k =
    (case route_key_sequence m [] k of
       Matched behavior \<Rightarrow> behavior
     | Pending \<Rightarrow> Unhandled
     | Mismatch \<Rightarrow> route_unbound_key m k)"

section \<open>The pending chord\<close>

definition key_chord_pending_timeout_ms :: nat where
  "key_chord_pending_timeout_ms = 1500"

record pending_chord =
  ch_strokes :: "key_stroke list"
  ch_started_at :: nat

text \<open>
  What the editor does with a key: nothing (\<open>unhandled\<close>, without a valid manifest), keep it for a chord
  (\<open>consumed\<close>), or dispatch the behavior.
\<close>

datatype chord_effect = Chord_Unhandled | Chord_Consumed | Chord_Dispatched routed_behavior

definition drop_stale_chord :: "nat \<Rightarrow> pending_chord option \<Rightarrow> pending_chord option" where
  "drop_stale_chord now pending =
     (case pending of
        None \<Rightarrow> None
      | Some p \<Rightarrow>
          if now - ch_started_at p \<ge> key_chord_pending_timeout_ms * 1000000 then None else Some p)"

definition route_fresh_key :: "behavior_manifest \<Rightarrow> nat \<Rightarrow> key_stroke \<Rightarrow> pending_chord option \<times> chord_effect" where
  "route_fresh_key m now k =
    (case route_key_sequence m [] k of
       Matched behavior \<Rightarrow> (None, Chord_Dispatched behavior)
     | Pending \<Rightarrow> (Some \<lparr>ch_strokes = [k], ch_started_at = now\<rparr>, Chord_Consumed)
     | Mismatch \<Rightarrow> (None, Chord_Dispatched (route_key m k)))"

definition pending_strokes :: "pending_chord option \<Rightarrow> key_stroke list" where
  "pending_strokes pending = (case pending of Some p \<Rightarrow> ch_strokes p | None \<Rightarrow> [])"

definition route_chord ::
  "behavior_manifest option \<Rightarrow> nat \<Rightarrow> pending_chord option \<Rightarrow> key_stroke \<Rightarrow> pending_chord option \<times> chord_effect" where
  "route_chord manifest now pending k =
    (case manifest of
       None \<Rightarrow> (pending, Chord_Unhandled)
     | Some m \<Rightarrow>
         (case client_behavior_new m of
            Inl _ \<Rightarrow> (pending, Chord_Unhandled)
          | Inr m \<Rightarrow>
              let pending = drop_stale_chord now pending in
              (case route_key_sequence m (pending_strokes pending) k of
                 Matched behavior \<Rightarrow> (None, Chord_Dispatched behavior)
               | Pending \<Rightarrow>
                   (Some \<lparr>ch_strokes = pending_strokes pending @ [k],
                      ch_started_at = (case pending of Some p \<Rightarrow> ch_started_at p | None \<Rightarrow> now)\<rparr>, Chord_Consumed)
               | Mismatch \<Rightarrow> route_fresh_key m now k)))"

text \<open>Keys typed one after another, each with the time it comes.\<close>

fun type_keys ::
  "behavior_manifest option \<Rightarrow> pending_chord option \<Rightarrow> (key_stroke \<times> nat) list
    \<Rightarrow> pending_chord option \<times> chord_effect list" where
  "type_keys m pending [] = (pending, [])"
| "type_keys m pending ((k, now) # ks) =
    (let (pending, effect) = route_chord m now pending k;
         (pending, effects) = type_keys m pending ks in (pending, effect # effects))"

end
