(* ===== verification/Key_Commands.thy ===== *)
theory Key_Commands imports Key_Routing begin

text \<open>
  Which commands a configuration may bind to keys and by which policy a bound key is routed
  (\<open>server/ops/keybindings.rs\<close>), with the command names of the text object and smart selection queries
  (\<open>protocol/textobjects.rs\<close>), a family that is parsed and printed.
\<close>

section \<open>Splitting names\<close>

text \<open>\<open>split_once\<close> and \<open>rsplit_once\<close> at a character, and \<open>strip_prefix\<close>.\<close>

fun split_once :: "uchar \<Rightarrow> ustr \<Rightarrow> (ustr \<times> ustr) option" where
  "split_once d [] = None"
| "split_once d (c # cs) =
    (if c = d then Some ([], cs) else map_option (\<lambda>(before, after). (c # before, after)) (split_once d cs))"

definition rsplit_once :: "uchar \<Rightarrow> ustr \<Rightarrow> (ustr \<times> ustr) option" where
  "rsplit_once d s = map_option (\<lambda>(before, after). (rev after, rev before)) (split_once d (rev s))"

definition strip_prefix :: "ustr \<Rightarrow> ustr \<Rightarrow> ustr option" where
  "strip_prefix p s = (if str_starts_with s p then Some (drop (length p) s) else None)"

text \<open>\<open>str::parse::<u32>\<close>: an optional plus sign and decimal digits.\<close>

definition decimal_value :: "ustr \<Rightarrow> nat" where
  "decimal_value s = fold (\<lambda>c n. n * 10 + (c - 48)) s 0"

definition parse_u32 :: "ustr \<Rightarrow> nat option" where
  "parse_u32 s =
    (let digits = (case s of c # cs \<Rightarrow> if c = 43 then cs else s | [] \<Rightarrow> s) in
     if digits \<noteq> [] \<and> list_all (\<lambda>c. 48 \<le> c \<and> c \<le> 57) digits \<and> decimal_value digits < 2 ^ 32
     then Some (decimal_value digits) else None)"

section \<open>Selection queries\<close>

datatype textobject_kind =
    Function_Object | Class_Object | Argument_Object | Comment_Object | Loop_Object | Conditional_Object
  | Call_Object | Statement_Object

definition all_textobject_kinds :: "textobject_kind list" where
  "all_textobject_kinds =
     [Function_Object, Class_Object, Argument_Object, Comment_Object, Loop_Object, Conditional_Object, Call_Object,
      Statement_Object]"

fun textobject_kind_as_str :: "textobject_kind \<Rightarrow> ustr" where
  "textobject_kind_as_str Function_Object = lit ''function''"
| "textobject_kind_as_str Class_Object = lit ''class''"
| "textobject_kind_as_str Argument_Object = lit ''argument''"
| "textobject_kind_as_str Comment_Object = lit ''comment''"
| "textobject_kind_as_str Loop_Object = lit ''loop''"
| "textobject_kind_as_str Conditional_Object = lit ''conditional''"
| "textobject_kind_as_str Call_Object = lit ''call''"
| "textobject_kind_as_str Statement_Object = lit ''statement''"

definition parse_textobject_kind :: "ustr \<Rightarrow> textobject_kind option" where
  "parse_textobject_kind segment = find (\<lambda>kind. textobject_kind_as_str kind = segment) all_textobject_kinds"

datatype textobject_direction = Current_Object | Next_Object | Previous_Object

definition parse_textobject_direction :: "ustr \<Rightarrow> textobject_direction option" where
  "parse_textobject_direction segment =
    (if segment = lit ''current'' then Some Current_Object
     else if segment = lit ''next'' then Some Next_Object
     else if segment = lit ''previous'' then Some Previous_Object
     else None)"

datatype smart_select_action = Expand_Selection | Shrink_Selection

definition parse_smart_select_action :: "ustr \<Rightarrow> smart_select_action option" where
  "parse_smart_select_action segment =
    (if segment = lit ''expand'' then Some Expand_Selection
     else if segment = lit ''shrink'' then Some Shrink_Selection
     else None)"

datatype selection_query =
    Textobject_Query textobject_kind bool textobject_direction
  | Smart_Select_Query smart_select_action

definition textobject_command_prefix :: ustr where
  "textobject_command_prefix = lit ''editor.clientSelectTextobject.''"

definition smart_select_command_prefix :: ustr where
  "smart_select_command_prefix = lit ''editor.clientSmartSelect.''"

fun query_command_id :: "selection_query \<Rightarrow> ustr" where
  "query_command_id (Textobject_Query kind around direction) =
     (let scope = (if around then lit ''around'' else lit ''inner'') in
      textobject_command_prefix @ textobject_kind_as_str kind @ lit ''.'' @ scope
        @ (case direction of
             Current_Object \<Rightarrow> []
           | Next_Object \<Rightarrow> lit ''.next''
           | Previous_Object \<Rightarrow> lit ''.previous''))"
| "query_command_id (Smart_Select_Query action) =
     smart_select_command_prefix
       @ (case action of Expand_Selection \<Rightarrow> lit ''expand'' | Shrink_Selection \<Rightarrow> lit ''shrink'')"

definition parse_textobject_query :: "ustr \<Rightarrow> selection_query option" where
  "parse_textobject_query rest =
    (case split_once 46 rest of
       None \<Rightarrow> None
     | Some (kind_segment, rest) \<Rightarrow>
         (case parse_textobject_kind kind_segment of
            None \<Rightarrow> None
          | Some kind \<Rightarrow>
              (case (case split_once 46 rest of
                       Some (scope, direction_segment) \<Rightarrow>
                         map_option (\<lambda>direction. (scope, direction)) (parse_textobject_direction direction_segment)
                     | None \<Rightarrow> Some (rest, Current_Object)) of
                 None \<Rightarrow> None
               | Some (scope, direction) \<Rightarrow>
                   if scope = lit ''around'' then Some (Textobject_Query kind True direction)
                   else if scope = lit ''inner'' then Some (Textobject_Query kind False direction)
                   else None)))"

definition query_from_command_id :: "ustr \<Rightarrow> selection_query option" where
  "query_from_command_id command_id =
    (case strip_prefix smart_select_command_prefix command_id of
       Some rest \<Rightarrow> map_option Smart_Select_Query (parse_smart_select_action rest)
     | None \<Rightarrow>
         (case strip_prefix textobject_command_prefix command_id of
            None \<Rightarrow> None
          | Some rest \<Rightarrow> parse_textobject_query rest))"

section \<open>Commands a configuration may bind\<close>

definition tab_family_variant :: "ustr \<Rightarrow> nat option" where
  "tab_family_variant command_id =
    (case rsplit_once 46 command_id of
       None \<Rightarrow> None
     | Some (family, number) \<Rightarrow>
         if family = lit ''shell.clientTabActivate'' \<or> family = lit ''shell.clientTabMoveTo''
         then (case parse_u32 number of
                 Some n \<Rightarrow> if 1 \<le> n \<and> n \<le> 9 then Some n else None
               | None \<Rightarrow> None)
         else None)"

definition bindable_command_names :: "string list" where
  "bindable_command_names =
     [''text.insert_newline'', ''text.insert_tab'', ''completion.trigger'', ''workspace.refresh'',
      ''document.focus_active'', ''document.open_recent'', ''documents.serverOpenDocument'',
      ''documents.clientOpenFileDialog'', ''workspace.clientOpenFolderDialog'', ''workspace.openFuzzyFile'',
      ''workspace.toggleFileBrowser'', ''editor.clientCopySelection'', ''editor.clientCutSelection'',
      ''editor.clientPasteClipboard'', ''editor.clientUndo'', ''editor.clientRedo'',
      ''editor.clientShowOpenDocuments'', ''editor.clientRequestResync'', ''editor.clientDismissRecovery'',
      ''editor.clientMoveCursor.nextWordStart'', ''editor.clientMoveCursor.prevWordStart'',
      ''editor.clientMoveCursor.nextParagraph'', ''editor.clientMoveCursor.prevParagraph'',
      ''editor.clientSetSelection.selectWord'', ''editor.clientSetSelection.selectLine'',
      ''editor.clientAddCursor.below'', ''editor.clientAddCursor.above'', ''editor.clientColumnSelect.down'',
      ''editor.clientColumnSelect.up'', ''editor.clientColumnSelect.left'', ''editor.clientColumnSelect.right'',
      ''editor.clientSelectNextMatch'', ''editor.clientSelectPrevMatch'', ''editor.clientSelectAllMatches'',
      ''editor.clientCancelMultipleSelections'', ''editor.clientKeepSelection'', ''editor.clientRemoveSelection'',
      ''editor.clientUndoCursorMove'', ''language.hover'', ''language.goToDefinition'', ''language.codeActions'',
      ''language.signatureHelp'', ''documents.serverSaveDocument'', ''runtime.reloadConfiguration'',
      ''controlCenter.open'', ''controlCenter.openPath'', ''documents.serverReloadDocument'',
      ''documents.serverGetDocumentStatus'', ''documents.serverListDocuments'',
      ''workspace.serverListWorkspaceRoots'', ''shell.clientSplitPaneVertical'',
      ''shell.clientSplitPaneHorizontal'', ''shell.clientSplitPaneRight'', ''shell.clientSplitPaneDown'',
      ''shell.clientAddEqualPane'', ''shell.clientClosePane'', ''shell.clientFocusPaneNext'',
      ''shell.clientFocusPanePrev'', ''shell.clientResizePaneLeft'', ''shell.clientResizePaneRight'',
      ''shell.clientResizePaneUp'', ''shell.clientResizePaneDown'', ''shell.clientMovePaneNext'',
      ''shell.clientMovePanePrev'', ''shell.clientTabNext'', ''shell.clientTabPrev'', ''shell.clientTabNew'',
      ''shell.clientTabClose'', ''shell.clientTabMoveLeft'', ''shell.clientTabMoveRight'']"

definition is_runtime_bindable_command :: "ustr \<Rightarrow> bool" where
  "is_runtime_bindable_command command_id \<longleftrightarrow>
     query_from_command_id command_id \<noteq> None \<or> tab_family_variant command_id \<noteq> None
     \<or> command_id \<in> lit ` set bindable_command_names"

definition client_ui_command_names :: "string list" where
  "client_ui_command_names =
     [''documents.clientOpenFileDialog'', ''workspace.clientOpenFolderDialog'', ''editor.clientCopySelection'',
      ''editor.clientCutSelection'', ''editor.clientPasteClipboard'', ''editor.clientUndo'', ''editor.clientRedo'',
      ''editor.clientShowOpenDocuments'', ''editor.clientRequestResync'', ''editor.clientDismissRecovery'',
      ''editor.clientMoveCursor.nextWordStart'', ''editor.clientMoveCursor.prevWordStart'',
      ''editor.clientMoveCursor.nextParagraph'', ''editor.clientMoveCursor.prevParagraph'',
      ''editor.clientSetSelection.selectWord'', ''editor.clientSetSelection.selectLine'',
      ''editor.clientAddCursor.below'', ''editor.clientAddCursor.above'', ''editor.clientColumnSelect.down'',
      ''editor.clientColumnSelect.up'', ''editor.clientColumnSelect.left'', ''editor.clientColumnSelect.right'',
      ''editor.clientSelectNextMatch'', ''editor.clientSelectPrevMatch'', ''editor.clientSelectAllMatches'',
      ''editor.clientCancelMultipleSelections'', ''editor.clientKeepSelection'', ''editor.clientRemoveSelection'',
      ''editor.clientUndoCursorMove'', ''shell.clientSplitPaneVertical'', ''shell.clientSplitPaneHorizontal'',
      ''shell.clientSplitPaneRight'', ''shell.clientSplitPaneDown'', ''shell.clientAddEqualPane'',
      ''shell.clientClosePane'', ''shell.clientFocusPaneNext'', ''shell.clientFocusPanePrev'',
      ''shell.clientResizePaneLeft'', ''shell.clientResizePaneRight'', ''shell.clientResizePaneUp'',
      ''shell.clientResizePaneDown'', ''shell.clientMovePaneNext'', ''shell.clientMovePanePrev'',
      ''shell.clientTabNext'', ''shell.clientTabPrev'', ''shell.clientTabNew'', ''shell.clientTabClose'',
      ''shell.clientTabMoveLeft'', ''shell.clientTabMoveRight'']"

definition command_routing_policy :: "ustr \<Rightarrow> routing_policy" where
  "command_routing_policy command_id =
    (if command_id = lit ''text.insert_newline'' \<or> command_id = lit ''text.insert_tab''
     then Client_First_Predictable
     else if command_id = lit ''runtime.reloadConfiguration'' then Server_First_With_Lock Behavior_Scope
     else if command_id = lit ''completion.trigger''
             \<or> language_intelligence_feature_for_command command_id \<noteq> None
     then Ui_Reactive_Priority
     else if query_from_command_id command_id \<noteq> None then Ui_Reactive_Priority
     else if tab_family_variant command_id \<noteq> None then Client_Ui_Command
     else if command_id \<in> lit ` set client_ui_command_names then Client_Ui_Command
     else Server_First)"

datatype keybinding_error =
    Invalid_Command
  | Unknown_Command ustr
  | Empty_Chord
  | Malformed_Chord ustr
  | Missing_Key ustr
  | Unsupported_Key ustr
  | Empty_Sequence
  | Invalid_Entry nat keybinding_error
  | Invalid_Manifest manifest_error

definition validate_command_id :: "ustr \<Rightarrow> keybinding_error + ustr" where
  "validate_command_id command_id =
    (if blank command_id \<or> str_contains command_id (lit ''javascript:'') \<or> str_contains command_id (lit ''=>'')
     then Inl Invalid_Command
     else if is_runtime_bindable_command command_id then Inr command_id
     else Inl (Unknown_Command command_id))"

section \<open>Names of selection queries\<close>

lemma split_once_append: "d \<notin> set before \<Longrightarrow> split_once d (before @ d # after) = Some (before, after)"
  by (induction before) auto

lemma split_once_None: "split_once d s = None \<longleftrightarrow> d \<notin> set s"
  by (induction s) auto

lemma split_once_SomeD: "split_once d s = Some (before, after) \<Longrightarrow> s = before @ d # after \<and> d \<notin> set before"
  by (induction s arbitrary: before) (auto split: if_splits)

lemma strip_prefix_append [simp]: "strip_prefix p (p @ s) = Some s"
  by (simp add: strip_prefix_def str_starts_with_def)

lemma strip_prefix_SomeD: "strip_prefix p s = Some rest \<Longrightarrow> s = p @ rest"
  by (auto simp: strip_prefix_def str_starts_with_def split: if_splits) (metis append_take_drop_id)

lemma parse_textobject_kind_as_str [simp]: "parse_textobject_kind (textobject_kind_as_str kind) = Some kind"
  by (cases kind) (simp_all add: parse_textobject_kind_def all_textobject_kinds_def lit_eq_iff)

lemma textobject_kind_no_dot: "46 \<notin> set (textobject_kind_as_str kind)"
  by (cases kind) (simp_all add: lit_def)

lemma parse_textobject_kindD: "parse_textobject_kind s = Some kind \<Longrightarrow> s = textobject_kind_as_str kind"
  by (auto simp: parse_textobject_kind_def find_Some_iff)

lemma parse_textobject_kind_query:
  "parse_textobject_query (textobject_kind_as_str kind @ lit ''.'' @ scope_text) =
    (case (case split_once 46 scope_text of
             Some (scope, direction_segment) \<Rightarrow>
               map_option (\<lambda>direction. (scope, direction)) (parse_textobject_direction direction_segment)
           | None \<Rightarrow> Some (scope_text, Current_Object)) of
       None \<Rightarrow> None
     | Some (scope, direction) \<Rightarrow>
         if scope = lit ''around'' then Some (Textobject_Query kind True direction)
         else if scope = lit ''inner'' then Some (Textobject_Query kind False direction)
         else None)"
proof -
  have "split_once 46 (textobject_kind_as_str kind @ lit ''.'' @ scope_text) = Some (textobject_kind_as_str kind, scope_text)"
    using split_once_append[OF textobject_kind_no_dot] by (simp add: lit_def)
  then show ?thesis by (simp add: parse_textobject_query_def)
qed

lemma query_command_id_parses: "query_from_command_id (query_command_id q) = Some q"
proof (cases q)
  case (Smart_Select_Query action)
  then show ?thesis
    by (cases action) (simp_all add: query_from_command_id_def parse_smart_select_action_def lit_eq_iff)
next
  case (Textobject_Query kind around direction)
  have "strip_prefix smart_select_command_prefix (textobject_command_prefix @ s) = None" for s
    by (simp add: strip_prefix_def str_starts_with_def smart_select_command_prefix_def textobject_command_prefix_def
        lit_def)
  then show ?thesis
    using Textobject_Query
    by (cases direction; cases around)
      (simp_all add: query_from_command_id_def parse_textobject_kind_query, simp_all add: lit_def
        parse_textobject_direction_def)
qed

end
