(* ===== verification/Behavior_Layers.thy ===== *)
theory Behavior_Layers imports Behavior_Manifests "HOL-Library.AList" begin

text \<open>
  The manifests a server has published (\<open>server/behavior.rs\<close>): the global one, one layer for each document
  whose mode has its own, and the one version that all of them share; and the grace in which edits stamped with
  the version before a reload are still accepted.

  The map of layers is an association list, whose order stands for the unspecified one of \<open>HashMap\<close>. Times are
  counted in nanoseconds. The mutex of the grace is taken by each operation as a whole.
\<close>

section \<open>Published manifests\<close>

record active_manifest =
  am_global :: behavior_manifest
  am_documents :: "(nat \<times> behavior_manifest) list"
  am_version :: nat

definition active_manifest_new :: "behavior_manifest \<Rightarrow> manifest_error + active_manifest" where
  "active_manifest_new manifest =
     bind_result (validate_manifest manifest) (\<lambda>_.
     Inr \<lparr>am_global = manifest, am_documents = [], am_version = bm_behavior_version manifest\<rparr>)"

text \<open>\<open>Default\<close>; \<open>None\<close> is the panic of its \<open>expect\<close>.\<close>

definition active_manifest_default :: "active_manifest option" where
  "active_manifest_default =
     (case active_manifest_new (minimal_text_editing 1) of Inl _ \<Rightarrow> None | Inr a \<Rightarrow> Some a)"

definition document_layer :: "active_manifest \<Rightarrow> nat \<Rightarrow> behavior_manifest option" where
  "document_layer a document_id = map_of (am_documents a) document_id"

definition manifest_for :: "active_manifest \<Rightarrow> nat \<Rightarrow> behavior_manifest" where
  "manifest_for a document_id =
     (case map_of (am_documents a) document_id of None \<Rightarrow> am_global a | Some m \<Rightarrow> m)"

text \<open>\<open>document_manifest_messages\<close>: the layers in the order they are sent.\<close>

definition scope_key :: "behavior_manifest \<Rightarrow> nat" where
  "scope_key m = (case bm_scope m of Document_Layer document_id \<Rightarrow> document_id | _ \<Rightarrow> 0)"

definition document_manifest_messages :: "active_manifest \<Rightarrow> behavior_manifest list" where
  "document_manifest_messages a = sort_key scope_key (map snd (am_documents a))"

definition validate_message_version :: "active_manifest \<Rightarrow> nat \<Rightarrow> edit_rejection + unit" where
  "validate_message_version a behavior_version =
     (if behavior_version = am_version a then Inr ()
      else Inl (InvalidBehaviorVersion behavior_version (am_version a)))"

definition stage_replacement ::
  "active_manifest \<Rightarrow> behavior_manifest \<Rightarrow> manifest_error + behavior_manifest" where
  "stage_replacement a replacement =
     (let replacement = replacement\<lparr>bm_behavior_version := sat_add (am_version a) 1\<rparr> in
      bind_result (validate_manifest replacement) (\<lambda>_. Inr replacement))"

definition install_staged :: "active_manifest \<Rightarrow> behavior_manifest \<Rightarrow> active_manifest" where
  "install_staged a replacement =
     (let a = a\<lparr>am_version := bm_behavior_version replacement\<rparr> in
      case bm_scope replacement of
        Document_Layer document_id \<Rightarrow>
          a\<lparr>am_global := (am_global a)\<lparr>bm_behavior_version := bm_behavior_version replacement\<rparr>,
            am_documents := AList.update document_id replacement (am_documents a)\<rparr>
      | _ \<Rightarrow> a\<lparr>am_global := replacement\<rparr>)"

definition publish_replacement ::
  "active_manifest \<Rightarrow> behavior_manifest \<Rightarrow> active_manifest \<times> (manifest_error + behavior_manifest)" where
  "publish_replacement a replacement =
     (case stage_replacement a replacement of
        Inl e \<Rightarrow> (a, Inl e)
      | Inr staged \<Rightarrow> (install_staged a staged, Inr staged))"

section \<open>The grace of a reload\<close>

definition previous_behavior_grace_ms :: nat where
  "previous_behavior_grace_ms = 2000"

definition previous_behavior_grace_max_transactions :: nat where
  "previous_behavior_grace_max_transactions = 256"

abbreviation nanos_of_millis :: "nat \<Rightarrow> nat" where
  "nanos_of_millis ms \<equiv> ms * 1000000"

record behavior_grace =
  bg_previous_manifest :: behavior_manifest
  bg_previous_runtime_generation_id :: nat
  bg_committed_at :: nat
  bg_accepted_previous_transactions :: nat

type_synonym grace_state = "behavior_grace option"

definition grace_new :: "behavior_manifest \<Rightarrow> nat \<Rightarrow> nat \<Rightarrow> behavior_grace" where
  "grace_new previous_manifest previous_runtime_generation_id committed_at =
     \<lparr>bg_previous_manifest = previous_manifest,
      bg_previous_runtime_generation_id = previous_runtime_generation_id, bg_committed_at = committed_at,
      bg_accepted_previous_transactions = 0\<rparr>"

definition previous_version :: "behavior_grace \<Rightarrow> nat" where
  "previous_version g = bm_behavior_version (bg_previous_manifest g)"

definition grace_expired :: "behavior_grace \<Rightarrow> nat \<Rightarrow> bool" where
  "grace_expired g now \<longleftrightarrow>
     now - bg_committed_at g \<ge> nanos_of_millis previous_behavior_grace_ms
     \<or> bg_accepted_previous_transactions g \<ge> previous_behavior_grace_max_transactions"

text \<open>\<open>begin\<close> reads the clock; \<open>now\<close> is what it reads.\<close>

definition begin_grace :: "behavior_manifest \<Rightarrow> nat \<Rightarrow> nat \<Rightarrow> grace_state" where
  "begin_grace previous_manifest previous_runtime_generation_id now =
     Some (grace_new previous_manifest previous_runtime_generation_id now)"

definition clear_grace :: grace_state where
  "clear_grace = None"

datatype version_decision = Current_Version | Previous_Within_Grace

text \<open>\<open>validate_edit_version\<close>: the new state of the grace and the decision.\<close>

definition validate_edit_version ::
  "active_manifest \<Rightarrow> nat \<Rightarrow> nat \<Rightarrow> nat option \<Rightarrow> nat \<Rightarrow> grace_state
    \<Rightarrow> grace_state \<times> (edit_rejection + version_decision)" where
  "validate_edit_version current behavior_version current_runtime_generation acknowledged_generation now guard =
    (if behavior_version = am_version current then (guard, Inr Current_Version)
     else
       let guard = (case guard of
               Some grace \<Rightarrow> if grace_expired grace now then None else guard
             | None \<Rightarrow> guard);
           rejection = InvalidBehaviorVersion behavior_version (am_version current) in
       case guard of
         None \<Rightarrow> (guard, Inl rejection)
       | Some grace \<Rightarrow>
           let immediately_previous = (case checked_sub current_runtime_generation 1 of
                   None \<Rightarrow> False
                 | Some previous \<Rightarrow> previous = bg_previous_runtime_generation_id grace);
               client_still_eligible = (case acknowledged_generation of
                   None \<Rightarrow> True | Some acked \<Rightarrow> acked < current_runtime_generation) in
           if immediately_previous \<and> client_still_eligible \<and> behavior_version = previous_version grace
              \<and> bg_accepted_previous_transactions grace < previous_behavior_grace_max_transactions
           then (guard, Inr Previous_Within_Grace)
           else (guard, Inl rejection))"

definition record_previous_accepted :: "nat \<Rightarrow> grace_state \<Rightarrow> grace_state \<times> bool" where
  "record_previous_accepted now guard =
     (case guard of
        None \<Rightarrow> (None, False)
      | Some grace \<Rightarrow>
          if grace_expired grace now then (None, False)
          else if bg_accepted_previous_transactions grace \<ge> previous_behavior_grace_max_transactions
          then (None, False)
          else
            let grace = grace\<lparr>bg_accepted_previous_transactions :=
                  sat_add (bg_accepted_previous_transactions grace) 1\<rparr> in
            (if bg_accepted_previous_transactions grace \<ge> previous_behavior_grace_max_transactions
             then None else Some grace, True))"

section \<open>What publishing keeps\<close>

text \<open>
  Every manifest held is valid, a layer is of the document it is stored under and of a version published no later
  than the current one, and the global manifest carries the current version and is not of one document.
\<close>

definition active_manifest_ok :: "active_manifest \<Rightarrow> bool" where
  "active_manifest_ok a \<longleftrightarrow>
     manifest_ok (am_global a) \<and> bm_behavior_version (am_global a) = am_version a
     \<and> (\<forall>document_id. bm_scope (am_global a) \<noteq> Document_Layer document_id)
     \<and> distinct (map fst (am_documents a))
     \<and> (\<forall>(document_id, m)\<in>set (am_documents a). manifest_ok m \<and> bm_scope m = Document_Layer document_id
          \<and> bm_behavior_version m \<le> am_version a)"

lemma manifest_ok_version [simp]: "manifest_ok (m\<lparr>bm_behavior_version := v\<rparr>) = manifest_ok m"
  by (simp add: manifest_ok_def)

lemma stage_replacement_Inr:
  "stage_replacement a m = Inr staged \<longleftrightarrow>
     manifest_ok m \<and> staged = m\<lparr>bm_behavior_version := sat_add (am_version a) 1\<rparr>"
  by (auto simp: stage_replacement_def Let_def bind_result_Inr validate_manifest_Inr)

lemma active_manifest_default_ok:
  "\<exists>a. active_manifest_default = Some a \<and> active_manifest_ok a \<and> am_version a = 1"
  using default_manifests_ok(1)[of 1] validate_manifest_Inr[of "minimal_text_editing 1" "()"]
  by (simp add: active_manifest_default_def active_manifest_new_def active_manifest_ok_def minimal_text_editing_def)

lemma set_update_subset: "set (AList.update k v xs) \<subseteq> insert (k, v) (set xs)"
  by (induction xs) auto

lemma publish_replacement_ok:
  assumes "active_manifest_ok a" "am_version a \<le> u64_max"
  shows "active_manifest_ok (fst (publish_replacement a m)) \<and> am_version (fst (publish_replacement a m)) \<le> u64_max
    \<and> am_version a \<le> am_version (fst (publish_replacement a m))"
proof (cases "stage_replacement a m")
  case (Inl e)
  then show ?thesis using assms by (simp add: publish_replacement_def)
next
  case (Inr staged)
  then have s: "manifest_ok staged" "bm_behavior_version staged = sat_add (am_version a) 1"
    by (simp_all add: stage_replacement_Inr)
  have le: "am_version a \<le> sat_add (am_version a) 1" using assms(2) by (rule sat_add_ge)
  have kept: "\<forall>(d, m)\<in>set (am_documents a).
      manifest_ok m \<and> bm_scope m = Document_Layer d \<and> bm_behavior_version m \<le> sat_add (am_version a) 1"
    using assms(1) le unfolding active_manifest_ok_def by (fast intro: order_trans)
  have "active_manifest_ok (install_staged a staged)"
  proof (cases "bm_scope staged")
    case (Document_Layer document_id)
    have "\<forall>(d, m)\<in>set (AList.update document_id staged (am_documents a)).
        manifest_ok m \<and> bm_scope m = Document_Layer d \<and> bm_behavior_version m \<le> sat_add (am_version a) 1"
      using kept s Document_Layer set_update_subset[of document_id staged "am_documents a"] by auto
    then show ?thesis
      using assms(1) s Document_Layer
      by (simp add: active_manifest_ok_def install_staged_def distinct_update Let_def)
  next
    case Global_Default
    then show ?thesis using assms(1) s kept by (simp add: active_manifest_ok_def install_staged_def Let_def)
  next
    case (Language_Layer l)
    then show ?thesis using assms(1) s kept by (simp add: active_manifest_ok_def install_staged_def Let_def)
  qed
  moreover have "am_version (install_staged a staged) = sat_add (am_version a) 1"
    using s by (simp add: install_staged_def Let_def split: behavior_scope.splits)
  moreover have "sat_add (am_version a) 1 \<le> u64_max" by (simp add: sat_add_def)
  ultimately show ?thesis using Inr le by (simp add: publish_replacement_def)
qed

text \<open>What governs a document after a replacement has been published.\<close>

lemma publish_replacement_governs:
  assumes "stage_replacement a m = Inr staged"
  shows "document_layer (fst (publish_replacement a m)) document_id =
      (if bm_scope m = Document_Layer document_id then Some staged else document_layer a document_id)"
proof -
  have "bm_scope staged = bm_scope m" using assms by (auto simp: stage_replacement_Inr)
  then show ?thesis
    using assms
    by (auto simp: publish_replacement_def install_staged_def document_layer_def update_conv Let_def
        split: behavior_scope.splits)
qed

inductive published :: "active_manifest \<Rightarrow> bool" where
  Published_Default: "active_manifest_default = Some a \<Longrightarrow> published a"
| Published_New: "active_manifest_new m = Inr a \<Longrightarrow> bm_behavior_version m \<le> u64_max \<Longrightarrow>
    (\<forall>document_id. bm_scope m \<noteq> Document_Layer document_id) \<Longrightarrow> published a"
| Published_Replacement: "published a \<Longrightarrow> published (fst (publish_replacement a m))"

lemma published_ok: "published a \<Longrightarrow> active_manifest_ok a \<and> am_version a \<le> u64_max"
proof (induction rule: published.induct)
  case (Published_Default a)
  then have "active_manifest_ok a" "am_version a = 1"
    using active_manifest_default_ok by (metis option.inject)+
  then show ?case by (simp add: u64_max_def)
next
  case (Published_New m a)
  then show ?case by (auto simp: active_manifest_new_def bind_result_Inr validate_manifest_Inr active_manifest_ok_def)
next
  case (Published_Replacement a m)
  then show ?case using publish_replacement_ok by blast
qed

section \<open>What the grace allows\<close>

text \<open>A stale stamp passes exactly under these conditions.\<close>

definition within_grace :: "nat \<Rightarrow> nat \<Rightarrow> nat option \<Rightarrow> nat \<Rightarrow> behavior_grace \<Rightarrow> bool" where
  "within_grace behavior_version generation acknowledged now g \<longleftrightarrow>
     \<not> grace_expired g now \<and> behavior_version = previous_version g
     \<and> 0 < generation \<and> bg_previous_runtime_generation_id g = generation - 1
     \<and> (\<forall>acked. acknowledged = Some acked \<longrightarrow> acked < generation)"

lemma validate_edit_version_Inr:
  "snd (validate_edit_version current v generation acknowledged now guard) = Inr decision \<longleftrightarrow>
     (if v = am_version current then decision = Current_Version
      else decision = Previous_Within_Grace
        \<and> (\<exists>g. guard = Some g \<and> within_grace v generation acknowledged now g))"
  by (auto simp: validate_edit_version_def within_grace_def grace_expired_def checked_sub_def Let_def
      split: option.splits if_splits)

text \<open>The operations on a grace that has begun, and the transactions counted since.\<close>

datatype grace_op =
    Check_Version active_manifest nat nat "nat option" nat
  | Record_Accepted nat
  | Clear_Grace

fun grace_step :: "grace_op \<Rightarrow> grace_state \<times> nat \<Rightarrow> grace_state \<times> nat" where
  "grace_step (Check_Version current v generation acknowledged now) (g, n) =
     (fst (validate_edit_version current v generation acknowledged now g), n)"
| "grace_step (Record_Accepted now) (g, n) =
     (let (g, ok) = record_previous_accepted now g in (g, if ok then n + 1 else n))"
| "grace_step Clear_Grace (g, n) = (clear_grace, n)"

definition grace_counted :: "grace_state \<times> nat \<Rightarrow> bool" where
  "grace_counted s \<longleftrightarrow> snd s \<le> previous_behavior_grace_max_transactions
     \<and> (\<forall>g. fst s = Some g \<longrightarrow> bg_accepted_previous_transactions g = snd s
          \<and> snd s < previous_behavior_grace_max_transactions)"

lemma grace_step_counted: "grace_counted s \<Longrightarrow> grace_counted (grace_step op s)"
proof (cases op)
  case (Check_Version current v generation acknowledged now)
  assume "grace_counted s"
  moreover have "fst (validate_edit_version current v generation acknowledged now (fst s)) \<in> {None, fst s}"
    by (auto simp: validate_edit_version_def Let_def split: option.splits)
  ultimately show ?thesis using Check_Version by (cases s) (auto simp: grace_counted_def)
next
  case (Record_Accepted now)
  assume "grace_counted s"
  then show ?thesis
    using Record_Accepted
    by (cases s; cases "fst s")
      (auto simp: grace_counted_def record_previous_accepted_def grace_expired_def sat_add_def u64_max_def
        previous_behavior_grace_max_transactions_def Let_def split: if_splits)
next
  case Clear_Grace
  assume "grace_counted s"
  then show ?thesis using Clear_Grace by (cases s) (simp add: grace_counted_def clear_grace_def)
qed

lemma grace_run_counted: "grace_counted s \<Longrightarrow> grace_counted (fold grace_step ops s)"
  by (induction ops arbitrary: s) (simp_all add: grace_step_counted)

lemma begin_grace_counted: "grace_counted (begin_grace m g now, 0)"
  by (simp add: grace_counted_def begin_grace_def grace_new_def previous_behavior_grace_max_transactions_def)

end
