(* ===== verification/Key_Chords.thy ===== *)
theory Key_Chords imports Key_Commands Behavior_Layers begin

text \<open>
  The key bindings of a configuration (\<open>server/ops/keybindings.rs\<close>): chords are parsed from text and printed for
  listings, and a rule is bound or removed by publishing a replacement of the manifest (\<open>bind_key\<close> and
  \<open>unbind_key\<close> of \<open>server/ops/mod.rs\<close>).

  The JSON of the requests is read by the library: the operations start from the chord, the command and the scope.
  The notice of the active mode that \<open>bind_key\<close> sends to the other runtime is left out.
\<close>

section \<open>Chords as text\<close>

text \<open>\<open>str::split\<close> at each character that satisfies a predicate, \<open>split_ascii_whitespace\<close> and \<open>trim\<close>.\<close>

fun split_at_chars :: "(uchar \<Rightarrow> bool) \<Rightarrow> ustr \<Rightarrow> ustr list" where
  "split_at_chars d [] = [[]]"
| "split_at_chars d (c # cs) =
    (if d c then [] # split_at_chars d cs
     else case split_at_chars d cs of [] \<Rightarrow> [[c]] | part # parts \<Rightarrow> (c # part) # parts)"

definition is_ascii_whitespace :: "uchar \<Rightarrow> bool" where
  "is_ascii_whitespace c \<longleftrightarrow> c \<in> {32, 9, 10, 12, 13}"

definition split_ascii_whitespace :: "ustr \<Rightarrow> ustr list" where
  "split_ascii_whitespace s = filter (\<lambda>part. part \<noteq> []) (split_at_chars is_ascii_whitespace s)"

definition trim :: "ustr \<Rightarrow> ustr" where
  "trim s = rev (dropWhile is_whitespace (rev (dropWhile is_whitespace s)))"

definition ascii_uppercase :: "ustr \<Rightarrow> ustr" where
  "ascii_uppercase s = map (\<lambda>c. if 97 \<le> c \<and> c \<le> 122 then c - 32 else c) s"

text \<open>The loop over the parts of a chord: the modifiers and the key part seen so far.\<close>

fun chord_parts ::
  "ustr \<Rightarrow> key_modifiers \<Rightarrow> ustr option \<Rightarrow> ustr list \<Rightarrow> keybinding_error + key_modifiers \<times> ustr option" where
  "chord_parts chord modifiers key_part [] = Inr (modifiers, key_part)"
| "chord_parts chord modifiers key_part (part # parts) =
    (let name = ascii_lowercase part in
     if name \<in> {lit ''ctrl'', lit ''control''}
     then chord_parts chord (modifiers\<lparr>km_control := True\<rparr>) key_part parts
     else if name \<in> {lit ''alt'', lit ''option''}
     then chord_parts chord (modifiers\<lparr>km_alt := True\<rparr>) key_part parts
     else if name = lit ''shift'' then chord_parts chord (modifiers\<lparr>km_shift := True\<rparr>) key_part parts
     else if name \<in> {lit ''super'', lit ''cmd'', lit ''command'', lit ''meta''}
     then chord_parts chord (modifiers\<lparr>km_super_key := True\<rparr>) key_part parts
     else if key_part = None then chord_parts chord modifiers (Some part) parts
     else Inl (Malformed_Chord chord))"

definition parse_key_name :: "ustr \<Rightarrow> keybinding_error + key_code" where
  "parse_key_name key_part =
    (let name = ascii_lowercase key_part in
     if name \<in> {lit ''enter'', lit ''return''} then Inr Enter_Key
     else if name = lit ''tab'' then Inr Tab_Key
     else if name = lit ''backspace'' then Inr Backspace_Key
     else if name \<in> {lit ''delete'', lit ''del''} then Inr Delete_Key
     else if name \<in> {lit ''escape'', lit ''esc''} then Inr Escape_Key
     else if name \<in> {lit ''arrowup'', lit ''up''} then Inr Arrow_Up_Key
     else if name \<in> {lit ''arrowdown'', lit ''down''} then Inr Arrow_Down_Key
     else if name \<in> {lit ''arrowleft'', lit ''left''} then Inr Arrow_Left_Key
     else if name \<in> {lit ''arrowright'', lit ''right''} then Inr Arrow_Right_Key
     else if name = lit ''space'' then Inr (Character_Key [32])
     else if length key_part = 1 then Inr (Character_Key (ascii_lowercase key_part))
     else Inl (Unsupported_Key key_part))"

definition parse_key_chord :: "ustr \<Rightarrow> keybinding_error + key_stroke" where
  "parse_key_chord chord =
    (let trimmed = trim chord in
     if trimmed = [] then Inl Empty_Chord
     else bind_result (chord_parts chord no_modifiers None (split_at_chars (\<lambda>c. c = 43) trimmed))
       (\<lambda>(modifiers, key_part).
          case key_part of
            None \<Rightarrow> Inl (Missing_Key chord)
          | Some key_part \<Rightarrow>
              bind_result (parse_key_name key_part) (\<lambda>k. Inr \<lparr>ks_key = k, ks_modifiers = modifiers\<rparr>)))"

text \<open>Collecting results: the first error, or all values.\<close>

fun collect_results :: "('e + 'a) list \<Rightarrow> 'e + 'a list" where
  "collect_results [] = Inr []"
| "collect_results (r # rs) = bind_result r (\<lambda>x. bind_result (collect_results rs) (\<lambda>xs. Inr (x # xs)))"

definition parse_key_sequence :: "ustr \<Rightarrow> keybinding_error + key_stroke list" where
  "parse_key_sequence chord =
     bind_result (collect_results (map parse_key_chord (split_ascii_whitespace chord)))
       (\<lambda>strokes. if strokes = [] then Inl Empty_Sequence else Inr strokes)"

fun key_code_string :: "key_code \<Rightarrow> ustr" where
  "key_code_string (Character_Key t) = ascii_uppercase t"
| "key_code_string Enter_Key = lit ''Enter''"
| "key_code_string Tab_Key = lit ''Tab''"
| "key_code_string Backspace_Key = lit ''Backspace''"
| "key_code_string Delete_Key = lit ''Delete''"
| "key_code_string Escape_Key = lit ''Escape''"
| "key_code_string Arrow_Up_Key = lit ''ArrowUp''"
| "key_code_string Arrow_Down_Key = lit ''ArrowDown''"
| "key_code_string Arrow_Left_Key = lit ''ArrowLeft''"
| "key_code_string Arrow_Right_Key = lit ''ArrowRight''"

fun join_with :: "uchar \<Rightarrow> ustr list \<Rightarrow> ustr" where
  "join_with d [] = []"
| "join_with d [s] = s"
| "join_with d (s # t # ts) = s @ d # join_with d (t # ts)"

definition key_chord_string :: "key_stroke \<Rightarrow> ustr" where
  "key_chord_string stroke =
     join_with 43
      ((if km_control (ks_modifiers stroke) then [lit ''Ctrl''] else [])
       @ (if km_alt (ks_modifiers stroke) then [lit ''Alt''] else [])
       @ (if km_shift (ks_modifiers stroke) then [lit ''Shift''] else [])
       @ (if km_super_key (ks_modifiers stroke) then [lit ''Super''] else [])
       @ [key_code_string (ks_key stroke)])"

definition key_sequence_string :: "key_stroke list \<Rightarrow> ustr" where
  "key_sequence_string strokes = join_with 32 (map key_chord_string strokes)"

text \<open>\<open>key_binding_json\<close>, as its three fields.\<close>

definition key_binding_fields :: "key_binding_rule \<Rightarrow> ustr \<times> ustr \<times> ustr" where
  "key_binding_fields rl =
     (key_sequence_string (kb_sequence rl), kb_command_id rl,
      if kb_context rl = Global_Context then lit ''global'' else lit ''editor'')"

section \<open>Binding\<close>

definition build_rule :: "ustr \<Rightarrow> ustr \<Rightarrow> key_binding_context \<Rightarrow> keybinding_error + key_binding_rule" where
  "build_rule k command_id scope =
     bind_result (validate_command_id command_id) (\<lambda>command.
     bind_result (parse_key_sequence k) (\<lambda>strokes.
       Inr \<lparr>kb_command_id = command, kb_sequence = strokes, kb_context = scope,
            kb_routing_policy = command_routing_policy command_id\<rparr>))"

text \<open>\<open>split('.').next_back()\<close> is what follows the last dot.\<close>

definition display_name :: "ustr \<Rightarrow> ustr" where
  "display_name command_id =
     map (\<lambda>c. if c = 45 then 32 else c) (last (split_at_chars (\<lambda>c. c = 46) command_id))"

definition command_for_rule :: "key_binding_rule \<Rightarrow> command_declaration" where
  "command_for_rule rl =
    (case kb_routing_policy rl of
       Client_First_Predictable \<Rightarrow> client_edit_command (kb_command_id rl) (display_name (kb_command_id rl))
     | Client_First_Requires_Ack \<Rightarrow> client_edit_command (kb_command_id rl) (display_name (kb_command_id rl))
     | Ui_Reactive_Priority \<Rightarrow> ui_reactive_command (kb_command_id rl) (display_name (kb_command_id rl))
     | Client_Ui_Command \<Rightarrow> client_ui_command (kb_command_id rl) (display_name (kb_command_id rl))
     | _ \<Rightarrow> server_intent_command (kb_command_id rl) (display_name (kb_command_id rl)))"

record keybinding_state =
  ky_behavior :: active_manifest
  ky_last_published :: "behavior_manifest option"
  ky_configured :: "key_binding_rule list"
  ky_configuration_evaluation :: bool

definition publish_behavior_replacement ::
  "keybinding_state \<Rightarrow> behavior_manifest \<Rightarrow> keybinding_state \<times> (manifest_error + behavior_manifest)" where
  "publish_behavior_replacement st replacement =
    (case publish_replacement (ky_behavior st) replacement of
       (behavior, Inl e) \<Rightarrow> (st, Inl e)
     | (behavior, Inr m) \<Rightarrow> (st\<lparr>ky_behavior := behavior, ky_last_published := Some m\<rparr>, Inr m))"

definition without_binding ::
  "key_binding_context \<Rightarrow> key_stroke list \<Rightarrow> key_binding_rule list \<Rightarrow> key_binding_rule list" where
  "without_binding context strokes rules =
     filter (\<lambda>existing. kb_context existing \<noteq> context \<or> kb_sequence existing \<noteq> strokes) rules"

definition bind_key_replacement :: "behavior_manifest \<Rightarrow> key_binding_rule \<Rightarrow> behavior_manifest" where
  "bind_key_replacement m rl =
     m\<lparr>bm_commands :=
         (if list_ex (\<lambda>command. cd_command_id command = kb_command_id rl) (bm_commands m) then bm_commands m
          else bm_commands m @ [command_for_rule rl]),
       bm_keymaps := without_binding (kb_context rl) (kb_sequence rl) (bm_keymaps m) @ [rl],
       bm_manifest_id := lit ''runtime.configuration''\<rparr>"

definition bind_key :: "keybinding_state \<Rightarrow> key_binding_rule \<Rightarrow> keybinding_state \<times> (manifest_error + behavior_manifest)" where
  "bind_key st rl =
    (case publish_behavior_replacement st (bind_key_replacement (am_global (ky_behavior st)) rl) of
       (st, Inl e) \<Rightarrow> (st, Inl e)
     | (st, Inr m) \<Rightarrow>
         (if ky_configuration_evaluation st
          then st\<lparr>ky_configured := without_binding (kb_context rl) (kb_sequence rl) (ky_configured st) @ [rl]\<rparr>
          else st, Inr m))"

definition unbind_key ::
  "keybinding_state \<Rightarrow> key_stroke list \<Rightarrow> key_binding_context
    \<Rightarrow> keybinding_state \<times> (manifest_error + behavior_manifest)" where
  "unbind_key st strokes context =
    (let m = am_global (ky_behavior st) in
     case publish_behavior_replacement st
         (m\<lparr>bm_keymaps := without_binding context strokes (bm_keymaps m),
            bm_manifest_id := lit ''runtime.configuration''\<rparr>) of
       (st, Inl e) \<Rightarrow> (st, Inl e)
     | (st, Inr m) \<Rightarrow>
         (if ky_configuration_evaluation st
          then st\<lparr>ky_configured := without_binding context strokes (ky_configured st)\<rparr> else st, Inr m))"

text \<open>
  \<open>op_clay_keybindings_bind_key\<close>: the fields of the first binding of the command, which \<open>None\<close> stands for the
  panic without.
\<close>

definition op_bind_key ::
  "keybinding_state \<Rightarrow> ustr \<Rightarrow> ustr \<Rightarrow> key_binding_context
    \<Rightarrow> keybinding_state \<times> (keybinding_error + (ustr \<times> ustr \<times> ustr) option)" where
  "op_bind_key st k command_id scope =
    (case build_rule k command_id scope of
       Inl e \<Rightarrow> (st, Inl e)
     | Inr rl \<Rightarrow>
         (case bind_key st rl of
            (st, Inl e) \<Rightarrow> (st, Inl (Invalid_Manifest e))
          | (st, Inr m) \<Rightarrow>
              (st, Inr (map_option key_binding_fields
                 (find (\<lambda>candidate. kb_command_id candidate = command_id) (bm_keymaps m))))))"

text \<open>\<open>op_clay_keybindings_bind_keys\<close>: both passes, over the entries in the order of the table.\<close>

fun build_rules :: "nat \<Rightarrow> key_binding_context \<Rightarrow> (ustr \<times> ustr) list \<Rightarrow> keybinding_error + key_binding_rule list" where
  "build_rules index scope [] = Inr []"
| "build_rules index scope ((chord, command_id) # entries) =
    (case build_rule chord command_id scope of
       Inl e \<Rightarrow> Inl (Invalid_Entry (index + 1) e)
     | Inr rl \<Rightarrow> bind_result (build_rules (index + 1) scope entries) (\<lambda>rules. Inr (rl # rules)))"

fun bind_rules :: "keybinding_state \<Rightarrow> key_binding_rule list \<Rightarrow> keybinding_state \<times> (keybinding_error + unit)" where
  "bind_rules st [] = (st, Inr ())"
| "bind_rules st (rl # rules) =
    (case bind_key st rl of
       (st, Inl e) \<Rightarrow> (st, Inl (Invalid_Manifest e))
     | (st, Inr _) \<Rightarrow> bind_rules st rules)"

definition op_bind_keys ::
  "keybinding_state \<Rightarrow> key_binding_context \<Rightarrow> (ustr \<times> ustr) list
    \<Rightarrow> keybinding_state \<times> (keybinding_error + (ustr \<times> ustr \<times> ustr) list)" where
  "op_bind_keys st scope entries =
    (case build_rules 0 scope entries of
       Inl e \<Rightarrow> (st, Inl e)
     | Inr rules \<Rightarrow>
         (case bind_rules st rules of
            (st, Inl e) \<Rightarrow> (st, Inl e)
          | (st, Inr _) \<Rightarrow> (st, Inr (map key_binding_fields rules))))"

definition op_unbind_key ::
  "keybinding_state \<Rightarrow> ustr \<Rightarrow> key_binding_context
    \<Rightarrow> keybinding_state \<times> (keybinding_error + (ustr \<times> ustr \<times> ustr) list)" where
  "op_unbind_key st k scope =
    (case parse_key_sequence k of
       Inl e \<Rightarrow> (st, Inl e)
     | Inr strokes \<Rightarrow>
         (case unbind_key st strokes scope of
            (st, Inl e) \<Rightarrow> (st, Inl (Invalid_Manifest e))
          | (st, Inr m) \<Rightarrow> (st, Inr (map key_binding_fields (bm_keymaps m)))))"

text \<open>
  \<open>op_clay_keybindings_unbind_keys\<close>: both passes. The bindings that are listed are those of the last replacement;
  \<open>None\<close> stands for the panic of \<open>expect\<close> when there was none.
\<close>

fun parse_unbind_keys :: "nat \<Rightarrow> ustr list \<Rightarrow> keybinding_error + key_stroke list list" where
  "parse_unbind_keys index [] = Inr []"
| "parse_unbind_keys index (chord # chords) =
    (case parse_key_sequence chord of
       Inl e \<Rightarrow> Inl (Invalid_Entry (index + 1) e)
     | Inr strokes \<Rightarrow>
         bind_result (parse_unbind_keys (index + 1) chords) (\<lambda>stroke_sequences. Inr (strokes # stroke_sequences)))"

fun unbind_sequences ::
  "keybinding_state \<Rightarrow> key_binding_context \<Rightarrow> behavior_manifest option \<Rightarrow> key_stroke list list
    \<Rightarrow> keybinding_state \<times> (keybinding_error + behavior_manifest option)" where
  "unbind_sequences st scope manifest [] = (st, Inr manifest)"
| "unbind_sequences st scope manifest (strokes # stroke_sequences) =
    (case unbind_key st strokes scope of
       (st, Inl e) \<Rightarrow> (st, Inl (Invalid_Manifest e))
     | (st, Inr m) \<Rightarrow> unbind_sequences st scope (Some m) stroke_sequences)"

definition op_unbind_keys ::
  "keybinding_state \<Rightarrow> key_binding_context \<Rightarrow> ustr list
    \<Rightarrow> keybinding_state \<times> (keybinding_error + (ustr \<times> ustr \<times> ustr) list) option" where
  "op_unbind_keys st scope chords =
    (case parse_unbind_keys 0 chords of
       Inl e \<Rightarrow> (st, Some (Inl e))
     | Inr stroke_sequences \<Rightarrow>
         (case unbind_sequences st scope None stroke_sequences of
            (st, Inl e) \<Rightarrow> (st, Some (Inl e))
          | (st, Inr None) \<Rightarrow> (st, None)
          | (st, Inr (Some m)) \<Rightarrow> (st, Some (Inr (map key_binding_fields (bm_keymaps m))))))"

text \<open>\<open>list_key_bindings\<close>, the scope as its text.\<close>

definition op_list_key_bindings :: "keybinding_state \<Rightarrow> ustr \<Rightarrow> (ustr \<times> ustr \<times> ustr) list" where
  "op_list_key_bindings st scope =
     map key_binding_fields (filter (\<lambda>rl.
       if scope = lit ''all'' \<or> scope = [] then True
       else if scope = lit ''editor'' then kb_context rl = Editor_Text_Focus
       else if scope = lit ''global'' then kb_context rl = Global_Context
       else False) (bm_keymaps (am_global (ky_behavior st))))"

end
