(* ===== verification/Key_Routing_Facts.thy ===== *)
theory Key_Routing_Facts imports Key_Routing begin

text \<open>
  A closed form of the matcher of \<open>Key_Routing\<close>, the chords that can be typed under a validated manifest, and what
  a pending chord holds.
\<close>

section \<open>The matcher\<close>

definition completes :: "key_stroke list \<Rightarrow> key_stroke \<Rightarrow> key_stroke list \<Rightarrow> bool" where
  "completes pending k stroke_sequence \<longleftrightarrow>
     length stroke_sequence = length pending + 1 \<and> binds_next pending k stroke_sequence"

definition goes_on :: "key_stroke list \<Rightarrow> key_stroke \<Rightarrow> key_stroke list \<Rightarrow> bool" where
  "goes_on pending k stroke_sequence \<longleftrightarrow>
     length stroke_sequence > length pending + 1 \<and> binds_next pending k stroke_sequence"

lemma scan_rules_eq:
  "fst (scan_rules c pending k saw rules) =
     find (\<lambda>rl. kb_context rl = c \<and> completes pending k (kb_sequence rl)) rules"
  "fst (scan_rules c pending k saw rules) = None \<Longrightarrow> snd (scan_rules c pending k saw rules) \<longleftrightarrow>
     saw \<or> (\<exists>rl\<in>set rules. kb_context rl = c \<and> goes_on pending k (kb_sequence rl))"
  by (induction rules arbitrary: saw) (auto simp: completes_def goes_on_def)

definition context_route ::
  "behavior_manifest \<Rightarrow> key_stroke list \<Rightarrow> key_stroke \<Rightarrow> key_binding_context \<Rightarrow> chord_route_outcome" where
  "context_route m pending k c =
    (case find (\<lambda>rl. kb_context rl = c \<and> completes pending k (kb_sequence rl)) (bm_keymaps m) of
       Some rl \<Rightarrow> Matched (dispatch_rule m rl)
     | None \<Rightarrow> if \<exists>rl\<in>set (bm_keymaps m). kb_context rl = c \<and> goes_on pending k (kb_sequence rl)
               then Pending else Mismatch)"

lemma route_contexts_Cons:
  "route_contexts m pending k (c # cs) =
    (if context_route m pending k c = Mismatch then route_contexts m pending k cs else context_route m pending k c)"
proof (cases "scan_rules c pending k False (bm_keymaps m)")
  case (Pair found saw)
  let ?goes_on = "\<exists>rl\<in>set (bm_keymaps m). kb_context rl = c \<and> goes_on pending k (kb_sequence rl)"
  have f: "find (\<lambda>rl. kb_context rl = c \<and> completes pending k (kb_sequence rl)) (bm_keymaps m) = found"
    using Pair scan_rules_eq(1)[of c pending k False "bm_keymaps m"] by simp
  have "found = None \<Longrightarrow> saw \<longleftrightarrow> ?goes_on"
    using Pair scan_rules_eq(2)[of c pending k False "bm_keymaps m"] by simp
  then show ?thesis
    unfolding context_route_def f route_contexts.simps Pair by (cases found) auto
qed

lemma route_key_sequence_eq:
  "route_key_sequence m pending k =
    (if context_route m pending k Editor_Text_Focus = Mismatch then context_route m pending k Global_Context
     else context_route m pending k Editor_Text_Focus)"
  unfolding route_key_sequence_def route_contexts_Cons by simp

text \<open>The rules that the router looks at.\<close>

definition routed_rules :: "behavior_manifest \<Rightarrow> key_binding_rule list" where
  "routed_rules m = filter (\<lambda>rl. kb_context rl \<noteq> Completion_Menu) (bm_keymaps m)"

lemma context_routed: "c \<noteq> Completion_Menu \<longleftrightarrow> c = Editor_Text_Focus \<or> c = Global_Context"
  by (cases c) auto

lemma findD: "find P xs = Some x \<Longrightarrow> x \<in> set xs \<and> P x"
  by (induction xs) (auto split: if_splits)

lemma context_route_Mismatch:
  "context_route m pending k c = Mismatch \<longleftrightarrow>
     (\<forall>rl\<in>set (bm_keymaps m). kb_context rl = c \<longrightarrow>
        \<not> completes pending k (kb_sequence rl) \<and> \<not> goes_on pending k (kb_sequence rl))"
proof (cases "find (\<lambda>rl. kb_context rl = c \<and> completes pending k (kb_sequence rl)) (bm_keymaps m)")
  case None
  then show ?thesis using None[unfolded find_None_iff] unfolding context_route_def None by auto
next
  case (Some rl)
  then show ?thesis using findD[OF Some] unfolding context_route_def Some by auto
qed

lemma context_route_Pending:
  "context_route m pending k c = Pending \<longleftrightarrow>
     (\<exists>rl\<in>set (bm_keymaps m). kb_context rl = c \<and> goes_on pending k (kb_sequence rl))
     \<and> (\<forall>rl\<in>set (bm_keymaps m). kb_context rl = c \<longrightarrow> \<not> completes pending k (kb_sequence rl))"
proof (cases "find (\<lambda>rl. kb_context rl = c \<and> completes pending k (kb_sequence rl)) (bm_keymaps m)")
  case None
  then show ?thesis using None[unfolded find_None_iff] unfolding context_route_def None by auto
next
  case (Some rl)
  then show ?thesis using findD[OF Some] unfolding context_route_def Some by auto
qed

lemma context_route_Matched:
  "context_route m pending k c = Matched b \<Longrightarrow>
     \<exists>rl\<in>set (bm_keymaps m). kb_context rl = c \<and> completes pending k (kb_sequence rl) \<and> b = dispatch_rule m rl"
  unfolding context_route_def by (auto split: option.splits if_splits dest!: findD)

lemma route_Mismatch:
  "route_key_sequence m pending k = Mismatch \<longleftrightarrow>
     (\<forall>rl\<in>set (routed_rules m). \<not> (length (kb_sequence rl) > length pending \<and> binds_next pending k (kb_sequence rl)))"
proof -
  have less: "length (kb_sequence rl) > length pending \<and> binds_next pending k (kb_sequence rl) \<longleftrightarrow>
      completes pending k (kb_sequence rl) \<or> goes_on pending k (kb_sequence rl)" for rl
    by (auto simp: completes_def goes_on_def)
  show ?thesis
    unfolding route_key_sequence_eq less
    by (auto simp: context_route_Mismatch routed_rules_def context_routed)
qed

lemma route_Pending:
  "route_key_sequence m pending k = Pending \<Longrightarrow>
     \<exists>rl\<in>set (routed_rules m). goes_on pending k (kb_sequence rl)"
  by (auto simp: route_key_sequence_eq context_route_Pending routed_rules_def split: if_splits)

lemma route_Matched:
  "route_key_sequence m pending k = Matched b \<Longrightarrow>
     \<exists>rl\<in>set (routed_rules m). completes pending k (kb_sequence rl) \<and> b = dispatch_rule m rl"
  by (fastforce simp: route_key_sequence_eq routed_rules_def split: if_splits dest!: context_route_Matched)

section \<open>Authority\<close>

lemma declared_authority_Some:
  "declared_authority m c = Some a \<Longrightarrow>
     \<exists>command\<in>set (bm_commands m). cd_command_id command = c \<and> cd_authority command = a"
  by (auto simp: declared_authority_def dest!: findD)

text \<open>The command that a routed behavior runs beyond the client, and the authority it must be declared with.\<close>

fun feature_command :: "language_intelligence_feature \<Rightarrow> ustr" where
  "feature_command Hover_Feature = lit ''language.hover''"
| "feature_command Go_To_Definition = lit ''language.goToDefinition''"
| "feature_command Code_Action = lit ''language.codeActions''"
| "feature_command Signature_Help = lit ''language.signatureHelp''"

fun required_authority :: "routed_behavior \<Rightarrow> (ustr \<times> command_authority) option" where
  "required_authority (Client_Edit _ _) = None"
| "required_authority Unhandled = None"
| "required_authority (Completion_Route _) = Some (lit ''completion.trigger'', Server_Intent)"
| "required_authority (Language_Intelligence feature _) = Some (feature_command feature, Server_Intent)"
| "required_authority (Server_Intent_Route c _) = Some (c, Server_Intent)"
| "required_authority (Client_Ui_Command_Route c _) = Some (c, Client_Ui)"

lemma feature_for_command:
  "language_intelligence_feature_for_command c = Some feature \<Longrightarrow> feature_command feature = c"
  by (auto simp: language_intelligence_feature_for_command_def split: if_splits)

lemma dispatch_rule_authority:
  "required_authority (dispatch_rule m rl) = Some (c, a) \<Longrightarrow> declared_authority m c = Some a"
  by (auto simp: dispatch_rule_def dispatch_client_rule_def dispatch_server_rule_def
      split: routing_policy.splits if_splits option.splits dest: feature_for_command)

lemma route_unbound_key_local: "required_authority (route_unbound_key m k) = None"
  by (auto simp: route_unbound_key_def Let_def split: key_code.splits)

section \<open>Typing a bound sequence\<close>

text \<open>A stroke as the parser of configurations writes it: letters in lower case.\<close>

definition canonical_stroke :: "key_stroke \<Rightarrow> bool" where
  "canonical_stroke k \<longleftrightarrow> (case ks_key k of Character_Key t \<Rightarrow> ascii_lowercase t = t | _ \<Rightarrow> True)"

definition canonical_keymaps :: "behavior_manifest \<Rightarrow> bool" where
  "canonical_keymaps m \<longleftrightarrow> list_all (\<lambda>rl. list_all canonical_stroke (kb_sequence rl)) (bm_keymaps m)"

lemma key_matches_canonical:
  "canonical_stroke b \<Longrightarrow> canonical_stroke e \<Longrightarrow> key_matches_binding b e \<longleftrightarrow> b = e"
  by (cases b; cases e) (auto simp: key_matches_binding_def canonical_stroke_def split: key_code.splits)

lemma binds_next_canonical:
  assumes "list_all canonical_stroke s" "list_all canonical_stroke t" "i < length s" "i < length t"
  shows "binds_next (take i s) (s ! i) t \<longleftrightarrow> take (Suc i) t = take (Suc i) s"
proof -
  have "key_matches_binding (t ! i) (s ! i) \<longleftrightarrow> t ! i = s ! i"
    using assms by (simp add: key_matches_canonical list_all_length)
  then show ?thesis using assms by (simp add: binds_next_def take_Suc_conv_app_nth)
qed

lemma completes_canonical:
  assumes "list_all canonical_stroke s" "list_all canonical_stroke t" "i < length s"
  shows "completes (take i s) (s ! i) t \<longleftrightarrow> t = take (Suc i) s"
  using assms binds_next_canonical[OF assms] by (auto simp: completes_def)

lemma goes_on_canonical:
  assumes "list_all canonical_stroke s" "list_all canonical_stroke t" "i < length s"
  shows "goes_on (take i s) (s ! i) t \<longleftrightarrow> strict_prefix (take (Suc i) s) t"
proof
  assume g: "goes_on (take i s) (s ! i) t"
  then have "take (Suc i) t = take (Suc i) s" "Suc i < length t"
    using assms binds_next_canonical[OF assms] by (auto simp: goes_on_def)
  then show "strict_prefix (take (Suc i) s) t"
    by (metis length_take min.absorb4 nat_less_le prefix_def strict_prefix_def append_take_drop_id)
next
  assume "strict_prefix (take (Suc i) s) t"
  then obtain u where t: "t = take (Suc i) s @ u" "u \<noteq> []" by (auto simp: strict_prefix_def prefix_def)
  then show "goes_on (take i s) (s ! i) t"
    using assms binds_next_canonical[OF assms] by (auto simp: goes_on_def)
qed

text \<open>A rule that no editor binding shadows: no sequence of the editor context is comparable with a global one.\<close>

definition unshadowed :: "behavior_manifest \<Rightarrow> key_binding_rule \<Rightarrow> bool" where
  "unshadowed m rl \<longleftrightarrow> kb_context rl = Editor_Text_Focus
     \<or> kb_context rl = Global_Context
       \<and> list_all (\<lambda>other. kb_context other = Editor_Text_Focus \<longrightarrow>
           \<not> prefix (kb_sequence other) (kb_sequence rl) \<and> \<not> prefix (kb_sequence rl) (kb_sequence other))
         (bm_keymaps m)"

lemma route_bound_sequence:
  assumes ok: "manifest_ok m" and rules: "canonical_keymaps m" "rl \<in> set (bm_keymaps m)" "unshadowed m rl"
    and i: "i < length (kb_sequence rl)"
  shows "route_key_sequence m (take i (kb_sequence rl)) (kb_sequence rl ! i) =
    (if Suc i = length (kb_sequence rl) then Matched (dispatch_rule m rl) else Pending)"
proof -
  let ?s = "kb_sequence rl" let ?k = "kb_sequence rl ! i" let ?pending = "take i (kb_sequence rl)"
  have canonical: "list_all canonical_stroke (kb_sequence other)" if "other \<in> set (bm_keymaps m)" for other
    using rules(1) that by (simp add: canonical_keymaps_def list_all_iff)
  have completes: "completes ?pending ?k (kb_sequence other) \<longleftrightarrow> kb_sequence other = take (Suc i) ?s"
    and goes_on: "goes_on ?pending ?k (kb_sequence other) \<longleftrightarrow> strict_prefix (take (Suc i) ?s) (kb_sequence other)"
    if "other \<in> set (bm_keymaps m)" for other
    using completes_canonical goes_on_canonical canonical[OF rules(2)] canonical[OF that] i by blast+
  have whole: "take (Suc i) ?s = ?s" if "Suc i = length ?s" using that by simp
  have part: "strict_prefix (take (Suc i) ?s) ?s" if "Suc i \<noteq> length ?s"
    using that i by (metis Suc_lessI length_take min.absorb4 nat_less_le strict_prefix_def take_is_prefix)
  have own: "context_route m ?pending ?k (kb_context rl) =
      (if Suc i = length ?s then Matched (dispatch_rule m rl) else Pending)"
    (is "?own = _")
  proof (cases "Suc i = length ?s")
    case True
    have "rl' = rl" if "rl' \<in> set (bm_keymaps m)" "kb_context rl' = kb_context rl" "kb_sequence rl' = ?s" for rl'
      using ok that rules(2) by (auto simp: manifest_ok_def sequences_ok_def distinct_map inj_on_def)
    then have "find (\<lambda>other. kb_context other = kb_context rl \<and> completes ?pending ?k (kb_sequence other))
        (bm_keymaps m) = Some rl"
      using True rules(2) completes whole[OF True]
      by (cases "find (\<lambda>other. kb_context other = kb_context rl \<and> completes ?pending ?k (kb_sequence other))
          (bm_keymaps m)")
        (fastforce simp: find_None_iff dest: findD)+
    then show ?thesis unfolding context_route_def using True by simp
  next
    case False
    have "\<not> completes ?pending ?k (kb_sequence other)"
      if "other \<in> set (bm_keymaps m)" "kb_context other = kb_context rl" for other
      using ok that rules(2) part[OF False] completes[OF that(1)]
      by (auto simp: manifest_ok_def sequences_ok_def)
    then show ?thesis
      using False rules(2) goes_on[OF rules(2)] part[OF False] by (auto simp: context_route_Pending)
  qed
  have above: "context_route m ?pending ?k Editor_Text_Focus \<in> {Mismatch, Pending}"
    "Suc i = length ?s \<Longrightarrow> context_route m ?pending ?k Editor_Text_Focus = Mismatch"
    if "kb_context rl \<noteq> Editor_Text_Focus"
  proof -
    have free: "\<not> prefix (kb_sequence other) ?s \<and> \<not> prefix ?s (kb_sequence other)"
      if "other \<in> set (bm_keymaps m)" "kb_context other = Editor_Text_Focus" for other
      using rules(3) that \<open>kb_context rl \<noteq> Editor_Text_Focus\<close> by (auto simp: unshadowed_def list_all_iff)
    have "\<not> completes ?pending ?k (kb_sequence other)"
      if "other \<in> set (bm_keymaps m)" "kb_context other = Editor_Text_Focus" for other
      using free[OF that] completes[OF that(1)] take_is_prefix by metis
    then show "context_route m ?pending ?k Editor_Text_Focus \<in> {Mismatch, Pending}"
      using context_route_Mismatch context_route_Pending by blast
    show "context_route m ?pending ?k Editor_Text_Focus = Mismatch" if "Suc i = length ?s"
      unfolding context_route_Mismatch
      using free completes goes_on whole[OF that] by (metis prefix_order.refl strict_prefix_def)
  qed
  show ?thesis
  proof (cases "kb_context rl = Editor_Text_Focus")
    case True
    then show ?thesis using own by (simp add: route_key_sequence_eq)
  next
    case False
    then have "kb_context rl = Global_Context" using rules(3) by (auto simp: unshadowed_def)
    then show ?thesis using own above[OF False] by (auto simp: route_key_sequence_eq)
  qed
qed

lemma type_rest:
  assumes ok: "manifest_ok m" and rules: "canonical_keymaps m" "rl \<in> set (bm_keymaps m)" "unshadowed m rl"
    and ts: "length ts = length (kb_sequence rl) - i"
      "\<forall>t\<in>set ts. t - t0 < key_chord_pending_timeout_ms * 1000000"
    and i: "0 < i" "i < length (kb_sequence rl)"
  shows "type_keys (Some m) (Some \<lparr>ch_strokes = take i (kb_sequence rl), ch_started_at = t0\<rparr>)
      (zip (drop i (kb_sequence rl)) ts) =
    (None, replicate (length (kb_sequence rl) - Suc i) Chord_Consumed @ [Chord_Dispatched (dispatch_rule m rl)])"
  using ts i
proof (induction ts arbitrary: i)
  case Nil
  then show ?case by simp
next
  case (Cons t ts)
  let ?s = "kb_sequence rl"
  have drop: "drop i ?s = ?s ! i # drop (Suc i) ?s" using Cons.prems(4) by (simp add: Cons_nth_drop_Suc)
  have valid: "client_behavior_new m = Inr m"
    using ok by (simp add: client_behavior_new_def bind_result_Inr validate_manifest_Inr)
  have stale: "drop_stale_chord t (Some \<lparr>ch_strokes = take i ?s, ch_started_at = t0\<rparr>) =
      Some \<lparr>ch_strokes = take i ?s, ch_started_at = t0\<rparr>"
    using Cons.prems(2) by (auto simp: drop_stale_chord_def)
  show ?case
  proof (cases "Suc i = length ?s")
    case True
    then have "length ts = 0" using Cons.prems(1) by (simp flip: True)
    then have "ts = []" by simp
    with True show ?thesis
      using route_bound_sequence[OF ok rules Cons.prems(4)]
      by (simp add: drop route_chord_def valid stale pending_strokes_def Let_def)
  next
    case False
    then have next_i: "Suc i < length ?s" using Cons.prems(4) by simp
    have "replicate (length ?s - Suc i) Chord_Consumed = Chord_Consumed # replicate (length ?s - Suc (Suc i)) Chord_Consumed"
      using next_i by (metis Suc_diff_Suc replicate_Suc)
    then show ?thesis
      using False next_i route_bound_sequence[OF ok rules Cons.prems(4)] Cons.IH[of "Suc i"] Cons.prems
      by (simp add: drop route_chord_def valid stale pending_strokes_def Let_def take_Suc_conv_app_nth)
  qed
qed

lemma type_bound_sequence:
  assumes ok: "manifest_ok m" and rules: "canonical_keymaps m" "rl \<in> set (bm_keymaps m)" "unshadowed m rl"
    and ts: "Suc (length ts) = length (kb_sequence rl)"
      "\<forall>t\<in>set ts. t - t0 < key_chord_pending_timeout_ms * 1000000"
  shows "type_keys (Some m) None (zip (kb_sequence rl) (t0 # ts)) =
    (None, replicate (length ts) Chord_Consumed @ [Chord_Dispatched (dispatch_rule m rl)])"
proof -
  let ?s = "kb_sequence rl"
  have valid: "client_behavior_new m = Inr m"
    using ok by (simp add: client_behavior_new_def bind_result_Inr validate_manifest_Inr)
  obtain k s where s: "?s = k # s" using ts(1) by (cases ?s) auto
  have first: "route_key_sequence m [] k = (if s = [] then Matched (dispatch_rule m rl) else Pending)"
    using route_bound_sequence[OF ok rules, of 0] s by simp
  show ?thesis
  proof (cases s)
    case Nil
    then show ?thesis
      using first ts(1) s
      by (simp add: route_chord_def valid drop_stale_chord_def pending_strokes_def Let_def)
  next
    case (Cons k' s')
    then have "type_keys (Some m) (Some \<lparr>ch_strokes = [k], ch_started_at = t0\<rparr>) (zip s ts) =
        (None, replicate (length s') Chord_Consumed @ [Chord_Dispatched (dispatch_rule m rl)])"
      using type_rest[OF ok rules, of ts 1 t0] ts s by simp
    then show ?thesis
      using first Cons ts(1) s
      by (simp add: route_chord_def valid drop_stale_chord_def pending_strokes_def Let_def)
  qed
qed

section \<open>What a pending chord holds\<close>

text \<open>
  The strokes begin a sequence that the router looks at and that goes on; the last of them up to the case of
  letters, the ones before exactly.
\<close>

definition begins_bound_sequence :: "behavior_manifest \<Rightarrow> key_stroke list \<Rightarrow> bool" where
  "begins_bound_sequence m strokes \<longleftrightarrow> strokes \<noteq> []
     \<and> (\<exists>rl\<in>set (routed_rules m). length strokes < length (kb_sequence rl)
          \<and> butlast strokes = take (length strokes - 1) (kb_sequence rl)
          \<and> key_matches_binding (kb_sequence rl ! (length strokes - 1)) (last strokes))"

lemma route_Pending_begins:
  "route_key_sequence m pending k = Pending \<Longrightarrow> begins_bound_sequence m (pending @ [k])"
  by (drule route_Pending) (auto simp: begins_bound_sequence_def goes_on_def binds_next_def)

lemma route_chord_begins:
  assumes "fst (route_chord (Some m) now pending k) = Some p" "\<And>q. pending = Some q \<Longrightarrow> begins_bound_sequence m (ch_strokes q)"
  shows "begins_bound_sequence m (ch_strokes p)"
proof (cases "client_behavior_new m")
  case (Inl e)
  then show ?thesis using assms by (simp add: route_chord_def)
next
  case (Inr m')
  then have [simp]: "m' = m" by (auto simp: client_behavior_new_def bind_result_Inr)
  show ?thesis
    using assms(1) Inr route_Pending_begins[of m "pending_strokes (drop_stale_chord now pending)" k]
      route_Pending_begins[of m "[]" k]
    by (auto simp: route_chord_def route_fresh_key_def Let_def split: chord_route_outcome.splits)
qed

lemma type_keys_begins:
  "(\<And>q. pending = Some q \<Longrightarrow> begins_bound_sequence m (ch_strokes q)) \<Longrightarrow>
     fst (type_keys (Some m) pending ks) = Some p \<Longrightarrow> begins_bound_sequence m (ch_strokes p)"
proof (induction ks arbitrary: pending)
  case Nil
  then show ?case by simp
next
  case (Cons stroke ks)
  obtain k now where [simp]: "stroke = (k, now)" by force
  show ?case
    using Cons.IH[of "fst (route_chord (Some m) now pending k)"] Cons.prems(2) route_chord_begins[OF _ Cons.prems(1)]
    by (auto simp: Let_def split: prod.splits)
qed

end
