(* ===== verification/Key_Chords_Facts.thy ===== *)
theory Key_Chords_Facts imports Key_Chords Key_Routing_Facts begin

text \<open>
  Chords printed and parsed again, and what binding a key changes.
\<close>

section \<open>Splitting and joining\<close>

lemma split_at_chars_Nil [simp]: "split_at_chars d s \<noteq> []"
  by (induction s) (auto split: list.splits)

lemma split_at_chars_plain: "list_all (\<lambda>c. \<not> d c) s \<Longrightarrow> split_at_chars d s = [s]"
  by (induction s) auto

lemma split_at_chars_append:
  "list_all (\<lambda>c. \<not> d c) s \<Longrightarrow> d c \<Longrightarrow> split_at_chars d (s @ c # t) = s # split_at_chars d t"
  by (induction s) auto

lemma split_at_chars_join:
  "d c \<Longrightarrow> list_all (list_all (\<lambda>c. \<not> d c)) parts \<Longrightarrow> parts \<noteq> [] \<Longrightarrow> split_at_chars d (join_with c parts) = parts"
proof (induction c parts rule: join_with.induct)
  case (1 c)
  then show ?case by simp
next
  case (2 c s)
  then show ?case by (simp add: split_at_chars_plain)
next
  case (3 c s t ts)
  then show ?case by (simp add: split_at_chars_append)
qed

lemma collect_results_map:
  "(\<And>x. x \<in> set xs \<Longrightarrow> f (g x) = Inr x) \<Longrightarrow> collect_results (map (f \<circ> g) xs) = Inr xs"
  by (induction xs) simp_all

section \<open>Printing and parsing\<close>

text \<open>
  The strokes that have a name: a single character that is not white space, not the plus sign and not an upper
  case letter, or a named key.
\<close>

definition nameable :: "key_stroke \<Rightarrow> bool" where
  "nameable stroke \<longleftrightarrow>
    (case ks_key stroke of
       Character_Key t \<Rightarrow> length t = 1 \<and> \<not> is_whitespace (hd t) \<and> hd t \<noteq> 43 \<and> \<not> (65 \<le> hd t \<and> hd t \<le> 90)
     | _ \<Rightarrow> True)"

lemma nameable_cases:
  assumes "nameable \<lparr>ks_key = k, ks_modifiers = mods\<rparr>"
  obtains c where "k = Character_Key [c]" "\<not> is_whitespace c" "c \<noteq> 43" "\<not> (65 \<le> c \<and> c \<le> 90)"
  | "k \<in> {Enter_Key, Tab_Key, Backspace_Key, Delete_Key, Escape_Key, Arrow_Up_Key, Arrow_Down_Key, Arrow_Left_Key,
      Arrow_Right_Key}"
proof (cases k)
  case (Character_Key t)
  then obtain c where "t = [c]" using assms by (auto simp: nameable_def length_Suc_conv)
  then show ?thesis using that(1) Character_Key assms by (auto simp: nameable_def)
qed (use that(2) in auto)

definition is_part :: "ustr \<Rightarrow> bool" where
  "is_part s \<longleftrightarrow> s \<noteq> [] \<and> list_all (\<lambda>c. \<not> is_whitespace c \<and> c \<noteq> 43) s"

lemma whitespace_range: "is_whitespace c \<Longrightarrow> c \<le> 32 \<or> 133 \<le> c"
  by (auto simp: is_whitespace_def)

lemma key_code_string_part:
  assumes "nameable \<lparr>ks_key = k, ks_modifiers = mods\<rparr>" shows "is_part (key_code_string k)"
  using assms
proof (cases rule: nameable_cases)
  case (1 c)
  then show ?thesis using whitespace_range[of "c - 32"] by (auto simp: is_part_def ascii_uppercase_def)
next
  case 2
  then show ?thesis by (elim insertE) (simp_all add: is_part_def lit_def is_whitespace_def)
qed

lemma parse_key_code_string:
  assumes "nameable \<lparr>ks_key = k, ks_modifiers = mods\<rparr>" shows "parse_key_name (key_code_string k) = Inr k"
  using assms
proof (cases rule: nameable_cases)
  case (1 c)
  then have "ascii_lowercase (ascii_uppercase [c]) = [c]" by (auto simp: ascii_lowercase_def ascii_uppercase_def)
  moreover have "length (ascii_uppercase [c]) = 1" by (simp add: ascii_uppercase_def)
  ultimately show ?thesis using 1 by (simp add: parse_key_name_def Let_def lit_def)
next
  case 2
  then show ?thesis by (elim insertE) (simp_all add: parse_key_name_def Let_def lit_def ascii_lowercase_def)
qed

definition modifier_names :: "ustr set" where
  "modifier_names = {lit ''ctrl'', lit ''control'', lit ''alt'', lit ''option'', lit ''shift'', lit ''super'',
     lit ''cmd'', lit ''command'', lit ''meta''}"

lemma key_code_string_no_modifier:
  assumes "nameable \<lparr>ks_key = k, ks_modifiers = mods\<rparr>" shows "ascii_lowercase (key_code_string k) \<notin> modifier_names"
  using assms
proof (cases rule: nameable_cases)
  case (1 c)
  then show ?thesis by (simp add: modifier_names_def ascii_lowercase_def ascii_uppercase_def lit_def)
next
  case 2
  then show ?thesis by (elim insertE) (simp_all add: modifier_names_def ascii_lowercase_def lit_def)
qed

lemma chord_parts_modifiers:
  "chord_parts chord m None (lit ''Ctrl'' # parts) = chord_parts chord (m\<lparr>km_control := True\<rparr>) None parts"
  "chord_parts chord m None (lit ''Alt'' # parts) = chord_parts chord (m\<lparr>km_alt := True\<rparr>) None parts"
  "chord_parts chord m None (lit ''Shift'' # parts) = chord_parts chord (m\<lparr>km_shift := True\<rparr>) None parts"
  "chord_parts chord m None (lit ''Super'' # parts) = chord_parts chord (m\<lparr>km_super_key := True\<rparr>) None parts"
  by (simp_all add: ascii_lowercase_def lit_def)

lemma chord_parts_key:
  "ascii_lowercase part \<notin> modifier_names \<Longrightarrow> chord_parts chord m None [part] = Inr (m, Some part)"
  by (simp add: modifier_names_def Let_def)

lemma trim_plain: "s \<noteq> [] \<Longrightarrow> \<not> is_whitespace (hd s) \<Longrightarrow> \<not> is_whitespace (last s) \<Longrightarrow> trim s = s"
proof -
  assume s: "s \<noteq> []" "\<not> is_whitespace (hd s)" "\<not> is_whitespace (last s)"
  then have "dropWhile is_whitespace s = s" "dropWhile is_whitespace (rev s) = rev s"
    by (metis dropWhile_eq_self_iff) (metis s(1,3) dropWhile_eq_self_iff hd_rev rev_is_Nil_conv)
  then show ?thesis by (simp add: trim_def)
qed

definition chord_names :: "key_stroke \<Rightarrow> ustr list" where
  "chord_names stroke =
     (if km_control (ks_modifiers stroke) then [lit ''Ctrl''] else [])
       @ (if km_alt (ks_modifiers stroke) then [lit ''Alt''] else [])
       @ (if km_shift (ks_modifiers stroke) then [lit ''Shift''] else [])
       @ (if km_super_key (ks_modifiers stroke) then [lit ''Super''] else [])
       @ [key_code_string (ks_key stroke)]"

lemma chord_names_parts: "nameable stroke \<Longrightarrow> list_all is_part (chord_names stroke) \<and> chord_names stroke \<noteq> []"
  using key_code_string_part[of "ks_key stroke" "ks_modifiers stroke"]
  by (cases stroke) (auto simp: chord_names_def is_part_def lit_def is_whitespace_def)

lemma list_all_join: "P d \<Longrightarrow> list_all (list_all P) parts \<Longrightarrow> list_all P (join_with d parts)"
  by (induction d parts rule: join_with.induct) simp_all

lemma join_parts:
  assumes "list_all is_part parts" "parts \<noteq> []"
  shows "join_with 43 parts \<noteq> []" "list_all (\<lambda>c. \<not> is_whitespace c) (join_with 43 parts)"
proof -
  show "join_with 43 parts \<noteq> []"
    using assms by (cases parts rule: remdups_adj.cases) (auto simp: is_part_def)
  show "list_all (\<lambda>c. \<not> is_whitespace c) (join_with 43 parts)"
    using assms(1) by (intro list_all_join) (auto simp: is_part_def list_all_iff is_whitespace_def)
qed

lemma key_chord_string_eq: "key_chord_string stroke = join_with 43 (chord_names stroke)"
  by (simp add: key_chord_string_def chord_names_def)

lemma key_chord_string_parses:
  assumes "nameable stroke" shows "parse_key_chord (key_chord_string stroke) = Inr stroke"
proof -
  obtain k mods where [simp]: "stroke = \<lparr>ks_key = k, ks_modifiers = mods\<rparr>" by (cases stroke) auto
  have parts: "list_all is_part (chord_names stroke)" "chord_names stroke \<noteq> []" using chord_names_parts[OF assms] by auto
  note joined = join_parts[OF parts]
  have "trim (key_chord_string stroke) = key_chord_string stroke"
    unfolding key_chord_string_eq using joined by (intro trim_plain) (auto simp: list_all_iff)
  moreover have "key_chord_string stroke \<noteq> []" using joined by (simp add: key_chord_string_eq)
  moreover have "split_at_chars (\<lambda>c. c = 43) (key_chord_string stroke) = chord_names stroke"
    unfolding key_chord_string_eq using parts
    by (intro split_at_chars_join) (auto simp: list_all_iff is_part_def)
  moreover have "chord_parts chord no_modifiers None (chord_names stroke) = Inr (mods, Some (key_code_string k))" for chord
    using chord_parts_key[OF key_code_string_no_modifier, of k mods] assms
    by (cases mods) (simp add: chord_names_def chord_parts_modifiers no_modifiers_def del: chord_parts.simps)
  ultimately show ?thesis
    using parse_key_code_string[of k mods] assms by (simp add: parse_key_chord_def Let_def)
qed

lemma key_sequence_string_parses:
  assumes "list_all nameable strokes" "strokes \<noteq> []"
  shows "parse_key_sequence (key_sequence_string strokes) = Inr strokes"
proof -
  have plain: "key_chord_string stroke \<noteq> []" "list_all (\<lambda>c. \<not> is_ascii_whitespace c) (key_chord_string stroke)"
    if "stroke \<in> set strokes" for stroke
  proof -
    have "nameable stroke" using that assms(1) by (simp add: list_all_iff)
    note joined = join_parts[OF conjunct1[OF chord_names_parts[OF this]] conjunct2[OF chord_names_parts[OF this]]]
    show "key_chord_string stroke \<noteq> []" using joined by (simp add: key_chord_string_eq)
    have "is_ascii_whitespace c \<Longrightarrow> is_whitespace c" for c by (auto simp: is_ascii_whitespace_def is_whitespace_def)
    then show "list_all (\<lambda>c. \<not> is_ascii_whitespace c) (key_chord_string stroke)"
      using joined(2) by (auto simp: key_chord_string_eq list_all_iff)
  qed
  have "split_at_chars is_ascii_whitespace (key_sequence_string strokes) = map key_chord_string strokes"
    unfolding key_sequence_string_def using plain assms(2)
    by (intro split_at_chars_join) (auto simp: list_all_iff is_ascii_whitespace_def)
  moreover have "filter (\<lambda>part. part \<noteq> []) (map key_chord_string strokes) = map key_chord_string strokes"
    using plain(1) by (simp add: filter_id_conv)
  moreover have "collect_results (map (parse_key_chord \<circ> key_chord_string) strokes) = Inr strokes"
    using assms(1) by (intro collect_results_map) (simp add: list_all_iff key_chord_string_parses)
  ultimately show ?thesis using assms(2) by (simp add: parse_key_sequence_def split_ascii_whitespace_def)
qed

section \<open>Binding\<close>

lemma command_for_rule_ok: "\<not> blank (kb_command_id rl) \<Longrightarrow> command_ok (command_for_rule rl)"
  by (cases "kb_routing_policy rl")
    (simp_all add: command_for_rule_def command_ok_def client_edit_command_def ui_reactive_command_def
      client_ui_command_def server_intent_command_def)

lemma command_for_rule_id [simp]: "cd_command_id (command_for_rule rl) = kb_command_id rl"
  by (cases "kb_routing_policy rl")
    (simp_all add: command_for_rule_def client_edit_command_def ui_reactive_command_def
      client_ui_command_def server_intent_command_def)

lemma set_without_binding:
  "set (without_binding c s rules) = {rl \<in> set rules. \<not> (kb_context rl = c \<and> kb_sequence rl = s)}"
  by (auto simp: without_binding_def)

text \<open>A rule can be bound unless a binding of its context begins it or is begun by it.\<close>

definition collides :: "key_binding_rule list \<Rightarrow> key_binding_rule \<Rightarrow> bool" where
  "collides rules rl \<longleftrightarrow>
     list_ex (\<lambda>other. kb_context other = kb_context rl
       \<and> (strict_prefix (kb_sequence other) (kb_sequence rl) \<or> strict_prefix (kb_sequence rl) (kb_sequence other))) rules"

lemma sequences_ok_bind:
  assumes "sequences_ok rules"
  shows "sequences_ok (without_binding (kb_context rl) (kb_sequence rl) rules @ [rl]) \<longleftrightarrow> \<not> collides rules rl"
proof -
  have "distinct (map (\<lambda>rl. (kb_context rl, kb_sequence rl)) (without_binding (kb_context rl) (kb_sequence rl) rules))"
    using assms by (simp add: sequences_ok_def without_binding_def distinct_map_filter)
  then show ?thesis
    using assms
    by (fastforce simp: sequences_ok_def collides_def set_without_binding list_ex_iff)
qed

lemma bind_key_replacement_ok:
  assumes "manifest_ok m" "\<not> blank (kb_command_id rl)" "kb_sequence rl \<noteq> []"
  shows "manifest_ok (bind_key_replacement m rl) \<longleftrightarrow> \<not> collides (bm_keymaps m) rl"
proof -
  have id: "\<not> blank (lit ''runtime.configuration'')" by (simp add: blank_def lit_def is_whitespace_def)
  have "sequences_ok (bm_keymaps m)" using assms(1) by (simp add: manifest_ok_def)
  note bind = sequences_ok_bind[OF this, of rl]
  show ?thesis
    using assms command_for_rule_ok[OF assms(2)] bind id
    by (auto simp: manifest_ok_def bind_key_replacement_def set_without_binding list_ex_iff image_iff) metis
qed

text \<open>Binding a rule: what is published, and when it is refused.\<close>

lemma bind_key_scope [simp]: "bm_scope (bind_key_replacement m rl) = bm_scope m"
  by (simp add: bind_key_replacement_def)

lemma publish_global:
  assumes "active_manifest_ok a" "manifest_ok m" "bm_scope m = bm_scope (am_global a)"
  shows "publish_replacement a m =
    (a\<lparr>am_global := m\<lparr>bm_behavior_version := sat_add (am_version a) 1\<rparr>, am_version := sat_add (am_version a) 1\<rparr>,
     Inr (m\<lparr>bm_behavior_version := sat_add (am_version a) 1\<rparr>))"
proof -
  have "stage_replacement a m = Inr (m\<lparr>bm_behavior_version := sat_add (am_version a) 1\<rparr>)"
    using assms(2) by (simp add: stage_replacement_Inr)
  moreover have "bm_scope (am_global a) \<noteq> Document_Layer d" for d
    using assms(1) by (simp add: active_manifest_ok_def)
  ultimately show ?thesis
    using assms(3)
    by (cases "bm_scope (am_global a)") (auto simp: publish_replacement_def install_staged_def Let_def)
qed

lemma publish_rejected:
  assumes "\<not> manifest_ok m"
  shows "fst (publish_replacement a m) = a \<and> (\<exists>e. snd (publish_replacement a m) = Inl e)"
proof (cases "stage_replacement a m")
  case (Inl e)
  then show ?thesis by (simp add: publish_replacement_def)
next
  case (Inr staged)
  then show ?thesis using assms by (simp add: stage_replacement_Inr)
qed

lemma bind_key_accepted:
  assumes "active_manifest_ok (ky_behavior st)" "\<not> blank (kb_command_id rl)" "kb_sequence rl \<noteq> []"
    "\<not> collides (bm_keymaps (am_global (ky_behavior st))) rl"
  shows "\<exists>m. snd (bind_key st rl) = Inr m \<and> am_global (ky_behavior (fst (bind_key st rl))) = m
    \<and> bm_keymaps m = without_binding (kb_context rl) (kb_sequence rl) (bm_keymaps (am_global (ky_behavior st))) @ [rl]"
proof -
  let ?m = "am_global (ky_behavior st)"
  have "manifest_ok ?m" using assms(1) by (simp add: active_manifest_ok_def)
  then have "manifest_ok (bind_key_replacement ?m rl)" using bind_key_replacement_ok assms(2-4) by blast
  note published = publish_global[OF assms(1) this bind_key_scope]
  have [simp]: "bm_keymaps (bind_key_replacement ?m rl) =
      without_binding (kb_context rl) (kb_sequence rl) (bm_keymaps ?m) @ [rl]"
    by (simp add: bind_key_replacement_def)
  show ?thesis by (simp add: bind_key_def publish_behavior_replacement_def published)
qed

lemma bind_key_refused:
  assumes "active_manifest_ok (ky_behavior st)" "\<not> blank (kb_command_id rl)" "kb_sequence rl \<noteq> []"
    "collides (bm_keymaps (am_global (ky_behavior st))) rl"
  shows "fst (bind_key st rl) = st \<and> (\<exists>e. snd (bind_key st rl) = Inl e)"
proof -
  let ?m = "am_global (ky_behavior st)"
  have "manifest_ok ?m" using assms(1) by (simp add: active_manifest_ok_def)
  then have "\<not> manifest_ok (bind_key_replacement ?m rl)" using bind_key_replacement_ok assms(2-4) by blast
  then obtain e where "publish_replacement (ky_behavior st) (bind_key_replacement ?m rl) = (ky_behavior st, Inl e)"
    using publish_rejected by (metis prod.collapse)
  then show ?thesis by (simp add: bind_key_def publish_behavior_replacement_def)
qed

lemma bind_key_ok:
  assumes "active_manifest_ok (ky_behavior st) \<and> am_version (ky_behavior st) \<le> u64_max"
  shows "active_manifest_ok (ky_behavior (fst (bind_key st rl))) \<and> am_version (ky_behavior (fst (bind_key st rl))) \<le> u64_max"
proof -
  let ?r = "bind_key_replacement (am_global (ky_behavior st)) rl"
  have ok: "active_manifest_ok (fst (publish_replacement (ky_behavior st) ?r))"
    "am_version (fst (publish_replacement (ky_behavior st) ?r)) \<le> u64_max"
    using publish_replacement_ok assms by blast+
  obtain a r where p: "publish_replacement (ky_behavior st) ?r = (a, r)" by force
  show ?thesis
    using ok assms p by (cases r) (simp_all add: bind_key_def publish_behavior_replacement_def)
qed

lemma unbind_key_removes:
  assumes "active_manifest_ok (ky_behavior st)"
  shows "\<exists>m. snd (unbind_key st strokes context) = Inr m
    \<and> am_global (ky_behavior (fst (unbind_key st strokes context))) = m
    \<and> bm_keymaps m = without_binding context strokes (bm_keymaps (am_global (ky_behavior st)))"
proof -
  let ?m = "am_global (ky_behavior st)"
  let ?r = "?m\<lparr>bm_keymaps := without_binding context strokes (bm_keymaps ?m),
      bm_manifest_id := lit ''runtime.configuration''\<rparr>"
  have id: "\<not> blank (lit ''runtime.configuration'')" by (simp add: blank_def lit_def is_whitespace_def)
  have "manifest_ok ?m" using assms by (simp add: active_manifest_ok_def)
  moreover have "sequences_ok (bm_keymaps ?m) \<Longrightarrow> sequences_ok (bm_keymaps ?r)"
    by (simp add: sequences_ok_def set_without_binding) (simp add: without_binding_def distinct_map_filter)
  ultimately have "manifest_ok ?r" using id by (simp add: manifest_ok_def set_without_binding)
  note published = publish_global[OF assms this, simplified]
  show ?thesis by (simp add: unbind_key_def publish_behavior_replacement_def published Let_def)
qed

text \<open>Unbinding a table panics exactly when the table is empty.\<close>

lemma unbind_sequences_Some:
  "snd (unbind_sequences st scope (Some m) stroke_sequences) \<noteq> Inr None"
  by (induction st scope "Some m" stroke_sequences arbitrary: m rule: unbind_sequences.induct)
    (auto split: prod.splits sum.splits)

lemma parse_unbind_keys_length: "parse_unbind_keys i chords = Inr ss \<Longrightarrow> length ss = length chords"
  by (induction i chords arbitrary: ss rule: parse_unbind_keys.induct) (auto simp: bind_result_Inr split: sum.splits)

lemma op_unbind_keys_panics: "snd (op_unbind_keys st scope chords) = None \<longleftrightarrow> chords = []"
proof (cases "parse_unbind_keys 0 chords")
  case (Inl e)
  then show ?thesis by (cases chords) (simp_all add: op_unbind_keys_def)
next
  case (Inr ss)
  note len = parse_unbind_keys_length[OF Inr]
  show ?thesis
  proof (cases ss)
    case Nil
    then show ?thesis using Inr len by (simp add: op_unbind_keys_def)
  next
    case (Cons strokes rest)
    obtain st' r where u: "unbind_key st strokes scope = (st', r)" by force
    show ?thesis
    proof (cases r)
      case (Inl e)
      then show ?thesis using Inr len Cons u by (auto simp: op_unbind_keys_def)
    next
      case (Inr m)
      obtain st2 r2 where v: "unbind_sequences st' scope (Some m) rest = (st2, r2)" by force
      have "r2 \<noteq> Inr None" using unbind_sequences_Some[of st' scope m rest] v by simp
      then show ?thesis
        using \<open>parse_unbind_keys 0 chords = Inr ss\<close> Inr len Cons u v
        by (cases r2) (auto simp: op_unbind_keys_def split: option.splits)
    qed
  qed
qed

lemma without_binding_fresh:
  "\<forall>other\<in>set rules. \<not> (kb_context other = c \<and> kb_sequence other = s) \<Longrightarrow> without_binding c s rules = rules"
  by (auto simp: without_binding_def filter_id_conv)

text \<open>What the operations build from a request.\<close>

lemma build_rule_Inr:
  assumes "build_rule k command_id scope = Inr rl"
  shows "kb_command_id rl = command_id" "kb_context rl = scope" "\<not> blank command_id" "kb_sequence rl \<noteq> []"
    "parse_key_sequence k = Inr (kb_sequence rl)"
proof -
  obtain command strokes where parts: "validate_command_id command_id = Inr command" "parse_key_sequence k = Inr strokes"
    "rl = \<lparr>kb_command_id = command, kb_sequence = strokes, kb_context = scope,
       kb_routing_policy = command_routing_policy command_id\<rparr>"
    using assms unfolding build_rule_def bind_result_Inr by auto
  have "command = command_id" "\<not> blank command_id"
    using parts(1) unfolding validate_command_id_def by (simp_all split: if_splits)
  moreover have "strokes \<noteq> []"
    using parts(2) unfolding parse_key_sequence_def bind_result_Inr by (auto split: if_splits)
  ultimately show "kb_command_id rl = command_id" "kb_context rl = scope" "\<not> blank command_id" "kb_sequence rl \<noteq> []"
    "parse_key_sequence k = Inr (kb_sequence rl)"
    using parts(2,3) by simp_all
qed

text \<open>What is parsed is canonical, so what is bound can be typed.\<close>

lemma ascii_lowercase_idem [simp]: "ascii_lowercase (ascii_lowercase s) = ascii_lowercase s"
  by (simp add: ascii_lowercase_def)

lemma parse_key_name_canonical: "parse_key_name s = Inr k \<Longrightarrow> canonical_stroke \<lparr>ks_key = k, ks_modifiers = mods\<rparr>"
  unfolding parse_key_name_def Let_def canonical_stroke_def
  by (simp split: if_splits; (drule sym)?; auto simp: ascii_lowercase_def)

lemma parse_key_chord_canonical: "parse_key_chord s = Inr stroke \<Longrightarrow> canonical_stroke stroke"
  unfolding parse_key_chord_def Let_def
  by (auto simp: bind_result_Inr parse_key_name_canonical split: if_splits option.splits)

lemma collect_results_Inr:
  "collect_results rs = Inr xs \<Longrightarrow> x \<in> set xs \<Longrightarrow> Inr x \<in> set rs"
  by (induction rs arbitrary: xs) (auto simp: bind_result_Inr)

lemma parse_key_sequence_canonical: "parse_key_sequence s = Inr strokes \<Longrightarrow> list_all canonical_stroke strokes"
  unfolding parse_key_sequence_def
  by (fastforce simp: bind_result_Inr list_all_iff dest: collect_results_Inr parse_key_chord_canonical[OF sym] split: if_splits)

lemma bind_key_canonical:
  assumes "canonical_keymaps (am_global (ky_behavior st))" "list_all canonical_stroke (kb_sequence rl)"
    "active_manifest_ok (ky_behavior st)" "\<not> blank (kb_command_id rl)" "kb_sequence rl \<noteq> []"
    "snd (bind_key st rl) = Inr m"
  shows "canonical_keymaps m \<and> rl \<in> set (bm_keymaps m) \<and> am_global (ky_behavior (fst (bind_key st rl))) = m"
proof (cases "collides (bm_keymaps (am_global (ky_behavior st))) rl")
  case True
  then show ?thesis using bind_key_refused[OF assms(3,4,5)] assms(6) by auto
next
  case False
  then have "am_global (ky_behavior (fst (bind_key st rl))) = m"
    "bm_keymaps m = without_binding (kb_context rl) (kb_sequence rl) (bm_keymaps (am_global (ky_behavior st))) @ [rl]"
    using bind_key_accepted[OF assms(3,4,5)] assms(6) by auto
  then show ?thesis
    using assms(1,2) by (auto simp: canonical_keymaps_def list_all_iff set_without_binding)
qed

lemma op_bind_key_Inr:
  assumes "op_bind_key st k command_id scope = (st', Inr reply)"
  obtains rl m where "build_rule k command_id scope = Inr rl" "bind_key st rl = (st', Inr m)"
proof (cases "build_rule k command_id scope")
  case (Inl e)
  then show ?thesis using assms by (simp add: op_bind_key_def)
next
  case (Inr rl)
  then show ?thesis
    using assms that[of rl] by (cases "bind_key st rl"; cases "snd (bind_key st rl)") (auto simp: op_bind_key_def)
qed

end
