(* ===== verification/Behavior_Properties.thy ===== *)
theory Behavior_Properties imports Key_Chords_Facts begin

text \<open>
  The properties of the behavior manifests: what a server publishes is valid, stale edits are accepted only within
  the grace, bound chords can be typed and what is bound can be listed, and where the code departs from this.
\<close>

section \<open>Published manifests\<close>

text \<open>
  C19: whatever has been published, the manifest that governs a document, its own layer or the global one, passes
  the validation that the client makes before it installs it.
\<close>

theorem published_manifests_valid:
  assumes "published a"
  shows "validate_manifest (manifest_for a document_id) = Inr ()"
proof -
  have "active_manifest_ok a" using published_ok[OF assms] by simp
  then have "manifest_ok (manifest_for a document_id)"
    by (auto simp: active_manifest_ok_def manifest_for_def dest!: map_of_SomeD split: option.splits)
  then show ?thesis by (simp add: validate_manifest_Inr)
qed

lemma published_manifests_valid_witness:
  "\<exists>a. published a \<and> validate_manifest (manifest_for a 7) = Inr ()"
  using active_manifest_default_ok published_manifests_valid[OF Published_Default] Published_Default by blast

text \<open>
  C37: an edit is accepted by its behavior version when it carries the current one, and otherwise exactly within
  the grace: the window has not expired, the edit carries the version before the reload, the generation is the one
  after it and the client has not acknowledged that generation.
\<close>

theorem edit_version_accepted:
  "snd (validate_edit_version current v generation acknowledged now guard) = Inr decision \<longleftrightarrow>
     (if v = am_version current then decision = Current_Version
      else decision = Previous_Within_Grace
        \<and> (\<exists>g. guard = Some g \<and> within_grace v generation acknowledged now g))"
  by (rule validate_edit_version_Inr)

text \<open>Of the edits of one grace, at most 256 are counted as accepted, in whatever order checks and accepts come.\<close>

theorem grace_edits_bounded:
  "snd (fold grace_step ops (begin_grace m generation now, 0)) \<le> previous_behavior_grace_max_transactions"
  using grace_run_counted[OF begin_grace_counted] by (simp add: grace_counted_def)

section \<open>Keys\<close>

text \<open>
  Typing the strokes of a bound sequence, each within the timeout after the first, keeps the chord pending
  until the last stroke and then dispatches the rule. The manifest is valid and its strokes are as the parser
  writes them; a global sequence must not be shadowed by one of the editor.
\<close>

theorem bound_chord_reached:
  assumes "validate_manifest m = Inr ()" "canonical_keymaps m" "rl \<in> set (bm_keymaps m)" "unshadowed m rl"
    "Suc (length ts) = length (kb_sequence rl)"
    "\<forall>t\<in>set ts. t - t0 < key_chord_pending_timeout_ms * 1000000"
  shows "type_keys (Some m) None (zip (kb_sequence rl) (t0 # ts)) =
    (None, replicate (length ts) Chord_Consumed @ [Chord_Dispatched (dispatch_rule m rl)])"
  using type_bound_sequence[of m rl ts t0] assms by (simp add: validate_manifest_Inr)

definition open_control_center :: key_binding_rule where
  "open_control_center = global_server_first_sequence (lit ''controlCenter.open'')
     [ctrl_key (Character_Key (lit ''x'')), ctrl_key (Character_Key (lit ''p''))]"

lemma default_canonical: "canonical_keymaps (minimal_text_editing 1)"
  by (simp add: canonical_keymaps_def minimal_text_editing_def default_keymaps_def single_binding_def
      default_reload_configuration_def global_server_first_sequence_def global_client_ui_def ctrl_key_def
      ctrl_shift_key_def ctrl_alt_key_def ctrl_alt_shift_key_def key_stroke_new_def canonical_stroke_def
      ascii_lowercase_def lit_def upt_rec)

lemma default_valid: "validate_manifest (minimal_text_editing v) = Inr ()"
  using default_manifests_ok(1) by (simp add: validate_manifest_Inr)

lemma default_unshadowed: "unshadowed (minimal_text_editing 1) open_control_center"
  by (simp add: unshadowed_def minimal_text_editing_def open_control_center_def default_keymaps_def single_binding_def
      default_reload_configuration_def global_server_first_sequence_def global_client_ui_def key_stroke_new_def
      ctrl_key_def lit_def upt_rec)

lemma bound_chord_reached_witness:
  "type_keys (Some (minimal_text_editing 1)) None (zip (kb_sequence open_control_center) [5, 1000000005]) =
    (None, [Chord_Consumed, Chord_Dispatched (dispatch_rule (minimal_text_editing 1) open_control_center)])"
proof -
  have "open_control_center \<in> set (bm_keymaps (minimal_text_editing 1))"
    by (simp add: minimal_text_editing_def default_keymaps_def open_control_center_def)
  then show ?thesis
    using bound_chord_reached[of "minimal_text_editing 1" open_control_center "[1000000005]" 5] default_canonical
      default_valid default_unshadowed
    by (simp add: open_control_center_def global_server_first_sequence_def key_chord_pending_timeout_ms_def)
qed

text \<open>
  A key that does not go on with the pending chord, or comes after the timeout, is treated as if no chord had
  been pending: abandoning a chord loses no key.
\<close>

theorem abandoned_chord_is_fresh:
  assumes "drop_stale_chord now (Some p) = None
    \<or> route_key_sequence m (ch_strokes p) k = Mismatch"
  shows "route_chord (Some m) now (Some p) k =
    (if validate_manifest m = Inr () then route_chord (Some m) now None k else (Some p, Chord_Unhandled))"
proof (cases "validate_manifest m")
  case (Inl e)
  then show ?thesis by (simp add: route_chord_def client_behavior_new_def)
next
  case (Inr u)
  have fresh: "route_chord (Some m) now None k = route_fresh_key m now k"
    using Inr
    by (simp add: route_chord_def client_behavior_new_def drop_stale_chord_def pending_strokes_def route_fresh_key_def
        route_key_def Let_def split: chord_route_outcome.splits)
  show ?thesis
  proof (cases "drop_stale_chord now (Some p)")
    case None
    then show ?thesis
      using Inr by (simp add: route_chord_def client_behavior_new_def drop_stale_chord_def[of now None] Let_def)
  next
    case (Some q)
    then have "q = p" by (auto simp: drop_stale_chord_def split: if_splits)
    then show ?thesis
      using Some Inr assms fresh
      by (simp add: route_chord_def[of "Some m" now "Some p"] client_behavior_new_def pending_strokes_def Let_def)
  qed
qed

lemma abandoned_chord_is_fresh_witness:
  "route_chord (Some (minimal_text_editing 1)) 2000000000
      (Some \<lparr>ch_strokes = [ctrl_key (Character_Key (lit ''x''))], ch_started_at = 0\<rparr>) (key_stroke_new Enter_Key) =
   route_chord (Some (minimal_text_editing 1)) 2000000000 None (key_stroke_new Enter_Key)"
  using abandoned_chord_is_fresh[of 2000000000 "\<lparr>ch_strokes = [ctrl_key (Character_Key (lit ''x''))], ch_started_at = 0\<rparr>"
      "minimal_text_editing 1" "key_stroke_new Enter_Key"] default_valid
  by (simp add: drop_stale_chord_def key_chord_pending_timeout_ms_def)

text \<open>
  After any keys, what is pending begins a longer sequence of the manifest, so fewer strokes are held than the
  longest bound sequence has.
\<close>

theorem pending_chord_begins_binding:
  assumes "fst (type_keys (Some m) None ks) = Some p"
  shows "begins_bound_sequence m (ch_strokes p)"
  using type_keys_begins[OF _ assms] by simp

lemma pending_chord_begins_binding_witness:
  "\<exists>p. fst (type_keys (Some (minimal_text_editing 1)) None [(ctrl_key (Character_Key (lit ''x'')), 5)]) = Some p
     \<and> begins_bound_sequence (minimal_text_editing 1) (ch_strokes p)"
proof -
  have "open_control_center \<in> set (bm_keymaps (minimal_text_editing 1))"
    by (simp add: minimal_text_editing_def default_keymaps_def open_control_center_def)
  then have "route_key_sequence (minimal_text_editing 1) [] (ctrl_key (Character_Key (lit ''x''))) = Pending"
    using route_bound_sequence[of "minimal_text_editing 1" open_control_center 0] default_canonical default_manifests_ok(1)
      default_unshadowed
    by (simp add: open_control_center_def global_server_first_sequence_def)
  then obtain p where "fst (type_keys (Some (minimal_text_editing 1)) None [(ctrl_key (Character_Key (lit ''x'')), 5)]) = Some p"
    using default_valid[of 1]
    by (simp add: route_chord_def client_behavior_new_def drop_stale_chord_def pending_strokes_def Let_def)
  then show ?thesis using pending_chord_begins_binding by blast
qed

text \<open>
  The probe that gives a key to the manifest answers yes exactly when the router would match the key or wait,
  or when the key begins a binding of the completion menu, which the router never looks at.
\<close>

theorem manifest_claim_exact:
  "manifest_claims_chord m k \<longleftrightarrow>
     route_key_sequence m [] k \<noteq> Mismatch
     \<or> (\<exists>rl\<in>set (bm_keymaps m). kb_context rl = Completion_Menu \<and> kb_sequence rl \<noteq> []
          \<and> key_matches_binding (hd (kb_sequence rl)) k)"
proof -
  have first: "binds_next [] k s \<longleftrightarrow> key_matches_binding (hd s) k" if "s \<noteq> []" for s
    using that by (simp add: binds_next_def hd_conv_nth)
  have claims: "manifest_claims_chord m k \<longleftrightarrow>
      (\<exists>rl\<in>set (bm_keymaps m). kb_sequence rl \<noteq> [] \<and> key_matches_binding (hd (kb_sequence rl)) k)"
    unfolding manifest_claims_chord_def list_ex_iff by (metis hd_conv_nth)
  have routes: "route_key_sequence m [] k \<noteq> Mismatch \<longleftrightarrow>
      (\<exists>rl\<in>set (routed_rules m). kb_sequence rl \<noteq> [] \<and> key_matches_binding (hd (kb_sequence rl)) k)"
    unfolding route_Mismatch using first by (auto simp: length_greater_0_conv)
  show ?thesis unfolding claims routes routed_rules_def by auto
qed



section \<open>Bindings\<close>

text \<open>C23: strokes that have a name are printed as a text that parses to the same strokes.\<close>

theorem key_sequence_round_trip:
  assumes "list_all nameable strokes" "strokes \<noteq> []"
  shows "parse_key_sequence (key_sequence_string strokes) = Inr strokes"
  by (rule key_sequence_string_parses[OF assms])

lemma key_sequence_round_trip_witness:
  "parse_key_sequence (key_sequence_string [ctrl_key (Character_Key (lit ''x'')), ctrl_shift_key Arrow_Up_Key]) =
     Inr [ctrl_key (Character_Key (lit ''x'')), ctrl_shift_key Arrow_Up_Key]"
  by (rule key_sequence_round_trip) (simp_all add: nameable_def ctrl_key_def ctrl_shift_key_def lit_def is_whitespace_def)

text \<open>The command name of a selection query parses to the query.\<close>

theorem selection_query_round_trip: "query_from_command_id (query_command_id q) = Some q"
  by (rule query_command_id_parses)

text \<open>
  C38: binding a rule is refused, leaving everything as it was, exactly when a binding of its context is a strict
  prefix of its sequence or the reverse.
\<close>

theorem binding_refused_exactly:
  assumes "published (ky_behavior st)" "build_rule k command_id scope = Inr rl"
  shows "(\<exists>e. bind_key st rl = (st, Inl e)) \<longleftrightarrow>
    (\<exists>other\<in>set (bm_keymaps (am_global (ky_behavior st))). kb_context other = scope
       \<and> (strict_prefix (kb_sequence other) (kb_sequence rl) \<or> strict_prefix (kb_sequence rl) (kb_sequence other)))"
proof -
  have ok: "active_manifest_ok (ky_behavior st)" using published_ok[OF assms(1)] by simp
  note rl = build_rule_Inr[OF assms(2)]
  have "(\<exists>e. bind_key st rl = (st, Inl e)) \<longleftrightarrow> collides (bm_keymaps (am_global (ky_behavior st))) rl"
    using bind_key_accepted[OF ok, of rl] bind_key_refused[OF ok, of rl] rl(1,3,4)
    by (metis Inl_Inr_False prod.collapse snd_conv)
  then show ?thesis using rl(2) by (simp add: collides_def list_ex_iff)
qed

text \<open>A configuration that starts from the default manifest, and requests of it.\<close>

definition default_configuration :: "active_manifest \<Rightarrow> keybinding_state" where
  "default_configuration a =
     \<lparr>ky_behavior = a, ky_last_published = None, ky_configured = [], ky_configuration_evaluation = True\<rparr>"

lemma default_configuration_exists:
  obtains a where "published (ky_behavior (default_configuration a))"
    "am_global (ky_behavior (default_configuration a)) = minimal_text_editing 1"
proof -
  obtain a where a: "active_manifest_default = Some a" using active_manifest_default_ok by blast
  moreover have "am_global a = minimal_text_editing 1"
    using a default_valid[of 1] by (auto simp: active_manifest_default_def active_manifest_new_def)
  ultimately show ?thesis using that[of a] Published_Default by (simp add: default_configuration_def)
qed

definition undo_rule :: "key_stroke list \<Rightarrow> key_binding_rule" where
  "undo_rule strokes = \<lparr>kb_command_id = lit ''editor.clientUndo'', kb_sequence = strokes,
     kb_context = Editor_Text_Focus, kb_routing_policy = Client_Ui_Command\<rparr>"

lemma undo_rule_simps:
  "kb_sequence (undo_rule strokes) = strokes" "kb_context (undo_rule strokes) = Editor_Text_Focus"
  "\<not> blank (kb_command_id (undo_rule strokes))"
  by (simp_all add: undo_rule_def blank_def lit_def is_whitespace_def)

lemma undo_validates: "validate_command_id (lit ''editor.clientUndo'') = Inr (lit ''editor.clientUndo'')"
proof -
  have "''editor.clientUndo'' \<in> set bindable_command_names" by (simp add: bindable_command_names_def)
  then have "is_runtime_bindable_command (lit ''editor.clientUndo'')"
    by (simp add: is_runtime_bindable_command_def)
  then show ?thesis
    by (simp add: validate_command_id_def blank_def str_contains_def str_starts_with_def lit_def is_whitespace_def upt_rec)
qed

lemma undo_policy: "command_routing_policy (lit ''editor.clientUndo'') = Client_Ui_Command"
proof -
  have "''editor.clientUndo'' \<in> set client_ui_command_names" by (simp add: client_ui_command_names_def)
  then have "lit ''editor.clientUndo'' \<in> lit ` set client_ui_command_names" by simp
  moreover have "query_from_command_id (lit ''editor.clientUndo'') = None"
    by (simp add: query_from_command_id_def strip_prefix_def str_starts_with_def smart_select_command_prefix_def
        textobject_command_prefix_def lit_def)
  moreover have "tab_family_variant (lit ''editor.clientUndo'') = None"
    by (simp add: tab_family_variant_def rsplit_once_def lit_def)
  ultimately show ?thesis
    by (simp add: command_routing_policy_def language_intelligence_feature_for_command_def lit_eq_iff)
qed

lemma build_undo_rule:
  "parse_key_sequence k = Inr strokes \<Longrightarrow>
     build_rule k (lit ''editor.clientUndo'') Editor_Text_Focus = Inr (undo_rule strokes)"
  by (simp add: build_rule_def undo_validates undo_policy undo_rule_def)

abbreviation ctrl_k :: key_stroke where "ctrl_k \<equiv> ctrl_key (Character_Key [107])"

abbreviation ctrl_j :: key_stroke where "ctrl_j \<equiv> ctrl_key (Character_Key [106])"

lemma parse_ctrl_k:
  "parse_key_sequence (lit ''Ctrl+K'') = Inr [ctrl_k]"
  "parse_key_sequence (lit ''Ctrl+K Ctrl+J'') = Inr [ctrl_k, ctrl_j]"
  by (simp_all add: parse_key_sequence_def split_ascii_whitespace_def is_ascii_whitespace_def parse_key_chord_def
      trim_def lit_def is_whitespace_def parse_key_name_def ascii_lowercase_def Let_def no_modifiers_def ctrl_key_def)

lemma default_collisions:
  "collides (bm_keymaps (minimal_text_editing 1)) (undo_rule (ctrl_k # strokes)) \<longleftrightarrow> False"
  by (simp add: collides_def minimal_text_editing_def undo_rule_def default_keymaps_def single_binding_def
      default_reload_configuration_def global_server_first_sequence_def global_client_ui_def key_stroke_new_def
      ctrl_key_def upt_rec strict_prefix_def)

lemma default_binds_undo:
  assumes "published (ky_behavior (default_configuration a))"
    "am_global (ky_behavior (default_configuration a)) = minimal_text_editing 1"
  shows "\<exists>st m. bind_key (default_configuration a) (undo_rule (ctrl_k # strokes)) = (st, Inr m)
    \<and> am_global (ky_behavior st) = m \<and> undo_rule (ctrl_k # strokes) \<in> set (bm_keymaps m)"
proof -
  have "active_manifest_ok (ky_behavior (default_configuration a))" using published_ok[OF assms(1)] by simp
  then show ?thesis
    using bind_key_accepted[of "default_configuration a" "undo_rule (ctrl_k # strokes)"] default_collisions assms(2)
    by (cases "bind_key (default_configuration a) (undo_rule (ctrl_k # strokes))") (auto simp: undo_rule_simps)
qed

lemma binding_refused_exactly_witness:
  "\<exists>st. published (ky_behavior st) \<and> \<not> (\<exists>e. bind_key st (undo_rule [ctrl_k]) = (st, Inl e))"
proof -
  obtain a where a: "published (ky_behavior (default_configuration a))"
    "am_global (ky_behavior (default_configuration a)) = minimal_text_editing 1"
    by (rule default_configuration_exists)
  then show ?thesis
    using binding_refused_exactly[OF a(1) build_undo_rule[OF parse_ctrl_k(1)]] default_collisions[of "[]"]
    by (auto simp: collides_def list_ex_iff undo_rule_simps)
qed


text \<open>
  Unbinding a chord that was not bound before its binding gives the bindings from before.
\<close>

theorem bind_then_unbind:
  assumes "published (ky_behavior st)" "build_rule k command_id scope = Inr rl" "bind_key st rl = (st', Inr m)"
    "\<forall>other\<in>set (bm_keymaps (am_global (ky_behavior st))). \<not> (kb_context other = scope \<and> kb_sequence other = kb_sequence rl)"
  shows "bm_keymaps (am_global (ky_behavior (fst (unbind_key st' (kb_sequence rl) scope)))) =
    bm_keymaps (am_global (ky_behavior st))"
proof -
  have ok: "active_manifest_ok (ky_behavior st) \<and> am_version (ky_behavior st) \<le> u64_max"
    using published_ok[OF assms(1)] .
  note rl = build_rule_Inr[OF assms(2)]
  have "\<not> collides (bm_keymaps (am_global (ky_behavior st))) rl"
    using bind_key_refused[OF conjunct1[OF ok], of rl] rl(1,3,4) assms(3) by auto
  then have "bm_keymaps (am_global (ky_behavior st')) =
      without_binding scope (kb_sequence rl) (bm_keymaps (am_global (ky_behavior st))) @ [rl]"
    using bind_key_accepted[OF conjunct1[OF ok], of rl] rl(1-4) assms(3) by auto
  moreover have "active_manifest_ok (ky_behavior st')" using bind_key_ok[OF ok, of rl] assms(3) by simp
  ultimately show ?thesis
    using unbind_key_removes[of st' "kb_sequence rl" scope] without_binding_fresh[OF assms(4)] rl(2)
    by (simp add: without_binding_def)
qed


lemma bind_then_unbind_witness:
  "\<exists>st st' m. bind_key st (undo_rule [ctrl_k]) = (st', Inr m)
    \<and> bm_keymaps (am_global (ky_behavior (fst (unbind_key st' [ctrl_k] Editor_Text_Focus)))) =
        bm_keymaps (am_global (ky_behavior st))"
proof -
  obtain a where a: "published (ky_behavior (default_configuration a))"
    "am_global (ky_behavior (default_configuration a)) = minimal_text_editing 1"
    by (rule default_configuration_exists)
  obtain st m where m: "bind_key (default_configuration a) (undo_rule [ctrl_k]) = (st, Inr m)"
    using default_binds_undo[OF a] by blast
  have "\<forall>other\<in>set (bm_keymaps (am_global (ky_behavior (default_configuration a)))).
      \<not> (kb_context other = Editor_Text_Focus \<and> kb_sequence other = kb_sequence (undo_rule [ctrl_k]))"
    using a(2)
    by (simp add: minimal_text_editing_def undo_rule_def default_keymaps_def single_binding_def
        default_reload_configuration_def global_server_first_sequence_def global_client_ui_def key_stroke_new_def
        ctrl_key_def upt_rec)
  then have "bm_keymaps (am_global (ky_behavior (fst (unbind_key st (kb_sequence (undo_rule [ctrl_k])) Editor_Text_Focus)))) =
      bm_keymaps (am_global (ky_behavior (default_configuration a)))"
    using bind_then_unbind[OF a(1) build_undo_rule[OF parse_ctrl_k(1)] m] by blast
  then show ?thesis using m by (auto simp: undo_rule_def)
qed

section \<open>Where the code departs\<close>

text \<open>
  The strokes that are pending are compared exactly, although the first of them was matched whatever the case
  of its letter. Under the default manifest a chord whose first stroke arrives as an upper case letter is kept
  pending, and its second stroke then runs nothing.
\<close>

theorem letter_case_breaks_chord:
  "type_keys (Some (minimal_text_editing 1)) None
      [(ctrl_key (Character_Key (lit ''X'')), 0), (ctrl_key (Character_Key (lit ''p'')), 100)] =
   (None, [Chord_Consumed, Chord_Dispatched Unhandled])"
proof -
  let ?m = "minimal_text_editing 1" let ?x = "ctrl_key (Character_Key (lit ''X''))" let ?p = "ctrl_key (Character_Key (lit ''p''))"
  note keymaps = minimal_text_editing_def default_keymaps_def single_binding_def default_reload_configuration_def
    global_server_first_sequence_def global_client_ui_def key_stroke_new_def ctrl_key_def ctrl_shift_key_def
    ctrl_alt_key_def ctrl_alt_shift_key_def no_modifiers_def upt_rec
  have first: "route_key_sequence ?m [] ?x = Pending"
    by (simp add: route_key_sequence_def keymaps binds_next_def key_matches_binding_def ascii_lowercase_def lit_def)
  have second: "route_key_sequence ?m [?x] ?p = Mismatch"
    by (simp add: route_key_sequence_def keymaps binds_next_def lit_def)
  have fresh: "route_key_sequence ?m [] ?p = Mismatch"
    by (simp add: route_key_sequence_def keymaps binds_next_def key_matches_binding_def ascii_lowercase_def lit_def)
  have unbound: "route_unbound_key ?m ?p = Unhandled"
    by (simp add: route_unbound_key_def ctrl_key_def Let_def)
  show ?thesis
    using first second fresh unbound default_valid[of 1]
    by (simp add: route_chord_def client_behavior_new_def drop_stale_chord_def pending_strokes_def
        key_chord_pending_timeout_ms_def route_fresh_key_def route_key_def Let_def)
qed

text \<open>
  C38: a table of bindings is not applied as a whole: the second entry below is refused, because the first one is
  a prefix of it, and the first one has been published.
\<close>

theorem bind_table_not_atomic:
  "\<exists>st st' e. published (ky_behavior st)
    \<and> op_bind_keys st Editor_Text_Focus
        [(lit ''Ctrl+K'', lit ''editor.clientUndo''), (lit ''Ctrl+K Ctrl+J'', lit ''editor.clientUndo'')] = (st', Inl e)
    \<and> undo_rule [ctrl_k] \<in> set (bm_keymaps (am_global (ky_behavior st')))
    \<and> undo_rule [ctrl_k] \<notin> set (bm_keymaps (am_global (ky_behavior st)))"
proof -
  obtain a where a: "published (ky_behavior (default_configuration a))"
    "am_global (ky_behavior (default_configuration a)) = minimal_text_editing 1"
    by (rule default_configuration_exists)
  obtain st m where m: "bind_key (default_configuration a) (undo_rule [ctrl_k]) = (st, Inr m)"
    "am_global (ky_behavior st) = m" "undo_rule [ctrl_k] \<in> set (bm_keymaps m)"
    using default_binds_undo[OF a] by blast
  have "active_manifest_ok (ky_behavior (default_configuration a)) \<and> am_version (ky_behavior (default_configuration a)) \<le> u64_max"
    using published_ok[OF a(1)] .
  then have ok: "active_manifest_ok (ky_behavior st)"
    using bind_key_ok[of "default_configuration a" "undo_rule [ctrl_k]"] m(1) by simp
  have "collides (bm_keymaps (am_global (ky_behavior st))) (undo_rule [ctrl_k, ctrl_j])"
    using m(2,3) unfolding collides_def list_ex_iff
    by (intro bexI[of _ "undo_rule [ctrl_k]"]) (auto simp: undo_rule_def strict_prefix_def)
  then obtain e where "bind_key st (undo_rule [ctrl_k, ctrl_j]) = (st, Inl e)"
    using bind_key_refused[OF ok, of "undo_rule [ctrl_k, ctrl_j]"] undo_rule_simps
    by (cases "bind_key st (undo_rule [ctrl_k, ctrl_j])") auto
  then have "op_bind_keys (default_configuration a) Editor_Text_Focus
      [(lit ''Ctrl+K'', lit ''editor.clientUndo''), (lit ''Ctrl+K Ctrl+J'', lit ''editor.clientUndo'')] =
      (st, Inl (Invalid_Manifest e))"
    using build_undo_rule[OF parse_ctrl_k(1)] build_undo_rule[OF parse_ctrl_k(2)] m(1)
    by (simp add: op_bind_keys_def)
  moreover have "undo_rule [ctrl_k] \<notin> set (bm_keymaps (minimal_text_editing 1))"
    by (auto simp: minimal_text_editing_def undo_rule_def default_keymaps_def single_binding_def
        default_reload_configuration_def global_server_first_sequence_def global_client_ui_def upt_rec)
  ultimately show ?thesis using a m(2,3) by metis
qed

text \<open>
  C39: a table of chords to unbind makes the operation panic exactly when it is empty.
\<close>

theorem empty_unbind_table_panics: "snd (op_unbind_keys st scope chords) = None \<longleftrightarrow> chords = []"
  by (rule op_unbind_keys_panics)

text \<open>
  A listing does not name the space key the way it was typed: the chord that a configuration writes with the
  name of the key is listed as a text that no longer parses.
\<close>

theorem space_chord_not_reparsed:
  "bind_result (parse_key_sequence (lit ''Ctrl+Space'')) (\<lambda>strokes. parse_key_sequence (key_sequence_string strokes)) =
     Inl (Unsupported_Key [])"
  by (simp add: parse_key_sequence_def split_ascii_whitespace_def is_ascii_whitespace_def parse_key_chord_def
      trim_def lit_def is_whitespace_def parse_key_name_def ascii_lowercase_def Let_def no_modifiers_def
      key_sequence_string_def key_chord_string_def ascii_uppercase_def)

end
