(* ===== verification/Mode_Registry.thy ===== *)
theory Mode_Registry imports Key_Chords begin

text \<open>
  The modes of documents (\<open>packages/modes.rs\<close>): declarations with the patterns that select them, the
  classification of a document, activation of a major mode and of minor modes on top of it, and the composition of
  the behavior manifest of a document.

  Maps keyed by a mode or a document are association lists, whose order stands for the unspecified one of
  \<open>HashMap\<close>. Of a diagnostic the rule is kept; the texts and the names it repeats are left out, as are the summaries
  for display. Of a package record the parts that are read here make the record \<open>mode_package\<close>.
\<close>

section \<open>Declarations\<close>

record mode_declaration =
  md_package_name :: ustr
  md_package_version :: ustr
  md_api_prefix :: ustr
  md_mode_id :: ustr
  md_display_name :: ustr
  md_document_font_role :: document_font_role
  md_extensions :: "ustr list"
  md_mime_types :: "ustr list"
  md_file_names :: "ustr list"
  md_file_name_patterns :: "ustr list"
  md_shebang_patterns :: "ustr list"
  md_content_probes :: "ustr list"

record classification_input =
  ci_document_id :: nat
  ci_path :: "ustr option"
  ci_mime_type :: "ustr option"
  ci_shebang :: "ustr option"
  ci_leading_content :: "ustr option"

definition max_leading_content_bytes :: nat where
  "max_leading_content_bytes = 512"

datatype mode_pattern_kind =
    Fallback_Kind | Content_Probe | Shebang_Kind | Mime_Type | Extension_Kind | File_Name_Pattern | File_Name

text \<open>The derived order: that of the constructors.\<close>

fun kind_rank :: "mode_pattern_kind \<Rightarrow> nat" where
  "kind_rank Fallback_Kind = 0"
| "kind_rank Content_Probe = 1"
| "kind_rank Shebang_Kind = 2"
| "kind_rank Mime_Type = 3"
| "kind_rank Extension_Kind = 4"
| "kind_rank File_Name_Pattern = 5"
| "kind_rank File_Name = 6"

lemma kind_rank_inj [simp]: "kind_rank a = kind_rank b \<longleftrightarrow> a = b"
  by (cases a; cases b) simp_all

record mode_classification =
  mc_document_id :: nat
  mc_package_name :: ustr
  mc_package_version :: ustr
  mc_api_prefix :: ustr
  mc_mode_id :: ustr
  mc_matched_by :: mode_pattern_kind

record major_mode_activation =
  mj_document_id :: nat
  mj_package_name :: ustr
  mj_package_version :: ustr
  mj_api_prefix :: ustr
  mj_mode_id :: ustr
  mj_behavior_version :: nat
  mj_document_font_role :: document_font_role
  mj_matched_by :: mode_pattern_kind

datatype mode_validation_rule =
    Missing_Mode_Permission | Invalid_Mode_Prefix | Invalid_Mode_Id | Undeclared_Mode | Duplicate_Mode_Id
  | Malformed_Pattern | No_Classification_Match | Ambiguous_Classification

record minor_mode_declaration =
  mn_package_name :: ustr
  mn_package_version :: ustr
  mn_api_prefix :: ustr
  mn_mode_id :: ustr
  mn_display_name :: ustr
  mn_compatible_major_modes :: "ustr list"

record minor_mode_activation =
  ma_document_id :: nat
  ma_package_name :: ustr
  ma_package_version :: ustr
  ma_api_prefix :: ustr
  ma_mode_id :: ustr

record manifest_selection =
  sl_manifest :: behavior_manifest
  sl_major_mode :: major_mode_activation
  sl_minor_modes :: "minor_mode_activation list"

record registered_mode =
  rm_declaration :: mode_declaration
  rm_is_builtin :: bool

record mode_registry =
  mr_modes :: "(ustr \<times> registered_mode) list"
  mr_minor_modes :: "(ustr \<times> minor_mode_declaration) list"
  mr_active_major_modes :: "(nat \<times> major_mode_activation) list"
  mr_active_minor_modes :: "(nat \<times> minor_mode_activation list) list"
  mr_selected_manifests :: "(nat \<times> manifest_selection) list"

section \<open>Built-in modes\<close>

abbreviation core_api_prefix :: ustr where
  "core_api_prefix \<equiv> lit ''core''"

abbreviation core_text_mode_id :: ustr where
  "core_text_mode_id \<equiv> lit ''core.text''"

abbreviation core_code_mode_id :: ustr where
  "core_code_mode_id \<equiv> lit ''core.code''"

text \<open>The version is that of the build.\<close>

definition core_text_mode :: "ustr \<Rightarrow> mode_declaration" where
  "core_text_mode version =
     \<lparr>md_package_name = lit ''clay'', md_package_version = version, md_api_prefix = core_api_prefix,
      md_mode_id = core_text_mode_id, md_display_name = lit ''Plain Text'',
      md_document_font_role = Proportional_Role, md_extensions = [], md_mime_types = [], md_file_names = [],
      md_file_name_patterns = [], md_shebang_patterns = [], md_content_probes = []\<rparr>"

definition core_code_extensions :: "string list" where
  "core_code_extensions =
     [''rs'', ''py'', ''js'', ''ts'', ''jsx'', ''tsx'', ''c'', ''h'', ''cpp'', ''hpp'', ''cc'', ''cxx'',
      ''java'', ''go'', ''rb'', ''php'', ''sh'', ''bash'', ''zsh'', ''fish'', ''lua'', ''swift'', ''kt'',
      ''dart'', ''r'', ''pl'', ''scala'', ''clj'', ''sql'', ''css'', ''scss'', ''less'', ''xml'', ''html'',
      ''toml'', ''yaml'', ''yml'', ''json'', ''ini'', ''conf'', ''vim'', ''el'', ''ex'', ''exs'', ''zig'',
      ''nim'', ''cs'', ''fs'']"

definition core_code_mode :: "ustr \<Rightarrow> mode_declaration" where
  "core_code_mode version =
     \<lparr>md_package_name = lit ''clay'', md_package_version = version, md_api_prefix = core_api_prefix,
      md_mode_id = core_code_mode_id, md_display_name = lit ''Code'', md_document_font_role = Monospace_Role,
      md_extensions = map lit core_code_extensions,
      md_mime_types = [], md_file_names = [], md_file_name_patterns = [], md_shebang_patterns = [lit ''*''],
      md_content_probes = []\<rparr>"

section \<open>Patterns\<close>

definition is_ascii_alphanumeric :: "uchar \<Rightarrow> bool" where
  "is_ascii_alphanumeric c \<longleftrightarrow> 48 \<le> c \<and> c \<le> 57 \<or> 65 \<le> c \<and> c \<le> 90 \<or> 97 \<le> c \<and> c \<le> 122"

definition valid_extension :: "ustr \<Rightarrow> bool" where
  "valid_extension v \<longleftrightarrow> v \<noteq> [] \<and> hd v \<noteq> 46 \<and> list_all (\<lambda>c. is_ascii_alphanumeric c \<or> c = 45 \<or> c = 95) v"

definition names_raw_ops :: "ustr \<Rightarrow> bool" where
  "names_raw_ops v \<longleftrightarrow> str_contains v (lit ''Deno.core.ops'')"

definition valid_mime_type :: "ustr \<Rightarrow> bool" where
  "valid_mime_type v \<longleftrightarrow>
     (case split_once 47 v of
        None \<Rightarrow> False
      | Some (left, right) \<Rightarrow> left \<noteq> [] \<and> right \<noteq> [] \<and> \<not> list_ex is_whitespace v \<and> \<not> names_raw_ops v)"

definition valid_file_name :: "ustr \<Rightarrow> bool" where
  "valid_file_name v \<longleftrightarrow> \<not> blank v \<and> 47 \<notin> set v \<and> 92 \<notin> set v \<and> \<not> names_raw_ops v"

definition count_stars :: "ustr \<Rightarrow> nat" where
  "count_stars v = length (filter (\<lambda>c. c = 42) v)"

definition valid_file_name_pattern :: "ustr \<Rightarrow> bool" where
  "valid_file_name_pattern v \<longleftrightarrow>
     valid_file_name v \<and> count_stars v = 1 \<and> v \<noteq> lit ''*'' \<and> \<not> str_contains v (lit ''**'')"

definition valid_shebang_pattern :: "ustr \<Rightarrow> bool" where
  "valid_shebang_pattern v \<longleftrightarrow>
     v \<noteq> [] \<and> count_stars v \<le> 1 \<and> \<not> str_contains v (lit ''**'')
     \<and> list_all (\<lambda>c. is_ascii_alphanumeric c \<or> c \<in> {95, 45, 46, 43, 47, 42}) v \<and> \<not> names_raw_ops v"

definition valid_content_probe :: "ustr \<Rightarrow> bool" where
  "valid_content_probe v \<longleftrightarrow>
     v \<noteq> [] \<and> byte_len v \<le> max_leading_content_bytes \<and> 42 \<notin> set v \<and> 47 \<notin> set v \<and> 92 \<notin> set v
     \<and> \<not> list_ex is_whitespace v \<and> \<not> names_raw_ops v"

text \<open>A loop over one kind of pattern; the set of the code holds the kind with the pattern.\<close>

fun validate_pattern_list :: "(ustr \<Rightarrow> bool) \<Rightarrow> ustr set \<Rightarrow> ustr list \<Rightarrow> mode_validation_rule + unit" where
  "validate_pattern_list valid seen [] = Inr ()"
| "validate_pattern_list valid seen (p # ps) =
    (if p \<in> seen \<or> \<not> valid p then Inl Malformed_Pattern
     else validate_pattern_list valid (insert p seen) ps)"

definition no_patterns :: "mode_declaration \<Rightarrow> bool" where
  "no_patterns d \<longleftrightarrow> md_extensions d = [] \<and> md_mime_types d = [] \<and> md_file_names d = []
     \<and> md_file_name_patterns d = [] \<and> md_shebang_patterns d = [] \<and> md_content_probes d = []"

definition validate_patterns :: "mode_declaration \<Rightarrow> mode_validation_rule + unit" where
  "validate_patterns d =
    (if blank (md_display_name d) then Inl Malformed_Pattern
     else if no_patterns d then Inl Malformed_Pattern
     else
       bind_result (validate_pattern_list valid_extension {} (md_extensions d)) (\<lambda>_.
       bind_result (validate_pattern_list valid_mime_type {} (md_mime_types d)) (\<lambda>_.
       bind_result (validate_pattern_list valid_file_name {} (md_file_names d)) (\<lambda>_.
       bind_result (validate_pattern_list valid_file_name_pattern {} (md_file_name_patterns d)) (\<lambda>_.
       bind_result (validate_pattern_list valid_shebang_pattern {} (md_shebang_patterns d)) (\<lambda>_.
       validate_pattern_list valid_content_probe {} (md_content_probes d)))))))"

definition wildcard_match :: "ustr \<Rightarrow> ustr \<Rightarrow> bool" where
  "wildcard_match pattern v \<longleftrightarrow>
     (case split_once 42 pattern of
        None \<Rightarrow> False
      | Some (before, after) \<Rightarrow>
          str_starts_with v before \<and> str_ends_with v after \<and> byte_len v \<ge> byte_len before + byte_len after)"

definition eq_ignore_ascii_case :: "ustr \<Rightarrow> ustr \<Rightarrow> bool" where
  "eq_ignore_ascii_case a b \<longleftrightarrow> ascii_lowercase a = ascii_lowercase b"

text \<open>
  \<open>Path::file_name\<close> and \<open>Path::extension\<close>: the last component, if it is a name, and what follows its last dot, if
  that is not its first character.
\<close>

definition file_name_from_path :: "ustr \<Rightarrow> ustr option" where
  "file_name_from_path path =
    (let components = filter (\<lambda>part. part \<noteq> [] \<and> part \<noteq> lit ''.'') (split_at_chars (\<lambda>c. c = 47) path) in
     if components = [] \<or> last components = lit ''..'' then None else Some (last components))"

definition extension_from_path :: "ustr \<Rightarrow> ustr option" where
  "extension_from_path path =
    (case file_name_from_path path of
       None \<Rightarrow> None
     | Some name \<Rightarrow>
         (case rsplit_once 46 name of
            None \<Rightarrow> None
          | Some (before, after) \<Rightarrow> if before = [] then None else Some after))"

definition split_whitespace :: "ustr \<Rightarrow> ustr list" where
  "split_whitespace s = filter (\<lambda>part. part \<noteq> []) (split_at_chars is_whitespace s)"

definition shebang_interpreter :: "ustr \<Rightarrow> ustr option" where
  "shebang_interpreter line =
    (case strip_prefix (lit ''#!'') line of
       None \<Rightarrow> None
     | Some rest \<Rightarrow>
         (case split_whitespace (dropWhile is_whitespace rest) of
            [] \<Rightarrow> None
          | interpreter # tokens \<Rightarrow>
              let program = (if str_ends_with interpreter (lit ''/env'') \<or> interpreter = lit ''env''
                    then (case tokens of [] \<Rightarrow> interpreter | t # _ \<Rightarrow> t) else interpreter);
                  name = last (split_at_chars (\<lambda>c. c = 47 \<or> c = 92) program) in
              if name = [] then None else Some name))"

definition shebang_matches :: "mode_declaration \<Rightarrow> ustr \<Rightarrow> bool" where
  "shebang_matches d shebang \<longleftrightarrow>
     (case shebang_interpreter shebang of
        None \<Rightarrow> False
      | Some interpreter \<Rightarrow>
          list_ex (\<lambda>pattern. if 42 \<in> set pattern then wildcard_match pattern interpreter
                             else eq_ignore_ascii_case pattern interpreter) (md_shebang_patterns d))"

definition matches_opt :: "('a \<Rightarrow> bool) \<Rightarrow> 'a option \<Rightarrow> bool" where
  "matches_opt p x \<longleftrightarrow> (case x of None \<Rightarrow> False | Some y \<Rightarrow> p y)"

definition best_match ::
  "mode_declaration \<Rightarrow> ustr option \<Rightarrow> ustr option \<Rightarrow> ustr option \<Rightarrow> ustr option \<Rightarrow> ustr option
    \<Rightarrow> mode_pattern_kind option" where
  "best_match d mime_type extension file_name shebang leading_content =
    (let best = None;
         best = (if matches_opt (\<lambda>s. list_ex (str_starts_with s) (md_content_probes d)) leading_content
                 then Some Content_Probe else best);
         best = (if matches_opt (shebang_matches d) shebang then Some Shebang_Kind else best);
         best = (if matches_opt (\<lambda>s. list_ex (\<lambda>c. eq_ignore_ascii_case c s) (md_mime_types d)) mime_type
                 then Some Mime_Type else best);
         best = (if matches_opt (\<lambda>s. list_ex (\<lambda>c. eq_ignore_ascii_case c s) (md_extensions d)) extension
                 then Some Extension_Kind else best);
         best = (if matches_opt (\<lambda>s. list_ex (\<lambda>p. wildcard_match p s) (md_file_name_patterns d)) file_name
                 then Some File_Name_Pattern else best);
         best = (if matches_opt (\<lambda>s. list_ex (\<lambda>c. eq_ignore_ascii_case c s) (md_file_names d)) file_name
                 then Some File_Name else best) in
     best)"

definition mode_classification_of :: "mode_declaration \<Rightarrow> nat \<Rightarrow> mode_pattern_kind \<Rightarrow> mode_classification" where
  "mode_classification_of d document_id matched_by =
     \<lparr>mc_document_id = document_id, mc_package_name = md_package_name d, mc_package_version = md_package_version d,
      mc_api_prefix = md_api_prefix d, mc_mode_id = md_mode_id d, mc_matched_by = matched_by\<rparr>"

lemma mode_classification_of_simps [simp]:
  "mc_matched_by (mode_classification_of d document_id matched_by) = matched_by"
  "mc_document_id (mode_classification_of d document_id matched_by) = document_id"
  "mc_mode_id (mode_classification_of d document_id matched_by) = md_mode_id d"
  by (simp_all add: mode_classification_of_def)

end
