(* ===== verification/Mode_Activation.thy ===== *)
theory Mode_Activation imports Mode_Registry begin

text \<open>
  The operations of the registry of modes (\<open>packages/modes.rs\<close>): registration, classification, activation, and the
  manifest of a document, composed of its major mode and its minor modes.
\<close>

section \<open>Registration\<close>

definition is_package_owned_id :: "ustr \<Rightarrow> ustr \<Rightarrow> bool" where
  "is_package_owned_id v api_prefix \<longleftrightarrow>
     v = api_prefix
     \<or> (case strip_prefix api_prefix v of None \<Rightarrow> False | Some rest \<Rightarrow> str_starts_with rest (lit ''.''))"

definition is_ascii_lowercase :: "uchar \<Rightarrow> bool" where
  "is_ascii_lowercase c \<longleftrightarrow> 97 \<le> c \<and> c \<le> 122"

definition is_valid_api_prefix :: "ustr \<Rightarrow> bool" where
  "is_valid_api_prefix v \<longleftrightarrow>
    (case v of
       [] \<Rightarrow> False
     | first # rest \<Rightarrow>
         if byte_len v < 2 \<or> byte_len v > 32 \<or> \<not> is_ascii_lowercase first then False
         else list_all (\<lambda>c. is_ascii_lowercase c \<or> 48 \<le> c \<and> c \<le> 57 \<or> c = 45) rest)"

definition register_builtin_mode :: "mode_registry \<Rightarrow> mode_declaration \<Rightarrow> mode_registry \<times> (mode_validation_rule + unit)" where
  "register_builtin_mode r d =
    (if \<not> str_starts_with (md_mode_id d) (lit ''core.'') then (r, Inl Invalid_Mode_Id)
     else if md_api_prefix d \<noteq> core_api_prefix then (r, Inl Invalid_Mode_Prefix)
     else if map_of (mr_modes r) (md_mode_id d) \<noteq> None then (r, Inl Duplicate_Mode_Id)
     else if blank (md_display_name d) then (r, Inl Malformed_Pattern)
     else case (if no_patterns d then Inr () else validate_patterns d) of
       Inl e \<Rightarrow> (r, Inl e)
     | Inr _ \<Rightarrow>
         (r\<lparr>mr_modes := AList.update (md_mode_id d) \<lparr>rm_declaration = d, rm_is_builtin = True\<rparr> (mr_modes r)\<rparr>,
          Inr ()))"

definition empty_mode_registry :: mode_registry where
  "empty_mode_registry =
     \<lparr>mr_modes = [], mr_minor_modes = [], mr_active_major_modes = [], mr_active_minor_modes = [],
      mr_selected_manifests = []\<rparr>"

text \<open>\<open>new\<close>; \<open>None\<close> is the panic of one of its \<open>expect\<close>s.\<close>

definition mode_registry_new :: "ustr \<Rightarrow> mode_registry option" where
  "mode_registry_new version =
    (case register_builtin_mode empty_mode_registry (core_text_mode version) of
       (r, Inl _) \<Rightarrow> None
     | (r, Inr _) \<Rightarrow>
         (case register_builtin_mode r (core_code_mode version) of
            (r, Inl _) \<Rightarrow> None
          | (r, Inr _) \<Rightarrow> Some r))"

definition unregister_mode :: "mode_registry \<Rightarrow> ustr \<Rightarrow> mode_registry \<times> bool" where
  "unregister_mode r mode_id =
    (if str_starts_with mode_id core_api_prefix then (r, False)
     else (r\<lparr>mr_modes := AList.delete mode_id (mr_modes r)\<rparr>, map_of (mr_modes r) mode_id \<noteq> None))"

definition unregister_package_modes :: "mode_registry \<Rightarrow> ustr \<Rightarrow> mode_registry \<times> nat" where
  "unregister_package_modes r api_prefix =
    (if api_prefix = core_api_prefix \<or> str_starts_with api_prefix (lit ''clay.'') then (r, 0)
     else
       let removed_major = map fst (filter (\<lambda>(_, m). md_api_prefix (rm_declaration m) = api_prefix) (mr_modes r));
           removed_minor = map fst (filter (\<lambda>(_, m). mn_api_prefix m = api_prefix) (mr_minor_modes r)) in
       (r\<lparr>mr_modes := fold AList.delete removed_major (mr_modes r),
          mr_minor_modes := fold AList.delete removed_minor (mr_minor_modes r)\<rparr>,
        length removed_major + length removed_minor))"

definition same_provenance :: "clay_package_manifest \<Rightarrow> ustr \<Rightarrow> ustr \<Rightarrow> ustr \<Rightarrow> bool" where
  "same_provenance package name version api_prefix \<longleftrightarrow>
     mf_name package = name \<and> mf_version package = version \<and> cm_api_prefix (mf_clay package) = api_prefix"

definition reserved_mode_id :: "ustr \<Rightarrow> ustr \<Rightarrow> bool" where
  "reserved_mode_id mode_id api_prefix \<longleftrightarrow>
     str_starts_with mode_id (lit ''clay.'') \<or> str_starts_with mode_id (lit ''core.'')
     \<or> \<not> is_package_owned_id mode_id api_prefix"

definition register_mode ::
  "mode_registry \<Rightarrow> clay_package_manifest \<Rightarrow> mode_declaration \<Rightarrow> mode_registry \<times> (mode_validation_rule + unit)" where
  "register_mode r package d =
    (if ModeRegistration \<notin> set (cm_permissions (mf_clay package)) then (r, Inl Missing_Mode_Permission)
     else if \<not> same_provenance package (md_package_name d) (md_package_version d) (md_api_prefix d)
     then (r, Inl Invalid_Mode_Prefix)
     else if \<not> is_valid_api_prefix (md_api_prefix d) then (r, Inl Invalid_Mode_Prefix)
     else if reserved_mode_id (md_mode_id d) (md_api_prefix d) then (r, Inl Invalid_Mode_Id)
     else if md_mode_id d \<notin> set (cm_modes (mf_clay package)) then (r, Inl Undeclared_Mode)
     else if map_of (mr_modes r) (md_mode_id d) \<noteq> None then (r, Inl Duplicate_Mode_Id)
     else case validate_patterns d of
       Inl e \<Rightarrow> (r, Inl e)
     | Inr _ \<Rightarrow>
         (r\<lparr>mr_modes := AList.update (md_mode_id d) \<lparr>rm_declaration = d, rm_is_builtin = False\<rparr> (mr_modes r)\<rparr>,
          Inr ()))"

definition register_minor_mode ::
  "mode_registry \<Rightarrow> clay_package_manifest \<Rightarrow> minor_mode_declaration \<Rightarrow> mode_registry \<times> (mode_validation_rule + unit)" where
  "register_minor_mode r package d =
    (if ModeRegistration \<notin> set (cm_permissions (mf_clay package)) then (r, Inl Missing_Mode_Permission)
     else if \<not> same_provenance package (mn_package_name d) (mn_package_version d) (mn_api_prefix d)
     then (r, Inl Invalid_Mode_Prefix)
     else if \<not> is_valid_api_prefix (mn_api_prefix d) then (r, Inl Invalid_Mode_Prefix)
     else if reserved_mode_id (mn_mode_id d) (mn_api_prefix d) then (r, Inl Invalid_Mode_Id)
     else if map_of (mr_modes r) (mn_mode_id d) \<noteq> None \<or> map_of (mr_minor_modes r) (mn_mode_id d) \<noteq> None
     then (r, Inl Duplicate_Mode_Id)
     else if blank (mn_display_name d) then (r, Inl Malformed_Pattern)
     else if mn_compatible_major_modes d = [] then (r, Inl Malformed_Pattern)
     else (r\<lparr>mr_minor_modes := AList.update (mn_mode_id d) d (mr_minor_modes r)\<rparr>, Inr ()))"

section \<open>Classification\<close>

text \<open>The signals that a document gives, as \<open>classify\<close> derives them from its input.\<close>

definition usable_content :: "classification_input \<Rightarrow> ustr option" where
  "usable_content input =
    (case ci_leading_content input of
       None \<Rightarrow> None
     | Some content \<Rightarrow> if byte_len content \<le> max_leading_content_bytes then Some content else None)"

definition input_match :: "classification_input \<Rightarrow> ustr option \<Rightarrow> mode_declaration \<Rightarrow> mode_pattern_kind option" where
  "input_match input mime_type d =
     best_match d mime_type (Option.bind (ci_path input) extension_from_path)
       (Option.bind (ci_path input) file_name_from_path) (ci_shebang input) (usable_content input)"

text \<open>The loop over the package modes.\<close>

fun best_package_mode ::
  "classification_input \<Rightarrow> (mode_pattern_kind \<times> mode_declaration) option \<Rightarrow> registered_mode list
    \<Rightarrow> mode_validation_rule + (mode_pattern_kind \<times> mode_declaration) option" where
  "best_package_mode input best [] = Inr best"
| "best_package_mode input best (m # modes) =
    (if rm_is_builtin m then best_package_mode input best modes
     else case input_match input (ci_mime_type input) (rm_declaration m) of
       None \<Rightarrow> best_package_mode input best modes
     | Some kind \<Rightarrow>
         (case best of
            None \<Rightarrow> best_package_mode input (Some (kind, rm_declaration m)) modes
          | Some (best_kind, best_mode) \<Rightarrow>
              if kind_rank kind > kind_rank best_kind
              then best_package_mode input (Some (kind, rm_declaration m)) modes
              else if kind = best_kind then Inl Ambiguous_Classification
              else best_package_mode input best modes))"

definition classify_builtin :: "mode_registry \<Rightarrow> classification_input \<Rightarrow> mode_validation_rule + mode_classification" where
  "classify_builtin r input =
    (case (case map_of (mr_modes r) core_code_mode_id of
             None \<Rightarrow> None
           | Some core_code \<Rightarrow>
               map_option (mode_classification_of (rm_declaration core_code) (ci_document_id input))
                 (input_match input None (rm_declaration core_code))) of
       Some classification \<Rightarrow> Inr classification
     | None \<Rightarrow>
         (case map_of (mr_modes r) core_text_mode_id of
            Some core_text \<Rightarrow>
              Inr (mode_classification_of (rm_declaration core_text) (ci_document_id input) Fallback_Kind)
          | None \<Rightarrow> Inl No_Classification_Match))"

definition classify :: "mode_registry \<Rightarrow> classification_input \<Rightarrow> mode_validation_rule + mode_classification" where
  "classify r input =
     bind_result (best_package_mode input None (map snd (mr_modes r))) (\<lambda>best.
       case best of
         Some (matched_by, d) \<Rightarrow> Inr (mode_classification_of d (ci_document_id input) matched_by)
       | None \<Rightarrow> classify_builtin r input)"

section \<open>Activation\<close>

definition next_mode_version :: "mode_registry \<Rightarrow> nat \<Rightarrow> nat" where
  "next_mode_version r document_id =
    (case map_of (mr_active_major_modes r) document_id of
       None \<Rightarrow> 1
     | Some active \<Rightarrow> sat_add (mj_behavior_version active) 1)"

definition install_major_mode ::
  "mode_registry \<Rightarrow> mode_classification \<Rightarrow> registered_mode \<Rightarrow> mode_registry \<times> (mode_validation_rule + major_mode_activation)" where
  "install_major_mode r c registered =
    (let activation = \<lparr>mj_document_id = mc_document_id c, mj_package_name = mc_package_name c,
           mj_package_version = mc_package_version c, mj_api_prefix = mc_api_prefix c, mj_mode_id = mc_mode_id c,
           mj_behavior_version = next_mode_version r (mc_document_id c),
           mj_document_font_role = md_document_font_role (rm_declaration registered), mj_matched_by = mc_matched_by c\<rparr> in
     (r\<lparr>mr_active_major_modes := AList.update (mc_document_id c) activation (mr_active_major_modes r)\<rparr>,
      Inr activation))"

definition activate_major_mode ::
  "mode_registry \<Rightarrow> clay_package_manifest \<Rightarrow> mode_classification
    \<Rightarrow> mode_registry \<times> (mode_validation_rule + major_mode_activation)" where
  "activate_major_mode r package c =
    (if ModeActivation \<notin> set (cm_permissions (mf_clay package)) then (r, Inl Missing_Mode_Permission)
     else if \<not> same_provenance package (mc_package_name c) (mc_package_version c) (mc_api_prefix c)
             \<or> mc_mode_id c \<notin> set (cm_modes (mf_clay package))
     then (r, Inl Undeclared_Mode)
     else case map_of (mr_modes r) (mc_mode_id c) of
       None \<Rightarrow> (r, Inl Undeclared_Mode)
     | Some registered \<Rightarrow> install_major_mode r c registered)"

definition activate_builtin_major_mode ::
  "mode_registry \<Rightarrow> mode_classification \<Rightarrow> mode_registry \<times> (mode_validation_rule + major_mode_activation)" where
  "activate_builtin_major_mode r c =
    (case map_of (mr_modes r) (mc_mode_id c) of
       None \<Rightarrow> (r, Inl Undeclared_Mode)
     | Some registered \<Rightarrow>
         if \<not> rm_is_builtin registered then (r, Inl Invalid_Mode_Prefix) else install_major_mode r c registered)"

definition minor_modes_of :: "mode_registry \<Rightarrow> nat \<Rightarrow> minor_mode_activation list" where
  "minor_modes_of r document_id =
    (case map_of (mr_active_minor_modes r) document_id of None \<Rightarrow> [] | Some activations \<Rightarrow> activations)"

definition activate_minor_mode ::
  "mode_registry \<Rightarrow> clay_package_manifest \<Rightarrow> nat \<Rightarrow> ustr
    \<Rightarrow> mode_registry \<times> (mode_validation_rule + minor_mode_activation)" where
  "activate_minor_mode r package document_id minor_mode_id =
    (if ModeActivation \<notin> set (cm_permissions (mf_clay package)) then (r, Inl Missing_Mode_Permission)
     else case map_of (mr_minor_modes r) minor_mode_id of
       None \<Rightarrow> (r, Inl Undeclared_Mode)
     | Some d \<Rightarrow>
         (case map_of (mr_active_major_modes r) document_id of
            None \<Rightarrow> (r, Inl Ambiguous_Classification)
          | Some active \<Rightarrow>
              if mj_mode_id active \<notin> set (mn_compatible_major_modes d) then (r, Inl Undeclared_Mode)
              else
                let activation = \<lparr>ma_document_id = document_id, ma_package_name = mn_package_name d,
                      ma_package_version = mn_package_version d, ma_api_prefix = mn_api_prefix d,
                      ma_mode_id = mn_mode_id d\<rparr> in
                (r\<lparr>mr_active_minor_modes :=
                    AList.update document_id (minor_modes_of r document_id @ [activation]) (mr_active_minor_modes r)\<rparr>,
                 Inr activation)))"

section \<open>The manifest of a document\<close>

text \<open>What the composition reads of a package record.\<close>

record command_contribution =
  cb_id :: ustr
  cb_display_name :: ustr
  cb_routing_policy :: ustr

record mode_package =
  mk_manifest :: clay_package_manifest
  mk_commands :: "command_contribution list"
  mk_key_commands :: "ustr list"

definition parse_routing_policy :: "ustr \<Rightarrow> routing_policy option" where
  "parse_routing_policy v =
    (if v = lit ''client-first-predictable'' then Some Client_First_Predictable
     else if v = lit ''client-first-requires-ack'' then Some Client_First_Requires_Ack
     else if v = lit ''server-first'' then Some Server_First
     else if v = lit ''ui-reactive-priority'' then Some Ui_Reactive_Priority
     else if v = lit ''background'' then Some Background_Policy
     else None)"

definition contributed_command :: "command_contribution \<Rightarrow> routing_policy \<Rightarrow> command_declaration" where
  "contributed_command contrib policy =
     \<lparr>cd_command_id = cb_id contrib, cd_display_name = cb_display_name contrib, cd_routing_policy = policy,
      cd_authority = Server_Intent\<rparr>"

fun append_package_commands ::
  "behavior_manifest \<Rightarrow> ustr \<Rightarrow> command_contribution list \<Rightarrow> behavior_manifest" where
  "append_package_commands m api_prefix [] = m"
| "append_package_commands m api_prefix (contrib # contribs) =
    append_package_commands
      (if \<not> is_package_owned_id (cb_id contrib) api_prefix then m
       else case parse_routing_policy (cb_routing_policy contrib) of
         None \<Rightarrow> m
       | Some policy \<Rightarrow>
           if policy = Client_First_Predictable \<or> policy = Client_First_Requires_Ack then m
           else m\<lparr>bm_commands := bm_commands m @ [contributed_command contrib policy]\<rparr>) api_prefix contribs"

definition minor_commands :: "ustr \<Rightarrow> command_contribution list \<Rightarrow> command_declaration list" where
  "minor_commands api_prefix contribs =
     List.map_filter (\<lambda>contrib.
       if is_package_owned_id (cb_id contrib) api_prefix
       then map_option (contributed_command contrib) (parse_routing_policy (cb_routing_policy contrib)) else None) contribs"

definition find_package :: "ustr \<Rightarrow> mode_package list \<Rightarrow> mode_package option" where
  "find_package name packages = find (\<lambda>p. mf_name (mk_manifest p) = name) packages"

text \<open>The loop over the minor modes, in the order of their activation.\<close>

fun apply_minor_modes ::
  "mode_package list \<Rightarrow> ustr set \<Rightarrow> behavior_manifest \<Rightarrow> minor_mode_activation list
    \<Rightarrow> mode_validation_rule + behavior_manifest" where
  "apply_minor_modes packages major_command_ids m [] = Inr m"
| "apply_minor_modes packages major_command_ids m (minor # minors) =
    (case find_package (ma_package_name minor) packages of
       None \<Rightarrow> Inl Undeclared_Mode
     | Some package \<Rightarrow>
         let commands = minor_commands (ma_api_prefix minor) (mk_commands package) in
         if list_ex (\<lambda>command. cd_command_id command \<in> major_command_ids) commands then Inl Duplicate_Mode_Id
         else if list_ex (\<lambda>id. is_package_owned_id id (ma_api_prefix minor) \<and> id \<in> major_command_ids)
                (mk_key_commands package)
         then Inl Duplicate_Mode_Id
         else apply_minor_modes packages major_command_ids (m\<lparr>bm_commands := bm_commands m @ commands\<rparr>) minors)"

definition base_manifest :: "major_mode_activation \<Rightarrow> nat \<Rightarrow> behavior_manifest" where
  "base_manifest major document_id =
    (let m = (if mj_mode_id major = core_code_mode_id then core_code_editing (mj_behavior_version major)
              else minimal_text_editing (mj_behavior_version major)) in
     m\<lparr>bm_manifest_id := mj_api_prefix major @ lit ''.'' @ mj_mode_id major,
       bm_scope := Document_Layer document_id, bm_document_font_role := mj_document_font_role major\<rparr>)"

definition compose_manifest ::
  "mode_package list \<Rightarrow> major_mode_activation \<Rightarrow> minor_mode_activation list \<Rightarrow> nat
    \<Rightarrow> mode_validation_rule + behavior_manifest" where
  "compose_manifest packages major minors document_id =
    (let m = base_manifest major document_id;
         major_command_ids = cd_command_id ` set (bm_commands m) in
     bind_result
       (if str_starts_with (mj_mode_id major) (lit ''core.'') then Inr m
        else case find_package (mj_package_name major) packages of
          None \<Rightarrow> Inl Undeclared_Mode
        | Some package \<Rightarrow> Inr (append_package_commands m (mj_api_prefix major) (mk_commands package))) (\<lambda>m.
     bind_result (apply_minor_modes packages major_command_ids m minors) (\<lambda>m.
     case validate_manifest m of Inl _ \<Rightarrow> Inl Malformed_Pattern | Inr _ \<Rightarrow> Inr m)))"

definition select_behavior_manifest_for_document ::
  "mode_registry \<Rightarrow> nat \<Rightarrow> mode_package list \<Rightarrow> mode_registry \<times> (mode_validation_rule + manifest_selection)" where
  "select_behavior_manifest_for_document r document_id packages =
    (case map_of (mr_active_major_modes r) document_id of
       None \<Rightarrow> (r, Inl No_Classification_Match)
     | Some major \<Rightarrow>
         (case compose_manifest packages major (minor_modes_of r document_id) document_id of
            Inl e \<Rightarrow> (r, Inl e)
          | Inr m \<Rightarrow>
              let selection = \<lparr>sl_manifest = m, sl_major_mode = major, sl_minor_modes = minor_modes_of r document_id\<rparr> in
              (r\<lparr>mr_selected_manifests := AList.update document_id selection (mr_selected_manifests r)\<rparr>, Inr selection)))"

definition selected_manifest :: "mode_registry \<Rightarrow> nat \<Rightarrow> manifest_selection option" where
  "selected_manifest r document_id = map_of (mr_selected_manifests r) document_id"

section \<open>Discovery\<close>

datatype mode_provenance = Core_Built_In | Package_Provenance

record active_mode_summary =
  am_document_id :: nat
  am_mode_id :: ustr
  am_package_name :: ustr
  am_api_prefix :: ustr
  am_provenance :: mode_provenance
  am_classification_source :: mode_pattern_kind

text \<open>Without the sentence that words the rationale.\<close>

record mode_explanation =
  me_document_id :: nat
  me_active_mode :: ustr
  me_display_name :: "ustr option"
  me_package_name :: ustr
  me_package_version :: ustr
  me_api_prefix :: ustr
  me_provenance :: mode_provenance
  me_classification_source :: mode_pattern_kind
  me_fallback_used :: bool

definition provenance_of :: "mode_registry \<Rightarrow> ustr \<Rightarrow> major_mode_activation \<Rightarrow> mode_provenance" where
  "provenance_of r mode_id activation =
    (let builtin = (case map_of (mr_modes r) mode_id of
           Some m \<Rightarrow> rm_is_builtin m
         | None \<Rightarrow> mj_api_prefix activation = core_api_prefix \<or> str_starts_with mode_id (lit ''core.'')) in
     if builtin then Core_Built_In else Package_Provenance)"

definition active_major_mode :: "mode_registry \<Rightarrow> nat \<Rightarrow> major_mode_activation option" where
  "active_major_mode r document_id = map_of (mr_active_major_modes r) document_id"

definition list_active_modes :: "mode_registry \<Rightarrow> active_mode_summary list" where
  "list_active_modes r =
     map (\<lambda>(_, activation).
       \<lparr>am_document_id = mj_document_id activation, am_mode_id = mj_mode_id activation,
        am_package_name = mj_package_name activation, am_api_prefix = mj_api_prefix activation,
        am_provenance = provenance_of r (mj_mode_id activation) activation,
        am_classification_source = mj_matched_by activation\<rparr>) (mr_active_major_modes r)"

definition explain_active_mode :: "mode_registry \<Rightarrow> nat \<Rightarrow> mode_explanation option" where
  "explain_active_mode r document_id =
     map_option (\<lambda>activation.
       \<lparr>me_document_id = mj_document_id activation, me_active_mode = mj_mode_id activation,
        me_display_name = map_option (\<lambda>m. md_display_name (rm_declaration m)) (map_of (mr_modes r) (mj_mode_id activation)),
        me_package_name = mj_package_name activation, me_package_version = mj_package_version activation,
        me_api_prefix = mj_api_prefix activation,
        me_provenance = provenance_of r (mj_mode_id activation) activation,
        me_classification_source = mj_matched_by activation,
        me_fallback_used = (mj_matched_by activation = Fallback_Kind)\<rparr>) (map_of (mr_active_major_modes r) document_id)"

end
