(* ===== verification/Mode_Facts.thy ===== *)
theory Mode_Facts imports Mode_Activation Behavior_Properties begin

text \<open>
  What classification and the composition of manifests guarantee: the strongest signal decides, every document has
  a mode, a package never gains the authority of the client by a mode, and where the code departs.
\<close>

section \<open>Classification\<close>

text \<open>How a package mode matches a document.\<close>

definition package_match :: "classification_input \<Rightarrow> registered_mode \<Rightarrow> mode_pattern_kind option" where
  "package_match input m =
    (if rm_is_builtin m then None else input_match input (ci_mime_type input) (rm_declaration m))"

definition matches_as :: "classification_input \<Rightarrow> mode_pattern_kind \<Rightarrow> registered_mode list \<Rightarrow> nat" where
  "matches_as input kind modes = length (filter (\<lambda>m. package_match input m = Some kind) modes)"

lemma matches_as_simps [simp]:
  "matches_as input kind [] = 0"
  "matches_as input kind (m # modes) = (if package_match input m = Some kind then 1 else 0) + matches_as input kind modes"
  by (simp_all add: matches_as_def)

lemma best_package_mode_Cons:
  "best_package_mode input best (m # modes) =
    (case package_match input m of
       None \<Rightarrow> best_package_mode input best modes
     | Some kind \<Rightarrow>
         (case best of
            None \<Rightarrow> best_package_mode input (Some (kind, rm_declaration m)) modes
          | Some (best_kind, best_mode) \<Rightarrow>
              if kind_rank kind > kind_rank best_kind
              then best_package_mode input (Some (kind, rm_declaration m)) modes
              else if kind = best_kind then Inl Ambiguous_Classification
              else best_package_mode input best modes))"
  by (simp add: package_match_def)

declare best_package_mode.simps(2) [simp del]

lemma best_package_mode_ambiguous:
  "best_package_mode input best modes = Inl e \<Longrightarrow>
     e = Ambiguous_Classification
     \<and> (\<exists>kind. 2 \<le> matches_as input kind modes + (if map_option fst best = Some kind then 1 else 0))"
proof (induction modes arbitrary: best)
  case Nil
  then show ?case by simp
next
  case (Cons m modes)
  show ?case
  proof (cases "package_match input m")
    case None
    then show ?thesis using Cons by (simp add: best_package_mode_Cons)
  next
    case (Some kind)
    show ?thesis
    proof (cases best)
      case None
      then show ?thesis
        using Some Cons.IH[of "Some (kind, rm_declaration m)"] Cons.prems
        by (fastforce simp: best_package_mode_Cons split: if_splits)
    next
      case (Some b)
      then obtain best_kind d where b: "best = Some (best_kind, d)" by (cases b) auto
      consider "kind_rank best_kind < kind_rank kind" | "kind = best_kind"
        | "\<not> kind_rank best_kind < kind_rank kind" "kind \<noteq> best_kind" by blast
      then show ?thesis
      proof cases
        case 1
        then obtain k where "e = Ambiguous_Classification"
          "2 \<le> matches_as input k modes + (if kind = k then 1 else 0)"
          using \<open>package_match input m = Some kind\<close> b Cons.IH[of "Some (kind, rm_declaration m)"] Cons.prems
          by (auto simp: best_package_mode_Cons)
        then show ?thesis
          using \<open>package_match input m = Some kind\<close> by (intro conjI exI[of _ k]) (auto split: if_splits)
      next
        case 2
        then show ?thesis
          using \<open>package_match input m = Some kind\<close> b Cons.prems
          by (intro conjI exI[of _ kind]) (simp_all add: best_package_mode_Cons)
      next
        case 3
        then obtain k where "e = Ambiguous_Classification"
          "2 \<le> matches_as input k modes + (if map_option fst best = Some k then 1 else 0)"
          using \<open>package_match input m = Some kind\<close> b Cons.IH[of best] Cons.prems
          by (auto simp: best_package_mode_Cons)
        then show ?thesis by (intro conjI exI[of _ k]) (auto split: if_splits)
      qed
    qed
  qed
qed

lemma best_package_mode_found:
  "best_package_mode input best modes = Inr (Some (kind, d)) \<Longrightarrow>
     (best = Some (kind, d) \<or> (\<exists>m\<in>set modes. package_match input m = Some kind \<and> d = rm_declaration m))
     \<and> matches_as input kind modes + (if map_option fst best = Some kind then 1 else 0) = 1
     \<and> (\<forall>m\<in>set modes. \<forall>k. package_match input m = Some k \<longrightarrow> kind_rank k \<le> kind_rank kind)
     \<and> (\<forall>k. map_option fst best = Some k \<longrightarrow> kind_rank k \<le> kind_rank kind)"
proof (induction modes arbitrary: best)
  case Nil
  then show ?case by auto
next
  case (Cons m modes)
  show ?case
  proof (cases "package_match input m")
    case None
    then show ?thesis using Cons.IH[of best] Cons.prems by (simp add: best_package_mode_Cons)
  next
    case (Some k)
    show ?thesis
    proof (cases "best = None \<or> (\<exists>bk bd. best = Some (bk, bd) \<and> kind_rank bk < kind_rank k)")
      case True
      then have "best_package_mode input (Some (k, rm_declaration m)) modes = Inr (Some (kind, d))"
        using Some Cons.prems by (auto simp: best_package_mode_Cons)
      note IH = Cons.IH[OF this]
      show ?thesis using IH Some True by (auto split: if_splits)
    next
      case False
      then obtain bk bd where b: "best = Some (bk, bd)" "kind_rank k \<le> kind_rank bk" by (cases best) auto
      then have "k \<noteq> bk" "best_package_mode input best modes = Inr (Some (kind, d))"
        using Some Cons.prems by (auto simp: best_package_mode_Cons split: if_splits)
      note IH = Cons.IH[OF this(2)]
      show ?thesis using IH Some b \<open>k \<noteq> bk\<close> by (auto split: if_splits dest: order_trans)
    qed
  qed
qed

lemma best_package_mode_none:
  "best_package_mode input best modes = Inr None \<Longrightarrow> best = None \<and> (\<forall>m\<in>set modes. package_match input m = None)"
proof (induction modes arbitrary: best)
  case Nil
  then show ?case by simp
next
  case (Cons m modes)
  then show ?case
    by (cases "package_match input m"; cases best)
      (fastforce simp: best_package_mode_Cons split: if_splits prod.splits)+
qed

section \<open>The registry\<close>

inductive modes_reachable :: "mode_registry \<Rightarrow> bool" where
  New_Registry: "mode_registry_new version = Some r \<Longrightarrow> modes_reachable r"
| Register_Builtin: "modes_reachable r \<Longrightarrow> modes_reachable (fst (register_builtin_mode r d))"
| Register_Mode: "modes_reachable r \<Longrightarrow> modes_reachable (fst (register_mode r package d))"
| Register_Minor: "modes_reachable r \<Longrightarrow> modes_reachable (fst (register_minor_mode r package dm))"
| Unregister_Mode: "modes_reachable r \<Longrightarrow> modes_reachable (fst (unregister_mode r mode_id))"
| Unregister_Package: "modes_reachable r \<Longrightarrow> modes_reachable (fst (unregister_package_modes r api_prefix))"
| Activate_Major: "modes_reachable r \<Longrightarrow> modes_reachable (fst (activate_major_mode r package c))"
| Activate_Builtin: "modes_reachable r \<Longrightarrow> modes_reachable (fst (activate_builtin_major_mode r c))"
| Activate_Minor: "modes_reachable r \<Longrightarrow> modes_reachable (fst (activate_minor_mode r package document_id mode_id))"
| Select_Manifest:
    "modes_reachable r \<Longrightarrow> modes_reachable (fst (select_behavior_manifest_for_document r document_id packages))"

text \<open>
  Modes are stored under their names, the reserved names are exactly those of the built-in modes, and the universal
  fallback is always among them.
\<close>

definition mode_entry_ok :: "ustr \<times> registered_mode \<Rightarrow> bool" where
  "mode_entry_ok entry \<longleftrightarrow>
     md_mode_id (rm_declaration (snd entry)) = fst entry
     \<and> (rm_is_builtin (snd entry) \<longleftrightarrow> str_starts_with (fst entry) (lit ''core.''))
     \<and> (rm_is_builtin (snd entry) \<longrightarrow> md_api_prefix (rm_declaration (snd entry)) = core_api_prefix)"

definition modes_ok :: "(ustr \<times> registered_mode) list \<Rightarrow> bool" where
  "modes_ok modes \<longleftrightarrow> distinct (map fst modes) \<and> (\<forall>entry\<in>set modes. mode_entry_ok entry)"

lemma modes_ok_update: "modes_ok modes \<Longrightarrow> mode_entry_ok (k, m) \<Longrightarrow> modes_ok (AList.update k m modes)"
  using set_update_subset[of k m modes] by (auto simp: modes_ok_def distinct_update)

lemma set_delete_subset: "set (AList.delete k al) \<subseteq> set al"
  by (auto simp: AList.delete_eq)

lemma modes_ok_delete: "modes_ok modes \<Longrightarrow> modes_ok (AList.delete k modes)"
  using set_delete_subset[of k modes] by (auto simp: modes_ok_def distinct_delete)

lemma modes_ok_deletes: "modes_ok modes \<Longrightarrow> modes_ok (fold AList.delete ks modes)"
  by (induction ks arbitrary: modes) (simp_all add: modes_ok_delete)

lemma map_of_deletes: "map_of (fold AList.delete ks al) k = (if k \<in> set ks then None else map_of al k)"
  by (induction ks arbitrary: al) (auto simp: delete_conv)

definition fallback_present :: "mode_registry \<Rightarrow> bool" where
  "fallback_present r \<longleftrightarrow> modes_ok (mr_modes r) \<and> map_of (mr_modes r) core_text_mode_id \<noteq> None"

lemma fallback_update:
  "modes_ok (mr_modes r) \<Longrightarrow> map_of (mr_modes r) core_text_mode_id \<noteq> None \<Longrightarrow> mode_entry_ok (k, m) \<Longrightarrow>
     fallback_present (r\<lparr>mr_modes := AList.update k m (mr_modes r)\<rparr>)"
  by (simp add: fallback_present_def modes_ok_update update_conv)

lemma core_text_reserved: "str_starts_with core_text_mode_id (lit ''core.'')" "str_starts_with core_text_mode_id core_api_prefix"
  by (simp_all add: str_starts_with_def lit_def)

lemma register_builtin_fallback:
  "fallback_present r \<Longrightarrow> fallback_present (fst (register_builtin_mode r d))"
  by (auto simp: register_builtin_mode_def fallback_update mode_entry_ok_def fallback_present_def[of r] split: sum.split)

lemma register_mode_fallback: "fallback_present r \<Longrightarrow> fallback_present (fst (register_mode r package d))"
  by (auto simp: register_mode_def reserved_mode_id_def fallback_update mode_entry_ok_def fallback_present_def[of r]
      split: sum.split)

lemma unregister_package_fallback:
  assumes "fallback_present r" shows "fallback_present (fst (unregister_package_modes r api_prefix))"
proof -
  let ?removed = "map fst (filter (\<lambda>(_, m). md_api_prefix (rm_declaration m) = api_prefix) (mr_modes r))"
  have "core_text_mode_id \<notin> set ?removed" if "api_prefix \<noteq> core_api_prefix"
    using assms that core_text_reserved(1) by (auto simp: fallback_present_def modes_ok_def mode_entry_ok_def)
  then show ?thesis
    using assms
    by (auto simp: unregister_package_modes_def Let_def fallback_present_def modes_ok_deletes map_of_deletes)
qed

lemma new_registry_fallback:
  assumes "mode_registry_new version = Some r" shows "fallback_present r"
proof -
  obtain r1 where r1: "register_builtin_mode empty_mode_registry (core_text_mode version) = (r1, Inr ())"
    "r = fst (register_builtin_mode r1 (core_code_mode version))"
    using assms by (auto simp: mode_registry_new_def split: prod.splits sum.splits)
  then have "r1 = empty_mode_registry\<lparr>mr_modes :=
      [(core_text_mode_id, \<lparr>rm_declaration = core_text_mode version, rm_is_builtin = True\<rparr>)]\<rparr>"
    by (auto simp: register_builtin_mode_def empty_mode_registry_def core_text_mode_def split: if_splits sum.splits)
  then have "fallback_present r1"
    using core_text_reserved by (simp add: fallback_present_def modes_ok_def mode_entry_ok_def core_text_mode_def)
  then show ?thesis using register_builtin_fallback r1(2) by blast
qed

lemma validate_pattern_list_Inr:
  "validate_pattern_list valid seen ps = Inr u \<longleftrightarrow> list_all valid ps \<and> distinct ps \<and> set ps \<inter> seen = {}"
  by (induction ps arbitrary: seen) auto

lemma core_code_extensions_ok:
  "list_all valid_extension (map lit core_code_extensions)" "distinct (map lit core_code_extensions)"
proof -
  show "list_all valid_extension (map lit core_code_extensions)"
    by (simp add: core_code_extensions_def valid_extension_def is_ascii_alphanumeric_def lit_def)
  have "distinct core_code_extensions" unfolding core_code_extensions_def by code_simp
  then show "distinct (map lit core_code_extensions)" by (simp add: distinct_map inj_on_def lit_eq_iff)
qed

text \<open>Both \<open>expect\<close>s of the constructor hold, so every registry starts with the two built-in modes.\<close>

lemma mode_registry_new_Some:
  "mode_registry_new version = Some (empty_mode_registry\<lparr>mr_modes :=
     [(core_text_mode_id, \<lparr>rm_declaration = core_text_mode version, rm_is_builtin = True\<rparr>),
      (core_code_mode_id, \<lparr>rm_declaration = core_code_mode version, rm_is_builtin = True\<rparr>)]\<rparr>)"
proof -
  let ?text = "(core_text_mode_id, \<lparr>rm_declaration = core_text_mode version, rm_is_builtin = True\<rparr>)"
  have names: "md_mode_id (core_text_mode version) = core_text_mode_id" "md_mode_id (core_code_mode version) = core_code_mode_id"
    "md_api_prefix (core_text_mode version) = core_api_prefix" "md_api_prefix (core_code_mode version) = core_api_prefix"
    "no_patterns (core_text_mode version)"
    by (simp_all add: core_text_mode_def core_code_mode_def no_patterns_def)
  have shown: "\<not> blank (md_display_name (core_text_mode version))" "\<not> blank (md_display_name (core_code_mode version))"
    by (simp_all add: core_text_mode_def core_code_mode_def blank_def lit_def is_whitespace_def)
  have "valid_shebang_pattern (lit ''*'')"
    by (simp add: valid_shebang_pattern_def count_stars_def names_raw_ops_def str_contains_def str_starts_with_def lit_def)
  then have patterns: "validate_patterns (core_code_mode version) = Inr ()"
    using shown(2) core_code_extensions_ok
    by (simp add: validate_patterns_def core_code_mode_def no_patterns_def bind_result_Inr validate_pattern_list_Inr
        del: list.pred_map)
  have reserved: "str_starts_with core_text_mode_id (lit ''core.'')" "str_starts_with core_code_mode_id (lit ''core.'')"
    "core_text_mode_id \<noteq> core_code_mode_id"
    by (simp_all add: str_starts_with_def lit_def)
  show ?thesis
    using names shown patterns reserved
    by (simp add: mode_registry_new_def register_builtin_mode_def empty_mode_registry_def)
qed

lemma reachable_fallback: "modes_reachable r \<Longrightarrow> fallback_present r"
proof (induction rule: modes_reachable.induct)
  case (New_Registry version r)
  then show ?case by (rule new_registry_fallback)
next
  case (Register_Builtin r d)
  then show ?case by (simp add: register_builtin_fallback)
next
  case (Register_Mode r package d)
  then show ?case by (simp add: register_mode_fallback)
next
  case (Register_Minor r package dm)
  then show ?case by (auto simp: register_minor_mode_def fallback_present_def)
next
  case (Unregister_Mode r mode_id)
  then show ?case
    using core_text_reserved(2)
    by (auto simp: unregister_mode_def fallback_present_def modes_ok_delete delete_conv)
next
  case (Unregister_Package r api_prefix)
  then show ?case by (simp add: unregister_package_fallback)
next
  case (Activate_Major r package c)
  then show ?case
    by (auto simp: activate_major_mode_def install_major_mode_def fallback_present_def Let_def split: option.split)
next
  case (Activate_Builtin r c)
  then show ?case
    by (auto simp: activate_builtin_major_mode_def install_major_mode_def fallback_present_def Let_def split: option.split)
next
  case (Activate_Minor r package document_id mode_id)
  then show ?case by (auto simp: activate_minor_mode_def fallback_present_def Let_def split: option.split)
next
  case (Select_Manifest r document_id packages)
  then show ?case
    by (auto simp: select_behavior_manifest_for_document_def fallback_present_def Let_def split: option.split sum.split)
qed

lemma classify_builtin_total: "fallback_present r \<Longrightarrow> \<exists>c. classify_builtin r input = Inr c"
  by (auto simp: classify_builtin_def fallback_present_def split: option.split)

section \<open>Composed manifests\<close>

text \<open>Commands that are only added, with the authority of a server intent.\<close>

definition extends_commands :: "behavior_manifest \<Rightarrow> behavior_manifest \<Rightarrow> command_declaration list \<Rightarrow> bool" where
  "extends_commands m m' extra \<longleftrightarrow>
     m' = m\<lparr>bm_commands := bm_commands m @ extra\<rparr> \<and> (\<forall>command\<in>set extra. cd_authority command = Server_Intent)"

lemma extends_refl: "extends_commands m m []"
  by (simp add: extends_commands_def)

lemma extends_trans: "extends_commands m1 m2 e \<Longrightarrow> extends_commands m2 m3 e' \<Longrightarrow> extends_commands m1 m3 (e @ e')"
  by (auto simp: extends_commands_def)

lemma append_package_commands_extends:
  "\<exists>extra. extends_commands m (append_package_commands m api_prefix contribs) extra"
proof (induction contribs arbitrary: m)
  case Nil
  then show ?case using extends_refl by auto
next
  case (Cons contrib contribs)
  have one: "extends_commands m (m\<lparr>bm_commands := bm_commands m @ [contributed_command contrib policy]\<rparr>)
      [contributed_command contrib policy]" for policy
    by (simp add: extends_commands_def contributed_command_def)
  show ?case
    using Cons.IH[of m] Cons.IH[of "m\<lparr>bm_commands := bm_commands m @ [contributed_command contrib policy]\<rparr>" for policy]
      extends_trans[OF one]
    by (auto split: option.split) blast
qed

lemma minor_commands_authority: "command \<in> set (minor_commands p contribs) \<Longrightarrow> cd_authority command = Server_Intent"
  by (auto simp: minor_commands_def map_filter_def contributed_command_def split: if_splits)

lemma apply_minor_modes_extends:
  "apply_minor_modes packages ids m minors = Inr m' \<Longrightarrow> \<exists>extra. extends_commands m m' extra"
proof (induction minors arbitrary: m)
  case Nil
  then show ?case using extends_refl by auto
next
  case (Cons minor minors)
  then obtain package where package: "find_package (ma_package_name minor) packages = Some package"
    by (auto split: option.splits)
  let ?commands = "minor_commands (ma_api_prefix minor) (mk_commands package)"
  have "extends_commands m (m\<lparr>bm_commands := bm_commands m @ ?commands\<rparr>) ?commands"
    using minor_commands_authority by (auto simp: extends_commands_def)
  moreover have "apply_minor_modes packages ids (m\<lparr>bm_commands := bm_commands m @ ?commands\<rparr>) minors = Inr m'"
    using Cons.prems package by (auto simp: Let_def split: if_splits)
  ultimately show ?case using Cons.IH extends_trans by blast
qed

lemma base_manifest_parts [simp]:
  "bm_commands (base_manifest major d) = default_commands" "bm_keymaps (base_manifest major d) = default_keymaps"
  "bm_scope (base_manifest major d) = Document_Layer d"
  by (simp_all add: base_manifest_def Let_def core_code_editing_def minimal_text_editing_def)

text \<open>The base of a composition with the commands of the package of its major mode, and what a success goes through.\<close>

definition major_manifest :: "mode_package list \<Rightarrow> major_mode_activation \<Rightarrow> nat \<Rightarrow> mode_validation_rule + behavior_manifest" where
  "major_manifest packages major document_id =
    (if str_starts_with (mj_mode_id major) (lit ''core.'') then Inr (base_manifest major document_id)
     else case find_package (mj_package_name major) packages of
       None \<Rightarrow> Inl Undeclared_Mode
     | Some package \<Rightarrow>
         Inr (append_package_commands (base_manifest major document_id) (mj_api_prefix major) (mk_commands package)))"

lemma compose_manifest_steps:
  assumes "compose_manifest packages major minors document_id = Inr m"
  obtains m1 where "major_manifest packages major document_id = Inr m1"
    "apply_minor_modes packages (cd_command_id ` set default_commands) m1 minors = Inr m"
    "validate_manifest m = Inr ()"
proof -
  obtain m1 m2 where m: "major_manifest packages major document_id = Inr m1"
    "apply_minor_modes packages (cd_command_id ` set default_commands) m1 minors = Inr m2"
    and last: "(case validate_manifest m2 of Inl _ \<Rightarrow> Inl Malformed_Pattern | Inr _ \<Rightarrow> Inr m2) = Inr m"
    using assms unfolding compose_manifest_def Let_def bind_result_Inr base_manifest_parts major_manifest_def by blast
  have "validate_manifest m2 = Inr ()" "m = m2"
    using last by (cases "validate_manifest m2"; simp)+
  then show ?thesis using m by (intro that) simp_all
qed

lemma compose_manifest_extends:
  assumes "compose_manifest packages major minors document_id = Inr m"
  shows "\<exists>extra. extends_commands (base_manifest major document_id) m extra"
proof -
  obtain m1 where m1: "major_manifest packages major document_id = Inr m1"
    "apply_minor_modes packages (cd_command_id ` set default_commands) m1 minors = Inr m"
    using compose_manifest_steps[OF assms] by blast
  have "\<exists>extra. extends_commands (base_manifest major document_id) m1 extra"
    using m1(1) append_package_commands_extends extends_refl[of "base_manifest major document_id"]
    by (auto simp: major_manifest_def split: if_splits option.splits)
  then show ?thesis
    using apply_minor_modes_extends[OF m1(2)] extends_trans by blast
qed

definition selections_ok :: "mode_registry \<Rightarrow> bool" where
  "selections_ok r \<longleftrightarrow>
     (\<forall>(d, s)\<in>set (mr_selected_manifests r). validate_manifest (sl_manifest s) = Inr ()
        \<and> (\<exists>major extra. extends_commands (base_manifest major d) (sl_manifest s) extra))"

lemma install_major_selections [simp]:
  "mr_selected_manifests (fst (install_major_mode r c registered)) = mr_selected_manifests r"
  by (simp add: install_major_mode_def Let_def)

lemma reachable_selections: "modes_reachable r \<Longrightarrow> selections_ok r"
proof (induction rule: modes_reachable.induct)
  case (New_Registry version r)
  then have "mr_selected_manifests r = []"
    by (auto simp: mode_registry_new_def register_builtin_mode_def empty_mode_registry_def
        split: prod.splits sum.splits if_splits)
  then show ?case by (simp add: selections_ok_def)
next
  case (Register_Builtin r d)
  then show ?case by (auto simp: register_builtin_mode_def selections_ok_def split: sum.split)
next
  case (Register_Mode r package d)
  then show ?case by (auto simp: register_mode_def selections_ok_def split: sum.split)
next
  case (Register_Minor r package dm)
  then show ?case by (auto simp: register_minor_mode_def selections_ok_def)
next
  case (Unregister_Mode r mode_id)
  then show ?case by (auto simp: unregister_mode_def selections_ok_def)
next
  case (Unregister_Package r api_prefix)
  then show ?case by (auto simp: unregister_package_modes_def selections_ok_def Let_def)
next
  case (Activate_Major r package c)
  then show ?case by (auto simp: activate_major_mode_def selections_ok_def split: option.split)
next
  case (Activate_Builtin r c)
  then show ?case by (auto simp: activate_builtin_major_mode_def selections_ok_def split: option.split)
next
  case (Activate_Minor r package document_id mode_id)
  then show ?case by (auto simp: activate_minor_mode_def selections_ok_def Let_def split: option.split)
next
  case (Select_Manifest r document_id packages)
  show ?case
  proof (cases "map_of (mr_active_major_modes r) document_id")
    case None
    then show ?thesis using Select_Manifest by (simp add: select_behavior_manifest_for_document_def)
  next
    case (Some major)
    show ?thesis
    proof (cases "compose_manifest packages major (minor_modes_of r document_id) document_id")
      case (Inl e)
      then show ?thesis using Some Select_Manifest by (simp add: select_behavior_manifest_for_document_def)
    next
      case (Inr m)
      let ?s = "\<lparr>sl_manifest = m, sl_major_mode = major, sl_minor_modes = minor_modes_of r document_id\<rparr>"
      have "validate_manifest m = Inr () \<and> (\<exists>major extra. extends_commands (base_manifest major document_id) m extra)"
        using compose_manifest_extends[OF Inr] compose_manifest_steps[OF Inr] by blast
      then show ?thesis
        using Some Inr Select_Manifest.IH set_update_subset[of document_id ?s "mr_selected_manifests r"]
        by (fastforce simp: select_behavior_manifest_for_document_def selections_ok_def Let_def)
    qed
  qed
qed

section \<open>Which commands a composition adds\<close>

text \<open>A contribution of a package that becomes a command of its major mode.\<close>

definition contributes :: "ustr \<Rightarrow> command_contribution \<Rightarrow> bool" where
  "contributes api_prefix contrib \<longleftrightarrow> is_package_owned_id (cb_id contrib) api_prefix
     \<and> (\<exists>policy. parse_routing_policy (cb_routing_policy contrib) = Some policy
          \<and> policy \<noteq> Client_First_Predictable \<and> policy \<noteq> Client_First_Requires_Ack)"

lemma append_package_commands_adds:
  "\<exists>extra. bm_commands (append_package_commands m api_prefix contribs) = bm_commands m @ extra
     \<and> cb_id ` {contrib \<in> set contribs. contributes api_prefix contrib} \<subseteq> cd_command_id ` set extra"
proof (induction contribs arbitrary: m)
  case Nil
  then show ?case by simp
next
  case (Cons contrib contribs)
  show ?case
  proof (cases "contributes api_prefix contrib")
    case True
    then obtain policy where policy: "parse_routing_policy (cb_routing_policy contrib) = Some policy"
      "policy \<noteq> Client_First_Predictable" "policy \<noteq> Client_First_Requires_Ack"
      "is_package_owned_id (cb_id contrib) api_prefix"
      by (auto simp: contributes_def)
    from Cons.IH[of "m\<lparr>bm_commands := bm_commands m @ [contributed_command contrib policy]\<rparr>"]
    obtain extra where
      "bm_commands (append_package_commands (m\<lparr>bm_commands := bm_commands m @ [contributed_command contrib policy]\<rparr>)
         api_prefix contribs) = bm_commands m @ contributed_command contrib policy # extra"
      "cb_id ` {contrib \<in> set contribs. contributes api_prefix contrib} \<subseteq> cd_command_id ` set extra"
      by auto
    then show ?thesis
      using policy by (intro exI[of _ "contributed_command contrib policy # extra"]) (auto simp: contributed_command_def)
  next
    case False
    then have "append_package_commands m api_prefix (contrib # contribs) = append_package_commands m api_prefix contribs"
      by (auto simp: contributes_def split: option.split)
    moreover have "{c \<in> set (contrib # contribs). contributes api_prefix c} = {c \<in> set contribs. contributes api_prefix c}"
      using False by auto
    ultimately show ?thesis using Cons.IH[of m] by simp
  qed
qed

lemma minor_commands_contributed:
  "contrib \<in> set contribs \<Longrightarrow> contributes api_prefix contrib \<Longrightarrow>
     cb_id contrib \<in> cd_command_id ` set (minor_commands api_prefix contribs)"
  by (force simp: minor_commands_def map_filter_def contributes_def contributed_command_def)

lemma apply_minor_modes_adds:
  "apply_minor_modes packages ids m minors = Inr m' \<Longrightarrow>
     \<exists>extra. bm_commands m' = bm_commands m @ extra
       \<and> (\<forall>minor\<in>set minors. \<forall>package. find_package (ma_package_name minor) packages = Some package \<longrightarrow>
            set (minor_commands (ma_api_prefix minor) (mk_commands package)) \<subseteq> set extra)"
proof (induction minors arbitrary: m)
  case Nil
  then show ?case by simp
next
  case (Cons minor minors)
  then obtain package where package: "find_package (ma_package_name minor) packages = Some package"
    by (auto split: option.splits)
  let ?commands = "minor_commands (ma_api_prefix minor) (mk_commands package)"
  have "apply_minor_modes packages ids (m\<lparr>bm_commands := bm_commands m @ ?commands\<rparr>) minors = Inr m'"
    using Cons.prems package by (auto simp: Let_def split: if_splits)
  from Cons.IH[OF this] obtain extra where "bm_commands m' = bm_commands m @ ?commands @ extra"
    "\<forall>minor\<in>set minors. \<forall>package. find_package (ma_package_name minor) packages = Some package \<longrightarrow>
       set (minor_commands (ma_api_prefix minor) (mk_commands package)) \<subseteq> set extra"
    by auto
  then show ?case using package by (intro exI[of _ "?commands @ extra"]) auto
qed

end
