(* ===== verification/Mode_Properties.thy ===== *)
theory Mode_Properties imports Mode_Facts begin

text \<open>
  What the registry of modes guarantees: the strongest signal decides, every document has a mode, and a package gets
  no authority of the client by a mode. Then where the code departs from what it describes.
\<close>

section \<open>Classification\<close>

lemma classify_builtin_cases:
  assumes "fallback_present r" "\<forall>m\<in>set (map snd (mr_modes r)). package_match input m = None"
  shows "\<exists>c. classify_builtin r input = Inr c
     \<and> (\<exists>m\<in>set (map snd (mr_modes r)).
          c = mode_classification_of (rm_declaration m) (ci_document_id input) (mc_matched_by c) \<and> rm_is_builtin m
          \<and> (input_match input None (rm_declaration m) = Some (mc_matched_by c)
               \<or> mc_matched_by c = Fallback_Kind \<and> md_mode_id (rm_declaration m) = core_text_mode_id
                  \<and> (\<forall>code. map_of (mr_modes r) core_code_mode_id = Some code \<longrightarrow>
                       input_match input None (rm_declaration code) = None)))"
proof -
  have builtin: "rm_is_builtin m" if "map_of (mr_modes r) k = Some m" "str_starts_with k (lit ''core.'')" for k m
    using assms(1) map_of_SomeD[OF that(1)] that(2)
    by (auto simp: fallback_present_def modes_ok_def mode_entry_ok_def)
  have named: "md_mode_id (rm_declaration m) = k" if "map_of (mr_modes r) k = Some m" for k m
    using assms(1) map_of_SomeD[OF that] by (auto simp: fallback_present_def modes_ok_def mode_entry_ok_def)
  have mem: "m \<in> set (map snd (mr_modes r))" if "map_of (mr_modes r) k = Some m" for k m
    using map_of_SomeD[OF that] by force
  have code: "str_starts_with core_code_mode_id (lit ''core.'')"
    by (simp add: str_starts_with_def lit_def)
  obtain fb where fb: "map_of (mr_modes r) core_text_mode_id = Some fb"
    using assms(1) by (auto simp: fallback_present_def)
  show ?thesis
  proof (cases "\<exists>m kind. map_of (mr_modes r) core_code_mode_id = Some m
      \<and> input_match input None (rm_declaration m) = Some kind")
    case True
    then obtain m kind where m: "map_of (mr_modes r) core_code_mode_id = Some m"
      "input_match input None (rm_declaration m) = Some kind" by blast
    then show ?thesis
      using builtin[OF m(1) code] mem[OF m(1)]
      by (auto simp: classify_builtin_def mode_classification_of_def intro!: bexI[of _ m])
  next
    case False
    then show ?thesis
      using fb builtin[OF fb core_text_reserved(1)] mem[OF fb] named[OF fb] False
      by (auto simp: classify_builtin_def mode_classification_of_def intro!: bexI[of _ fb] split: option.split)
  qed
qed

text \<open>C24: In every registry that can be reached, whatever the order in which its modes are visited: if
classification succeeds, a package mode is chosen exactly when one matches; it is then the only one with its kind of
signal, and no other matches with a stronger kind; otherwise a built-in mode is chosen, by one of its own patterns or
as the universal fallback. Classification fails only when two package modes match by the same kind of signal.\<close>
theorem strongest_signal_decides:
  assumes "modes_reachable r"
  shows "case classify r input of
      Inl e \<Rightarrow> e = Ambiguous_Classification \<and> (\<exists>kind. 2 \<le> matches_as input kind (map snd (mr_modes r)))
    | Inr c \<Rightarrow>
        \<exists>m\<in>set (map snd (mr_modes r)).
          c = mode_classification_of (rm_declaration m) (ci_document_id input) (mc_matched_by c)
          \<and> (if rm_is_builtin m
             then (\<forall>m'\<in>set (map snd (mr_modes r)). package_match input m' = None)
                  \<and> (input_match input None (rm_declaration m) = Some (mc_matched_by c)
                     \<or> mc_matched_by c = Fallback_Kind \<and> md_mode_id (rm_declaration m) = core_text_mode_id
                        \<and> (\<forall>code. map_of (mr_modes r) core_code_mode_id = Some code \<longrightarrow>
                             input_match input None (rm_declaration code) = None))
             else package_match input m = Some (mc_matched_by c)
                  \<and> matches_as input (mc_matched_by c) (map snd (mr_modes r)) = 1
                  \<and> (\<forall>m'\<in>set (map snd (mr_modes r)). \<forall>kind. package_match input m' = Some kind \<longrightarrow>
                       kind_rank kind \<le> kind_rank (mc_matched_by c)))"
proof -
  consider e where "best_package_mode input None (map snd (mr_modes r)) = Inl e"
    | "best_package_mode input None (map snd (mr_modes r)) = Inr None"
    | kind d where "best_package_mode input None (map snd (mr_modes r)) = Inr (Some (kind, d))"
    by (metis old.sum.exhaust option.exhaust surj_pair)
  then show ?thesis
  proof cases
    case 1
    then show ?thesis
      using best_package_mode_ambiguous[OF 1] by (auto simp: classify_def bind_result_def)
  next
    case 2
    note none = best_package_mode_none[OF 2, THEN conjunct2]
    from classify_builtin_cases[OF reachable_fallback[OF assms] none] obtain c m where
      "classify_builtin r input = Inr c" "m \<in> set (map snd (mr_modes r))" "rm_is_builtin m"
      "c = mode_classification_of (rm_declaration m) (ci_document_id input) (mc_matched_by c)"
      "input_match input None (rm_declaration m) = Some (mc_matched_by c)
       \<or> mc_matched_by c = Fallback_Kind \<and> md_mode_id (rm_declaration m) = core_text_mode_id
                        \<and> (\<forall>code. map_of (mr_modes r) core_code_mode_id = Some code \<longrightarrow>
                             input_match input None (rm_declaration code) = None)"
      by blast
    then show ?thesis using 2 none by (auto simp: classify_def bind_result_def)
  next
    case 3
    then obtain m where m: "m \<in> set (map snd (mr_modes r))" "package_match input m = Some kind" "d = rm_declaration m"
      using best_package_mode_found[OF 3] by auto
    have "\<not> rm_is_builtin m" using m(2) by (auto simp: package_match_def)
    moreover have "classify r input = Inr (mode_classification_of d (ci_document_id input) kind)"
      using 3 by (simp add: classify_def bind_result_def)
    moreover have "mc_matched_by (mode_classification_of d (ci_document_id input) kind) = kind"
      by (simp add: mode_classification_of_def)
    ultimately show ?thesis using m best_package_mode_found[OF 3] by auto
  qed
qed

text \<open>A package with one mode, and the registry in which it is registered.\<close>

definition sample_mode_manifest :: clay_package_manifest where
  "sample_mode_manifest =
     \<lparr>mf_name = lit ''rust'', mf_version = lit ''1'',
      mf_clay = \<lparr>cm_api_prefix = lit ''rust'', cm_permissions = [ModeRegistration, ModeActivation],
        cm_modes = [lit ''rust.mode''],
        cm_graph = \<lparr>pg_depends_on = [], pg_extends = [], pg_disables = [], pg_replaces = [],
          pg_relation_requests = []\<rparr>, cm_extension_points = []\<rparr>\<rparr>"

definition sample_mode :: mode_declaration where
  "sample_mode =
     \<lparr>md_package_name = lit ''rust'', md_package_version = lit ''1'', md_api_prefix = lit ''rust'',
      md_mode_id = lit ''rust.mode'', md_display_name = lit ''Rust'', md_document_font_role = Monospace_Role,
      md_extensions = [lit ''rs''], md_mime_types = [], md_file_names = [], md_file_name_patterns = [],
      md_shebang_patterns = [], md_content_probes = []\<rparr>"

definition sample_modes :: mode_registry where
  "sample_modes = fst (register_mode (the (mode_registry_new (lit ''1''))) sample_mode_manifest sample_mode)"

definition sample_input :: classification_input where
  "sample_input =
     \<lparr>ci_document_id = 7, ci_path = Some (lit ''src/main.rs''), ci_mime_type = None, ci_shebang = None,
      ci_leading_content = None\<rparr>"

lemma sample_mode_patterns: "validate_patterns sample_mode = Inr ()"
  by (simp add: validate_patterns_def sample_mode_def no_patterns_def blank_def is_whitespace_def valid_extension_def
      is_ascii_alphanumeric_def lit_def)

lemma sample_modes_simps:
  "mr_modes sample_modes =
     [(core_text_mode_id, \<lparr>rm_declaration = core_text_mode (lit ''1''), rm_is_builtin = True\<rparr>),
      (core_code_mode_id, \<lparr>rm_declaration = core_code_mode (lit ''1''), rm_is_builtin = True\<rparr>),
      (lit ''rust.mode'', \<lparr>rm_declaration = sample_mode, rm_is_builtin = False\<rparr>)]"
  "mr_active_major_modes sample_modes = []" "mr_active_minor_modes sample_modes = []"
  "mr_minor_modes sample_modes = []" "mr_selected_manifests sample_modes = []"
proof -
  have "md_mode_id sample_mode = lit ''rust.mode''" by (simp add: sample_mode_def)
  moreover have "same_provenance sample_mode_manifest (md_package_name sample_mode) (md_package_version sample_mode)
      (md_api_prefix sample_mode)" "is_valid_api_prefix (md_api_prefix sample_mode)"
    by (simp_all add: same_provenance_def sample_mode_manifest_def sample_mode_def is_valid_api_prefix_def
        is_ascii_lowercase_def lit_def len_utf8_def)
  moreover have "\<not> reserved_mode_id (lit ''rust.mode'') (md_api_prefix sample_mode)"
    by (simp add: sample_mode_def reserved_mode_id_def is_package_owned_id_def strip_prefix_def str_starts_with_def lit_def)
  moreover have "ModeRegistration \<in> set (cm_permissions (mf_clay sample_mode_manifest))"
    "lit ''rust.mode'' \<in> set (cm_modes (mf_clay sample_mode_manifest))"
    by (simp_all add: sample_mode_manifest_def)
  moreover have "core_text_mode_id \<noteq> lit ''rust.mode''" "core_code_mode_id \<noteq> lit ''rust.mode''"
    by (simp_all add: lit_eq_iff)
  ultimately have eq: "sample_modes = empty_mode_registry\<lparr>mr_modes :=
     [(core_text_mode_id, \<lparr>rm_declaration = core_text_mode (lit ''1''), rm_is_builtin = True\<rparr>),
      (core_code_mode_id, \<lparr>rm_declaration = core_code_mode (lit ''1''), rm_is_builtin = True\<rparr>),
      (lit ''rust.mode'', \<lparr>rm_declaration = sample_mode, rm_is_builtin = False\<rparr>)]\<rparr>"
    by (simp add: sample_modes_def mode_registry_new_Some register_mode_def sample_mode_patterns)
  show "mr_modes sample_modes =
     [(core_text_mode_id, \<lparr>rm_declaration = core_text_mode (lit ''1''), rm_is_builtin = True\<rparr>),
      (core_code_mode_id, \<lparr>rm_declaration = core_code_mode (lit ''1''), rm_is_builtin = True\<rparr>),
      (lit ''rust.mode'', \<lparr>rm_declaration = sample_mode, rm_is_builtin = False\<rparr>)]"
    "mr_active_major_modes sample_modes = []" "mr_active_minor_modes sample_modes = []"
    "mr_minor_modes sample_modes = []" "mr_selected_manifests sample_modes = []"
    unfolding eq by (simp_all add: empty_mode_registry_def)
qed

lemma sample_modes_reachable: "modes_reachable sample_modes"
  using mode_registry_new_Some[of "lit ''1''"]
  by (auto simp: sample_modes_def simp del: fun_upd_apply intro!: modes_reachable.intros)

lemma sample_match: "input_match sample_input None sample_mode = Some Extension_Kind"
  by (simp add: input_match_def sample_input_def sample_mode_def extension_from_path_def file_name_from_path_def
      rsplit_once_def best_match_def matches_opt_def eq_ignore_ascii_case_def usable_content_def
      ascii_lowercase_def Let_def lit_def)

lemma sample_classified:
  "classify sample_modes sample_input = Inr (mode_classification_of sample_mode 7 Extension_Kind)"
  using sample_match
  by (simp add: classify_def sample_modes_simps best_package_mode_Cons package_match_def) (simp add: sample_input_def)

lemma strongest_signal_decides_witness:
  "modes_reachable sample_modes \<and>
     (\<exists>m\<in>set (map snd (mr_modes sample_modes)).
        mode_classification_of sample_mode 7 Extension_Kind = mode_classification_of (rm_declaration m) 7 Extension_Kind)"
  using strongest_signal_decides[OF sample_modes_reachable, of sample_input] sample_modes_reachable
  by (simp add: sample_classified) (auto simp: sample_input_def)

section \<open>A document with its modes\<close>

definition sample_major :: major_mode_activation where
  "sample_major =
     \<lparr>mj_document_id = 7, mj_package_name = lit ''rust'', mj_package_version = lit ''1'', mj_api_prefix = lit ''rust'',
      mj_mode_id = lit ''rust.mode'', mj_behavior_version = 1, mj_document_font_role = Monospace_Role,
      mj_matched_by = Extension_Kind\<rparr>"

definition sample_active :: mode_registry where
  "sample_active =
     fst (activate_major_mode sample_modes sample_mode_manifest (mode_classification_of sample_mode 7 Extension_Kind))"

definition sample_package :: mode_package where
  "sample_package =
     \<lparr>mk_manifest = sample_mode_manifest,
      mk_commands = [\<lparr>cb_id = lit ''rust.run'', cb_display_name = lit ''Run'', cb_routing_policy = lit ''server-first''\<rparr>],
      mk_key_commands = []\<rparr>"

definition sample_minor :: minor_mode_declaration where
  "sample_minor =
     \<lparr>mn_package_name = lit ''rust'', mn_package_version = lit ''1'', mn_api_prefix = lit ''rust'',
      mn_mode_id = lit ''rust.tests'', mn_display_name = lit ''Tests'', mn_compatible_major_modes = [lit ''rust.mode'']\<rparr>"

definition sample_overlaid :: mode_registry where
  "sample_overlaid =
     fst (activate_minor_mode (fst (register_minor_mode sample_active sample_mode_manifest sample_minor))
       sample_mode_manifest 7 (lit ''rust.tests''))"

lemma sample_permissions:
  "ModeActivation \<in> set (cm_permissions (mf_clay sample_mode_manifest))"
  "ModeRegistration \<in> set (cm_permissions (mf_clay sample_mode_manifest))"
  "cm_modes (mf_clay sample_mode_manifest) = [lit ''rust.mode'']"
  "same_provenance sample_mode_manifest (lit ''rust'') (lit ''1'') (lit ''rust'')"
  by (simp_all add: sample_mode_manifest_def same_provenance_def)

lemma sample_active_eq: "sample_active = sample_modes\<lparr>mr_active_major_modes := [(7, sample_major)]\<rparr>"
  by (simp add: sample_active_def activate_major_mode_def sample_permissions sample_modes_simps install_major_mode_def
      next_mode_version_def sample_major_def mode_classification_of_def sample_mode_def lit_eq_iff Let_def)

lemma sample_active_reachable: "modes_reachable sample_active"
  unfolding sample_active_def by (intro modes_reachable.intros sample_modes_reachable)

lemma sample_overlaid_reachable: "modes_reachable sample_overlaid"
  unfolding sample_overlaid_def by (intro modes_reachable.intros sample_active_reachable)

lemma sample_overlaid_simps:
  "active_major_mode sample_overlaid 7 = Some sample_major"
  "minor_modes_of sample_overlaid 7 =
     [\<lparr>ma_document_id = 7, ma_package_name = lit ''rust'', ma_package_version = lit ''1'', ma_api_prefix = lit ''rust'',
       ma_mode_id = lit ''rust.tests''\<rparr>]"
proof -
  have "is_valid_api_prefix (lit ''rust'')"
    by (simp add: is_valid_api_prefix_def is_ascii_lowercase_def lit_def len_utf8_def)
  moreover have "\<not> reserved_mode_id (lit ''rust.tests'') (lit ''rust'')"
    by (simp add: reserved_mode_id_def is_package_owned_id_def strip_prefix_def str_starts_with_def lit_def)
  moreover have "\<not> blank (lit ''Tests'')" by (simp add: blank_def lit_def is_whitespace_def)
  ultimately have registered: "fst (register_minor_mode sample_active sample_mode_manifest sample_minor) =
      sample_active\<lparr>mr_minor_modes := [(lit ''rust.tests'', sample_minor)]\<rparr>"
    by (simp add: register_minor_mode_def sample_permissions sample_minor_def sample_active_eq sample_modes_simps lit_eq_iff)
  show "active_major_mode sample_overlaid 7 = Some sample_major"
    "minor_modes_of sample_overlaid 7 =
     [\<lparr>ma_document_id = 7, ma_package_name = lit ''rust'', ma_package_version = lit ''1'', ma_api_prefix = lit ''rust'',
       ma_mode_id = lit ''rust.tests''\<rparr>]"
    unfolding sample_overlaid_def registered
    by (simp_all add: activate_minor_mode_def sample_permissions sample_active_eq sample_modes_simps sample_major_def
        sample_minor_def minor_modes_of_def active_major_mode_def Let_def)
qed

lemma sample_contributes: "contributes (lit ''rust'')
    \<lparr>cb_id = lit ''rust.run'', cb_display_name = lit ''Run'', cb_routing_policy = lit ''server-first''\<rparr>"
  by (simp add: contributes_def is_package_owned_id_def strip_prefix_def str_starts_with_def parse_routing_policy_def lit_def)

lemma sample_found: "find_package (lit ''rust'') [sample_package] = Some sample_package"
  by (simp add: find_package_def sample_package_def sample_mode_manifest_def)

lemma sample_not_core: "\<not> str_starts_with (mj_mode_id sample_major) (lit ''core.'')"
  by (simp add: sample_major_def str_starts_with_def lit_def)



section \<open>The manifest of a document\<close>





text \<open>C39: A minor mode of the package that owns the major mode of a document makes every further selection of a
manifest for the document fail, and leaves the registry as it was, as soon as the package contributes one command to
its major mode: each of its commands is then declared twice.\<close>
theorem own_minor_mode_blocks_selection:
  assumes "active_major_mode r document_id = Some major"
    and "\<not> str_starts_with (mj_mode_id major) (lit ''core.'')"
    and "minor \<in> set (minor_modes_of r document_id)"
    and "ma_package_name minor = mj_package_name major" "ma_api_prefix minor = mj_api_prefix major"
    and "find_package (mj_package_name major) packages = Some package"
    and "contrib \<in> set (mk_commands package)" "contributes (mj_api_prefix major) contrib"
  shows "\<exists>e. select_behavior_manifest_for_document r document_id packages = (r, Inl e)"
proof -
  let ?base = "base_manifest major document_id"
  let ?m = "append_package_commands ?base (mj_api_prefix major) (mk_commands package)"
  have "\<not> (\<exists>m. compose_manifest packages major (minor_modes_of r document_id) document_id = Inr m)"
  proof
    assume "\<exists>m. compose_manifest packages major (minor_modes_of r document_id) document_id = Inr m"
    then obtain m m1 where m1: "major_manifest packages major document_id = Inr m1"
      "apply_minor_modes packages (cd_command_id ` set default_commands) m1 (minor_modes_of r document_id) = Inr m"
      and valid: "validate_manifest m = Inr ()"
      using compose_manifest_steps by metis
    then have "apply_minor_modes packages (cd_command_id ` set default_commands) ?m (minor_modes_of r document_id) = Inr m"
      using assms(2,6) by (simp add: major_manifest_def)
    from apply_minor_modes_adds[OF this] obtain extra' where extra': "bm_commands m = bm_commands ?m @ extra'"
      "set (minor_commands (mj_api_prefix major) (mk_commands package)) \<subseteq> set extra'"
      using assms(3-6) by metis
    obtain extra where extra: "bm_commands ?m = bm_commands ?base @ extra" "cb_id contrib \<in> cd_command_id ` set extra"
      using append_package_commands_adds[of ?base "mj_api_prefix major" "mk_commands package"] assms(7,8) by blast
    have "cb_id contrib \<in> cd_command_id ` set extra'"
      using minor_commands_contributed[OF assms(7,8)] extra'(2) by blast
    then have "\<not> distinct (map cd_command_id (bm_commands m))"
      using extra extra'(1) by auto
    then show False
      using valid by (simp add: validate_manifest_Inr manifest_ok_def)
  qed
  then show ?thesis
    using assms(1) by (auto simp: select_behavior_manifest_for_document_def active_major_mode_def split: sum.split)
qed

lemma own_minor_mode_blocks_selection_witness:
  "modes_reachable sample_overlaid
   \<and> (\<exists>e. select_behavior_manifest_for_document sample_overlaid 7 [sample_package] = (sample_overlaid, Inl e))"
proof -
  have names: "mj_package_name sample_major = lit ''rust''" "mj_api_prefix sample_major = lit ''rust''"
    by (simp_all add: sample_major_def)
  have "\<exists>e. select_behavior_manifest_for_document sample_overlaid 7 [sample_package] = (sample_overlaid, Inl e)"
  proof (rule own_minor_mode_blocks_selection[where minor =
        "\<lparr>ma_document_id = 7, ma_package_name = lit ''rust'', ma_package_version = lit ''1'',
          ma_api_prefix = lit ''rust'', ma_mode_id = lit ''rust.tests''\<rparr>"])
    show "find_package (mj_package_name sample_major) [sample_package] = Some sample_package"
      using sample_found names by simp
    show "contributes (mj_api_prefix sample_major)
        \<lparr>cb_id = lit ''rust.run'', cb_display_name = lit ''Run'', cb_routing_policy = lit ''server-first''\<rparr>"
      using sample_contributes names by simp
  qed (simp_all add: sample_overlaid_simps sample_not_core sample_package_def names)
  then show ?thesis using sample_overlaid_reachable by simp
qed

section \<open>Where the order or the past of a registry shows\<close>

text \<open>Whether two equal matches are an error depends on when a stronger match is visited: the iteration order of
the map decides.\<close>

theorem classification_follows_iteration_order:
  assumes "package_match input a = Some weak" "package_match input b = Some weak"
    and "package_match input c = Some strong" "kind_rank weak < kind_rank strong"
  shows "classify (r\<lparr>mr_modes := [(i, a), (j, b), (k, c)]\<rparr>) input = Inl Ambiguous_Classification"
    and "classify (r\<lparr>mr_modes := [(k, c), (i, a), (j, b)]\<rparr>) input =
           Inr (mode_classification_of (rm_declaration c) (ci_document_id input) strong)"
  using assms by (auto simp: classify_def best_package_mode_Cons)

text \<open>A minor mode stays active when the major mode of its document changes, compatible or not.\<close>

theorem minor_mode_outlives_major:
  assumes "activate_minor_mode r package document_id mode_id = (r1, Inr minor)"
    and "activate_builtin_major_mode r1 c = (r2, Inr major)"
    and "select_behavior_manifest_for_document r2 document_id packages = (r3, Inr s)"
  shows "minor \<in> set (sl_minor_modes s)"
proof -
  have "minor \<in> set (minor_modes_of r1 document_id)"
    using assms(1) by (auto simp: activate_minor_mode_def minor_modes_of_def Let_def update_conv
        split: if_splits option.splits)
  moreover have "minor_modes_of r2 document_id = minor_modes_of r1 document_id"
    using assms(2)
    by (auto simp: activate_builtin_major_mode_def install_major_mode_def minor_modes_of_def Let_def
        split: if_splits option.splits)
  ultimately show ?thesis
    using assms(3) by (auto simp: select_behavior_manifest_for_document_def Let_def split: option.splits sum.splits)
qed

text \<open>A mode that is no longer registered keeps governing the documents in which it is active, as long as the
records of its package are passed.\<close>

theorem unregistered_mode_still_selected:
  "snd (select_behavior_manifest_for_document (fst (unregister_mode r mode_id)) document_id packages) =
   snd (select_behavior_manifest_for_document r document_id packages)"
  by (auto simp: select_behavior_manifest_for_document_def unregister_mode_def minor_modes_of_def Let_def
      split: option.split sum.split)

text \<open>Names that merely begin like the reserved prefix can be registered but never removed.\<close>

theorem core_like_mode_stays: "unregister_mode r (lit ''corelib.mode'') = (r, False)"
  by (simp add: unregister_mode_def str_starts_with_def lit_def)

text \<open>A marker with a blank is refused.\<close>

theorem doctype_probe_refused: "\<not> valid_content_probe (lit ''<!DOCTYPE html'')"
  by (simp add: valid_content_probe_def is_whitespace_def lit_def)

section \<open>Discovery\<close>

text \<open>A mode is shown as built in exactly when its name is reserved, whether it is still registered or not, provided
the prefix of the activation is not the reserved one.\<close>

theorem provenance_by_name:
  assumes "modes_reachable r" "mj_api_prefix activation \<noteq> core_api_prefix"
  shows "provenance_of r mode_id activation = Core_Built_In \<longleftrightarrow> str_starts_with mode_id (lit ''core.'')"
  using reachable_fallback[OF assms(1)] assms(2)
  by (auto simp: provenance_of_def fallback_present_def modes_ok_def mode_entry_ok_def dest!: map_of_SomeD
      split: option.split)

end
