(* ===== verification/Spec2Isabelle.thy ===== *)
theory Spec2Isabelle
  imports Package_Properties Workspace_Properties Document_Properties Editor_Properties Session_Properties
    Tab_Registry Output_Router Snippet_Expansion Pane_Tree Pipeline_Properties Parse_Properties
    Behavior_Properties Mode_Properties
begin

text \<open>
  Verification of the core of Clay, a client/server code editor written in Rust.

  The program. A server owns the documents, the workspaces, the tabs and the script runtime; a desktop client shows
  documents and edits them. An edit is applied in the client at once, queued, sent to the server,
  validated there against the document's version, lease and locks, and acknowledged or rejected. The development follows
  that path from end to end and adds the shared state around it. All sources are under
  \<open>src/src\<close>.

  Foundations.
    \<^item> \<open>Clay_Prelude\<close>: the machine integers of the code (\<open>u64\<close> and \<open>usize\<close> as \<open>nat\<close> with saturating,
      checked and wrapping addition written out), \<open>Result\<close> as a sum, list helpers.
    \<^item> \<open>Clay_Text\<close>: Rust text as lists of Unicode scalar values with their UTF-8 lengths, byte offsets,
      scalar boundaries, slices, splices and lines.
    \<^item> \<open>Clay_Rope\<close>: the rope of the crate \<open>crop\<close>, which is not part of the repository. It is a record of
      operations and the locale \<open>crop_rope\<close> states their documented laws; a rope on a plain list satisfies them.
    \<^item> \<open>Bounded_Channel\<close>: the channels of \<open>tokio\<close>, likewise a parameter (locales \<open>bounded_channel\<close>,
      \<open>fifo_channel\<close>), with a list as an instance.
    \<^item> \<open>Edit_Protocol\<close>: edits, rejections, access and parse windows (\<open>protocol/mod.rs\<close>,
      \<open>protocol/parse.rs\<close>), and what an edit means on a text (\<open>valid_op\<close>, \<open>edited_text\<close>).

  The server.
    \<^item> \<open>Scoped_Locks\<close> (\<open>server/locks.rs\<close>): the lock table.
    \<^item> \<open>Document_State\<close>, \<open>Document_Windows\<close>, \<open>Document_Runs\<close>, \<open>Document_Properties\<close>
      (\<open>server/document.rs\<close>): the document with its lease, region locks and retained parse
      windows; what one request does; any sequence of requests.
    \<^item> \<open>Tab_Registry\<close> (\<open>server/tab_registry.rs\<close>) and \<open>Output_Router\<close> (\<open>server/output_router.rs\<close>): the
      tabs bound to connections and the fan-out of payloads to them.
    \<^item> \<open>Workspace_Registry\<close>, \<open>Workspace_Saving\<close> (\<open>server/workspace.rs\<close>): granted roots, the registry of open
      documents, and opening, saving, reloading and closing, each in its phases with and without the
      lock. \<open>Workspace_Facts\<close> has the registry invariant, \<open>Workspace_Runs\<close> the interleaving of all
      connections and other programs, \<open>Workspace_Invariant\<close> what every step preserves,
      \<open>Workspace_Properties\<close> the conclusions.

  Packages (\<open>packages/\<close>), which extend the editor and are installed, approved and enabled by the server.
    \<^item> \<open>Package_Records\<close>: capabilities, provenance, relations, manifests and records (\<open>permissions.rs\<close>,
      \<open>manager.rs\<close>, \<open>extension_points.rs\<close>, \<open>graph.rs\<close>, and the data of \<open>manifest.rs\<close> and \<open>record.rs\<close>).
    \<^item> \<open>Package_Conflicts\<close> (\<open>conflict.rs\<close>): the check for conflicts and the user's decisions on them.
    \<^item> \<open>Package_Approvals\<close>, \<open>Package_Store\<close>, \<open>Package_Store_Runs\<close>, \<open>Package_Clock\<close> (\<open>approvals.rs\<close>): approvals and
      their JSON form, the file they are kept in, what it holds when writes fail, and the date in them.
    \<^item> \<open>Package_Bundled\<close> (\<open>bundled.rs\<close>): the packages shipped with the program and their fingerprints.
    \<^item> \<open>Package_Service\<close>, \<open>Package_Grants\<close>, \<open>Package_Activation\<close> (\<open>service.rs\<close>, \<open>authorization.rs\<close>): the service.
      \<open>Package_Facts\<close> and \<open>Package_Runs\<close> carry its invariant through every operation and bound the recursion over
      the package graph; \<open>Package_Properties\<close> draws the conclusions. The validator of \<open>record.rs\<close> is a
      parameter of which only this is used: it takes the name of a package from its JSON.

  Parsing, decorations and diagnostics. After every accepted edit, and for every viewport a connection asks for,
  the server has package code parse a window of the document; what comes back is checked and routed.
    \<^item> \<open>Decoration_Sets\<close> (\<open>protocol/decorations.rs\<close>, \<open>server/decorations.rs\<close>) and \<open>Diagnostic_Sets\<close>
      (\<open>protocol/diagnostics.rs\<close>, \<open>server/diagnostics.rs\<close>): the vocabulary, the sets a package publishes, the
      checks they pass, and the composition of several diagnostic sources, equal to its documented rule.
    \<^item> \<open>Chunk_Caches\<close>: the two bounded caches of such sets. Their contract is the locale \<open>chunk_insertion\<close>,
      interpreted for both.
    \<^item> \<open>Parse_Requests\<close> (\<open>protocol/parse.rs\<close>, the checks of \<open>server/parse_coordinator.rs\<close>, the requests built in
      \<open>server/connection.rs\<close>) and \<open>Parse_Windows\<close>: which requests the checks accept, and that the server makes such.
    \<^item> \<open>Parse_Coordinator\<close> (\<open>server/parse_coordinator.rs\<close>): handlers, active tasks, versions, routing and counters,
      one definition for each stretch of code under the lock. \<open>Parse_Runs\<close> interleaves the stretches of all
      calls (\<open>parse_step\<close>) and runs calls in one piece (\<open>calm_step\<close>); \<open>Parse_Facts\<close> has an invariant of
      each; \<open>Parse_Properties\<close> draws the conclusions, with the run in which a superseded result is published.

  The client.
    \<^item> \<open>Editor_Buffer\<close>, \<open>Buffer_Motions\<close> (\<open>editor/buffer.rs\<close>) with \<open>Buffer_Facts\<close> and
      \<open>Buffer_Motion_Facts\<close>; \<open>Cursor_Selection\<close> (\<open>editor/cursor.rs\<close>, \<open>editor/selection.rs\<close>);
      \<open>Editor_Properties\<close> states what they guarantee.
    \<^item> \<open>Edit_History\<close> (\<open>editor/history.rs\<close>), \<open>Editor_Session\<close>, \<open>Session_Facts\<close>, \<open>Session_Runs\<close>,
      \<open>Session_Properties\<close> (the edit paths of \<open>editor/surface.rs\<close>): local edits with one and several
      carets, undo, redo, and whole sessions of them.
    \<^item> \<open>Snippet_Expansion\<close> (\<open>editor/snippet.rs\<close> and the snippet sessions of
      \<open>editor/surface.rs\<close>).
    \<^item> \<open>Pane_Tree\<close> (\<open>shell/layout.rs\<close>): the split tree of a tab. Ratios are rationals; the rounding of
      \<open>f64\<close> is a parameter with the laws the code needs.
    \<^item> \<open>Client_Sync\<close> (\<open>client/mod.rs\<close>): optimistic versions, pending edits and the edit queue.

  Behavior manifests, which tell a client what its keys do and which edits it may make by itself.
    \<^item> \<open>Behavior_Manifests\<close> (\<open>behavior/manifest.rs\<close> and the data and defaults of \<open>protocol/mod.rs\<close>): the
      validator, and the condition on a manifest that it amounts to.
    \<^item> \<open>Behavior_Layers\<close> (\<open>server/behavior.rs\<close>): the published manifests, of which all are valid, and the grace
      in which edits with the version before a reload still count.
    \<^item> \<open>Key_Routing\<close> (\<open>client/behavior.rs\<close>, and the pending chord of \<open>editor/surface.rs\<close>): what a key does.
      \<open>Key_Routing_Facts\<close> gives the matcher a closed form and shows which bound chords can be typed.
    \<^item> \<open>Key_Commands\<close>, \<open>Key_Chords\<close> (\<open>server/ops/keybindings.rs\<close>, the binding operations of \<open>server/ops/mod.rs\<close>,
      the query names of \<open>protocol/textobjects.rs\<close>): chords as text, binding and unbinding. \<open>Key_Chords_Facts\<close>
      has printing and parsing as inverses and what binding changes; \<open>Behavior_Properties\<close> draws the conclusions,
      from the text of a configuration to the key that runs its command.

  Modes (\<open>packages/modes.rs\<close>), which say what kind of document a file is and what its package adds to its manifest.
    \<^item> \<open>Mode_Registry\<close>: declarations, the built-in modes, the patterns and how a mode matches a document.
    \<^item> \<open>Mode_Activation\<close>: registration and withdrawal, \<open>classify\<close>, activation of major and minor modes, and the
      manifest composed of them. Maps are association lists whose order stands for that of \<open>HashMap\<close>.
    \<^item> \<open>Mode_Facts\<close>: the loop of \<open>classify\<close>, the registries that can be reached, and which commands a
      composition adds; \<open>Mode_Properties\<close>: the strongest signal decides, a package adds only intents for the server,
      and where order, withdrawal and minor modes depart from the description.

  The whole path. \<open>Edit_Pipeline\<close> puts the session, the queue, the channel, the wire and the document
  together as a step relation, with other connections interleaved, and carries one invariant through every step;
  \<open>Pipeline_Properties\<close> draws the conclusions: no edit is refused, the texts differ by exactly
  the edits under way, everything can be delivered, and what happens when the channel is full.

  How the code is translated. A struct is a record, an enum a datatype, a method a function from the old state to
  the new one and its result, in the order of the code's checks and early returns. \<open>Option\<close> is
  \<open>option\<close>, \<open>Result\<close> a sum, a panic of the code the value \<open>None\<close> of the whole call. Identifiers,
  versions and offsets are natural numbers, bounded where the code's types bound them. State that the code
  protects by a lock or that one task owns is changed in single steps. Clocks, Unicode tables, floating-point
  rounding and hash orders are parameters.

  Bounds and fuel. \<open>u64_max\<close> is the bound of versions, ids and, on the 64-bit targets of the program,
  of \<open>usize\<close>; properties that need a counter below it say so. A write to the disk is
  assumed to give a file metadata (length and modification time) not seen before, which is what the
  code relies on to notice foreign changes. Loops that re-read the text take
  fuel (the length of the text suffices, and the motion properties show that it is not used
  up); all others terminate by a measure.

  Not modelled: the widget toolkit and everything painted with it, the script engine and the operations exported to
  scripts (but for the key bindings), asynchronous tasks and sockets (but for the interleavings stated above), directory listings and git access, syntax trees and
  conversations with language servers, the parsing of package manifests and the package manager process. These parts call libraries outside the repository or only pass
  data on.
\<close>

end
